(* ===== verification/Prelude.thy ===== *)
theory Prelude
  imports Main "HOL-Library.Char_ord" "HOL-Library.List_Lexorder" "HOL-Library.Word"
begin

text \<open>
  The vocabulary every theory of the development shares.

  A Go string is a byte string, so it is a HOL \<open>string\<close> (a list of 8-bit characters);
  the order on strings is the bytewise lexicographic order of Go's \<open><\<close>.
  A Go \<open>error\<close> value is an \<open>err\<close>: the sentinel that \<open>errors.Is\<close> and the
  \<open>IsNotFound\<close> family can observe, together with the text of \<open>Error()\<close>.
  A function that returns \<open>(T, error)\<close> returns \<open>err + 'a\<close>.
  A Go \<open>map[string]string\<close> is a map; reading an absent key gives the empty string.
\<close>

section \<open>Collections of facts\<close>

named_theorems store_laws \<open>lookup-after-update laws of the object stores\<close>
named_theorems bind_simps \<open>unfolding of the error and state combinators\<close>

section \<open>Errors\<close>

datatype sentinel =
    SNotFound
  | SNoMatch
  | SClusterRepoNotReady
  | SCatalogClientNotConfigured
  | SUnauthorized
  | SChartTooLarge
  | SReleasePending
  | SInvalidInput
  | SConflict
  | SAlreadyExists
  | SInvalid
  | SForbidden
  | SCANotFound
  | SOther

datatype err = Err (err_is: sentinel) (err_text: string)

text \<open>\<open>fmt.Errorf("prefix: %w", err)\<close> keeps the sentinel and prefixes the text.\<close>

definition wrap_err :: "string \<Rightarrow> err \<Rightarrow> err" where
  "wrap_err p e = Err (err_is e) (p @ '': '' @ err_text e)"

lemma err_is_wrap_err [simp]: "err_is (wrap_err p e) = err_is e"
  by (simp add: wrap_err_def)

definition ebind :: "err + 'a \<Rightarrow> ('a \<Rightarrow> err + 'b) \<Rightarrow> err + 'b" where
  "ebind r f = (case r of Inl e \<Rightarrow> Inl e | Inr a \<Rightarrow> f a)"

lemma ebind_simps [simp, bind_simps]:
  "ebind (Inl e) f = Inl e"
  "ebind (Inr a) f = f a"
  by (simp_all add: ebind_def)

lemma ebind_Inr_iff: "ebind r f = Inr b \<longleftrightarrow> (\<exists>a. r = Inr a \<and> f a = Inr b)"
  by (cases r) auto

section \<open>Fallible state passing\<close>

text \<open>
  A method that talks to the API server threads the state of the world and may return an
  error; what it did before the error stays done. \<open>('s, 'a) act\<close> is such a method.
\<close>

type_synonym ('s, 'a) act = "'s \<Rightarrow> (err + 'a) \<times> 's"

definition ret :: "'a \<Rightarrow> ('s, 'a) act" where
  "ret a s = (Inr a, s)"

definition throw :: "err \<Rightarrow> ('s, 'a) act" where
  "throw e s = (Inl e, s)"

definition bnd :: "('s, 'a) act \<Rightarrow> ('a \<Rightarrow> ('s, 'b) act) \<Rightarrow> ('s, 'b) act" where
  "bnd m f s = (case m s of (Inl e, s') \<Rightarrow> (Inl e, s') | (Inr a, s') \<Rightarrow> f a s')"

text \<open>\<open>try m\<close> hands the error to the caller as a value, as Go's \<open>x, err := m()\<close> does.\<close>

definition try_act :: "('s, 'a) act \<Rightarrow> ('s, err + 'a) act" where
  "try_act m s = (case m s of (r, s') \<Rightarrow> (Inr r, s'))"

definition get_st :: "('s, 's) act" where
  "get_st s = (Inr s, s)"

definition modify_st :: "('s \<Rightarrow> 's) \<Rightarrow> ('s, unit) act" where
  "modify_st f s = (Inr (), f s)"

text \<open>A \<open>for\<close> loop whose body may return an error, which ends the loop.\<close>

fun for_each :: "'b list \<Rightarrow> ('b \<Rightarrow> ('s, unit) act) \<Rightarrow> ('s, unit) act" where
  "for_each [] f s = (Inr (), s)"
| "for_each (x # xs) f s = (case f x s of (Inl e, s') \<Rightarrow> (Inl e, s') | (Inr _, s') \<Rightarrow> for_each xs f s')"

lemma act_simps [bind_simps]:
  "ret a s = (Inr a, s)"
  "throw e s = (Inl e, s)"
  "get_st s = (Inr s, s)"
  "modify_st f s = (Inr (), f s)"
  by (simp_all add: ret_def throw_def get_st_def modify_st_def)

lemma bnd_apply [bind_simps]:
  "bnd m f s = (case m s of (Inl e, s') \<Rightarrow> (Inl e, s') | (Inr a, s') \<Rightarrow> f a s')"
  by (simp add: bnd_def)

lemma try_apply [bind_simps]: "try_act m s = (Inr (fst (m s)), snd (m s))"
  by (simp add: try_act_def split: prod.split)

text \<open>A state predicate that every call of the body keeps is kept by the loop.\<close>

lemma for_each_inv:
  assumes "P s" and "\<And>x s. x \<in> set xs \<Longrightarrow> P s \<Longrightarrow> P (snd (f x s))"
  shows "P (snd (for_each xs f s))"
  using assms
proof (induction xs arbitrary: s)
  case Nil
  then show ?case by simp
next
  case (Cons x xs)
  have "P (snd (f x s))" using Cons.prems by simp
  then show ?case
    using Cons.IH [of "snd (f x s)"] Cons.prems(2) by (auto split: prod.split sum.split)
qed

text \<open>Loops in loops, loops that skip, and a loop that writes a store at the key of each element.\<close>

lemma for_each_append:
  "for_each (xs @ ys) f s = (case for_each xs f s of (Inl e, s') \<Rightarrow> (Inl e, s') | (Inr _, s') \<Rightarrow> for_each ys f s')"
  by (induction xs arbitrary: s) (auto split: prod.split sum.split)

lemma for_each_skip: "for_each xs (\<lambda>x. if P x then ret () else f x) s = for_each (filter (\<lambda>x. \<not> P x) xs) f s"
  by (induction xs arbitrary: s) (auto simp: ret_def split: prod.split sum.split)

lemma for_each_map: "for_each (map g xs) f s = for_each xs (\<lambda>x. f (g x)) s"
  by (induction xs arbitrary: s) (auto split: prod.split sum.split)

lemma for_each_nested:
  "for_each xs (\<lambda>x. for_each (ys x) (g x)) s = for_each (concat (map (\<lambda>x. map (Pair x) (ys x)) xs)) (\<lambda>(x, y). g x y) s"
  by (induction xs arbitrary: s) (auto simp: for_each_append for_each_map split: prod.split sum.split)

lemma for_each_sets_inv:
  assumes "for_each xs f s = (Inr u, s')" "I s"
    and "\<And>x s s'. x \<in> set xs \<Longrightarrow> I s \<Longrightarrow> f x s = (Inr (), s') \<Longrightarrow>
           I s' \<and> Q x (L s' (key x)) \<and> (\<forall>k. k \<noteq> key x \<longrightarrow> L s' k = L s k)"
    and "\<And>x y. x \<in> set xs \<Longrightarrow> y \<in> set xs \<Longrightarrow> key x = key y \<Longrightarrow> Q x = Q y"
  shows "I s' \<and> (\<forall>x \<in> set xs. Q x (L s' (key x))) \<and> (\<forall>k. k \<notin> key ` set xs \<longrightarrow> L s' k = L s k)"
  using assms
proof (induction xs arbitrary: s)
  case Nil
  from Nil(1) have "s' = s" by simp
  then show ?case using Nil(2) by simp
next
  case (Cons x xs)
  obtain r s1 where f: "f x s = (r, s1)" by (cases "f x s")
  then have r: "r = Inr ()" using Cons.prems(1) by (cases r) simp_all
  note st = Cons.prems(3) [of x s s1, OF list.set_intros(1) Cons.prems(2) f [unfolded r]]
  have rest: "for_each xs f s1 = (Inr u, s')" using Cons.prems(1) f r by simp
  have ih: "I s' \<and> (\<forall>y \<in> set xs. Q y (L s' (key y))) \<and> (\<forall>k. k \<notin> key ` set xs \<longrightarrow> L s' k = L s1 k)"
    by (rule Cons.IH [OF rest conjunct1 [OF st] Cons.prems(3) [OF list.set_intros(2)] Cons.prems(4) [OF list.set_intros(2) list.set_intros(2)]])
  have "Q x (L s' (key x))"
  proof (cases "key x \<in> key ` set xs")
    case True
    then obtain y where y: "y \<in> set xs" "key y = key x" by auto
    have "Q x = Q y" by (rule Cons.prems(4)) (simp_all add: y)
    then show ?thesis using ih y by auto
  next
    case False
    then show ?thesis using ih st by simp
  qed
  then show ?case using ih st by auto
qed

lemma for_each_sets:
  assumes "for_each xs f s = (Inr u, s')"
    and "\<And>x s s'. x \<in> set xs \<Longrightarrow> f x s = (Inr (), s') \<Longrightarrow> Q x (L s' (key x)) \<and> (\<forall>k. k \<noteq> key x \<longrightarrow> L s' k = L s k)"
    and "\<And>x y. x \<in> set xs \<Longrightarrow> y \<in> set xs \<Longrightarrow> key x = key y \<Longrightarrow> Q x = Q y"
  shows "(\<forall>x \<in> set xs. Q x (L s' (key x))) \<and> (\<forall>k. k \<notin> key ` set xs \<longrightarrow> L s' k = L s k)"
proof -
  have step: "True \<and> Q x (L s' (key x)) \<and> (\<forall>k. k \<noteq> key x \<longrightarrow> L s' k = L s k)"
    if "x \<in> set xs" "True" "f x s = (Inr (), s')" for x s s'
    using assms(2) [OF that(1,3)] by simp
  show ?thesis
    by (rule conjunct2 [OF for_each_sets_inv [where I = "\<lambda>_. True", OF assms(1) TrueI step assms(3)]])
qed

text \<open>An observation of the state that an action leaves alone.\<close>

definition leaves :: "('s \<Rightarrow> 'o) \<Rightarrow> ('s, 'a) act \<Rightarrow> bool" where
  "leaves obs m \<longleftrightarrow> (\<forall>s. obs (snd (m s)) = obs s)"

lemma leavesD: "leaves obs m \<Longrightarrow> m s = (r, s') \<Longrightarrow> obs s' = obs s"
  unfolding leaves_def by (metis snd_conv)

lemma leaves_for_each: "(\<And>x. x \<in> set xs \<Longrightarrow> leaves obs (f x)) \<Longrightarrow> leaves obs (for_each xs f)"
  unfolding leaves_def
proof
  fix s assume "\<And>x. x \<in> set xs \<Longrightarrow> \<forall>s. obs (snd (f x s)) = obs s"
  then show "obs (snd (for_each xs f s)) = obs s"
    using for_each_inv [of "\<lambda>s'. obs s' = obs s" s xs f] by simp
qed

lemma leaves_bnd: "leaves obs m \<Longrightarrow> (\<And>x. leaves obs (f x)) \<Longrightarrow> leaves obs (bnd m f)"
  by (auto simp: leaves_def bnd_def split: prod.split sum.split) (metis snd_conv)+

lemma bnd_Inr: "bnd m f s = (Inr b, s') \<longleftrightarrow> (\<exists>a s1. m s = (Inr a, s1) \<and> f a s1 = (Inr b, s'))"
  by (auto simp: bnd_def split: prod.splits sum.splits)

section \<open>String maps\<close>

type_synonym smap = "string \<Rightarrow> string option"

definition mget :: "smap \<Rightarrow> string \<Rightarrow> string" where
  "mget m k = (case m k of None \<Rightarrow> '''' | Some v \<Rightarrow> v)"

lemma mget_upd [simp]: "mget (m(k \<mapsto> v)) k' = (if k' = k then v else mget m k')"
  by (simp add: mget_def)

lemma mget_del [simp]: "mget (m(k := None)) k' = (if k' = k then '''' else mget m k')"
  by (simp add: mget_def)

lemma mget_empty [simp]: "mget Map.empty k = ''''"
  by (simp add: mget_def)

section \<open>Collecting the results of a fallible loop\<close>

text \<open>A loop that appends what its body returns and stops at the first error.\<close>

fun ecollect :: "('a \<Rightarrow> err + 'b list) \<Rightarrow> 'a list \<Rightarrow> err + 'b list" where
  "ecollect f [] = Inr []"
| "ecollect f (x # xs) = (case f x of Inl e \<Rightarrow> Inl e
     | Inr ys \<Rightarrow> (case ecollect f xs of Inl e \<Rightarrow> Inl e | Inr zs \<Rightarrow> Inr (ys @ zs)))"

lemma ecollect_member:
  "ecollect f xs = Inr ys \<Longrightarrow> y \<in> set ys \<longleftrightarrow> (\<exists>x \<in> set xs. \<exists>zs. f x = Inr zs \<and> y \<in> set zs)"
proof (induction xs arbitrary: ys)
  case (Cons x xs)
  from Cons.prems obtain as bs where "f x = Inr as" "ecollect f xs = Inr bs" "ys = as @ bs"
    by (simp split: sum.splits)
  then show ?case using Cons.IH [of bs] by simp
qed simp

lemma ecollect_all_ok: "ecollect f xs = Inr ys \<Longrightarrow> x \<in> set xs \<Longrightarrow> \<exists>zs. f x = Inr zs \<and> set zs \<subseteq> set ys"
proof (induction xs arbitrary: ys)
  case (Cons a xs)
  from Cons.prems(1) obtain as bs where h: "f a = Inr as" "ecollect f xs = Inr bs" "ys = as @ bs"
    by (simp split: sum.splits)
  show ?case
  proof (cases "x = a")
    case False
    then have "x \<in> set xs" using Cons.prems(2) by simp
    from Cons.IH [OF h(2) this] show ?thesis using h(3) by auto
  qed (use h in simp)
qed simp

lemma ecollect_map:
  assumes "ecollect f xs = Inr ys" "\<And>x zs. f x = Inr zs \<Longrightarrow> map g zs = h x"
  shows "map g ys = concat (map h xs)"
  using assms(1)
proof (induction xs arbitrary: ys)
  case (Cons x xs)
  from Cons.prems obtain as bs where "f x = Inr as" "ecollect f xs = Inr bs" "ys = as @ bs"
    by (simp split: sum.splits)
  then show ?case using Cons.IH [of bs] assms(2) [of x as] by simp
qed simp

end
