(* ===== verification/GoStrings.thy ===== *)
theory GoStrings
  imports Prelude
begin

text \<open>
  The functions of Go's \<open>strings\<close>, \<open>strconv\<close> and \<open>hash/fnv\<close> that the operator
  uses, and on them the name derivation of \<open>internal/naming/naming.go\<close>,
  \<open>internal/registryurl/host.go\<close> and the name helpers of
  \<open>internal/controller/aiworkload/blueprint.go\<close> (\<open>capReleaseName\<close>,
  \<open>bpCRName\<close>, \<open>ociChartRef\<close>).
\<close>

section \<open>Package strings\<close>

definition has_prefix :: "string \<Rightarrow> string \<Rightarrow> bool" where
  "has_prefix s p \<longleftrightarrow> take (length p) s = p"

definition has_suffix :: "string \<Rightarrow> string \<Rightarrow> bool" where
  "has_suffix s p \<longleftrightarrow> length p \<le> length s \<and> drop (length s - length p) s = p"

definition trim_prefix :: "string \<Rightarrow> string \<Rightarrow> string" where
  "trim_prefix s p = (if has_prefix s p then drop (length p) s else s)"

text \<open>\<open>%q\<close> of a text without special characters.\<close>

definition go_quoted :: "string \<Rightarrow> string" where "go_quoted s = ''\"'' @ s @ ''\"''"

definition trim_suffix :: "string \<Rightarrow> string \<Rightarrow> string" where
  "trim_suffix s p = (if has_suffix s p then take (length s - length p) s else s)"

definition trim_right :: "char \<Rightarrow> string \<Rightarrow> string" where
  "trim_right c s = rev (dropWhile (\<lambda>x. x = c) (rev s))"

definition trim_both :: "char \<Rightarrow> string \<Rightarrow> string" where
  "trim_both c s = trim_right c (dropWhile (\<lambda>x. x = c) s)"

text \<open>\<open>strings.IndexByte\<close> and \<open>strings.Index\<close>; \<open>None\<close> is the result \<open>-1\<close>.\<close>

fun index_byte :: "string \<Rightarrow> char \<Rightarrow> nat option" where
  "index_byte [] c = None"
| "index_byte (x # xs) c = (if x = c then Some 0 else map_option Suc (index_byte xs c))"

fun index_str :: "string \<Rightarrow> string \<Rightarrow> nat option" where
  "index_str [] p = (if p = [] then Some 0 else None)"
| "index_str (x # xs) p =
     (if has_prefix (x # xs) p then Some 0 else map_option Suc (index_str xs p))"

definition replace_char :: "char \<Rightarrow> string \<Rightarrow> string \<Rightarrow> string" where
  "replace_char c r s = concat (map (\<lambda>x. if x = c then r else [x]) s)"

fun join :: "string \<Rightarrow> string list \<Rightarrow> string" where
  "join sep [] = ''''"
| "join sep [x] = x"
| "join sep (x # y # ys) = x @ sep @ join sep (y # ys)"

lemma index_byte_None [simp]: "index_byte s c = None \<longleftrightarrow> c \<notin> set s"
  by (induction s) auto

lemma index_byte_absent [simp]: "c \<notin> set s \<Longrightarrow> index_byte s c = None"
  by simp

lemma index_byte_Some: "index_byte s c = Some i \<Longrightarrow> i < length s \<and> take i s = takeWhile (\<lambda>x. x \<noteq> c) s \<and> s ! i = c"
  by (induction s arbitrary: i) (auto split: if_splits)

lemma index_str_None_mono: "index_str s p = None \<Longrightarrow> c \<in> set p \<or> p \<noteq> []"
  by (induction s) (auto split: if_splits simp: has_prefix_def)

lemma index_str_set: "index_str s p = Some i \<Longrightarrow> set p \<subseteq> set s"
proof (induction s arbitrary: i)
  case (Cons x xs)
  show ?case
  proof (cases "has_prefix (x # xs) p")
    case True
    then show ?thesis unfolding has_prefix_def by (metis set_take_subset)
  next
    case False
    then show ?thesis using Cons by auto
  qed
qed (auto split: if_splits)

lemma has_prefix_append [simp]: "has_prefix (p @ s) p"
  by (simp add: has_prefix_def)

lemma has_suffix_append [simp]: "has_suffix (s @ p) p"
  by (simp add: has_suffix_def)

lemma trim_right_append_neq [simp]: "x \<noteq> c \<Longrightarrow> trim_right c (s @ [x]) = s @ [x]"
  by (simp add: trim_right_def)

lemma trim_right_length: "length (trim_right c s) \<le> length s"
  unfolding trim_right_def using length_dropWhile_le [of _ "rev s"] by simp

lemma trim_right_last: "trim_right c s \<noteq> [] \<Longrightarrow> last (trim_right c s) \<noteq> c"
  unfolding trim_right_def
  using hd_dropWhile [of "\<lambda>x. x = c" "rev s"] by (simp add: last_rev)

lemma trim_right_set: "set (trim_right c s) \<subseteq> set s"
  unfolding trim_right_def by (auto dest: set_dropWhileD)

lemma trim_right_take: "\<exists>n. trim_right c s = take n s"
proof -
  have "dropWhile (\<lambda>x. x = c) (rev s) = drop (length (takeWhile (\<lambda>x. x = c) (rev s))) (rev s)"
    by (simp add: dropWhile_eq_drop)
  then show ?thesis unfolding trim_right_def by (metis rev_drop rev_rev_ident)
qed

lemma trim_right_hd: "trim_right c s \<noteq> [] \<Longrightarrow> hd (trim_right c s) = hd s"
  by (metis hd_take take_eq_Nil trim_right_take gr0I)

lemma trim_both_last: "trim_both c s \<noteq> [] \<Longrightarrow> last (trim_both c s) \<noteq> c"
  by (simp add: trim_both_def trim_right_last)

lemma trim_both_hd: "trim_both c s \<noteq> [] \<Longrightarrow> hd (trim_both c s) \<noteq> c"
proof -
  assume ne: "trim_both c s \<noteq> []"
  then have "dropWhile (\<lambda>x. x = c) s \<noteq> []"
    unfolding trim_both_def trim_right_def by (cases "dropWhile (\<lambda>x. x = c) s") simp_all
  then have "hd (dropWhile (\<lambda>x. x = c) s) \<noteq> c"
    by (rule hd_dropWhile)
  then show ?thesis
    using trim_right_hd [of c "dropWhile (\<lambda>x. x = c) s"] ne by (simp add: trim_both_def)
qed

lemma trim_both_length: "length (trim_both c s) \<le> length s"
  unfolding trim_both_def
  by (rule le_trans [OF trim_right_length length_dropWhile_le])

lemma trim_both_set: "set (trim_both c s) \<subseteq> set s"
  unfolding trim_both_def using trim_right_set [of c "dropWhile (\<lambda>x. x = c) s"]
  by (auto dest: set_dropWhileD)


section \<open>Package strconv: base 36\<close>

definition digit36 :: "nat \<Rightarrow> char" where
  "digit36 n = ''0123456789abcdefghijklmnopqrstuvwxyz'' ! n"

fun base36 :: "nat \<Rightarrow> string" where
  "base36 n = (if n < 36 then [digit36 n] else base36 (n div 36) @ [digit36 (n mod 36)])"

declare base36.simps [simp del]

text \<open>The bytes a DNS-1123 label may consist of, besides the dash.\<close>

definition alnum :: "char set" where
  "alnum = set ''0123456789abcdefghijklmnopqrstuvwxyz''"

lemma digit36_alnum: "n < 36 \<Longrightarrow> digit36 n \<in> alnum"
  unfolding alnum_def digit36_def by (rule nth_mem) simp

lemma base36_nonempty [simp]: "base36 n \<noteq> []"
  by (subst base36.simps) simp

lemma base36_alnum: "set (base36 n) \<subseteq> alnum"
proof (induction n rule: base36.induct)
  case (1 n)
  then show ?case
    by (subst base36.simps) (auto intro: digit36_alnum)
qed

lemma base36_length: "n < 36 ^ Suc k \<Longrightarrow> length (base36 n) \<le> Suc k"
proof (induction k arbitrary: n)
  case 0
  then show ?case by (subst base36.simps) simp
next
  case (Suc k)
  have "n div 36 < 36 ^ Suc k"
    using Suc.prems by (auto simp: less_mult_imp_div_less)
  from Suc.IH [OF this] show ?case by (subst base36.simps) simp
qed

lemma dash_not_alnum [simp]: "CHR ''-'' \<notin> alnum"
  by (simp add: alnum_def)

section \<open>Package hash/fnv: 32-bit FNV-1a\<close>

definition fnv32a :: "string \<Rightarrow> 32 word" where
  "fnv32a s = foldl (\<lambda>h c. xor h (of_nat (of_char c)) * 16777619) 2166136261 s"

text \<open>The same hash on \<open>int\<close>, the form the simplifier evaluates.\<close>

fun fnv_int :: "int \<Rightarrow> string \<Rightarrow> int" where
  "fnv_int h [] = h"
| "fnv_int h (c # s) = fnv_int ((xor h (int (of_char c)) * 16777619) mod 4294967296) s"

lemma uint_fnv_fold:
  "uint (foldl (\<lambda>h c. xor h (of_nat (of_char c)) * 16777619) (h :: 32 word) s) = fnv_int (uint h) s"
proof (induction s arbitrary: h)
  case (Cons c s)
  have "of_char c < (4294967296::nat)" by (rule less_trans [OF nat_of_char_less_256]) simp
  then have "uint (of_nat (of_char c) :: 32 word) = int (of_char c)"
    by (simp add: unsigned_of_nat take_bit_nat_eq_self)
  then have "uint (xor h (of_nat (of_char c)) * (16777619 :: 32 word))
      = (xor (uint h) (int (of_char c)) * 16777619) mod 4294967296"
    by (simp add: uint_word_ariths unsigned_xor_eq)
  then show ?case using Cons by simp
qed simp

lemma unat_fnv32a: "unat (fnv32a s) = nat (fnv_int 2166136261 s)"
  unfolding fnv32a_def unat_eq_nat_uint using uint_fnv_fold [of 2166136261 s] by simp

definition hash_suffix :: "string \<Rightarrow> string" where
  "hash_suffix s = take 6 (base36 (unat (fnv32a s)))"

lemma hash_suffix_length: "0 < length (hash_suffix s)" "length (hash_suffix s) \<le> 6"
  by (simp_all add: hash_suffix_def)

lemma hash_suffix_alnum: "set (hash_suffix s) \<subseteq> alnum"
  unfolding hash_suffix_def using base36_alnum set_take_subset by fastforce

lemma hash_suffix_last: "last (hash_suffix s) \<noteq> CHR ''-''"
proof -
  have "last (hash_suffix s) \<in> set (hash_suffix s)"
    using hash_suffix_length(1) [of s] by (intro last_in_set) auto
  then have "last (hash_suffix s) \<in> alnum" using hash_suffix_alnum [of s] by blast
  then show ?thesis using dash_not_alnum by metis
qed

section \<open>internal/naming/naming.go\<close>

text \<open>
  \<open>strings.ToLower\<close> on a UTF-8 string, as far as the class \<open>[a-z0-9]\<close> of
  \<open>nonAlphanumRE\<close> can see it. The runes whose lower case is in the class are the ASCII
  capitals, U+212A (Kelvin sign, bytes E2 84 AA, to \<open>k\<close>) and U+0130 (dotted capital I,
  bytes C4 B0, to \<open>i\<close>). Every other rune outside ASCII stays outside the class, so its
  bytes are left as they are.
\<close>

definition lower_ascii :: "char \<Rightarrow> char" where
  "lower_ascii c = (let n = of_char c :: nat in if 65 \<le> n \<and> n \<le> 90 then char_of (n + 32) else c)"

fun to_lower :: "string \<Rightarrow> string" where
  "to_lower [] = []"
| "to_lower (a # s) =
     (if take 3 (a # s) = [CHR 0xE2, CHR 0x84, CHR 0xAA] then CHR ''k'' # to_lower (drop 2 s)
      else if take 2 (a # s) = [CHR 0xC4, CHR 0xB0] then CHR ''i'' # to_lower (drop 1 s)
      else lower_ascii a # to_lower s)"

text \<open>\<open>nonAlphanumRE.ReplaceAllString(s, "-")\<close>: each maximal run becomes one dash.\<close>

fun dash_runs :: "bool \<Rightarrow> string \<Rightarrow> string" where
  "dash_runs in_run [] = []"
| "dash_runs in_run (c # s) =
     (if c \<in> alnum then c # dash_runs False s
      else if in_run then dash_runs True s
      else CHR ''-'' # dash_runs True s)"

definition Slugify :: "string \<Rightarrow> string" where
  "Slugify s = trim_both CHR ''-'' (dash_runs False (to_lower s))"

text \<open>
  \<open>None\<close> is the run-time panic of the slice expression \<open>s[:max-len(suffix)-1]\<close> when its
  bound is negative.
\<close>

definition TruncateDNS1123Label :: "string \<Rightarrow> int \<Rightarrow> string option" where
  "TruncateDNS1123Label s mx =
     (if int (length s) \<le> mx then Some s
      else
        let suffix = hash_suffix s;
            bound = mx - int (length suffix) - 1
        in if bound < 0 then None
           else let head = trim_right CHR ''-'' (take (nat bound) s)
                in if head = [] then Some suffix else Some (head @ ''-'' @ suffix))"

text \<open>The limit of every caller is 63, where the slice bound is never negative.\<close>

definition label63 :: "string \<Rightarrow> string" where
  "label63 s = the (TruncateDNS1123Label s 63)"

lemma dash_runs_set: "set (dash_runs b s) \<subseteq> insert CHR ''-'' alnum"
  by (induction b s rule: dash_runs.induct) auto

fun no_double_dash :: "string \<Rightarrow> bool" where
  "no_double_dash (a # b # s) = (\<not> (a = CHR ''-'' \<and> b = CHR ''-'') \<and> no_double_dash (b # s))"
| "no_double_dash s = True"

lemma no_double_dash_Cons:
  "no_double_dash (c # s) \<longleftrightarrow> no_double_dash s \<and> \<not> (c = CHR ''-'' \<and> s \<noteq> [] \<and> hd s = CHR ''-'')"
  by (cases s) auto

lemma dash_runs_no_double:
  "no_double_dash (dash_runs b s) \<and> (b \<longrightarrow> dash_runs b s = [] \<or> hd (dash_runs b s) \<noteq> CHR ''-'')"
proof (induction b s rule: dash_runs.induct)
  case (2 b c s)
  then show ?case
    by (cases "c \<in> alnum") (auto simp: no_double_dash_Cons)
qed simp

lemma no_double_dash_take: "no_double_dash s \<Longrightarrow> no_double_dash (take n s)"
proof (induction s arbitrary: n)
  case (Cons a s)
  show ?case
  proof (cases n)
    case (Suc m)
    have "no_double_dash (take m s)" using Cons by (simp add: no_double_dash_Cons)
    moreover have "take m s \<noteq> [] \<Longrightarrow> hd (take m s) = hd s" by (cases m) auto
    ultimately show ?thesis using Cons.prems Suc by (auto simp: no_double_dash_Cons)
  qed simp
qed simp

lemma no_double_dash_dropWhile: "no_double_dash s \<Longrightarrow> no_double_dash (dropWhile P s)"
  by (induction s) (auto simp: no_double_dash_Cons)

lemma no_double_dash_trim: "no_double_dash s \<Longrightarrow> no_double_dash (trim_both c s)"
  unfolding trim_both_def
  by (metis no_double_dash_dropWhile no_double_dash_take trim_right_take)

lemma Slugify_set: "set (Slugify s) \<subseteq> insert CHR ''-'' alnum"
  unfolding Slugify_def using trim_both_set dash_runs_set by fastforce

lemma dash_runs_id:
  "set s \<subseteq> insert CHR ''-'' alnum \<Longrightarrow> no_double_dash s \<Longrightarrow>
   (b \<Longrightarrow> s = [] \<or> hd s \<noteq> CHR ''-'') \<Longrightarrow> dash_runs b s = s"
proof (induction b s rule: dash_runs.induct)
  case (2 b c s)
  then show ?case by (cases "c \<in> alnum") (auto simp: no_double_dash_Cons)
qed simp

lemma lower_ascii_id: "c \<in> insert CHR ''-'' alnum \<Longrightarrow> lower_ascii c = c"
  by (auto simp: alnum_def lower_ascii_def Let_def)

lemma to_lower_id: "set s \<subseteq> insert CHR ''-'' alnum \<Longrightarrow> to_lower s = s"
proof (induction s)
  case (Cons a s)
  have "a \<noteq> CHR 0xE2" "a \<noteq> CHR 0xC4"
    using Cons.prems by (auto simp: alnum_def)
  then show ?case using Cons by (simp add: lower_ascii_id)
qed simp

lemma trim_right_id: "s = [] \<or> last s \<noteq> c \<Longrightarrow> trim_right c s = s"
  by (cases s rule: rev_cases) (auto simp: trim_right_def)

lemma trim_both_id: "s = [] \<or> (hd s \<noteq> c \<and> last s \<noteq> c) \<Longrightarrow> trim_both c s = s"
  by (cases s) (auto simp: trim_both_def trim_right_id)


lemma Slugify_ends:
  "Slugify s \<noteq> [] \<Longrightarrow> hd (Slugify s) \<noteq> CHR ''-''"
  "Slugify s \<noteq> [] \<Longrightarrow> last (Slugify s) \<noteq> CHR ''-''"
  by (simp_all add: Slugify_def trim_both_hd trim_both_last)

lemma Slugify_no_double: "no_double_dash (Slugify s)"
  unfolding Slugify_def by (rule no_double_dash_trim) (simp add: dash_runs_no_double)

lemma Slugify_idem: "Slugify (Slugify s) = Slugify s"
proof -
  have "Slugify (Slugify s) = trim_both CHR ''-'' (dash_runs False (Slugify s))"
    unfolding Slugify_def [of "Slugify s"] by (simp add: to_lower_id Slugify_set)
  also have "dash_runs False (Slugify s) = Slugify s"
    by (rule dash_runs_id) (simp_all add: Slugify_set Slugify_no_double)
  also have "trim_both CHR ''-'' (Slugify s) = Slugify s"
    by (rule trim_both_id) (use Slugify_ends [of s] in blast)
  finally show ?thesis .
qed

text \<open>
  A slug consists of lower-case letters, digits and dashes, has no dash at either end and
  no two adjacent dashes, and slugging it again changes nothing.
\<close>

theorem slugify_canonical:
  "set (Slugify s) \<subseteq> insert CHR ''-'' alnum
   \<and> (Slugify s = [] \<or> hd (Slugify s) \<noteq> CHR ''-'' \<and> last (Slugify s) \<noteq> CHR ''-'')
   \<and> no_double_dash (Slugify s)
   \<and> Slugify (Slugify s) = Slugify s"
  using Slugify_set Slugify_ends Slugify_no_double Slugify_idem by blast

lemma truncate_short: "int (length s) \<le> mx \<Longrightarrow> TruncateDNS1123Label s mx = Some s"
  by (simp add: TruncateDNS1123Label_def)

lemma truncate_long:
  assumes "mx < int (length s)" "7 \<le> mx"
  obtains head where "TruncateDNS1123Label s mx = Some (if head = [] then hash_suffix s else head @ ''-'' @ hash_suffix s)"
    and "head = trim_right CHR ''-'' (take (nat (mx - int (length (hash_suffix s)) - 1)) s)"
    and "int (length head) + 1 + int (length (hash_suffix s)) \<le> mx"
proof -
  let ?b = "mx - int (length (hash_suffix s)) - 1"
  let ?head = "trim_right CHR ''-'' (take (nat ?b) s)"
  have b: "0 \<le> ?b" using hash_suffix_length(2) [of s] assms(2) by linarith
  have "length ?head \<le> nat ?b"
    using trim_right_length [of "CHR ''-''" "take (nat ?b) s"] by simp
  then have "int (length ?head) + 1 + int (length (hash_suffix s)) \<le> mx"
    using b by linarith
  moreover have "TruncateDNS1123Label s mx = Some (if ?head = [] then hash_suffix s else ?head @ ''-'' @ hash_suffix s)"
    using assms b by (auto simp: TruncateDNS1123Label_def Let_def)
  ultimately show ?thesis using that by blast
qed

text \<open>
  For every limit from 7 up, the label is produced (the slice never panics), it has at most
  that many bytes, and when the input was too long the label is not empty, does not end in a
  dash and consists of bytes of the input, lower-case letters, digits and the joining dash.
  Truncating a label again leaves it unchanged.
\<close>

theorem truncate_label_valid:
  assumes "7 \<le> mx"
  shows "\<exists>r. TruncateDNS1123Label s mx = Some r \<and> int (length r) \<le> mx
    \<and> TruncateDNS1123Label r mx = Some r
    \<and> (int (length s) \<le> mx \<and> r = s
       \<or> r \<noteq> [] \<and> last r \<noteq> CHR ''-'' \<and> set r \<subseteq> insert CHR ''-'' (set s \<union> alnum))"
proof (cases "int (length s) \<le> mx")
  case True
  then show ?thesis by (simp add: truncate_short)
next
  case False
  then obtain head where h:
    "TruncateDNS1123Label s mx = Some (if head = [] then hash_suffix s else head @ ''-'' @ hash_suffix s)"
    "head = trim_right CHR ''-'' (take (nat (mx - int (length (hash_suffix s)) - 1)) s)"
    "int (length head) + 1 + int (length (hash_suffix s)) \<le> mx"
    using truncate_long [of mx s] assms by auto
  let ?r = "if head = [] then hash_suffix s else head @ ''-'' @ hash_suffix s"
  have ne: "hash_suffix s \<noteq> []" using hash_suffix_length(1) [of s] by auto
  have len: "int (length ?r) \<le> mx" using h(3) by auto
  have "set head \<subseteq> set s"
    unfolding h(2) by (meson order_trans set_take_subset trim_right_set)
  then have "set ?r \<subseteq> insert CHR ''-'' (set s \<union> alnum)"
    using hash_suffix_alnum [of s] by auto
  moreover have "last ?r \<noteq> CHR ''-''" "?r \<noteq> []"
    using hash_suffix_last [of s] ne by (auto simp: last_append)
  ultimately show ?thesis using h(1) len truncate_short [of ?r mx] by blast
qed

theorem truncate_label_valid_witness:
  "(7::int) \<le> 63 \<and> (\<exists>r. TruncateDNS1123Label (replicate 80 CHR ''a'') 63 = Some r \<and> int (length r) \<le> 63)"
  using truncate_label_valid [of 63 "replicate 80 CHR ''a''"] by auto

text \<open>Two over-long names get the same label only if their hash suffixes agree.\<close>

lemma takeWhile_stop: "c \<notin> set u \<Longrightarrow> takeWhile (\<lambda>x. x \<noteq> c) (u @ c # v) = u"
  by (induction u) auto

lemma suffix_after_last_dash:
  "CHR ''-'' \<notin> set u \<Longrightarrow> takeWhile (\<lambda>c. c \<noteq> CHR ''-'') (rev (h @ ''-'' @ u)) = rev u"
  using takeWhile_stop [of "CHR ''-''" "rev u" "rev h"] by simp

lemma truncate_long_suffix:
  assumes "63 < length s"
  shows "takeWhile (\<lambda>c. c \<noteq> CHR ''-'') (rev (label63 s)) = rev (hash_suffix s)"
proof -
  have nd: "CHR ''-'' \<notin> set (hash_suffix s)" using hash_suffix_alnum [of s] dash_not_alnum by blast
  obtain head where h:
    "TruncateDNS1123Label s 63 = Some (if head = [] then hash_suffix s else head @ ''-'' @ hash_suffix s)"
    using truncate_long [of 63 s] assms by auto
  show ?thesis
  proof (cases "head = []")
    case True
    have "takeWhile (\<lambda>c. c \<noteq> CHR ''-'') (rev (hash_suffix s)) = rev (hash_suffix s)"
      using nd by (simp add: takeWhile_eq_all_conv) blast
    with True h show ?thesis by (simp add: label63_def)
  next
    case False
    with h nd show ?thesis
      using suffix_after_last_dash [of "hash_suffix s" head] by (simp add: label63_def)
  qed
qed

text \<open>
  Distinct over-long names stay distinct exactly as far as the six base-36 digits of their
  hash do: equal labels imply equal hash suffixes, and there are two different 64-byte
  lower-case names whose labels are equal.
\<close>

theorem truncate_label_collision:
  "(\<forall>s t. 63 < length s \<longrightarrow> 63 < length t \<longrightarrow> label63 s = label63 t \<longrightarrow> hash_suffix s = hash_suffix t)
   \<and> (\<exists>s t. s \<noteq> t \<and> length s = 64 \<and> length t = 64 \<and> set s \<subseteq> alnum \<and> set t \<subseteq> alnum
        \<and> TruncateDNS1123Label s 63 = TruncateDNS1123Label t 63)"
proof (rule conjI)
  show "\<forall>s t. 63 < length s \<longrightarrow> 63 < length t \<longrightarrow> label63 s = label63 t \<longrightarrow> hash_suffix s = hash_suffix t"
    by (metis truncate_long_suffix rev_rev_ident)
  let ?s = "''aaaaaaaaaaaaaaaaaaaaaaaaaaaaaaaaaaaaaaaaaaaaaaaaaaaaaaaaaaaabmvw''"
  let ?t = "''aaaaaaaaaaaaaaaaaaaaaaaaaaaaaaaaaaaaaaaaaaaaaaaaaaaaaaaaaaaahbvp''"
  have h: "hash_suffix ?s = ''1vxwij''" "hash_suffix ?t = ''1vxwij''"
    by (simp_all add: hash_suffix_def unat_fnv32a base36.simps digit36_def)
  have "TruncateDNS1123Label ?s 63 = TruncateDNS1123Label ?t 63"
    by (simp add: TruncateDNS1123Label_def h trim_right_def)
  then show "\<exists>s t. s \<noteq> t \<and> length s = 64 \<and> length t = 64 \<and> set s \<subseteq> alnum \<and> set t \<subseteq> alnum
        \<and> TruncateDNS1123Label s 63 = TruncateDNS1123Label t 63"
    by (intro exI [of _ ?s] exI [of _ ?t]) (simp add: alnum_def)
qed

theorem truncate_label_collision_witness:
  "\<exists>s t. s \<noteq> t \<and> 63 < length s \<and> 63 < length t \<and> label63 s = label63 t \<and> hash_suffix s = hash_suffix t"
proof -
  obtain s t where st: "s \<noteq> t" "length s = 64" "length t = 64"
      "TruncateDNS1123Label s 63 = TruncateDNS1123Label t 63"
    using truncate_label_collision by blast
  then have "63 < length s" "63 < length t" "label63 s = label63 t"
    by (simp_all add: label63_def)
  moreover from this have "hash_suffix s = hash_suffix t"
    using truncate_label_collision by blast
  ultimately show ?thesis using st(1) by blast
qed

section \<open>Parts separated by NUL\<close>

definition nul :: string where "nul = [CHR 0x00]"

lemma nul_cut:
  assumes "a @ nul @ r = b @ nul @ r'" "CHR 0x00 \<notin> set a" "CHR 0x00 \<notin> set b"
  shows "a = b \<and> r = r'"
  using assms
proof (induction a arbitrary: b)
  case Nil
  then show ?case by (cases b) (auto simp: nul_def)
next
  case (Cons x a)
  then show ?case by (cases b) (auto simp: nul_def)
qed

end
