(* ===== verification/GoNumbers.thy ===== *)
theory GoNumbers
  imports GoStrings
begin

text \<open>
  Decimal integers of Go's \<open>strconv\<close> (\<open>Itoa\<close>, \<open>FormatInt\<close>, \<open>Atoi\<close>,
  \<open>ParseInt\<close> with 64 bits) and 64-bit wrap-around. A round-trip law is stated once, as a
  locale of codecs, and used wherever the operator stores a value as text and reads it back.
\<close>

section \<open>Codecs: values stored as text\<close>

text \<open>
  A component that writes \<open>enc x\<close> into an annotation and later reads it with \<open>dec\<close>
  relies on the value coming back, for every value it writes.
\<close>

locale text_codec =
  fixes enc :: "'a \<Rightarrow> string" and dec :: "string \<Rightarrow> 'a option" and ok :: "'a \<Rightarrow> bool"
  assumes dec_enc: "ok x \<Longrightarrow> dec (enc x) = Some x"
    and enc_nonempty: "ok x \<Longrightarrow> enc x \<noteq> ''''"
begin

lemma enc_inj: "ok x \<Longrightarrow> ok y \<Longrightarrow> enc x = enc y \<Longrightarrow> x = y"
  by (metis dec_enc option.inject)

lemma written_value_is_read:
  "ok x \<Longrightarrow> mget (m(k \<mapsto> enc x)) k \<noteq> '''' \<and> dec (mget (m(k \<mapsto> enc x)) k) = Some x"
  by (simp add: dec_enc enc_nonempty)

end

section \<open>Decimal digits\<close>

definition digit_char :: "nat \<Rightarrow> char" where
  "digit_char d = char_of (48 + d)"

definition digit_val :: "char \<Rightarrow> nat" where
  "digit_val c = of_char c - 48"

definition is_digit :: "char \<Rightarrow> bool" where
  "is_digit c \<longleftrightarrow> (48::nat) \<le> of_char c \<and> (of_char c :: nat) \<le> 57"

fun show_nat :: "nat \<Rightarrow> string" where
  "show_nat n = (if n < 10 then [digit_char n] else show_nat (n div 10) @ [digit_char (n mod 10)])"

declare show_nat.simps [simp del]

definition read_nat :: "string \<Rightarrow> nat" where
  "read_nat s = foldl (\<lambda>n c. n * 10 + digit_val c) 0 s"

lemma digit_char_val: "d < 10 \<Longrightarrow> is_digit (digit_char d) \<and> digit_val (digit_char d) = d"
  by (simp add: digit_char_def digit_val_def is_digit_def)

lemma show_nat_digits: "show_nat n \<noteq> [] \<and> (\<forall>c \<in> set (show_nat n). is_digit c)"
proof (induction n rule: show_nat.induct)
  case (1 n)
  then show ?case
    using show_nat.simps [of n] by (auto simp: digit_char_val)
qed

lemma read_show_nat: "read_nat (show_nat n) = n"
proof (induction n rule: show_nat.induct)
  case (1 n)
  then show ?case
    by (subst show_nat.simps) (auto simp: read_nat_def digit_char_val)
qed

section \<open>Signed 64-bit integers\<close>

definition wrap64 :: "int \<Rightarrow> int" where
  "wrap64 x = (x + 2 ^ 63) mod 2 ^ 64 - 2 ^ 63"

definition int64 :: "int \<Rightarrow> bool" where
  "int64 x \<longleftrightarrow> - (2 ^ 63) \<le> x \<and> x < 2 ^ 63"

lemma wrap64_int64: "int64 (wrap64 x)"
proof -
  have "0 \<le> (x + 2 ^ 63) mod 2 ^ 64" "(x + 2 ^ 63) mod 2 ^ 64 < 2 ^ 64"
    by (simp_all add: pos_mod_bound)
  then show ?thesis unfolding int64_def wrap64_def by auto
qed

lemma wrap64_id: "int64 x \<Longrightarrow> wrap64 x = x"
  unfolding int64_def wrap64_def by (subst mod_pos_pos_trivial) auto

definition FormatInt :: "int \<Rightarrow> string" where
  "FormatInt i = (if i < 0 then CHR ''-'' # show_nat (nat (- i)) else show_nat (nat i))"

text \<open>
  \<open>ParseInt(s, 10, 64)\<close> and \<open>Atoi\<close> on a 64-bit platform: an optional sign, at least one
  digit, nothing else, and the value in range; \<open>None\<close> is the error.
\<close>

definition ParseInt :: "string \<Rightarrow> int option" where
  "ParseInt s =
     (let neg = (s \<noteq> [] \<and> hd s = CHR ''-'');
          t = (if s \<noteq> [] \<and> (hd s = CHR ''-'' \<or> hd s = CHR ''+'') then tl s else s)
      in if t = [] \<or> (\<exists>c \<in> set t. \<not> is_digit c) then None
         else let v = (if neg then - int (read_nat t) else int (read_nat t))
              in if int64 v then Some v else None)"

lemma sign_not_digit [simp]: "\<not> is_digit CHR ''-''" "\<not> is_digit CHR ''+''"
  by (simp_all add: is_digit_def)

lemma show_nat_hd: "hd (show_nat n) \<noteq> CHR ''-''" "hd (show_nat n) \<noteq> CHR ''+''"
  using show_nat_digits [of n] sign_not_digit hd_in_set by metis+

lemma ParseInt_FormatInt: "int64 i \<Longrightarrow> ParseInt (FormatInt i) = Some i"
  using show_nat_digits [of "nat i"] show_nat_digits [of "nat (- i)"] show_nat_hd [of "nat i"]
  by (auto simp: ParseInt_def FormatInt_def Let_def read_show_nat)

lemma FormatInt_nonempty [simp]: "FormatInt i \<noteq> ''''"
  using show_nat_digits by (simp add: FormatInt_def)

interpretation int64_codec: text_codec FormatInt ParseInt int64
  by unfold_locales (simp_all add: ParseInt_FormatInt)

end
