(* ===== verification/GoJson.thy ===== *)
theory GoJson
  imports GoNumbers
begin

text \<open>
  \<open>encoding/json\<close> as the operator uses it: the encoder \<open>marshal\<close> (HTML escaping on, as
  \<open>json.Marshal\<close> has it), the decoder \<open>unmarshal\<close> into \<open>any\<close>, and UTF-8 validity.
  A \<open>map[string]any\<close> is a \<open>JObj\<close> whose keys are sorted and distinct, the order in which
  the encoder emits them; an encoded struct is a \<open>JObj\<close> in field order. A number is its
  literal text. The round trip through text is the theorem of this theory.
\<close>

section \<open>UTF-8\<close>

definition byte_in :: "nat \<Rightarrow> nat \<Rightarrow> char \<Rightarrow> bool" where
  "byte_in lo hi c \<longleftrightarrow> lo \<le> of_char c \<and> of_char c \<le> hi"

text \<open>
  The length of the rune at the head of a byte string; 0 where \<open>utf8.DecodeRune\<close> fails.
  The lead byte fixes the length and the range of the second byte.
\<close>

definition lead_len :: "char \<Rightarrow> nat" where
  "lead_len a =
     (if byte_in 0 0x7F a then 1
      else if byte_in 0xC2 0xDF a then 2
      else if byte_in 0xE0 0xEF a then 3
      else if byte_in 0xF0 0xF4 a then 4
      else 0)"

definition second_ok :: "char \<Rightarrow> char \<Rightarrow> bool" where
  "second_ok a b \<longleftrightarrow>
     byte_in (if a = CHR 0xE0 then 0xA0 else if a = CHR 0xF0 then 0x90 else 0x80)
             (if a = CHR 0xED then 0x9F else if a = CHR 0xF4 then 0x8F else 0xBF) b"

definition conts_ok :: "char \<Rightarrow> string \<Rightarrow> bool" where
  "conts_ok a bs = (case bs of [] \<Rightarrow> True
     | b # cs \<Rightarrow> second_ok a b \<and> list_all (byte_in 0x80 0xBF) cs)"

definition rune_len :: "string \<Rightarrow> nat" where
  "rune_len s = (case s of [] \<Rightarrow> 0 | a # t \<Rightarrow>
     let k = lead_len a in if k \<le> length s \<and> conts_ok a (take (k - 1) t) then k else 0)"

lemma rune_len_le: "rune_len s \<le> length s"
  by (auto simp: rune_len_def Let_def split: list.split)

lemma rune_len_Cons:
  "rune_len (a # t) = (if lead_len a \<le> Suc (length t) \<and> conts_ok a (take (lead_len a - 1) t) then lead_len a else 0)"
  by (simp add: rune_len_def Let_def)

lemma rune_len_local:
  assumes "rune_len s = k" "0 < k"
  shows "rune_len (take k s @ r) = k"
proof -
  obtain a t where s: "s = a # t" using assms by (cases s) (auto simp: rune_len_def)
  then have k: "lead_len a = k" "k \<le> Suc (length t)" "conts_ok a (take (k - 1) t)"
    using assms by (auto simp: rune_len_Cons split: if_splits)
  then have "take k s @ r = a # (take (k - 1) t @ r)" using s assms(2) by (cases k) auto
  moreover have "take (k - 1) (take (k - 1) t @ r) = take (k - 1) t" using k(2) by simp
  ultimately show ?thesis using k by (simp add: rune_len_Cons)
qed

lemma lead_len_ascii: "byte_in 0 0x7F a \<Longrightarrow> lead_len a = 1"
  by (simp add: lead_len_def)

lemma rune_len_ascii [simp]: "byte_in 0 0x7F a \<Longrightarrow> rune_len (a # s) = 1"
  by (simp add: rune_len_Cons lead_len_ascii conts_ok_def)

lemma rune_len_one: "rune_len (a # s) = Suc 0 \<Longrightarrow> byte_in 0 0x7F a"
  by (auto simp: rune_len_Cons lead_len_def split: if_splits)

lemma rune_len_multi: "Suc 0 < rune_len (a # s) \<Longrightarrow> \<not> byte_in 0 0x7F a"
  by (auto simp: rune_len_Cons lead_len_def split: if_splits)

function valid_utf8 :: "string \<Rightarrow> bool" where
  "valid_utf8 [] = True"
| "valid_utf8 (a # s) = (0 < rune_len (a # s) \<and> valid_utf8 (drop (rune_len (a # s) - 1) s))"
  by pat_completeness auto
termination
  by (relation "measure length") auto

section \<open>Strings\<close>

definition bslash :: char where "bslash = CHR 0x5C"
definition dquote :: char where "dquote = CHR 0x22"

definition hexdig :: "nat \<Rightarrow> char" where
  "hexdig n = ''0123456789abcdef'' ! n"

definition hexval :: "char \<Rightarrow> nat option" where
  "hexval c = (if byte_in 48 57 c then Some (of_char c - 48)
     else if byte_in 97 102 c then Some (of_char c - 87)
     else if byte_in 65 70 c then Some (of_char c - 55) else None)"

definition hex4 :: "string \<Rightarrow> nat option" where
  "hex4 s = (case s of a # b # c # d # _ \<Rightarrow>
       (case (hexval a, hexval b, hexval c, hexval d) of
          (Some w, Some x, Some y, Some z) \<Rightarrow> Some (((w * 16 + x) * 16 + y) * 16 + z)
        | _ \<Rightarrow> None)
     | _ \<Rightarrow> None)"

text \<open>\<open>utf8.AppendRune\<close>.\<close>

definition utf8_encode :: "nat \<Rightarrow> string" where
  "utf8_encode v =
     (if v < 0x80 then [char_of v]
      else if v < 0x800 then [char_of (0xC0 + v div 64), char_of (0x80 + v mod 64)]
      else if v < 0x10000 then
        [char_of (0xE0 + v div 4096), char_of (0x80 + v div 64 mod 64), char_of (0x80 + v mod 64)]
      else [char_of (0xF0 + v div 262144), char_of (0x80 + v div 4096 mod 64),
            char_of (0x80 + v div 64 mod 64), char_of (0x80 + v mod 64)])"

definition rune_error :: string where
  "rune_error = [CHR 0xEF, CHR 0xBF, CHR 0xBD]"

text \<open>One ASCII byte, as the encoder writes it inside a string.\<close>

definition esc_ascii :: "char \<Rightarrow> string" where
  "esc_ascii c = (let n = of_char c :: nat in
     if c = bslash \<or> c = dquote then [bslash, c]
     else if n = 8 then bslash # ''b''
     else if n = 9 then bslash # ''t''
     else if n = 10 then bslash # ''n''
     else if n = 12 then bslash # ''f''
     else if n = 13 then bslash # ''r''
     else if n < 32 \<or> c = CHR ''<'' \<or> c = CHR ''>'' \<or> c = CHR ''&''
       then bslash # ''u00'' @ [hexdig (n div 16), hexdig (n mod 16)]
     else [c])"

function esc :: "string \<Rightarrow> string" where
  "esc [] = []"
| "esc (a # s) = (let k = rune_len (a # s) in
     if k = 0 then bslash # ''ufffd'' @ esc s
     else if k = 1 then esc_ascii a @ esc s
     else if take 3 (a # s) = [CHR 0xE2, CHR 0x80, CHR 0xA8] then bslash # ''u2028'' @ esc (drop 2 s)
     else if take 3 (a # s) = [CHR 0xE2, CHR 0x80, CHR 0xA9] then bslash # ''u2029'' @ esc (drop 2 s)
     else take k (a # s) @ esc (drop (k - 1) s))"
  by pat_completeness auto
termination
  by (relation "measure length") auto

definition esc_simple :: "char \<Rightarrow> char option" where
  "esc_simple e =
     (if e = dquote \<or> e = bslash \<or> e = CHR ''/'' then Some e
      else if e = CHR ''b'' then Some (CHR 0x08)
      else if e = CHR ''t'' then Some (CHR 0x09)
      else if e = CHR ''n'' then Some (CHR 0x0A)
      else if e = CHR ''f'' then Some (CHR 0x0C)
      else if e = CHR ''r'' then Some (CHR 0x0D)
      else None)"

definition surrogate :: "nat \<Rightarrow> bool" where
  "surrogate v \<longleftrightarrow> 0xD800 \<le> v \<and> v < 0xE000"

definition emit :: "string \<Rightarrow> (string \<times> string) option \<Rightarrow> (string \<times> string) option" where
  "emit p r = map_option (\<lambda>(t, rest). (p @ t, rest)) r"

text \<open>Reads the rest of a string literal after its opening quote.\<close>

function unquote :: "string \<Rightarrow> (string \<times> string) option" where
  "unquote [] = None"
| "unquote (a # s) =
     (if a = dquote then Some ([], s)
      else if a = bslash then
        (case s of [] \<Rightarrow> None
         | e # s' \<Rightarrow>
            if e = CHR ''u'' then
              (case hex4 s' of None \<Rightarrow> None
               | Some v \<Rightarrow>
                  if surrogate v then
                    (case s' of
                       _ # _ # _ # _ # p # q # u \<Rightarrow>
                        (case (if p = bslash \<and> q = CHR ''u'' then hex4 u else None) of
                           Some w \<Rightarrow>
                             if v < 0xDC00 \<and> 0xDC00 \<le> w \<and> w < 0xE000
                             then emit (utf8_encode (0x10000 + (v - 0xD800) * 1024 + (w - 0xDC00))) (unquote (drop 4 u))
                             else emit rune_error (unquote (drop 4 s'))
                         | None \<Rightarrow> emit rune_error (unquote (drop 4 s')))
                     | _ \<Rightarrow> emit rune_error (unquote (drop 4 s')))
                  else emit (utf8_encode v) (unquote (drop 4 s')))
            else (case esc_simple e of None \<Rightarrow> None | Some c \<Rightarrow> emit [c] (unquote s')))
      else if byte_in 0 31 a then None
      else if rune_len (a # s) = 0 then emit rune_error (unquote s)
      else emit (take (rune_len (a # s)) (a # s)) (unquote (drop (rune_len (a # s) - 1) s)))"
  by pat_completeness auto
termination
  by (relation "measure length") auto

lemma char_by_code: "of_char c = (of_char d :: nat) \<Longrightarrow> c = d"
  by simp

lemma byte_of_char: "(of_char c :: nat) < 256"
  by simp

lemma hexval_hexdig: "n < 16 \<Longrightarrow> hexval (hexdig n) = Some n"
proof -
  assume "n < 16"
  then have "n \<in> {0..<16}" by simp
  moreover have "\<forall>n \<in> {0..<16}. hexval (hexdig n) = Some n"
    by (simp add: hexdig_def hexval_def byte_in_def atLeastLessThan_nat_numeral)
  ultimately show ?thesis by blast
qed

lemma hexval_0: "hexval CHR ''0'' = Some 0"
  by (simp add: hexval_def byte_in_def)

lemma unquote_esc_ascii:
  assumes "byte_in 0 0x7F c"
  shows "unquote (esc_ascii c @ r) = emit [c] (unquote r)"
proof -
  let ?n = "of_char c :: nat"
  consider "c = bslash \<or> c = dquote" | "?n = 8" | "?n = 9" | "?n = 10" | "?n = 12" | "?n = 13"
    | "\<not> (c = bslash \<or> c = dquote)" "?n \<notin> {8, 9, 10, 12, 13}"
      "?n < 32 \<or> c = CHR ''<'' \<or> c = CHR ''>'' \<or> c = CHR ''&''"
    | "\<not> (c = bslash \<or> c = dquote)" "?n \<notin> {8, 9, 10, 12, 13}"
      "\<not> (?n < 32 \<or> c = CHR ''<'' \<or> c = CHR ''>'' \<or> c = CHR ''&'')"
    by blast
  then show ?thesis
  proof cases
    case 7
    have n: "?n < 128" using assms by (simp add: byte_in_def)
    have "hex4 (CHR ''0'' # CHR ''0'' # hexdig (?n div 16) # hexdig (?n mod 16) # r) = Some ?n"
      using n by (simp add: hex4_def hexval_hexdig hexval_0)
    then show ?thesis using 7 n
      by (simp add: esc_ascii_def Let_def surrogate_def utf8_encode_def bslash_def dquote_def)
  next
    case 8
    then show ?thesis
      using rune_len_ascii [OF assms, of r] by (simp add: esc_ascii_def Let_def byte_in_def)
  next
    case 1
    then show ?thesis by (auto simp: esc_ascii_def esc_simple_def bslash_def dquote_def)
  next
    case 2
    then have "c = CHR 0x08" by (intro char_by_code) simp
    then show ?thesis by (simp add: esc_ascii_def esc_simple_def bslash_def dquote_def Let_def)
  next
    case 3
    then have "c = CHR 0x09" by (intro char_by_code) simp
    then show ?thesis by (simp add: esc_ascii_def esc_simple_def bslash_def dquote_def Let_def)
  next
    case 4
    then have "c = CHR 0x0A" by (intro char_by_code) simp
    then show ?thesis by (simp add: esc_ascii_def esc_simple_def bslash_def dquote_def Let_def)
  next
    case 5
    then have "c = CHR 0x0C" by (intro char_by_code) simp
    then show ?thesis by (simp add: esc_ascii_def esc_simple_def bslash_def dquote_def Let_def)
  next
    case 6
    then have "c = CHR 0x0D" by (intro char_by_code) simp
    then show ?thesis by (simp add: esc_ascii_def esc_simple_def bslash_def dquote_def Let_def)
  qed
qed

lemma multi_byte_head:
  assumes "Suc 0 < rune_len (a # s)"
  shows "a \<noteq> dquote \<and> a \<noteq> bslash \<and> \<not> byte_in 0 31 a"
  using rune_len_multi [OF assms] by (auto simp: byte_in_def dquote_def bslash_def)

lemma line_separators:
  "take 3 (a # s) = [CHR 0xE2, CHR 0x80, x] \<Longrightarrow> x = CHR 0xA8 \<or> x = CHR 0xA9 \<Longrightarrow>
   \<exists>t. s = CHR 0x80 # x # t \<and> a = CHR 0xE2 \<and> rune_len (a # s) = 3"
proof -
  assume h: "take 3 (a # s) = [CHR 0xE2, CHR 0x80, x]" "x = CHR 0xA8 \<or> x = CHR 0xA9"
  then obtain t where "s = CHR 0x80 # x # t" "a = CHR 0xE2"
    by (cases s; cases "tl s") auto
  then show ?thesis using h(2)
    by (auto simp: rune_len_Cons lead_len_def byte_in_def conts_ok_def second_ok_def)
qed

lemma hex4_separators:
  "hex4 (''2028'' @ r) = Some 0x2028" "hex4 (''2029'' @ r) = Some 0x2029"
  by (simp_all add: hex4_def hexval_def byte_in_def)

lemma unquote_separators:
  "unquote (bslash # ''u2028'' @ r) = emit [CHR 0xE2, CHR 0x80, CHR 0xA8] (unquote r)"
  "unquote (bslash # ''u2029'' @ r) = emit [CHR 0xE2, CHR 0x80, CHR 0xA9] (unquote r)"
proof -
  have e: "utf8_encode 0x2028 = [CHR 0xE2, CHR 0x80, CHR 0xA8]" "utf8_encode 0x2029 = [CHR 0xE2, CHR 0x80, CHR 0xA9]"
    by (auto simp: utf8_encode_def intro!: char_by_code)
  show "unquote (bslash # ''u2028'' @ r) = emit [CHR 0xE2, CHR 0x80, CHR 0xA8] (unquote r)"
    using hex4_separators(1) [of r] e by (simp add: surrogate_def bslash_def dquote_def)
  show "unquote (bslash # ''u2029'' @ r) = emit [CHR 0xE2, CHR 0x80, CHR 0xA9] (unquote r)"
    using hex4_separators(2) [of r] e by (simp add: surrogate_def bslash_def dquote_def)
qed

lemma unquote_raw_rune:
  assumes "rune_len (a # s) = k" "Suc 0 < k"
  shows "unquote (take k (a # s) @ r) = emit (take k (a # s)) (unquote r)"
proof -
  have len: "k \<le> length (a # s)" using rune_len_le [of "a # s"] assms(1) by simp
  have t: "take k (a # s) @ r = a # (take (k - 1) s @ r)" using assms(2) by (cases k) auto
  have rl: "rune_len (a # (take (k - 1) s @ r)) = k"
    using rune_len_local [OF assms(1)] assms(2) t by simp
  have "take k (a # (take (k - 1) s @ r)) = take k (a # s)"
    using t len by (metis append_eq_conv_conj length_take min.absorb2)
  moreover have "drop (k - 1) (take (k - 1) s @ r) = r" using len by simp
  ultimately show ?thesis
    using multi_byte_head [of a s] assms rl t by simp
qed

lemma emit_emit: "emit p (emit q r) = emit (p @ q) r"
  by (cases r) (auto simp: emit_def)

lemma emit_Some [simp]: "emit p (Some (t, r)) = Some (p @ t, r)"
  by (simp add: emit_def)

text \<open>A valid UTF-8 string comes back from its encoded form, whatever follows the closing quote.\<close>

lemma unquote_esc: "valid_utf8 s \<Longrightarrow> unquote (esc s @ dquote # r) = Some (s, r)"
proof (induction s rule: esc.induct)
  case 1
  then show ?case by simp
next
  case (2 a s)
  let ?k = "rune_len (a # s)"
  have pos: "0 < ?k" and rest: "valid_utf8 (drop (?k - 1) s)" using "2.prems" by auto
  consider "?k = 1" | "Suc 0 < ?k" "take 3 (a # s) = [CHR 0xE2, CHR 0x80, CHR 0xA8]"
    | "Suc 0 < ?k" "take 3 (a # s) = [CHR 0xE2, CHR 0x80, CHR 0xA9]"
    | "Suc 0 < ?k" "take 3 (a # s) \<noteq> [CHR 0xE2, CHR 0x80, CHR 0xA8]"
      "take 3 (a # s) \<noteq> [CHR 0xE2, CHR 0x80, CHR 0xA9]"
    using pos by linarith
  then show ?case
  proof cases
    case 1
    have "unquote (esc s @ dquote # r) = Some (s, r)"
      using "2.IH"(2) [OF refl] 1 rest by simp
    then show ?thesis
      using 1 unquote_esc_ascii [OF rune_len_one, of a s "esc s @ dquote # r"] by simp
  next
    case 2
    then obtain t where t: "s = CHR 0x80 # CHR 0xA8 # t" "a = CHR 0xE2" "?k = 3"
      using line_separators by blast
    have "unquote (esc t @ dquote # r) = Some (t, r)"
      using "2.IH"(3) [OF refl] rest 2 t by simp
    then show ?thesis using t 2 unquote_separators(1) [of "esc t @ dquote # r"] by simp
  next
    case 3
    then obtain t where t: "s = CHR 0x80 # CHR 0xA9 # t" "a = CHR 0xE2" "?k = 3"
      using line_separators by blast
    have "unquote (esc t @ dquote # r) = Some (t, r)"
      using "2.IH"(4) [OF refl] rest 3 t by simp
    then show ?thesis using t 3 unquote_separators(2) [of "esc t @ dquote # r"] by simp
  next
    case 4
    let ?d = "drop (?k - 1) s"
    have ih: "unquote (esc ?d @ dquote # r) = Some (?d, r)"
      using "2.IH"(5) [OF refl] rest 4 by simp
    have e: "esc (a # s) = take ?k (a # s) @ esc ?d"
      using 4 by (auto simp: Let_def)
    have "unquote (esc (a # s) @ dquote # r) = Some (take ?k (a # s) @ ?d, r)"
      unfolding e using unquote_raw_rune [OF refl 4(1), of "esc ?d @ dquote # r"] ih
      by (simp only: append_assoc emit_Some)
    moreover have "take ?k (a # s) @ ?d = a # s"
      using 4(1) by (cases ?k) auto
    ultimately show ?thesis by simp
  qed
qed

section \<open>Values\<close>

datatype json =
    JNull
  | JBool bool
  | JNum string
  | JStr string
  | JArr "json list"
  | JObj "(string \<times> json) list"

text \<open>A \<open>map[string]any\<close>: lookup, insertion and deletion on a key-sorted list.\<close>

type_synonym jmap = "(string \<times> json) list"

fun obj_set :: "string \<Rightarrow> json \<Rightarrow> jmap \<Rightarrow> jmap" where
  "obj_set k v [] = [(k, v)]"
| "obj_set k v ((k', v') # kvs) =
     (if k = k' then (k, v) # kvs
      else if k < k' then (k, v) # (k', v') # kvs
      else (k', v') # obj_set k v kvs)"

abbreviation obj_get :: "jmap \<Rightarrow> string \<Rightarrow> json option" where
  "obj_get kvs k \<equiv> map_of kvs k"

abbreviation canon_map :: "jmap \<Rightarrow> bool" where
  "canon_map kvs \<equiv> sorted_wrt (<) (map fst kvs)"

lemma obj_get_set [simp, store_laws]: "obj_get (obj_set k v kvs) k' = (if k' = k then Some v else obj_get kvs k')"
  by (induction kvs) auto

lemma obj_set_keys: "set (map fst (obj_set k v kvs)) = insert k (set (map fst kvs))"
  by (induction k v kvs rule: obj_set.induct) auto

lemma obj_set_canon: "canon_map kvs \<Longrightarrow> canon_map (obj_set k v kvs)"
proof (induction k v kvs rule: obj_set.induct)
  case (2 k v k' v' kvs)
  then show ?case using obj_set_keys [of k v kvs] by auto
qed simp

lemma obj_set_nonempty [simp]: "obj_set k v kvs \<noteq> []"
  by (induction k v kvs rule: obj_set.induct) auto

section \<open>Encoding\<close>

definition quote :: "string \<Rightarrow> string" where
  "quote s = dquote # esc s @ [dquote]"

fun marshal :: "json \<Rightarrow> string" where
  "marshal JNull = ''null''"
| "marshal (JBool b) = (if b then ''true'' else ''false'')"
| "marshal (JNum t) = t"
| "marshal (JStr s) = quote s"
| "marshal (JArr xs) = ''['' @ join '','' (map marshal xs) @ '']''"
| "marshal (JObj kvs) =
     ''{'' @ join '','' (map (\<lambda>(k, v). quote k @ '':'' @ marshal v) kvs) @ ''}''"

section \<open>Decoding\<close>

definition is_space :: "char \<Rightarrow> bool" where
  "is_space c \<longleftrightarrow> c \<in> {CHR 0x20, CHR 0x09, CHR 0x0A, CHR 0x0D}"

definition skip :: "string \<Rightarrow> string" where
  "skip s = dropWhile is_space s"

definition num_char :: "char \<Rightarrow> bool" where
  "num_char c \<longleftrightarrow> is_digit c \<or> c \<in> set ''+-.eE''"

definition expo_ok :: "string \<Rightarrow> bool" where
  "expo_ok t = (case t of [] \<Rightarrow> True
     | e # u \<Rightarrow> (e = CHR ''e'' \<or> e = CHR ''E'') \<and>
         (let d = (case u of [] \<Rightarrow> [] | sg # u' \<Rightarrow> if sg = CHR ''+'' \<or> sg = CHR ''-'' then u' else u)
          in d \<noteq> [] \<and> list_all is_digit d))"

definition frac_ok :: "string \<Rightarrow> bool" where
  "frac_ok t = (case t of [] \<Rightarrow> True
     | c # u \<Rightarrow> if c = CHR ''.'' then u \<noteq> [] \<and> is_digit (hd u) \<and> expo_ok (dropWhile is_digit u)
                else expo_ok t)"

text \<open>The number grammar of RFC 8259, which \<open>encoding/json\<close> enforces.\<close>

definition num_ok :: "string \<Rightarrow> bool" where
  "num_ok t = (let u = (case t of [] \<Rightarrow> [] | c # u' \<Rightarrow> if c = CHR ''-'' then u' else t)
     in case u of [] \<Rightarrow> False
        | d # v \<Rightarrow> if d = CHR ''0'' then frac_ok v else is_digit d \<and> frac_ok (dropWhile is_digit v))"

text \<open>
  The recursive-descent decoder. Every call spends one unit of fuel; a call consumes at least
  one byte in any two nested calls, so twice the length of the text is enough.
\<close>

fun pval :: "nat \<Rightarrow> string \<Rightarrow> (json \<times> string) option"
  and pelems :: "nat \<Rightarrow> string \<Rightarrow> (json list \<times> string) option"
  and pmembers :: "nat \<Rightarrow> jmap \<Rightarrow> string \<Rightarrow> (jmap \<times> string) option" where
  "pval 0 s = None"
| "pval (Suc f) s = (case skip s of [] \<Rightarrow> None
     | c # t \<Rightarrow>
        if c = dquote then map_option (\<lambda>(x, r). (JStr x, r)) (unquote t)
        else if c = CHR ''['' then
          (case skip t of [] \<Rightarrow> None
           | d # u \<Rightarrow> if d = CHR '']'' then Some (JArr [], u)
                      else map_option (\<lambda>(xs, r). (JArr xs, r)) (pelems f (d # u)))
        else if c = CHR ''{'' then
          (case skip t of [] \<Rightarrow> None
           | d # u \<Rightarrow> if d = CHR ''}'' then Some (JObj [], u)
                      else map_option (\<lambda>(kvs, r). (JObj kvs, r)) (pmembers f [] (d # u)))
        else if has_prefix (c # t) ''null'' then Some (JNull, drop 3 t)
        else if has_prefix (c # t) ''true'' then Some (JBool True, drop 3 t)
        else if has_prefix (c # t) ''false'' then Some (JBool False, drop 4 t)
        else if num_ok (takeWhile num_char (c # t))
          then Some (JNum (takeWhile num_char (c # t)), dropWhile num_char (c # t))
        else None)"
| "pelems 0 s = None"
| "pelems (Suc f) s = (case pval f s of None \<Rightarrow> None
     | Some (x, r) \<Rightarrow> (case skip r of [] \<Rightarrow> None
        | c # u \<Rightarrow> if c = CHR '']'' then Some ([x], u)
                   else if c = CHR '','' then map_option (\<lambda>(xs, r). (x # xs, r)) (pelems f u)
                   else None))"
| "pmembers 0 acc s = None"
| "pmembers (Suc f) acc s = (case skip s of [] \<Rightarrow> None
     | q # t \<Rightarrow> if q \<noteq> dquote then None else
        (case unquote t of None \<Rightarrow> None
         | Some (k, r) \<Rightarrow> (case skip r of [] \<Rightarrow> None
            | c # u \<Rightarrow> if c \<noteq> CHR '':'' then None else
               (case pval f u of None \<Rightarrow> None
                | Some (v, r') \<Rightarrow> (case skip r' of [] \<Rightarrow> None
                   | d # w \<Rightarrow> if d = CHR ''}'' then Some (obj_set k v acc, w)
                              else if d = CHR '','' then pmembers f (obj_set k v acc) w
                              else None)))))"

declare pval.simps [simp del] pelems.simps [simp del] pmembers.simps [simp del]

definition unmarshal :: "string \<Rightarrow> json option" where
  "unmarshal s = (case pval (2 * length s + 2) s of None \<Rightarrow> None
     | Some (j, r) \<Rightarrow> if skip r = [] then Some j else None)"

section \<open>The round trip\<close>

text \<open>
  What \<open>json.Marshal\<close> can be given so that nothing is replaced: valid UTF-8 strings and keys
  and grammatical numbers. Decoding sorts the keys of an object, as a Go map has no order.
\<close>

fun json_ok :: "json \<Rightarrow> bool" where
  "json_ok (JNum t) = (num_ok t \<and> list_all num_char t)"
| "json_ok (JStr s) = valid_utf8 s"
| "json_ok (JArr xs) = list_all json_ok xs"
| "json_ok (JObj kvs) = list_all (\<lambda>(k, v). valid_utf8 k \<and> json_ok v) kvs"
| "json_ok _ = True"

fun norm :: "json \<Rightarrow> json" where
  "norm (JArr xs) = JArr (map norm xs)"
| "norm (JObj kvs) = JObj (foldl (\<lambda>acc (k, v). obj_set k v acc) [] (map (\<lambda>(k, v). (k, norm v)) kvs))"
| "norm j = j"

definition delim :: "string \<Rightarrow> bool" where
  "delim r \<longleftrightarrow> r = [] \<or> \<not> num_char (hd r)"

lemma delim_simps [simp]: "delim []" "delim (CHR '','' # r)" "delim (CHR '']'' # r)" "delim (CHR ''}'' # r)"
  by (simp_all add: delim_def num_char_def is_digit_def)

lemma takeWhile_delim: "list_all P t \<Longrightarrow> r = [] \<or> \<not> P (hd r) \<Longrightarrow> takeWhile P (t @ r) = t \<and> dropWhile P (t @ r) = r"
  by (induction t) (cases r; auto)+

lemma digit_not_special:
  "is_digit c \<Longrightarrow> c \<noteq> dquote \<and> c \<noteq> CHR ''['' \<and> c \<noteq> CHR ''{'' \<and> c \<noteq> CHR ''n'' \<and> c \<noteq> CHR ''t'' \<and> c \<noteq> CHR ''f'' \<and> \<not> is_space c"
  by (auto simp: is_digit_def dquote_def is_space_def)

lemma num_ok_hd: "num_ok t \<Longrightarrow> t \<noteq> [] \<and> (hd t = CHR ''-'' \<or> is_digit (hd t))"
  by (cases t) (auto simp: num_ok_def Let_def is_digit_def split: if_splits list.splits)

lemma skip_nonspace [simp]: "\<not> is_space c \<Longrightarrow> skip (c # s) = c # s"
  by (simp add: skip_def)

lemma nonspace [simp]: "\<not> is_space dquote" "\<not> is_space CHR ''[''" "\<not> is_space CHR ''{''" "\<not> is_space CHR '']''"
  "\<not> is_space CHR ''}''" "\<not> is_space CHR '',''" "\<not> is_space CHR '':''" "\<not> is_space CHR ''n''"
  "\<not> is_space CHR ''t''" "\<not> is_space CHR ''f''" "\<not> is_space CHR ''-''"
  by (auto simp: is_space_def dquote_def)

lemma not_dquote [simp]: "dquote \<noteq> CHR ''[''" "dquote \<noteq> CHR ''{''" "dquote \<noteq> CHR '']''" "dquote \<noteq> CHR ''}''"
  "CHR ''['' \<noteq> dquote" "CHR ''{'' \<noteq> dquote" "CHR ''n'' \<noteq> dquote" "CHR ''t'' \<noteq> dquote" "CHR ''f'' \<noteq> dquote" "CHR ''-'' \<noteq> dquote"
  by (auto simp: dquote_def)

lemma marshal_head:
  assumes "json_ok j"
  shows "\<exists>c t. marshal j = c # t \<and> \<not> is_space c \<and> c \<noteq> CHR '']'' \<and> c \<noteq> CHR ''}''"
  using assms
proof (cases j)
  case (JNum t)
  then have "t \<noteq> []" "hd t = CHR ''-'' \<or> is_digit (hd t)"
    using assms num_ok_hd by auto
  then show ?thesis using JNum digit_not_special
    by (cases t) (auto simp: is_digit_def)
qed (auto simp: quote_def dquote_def is_space_def)

lemma pval_num:
  assumes "num_ok t" "list_all num_char t" "delim r"
  shows "pval (Suc f) (t @ r) = Some (JNum t, r)"
proof -
  obtain c u where t: "t = c # u" "c = CHR ''-'' \<or> is_digit c"
    using num_ok_hd [OF assms(1)] by (cases t) auto
  have tw: "takeWhile num_char (t @ r) = t" "dropWhile num_char (t @ r) = r"
    using takeWhile_delim [OF assms(2), of r] assms(3) by (auto simp: delim_def)
  have c: "c \<noteq> dquote \<and> c \<noteq> CHR ''['' \<and> c \<noteq> CHR ''{'' \<and> c \<noteq> CHR ''n'' \<and> c \<noteq> CHR ''t'' \<and> c \<noteq> CHR ''f'' \<and> \<not> is_space c"
  proof (cases "c = CHR ''-''")
    case True
    then show ?thesis by simp
  next
    case False
    then show ?thesis using t(2) digit_not_special [of c] by blast
  qed
  have "skip (t @ r) = c # (u @ r)" using t c by simp
  moreover have "\<not> has_prefix (c # (u @ r)) ''null''" "\<not> has_prefix (c # (u @ r)) ''true''" "\<not> has_prefix (c # (u @ r)) ''false''"
    using c by (auto simp: has_prefix_def)
  ultimately show ?thesis using c tw t assms(1) by (simp add: pval.simps(2))
qed

lemma join_Cons2: "ys \<noteq> [] \<Longrightarrow> join sep (x # ys) = x @ sep @ join sep ys"
  by (cases ys) auto

text \<open>The texts of arrays and objects may have white space where the grammar allows it.\<close>

lemma skip_spaces: "list_all is_space ws \<Longrightarrow> skip (ws @ s) = skip s"
  by (induction ws) (auto simp: skip_def)

lemma pval_spaces: "list_all is_space ws \<Longrightarrow> pval f (ws @ s) = pval f s"
  by (cases f) (simp_all add: pval.simps skip_spaces)

lemma pelems_spaces: "list_all is_space ws \<Longrightarrow> pelems f (ws @ s) = pelems f s"
  by (cases f) (simp_all add: pelems.simps pval_spaces)

lemma pmembers_spaces: "list_all is_space ws \<Longrightarrow> pmembers f acc (ws @ s) = pmembers f acc s"
  by (cases f) (simp_all add: pmembers.simps skip_spaces)

lemma delim_spaces: "list_all is_space ws \<Longrightarrow> delim r \<Longrightarrow> delim (ws @ r)"
  by (cases ws) (auto simp: delim_def is_space_def num_char_def is_digit_def)

lemma pelems_join:
  assumes "\<And>x f r. x \<in> set xs \<Longrightarrow> 2 * length (enc x) \<le> f \<Longrightarrow> delim r \<Longrightarrow> pval (Suc f) (enc x @ r) = Some (norm x, r)"
    and "xs \<noteq> []" and "2 * length (join ('','' @ ws) (map enc xs)) + 1 \<le> f"
    and ws: "list_all is_space ws" "list_all is_space ws'"
  shows "pelems (Suc f) (join ('','' @ ws) (map enc xs) @ ws' @ CHR '']'' # r) = Some (map norm xs, r)"
  using assms(1-3)
proof (induction xs arbitrary: f)
  case (Cons x xs)
  obtain g where f: "f = Suc g" using Cons.prems(3) by (cases f) auto
  show ?case
  proof (cases "xs = []")
    case True
    then have "pval f (enc x @ ws' @ CHR '']'' # r) = Some (norm x, ws' @ CHR '']'' # r)"
      using Cons.prems f ws by (simp add: delim_spaces)
    with True show ?thesis using ws by (simp add: pelems.simps(2) skip_spaces)
  next
    case False
    let ?rest = "join ('','' @ ws) (map enc xs) @ ws' @ CHR '']'' # r"
    have j: "join ('','' @ ws) (map enc (x # xs)) = enc x @ CHR '','' # ws @ join ('','' @ ws) (map enc xs)"
      using False by (simp add: join_Cons2)
    have "pval f (enc x @ CHR '','' # ws @ ?rest) = Some (norm x, CHR '','' # ws @ ?rest)"
      using Cons.prems(1) [of x g] Cons.prems(3) f j by simp
    moreover have "pelems f (ws @ ?rest) = Some (map norm xs, r)"
      using Cons.IH [of g] Cons.prems False f j ws by (simp add: pelems_spaces)
    ultimately show ?thesis using j by (simp add: pelems.simps(2))
  qed
qed simp

lemma pmembers_join:
  assumes "\<And>k v f r. (k, v) \<in> set kvs \<Longrightarrow> 2 * length (enc v) \<le> f \<Longrightarrow> delim r \<Longrightarrow> pval (Suc f) (enc v @ r) = Some (norm v, r)"
    and "\<And>k v. (k, v) \<in> set kvs \<Longrightarrow> valid_utf8 k"
    and "kvs \<noteq> []" and "2 * length (join ('','' @ ws) (map (\<lambda>(k, v). quote k @ '':'' @ wc @ enc v) kvs)) + 1 \<le> f"
    and ws: "list_all is_space ws" "list_all is_space ws'" "list_all is_space wc"
  shows "pmembers (Suc f) acc (join ('','' @ ws) (map (\<lambda>(k, v). quote k @ '':'' @ wc @ enc v) kvs) @ ws' @ CHR ''}'' # r)
    = Some (foldl (\<lambda>acc (k, v). obj_set k v acc) acc (map (\<lambda>(k, v). (k, norm v)) kvs), r)"
  using assms(1-4)
proof (induction kvs arbitrary: f acc)
  case (Cons kv kvs)
  let ?mem = "\<lambda>(k, v). quote k @ '':'' @ wc @ enc v"
  obtain k v where kv: "kv = (k, v)" by (cases kv)
  obtain g where f: "f = Suc g" using Cons.prems(4) by (cases f) auto
  have k: "valid_utf8 k" using Cons.prems(2) [of k v] kv by simp
  have u: "unquote (esc k @ dquote # w) = Some (k, w)" for w using unquote_esc [OF k] .
  show ?case
  proof (cases "kvs = []")
    case True
    then have "pval f (enc v @ ws' @ CHR ''}'' # r) = Some (norm v, ws' @ CHR ''}'' # r)"
      using Cons.prems(1) [of k v g] Cons.prems(4) f kv ws by (simp add: quote_def delim_spaces)
    with True kv u ws show ?thesis by (simp add: quote_def pmembers.simps(2) pval_spaces skip_spaces)
  next
    case False
    let ?rest = "join ('','' @ ws) (map ?mem kvs) @ ws' @ CHR ''}'' # r"
    have j: "join ('','' @ ws) (map ?mem (kv # kvs))
        = quote k @ CHR '':'' # wc @ enc v @ CHR '','' # ws @ join ('','' @ ws) (map ?mem kvs)"
      using False kv by (simp add: join_Cons2)
    have "pval f (enc v @ CHR '','' # ws @ ?rest) = Some (norm v, CHR '','' # ws @ ?rest)"
      using Cons.prems(1) [of k v g] Cons.prems(4) f j kv by simp
    moreover have "pmembers f (obj_set k (norm v) acc) (ws @ ?rest)
        = Some (foldl (\<lambda>acc (k, v). obj_set k v acc) (obj_set k (norm v) acc) (map (\<lambda>(k, v). (k, norm v)) kvs), r)"
      unfolding pmembers_spaces [OF ws(1)]
      using Cons.prems(4) f j False by (intro Cons.IH [of g, folded f]) (auto intro: Cons.prems)
    ultimately show ?thesis using j kv u ws by (simp add: quote_def pmembers.simps(2) pval_spaces)
  qed
qed simp

lemma join_head:
  assumes "xs \<noteq> []" "\<And>x. x \<in> set xs \<Longrightarrow> json_ok x"
  shows "\<exists>c t. join '','' (map marshal xs) = c # t \<and> \<not> is_space c \<and> c \<noteq> CHR '']''"
proof -
  obtain x ys where xs: "xs = x # ys" using assms(1) by (cases xs) auto
  obtain c t where "marshal x = c # t" "\<not> is_space c" "c \<noteq> CHR '']''"
    using marshal_head [of x] assms(2) xs by auto
  then show ?thesis using xs by (cases ys) auto
qed

lemma pval_marshal:
  "json_ok j \<Longrightarrow> 2 * length (marshal j) \<le> f \<Longrightarrow> delim r \<Longrightarrow> pval (Suc f) (marshal j @ r) = Some (norm j, r)"
proof (induction j arbitrary: f r)
  case (JArr xs)
  show ?case
  proof (cases "xs = []")
    case False
    obtain g where f: "f = Suc g" using JArr.prems by (cases f) auto
    let ?t = "join '','' (map marshal xs)"
    have ok: "\<And>x. x \<in> set xs \<Longrightarrow> json_ok x" using JArr.prems by (simp add: list_all_iff)
    have "pelems f (?t @ CHR '']'' # r) = Some (map norm xs, r)"
      unfolding f using JArr.prems f ok False
      by (intro pelems_join [where ws = "[]" and ws' = "[]" and enc = marshal, unfolded append_Nil append_Nil2]) (auto intro: JArr.IH)
    moreover obtain c u where "?t @ CHR '']'' # r = c # u" "\<not> is_space c" "c \<noteq> CHR '']''"
      using join_head [of xs] ok False by (metis append_Cons)
    ultimately show ?thesis by (simp add: pval.simps(2))
  qed (simp add: pval.simps(2))
next
  case (JObj kvs)
  show ?case
  proof (cases "kvs = []")
    case False
    obtain g where f: "f = Suc g" using JObj.prems by (cases f) auto
    let ?t = "join '','' (map (\<lambda>(k, v). quote k @ '':'' @ marshal v) kvs)"
    have ok: "\<And>k v. (k, v) \<in> set kvs \<Longrightarrow> valid_utf8 k \<and> json_ok v"
      using JObj.prems by (auto simp: list_all_iff)
    have "pmembers f [] (?t @ CHR ''}'' # r) = Some (foldl (\<lambda>acc (k, v). obj_set k v acc) [] (map (\<lambda>(k, v). (k, norm v)) kvs), r)"
      unfolding f using JObj.prems f ok False
      by (intro pmembers_join [where ws = "[]" and ws' = "[]" and wc = "[]" and enc = marshal, unfolded append_Nil append_Nil2]) (auto intro: JObj.IH)
    moreover obtain u where "?t @ CHR ''}'' # r = dquote # u"
      using False by (cases kvs; cases "tl kvs") (auto simp: quote_def split: prod.split)
    ultimately show ?thesis by (simp add: pval.simps(2))
  qed (simp add: pval.simps(2))
next
  case (JNum t)
  then show ?case using pval_num by (auto simp: list_all_iff)
next
  case (JStr s)
  then show ?case using unquote_esc [of s r] by (simp add: quote_def pval.simps(2))
qed (auto simp: has_prefix_def pval.simps(2))

text \<open>
  Decoding what \<open>json.Marshal\<close> wrote gives the value back, with object keys in map order,
  for every value of valid UTF-8 strings and grammatical numbers.
\<close>

lemma unmarshal_marshal:
  assumes "json_ok j"
  shows "unmarshal (marshal j) = Some (norm j)"
  using pval_marshal [OF assms, of "2 * length (marshal j) + 1" "[]"]
  by (simp add: unmarshal_def skip_def)

lemma marshal_nonempty: "json_ok j \<Longrightarrow> marshal j \<noteq> ''''"
  using marshal_head [of j] by auto

text \<open>A value all of whose objects are Go maps is its own decoding.\<close>

fun canonical :: "json \<Rightarrow> bool" where
  "canonical (JArr xs) = list_all canonical xs"
| "canonical (JObj kvs) = (canon_map kvs \<and> list_all (\<lambda>(k, v). canonical v) kvs)"
| "canonical _ = True"

lemma obj_set_append:
  "\<forall>x \<in> set (map fst kvs). x < k \<Longrightarrow> obj_set k v kvs = kvs @ [(k, v)]"
  by (induction kvs) auto

lemma foldl_obj_set_sorted:
  "sorted_wrt (<) (map fst (acc @ kvs)) \<Longrightarrow> foldl (\<lambda>acc (k, v). obj_set k v acc) acc kvs = acc @ kvs"
proof (induction kvs arbitrary: acc)
  case (Cons kv kvs)
  obtain k v where kv: "kv = (k, v)" by (cases kv)
  have "\<forall>x \<in> set (map fst acc). x < k"
    using Cons.prems kv by (auto simp: sorted_wrt_append)
  then have "obj_set k v acc = acc @ [(k, v)]" by (rule obj_set_append)
  then show ?case using Cons kv by simp
qed simp

lemma norm_canonical: "canonical j \<Longrightarrow> norm j = j"
proof (induction j)
  case (JArr xs)
  then show ?case by (auto simp: list_all_iff intro: map_idI)
next
  case (JObj kvs)
  have "map (\<lambda>(k, v). (k, norm v)) kvs = kvs"
    using JObj by (intro map_idI) (auto simp: list_all_iff)
  then show ?case using JObj.prems foldl_obj_set_sorted [of "[]" kvs] by simp
qed simp_all

definition json_doc :: "json \<Rightarrow> bool" where
  "json_doc j \<longleftrightarrow> json_ok j \<and> canonical j"

interpretation json_codec: text_codec marshal unmarshal json_doc
  by unfold_locales (simp_all add: json_doc_def unmarshal_marshal norm_canonical marshal_nonempty)

lemma marshal_inj: "json_ok a \<Longrightarrow> json_ok b \<Longrightarrow> marshal a = marshal b \<Longrightarrow> norm a = norm b"
  by (metis option.inject unmarshal_marshal)

end
