(* ===== verification/GoSha256.thy ===== *)
theory GoSha256
  imports GoJson
begin

text \<open>
  \<open>crypto/sha256\<close> and \<open>encoding/hex\<close>, over which every digest, fingerprint and
  publication hash of the operator is computed. The proofs use of the hash only its length and
  alphabet: a statement that two digests differ only for different inputs carries the case of a
  SHA-256 collision explicitly, as \<open>sha256_collision\<close>.
\<close>

section \<open>SHA-256\<close>

type_synonym w32 = "32 word"

definition K256 :: "w32 list" where
  "K256 =
    [1116352408, 1899447441, 3049323471, 3921009573, 961987163, 1508970993, 2453635748, 2870763221,
     3624381080, 310598401, 607225278, 1426881987, 1925078388, 2162078206, 2614888103, 3248222580,
     3835390401, 4022224774, 264347078, 604807628, 770255983, 1249150122, 1555081692, 1996064986,
     2554220882, 2821834349, 2952996808, 3210313671, 3336571891, 3584528711, 113926993, 338241895,
     666307205, 773529912, 1294757372, 1396182291, 1695183700, 1986661051, 2177026350, 2456956037,
     2730485921, 2820302411, 3259730800, 3345764771, 3516065817, 3600352804, 4094571909, 275423344,
     430227734, 506948616, 659060556, 883997877, 958139571, 1322822218, 1537002063, 1747873779,
     1955562222, 2024104815, 2227730452, 2361852424, 2428436474, 2756734187, 3204031479, 3329325298]"

definition H256 :: "w32 list" where
  "H256 =
    [1779033703, 3144134277, 1013904242, 2773480762, 1359893119, 2600822924, 528734635, 1541459225]"

definition sigma0 :: "w32 \<Rightarrow> w32" where
  "sigma0 x = xor (word_rotr 7 x) (xor (word_rotr 18 x) (drop_bit 3 x))"

definition sigma1 :: "w32 \<Rightarrow> w32" where
  "sigma1 x = xor (word_rotr 17 x) (xor (word_rotr 19 x) (drop_bit 10 x))"

definition Sigma0 :: "w32 \<Rightarrow> w32" where
  "Sigma0 x = xor (word_rotr 2 x) (xor (word_rotr 13 x) (word_rotr 22 x))"

definition Sigma1 :: "w32 \<Rightarrow> w32" where
  "Sigma1 x = xor (word_rotr 6 x) (xor (word_rotr 11 x) (word_rotr 25 x))"

text \<open>The message schedule: \<open>n\<close> more words behind the words so far.\<close>

fun schedule :: "nat \<Rightarrow> w32 list \<Rightarrow> w32 list" where
  "schedule 0 ws = ws"
| "schedule (Suc n) ws =
     (let t = length ws
      in schedule n (ws @ [sigma1 (ws ! (t - 2)) + ws ! (t - 7) + sigma0 (ws ! (t - 15)) + ws ! (t - 16)]))"

definition round256 :: "w32 list \<Rightarrow> w32 \<times> w32 \<Rightarrow> w32 list" where
  "round256 v kw =
     (let a = v ! 0; b = v ! 1; c = v ! 2; d = v ! 3; e = v ! 4; f = v ! 5; g = v ! 6; h = v ! 7;
          t1 = h + Sigma1 e + xor (and e f) (and (not e) g) + fst kw + snd kw;
          t2 = Sigma0 a + xor (and a b) (xor (and a c) (and b c))
      in [t1 + t2, a, b, c, d + t1, e, f, g])"

definition compress :: "w32 list \<Rightarrow> w32 list \<Rightarrow> w32 list" where
  "compress st block =
     map2 (+) st (foldl round256 st (zip K256 (schedule 48 block)))"

section \<open>Padding and bytes\<close>

definition be_word :: "string \<Rightarrow> w32" where
  "be_word bs = foldl (\<lambda>w c. w * 256 + of_nat (of_char c)) 0 bs"

fun be_bytes :: "nat \<Rightarrow> nat \<Rightarrow> string" where
  "be_bytes 0 v = []"
| "be_bytes (Suc n) v = be_bytes n (v div 256) @ [char_of (v mod 256)]"

definition pad256 :: "string \<Rightarrow> string" where
  "pad256 m = m @ CHR 0x80 # replicate ((119 - length m mod 64) mod 64) CHR 0x00 @ be_bytes 8 (8 * length m)"

fun chunks :: "nat \<Rightarrow> nat \<Rightarrow> 'a list \<Rightarrow> 'a list list" where
  "chunks 0 k xs = []"
| "chunks (Suc n) k xs = take k xs # chunks n k (drop k xs)"

definition sha256_words :: "string \<Rightarrow> w32 list" where
  "sha256_words m =
     (let p = pad256 m
      in foldl (\<lambda>st b. compress st (map be_word (chunks 16 4 b))) H256 (chunks (length p div 64) 64 p))"

definition sha256 :: "string \<Rightarrow> string" where
  "sha256 m = concat (map (\<lambda>w. be_bytes 4 (unat w)) (sha256_words m))"

definition hex_encode :: "string \<Rightarrow> string" where
  "hex_encode s = concat (map (\<lambda>c. [hexdig (of_char c div 16), hexdig (of_char c mod 16)]) s)"

section \<open>What the proofs use\<close>

lemma be_bytes_length [simp]: "length (be_bytes n v) = n"
  by (induction n arbitrary: v) auto

lemma schedule_length: "length (schedule n ws) = length ws + n"
  by (induction n arbitrary: ws) (auto simp: Let_def)

lemma round256_length [simp]: "length (round256 v kw) = 8"
  by (simp add: round256_def Let_def)

lemma foldl_round256_length: "length v = 8 \<Longrightarrow> length (foldl round256 v kws) = 8"
  by (induction kws arbitrary: v) auto

lemma compress_length [simp]: "length st = 8 \<Longrightarrow> length (compress st b) = 8"
  by (simp add: compress_def foldl_round256_length)

lemma sha256_words_length: "length (sha256_words m) = 8"
proof -
  have "length st = 8 \<Longrightarrow> length (foldl (\<lambda>st b. compress st (g b)) st bs) = 8" for st bs and g :: "string \<Rightarrow> w32 list"
    by (induction bs arbitrary: st) auto
  then show ?thesis by (simp add: sha256_words_def Let_def H256_def)
qed

lemma concat_map_length: "(\<And>x. x \<in> set xs \<Longrightarrow> length (f x) = k) \<Longrightarrow> length (concat (map f xs)) = k * length xs"
  by (induction xs) auto

lemma sha256_length: "length (sha256 m) = 32"
  unfolding sha256_def by (subst concat_map_length [of _ _ 4]) (simp_all add: sha256_words_length)

lemma hex_encode_length: "length (hex_encode s) = 2 * length s"
  unfolding hex_encode_def by (subst concat_map_length [of _ _ 2]) simp_all

lemma hexdig_inj: "a < 16 \<Longrightarrow> b < 16 \<Longrightarrow> hexdig a = hexdig b \<Longrightarrow> a = b"
  by (metis hexval_hexdig option.inject)

lemma hex_encode_inj: "hex_encode s = hex_encode t \<Longrightarrow> s = t"
proof (induction s arbitrary: t)
  case (Cons a s)
  obtain b u where t: "t = b # u" using Cons.prems by (cases t) (auto simp: hex_encode_def)
  have lt: "of_char a div 16 < (16::nat)" "of_char b div 16 < (16::nat)"
    using byte_of_char [of a] byte_of_char [of b] by (simp_all add: less_mult_imp_div_less)
  have "of_char a div 16 = (of_char b div 16 :: nat)" "of_char a mod 16 = (of_char b mod 16 :: nat)"
    using Cons.prems t hexdig_inj lt by (auto simp: hex_encode_def)
  then have "of_char a = (of_char b :: nat)" by (metis div_mult_mod_eq)
  moreover have "s = u" using Cons t by (auto simp: hex_encode_def)
  ultimately show ?case using t by simp
qed (cases t; simp add: hex_encode_def)

definition sha256_collision :: "string \<Rightarrow> string \<Rightarrow> bool" where
  "sha256_collision a b \<longleftrightarrow> a \<noteq> b \<and> sha256 a = sha256 b"

end
