(* ===== verification/GoTime.thy ===== *)
theory GoTime
  imports GoSha256
begin

text \<open>
  The RFC 3339 form in which a \<open>metav1.Time\<close> is written into JSON: UTC, whole seconds, a
  four-digit year. Reading accepts exactly this form, which is the only one the operator writes.
\<close>

section \<open>The calendar\<close>

definition leap :: "nat \<Rightarrow> bool" where
  "leap y \<longleftrightarrow> y mod 4 = 0 \<and> (y mod 100 \<noteq> 0 \<or> y mod 400 = 0)"

definition ylen :: "nat \<Rightarrow> nat" where
  "ylen y = (if leap y then 366 else 365)"

definition mlens :: "nat \<Rightarrow> nat list" where
  "mlens y = [31, if leap y then 29 else 28, 31, 30, 31, 30, 31, 31, 30, 31, 30, 31]"

lemma ylen_pos [simp]: "0 < ylen y" "ylen y \<noteq> 0"
  by (simp_all add: ylen_def)

text \<open>The year of a day counted from the first day of \<open>y\<close>, and the day within that year.\<close>

function year_of :: "nat \<Rightarrow> nat \<Rightarrow> nat \<times> nat" where
  "year_of y d = (if d < ylen y then (y, d) else year_of (Suc y) (d - ylen y))"
  by pat_completeness auto
termination
proof (relation "measure snd")
  fix y d :: nat
  assume "\<not> d < ylen y"
  then have "d - ylen y < d" using ylen_pos(1) [of y] by linarith
  then show "((Suc y, d - ylen y), (y, d)) \<in> measure snd" by simp
qed simp

declare year_of.simps [simp del]

fun month_of :: "nat list \<Rightarrow> nat \<Rightarrow> nat \<times> nat" where
  "month_of [] d = (0, d)"
| "month_of (l # ls) d = (if d < l then (0, d) else map_prod Suc id (month_of ls (d - l)))"

lemma year_of_inverse:
  "year_of y d = (y', r) \<Longrightarrow> y \<le> y' \<and> r < ylen y' \<and> sum_list (map ylen [y..<y']) + r = d"
proof (induction y d arbitrary: y' r rule: year_of.induct)
  case (1 y d)
  show ?case
  proof (cases "d < ylen y")
    case True
    then show ?thesis using "1.prems" by (subst (asm) year_of.simps) auto
  next
    case False
    then have "year_of (Suc y) (d - ylen y) = (y', r)"
      using "1.prems" by (subst (asm) year_of.simps) auto
    then have h: "Suc y \<le> y'" "r < ylen y'" "sum_list (map ylen [Suc y..<y']) + r = d - ylen y"
      using "1.IH" [OF False] by blast+
    have "[y..<y'] = y # [Suc y..<y']" using h(1) by (simp add: upt_conv_Cons)
    then show ?thesis using h False by simp
  qed
qed

lemma month_of_inverse:
  "month_of ls d = (m, r) \<Longrightarrow> d < sum_list ls \<Longrightarrow> m < length ls \<and> r < ls ! m \<and> sum_list (take m ls) + r = d"
proof (induction ls arbitrary: d m)
  case (Cons l ls)
  show ?case
  proof (cases "d < l")
    case False
    then obtain m' where m': "month_of ls (d - l) = (m', r)" "m = Suc m'"
      using Cons.prems(1) by (cases "month_of ls (d - l)") auto
    moreover have "d - l < sum_list ls" using Cons.prems(2) False by simp
    ultimately show ?thesis using Cons.IH [OF m'(1)] False by auto
  qed (use Cons.prems in auto)
qed simp

lemma mlens_sum: "sum_list (mlens y) = ylen y" "length (mlens y) = 12"
  by (simp_all add: mlens_def ylen_def)

section \<open>Formatting\<close>

definition pad_num :: "nat \<Rightarrow> nat \<Rightarrow> string" where
  "pad_num w n = replicate (w - length (show_nat n)) CHR ''0'' @ show_nat n"

definition format_rfc3339 :: "nat \<Rightarrow> string" where
  "format_rfc3339 t =
     (let (y, yd) = year_of 1970 (t div 86400); (m, d) = month_of (mlens y) yd; s = t mod 86400
      in pad_num 4 y @ ''-'' @ pad_num 2 (m + 1) @ ''-'' @ pad_num 2 (d + 1) @ ''T'' @
         pad_num 2 (s div 3600) @ '':'' @ pad_num 2 (s div 60 mod 60) @ '':'' @ pad_num 2 (s mod 60) @ ''Z'')"

text \<open>A field of \<open>w\<close> digits followed by the separator \<open>c\<close>.\<close>

definition num_field :: "nat \<Rightarrow> char \<Rightarrow> string \<Rightarrow> (nat \<times> string) option" where
  "num_field w c s =
     (if w < length s \<and> list_all is_digit (take w s) \<and> s ! w = c
      then Some (read_nat (take w s), drop (Suc w) s) else None)"

definition parse_rfc3339 :: "string \<Rightarrow> nat option" where
  "parse_rfc3339 s =
     Option.bind (num_field 4 CHR ''-'' s) (\<lambda>(y, s1).
     Option.bind (num_field 2 CHR ''-'' s1) (\<lambda>(m, s2).
     Option.bind (num_field 2 CHR ''T'' s2) (\<lambda>(d, s3).
     Option.bind (num_field 2 CHR '':'' s3) (\<lambda>(hh, s4).
     Option.bind (num_field 2 CHR '':'' s4) (\<lambda>(mi, s5).
     Option.bind (num_field 2 CHR ''Z'' s5) (\<lambda>(ss, s6).
       if s6 = [] \<and> 1970 \<le> y \<and> 1 \<le> m \<and> m \<le> 12 \<and> 1 \<le> d \<and> d \<le> mlens y ! (m - 1) \<and> hh < 24 \<and> mi < 60 \<and> ss < 60
       then Some ((sum_list (map ylen [1970..<y]) + sum_list (take (m - 1) (mlens y)) + (d - 1)) * 86400
                  + hh * 3600 + mi * 60 + ss)
       else None))))))"

definition time_ok :: "nat \<Rightarrow> bool" where
  "time_ok t \<longleftrightarrow> fst (year_of 1970 (t div 86400)) < 10000"

lemma read_nat_zeros: "read_nat (replicate k CHR ''0'' @ s) = read_nat s"
proof -
  have "foldl (\<lambda>n c. n * 10 + digit_val c) 0 (replicate k CHR ''0'') = 0"
    by (induction k) (auto simp: digit_val_def)
  then show ?thesis by (simp add: read_nat_def)
qed

lemma show_nat_length: "n < 10 ^ w \<Longrightarrow> 0 < w \<Longrightarrow> length (show_nat n) \<le> w"
proof (induction w arbitrary: n)
  case (Suc w)
  show ?case
  proof (cases "n < 10")
    case False
    then have "w \<noteq> 0" using Suc.prems by (cases w) auto
    moreover have "n div 10 < 10 ^ w" using Suc.prems by (auto simp: less_mult_imp_div_less)
    ultimately show ?thesis using Suc.IH [of "n div 10"] False by (subst show_nat.simps) simp
  qed (subst show_nat.simps, simp)
qed simp

lemma num_field_pad:
  assumes "n < 10 ^ w" "0 < w"
  shows "num_field w c (pad_num w n @ c # r) = Some (n, r)"
proof -
  have len: "length (pad_num w n) = w" using show_nat_length [OF assms] by (simp add: pad_num_def)
  have "list_all is_digit (pad_num w n)"
    using show_nat_digits [of n] by (auto simp: pad_num_def list_all_iff is_digit_def)
  moreover have "read_nat (pad_num w n) = n"
    by (simp add: pad_num_def read_nat_zeros read_show_nat)
  ultimately show ?thesis using len by (simp add: num_field_def nth_append)
qed

lemma mlens_bound: "m < 12 \<Longrightarrow> mlens y ! m \<le> 31"
proof -
  assume "m < 12"
  then have "mlens y ! m \<in> set (mlens y)" by (intro nth_mem) (simp add: mlens_sum)
  then show ?thesis by (auto simp: mlens_def split: if_splits)
qed

lemma hms_sum: "s div 3600 * 3600 + s div 60 mod 60 * 60 + s mod 60 = (s::nat)"
proof -
  have "s div 3600 = s div 60 div 60" by (simp flip: div_mult2_eq)
  then have "s div 3600 * 60 + s div 60 mod 60 = s div 60" by simp
  then have "s div 3600 * 3600 + s div 60 mod 60 * 60 = s div 60 * 60" by linarith
  then show ?thesis by simp
qed

lemma parse_format_rfc3339:
  assumes "time_ok t"
  shows "parse_rfc3339 (format_rfc3339 t) = Some t"
proof -
  obtain y yd where y: "year_of 1970 (t div 86400) = (y, yd)" by (cases "year_of 1970 (t div 86400)")
  obtain m d where m: "month_of (mlens y) yd = (m, d)" by (cases "month_of (mlens y) yd")
  let ?s = "t mod 86400"
  have yr: "1970 \<le> y" "yd < ylen y" "sum_list (map ylen [1970..<y]) + yd = t div 86400"
    using year_of_inverse [OF y] by auto
  have mr: "m < 12" "d < mlens y ! m" "sum_list (take m (mlens y)) + d = yd"
    using month_of_inverse [OF m] yr(2) by (simp_all add: mlens_sum)
  have small: "y < 10 ^ 4" "m + 1 < 10 ^ 2" "d + 1 < 10 ^ 2" "?s div 3600 < 10 ^ 2"
      "?s div 60 mod 60 < 10 ^ 2" "?s mod 60 < 10 ^ 2"
    using assms y mr mlens_bound [OF mr(1), of y] by (auto simp: time_ok_def)
  have hms: "?s div 3600 * 3600 + ?s div 60 mod 60 * 60 + ?s mod 60 = ?s"
    by (rule hms_sum)
  have lt: "?s div 3600 < 24" by (simp add: less_mult_imp_div_less)
  have days: "sum_list (map ylen [1970..<y]) + sum_list (take m (mlens y)) + d = t div 86400"
    using yr(3) mr(3) by simp
  have tot: "t div 86400 * 86400 + ?s div 3600 * 3600 + ?s div 60 mod 60 * 60 + ?s mod 60 = t"
    using hms div_mult_mod_eq [of t 86400] by linarith
  show ?thesis
    unfolding parse_rfc3339_def format_rfc3339_def y Let_def prod.case m
    using num_field_pad [OF small(1)] num_field_pad [OF small(2)] num_field_pad [OF small(3)]
      num_field_pad [OF small(4)] num_field_pad [OF small(5)] num_field_pad [OF small(6)]
      yr(1) mr lt days tot
    by simp
qed

lemma format_rfc3339_ascii: "list_all (byte_in 0 0x7F) (format_rfc3339 t)"
proof -
  have d: "is_digit c \<Longrightarrow> byte_in 0 0x7F c" for c by (auto simp: is_digit_def byte_in_def)
  have "list_all (byte_in 0 0x7F) (pad_num w n)" for w n
    using show_nat_digits [of n] d by (auto simp: pad_num_def list_all_iff byte_in_def)
  then show ?thesis
    by (auto simp: format_rfc3339_def Let_def byte_in_def split: prod.split)
qed

lemma valid_utf8_ascii: "list_all (byte_in 0 0x7F) s \<Longrightarrow> valid_utf8 s"
  by (induction s) auto

end
