(* ===== verification/WorkloadTypes.thy ===== *)
theory WorkloadTypes
  imports GoTime
begin

text \<open>
  The custom resources of \<open>operator/api/v1alpha1\<close> that the AIWorkload controller works on:
  the AIWorkload (\<open>aiworkload_types.go\<close>) and the parts of the Blueprint
  (\<open>blueprint_types.go\<close>) it reads. A Go pointer field is an \<open>option\<close>. The enumerations
  are datatypes, as the CRD validation admits no other value; the phase, which is empty on a new
  object, has the extra constructor \<open>PhaseUnset\<close>. Times are nanoseconds since
  the epoch; the request time of an operation is \<open>None\<close> for the zero time, which is written
  as \<open>null\<close>. The
  list of status conditions, which the API server keys by type, is a map from the type.
\<close>

section \<open>Enumerations\<close>

datatype AIWorkloadSourceType = AIWorkloadSourceApp | AIWorkloadSourceBlueprint

datatype AIWorkloadDeployStrategy =
  AIWorkloadDeployHelm | AIWorkloadDeployFleetBundle | AIWorkloadDeployGitOps

datatype AIWorkloadPhase =
  PhaseUnset | PhasePending | PhaseRunning | PhaseDegraded | PhaseFailed | PhaseUnknown

datatype AIWorkloadClusterPhase = ClusterRunning | ClusterFailed | ClusterPending

datatype ComponentVendor = VendorSUSE | VendorNvidia | VendorOther string

fun strategy_string :: "AIWorkloadDeployStrategy \<Rightarrow> string" where
  "strategy_string AIWorkloadDeployHelm = ''Helm''"
| "strategy_string AIWorkloadDeployFleetBundle = ''FleetBundle''"
| "strategy_string AIWorkloadDeployGitOps = ''GitOps''"

lemma strategy_string_inj: "strategy_string a = strategy_string b \<longleftrightarrow> a = b"
  by (cases a; cases b) auto

section \<open>Spec\<close>

record AppSource =
  app_ChartRepo :: string
  app_ChartName :: string
  app_ChartVersion :: string
  app_Release :: string
  app_Vendor :: ComponentVendor

record BlueprintSource =
  bps_Name :: string
  bps_Version :: string

text \<open>A raw JSON document of the CR: \<open>apixv1.JSON\<close> holds its bytes.\<close>

record ComponentValueOverride =
  ov_ComponentName :: string
  ov_Values :: "string option"
  ov_Enabled :: "bool option"

record AIWorkloadSpec =
  DisplayName :: string
  SourceType :: AIWorkloadSourceType
  SourceApp :: "AppSource option"
  SourceBlueprint :: "BlueprintSource option"
  TargetNamespace :: string
  TargetClusters :: "string list"
  DeployStrategy :: AIWorkloadDeployStrategy
  ComponentValues :: "ComponentValueOverride list"
  FleetBundleNames :: "string list"

section \<open>Status\<close>

record AIWorkloadClusterStatus =
  cs_ClusterID :: string
  cs_Phase :: AIWorkloadClusterPhase
  cs_Message :: string

record DeployedSourceSnapshot =
  ds_Version :: string
  ds_RenderDigest :: string
  ds_CertifiedAt :: nat

record AIWorkloadComponentStatus =
  cell_ComponentName :: string
  cell_ReleaseName :: string
  cell_ClusterID :: string
  cell_Phase :: AIWorkloadClusterPhase
  cell_Revision :: string
  cell_InstalledVersion :: string
  cell_Message :: string

record AIWorkloadOperation =
  op_Type :: string
  op_Nonce :: string
  op_TargetVersion :: string
  op_ExpectedDigest :: string
  op_RetryEpoch :: int
  op_RequestedAt :: "nat option"
  op_IntentDigest :: string
  op_State :: string
  op_Reason :: string

definition OperationTypeUpgrade :: string where "OperationTypeUpgrade = ''Upgrade''"
definition OperationTypeRollback :: string where "OperationTypeRollback = ''Rollback''"
definition OperationTypeRetry :: string where "OperationTypeRetry = ''Retry''"
definition OperationStateInProgress :: string where "OperationStateInProgress = ''InProgress''"
definition OperationStateSucceeded :: string where "OperationStateSucceeded = ''Succeeded''"
definition OperationStateFailed :: string where "OperationStateFailed = ''Failed''"
definition OperationStateSuperseded :: string where "OperationStateSuperseded = ''Superseded''"

lemmas op_consts =
  OperationTypeUpgrade_def OperationTypeRollback_def OperationTypeRetry_def
  OperationStateInProgress_def OperationStateSucceeded_def OperationStateFailed_def
  OperationStateSuperseded_def

record RenderBaseline =
  rb_HelmOpUID :: string
  rb_RenderDigest :: string
  rb_RetryEpoch :: int
  rb_HelmOpGeneration :: int
  rb_AcceptedFingerprint :: string

record PullSecretDelivery =
  psd_Namespace :: string
  psd_Names :: "string list"

datatype ConditionStatus = ConditionTrue | ConditionFalse | ConditionUnknown

record Condition =
  c_Status :: ConditionStatus
  c_Reason :: string
  c_Message :: string
  c_ObservedGeneration :: int

record AIWorkloadStatus =
  st_Phase :: AIWorkloadPhase
  ClusterStatuses :: "AIWorkloadClusterStatus list"
  PullSecretDeliveries :: "PullSecretDelivery list"
  Conditions :: "string \<Rightarrow> Condition option"
  ObservedGeneration :: int
  DeployedSource :: "DeployedSourceSnapshot option"
  ComponentStatuses :: "AIWorkloadComponentStatus list"
  ActiveOperation :: "AIWorkloadOperation option"
  RenderBaselines :: "RenderBaseline list"
  Customized :: bool

section \<open>The object\<close>

record AIWorkload =
  wl_Name :: string
  wl_Namespace :: string
  wl_UID :: string
  wl_Generation :: int
  wl_CreationTimestamp :: nat
  wl_Deleting :: bool
  wl_Finalizers :: "string list"
  Annotations :: smap
  Spec :: AIWorkloadSpec
  Status :: AIWorkloadStatus

definition setCondition ::
  "(string \<Rightarrow> Condition option) \<Rightarrow> string \<Rightarrow> ConditionStatus \<Rightarrow> string \<Rightarrow> string \<Rightarrow> int \<Rightarrow> (string \<Rightarrow> Condition option)" where
  "setCondition conditions condType status reason message generation =
     conditions(condType \<mapsto> \<lparr>c_Status = status, c_Reason = reason, c_Message = message,
                              c_ObservedGeneration = generation\<rparr>)"

section \<open>Blueprint components\<close>

record BlueprintComponent =
  bc_ChartRepo :: string
  bc_ChartName :: string
  bc_ChartVersion :: string
  bc_Vendor :: ComponentVendor
  bc_TargetNamespace :: string
  bc_ReleaseName :: string
  bc_Values :: "string option"

section \<open>A concrete workload\<close>

text \<open>A fresh blueprint workload on the local cluster, at which properties are instantiated.\<close>

definition example_spec :: AIWorkloadSpec where
  "example_spec = \<lparr>DisplayName = ''demo'', SourceType = AIWorkloadSourceBlueprint, SourceApp = None,
     SourceBlueprint = Some \<lparr>bps_Name = ''rag'', bps_Version = ''1.0''\<rparr>, TargetNamespace = ''ai'',
     TargetClusters = [''local''], DeployStrategy = AIWorkloadDeployFleetBundle,
     ComponentValues = [], FleetBundleNames = [''demo-rag'']\<rparr>"

definition example_status :: AIWorkloadStatus where
  "example_status = \<lparr>st_Phase = PhaseUnset, ClusterStatuses = [], PullSecretDeliveries = [],
     Conditions = Map.empty, ObservedGeneration = 0, DeployedSource = None, ComponentStatuses = [],
     ActiveOperation = None, RenderBaselines = [], Customized = False\<rparr>"

definition example_workload :: AIWorkload where
  "example_workload = \<lparr>wl_Name = ''demo'', wl_Namespace = ''default'', wl_UID = ''u1'', wl_Generation = 1,
     wl_CreationTimestamp = 0, wl_Deleting = False, wl_Finalizers = [], Annotations = Map.empty,
     Spec = example_spec, Status = example_status\<rparr>"

lemmas example_defs = example_workload_def example_spec_def example_status_def

end
