(* ===== verification/Journal.thy ===== *)
theory Journal
  imports WorkloadTypes
begin

text \<open>
  The durable operation journal (\<open>internal/controller/aiworkload/journal.go\<close>): the
  annotations in which the controller records the operation in flight and the triggers it has
  already handled. Both are JSON documents; a struct is written field by field in declaration
  order, a field tagged \<open>omitempty\<close> is dropped when it is empty, and a nil slice is
  \<open>null\<close>. Decoding matches member names exactly.
\<close>

section \<open>Annotations\<close>

definition operationAnnotation :: string where "operationAnnotation = ''ai-factory.suse.com/operation''"
definition handledOpsAnnotation :: string where "handledOpsAnnotation = ''ai-factory.suse.com/handled-ops''"
definition retryEpochAnnotation :: string where "retryEpochAnnotation = ''ai-factory.suse.com/retry-epoch''"
definition supersededOpAnnotation :: string where "supersededOpAnnotation = ''ai-factory.suse.com/superseded-op''"
definition upgradeRequestAnnotation :: string where "upgradeRequestAnnotation = ''ai-factory.suse.com/upgrade-request''"
definition rollbackRequestAnnotation :: string where "rollbackRequestAnnotation = ''ai-factory.suse.com/rollback-request''"
definition retryRequestAnnotation :: string where "retryRequestAnnotation = ''ai-factory.suse.com/retry-request''"
definition maxHandledOps :: nat where "maxHandledOps = 8"

lemmas annotation_defs =
  operationAnnotation_def handledOpsAnnotation_def retryEpochAnnotation_def
  supersededOpAnnotation_def upgradeRequestAnnotation_def rollbackRequestAnnotation_def
  retryRequestAnnotation_def

section \<open>Structs and slices as JSON\<close>

type_synonym field = "string \<times> bool \<times> json"

fun members :: "field list \<Rightarrow> jmap" where
  "members [] = []"
| "members ((k, drop_it, j) # fs) = (if drop_it then members fs else (k, j) # members fs)"

definition struct_json :: "field list \<Rightarrow> json" where
  "struct_json fs = JObj (members fs)"

definition strings_json :: "string list \<Rightarrow> json" where
  "strings_json xs = (if xs = [] then JNull else JArr (map JStr xs))"

text \<open>Decoding a member into a Go field: an absent or null member leaves the zero value.\<close>

fun str_value :: "json option \<Rightarrow> string option" where
  "str_value None = Some ''''"
| "str_value (Some JNull) = Some ''''"
| "str_value (Some (JStr s)) = Some s"
| "str_value (Some _) = None"

fun int_value :: "json option \<Rightarrow> int option" where
  "int_value None = Some 0"
| "int_value (Some JNull) = Some 0"
| "int_value (Some (JNum t)) = ParseInt t"
| "int_value (Some _) = None"

text \<open>Times are nanoseconds in memory and whole seconds in JSON; \<open>None\<close> is the zero time.\<close>

definition second :: nat where "second = 1000000000"

fun time_value :: "json option \<Rightarrow> nat option option" where
  "time_value None = Some None"
| "time_value (Some JNull) = Some None"
| "time_value (Some (JStr s)) = map_option (\<lambda>t. Some (t * second)) (parse_rfc3339 s)"
| "time_value (Some _) = None"

fun time_json :: "nat option \<Rightarrow> json" where
  "time_json None = JNull"
| "time_json (Some t) = JStr (format_rfc3339 (t div second))"

definition trunc_second :: "nat \<Rightarrow> nat" where
  "trunc_second t = t div second * second"

fun string_elem :: "json \<Rightarrow> string option" where
  "string_elem (JStr s) = Some s"
| "string_elem JNull = Some ''''"
| "string_elem _ = None"

fun traverse :: "('a \<Rightarrow> 'b option) \<Rightarrow> 'a list \<Rightarrow> 'b list option" where
  "traverse f [] = Some []"
| "traverse f (x # xs) = (case f x of None \<Rightarrow> None | Some y \<Rightarrow> map_option (Cons y) (traverse f xs))"

lemma traverse_map: "(\<And>x. x \<in> set xs \<Longrightarrow> f (g x) = Some x) \<Longrightarrow> traverse f (map g xs) = Some xs"
  by (induction xs) auto

lemma norm_struct:
  assumes "distinct (map fst kvs)"
  shows "\<exists>m. norm (JObj kvs) = JObj m \<and> (\<forall>k. obj_get m k = map_option norm (map_of kvs k))"
proof -
  have "obj_get (foldl (\<lambda>acc (k, v). obj_set k v acc) acc (map (\<lambda>(k, v). (k, norm v)) kvs)) k
      = (case map_of kvs k of Some v \<Rightarrow> Some (norm v) | None \<Rightarrow> obj_get acc k)" for acc k
    using assms
  proof (induction kvs arbitrary: acc)
    case (Cons kv kvs)
    obtain a b where kv: "kv = (a, b)" by (cases kv)
    with Cons.prems have "map_of kvs a = None" by (auto simp: map_of_eq_None_iff)
    with Cons kv show ?case by (auto split: option.splits)
  qed simp
  then show ?thesis by (auto split: option.splits)
qed

lemma members_keys: "set (map fst (members fs)) \<subseteq> set (map fst fs)"
  by (induction fs rule: members.induct) auto

lemma members_distinct: "distinct (map fst fs) \<Longrightarrow> distinct (map fst (members fs))"
proof (induction fs rule: members.induct)
  case (2 k d j fs)
  then show ?case using members_keys [of fs] by auto
qed simp

lemma members_set: "(k, j) \<in> set (members fs) \<Longrightarrow> \<exists>d. (k, d, j) \<in> set fs"
  by (induction fs rule: members.induct) (auto split: if_splits)

section \<open>Operations\<close>

definition operation_fields :: "AIWorkloadOperation \<Rightarrow> field list" where
  "operation_fields op =
     [(''type'', False, JStr (op_Type op)),
      (''nonce'', False, JStr (op_Nonce op)),
      (''targetVersion'', op_TargetVersion op = '''', JStr (op_TargetVersion op)),
      (''expectedDigest'', op_ExpectedDigest op = '''', JStr (op_ExpectedDigest op)),
      (''retryEpoch'', op_RetryEpoch op = 0, JNum (FormatInt (op_RetryEpoch op))),
      (''requestedAt'', False, time_json (op_RequestedAt op)),
      (''intentDigest'', op_IntentDigest op = '''', JStr (op_IntentDigest op)),
      (''state'', False, JStr (op_State op)),
      (''reason'', op_Reason op = '''', JStr (op_Reason op))]"

definition encodeOperation :: "AIWorkloadOperation \<Rightarrow> string" where
  "encodeOperation op = marshal (struct_json (operation_fields op))"

definition decode_fields :: "(string \<Rightarrow> json option) \<Rightarrow> AIWorkloadOperation option" where
  "decode_fields m =
     Option.bind (str_value (m ''type'')) (\<lambda>ty.
     Option.bind (str_value (m ''nonce'')) (\<lambda>nonce.
     Option.bind (str_value (m ''targetVersion'')) (\<lambda>target.
     Option.bind (str_value (m ''expectedDigest'')) (\<lambda>expected.
     Option.bind (int_value (m ''retryEpoch'')) (\<lambda>epoch.
     Option.bind (time_value (m ''requestedAt'')) (\<lambda>requested.
     Option.bind (str_value (m ''intentDigest'')) (\<lambda>intent.
     Option.bind (str_value (m ''state'')) (\<lambda>state.
     Option.bind (str_value (m ''reason'')) (\<lambda>reason.
       Some \<lparr>op_Type = ty, op_Nonce = nonce, op_TargetVersion = target, op_ExpectedDigest = expected,
             op_RetryEpoch = epoch, op_RequestedAt = requested, op_IntentDigest = intent,
             op_State = state, op_Reason = reason\<rparr>)))))))))"

definition decodeOperation :: "string \<Rightarrow> AIWorkloadOperation option" where
  "decodeOperation s = (case unmarshal s of
       Some (JObj m) \<Rightarrow> decode_fields (obj_get m)
     | Some JNull \<Rightarrow> decode_fields Map.empty
     | _ \<Rightarrow> None)"

text \<open>An operation as it comes back: its request time in whole seconds.\<close>

definition journal_form :: "AIWorkloadOperation \<Rightarrow> AIWorkloadOperation" where
  "journal_form op = op\<lparr>op_RequestedAt := map_option trunc_second (op_RequestedAt op)\<rparr>"

definition operation_ok :: "AIWorkloadOperation \<Rightarrow> bool" where
  "operation_ok op \<longleftrightarrow>
     list_all valid_utf8 [op_Type op, op_Nonce op, op_TargetVersion op, op_ExpectedDigest op,
       op_IntentDigest op, op_State op, op_Reason op]
     \<and> int64 (op_RetryEpoch op)
     \<and> (case op_RequestedAt op of None \<Rightarrow> True | Some t \<Rightarrow> time_ok (t div second))"

lemma show_nat_hd_nonzero: "0 < n \<Longrightarrow> hd (show_nat n) \<noteq> CHR ''0''"
proof (induction n rule: show_nat.induct)
  case (1 n)
  show ?case
  proof (cases "n < 10")
    case True
    then have "digit_val (hd (show_nat n)) = n"
      by (subst show_nat.simps) (simp add: digit_char_val)
    then show ?thesis using "1.prems" by (auto simp: digit_val_def)
  next
    case False
    then have "hd (show_nat n) = hd (show_nat (n div 10))"
      by (subst show_nat.simps) (use show_nat_digits [of "n div 10"] in simp)
    then show ?thesis using "1.IH" [OF False] False by simp
  qed
qed

lemma show_nat_num_ok:
  "num_ok (show_nat n)" "list_all num_char (show_nat n)" "num_ok (CHR ''-'' # show_nat n)"
proof -
  have dig: "\<forall>c \<in> set (show_nat n). is_digit c" "show_nat n \<noteq> []" using show_nat_digits by auto
  then obtain d v where dv: "show_nat n = d # v" by (cases "show_nat n") auto
  have tl: "dropWhile is_digit v = []" using dig(1) dv by (auto simp: dropWhile_eq_Nil_conv)
  have zero: "d = CHR ''0'' \<Longrightarrow> v = []"
  proof -
    assume "d = CHR ''0''"
    then have "n = 0" using show_nat_hd_nonzero [of n] dv by (cases "n = 0") auto
    then show "v = []" using dv by (simp add: show_nat.simps)
  qed
  have d: "is_digit d" "d \<noteq> CHR ''-''" using dig(1) dv sign_not_digit by force+
  have "frac_ok []" by (simp add: frac_ok_def)
  then have "frac_ok (dropWhile is_digit v)" unfolding tl .
  then show "num_ok (show_nat n)" "num_ok (CHR ''-'' # show_nat n)"
    using d zero dv by (auto simp: num_ok_def Let_def)
  show "list_all num_char (show_nat n)" using dig(1) by (auto simp: list_all_iff num_char_def)
qed

lemma FormatInt_json: "num_ok (FormatInt i) \<and> list_all num_char (FormatInt i)"
  using show_nat_num_ok by (auto simp: FormatInt_def num_char_def)

lemma operation_fields_json_ok:
  assumes "operation_ok op" and "(k, d, j) \<in> set (operation_fields op)"
  shows "valid_utf8 k \<and> json_ok j"
proof -
  have "json_ok (time_json (op_RequestedAt op))"
    by (cases "op_RequestedAt op") (auto intro: valid_utf8_ascii format_rfc3339_ascii)
  moreover have "valid_utf8 ''type''" "valid_utf8 ''nonce''" "valid_utf8 ''targetVersion''"
    "valid_utf8 ''expectedDigest''" "valid_utf8 ''retryEpoch''" "valid_utf8 ''requestedAt''"
    "valid_utf8 ''intentDigest''" "valid_utf8 ''state''" "valid_utf8 ''reason''"
    by (rule valid_utf8_ascii, simp add: byte_in_def)+
  ultimately show ?thesis
    using assms FormatInt_json [of "op_RetryEpoch op"]
    unfolding operation_fields_def operation_ok_def
    by (auto simp del: valid_utf8.simps)
qed

lemma unmarshal_struct:
  assumes "\<And>k d j. (k, d, j) \<in> set fs \<Longrightarrow> valid_utf8 k \<and> json_ok j"
    and "distinct (map fst fs)"
  shows "\<exists>m. unmarshal (marshal (struct_json fs)) = Some (JObj m) \<and>
    (\<forall>k. obj_get m k = map_option norm (obj_get (members fs) k))"
proof -
  have "json_ok (struct_json fs)"
    using assms(1) by (auto simp: struct_json_def list_all_iff dest!: members_set)
  then have u: "unmarshal (marshal (struct_json fs)) = Some (norm (JObj (members fs)))"
    unfolding struct_json_def by (rule unmarshal_marshal)
  show ?thesis
    unfolding u using norm_struct [OF members_distinct [OF assms(2)]] by auto
qed

lemma norm_time_json: "norm (time_json t) = time_json t"
  by (cases t) auto

lemma decode_encode_operation:
  assumes "operation_ok op"
  shows "decodeOperation (encodeOperation op) = Some (journal_form op)"
proof -
  have dist: "distinct (map fst (operation_fields op))" by (simp add: operation_fields_def)
  have "\<exists>m. unmarshal (encodeOperation op) = Some (JObj m) \<and>
      (\<forall>k. obj_get m k = map_option norm (obj_get (members (operation_fields op)) k))"
    unfolding encodeOperation_def
    by (rule unmarshal_struct) (use operation_fields_json_ok [OF assms] dist in blast)+
  then obtain m where m: "unmarshal (encodeOperation op) = Some (JObj m)"
    "\<And>k. obj_get m k = map_option norm (obj_get (members (operation_fields op)) k)"
    by blast
  have t: "time_value (Some (time_json (op_RequestedAt op))) = Some (map_option trunc_second (op_RequestedAt op))"
    using assms by (cases "op_RequestedAt op")
      (auto simp: operation_ok_def parse_format_rfc3339 trunc_second_def)
  have e: "int64 (op_RetryEpoch op)" using assms by (simp add: operation_ok_def)
  have get: "obj_get m ''type'' = Some (JStr (op_Type op))"
    "obj_get m ''nonce'' = Some (JStr (op_Nonce op))"
    "obj_get m ''targetVersion'' = (if op_TargetVersion op = '''' then None else Some (JStr (op_TargetVersion op)))"
    "obj_get m ''expectedDigest'' = (if op_ExpectedDigest op = '''' then None else Some (JStr (op_ExpectedDigest op)))"
    "obj_get m ''retryEpoch'' = (if op_RetryEpoch op = 0 then None else Some (JNum (FormatInt (op_RetryEpoch op))))"
    "obj_get m ''requestedAt'' = Some (time_json (op_RequestedAt op))"
    "obj_get m ''intentDigest'' = (if op_IntentDigest op = '''' then None else Some (JStr (op_IntentDigest op)))"
    "obj_get m ''state'' = Some (JStr (op_State op))"
    "obj_get m ''reason'' = (if op_Reason op = '''' then None else Some (JStr (op_Reason op)))"
    by (simp_all add: m(2) operation_fields_def norm_time_json)
  have i: "int_value (obj_get m ''retryEpoch'') = Some (op_RetryEpoch op)"
    using e by (simp add: get(5) ParseInt_FormatInt)
  have "decodeOperation (encodeOperation op) = decode_fields (obj_get m)"
    by (simp add: decodeOperation_def m(1))
  also have "\<dots> = Some (journal_form op)"
    unfolding decode_fields_def i using t
    by (simp add: get journal_form_def)
  finally show ?thesis .
qed

text \<open>The operations that the journal keeps exactly: those requested at a whole second.\<close>

definition journal_ok :: "AIWorkloadOperation \<Rightarrow> bool" where
  "journal_ok op \<longleftrightarrow> operation_ok op \<and> journal_form op = op"

lemma trunc_second_idem [simp]: "trunc_second (trunc_second t) = trunc_second t"
  by (simp add: trunc_second_def second_def)

lemma journal_form_idem [simp]: "journal_form (journal_form op) = journal_form op"
  by (cases "op_RequestedAt op") (simp_all add: journal_form_def)

lemma operation_ok_journal_form: "operation_ok op \<Longrightarrow> journal_ok (journal_form op)"
  by (cases "op_RequestedAt op")
    (auto simp: journal_ok_def operation_ok_def trunc_second_def journal_form_def second_def)

lemma encodeOperation_nonempty: "operation_ok op \<Longrightarrow> encodeOperation op \<noteq> ''''"
  by (simp add: encodeOperation_def struct_json_def)

interpretation operation_codec: text_codec encodeOperation decodeOperation journal_ok
  by unfold_locales
    (auto simp: journal_ok_def decode_encode_operation encodeOperation_nonempty)

section \<open>Handled triggers\<close>

definition handledID :: "string \<Rightarrow> string \<Rightarrow> string" where
  "handledID opType nonce = opType @ ''|'' @ nonce"

definition isHandled :: "string list \<Rightarrow> string \<Rightarrow> bool" where
  "isHandled existing i \<longleftrightarrow> i \<in> set existing"

definition addHandled :: "string list \<Rightarrow> string \<Rightarrow> string list" where
  "addHandled existing i =
     (if isHandled existing i then existing
      else let out = existing @ [i]
           in if length out > maxHandledOps then drop (length out - maxHandledOps) out else out)"

definition encodeHandled :: "string list \<Rightarrow> string" where
  "encodeHandled ids = marshal (strings_json ids)"

definition decodeHandled :: "string \<Rightarrow> string list" where
  "decodeHandled s =
     (if s = '''' then []
      else case unmarshal s of
             Some (JArr xs) \<Rightarrow> (case traverse string_elem xs of None \<Rightarrow> [] | Some ids \<Rightarrow> ids)
           | _ \<Rightarrow> [])"

lemma decode_encode_handled:
  assumes "list_all valid_utf8 ids"
  shows "decodeHandled (encodeHandled ids) = ids"
proof (cases "ids = []")
  case True
  have "unmarshal (marshal JNull) = Some JNull" by (subst unmarshal_marshal) auto
  then show ?thesis using True by (auto simp: decodeHandled_def encodeHandled_def strings_json_def)
next
  case False
  let ?j = "JArr (map JStr ids)"
  have ok: "json_ok ?j" using assms by (auto simp: list_all_iff)
  have "traverse string_elem (map JStr ids) = Some ids" by (rule traverse_map) simp
  moreover have "norm ?j = ?j" by (auto intro: map_idI)
  ultimately show ?thesis
    using False unmarshal_marshal [OF ok] marshal_nonempty [OF ok]
    by (auto simp: decodeHandled_def encodeHandled_def strings_json_def comp_def)
qed

lemma encodeHandled_nonempty: "encodeHandled ids \<noteq> []"
  by (simp add: encodeHandled_def strings_json_def)

interpretation handled_codec: text_codec encodeHandled "\<lambda>s. Some (decodeHandled s)" "list_all valid_utf8"
  by unfold_locales (simp_all only: decode_encode_handled encodeHandled_nonempty not_False_eq_True)

lemma addHandled_member: "i \<in> set (addHandled ids i)"
proof -
  have "last (drop n (ids @ [i])) = i \<and> drop n (ids @ [i]) \<noteq> []" if "n \<le> length ids" for n
    using that by (simp add: last_drop)
  then have "i \<in> set (drop n (ids @ [i]))" if "n \<le> length ids" for n
    using that by (metis last_in_set)
  then show ?thesis
    by (simp add: addHandled_def Let_def isHandled_def maxHandledOps_def)
qed

lemma addHandled_subset: "set (addHandled ids i) \<subseteq> insert i (set ids)"
  by (auto simp: addHandled_def Let_def dest: in_set_dropD)

lemma addHandled_valid: "list_all valid_utf8 ids \<Longrightarrow> valid_utf8 i \<Longrightarrow> list_all valid_utf8 (addHandled ids i)"
  using addHandled_subset [of ids i] by (auto simp: list_all_iff)

text \<open>
  C36. What the controller writes into its annotations it reads back: an operation whose texts are
  valid UTF-8, whose epoch fits 64 bits and whose time has a four-digit year comes back unchanged
  but for the fraction of a second of its request time, a list of handled requests comes back
  exactly, and two operations requested at whole seconds have the same journal only if they are
  the same.
\<close>

theorem journal_roundtrip:
  assumes "operation_ok op" and "journal_ok a" and "journal_ok b" and "list_all valid_utf8 ids"
  shows "decodeOperation (encodeOperation op) = Some (op\<lparr>op_RequestedAt := map_option (\<lambda>t. t div 1000000000 * 1000000000) (op_RequestedAt op)\<rparr>)
    \<and> decodeHandled (encodeHandled ids) = ids
    \<and> (encodeOperation a = encodeOperation b \<longleftrightarrow> a = b)"
proof -
  have "trunc_second = (\<lambda>t. t div 1000000000 * 1000000000)" by (simp add: fun_eq_iff trunc_second_def second_def)
  then show ?thesis
    using decode_encode_operation [OF assms(1)] decode_encode_handled [OF assms(4)] operation_codec.enc_inj [OF assms(2,3)]
    by (auto simp: journal_form_def)
qed

theorem journal_roundtrip_witness:
  "let op = \<lparr>op_Type = ''Retry'', op_Nonce = ''n-1'', op_TargetVersion = '''', op_ExpectedDigest = '''', op_RetryEpoch = 3,
       op_RequestedAt = Some 1700000000, op_IntentDigest = ''sha256:ab'', op_State = ''InProgress'', op_Reason = ''''\<rparr>
   in decodeOperation (encodeOperation op) = Some (op\<lparr>op_RequestedAt := Some 1000000000\<rparr>)
      \<and> decodeHandled (encodeHandled [''Retry|n-1'', ''Upgrade|x'']) = [''Retry|n-1'', ''Upgrade|x'']"
proof -
  let ?op = "\<lparr>op_Type = ''Retry'', op_Nonce = ''n-1'', op_TargetVersion = '''', op_ExpectedDigest = '''', op_RetryEpoch = 3,
       op_RequestedAt = Some 1700000000, op_IntentDigest = ''sha256:ab'', op_State = ''InProgress'', op_Reason = ''''\<rparr>"
  have ok: "operation_ok ?op"
    by (simp add: operation_ok_def byte_in_def int64_def time_ok_def second_def year_of.simps ylen_def)
  have j: "journal_ok (journal_form ?op)" by (rule operation_ok_journal_form [OF ok])
  have u: "list_all valid_utf8 [''Retry|n-1'', ''Upgrade|x'']" by (simp add: byte_in_def)
  show ?thesis using journal_roundtrip [OF ok j j u] by simp
qed

end
