(* ===== verification/Names.thy ===== *)
theory Names
  imports GoStrings
begin

text \<open>
  Names derived from other names: \<open>Host\<close> of \<open>internal/registryurl/host.go\<close>, and
  \<open>capReleaseName\<close>, \<open>bpCRName\<close> and \<open>ociChartRef\<close> of
  \<open>internal/controller/aiworkload/blueprint.go\<close>.
\<close>

section \<open>Registry hosts\<close>

definition Host :: "string \<Rightarrow> string" where
  "Host repoURL =
     (let host = (case index_str repoURL ''://'' of None \<Rightarrow> repoURL | Some i \<Rightarrow> drop (i + 3) repoURL)
      in case index_byte host CHR ''/'' of None \<Rightarrow> host | Some i \<Rightarrow> take i host)"

lemma Host_no_slash: "CHR ''/'' \<notin> set (Host u)"
  by (auto simp: Host_def Let_def dest!: index_byte_Some dest: set_takeWhileD split: option.splits)

lemma index_str_no_slash: "CHR ''/'' \<notin> set s \<Longrightarrow> index_str s ''://'' = None"
  by (cases "index_str s ''://''") (auto dest: index_str_set)

lemma Host_bare: "CHR ''/'' \<notin> set s \<Longrightarrow> Host s = s"
  by (simp add: Host_def index_str_no_slash)

lemma index_byte_append: "c \<notin> set a \<Longrightarrow> index_byte (a @ c # b) c = Some (length a)"
  by (induction a) auto

lemma index_str_append_scheme:
  "CHR '':'' \<notin> set a \<Longrightarrow> index_str (a @ ''://'' @ b) ''://'' = Some (length a)"
  by (induction a) (auto simp: has_prefix_def)

lemma index_str_no_scheme:
  "CHR '':'' \<notin> set a \<Longrightarrow> index_str (a @ CHR ''/'' # b) ''://'' \<noteq> Some 0"
  by (cases a) (auto simp: has_prefix_def)

text \<open>
  \<open>Host\<close> gives the host of a chart-repository URL: with a scheme and a path, with a
  scheme only, and for a bare host, which comes back unchanged. The result never contains a
  slash, so taking the host of a host changes nothing.
\<close>

theorem host_of_url:
  assumes "CHR '':'' \<notin> set scheme" and "CHR ''/'' \<notin> set h"
  shows "Host (scheme @ ''://'' @ h @ ''/'' @ path) = h
    \<and> Host (scheme @ ''://'' @ h) = h \<and> Host h = h
    \<and> (\<forall>u. CHR ''/'' \<notin> set (Host u) \<and> Host (Host u) = Host u)"
proof -
  have "Host (scheme @ ''://'' @ h @ ''/'' @ path) = h"
    using index_str_append_scheme [OF assms(1), of "h @ ''/'' @ path"]
      index_byte_append [OF assms(2), of path]
    by (simp add: Host_def)
  moreover have "Host (scheme @ ''://'' @ h) = h"
    using index_str_append_scheme [OF assms(1), of h] assms(2) by (simp add: Host_def)
  ultimately show ?thesis using assms(2) by (simp add: Host_bare Host_no_slash)
qed

theorem host_of_url_witness:
  "Host ''oci://registry.example.com/charts'' = ''registry.example.com''
   \<and> Host ''helm.example.com'' = ''helm.example.com''"
  using host_of_url [of "''oci''" "''registry.example.com''" "''charts''"]
    host_of_url [of "''https''" "''helm.example.com''" "''x''"] by simp

section \<open>Helm release names\<close>

definition helmReleaseNameMax :: nat where "helmReleaseNameMax = 53"

definition capReleaseName :: "string \<Rightarrow> string" where
  "capReleaseName name =
     (if length name \<le> helmReleaseNameMax then name
      else
        let suffix = hash_suffix name;
            head = trim_both CHR ''-'' (take (helmReleaseNameMax - length suffix - 1) name)
        in if head = [] then suffix else head @ ''-'' @ suffix)"

lemma capReleaseName_length: "length (capReleaseName s) \<le> 53"
proof (cases "length s \<le> helmReleaseNameMax")
  case True
  then show ?thesis by (simp add: capReleaseName_def helmReleaseNameMax_def)
next
  case False
  let ?t = "take (helmReleaseNameMax - length (hash_suffix s) - 1) s"
  have "length (trim_both CHR ''-'' ?t) \<le> 53 - length (hash_suffix s) - 1"
    using trim_both_length [of "CHR ''-''" ?t] by (simp add: helmReleaseNameMax_def)
  then show ?thesis using False hash_suffix_length [of s]
    by (auto simp: capReleaseName_def Let_def helmReleaseNameMax_def)
qed

lemma capReleaseName_chars: "set (capReleaseName s) \<subseteq> insert CHR ''-'' (set s \<union> alnum)"
proof -
  have "set (trim_both CHR ''-'' (take n s)) \<subseteq> set s" for n
    by (meson order_trans set_take_subset trim_both_set)
  then show ?thesis using hash_suffix_alnum [of s]
    by (auto simp: capReleaseName_def Let_def)
qed

lemma hash_suffix_hd: "hd (hash_suffix s) \<noteq> CHR ''-''"
proof -
  have "hd (hash_suffix s) \<in> set (hash_suffix s)"
    using hash_suffix_length(1) [of s] by (intro hd_in_set) auto
  then have "hd (hash_suffix s) \<in> alnum" using hash_suffix_alnum [of s] by blast
  then show ?thesis using dash_not_alnum by metis
qed

text \<open>
  A capped release name has at most 53 bytes and capping it again changes nothing; a name
  that fits is kept; a name that had to be cut becomes a nonempty name of bytes of the input,
  lower-case letters, digits and dashes that neither starts nor ends with a dash.
\<close>

theorem cap_release_name_valid:
  "length (capReleaseName s) \<le> 53 \<and> capReleaseName (capReleaseName s) = capReleaseName s
   \<and> (length s \<le> 53 \<and> capReleaseName s = s
      \<or> capReleaseName s \<noteq> [] \<and> hd (capReleaseName s) \<noteq> CHR ''-''
        \<and> last (capReleaseName s) \<noteq> CHR ''-''
        \<and> set (capReleaseName s) \<subseteq> insert CHR ''-'' (set s \<union> alnum))"
proof -
  have short: "length t \<le> 53 \<Longrightarrow> capReleaseName t = t" for t
    by (simp add: capReleaseName_def helmReleaseNameMax_def)
  have "capReleaseName s \<noteq> [] \<and> hd (capReleaseName s) \<noteq> CHR ''-'' \<and> last (capReleaseName s) \<noteq> CHR ''-''"
    if "\<not> length s \<le> 53"
  proof -
    let ?h = "trim_both CHR ''-'' (take (helmReleaseNameMax - length (hash_suffix s) - 1) s)"
    have ne: "hash_suffix s \<noteq> []" using hash_suffix_length(1) [of s] by auto
    have "capReleaseName s = (if ?h = [] then hash_suffix s else ?h @ ''-'' @ hash_suffix s)"
      using that by (simp add: capReleaseName_def Let_def helmReleaseNameMax_def)
    then show ?thesis
      using trim_both_hd [of "CHR ''-''" "take (helmReleaseNameMax - length (hash_suffix s) - 1) s"]
        hash_suffix_hd [of s] hash_suffix_last [of s] ne by (auto simp: last_append hd_append)
  qed
  then show ?thesis using capReleaseName_length [of s] capReleaseName_chars [of s] short by blast
qed

section \<open>Blueprint object names and OCI chart references\<close>

definition bpCRName :: "string \<Rightarrow> string \<Rightarrow> string" where
  "bpCRName familyName version =
     (let v = (case index_byte version CHR ''+'' of None \<Rightarrow> version | Some i \<Rightarrow> take i version)
      in Slugify familyName @ ''-'' @ replace_char CHR ''.'' ''-'' v)"

definition ociChartRef :: "string \<Rightarrow> string \<Rightarrow> string" where
  "ociChartRef repoURL chartName =
     (let trimmed = trim_suffix repoURL ''/''
      in if chartName = '''' \<or> has_suffix trimmed (''/'' @ chartName) then trimmed
         else trimmed @ ''/'' @ chartName)"

text \<open>Build metadata after the plus sign never reaches the object name.\<close>

lemma bpCRName_build_metadata:
  "CHR ''+'' \<notin> set v \<Longrightarrow> bpCRName f (v @ ''+'' @ b) = bpCRName f v"
  using index_byte_append [of "CHR ''+''" v b] by (simp add: bpCRName_def)

lemma ociChartRef_ends: "chartName \<noteq> '''' \<Longrightarrow> has_suffix (ociChartRef u chartName) (''/'' @ chartName)"
  using has_suffix_append [of "trim_suffix u ''/''" "''/'' @ chartName"]
  by (simp add: ociChartRef_def Let_def)

text \<open>
  The chart reference handed to Fleet always ends in the chart segment, and deriving the
  reference from a reference does not append the segment again, so a repository URL that
  already names the chart is never doubled.
\<close>

theorem oci_chart_ref_once:
  assumes "chartName \<noteq> ''''" and "last chartName \<noteq> CHR ''/''"
  shows "has_suffix (ociChartRef u chartName) (''/'' @ chartName)
    \<and> ociChartRef (ociChartRef u chartName) chartName = ociChartRef u chartName"
proof -
  let ?r = "ociChartRef u chartName"
  have suf: "has_suffix ?r (''/'' @ chartName)" using assms(1) by (rule ociChartRef_ends)
  then obtain p where p: "?r = p @ ''/'' @ chartName"
    unfolding has_suffix_def by (metis append_take_drop_id)
  then have "last ?r = last chartName" using assms(1) by (simp add: last_append)
  then have "\<not> has_suffix ?r ''/''"
    using assms(2) p unfolding has_suffix_def
    by (metis append_take_drop_id last_snoc)
  then have "trim_suffix ?r ''/'' = ?r" by (simp add: trim_suffix_def)
  then show ?thesis using suf by (simp add: ociChartRef_def [of ?r])
qed

theorem oci_chart_ref_once_witness:
  "ociChartRef (ociChartRef ''oci://ghcr.io/x/'' ''helm-chart'') ''helm-chart'' = ''oci://ghcr.io/x/helm-chart''"
  using oci_chart_ref_once [of "''helm-chart''" "''oci://ghcr.io/x/''"]
  by (simp add: ociChartRef_def trim_suffix_def has_suffix_def)

end
