(* ===== verification/Digest.thy ===== *)
theory Digest
  imports Journal Names "HOL-Library.Product_Lexorder" "HOL-Library.Multiset"
begin

text \<open>
  Names and digests of what the controller renders: \<open>keys.go\<close> (the desired HelmOps of a
  blueprint workload) and \<open>digest.go\<close> (the SHA-256 digests of the user's intent, of one
  component's render, and of a whole workload's render), both in
  \<open>internal/controller/aiworkload\<close>. \<open>sort.Slice\<close> is modelled by the stable sort that it
  is on at most twelve elements; beyond that it may permute entries with equal keys.
\<close>

section \<open>The desired HelmOps (keys.go)\<close>

record HelmOpKey =
  k_Namespace :: string
  k_Name :: string
  k_ComponentChartName :: string
  k_ReleaseName :: string
  k_ExpectedClusters :: nat

definition blueprintBundleName :: "string \<Rightarrow> string \<Rightarrow> string" where
  "blueprintBundleName workloadName chartName = label63 (workloadName @ ''-'' @ Slugify chartName)"

definition componentReleaseName :: "BlueprintComponent \<Rightarrow> string" where
  "componentReleaseName c = (if bc_ReleaseName c \<noteq> '''' then bc_ReleaseName c else bc_ChartName c)"

definition component_keys ::
  "string \<Rightarrow> nat \<Rightarrow> nat \<Rightarrow> AIWorkloadDeployStrategy \<Rightarrow> BlueprintComponent \<Rightarrow> HelmOpKey list" where
  "component_keys workloadName localCount downstreamCount strategy c =
     (let key = (\<lambda>ns n. \<lparr>k_Namespace = ns, k_Name = blueprintBundleName workloadName (bc_ChartName c),
                         k_ComponentChartName = bc_ChartName c,
                         k_ReleaseName = capReleaseName (componentReleaseName c), k_ExpectedClusters = n\<rparr>)
      in if strategy = AIWorkloadDeployHelm then []
         else (if localCount > 0 then [key ''fleet-local'' localCount] else []) @
              (if downstreamCount > 0 then [key ''fleet-default'' downstreamCount] else []))"

definition key_id :: "HelmOpKey \<Rightarrow> string \<times> string" where
  "key_id k = (k_Namespace k, k_Name k)"

definition localTargets :: "string list \<Rightarrow> nat" where
  "localTargets clusters = (if ''local'' \<in> set clusters then 1 else 0)"

definition downstreamTargets :: "string list \<Rightarrow> nat" where
  "downstreamTargets clusters = length (filter (\<lambda>c. c \<noteq> ''local'') clusters)"

definition desiredHelmOpKeys ::
  "string \<Rightarrow> string list \<Rightarrow> BlueprintComponent list \<Rightarrow> AIWorkloadDeployStrategy \<Rightarrow> HelmOpKey list" where
  "desiredHelmOpKeys workloadName targetClusters components strategy =
     sort_key key_id (concat (map (component_keys workloadName (localTargets targetClusters)
       (downstreamTargets targetClusters) strategy) components))"

lemma component_keys_set:
  "set (component_keys w l d strategy c) =
     {k. strategy \<noteq> AIWorkloadDeployHelm
       \<and> k_Name k = blueprintBundleName w (bc_ChartName c)
       \<and> k_ComponentChartName k = bc_ChartName c
       \<and> k_ReleaseName k = capReleaseName (componentReleaseName c)
       \<and> (k_Namespace k = ''fleet-local'' \<and> k_ExpectedClusters k = l \<and> 0 < l
          \<or> k_Namespace k = ''fleet-default'' \<and> k_ExpectedClusters k = d \<and> 0 < d)}"
  by (auto simp: component_keys_def Let_def)

lemma desiredHelmOpKeys_set:
  "set (desiredHelmOpKeys w cl cs strategy) =
     (\<Union>c \<in> set cs. set (component_keys w (localTargets cl) (downstreamTargets cl) strategy c))"
  by (auto simp: desiredHelmOpKeys_def)

lemma component_key_ids:
  "mset (map key_id (concat (map (component_keys w l d strategy) cs))) =
   (if strategy = AIWorkloadDeployHelm then {#}
    else mset ((if 0 < l then map (\<lambda>c. (''fleet-local'', blueprintBundleName w (bc_ChartName c))) cs else []) @
               (if 0 < d then map (\<lambda>c. (''fleet-default'', blueprintBundleName w (bc_ChartName c))) cs else [])))"
  by (induction cs) (auto simp: component_keys_def Let_def key_id_def)

lemma no_targets: "localTargets cl = 0 \<and> downstreamTargets cl = 0 \<longleftrightarrow> cl = []"
  by (cases cl) (auto simp: localTargets_def downstreamTargets_def filter_empty_conv)

lemma desired_keys_distinct:
  "distinct (map key_id (desiredHelmOpKeys w cl cs strategy)) \<longleftrightarrow>
   strategy = AIWorkloadDeployHelm \<or> cl = [] \<or> distinct (map (\<lambda>c. blueprintBundleName w (bc_ChartName c)) cs)"
proof -
  let ?l = "concat (map (component_keys w (localTargets cl) (downstreamTargets cl) strategy) cs)"
  let ?n = "\<lambda>c. blueprintBundleName w (bc_ChartName c)"
  let ?f = "\<lambda>ns. map (\<lambda>c. (ns, ?n c)) cs"
  have f: "distinct (?f ns) = distinct (map ?n cs)" for ns :: string
    by (simp add: distinct_map inj_on_def)
  have "distinct (map key_id (sort_key key_id ?l)) = distinct (map key_id ?l)"
    by (rule mset_eq_imp_distinct_iff) simp
  also have "\<dots> = distinct (if strategy = AIWorkloadDeployHelm then []
      else (if 0 < localTargets cl then ?f ''fleet-local'' else []) @
           (if 0 < downstreamTargets cl then ?f ''fleet-default'' else []))"
    by (rule mset_eq_imp_distinct_iff, subst component_key_ids) simp
  also have "\<dots> = (strategy = AIWorkloadDeployHelm \<or> cl = [] \<or> distinct (map ?n cs))"
    using no_targets [of cl] f by auto
  finally show ?thesis by (simp add: desiredHelmOpKeys_def)
qed

text \<open>
  The desired HelmOps of a blueprint workload are exactly one per component in
  \<open>fleet-local\<close> when \<open>local\<close> is a target, and one per component in \<open>fleet-default\<close> when
  there is any other target, each counting the clusters of its namespace; together they count
  every target once per component; they are sorted by (namespace, name), and they are pairwise
  distinct exactly when the components' bundle names are (or there is nothing to deploy). The
  Helm strategy has none.
\<close>

theorem desired_helmops_of_blueprint:
  "(k \<in> set (desiredHelmOpKeys w clusters cs strategy) \<longleftrightarrow>
      strategy \<noteq> AIWorkloadDeployHelm \<and>
      (\<exists>c. c \<in> set cs \<and> k_Name k = blueprintBundleName w (bc_ChartName c)
         \<and> k_ComponentChartName k = bc_ChartName c
         \<and> k_ReleaseName k = capReleaseName (componentReleaseName c)
         \<and> (k_Namespace k = ''fleet-local'' \<and> ''local'' \<in> set clusters \<and> k_ExpectedClusters k = 1
            \<or> k_Namespace k = ''fleet-default'' \<and> k_ExpectedClusters k = length [t \<leftarrow> clusters. t \<noteq> ''local'']
              \<and> 0 < k_ExpectedClusters k)))
   \<and> sorted (map key_id (desiredHelmOpKeys w clusters cs strategy))
   \<and> sum_list (map k_ExpectedClusters (desiredHelmOpKeys w clusters cs strategy)) =
      (if strategy = AIWorkloadDeployHelm then 0
       else length cs * ((if ''local'' \<in> set clusters then 1 else 0) + length [t \<leftarrow> clusters. t \<noteq> ''local'']))
   \<and> (distinct (map key_id (desiredHelmOpKeys w clusters cs strategy)) \<longleftrightarrow>
      strategy = AIWorkloadDeployHelm \<or> clusters = [] \<or> distinct (map (\<lambda>c. blueprintBundleName w (bc_ChartName c)) cs))"
  (is "?A \<and> ?B \<and> ?C \<and> ?D")
proof (intro conjI)
  show ?A
    unfolding desiredHelmOpKeys_set component_keys_set
    by (auto simp: localTargets_def downstreamTargets_def split: if_splits)
  show ?B by (simp add: desiredHelmOpKeys_def)
  have "sum_list (map k_ExpectedClusters (component_keys w l d strategy c)) =
      (if strategy = AIWorkloadDeployHelm then 0 else l + d)" for l d c
    by (simp add: component_keys_def Let_def)
  then have "sum_list (map k_ExpectedClusters (concat (map (component_keys w l d strategy) cs))) =
      (if strategy = AIWorkloadDeployHelm then 0 else length cs * (l + d))" for l d
    by (induction cs) auto
  moreover have "sum_list (map k_ExpectedClusters (sort_key key_id xs)) = sum_list (map k_ExpectedClusters xs)" for xs
    by (metis mset_map mset_sort sum_mset_sum_list)
  ultimately show ?C
    by (simp add: desiredHelmOpKeys_def downstreamTargets_def localTargets_def)
  show ?D by (rule desired_keys_distinct)
qed

section \<open>Digests (digest.go)\<close>

definition sha256Hex :: "string \<Rightarrow> string" where
  "sha256Hex b = ''sha256:'' @ hex_encode (sha256 b)"

definition renderDigestLabelValue :: "string \<Rightarrow> string" where
  "renderDigestLabelValue d =
     (let d' = trim_prefix d ''sha256:'' in if length d' > 63 then take 63 d' else d')"

definition sortedCopy :: "string list \<Rightarrow> string list" where
  "sortedCopy xs = sort xs"

definition intent_fields :: "AIWorkloadSpec \<Rightarrow> field list" where
  "intent_fields spec =
     [(''blueprintName'', False, JStr (case SourceBlueprint spec of None \<Rightarrow> '''' | Some b \<Rightarrow> bps_Name b)),
      (''blueprintVersion'', False, JStr (case SourceBlueprint spec of None \<Rightarrow> '''' | Some b \<Rightarrow> bps_Version b)),
      (''targetNamespace'', False, JStr (TargetNamespace spec)),
      (''deployStrategy'', False, JStr (strategy_string (DeployStrategy spec))),
      (''targetClusters'', False, strings_json (sortedCopy (TargetClusters spec)))]"

definition intent_doc :: "AIWorkloadSpec \<Rightarrow> string" where
  "intent_doc spec = marshal (struct_json (intent_fields spec))"

definition intentDigest :: "AIWorkloadSpec \<Rightarrow> string" where
  "intentDigest spec = sha256Hex (intent_doc spec)"

text \<open>\<open>Values\<close> is a Go map: \<open>None\<close> is the nil map, which is written as \<open>null\<close>.\<close>

record ComponentRenderInputs =
  in_ChartRepo :: string
  in_ChartName :: string
  in_ChartVersion :: string
  in_Namespace :: string
  in_Vendor :: string
  in_RepoURL :: string
  in_Targets :: "string list"
  in_Values :: "jmap option"

definition values_json :: "jmap option \<Rightarrow> json" where
  "values_json v = (case v of None \<Rightarrow> JNull | Some m \<Rightarrow> JObj m)"

definition render_fields :: "ComponentRenderInputs \<Rightarrow> field list" where
  "render_fields i =
     [(''chartRepo'', False, JStr (in_ChartRepo i)),
      (''chartName'', False, JStr (in_ChartName i)),
      (''chartVersion'', False, JStr (in_ChartVersion i)),
      (''namespace'', False, JStr (in_Namespace i)),
      (''vendor'', False, JStr (in_Vendor i)),
      (''repoURL'', False, JStr (in_RepoURL i)),
      (''targets'', False, strings_json (sortedCopy (in_Targets i))),
      (''values'', False, values_json (in_Values i))]"

definition render_doc :: "ComponentRenderInputs \<Rightarrow> string" where
  "render_doc i = marshal (struct_json (render_fields i))"

definition perHelmOpRenderDigest :: "ComponentRenderInputs \<Rightarrow> string" where
  "perHelmOpRenderDigest i = sha256Hex (render_doc i)"

record AggregateEntry =
  ae_Namespace :: string
  ae_Name :: string
  ae_Digest :: string

definition ae_key :: "AggregateEntry \<Rightarrow> string \<times> string" where
  "ae_key e = (ae_Namespace e, ae_Name e)"

definition entry_fields :: "AggregateEntry \<Rightarrow> field list" where
  "entry_fields e =
     [(''namespace'', False, JStr (ae_Namespace e)), (''name'', False, JStr (ae_Name e)),
      (''digest'', False, JStr (ae_Digest e))]"

definition aggregate_doc :: "AggregateEntry list \<Rightarrow> string" where
  "aggregate_doc entries =
     (let sorted = sort_key ae_key entries
      in marshal (if sorted = [] then JNull else JArr (map (\<lambda>e. struct_json (entry_fields e)) sorted)))"

definition aggregateRenderDigest :: "AggregateEntry list \<Rightarrow> string" where
  "aggregateRenderDigest entries = sha256Hex (aggregate_doc entries)"

lemma sha256Hex_eq: "sha256Hex a = sha256Hex b \<longleftrightarrow> a = b \<or> sha256_collision a b"
  by (auto simp: sha256Hex_def sha256_collision_def dest: hex_encode_inj)

lemma trim_prefix_sha: "trim_prefix (sha256Hex b) ''sha256:'' = hex_encode (sha256 b)"
  by (simp add: trim_prefix_def sha256Hex_def has_prefix_def)

lemma label_of_sha256Hex: "renderDigestLabelValue (sha256Hex b) = take 63 (hex_encode (sha256 b))"
  by (simp add: renderDigestLabelValue_def trim_prefix_sha hex_encode_length sha256_length)

lemma hexdig_hex: "n < 16 \<Longrightarrow> hexdig n \<in> set ''0123456789abcdef''"
  unfolding hexdig_def by (rule nth_mem) simp

lemma hex_encode_set: "(\<And>n. n < 16 \<Longrightarrow> hexdig n \<in> S) \<Longrightarrow> set (hex_encode s) \<subseteq> S"
  by (auto simp: hex_encode_def less_mult_imp_div_less)

lemma sort_eq_iff: "sort xs = sort ys \<longleftrightarrow> mset xs = mset (ys :: 'a::linorder list)"
  by (metis mset_sort properties_for_sort sorted_sort)

lemma norm_strings_json [simp]: "norm (strings_json xs) = strings_json xs"
  by (auto simp: strings_json_def intro: map_idI)

lemma strings_json_inj [simp]: "strings_json xs = strings_json ys \<longleftrightarrow> xs = ys"
proof -
  have "map JStr xs = map JStr ys \<longleftrightarrow> xs = ys" by (rule inj_map_eq_map) (simp add: inj_on_def)
  then show ?thesis by (auto simp: strings_json_def)
qed

lemma strings_json_ok: "json_ok (strings_json xs) = list_all valid_utf8 xs"
  by (auto simp: strings_json_def list_all_iff)

lemma sortedCopy_idem [simp]: "sortedCopy (sortedCopy xs) = sortedCopy xs"
  by (simp add: sortedCopy_def sort_eq_iff)

lemma list_all_sort: "list_all P (sortedCopy xs) = list_all P xs"
  by (simp add: list_all_iff sortedCopy_def)

definition fields_ok :: "field list \<Rightarrow> bool" where
  "fields_ok fs \<longleftrightarrow> distinct (map fst fs) \<and> list_all (\<lambda>(k, _, j). valid_utf8 k \<and> json_ok j) fs"

lemma struct_doc_members:
  assumes "fields_ok fs" and "fields_ok gs"
    and "marshal (struct_json fs) = marshal (struct_json gs)"
  shows "map_option norm (obj_get (members fs) k) = map_option norm (obj_get (members gs) k)"
proof -
  have ok: "(k, d, j) \<in> set hs \<Longrightarrow> valid_utf8 k \<and> json_ok j" if "fields_ok hs" for hs k d j
    using that by (auto simp: fields_ok_def list_all_iff)
  obtain m where "unmarshal (marshal (struct_json fs)) = Some (JObj m)"
    "\<forall>k. obj_get m k = map_option norm (obj_get (members fs) k)"
    using unmarshal_struct [of fs] ok [OF assms(1)] assms(1) unfolding fields_ok_def by blast
  moreover obtain m' where "unmarshal (marshal (struct_json gs)) = Some (JObj m')"
    "\<forall>k. obj_get m' k = map_option norm (obj_get (members gs) k)"
    using unmarshal_struct [of gs] ok [OF assms(2)] assms(2) unfolding fields_ok_def by blast
  ultimately show ?thesis using assms(3) by (metis json.inject(5) option.inject)
qed

lemma ascii_keys:
  "list_all (byte_in 0 0x7F) k \<Longrightarrow> valid_utf8 k"
  by (rule valid_utf8_ascii)

lemma strategy_string_utf8 [simp]: "valid_utf8 (strategy_string s)"
  by (rule valid_utf8_ascii, cases s) (simp_all add: byte_in_def)

definition spec_utf8 :: "AIWorkloadSpec \<Rightarrow> bool" where
  "spec_utf8 spec \<longleftrightarrow> valid_utf8 (TargetNamespace spec) \<and> list_all valid_utf8 (TargetClusters spec)
     \<and> (case SourceBlueprint spec of None \<Rightarrow> True
        | Some b \<Rightarrow> valid_utf8 (bps_Name b) \<and> valid_utf8 (bps_Version b))"

lemma intent_fields_ok: "spec_utf8 spec \<Longrightarrow> fields_ok (intent_fields spec)"
proof -
  assume s: "spec_utf8 spec"
  have "valid_utf8 ''blueprintName''" "valid_utf8 ''blueprintVersion''" "valid_utf8 ''targetNamespace''"
    "valid_utf8 ''deployStrategy''" "valid_utf8 ''targetClusters''"
    by (rule valid_utf8_ascii, simp add: byte_in_def)+
  then show ?thesis
    using s unfolding fields_ok_def intent_fields_def spec_utf8_def
    by (auto simp: strings_json_ok list_all_sort simp del: valid_utf8.simps(2) split: option.splits)
qed

text \<open>What a workload's intent is: the fields a version operation is identified by.\<close>

definition intent_of :: "AIWorkloadSpec \<Rightarrow> string \<times> string \<times> string \<times> AIWorkloadDeployStrategy \<times> string multiset" where
  "intent_of spec =
     ((case SourceBlueprint spec of None \<Rightarrow> '''' | Some b \<Rightarrow> bps_Name b),
      (case SourceBlueprint spec of None \<Rightarrow> '''' | Some b \<Rightarrow> bps_Version b),
      TargetNamespace spec, DeployStrategy spec, mset (TargetClusters spec))"

lemma intent_doc_cong: "intent_of a = intent_of b \<Longrightarrow> intent_doc a = intent_doc b"
proof -
  assume h: "intent_of a = intent_of b"
  then have "sort (TargetClusters a) = sort (TargetClusters b)"
    by (simp add: intent_of_def sort_eq_iff)
  with h show ?thesis
    by (simp add: intent_of_def intent_doc_def intent_fields_def sortedCopy_def)
qed

lemma intent_doc_inj:
  assumes "spec_utf8 a" "spec_utf8 b" "intent_doc a = intent_doc b"
  shows "intent_of a = intent_of b"
proof -
  have eq: "map_option norm (obj_get (members (intent_fields a)) k) = map_option norm (obj_get (members (intent_fields b)) k)" for k
    using struct_doc_members [OF intent_fields_ok [OF assms(1)] intent_fields_ok [OF assms(2)]] assms(3)
    by (simp add: intent_doc_def)
  show ?thesis
    using eq [of "''blueprintName''"] eq [of "''blueprintVersion''"] eq [of "''targetNamespace''"]
      eq [of "''deployStrategy''"] eq [of "''targetClusters''"]
    by (simp add: intent_fields_def intent_of_def strategy_string_inj sortedCopy_def sort_eq_iff)
qed

text \<open>
  C37. The intent digest identifies the user's intent and nothing else: two workloads whose text
  is valid UTF-8 have the same digest exactly when they agree on blueprint name, blueprint
  version, target namespace, deploy strategy and the multiset of target clusters, unless the two
  intent documents are a SHA-256 collision. The display name, the component values and the
  operator-owned bundle names do not enter it.
\<close>

theorem intent_digest_identifies_intent:
  assumes "spec_utf8 a" and "spec_utf8 b"
  shows "(intentDigest a = intentDigest b \<longleftrightarrow>
      intent_of a = intent_of b \<or> sha256_collision (intent_doc a) (intent_doc b))
    \<and> intentDigest (a\<lparr>DisplayName := n, ComponentValues := vs, FleetBundleNames := bs\<rparr>) = intentDigest a"
  using intent_doc_cong [of a b] intent_doc_inj [OF assms]
  by (auto simp: intentDigest_def sha256Hex_eq intent_doc_def intent_fields_def)

theorem intent_digest_identifies_intent_witness:
  "\<exists>a b. spec_utf8 a \<and> spec_utf8 b \<and> intentDigest a = intentDigest b \<and> a \<noteq> b"
proof -
  let ?a = "\<lparr>DisplayName = ''x'', SourceType = AIWorkloadSourceBlueprint, SourceApp = None,
    SourceBlueprint = Some \<lparr>bps_Name = ''rag'', bps_Version = ''1.0''\<rparr>, TargetNamespace = ''ns'',
    TargetClusters = [''local'', ''c1''], DeployStrategy = AIWorkloadDeployFleetBundle,
    ComponentValues = [], FleetBundleNames = []\<rparr>"
  let ?b = "?a\<lparr>DisplayName := ''y'', TargetClusters := [''c1'', ''local'']\<rparr>"
  have ok: "spec_utf8 ?a" "spec_utf8 ?b" by (simp_all add: spec_utf8_def byte_in_def)
  have "intent_of ?a = intent_of ?b" by (simp add: intent_of_def)
  then have "intentDigest ?a = intentDigest ?b"
    using intent_digest_identifies_intent [OF ok] by blast
  moreover have "?a \<noteq> ?b" by simp
  ultimately show ?thesis using ok by blast
qed

definition render_utf8 :: "ComponentRenderInputs \<Rightarrow> bool" where
  "render_utf8 i \<longleftrightarrow>
     list_all valid_utf8 [in_ChartRepo i, in_ChartName i, in_ChartVersion i, in_Namespace i,
       in_Vendor i, in_RepoURL i]
     \<and> list_all valid_utf8 (in_Targets i)
     \<and> (case in_Values i of None \<Rightarrow> True | Some m \<Rightarrow> json_doc (JObj m))"

lemma values_json_norm: "render_utf8 i \<Longrightarrow> norm (values_json (in_Values i)) = values_json (in_Values i)"
  by (intro norm_canonical, cases "in_Values i") (auto simp: values_json_def render_utf8_def json_doc_def)

lemma values_json_inj: "values_json a = values_json b \<longleftrightarrow> a = b"
  by (cases a; cases b) (simp_all add: values_json_def)

lemma render_fields_ok: "render_utf8 i \<Longrightarrow> fields_ok (render_fields i)"
proof -
  assume s: "render_utf8 i"
  have "valid_utf8 ''chartRepo''" "valid_utf8 ''chartName''" "valid_utf8 ''chartVersion''"
    "valid_utf8 ''namespace''" "valid_utf8 ''vendor''" "valid_utf8 ''repoURL''" "valid_utf8 ''targets''"
    "valid_utf8 ''values''"
    by (rule valid_utf8_ascii, simp add: byte_in_def)+
  moreover have "json_ok (values_json (in_Values i))"
    using s by (cases "in_Values i") (simp_all add: values_json_def render_utf8_def json_doc_def)
  ultimately show ?thesis
    using s unfolding fields_ok_def render_fields_def render_utf8_def
    by (simp add: strings_json_ok list_all_sort del: valid_utf8.simps(2))
qed

lemma render_doc_inj:
  assumes "render_utf8 a" "render_utf8 b" "render_doc a = render_doc b"
  shows "a\<lparr>in_Targets := sortedCopy (in_Targets a)\<rparr> = b\<lparr>in_Targets := sortedCopy (in_Targets b)\<rparr>"
proof -
  have eq: "map_option norm (obj_get (members (render_fields a)) k) = map_option norm (obj_get (members (render_fields b)) k)" for k
    using struct_doc_members [OF render_fields_ok [OF assms(1)] render_fields_ok [OF assms(2)]] assms(3)
    by (simp add: render_doc_def)
  show ?thesis
    using eq [of "''chartRepo''"] eq [of "''chartName''"] eq [of "''chartVersion''"] eq [of "''namespace''"]
      eq [of "''vendor''"] eq [of "''repoURL''"] eq [of "''targets''"] eq [of "''values''"]
      values_json_norm [OF assms(1)] values_json_norm [OF assms(2)]
    by (simp add: render_fields_def values_json_inj)
qed

text \<open>
  The render digest of a component changes whenever anything that is rendered changes: two
  renders with valid UTF-8 text and decoded values have the same digest exactly when they agree on
  chart, repository, version, namespace, vendor, values and the multiset of target clusters,
  unless the rendered documents are a SHA-256 collision. The label value derived from it always
  has 63 hexadecimal characters, within the limit of a Kubernetes label.
\<close>

theorem render_digest_identifies_render:
  assumes "render_utf8 a" and "render_utf8 b"
  shows "(perHelmOpRenderDigest a = perHelmOpRenderDigest b \<longleftrightarrow>
      a\<lparr>in_Targets := []\<rparr> = b\<lparr>in_Targets := []\<rparr> \<and> mset (in_Targets a) = mset (in_Targets b)
      \<or> sha256_collision (render_doc a) (render_doc b))
    \<and> length (renderDigestLabelValue (perHelmOpRenderDigest a)) = 63
    \<and> set (renderDigestLabelValue (perHelmOpRenderDigest a)) \<subseteq> set ''0123456789abcdef''"
proof -
  have upd: "a\<lparr>in_Targets := sortedCopy (in_Targets a)\<rparr> = b\<lparr>in_Targets := sortedCopy (in_Targets b)\<rparr> \<longleftrightarrow>
      a\<lparr>in_Targets := []\<rparr> = b\<lparr>in_Targets := []\<rparr> \<and> mset (in_Targets a) = mset (in_Targets b)"
    by (cases a; cases b) (simp add: sortedCopy_def sort_eq_iff; blast)
  have doc: "render_doc x = render_doc (x\<lparr>in_Targets := sortedCopy (in_Targets x)\<rparr>)" for x
    by (simp add: render_doc_def render_fields_def)
  have "set (renderDigestLabelValue (sha256Hex x)) \<subseteq> set ''0123456789abcdef''" for x
    unfolding label_of_sha256Hex by (rule order_trans [OF set_take_subset hex_encode_set [OF hexdig_hex]])
  moreover have "length (renderDigestLabelValue (sha256Hex x)) = 63" for x
    by (simp add: label_of_sha256Hex hex_encode_length sha256_length)
  moreover have "render_doc a = render_doc b \<longleftrightarrow>
      a\<lparr>in_Targets := sortedCopy (in_Targets a)\<rparr> = b\<lparr>in_Targets := sortedCopy (in_Targets b)\<rparr>"
    using render_doc_inj [OF assms] doc [of a] doc [of b] by metis
  ultimately show ?thesis
    unfolding perHelmOpRenderDigest_def sha256Hex_eq upd by blast
qed

theorem render_digest_identifies_render_witness:
  "\<exists>a b. render_utf8 a \<and> render_utf8 b \<and> perHelmOpRenderDigest a = perHelmOpRenderDigest b \<and> a \<noteq> b"
proof -
  let ?a = "\<lparr>in_ChartRepo = ''r'', in_ChartName = ''c'', in_ChartVersion = ''1'', in_Namespace = ''n'',
    in_Vendor = ''SUSE'', in_RepoURL = ''u'', in_Targets = [''b'', ''a''], in_Values = Some [(''k'', JBool True)]\<rparr>"
  let ?b = "?a\<lparr>in_Targets := [''a'', ''b'']\<rparr>"
  have ok: "render_utf8 ?a" "render_utf8 ?b"
    by (simp_all add: render_utf8_def byte_in_def json_doc_def)
  have "?a\<lparr>in_Targets := []\<rparr> = ?b\<lparr>in_Targets := []\<rparr> \<and> mset (in_Targets ?a) = mset (in_Targets ?b)"
    by simp
  then have "perHelmOpRenderDigest ?a = perHelmOpRenderDigest ?b"
    using render_digest_identifies_render [OF ok] by blast
  moreover have "?a \<noteq> ?b" by simp
  ultimately show ?thesis using ok by blast
qed

definition entry_utf8 :: "AggregateEntry \<Rightarrow> bool" where
  "entry_utf8 e \<longleftrightarrow> valid_utf8 (ae_Namespace e) \<and> valid_utf8 (ae_Name e) \<and> valid_utf8 (ae_Digest e)"

lemma entry_fields_ok: "entry_utf8 e \<Longrightarrow> fields_ok (entry_fields e)"
proof -
  assume s: "entry_utf8 e"
  have "valid_utf8 ''namespace''" "valid_utf8 ''name''" "valid_utf8 ''digest''"
    by (rule valid_utf8_ascii, simp add: byte_in_def)+
  then show ?thesis using s unfolding fields_ok_def entry_fields_def entry_utf8_def
    by (simp del: valid_utf8.simps(2))
qed

lemma norm_struct_members:
  "norm (struct_json fs) = norm (struct_json gs) \<Longrightarrow> distinct (map fst fs) \<Longrightarrow> distinct (map fst gs) \<Longrightarrow>
   map_option norm (obj_get (members fs) k) = map_option norm (obj_get (members gs) k)"
  unfolding struct_json_def
  by (metis json.inject(5) members_distinct norm_struct)

lemma entry_norm_inj:
  assumes "norm (struct_json (entry_fields a)) = norm (struct_json (entry_fields b))"
  shows "a = b"
proof -
  have d: "distinct (map fst (entry_fields e))" for e by (simp add: entry_fields_def)
  show ?thesis
    using norm_struct_members [OF assms d d, of "''namespace''"] norm_struct_members [OF assms d d, of "''name''"]
      norm_struct_members [OF assms d d, of "''digest''"]
    by (simp add: entry_fields_def)
qed

lemma entry_json_ok: "entry_utf8 e \<Longrightarrow> json_ok (struct_json (entry_fields e))"
  using entry_fields_ok [of e]
  by (auto simp: fields_ok_def struct_json_def list_all_iff dest!: members_set)

lemma aggregate_doc_inj:
  assumes "list_all entry_utf8 es" "list_all entry_utf8 fs" "aggregate_doc es = aggregate_doc fs"
  shows "sort_key ae_key es = sort_key ae_key fs"
proof -
  let ?j = "\<lambda>xs. if xs = [] then JNull else JArr (map (\<lambda>e. struct_json (entry_fields e)) xs)"
  let ?s = "sort_key ae_key es" and ?t = "sort_key ae_key fs"
  have ok: "json_ok (?j (sort_key ae_key xs))" if "list_all entry_utf8 xs" for xs
    using that entry_json_ok by (auto simp: list_all_iff)
  have "norm (?j ?s) = norm (?j ?t)"
    using marshal_inj [OF ok [OF assms(1)] ok [OF assms(2)]] assms(3) by (simp add: aggregate_doc_def Let_def)
  then have "map (\<lambda>e. norm (struct_json (entry_fields e))) ?s = map (\<lambda>e. norm (struct_json (entry_fields e))) ?t"
    by (cases "?s = []"; cases "?t = []") (simp_all add: comp_def)
  moreover have "inj (\<lambda>e. norm (struct_json (entry_fields e)))"
    by (rule injI) (rule entry_norm_inj)
  ultimately show ?thesis by (simp add: inj_map_eq_map)
qed

lemma filter_inj_single:
  "distinct zs \<Longrightarrow> inj_on f (set zs) \<Longrightarrow> k \<in> set zs \<Longrightarrow> filter (\<lambda>x. f k = f x) zs = [k]"
proof (induction zs)
  case (Cons z zs)
  show ?case
  proof (cases "z = k")
    case True
    then have "filter (\<lambda>x. f k = f x) zs = []"
      using Cons.prems by (auto simp: filter_empty_conv)
    then show ?thesis using True by simp
  next
    case False
    then have "f k \<noteq> f z" "k \<in> set zs" using Cons.prems by (auto simp: inj_on_def)
    then show ?thesis using Cons False by simp
  qed
qed simp

lemma sort_key_distinct_eq:
  assumes "distinct (map f xs)" "mset xs = mset ys"
  shows "sort_key f xs = sort_key f ys"
proof (rule properties_for_sort_key)
  show "mset (sort_key f ys) = mset xs" using assms(2) by simp
next
  fix k assume "k \<in> set (sort_key f ys)"
  have inj: "inj_on f (set xs)" using assms(1) by (simp add: distinct_map)
  have d: "distinct (sort_key f ys)" "distinct xs" "set (sort_key f ys) = set xs"
    using assms by (auto simp: distinct_map dest: mset_eq_imp_distinct_iff mset_eq_setD)
  have "filter (\<lambda>x. f k = f x) zs = [k]" if "distinct zs" "set zs = set xs" for zs
    using filter_inj_single [OF that(1)] inj that(2) \<open>k \<in> set (sort_key f ys)\<close> d(3) by metis
  then show "filter (\<lambda>x. f k = f x) (sort_key f ys) = filter (\<lambda>x. f k = f x) xs"
    using d by metis
next
  show "sorted (map f (sort_key f ys))" by simp
qed

text \<open>
  The aggregate digest of a workload identifies the set of its per-HelmOp digests: for
  entries with distinct (namespace, name) the order of the entries is irrelevant, and two
  workloads with the same aggregate digest have the same entries, unless the two documents are a
  SHA-256 collision.
\<close>

theorem aggregate_digest_identifies_entries:
  assumes "list_all entry_utf8 es" and "list_all entry_utf8 fs" and "distinct (map ae_key es)"
  shows "aggregateRenderDigest es = aggregateRenderDigest fs \<longleftrightarrow>
    mset es = mset fs \<or> sha256_collision (aggregate_doc es) (aggregate_doc fs)"
proof -
  have "mset es = mset fs" if "aggregate_doc es = aggregate_doc fs"
    using aggregate_doc_inj [OF assms(1,2) that] by (metis mset_sort)
  moreover have "aggregate_doc es = aggregate_doc fs" if "mset es = mset fs"
    using sort_key_distinct_eq [OF assms(3) that] by (simp add: aggregate_doc_def)
  ultimately show ?thesis by (auto simp: aggregateRenderDigest_def sha256Hex_eq)
qed

theorem aggregate_digest_identifies_entries_witness:
  "\<exists>es fs. es \<noteq> fs \<and> aggregateRenderDigest es = aggregateRenderDigest fs"
proof -
  let ?x = "\<lparr>ae_Namespace = ''fleet-local'', ae_Name = ''w'', ae_Digest = ''d''\<rparr>"
  let ?y = "\<lparr>ae_Namespace = ''fleet-default'', ae_Name = ''w'', ae_Digest = ''d''\<rparr>"
  have "aggregateRenderDigest [?x, ?y] = aggregateRenderDigest [?y, ?x]"
    using aggregate_digest_identifies_entries [of "[?x, ?y]" "[?y, ?x]"]
    by (simp add: entry_utf8_def byte_in_def ae_key_def)
  moreover have "[?x, ?y] \<noteq> [?y, ?x]" by simp
  ultimately show ?thesis by (intro exI [of _ "[?x, ?y]"] exI [of _ "[?y, ?x]"] conjI)
qed

end
