(* ===== verification/Operations.thy ===== *)
theory Operations
  imports Digest
begin

text \<open>
  Recovery operations (\<open>internal/controller/aiworkload/operations.go\<close>): the upgrade,
  rollback and retry requests that the API writes as annotations, the durable journal of the
  operation in flight, its evaluation and its projection onto the status. The two calls that write
  an AIWorkload, \<open>Update\<close> and \<open>Status().Update\<close>, are parameters that return the object as
  the API server stored it; a method returns the object it holds in memory at its end. The clock
  is a parameter. Events are not modelled.
\<close>

section \<open>The journal\<close>

definition readJournal :: "AIWorkload \<Rightarrow> AIWorkloadOperation option" where
  "readJournal w =
     (if mget (Annotations w) operationAnnotation = '''' then None
      else decodeOperation (mget (Annotations w) operationAnnotation))"

definition projectOperation :: "AIWorkload \<Rightarrow> AIWorkload" where
  "projectOperation w =
     (case readJournal w of
        Some op \<Rightarrow> w\<lparr>Status := (Status w)\<lparr>ActiveOperation := Some op\<rparr>\<rparr>
      | None \<Rightarrow>
          (case ActiveOperation (Status w) of
             Some a \<Rightarrow> if op_State a \<noteq> OperationStateInProgress \<and> op_IntentDigest a \<noteq> intentDigest (Spec w)
                       then w\<lparr>Status := (Status w)\<lparr>ActiveOperation := None\<rparr>\<rparr> else w
           | None \<Rightarrow> w))"

definition defaultOperationDeadline :: int where "defaultOperationDeadline = 30 * 60 * int second"

text \<open>\<open>time.Since\<close> in nanoseconds, saturating; the zero time is further back than any duration.\<close>

fun since :: "nat \<Rightarrow> nat option \<Rightarrow> int" where
  "since now None = 2 ^ 63 - 1"
| "since now (Some t) = min (2 ^ 63 - 1) (int now - int t)"

definition setAnnotation :: "string \<Rightarrow> string \<Rightarrow> AIWorkload \<Rightarrow> AIWorkload" where
  "setAnnotation k v w = w\<lparr>Annotations := (Annotations w)(k \<mapsto> v)\<rparr>"

definition deleteAnnotation :: "string \<Rightarrow> AIWorkload \<Rightarrow> AIWorkload" where
  "deleteAnnotation k w = w\<lparr>Annotations := (Annotations w)(k := None)\<rparr>"

section \<open>Triggers\<close>

type_synonym 's writer = "AIWorkload \<Rightarrow> ('s, AIWorkload) act"

definition prepareFinish ::
  "AIWorkload \<Rightarrow> string \<Rightarrow> string \<Rightarrow> AIWorkloadOperation option \<Rightarrow> AIWorkload" where
  "prepareFinish w reqAnnotation i op =
     (let w1 = deleteAnnotation reqAnnotation w;
          handled = addHandled (decodeHandled (mget (Annotations w1) handledOpsAnnotation)) i;
          w2 = setAnnotation handledOpsAnnotation (encodeHandled handled) w1
      in case op of None \<Rightarrow> w2 | Some o' \<Rightarrow> setAnnotation operationAnnotation (encodeOperation o') w2)"

definition finishTrigger ::
  "'s writer \<Rightarrow> AIWorkload \<Rightarrow> string \<Rightarrow> string \<Rightarrow> AIWorkloadOperation option \<Rightarrow> ('s, bool \<times> AIWorkload) act" where
  "finishTrigger upd w reqAnnotation i op =
     bnd (upd (prepareFinish w reqAnnotation i op)) (\<lambda>w'. ret (True, w'))"

definition retryEpochValue :: "AIWorkload \<Rightarrow> int" where
  "retryEpochValue w =
     (case ParseInt (mget (Annotations w) retryEpochAnnotation) of None \<Rightarrow> 0 | Some n \<Rightarrow> n)"

definition setBlueprintVersion :: "string \<Rightarrow> AIWorkloadSpec \<Rightarrow> AIWorkloadSpec" where
  "setBlueprintVersion target spec =
     spec\<lparr>SourceBlueprint := map_option (\<lambda>b. b\<lparr>bps_Version := target\<rparr>) (SourceBlueprint spec)\<rparr>"

definition keepSuperseded :: "AIWorkload \<Rightarrow> AIWorkload" where
  "keepSuperseded w = (case readJournal w of None \<Rightarrow> w
     | Some old \<Rightarrow> setAnnotation supersededOpAnnotation (encodeOperation old) w)"

definition versionOperation ::
  "nat \<Rightarrow> AIWorkloadSpec \<Rightarrow> string \<Rightarrow> string \<Rightarrow> string \<Rightarrow> string \<Rightarrow> AIWorkloadOperation" where
  "versionOperation now spec opType nonce target expectedDigest =
     \<lparr>op_Type = opType, op_Nonce = nonce, op_TargetVersion = target, op_ExpectedDigest = expectedDigest,
      op_RetryEpoch = 0, op_RequestedAt = Some now, op_IntentDigest = intentDigest spec,
      op_State = OperationStateInProgress, op_Reason = ''''\<rparr>"

definition startVersionOp ::
  "'s writer \<Rightarrow> nat \<Rightarrow> AIWorkload \<Rightarrow> string \<Rightarrow> string \<Rightarrow> string \<Rightarrow> string \<Rightarrow> string \<Rightarrow> ('s, bool \<times> AIWorkload) act" where
  "startVersionOp upd now w opType nonce target expectedDigest reqAnnotation =
     (let w1 = keepSuperseded w;
          w2 = w1\<lparr>Spec := setBlueprintVersion target (Spec w1)\<rparr>
      in finishTrigger upd w2 reqAnnotation (handledID opType nonce)
           (Some (versionOperation now (Spec w2) opType nonce target expectedDigest)))"

definition retryOperation :: "nat \<Rightarrow> AIWorkloadSpec \<Rightarrow> string \<Rightarrow> int \<Rightarrow> AIWorkloadOperation" where
  "retryOperation now spec nonce epoch =
     \<lparr>op_Type = OperationTypeRetry, op_Nonce = nonce, op_TargetVersion = '''', op_ExpectedDigest = '''',
      op_RetryEpoch = epoch, op_RequestedAt = Some now, op_IntentDigest = intentDigest spec,
      op_State = OperationStateInProgress, op_Reason = ''''\<rparr>"

definition startRetry :: "'s writer \<Rightarrow> nat \<Rightarrow> AIWorkload \<Rightarrow> string \<Rightarrow> ('s, bool \<times> AIWorkload) act" where
  "startRetry upd now w nonce =
     (let epoch = wrap64 (retryEpochValue w + 1);
          w1 = setAnnotation retryEpochAnnotation (FormatInt epoch) w
      in finishTrigger upd w1 retryRequestAnnotation (handledID OperationTypeRetry nonce)
           (Some (retryOperation now (Spec w1) nonce epoch)))"

text \<open>\<open>strings.SplitN(v, "|", 2)\<close>: the nonce and the target version of an upgrade request.\<close>

definition splitRequest :: "string \<Rightarrow> string \<times> string" where
  "splitRequest v = (case index_byte v CHR ''|'' of None \<Rightarrow> (v, '''') | Some i \<Rightarrow> (take i v, drop (Suc i) v))"

definition currentVersion :: "AIWorkload \<Rightarrow> string" where
  "currentVersion w = (case SourceBlueprint (Spec w) of None \<Rightarrow> '''' | Some b \<Rightarrow> bps_Version b)"

definition handleUpgrade :: "'s writer \<Rightarrow> nat \<Rightarrow> AIWorkload \<Rightarrow> string list \<Rightarrow> string \<Rightarrow> ('s, bool \<times> AIWorkload) act" where
  "handleUpgrade upd now w handled v =
     (let (nonce, target) = splitRequest v
      in if isHandled handled (handledID OperationTypeUpgrade nonce) then ret (False, w)
         else if target = currentVersion w then startRetry upd now w nonce
         else startVersionOp upd now w OperationTypeUpgrade nonce target '''' upgradeRequestAnnotation)"

definition handleRollback :: "'s writer \<Rightarrow> nat \<Rightarrow> AIWorkload \<Rightarrow> string list \<Rightarrow> string \<Rightarrow> ('s, bool \<times> AIWorkload) act" where
  "handleRollback upd now w handled v =
     (if isHandled handled (handledID OperationTypeRollback v) then ret (False, w)
      else case DeployedSource (Status w) of
             None \<Rightarrow> finishTrigger upd w rollbackRequestAnnotation (handledID OperationTypeRollback v) None
           | Some ds \<Rightarrow>
               if SourceBlueprint (Spec w) \<noteq> None \<and> ds_Version ds = currentVersion w
               then finishTrigger upd w rollbackRequestAnnotation (handledID OperationTypeRollback v) None
               else startVersionOp upd now w OperationTypeRollback v (ds_Version ds) (ds_RenderDigest ds)
                      rollbackRequestAnnotation)"

definition handleTriggers :: "'s writer \<Rightarrow> nat \<Rightarrow> AIWorkload \<Rightarrow> ('s, bool \<times> AIWorkload) act" where
  "handleTriggers upd now w =
     (let handled = decodeHandled (mget (Annotations w) handledOpsAnnotation);
          upgrade = mget (Annotations w) upgradeRequestAnnotation;
          rollback = mget (Annotations w) rollbackRequestAnnotation;
          retry = mget (Annotations w) retryRequestAnnotation
      in if upgrade \<noteq> '''' then handleUpgrade upd now w handled upgrade
         else if rollback \<noteq> '''' then handleRollback upd now w handled rollback
         else if retry \<noteq> '''' then
           (if isHandled handled (handledID OperationTypeRetry retry) then ret (False, w)
            else startRetry upd now w retry)
         else ret (False, w))"

section \<open>Evaluating the operation in flight\<close>

definition operationOutcome ::
  "nat \<Rightarrow> AIWorkload \<Rightarrow> AIWorkloadOperation \<Rightarrow> bool \<Rightarrow> bool \<Rightarrow> bool \<Rightarrow> int \<Rightarrow> AIWorkloadOperation" where
  "operationOutcome now w op certifiedAtTarget anyFailed driftDetected deadline =
     (if op_State op \<noteq> OperationStateInProgress then op
      else if op_IntentDigest op \<noteq> intentDigest (Spec w) then op\<lparr>op_State := OperationStateSuperseded\<rparr>
      else if op_Type op = OperationTypeRollback \<and> driftDetected
        then op\<lparr>op_State := OperationStateFailed, op_Reason := ''BlueprintDrift''\<rparr>
      else if certifiedAtTarget then op\<lparr>op_State := OperationStateSucceeded\<rparr>
      else if anyFailed then op\<lparr>op_State := OperationStateFailed\<rparr>
      else if since now (op_RequestedAt op) > deadline
        then op\<lparr>op_State := OperationStateFailed, op_Reason := ''TimedOut''\<rparr>
      else op)"

text \<open>
  The \<open>status.syncGeneration\<close> values of the BundleDeployments of a bundle, as the list call
  returns them; \<open>None\<close> is an absent field.
\<close>

type_synonym sync_lister = "string \<Rightarrow> err + int option list"

fun retrySyncSettled :: "sync_lister \<Rightarrow> string list \<Rightarrow> int \<Rightarrow> bool" where
  "retrySyncSettled list_bds [] epoch = True"
| "retrySyncSettled list_bds (name # names) epoch =
     (case list_bds name of
        Inl _ \<Rightarrow> False
      | Inr gens \<Rightarrow> list_all (\<lambda>g. case g of None \<Rightarrow> False | Some sg \<Rightarrow> epoch \<le> sg) gens
                     \<and> retrySyncSettled list_bds names epoch)"

definition rollbackDrift :: "AIWorkload \<Rightarrow> AIWorkloadOperation \<Rightarrow> bool" where
  "rollbackDrift w op =
     (case DeployedSource (Status w) of
        Some ds \<Rightarrow> ds_Version ds = op_TargetVersion op
                   \<and> op_ExpectedDigest op \<noteq> '''' \<and> ds_RenderDigest ds \<noteq> op_ExpectedDigest op
      | None \<Rightarrow> False)"

definition certifiedAt :: "sync_lister \<Rightarrow> AIWorkload \<Rightarrow> AIWorkloadOperation \<Rightarrow> bool" where
  "certifiedAt list_bds w op =
     (if op_Type op = OperationTypeRetry
      then st_Phase (Status w) = PhaseRunning \<and> retrySyncSettled list_bds (FleetBundleNames (Spec w)) (op_RetryEpoch op)
      else case DeployedSource (Status w) of Some ds \<Rightarrow> ds_Version ds = op_TargetVersion op | None \<Rightarrow> False)"

definition decideOperation :: "sync_lister \<Rightarrow> nat \<Rightarrow> AIWorkload \<Rightarrow> AIWorkloadOperation \<Rightarrow> AIWorkloadOperation" where
  "decideOperation list_bds now w op =
     operationOutcome now w op (certifiedAt list_bds w op)
       (list_ex (\<lambda>c. cell_Phase c = ClusterFailed) (ComponentStatuses (Status w)))
       (op_Type op = OperationTypeRollback \<and> rollbackDrift w op) defaultOperationDeadline"

definition requeueWithin :: "nat \<Rightarrow> AIWorkloadOperation \<Rightarrow> int" where
  "requeueWithin now op =
     (let remaining = defaultOperationDeadline - since now (op_RequestedAt op);
          capped = (if remaining > 30 * int second then 30 * int second else remaining)
      in if capped < 0 then int second else capped)"

text \<open>\<open>ctrl.Result\<close>: \<open>RequeueAfter\<close> in nanoseconds, 0 when unset.\<close>

record Result =
  Requeue :: bool
  RequeueAfter :: int

definition result_done :: Result where "result_done = \<lparr>Requeue = False, RequeueAfter = 0\<rparr>"
definition requeue_after :: "int \<Rightarrow> Result" where "requeue_after d = \<lparr>Requeue = False, RequeueAfter = d\<rparr>"
definition requeue_now :: Result where "requeue_now = \<lparr>Requeue = True, RequeueAfter = 0\<rparr>"

text \<open>
  The end of an operation, from the object that the first \<open>Update\<close> returned: project the
  outcome onto the status, then clear the journal.
\<close>

definition projectAndClear ::
  "'s writer \<Rightarrow> 's writer \<Rightarrow> AIWorkloadOperation \<Rightarrow> AIWorkload \<Rightarrow> ('s, Result \<times> AIWorkload) act" where
  "projectAndClear upd stat outcome w1 =
     (let w2 = w1\<lparr>Status := (Status w1)\<lparr>ActiveOperation := Some outcome\<rparr>\<rparr>
      in bnd (try_act (stat w2)) (\<lambda>r.
           case r of
             Inl e \<Rightarrow> if err_is e = SNotFound then ret (result_done, w2) else throw e
           | Inr w3 \<Rightarrow> bnd (upd (deleteAnnotation operationAnnotation w3)) (\<lambda>w4. ret (result_done, w4))))"

definition reconcileOperation ::
  "'s writer \<Rightarrow> 's writer \<Rightarrow> sync_lister \<Rightarrow> nat \<Rightarrow> AIWorkload \<Rightarrow> ('s, Result \<times> AIWorkload) act" where
  "reconcileOperation upd stat list_bds now w =
     (case readJournal w of
        None \<Rightarrow> ret (result_done, w)
      | Some op \<Rightarrow>
          let outcome = decideOperation list_bds now w op
          in if op_State outcome = OperationStateInProgress
             then ret (requeue_after (requeueWithin now op), w)
             else bnd (upd (setAnnotation operationAnnotation (encodeOperation outcome) w))
                      (projectAndClear upd stat outcome))"

definition pruneRenderBaselines :: "RenderBaseline list \<Rightarrow> (string \<Rightarrow> bool) \<Rightarrow> RenderBaseline list" where
  "pruneRenderBaselines baselines desiredUIDs =
     sort_key rb_HelmOpUID (filter (\<lambda>b. desiredUIDs (rb_HelmOpUID b)) baselines)"

section \<open>The API server's contract for writes\<close>

text \<open>
  What the operator relies on when it writes an AIWorkload: \<open>Update\<close> stores everything but the
  status, which is a subresource, and answers with the stored object (whose generation may have
  moved); \<open>Status().Update\<close> stores the status only. A call that returns an error has either
  been applied (the answer was lost) or not. \<open>NotFound\<close> means that the object is gone.
\<close>

definition main_part :: "AIWorkload \<Rightarrow> AIWorkload \<Rightarrow> AIWorkload \<Rightarrow> bool" where
  "main_part w old new \<longleftrightarrow>
     new\<lparr>wl_Generation := 0\<rparr> = w\<lparr>Status := Status old, wl_Generation := 0\<rparr>"

locale workload_store =
  fixes upd stat :: "'s writer" and stored :: "'s \<Rightarrow> AIWorkload option"
  assumes upd_ok: "upd w s = (Inr w', s') \<Longrightarrow> \<exists>old. stored s = Some old \<and> main_part w old w' \<and> stored s' = Some w'"
    and upd_err: "upd w s = (Inl e, s') \<Longrightarrow>
      stored s' = stored s \<or> (\<exists>old new. stored s = Some old \<and> main_part w old new \<and> stored s' = Some new)"
    and stat_ok: "stat w s = (Inr w', s') \<Longrightarrow>
      \<exists>old. stored s = Some old \<and> w' = old\<lparr>Status := Status w\<rparr> \<and> stored s' = Some w'"
    and stat_err: "stat w s = (Inl e, s') \<Longrightarrow>
      stored s' = stored s \<or> (\<exists>old. stored s = Some old \<and> stored s' = Some (old\<lparr>Status := Status w\<rparr>))"
    and stat_not_found: "stat w s = (Inl e, s') \<Longrightarrow> err_is e = SNotFound \<Longrightarrow> stored s = None"
begin

lemma upd_cases:
  assumes "upd w s = (r, s')"
  obtains "stored s' = stored s" "isl r"
    | old new where "stored s = Some old" "main_part w old new" "stored s' = Some new"
        "r = Inr new \<or> isl r"
  using assms upd_ok [of w s] upd_err [of w s] by (cases r) fastforce+

lemma stat_cases:
  assumes "stat w s = (r, s')"
  obtains "stored s' = stored s" "isl r"
    | old where "stored s = Some old" "stored s' = Some (old\<lparr>Status := Status w\<rparr>)"
        "r = Inr (old\<lparr>Status := Status w\<rparr>) \<or> isl r"
  using assms stat_ok [of w s] stat_err [of w s] by (cases r) fastforce+

end

text \<open>
  An API server that keeps the object in memory and follows a schedule: each call takes the next
  entry, which may ask it to fail with an error, after or before applying the write.
\<close>

record mem_store =
  mem_object :: "AIWorkload option"
  mem_faults :: "(bool \<times> string) option list"

definition mem_write :: "(AIWorkload \<Rightarrow> AIWorkload) \<Rightarrow> (mem_store, AIWorkload) act" where
  "mem_write f s =
     (let fate = (case mem_faults s of [] \<Rightarrow> None | x # _ \<Rightarrow> x);
          s0 = s\<lparr>mem_faults := tl (mem_faults s)\<rparr>
      in case mem_object s of
           None \<Rightarrow> (Inl (Err SNotFound ''not found''), s0)
         | Some old \<Rightarrow>
             (case fate of
                None \<Rightarrow> (Inr (f old), s0\<lparr>mem_object := Some (f old)\<rparr>)
              | Some (True, e) \<Rightarrow> (Inl (Err SOther e), s0\<lparr>mem_object := Some (f old)\<rparr>)
              | Some (False, e) \<Rightarrow> (Inl (Err SOther e), s0)))"

definition mem_update :: "mem_store writer" where
  "mem_update w = mem_write (\<lambda>old. w\<lparr>Status := Status old,
     wl_Generation := wl_Generation old + (if Spec w = Spec old then 0 else 1)\<rparr>)"

definition mem_status_update :: "mem_store writer" where
  "mem_status_update w = mem_write (\<lambda>old. old\<lparr>Status := Status w\<rparr>)"

lemma mem_write_ok:
  "mem_write f s = (Inr w', s') \<Longrightarrow> \<exists>old. mem_object s = Some old \<and> w' = f old \<and> mem_object s' = Some w'"
  by (auto simp: mem_write_def Let_def split: option.splits list.splits prod.splits bool.splits)

lemma mem_write_not_found:
  "mem_write f s = (Inl e, s') \<Longrightarrow> err_is e = SNotFound \<Longrightarrow> mem_object s = None"
  by (auto simp: mem_write_def Let_def split: option.splits list.splits prod.splits bool.splits)

lemma mem_write_err:
  "mem_write f s = (Inl e, s') \<Longrightarrow>
   mem_object s' = mem_object s \<or> (\<exists>old. mem_object s = Some old \<and> mem_object s' = Some (f old))"
  by (auto simp: mem_write_def Let_def split: option.splits list.splits prod.splits bool.splits)

interpretation mem: workload_store mem_update mem_status_update mem_object
proof unfold_locales
  fix w s w' s' e
  show "mem_update w s = (Inr w', s') \<Longrightarrow> \<exists>old. mem_object s = Some old \<and> main_part w old w' \<and> mem_object s' = Some w'"
    unfolding mem_update_def by (drule mem_write_ok) (auto simp: main_part_def)
  show "mem_update w s = (Inl e, s') \<Longrightarrow>
      mem_object s' = mem_object s \<or> (\<exists>old new. mem_object s = Some old \<and> main_part w old new \<and> mem_object s' = Some new)"
    unfolding mem_update_def by (drule mem_write_err) (auto simp: main_part_def)
  show "mem_status_update w s = (Inr w', s') \<Longrightarrow>
      \<exists>old. mem_object s = Some old \<and> w' = old\<lparr>Status := Status w\<rparr> \<and> mem_object s' = Some w'"
    unfolding mem_status_update_def by (drule mem_write_ok) auto
  show "mem_status_update w s = (Inl e, s') \<Longrightarrow>
      mem_object s' = mem_object s \<or> (\<exists>old. mem_object s = Some old \<and> mem_object s' = Some (old\<lparr>Status := Status w\<rparr>))"
    unfolding mem_status_update_def by (drule mem_write_err) auto
  show "mem_status_update w s = (Inl e, s') \<Longrightarrow> err_is e = SNotFound \<Longrightarrow> mem_object s = None"
    unfolding mem_status_update_def by (rule mem_write_not_found)
qed

section \<open>The life of an operation\<close>

definition terminal :: "AIWorkloadOperation \<Rightarrow> bool" where
  "terminal op \<longleftrightarrow> op_State op \<noteq> OperationStateInProgress"

lemma op_states_distinct [simp]:
  "OperationStateSucceeded \<noteq> OperationStateInProgress" "OperationStateFailed \<noteq> OperationStateInProgress"
  "OperationStateSuperseded \<noteq> OperationStateInProgress" "OperationStateSucceeded \<noteq> OperationStateFailed"
  "OperationTypeRetry \<noteq> OperationTypeRollback" "OperationTypeUpgrade \<noteq> OperationTypeRollback"
  "OperationTypeUpgrade \<noteq> OperationTypeRetry" "OperationTypeRollback \<noteq> OperationTypeRetry"
  "OperationTypeUpgrade \<noteq> ''''" "OperationTypeRetry \<noteq> ''''" "OperationTypeRollback \<noteq> ''''"
  by (simp_all add: op_consts)

lemma decide_terminal [simp]: "terminal op \<Longrightarrow> decideOperation l now w op = op"
  by (simp add: decideOperation_def operationOutcome_def terminal_def)

text \<open>
  C13. What the controller may decide about an operation: a finished operation is never reopened
  or changed; the decision touches only state and reason, so type, nonce, target, epoch and
  request time stay; an operation whose intent no longer matches the spec is superseded and never
  succeeds; success is reported only when the operation's own criterion is met; and once the
  deadline of thirty minutes has passed since the request, the operation is finished.
\<close>

theorem operation_decision:
  "(op_State op \<noteq> OperationStateInProgress \<longrightarrow> decideOperation l now w op = op)
   \<and> (decideOperation l now w op)\<lparr>op_State := op_State op, op_Reason := op_Reason op\<rparr> = op
   \<and> (op_State op = OperationStateInProgress \<and> op_IntentDigest op \<noteq> intentDigest (Spec w) \<longrightarrow>
        op_State (decideOperation l now w op) = OperationStateSuperseded)
   \<and> (op_State op = OperationStateInProgress \<and> op_State (decideOperation l now w op) = OperationStateSucceeded \<longrightarrow>
        op_IntentDigest op = intentDigest (Spec w) \<and> certifiedAt l w op
        \<and> \<not> (op_Type op = OperationTypeRollback \<and> rollbackDrift w op))
   \<and> (since now (op_RequestedAt op) > 30 * 60 * 1000000000 \<longrightarrow>
        op_State (decideOperation l now w op) \<noteq> OperationStateInProgress)"
  by (auto simp: decideOperation_def operationOutcome_def defaultOperationDeadline_def second_def op_consts)

theorem operation_decision_witness:
  "\<exists>op w. op_State op = OperationStateInProgress \<and>
     op_State (decideOperation (\<lambda>_. Inr []) (2 * 3600 * 1000000000) w op) \<noteq> OperationStateInProgress"
proof -
  let ?op = "\<lparr>op_Type = OperationTypeUpgrade, op_Nonce = ''n'', op_TargetVersion = ''2'', op_ExpectedDigest = '''',
    op_RetryEpoch = 0, op_RequestedAt = Some 0, op_IntentDigest = '''', op_State = OperationStateInProgress, op_Reason = ''''\<rparr>"
  have "since (2 * 3600 * 1000000000) (op_RequestedAt ?op) > 30 * 60 * 1000000000" by simp
  then have "op_State (decideOperation (\<lambda>_. Inr []) (2 * 3600 * 1000000000) example_workload ?op) \<noteq> OperationStateInProgress"
    using operation_decision [of ?op "\<lambda>_. Inr []" "2 * 3600 * 1000000000" example_workload] by blast
  moreover have "op_State ?op = OperationStateInProgress" by simp
  ultimately show ?thesis by blast
qed

section \<open>A finished operation is never lost\<close>

text \<open>
  One pass of the controller over the stored object, with whatever answers and failures the API
  server gives, and any number of passes.
\<close>

inductive op_pass ::
  "'s writer \<Rightarrow> 's writer \<Rightarrow> ('s \<Rightarrow> AIWorkload option) \<Rightarrow> 's \<Rightarrow> 's \<Rightarrow> bool"
  for upd stat :: "'s writer" and stored :: "'s \<Rightarrow> AIWorkload option" where
  pass: "stored s = Some v \<Longrightarrow> reconcileOperation upd stat l now v s = (r, s') \<Longrightarrow> op_pass upd stat stored s s'"
| project: "stored s = Some v \<Longrightarrow> stat (projectOperation v) s = (r, s') \<Longrightarrow> op_pass upd stat stored s s'"

inductive_cases op_passE: "op_pass upd stat stored s s'"

definition settled :: "AIWorkloadOperation \<Rightarrow> AIWorkload \<Rightarrow> bool" where
  "settled op v \<longleftrightarrow> readJournal v = Some op
     \<or> readJournal v = None
       \<and> (ActiveOperation (Status v) = Some op
          \<or> ActiveOperation (Status v) = None \<and> op_IntentDigest op \<noteq> intentDigest (Spec v))"

lemma readJournal_cong: "Annotations v = Annotations w \<Longrightarrow> readJournal v = readJournal w"
  by (simp add: readJournal_def)

lemma readJournal_set:
  "operation_ok op \<Longrightarrow> readJournal (setAnnotation operationAnnotation (encodeOperation op) w) = Some (journal_form op)"
  by (simp add: readJournal_def setAnnotation_def encodeOperation_nonempty decode_encode_operation)

lemma readJournal_delete [simp]: "readJournal (deleteAnnotation operationAnnotation w) = None"
  by (simp add: readJournal_def deleteAnnotation_def)

lemma main_part_simps:
  assumes "main_part w old new"
  shows "Annotations new = Annotations w" "Status new = Status old" "Spec new = Spec w"
proof -
  have e: "new\<lparr>wl_Generation := 0\<rparr> = w\<lparr>Status := Status old, wl_Generation := 0\<rparr>"
    using assms by (simp add: main_part_def)
  show "Annotations new = Annotations w" using arg_cong [OF e, of Annotations] by simp
  show "Status new = Status old" using arg_cong [OF e, of Status] by simp
  show "Spec new = Spec w" using arg_cong [OF e, of Spec] by simp
qed

lemma projectOperation_status:
  "readJournal v = Some a \<Longrightarrow> ActiveOperation (Status (projectOperation v)) = Some a"
  "readJournal v = None \<Longrightarrow> ActiveOperation (Status v) = None \<Longrightarrow> ActiveOperation (Status (projectOperation v)) = None"
  "readJournal v = None \<Longrightarrow> ActiveOperation (Status v) = Some a \<Longrightarrow> op_State a = OperationStateInProgress \<Longrightarrow>
     ActiveOperation (Status (projectOperation v)) = Some a"
  "readJournal v = None \<Longrightarrow> ActiveOperation (Status v) = Some a \<Longrightarrow> op_IntentDigest a = intentDigest (Spec v) \<Longrightarrow>
     ActiveOperation (Status (projectOperation v)) = Some a"
  "readJournal v = None \<Longrightarrow> ActiveOperation (Status v) = Some a \<Longrightarrow> op_State a \<noteq> OperationStateInProgress \<Longrightarrow>
     op_IntentDigest a \<noteq> intentDigest (Spec v) \<Longrightarrow> ActiveOperation (Status (projectOperation v)) = None"
  by (simp_all add: projectOperation_def)

lemma settled_project:
  assumes "settled op v" "terminal op"
  shows "settled op (v\<lparr>Status := Status (projectOperation v)\<rparr>)"
proof -
  have j: "readJournal (v\<lparr>Status := t\<rparr>) = readJournal v" for t by (rule readJournal_cong) simp
  consider "readJournal v = Some op"
    | "readJournal v = None" "ActiveOperation (Status v) = Some op"
    | "readJournal v = None" "ActiveOperation (Status v) = None" "op_IntentDigest op \<noteq> intentDigest (Spec v)"
    using assms(1) by (auto simp: settled_def)
  then show ?thesis
  proof cases
    case 2
    then show ?thesis using assms(2)
      by (cases "op_IntentDigest op = intentDigest (Spec v)")
        (simp_all add: settled_def j projectOperation_status terminal_def)
  qed (simp_all add: settled_def j projectOperation_status)
qed

context workload_store
begin

lemma tail_settled:
  assumes "stored s = Some v" "readJournal v = Some op"
    and "projectAndClear upd stat op v s = (r, s')"
  shows "\<exists>v'. stored s' = Some v' \<and> Spec v' = Spec v \<and> settled op v' \<and>
    (\<not> isl r \<longrightarrow> readJournal v' = None \<and> ActiveOperation (Status v') = Some op)"
proof -
  let ?w2 = "v\<lparr>Status := (Status v)\<lparr>ActiveOperation := Some op\<rparr>\<rparr>"
  have j2: "readJournal ?w2 = Some op" using assms(2) readJournal_cong [of ?w2 v] by simp
  obtain r2 s2 where u2: "stat ?w2 s = (r2, s2)" by (cases "stat ?w2 s")
  show ?thesis
  proof (cases r2)
    case (Inl e)
    then have "err_is e \<noteq> SNotFound" using stat_not_found u2 assms(1) by force
    then have run: "r = Inl e" "s' = s2"
      using assms(3) u2 Inl by (simp_all add: projectAndClear_def Let_def bind_simps)
    show ?thesis using u2
      by (cases rule: stat_cases) (use run assms j2 in \<open>auto simp: settled_def\<close>)
  next
    case (Inr w3)
    then have w3: "w3 = ?w2" "stored s2 = Some ?w2" using stat_ok [of ?w2 s w3 s2] u2 assms(1) by auto
    let ?d = "deleteAnnotation operationAnnotation w3"
    obtain r3 where u3: "upd ?d s2 = (r3, s')" and r: "isl r = isl r3"
      using assms(3) u2 Inr
      by (cases "upd ?d s2"; cases "fst (upd ?d s2)") (auto simp: projectAndClear_def Let_def bind_simps)
    from u3 show ?thesis
    proof (cases rule: upd_cases)
      case 1
      then show ?thesis using r w3(2) j2 by (auto simp: settled_def)
    next
      case (2 old new)
      note new = main_part_simps [OF 2(2)]
      have "readJournal new = None" using readJournal_delete [of w3] readJournal_cong [OF new(1)] by simp
      moreover have "old = ?w2" using 2(1) w3(2) by simp
      then have "ActiveOperation (Status new) = Some op" unfolding new(2) by simp
      moreover have "Spec new = Spec v" using new(3) w3(1) by (simp add: deleteAnnotation_def)
      ultimately show ?thesis using 2(3) by (auto simp: settled_def)
    qed
  qed
qed

lemma finish_settled:
  assumes "stored s = Some v" "readJournal v = Some op" "terminal op" "journal_ok op"
    and "reconcileOperation upd stat l now v s = (r, s')"
  shows "\<exists>v'. stored s' = Some v' \<and> Spec v' = Spec v \<and> settled op v' \<and>
    (\<not> isl r \<longrightarrow> readJournal v' = None \<and> ActiveOperation (Status v') = Some op)"
proof -
  have ok: "operation_ok op" "journal_form op = op" using assms(4) by (auto simp: journal_ok_def)
  let ?w = "setAnnotation operationAnnotation (encodeOperation op) v"
  have run: "reconcileOperation upd stat l now v s = bnd (upd ?w) (projectAndClear upd stat op) s"
    using assms(2,3) by (simp add: reconcileOperation_def) (simp add: terminal_def)
  obtain r1 s1 where u1: "upd ?w s = (r1, s1)" by (cases "upd ?w s")
  from u1 show ?thesis
  proof (cases rule: upd_cases)
    case 1
    then show ?thesis using run u1 assms by (cases r1) (auto simp: bind_simps settled_def)
  next
    case (2 old new)
    note new = main_part_simps [OF 2(2)]
    have j: "readJournal new = Some op" "Spec new = Spec v"
      using readJournal_set [OF ok(1), of v] ok(2) readJournal_cong [OF new(1)] new(3)
      by (simp_all add: setAnnotation_def)
    show ?thesis
    proof (cases r1)
      case (Inl e)
      then show ?thesis using run u1 assms(5) 2(3) j by (auto simp: bind_simps settled_def)
    next
      case (Inr w1)
      then have "projectAndClear upd stat op new s1 = (r, s')"
        using run u1 assms(5) 2(4) by (auto simp: bind_simps)
      from tail_settled [OF 2(3) j(1) this] show ?thesis using j(2) by simp
    qed
  qed
qed

lemma pass_settled:
  assumes "op_pass upd stat stored s s'" "stored s = Some v" "settled op v" "terminal op" "journal_ok op"
  shows "\<exists>v'. stored s' = Some v' \<and> settled op v'"
proof -
  consider (reconcile) v0 l now r where "stored s = Some v0" "reconcileOperation upd stat l now v0 s = (r, s')"
    | (project) v0 r where "stored s = Some v0" "stat (projectOperation v0) s = (r, s')"
    using assms(1) by (blast elim: op_passE)
  then show ?thesis
  proof cases
  case reconcile
  then have v0: "v0 = v" using assms(2) by simp
  show ?thesis
  proof (cases "readJournal v")
    case None
    then have "s' = s" using reconcile v0 by (simp add: reconcileOperation_def bind_simps)
    then show ?thesis using assms by blast
  next
    case (Some op')
    then have "op' = op" using assms(3) by (simp add: settled_def)
    then show ?thesis using finish_settled [OF assms(2)] Some assms(4,5) reconcile v0 by blast
  qed
next
  case project
  then have v0: "v0 = v" using assms(2) by simp
  have j: "readJournal (projectOperation v) = readJournal v" for v
    by (rule readJournal_cong) (simp add: projectOperation_def split: option.split)
  show ?thesis
    using project(2)
    by (cases rule: stat_cases)
      (use assms(2,3) v0 settled_project [OF assms(3,4)] in auto)
  qed
qed

lemma passes_settled:
  assumes "(op_pass upd stat stored)\<^sup>*\<^sup>* s s'" "stored s = Some v" "settled op v" "terminal op" "journal_ok op"
  shows "\<exists>v'. stored s' = Some v' \<and> settled op v'"
  using assms
  by (induction rule: rtranclp_induct) (blast intro: pass_settled)+

end

text \<open>
  C1. A finished operation is never lost, whatever the API server does: once the journal holds a
  terminal operation, then after any number of controller passes, each of which may be cut short
  by a failed or a lost write at any of its three writes, the stored object either still carries
  that operation in its journal, or it has been cleared from the journal and shown as the active
  operation of the status (from which it is retired only if the spec's intent has moved on); and
  a pass whose writes all succeed clears the journal with the operation shown.
\<close>

theorem terminal_operation_never_lost:
  assumes "workload_store upd stat stored" and "stored s = Some v" and "readJournal v = Some op"
    and "op_State op \<noteq> OperationStateInProgress" and "journal_ok op"
    and "(op_pass upd stat stored)\<^sup>*\<^sup>* s s'"
  shows "\<exists>v'. stored s' = Some v' \<and> settled op v' \<and>
    (\<forall>l now. readJournal v' = Some op \<and> \<not> isl (fst (reconcileOperation upd stat l now v' s')) \<longrightarrow>
      (\<exists>v''. stored (snd (reconcileOperation upd stat l now v' s')) = Some v''
        \<and> readJournal v'' = None \<and> ActiveOperation (Status v'') = Some op))"
proof -
  have t: "terminal op" using assms(4) by (simp add: terminal_def)
  have "settled op v" using assms(3) by (simp add: settled_def)
  then obtain v' where v': "stored s' = Some v'" "settled op v'"
    using workload_store.passes_settled [OF assms(1) assms(6,2) _ t assms(5)] by blast
  have "\<exists>v''. stored (snd (reconcileOperation upd stat l now v' s')) = Some v''
      \<and> readJournal v'' = None \<and> ActiveOperation (Status v'') = Some op"
    if "readJournal v' = Some op" "\<not> isl (fst (reconcileOperation upd stat l now v' s'))" for l now
    using workload_store.finish_settled [OF assms(1) v'(1) that(1) t assms(5), of l now] that(2)
    by (metis prod.collapse)
  then show ?thesis using v' by blast
qed

definition example_op :: AIWorkloadOperation where
  "example_op = \<lparr>op_Type = OperationTypeUpgrade, op_Nonce = ''n1'', op_TargetVersion = ''2.0'', op_ExpectedDigest = '''',
     op_RetryEpoch = 0, op_RequestedAt = None, op_IntentDigest = '''', op_State = OperationStateSucceeded, op_Reason = ''''\<rparr>"

lemma example_op_ok: "journal_ok example_op" "operation_ok example_op" "op_State example_op \<noteq> OperationStateInProgress"
  by (simp_all add: journal_ok_def journal_form_def operation_ok_def example_op_def byte_in_def op_consts int64_def)

definition example_journaled :: AIWorkload where
  "example_journaled = setAnnotation operationAnnotation (encodeOperation example_op) example_workload"

lemma example_journaled_read: "readJournal example_journaled = Some example_op"
  using readJournal_set [OF example_op_ok(2)] example_op_ok(1)
  by (simp add: example_journaled_def journal_ok_def)

theorem terminal_operation_never_lost_witness:
  "let s = \<lparr>mem_object = Some example_journaled, mem_faults = [None, Some (True, ''timeout'')]\<rparr>;
       s' = snd (reconcileOperation mem_update mem_status_update (\<lambda>_. Inr []) 0 example_journaled s)
   in \<exists>v'. mem_object s' = Some v' \<and> settled example_op v'"
proof -
  let ?s = "\<lparr>mem_object = Some example_journaled, mem_faults = [None, Some (True, ''timeout'')]\<rparr>"
  let ?c = "reconcileOperation mem_update mem_status_update (\<lambda>_. Inr []) 0 example_journaled ?s"
  have st: "mem_object ?s = Some example_journaled" by simp
  have "op_pass mem_update mem_status_update mem_object ?s (snd ?c)"
    by (rule op_pass.pass [where v = example_journaled]) (simp, rule prod.collapse [symmetric])
  then have "(op_pass mem_update mem_status_update mem_object)\<^sup>*\<^sup>* ?s (snd ?c)" by blast
  from terminal_operation_never_lost [OF mem.workload_store_axioms st example_journaled_read
      example_op_ok(3,1) this]
  show ?thesis unfolding Let_def by blast
qed

section \<open>Triggers are handled once\<close>

text \<open>The identity of the request that \<open>handleTriggers\<close> looks at, and the annotation it is in.\<close>

definition pendingTrigger :: "AIWorkload \<Rightarrow> (string \<times> string) option" where
  "pendingTrigger w =
     (let upgrade = mget (Annotations w) upgradeRequestAnnotation;
          rollback = mget (Annotations w) rollbackRequestAnnotation;
          retry = mget (Annotations w) retryRequestAnnotation
      in if upgrade \<noteq> '''' then Some (upgradeRequestAnnotation, handledID OperationTypeUpgrade (fst (splitRequest upgrade)))
         else if rollback \<noteq> '''' then Some (rollbackRequestAnnotation, handledID OperationTypeRollback rollback)
         else if retry \<noteq> '''' then Some (retryRequestAnnotation, handledID OperationTypeRetry retry)
         else None)"

definition handledOps :: "AIWorkload \<Rightarrow> string list" where
  "handledOps w = decodeHandled (mget (Annotations w) handledOpsAnnotation)"

definition sameVersionUpgrade :: "AIWorkload \<Rightarrow> bool" where
  "sameVersionUpgrade w \<longleftrightarrow> mget (Annotations w) upgradeRequestAnnotation \<noteq> ''''
     \<and> snd (splitRequest (mget (Annotations w) upgradeRequestAnnotation)) = currentVersion w"

lemma annotations_distinct [simp]:
  "operationAnnotation \<noteq> handledOpsAnnotation" "handledOpsAnnotation \<noteq> operationAnnotation"
  "upgradeRequestAnnotation \<noteq> handledOpsAnnotation" "handledOpsAnnotation \<noteq> upgradeRequestAnnotation"
  "rollbackRequestAnnotation \<noteq> handledOpsAnnotation" "handledOpsAnnotation \<noteq> rollbackRequestAnnotation"
  "retryRequestAnnotation \<noteq> handledOpsAnnotation" "handledOpsAnnotation \<noteq> retryRequestAnnotation"
  "retryEpochAnnotation \<noteq> handledOpsAnnotation" "handledOpsAnnotation \<noteq> retryEpochAnnotation"
  "supersededOpAnnotation \<noteq> handledOpsAnnotation" "handledOpsAnnotation \<noteq> supersededOpAnnotation"
  "upgradeRequestAnnotation \<noteq> operationAnnotation" "operationAnnotation \<noteq> upgradeRequestAnnotation"
  "rollbackRequestAnnotation \<noteq> operationAnnotation" "operationAnnotation \<noteq> rollbackRequestAnnotation"
  "retryRequestAnnotation \<noteq> operationAnnotation" "operationAnnotation \<noteq> retryRequestAnnotation"
  "retryEpochAnnotation \<noteq> operationAnnotation" "operationAnnotation \<noteq> retryEpochAnnotation"
  "supersededOpAnnotation \<noteq> operationAnnotation" "operationAnnotation \<noteq> supersededOpAnnotation"
  "upgradeRequestAnnotation \<noteq> retryRequestAnnotation" "retryRequestAnnotation \<noteq> upgradeRequestAnnotation"
  "upgradeRequestAnnotation \<noteq> retryEpochAnnotation" "retryEpochAnnotation \<noteq> upgradeRequestAnnotation"
  "retryRequestAnnotation \<noteq> retryEpochAnnotation" "retryEpochAnnotation \<noteq> retryRequestAnnotation"
  "upgradeRequestAnnotation \<noteq> rollbackRequestAnnotation" "rollbackRequestAnnotation \<noteq> upgradeRequestAnnotation"
  "supersededOpAnnotation \<noteq> retryEpochAnnotation" "retryEpochAnnotation \<noteq> supersededOpAnnotation"
  "supersededOpAnnotation \<noteq> upgradeRequestAnnotation" "supersededOpAnnotation \<noteq> rollbackRequestAnnotation"
  "supersededOpAnnotation \<noteq> retryRequestAnnotation" "upgradeRequestAnnotation \<noteq> supersededOpAnnotation"
  "rollbackRequestAnnotation \<noteq> supersededOpAnnotation" "retryRequestAnnotation \<noteq> supersededOpAnnotation"
  by (simp_all add: annotation_defs)

lemma mget_setAnnotation [simp]:
  "mget (Annotations (setAnnotation k v w)) k' = (if k' = k then v else mget (Annotations w) k')"
  "mget (Annotations (deleteAnnotation k w)) k' = (if k' = k then '''' else mget (Annotations w) k')"
  "Spec (setAnnotation k v w) = Spec w" "Spec (deleteAnnotation k w) = Spec w"
  "Status (setAnnotation k v w) = Status w" "Status (deleteAnnotation k w) = Status w"
  by (simp_all add: setAnnotation_def deleteAnnotation_def)

lemma keepSuperseded_simps [simp]:
  "Spec (keepSuperseded w) = Spec w" "Status (keepSuperseded w) = Status w"
  "k \<noteq> supersededOpAnnotation \<Longrightarrow> mget (Annotations (keepSuperseded w)) k = mget (Annotations w) k"
  by (simp_all add: keepSuperseded_def split: option.split)

lemma prepareFinish_simps:
  "reqAnn \<noteq> handledOpsAnnotation \<Longrightarrow> reqAnn \<noteq> operationAnnotation \<Longrightarrow> mget (Annotations (prepareFinish w reqAnn i op)) reqAnn = ''''"
  "reqAnn \<noteq> handledOpsAnnotation \<Longrightarrow> mget (Annotations (prepareFinish w reqAnn i op)) handledOpsAnnotation = encodeHandled (addHandled (handledOps w) i)"
  "k \<noteq> reqAnn \<Longrightarrow> k \<noteq> handledOpsAnnotation \<Longrightarrow> k \<noteq> operationAnnotation \<Longrightarrow>
     mget (Annotations (prepareFinish w reqAnn i op)) k = mget (Annotations w) k"
  "Spec (prepareFinish w reqAnn i op) = Spec w"
  "reqAnn \<noteq> operationAnnotation \<Longrightarrow> mget (Annotations (prepareFinish w reqAnn i op)) operationAnnotation =
     (case op of None \<Rightarrow> mget (Annotations w) operationAnnotation | Some o' \<Rightarrow> encodeOperation o')"
  by (auto simp: prepareFinish_def Let_def handledOps_def split: option.split)

text \<open>What a handled trigger writes: one update of a prepared object.\<close>

definition preparedVersion :: "nat \<Rightarrow> AIWorkload \<Rightarrow> string \<Rightarrow> string \<Rightarrow> string \<Rightarrow> string \<Rightarrow> string \<Rightarrow> AIWorkload" where
  "preparedVersion now w opType nonce target expected reqAnn =
     (let w2 = (keepSuperseded w)\<lparr>Spec := setBlueprintVersion target (Spec w)\<rparr>
      in prepareFinish w2 reqAnn (handledID opType nonce)
           (Some (versionOperation now (Spec w2) opType nonce target expected)))"

definition preparedRetry :: "nat \<Rightarrow> AIWorkload \<Rightarrow> string \<Rightarrow> AIWorkload" where
  "preparedRetry now w nonce =
     (let epoch = wrap64 (retryEpochValue w + 1)
      in prepareFinish (setAnnotation retryEpochAnnotation (FormatInt epoch) w) retryRequestAnnotation
           (handledID OperationTypeRetry nonce) (Some (retryOperation now (Spec w) nonce epoch)))"

definition preparedTrigger :: "nat \<Rightarrow> AIWorkload \<Rightarrow> AIWorkload option" where
  "preparedTrigger now w =
     (case pendingTrigger w of
        None \<Rightarrow> None
      | Some (a, i) \<Rightarrow>
          if isHandled (handledOps w) i then None
          else if a = upgradeRequestAnnotation then
            (let (nonce, target) = splitRequest (mget (Annotations w) upgradeRequestAnnotation)
             in Some (if target = currentVersion w then preparedRetry now w nonce
                      else preparedVersion now w OperationTypeUpgrade nonce target '''' a))
          else if a = rollbackRequestAnnotation then
            Some (case DeployedSource (Status w) of
                    None \<Rightarrow> prepareFinish w a i None
                  | Some ds \<Rightarrow>
                      if SourceBlueprint (Spec w) \<noteq> None \<and> ds_Version ds = currentVersion w
                      then prepareFinish w a i None
                      else preparedVersion now w OperationTypeRollback
                             (mget (Annotations w) rollbackRequestAnnotation) (ds_Version ds) (ds_RenderDigest ds) a)
          else Some (preparedRetry now w (mget (Annotations w) retryRequestAnnotation)))"

lemma start_prepared:
  "startRetry upd now w nonce s = bnd (upd (preparedRetry now w nonce)) (\<lambda>w'. ret (True, w')) s"
  "startVersionOp upd now w ty nonce target expected a s =
     bnd (upd (preparedVersion now w ty nonce target expected a)) (\<lambda>w'. ret (True, w')) s"
  by (simp_all add: startRetry_def startVersionOp_def preparedRetry_def preparedVersion_def finishTrigger_def Let_def)

lemma handleTriggers_prepared:
  "handleTriggers upd now w s =
     (case preparedTrigger now w of None \<Rightarrow> (Inr (False, w), s) | Some v \<Rightarrow> bnd (upd v) (\<lambda>w'. ret (True, w')) s)"
proof -
  let ?u = "mget (Annotations w) upgradeRequestAnnotation"
  let ?r = "mget (Annotations w) rollbackRequestAnnotation"
  let ?t = "mget (Annotations w) retryRequestAnnotation"
  obtain nonce target where sp: "splitRequest ?u = (nonce, target)" by (cases "splitRequest ?u")
  have neq: "rollbackRequestAnnotation \<noteq> retryRequestAnnotation" by (simp add: annotation_defs)
  consider "?u \<noteq> ''''" | "?u = ''''" "?r \<noteq> ''''" | "?u = ''''" "?r = ''''" "?t \<noteq> ''''"
    | "?u = ''''" "?r = ''''" "?t = ''''" by blast
  then show ?thesis
  proof cases
    case 1
    then show ?thesis
      by (simp add: handleTriggers_def handleUpgrade_def preparedTrigger_def pendingTrigger_def handledOps_def
          Let_def start_prepared act_simps sp)
  next
    case 2
    then show ?thesis
      by (cases "DeployedSource (Status w)")
        (simp_all add: handleTriggers_def handleRollback_def preparedTrigger_def pendingTrigger_def handledOps_def
          Let_def start_prepared act_simps finishTrigger_def)
  next
    case 3
    then show ?thesis using neq
      by (simp add: handleTriggers_def preparedTrigger_def pendingTrigger_def handledOps_def
          Let_def start_prepared act_simps)
  next
    case 4
    then show ?thesis
      by (simp add: handleTriggers_def preparedTrigger_def pendingTrigger_def handledOps_def act_simps)
  qed
qed

lemma handledOps_prepared:
  assumes "preparedTrigger now w = Some v" "pendingTrigger w = Some (a, i)" "\<not> sameVersionUpgrade w"
  shows "\<exists>w0 op. v = prepareFinish w0 a i op \<and> handledOps w0 = handledOps w"
proof -
  let ?u = "mget (Annotations w) upgradeRequestAnnotation"
  let ?r = "mget (Annotations w) rollbackRequestAnnotation"
  obtain nonce target where sp: "splitRequest ?u = (nonce, target)" by (cases "splitRequest ?u")
  consider "?u \<noteq> ''''" | "?u = ''''" "?r \<noteq> ''''" | "?u = ''''" "?r = ''''" by blast
  then show ?thesis
  proof cases
    case 1
    then have "v = preparedVersion now w OperationTypeUpgrade nonce target '''' a" "i = handledID OperationTypeUpgrade nonce"
      using assms by (auto simp: preparedTrigger_def pendingTrigger_def sameVersionUpgrade_def sp split: if_splits)
    then show ?thesis by (auto simp: preparedVersion_def Let_def handledOps_def)
  next
    case 2
    then have ai: "a = rollbackRequestAnnotation" "i = handledID OperationTypeRollback ?r"
      using assms(2) by (auto simp: pendingTrigger_def)
    then have "v = prepareFinish w a i None \<or> (\<exists>t e. v = preparedVersion now w OperationTypeRollback ?r t e a)"
      using assms(1,2) 2 by (cases "DeployedSource (Status w)") (auto simp: preparedTrigger_def split: if_splits)
    then show ?thesis using ai by (auto simp: preparedVersion_def Let_def handledOps_def)
  next
    case 3
    have "rollbackRequestAnnotation \<noteq> retryRequestAnnotation" by (simp add: annotation_defs)
    then have "v = preparedRetry now w (mget (Annotations w) retryRequestAnnotation)" "a = retryRequestAnnotation"
      "i = handledID OperationTypeRetry (mget (Annotations w) retryRequestAnnotation)"
      using assms(1,2) 3 by (auto simp: preparedTrigger_def pendingTrigger_def Let_def split: if_splits)
    then show ?thesis by (auto simp: preparedRetry_def Let_def handledOps_def)
  qed
qed

lemma pending_annotations:
  "pendingTrigger w = Some (a, i) \<Longrightarrow> a \<noteq> handledOpsAnnotation \<and> a \<noteq> operationAnnotation"
  by (auto simp: pendingTrigger_def Let_def split: if_splits)

lemma handledOps_prepareFinish:
  assumes "list_all valid_utf8 (i # handledOps w0)" "a \<noteq> handledOpsAnnotation"
  shows "handledOps (prepareFinish w0 a i op) = addHandled (handledOps w0) i"
  using assms addHandled_valid [of "handledOps w0" i]
  by (simp add: handledOps_def [of "prepareFinish w0 a i op"] prepareFinish_simps decode_encode_handled)

lemma handled_ignored:
  "pendingTrigger v = Some (a, i) \<Longrightarrow> i \<in> set (handledOps v) \<Longrightarrow> handleTriggers upd now v s = (Inr (False, v), s)"
  by (simp add: handleTriggers_prepared preparedTrigger_def isHandled_def)

lemma handled_update:
  assumes "workload_store upd stat stored" and "handleTriggers upd now w s = (Inr (True, w'), s')"
  obtains v where "preparedTrigger now w = Some v" "Annotations w' = Annotations v" "Spec w' = Spec v"
    "stored s' = Some w'" "\<exists>old. stored s = Some old \<and> Status w' = Status old"
proof -
  obtain v where v: "preparedTrigger now w = Some v" "upd v s = (Inr w', s')"
    using assms(2) by (auto simp: handleTriggers_prepared bind_simps split: option.splits prod.splits sum.splits)
  then obtain old where old: "stored s = Some old" "main_part v old w'" "stored s' = Some w'"
    using workload_store.upd_ok [OF assms(1)] by blast
  show ?thesis
    by (rule that [OF v(1) main_part_simps(1,3) [OF old(2)] old(3)])
      (use old(1) main_part_simps(2) [OF old(2)] in blast)
qed


lemma splitRequest_pair: "CHR ''|'' \<notin> set nonce \<Longrightarrow> splitRequest (nonce @ ''|'' @ target) = (nonce, target)"
  using index_byte_append [of "CHR ''|''" nonce target] by (simp add: splitRequest_def)

lemma sha256Hex_utf8 [simp]: "valid_utf8 (sha256Hex b)"
proof (rule valid_utf8_ascii)
  have "hexdig n \<in> {c. byte_in 0 0x7F c}" if "n < 16" for n
    using hexdig_hex [OF that] by (auto simp: byte_in_def)
  then have "set (hex_encode (sha256 b)) \<subseteq> {c. byte_in 0 0x7F c}" by (rule hex_encode_set)
  then have "list_all (byte_in 0 0x7F) (hex_encode (sha256 b))" by (auto simp: list_all_iff)
  then show "list_all (byte_in 0 0x7F) (sha256Hex b)" by (simp add: sha256Hex_def byte_in_def)
qed

lemma intentDigest_utf8 [simp]: "valid_utf8 (intentDigest spec)"
  by (simp add: intentDigest_def)

lemma op_const_utf8 [simp]:
  "valid_utf8 OperationTypeUpgrade" "valid_utf8 OperationTypeRollback" "valid_utf8 OperationTypeRetry"
  "valid_utf8 OperationStateInProgress" "valid_utf8 OperationStateSucceeded" "valid_utf8 OperationStateFailed"
  "valid_utf8 OperationStateSuperseded"
  by (simp_all add: op_consts byte_in_def)

lemma versionOperation_ok:
  "valid_utf8 ty \<Longrightarrow> valid_utf8 nonce \<Longrightarrow> valid_utf8 target \<Longrightarrow> valid_utf8 expected \<Longrightarrow> time_ok (now div second) \<Longrightarrow>
   operation_ok (versionOperation now spec ty nonce target expected)"
  by (simp add: operation_ok_def versionOperation_def int64_def)

lemma retryOperation_ok:
  "valid_utf8 nonce \<Longrightarrow> int64 epoch \<Longrightarrow> time_ok (now div second) \<Longrightarrow> operation_ok (retryOperation now spec nonce epoch)"
  by (simp add: operation_ok_def retryOperation_def)

lemma readJournal_prepareFinish:
  assumes "operation_ok op" "a \<noteq> operationAnnotation"
  shows "readJournal (prepareFinish w a i (Some op)) = Some (journal_form op)"
  using assms by (simp add: readJournal_def prepareFinish_simps encodeOperation_nonempty decode_encode_operation)

definition example_upgrade :: AIWorkload where
  "example_upgrade = setAnnotation upgradeRequestAnnotation ''n1|2.0'' example_workload"

definition example_server :: "AIWorkload \<Rightarrow> mem_store" where
  "example_server w = \<lparr>mem_object = Some w, mem_faults = []\<rparr>"

lemma example_server_simps [simp]: "mem_object (example_server w) = Some w" "mem_faults (example_server w) = []"
  by (simp_all add: example_server_def)

lemma example_annotations [simp]: "mget (Annotations example_workload) k = ''''"
  by (simp add: example_workload_def)

lemma example_upgrade_split [simp]: "splitRequest ''n1|2.0'' = (''n1'', ''2.0'')"
  using splitRequest_pair [of "''n1''" "''2.0''"] by simp

lemma example_upgrade_simps:
  "pendingTrigger example_upgrade = Some (upgradeRequestAnnotation, ''Upgrade|n1'')"
  "handledOps example_upgrade = []" "currentVersion example_upgrade = ''1.0''"
  "\<not> sameVersionUpgrade example_upgrade"
  by (simp_all add: pendingTrigger_def example_upgrade_def Let_def handledID_def OperationTypeUpgrade_def handledOps_def
      decodeHandled_def currentVersion_def sameVersionUpgrade_def example_defs)

lemma mem_update_ok:
  "mem_faults s = [] \<Longrightarrow> mem_object s = Some old \<Longrightarrow> \<exists>w' s'. mem_update v s = (Inr w', s')"
  by (simp add: mem_update_def mem_write_def)

lemma mem_triggered:
  assumes "preparedTrigger now w = Some v"
  shows "\<exists>w' s'. handleTriggers mem_update now w (example_server w) = (Inr (True, w'), s')"
  using mem_update_ok [of "example_server w" w v] assms by (auto simp: handleTriggers_prepared bind_simps)

lemma example_prepared: "\<exists>v. preparedTrigger now example_upgrade = Some v"
  using example_upgrade_simps by (simp add: preparedTrigger_def isHandled_def split: prod.split)


text \<open>
  Handling an upgrade request is one atomic write: afterwards the stored object has the
  requested blueprint version, a journal with exactly this operation (in progress, identified by
  the new intent, requested now to the second), the status it had, and, if another operation was
  in flight, that operation in the superseded annotation.
\<close>

theorem upgrade_request_starts_operation:
  assumes "workload_store upd stat stored" and "handleTriggers upd now w s = (Inr (True, w'), s')"
    and "mget (Annotations w) upgradeRequestAnnotation = nonce @ ''|'' @ target" and "CHR ''|'' \<notin> set nonce"
    and "target \<noteq> currentVersion w" and "SourceBlueprint (Spec w) \<noteq> None"
    and "valid_utf8 nonce" and "valid_utf8 target" and "time_ok (now div 1000000000)"
  shows "stored s' = Some w' \<and> currentVersion w' = target
    \<and> Spec w' = setBlueprintVersion target (Spec w)
    \<and> (\<exists>old. stored s = Some old \<and> Status w' = Status old)
    \<and> readJournal w' = Some \<lparr>op_Type = OperationTypeUpgrade, op_Nonce = nonce, op_TargetVersion = target,
        op_ExpectedDigest = '''', op_RetryEpoch = 0, op_RequestedAt = Some (now div 1000000000 * 1000000000),
        op_IntentDigest = intentDigest (Spec w'), op_State = OperationStateInProgress, op_Reason = ''''\<rparr>
    \<and> (\<forall>old. readJournal w = Some old \<longrightarrow> mget (Annotations w') supersededOpAnnotation = encodeOperation old)"
proof -
  let ?spec = "setBlueprintVersion target (Spec w)"
  let ?op = "versionOperation now ?spec OperationTypeUpgrade nonce target ''''"
  obtain v where v: "preparedTrigger now w = Some v" "Annotations w' = Annotations v" "Spec w' = Spec v"
    "stored s' = Some w'" "\<exists>old. stored s = Some old \<and> Status w' = Status old"
    using handled_update [OF assms(1,2)] by metis
  have sp: "splitRequest (mget (Annotations w) upgradeRequestAnnotation) = (nonce, target)"
    using splitRequest_pair [OF assms(4), of target] assms(3) by simp
  have "v = preparedVersion now w OperationTypeUpgrade nonce target '''' upgradeRequestAnnotation"
    using v(1) sp assms(3,5) by (simp add: preparedTrigger_def pendingTrigger_def Let_def split: if_splits)
  then have pf: "v = prepareFinish ((keepSuperseded w)\<lparr>Spec := ?spec\<rparr>) upgradeRequestAnnotation
      (handledID OperationTypeUpgrade nonce) (Some ?op)"
    by (simp add: preparedVersion_def Let_def)
  have sw: "Spec w' = ?spec" using v(3) pf by (simp add: prepareFinish_simps)
  have cv: "currentVersion w' = target"
    using assms(6) sw by (auto simp: currentVersion_def setBlueprintVersion_def)
  have "operation_ok ?op"
    using assms(7-9) by (intro versionOperation_ok) (simp_all add: second_def)
  then have "readJournal v = Some (journal_form ?op)"
    unfolding pf by (rule readJournal_prepareFinish) simp
  then have "readJournal w' = Some (journal_form ?op)" using readJournal_cong [OF v(2)] by simp
  moreover have "mget (Annotations w') supersededOpAnnotation = encodeOperation old" if "readJournal w = Some old" for old
    using that by (simp add: v(2) pf prepareFinish_simps) (simp add: keepSuperseded_def)
  ultimately show ?thesis
    using v(4,5) cv sw
    by (simp add: journal_form_def versionOperation_def trunc_second_def second_def)
qed

theorem upgrade_request_starts_operation_witness:
  "\<exists>w' s'. handleTriggers mem_update 0 example_upgrade (example_server example_upgrade) = (Inr (True, w'), s')
     \<and> currentVersion w' = ''2.0''"
proof -
  obtain w' s' where h: "handleTriggers mem_update 0 example_upgrade (example_server example_upgrade) = (Inr (True, w'), s')"
    using mem_triggered example_prepared by blast
  have t: "time_ok (0 div 1000000000)" by (simp add: time_ok_def year_of.simps ylen_def)
  have "currentVersion w' = ''2.0''"
    using upgrade_request_starts_operation [OF mem.workload_store_axioms h, of "''n1''" "''2.0''"] t
    by (simp add: example_upgrade_simps byte_in_def) (simp add: example_upgrade_def example_defs)
  then show ?thesis using h by blast
qed

section \<open>Two behaviours of the triggers\<close>

text \<open>The controller's trigger step over what the server stores, repeated.\<close>

definition trigger_round :: "nat \<Rightarrow> mem_store \<Rightarrow> mem_store" where
  "trigger_round now s = (case mem_object s of None \<Rightarrow> s | Some w \<Rightarrow> snd (handleTriggers mem_update now w s))"

definition same_version_pending :: "string \<Rightarrow> int \<Rightarrow> AIWorkload \<Rightarrow> bool" where
  "same_version_pending nonce e w \<longleftrightarrow>
     mget (Annotations w) upgradeRequestAnnotation = nonce @ ''|'' @ currentVersion w
     \<and> handledID OperationTypeUpgrade nonce \<notin> set (handledOps w)
     \<and> list_all valid_utf8 (handledOps w) \<and> retryEpochValue w = e"

lemma same_version_round:
  assumes "same_version_pending nonce e w" "CHR ''|'' \<notin> set nonce" "valid_utf8 (handledID OperationTypeRetry nonce)"
    and "int64 (e + 1)" "mem_object s = Some w" "mem_faults s = []"
  shows "\<exists>w' s'. handleTriggers mem_update now w s = (Inr (True, w'), s') \<and> mem_object s' = Some w'
    \<and> mem_faults s' = [] \<and> same_version_pending nonce (e + 1) w' \<and> Spec w' = Spec w"
proof -
  let ?i = "handledID OperationTypeRetry nonce"
  let ?v = "preparedRetry now w nonce"
  have sp: "splitRequest (mget (Annotations w) upgradeRequestAnnotation) = (nonce, currentVersion w)"
    using assms(1) splitRequest_pair [OF assms(2)] by (simp add: same_version_pending_def)
  have ne: "mget (Annotations w) upgradeRequestAnnotation \<noteq> ''''" using assms(1) by (simp add: same_version_pending_def)
  have p: "preparedTrigger now w = Some ?v"
    using sp ne assms(1) by (simp add: preparedTrigger_def pendingTrigger_def Let_def isHandled_def same_version_pending_def)
  obtain w' s' where u: "mem_update ?v s = (Inr w', s')" using mem_update_ok [OF assms(6,5)] by blast
  then have s': "mem_object s' = Some w'" "mem_faults s' = []"
    using assms(5,6) by (auto simp: mem_update_def mem_write_def)
  have mp: "Annotations w' = Annotations ?v" "Spec w' = Spec ?v"
    using mem.upd_ok [OF u] main_part_simps by blast+
  let ?w1 = "setAnnotation retryEpochAnnotation (FormatInt (e + 1)) w"
  have wr: "wrap64 (retryEpochValue w + 1) = e + 1"
    using assms(1,4) by (simp add: same_version_pending_def wrap64_id)
  have v: "?v = prepareFinish ?w1 retryRequestAnnotation ?i (Some (retryOperation now (Spec w) nonce (e + 1)))"
    by (simp add: preparedRetry_def Let_def wr)
  have spec: "Spec w' = Spec w" by (simp add: mp v prepareFinish_simps)
  have req: "mget (Annotations w') upgradeRequestAnnotation = mget (Annotations w) upgradeRequestAnnotation"
    by (simp add: mp v prepareFinish_simps)
  have ep: "retryEpochValue w' = e + 1"
    using int64_codec.dec_enc [OF assms(4)] by (simp add: retryEpochValue_def mp v prepareFinish_simps)
  have "handledOps w' = handledOps ?v" using mp by (simp add: handledOps_def)
  also have "\<dots> = addHandled (handledOps w) ?i"
    unfolding v using handledOps_prepareFinish [of ?i ?w1] assms(1,3)
    by (simp add: same_version_pending_def handledOps_def [of ?w1] handledOps_def [of w])
  finally have h: "handledOps w' = addHandled (handledOps w) ?i" .
  have "handledID OperationTypeUpgrade nonce \<noteq> ?i" by (simp add: handledID_def op_consts)
  then have "handledID OperationTypeUpgrade nonce \<notin> set (handledOps w')" "list_all valid_utf8 (handledOps w')"
    using h addHandled_subset [of "handledOps w" ?i] addHandled_valid [of "handledOps w" ?i] assms(1,3)
    by (auto simp: same_version_pending_def)
  then have "same_version_pending nonce (e + 1) w'"
    using assms(1) spec req ep by (simp add: same_version_pending_def currentVersion_def)
  then show ?thesis using p u s' spec by (simp add: handleTriggers_prepared bind_simps)
qed

text \<open>
  An upgrade request to the version that is already deployed is never consumed: it is turned
  into a retry that leaves the upgrade annotation in place and unremembered, so even with a server
  that never fails every further reconcile starts yet another retry and reports itself done before
  any status is reconciled. After \<open>n\<close> rounds the retry epoch has grown by \<open>n\<close> and the request
  is still pending.
\<close>

theorem same_version_upgrade_repeats:
  assumes "same_version_pending nonce e w" and "CHR ''|'' \<notin> set nonce"
    and "valid_utf8 (handledID OperationTypeRetry nonce)" and "0 \<le> e" and "e + int n < 2 ^ 63"
  shows "\<exists>w'. mem_object ((trigger_round now ^^ n) (example_server w)) = Some w'
    \<and> same_version_pending nonce (e + int n) w'"
proof -
  have "\<exists>w'. mem_object ((trigger_round now ^^ k) (example_server w)) = Some w'
      \<and> mem_faults ((trigger_round now ^^ k) (example_server w)) = []
      \<and> same_version_pending nonce (e + int k) w'" if "k \<le> n" for k
    using that
  proof (induction k)
    case (Suc k)
    then obtain w1 where w1: "mem_object ((trigger_round now ^^ k) (example_server w)) = Some w1"
      "mem_faults ((trigger_round now ^^ k) (example_server w)) = []" "same_version_pending nonce (e + int k) w1"
      by auto
    have "int64 (e + int k + 1)" using assms(4,5) Suc.prems by (simp add: int64_def)
    from same_version_round [OF w1(3) assms(2,3) this w1(1,2), of now]
    obtain w' s' where "handleTriggers mem_update now w1 ((trigger_round now ^^ k) (example_server w)) = (Inr (True, w'), s')"
      "mem_object s' = Some w'" "mem_faults s' = []" "same_version_pending nonce (e + int (Suc k)) w'"
      by (auto simp: add_ac)
    moreover from this have "(trigger_round now ^^ Suc k) (example_server w) = s'"
      using w1(1) by (simp add: trigger_round_def [of now "(trigger_round now ^^ k) (example_server w)"])
    ultimately show ?case by blast
  qed (use assms(1) in simp)
  then show ?thesis by blast
qed

theorem same_version_upgrade_repeats_witness:
  "\<exists>w'. mem_object ((trigger_round 0 ^^ 100) (example_server
      (setAnnotation upgradeRequestAnnotation ''n1|1.0'' example_workload))) = Some w' \<and> retryEpochValue w' = 100"
proof -
  let ?w = "setAnnotation upgradeRequestAnnotation ''n1|1.0'' example_workload"
  have "same_version_pending ''n1'' 0 ?w"
    by (simp add: same_version_pending_def handledOps_def decodeHandled_def retryEpochValue_def ParseInt_def)
      (simp add: currentVersion_def example_defs)
  from same_version_upgrade_repeats [OF this, of 100 0]
  have "\<exists>w'. mem_object ((trigger_round 0 ^^ 100) (example_server ?w)) = Some w' \<and> same_version_pending ''n1'' (0 + int 100) w'"
    by (simp add: handledID_def op_consts byte_in_def)
  then show ?thesis by (auto simp: same_version_pending_def)
qed

text \<open>
  A rollback is reported as succeeded before anything has been rolled back: its target is the
  version of the last certified source, which the trigger leaves in the status, so as long as that
  snapshot is unchanged the next evaluation finds the operation certified at its target, whatever
  the phase of the components, the clusters and the clock say.
\<close>

theorem rollback_succeeds_at_once:
  assumes "workload_store upd stat stored" and "handleTriggers upd now w s = (Inr (True, w'), s')"
    and "mget (Annotations w) upgradeRequestAnnotation = ''''"
    and "mget (Annotations w) rollbackRequestAnnotation = nonce" and "nonce \<noteq> ''''"
    and "DeployedSource (Status w) = Some ds" and "ds_Version ds \<noteq> currentVersion w"
    and "list_all valid_utf8 [nonce, ds_Version ds, ds_RenderDigest ds]" and "time_ok (now div 1000000000)"
    and "Annotations x = Annotations w'" and "Spec x = Spec w'" and "DeployedSource (Status x) = Some ds"
  shows "\<exists>op. readJournal x = Some op \<and> op_Type op = OperationTypeRollback \<and> op_TargetVersion op = ds_Version ds
    \<and> op_State (decideOperation l now' x op) = OperationStateSucceeded"
proof -
  let ?spec = "setBlueprintVersion (ds_Version ds) (Spec w)"
  let ?op = "versionOperation now ?spec OperationTypeRollback nonce (ds_Version ds) (ds_RenderDigest ds)"
  obtain v where v: "preparedTrigger now w = Some v" "Annotations w' = Annotations v" "Spec w' = Spec v"
    using handled_update [OF assms(1,2)] by metis
  have "v = preparedVersion now w OperationTypeRollback nonce (ds_Version ds) (ds_RenderDigest ds) rollbackRequestAnnotation"
    using v(1) assms(3-7) by (simp add: preparedTrigger_def pendingTrigger_def Let_def split: if_splits)
  then have pf: "v = prepareFinish ((keepSuperseded w)\<lparr>Spec := ?spec\<rparr>) rollbackRequestAnnotation
      (handledID OperationTypeRollback nonce) (Some ?op)"
    by (simp add: preparedVersion_def Let_def)
  have "operation_ok ?op"
    using assms(8,9) by (intro versionOperation_ok) (simp_all add: second_def)
  then have "readJournal v = Some (journal_form ?op)"
    unfolding pf by (rule readJournal_prepareFinish) simp
  moreover have "readJournal x = readJournal v" by (rule readJournal_cong) (simp add: assms(10) v(2))
  moreover have "Spec x = ?spec" using assms(11) v(3) pf by (simp add: prepareFinish_simps)
  ultimately show ?thesis
    using assms(12)
    by (intro exI [of _ "journal_form ?op"])
      (simp add: journal_form_def versionOperation_def decideOperation_def operationOutcome_def certifiedAt_def rollbackDrift_def)
qed

definition example_rollback :: AIWorkload where
  "example_rollback = (setAnnotation rollbackRequestAnnotation ''n2'' example_workload)
     \<lparr>Status := example_status\<lparr>DeployedSource := Some \<lparr>ds_Version = ''0.9'', ds_RenderDigest = ''sha256:00'', ds_CertifiedAt = 0\<rparr>\<rparr>\<rparr>"

theorem rollback_succeeds_at_once_witness:
  "\<exists>w' s' op. handleTriggers mem_update 0 example_rollback (example_server example_rollback) = (Inr (True, w'), s')
     \<and> readJournal w' = Some op \<and> op_Type op = OperationTypeRollback
     \<and> op_State (decideOperation (\<lambda>_. Inr []) 1 w' op) = OperationStateSucceeded"
proof -
  let ?ds = "\<lparr>ds_Version = ''0.9'', ds_RenderDigest = ''sha256:00'', ds_CertifiedAt = 0\<rparr>"
  have ann: "mget (Annotations example_rollback) k = (if k = rollbackRequestAnnotation then ''n2'' else '''')" for k
    by (simp add: example_rollback_def)
  have cv: "currentVersion example_rollback = ''1.0''" "DeployedSource (Status example_rollback) = Some ?ds"
    by (simp_all add: example_rollback_def currentVersion_def setAnnotation_def example_defs)
  have "\<exists>v. preparedTrigger 0 example_rollback = Some v"
    by (simp add: preparedTrigger_def pendingTrigger_def ann Let_def isHandled_def handledOps_def decodeHandled_def)
  then obtain w' s' where h: "handleTriggers mem_update 0 example_rollback (example_server example_rollback) = (Inr (True, w'), s')"
    using mem_triggered by blast
  obtain old where "mem_object (example_server example_rollback) = Some old" "Status w' = Status old"
    using handled_update [OF mem.workload_store_axioms h] by metis
  then have ds: "DeployedSource (Status w') = Some ?ds" using cv by simp
  have t: "time_ok (0 div 1000000000)" by (simp add: time_ok_def year_of.simps ylen_def)
  have "list_all valid_utf8 [''n2'', ds_Version ?ds, ds_RenderDigest ?ds]" by (simp add: byte_in_def)
  from rollback_succeeds_at_once [OF mem.workload_store_axioms h _ _ _ cv(2) _ this t refl refl ds, of "\<lambda>_. Inr []" 1] h
  show ?thesis using cv(1) by (auto simp: ann)
qed

text \<open>
  Pruning the render baselines keeps exactly those of the desired HelmOps, in the order of
  their UIDs, and the epoch of a baseline, its digest and its fingerprint are untouched.
\<close>

theorem prune_baselines:
  "mset (pruneRenderBaselines bs live) = filter_mset (\<lambda>b. live (rb_HelmOpUID b)) (mset bs)
   \<and> sorted (map rb_HelmOpUID (pruneRenderBaselines bs live))"
  by (simp add: pruneRenderBaselines_def)

end
