(* ===== verification/Rollout.thy ===== *)
theory Rollout
  imports Operations
begin

text \<open>
  What the controller reads off the Fleet objects of a blueprint workload:
  \<open>internal/controller/aiworkload/certify.go\<close> (is a Bundle rolled out from the current render,
  did Fleet reject the current attempt) and the parts of \<open>blueprint.go\<close> and
  \<open>aiworkload_controller.go\<close> that turn them into the (component, cluster) matrix, the cluster
  statuses and the phase. A Fleet object is a record of the fields that are read; a field that may
  be absent is an \<open>option\<close>. Reads of the cluster are parameters that may fail.
\<close>

section \<open>Fleet objects\<close>

record Bundle =
  b_Labels :: smap
  b_Generation :: int
  b_ObservedGeneration :: "int option"
  b_Unavailable :: "int option"
  b_Ready :: "int option"
  b_DesiredReady :: "int option"

record BundleDeployment =
  bd_ClusterID :: "string option"
  bd_DeploymentID :: "string option"
  bd_AppliedDeploymentID :: "string option"
  bd_DisplayState :: "string option"
  bd_DisplayMessage :: "string option"

record HelmOp =
  ho_UID :: string
  ho_Generation :: int
  ho_Labels :: smap
  ho_Conditions :: "json list"

definition nested :: "'a \<Rightarrow> 'a option \<Rightarrow> 'a" where
  "nested zero f = (case f of None \<Rightarrow> zero | Some v \<Rightarrow> v)"

record fleet_reader =
  fl_bundle :: "string \<Rightarrow> string \<Rightarrow> err + Bundle"
  fl_deployments :: "string \<Rightarrow> string \<Rightarrow> err + BundleDeployment list"
  fl_helmop :: "string \<Rightarrow> string \<Rightarrow> err + HelmOp"

definition absent_ok :: "err + 'a \<Rightarrow> err + 'a option" where
  "absent_ok r = (case r of Inl e \<Rightarrow> if err_is e = SNotFound then Inr None else Inl e | Inr x \<Rightarrow> Inr (Some x))"

definition getBundle :: "fleet_reader \<Rightarrow> string \<Rightarrow> string \<Rightarrow> err + Bundle option" where
  "getBundle fl ns name = absent_ok (fl_bundle fl ns name)"

definition getHelmOpIn :: "fleet_reader \<Rightarrow> string \<Rightarrow> string \<Rightarrow> err + HelmOp option" where
  "getHelmOpIn fl ns name = absent_ok (fl_helmop fl ns name)"

section \<open>Certification (certify.go)\<close>

definition renderDigestLabel :: string where "renderDigestLabel = ''ai-factory.suse.com/render-digest''"
definition workloadUIDLabel :: string where "workloadUIDLabel = ''ai-factory.suse.com/workload-uid''"

definition bundleRenderCurrent :: "Bundle option \<Rightarrow> string \<Rightarrow> bool" where
  "bundleRenderCurrent b expectedDigest =
     (case b of None \<Rightarrow> False
      | Some b \<Rightarrow> if mget (b_Labels b) renderDigestLabel \<noteq> renderDigestLabelValue expectedDigest then False
                  else nested 0 (b_ObservedGeneration b) = b_Generation b)"

definition bundleCertified :: "Bundle option \<Rightarrow> string \<Rightarrow> int \<Rightarrow> bool" where
  "bundleCertified b expectedDigest expectedClusters =
     (if expectedClusters \<le> 0 \<or> \<not> bundleRenderCurrent b expectedDigest then False
      else case b of None \<Rightarrow> False
           | Some b \<Rightarrow> nested 0 (b_Unavailable b) = 0
                       \<and> nested 0 (b_DesiredReady b) = expectedClusters
                       \<and> nested 0 (b_Ready b) = nested 0 (b_DesiredReady b))"

definition fleetStateToClusterPhase :: "string \<Rightarrow> AIWorkloadClusterPhase" where
  "fleetStateToClusterPhase state =
     (if state = ''Ready'' \<or> state = ''Modified'' then ClusterRunning
      else if state = ''ErrApplied'' then ClusterFailed else ClusterPending)"

definition matrixCellPhase :: "BundleDeployment option \<Rightarrow> bool \<Rightarrow> AIWorkloadClusterPhase" where
  "matrixCellPhase bd parentRenderCurrent =
     (case bd of None \<Rightarrow> ClusterPending
      | Some bd \<Rightarrow>
          if \<not> parentRenderCurrent then ClusterPending
          else if nested '''' (bd_AppliedDeploymentID bd) = ''''
                  \<or> nested '''' (bd_AppliedDeploymentID bd) \<noteq> nested '''' (bd_DeploymentID bd) then ClusterPending
          else let state = nested '''' (bd_DisplayState bd)
               in if state = ''Ready'' \<or> state = ''Modified'' then ClusterRunning
                  else if state = ''ErrApplied'' then ClusterFailed else ClusterPending)"

definition digest_of :: "smap \<Rightarrow> HelmOpKey \<Rightarrow> string" where
  "digest_of expectedDigests k = mget expectedDigests (k_Namespace k @ ''/'' @ k_Name k)"

text \<open>The loop of \<open>certifyDeployedSource\<close>: \<open>None\<close> is its early return on a Bundle not certified.\<close>

fun certify_entries :: "fleet_reader \<Rightarrow> smap \<Rightarrow> HelmOpKey list \<Rightarrow> err + AggregateEntry list option" where
  "certify_entries fl ds [] = Inr (Some [])"
| "certify_entries fl ds (k # ks) =
     (case getBundle fl (k_Namespace k) (k_Name k) of
        Inl e \<Rightarrow> Inl e
      | Inr b \<Rightarrow>
          if \<not> bundleCertified b (digest_of ds k) (int (k_ExpectedClusters k)) then Inr None
          else (case certify_entries fl ds ks of
                  Inl e \<Rightarrow> Inl e
                | Inr None \<Rightarrow> Inr None
                | Inr (Some es) \<Rightarrow>
                    Inr (Some (\<lparr>ae_Namespace = k_Namespace k, ae_Name = k_Name k, ae_Digest = digest_of ds k\<rparr> # es))))"

definition certifyDeployedSource ::
  "fleet_reader \<Rightarrow> nat \<Rightarrow> AIWorkload \<Rightarrow> HelmOpKey list \<Rightarrow> smap \<Rightarrow> err + AIWorkload" where
  "certifyDeployedSource fl now w keys expectedDigests =
     (if keys = [] then Inr w
      else case certify_entries fl expectedDigests keys of
             Inl e \<Rightarrow> Inl e
           | Inr None \<Rightarrow> Inr w
           | Inr (Some entries) \<Rightarrow>
               let agg = aggregateRenderDigest entries; version = currentVersion w;
                   snap = \<lparr>ds_Version = version, ds_RenderDigest = agg, ds_CertifiedAt = now\<rparr>
               in case DeployedSource (Status w) of
                    Some ds \<Rightarrow> if ds_Version ds = version \<and> ds_RenderDigest ds = agg then Inr w
                               else Inr (w\<lparr>Status := (Status w)\<lparr>DeployedSource := Some snap\<rparr>\<rparr>)
                  | None \<Rightarrow> Inr (w\<lparr>Status := (Status w)\<lparr>DeployedSource := Some snap\<rparr>\<rparr>))"

section \<open>Rejected attempts (certify.go)\<close>

definition field_of :: "jmap \<Rightarrow> string \<Rightarrow> json" where
  "field_of m k = (case obj_get m k of None \<Rightarrow> JNull | Some j \<Rightarrow> j)"

fun accepted_condition :: "json list \<Rightarrow> jmap option" where
  "accepted_condition [] = None"
| "accepted_condition (c # cs) =
     (case c of JObj m \<Rightarrow> if obj_get m ''type'' = Some (JStr ''Accepted'') then Some m else accepted_condition cs
      | _ \<Rightarrow> accepted_condition cs)"

definition acceptedConditionFingerprint :: "HelmOp option \<Rightarrow> string" where
  "acceptedConditionFingerprint ho =
     (case ho of None \<Rightarrow> ''''
      | Some ho \<Rightarrow> (case accepted_condition (ho_Conditions ho) of
            None \<Rightarrow> ''''
          | Some m \<Rightarrow> sha256Hex (marshal (JArr [field_of m ''status'', field_of m ''reason'',
                                                field_of m ''message'', field_of m ''lastUpdateTime'']))))"

definition acceptedConditionIsFalse :: "HelmOp \<Rightarrow> bool" where
  "acceptedConditionIsFalse ho =
     (case accepted_condition (ho_Conditions ho) of
        None \<Rightarrow> False | Some m \<Rightarrow> obj_get m ''status'' = Some (JStr ''False''))"

definition acceptedFalseTerminal :: "HelmOp option \<Rightarrow> RenderBaseline option \<Rightarrow> string \<Rightarrow> int \<Rightarrow> int \<Rightarrow> bool" where
  "acceptedFalseTerminal ho baseline curDigest curEpoch curGeneration =
     (case (ho, baseline) of
        (Some h, Some b) \<Rightarrow>
          if rb_HelmOpUID b \<noteq> ho_UID h \<or> rb_RenderDigest b \<noteq> curDigest \<or> rb_RetryEpoch b \<noteq> curEpoch
             \<or> rb_HelmOpGeneration b \<noteq> curGeneration then False
          else if acceptedConditionFingerprint (Some h) = rb_AcceptedFingerprint b then False
          else acceptedConditionIsFalse h
      | _ \<Rightarrow> False)"

fun upsertRenderBaseline :: "RenderBaseline list \<Rightarrow> RenderBaseline \<Rightarrow> RenderBaseline list" where
  "upsertRenderBaseline [] entry = [entry]"
| "upsertRenderBaseline (b # bs) entry =
     (if rb_HelmOpUID b = rb_HelmOpUID entry
      then (if rb_RenderDigest b \<noteq> rb_RenderDigest entry \<or> rb_RetryEpoch b \<noteq> rb_RetryEpoch entry
               \<or> rb_HelmOpGeneration b \<noteq> rb_HelmOpGeneration entry
            then entry # bs else b # bs)
      else b # upsertRenderBaseline bs entry)"

definition baselineFor :: "RenderBaseline list \<Rightarrow> string \<Rightarrow> RenderBaseline option" where
  "baselineFor bs uid = find (\<lambda>b. rb_HelmOpUID b = uid) bs"

section \<open>The component matrix (blueprint.go)\<close>

definition truncateMessage :: "string \<Rightarrow> string" where
  "truncateMessage s = (if length s > 1024 then take 1024 s else s)"

text \<open>The cells of the BundleDeployments that exist.\<close>

definition seen_cell :: "HelmOpKey \<Rightarrow> bool \<Rightarrow> BundleDeployment \<Rightarrow> AIWorkloadComponentStatus" where
  "seen_cell k current bd =
     (let phase = matrixCellPhase (Some bd) current
      in \<lparr>cell_ComponentName = k_ComponentChartName k, cell_ReleaseName = k_ReleaseName k,
          cell_ClusterID = nested '''' (bd_ClusterID bd), cell_Phase = phase,
          cell_Revision = nested '''' (bd_AppliedDeploymentID bd), cell_InstalledVersion = '''',
          cell_Message = truncateMessage (if phase = ClusterFailed then nested '''' (bd_DisplayMessage bd) else '''')\<rparr>)"

definition expectedIDs :: "AIWorkload \<Rightarrow> HelmOpKey \<Rightarrow> string list" where
  "expectedIDs w k =
     (if k_Namespace k = ''fleet-local'' then (if ''local'' \<in> set (TargetClusters (Spec w)) then [''local''] else [])
      else if k_Namespace k = ''fleet-default'' then filter (\<lambda>i. i \<noteq> ''local'') (TargetClusters (Spec w))
      else [])"

text \<open>The phase of a cell whose BundleDeployment does not exist yet.\<close>

definition missing_phase :: "fleet_reader \<Rightarrow> AIWorkload \<Rightarrow> HelmOpKey \<Rightarrow> string \<Rightarrow> Bundle option \<Rightarrow> err + AIWorkloadClusterPhase" where
  "missing_phase fl w k digest b =
     (if b \<noteq> None then Inr ClusterPending
      else case getHelmOpIn fl (k_Namespace k) (k_Name k) of
             Inl e \<Rightarrow> Inl e
           | Inr None \<Rightarrow> Inr ClusterPending
           | Inr (Some ho) \<Rightarrow>
               if acceptedFalseTerminal (Some ho) (baselineFor (RenderBaselines (Status w)) (ho_UID ho))
                    digest (retryEpochValue w) (ho_Generation ho)
               then Inr ClusterFailed else Inr ClusterPending)"

definition missing_cell :: "HelmOpKey \<Rightarrow> string \<Rightarrow> AIWorkloadClusterPhase \<Rightarrow> AIWorkloadComponentStatus" where
  "missing_cell k i phase =
     \<lparr>cell_ComponentName = k_ComponentChartName k, cell_ReleaseName = k_ReleaseName k, cell_ClusterID = i,
      cell_Phase = phase, cell_Revision = '''', cell_InstalledVersion = '''', cell_Message = ''''\<rparr>"

definition bd_cluster :: "BundleDeployment \<Rightarrow> string" where
  "bd_cluster bd = nested '''' (bd_ClusterID bd)"

definition live :: "BundleDeployment list \<Rightarrow> BundleDeployment list" where
  "live bds = filter (\<lambda>bd. bd_cluster bd \<noteq> '''') bds"

definition missing_ids :: "AIWorkload \<Rightarrow> HelmOpKey \<Rightarrow> BundleDeployment list \<Rightarrow> string list" where
  "missing_ids w k bds = filter (\<lambda>i. i \<notin> set (map bd_cluster (live bds))) (expectedIDs w k)"

definition missing_cells ::
  "fleet_reader \<Rightarrow> AIWorkload \<Rightarrow> HelmOpKey \<Rightarrow> string \<Rightarrow> Bundle option \<Rightarrow> string list \<Rightarrow> err + AIWorkloadComponentStatus list" where
  "missing_cells fl w k digest b ids =
     ecollect (\<lambda>i. case missing_phase fl w k digest b of Inl e \<Rightarrow> Inl e | Inr p \<Rightarrow> Inr [missing_cell k i p]) ids"

definition key_cells :: "fleet_reader \<Rightarrow> AIWorkload \<Rightarrow> smap \<Rightarrow> HelmOpKey \<Rightarrow> err + AIWorkloadComponentStatus list" where
  "key_cells fl w expectedDigests k =
     (case getBundle fl (k_Namespace k) (k_Name k) of
        Inl e \<Rightarrow> Inl e
      | Inr b \<Rightarrow>
          let digest = digest_of expectedDigests k; current = bundleRenderCurrent b digest
          in case fl_deployments fl (k_Name k) (k_Namespace k) of
               Inl e \<Rightarrow> Inl e
             | Inr bds \<Rightarrow>
                 (case missing_cells fl w k digest b (missing_ids w k bds) of
                    Inl e \<Rightarrow> Inl e
                  | Inr ms \<Rightarrow> Inr (map (seen_cell k current) (live bds) @ ms)))"

definition cell_key :: "AIWorkloadComponentStatus \<Rightarrow> string \<times> string" where
  "cell_key c = (cell_ComponentName c, cell_ClusterID c)"

definition buildComponentMatrix ::
  "fleet_reader \<Rightarrow> AIWorkload \<Rightarrow> HelmOpKey list \<Rightarrow> smap \<Rightarrow> err + AIWorkloadComponentStatus list" where
  "buildComponentMatrix fl w keys expectedDigests =
     (case ecollect (key_cells fl w expectedDigests) keys of
        Inl e \<Rightarrow> Inl e | Inr cells \<Rightarrow> Inr (sort_key cell_key cells))"

section \<open>Phases (blueprint.go, aiworkload_controller.go)\<close>

text \<open>\<open>derivePhase\<close> counts the clusters by phase and then decides.\<close>

fun count_phases :: "AIWorkloadClusterStatus list \<Rightarrow> nat \<times> nat \<times> nat \<Rightarrow> nat \<times> nat \<times> nat" where
  "count_phases [] acc = acc"
| "count_phases (s # ss) (running, pending, failed) =
     count_phases ss (case cs_Phase s of
        ClusterRunning \<Rightarrow> (running + 1, pending, failed)
      | ClusterFailed \<Rightarrow> (running, pending, failed + 1)
      | ClusterPending \<Rightarrow> (running, pending + 1, failed))"

definition derivePhase :: "AIWorkloadClusterStatus list \<Rightarrow> AIWorkloadPhase" where
  "derivePhase statuses =
     (if statuses = [] then PhasePending
      else case count_phases statuses (0, 0, 0) of (running, pending, failed) \<Rightarrow>
        if failed = 0 \<and> pending = 0 then PhaseRunning
        else if failed = 0 \<and> running = 0 then PhasePending
        else if running = 0 \<and> pending = 0 then PhaseFailed
        else PhaseDegraded)"

definition initialDeployGracePeriod :: int where "initialDeployGracePeriod = 5 * 60 * int second"

definition guardPhaseTransition :: "nat \<Rightarrow> AIWorkloadPhase \<Rightarrow> AIWorkloadPhase \<Rightarrow> nat \<Rightarrow> AIWorkloadPhase" where
  "guardPhaseTransition now derived current createdAt =
     (if derived = PhaseFailed \<and> current \<noteq> PhaseRunning \<and> current \<noteq> PhaseDegraded \<and> current \<noteq> PhaseFailed
         \<and> since now (Some createdAt) < initialDeployGracePeriod
      then PhasePending else derived)"

definition phaseFromCells :: "AIWorkloadComponentStatus list \<Rightarrow> AIWorkloadPhase" where
  "phaseFromCells cells =
     derivePhase (map (\<lambda>c. \<lparr>cs_ClusterID = cell_ClusterID c, cs_Phase = cell_Phase c, cs_Message = ''''\<rparr>) cells)"

fun phase_rank :: "AIWorkloadClusterPhase \<Rightarrow> nat" where
  "phase_rank ClusterFailed = 2"
| "phase_rank ClusterPending = 1"
| "phase_rank ClusterRunning = 0"

definition worstClusterPhase :: "AIWorkloadClusterPhase \<Rightarrow> AIWorkloadClusterPhase \<Rightarrow> AIWorkloadClusterPhase" where
  "worstClusterPhase a b = (if phase_rank a \<ge> phase_rank b then a else b)"

text \<open>The two maps of \<open>aggregateClusterStatuses\<close>: phase and message by cluster.\<close>

type_synonym cluster_maps = "(string \<Rightarrow> AIWorkloadClusterPhase option) \<times> smap"

definition add_cell :: "AIWorkloadComponentStatus \<Rightarrow> cluster_maps \<Rightarrow> cluster_maps" where
  "add_cell c = (\<lambda>(phases, messages).
     case phases (cell_ClusterID c) of
       None \<Rightarrow> (phases(cell_ClusterID c \<mapsto> cell_Phase c),
                if cell_Phase c = ClusterFailed then messages(cell_ClusterID c \<mapsto> cell_Message c) else messages)
     | Some existing \<Rightarrow>
         let worst = worstClusterPhase existing (cell_Phase c)
         in (phases(cell_ClusterID c \<mapsto> worst),
             if worst = ClusterFailed \<and> cell_Message c \<noteq> '''' then messages(cell_ClusterID c \<mapsto> cell_Message c) else messages))"

definition aggregateClusterStatuses :: "AIWorkloadComponentStatus list \<Rightarrow> AIWorkloadClusterStatus list" where
  "aggregateClusterStatuses cells =
     (let (phases, messages) = fold add_cell cells (Map.empty, Map.empty)
      in map (\<lambda>i. \<lparr>cs_ClusterID = i, cs_Phase = the (phases i), cs_Message = mget messages i\<rparr>)
           (sort (remdups (map cell_ClusterID cells))))"

section \<open>What certification means\<close>

definition rolled_out :: "Bundle \<Rightarrow> string \<Rightarrow> nat \<Rightarrow> bool" where
  "rolled_out b digest n \<longleftrightarrow>
     mget (b_Labels b) renderDigestLabel = renderDigestLabelValue digest
     \<and> nested 0 (b_ObservedGeneration b) = b_Generation b
     \<and> nested 0 (b_Unavailable b) = 0 \<and> nested 0 (b_DesiredReady b) = int n
     \<and> nested 0 (b_Ready b) = int n \<and> 0 < n"

lemma bundleCertified_rolled_out:
  "bundleCertified b digest (int n) \<longleftrightarrow> (\<exists>b'. b = Some b' \<and> rolled_out b' digest n)"
  by (cases b) (auto simp: bundleCertified_def bundleRenderCurrent_def rolled_out_def)

definition entry_of :: "smap \<Rightarrow> HelmOpKey \<Rightarrow> AggregateEntry" where
  "entry_of ds k = \<lparr>ae_Namespace = k_Namespace k, ae_Name = k_Name k, ae_Digest = digest_of ds k\<rparr>"

lemma certify_entries_Some:
  "certify_entries fl ds ks = Inr (Some es) \<longleftrightarrow>
     es = map (entry_of ds) ks \<and>
     (\<forall>k \<in> set ks. \<exists>b. fl_bundle fl (k_Namespace k) (k_Name k) = Inr b \<and> rolled_out b (digest_of ds k) (k_ExpectedClusters k))"
proof (induction ks arbitrary: es)
  case (Cons k ks)
  show ?case
  proof (cases "fl_bundle fl (k_Namespace k) (k_Name k)")
    case (Inl e)
    then show ?thesis by (simp add: getBundle_def absent_ok_def bundleCertified_rolled_out)
  next
    case (Inr b)
    then show ?thesis
    proof (cases "rolled_out b (digest_of ds k) (k_ExpectedClusters k)")
      case True
      then show ?thesis using Inr Cons.IH
        by (cases "certify_entries fl ds ks")
          (auto simp: getBundle_def absent_ok_def bundleCertified_rolled_out entry_of_def split: option.split)
    next
      case False
      then show ?thesis using Inr by (simp add: getBundle_def absent_ok_def bundleCertified_rolled_out)
    qed
  qed
qed auto

definition all_rolled_out :: "fleet_reader \<Rightarrow> smap \<Rightarrow> HelmOpKey list \<Rightarrow> bool" where
  "all_rolled_out fl ds keys \<longleftrightarrow>
     (\<forall>k \<in> set keys. \<exists>b. fl_bundle fl (k_Namespace k) (k_Name k) = Inr b \<and> rolled_out b (digest_of ds k) (k_ExpectedClusters k))"

definition certified_as :: "AIWorkload \<Rightarrow> string \<Rightarrow> bool" where
  "certified_as w digest \<longleftrightarrow>
     (\<exists>d. DeployedSource (Status w) = Some d \<and> ds_Version d = currentVersion w \<and> ds_RenderDigest d = digest)"

definition certify_new :: "nat \<Rightarrow> AIWorkload \<Rightarrow> string \<Rightarrow> AIWorkload" where
  "certify_new now w digest = w\<lparr>Status := (Status w)\<lparr>DeployedSource :=
     Some \<lparr>ds_Version = currentVersion w, ds_RenderDigest = digest, ds_CertifiedAt = now\<rparr>\<rparr>\<rparr>"

lemma certify_new_certified: "certified_as (certify_new now w d) d" "currentVersion (certify_new now w d) = currentVersion w"
  by (simp_all add: certified_as_def certify_new_def currentVersion_def)

lemma certify_entries_ok:
  "all_rolled_out fl ds keys \<Longrightarrow> certify_entries fl ds keys = Inr (Some (map (entry_of ds) keys))"
  by (simp add: certify_entries_Some all_rolled_out_def)

lemma certify_not_all:
  "\<not> all_rolled_out fl ds keys \<Longrightarrow> certify_entries fl ds keys \<noteq> Inr (Some es)"
  using certify_entries_Some [of fl ds keys es] by (auto simp: all_rolled_out_def)

lemma certifyDeployedSource_cases:
  "certifyDeployedSource fl now w keys ds =
     (if keys = [] then Inr w
      else if all_rolled_out fl ds keys then
        Inr (if certified_as w (aggregateRenderDigest (map (entry_of ds) keys)) then w
             else certify_new now w (aggregateRenderDigest (map (entry_of ds) keys)))
      else case certify_entries fl ds keys of Inl e \<Rightarrow> Inl e | Inr _ \<Rightarrow> Inr w)"
proof (cases "all_rolled_out fl ds keys")
  case True
  then show ?thesis
    by (cases "DeployedSource (Status w)")
      (simp_all add: certifyDeployedSource_def certify_entries_ok certified_as_def certify_new_def Let_def)
next
  case False
  then show ?thesis
  proof (cases "certify_entries fl ds keys")
    case (Inr x)
    then have "x = None" using certify_not_all [OF False] by (cases x) auto
    then show ?thesis using Inr False by (simp add: certifyDeployedSource_def)
  qed (simp add: certifyDeployedSource_def)
qed

text \<open>
  C5. The deployed source is certified only from the current render, and all of it: when
  certification does not fail, the snapshot changes exactly when there is at least one desired
  HelmOp and every one of them has a Bundle that carries the digest label of the current render, has
  been processed by Fleet, has nothing unavailable and is ready on exactly the expected, nonzero
  number of clusters, and the recorded version or digest differs. It then records the version of the
  spec and the aggregate of exactly the per-HelmOp digests; nothing else of the workload changes,
  and certifying again later keeps the time of the first certification.
\<close>

theorem certified_iff_rolled_out:
  assumes "certifyDeployedSource fl now w keys ds = Inr w'"
  shows "w' = (if keys \<noteq> [] \<and> all_rolled_out fl ds keys
                  \<and> \<not> certified_as w (aggregateRenderDigest (map (entry_of ds) keys))
               then certify_new now w (aggregateRenderDigest (map (entry_of ds) keys)) else w)
    \<and> certifyDeployedSource fl later w' keys ds = Inr w'"
proof -
  have w': "w' = (if keys \<noteq> [] \<and> all_rolled_out fl ds keys
                  \<and> \<not> certified_as w (aggregateRenderDigest (map (entry_of ds) keys))
               then certify_new now w (aggregateRenderDigest (map (entry_of ds) keys)) else w)"
    using assms by (auto simp: certifyDeployedSource_cases split: if_splits sum.splits)
  moreover have "certifyDeployedSource fl later w' keys ds = Inr w'"
  proof (cases "keys \<noteq> [] \<and> all_rolled_out fl ds keys")
    case True
    then have "certified_as w' (aggregateRenderDigest (map (entry_of ds) keys))"
      using w' certify_new_certified by auto
    then show ?thesis using True by (simp add: certifyDeployedSource_cases)
  next
    case False
    then have "w' = w" using w' by auto
    then show ?thesis using assms False by (auto simp: certifyDeployedSource_cases)
  qed
  ultimately show ?thesis ..
qed

definition example_key :: HelmOpKey where
  "example_key = \<lparr>k_Namespace = ''fleet-local'', k_Name = ''demo-rag'', k_ComponentChartName = ''rag'',
     k_ReleaseName = ''rag'', k_ExpectedClusters = 1\<rparr>"

definition example_bundle :: Bundle where
  "example_bundle = \<lparr>b_Labels = [renderDigestLabel \<mapsto> ''abc''], b_Generation = 3, b_ObservedGeneration = Some 3,
     b_Unavailable = None, b_Ready = Some 1, b_DesiredReady = Some 1\<rparr>"

definition example_fleet :: fleet_reader where
  "example_fleet = \<lparr>fl_bundle = \<lambda>_ _. Inr example_bundle, fl_deployments = \<lambda>_ _. Inr [],
     fl_helmop = \<lambda>_ _. Inl (Err SNotFound ''not found'')\<rparr>"

definition example_digests :: smap where
  "example_digests = [''fleet-local/demo-rag'' \<mapsto> ''sha256:abc'']"

theorem certified_iff_rolled_out_witness:
  "\<exists>w'. certifyDeployedSource example_fleet 7 example_workload [example_key] example_digests = Inr w'
     \<and> DeployedSource (Status w') \<noteq> None"
proof -
  have ro: "all_rolled_out example_fleet example_digests [example_key]"
    by (simp add: all_rolled_out_def example_fleet_def example_key_def rolled_out_def example_bundle_def digest_of_def
        example_digests_def nested_def renderDigestLabelValue_def trim_prefix_def has_prefix_def)
  have nc: "\<not> certified_as example_workload d" for d by (simp add: certified_as_def example_defs)
  obtain w' where w': "certifyDeployedSource example_fleet 7 example_workload [example_key] example_digests = Inr w'"
    using ro by (simp add: certifyDeployedSource_cases)
  from certified_iff_rolled_out [OF this] ro nc show ?thesis
    using w' by (simp add: certify_new_def)
qed

section \<open>What the phases mean\<close>

abbreviation in_phase :: "AIWorkloadClusterPhase \<Rightarrow> AIWorkloadClusterStatus list \<Rightarrow> AIWorkloadClusterStatus list" where
  "in_phase p ss \<equiv> filter (\<lambda>s. cs_Phase s = p) ss"

lemma count_phases_length:
  "count_phases ss (r, p, f) =
     (r + length (in_phase ClusterRunning ss), p + length (in_phase ClusterPending ss), f + length (in_phase ClusterFailed ss))"
  by (induction ss arbitrary: r p f) (auto split: AIWorkloadClusterPhase.split)

lemma no_phase: "length (in_phase p ss) = 0 \<longleftrightarrow> list_all (\<lambda>s. cs_Phase s \<noteq> p) ss"
  by (auto simp: filter_empty_conv list_all_iff)

lemma not_phase: "cs_Phase s \<noteq> ClusterPending \<and> cs_Phase s \<noteq> ClusterFailed \<longleftrightarrow> cs_Phase s = ClusterRunning"
  "cs_Phase s \<noteq> ClusterRunning \<and> cs_Phase s \<noteq> ClusterFailed \<longleftrightarrow> cs_Phase s = ClusterPending"
  "cs_Phase s \<noteq> ClusterRunning \<and> cs_Phase s \<noteq> ClusterPending \<longleftrightarrow> cs_Phase s = ClusterFailed"
  by (cases "cs_Phase s"; simp)+

lemma derivePhase_all:
  "derivePhase ss =
     (if ss = [] then PhasePending
      else if list_all (\<lambda>s. cs_Phase s = ClusterRunning) ss then PhaseRunning
      else if list_all (\<lambda>s. cs_Phase s = ClusterPending) ss then PhasePending
      else if list_all (\<lambda>s. cs_Phase s = ClusterFailed) ss then PhaseFailed
      else PhaseDegraded)"
proof -
  have "length (in_phase ClusterFailed ss) = 0 \<and> length (in_phase ClusterPending ss) = 0
      \<longleftrightarrow> list_all (\<lambda>s. cs_Phase s = ClusterRunning) ss"
    unfolding no_phase list_all_iff using not_phase(1) by blast
  moreover have "length (in_phase ClusterFailed ss) = 0 \<and> length (in_phase ClusterRunning ss) = 0
      \<longleftrightarrow> list_all (\<lambda>s. cs_Phase s = ClusterPending) ss"
    unfolding no_phase list_all_iff using not_phase(2) by blast
  moreover have "length (in_phase ClusterRunning ss) = 0 \<and> length (in_phase ClusterPending ss) = 0
      \<longleftrightarrow> list_all (\<lambda>s. cs_Phase s = ClusterFailed) ss"
    unfolding no_phase list_all_iff using not_phase(3) by blast
  ultimately show ?thesis
    by (simp only: derivePhase_def count_phases_length prod.case add_0)
qed

lemma guard_cases:
  "guardPhaseTransition now d current created = PhaseRunning \<longleftrightarrow> d = PhaseRunning"
  "guardPhaseTransition now d current created = PhaseDegraded \<longleftrightarrow> d = PhaseDegraded"
  "guardPhaseTransition now d current created = PhaseFailed \<longleftrightarrow>
     d = PhaseFailed \<and> (current \<in> {PhaseRunning, PhaseDegraded, PhaseFailed} \<or> 5 * 60 * 1000000000 \<le> since now (Some created))"
  by (auto simp: guardPhaseTransition_def initialDeployGracePeriod_def second_def)

lemma guard_range:
  "d \<in> {PhaseRunning, PhaseFailed, PhaseDegraded, PhasePending} \<Longrightarrow>
   guardPhaseTransition now d current created \<in> {PhaseRunning, PhaseFailed, PhaseDegraded, PhasePending}"
  by (auto simp: guardPhaseTransition_def)

text \<open>
  The phase of a workload: running exactly when it has clusters and all are running, failed
  exactly when all its clusters have failed and it had left the pending phases before or the
  five-minute grace period since its creation is over, degraded exactly when its clusters differ,
  and pending in every other case; no other phase is derived.
\<close>

theorem workload_phase:
  "(guardPhaseTransition now (derivePhase ss) current created = PhaseRunning \<longleftrightarrow>
      ss \<noteq> [] \<and> list_all (\<lambda>s. cs_Phase s = ClusterRunning) ss)
   \<and> (guardPhaseTransition now (derivePhase ss) current created = PhaseFailed \<longleftrightarrow>
      ss \<noteq> [] \<and> list_all (\<lambda>s. cs_Phase s = ClusterFailed) ss
      \<and> (current \<in> {PhaseRunning, PhaseDegraded, PhaseFailed} \<or> 5 * 60 * 1000000000 \<le> since now (Some created)))
   \<and> (guardPhaseTransition now (derivePhase ss) current created = PhaseDegraded \<longleftrightarrow>
      (\<exists>s t. s \<in> set ss \<and> t \<in> set ss \<and> cs_Phase s \<noteq> cs_Phase t))
   \<and> guardPhaseTransition now (derivePhase ss) current created \<in> {PhaseRunning, PhaseFailed, PhaseDegraded, PhasePending}"
proof -
  have deg: "derivePhase ss = PhaseDegraded \<longleftrightarrow> (\<exists>s t. s \<in> set ss \<and> t \<in> set ss \<and> cs_Phase s \<noteq> cs_Phase t)"
  proof
    assume "derivePhase ss = PhaseDegraded"
    then have ne: "ss \<noteq> []" "\<And>p. \<not> list_all (\<lambda>s. cs_Phase s = p) ss"
      by (auto simp: derivePhase_all split: if_splits) (metis AIWorkloadClusterPhase.exhaust)
    then have "\<not> list_all (\<lambda>s. cs_Phase s = cs_Phase (hd ss)) ss" by blast
    then show "\<exists>s t. s \<in> set ss \<and> t \<in> set ss \<and> cs_Phase s \<noteq> cs_Phase t"
      using ne(1) hd_in_set by (auto simp: list_all_iff)
  next
    assume "\<exists>s t. s \<in> set ss \<and> t \<in> set ss \<and> cs_Phase s \<noteq> cs_Phase t"
    then have "\<not> list_all (\<lambda>s. cs_Phase s = p) ss" "ss \<noteq> []" for p
      unfolding list_all_iff by (metis, fastforce)
    then show "derivePhase ss = PhaseDegraded" by (simp add: derivePhase_all)
  qed
  have run: "derivePhase ss = PhaseRunning \<longleftrightarrow> ss \<noteq> [] \<and> list_all (\<lambda>s. cs_Phase s = ClusterRunning) ss"
    by (auto simp: derivePhase_all)
  have fail: "derivePhase ss = PhaseFailed \<longleftrightarrow> ss \<noteq> [] \<and> list_all (\<lambda>s. cs_Phase s = ClusterFailed) ss"
    by (cases ss) (auto simp: derivePhase_all)
  have rng: "derivePhase ss \<in> {PhaseRunning, PhaseFailed, PhaseDegraded, PhasePending}"
    by (simp add: derivePhase_all)
  show ?thesis
    unfolding guard_cases run fail deg conj_assoc by (intro conjI refl guard_range rng)
qed

lemma worst_rank: "phase_rank (worstClusterPhase a b) = max (phase_rank a) (phase_rank b)"
  by (simp add: worstClusterPhase_def)

lemma phase_rank_inj: "phase_rank a = phase_rank b \<Longrightarrow> a = b"
  by (cases a; cases b) auto

definition cell_rank :: "AIWorkloadComponentStatus list \<Rightarrow> string \<Rightarrow> nat" where
  "cell_rank cells i = fold max (map (\<lambda>c. phase_rank (cell_Phase c)) (filter (\<lambda>c. cell_ClusterID c = i) cells)) 0"

lemma fold_max_start: "fold max xs (n::nat) = max n (fold max xs 0)"
proof (induction xs arbitrary: n)
  case (Cons x xs)
  have "fold max (x # xs) n = max (max x n) (fold max xs 0)" using Cons.IH [of "max x n"] by (simp only: fold_simps)
  moreover have "fold max (x # xs) 0 = max x (fold max xs 0)" using Cons.IH [of x] by (simp only: fold_simps max_0R)
  ultimately show ?case by (simp only: max.assoc max.left_commute)
qed simp

lemma fold_add_cell:
  "map_option phase_rank (fst (fold add_cell cells acc) i) =
     (case fst acc i of
        None \<Rightarrow> if \<exists>c \<in> set cells. cell_ClusterID c = i then Some (cell_rank cells i) else None
      | Some p \<Rightarrow> Some (max (phase_rank p) (cell_rank cells i)))"
proof (induction cells arbitrary: acc)
  case Nil
  then show ?case by (simp add: cell_rank_def split: option.split)
next
  case (Cons c cells)
  have step: "fst (add_cell c acc) i =
      (if cell_ClusterID c = i
       then Some (case fst acc i of None \<Rightarrow> cell_Phase c | Some e \<Rightarrow> worstClusterPhase e (cell_Phase c))
       else fst acc i)"
    by (auto simp: add_cell_def Let_def split: prod.split option.split)
  have rank: "cell_rank (c # cells) i =
      (if cell_ClusterID c = i then max (phase_rank (cell_Phase c)) (cell_rank cells i) else cell_rank cells i)"
    using fold_max_start [of _ "phase_rank (cell_Phase c)"] by (simp add: cell_rank_def)
  have "map_option phase_rank (fst (fold add_cell (c # cells) acc) i) =
      map_option phase_rank (fst (fold add_cell cells (add_cell c acc)) i)" by simp
  also have "\<dots> = (case fst (add_cell c acc) i of
        None \<Rightarrow> if \<exists>c \<in> set cells. cell_ClusterID c = i then Some (cell_rank cells i) else None
      | Some p \<Rightarrow> Some (max (phase_rank p) (cell_rank cells i)))" by (rule Cons.IH)
  finally show ?case
    unfolding step rank by (cases "fst acc i") (simp_all add: worst_rank max.assoc)
qed

lemma fold_max_iff: "n \<le> fold max xs (0::nat) \<longleftrightarrow> n = 0 \<or> (\<exists>x \<in> set xs. n \<le> x)"
proof (induction xs)
  case (Cons x xs)
  have eq: "fold max (x # xs) 0 = max x (fold max xs 0)" using fold_max_start [of xs x] by simp
  show ?case unfolding eq le_max_iff_disj Cons.IH by auto
qed simp

text \<open>
  The cluster statuses of a blueprint workload are one per cluster of its matrix, in order of
  the cluster's name, each with the worst phase among the cluster's cells: failed if any component
  failed there, else pending if any is pending, else running.
\<close>

theorem cluster_statuses_are_worst:
  "map cs_ClusterID (aggregateClusterStatuses cells) = sort (remdups (map cell_ClusterID cells))
   \<and> list_all (\<lambda>s.
        (cs_Phase s = ClusterFailed \<longleftrightarrow> list_ex (\<lambda>c. cell_ClusterID c = cs_ClusterID s \<and> cell_Phase c = ClusterFailed) cells)
      \<and> (cs_Phase s \<noteq> ClusterRunning \<longleftrightarrow> list_ex (\<lambda>c. cell_ClusterID c = cs_ClusterID s \<and> cell_Phase c \<noteq> ClusterRunning) cells))
      (aggregateClusterStatuses cells)"
proof
  show "map cs_ClusterID (aggregateClusterStatuses cells) = sort (remdups (map cell_ClusterID cells))"
    by (simp add: aggregateClusterStatuses_def comp_def split: prod.split)
  let ?ph = "fst (fold add_cell cells (Map.empty, Map.empty))"
  have "(the (?ph i) = ClusterFailed \<longleftrightarrow> list_ex (\<lambda>c. cell_ClusterID c = i \<and> cell_Phase c = ClusterFailed) cells)
      \<and> (the (?ph i) \<noteq> ClusterRunning \<longleftrightarrow> list_ex (\<lambda>c. cell_ClusterID c = i \<and> cell_Phase c \<noteq> ClusterRunning) cells)"
    if "i \<in> set (map cell_ClusterID cells)" for i
  proof -
    have "map_option phase_rank (?ph i) = Some (cell_rank cells i)"
      using that fold_add_cell [of cells "(Map.empty, Map.empty)" i] by auto
    then obtain p where p: "?ph i = Some p" "phase_rank p = cell_rank cells i" by auto
    have r: "n \<le> cell_rank cells i \<longleftrightarrow> n = 0 \<or> (\<exists>c \<in> set cells. cell_ClusterID c = i \<and> n \<le> phase_rank (cell_Phase c))" for n
      unfolding cell_rank_def fold_max_iff by auto
    have two: "2 \<le> phase_rank q \<longleftrightarrow> q = ClusterFailed" "1 \<le> phase_rank q \<longleftrightarrow> q \<noteq> ClusterRunning" for q
      by (cases q; simp)+
    have "p = ClusterFailed \<longleftrightarrow> (\<exists>c \<in> set cells. cell_ClusterID c = i \<and> cell_Phase c = ClusterFailed)"
      using r [of 2] p(2) two(1) by (metis zero_neq_numeral)
    moreover have "p \<noteq> ClusterRunning \<longleftrightarrow> (\<exists>c \<in> set cells. cell_ClusterID c = i \<and> cell_Phase c \<noteq> ClusterRunning)"
      using r [of 1] p(2) two(2) by (metis zero_neq_one)
    ultimately show ?thesis using p(1) by (auto simp: list_ex_iff list_all_iff)
  qed
  then show "list_all (\<lambda>s.
        (cs_Phase s = ClusterFailed \<longleftrightarrow> list_ex (\<lambda>c. cell_ClusterID c = cs_ClusterID s \<and> cell_Phase c = ClusterFailed) cells)
      \<and> (cs_Phase s \<noteq> ClusterRunning \<longleftrightarrow> list_ex (\<lambda>c. cell_ClusterID c = cs_ClusterID s \<and> cell_Phase c \<noteq> ClusterRunning) cells))
      (aggregateClusterStatuses cells)"
    by (cases "fold add_cell cells (Map.empty, Map.empty)")
      (simp add: aggregateClusterStatuses_def list_all_iff [of _ "map _ _"] list_all_iff [of _ "sort _"])
qed

section \<open>What the matrix says\<close>

lemma matrixCellPhase_terminal:
  "matrixCellPhase (Some bd) cur = ClusterRunning \<longleftrightarrow> cur \<and> nested '''' (bd_AppliedDeploymentID bd) \<noteq> ''''
     \<and> nested '''' (bd_AppliedDeploymentID bd) = nested '''' (bd_DeploymentID bd)
     \<and> nested '''' (bd_DisplayState bd) \<in> {''Ready'', ''Modified''}"
  "matrixCellPhase (Some bd) cur = ClusterFailed \<longleftrightarrow> cur \<and> nested '''' (bd_AppliedDeploymentID bd) \<noteq> ''''
     \<and> nested '''' (bd_AppliedDeploymentID bd) = nested '''' (bd_DeploymentID bd)
     \<and> nested '''' (bd_DisplayState bd) = ''ErrApplied''"
  by (auto simp: matrixCellPhase_def Let_def)

text \<open>A deployment of the current render that has been applied, in a given Fleet state.\<close>

definition applied_in :: "fleet_reader \<Rightarrow> smap \<Rightarrow> HelmOpKey \<Rightarrow> string \<Rightarrow> string set \<Rightarrow> bool" where
  "applied_in fl ds k cluster states \<longleftrightarrow>
     (\<exists>b bds bd. fl_bundle fl (k_Namespace k) (k_Name k) = Inr b \<and> bundleRenderCurrent (Some b) (digest_of ds k)
        \<and> fl_deployments fl (k_Name k) (k_Namespace k) = Inr bds \<and> bd \<in> set bds \<and> nested '''' (bd_ClusterID bd) = cluster
        \<and> nested '''' (bd_AppliedDeploymentID bd) \<noteq> ''''
        \<and> nested '''' (bd_AppliedDeploymentID bd) = nested '''' (bd_DeploymentID bd)
        \<and> nested '''' (bd_DisplayState bd) \<in> states)"

definition rejected :: "fleet_reader \<Rightarrow> AIWorkload \<Rightarrow> smap \<Rightarrow> HelmOpKey \<Rightarrow> bool" where
  "rejected fl w ds k \<longleftrightarrow>
     (\<exists>e ho. fl_bundle fl (k_Namespace k) (k_Name k) = Inl e \<and> err_is e = SNotFound
        \<and> fl_helmop fl (k_Namespace k) (k_Name k) = Inr ho
        \<and> acceptedFalseTerminal (Some ho) (baselineFor (RenderBaselines (Status w)) (ho_UID ho))
            (digest_of ds k) (retryEpochValue w) (ho_Generation ho))"

lemma missing_phase_cases:
  "missing_phase fl w k d b = Inr p \<Longrightarrow> p = ClusterPending \<or> p = ClusterFailed \<and> b = None \<and>
     (\<exists>ho. fl_helmop fl (k_Namespace k) (k_Name k) = Inr ho
        \<and> acceptedFalseTerminal (Some ho) (baselineFor (RenderBaselines (Status w)) (ho_UID ho))
            d (retryEpochValue w) (ho_Generation ho))"
  by (cases "fl_helmop fl (k_Namespace k) (k_Name k)")
    (auto simp: missing_phase_def getHelmOpIn_def absent_ok_def split: if_splits)

lemma getBundle_cases:
  assumes "getBundle fl ns n = Inr b"
  obtains b' where "b = Some b'" "fl_bundle fl ns n = Inr b'"
    | e where "b = None" "fl_bundle fl ns n = Inl e" "err_is e = SNotFound"
  using assms by (cases "fl_bundle fl ns n") (auto simp: getBundle_def absent_ok_def split: if_splits)

lemma missing_cells_iff:
  "missing_cells fl w k d b ids = Inr ms \<Longrightarrow>
   c \<in> set ms \<longleftrightarrow> (\<exists>i p. i \<in> set ids \<and> missing_phase fl w k d b = Inr p \<and> c = missing_cell k i p)"
  unfolding missing_cells_def using ecollect_member [of _ ids ms c]
  by (cases "missing_phase fl w k d b") auto

lemma missing_cells_ok:
  "missing_cells fl w k d b ids = Inr ms \<Longrightarrow> i \<in> set ids \<Longrightarrow> \<exists>p. missing_phase fl w k d b = Inr p"
  unfolding missing_cells_def using ecollect_all_ok [of _ ids ms i]
  by (cases "missing_phase fl w k d b") auto

lemma key_cells_parts:
  assumes "key_cells fl w ds k = Inr cs"
  obtains b bds ms where "getBundle fl (k_Namespace k) (k_Name k) = Inr b"
    "fl_deployments fl (k_Name k) (k_Namespace k) = Inr bds"
    "missing_cells fl w k (digest_of ds k) b (missing_ids w k bds) = Inr ms"
    "cs = map (seen_cell k (bundleRenderCurrent b (digest_of ds k))) (live bds) @ ms"
proof (cases "getBundle fl (k_Namespace k) (k_Name k)")
  case (Inr b)
  show ?thesis
  proof (cases "fl_deployments fl (k_Name k) (k_Namespace k)")
    case bds: (Inr bds)
    show ?thesis
      using assms Inr bds that
      by (cases "missing_cells fl w k (digest_of ds k) b (missing_ids w k bds)")
        (simp_all add: key_cells_def Let_def)
  qed (use assms Inr in \<open>simp add: key_cells_def Let_def\<close>)
qed (use assms in \<open>simp add: key_cells_def\<close>)

lemma seen_cell_simps [simp]:
  "cell_ComponentName (seen_cell k cur bd) = k_ComponentChartName k" "cell_ReleaseName (seen_cell k cur bd) = k_ReleaseName k"
  "cell_ClusterID (seen_cell k cur bd) = bd_cluster bd" "cell_Phase (seen_cell k cur bd) = matrixCellPhase (Some bd) cur"
  by (simp_all add: seen_cell_def Let_def bd_cluster_def)

lemma missing_cell_simps [simp]:
  "cell_ComponentName (missing_cell k i p) = k_ComponentChartName k" "cell_ReleaseName (missing_cell k i p) = k_ReleaseName k"
  "cell_ClusterID (missing_cell k i p) = i" "cell_Phase (missing_cell k i p) = p"
  by (simp_all add: missing_cell_def)

lemma key_cells_covers:
  assumes "key_cells fl w ds k = Inr cs" "i \<in> set (expectedIDs w k)"
  shows "\<exists>c \<in> set cs. cell_ComponentName c = k_ComponentChartName k \<and> cell_ReleaseName c = k_ReleaseName k \<and> cell_ClusterID c = i"
proof -
  obtain b bds ms where ms: "missing_cells fl w k (digest_of ds k) b (missing_ids w k bds) = Inr ms"
    and cs: "cs = map (seen_cell k (bundleRenderCurrent b (digest_of ds k))) (live bds) @ ms"
    using key_cells_parts [OF assms(1)] by metis
  show ?thesis
  proof (cases "i \<in> set (map bd_cluster (live bds))")
    case True
    then obtain bd where "bd \<in> set (live bds)" "bd_cluster bd = i" by auto
    then show ?thesis
      using cs by (intro bexI [of _ "seen_cell k (bundleRenderCurrent b (digest_of ds k)) bd"]) simp_all
  next
    case False
    then have i: "i \<in> set (missing_ids w k bds)" using assms(2) by (simp add: missing_ids_def)
    obtain p where "missing_phase fl w k (digest_of ds k) b = Inr p" using missing_cells_ok [OF ms i] by blast
    then have "missing_cell k i p \<in> set ms" using missing_cells_iff [OF ms] i by blast
    then show ?thesis using cs by (intro bexI [of _ "missing_cell k i p"]) simp_all
  qed
qed

lemma key_cells_source:
  assumes "key_cells fl w ds k = Inr cs" "c \<in> set cs"
  obtains b bds bd where "getBundle fl (k_Namespace k) (k_Name k) = Inr b" "fl_deployments fl (k_Name k) (k_Namespace k) = Inr bds"
      "bd \<in> set bds" "c = seen_cell k (bundleRenderCurrent b (digest_of ds k)) bd"
    | b i p where "getBundle fl (k_Namespace k) (k_Name k) = Inr b"
      "missing_phase fl w k (digest_of ds k) b = Inr p" "c = missing_cell k i p"
proof -
  obtain b bds ms where b: "getBundle fl (k_Namespace k) (k_Name k) = Inr b"
    and bds: "fl_deployments fl (k_Name k) (k_Namespace k) = Inr bds"
    and ms: "missing_cells fl w k (digest_of ds k) b (missing_ids w k bds) = Inr ms"
    and cs: "cs = map (seen_cell k (bundleRenderCurrent b (digest_of ds k))) (live bds) @ ms"
    using key_cells_parts [OF assms(1)] by metis
  have "(\<exists>bd \<in> set (live bds). c = seen_cell k (bundleRenderCurrent b (digest_of ds k)) bd) \<or> c \<in> set ms"
    using assms(2) cs by auto
  moreover have "bd \<in> set (live bds) \<Longrightarrow> bd \<in> set bds" for bd by (simp add: live_def)
  ultimately show ?thesis using that b bds missing_cells_iff [OF ms, of c] by metis
qed

lemma applied_inI:
  assumes "getBundle fl (k_Namespace k) (k_Name k) = Inr b" "fl_deployments fl (k_Name k) (k_Namespace k) = Inr bds"
    "bd \<in> set bds" "bundleRenderCurrent b (digest_of ds k)"
    "nested '''' (bd_AppliedDeploymentID bd) \<noteq> ''''"
    "nested '''' (bd_AppliedDeploymentID bd) = nested '''' (bd_DeploymentID bd)" "nested '''' (bd_DisplayState bd) \<in> S"
  shows "applied_in fl ds k (bd_cluster bd) S"
  using assms(1)
proof (cases rule: getBundle_cases)
  case (1 b')
  then show ?thesis using assms(2-7) unfolding applied_in_def bd_cluster_def by blast
next
  case (2 e)
  then show ?thesis using assms(4) by (simp add: bundleRenderCurrent_def)
qed

lemma key_cells_running:
  assumes "key_cells fl w ds k = Inr cs" "c \<in> set cs" "cell_Phase c = ClusterRunning"
  shows "applied_in fl ds k (cell_ClusterID c) {''Ready'', ''Modified''}"
  using assms(1,2)
proof (cases rule: key_cells_source)
  case (1 b bds bd)
  then show ?thesis using assms(3) matrixCellPhase_terminal(1) [of bd] by (simp only: seen_cell_simps) (blast intro: applied_inI)
next
  case (2 b i p)
  then show ?thesis using assms(3) missing_phase_cases [OF 2(2)] by simp
qed

lemma key_cells_failed:
  assumes "key_cells fl w ds k = Inr cs" "c \<in> set cs" "cell_Phase c = ClusterFailed"
  shows "applied_in fl ds k (cell_ClusterID c) {''ErrApplied''} \<or> rejected fl w ds k"
  using assms(1,2)
proof (cases rule: key_cells_source)
  case (1 b bds bd)
  then have "matrixCellPhase (Some bd) (bundleRenderCurrent b (digest_of ds k)) = ClusterFailed" using assms(3) by simp
  note t = matrixCellPhase_terminal(2) [THEN iffD1, OF this]
  have "applied_in fl ds k (bd_cluster bd) {''ErrApplied''}"
    by (rule applied_inI [OF 1(1,2,3)]) (use t in auto)
  then show ?thesis using 1 by simp
next
  case (2 b i p)
  then have n: "b = None" using assms(3) missing_phase_cases [OF 2(2)] by simp
  obtain e where "fl_bundle fl (k_Namespace k) (k_Name k) = Inl e" "err_is e = SNotFound"
    using getBundle_cases [OF 2(1)] n by blast
  then show ?thesis using assms(3) 2(3) missing_phase_cases [OF 2(2)] by (auto simp: rejected_def)
qed

text \<open>A cell is about a component, its release and a cluster. These are the clusters that a key has cells for.\<close>

definition cell_id :: "AIWorkloadComponentStatus \<Rightarrow> string \<times> string \<times> string" where
  "cell_id c = (cell_ComponentName c, cell_ReleaseName c, cell_ClusterID c)"

definition cell_of :: "HelmOpKey \<Rightarrow> string \<Rightarrow> string \<times> string \<times> string" where
  "cell_of k i = (k_ComponentChartName k, k_ReleaseName k, i)"

definition covered :: "fleet_reader \<Rightarrow> AIWorkload \<Rightarrow> HelmOpKey \<Rightarrow> string list" where
  "covered fl w k =
     (case fl_deployments fl (k_Name k) (k_Namespace k) of
        Inl e \<Rightarrow> []
      | Inr bds \<Rightarrow> map bd_cluster (live bds) @ filter (\<lambda>i. i \<notin> set (map bd_cluster (live bds))) (expectedIDs w k))"

text \<open>What Fleet and the API server keep to: a Bundle has one deployment on a cluster, and only those in
  \<open>fleet-local\<close> have one on the cluster \<open>local\<close>; the target clusters are a set.\<close>

definition one_per_cluster :: "fleet_reader \<Rightarrow> AIWorkload \<Rightarrow> HelmOpKey list \<Rightarrow> bool" where
  "one_per_cluster fl w keys \<longleftrightarrow>
     distinct (map (\<lambda>k. (k_Namespace k, k_ComponentChartName k, k_ReleaseName k)) keys) \<and> distinct (TargetClusters (Spec w))
     \<and> (\<forall>k \<in> set keys. k_Namespace k \<in> {''fleet-local'', ''fleet-default''}
         \<and> (\<forall>bds. fl_deployments fl (k_Name k) (k_Namespace k) = Inr bds \<longrightarrow> distinct (map bd_cluster (live bds))
              \<and> (\<forall>bd \<in> set (live bds). bd_cluster bd = ''local'' \<longleftrightarrow> k_Namespace k = ''fleet-local'')))"

lemma key_cells_ids:
  assumes "key_cells fl w ds k = Inr cs"
  shows "map cell_id cs = map (cell_of k) (covered fl w k)"
proof -
  obtain b bds ms where bds: "fl_deployments fl (k_Name k) (k_Namespace k) = Inr bds"
    and ms: "missing_cells fl w k (digest_of ds k) b (missing_ids w k bds) = Inr ms"
    and cs: "cs = map (seen_cell k (bundleRenderCurrent b (digest_of ds k))) (live bds) @ ms"
    using key_cells_parts [OF assms] by metis
  have "map cell_id ms = concat (map (\<lambda>i. [cell_of k i]) (missing_ids w k bds))"
    by (rule ecollect_map [OF ms [unfolded missing_cells_def]]) (auto simp: cell_id_def cell_of_def split: sum.splits)
  then show ?thesis by (simp add: cs covered_def bds missing_ids_def cell_id_def cell_of_def concat_map_singleton)
qed

lemma covered_once:
  assumes "one_per_cluster fl w keys" "k \<in> set keys"
  shows "distinct (covered fl w k)" "i \<in> set (covered fl w k) \<Longrightarrow> i = ''local'' \<longleftrightarrow> k_Namespace k = ''fleet-local''"
proof -
  have e: "distinct (expectedIDs w k)" "i \<in> set (expectedIDs w k) \<Longrightarrow> i = ''local'' \<longleftrightarrow> k_Namespace k = ''fleet-local''" for i
    using assms by (auto simp: one_per_cluster_def expectedIDs_def split: if_splits)
  show "distinct (covered fl w k)"
    using assms e(1) by (cases "fl_deployments fl (k_Name k) (k_Namespace k)") (auto simp: covered_def one_per_cluster_def)
  show "i = ''local'' \<longleftrightarrow> k_Namespace k = ''fleet-local''" if i: "i \<in> set (covered fl w k)"
  proof (cases "fl_deployments fl (k_Name k) (k_Namespace k)")
    case (Inr bds)
    then have "bd_cluster bd = ''local'' \<longleftrightarrow> k_Namespace k = ''fleet-local''" if "bd \<in> set (live bds)" for bd
      using assms that unfolding one_per_cluster_def by blast
    moreover have "i \<in> set (expectedIDs w k) \<or> i \<in> bd_cluster ` set (live bds)" using i Inr by (auto simp: covered_def)
    ultimately show ?thesis by (elim disjE imageE) (use e(2) in simp_all)
  qed (use i in \<open>simp add: covered_def\<close>)
qed

lemma ids_distinct:
  assumes "one_per_cluster fl w keys"
  shows "distinct (concat (map (\<lambda>k. map (cell_of k) (covered fl w k)) keys))"
  using assms
proof (induction keys)
  case (Cons k keys)
  have t: "one_per_cluster fl w keys" using Cons.prems by (simp add: one_per_cluster_def)
  have "distinct (map (cell_of k) (covered fl w k))"
    using covered_once(1) [OF Cons.prems, of k] by (simp add: distinct_map inj_on_def cell_of_def)
  moreover have "cell_of k' i' \<noteq> cell_of k i" if "i \<in> set (covered fl w k)" "k' \<in> set keys" "i' \<in> set (covered fl w k')" for i k' i'
  proof
    assume e: "cell_of k' i' = cell_of k i"
    then have "k_Namespace k = ''fleet-local'' \<longleftrightarrow> k_Namespace k' = ''fleet-local''"
      using covered_once(2) [OF Cons.prems, of k i] covered_once(2) [OF Cons.prems, of k' i'] that by (simp add: cell_of_def)
    then have "k_Namespace k = k_Namespace k'" using Cons.prems that(2) by (auto simp: one_per_cluster_def)
    then have "(k_Namespace k, k_ComponentChartName k, k_ReleaseName k) \<in> (\<lambda>k. (k_Namespace k, k_ComponentChartName k, k_ReleaseName k)) ` set keys"
      using e that(2) by (intro image_eqI [of _ _ k']) (simp_all add: cell_of_def)
    then show False using Cons.prems by (simp only: one_per_cluster_def list.map distinct.simps set_map) blast
  qed
  then have "set (map (cell_of k) (covered fl w k)) \<inter> set (concat (map (\<lambda>k. map (cell_of k) (covered fl w k)) keys)) = {}"
    by auto
  ultimately show ?case using Cons.IH [OF t] by (simp only: list.map concat.simps distinct_append simp_thms)
qed simp

text \<open>
  C10. The matrix is complete and honest. It is sorted by (component, cluster). Its cells are, key by key, one for each
  deployment that Fleet has made and one for each cluster a desired HelmOp is expected on without one, and nothing else; no
  two are about the same component, release and cluster, as long as Fleet makes one deployment per Bundle and cluster. A
  cell is running only if the Bundle of its own component and release carries the current render and the deployment of
  that render is applied on the cluster and ready (or drifted); and a cell has failed only if the
  current render failed to apply there, or the Bundle does not exist and Fleet has rejected this
  very attempt. An old render can therefore neither fail nor complete a new one.
\<close>

theorem matrix_complete_and_honest:
  assumes "buildComponentMatrix fl w keys ds = Inr cells"
  shows "sorted (map cell_key cells)
    \<and> mset (map cell_id cells) = mset (concat (map (\<lambda>k. map (cell_of k) (covered fl w k)) keys))
    \<and> (\<forall>k i. k \<in> set keys \<and> i \<in> set (expectedIDs w k) \<longrightarrow>
         (\<exists>c \<in> set cells. cell_ComponentName c = k_ComponentChartName k
            \<and> cell_ReleaseName c = k_ReleaseName k \<and> cell_ClusterID c = i))
    \<and> (one_per_cluster fl w keys \<longrightarrow> distinct (map cell_id cells))
    \<and> (\<forall>c. c \<in> set cells \<and> cell_Phase c = ClusterRunning \<longrightarrow>
         (\<exists>k \<in> set keys. cell_id c = cell_of k (cell_ClusterID c) \<and> applied_in fl ds k (cell_ClusterID c) {''Ready'', ''Modified''}))
    \<and> (\<forall>c. c \<in> set cells \<and> cell_Phase c = ClusterFailed \<longrightarrow>
         (\<exists>k \<in> set keys. cell_id c = cell_of k (cell_ClusterID c)
            \<and> (applied_in fl ds k (cell_ClusterID c) {''ErrApplied''} \<or> rejected fl w ds k)))"
proof -
  obtain cs where cs: "ecollect (key_cells fl w ds) keys = Inr cs" "cells = sort_key cell_key cs"
    using assms by (auto simp: buildComponentMatrix_def split: sum.splits)
  have mem: "\<exists>k zs. k \<in> set keys \<and> key_cells fl w ds k = Inr zs \<and> c \<in> set zs \<and> cell_id c = cell_of k (cell_ClusterID c)"
    if m: "c \<in> set cells" for c
  proof -
    obtain k zs where k: "k \<in> set keys" "key_cells fl w ds k = Inr zs" "c \<in> set zs"
      using m ecollect_member [OF cs(1), of c] cs(2) by auto
    then have "cell_id c \<in> set (map (cell_of k) (covered fl w k))" using key_cells_ids [OF k(2)] by (metis in_set_conv_nth length_map nth_map nth_mem)
    then show ?thesis using k by (auto simp: cell_id_def cell_of_def)
  qed
  have ids: "mset (map cell_id cells) = mset (concat (map (\<lambda>k. map (cell_of k) (covered fl w k)) keys))"
  proof -
    have "map cell_id cs = concat (map (\<lambda>k. map (cell_of k) (covered fl w k)) keys)"
      by (rule ecollect_map [OF cs(1)]) (rule key_cells_ids)
    moreover have "mset (map cell_id cells) = mset (map cell_id cs)" by (simp add: cs(2))
    ultimately show ?thesis by (simp only:)
  qed
  have 1: "\<exists>c \<in> set cells. cell_ComponentName c = k_ComponentChartName k \<and> cell_ReleaseName c = k_ReleaseName k \<and> cell_ClusterID c = i"
    if k: "k \<in> set keys" and i: "i \<in> set (expectedIDs w k)" for k i
  proof -
    obtain zs where zs: "key_cells fl w ds k = Inr zs" "set zs \<subseteq> set cells"
      using ecollect_all_ok [OF cs(1) k] cs(2) by auto
    then show ?thesis using key_cells_covers [OF zs(1) i] by blast
  qed
  have 2: "\<exists>k \<in> set keys. cell_id c = cell_of k (cell_ClusterID c) \<and> applied_in fl ds k (cell_ClusterID c) {''Ready'', ''Modified''}"
    if "c \<in> set cells" "cell_Phase c = ClusterRunning" for c
    using mem [OF that(1)] key_cells_running that(2) by meson
  have 3: "\<exists>k \<in> set keys. cell_id c = cell_of k (cell_ClusterID c)
      \<and> (applied_in fl ds k (cell_ClusterID c) {''ErrApplied''} \<or> rejected fl w ds k)"
    if "c \<in> set cells" "cell_Phase c = ClusterFailed" for c
    using mem [OF that(1)] key_cells_failed that(2) by meson
  have 4: "sorted (map cell_key cells)" by (simp add: cs(2))
  have 5: "one_per_cluster fl w keys \<Longrightarrow> distinct (map cell_id cells)"
    using ids_distinct mset_eq_imp_distinct_iff [OF ids] by simp
  show ?thesis by (intro conjI allI impI; (elim conjE)?) (fact 4, fact ids, fact 1, fact 5, fact 2, fact 3)
qed

theorem matrix_complete_and_honest_witness:
  "\<exists>cells. buildComponentMatrix example_fleet example_workload [example_key] example_digests = Inr cells
     \<and> one_per_cluster example_fleet example_workload [example_key] \<and> map cell_id cells = [(''rag'', ''rag'', ''local'')]"
proof -
  obtain cells where c: "buildComponentMatrix example_fleet example_workload [example_key] example_digests = Inr cells"
    by (simp add: buildComponentMatrix_def key_cells_def getBundle_def absent_ok_def example_fleet_def live_def
        missing_cells_def missing_phase_def missing_ids_def expectedIDs_def example_key_def example_defs)
  have one: "one_per_cluster example_fleet example_workload [example_key]"
    by (simp add: one_per_cluster_def example_fleet_def example_key_def live_def example_defs)
  have "map (cell_of example_key) (covered example_fleet example_workload example_key) = [(''rag'', ''rag'', ''local'')]"
    by (simp add: covered_def example_fleet_def live_def expectedIDs_def example_key_def cell_of_def example_defs)
  then have "mset (map cell_id cells) = {#(''rag'', ''rag'', ''local'')#}" using matrix_complete_and_honest [OF c] by simp
  then have "map cell_id cells = [(''rag'', ''rag'', ''local'')]" by (simp only: mset_single_iff)
  then show ?thesis using c one by (intro exI [of _ cells] conjI)
qed

section \<open>A rejected attempt is noticed\<close>

definition same_attempt :: "RenderBaseline \<Rightarrow> RenderBaseline \<Rightarrow> bool" where
  "same_attempt a b \<longleftrightarrow> rb_HelmOpUID a = rb_HelmOpUID b \<and> rb_RenderDigest a = rb_RenderDigest b
     \<and> rb_RetryEpoch a = rb_RetryEpoch b \<and> rb_HelmOpGeneration a = rb_HelmOpGeneration b"

lemma baselineFor_upsert:
  "baselineFor (upsertRenderBaseline bs e) uid =
     (if uid = rb_HelmOpUID e
      then (case baselineFor bs uid of None \<Rightarrow> Some e | Some b \<Rightarrow> if same_attempt b e then Some b else Some e)
      else baselineFor bs uid)"
proof (induction bs)
  case (Cons b bs)
  show ?case
  proof (cases "rb_HelmOpUID b = rb_HelmOpUID e")
    case True
    then show ?thesis by (auto simp: baselineFor_def same_attempt_def)
  next
    case False
    then show ?thesis using Cons by (cases "rb_HelmOpUID b = uid") (simp_all add: baselineFor_def)
  qed
qed (simp add: baselineFor_def)

lemma baseline_kept:
  "baselineFor bs uid = Some b \<Longrightarrow> list_all (\<lambda>e. rb_HelmOpUID e \<noteq> uid \<or> same_attempt b e) es \<Longrightarrow>
   baselineFor (foldl upsertRenderBaseline bs es) uid = Some b"
proof (induction es arbitrary: bs)
  case (Cons e es)
  have "baselineFor (upsertRenderBaseline bs e) uid = Some b"
    using Cons.prems by (auto simp: baselineFor_upsert)
  then show ?case using Cons by simp
qed simp

text \<open>
  A rejection by Fleet is noticed however often the controller has run since the attempt
  began: the baseline recorded when the attempt was first seen survives every later recording of the
  same attempt, so the HelmOp's attempt is terminally failed exactly when its Accepted condition is
  false and differs from the one seen first, and not because of a rejection left over from before.
  The first recording of another attempt replaces the baseline.
\<close>

theorem rejection_noticed:
  assumes "baselineFor bs (rb_HelmOpUID first) = None \<or> (\<exists>old. baselineFor bs (rb_HelmOpUID first) = Some old \<and> \<not> same_attempt old first)"
    and "list_all (\<lambda>e. rb_HelmOpUID e \<noteq> rb_HelmOpUID first \<or> same_attempt first e) later"
    and "ho_UID h = rb_HelmOpUID first"
  shows "acceptedFalseTerminal (Some h) (baselineFor (foldl upsertRenderBaseline bs (first # later)) (ho_UID h))
      (rb_RenderDigest first) (rb_RetryEpoch first) (rb_HelmOpGeneration first)
    \<longleftrightarrow> acceptedConditionFingerprint (Some h) \<noteq> rb_AcceptedFingerprint first \<and> acceptedConditionIsFalse h"
proof -
  have "baselineFor (upsertRenderBaseline bs first) (rb_HelmOpUID first) = Some first"
    using assms(1) by (auto simp: baselineFor_upsert)
  from baseline_kept [OF this assms(2)] show ?thesis
    using assms(3) by (simp add: acceptedFalseTerminal_def)
qed

theorem rejection_noticed_witness:
  "let first = \<lparr>rb_HelmOpUID = ''u'', rb_RenderDigest = ''d'', rb_RetryEpoch = 0, rb_HelmOpGeneration = 1, rb_AcceptedFingerprint = ''''\<rparr>;
       ho = \<lparr>ho_UID = ''u'', ho_Generation = 1, ho_Labels = Map.empty,
             ho_Conditions = [JObj [(''status'', JStr ''False''), (''type'', JStr ''Accepted'')]]\<rparr>
   in acceptedFalseTerminal (Some ho) (baselineFor (foldl upsertRenderBaseline [] [first, first\<lparr>rb_AcceptedFingerprint := ''x''\<rparr>]) ''u'') ''d'' 0 1"
proof -
  let ?f = "\<lparr>rb_HelmOpUID = ''u'', rb_RenderDigest = ''d'', rb_RetryEpoch = 0, rb_HelmOpGeneration = 1, rb_AcceptedFingerprint = ''''\<rparr>"
  let ?h = "\<lparr>ho_UID = ''u'', ho_Generation = 1, ho_Labels = Map.empty,
             ho_Conditions = [JObj [(''status'', JStr ''False''), (''type'', JStr ''Accepted'')]]\<rparr>"
  have "acceptedConditionFingerprint (Some ?h) \<noteq> rb_AcceptedFingerprint ?f \<and> acceptedConditionIsFalse ?h"
    by (simp add: acceptedConditionFingerprint_def acceptedConditionIsFalse_def sha256Hex_def)
  then show ?thesis
    using rejection_noticed [of "[]" ?f "[?f\<lparr>rb_AcceptedFingerprint := ''x''\<rparr>]" ?h]
    by (simp add: baselineFor_def same_attempt_def)
qed

end
