(* ===== verification/Readiness.thy ===== *)
theory Readiness
  imports Rollout
begin

text \<open>
  Whether an App workload deployed with Helm runs: the rollout checks of
  \<open>internal/infra/kubernetes/deployment.go\<close> and \<open>rollout.go\<close>, the classification of pods in
  \<open>internal/controller/aiworkload/helm_readiness.go\<close>, and the Helm path of
  \<open>aiworkload_controller.go\<close>. Lists read from the API server are parameters; the label
  selectors that the server applies are part of the parameter.
\<close>

section \<open>Rollouts (deployment.go, rollout.go)\<close>

record Deployment =
  d_Name :: string
  d_Annotations :: smap
  d_Selector :: "string option"
  d_Generation :: int
  d_Replicas_spec :: "int option"
  d_ObservedGeneration :: int
  d_Replicas :: int
  d_UpdatedReplicas :: int
  d_AvailableReplicas :: int

text \<open>Counts are \<open>int32\<close>; the two differences that are computed wrap.\<close>

definition wrap32 :: "int \<Rightarrow> int" where
  "wrap32 x = (x + 2 ^ 31) mod 2 ^ 32 - 2 ^ 31"

definition desired_replicas :: "int option \<Rightarrow> int" where
  "desired_replicas r = (case r of None \<Rightarrow> 1 | Some n \<Rightarrow> n)"

definition RolloutIncomplete :: "Deployment \<Rightarrow> string" where
  "RolloutIncomplete d =
     (let desired = desired_replicas (d_Replicas_spec d)
      in if d_ObservedGeneration d < d_Generation d then ''waiting for the deployment spec update to be observed''
         else if d_UpdatedReplicas d < desired then
           FormatInt (d_UpdatedReplicas d) @ '' of '' @ FormatInt desired @ '' replicas have been updated to the new revision''
         else if d_Replicas d > d_UpdatedReplicas d then
           FormatInt (wrap32 (d_Replicas d - d_UpdatedReplicas d)) @ '' replicas from the previous revision are pending termination''
         else if d_AvailableReplicas d < d_UpdatedReplicas d then
           FormatInt (d_AvailableReplicas d) @ '' of '' @ FormatInt (d_UpdatedReplicas d) @ '' updated replicas are available''
         else '''')"

datatype UpdateStrategy = RollingUpdate | OnDelete

record StatefulSet =
  s_Name :: string
  s_Annotations :: smap
  s_Selector :: "string option"
  s_Generation :: int
  s_Replicas_spec :: "int option"
  s_Strategy :: UpdateStrategy
  s_Partition :: "int option"
  s_ObservedGeneration :: int
  s_Replicas :: int
  s_ReadyReplicas :: int
  s_UpdatedReplicas :: int
  s_UpdateRevision :: string
  s_CurrentRevision :: string

definition StatefulSetRolloutIncomplete :: "StatefulSet \<Rightarrow> string" where
  "StatefulSetRolloutIncomplete s =
     (let desired = desired_replicas (s_Replicas_spec s)
      in if s_ObservedGeneration s < s_Generation s then ''waiting for the statefulset spec update to be observed''
         else if s_ReadyReplicas s < desired then
           FormatInt (s_ReadyReplicas s) @ '' of '' @ FormatInt desired @ '' pods are ready''
         else if s_Strategy s \<noteq> RollingUpdate then ''''
         else case s_Partition s of
                Some part \<Rightarrow>
                  let want = wrap32 (s_Replicas s - part)
                  in if s_UpdatedReplicas s < want then
                       ''waiting for partitioned rollout to finish: '' @ FormatInt (s_UpdatedReplicas s) @ '' of '' @
                       FormatInt want @ '' new pods updated''
                     else ''''
              | None \<Rightarrow>
                  if s_UpdateRevision s \<noteq> '''' \<and> s_UpdateRevision s \<noteq> s_CurrentRevision s then
                    ''waiting for the rolling update to complete: '' @ FormatInt (s_UpdatedReplicas s) @ '' of '' @
                    FormatInt desired @ '' pods updated''
                  else '''')"

record DaemonSet =
  ds_Name :: string
  ds_Annotations :: smap
  ds_Selector :: "string option"
  ds_Generation :: int
  ds_Strategy :: UpdateStrategy
  ds_ObservedGeneration :: int
  ds_UpdatedNumberScheduled :: int
  ds_DesiredNumberScheduled :: int
  ds_NumberAvailable :: int

definition DaemonSetRolloutIncomplete :: "DaemonSet \<Rightarrow> string" where
  "DaemonSetRolloutIncomplete d =
     (if ds_ObservedGeneration d < ds_Generation d then ''waiting for the daemonset spec update to be observed''
      else if ds_Strategy d = RollingUpdate \<and> ds_UpdatedNumberScheduled d < ds_DesiredNumberScheduled d then
        FormatInt (ds_UpdatedNumberScheduled d) @ '' of '' @ FormatInt (ds_DesiredNumberScheduled d) @
        '' pods have been updated to the new revision''
      else if ds_NumberAvailable d < ds_DesiredNumberScheduled d then
        FormatInt (ds_NumberAvailable d) @ '' of '' @ FormatInt (ds_DesiredNumberScheduled d) @ '' updated pods are available''
      else '''')"

record DeploymentStatus =
  dst_Ready :: bool
  dst_Found :: bool
  dst_Message :: string

fun first_incomplete :: "Deployment list \<Rightarrow> (string \<times> string) option" where
  "first_incomplete [] = None"
| "first_incomplete (d # ds) =
     (if RolloutIncomplete d \<noteq> '''' then Some (d_Name d, RolloutIncomplete d) else first_incomplete ds)"

definition IsDeploymentReady :: "err + Deployment list \<Rightarrow> string \<Rightarrow> err + DeploymentStatus" where
  "IsDeploymentReady listed releaseName =
     (case listed of
        Inl e \<Rightarrow> Inl e
      | Inr [] \<Rightarrow> Inr \<lparr>dst_Ready = False, dst_Found = False, dst_Message = ''No deployments found for release '' @ releaseName\<rparr>
      | Inr ds \<Rightarrow> (case first_incomplete ds of
            Some (n, reason) \<Rightarrow> Inr \<lparr>dst_Ready = False, dst_Found = True,
              dst_Message = ''Deployment '' @ n @ '' not ready: '' @ reason\<rparr>
          | None \<Rightarrow> Inr \<lparr>dst_Ready = True, dst_Found = True, dst_Message = ''All deployments ready''\<rparr>))"

section \<open>Pods (helm\_readiness.go)\<close>

text \<open>The reason of a container that is waiting, \<open>None\<close> when it is not.\<close>

record PodCondition =
  pc_Type :: string
  pc_Status :: string
  pc_Reason :: string

record Pod =
  p_InitWaiting :: "string option list"
  p_Waiting :: "string option list"
  p_Conditions :: "PodCondition list"

definition podHardFailureReasons :: "string list" where
  "podHardFailureReasons = [''CrashLoopBackOff'', ''ImagePullBackOff'', ''ErrImagePull'', ''CreateContainerConfigError'',
     ''CreateContainerError'', ''InvalidImageName'', ''RunContainerError'']"

definition podScheduleFailure :: string where "podScheduleFailure = ''Unschedulable''"

definition waitingHardFailure :: "string option \<Rightarrow> string" where
  "waitingHardFailure w = (case w of None \<Rightarrow> '''' | Some r \<Rightarrow> if r \<in> set podHardFailureReasons then r else '''')"

fun first_waiting :: "string option list \<Rightarrow> string" where
  "first_waiting [] = ''''"
| "first_waiting (w # ws) = (if waitingHardFailure w \<noteq> '''' then waitingHardFailure w else first_waiting ws)"

definition podHardFailureReason :: "Pod \<Rightarrow> string" where
  "podHardFailureReason p =
     (if first_waiting (p_InitWaiting p) \<noteq> '''' then first_waiting (p_InitWaiting p)
      else if first_waiting (p_Waiting p) \<noteq> '''' then first_waiting (p_Waiting p)
      else if list_ex (\<lambda>c. pc_Type c = ''PodScheduled'' \<and> pc_Status c = ''False'' \<and> pc_Reason c = podScheduleFailure) (p_Conditions p)
        then podScheduleFailure else '''')"

text \<open>Appending what has not been seen yet, as the loops with a \<open>seen\<close> map do.\<close>

definition add_new :: "'a list \<Rightarrow> 'a list \<Rightarrow> 'a list" where
  "add_new out xs = foldl (\<lambda>acc x. if x \<in> set acc then acc else acc @ [x]) out xs"

type_synonym pod_lister = "string \<Rightarrow> err + Pod list"

definition podFailureReasons :: "pod_lister \<Rightarrow> string option \<Rightarrow> err + string list" where
  "podFailureReasons pods selector =
     (case selector of
        None \<Rightarrow> Inr []
      | Some sel \<Rightarrow> (case pods sel of
            Inl e \<Rightarrow> Inl e
          | Inr ps \<Rightarrow> Inr (add_new [] (filter (\<lambda>r. r \<noteq> '''') (map podHardFailureReason ps)))))"

record workloadReadiness =
  wr_kind :: string
  wr_name :: string
  wr_ready :: bool
  wr_selector :: "string option"

definition helmPhaseFromReadiness :: "nat \<Rightarrow> string list \<Rightarrow> AIWorkloadPhase \<times> string \<times> string" where
  "helmPhaseFromReadiness notReadyCount failureReasons =
     (if notReadyCount = 0 then (PhaseRunning, ''WorkloadsReady'', ''All workload pods are ready'')
      else if failureReasons \<noteq> [] then
        (PhaseDegraded, ''WorkloadsDegraded'',
         show_nat notReadyCount @ '' workload(s) not ready; pod status: '' @ join '', '' failureReasons)
      else (PhasePending, ''WorkloadsStarting'',
            ''Waiting for '' @ show_nat notReadyCount @ '' workload(s) to become ready''))"

fun classify_loop :: "pod_lister \<Rightarrow> workloadReadiness list \<Rightarrow> nat \<times> string list \<Rightarrow> err + nat \<times> string list" where
  "classify_loop pods [] acc = Inr acc"
| "classify_loop pods (c # cs) (notReady, reasons) =
     (if wr_ready c then classify_loop pods cs (notReady, reasons)
      else case podFailureReasons pods (wr_selector c) of
             Inl e \<Rightarrow> Inl e
           | Inr prs \<Rightarrow> classify_loop pods cs (notReady + 1, add_new reasons prs))"

definition classifyHelmPhase :: "pod_lister \<Rightarrow> workloadReadiness list \<Rightarrow> err + AIWorkloadPhase \<times> string \<times> string" where
  "classifyHelmPhase pods controllers =
     (case classify_loop pods controllers (0, []) of
        Inl e \<Rightarrow> Inl e
      | Inr (notReady, reasons) \<Rightarrow> Inr (helmPhaseFromReadiness notReady (sort reasons)))"

definition helmReleaseNameAnnotation :: string where "helmReleaseNameAnnotation = ''meta.helm.sh/release-name''"

definition helmManagedControllers ::
  "err + Deployment list \<Rightarrow> err + StatefulSet list \<Rightarrow> err + DaemonSet list \<Rightarrow> string \<Rightarrow> err + workloadReadiness list" where
  "helmManagedControllers deps sts dss release =
     ebind deps (\<lambda>deps. ebind sts (\<lambda>sts. ebind dss (\<lambda>dss.
       Inr (map (\<lambda>d. \<lparr>wr_kind = ''Deployment'', wr_name = d_Name d, wr_ready = (RolloutIncomplete d = ''''), wr_selector = d_Selector d\<rparr>)
              (filter (\<lambda>d. mget (d_Annotations d) helmReleaseNameAnnotation = release) deps) @
            map (\<lambda>s. \<lparr>wr_kind = ''StatefulSet'', wr_name = s_Name s, wr_ready = (StatefulSetRolloutIncomplete s = ''''), wr_selector = s_Selector s\<rparr>)
              (filter (\<lambda>s. mget (s_Annotations s) helmReleaseNameAnnotation = release) sts) @
            map (\<lambda>d. \<lparr>wr_kind = ''DaemonSet'', wr_name = ds_Name d, wr_ready = (DaemonSetRolloutIncomplete d = ''''), wr_selector = ds_Selector d\<rparr>)
              (filter (\<lambda>d. mget (ds_Annotations d) helmReleaseNameAnnotation = release) dss)))))"

section \<open>The Helm release (aiworkload\_controller.go)\<close>

record helmReleaseState =
  hr_exists :: bool
  hr_status :: string

fun newest_revision :: "smap list \<Rightarrow> int \<times> string \<Rightarrow> int \<times> string" where
  "newest_revision [] acc = acc"
| "newest_revision (labels # ls) (newest, status) =
     newest_revision ls
       (case ParseInt (mget labels ''version'') of
          None \<Rightarrow> (newest, status)
        | Some v \<Rightarrow> if v > newest then (v, mget labels ''status'') else (newest, status))"

definition helmReleaseStatus :: "err + smap list \<Rightarrow> err + helmReleaseState" where
  "helmReleaseStatus secrets =
     (case secrets of
        Inl e \<Rightarrow> Inl e
      | Inr [] \<Rightarrow> Inr \<lparr>hr_exists = False, hr_status = ''''\<rparr>
      | Inr ls \<Rightarrow> Inr \<lparr>hr_exists = True, hr_status = snd (newest_revision ls (-1, ''''))\<rparr>)"

text \<open>The ellipsis that marks a cut message is three bytes of UTF-8.\<close>

definition truncateForCondition :: "string \<Rightarrow> string" where
  "truncateForCondition s =
     (if length s \<le> 1024 then s else take 1024 s @ [CHR 0xE2, CHR 0x80, CHR 0xA6] @ '' (truncated)'')"

definition conditionTypeReady :: string where "conditionTypeReady = ''Ready''"

definition setReady :: "ConditionStatus \<Rightarrow> string \<Rightarrow> string \<Rightarrow> AIWorkload \<Rightarrow> AIWorkload" where
  "setReady status reason message w =
     w\<lparr>Status := (Status w)\<lparr>Conditions :=
        setCondition (Conditions (Status w)) conditionTypeReady status reason message (wl_Generation w)\<rparr>\<rparr>"

definition setPhase :: "AIWorkloadPhase \<Rightarrow> AIWorkload \<Rightarrow> AIWorkload" where
  "setPhase p w = w\<lparr>Status := (Status w)\<lparr>st_Phase := p\<rparr>\<rparr>"

text \<open>What the Helm path reads, for the namespace and release of the workload.\<close>

record helm_reader =
  hl_secrets :: "string \<Rightarrow> string \<Rightarrow> err + smap list"
  hl_deployments :: "string \<Rightarrow> err + Deployment list"
  hl_statefulsets :: "string \<Rightarrow> err + StatefulSet list"
  hl_daemonsets :: "string \<Rightarrow> err + DaemonSet list"
  hl_pods :: "string \<Rightarrow> pod_lister"

definition reconcileHelmStatus :: "helm_reader \<Rightarrow> AIWorkload \<Rightarrow> err + AIWorkload" where
  "reconcileHelmStatus hl w =
     (case SourceApp (Spec w) of
        None \<Rightarrow> Inr w
      | Some app \<Rightarrow>
          ebind (helmReleaseStatus (hl_secrets hl (TargetNamespace (Spec w)) (app_Release app))) (\<lambda>state.
          if \<not> hr_exists state then
            Inr (setReady ConditionUnknown ''ReleaseNotFound'' ''No Helm release found for this workload yet''
                   (w\<lparr>Status := (Status w)\<lparr>st_Phase := PhaseUnknown, ClusterStatuses := []\<rparr>\<rparr>))
          else if has_prefix (hr_status state) ''pending'' then
            Inr (setReady ConditionFalse ''ReleasePending'' ''Helm release operation in progress'' (setPhase PhasePending w))
          else if hr_status state = ''failed'' then
            Inr (setReady ConditionFalse ''ReleaseFailed'' ''Helm release install or upgrade failed'' (setPhase PhaseDegraded w))
          else
            ebind (helmManagedControllers (hl_deployments hl (TargetNamespace (Spec w))) (hl_statefulsets hl (TargetNamespace (Spec w)))
                     (hl_daemonsets hl (TargetNamespace (Spec w))) (app_Release app)) (\<lambda>controllers.
            ebind (classifyHelmPhase (hl_pods hl (TargetNamespace (Spec w))) controllers) (\<lambda>(phase, reason, msg).
              Inr (setReady (if phase = PhaseRunning then ConditionTrue else ConditionFalse) reason
                     (truncateForCondition msg) (setPhase phase w))))))"

section \<open>What readiness means\<close>

lemma first_incomplete_None: "first_incomplete ds = None \<longleftrightarrow> list_all (\<lambda>d. RolloutIncomplete d = '''') ds"
  by (induction ds) auto

text \<open>
  A rollout is complete only when the revision in the spec is the one that runs. A Deployment
  is complete exactly when its spec has been observed, at least the desired number of replicas are
  updated, no replica of an older revision is left and every updated one is available; a
  StatefulSet and a DaemonSet likewise, an OnDelete strategy exempting from the revision check. A
  release is ready exactly when it has Deployments and all are complete, and one without any is
  reported as not found rather than as failed.
\<close>

theorem rollout_complete:
  "(RolloutIncomplete d = '''' \<longleftrightarrow>
      d_Generation d \<le> d_ObservedGeneration d \<and> desired_replicas (d_Replicas_spec d) \<le> d_UpdatedReplicas d
      \<and> d_Replicas d \<le> d_UpdatedReplicas d \<and> d_UpdatedReplicas d \<le> d_AvailableReplicas d)
   \<and> (StatefulSetRolloutIncomplete s = '''' \<longleftrightarrow>
      s_Generation s \<le> s_ObservedGeneration s \<and> desired_replicas (s_Replicas_spec s) \<le> s_ReadyReplicas s
      \<and> (s_Strategy s = OnDelete
         \<or> (case s_Partition s of
              Some p \<Rightarrow> wrap32 (s_Replicas s - p) \<le> s_UpdatedReplicas s
            | None \<Rightarrow> s_UpdateRevision s = '''' \<or> s_UpdateRevision s = s_CurrentRevision s)))
   \<and> (DaemonSetRolloutIncomplete t = '''' \<longleftrightarrow>
      ds_Generation t \<le> ds_ObservedGeneration t
      \<and> (ds_Strategy t = OnDelete \<or> ds_DesiredNumberScheduled t \<le> ds_UpdatedNumberScheduled t)
      \<and> ds_DesiredNumberScheduled t \<le> ds_NumberAvailable t)
   \<and> (case IsDeploymentReady (Inr ds) release of
        Inl _ \<Rightarrow> False
      | Inr st \<Rightarrow> dst_Found st = (ds \<noteq> [])
          \<and> dst_Ready st = (ds \<noteq> [] \<and> list_all (\<lambda>d. RolloutIncomplete d = '''') ds))"
proof (intro conjI)
  show "RolloutIncomplete d = '''' \<longleftrightarrow>
      d_Generation d \<le> d_ObservedGeneration d \<and> desired_replicas (d_Replicas_spec d) \<le> d_UpdatedReplicas d
      \<and> d_Replicas d \<le> d_UpdatedReplicas d \<and> d_UpdatedReplicas d \<le> d_AvailableReplicas d"
    by (auto simp: RolloutIncomplete_def Let_def)
  show "StatefulSetRolloutIncomplete s = '''' \<longleftrightarrow>
      s_Generation s \<le> s_ObservedGeneration s \<and> desired_replicas (s_Replicas_spec s) \<le> s_ReadyReplicas s
      \<and> (s_Strategy s = OnDelete
         \<or> (case s_Partition s of
              Some p \<Rightarrow> wrap32 (s_Replicas s - p) \<le> s_UpdatedReplicas s
            | None \<Rightarrow> s_UpdateRevision s = '''' \<or> s_UpdateRevision s = s_CurrentRevision s))"
    by (cases "s_Strategy s"; cases "s_Partition s") (auto simp: StatefulSetRolloutIncomplete_def Let_def)
  show "DaemonSetRolloutIncomplete t = '''' \<longleftrightarrow>
      ds_Generation t \<le> ds_ObservedGeneration t
      \<and> (ds_Strategy t = OnDelete \<or> ds_DesiredNumberScheduled t \<le> ds_UpdatedNumberScheduled t)
      \<and> ds_DesiredNumberScheduled t \<le> ds_NumberAvailable t"
    by (cases "ds_Strategy t") (auto simp: DaemonSetRolloutIncomplete_def)
  show "case IsDeploymentReady (Inr ds) release of
        Inl _ \<Rightarrow> False
      | Inr st \<Rightarrow> dst_Found st = (ds \<noteq> [])
          \<and> dst_Ready st = (ds \<noteq> [] \<and> list_all (\<lambda>d. RolloutIncomplete d = '''') ds)"
    unfolding first_incomplete_None [symmetric]
    by (cases ds; cases "first_incomplete ds") (auto simp: IsDeploymentReady_def simp del: first_incomplete.simps split: prod.split)
qed

lemma add_new_set: "set (add_new out xs) = set out \<union> set xs"
  by (induction xs arbitrary: out) (auto simp: add_new_def)

lemma add_new_distinct: "distinct out \<Longrightarrow> distinct (add_new out xs)"
  by (induction xs arbitrary: out) (auto simp: add_new_def)

definition stuck :: "pod_lister \<Rightarrow> workloadReadiness \<Rightarrow> bool" where
  "stuck pods c \<longleftrightarrow> \<not> wr_ready c \<and>
     (\<exists>sel ps pod. wr_selector c = Some sel \<and> pods sel = Inr ps \<and> pod \<in> set ps \<and> podHardFailureReason pod \<noteq> '''')"

lemma podFailureReasons_set:
  "podFailureReasons pods sel = Inr rs \<Longrightarrow>
   rs \<noteq> [] \<longleftrightarrow> (\<exists>s ps pod. sel = Some s \<and> pods s = Inr ps \<and> pod \<in> set ps \<and> podHardFailureReason pod \<noteq> '''')"
proof (cases sel)
  case (Some s)
  assume h: "podFailureReasons pods sel = Inr rs"
  then obtain ps where ps: "pods s = Inr ps" "rs = add_new [] (filter (\<lambda>r. r \<noteq> '''') (map podHardFailureReason ps))"
    using Some by (auto simp: podFailureReasons_def split: sum.splits)
  then have "set rs = {r \<in> podHardFailureReason ` set ps. r \<noteq> ''''}" by (simp add: add_new_set)
  then have "rs \<noteq> [] \<longleftrightarrow> {r \<in> podHardFailureReason ` set ps. r \<noteq> ''''} \<noteq> {}" by (metis set_empty)
  then show ?thesis using Some ps(1) by auto
qed (simp add: podFailureReasons_def)

lemma classify_loop_spec:
  "classify_loop pods cs (n, rs) = Inr (n', rs') \<Longrightarrow>
   n' = n + length (filter (\<lambda>c. \<not> wr_ready c) cs) \<and> (rs' \<noteq> [] \<longleftrightarrow> rs \<noteq> [] \<or> list_ex (stuck pods) cs)"
proof (induction cs arbitrary: n rs)
  case (Cons c cs)
  show ?case
  proof (cases "wr_ready c")
    case True
    then show ?thesis using Cons by (simp add: stuck_def)
  next
    case False
    then obtain prs where prs: "podFailureReasons pods (wr_selector c) = Inr prs"
      "classify_loop pods cs (n + 1, add_new rs prs) = Inr (n', rs')"
      using Cons.prems by (auto split: sum.splits)
    have "add_new rs prs \<noteq> [] \<longleftrightarrow> rs \<noteq> [] \<or> prs \<noteq> []"
      using add_new_set [of rs prs] by (metis Un_empty set_empty)
    then show ?thesis
      using Cons.IH [OF prs(2)] podFailureReasons_set [OF prs(1)] False by (auto simp: stuck_def)
  qed
qed simp

lemma classify_phase:
  assumes "classifyHelmPhase pods cs = Inr (p, r, m)"
  shows "p = (if list_all wr_ready cs then PhaseRunning else if list_ex (stuck pods) cs then PhaseDegraded else PhasePending)"
proof -
  obtain n rs where h: "classify_loop pods cs (0, []) = Inr (n, rs)" "(p, r, m) = helmPhaseFromReadiness n (sort rs)"
    using assms by (auto simp: classifyHelmPhase_def split: sum.splits)
  have "n = 0 \<longleftrightarrow> list_all wr_ready cs" "sort rs \<noteq> [] \<longleftrightarrow> list_ex (stuck pods) cs"
    using classify_loop_spec [OF h(1)] by (auto simp: filter_empty_conv list_all_iff) (metis set_empty set_sort)+
  then show ?thesis using h(2) by (auto simp: helmPhaseFromReadiness_def split: if_splits)
qed

lemma newest_revision_max:
  assumes "l \<in> set ls" "ParseInt (mget l ''version'') = Some v" "n < v"
    and "\<And>l' v'. l' \<in> set ls \<Longrightarrow> l' \<noteq> l \<Longrightarrow> ParseInt (mget l' ''version'') = Some v' \<Longrightarrow> v' < v"
  shows "newest_revision ls (n, st) = (v, mget l ''status'')"
  using assms
proof (induction ls arbitrary: n st)
  case (Cons a ls)
  have stay: "newest_revision xs (v, t) = (v, t)" if "\<And>l' v'. l' \<in> set xs \<Longrightarrow> ParseInt (mget l' ''version'') = Some v' \<Longrightarrow> v' \<le> v" for xs t
    using that by (induction xs) (fastforce split: option.split)+
  show ?case
  proof (cases "a = l")
    case True
    have "v' \<le> v" if "l' \<in> set ls" "ParseInt (mget l' ''version'') = Some v'" for l' v'
      using Cons.prems(2,4) that by (cases "l' = l") force+
    then show ?thesis using True Cons.prems(2,3) stay [of ls] by simp
  next
    case False
    then have l: "l \<in> set ls" using Cons.prems(1) by simp
    have oth: "v' < v" if "l' \<in> set ls" "l' \<noteq> l" "ParseInt (mget l' ''version'') = Some v'" for l' v'
      using Cons.prems(4) [of l' v'] that by simp
    show ?thesis
    proof (cases "ParseInt (mget a ''version'')")
      case None
      then show ?thesis using Cons.IH [OF l Cons.prems(2,3) oth] by simp
    next
      case (Some va)
      then have "va < v" using Cons.prems(4) [of a va] False by simp
      then show ?thesis using Some Cons.IH [OF l Cons.prems(2) _ oth] Cons.prems(3) by simp
    qed
  qed
qed simp

text \<open>
  The status of a Helm release is the status of its newest revision: of the release secrets,
  the one whose version label is the greatest number decides, wherever it is in the list and
  whatever secrets without a readable version say; and a release exists exactly when it has a secret.
\<close>

theorem newest_revision_decides:
  assumes "l \<in> set ls" and "ParseInt (mget l ''version'') = Some v" and "0 \<le> v"
    and "\<And>l' v'. l' \<in> set ls \<Longrightarrow> l' \<noteq> l \<Longrightarrow> ParseInt (mget l' ''version'') = Some v' \<Longrightarrow> v' < v"
  shows "helmReleaseStatus (Inr ls) = Inr \<lparr>hr_exists = True, hr_status = mget l ''status''\<rparr>"
proof -
  have "newest_revision ls (-1, '''') = (v, mget l ''status'')"
    using newest_revision_max [OF assms(1,2) _ assms(4), of "-1"] assms(3) by simp
  then show ?thesis using assms(1) by (cases ls) (simp_all add: helmReleaseStatus_def del: newest_revision.simps)
qed

theorem newest_revision_decides_witness:
  "helmReleaseStatus (Inr [[''version'' \<mapsto> ''9'', ''status'' \<mapsto> ''superseded''],
      [''version'' \<mapsto> ''10'', ''status'' \<mapsto> ''failed''], [''status'' \<mapsto> ''deployed'']])
   = Inr \<lparr>hr_exists = True, hr_status = ''failed''\<rparr>"
proof -
  let ?l = "[''version'' \<mapsto> ''10'', ''status'' \<mapsto> ''failed'']"
  have e: "ParseInt ''10'' = Some 10" "ParseInt ''9'' = Some 9" "ParseInt '''' = None"
    by (simp_all add: ParseInt_def is_digit_def read_nat_def digit_val_def int64_def)
  have "mget ?l ''version'' = ''10''" "mget ?l ''status'' = ''failed''" by (simp_all add: mget_def)
  moreover have "v' < 10" if "l' \<in> set [[''version'' \<mapsto> ''9'', ''status'' \<mapsto> ''superseded''], ?l, [''status'' \<mapsto> ''deployed'']]"
      "l' \<noteq> ?l" "ParseInt (mget l' ''version'') = Some v'" for l' v'
    using that e by (auto simp: mget_def)
  ultimately show ?thesis
    using newest_revision_decides [of ?l "[[''version'' \<mapsto> ''9'', ''status'' \<mapsto> ''superseded''], ?l, [''status'' \<mapsto> ''deployed'']]" 10] e
    by simp
qed

text \<open>The controllers of a release, as \<open>helmManagedControllers\<close> returns them.\<close>

definition owned_controllers :: "helm_reader \<Rightarrow> string \<Rightarrow> string \<Rightarrow> err + workloadReadiness list" where
  "owned_controllers hl ns release =
     helmManagedControllers (hl_deployments hl ns) (hl_statefulsets hl ns) (hl_daemonsets hl ns) release"

lemma setReady_simps [simp]:
  "st_Phase (Status (setReady s r m w)) = st_Phase (Status w)"
  "Conditions (Status (setReady s r m w)) conditionTypeReady =
     Some \<lparr>c_Status = s, c_Reason = r, c_Message = m, c_ObservedGeneration = wl_Generation w\<rparr>"
  "st_Phase (Status (setPhase p w)) = p" "wl_Generation (setPhase p w) = wl_Generation w"
  by (simp_all add: setReady_def setCondition_def setPhase_def)

definition ready_status :: "AIWorkload \<Rightarrow> ConditionStatus option" where
  "ready_status w = map_option c_Status (Conditions (Status w) conditionTypeReady)"

text \<open>
  The phase of a Helm workload follows the release and its pods: unknown exactly when there is
  no release; while a release operation is pending, pending; a failed release is degraded even when
  it left no controllers behind; otherwise running exactly when every controller that carries the
  release's name has rolled out, degraded exactly when some controller that has not is stuck on a
  hard pod failure, and pending when it is merely starting. The Ready condition is true exactly for
  a running workload.
\<close>

theorem helm_phase:
  assumes "SourceApp (Spec w) = Some app" and "reconcileHelmStatus hl w = Inr w'"
    and "helmReleaseStatus (hl_secrets hl (TargetNamespace (Spec w)) (app_Release app)) = Inr st"
  shows "(ready_status w' = Some ConditionTrue \<longleftrightarrow> st_Phase (Status w') = PhaseRunning)
    \<and> st_Phase (Status w') =
       (if \<not> hr_exists st then PhaseUnknown
        else if has_prefix (hr_status st) ''pending'' then PhasePending
        else if hr_status st = ''failed'' then PhaseDegraded
        else case owned_controllers hl (TargetNamespace (Spec w)) (app_Release app) of
               Inl _ \<Rightarrow> st_Phase (Status w')
             | Inr cs \<Rightarrow>
                 if list_all wr_ready cs then PhaseRunning
                 else if list_ex (stuck (hl_pods hl (TargetNamespace (Spec w)))) cs then PhaseDegraded
                 else PhasePending)"
proof (cases "\<not> hr_exists st \<or> has_prefix (hr_status st) ''pending'' \<or> hr_status st = ''failed''")
  case True
  then have "w' = (if \<not> hr_exists st then
            setReady ConditionUnknown ''ReleaseNotFound'' ''No Helm release found for this workload yet''
                   (w\<lparr>Status := (Status w)\<lparr>st_Phase := PhaseUnknown, ClusterStatuses := []\<rparr>\<rparr>)
          else if has_prefix (hr_status st) ''pending'' then
            setReady ConditionFalse ''ReleasePending'' ''Helm release operation in progress'' (setPhase PhasePending w)
          else setReady ConditionFalse ''ReleaseFailed'' ''Helm release install or upgrade failed'' (setPhase PhaseDegraded w))"
    using assms by (auto simp: reconcileHelmStatus_def split: if_splits)
  then show ?thesis using True by (auto simp: ready_status_def)
next
  case False
  then obtain cs p r m where cs: "owned_controllers hl (TargetNamespace (Spec w)) (app_Release app) = Inr cs"
    and p: "classifyHelmPhase (hl_pods hl (TargetNamespace (Spec w))) cs = Inr (p, r, m)"
    and w': "w' = setReady (if p = PhaseRunning then ConditionTrue else ConditionFalse) r (truncateForCondition m) (setPhase p w)"
    using assms by (auto simp: reconcileHelmStatus_def owned_controllers_def ebind_Inr_iff)
  show ?thesis using False cs classify_phase [OF p] by (auto simp: w' ready_status_def)
qed

definition example_app :: AppSource where
  "example_app = \<lparr>app_ChartRepo = ''r'', app_ChartName = ''c'', app_ChartVersion = ''1'', app_Release = ''rel'', app_Vendor = VendorSUSE\<rparr>"

definition example_app_workload :: AIWorkload where
  "example_app_workload = example_workload\<lparr>Spec := example_spec\<lparr>SourceType := AIWorkloadSourceApp,
     SourceApp := Some example_app, SourceBlueprint := None, DeployStrategy := AIWorkloadDeployHelm\<rparr>\<rparr>"

definition example_deployment :: Deployment where
  "example_deployment = \<lparr>d_Name = ''api'', d_Annotations = [helmReleaseNameAnnotation \<mapsto> ''rel''], d_Selector = Some ''app=api'',
     d_Generation = 2, d_Replicas_spec = Some 1, d_ObservedGeneration = 2, d_Replicas = 2, d_UpdatedReplicas = 1, d_AvailableReplicas = 1\<rparr>"

definition example_helm :: "Pod list \<Rightarrow> helm_reader" where
  "example_helm pods = \<lparr>hl_secrets = \<lambda>_ _. Inr [[''version'' \<mapsto> ''1'', ''status'' \<mapsto> ''deployed'']],
     hl_deployments = \<lambda>_. Inr [example_deployment], hl_statefulsets = \<lambda>_. Inr [], hl_daemonsets = \<lambda>_. Inr [],
     hl_pods = \<lambda>_ _. Inr pods\<rparr>"

text \<open>A rollout with an old pod left and a new pod that cannot pull its image.\<close>

theorem helm_phase_witness:
  "\<exists>w'. reconcileHelmStatus (example_helm [\<lparr>p_InitWaiting = [], p_Waiting = [Some ''ImagePullBackOff''], p_Conditions = []\<rparr>])
      example_app_workload = Inr w' \<and> st_Phase (Status w') = PhaseDegraded"
proof -
  let ?hl = "example_helm [\<lparr>p_InitWaiting = [], p_Waiting = [Some ''ImagePullBackOff''], p_Conditions = []\<rparr>]"
  have app: "SourceApp (Spec example_app_workload) = Some example_app" by (simp add: example_app_workload_def)
  have e: "ParseInt ''1'' = Some 1" by (simp add: ParseInt_def is_digit_def read_nat_def digit_val_def int64_def)
  have st: "helmReleaseStatus (hl_secrets ?hl (TargetNamespace (Spec example_app_workload)) (app_Release example_app)) =
      Inr \<lparr>hr_exists = True, hr_status = ''deployed''\<rparr>"
    by (simp add: example_helm_def helmReleaseStatus_def mget_def e)
  have ri: "RolloutIncomplete example_deployment \<noteq> ''''"
    by (simp add: RolloutIncomplete_def example_deployment_def desired_replicas_def)
  have own: "owned_controllers ?hl (TargetNamespace (Spec example_app_workload)) (app_Release example_app) =
      Inr [\<lparr>wr_kind = ''Deployment'', wr_name = ''api'', wr_ready = False, wr_selector = Some ''app=api''\<rparr>]"
    using ri by (simp add: owned_controllers_def helmManagedControllers_def example_helm_def)
      (simp add: example_deployment_def example_app_def)
  have "\<exists>w'. reconcileHelmStatus ?hl example_app_workload = Inr w'"
    using app st own by (simp add: reconcileHelmStatus_def owned_controllers_def has_prefix_def)
      (simp add: classifyHelmPhase_def podFailureReasons_def example_helm_def helmPhaseFromReadiness_def)
  then obtain w' where w': "reconcileHelmStatus ?hl example_app_workload = Inr w'" ..
  have "stuck (hl_pods ?hl ns) \<lparr>wr_kind = ''Deployment'', wr_name = ''api'', wr_ready = False, wr_selector = Some ''app=api''\<rparr>" for ns
    by (simp add: stuck_def example_helm_def podHardFailureReason_def waitingHardFailure_def podHardFailureReasons_def)
  then have "st_Phase (Status w') = PhaseDegraded"
    using helm_phase [OF app w' st] own by (simp add: has_prefix_def)
  then show ?thesis using w' by blast
qed

end
