(* ===== verification/Values.thy ===== *)
theory Values
  imports Readiness
begin

text \<open>
  The Helm values of a blueprint component (\<open>internal/controller/aiworkload/blueprint.go\<close>):
  which components are enabled, how a workload's overrides are merged into the blueprint's values,
  and how the injectors wire the pull secrets into them. A Go \<open>map[string]any\<close> is a JSON object;
  the nil map is \<open>None\<close>. A number is its literal. The deep merge is that of the \<open>mergo\<close>
  library and a parameter.
\<close>

section \<open>Overrides\<close>

definition isComponentEnabled :: "AIWorkload \<Rightarrow> string \<Rightarrow> bool" where
  "isComponentEnabled w chartName =
     (case find (\<lambda>ov. ov_ComponentName ov = chartName) (ComponentValues (Spec w)) of
        None \<Rightarrow> True
      | Some ov \<Rightarrow> (case ov_Enabled ov of None \<Rightarrow> True | Some b \<Rightarrow> b))"

definition filterEnabledComponents :: "AIWorkload \<Rightarrow> BlueprintComponent list \<Rightarrow> BlueprintComponent list" where
  "filterEnabledComponents w components = filter (\<lambda>c. isComponentEnabled w (bc_ChartName c)) components"

text \<open>\<open>json.Unmarshal\<close> into a map: \<open>null\<close> makes it nil, anything but an object is an error.\<close>

definition unmarshal_map :: "string \<Rightarrow> err + jmap option" where
  "unmarshal_map raw =
     (case unmarshal raw of
        Some (JObj m) \<Rightarrow> Inr (Some m)
      | Some JNull \<Rightarrow> Inr None
      | _ \<Rightarrow> Inl (Err SOther ''json''))"

type_synonym merger = "jmap option \<Rightarrow> jmap option \<Rightarrow> err + jmap option"

definition resolveComponentValues :: "merger \<Rightarrow> AIWorkload \<Rightarrow> BlueprintComponent \<Rightarrow> err + jmap option" where
  "resolveComponentValues merge w c =
     ebind (case bc_Values c of
              None \<Rightarrow> Inr (Some [])
            | Some raw \<Rightarrow> (case unmarshal_map raw of
                 Inl e \<Rightarrow> Inl (wrap_err (''unmarshal blueprint values for '' @ bc_ChartName c) e) | Inr v \<Rightarrow> Inr v)) (\<lambda>vals.
     case find (\<lambda>ov. ov_ComponentName ov = bc_ChartName c \<and> ov_Values ov \<noteq> None) (ComponentValues (Spec w)) of
       None \<Rightarrow> Inr vals
     | Some ov \<Rightarrow>
         (case unmarshal_map (the (ov_Values ov)) of
            Inl e \<Rightarrow> Inl (wrap_err (''unmarshal component override for '' @ bc_ChartName c) e)
          | Inr override \<Rightarrow>
              (case merge vals override of
                 Inl e \<Rightarrow> Inl (wrap_err (''merge component override for '' @ bc_ChartName c) e)
               | Inr merged \<Rightarrow> Inr merged)))"

definition map_len :: "jmap option \<Rightarrow> nat" where
  "map_len m = (case m of None \<Rightarrow> 0 | Some kvs \<Rightarrow> length kvs)"

text \<open>The second loop of \<open>isWorkloadCustomized\<close>.\<close>

fun values_differ :: "merger \<Rightarrow> AIWorkload \<Rightarrow> BlueprintComponent list \<Rightarrow> err + bool" where
  "values_differ merge w [] = Inr False"
| "values_differ merge w (c # cs) =
     ebind (case bc_Values c of
              None \<Rightarrow> Inr None
            | Some raw \<Rightarrow> if raw = '''' then Inr None
                          else (case unmarshal_map raw of
                            Inl e \<Rightarrow> Inl (wrap_err (''unmarshal blueprint base values for '' @ bc_ChartName c) e)
                          | Inr v \<Rightarrow> Inr v)) (\<lambda>base.
     case resolveComponentValues merge w c of
       Inl e \<Rightarrow> Inl (wrap_err (''resolve component values for '' @ bc_ChartName c) e)
     | Inr resolved \<Rightarrow>
         if (0 < map_len base \<or> 0 < map_len resolved) \<and> base \<noteq> resolved then Inr True
         else values_differ merge w cs)"

definition isWorkloadCustomized :: "merger \<Rightarrow> AIWorkload \<Rightarrow> BlueprintComponent list option \<Rightarrow> err + bool" where
  "isWorkloadCustomized merge w bp =
     (case bp of
        None \<Rightarrow> Inr False
      | Some components \<Rightarrow>
          if list_ex (\<lambda>c. \<not> isComponentEnabled w (bc_ChartName c)) components then Inr True
          else values_differ merge w components)"

section \<open>Pull-secret references\<close>

definition nvidiaImagePullSecretName :: string where "nvidiaImagePullSecretName = ''ngc-secret''"
definition nvidiaAPISecretName :: string where "nvidiaAPISecretName = ''ngc-api''"
definition nvidiaNgcImagePullSecretNameKey :: string where "nvidiaNgcImagePullSecretNameKey = ''ngcImagePullSecretName''"

fun is_named :: "string \<Rightarrow> json \<Rightarrow> bool" where
  "is_named name (JObj m) = (obj_get m ''name'' = Some (JStr name))"
| "is_named name _ = False"

definition containsObjectNamed :: "json list \<Rightarrow> string \<Rightarrow> bool" where
  "containsObjectNamed xs name = list_ex (is_named name) xs"

definition containsString :: "json list \<Rightarrow> string \<Rightarrow> bool" where
  "containsString xs s = list_ex (\<lambda>j. j = JStr s) xs"

text \<open>A value that Go sees as nil: absent or null.\<close>

definition is_nil :: "json option \<Rightarrow> bool" where
  "is_nil v \<longleftrightarrow> v = None \<or> v = Some JNull"

text \<open>Prepending the secret to the list at \<open>key\<close>, in the form the chart reads.\<close>

definition add_secret_ref :: "json \<Rightarrow> (json list \<Rightarrow> bool) \<Rightarrow> string \<Rightarrow> jmap \<Rightarrow> jmap" where
  "add_secret_ref entry present key m =
     (case obj_get m key of
        None \<Rightarrow> obj_set key (JArr [entry]) m
      | Some JNull \<Rightarrow> obj_set key (JArr [entry]) m
      | Some (JArr xs) \<Rightarrow> if present xs then m else obj_set key (JArr (entry # xs)) m
      | Some _ \<Rightarrow> m)"

definition flat_ref :: "string \<Rightarrow> jmap \<Rightarrow> jmap" where
  "flat_ref = add_secret_ref (JStr nvidiaImagePullSecretName) (\<lambda>xs. containsString xs nvidiaImagePullSecretName)"

text \<open>The map at \<open>key\<close>, created with \<open>fresh\<close> when absent and left alone when it is not a map.\<close>

definition in_submap :: "string \<Rightarrow> jmap \<Rightarrow> (jmap \<Rightarrow> jmap) \<Rightarrow> jmap \<Rightarrow> jmap" where
  "in_submap key fresh f m =
     (case obj_get m key of
        None \<Rightarrow> obj_set key (JObj fresh) m
      | Some (JObj sub) \<Rightarrow> obj_set key (JObj (f sub)) m
      | Some _ \<Rightarrow> m)"

definition secret_list :: "string \<Rightarrow> jmap" where
  "secret_list listKey = [(listKey, JArr [JStr nvidiaImagePullSecretName])]"

definition injectFlatPullSecretList :: "string \<Rightarrow> string \<Rightarrow> jmap \<Rightarrow> jmap" where
  "injectFlatPullSecretList topKey listKey = in_submap topKey (secret_list listKey) (flat_ref listKey)"

definition injectNestedFlatPullSecretList :: "string \<Rightarrow> string \<Rightarrow> string \<Rightarrow> jmap \<Rightarrow> jmap" where
  "injectNestedFlatPullSecretList topKey midKey listKey =
     in_submap topKey [(midKey, JObj (secret_list listKey))]
       (in_submap midKey (secret_list listKey) (flat_ref listKey))"

definition setScalarSecretName :: "string \<Rightarrow> jmap \<Rightarrow> jmap" where
  "setScalarSecretName key m =
     (if is_nil (obj_get m key) \<or> obj_get m key = Some (JStr '''') then obj_set key (JStr nvidiaImagePullSecretName) m else m)"

definition injectNgcImagePullSecretName :: "jmap \<Rightarrow> jmap" where
  "injectNgcImagePullSecretName vals =
     (let v1 = setScalarSecretName nvidiaNgcImagePullSecretNameKey vals
      in case obj_get v1 ''global'' of
           Some (JObj g) \<Rightarrow> obj_set ''global'' (JObj (setScalarSecretName nvidiaNgcImagePullSecretNameKey g)) v1
         | g \<Rightarrow> if is_nil g then
                  obj_set ''global'' (JObj [(nvidiaNgcImagePullSecretNameKey, JStr nvidiaImagePullSecretName)]) v1
                else v1)"

definition injectNvidiaPullSecretRefs :: "jmap \<Rightarrow> jmap" where
  "injectNvidiaPullSecretRefs vals =
     injectNgcImagePullSecretName
       (injectNestedFlatPullSecretList ''operator'' ''image'' ''pullSecrets''
         (injectFlatPullSecretList ''image'' ''pullSecrets''
           (add_secret_ref (JObj [(''name'', JStr nvidiaImagePullSecretName)])
              (\<lambda>xs. containsObjectNamed xs nvidiaImagePullSecretName) ''imagePullSecrets'' vals)))"

definition disableChartSecretCreation :: "string \<Rightarrow> string \<Rightarrow> jmap \<Rightarrow> jmap" where
  "disableChartSecretCreation key name vals =
     (case obj_get vals key of
        Some (JObj existing) \<Rightarrow>
          let e1 = obj_set ''create'' (JBool False) existing
          in obj_set key (JObj (if is_nil (obj_get e1 ''name'') \<or> obj_get e1 ''name'' = Some (JStr '''')
                                then obj_set ''name'' (JStr name) e1 else e1)) vals
      | _ \<Rightarrow> obj_set key (JObj [(''create'', JBool False), (''name'', JStr name)]) vals)"

text \<open>The value paths of \<open>suseInjector.Apply\<close>, once the combined secret exists.\<close>

definition injectSusePullSecretRefs :: "string \<Rightarrow> jmap \<Rightarrow> jmap" where
  "injectSusePullSecretRefs name vals =
     (let refs = JArr [JObj [(''name'', JStr name)]];
          v1 = obj_set ''imagePullSecrets'' refs vals;
          global = (case obj_get v1 ''global'' of Some (JObj g) \<Rightarrow> g | _ \<Rightarrow> [])
      in obj_set ''global'' (JObj (obj_set ''imagePullSecrets'' refs global)) v1)"

section \<open>What the injections guarantee\<close>

lemma obj_set_same: "obj_get m k = Some v \<Longrightarrow> canon_map m \<Longrightarrow> obj_set k v m = m"
proof (induction k v m rule: obj_set.induct)
  case (2 k v k' v' kvs)
  have "k < k' \<Longrightarrow> obj_get kvs k = None"
    using "2.prems"(2) by (auto simp: map_of_eq_None_iff)
  then show ?case using 2 by (auto split: if_splits)
qed simp

lemma obj_set_twice: "obj_set k v (obj_set k u m) = obj_set k v m"
  by (induction k u m rule: obj_set.induct) auto

text \<open>Every step changes the value at one key; \<open>None\<close> leaves the map as it is.\<close>

definition upd_at :: "string \<Rightarrow> (json option \<Rightarrow> json option) \<Rightarrow> jmap \<Rightarrow> jmap" where
  "upd_at k g m = (case g (obj_get m k) of None \<Rightarrow> m | Some v \<Rightarrow> obj_set k v m)"

definition settles :: "(json option \<Rightarrow> json option) \<Rightarrow> bool" where
  "settles g \<longleftrightarrow> (\<forall>v u. g v = Some u \<longrightarrow> g (Some u) \<in> {None, Some u})"

definition fixed_at :: "string \<Rightarrow> (json option \<Rightarrow> json option) \<Rightarrow> jmap \<Rightarrow> bool" where
  "fixed_at k g m \<longleftrightarrow> g (obj_get m k) \<in> {None, obj_get m k}"

lemma upd_at_get: "obj_get (upd_at k g m) k' = (if k' = k then (case g (obj_get m k) of None \<Rightarrow> obj_get m k | Some v \<Rightarrow> Some v) else obj_get m k')"
  by (simp add: upd_at_def split: option.split)

lemma upd_at_canon: "canon_map m \<Longrightarrow> canon_map (upd_at k g m)"
  by (simp add: upd_at_def obj_set_canon split: option.split)

lemma upd_at_settled: "settles g \<Longrightarrow> fixed_at k g (upd_at k g m)"
  by (cases "g (obj_get m k)") (auto simp: fixed_at_def upd_at_get settles_def)

lemma upd_at_other: "k \<noteq> k' \<Longrightarrow> fixed_at k g (upd_at k' g' m) = fixed_at k g m"
  by (simp add: fixed_at_def upd_at_get)

lemma upd_at_fixed: "canon_map m \<Longrightarrow> fixed_at k g m \<Longrightarrow> upd_at k g m = m"
  by (auto simp: fixed_at_def upd_at_def obj_set_same split: option.split)

definition ref_value :: "json \<Rightarrow> (json list \<Rightarrow> bool) \<Rightarrow> json option \<Rightarrow> json option" where
  "ref_value entry present v =
     (case v of None \<Rightarrow> Some (JArr [entry]) | Some JNull \<Rightarrow> Some (JArr [entry])
      | Some (JArr xs) \<Rightarrow> if present xs then None else Some (JArr (entry # xs)) | Some _ \<Rightarrow> None)"

definition sub_value :: "jmap \<Rightarrow> (jmap \<Rightarrow> jmap) \<Rightarrow> json option \<Rightarrow> json option" where
  "sub_value fresh f v = (case v of None \<Rightarrow> Some (JObj fresh) | Some (JObj sub) \<Rightarrow> Some (JObj (f sub)) | Some _ \<Rightarrow> None)"

definition scalar_value :: "json option \<Rightarrow> json option" where
  "scalar_value v = (if is_nil v \<or> v = Some (JStr '''') then Some (JStr nvidiaImagePullSecretName) else None)"

definition global_value :: "json option \<Rightarrow> json option" where
  "global_value v = (case v of
       Some (JObj g) \<Rightarrow> Some (JObj (upd_at nvidiaNgcImagePullSecretNameKey scalar_value g))
     | g \<Rightarrow> if is_nil g then Some (JObj [(nvidiaNgcImagePullSecretNameKey, JStr nvidiaImagePullSecretName)]) else None)"

lemma add_secret_ref_upd: "add_secret_ref entry present k m = upd_at k (ref_value entry present) m"
  by (auto simp: add_secret_ref_def upd_at_def ref_value_def split: option.split json.split)

lemma in_submap_upd: "in_submap k fresh f m = upd_at k (sub_value fresh f) m"
  by (auto simp: in_submap_def upd_at_def sub_value_def split: option.split json.split)

lemma setScalar_upd: "setScalarSecretName k m = upd_at k scalar_value m"
  by (simp add: setScalarSecretName_def upd_at_def scalar_value_def)

lemma injectNgc_upd:
  "injectNgcImagePullSecretName m =
     upd_at ''global'' global_value (upd_at nvidiaNgcImagePullSecretNameKey scalar_value m)"
  by (cases "obj_get (upd_at nvidiaNgcImagePullSecretNameKey scalar_value m) ''global''")
    (auto simp: injectNgcImagePullSecretName_def Let_def setScalar_upd upd_at_def [of "''global''"] global_value_def
      split: json.split)

lemma flat_ref_upd: "flat_ref k m = upd_at k (ref_value (JStr nvidiaImagePullSecretName) (\<lambda>xs. containsString xs nvidiaImagePullSecretName)) m"
  by (simp add: flat_ref_def add_secret_ref_upd)

lemma settles_ref: "(\<And>xs. present (entry # xs)) \<Longrightarrow> settles (ref_value entry present)"
  by (auto simp: settles_def ref_value_def split: option.splits json.splits if_splits)

lemma settles_sub: "f fresh = fresh \<Longrightarrow> (\<And>m. f (f m) = f m) \<Longrightarrow> settles (sub_value fresh f)"
  by (auto simp: settles_def sub_value_def split: option.splits json.splits)

lemma settles_scalar: "settles scalar_value"
  by (auto simp: settles_def scalar_value_def is_nil_def nvidiaImagePullSecretName_def)

lemma upd_at_ref_idem:
  assumes "settles g"
  shows "upd_at k g (upd_at k g m) = upd_at k g m"
proof (cases "g (obj_get m k)")
  case None
  then show ?thesis by (simp add: upd_at_def)
next
  case (Some u)
  then have "g (Some u) \<in> {None, Some u}" using assms by (auto simp: settles_def)
  then show ?thesis using Some by (auto simp: upd_at_def obj_set_twice)
qed

lemma present_refs: "containsString (JStr s # xs) s" "containsObjectNamed (JObj [(''name'', JStr s)] # xs) s"
  by (simp_all add: containsString_def containsObjectNamed_def)

lemma flat_ref_idem: "flat_ref k (flat_ref k m) = flat_ref k m"
  unfolding flat_ref_upd by (rule upd_at_ref_idem, rule settles_ref) (simp add: present_refs)

lemma flat_ref_fresh: "flat_ref k (secret_list k) = secret_list k"
  by (simp add: flat_ref_def add_secret_ref_def secret_list_def containsString_def)

lemma settles_flat: "settles (sub_value (secret_list k) (flat_ref k))"
  by (rule settles_sub) (simp_all add: flat_ref_idem flat_ref_fresh)

lemma settles_nested:
  "settles (sub_value [(mid, JObj (secret_list k))] (in_submap mid (secret_list k) (flat_ref k)))"
proof (rule settles_sub)
  show "in_submap mid (secret_list k) (flat_ref k) [(mid, JObj (secret_list k))] = [(mid, JObj (secret_list k))]"
    by (simp add: in_submap_def flat_ref_fresh)
  show "in_submap mid (secret_list k) (flat_ref k) (in_submap mid (secret_list k) (flat_ref k) m) =
      in_submap mid (secret_list k) (flat_ref k) m" for m
    unfolding in_submap_upd by (rule upd_at_ref_idem [OF settles_flat])
qed

lemma settles_global: "settles global_value"
proof -
  have "upd_at k scalar_value (upd_at k scalar_value g) = upd_at k scalar_value g" for k g
    by (rule upd_at_ref_idem [OF settles_scalar])
  moreover have "upd_at k scalar_value [(k, JStr nvidiaImagePullSecretName)] = [(k, JStr nvidiaImagePullSecretName)]" for k
    by (simp add: upd_at_def scalar_value_def is_nil_def nvidiaImagePullSecretName_def)
  ultimately show ?thesis
    by (auto simp: settles_def global_value_def is_nil_def split: option.splits json.splits if_splits)
qed

text \<open>The five steps, by key.\<close>

definition nvidia_steps :: "(string \<times> (json option \<Rightarrow> json option)) list" where
  "nvidia_steps =
     [(''imagePullSecrets'', ref_value (JObj [(''name'', JStr nvidiaImagePullSecretName)])
         (\<lambda>xs. containsObjectNamed xs nvidiaImagePullSecretName)),
      (''image'', sub_value (secret_list ''pullSecrets'') (flat_ref ''pullSecrets'')),
      (''operator'', sub_value [(''image'', JObj (secret_list ''pullSecrets''))]
         (in_submap ''image'' (secret_list ''pullSecrets'') (flat_ref ''pullSecrets''))),
      (nvidiaNgcImagePullSecretNameKey, scalar_value),
      (''global'', global_value)]"

definition apply_steps :: "(string \<times> (json option \<Rightarrow> json option)) list \<Rightarrow> jmap \<Rightarrow> jmap" where
  "apply_steps steps m = foldl (\<lambda>m (k, g). upd_at k g m) m steps"

lemma injectNvidia_steps: "injectNvidiaPullSecretRefs m = apply_steps nvidia_steps m"
  by (simp add: injectNvidiaPullSecretRefs_def apply_steps_def nvidia_steps_def injectNgc_upd
      injectFlatPullSecretList_def injectNestedFlatPullSecretList_def in_submap_upd add_secret_ref_upd)

lemma apply_steps_canon: "canon_map m \<Longrightarrow> canon_map (apply_steps steps m)"
  by (induction steps arbitrary: m) (auto simp: apply_steps_def upd_at_canon)

lemma apply_steps_other: "k \<notin> set (map fst steps) \<Longrightarrow> obj_get (apply_steps steps m) k = obj_get m k"
  by (induction steps arbitrary: m) (auto simp: apply_steps_def upd_at_get)

lemma apply_steps_get:
  "distinct (map fst steps) \<Longrightarrow> (k, g) \<in> set steps \<Longrightarrow>
   obj_get (apply_steps steps m) k = (case g (obj_get m k) of None \<Rightarrow> obj_get m k | Some v \<Rightarrow> Some v)"
proof (induction steps arbitrary: m)
  case (Cons s steps)
  obtain k0 g0 where s: "s = (k0, g0)" by (cases s)
  show ?case
  proof (cases "(k, g) = s")
    case True
    then have "k \<notin> set (map fst steps)" using Cons.prems(1) s by auto
    moreover have "k = k0" "g = g0" using True s by auto
    ultimately show ?thesis using apply_steps_other [of k steps "upd_at k0 g0 m"] s
      by (simp add: apply_steps_def upd_at_get split: option.split)
  next
    case False
    then have "(k, g) \<in> set steps" "k \<noteq> k0" using Cons.prems s by (auto simp: rev_image_eqI)
    then show ?thesis using Cons.IH [of "upd_at k0 g0 m"] Cons.prems(1) s
      by (simp add: apply_steps_def upd_at_get split: option.split)
  qed
qed simp

lemma apply_steps_fixed:
  "canon_map m \<Longrightarrow> (\<And>k g. (k, g) \<in> set steps \<Longrightarrow> fixed_at k g m) \<Longrightarrow> apply_steps steps m = m"
  by (induction steps) (auto simp: apply_steps_def upd_at_fixed)

lemma apply_steps_idem:
  assumes "canon_map m" "distinct (map fst steps)" "\<And>k g. (k, g) \<in> set steps \<Longrightarrow> settles g"
  shows "apply_steps steps (apply_steps steps m) = apply_steps steps m"
proof (rule apply_steps_fixed [OF apply_steps_canon [OF assms(1)]])
  fix k g assume "(k, g) \<in> set steps"
  then show "fixed_at k g (apply_steps steps m)"
    using assms(3) apply_steps_get [OF assms(2), of k g m]
    by (cases "g (obj_get m k)") (auto simp: fixed_at_def settles_def)
qed

lemma nvidia_steps_ok:
  "distinct (map fst nvidia_steps)" "(k, g) \<in> set nvidia_steps \<Longrightarrow> settles g"
  by (auto simp: nvidia_steps_def nvidiaNgcImagePullSecretNameKey_def settles_flat settles_nested settles_scalar
      settles_global intro!: settles_ref present_refs)

definition nvidia_keys :: "string list" where
  "nvidia_keys = [''imagePullSecrets'', ''image'', ''operator'', ''ngcImagePullSecretName'', ''global'']"

text \<open>
  Wiring the NVIDIA pull secret into a component's values is safe to repeat and keeps what the
  author wrote: applying it twice is applying it once; a key it does not own is untouched; an author's
  list of pull secrets survives as the tail of the new list, which names the secret; a missing or
  null list becomes one that names it; a list, string or other value where a map is expected is left
  alone; and a nonempty secret name chosen by the author stays.
\<close>

theorem nvidia_values_wired:
  assumes "canon_map m"
  shows "injectNvidiaPullSecretRefs (injectNvidiaPullSecretRefs m) = injectNvidiaPullSecretRefs m
    \<and> (\<forall>k. k \<notin> set nvidia_keys \<longrightarrow> obj_get (injectNvidiaPullSecretRefs m) k = obj_get m k)
    \<and> (\<forall>xs. obj_get m ''imagePullSecrets'' = Some (JArr xs) \<longrightarrow>
         (\<exists>pre. obj_get (injectNvidiaPullSecretRefs m) ''imagePullSecrets'' = Some (JArr (pre @ xs))
            \<and> containsObjectNamed (pre @ xs) ''ngc-secret''))
    \<and> (is_nil (obj_get m ''imagePullSecrets'') \<longrightarrow>
         obj_get (injectNvidiaPullSecretRefs m) ''imagePullSecrets'' = Some (JArr [JObj [(''name'', JStr ''ngc-secret'')]]))
    \<and> (\<forall>v. obj_get m ''image'' = Some v \<and> (\<forall>sub. v \<noteq> JObj sub) \<longrightarrow>
         obj_get (injectNvidiaPullSecretRefs m) ''image'' = Some v)
    \<and> (\<forall>s. obj_get m ''ngcImagePullSecretName'' = Some (JStr s) \<and> s \<noteq> '''' \<longrightarrow>
         obj_get (injectNvidiaPullSecretRefs m) ''ngcImagePullSecretName'' = Some (JStr s))"
proof (intro conjI allI impI)
  note get = apply_steps_get [OF nvidia_steps_ok(1), of _ _ m]
  have keys: "map fst nvidia_steps = nvidia_keys"
    by (simp add: nvidia_steps_def nvidia_keys_def nvidiaNgcImagePullSecretNameKey_def)
  have mem: "(''imagePullSecrets'', ref_value (JObj [(''name'', JStr nvidiaImagePullSecretName)])
         (\<lambda>xs. containsObjectNamed xs nvidiaImagePullSecretName)) \<in> set nvidia_steps"
    "(''image'', sub_value (secret_list ''pullSecrets'') (flat_ref ''pullSecrets'')) \<in> set nvidia_steps"
    "(''ngcImagePullSecretName'', scalar_value) \<in> set nvidia_steps"
    by (simp_all add: nvidia_steps_def nvidiaNgcImagePullSecretNameKey_def)
  have ngc: "nvidiaImagePullSecretName = ''ngc-secret''" by (simp add: nvidiaImagePullSecretName_def)
  show "injectNvidiaPullSecretRefs (injectNvidiaPullSecretRefs m) = injectNvidiaPullSecretRefs m"
    unfolding injectNvidia_steps by (rule apply_steps_idem [OF assms nvidia_steps_ok])
  show "obj_get (injectNvidiaPullSecretRefs m) k = obj_get m k" if "k \<notin> set nvidia_keys" for k
    unfolding injectNvidia_steps by (rule apply_steps_other) (simp only: keys that not_False_eq_True)
  show "\<exists>pre. obj_get (injectNvidiaPullSecretRefs m) ''imagePullSecrets'' = Some (JArr (pre @ xs))
            \<and> containsObjectNamed (pre @ xs) ''ngc-secret''"
    if "obj_get m ''imagePullSecrets'' = Some (JArr xs)" for xs
  proof (cases "containsObjectNamed xs ''ngc-secret''")
    case True
    then show ?thesis using get [OF mem(1)] that
      by (intro exI [of _ "[]"]) (simp add: injectNvidia_steps ref_value_def ngc)
  next
    case False
    then show ?thesis using get [OF mem(1)] that
      by (intro exI [of _ "[JObj [(''name'', JStr ''ngc-secret'')]]"])
        (simp add: injectNvidia_steps ref_value_def ngc containsObjectNamed_def)
  qed
  show "obj_get (injectNvidiaPullSecretRefs m) ''imagePullSecrets'' = Some (JArr [JObj [(''name'', JStr ''ngc-secret'')]])"
    if "is_nil (obj_get m ''imagePullSecrets'')"
    using get [OF mem(1)] that by (auto simp: injectNvidia_steps ref_value_def is_nil_def ngc)
  show "obj_get (injectNvidiaPullSecretRefs m) ''image'' = Some v"
    if "obj_get m ''image'' = Some v \<and> (\<forall>sub. v \<noteq> JObj sub)" for v
    using get [OF mem(2)] that by (cases v) (auto simp: injectNvidia_steps sub_value_def)
  show "obj_get (injectNvidiaPullSecretRefs m) ''ngcImagePullSecretName'' = Some (JStr s)"
    if "obj_get m ''ngcImagePullSecretName'' = Some (JStr s) \<and> s \<noteq> ''''" for s
    using get [OF mem(3)] that by (auto simp: injectNvidia_steps scalar_value_def is_nil_def)
qed

theorem nvidia_values_wired_witness:
  "obj_get (injectNvidiaPullSecretRefs [(''image'', JStr ''nim'')]) ''image'' = Some (JStr ''nim'')
   \<and> obj_get (injectNvidiaPullSecretRefs [(''image'', JStr ''nim'')]) ''imagePullSecrets'' = Some (JArr [JObj [(''name'', JStr ''ngc-secret'')]])"
  using nvidia_values_wired [of "[(''image'', JStr ''nim'')]"] by (simp add: is_nil_def)

definition sub_get :: "jmap \<Rightarrow> string \<Rightarrow> string \<Rightarrow> json option" where
  "sub_get m k k' = (case obj_get m k of Some (JObj s) \<Rightarrow> obj_get s k' | _ \<Rightarrow> None)"

text \<open>
  A chart never overwrites the secrets that the operator delivered: after the injection the
  chart's own secret is switched off, its name is the author's nonempty name or else the operator's,
  an author's name that is not a string is left as it is, and every other value of that map and of
  the component is untouched; and the SUSE injection keeps every sibling key the blueprint has set
  under the global map while both pull-secret lists name the combined secret.
\<close>

theorem chart_secrets_disabled:
  "sub_get (disableChartSecretCreation key name m) key k' =
        (if k' = ''create'' then Some (JBool False)
         else if k' = ''name'' \<and> (is_nil (sub_get m key ''name'') \<or> sub_get m key ''name'' = Some (JStr '''')) then Some (JStr name)
         else sub_get m key k')
   \<and> (k = key \<or> obj_get (disableChartSecretCreation key name m) k = obj_get m k)
   \<and> sub_get (injectSusePullSecretRefs name m) ''global'' k' =
        (if k' = ''imagePullSecrets'' then Some (JArr [JObj [(''name'', JStr name)]]) else sub_get m ''global'' k')
   \<and> obj_get (injectSusePullSecretRefs name m) ''imagePullSecrets'' = Some (JArr [JObj [(''name'', JStr name)]])
   \<and> (k \<in> {''global'', ''imagePullSecrets''} \<or> obj_get (injectSusePullSecretRefs name m) k = obj_get m k)"
proof (intro conjI)
  let ?d = "disableChartSecretCreation key name m" and ?s = "injectSusePullSecretRefs name m"
  show "sub_get ?d key k' = (if k' = ''create'' then Some (JBool False)
         else if k' = ''name'' \<and> (is_nil (sub_get m key ''name'') \<or> sub_get m key ''name'' = Some (JStr '''')) then Some (JStr name)
         else sub_get m key k')"
    by (auto simp: sub_get_def disableChartSecretCreation_def Let_def is_nil_def split: option.split json.split)
  show "k = key \<or> obj_get ?d k = obj_get m k"
    by (auto simp: disableChartSecretCreation_def Let_def split: option.split json.split)
  show "sub_get ?s ''global'' k' = (if k' = ''imagePullSecrets'' then Some (JArr [JObj [(''name'', JStr name)]]) else sub_get m ''global'' k')"
    by (auto simp: sub_get_def injectSusePullSecretRefs_def Let_def split: option.split json.split)
  show "obj_get ?s ''imagePullSecrets'' = Some (JArr [JObj [(''name'', JStr name)]])"
    by (simp add: injectSusePullSecretRefs_def Let_def)
  show "k \<in> {''global'', ''imagePullSecrets''} \<or> obj_get ?s k = obj_get m k"
    by (simp add: injectSusePullSecretRefs_def Let_def)
qed

text \<open>
  Which override applies: a component without a matching override is enabled with the
  blueprint's own values; otherwise the first matching override decides whether it is enabled, while
  the first matching override \<^emph>\<open>that has values\<close> decides the values, so with several
  overrides of one component the two may come from different entries. Every later override is
  ignored.
\<close>

theorem override_matching:
  "(isComponentEnabled w (bc_ChartName c) \<longleftrightarrow>
      (case filter (\<lambda>ov. ov_ComponentName ov = bc_ChartName c) (ComponentValues (Spec w)) of
         [] \<Rightarrow> True | ov # _ \<Rightarrow> ov_Enabled ov \<noteq> Some False))
   \<and> resolveComponentValues merge w (c\<lparr>bc_Values := None\<rparr>) =
      (case filter (\<lambda>ov. ov_ComponentName ov = bc_ChartName c \<and> ov_Values ov \<noteq> None) (ComponentValues (Spec w)) of
         [] \<Rightarrow> Inr (Some [])
       | ov # _ \<Rightarrow> (case unmarshal_map (the (ov_Values ov)) of
            Inl e \<Rightarrow> Inl (wrap_err (''unmarshal component override for '' @ bc_ChartName c) e)
          | Inr override \<Rightarrow> (case merge (Some []) override of
               Inl e \<Rightarrow> Inl (wrap_err (''merge component override for '' @ bc_ChartName c) e)
             | Inr merged \<Rightarrow> Inr merged)))"
proof -
  have f: "find P xs = (case filter P xs of [] \<Rightarrow> None | x # _ \<Rightarrow> Some x)" for P and xs :: "'z list"
    by (induction xs) auto
  have n: "bc_ChartName (c\<lparr>bc_Values := None\<rparr>) = bc_ChartName c" by simp
  show ?thesis
    unfolding isComponentEnabled_def resolveComponentValues_def f n
    by (auto split: list.split option.split)
qed

text \<open>An exclusion of a later override is ignored although its values are used.\<close>

lemma override_entries_differ:
  assumes "ComponentValues (Spec w) =
      [\<lparr>ov_ComponentName = bc_ChartName c, ov_Values = None, ov_Enabled = None\<rparr>,
       \<lparr>ov_ComponentName = bc_ChartName c, ov_Values = Some raw, ov_Enabled = Some False\<rparr>]"
    and "bc_Values c = None" and "unmarshal_map raw = Inr ov" and "merge (Some []) ov = Inr v"
  shows "isComponentEnabled w (bc_ChartName c) \<and> resolveComponentValues merge w c = Inr v"
  using assms by (simp add: isComponentEnabled_def resolveComponentValues_def)

end
