(* ===== verification/Credentials.thy ===== *)
theory Credentials
  imports Values
begin

text \<open>
  Registry credentials (\<open>internal/credentials/credentials.go\<close> and
  \<open>dockerconfig.go\<close>): where the operator finds the user name and the token of a registry, how a
  docker configuration document carries them, and how they are read back. The methods that talk
  to the API server take the client as an argument, as the Go functions take a
  \<open>client.Client\<close>; the laws a client obeys are the locale \<open>secret_client\<close>, and an in-memory
  server with a schedule of faults is an instance of it.
\<close>

section \<open>Secrets and settings\<close>

record SecretKeyRef =
  ref_Name :: string
  ref_Key :: string

record Secret =
  sec_Type :: string
  sec_Data :: smap

datatype Registry = RegistryApplicationCollection | RegistrySUSERegistry | RegistryNvidia

text \<open>The references that the three registry sections of the settings share.\<close>

record RegistrySettings =
  UserSecretRef :: "SecretKeyRef option"
  TokenSecretRef :: "SecretKeyRef option"
  CABundleSecretRef :: "SecretKeyRef option"

record RegistryEndpointsSettings =
  ep_ApplicationCollection :: string
  ep_SUSERegistry :: string
  ep_Nvidia :: string
  ep_OpenShell :: string

record GitRepoSource =
  git_RepoURL :: string
  git_Branch :: string
  git_AuthType :: string
  git_Username :: string
  git_CredSecretRef :: "SecretKeyRef option"
  git_CABundleSecretRef :: "SecretKeyRef option"

record BlueprintCatalogSource =
  bc_Name :: string
  bc_Paths :: "string list"
  bc_Source :: GitRepoSource

record RancherCatalogSettings =
  rc_URL :: string
  rc_TokenSecretRef :: "SecretKeyRef option"
  rc_CABundleSecretRef :: "SecretKeyRef option"
  rc_InsecureSkipVerify :: bool

record SettingsSpec =
  set_Fleet :: GitRepoSource
  set_ApplicationCollection :: RegistrySettings
  set_SUSERegistry :: RegistrySettings
  set_Nvidia :: RegistrySettings
  RegistryEndpoints :: "RegistryEndpointsSettings option"
  set_AppCatalogURL :: string
  set_RancherCatalog :: RancherCatalogSettings
  set_BlueprintCatalogs :: "BlueprintCatalogSource list"

definition NvidiaDefaultUsername :: string where "NvidiaDefaultUsername = ''$oauthtoken''"
definition DefaultGitHTTPSUsername :: string where "DefaultGitHTTPSUsername = ''token''"

definition nonEmpty :: "smap \<Rightarrow> string \<Rightarrow> bool" where
  "nonEmpty data key = (case data key of None \<Rightarrow> False | Some v \<Rightarrow> v \<noteq> [])"

definition ResolveGitHTTPSUsername :: "string \<Rightarrow> smap \<Rightarrow> string" where
  "ResolveGitHTTPSUsername explicit data =
     (if explicit \<noteq> '''' then explicit
      else if mget data ''username'' \<noteq> '''' then mget data ''username''
      else DefaultGitHTTPSUsername)"

fun WellKnownSecretNames :: "Registry \<Rightarrow> string list" where
  "WellKnownSecretNames RegistryApplicationCollection = [''appco'', ''application-collection'']"
| "WellKnownSecretNames RegistrySUSERegistry = [''suse-registry'']"
| "WellKnownSecretNames RegistryNvidia = [''nvidia'', ''nvidia-registry'']"

definition IsWellKnownSecret :: "string \<Rightarrow> bool" where
  "IsWellKnownSecret name =
     list_ex (\<lambda>r. name \<in> set (WellKnownSecretNames r))
       [RegistryApplicationCollection, RegistrySUSERegistry, RegistryNvidia]"

definition keysFromSecret :: "Secret \<Rightarrow> (string \<times> string) option" where
  "keysFromSecret sec =
     (let d = sec_Data sec
      in if nonEmpty d ''user'' \<and> nonEmpty d ''token'' then Some (''user'', ''token'')
         else if nonEmpty d ''username'' \<and> nonEmpty d ''token'' then Some (''username'', ''token'')
         else if nonEmpty d ''username'' \<and> nonEmpty d ''password'' then Some (''username'', ''password'')
         else None)"

section \<open>The client\<close>

record 's Client =
  GetSecret :: "string \<Rightarrow> string \<Rightarrow> ('s, Secret) act"
  UpdateSecret :: "string \<Rightarrow> string \<Rightarrow> Secret \<Rightarrow> ('s, Secret) act"
  PatchSecret :: "string \<Rightarrow> string \<Rightarrow> Secret \<Rightarrow> ('s, unit) act"
  PatchNamespace :: "string \<Rightarrow> ('s, unit) act"
  GetSettings :: "('s, SettingsSpec) act"

section \<open>Finding the references\<close>

text \<open>\<open>normalizeNvidiaSecret\<close>: a token without a user name gets the NGC one, in the cluster too.\<close>

definition normalized :: "Secret \<Rightarrow> Secret" where
  "normalized sec = sec\<lparr>sec_Data := (sec_Data sec)(''user'' \<mapsto> NvidiaDefaultUsername)\<rparr>"

definition needs_user :: "Secret \<Rightarrow> bool" where
  "needs_user sec \<longleftrightarrow> \<not> (nonEmpty (sec_Data sec) ''user'' \<or> nonEmpty (sec_Data sec) ''username'')
     \<and> nonEmpty (sec_Data sec) ''token''"

definition normalizeNvidiaSecret :: "'s Client \<Rightarrow> string \<Rightarrow> string \<Rightarrow> Secret \<Rightarrow> ('s, Secret) act" where
  "normalizeNvidiaSecret c ns name sec =
     (if needs_user sec then UpdateSecret c ns name (normalized sec) else ret sec)"

fun discover_in :: "'s Client \<Rightarrow> string \<Rightarrow> Registry \<Rightarrow> string list \<Rightarrow> 's \<Rightarrow>
    (SecretKeyRef \<times> SecretKeyRef) option \<times> 's" where
  "discover_in c ns registry [] s = (None, s)"
| "discover_in c ns registry (name # names) s =
     (case GetSecret c ns name s of
        (Inl e, s1) \<Rightarrow> if err_is e = SNotFound then discover_in c ns registry names s1 else (None, s1)
      | (Inr sec, s1) \<Rightarrow>
          (case (if registry = RegistryNvidia then normalizeNvidiaSecret c ns name sec s1 else (Inr sec, s1)) of
             (Inl e, s2) \<Rightarrow> (None, s2)
           | (Inr sec', s2) \<Rightarrow>
               (case keysFromSecret sec' of
                  None \<Rightarrow> discover_in c ns registry names s2
                | Some (u, t) \<Rightarrow>
                    (Some (\<lparr>ref_Name = name, ref_Key = u\<rparr>, \<lparr>ref_Name = name, ref_Key = t\<rparr>), s2))))"

definition discoverRefs :: "'s Client \<Rightarrow> string \<Rightarrow> Registry \<Rightarrow> 's \<Rightarrow>
    (SecretKeyRef \<times> SecretKeyRef) option \<times> 's" where
  "discoverRefs c ns registry = discover_in c ns registry (WellKnownSecretNames registry)"

definition pair_of :: "string option \<Rightarrow> string option \<Rightarrow> (string \<times> string) option" where
  "pair_of u t = (case (u, t) of (Some a, Some b) \<Rightarrow> if a = '''' \<or> b = '''' then None else Some (a, b) | _ \<Rightarrow> None)"

definition ReadPair :: "'s Client \<Rightarrow> string \<Rightarrow> SecretKeyRef option \<Rightarrow> SecretKeyRef option \<Rightarrow>
    ('s, (string \<times> string) option) act" where
  "ReadPair c ns userRef tokenRef s =
     (case (userRef, tokenRef) of
        (Some u, Some t) \<Rightarrow>
          (case GetSecret c ns (ref_Name u) s of
             (Inl e, s1) \<Rightarrow> if err_is e = SNotFound then (Inr None, s1) else (Inl e, s1)
           | (Inr sec, s1) \<Rightarrow>
               if ref_Name u \<noteq> ref_Name t then
                 (case GetSecret c ns (ref_Name t) s1 of
                    (Inl e, s2) \<Rightarrow> if err_is e = SNotFound then (Inr None, s2) else (Inl e, s2)
                  | (Inr tsec, s2) \<Rightarrow> (Inr (pair_of (sec_Data sec (ref_Key u)) (sec_Data tsec (ref_Key t))), s2))
               else (Inr (pair_of (sec_Data sec (ref_Key u)) (sec_Data sec (ref_Key t))), s1))
      | _ \<Rightarrow> (Inr None, s))"

definition discovered_or :: "'s Client \<Rightarrow> string \<Rightarrow> SecretKeyRef option \<Rightarrow> SecretKeyRef option \<Rightarrow> Registry \<Rightarrow> 's \<Rightarrow>
    (SecretKeyRef option \<times> SecretKeyRef option) \<times> 's" where
  "discovered_or c ns eu et registry s =
     (case discoverRefs c ns registry s of
        (Some (u, t), s1) \<Rightarrow> ((Some u, Some t), s1)
      | (None, s1) \<Rightarrow> ((eu, et), s1))"

definition EffectiveRefs :: "'s Client \<Rightarrow> string \<Rightarrow> SecretKeyRef option \<Rightarrow> SecretKeyRef option \<Rightarrow> Registry \<Rightarrow> 's \<Rightarrow>
    (SecretKeyRef option \<times> SecretKeyRef option) \<times> 's" where
  "EffectiveRefs c ns eu et registry s =
     (if eu \<noteq> None \<and> et \<noteq> None then
        (case ReadPair c ns eu et s of
           (Inr (Some _), s1) \<Rightarrow> ((eu, et), s1)
         | (_, s1) \<Rightarrow> discovered_or c ns eu et registry s1)
      else discovered_or c ns eu et registry s)"

definition readRegistryCredentials :: "'s Client \<Rightarrow> string \<Rightarrow> Registry \<Rightarrow> SecretKeyRef option \<Rightarrow> SecretKeyRef option \<Rightarrow>
    ('s, (string \<times> string) option) act" where
  "readRegistryCredentials c ns registry eu et s =
     (case EffectiveRefs c ns eu et registry s of ((u, t), s1) \<Rightarrow> ReadPair c ns u t s1)"

text \<open>\<open>WireSpec\<close> writes the references it found into the settings; a section is one step.\<close>

definition wire_section :: "'s Client \<Rightarrow> string \<Rightarrow> Registry \<Rightarrow> RegistrySettings \<times> bool \<Rightarrow> 's \<Rightarrow>
    (RegistrySettings \<times> bool) \<times> 's" where
  "wire_section c ns registry sc s =
     (case EffectiveRefs c ns (UserSecretRef (fst sc)) (TokenSecretRef (fst sc)) registry s of
        ((Some u, Some t), s1) \<Rightarrow>
          if UserSecretRef (fst sc) \<noteq> Some u \<or> TokenSecretRef (fst sc) \<noteq> Some t
          then (((fst sc)\<lparr>UserSecretRef := Some u, TokenSecretRef := Some t\<rparr>, True), s1)
          else (sc, s1)
      | (_, s1) \<Rightarrow> (sc, s1))"

definition WireSpec :: "'s Client \<Rightarrow> SettingsSpec \<Rightarrow> string \<Rightarrow> 's \<Rightarrow> (SettingsSpec \<times> bool) \<times> 's" where
  "WireSpec c spec ns s =
     (case wire_section c ns RegistryApplicationCollection (set_ApplicationCollection spec, False) s of
        ((a, ch1), s1) \<Rightarrow>
      (case wire_section c ns RegistrySUSERegistry (set_SUSERegistry spec, ch1) s1 of
         ((r, ch2), s2) \<Rightarrow>
       (case wire_section c ns RegistryNvidia (set_Nvidia spec, ch2) s2 of
          ((n, ch3), s3) \<Rightarrow>
            ((spec\<lparr>set_ApplicationCollection := a, set_SUSERegistry := r, set_Nvidia := n\<rparr>, ch3), s3))))"

section \<open>The laws of a client\<close>

text \<open>
  \<open>look\<close> is what the API server stores; \<open>up\<close> says that the next calls are answered. A read
  returns what is stored or reports that nothing is; an update replaces one secret, and one that
  reports an error may still have done so.
\<close>

locale secret_client =
  fixes c :: "'s Client" and look :: "'s \<Rightarrow> string \<times> string \<Rightarrow> Secret option" and up :: "'s \<Rightarrow> bool"
  assumes get_look: "look (snd (GetSecret c ns n s)) = look s"
    and get_ok: "GetSecret c ns n s = (Inr sec, s') \<Longrightarrow> look s (ns, n) = Some sec"
    and get_absent: "GetSecret c ns n s = (Inl e, s') \<Longrightarrow> err_is e = SNotFound \<Longrightarrow> look s (ns, n) = None"
    and get_up: "up s \<Longrightarrow> up (snd (GetSecret c ns n s))
        \<and> (case fst (GetSecret c ns n s) of Inl e \<Rightarrow> err_is e = SNotFound | Inr _ \<Rightarrow> True)"
    and update_ok: "UpdateSecret c ns n sec s = (Inr sec', s') \<Longrightarrow>
        sec' = sec \<and> look s' = (look s)((ns, n) \<mapsto> sec)"
    and update_err: "UpdateSecret c ns n sec s = (Inl e, s') \<Longrightarrow>
        look s' = look s \<or> look s' = (look s)((ns, n) \<mapsto> sec)"
    and update_up: "up s \<Longrightarrow> look s (ns, n) \<noteq> None \<Longrightarrow>
        up (snd (UpdateSecret c ns n sec s)) \<and> \<not> isl (fst (UpdateSecret c ns n sec s))"
begin

lemma get_up_cases:
  assumes "up s"
  obtains s' where "look s (ns, n) = None" "\<exists>e. GetSecret c ns n s = (Inl e, s') \<and> err_is e = SNotFound"
      "up s'" "look s' = look s"
    | sec s' where "look s (ns, n) = Some sec" "GetSecret c ns n s = (Inr sec, s')" "up s'" "look s' = look s"
proof -
  obtain r s' where g: "GetSecret c ns n s = (r, s')" by (cases "GetSecret c ns n s")
  have "up s'" "look s' = look s" using get_up [OF assms, of ns n] get_look [of ns n s] g by auto
  show thesis
  proof (cases r)
    case (Inl e)
    then have e: "err_is e = SNotFound" using get_up [OF assms, of ns n] g by simp
    have "look s (ns, n) = None" using get_absent [of ns n s e s'] g Inl e by simp
    then show thesis using that(1) [of s'] g Inl e \<open>up s'\<close> \<open>look s' = look s\<close> by auto
  next
    case (Inr sec)
    then have "look s (ns, n) = Some sec" using get_ok g by simp
    then show thesis using that(2) [of sec s'] g Inr \<open>up s'\<close> \<open>look s' = look s\<close> by simp
  qed
qed

end

text \<open>What \<open>ReadPair\<close> finds in a store of secrets.\<close>

definition pair_in :: "(string \<times> string \<Rightarrow> Secret option) \<Rightarrow> string \<Rightarrow> SecretKeyRef option \<Rightarrow> SecretKeyRef option \<Rightarrow>
    (string \<times> string) option" where
  "pair_in store ns userRef tokenRef =
     (case (userRef, tokenRef) of
        (Some u, Some t) \<Rightarrow>
          (case (store (ns, ref_Name u), store (ns, ref_Name t)) of
             (Some a, Some b) \<Rightarrow> pair_of (sec_Data a (ref_Key u)) (sec_Data b (ref_Key t))
           | _ \<Rightarrow> None)
      | _ \<Rightarrow> None)"

text \<open>The secret a registry's discovery settles on, and what it is after normalisation.\<close>

definition seen_as :: "Registry \<Rightarrow> Secret \<Rightarrow> Secret" where
  "seen_as registry sec = (if registry = RegistryNvidia \<and> needs_user sec then normalized sec else sec)"

definition usable :: "(string \<times> string \<Rightarrow> Secret option) \<Rightarrow> string \<Rightarrow> Registry \<Rightarrow> string \<Rightarrow> bool" where
  "usable store ns registry name =
     (case store (ns, name) of None \<Rightarrow> False | Some sec \<Rightarrow> keysFromSecret (seen_as registry sec) \<noteq> None)"

text \<open>The pair a well-known secret gives.\<close>

definition found :: "(string \<times> string \<Rightarrow> Secret option) \<Rightarrow> string \<Rightarrow> Registry \<Rightarrow> string \<Rightarrow> (string \<times> string) option" where
  "found store ns registry name =
     Option.bind (store (ns, name)) (\<lambda>sec. Option.bind (keysFromSecret (seen_as registry sec)) (\<lambda>(u, t).
       pair_of (sec_Data (seen_as registry sec) u) (sec_Data (seen_as registry sec) t)))"

text \<open>Two stores agree up to the user name that normalisation adds to NVIDIA secrets.\<close>

definition only_normalized :: "string \<Rightarrow> (string \<times> string \<Rightarrow> Secret option) \<Rightarrow> (string \<times> string \<Rightarrow> Secret option) \<Rightarrow> bool" where
  "only_normalized ns old new \<longleftrightarrow>
     (\<forall>k. new k = old k \<or> (fst k = ns \<and> snd k \<in> set (WellKnownSecretNames RegistryNvidia)
        \<and> (\<exists>sec. old k = Some sec \<and> needs_user sec \<and> new k = Some (normalized sec))))"

lemma normalized_settled [simp]: "\<not> needs_user (normalized sec)"
  by (simp add: needs_user_def normalized_def nonEmpty_def NvidiaDefaultUsername_def)

lemma only_normalized_refl [simp]: "only_normalized ns m m"
  by (simp add: only_normalized_def)

lemma only_normalized_upd:
  "old (ns, n) = Some sec \<Longrightarrow> needs_user sec \<Longrightarrow> n \<in> set (WellKnownSecretNames RegistryNvidia) \<Longrightarrow>
   only_normalized ns old (old((ns, n) \<mapsto> normalized sec))"
  by (auto simp: only_normalized_def)

lemma only_normalized_cases:
  assumes "only_normalized ns old new"
  obtains "new k = old k"
    | sec where "fst k = ns" "snd k \<in> set (WellKnownSecretNames RegistryNvidia)" "old k = Some sec"
        "needs_user sec" "new k = Some (normalized sec)"
  using assms unfolding only_normalized_def by blast

lemma only_normalized_trans:
  assumes "only_normalized ns a b" "only_normalized ns b d"
  shows "only_normalized ns a d"
  unfolding only_normalized_def
proof
  fix k
  show "d k = a k \<or> (fst k = ns \<and> snd k \<in> set (WellKnownSecretNames RegistryNvidia)
        \<and> (\<exists>sec. a k = Some sec \<and> needs_user sec \<and> d k = Some (normalized sec)))"
  proof (cases rule: only_normalized_cases [OF assms(1), of k])
    case 1
    show ?thesis using spec [OF assms(2) [unfolded only_normalized_def], of k] unfolding 1 .
  next
    case (2 sec)
    have d: "d k = b k"
      by (cases rule: only_normalized_cases [OF assms(2), of k]) (use 2(5) in \<open>auto simp del: WellKnownSecretNames.simps\<close>)
    show ?thesis by (intro disjI2 conjI exI [of _ sec] 2(1,2,3,4)) (simp only: d 2(5))
  qed
qed

lemma only_normalized_seen:
  assumes "only_normalized ns old new"
  shows "usable new ns RegistryNvidia name = usable old ns RegistryNvidia name"
proof -
  have "new (ns, name) = old (ns, name)
    \<or> (\<exists>sec. old (ns, name) = Some sec \<and> needs_user sec \<and> new (ns, name) = Some (normalized sec))"
    using assms unfolding only_normalized_def by blast
  then show ?thesis by (elim disjE exE) (simp_all add: usable_def seen_as_def)
qed

lemma keys_readable:
  assumes "keysFromSecret sec = Some (u, t)"
  shows "\<exists>p. pair_of (sec_Data sec u) (sec_Data sec t) = Some p"
proof -
  have "nonEmpty (sec_Data sec) u \<and> nonEmpty (sec_Data sec) t"
    using assms by (auto simp only: keysFromSecret_def Let_def split: if_splits)
  then show ?thesis by (cases "sec_Data sec u"; cases "sec_Data sec t") (simp_all add: nonEmpty_def pair_of_def)
qed

lemma usable_found:
  assumes "usable store ns registry name"
  shows "found store ns registry name \<noteq> None"
proof -
  obtain sec u t where "store (ns, name) = Some sec" "keysFromSecret (seen_as registry sec) = Some (u, t)"
    using assms by (auto simp: usable_def split: option.splits)
  then show ?thesis using keys_readable by (fastforce simp: found_def)
qed

section \<open>What the resolution of references guarantees\<close>

context secret_client begin

lemma ReadPair_look: "look (snd (ReadPair c ns u t s)) = look s"
  using get_look by (auto simp: ReadPair_def split: option.split prod.split sum.split) (metis snd_conv)+

lemma ReadPair_up:
  assumes "up s"
  shows "\<exists>s'. ReadPair c ns u t s = (Inr (pair_in (look s) ns u t), s') \<and> up s' \<and> look s' = look s"
proof (cases "u = None \<or> t = None")
  case True
  then show ?thesis using assms by (auto simp: ReadPair_def pair_in_def split: option.split)
next
  case False
  then obtain a b where ab: "u = Some a" "t = Some b" by auto
  show ?thesis
  proof (cases rule: get_up_cases [OF assms, of ns "ref_Name a"])
    case (1 s')
    then show ?thesis by (auto simp: ReadPair_def pair_in_def ab)
  next
    case (2 sec s')
    show ?thesis
    proof (cases "ref_Name a = ref_Name b")
      case True
      then show ?thesis using 2 by (simp add: ReadPair_def pair_in_def ab)
    next
      case False
      show ?thesis
      proof (cases rule: get_up_cases [OF 2(3), of ns "ref_Name b"])
        case (1 s'')
        then show ?thesis using 2 False by (auto simp: ReadPair_def pair_in_def ab)
      next
        case (2 sec' s'')
        then show ?thesis using \<open>GetSecret c ns (ref_Name a) s = (Inr sec, s')\<close> \<open>look s (ns, ref_Name a) = Some sec\<close>
            \<open>look s' = look s\<close> False by (simp add: ReadPair_def pair_in_def ab)
      qed
    qed
  qed
qed

lemma normalize_only:
  assumes "look s (ns, n) = Some sec" "n \<in> set (WellKnownSecretNames RegistryNvidia)"
  shows "only_normalized ns (look s) (look (snd (normalizeNvidiaSecret c ns n sec s)))"
proof (cases "needs_user sec")
  case True
  obtain r s' where u: "UpdateSecret c ns n (normalized sec) s = (r, s')" by (cases "UpdateSecret c ns n (normalized sec) s")
  have "look s' = look s \<or> look s' = (look s)((ns, n) \<mapsto> normalized sec)"
    using update_ok update_err u by (cases r) blast+
  moreover have "only_normalized ns (look s) ((look s)((ns, n) \<mapsto> normalized sec))"
    by (rule only_normalized_upd [where old = "look s"]) (use assms True in simp_all)
  ultimately show ?thesis using u True by (auto simp: normalizeNvidiaSecret_def)
qed (simp add: normalizeNvidiaSecret_def ret_def)

lemma normalize_up:
  assumes "up s" "look s (ns, n) = Some sec"
  shows "\<exists>s'. normalizeNvidiaSecret c ns n sec s = (Inr (seen_as RegistryNvidia sec), s') \<and> up s'
    \<and> look s' (ns, n) = Some (seen_as RegistryNvidia sec)"
proof (cases "needs_user sec")
  case True
  obtain r s' where u: "UpdateSecret c ns n (normalized sec) s = (r, s')" by (cases "UpdateSecret c ns n (normalized sec) s")
  then obtain x where "r = Inr x" using update_up [OF assms(1), of ns n "normalized sec"] assms(2) by (cases r) auto
  then show ?thesis using update_ok [of ns n "normalized sec" s x s'] update_up [OF assms(1), of ns n "normalized sec"] assms(2) u True
    by (simp add: normalizeNvidiaSecret_def seen_as_def)
qed (use assms in \<open>simp add: normalizeNvidiaSecret_def ret_def seen_as_def\<close>)

text \<open>The step of the discovery loop for one candidate.\<close>

lemma seen_only:
  assumes "look s (ns, n) = Some sec" "n \<in> set (WellKnownSecretNames registry)"
  shows "only_normalized ns (look s)
    (look (snd (if registry = RegistryNvidia then normalizeNvidiaSecret c ns n sec s else (Inr sec, s))))"
  using normalize_only [OF assms(1)] assms(2) by (cases registry) simp_all

lemma seen_up:
  assumes "up s" "look s (ns, n) = Some sec"
  shows "\<exists>s'. (if registry = RegistryNvidia then normalizeNvidiaSecret c ns n sec s else (Inr sec, s))
      = (Inr (seen_as registry sec), s') \<and> up s' \<and> look s' (ns, n) = Some (seen_as registry sec)
    \<and> (registry \<noteq> RegistryNvidia \<or> \<not> needs_user sec \<longrightarrow> look s' = look s)"
  using normalize_up [OF assms] assms
  by (cases "registry = RegistryNvidia"; cases "needs_user sec") (simp_all add: seen_as_def normalizeNvidiaSecret_def ret_def)

lemma discover_only:
  "set names \<subseteq> set (WellKnownSecretNames registry) \<Longrightarrow>
   only_normalized ns (look s) (look (snd (discover_in c ns registry names s)))"
proof (induction names arbitrary: s)
  case (Cons n names)
  obtain r s1 where g: "GetSecret c ns n s = (r, s1)" by (cases "GetSecret c ns n s")
  have l1: "look s1 = look s" using get_look [of ns n s] g by simp
  have rest: "only_normalized ns (look s') (look (snd (discover_in c ns registry names s')))" for s'
    using Cons by simp
  show ?case
  proof (cases r)
    case (Inl e)
    then show ?thesis using g l1 rest [of s1] by simp
  next
    case (Inr sec)
    define m where "m = (if registry = RegistryNvidia then normalizeNvidiaSecret c ns n sec s1 else (Inr sec, s1))"
    have "only_normalized ns (look s) (look (snd m))"
      using seen_only [of s1 ns n sec registry] get_ok [of ns n s sec s1] g Inr l1 Cons.prems by (simp add: m_def)
    then show ?thesis using only_normalized_trans rest g Inr
      by (cases m) (auto simp: m_def [symmetric] split: sum.split option.split)
  qed
qed simp

lemma discover_up:
  "up s \<Longrightarrow> \<exists>r s'. discover_in c ns registry names s = (r, s') \<and> up s'
    \<and> map_option (\<lambda>p. ref_Name (fst p)) r = find (usable (look s) ns registry) names
    \<and> (case r of None \<Rightarrow> look s' = look s
        | Some (u, t) \<Rightarrow> pair_in (look s') ns (Some u) (Some t) = found (look s) ns registry (ref_Name u))
    \<and> (registry \<noteq> RegistryNvidia \<longrightarrow> look s' = look s)"
proof (induction names arbitrary: s)
  case (Cons n names)
  show ?case
  proof (cases rule: get_up_cases [OF Cons.prems, of ns n])
    case (1 s1)
    then obtain e where e: "GetSecret c ns n s = (Inl e, s1)" "err_is e = SNotFound" by blast
    moreover have "\<not> usable (look s) ns registry n" using 1(1) by (simp add: usable_def)
    ultimately show ?thesis using Cons.IH [OF 1(3), unfolded 1(4)] by simp
  next
    case (2 sec s1)
    from seen_up [OF 2(3), of ns n sec registry] obtain s2 where
      m: "(if registry = RegistryNvidia then normalizeNvidiaSecret c ns n sec s1 else (Inr sec, s1)) = (Inr (seen_as registry sec), s2)"
      and s2: "up s2" "look s2 (ns, n) = Some (seen_as registry sec)"
        "registry \<noteq> RegistryNvidia \<or> \<not> needs_user sec \<longrightarrow> look s2 = look s1"
      using 2(1,4) by auto
    show ?thesis
    proof (cases "keysFromSecret (seen_as registry sec)")
      case None
      have "\<not> (registry = RegistryNvidia \<and> needs_user sec)"
      proof
        assume h: "registry = RegistryNvidia \<and> needs_user sec"
        then have "seen_as registry sec = normalized sec" by (simp add: seen_as_def)
        moreover have "keysFromSecret (normalized sec) \<noteq> None"
          using h by (simp add: keysFromSecret_def Let_def needs_user_def normalized_def nonEmpty_def NvidiaDefaultUsername_def)
        ultimately show False using None by simp
      qed
      then have l: "look s2 = look s" using s2(3) 2(4) by metis
      moreover have "\<not> usable (look s) ns registry n" using None 2(1) by (simp add: usable_def)
      ultimately show ?thesis using Cons.IH [OF s2(1), unfolded l] 2(2) m None by simp
    next
      case (Some ut)
      obtain u t where ut: "ut = (u, t)" by (cases ut)
      have "usable (look s) ns registry n" using Some 2(1) by (simp add: usable_def)
      moreover have "pair_in (look s2) ns (Some \<lparr>ref_Name = n, ref_Key = u\<rparr>) (Some \<lparr>ref_Name = n, ref_Key = t\<rparr>)
          = found (look s) ns registry n"
        using Some ut s2(2) 2(1) by (simp add: pair_in_def found_def)
      ultimately show ?thesis using 2(2,4) m Some ut s2 by simp
    qed
  qed
qed simp

end

section \<open>An in-memory server\<close>

text \<open>
  The store of a server that follows a schedule: each call takes the next entry, which may fail it
  before or after the write it makes. Patching a secret by server-side apply sets the type and the
  keys it names and keeps the other keys.
\<close>

record cluster =
  cl_secrets :: "string \<times> string \<Rightarrow> Secret option"
  cl_namespaces :: "string list"
  cl_settings :: "SettingsSpec option"
  cl_faults :: "(bool \<times> string) option list"

definition not_found :: err where "not_found = Err SNotFound ''not found''"

definition cl_call :: "(cluster \<Rightarrow> (err + 'a) \<times> cluster) \<Rightarrow> (cluster, 'a) act" where
  "cl_call f s =
     (let s0 = s\<lparr>cl_faults := tl (cl_faults s)\<rparr>
      in case cl_faults s of
           Some (True, e) # _ \<Rightarrow> (Inl (Err SOther e), snd (f s0))
         | Some (False, e) # _ \<Rightarrow> (Inl (Err SOther e), s0)
         | _ \<Rightarrow> f s0)"

definition cl_read :: "'a option \<Rightarrow> cluster \<Rightarrow> (err + 'a) \<times> cluster" where
  "cl_read v s = (case v of None \<Rightarrow> (Inl not_found, s) | Some a \<Rightarrow> (Inr a, s))"

definition applied :: "Secret option \<Rightarrow> Secret \<Rightarrow> Secret" where
  "applied old new = (case old of None \<Rightarrow> new | Some o1 \<Rightarrow> new\<lparr>sec_Data := sec_Data o1 ++ sec_Data new\<rparr>)"

definition cluster_client :: "cluster Client" where
  "cluster_client = \<lparr>
     GetSecret = (\<lambda>ns n. cl_call (\<lambda>s. cl_read (cl_secrets s (ns, n)) s)),
     UpdateSecret = (\<lambda>ns n sec. cl_call (\<lambda>s. if cl_secrets s (ns, n) = None then (Inl not_found, s)
        else (Inr sec, s\<lparr>cl_secrets := (cl_secrets s)((ns, n) \<mapsto> sec)\<rparr>))),
     PatchSecret = (\<lambda>ns n sec. cl_call (\<lambda>s. if ns \<notin> set (cl_namespaces s) then (Inl not_found, s)
        else (Inr (), s\<lparr>cl_secrets := (cl_secrets s)((ns, n) \<mapsto> applied (cl_secrets s (ns, n)) sec)\<rparr>))),
     PatchNamespace = (\<lambda>ns. cl_call (\<lambda>s. (Inr (), s\<lparr>cl_namespaces := List.insert ns (cl_namespaces s)\<rparr>))),
     GetSettings = cl_call (\<lambda>s. cl_read (cl_settings s) s)\<rparr>"

definition no_faults :: "cluster \<Rightarrow> bool" where
  "no_faults s \<longleftrightarrow> set (cl_faults s) \<subseteq> {None}"

lemma cl_call_cases:
  "\<exists>s0. cl_secrets s0 = cl_secrets s \<and> cl_namespaces s0 = cl_namespaces s \<and> cl_settings s0 = cl_settings s
    \<and> cl_faults s0 = tl (cl_faults s)
    \<and> (cl_call f s = f s0 \<or> (\<not> no_faults s \<and> (\<exists>e. cl_call f s = (Inl (Err SOther e), snd (f s0)) \<or> cl_call f s = (Inl (Err SOther e), s0))))"
  by (rule exI [of _ "s\<lparr>cl_faults := tl (cl_faults s)\<rparr>"])
    (auto simp: cl_call_def Let_def no_faults_def split: list.split option.split bool.split)

lemma no_faults_tl: "no_faults s \<Longrightarrow> cl_faults s0 = tl (cl_faults s) \<Longrightarrow> no_faults s0"
  by (cases "cl_faults s") (simp_all add: no_faults_def)

lemma no_faults_secrets [simp]: "no_faults (s\<lparr>cl_secrets := x\<rparr>) = no_faults s"
  by (simp add: no_faults_def)

lemma cluster_get:
  "GetSecret cluster_client ns n s = cl_call (\<lambda>s. cl_read (cl_secrets s (ns, n)) s) s"
  by (simp add: cluster_client_def)

lemma cluster_update:
  "UpdateSecret cluster_client ns n sec s = cl_call (\<lambda>s. if cl_secrets s (ns, n) = None then (Inl not_found, s)
        else (Inr sec, s\<lparr>cl_secrets := (cl_secrets s)((ns, n) \<mapsto> sec)\<rparr>)) s"
  by (simp add: cluster_client_def)

interpretation cl: secret_client cluster_client cl_secrets no_faults
proof
  fix ns n s sec sec' e s'
  note get = cl_call_cases [of s "\<lambda>s. cl_read (cl_secrets s (ns, n)) s"]
  note upd = cl_call_cases [of s "\<lambda>s. if cl_secrets s (ns, n) = None then (Inl not_found, s)
        else (Inr sec, s\<lparr>cl_secrets := (cl_secrets s)((ns, n) \<mapsto> sec)\<rparr>)"]
  show "cl_secrets (snd (GetSecret cluster_client ns n s)) = cl_secrets s"
    using get unfolding cluster_get by (auto simp: cl_read_def split: option.split)
  show "GetSecret cluster_client ns n s = (Inr sec, s') \<Longrightarrow> cl_secrets s (ns, n) = Some sec"
    using get unfolding cluster_get by (auto simp: cl_read_def split: option.splits)
  show "GetSecret cluster_client ns n s = (Inl e, s') \<Longrightarrow> err_is e = SNotFound \<Longrightarrow> cl_secrets s (ns, n) = None"
    using get unfolding cluster_get by (auto simp: cl_read_def not_found_def split: option.splits)
  show "no_faults s \<Longrightarrow> no_faults (snd (GetSecret cluster_client ns n s))
      \<and> (case fst (GetSecret cluster_client ns n s) of Inl e \<Rightarrow> err_is e = SNotFound | Inr _ \<Rightarrow> True)"
    using get unfolding cluster_get
    by (auto simp: cl_read_def not_found_def no_faults_tl split: option.split)
  show "UpdateSecret cluster_client ns n sec s = (Inr sec', s') \<Longrightarrow>
        sec' = sec \<and> cl_secrets s' = (cl_secrets s)((ns, n) \<mapsto> sec)"
    using upd unfolding cluster_update by (auto split: if_splits)
  show "UpdateSecret cluster_client ns n sec s = (Inl e, s') \<Longrightarrow>
        cl_secrets s' = cl_secrets s \<or> cl_secrets s' = (cl_secrets s)((ns, n) \<mapsto> sec)"
    using upd unfolding cluster_update by (auto split: if_splits)
  show "no_faults s \<Longrightarrow> cl_secrets s (ns, n) \<noteq> None \<Longrightarrow>
        no_faults (snd (UpdateSecret cluster_client ns n sec s)) \<and> \<not> isl (fst (UpdateSecret cluster_client ns n sec s))"
    using upd unfolding cluster_update by (auto simp: no_faults_tl)
qed

section \<open>Effective references\<close>

context secret_client begin

lemma discovered_only: "only_normalized ns (look s) (look (snd (discovered_or c ns eu et registry s)))"
  using discover_only [of "WellKnownSecretNames registry" registry ns s]
  by (auto simp: discovered_or_def discoverRefs_def split: prod.split option.split)

lemma effective_only: "only_normalized ns (look s) (look (snd (EffectiveRefs c ns eu et registry s)))"
proof -
  obtain r s1 where rp: "ReadPair c ns eu et s = (r, s1)" by (cases "ReadPair c ns eu et s")
  then have "look s1 = look s" using ReadPair_look [of ns eu et s] by simp
  then show ?thesis using rp discovered_only [of ns s1] discovered_only [of ns s]
    by (auto simp: EffectiveRefs_def split: sum.split option.split)
qed

text \<open>The answer of a server that is up, by what it stores.\<close>

lemma effective_up:
  assumes "up s"
  obtains s' where "pair_in (look s) ns eu et \<noteq> None"
      "EffectiveRefs c ns eu et registry s = ((eu, et), s')" "up s'" "look s' = look s"
    | s' where "pair_in (look s) ns eu et = None"
      "find (usable (look s) ns registry) (WellKnownSecretNames registry) = None"
      "EffectiveRefs c ns eu et registry s = ((eu, et), s')" "up s'" "look s' = look s"
    | n u t s' where "pair_in (look s) ns eu et = None"
      "find (usable (look s) ns registry) (WellKnownSecretNames registry) = Some n"
      "EffectiveRefs c ns eu et registry s = ((Some u, Some t), s')" "up s'" "ref_Name u = n"
      "pair_in (look s') ns (Some u) (Some t) = found (look s) ns registry n" "found (look s) ns registry n \<noteq> None"
      "registry \<noteq> RegistryNvidia \<longrightarrow> look s' = look s"
proof -
  obtain s1 where rp: "ReadPair c ns eu et s = (Inr (pair_in (look s) ns eu et), s1)" "up s1" "look s1 = look s"
    using ReadPair_up [OF assms] by blast
  show thesis
  proof (cases "pair_in (look s) ns eu et")
    case (Some p)
    then have "eu \<noteq> None" "et \<noteq> None" by (auto simp: pair_in_def split: option.splits)
    then have "EffectiveRefs c ns eu et registry s = ((eu, et), s1)" by (simp add: EffectiveRefs_def rp Some)
    then show thesis using that(1) [of s1] Some rp by simp
  next
    case None
    define s0 where "s0 = (if eu \<noteq> None \<and> et \<noteq> None then s1 else s)"
    have s0: "up s0" "look s0 = look s" using rp assms by (simp_all add: s0_def)
    have eff: "EffectiveRefs c ns eu et registry s = discovered_or c ns eu et registry s0"
      by (simp add: EffectiveRefs_def rp None s0_def)
    obtain r s2 where d: "discoverRefs c ns registry s0 = (r, s2)" "up s2"
        "map_option (\<lambda>p. ref_Name (fst p)) r = find (usable (look s) ns registry) (WellKnownSecretNames registry)"
        "case r of None \<Rightarrow> look s2 = look s
          | Some (u, t) \<Rightarrow> pair_in (look s2) ns (Some u) (Some t) = found (look s) ns registry (ref_Name u)"
        "registry \<noteq> RegistryNvidia \<longrightarrow> look s2 = look s"
      using discover_up [OF s0(1), of ns registry "WellKnownSecretNames registry", unfolded s0(2)]
      unfolding discoverRefs_def by blast
    show thesis
    proof (cases r)
      case r: None
      then show thesis using that(2) [of s2] None d eff by (simp add: discovered_or_def)
    next
      case (Some ut)
      obtain u t where ut: "ut = (u, t)" by (cases ut)
      have "usable (look s) ns registry (ref_Name u)"
        using d(3) Some ut by (auto simp: find_Some_iff dest!: sym [of "Some _"])
      then have "found (look s) ns registry (ref_Name u) \<noteq> None" by (rule usable_found)
      then show thesis by (intro that(3) [of "ref_Name u" u t s2]) (use Some ut None d eff in \<open>simp_all add: discovered_or_def\<close>)
    qed
  qed
qed

end

text \<open>
  C31. Credentials of a registry. If the API server answers: references in the settings that can be
  read are used, and nothing is written; otherwise the first well-known secret that has a usable pair
  of keys is used, and the pair the references name can then be read; if there is none, the settings'
  references stay as they are. Resolving the references that were found finds the same references
  and writes nothing. Whatever the server answers, the only change to any secret is the NGC user name
  added to an NVIDIA secret that had a token and no user.
\<close>

theorem credentials_resolve:
  assumes "secret_client c look up"
  shows "(let ((u, t), s') = EffectiveRefs c ns eu et registry s in only_normalized ns (look s) (look s'))
    \<and> (up s \<longrightarrow> (let ((u, t), s') = EffectiveRefs c ns eu et registry s in
        (pair_in (look s) ns eu et \<noteq> None \<longrightarrow> (u, t) = (eu, et) \<and> look s' = look s)
      \<and> (pair_in (look s) ns eu et = None \<longrightarrow>
          (case find (usable (look s) ns registry) (WellKnownSecretNames registry) of
             None \<Rightarrow> (u, t) = (eu, et)
           | Some n \<Rightarrow> map_option ref_Name u = Some n \<and> pair_in (look s') ns u t \<noteq> None))
      \<and> (let ((u', t'), s'') = EffectiveRefs c ns u t registry s' in (u', t') = (u, t) \<and> look s'' = look s')))"
proof (intro conjI impI)
  note only = secret_client.effective_only [OF assms]
  note up = secret_client.effective_up [OF assms]
  show "let ((u, t), s') = EffectiveRefs c ns eu et registry s in only_normalized ns (look s) (look s')"
    using only [of ns s eu et registry] by (cases "EffectiveRefs c ns eu et registry s") (simp split: prod.split)
  assume s: "up s"
  show "let ((u, t), s') = EffectiveRefs c ns eu et registry s in
        (pair_in (look s) ns eu et \<noteq> None \<longrightarrow> (u, t) = (eu, et) \<and> look s' = look s)
      \<and> (pair_in (look s) ns eu et = None \<longrightarrow>
          (case find (usable (look s) ns registry) (WellKnownSecretNames registry) of
             None \<Rightarrow> (u, t) = (eu, et)
           | Some n \<Rightarrow> map_option ref_Name u = Some n \<and> pair_in (look s') ns u t \<noteq> None))
      \<and> (let ((u', t'), s'') = EffectiveRefs c ns u t registry s' in (u', t') = (u, t) \<and> look s'' = look s')"
  proof (cases rule: up [OF s, of ns eu et registry])
    case (1 s')
    then show ?thesis by (cases rule: up [OF 1(3), of ns eu et registry]) auto
  next
    case (2 s')
    then show ?thesis by (cases rule: up [OF 2(4), of ns eu et registry]) auto
  next
    case (3 n u t s')
    then show ?thesis by (cases rule: up [OF 3(4), of ns "Some u" "Some t" registry]) auto
  qed
qed

definition example_git :: GitRepoSource where
  "example_git = \<lparr>git_RepoURL = ''https://git.lan/fleet'', git_Branch = '''', git_AuthType = '''', git_Username = '''',
     git_CredSecretRef = None, git_CABundleSecretRef = None\<rparr>"

definition no_registry :: RegistrySettings where
  "no_registry = \<lparr>UserSecretRef = None, TokenSecretRef = None, CABundleSecretRef = None\<rparr>"

definition mirrored_settings :: "string \<Rightarrow> SettingsSpec" where
  "mirrored_settings nvidia = \<lparr>set_Fleet = example_git, set_ApplicationCollection = no_registry,
     set_SUSERegistry = no_registry, set_Nvidia = no_registry,
     RegistryEndpoints = Some \<lparr>ep_ApplicationCollection = '''', ep_SUSERegistry = '''', ep_Nvidia = nvidia, ep_OpenShell = ''''\<rparr>,
     set_AppCatalogURL = '''',
     set_RancherCatalog = \<lparr>rc_URL = '''', rc_TokenSecretRef = None, rc_CABundleSecretRef = None, rc_InsecureSkipVerify = False\<rparr>,
     set_BlueprintCatalogs = []\<rparr>"

definition example_cluster :: cluster where
  "example_cluster = \<lparr>
     cl_secrets = [(''op'', ''nvidia'') \<mapsto> \<lparr>sec_Type = ''Opaque'', sec_Data = [''token'' \<mapsto> ''nvapi-1'']\<rparr>],
     cl_namespaces = [''op''],
     cl_settings = Some (mirrored_settings ''oci://registry.lan/nvidia/charts''),
     cl_faults = []\<rparr>"

lemma example_cluster_up [simp]: "no_faults example_cluster"
  by (simp add: no_faults_def example_cluster_def)

lemma example_nvidia_usable:
  "find (usable (cl_secrets example_cluster) ''op'' RegistryNvidia) (WellKnownSecretNames RegistryNvidia) = Some ''nvidia''"
  by (simp add: usable_def example_cluster_def seen_as_def needs_user_def nonEmpty_def normalized_def
      keysFromSecret_def NvidiaDefaultUsername_def)

theorem credentials_resolve_witness:
  "let ((u, t), s') = EffectiveRefs cluster_client ''op'' None None RegistryNvidia example_cluster
   in map_option ref_Name u = Some ''nvidia'' \<and> pair_in (cl_secrets s') ''op'' u t \<noteq> None"
proof -
  have p: "pair_in (cl_secrets example_cluster) ''op'' None None = None" by (simp add: pair_in_def)
  show ?thesis
    using credentials_resolve [OF cl.secret_client_axioms, of "''op''" None None RegistryNvidia example_cluster] p
    by (auto simp only: example_nvidia_usable example_cluster_up Let_def split: prod.splits) simp_all
qed

end
