(* ===== verification/DockerConfig.thy ===== *)
theory DockerConfig
  imports Credentials
begin

text \<open>
  Docker configuration documents: standard base64, \<open>dockerAuthEntry\<close> of
  \<open>internal/controller/aiworkload/blueprint.go\<close>, which writes the entry of one registry, and
  \<open>internal/credentials/dockerconfig.go\<close>, which reads the credentials of a registry back.
  Decoding a struct matches member names exactly. Go visits the entries of a map in no fixed
  order: the order is an argument of the reader.
\<close>

section \<open>Base64\<close>

definition b64_alphabet :: string where
  "b64_alphabet = ''ABCDEFGHIJKLMNOPQRSTUVWXYZabcdefghijklmnopqrstuvwxyz0123456789+/''"

definition b64_digit :: "nat \<Rightarrow> char" where
  "b64_digit n = b64_alphabet ! n"

definition b64_val :: "char \<Rightarrow> nat option" where
  "b64_val c = index_byte b64_alphabet c"

definition byte :: "char \<Rightarrow> nat" where "byte c = of_char c"

fun EncodeToString :: "string \<Rightarrow> string" where
  "EncodeToString [] = []"
| "EncodeToString [a] = [b64_digit (byte a div 4), b64_digit (byte a mod 4 * 16), CHR ''='', CHR ''='']"
| "EncodeToString [a, b] =
     [b64_digit (byte a div 4), b64_digit (byte a mod 4 * 16 + byte b div 16), b64_digit (byte b mod 16 * 4), CHR ''='']"
| "EncodeToString (a # b # c # s) =
     b64_digit (byte a div 4) # b64_digit (byte a mod 4 * 16 + byte b div 16) #
     b64_digit (byte b mod 16 * 4 + byte c div 64) # b64_digit (byte c mod 64) # EncodeToString s"

fun b64_decode :: "string \<Rightarrow> string option" where
  "b64_decode [] = Some []"
| "b64_decode (a # b # c # d # s) =
     (case (b64_val a, b64_val b) of
        (Some x, Some y) \<Rightarrow>
          if c = CHR ''='' then (if d = CHR ''='' \<and> s = [] then Some [char_of (x * 4 + y div 16)] else None)
          else (case b64_val c of
                  None \<Rightarrow> None
                | Some z \<Rightarrow>
                    if d = CHR ''='' then
                      (if s = [] then Some [char_of (x * 4 + y div 16), char_of (y mod 16 * 16 + z div 4)] else None)
                    else (case b64_val d of
                            None \<Rightarrow> None
                          | Some v \<Rightarrow> map_option (\<lambda>t. char_of (x * 4 + y div 16) # char_of (y mod 16 * 16 + z div 4)
                              # char_of (z mod 4 * 64 + v) # t) (b64_decode s)))
      | _ \<Rightarrow> None)"
| "b64_decode _ = None"

text \<open>Line breaks are skipped wherever they stand.\<close>

definition DecodeString :: "string \<Rightarrow> string option" where
  "DecodeString s = b64_decode (filter (\<lambda>c. c \<noteq> CHR 0x0A \<and> c \<noteq> CHR 0x0D) s)"

lemma b64_table:
  "list_all (\<lambda>n. b64_val (b64_digit n) = Some n \<and> b64_digit n \<noteq> CHR ''='' \<and> b64_digit n \<noteq> CHR 0x0A
     \<and> b64_digit n \<noteq> CHR 0x0D \<and> byte_in 0 0x7F (b64_digit n)) [0..<64]"
  by code_simp

lemma b64_digit [simp]:
  assumes "n < 64"
  shows "b64_val (b64_digit n) = Some n" "b64_digit n \<noteq> CHR ''=''" "b64_digit n \<noteq> CHR 0x0A"
    "b64_digit n \<noteq> CHR 0x0D" "byte_in 0 0x7F (b64_digit n)"
  using b64_table assms unfolding list_all_iff by simp_all

lemma byte_less [simp]: "byte c < 256"
  by (simp add: byte_def)

lemma char_of_byte [simp]: "char_of (byte c) = c"
  by (simp add: byte_def)

lemma byte_parts [simp]:
  "byte b div 16 < 16" "byte b div 64 < 4" "byte b div 4 < 64"
  "byte b div 16 div 16 = 0" "byte b div 16 mod 16 = byte b div 16"
  "byte b div 64 div 4 = 0" "byte b div 64 mod 4 = byte b div 64"
proof -
  show l: "byte b div 16 < 16" "byte b div 64 < 4" "byte b div 4 < 64"
    using byte_less [of b] by (simp_all add: less_mult_imp_div_less)
  then show "byte b div 16 div 16 = 0" "byte b div 16 mod 16 = byte b div 16"
    "byte b div 64 div 4 = 0" "byte b div 64 mod 4 = byte b div 64" by simp_all
qed

lemma byte_limits [simp]:
  "byte a mod 4 * 16 < 64" "byte a mod 4 * 16 + byte b div 16 < 64"
  "byte b mod 16 * 4 < 64" "byte b mod 16 * 4 + byte c div 64 < 64" "byte c mod 64 < 64"
proof -
  have a: "byte a mod 4 < 4" "byte b mod 16 < 16" by simp_all
  show "byte a mod 4 * 16 < 64" "byte a mod 4 * 16 + byte b div 16 < 64"
    "byte b mod 16 * 4 < 64" "byte b mod 16 * 4 + byte c div 64 < 64" "byte c mod 64 < 64"
    using a byte_parts(1) [of b] byte_parts(2) [of c] by linarith+
qed

lemma b64_round: "b64_decode (EncodeToString s) = Some s"
  by (induction s rule: EncodeToString.induct) (simp_all del: mult_Suc_right)

lemma encoded_chars: "list_all (\<lambda>c. byte_in 0 0x7F c \<and> c \<noteq> CHR 0x0A \<and> c \<noteq> CHR 0x0D) (EncodeToString s)"
  by (induction s rule: EncodeToString.induct) (simp_all add: byte_in_def [of _ _ "CHR ''=''"])

lemma DecodeString_EncodeToString [simp]: "DecodeString (EncodeToString s) = Some s"
proof -
  have "filter (\<lambda>c. c \<noteq> CHR 0x0A \<and> c \<noteq> CHR 0x0D) (EncodeToString s) = EncodeToString s"
    using encoded_chars [of s] by (intro filter_True) (auto simp: list_all_iff)
  then show ?thesis by (simp add: DecodeString_def b64_round)
qed

lemma EncodeToString_utf8 [simp]: "valid_utf8 (EncodeToString s)"
  using encoded_chars [of s] by (intro valid_utf8_ascii) (auto simp: list_all_iff)

interpretation base64_codec: text_codec EncodeToString DecodeString "\<lambda>s. s \<noteq> ''''"
  by unfold_locales (auto elim!: EncodeToString.elims)

section \<open>Writing and reading an entry\<close>

definition dockerAuthEntry :: "string \<Rightarrow> string \<Rightarrow> json" where
  "dockerAuthEntry username password =
     JObj [(''auth'', JStr (EncodeToString (username @ '':'' @ password))),
           (''password'', JStr password), (''username'', JStr username)]"

text \<open>\<open>json.Marshal(map[string]any{"auths": auths})\<close>.\<close>

definition docker_document :: "jmap \<Rightarrow> string" where
  "docker_document auths = marshal (JObj [(''auths'', JObj auths)])"

record AuthEntry =
  ae_Username :: string
  ae_Password :: string
  ae_Auth :: string

fun decode_entry :: "json \<Rightarrow> AuthEntry option" where
  "decode_entry (JObj m) =
     (case (str_value (obj_get m ''username''), str_value (obj_get m ''password''), str_value (obj_get m ''auth'')) of
        (Some u, Some p, Some a) \<Rightarrow> Some \<lparr>ae_Username = u, ae_Password = p, ae_Auth = a\<rparr>
      | _ \<Rightarrow> None)"
| "decode_entry JNull = Some \<lparr>ae_Username = '''', ae_Password = '''', ae_Auth = ''''\<rparr>"
| "decode_entry _ = None"

fun decode_auths :: "json option \<Rightarrow> (string \<times> AuthEntry) list option" where
  "decode_auths None = Some []"
| "decode_auths (Some JNull) = Some []"
| "decode_auths (Some (JObj es)) = traverse (\<lambda>(k, v). map_option (Pair k) (decode_entry v)) es"
| "decode_auths (Some _) = None"

definition dockerConfigJSON :: "string \<Rightarrow> (string \<times> AuthEntry) list option" where
  "dockerConfigJSON blob =
     (case unmarshal blob of
        Some (JObj m) \<Rightarrow> decode_auths (obj_get m ''auths'')
      | Some JNull \<Rightarrow> Some []
      | _ \<Rightarrow> None)"

definition normalizeRegistryHost :: "string \<Rightarrow> string" where
  "normalizeRegistryHost s =
     (let s1 = trim_prefix (trim_prefix s ''https://'') ''http://'';
          s2 = (case index_byte s1 CHR ''/'' of None \<Rightarrow> s1 | Some i \<Rightarrow> take i s1)
      in to_lower s2)"

text \<open>\<open>strings.Cut(s, ":")\<close>.\<close>

definition cut_colon :: "string \<Rightarrow> (string \<times> string) option" where
  "cut_colon s = map_option (\<lambda>i. (take i s, drop (i + 1) s)) (index_byte s CHR '':'')"

datatype docker_error =
    MalformedDockerConfig
  | InvalidBase64 string
  | MalformedAuthPair string
  | NoUsableCredentials string
  | NoMatchingEntry string

definition entry_credentials :: "string \<Rightarrow> AuthEntry \<Rightarrow> docker_error + string \<times> string" where
  "entry_credentials want entry =
     (if ae_Username entry \<noteq> '''' \<and> ae_Password entry \<noteq> '''' then Inr (ae_Username entry, ae_Password entry)
      else if ae_Auth entry \<noteq> '''' then
        (case DecodeString (ae_Auth entry) of
           None \<Rightarrow> Inl (InvalidBase64 want)
         | Some decoded \<Rightarrow>
             (case cut_colon decoded of
                None \<Rightarrow> Inl (MalformedAuthPair want)
              | Some (u, p) \<Rightarrow> if u = '''' \<or> p = '''' then Inl (MalformedAuthPair want) else Inr (u, p)))
      else Inl (NoUsableCredentials want))"

definition dockerConfigCredentials ::
    "((string \<times> AuthEntry) list \<Rightarrow> (string \<times> AuthEntry) list) \<Rightarrow> string \<Rightarrow> string \<Rightarrow> docker_error + string \<times> string" where
  "dockerConfigCredentials order blob host =
     (let want = normalizeRegistryHost host
      in case dockerConfigJSON blob of
           None \<Rightarrow> Inl MalformedDockerConfig
         | Some entries \<Rightarrow>
             (case find (\<lambda>(key, entry). normalizeRegistryHost key = want) (order entries) of
                None \<Rightarrow> Inl (NoMatchingEntry want)
              | Some (key, entry) \<Rightarrow> entry_credentials want entry))"

lemma dockerAuthEntry_decoded:
  "decode_entry (dockerAuthEntry u p) = Some \<lparr>ae_Username = u, ae_Password = p, ae_Auth = EncodeToString (u @ '':'' @ p)\<rparr>"
  by (simp add: dockerAuthEntry_def)

lemma dockerAuthEntry_canonical [simp]: "canonical (dockerAuthEntry u p)"
  by (simp add: dockerAuthEntry_def)

section \<open>The round trip\<close>

text \<open>The document for a list of registries with their credentials.\<close>

definition auths_of :: "(string \<times> string \<times> string) list \<Rightarrow> jmap" where
  "auths_of creds = map (\<lambda>(h, u, p). (h, dockerAuthEntry u p)) creds"

definition creds_ok :: "(string \<times> string \<times> string) list \<Rightarrow> bool" where
  "creds_ok creds \<longleftrightarrow> sorted_wrt (<) (map fst creds)
     \<and> list_all (\<lambda>(h, u, p). valid_utf8 h \<and> valid_utf8 u \<and> valid_utf8 p \<and> u \<noteq> '''' \<and> p \<noteq> '''') creds"

definition entries_of :: "(string \<times> string \<times> string) list \<Rightarrow> (string \<times> AuthEntry) list" where
  "entries_of creds = map (\<lambda>(h, u, p). (h, \<lparr>ae_Username = u, ae_Password = p, ae_Auth = EncodeToString (u @ '':'' @ p)\<rparr>)) creds"

lemma traverse_entries:
  "traverse (\<lambda>(k, v). map_option (Pair k) (decode_entry v)) (auths_of creds) = Some (entries_of creds)"
  by (induction creds) (auto simp: auths_of_def entries_of_def dockerAuthEntry_decoded)

lemma ascii_utf8: "list_all (byte_in 0 0x7F) s \<Longrightarrow> valid_utf8 s"
  by (rule valid_utf8_ascii)

lemma docker_document_doc:
  assumes "creds_ok creds"
  shows "json_doc (JObj [(''auths'', JObj (auths_of creds))])"
proof -
  have keys: "valid_utf8 ''auths''" "valid_utf8 ''auth''" "valid_utf8 ''password''" "valid_utf8 ''username''"
    by (rule ascii_utf8, code_simp)+
  have pair: "valid_utf8 u \<Longrightarrow> valid_utf8 p \<Longrightarrow> json_ok (dockerAuthEntry u p)" for u p
    by (simp only: dockerAuthEntry_def json_ok.simps list.pred_inject keys EncodeToString_utf8 case_prod_conv simp_thms)
  have map_fst: "map fst (auths_of creds) = map fst creds"
    by (simp add: auths_of_def comp_def case_prod_beta)
  have "list_all (\<lambda>(k, v). valid_utf8 k \<and> json_ok v) (auths_of creds)"
    using assms pair by (auto simp: creds_ok_def auths_of_def list_all_iff)
  moreover have "list_all (\<lambda>(k, v). canonical v) (auths_of creds)"
    by (auto simp: auths_of_def list_all_iff)
  ultimately show ?thesis using assms map_fst by (simp add: json_doc_def keys creds_ok_def del: valid_utf8.simps)
qed

lemma docker_document_decoded:
  assumes "creds_ok creds"
  shows "dockerConfigJSON (docker_document (auths_of creds)) = Some (entries_of creds)"
  using json_codec.dec_enc [OF docker_document_doc [OF assms]] traverse_entries [of creds]
  by (simp add: dockerConfigJSON_def docker_document_def)

lemma find_unique:
  assumes "mset ys = mset xs" "x \<in> set xs" "P x" "\<And>y. y \<in> set xs \<Longrightarrow> P y \<Longrightarrow> y = x"
  shows "find P ys = Some x"
proof -
  have "set ys = set xs" using assms(1) by (metis set_mset_mset)
  then have "find P ys \<noteq> None" using assms(2,3) by (auto simp: find_None_iff)
  then obtain y where y: "find P ys = Some y" by blast
  then have "y \<in> set ys" "P y" by (auto simp: find_Some_iff in_set_conv_nth)
  then show ?thesis using y assms(4) \<open>set ys = set xs\<close> by simp
qed

text \<open>
  C32. The docker configuration the operator writes for a set of registries gives back, for every one
  of them and in whatever order the map is visited, exactly the user name and the password it was
  written for, also when the host is asked for with a scheme, a path or capital letters; for any
  other host the answer is that there is no entry. An entry that only has the base64 pair is read as
  the same credentials, for a user name without a colon.
\<close>

theorem docker_config_roundtrip:
  assumes "creds_ok creds" and "distinct (map (normalizeRegistryHost \<circ> fst) creds)"
    and "\<And>xs. mset (order xs) = mset xs"
  shows "(\<forall>(h, u, p) \<in> set creds. normalizeRegistryHost host = normalizeRegistryHost h \<longrightarrow>
        dockerConfigCredentials order (docker_document (auths_of creds)) host = Inr (u, p))
    \<and> (normalizeRegistryHost host \<notin> set (map (normalizeRegistryHost \<circ> fst) creds) \<longrightarrow>
        dockerConfigCredentials order (docker_document (auths_of creds)) host
          = Inl (NoMatchingEntry (normalizeRegistryHost host)))
    \<and> (\<forall>(h, u, p) \<in> set creds. CHR '':'' \<notin> set u \<longrightarrow>
        entry_credentials h \<lparr>ae_Username = '''', ae_Password = '''', ae_Auth = EncodeToString (u @ '':'' @ p)\<rparr> = Inr (u, p))"
proof (intro conjI)
  note dec = docker_document_decoded [OF assms(1)]
  show "\<forall>(h, u, p) \<in> set creds. normalizeRegistryHost host = normalizeRegistryHost h \<longrightarrow>
        dockerConfigCredentials order (docker_document (auths_of creds)) host = Inr (u, p)"
  proof clarify
    fix h u p assume m: "(h, u, p) \<in> set creds" and n: "normalizeRegistryHost host = normalizeRegistryHost h"
    let ?e = "(h, \<lparr>ae_Username = u, ae_Password = p, ae_Auth = EncodeToString (u @ '':'' @ p)\<rparr>)"
    have "find (\<lambda>(key, entry). normalizeRegistryHost key = normalizeRegistryHost host) (order (entries_of creds)) = Some ?e"
    proof (rule find_unique [OF assms(3)])
      show "?e \<in> set (entries_of creds)" using m by (force simp: entries_of_def)
      fix y assume y: "y \<in> set (entries_of creds)" and "case y of (key, entry) \<Rightarrow> normalizeRegistryHost key = normalizeRegistryHost host"
      then obtain h' u' p' where y': "(h', u', p') \<in> set creds" "normalizeRegistryHost h' = normalizeRegistryHost h"
          "y = (h', \<lparr>ae_Username = u', ae_Password = p', ae_Auth = EncodeToString (u' @ '':'' @ p')\<rparr>)"
        using n by (auto simp: entries_of_def)
      have "inj_on (normalizeRegistryHost \<circ> fst) (set creds)" using assms(2) by (simp add: distinct_map)
      then have "(h', u', p') = (h, u, p)" using inj_onD [of "normalizeRegistryHost \<circ> fst" "set creds" "(h', u', p')" "(h, u, p)"] y'(1,2) m by simp
      then show "y = ?e" using y'(3) by simp
    qed (simp add: n)
    moreover have "u \<noteq> '''' \<and> p \<noteq> ''''" using m assms(1) by (auto simp: creds_ok_def list_all_iff)
    ultimately show "dockerConfigCredentials order (docker_document (auths_of creds)) host = Inr (u, p)"
      by (simp add: dockerConfigCredentials_def dec entry_credentials_def)
  qed
  show "normalizeRegistryHost host \<notin> set (map (normalizeRegistryHost \<circ> fst) creds) \<longrightarrow>
        dockerConfigCredentials order (docker_document (auths_of creds)) host
          = Inl (NoMatchingEntry (normalizeRegistryHost host))"
  proof
    assume h: "normalizeRegistryHost host \<notin> set (map (normalizeRegistryHost \<circ> fst) creds)"
    have "set (order (entries_of creds)) = set (entries_of creds)" using assms(3) by (metis set_mset_mset)
    then have "find (\<lambda>(key, entry). normalizeRegistryHost key = normalizeRegistryHost host) (order (entries_of creds)) = None"
      using h by (auto simp: find_None_iff entries_of_def rev_image_eqI)
    then show "dockerConfigCredentials order (docker_document (auths_of creds)) host
          = Inl (NoMatchingEntry (normalizeRegistryHost host))"
      by (simp add: dockerConfigCredentials_def dec)
  qed
  show "\<forall>(h, u, p) \<in> set creds. CHR '':'' \<notin> set u \<longrightarrow>
        entry_credentials h \<lparr>ae_Username = '''', ae_Password = '''', ae_Auth = EncodeToString (u @ '':'' @ p)\<rparr> = Inr (u, p)"
  proof clarify
    fix h u p assume m: "(h, u, p) \<in> set creds" and u: "CHR '':'' \<notin> set u"
    have "u \<noteq> '''' \<and> p \<noteq> ''''" using m assms(1) by (auto simp: creds_ok_def list_all_iff)
    then show "entry_credentials h \<lparr>ae_Username = '''', ae_Password = '''', ae_Auth = EncodeToString (u @ '':'' @ p)\<rparr> = Inr (u, p)"
      using base64_codec.dec_enc [of "u @ '':'' @ p"] base64_codec.enc_nonempty [of "u @ '':'' @ p"] index_byte_append [OF u, of p]
      by (simp add: entry_credentials_def cut_colon_def)
  qed
qed

theorem docker_config_roundtrip_witness:
  "dockerConfigCredentials rev (docker_document (auths_of [(''nvcr.io'', ''u'', ''p''), (''registry.suse.com'', ''a'', ''b'')])) ''https://NVCR.io/v1''
     = Inr (''u'', ''p'')"
proof -
  let ?c = "[(''nvcr.io'', ''u'', ''p''), (''registry.suse.com'', ''a'', ''b'')]"
  have n: "normalizeRegistryHost ''nvcr.io'' = ''nvcr.io''" "normalizeRegistryHost ''registry.suse.com'' = ''registry.suse.com''"
    "normalizeRegistryHost ''https://NVCR.io/v1'' = ''nvcr.io''"
    by code_simp+
  have u: "valid_utf8 ''nvcr.io''" "valid_utf8 ''registry.suse.com''" "valid_utf8 ''u''" "valid_utf8 ''p''" "valid_utf8 ''a''" "valid_utf8 ''b''"
    by (rule ascii_utf8, code_simp)+
  have "creds_ok ?c" by (simp add: creds_ok_def u del: valid_utf8.simps)
  moreover have "distinct (map (normalizeRegistryHost \<circ> fst) ?c)" by (simp add: n)
  ultimately show ?thesis using docker_config_roundtrip [of ?c rev "''https://NVCR.io/v1''"] n by simp
qed

end
