(* ===== verification/Injectors.thy ===== *)
theory Injectors
  imports DockerConfig
begin

text \<open>
  Pull secrets of a blueprint component (\<open>internal/controller/aiworkload/blueprint.go\<close>): the
  combined SUSE secret, the two NGC secrets, the docker configurations they carry, and the injectors
  that create them and wire them into the component's values. A write to a nil map of values is a
  panic of the Go program; the reconciler's caller recovers it into an error, which the model returns.
\<close>

section \<open>Cluster repositories\<close>

datatype repoKind = RepoKindNone | RepoKindHTTP | RepoKindOCI | RepoKindGit

record clusterRepoInfo =
  ri_Kind :: repoKind
  ri_URL :: string
  ri_GitRepo :: string
  ri_GitBranch :: string
  ri_Commit :: string
  ri_ClientSecret :: string
  ri_ClientSecretNS :: string

text \<open>The fields of a \<open>ClusterRepo\<close>; \<open>None\<close> is a field that is absent or has another type.\<close>

record ClusterRepo =
  cr_clientSecretName :: "string option"
  cr_clientSecretNamespace :: "string option"
  cr_url :: "string option"
  cr_ociRepo :: "string option"
  cr_gitRepo :: "string option"
  cr_gitBranch :: "string option"
  cr_commit :: "string option"

definition str_field :: "string option \<Rightarrow> string" where
  "str_field f = (case f of None \<Rightarrow> '''' | Some v \<Rightarrow> v)"

definition resolveClusterRepo :: "(string \<Rightarrow> err + ClusterRepo) \<Rightarrow> string \<Rightarrow> err + clusterRepoInfo" where
  "resolveClusterRepo getRepo repoName =
     (case getRepo repoName of
        Inl e \<Rightarrow> Inl (if err_is e = SNotFound then Err SClusterRepoNotReady (''get ClusterRepo '' @ repoName)
                      else wrap_err (''get ClusterRepo '' @ repoName) e)
      | Inr cr \<Rightarrow>
          let ns = (if str_field (cr_clientSecretNamespace cr) = '''' then ''cattle-system''
                    else str_field (cr_clientSecretNamespace cr));
              info = \<lparr>ri_Kind = RepoKindNone, ri_URL = '''', ri_GitRepo = '''', ri_GitBranch = '''', ri_Commit = '''',
                ri_ClientSecret = str_field (cr_clientSecretName cr), ri_ClientSecretNS = ns\<rparr>;
              url = (if str_field (cr_url cr) = '''' then str_field (cr_ociRepo cr) else str_field (cr_url cr))
          in if url \<noteq> '''' then
               Inr (info\<lparr>ri_URL := url, ri_Kind := (if has_prefix url ''oci://'' then RepoKindOCI else RepoKindHTTP)\<rparr>)
             else if str_field (cr_gitRepo cr) \<noteq> '''' then
               Inr (info\<lparr>ri_Kind := RepoKindGit, ri_GitRepo := str_field (cr_gitRepo cr),
                 ri_GitBranch := str_field (cr_gitBranch cr), ri_Commit := str_field (cr_commit cr)\<rparr>)
             else Inl (Err SClusterRepoNotReady (''ClusterRepo '' @ repoName @ '' has no url, ociRepo, or gitRepo in spec'')))"

definition componentNamespace :: "AIWorkload \<Rightarrow> BlueprintComponent \<Rightarrow> string" where
  "componentNamespace w c = (if bc_TargetNamespace c \<noteq> '''' then bc_TargetNamespace c else TargetNamespace (Spec w))"

section \<open>Docker configurations\<close>

definition defaultAppCollectionHost :: string where "defaultAppCollectionHost = ''dp.apps.rancher.io''"
definition defaultSUSERegistryHost :: string where "defaultSUSERegistryHost = ''registry.suse.com''"
definition defaultNvidiaHost :: string where "defaultNvidiaHost = ''nvcr.io''"
definition combinedPullSecretName :: string where "combinedPullSecretName = ''suse-ai-pull-combined''"
definition nvidiaAPISecretKeys :: "string list" where
  "nvidiaAPISecretKeys = [''NGC_API_KEY'', ''NGC_CLI_API_KEY'', ''NVIDIA_API_KEY'']"
definition DockerConfigJsonKey :: string where "DockerConfigJsonKey = ''.dockerconfigjson''"
definition SecretTypeDockerConfigJson :: string where "SecretTypeDockerConfigJson = ''kubernetes.io/dockerconfigjson''"
definition SecretTypeOpaque :: string where "SecretTypeOpaque = ''Opaque''"

definition ngcAPISecretData :: "string \<Rightarrow> smap" where
  "ngcAPISecretData token = foldl (\<lambda>out k. out(k \<mapsto> token)) Map.empty nvidiaAPISecretKeys"

text \<open>One registry of \<open>addSUSESettingsAuths\<close>: errors and missing credentials are skipped.\<close>

definition add_auth :: "'s Client \<Rightarrow> string \<Rightarrow> Registry \<Rightarrow> RegistrySettings \<Rightarrow> string \<Rightarrow> jmap \<times> 's \<Rightarrow> jmap \<times> 's" where
  "add_auth c opns registry sect host st =
     (case readRegistryCredentials c opns registry (UserSecretRef sect) (TokenSecretRef sect) (snd st) of
        (Inr (Some (u, p)), s) \<Rightarrow> (obj_set host (dockerAuthEntry u p) (fst st), s)
      | (_, s) \<Rightarrow> (fst st, s))"

definition endpoint_host :: "SettingsSpec \<Rightarrow> (RegistryEndpointsSettings \<Rightarrow> string) \<Rightarrow> string \<Rightarrow> string" where
  "endpoint_host conf field dflt =
     (case RegistryEndpoints conf of
        None \<Rightarrow> dflt
      | Some ep \<Rightarrow> if field ep \<noteq> '''' then Host (field ep) else dflt)"

definition addSUSESettingsAuths :: "'s Client \<Rightarrow> string \<Rightarrow> jmap \<Rightarrow> 's \<Rightarrow> jmap \<times> 's" where
  "addSUSESettingsAuths c opns auths s =
     (case GetSettings c s of
        (Inl _, s1) \<Rightarrow> (auths, s1)
      | (Inr conf, s1) \<Rightarrow>
          add_auth c opns RegistryNvidia (set_Nvidia conf) defaultNvidiaHost
            (add_auth c opns RegistrySUSERegistry (set_SUSERegistry conf)
                (endpoint_host conf ep_SUSERegistry defaultSUSERegistryHost)
              (add_auth c opns RegistryApplicationCollection (set_ApplicationCollection conf)
                  (endpoint_host conf ep_ApplicationCollection defaultAppCollectionHost) (auths, s1))))"

definition buildSUSECombinedDockerConfig :: "'s Client \<Rightarrow> string \<Rightarrow> ('s, string option) act" where
  "buildSUSECombinedDockerConfig c opns s =
     (case addSUSESettingsAuths c opns [] s of
        (auths, s1) \<Rightarrow> (Inr (if auths = [] then None else Some (docker_document auths)), s1))"

definition ngc_host :: "SettingsSpec \<Rightarrow> string" where
  "ngc_host conf =
     (case RegistryEndpoints conf of
        None \<Rightarrow> defaultNvidiaHost
      | Some ep \<Rightarrow> if ep_Nvidia ep \<noteq> '''' then ep_Nvidia ep else defaultNvidiaHost)"

definition buildNGCDockerConfig :: "'s Client \<Rightarrow> string \<Rightarrow> ('s, string option) act" where
  "buildNGCDockerConfig c opns s =
     (case GetSettings c s of
        (Inl _, s1) \<Rightarrow> (Inr None, s1)
      | (Inr conf, s1) \<Rightarrow>
          (case readRegistryCredentials c opns RegistryNvidia (UserSecretRef (set_Nvidia conf))
                  (TokenSecretRef (set_Nvidia conf)) s1 of
             (Inl e, s2) \<Rightarrow> (Inl e, s2)
           | (Inr None, s2) \<Rightarrow> (Inr None, s2)
           | (Inr (Some (user, token)), s2) \<Rightarrow>
               (Inr (Some (docker_document [(ngc_host conf, dockerAuthEntry user token)])), s2)))"

section \<open>Creating the secrets\<close>

definition ApplySecret :: "'s Client \<Rightarrow> string \<Rightarrow> string \<Rightarrow> Secret \<Rightarrow> ('s, unit) act" where
  "ApplySecret c ns n sec s =
     (case PatchSecret c ns n sec s of
        (Inl e, s1) \<Rightarrow> (Inl (wrap_err (''apply secret '' @ ns @ ''/'' @ n) e), s1)
      | (Inr _, s1) \<Rightarrow> (Inr (), s1))"

definition ensureNamespace :: "'s Client \<Rightarrow> string \<Rightarrow> ('s, unit) act" where
  "ensureNamespace c name = PatchNamespace c name"

definition docker_secret :: "string \<Rightarrow> Secret" where
  "docker_secret cfg = \<lparr>sec_Type = SecretTypeDockerConfigJson, sec_Data = [DockerConfigJsonKey \<mapsto> cfg]\<rparr>"

text \<open>The entry of the component's own chart repository.\<close>

definition own_auth :: "'s Client \<Rightarrow> clusterRepoInfo \<Rightarrow> 's \<Rightarrow> jmap \<times> 's" where
  "own_auth c info s =
     (if ri_ClientSecret info \<noteq> '''' \<and> ri_Kind info \<noteq> RepoKindGit \<and> Host (ri_URL info) \<noteq> '''' then
        (case GetSecret c (ri_ClientSecretNS info) (ri_ClientSecret info) s of
           (Inl _, s1) \<Rightarrow> ([], s1)
         | (Inr src, s1) \<Rightarrow>
             (let u = mget (sec_Data src) ''username''; p = mget (sec_Data src) ''password''
              in if u \<noteq> '''' \<and> p \<noteq> '''' then ([(Host (ri_URL info), dockerAuthEntry u p)], s1) else ([], s1)))
      else ([], s))"

definition ensureCombinedPullSecret :: "'s Client \<Rightarrow> string \<Rightarrow> string \<Rightarrow> clusterRepoInfo \<Rightarrow> bool \<Rightarrow> ('s, string) act" where
  "ensureCombinedPullSecret c opns targetNS info writeLocal s =
     (case own_auth c info s of (auths0, s1) \<Rightarrow>
      (case addSUSESettingsAuths c opns auths0 s1 of (auths, s2) \<Rightarrow>
        if auths = [] then (Inr '''', s2)
        else if \<not> writeLocal then (Inr combinedPullSecretName, s2)
        else (case ensureNamespace c targetNS s2 of
                (Inl e, s3) \<Rightarrow> (Inl e, s3)
              | (Inr _, s3) \<Rightarrow>
                  (case ApplySecret c targetNS combinedPullSecretName (docker_secret (docker_document auths)) s3 of
                     (Inl e, s4) \<Rightarrow> (Inl e, s4)
                   | (Inr _, s4) \<Rightarrow> (Inr combinedPullSecretName, s4)))))"

definition nil_map_panic :: err where
  "nil_map_panic = Err SOther ''assignment to entry in nil map''"

section \<open>The injectors\<close>

definition suseApply :: "'s Client \<Rightarrow> string \<Rightarrow> string \<Rightarrow> clusterRepoInfo \<Rightarrow> bool \<Rightarrow> jmap option \<Rightarrow>
    ('s, string list \<times> jmap option) act" where
  "suseApply c opns targetNS info writeLocal vals s =
     (case ensureCombinedPullSecret c opns targetNS info writeLocal s of
        (Inl _, s1) \<Rightarrow> (Inr ([], vals), s1)
      | (Inr name, s1) \<Rightarrow>
          if name = '''' then (Inr ([], vals), s1)
          else (case vals of
                  None \<Rightarrow> (Inl nil_map_panic, s1)
                | Some m \<Rightarrow> (Inr ([name], Some (injectSusePullSecretRefs name m)), s1)))"

text \<open>The writes of \<open>nvidiaInjector.Apply\<close> on the operator's own cluster.\<close>

definition write_ngc_secrets :: "'s Client \<Rightarrow> string \<Rightarrow> string \<Rightarrow> string \<Rightarrow> ('s, unit) act" where
  "write_ngc_secrets c targetNS dockerCfg token s =
     (case ensureNamespace c targetNS s of
        (Inl e, s1) \<Rightarrow> (Inl e, s1)
      | (Inr _, s1) \<Rightarrow>
          (case ApplySecret c targetNS nvidiaImagePullSecretName (docker_secret dockerCfg) s1 of
             (Inl e, s2) \<Rightarrow> (Inl (wrap_err (''apply '' @ targetNS @ ''/'' @ nvidiaImagePullSecretName) e), s2)
           | (Inr _, s2) \<Rightarrow>
               (case ApplySecret c targetNS nvidiaAPISecretName
                       \<lparr>sec_Type = SecretTypeOpaque, sec_Data = ngcAPISecretData token\<rparr> s2 of
                  (Inl e, s3) \<Rightarrow> (Inl (wrap_err (''apply '' @ targetNS @ ''/'' @ nvidiaAPISecretName) e), s3)
                | (Inr _, s3) \<Rightarrow> (Inr (), s3))))"

definition nvidiaApply :: "'s Client \<Rightarrow> string \<Rightarrow> string \<Rightarrow> clusterRepoInfo \<Rightarrow> bool \<Rightarrow> jmap option \<Rightarrow>
    ('s, string list \<times> jmap option) act" where
  "nvidiaApply c opns targetNS info writeLocal vals s =
     (case buildNGCDockerConfig c opns s of
        (Inl e, s1) \<Rightarrow> (Inl e, s1)
      | (Inr None, s1) \<Rightarrow> (Inr ([], vals), s1)
      | (Inr (Some dockerCfg), s1) \<Rightarrow>
          (case GetSettings c s1 of
             (Inl _, s2) \<Rightarrow> (Inr ([], vals), s2)
           | (Inr conf, s2) \<Rightarrow>
               (case readRegistryCredentials c opns RegistryNvidia (UserSecretRef (set_Nvidia conf))
                       (TokenSecretRef (set_Nvidia conf)) s2 of
                  (Inl e, s3) \<Rightarrow> (Inl e, s3)
                | (Inr None, s3) \<Rightarrow> (Inr ([], vals), s3)
                | (Inr (Some (_, token)), s3) \<Rightarrow>
                    (case (if writeLocal then write_ngc_secrets c targetNS dockerCfg token s3 else (Inr (), s3)) of
                       (Inl e, s4) \<Rightarrow> (Inl e, s4)
                     | (Inr _, s4) \<Rightarrow>
                         (case vals of
                            None \<Rightarrow> (Inl nil_map_panic, s4)
                          | Some m \<Rightarrow>
                              (Inr ([nvidiaImagePullSecretName, nvidiaAPISecretName],
                                Some (disableChartSecretCreation ''ngcApiSecret'' nvidiaAPISecretName
                                  (disableChartSecretCreation ''imagePullSecret'' nvidiaImagePullSecretName
                                    (injectNvidiaPullSecretRefs m)))), s4))))))"

definition injectorFor :: "ComponentVendor \<Rightarrow> 's Client \<Rightarrow> string \<Rightarrow> string \<Rightarrow> clusterRepoInfo \<Rightarrow> bool \<Rightarrow> jmap option \<Rightarrow>
    ('s, string list \<times> jmap option) act" where
  "injectorFor vendor = (if vendor = VendorNvidia then nvidiaApply else suseApply)"

text \<open>\<open>ensureFleetAuthSecret\<close> copies a secret into a Fleet namespace; a missing one is no error.\<close>

definition ensureFleetAuthSecret :: "'s Client \<Rightarrow> string \<Rightarrow> string \<Rightarrow> string \<Rightarrow> ('s, unit) act" where
  "ensureFleetAuthSecret c fleetNS srcNS secretName s =
     (case GetSecret c srcNS secretName s of
        (Inl e, s1) \<Rightarrow> if err_is e = SNotFound then (Inr (), s1) else (Inl e, s1)
      | (Inr src, s1) \<Rightarrow> PatchSecret c fleetNS secretName src s1)"

section \<open>The laws of a client that writes\<close>

text \<open>
  A patch of a secret sets its type and at least the keys it names; a namespace is created once; a
  failed call may have been applied. \<open>spaces\<close> are the namespaces that exist and \<open>conf\<close> the settings.
\<close>

definition sets_secret :: "Secret \<Rightarrow> Secret option \<Rightarrow> bool" where
  "sets_secret sec stored \<longleftrightarrow>
     (\<exists>sec'. stored = Some sec' \<and> sec_Type sec' = sec_Type sec \<and> sec_Data sec \<subseteq>\<^sub>m sec_Data sec')"

locale writing_client = secret_client c look up
  for c :: "'s Client" and look :: "'s \<Rightarrow> string \<times> string \<Rightarrow> Secret option" and up :: "'s \<Rightarrow> bool" +
  fixes spaces :: "'s \<Rightarrow> string set" and conf :: "'s \<Rightarrow> SettingsSpec option"
  assumes get_frame: "spaces (snd (GetSecret c ns n s)) = spaces s \<and> conf (snd (GetSecret c ns n s)) = conf s"
    and update_frame: "spaces (snd (UpdateSecret c ns n sec s)) = spaces s \<and> conf (snd (UpdateSecret c ns n sec s)) = conf s"
    and settings_frame: "look (snd (GetSettings c s)) = look s \<and> spaces (snd (GetSettings c s)) = spaces s
        \<and> conf (snd (GetSettings c s)) = conf s"
    and settings_up: "up s \<Longrightarrow> up (snd (GetSettings c s))
        \<and> (case conf s of None \<Rightarrow> isl (fst (GetSettings c s)) | Some st \<Rightarrow> fst (GetSettings c s) = Inr st)"
    and space_step: "PatchNamespace c ns s = (r, s') \<Longrightarrow> look s' = look s \<and> conf s' = conf s
        \<and> (spaces s' = insert ns (spaces s) \<or> isl r \<and> spaces s' = spaces s)"
    and space_up: "up s \<Longrightarrow> up (snd (PatchNamespace c ns s)) \<and> \<not> isl (fst (PatchNamespace c ns s))"
    and patch_step: "PatchSecret c ns n sec s = (r, s') \<Longrightarrow> spaces s' = spaces s \<and> conf s' = conf s
        \<and> (\<forall>k. k \<noteq> (ns, n) \<longrightarrow> look s' k = look s k)
        \<and> (sets_secret sec (look s' (ns, n)) \<or> isl r \<and> look s' (ns, n) = look s (ns, n))"
    and patch_up: "up s \<Longrightarrow> up (snd (PatchSecret c ns n sec s))
        \<and> (ns \<in> spaces s \<longrightarrow> \<not> isl (fst (PatchSecret c ns n sec s)))"

lemma cluster_simps:
  "GetSettings cluster_client s = cl_call (\<lambda>s. cl_read (cl_settings s) s) s"
  "PatchNamespace cluster_client ns s =
     cl_call (\<lambda>s. (Inr (), s\<lparr>cl_namespaces := List.insert ns (cl_namespaces s)\<rparr>)) s"
  "PatchSecret cluster_client ns n sec s = cl_call (\<lambda>s. if ns \<notin> set (cl_namespaces s) then (Inl not_found, s)
        else (Inr (), s\<lparr>cl_secrets := (cl_secrets s)((ns, n) \<mapsto> applied (cl_secrets s (ns, n)) sec)\<rparr>)) s"
  by (simp_all add: cluster_client_def)

lemma sets_applied [simp]: "sets_secret sec (Some (applied old sec))"
  by (cases old) (simp_all add: sets_secret_def applied_def map_le_map_add)

lemma no_faults_spaces [simp]: "no_faults (s\<lparr>cl_namespaces := x\<rparr>) = no_faults s"
  by (simp add: no_faults_def)

interpretation cl: writing_client cluster_client cl_secrets no_faults "\<lambda>s. set (cl_namespaces s)" cl_settings
proof
  fix ns n s sec r s'
  note get = cl_call_cases [of s "\<lambda>s. cl_read (cl_secrets s (ns, n)) s"]
  note upd = cl_call_cases [of s "\<lambda>s. if cl_secrets s (ns, n) = None then (Inl not_found, s)
        else (Inr sec, s\<lparr>cl_secrets := (cl_secrets s)((ns, n) \<mapsto> sec)\<rparr>)"]
  note settings = cl_call_cases [of s "\<lambda>s. cl_read (cl_settings s) s"]
  note space = cl_call_cases [of s "\<lambda>s. (Inr (), s\<lparr>cl_namespaces := List.insert ns (cl_namespaces s)\<rparr>)"]
  note patch = cl_call_cases [of s "\<lambda>s. if ns \<notin> set (cl_namespaces s) then (Inl not_found, s)
        else (Inr (), s\<lparr>cl_secrets := (cl_secrets s)((ns, n) \<mapsto> applied (cl_secrets s (ns, n)) sec)\<rparr>)"]
  show "set (cl_namespaces (snd (GetSecret cluster_client ns n s))) = set (cl_namespaces s)
      \<and> cl_settings (snd (GetSecret cluster_client ns n s)) = cl_settings s"
    using get unfolding cluster_get by (auto simp: cl_read_def split: option.splits)
  show "set (cl_namespaces (snd (UpdateSecret cluster_client ns n sec s))) = set (cl_namespaces s)
      \<and> cl_settings (snd (UpdateSecret cluster_client ns n sec s)) = cl_settings s"
    using upd unfolding cluster_update by (auto split: if_splits)
  show "cl_secrets (snd (GetSettings cluster_client s)) = cl_secrets s
      \<and> set (cl_namespaces (snd (GetSettings cluster_client s))) = set (cl_namespaces s)
      \<and> cl_settings (snd (GetSettings cluster_client s)) = cl_settings s"
    using settings unfolding cluster_simps by (auto simp: cl_read_def split: option.splits)
  show "no_faults s \<Longrightarrow> no_faults (snd (GetSettings cluster_client s))
      \<and> (case cl_settings s of None \<Rightarrow> isl (fst (GetSettings cluster_client s)) | Some st \<Rightarrow> fst (GetSettings cluster_client s) = Inr st)"
    using settings unfolding cluster_simps by (auto simp: cl_read_def no_faults_tl split: option.splits)
  show "PatchNamespace cluster_client ns s = (r, s') \<Longrightarrow> cl_secrets s' = cl_secrets s \<and> cl_settings s' = cl_settings s
      \<and> (set (cl_namespaces s') = insert ns (set (cl_namespaces s)) \<or> isl r \<and> set (cl_namespaces s') = set (cl_namespaces s))"
    using space unfolding cluster_simps by auto
  show "no_faults s \<Longrightarrow> no_faults (snd (PatchNamespace cluster_client ns s)) \<and> \<not> isl (fst (PatchNamespace cluster_client ns s))"
    using space unfolding cluster_simps by (auto simp: no_faults_tl)
  show "PatchSecret cluster_client ns n sec s = (r, s') \<Longrightarrow> set (cl_namespaces s') = set (cl_namespaces s) \<and> cl_settings s' = cl_settings s
      \<and> (\<forall>k. k \<noteq> (ns, n) \<longrightarrow> cl_secrets s' k = cl_secrets s k)
      \<and> (sets_secret sec (cl_secrets s' (ns, n)) \<or> isl r \<and> cl_secrets s' (ns, n) = cl_secrets s (ns, n))"
    using patch unfolding cluster_simps by (auto split: if_splits)
  show "no_faults s \<Longrightarrow> no_faults (snd (PatchSecret cluster_client ns n sec s))
      \<and> (ns \<in> set (cl_namespaces s) \<longrightarrow> \<not> isl (fst (PatchSecret cluster_client ns n sec s)))"
    using patch unfolding cluster_simps by (auto simp: no_faults_tl)
qed

section \<open>What the injectors guarantee\<close>

text \<open>The credentials of a registry, by what the server stores.\<close>

definition creds_in :: "(string \<times> string \<Rightarrow> Secret option) \<Rightarrow> string \<Rightarrow> Registry \<Rightarrow> RegistrySettings \<Rightarrow> (string \<times> string) option" where
  "creds_in store opns registry sect =
     (case pair_in store opns (UserSecretRef sect) (TokenSecretRef sect) of
        Some p \<Rightarrow> Some p
      | None \<Rightarrow> Option.bind (find (usable store opns registry) (WellKnownSecretNames registry)) (found store opns registry))"

text \<open>Nothing but the reads and the normalisation of credentials: the rest of the state is kept.\<close>

definition reads_only :: "('s \<Rightarrow> string \<times> string \<Rightarrow> Secret option) \<Rightarrow> ('s \<Rightarrow> string set) \<Rightarrow> ('s \<Rightarrow> SettingsSpec option) \<Rightarrow>
    string \<Rightarrow> 's \<Rightarrow> 's \<Rightarrow> bool" where
  "reads_only look spaces conf opns s s' \<longleftrightarrow>
     only_normalized opns (look s) (look s') \<and> spaces s' = spaces s \<and> conf s' = conf s"

lemma reads_only_refl [simp]: "reads_only look spaces conf opns s s"
  by (simp add: reads_only_def)

lemma reads_only_trans:
  "reads_only look spaces conf opns s s' \<Longrightarrow> reads_only look spaces conf opns s' s'' \<Longrightarrow> reads_only look spaces conf opns s s''"
  unfolding reads_only_def using only_normalized_trans by metis

context writing_client begin

lemma ReadPair_frame: "spaces (snd (ReadPair c ns u t s)) = spaces s \<and> conf (snd (ReadPair c ns u t s)) = conf s"
proof (cases "u = None \<or> t = None")
  case True
  then show ?thesis by (auto simp: ReadPair_def split: option.split)
next
  case False
  then obtain a b where ab: "u = Some a" "t = Some b" by auto
  obtain r1 s1 where g1: "GetSecret c ns (ref_Name a) s = (r1, s1)" by (cases "GetSecret c ns (ref_Name a) s")
  obtain r2 s2 where g2: "GetSecret c ns (ref_Name b) s1 = (r2, s2)" by (cases "GetSecret c ns (ref_Name b) s1")
  show ?thesis using get_frame [of ns "ref_Name a" s] get_frame [of ns "ref_Name b" s1] g1 g2
    by (cases r1; cases r2) (simp_all add: ReadPair_def ab)
qed

lemma discover_frame:
  "spaces (snd (discover_in c ns registry names s)) = spaces s \<and> conf (snd (discover_in c ns registry names s)) = conf s"
proof (induction names arbitrary: s)
  case (Cons n names)
  obtain r s1 where g: "GetSecret c ns n s = (r, s1)" by (cases "GetSecret c ns n s")
  have f: "spaces s1 = spaces s" "conf s1 = conf s" using get_frame [of ns n s] g by simp_all
  show ?case
  proof (cases r)
    case (Inr sec)
    define m where "m = (if registry = RegistryNvidia then normalizeNvidiaSecret c ns n sec s1 else (Inr sec, s1))"
    obtain r2 s2 where m: "m = (r2, s2)" by (cases m)
    have "spaces s2 = spaces s1" "conf s2 = conf s1"
      using update_frame [of ns n "normalized sec" s1] m
      by (auto simp: m_def normalizeNvidiaSecret_def ret_def split: if_splits)
    then show ?thesis using g Inr Cons.IH [of s2] f m
      by (cases r2) (auto simp: m_def [symmetric] split: option.split)
  qed (use g f Cons.IH [of s1] in simp)
qed simp

lemma effective_frame:
  "spaces (snd (EffectiveRefs c ns eu et registry s)) = spaces s \<and> conf (snd (EffectiveRefs c ns eu et registry s)) = conf s"
proof -
  have d: "spaces (snd (discovered_or c ns eu et registry s)) = spaces s \<and> conf (snd (discovered_or c ns eu et registry s)) = conf s" for s
    using discover_frame [of ns registry "WellKnownSecretNames registry" s]
    by (cases "discover_in c ns registry (WellKnownSecretNames registry) s")
      (simp add: discovered_or_def discoverRefs_def split: option.split prod.split)
  obtain r s1 where rp: "ReadPair c ns eu et s = (r, s1)" by (cases "ReadPair c ns eu et s")
  then have "spaces s1 = spaces s" "conf s1 = conf s" using ReadPair_frame [of ns eu et s] by simp_all
  then show ?thesis using d [of s1] d [of s] rp
    by (cases r) (auto simp: EffectiveRefs_def split: option.split)
qed

lemma creds_reads: "reads_only look spaces conf ns s (snd (readRegistryCredentials c ns registry eu et s))"
proof -
  obtain u t s1 where e: "EffectiveRefs c ns eu et registry s = ((u, t), s1)" by (metis surj_pair)
  have "only_normalized ns (look s) (look s1)" "spaces s1 = spaces s" "conf s1 = conf s"
    using effective_only [of ns s eu et registry] effective_frame [of ns eu et registry s] e by simp_all
  then show ?thesis using ReadPair_look [of ns u t s1] ReadPair_frame [of ns u t s1] e
    by (simp add: readRegistryCredentials_def reads_only_def)
qed

lemma creds_up:
  assumes "up s"
  shows "\<exists>s'. readRegistryCredentials c ns registry (UserSecretRef sect) (TokenSecretRef sect) s
      = (Inr (creds_in (look s) ns registry sect), s') \<and> up s' \<and> (registry \<noteq> RegistryNvidia \<longrightarrow> look s' = look s)"
proof (cases rule: effective_up [OF assms, of ns "UserSecretRef sect" "TokenSecretRef sect" registry])
  case (1 s')
  then show ?thesis using ReadPair_up [OF 1(3), of ns "UserSecretRef sect" "TokenSecretRef sect"]
    by (auto simp: readRegistryCredentials_def creds_in_def)
next
  case (2 s')
  then show ?thesis using ReadPair_up [OF 2(4), of ns "UserSecretRef sect" "TokenSecretRef sect"]
    by (auto simp: readRegistryCredentials_def creds_in_def)
next
  case (3 n u t s')
  then show ?thesis using ReadPair_up [OF 3(4), of ns "Some u" "Some t"]
    by (auto simp: readRegistryCredentials_def creds_in_def)
qed

lemma settings_reads: "reads_only look spaces conf ns s (snd (GetSettings c s))"
  using settings_frame [of s] by (simp add: reads_only_def)

lemma add_auth_reads: "reads_only look spaces conf ns (snd st) (snd (add_auth c ns registry sect host st))"
  using creds_reads [of ns "snd st" registry "UserSecretRef sect" "TokenSecretRef sect"]
  by (auto simp: add_auth_def split: prod.split sum.split option.split)

lemma suse_auths_reads: "reads_only look spaces conf ns s (snd (addSUSESettingsAuths c ns auths s))"
proof -
  obtain r s1 where g: "GetSettings c s = (r, s1)" by (cases "GetSettings c s")
  then have s1: "reads_only look spaces conf ns s s1" using settings_reads [of ns s] by simp
  show ?thesis
  proof (cases r)
    case (Inr cf)
    note trans = reads_only_trans [OF _ add_auth_reads]
    show ?thesis unfolding addSUSESettingsAuths_def g Inr prod.case sum.case
      by (rule trans, rule trans, rule trans) (simp add: s1)
  qed (use g s1 in \<open>simp add: addSUSESettingsAuths_def\<close>)
qed

lemma own_auth_reads: "reads_only look spaces conf ns s (snd (own_auth c info s))"
proof -
  obtain r s1 where g: "GetSecret c (ri_ClientSecretNS info) (ri_ClientSecret info) s = (r, s1)"
    by (cases "GetSecret c (ri_ClientSecretNS info) (ri_ClientSecret info) s")
  have "reads_only look spaces conf ns s s1"
    using get_look [of "ri_ClientSecretNS info" "ri_ClientSecret info" s]
      get_frame [of "ri_ClientSecretNS info" "ri_ClientSecret info" s] g by (simp add: reads_only_def)
  then show ?thesis by (cases r) (simp_all add: own_auth_def g Let_def)
qed

lemma ngc_config_reads: "reads_only look spaces conf ns s (snd (buildNGCDockerConfig c ns s))"
proof -
  obtain r s1 where g: "GetSettings c s = (r, s1)" by (cases "GetSettings c s")
  then have s1: "reads_only look spaces conf ns s s1" using settings_reads [of ns s] by simp
  show ?thesis
  proof (cases r)
    case (Inr cf)
    show ?thesis using reads_only_trans [OF s1 creds_reads [of ns s1 RegistryNvidia "UserSecretRef (set_Nvidia cf)" "TokenSecretRef (set_Nvidia cf)"]]
      by (auto simp: buildNGCDockerConfig_def g Inr split: prod.split sum.split option.split)
  qed (use g s1 in \<open>simp add: buildNGCDockerConfig_def\<close>)
qed

end

definition pull_secret_names :: "string list" where
  "pull_secret_names = [combinedPullSecretName, nvidiaImagePullSecretName, nvidiaAPISecretName]"

text \<open>Apart from the pull secrets in the target namespace, only reads happened.\<close>

definition injects :: "('s \<Rightarrow> string \<times> string \<Rightarrow> Secret option) \<Rightarrow> ('s \<Rightarrow> string set) \<Rightarrow> string \<Rightarrow> string \<Rightarrow> bool \<Rightarrow> 's \<Rightarrow> 's \<Rightarrow> bool" where
  "injects look spaces opns ns writeLocal s s' \<longleftrightarrow>
     only_normalized opns (look s)
       (\<lambda>k. if writeLocal \<and> fst k = ns \<and> snd k \<in> set pull_secret_names then look s k else look s' k)
     \<and> (spaces s' = spaces s \<or> writeLocal \<and> spaces s' = insert ns (spaces s))"

lemma injects_reads: "reads_only look spaces conf opns s s' \<Longrightarrow> injects look spaces opns ns wl s s'"
  unfolding injects_def reads_only_def only_normalized_def by auto

lemma injects_writes:
  assumes "reads_only look spaces conf opns s s1" and "spaces s' = spaces s1 \<or> spaces s' = insert ns (spaces s1)"
    and "\<And>k. \<not> (fst k = ns \<and> snd k \<in> set pull_secret_names) \<Longrightarrow> look s' k = look s1 k"
  shows "injects look spaces opns ns True s s'"
  unfolding injects_def only_normalized_def
proof (intro conjI allI)
  fix k
  show "(if True \<and> fst k = ns \<and> snd k \<in> set pull_secret_names then look s k else look s' k) = look s k
      \<or> fst k = opns \<and> snd k \<in> set (WellKnownSecretNames RegistryNvidia)
        \<and> (\<exists>sec. look s k = Some sec \<and> needs_user sec
          \<and> (if True \<and> fst k = ns \<and> snd k \<in> set pull_secret_names then look s k else look s' k) = Some (normalized sec))"
  proof (cases "fst k = ns \<and> snd k \<in> set pull_secret_names")
    case False
    then show ?thesis using assms(1) assms(3) [OF False] unfolding reads_only_def only_normalized_def
      by (simp only: False if_False simp_thms)
  qed simp
qed (use assms in \<open>auto simp: reads_only_def\<close>)

context writing_client begin

lemma apply_step:
  assumes "ApplySecret c ns n sec s = (r, s')"
  shows "spaces s' = spaces s \<and> conf s' = conf s \<and> (\<forall>k. k \<noteq> (ns, n) \<longrightarrow> look s' k = look s k)
    \<and> (sets_secret sec (look s' (ns, n)) \<or> isl r \<and> look s' (ns, n) = look s (ns, n))"
proof -
  obtain r1 s1 where p: "PatchSecret c ns n sec s = (r1, s1)" by (cases "PatchSecret c ns n sec s")
  show ?thesis using patch_step [OF p] assms p by (cases r1) (auto simp: ApplySecret_def)
qed

lemma apply_up:
  assumes "up s" "ns \<in> spaces s"
  shows "\<exists>s'. ApplySecret c ns n sec s = (Inr (), s') \<and> up s'"
proof -
  obtain r1 s1 where p: "PatchSecret c ns n sec s = (r1, s1)" by (cases "PatchSecret c ns n sec s")
  show ?thesis using patch_up [OF assms(1), of ns n sec] assms(2) p by (cases r1) (simp_all add: ApplySecret_def)
qed

lemma combined_step:
  assumes "ensureCombinedPullSecret c opns ns info wl s = (r, s')"
  shows "injects look spaces opns ns wl s s'
    \<and> (\<forall>name. r = Inr name \<and> name \<noteq> '''' \<longrightarrow> name = combinedPullSecretName
        \<and> (wl \<longrightarrow> ns \<in> spaces s' \<and> (\<exists>sec. look s' (ns, name) = Some sec \<and> sec_Type sec = SecretTypeDockerConfigJson)))"
proof -
  obtain a0 s1 where o: "own_auth c info s = (a0, s1)" by (cases "own_auth c info s")
  obtain a s2 where a: "addSUSESettingsAuths c opns a0 s1 = (a, s2)" by (cases "addSUSESettingsAuths c opns a0 s1")
  have reads: "reads_only look spaces conf opns s s2"
    using reads_only_trans [OF own_auth_reads [of opns s info] suse_auths_reads [of opns _ a0, unfolded]] o a by simp
  note combinedPullSecretName_def [simp]
  show ?thesis
  proof (cases "a = [] \<or> \<not> wl")
    case True
    then have "s' = s2" "r = Inr (if a = [] then '''' else combinedPullSecretName)"
      using assms by (auto simp: ensureCombinedPullSecret_def o a split: if_splits)
    then show ?thesis using injects_reads [OF reads] True by auto
  next
    case False
    obtain rn s3 where n: "ensureNamespace c ns s2 = (rn, s3)" by (cases "ensureNamespace c ns s2")
    note n' = space_step [OF n [unfolded ensureNamespace_def]]
    show ?thesis
    proof (cases rn)
      case (Inl e)
      then have "s' = s3" "r = Inl e" using assms False n by (simp_all add: ensureCombinedPullSecret_def o a)
      then show ?thesis using injects_writes [OF reads, of s3 ns] n' False by auto
    next
      case (Inr x)
      let ?sec = "docker_secret (docker_document a)"
      obtain ra s4 where p: "ApplySecret c ns combinedPullSecretName ?sec s3 = (ra, s4)" by (cases "ApplySecret c ns combinedPullSecretName ?sec s3")
      note p' = apply_step [OF p]
      have s4: "s' = s4" using assms False n Inr p by (cases ra) (simp_all add: ensureCombinedPullSecret_def o a)
      have "look s4 k = look s2 k" if "\<not> (fst k = ns \<and> snd k \<in> set pull_secret_names)" for k
      proof -
        have "k \<noteq> (ns, combinedPullSecretName)" using that by (auto simp: pull_secret_names_def)
        then show ?thesis using p' n' by metis
      qed
      then have inj: "injects look spaces opns ns True s s4" using n' p' by (intro injects_writes [OF reads]) auto
      show ?thesis
      proof (cases ra)
        case (Inl e)
        then have "r = Inl e" using assms False n Inr p by (simp add: ensureCombinedPullSecret_def o a)
        then show ?thesis using inj s4 False by simp
      next
        case r: (Inr y)
        then have "r = Inr combinedPullSecretName" using assms False n Inr p by (simp add: ensureCombinedPullSecret_def o a)
        moreover have "sets_secret ?sec (look s4 (ns, combinedPullSecretName))" using p' r by simp
        moreover have "ns \<in> spaces s4" using n' p' Inr by simp
        ultimately show ?thesis using inj s4 False by (auto simp: sets_secret_def docker_secret_def)
      qed
    qed
  qed
qed

end

context writing_client begin

lemma ngc_write_step:
  assumes "write_ngc_secrets c ns cfg token s = (r, s')"
  shows "(spaces s' = spaces s \<or> spaces s' = insert ns (spaces s))
    \<and> (\<forall>k. \<not> (fst k = ns \<and> snd k \<in> set pull_secret_names) \<longrightarrow> look s' k = look s k)
    \<and> (\<not> isl r \<longrightarrow> ns \<in> spaces s' \<and> sets_secret (docker_secret cfg) (look s' (ns, nvidiaImagePullSecretName))
        \<and> sets_secret \<lparr>sec_Type = SecretTypeOpaque, sec_Data = ngcAPISecretData token\<rparr> (look s' (ns, nvidiaAPISecretName)))"
proof -
  let ?api = "\<lparr>sec_Type = SecretTypeOpaque, sec_Data = ngcAPISecretData token\<rparr>"
  have neq: "nvidiaImagePullSecretName \<noteq> nvidiaAPISecretName"
    by (simp add: nvidiaImagePullSecretName_def nvidiaAPISecretName_def)
  have mem: "nvidiaImagePullSecretName \<in> set pull_secret_names" "nvidiaAPISecretName \<in> set pull_secret_names"
    by (simp_all add: pull_secret_names_def)
  obtain rn s1 where n: "ensureNamespace c ns s = (rn, s1)" by (cases "ensureNamespace c ns s")
  note n' = space_step [OF n [unfolded ensureNamespace_def]]
  obtain rp s2 where p: "ApplySecret c ns nvidiaImagePullSecretName (docker_secret cfg) s1 = (rp, s2)"
    by (cases "ApplySecret c ns nvidiaImagePullSecretName (docker_secret cfg) s1")
  note p' = apply_step [OF p]
  obtain ra s3 where a: "ApplySecret c ns nvidiaAPISecretName ?api s2 = (ra, s3)"
    by (cases "ApplySecret c ns nvidiaAPISecretName ?api s2")
  note a' = apply_step [OF a]
  have k2: "look s2 k = look s k" if "\<not> (fst k = ns \<and> snd k \<in> set pull_secret_names)" for k
    using that mem p' n' by (metis fst_conv snd_conv)
  have k3: "look s3 k = look s k" if "\<not> (fst k = ns \<and> snd k \<in> set pull_secret_names)" for k
    using that mem a' k2 [OF that] by (metis fst_conv snd_conv)
  show ?thesis
  proof (cases rn)
    case (Inl e)
    then show ?thesis using assms n n' by (auto simp: write_ngc_secrets_def)
  next
    case rn: (Inr x)
    then have sp: "spaces s1 = insert ns (spaces s)" using n' by simp
    show ?thesis
    proof (cases rp)
      case (Inl e)
      then show ?thesis using assms n rn p p' sp k2 by (auto simp: write_ngc_secrets_def)
    next
      case rp: (Inr y)
      have "s' = s3 \<and> isl r = isl ra" using assms n rn p rp a by (cases ra) (auto simp: write_ngc_secrets_def)
      moreover have "look s3 (ns, nvidiaImagePullSecretName) = look s2 (ns, nvidiaImagePullSecretName)" using a' neq by simp
      ultimately show ?thesis using sp p' a' rp k3 by auto
    qed
  qed
qed

lemma nvidia_step:
  assumes "nvidiaApply c opns ns info wl vals s = (r, s')"
  shows "injects look spaces opns ns wl s s'
    \<and> (\<forall>names vals'. r = Inr (names, vals') \<and> names \<noteq> [] \<longrightarrow> names = [nvidiaImagePullSecretName, nvidiaAPISecretName]
        \<and> (wl \<longrightarrow> ns \<in> spaces s' \<and> (\<forall>n \<in> set names. look s' (ns, n) \<noteq> None)))"
proof -
  obtain rc s1 where b: "buildNGCDockerConfig c opns s = (rc, s1)" by (cases "buildNGCDockerConfig c opns s")
  have r1: "reads_only look spaces conf opns s s1" using ngc_config_reads [of opns s] b by simp
  note d = nvidiaApply_def
  show ?thesis
  proof (cases "\<exists>cfg. rc = Inr (Some cfg)")
    case False
    then have "s' = s1" "r = Inr ([], vals) \<or> isl r" using assms b by (auto simp: d split: sum.splits option.splits)
    then show ?thesis using injects_reads [OF r1] by auto
  next
    case True
    then obtain cfg where cfg: "rc = Inr (Some cfg)" by blast
    obtain rg s2 where g: "GetSettings c s1 = (rg, s2)" by (cases "GetSettings c s1")
    have r2: "reads_only look spaces conf opns s s2" using reads_only_trans [OF r1] settings_reads [of opns s1] g by simp
    show ?thesis
    proof (cases rg)
      case (Inl e)
      then show ?thesis using assms b cfg g injects_reads [OF r2] by (auto simp: d)
    next
      case rg: (Inr cf)
      obtain rr s3 where rr: "readRegistryCredentials c opns RegistryNvidia (UserSecretRef (set_Nvidia cf)) (TokenSecretRef (set_Nvidia cf)) s2 = (rr, s3)"
        by (cases "readRegistryCredentials c opns RegistryNvidia (UserSecretRef (set_Nvidia cf)) (TokenSecretRef (set_Nvidia cf)) s2")
      have r3: "reads_only look spaces conf opns s s3"
        using reads_only_trans [OF r2] creds_reads [of opns s2 RegistryNvidia "UserSecretRef (set_Nvidia cf)" "TokenSecretRef (set_Nvidia cf)"] rr by simp
      show ?thesis
      proof (cases "\<exists>u token. rr = Inr (Some (u, token))")
        case False
        then have "s' = s3" "r = Inr ([], vals) \<or> isl r" using assms b cfg g rg rr by (auto simp: d split: sum.splits option.splits)
        then show ?thesis using injects_reads [OF r3] by auto
      next
        case True
        then obtain u token where tok: "rr = Inr (Some (u, token))" by blast
        show ?thesis
        proof (cases wl)
          case False
          then have "s' = s3" "\<forall>names vals'. r = Inr (names, vals') \<longrightarrow> names = [nvidiaImagePullSecretName, nvidiaAPISecretName]"
            using assms b cfg g rg rr tok by (auto simp: d split: option.splits)
          then show ?thesis using injects_reads [OF r3] False by auto
        next
          case wl: True
          obtain rw s4 where w: "write_ngc_secrets c ns cfg token s3 = (rw, s4)" by (cases "write_ngc_secrets c ns cfg token s3")
          note w' = ngc_write_step [OF w]
          have inj: "injects look spaces opns ns True s s4" using w' by (intro injects_writes [OF r3]) auto
          have res: "s' = s4" "isl rw \<Longrightarrow> isl r"
            "\<forall>names vals'. r = Inr (names, vals') \<longrightarrow> names = [nvidiaImagePullSecretName, nvidiaAPISecretName]"
            using assms b cfg g rg rr tok wl w by (auto simp: d split: sum.splits option.splits)
          show ?thesis
          proof (cases "isl r")
            case False
            then have "\<not> isl rw" using res(2) by blast
            then show ?thesis using w' inj res(1,3) wl by (auto simp: sets_secret_def)
          qed (use inj res(1) wl in auto)
        qed
      qed
    qed
  qed
qed

lemma suse_step:
  assumes "suseApply c opns ns info wl vals s = (r, s')"
  shows "injects look spaces opns ns wl s s'
    \<and> (\<forall>names vals'. r = Inr (names, vals') \<and> names \<noteq> [] \<longrightarrow> names = [combinedPullSecretName]
        \<and> (wl \<longrightarrow> ns \<in> spaces s' \<and> (\<forall>n \<in> set names. look s' (ns, n) \<noteq> None)))"
proof -
  obtain rc s1 where e: "ensureCombinedPullSecret c opns ns info wl s = (rc, s1)" by (cases "ensureCombinedPullSecret c opns ns info wl s")
  note e' = combined_step [OF e]
  show ?thesis
  proof (cases rc)
    case (Inl x)
    then show ?thesis using assms e e' by (auto simp: suseApply_def)
  next
    case (Inr name)
    show ?thesis using assms e e' Inr by (cases "name = ''''"; cases vals) (auto simp: suseApply_def)
  qed
qed

end


definition example_repo :: clusterRepoInfo where
  "example_repo = \<lparr>ri_Kind = RepoKindHTTP, ri_URL = ''https://charts.lan'', ri_GitRepo = '''', ri_GitBranch = '''',
     ri_Commit = '''', ri_ClientSecret = '''', ri_ClientSecretNS = ''cattle-system''\<rparr>"

lemma example_injection:
  "case injectorFor VendorNvidia cluster_client ''op'' ''ai'' example_repo True (Some []) example_cluster of
     (Inr (names, _), _) \<Rightarrow> names = [''ngc-secret'', ''ngc-api''] | _ \<Rightarrow> False"
  by code_simp


section \<open>What the secrets contain\<close>

definition with_entry :: "(string \<times> string \<Rightarrow> Secret option) \<Rightarrow> string \<Rightarrow> Registry \<Rightarrow> RegistrySettings \<Rightarrow> string \<Rightarrow> jmap \<Rightarrow> jmap" where
  "with_entry store opns registry sect host auths =
     (case creds_in store opns registry sect of None \<Rightarrow> auths | Some (u, p) \<Rightarrow> obj_set host (dockerAuthEntry u p) auths)"

context writing_client begin

lemma add_auth_up:
  assumes "up s"
  shows "\<exists>s'. add_auth c opns registry sect host (auths, s) = (with_entry (look s) opns registry sect host auths, s')
    \<and> up s' \<and> (registry \<noteq> RegistryNvidia \<longrightarrow> look s' = look s)"
  using creds_up [OF assms, of opns registry sect] by (auto simp: add_auth_def with_entry_def split: option.split)

lemma suse_auths_up:
  assumes "up s" "conf s = Some cf"
  shows "\<exists>s'. addSUSESettingsAuths c opns auths s =
      (with_entry (look s) opns RegistryNvidia (set_Nvidia cf) defaultNvidiaHost
        (with_entry (look s) opns RegistrySUSERegistry (set_SUSERegistry cf) (endpoint_host cf ep_SUSERegistry defaultSUSERegistryHost)
          (with_entry (look s) opns RegistryApplicationCollection (set_ApplicationCollection cf)
            (endpoint_host cf ep_ApplicationCollection defaultAppCollectionHost) auths)), s') \<and> up s'"
proof -
  obtain s1 where g: "GetSettings c s = (Inr cf, s1)" "up s1" "look s1 = look s"
    using settings_up [OF assms(1)] settings_frame [of s] assms(2) by (cases "GetSettings c s") simp
  note step1 = add_auth_up [OF g(2), of opns RegistryApplicationCollection, unfolded g(3), simplified]
  obtain s2 where s2: "add_auth c opns RegistryApplicationCollection (set_ApplicationCollection cf)
      (endpoint_host cf ep_ApplicationCollection defaultAppCollectionHost) (auths, s1)
      = (with_entry (look s) opns RegistryApplicationCollection (set_ApplicationCollection cf)
            (endpoint_host cf ep_ApplicationCollection defaultAppCollectionHost) auths, s2)" "up s2" "look s2 = look s"
    using step1 [of "set_ApplicationCollection cf" "endpoint_host cf ep_ApplicationCollection defaultAppCollectionHost" auths] by blast
  let ?a1 = "with_entry (look s) opns RegistryApplicationCollection (set_ApplicationCollection cf)
            (endpoint_host cf ep_ApplicationCollection defaultAppCollectionHost) auths"
  note step2 = add_auth_up [OF s2(2), of opns RegistrySUSERegistry, unfolded s2(3), simplified]
  obtain s3 where s3: "add_auth c opns RegistrySUSERegistry (set_SUSERegistry cf)
      (endpoint_host cf ep_SUSERegistry defaultSUSERegistryHost) (?a1, s2)
      = (with_entry (look s) opns RegistrySUSERegistry (set_SUSERegistry cf) (endpoint_host cf ep_SUSERegistry defaultSUSERegistryHost) ?a1, s3)"
      "up s3" "look s3 = look s"
    using step2 [of "set_SUSERegistry cf" "endpoint_host cf ep_SUSERegistry defaultSUSERegistryHost" ?a1] by blast
  show ?thesis
    using add_auth_up [OF s3(2), of opns RegistryNvidia "set_Nvidia cf" defaultNvidiaHost] s3(3)
    by (simp add: addSUSESettingsAuths_def g(1) s2(1) s3(1))
qed

lemma own_auth_up:
  assumes "up s"
  shows "up (snd (own_auth c info s)) \<and> look (snd (own_auth c info s)) = look s \<and> conf (snd (own_auth c info s)) = conf s"
proof -
  obtain r s1 where g: "GetSecret c (ri_ClientSecretNS info) (ri_ClientSecret info) s = (r, s1)"
    by (cases "GetSecret c (ri_ClientSecretNS info) (ri_ClientSecret info) s")
  have "up s1" "look s1 = look s" "conf s1 = conf s"
    using get_up [OF assms, of "ri_ClientSecretNS info" "ri_ClientSecret info"] get_look [of "ri_ClientSecretNS info" "ri_ClientSecret info" s]
      get_frame [of "ri_ClientSecretNS info" "ri_ClientSecret info" s] g by simp_all
  then show ?thesis using assms by (cases r) (simp_all add: own_auth_def g Let_def)
qed

lemma combined_up:
  assumes "up s" "addSUSESettingsAuths c opns (fst (own_auth c info s)) (snd (own_auth c info s)) = (auths, s2)" "up s2"
  shows "\<exists>s'. ensureCombinedPullSecret c opns ns info True s = (Inr (if auths = [] then '''' else combinedPullSecretName), s')
    \<and> (auths \<noteq> [] \<longrightarrow> sets_secret (docker_secret (docker_document auths)) (look s' (ns, combinedPullSecretName)))"
proof (cases "auths = []")
  case True
  then show ?thesis using assms(2) by (simp add: ensureCombinedPullSecret_def case_prod_beta)
next
  case False
  obtain rn s3 where n: "PatchNamespace c ns s2 = (rn, s3)" by (cases "PatchNamespace c ns s2")
  have up3: "up s3" "\<not> isl rn" using space_up [OF assms(3), of ns] n by simp_all
  then have sp: "ns \<in> spaces s3" using space_step [OF n] by simp
  obtain s4 where p: "ApplySecret c ns combinedPullSecretName (docker_secret (docker_document auths)) s3 = (Inr (), s4)"
    using apply_up [OF up3(1) sp, of combinedPullSecretName "docker_secret (docker_document auths)"] by blast
  have "sets_secret (docker_secret (docker_document auths)) (look s4 (ns, combinedPullSecretName))"
    using apply_step [OF p] by simp
  then show ?thesis using assms(2) False n up3(2) p
    by (cases rn) (simp_all add: ensureCombinedPullSecret_def case_prod_beta ensureNamespace_def)
qed

lemma ngc_config_up:
  assumes "up s" "conf s = Some cf" "creds_in (look s) opns RegistryNvidia (set_Nvidia cf) = Some (u, p)"
  shows "\<exists>s'. buildNGCDockerConfig c opns s = (Inr (Some (docker_document [(ngc_host cf, dockerAuthEntry u p)])), s')"
proof -
  obtain s1 where g: "GetSettings c s = (Inr cf, s1)" "up s1" "look s1 = look s"
    using settings_up [OF assms(1)] settings_frame [of s] assms(2) by (cases "GetSettings c s") simp
  show ?thesis using creds_up [OF g(2), of opns RegistryNvidia "set_Nvidia cf"] g(1,3) assms(3)
    by (auto simp: buildNGCDockerConfig_def)
qed

end

text \<open>
  The combined pull secret covers every registry that has credentials. If the API server answers
  and the component may be written for locally, the secret exists exactly if some registry has
  credentials, and its docker configuration has the entry of the NVIDIA image host, of the SUSE
  registry and of the application collection for each of them that has credentials, where a later
  registry of this order wins over an earlier one with the same host.
\<close>

theorem combined_secret_covers:
  assumes "writing_client c look up spaces conf" and "up s" and "conf s = Some cf"
  defines "suse \<equiv> endpoint_host cf ep_SUSERegistry ''registry.suse.com''"
    and "app \<equiv> endpoint_host cf ep_ApplicationCollection ''dp.apps.rancher.io''"
  shows "\<exists>auths s'. ensureCombinedPullSecret c opns ns info True s = (Inr (if auths = [] then '''' else ''suse-ai-pull-combined''), s')
    \<and> (auths \<noteq> [] \<longrightarrow> sets_secret (docker_secret (docker_document auths)) (look s' (ns, ''suse-ai-pull-combined'')))
    \<and> (\<forall>u p. creds_in (look s) opns RegistryNvidia (set_Nvidia cf) = Some (u, p) \<longrightarrow>
         obj_get auths ''nvcr.io'' = Some (dockerAuthEntry u p))
    \<and> (\<forall>u p. creds_in (look s) opns RegistrySUSERegistry (set_SUSERegistry cf) = Some (u, p) \<and> suse \<noteq> ''nvcr.io'' \<longrightarrow>
         obj_get auths suse = Some (dockerAuthEntry u p))
    \<and> (\<forall>u p. creds_in (look s) opns RegistryApplicationCollection (set_ApplicationCollection cf) = Some (u, p)
           \<and> app \<noteq> ''nvcr.io'' \<and> app \<noteq> suse \<longrightarrow>
         obj_get auths app = Some (dockerAuthEntry u p))"
proof -
  note own = writing_client.own_auth_up [OF assms(1) assms(2), of info]
  obtain auths s2 where a: "addSUSESettingsAuths c opns (fst (own_auth c info s)) (snd (own_auth c info s)) = (auths, s2)"
    by (cases "addSUSESettingsAuths c opns (fst (own_auth c info s)) (snd (own_auth c info s))")
  note ua = writing_client.suse_auths_up [OF assms(1), of "snd (own_auth c info s)" cf opns "fst (own_auth c info s)"]
  have up2: "up s2" using ua own assms(3) a by auto
  obtain s' where s': "ensureCombinedPullSecret c opns ns info True s = (Inr (if auths = [] then '''' else combinedPullSecretName), s')"
    "auths \<noteq> [] \<longrightarrow> sets_secret (docker_secret (docker_document auths)) (look s' (ns, combinedPullSecretName))"
    using writing_client.combined_up [OF assms(1,2) a up2, of ns] by blast
  have auths: "auths = with_entry (look s) opns RegistryNvidia (set_Nvidia cf) ''nvcr.io''
      (with_entry (look s) opns RegistrySUSERegistry (set_SUSERegistry cf) suse
        (with_entry (look s) opns RegistryApplicationCollection (set_ApplicationCollection cf) app (fst (own_auth c info s))))"
    using ua own assms(3) a
    by (auto simp: suse_def app_def defaultNvidiaHost_def defaultSUSERegistryHost_def defaultAppCollectionHost_def)
  show ?thesis
    by (intro exI [of _ auths] exI [of _ s'] conjI)
      (use s' in \<open>simp_all add: auths combinedPullSecretName_def with_entry_def split: option.splits\<close>)
qed

definition example_settings :: SettingsSpec where
  "example_settings = mirrored_settings ''oci://registry.lan/nvidia/charts''"

lemma example_cluster_conf: "cl_settings example_cluster = Some example_settings"
  by (simp add: example_cluster_def example_settings_def)

lemma example_creds:
  "creds_in (cl_secrets example_cluster) ''op'' RegistryNvidia (set_Nvidia example_settings) = Some (''$oauthtoken'', ''nvapi-1'')"
  by code_simp

theorem combined_secret_covers_witness:
  "\<exists>auths s'. ensureCombinedPullSecret cluster_client ''op'' ''ai'' example_repo True example_cluster = (Inr ''suse-ai-pull-combined'', s')
    \<and> sets_secret (docker_secret (docker_document auths)) (cl_secrets s' (''ai'', ''suse-ai-pull-combined''))
    \<and> obj_get auths ''nvcr.io'' = Some (dockerAuthEntry ''$oauthtoken'' ''nvapi-1'')"
proof -
  from combined_secret_covers [OF cl.writing_client_axioms example_cluster_up example_cluster_conf, of "''op''" "''ai''" example_repo]
  obtain auths s' where h: "ensureCombinedPullSecret cluster_client ''op'' ''ai'' example_repo True example_cluster
        = (Inr (if auths = [] then '''' else ''suse-ai-pull-combined''), s')"
      "auths \<noteq> [] \<longrightarrow> sets_secret (docker_secret (docker_document auths)) (cl_secrets s' (''ai'', ''suse-ai-pull-combined''))"
      "obj_get auths ''nvcr.io'' = Some (dockerAuthEntry ''$oauthtoken'' ''nvapi-1'')"
    using example_creds by blast
  then have "auths \<noteq> []" by auto
  then show ?thesis using h by (intro exI [of _ auths] exI [of _ s']) simp
qed

text \<open>
  The NGC pull secret loses the image registry when the settings redirect NVIDIA charts. With an
  endpoint for NVIDIA charts in the settings, the secret named \<open>ngc-secret\<close> is written for that
  address, as it is spelled there, and holds no entry for \<open>nvcr.io\<close>, where the images come from,
  while the combined secret of the SUSE components, built from the same settings, does hold it.
\<close>

theorem ngc_secret_misses_image_host:
  assumes "writing_client c look up spaces conf" and "up s" and "conf s = Some cf"
    and "RegistryEndpoints cf = Some ep" and "ep_Nvidia ep \<noteq> ''''" and "normalizeRegistryHost (ep_Nvidia ep) \<noteq> ''nvcr.io''"
    and "creds_in (look s) opns RegistryNvidia (set_Nvidia cf) = Some (u, p)" and "creds_ok [(ep_Nvidia ep, u, p)]"
  shows "\<exists>doc s' auths s''. buildNGCDockerConfig c opns s = (Inr (Some doc), s')
    \<and> dockerConfigCredentials id doc ''nvcr.io'' = Inl (NoMatchingEntry ''nvcr.io'')
    \<and> addSUSESettingsAuths c opns [] s = (auths, s'') \<and> obj_get auths ''nvcr.io'' = Some (dockerAuthEntry u p)"
proof -
  let ?doc = "docker_document [(ep_Nvidia ep, dockerAuthEntry u p)]"
  have "ngc_host cf = ep_Nvidia ep" using assms(4,5) by (simp add: ngc_host_def)
  then obtain s' where b: "buildNGCDockerConfig c opns s = (Inr (Some ?doc), s')"
    using writing_client.ngc_config_up [OF assms(1,2,3,7)] by auto
  have n: "normalizeRegistryHost ''nvcr.io'' = ''nvcr.io''" by code_simp
  have "dockerConfigCredentials id ?doc ''nvcr.io'' = Inl (NoMatchingEntry ''nvcr.io'')"
    using docker_document_decoded [OF assms(8)] assms(6) by (simp add: dockerConfigCredentials_def auths_of_def entries_of_def n)
  moreover obtain auths s'' where "addSUSESettingsAuths c opns [] s = (auths, s'')" "obj_get auths ''nvcr.io'' = Some (dockerAuthEntry u p)"
    using writing_client.suse_auths_up [OF assms(1,2,3), of opns "[]"] assms(7)
    by (auto simp: with_entry_def defaultNvidiaHost_def)
  ultimately show ?thesis using b by blast
qed

theorem ngc_secret_misses_image_host_witness:
  "\<exists>doc s'. buildNGCDockerConfig cluster_client ''op'' example_cluster = (Inr (Some doc), s')
    \<and> dockerConfigCredentials id doc ''nvcr.io'' = Inl (NoMatchingEntry ''nvcr.io'')"
proof -
  have "RegistryEndpoints example_settings = Some \<lparr>ep_ApplicationCollection = '''', ep_SUSERegistry = '''',
       ep_Nvidia = ''oci://registry.lan/nvidia/charts'', ep_OpenShell = ''''\<rparr>" by (simp add: example_settings_def mirrored_settings_def)
  moreover have "normalizeRegistryHost ''oci://registry.lan/nvidia/charts'' \<noteq> ''nvcr.io''" by code_simp
  moreover have "creds_ok [(''oci://registry.lan/nvidia/charts'', ''$oauthtoken'', ''nvapi-1'')]"
  proof -
    have "valid_utf8 ''oci://registry.lan/nvidia/charts''" "valid_utf8 ''$oauthtoken''" "valid_utf8 ''nvapi-1''"
      by (rule ascii_utf8, code_simp)+
    then show ?thesis by (simp add: creds_ok_def del: valid_utf8.simps)
  qed
  ultimately show ?thesis
    using ngc_secret_misses_image_host [OF cl.writing_client_axioms example_cluster_up example_cluster_conf _ _ _ example_creds] by force
qed

end
