(* ===== verification/PullSecrets.thy ===== *)
theory PullSecrets
  imports Injectors
begin

text \<open>
  Pull secrets at work (\<open>internal/controller/aiworkload/pullsecrets.go\<close>): recording which
  secrets are delivered into which namespace, merging them into service accounts, bouncing pods that
  cannot pull their image a bounded number of times, and pruning the accounts when the workload is
  deleted. The service accounts, pods and pod controllers of the cluster are reached through a client
  whose laws are the locale \<open>pod_client\<close>.
\<close>

section \<open>Recording deliveries\<close>

definition targetsLocalCluster :: "AIWorkload \<Rightarrow> bool" where
  "targetsLocalCluster w =
     (TargetClusters (Spec w) = [] \<or> list_ex (\<lambda>c. c = '''' \<or> c = ''local'') (TargetClusters (Spec w)))"

text \<open>The loop of \<open>mergeStringSet\<close> and of \<open>mergeImagePullSecrets\<close>: append what is not there yet.\<close>

fun add_missing :: "string list \<Rightarrow> string list \<Rightarrow> string list" where
  "add_missing out [] = out"
| "add_missing out (n # ns) = add_missing (if n \<in> set out then out else out @ [n]) ns"

definition mergeStringSet :: "string list \<Rightarrow> string list \<Rightarrow> string list" where
  "mergeStringSet existing add = add_missing existing add"

fun merge_bucket :: "PullSecretDelivery list \<Rightarrow> string \<Rightarrow> string list \<Rightarrow> PullSecretDelivery list" where
  "merge_bucket [] ns names = [\<lparr>psd_Namespace = ns, psd_Names = mergeStringSet [] names\<rparr>]"
| "merge_bucket (d # ds) ns names =
     (if psd_Namespace d = ns then d\<lparr>psd_Names := mergeStringSet (psd_Names d) names\<rparr> # ds
      else d # merge_bucket ds ns names)"

definition mergePullSecretDelivery :: "PullSecretDelivery list \<Rightarrow> string \<Rightarrow> string list \<Rightarrow> PullSecretDelivery list" where
  "mergePullSecretDelivery existing ns names =
     (if ns = '''' \<or> names = [] then existing else merge_bucket existing ns names)"

section \<open>Service accounts\<close>

record ServiceAccount =
  sa_Name :: string
  sa_Managed :: bool
  sa_ImagePullSecrets :: "string list"

definition mergeImagePullSecrets :: "ServiceAccount \<Rightarrow> string list \<Rightarrow> ServiceAccount \<times> bool" where
  "mergeImagePullSecrets sa names =
     (sa\<lparr>sa_ImagePullSecrets := add_missing (sa_ImagePullSecrets sa) names\<rparr>,
      list_ex (\<lambda>n. n \<notin> set (sa_ImagePullSecrets sa)) names)"

section \<open>Pods and their controllers\<close>

record OwnerRef =
  or_APIVersion :: string
  or_Kind :: string
  or_Name :: string

text \<open>The waiting reasons of the init and the main containers; \<open>None\<close> is a container not waiting.\<close>

record Pod =
  pod_Name :: string
  pod_InitWaiting :: "string option list"
  pod_Waiting :: "string option list"
  pod_Controller :: "OwnerRef option"

definition chartPodBounceAnnotation :: string where
  "chartPodBounceAnnotation = ''ai-factory.suse.com/pull-secret-bounce-count''"

definition chartPodMaxBounces :: int where "chartPodMaxBounces = 3"

definition waitingIsImagePullFailure :: "string option \<Rightarrow> bool" where
  "waitingIsImagePullFailure w = (case w of None \<Rightarrow> False | Some r \<Rightarrow> r = ''ImagePullBackOff'' \<or> r = ''ErrImagePull'')"

definition isPodImagePullBackOff :: "Pod \<Rightarrow> bool" where
  "isPodImagePullBackOff p =
     (list_ex waitingIsImagePullFailure (pod_InitWaiting p) \<or> list_ex waitingIsImagePullFailure (pod_Waiting p))"

record 's PodClient =
  ListHelmSAs :: "string \<Rightarrow> ('s, ServiceAccount list) act"
  ListSAs :: "string \<Rightarrow> ('s, ServiceAccount list) act"
  GetSA :: "string \<Rightarrow> string \<Rightarrow> ('s, ServiceAccount) act"
  UpdateSA :: "string \<Rightarrow> ServiceAccount \<Rightarrow> ('s, unit) act"
  ListHelmPods :: "string \<Rightarrow> ('s, Pod list) act"
  GetOwner :: "string \<Rightarrow> OwnerRef \<Rightarrow> ('s, smap) act"
  PatchOwner :: "string \<Rightarrow> OwnerRef \<Rightarrow> string \<Rightarrow> string \<Rightarrow> ('s, unit) act"
  DeletePod :: "string \<Rightarrow> Pod \<Rightarrow> ('s, unit) act"

text \<open>\<open>schema.ParseGroupVersion\<close> refuses a version with more than one slash.\<close>

definition group_version_ok :: "string \<Rightarrow> bool" where
  "group_version_ok v \<longleftrightarrow> length (filter (\<lambda>c. c = CHR ''/'') v) \<le> 1"

text \<open>\<open>strconv.Atoi\<close> of the annotation; anything it does not parse counts as 0.\<close>

definition bounce_value :: "string \<Rightarrow> int" where
  "bounce_value val = (case ParseInt val of None \<Rightarrow> 0 | Some n \<Rightarrow> n)"

definition readBounceCount :: "'s PodClient \<Rightarrow> string \<Rightarrow> OwnerRef \<Rightarrow> ('s, int) act" where
  "readBounceCount c ns cr s =
     (if \<not> group_version_ok (or_APIVersion cr) then (Inl (Err SOther ''parse controller apiVersion''), s)
      else case GetOwner c ns cr s of
             (Inl e, s1) \<Rightarrow> (Inl e, s1)
           | (Inr annotations, s1) \<Rightarrow>
               (Inr (if mget annotations chartPodBounceAnnotation = '''' then 0
                     else bounce_value (mget annotations chartPodBounceAnnotation)), s1))"

definition incrementBounceCount :: "'s PodClient \<Rightarrow> string \<Rightarrow> OwnerRef \<Rightarrow> int \<Rightarrow> ('s, unit) act" where
  "incrementBounceCount c ns cr newCount = PatchOwner c ns cr chartPodBounceAnnotation (FormatInt newCount)"

text \<open>One pod of \<open>restartImagePullBackOffPods\<close>: \<open>Inr n\<close> adds \<open>n\<close> to the pods bounced, \<open>Inl\<close> ends the loop.\<close>

definition bounce_pod :: "'s PodClient \<Rightarrow> string \<Rightarrow> Pod \<Rightarrow> ('s, nat) act" where
  "bounce_pod c ns p s =
     (if \<not> isPodImagePullBackOff p then (Inr 0, s)
      else case pod_Controller p of
             None \<Rightarrow> (Inr 0, s)
           | Some cr \<Rightarrow>
               (case readBounceCount c ns cr s of
                  (Inl _, s1) \<Rightarrow> (Inr 0, s1)
                | (Inr cnt, s1) \<Rightarrow>
                    if cnt \<ge> chartPodMaxBounces then (Inr 0, s1)
                    else (case incrementBounceCount c ns cr (cnt + 1) s1 of
                            (Inl e, s2) \<Rightarrow> (Inl (wrap_err ''increment bounce counter'' e), s2)
                          | (Inr _, s2) \<Rightarrow>
                              (case DeletePod c ns p s2 of
                                 (Inl e, s3) \<Rightarrow> if err_is e = SNotFound then (Inr 0, s3)
                                               else (Inl (wrap_err ''delete pod'' e), s3)
                               | (Inr _, s3) \<Rightarrow> (Inr 1, s3)))))"

fun bounce_pods :: "'s PodClient \<Rightarrow> string \<Rightarrow> Pod list \<Rightarrow> nat \<Rightarrow> ('s, nat) act" where
  "bounce_pods c ns [] bounced s = (Inr bounced, s)"
| "bounce_pods c ns (p # ps) bounced s =
     (case bounce_pod c ns p s of
        (Inl e, s1) \<Rightarrow> (Inl e, s1)
      | (Inr n, s1) \<Rightarrow> bounce_pods c ns ps (bounced + n) s1)"

definition restartImagePullBackOffPods :: "'s PodClient \<Rightarrow> string \<Rightarrow> ('s, nat) act" where
  "restartImagePullBackOffPods c ns s =
     (case ListHelmPods c ns s of
        (Inl e, s1) \<Rightarrow> (Inl (wrap_err (''list pods in '' @ ns) e), s1)
      | (Inr pods, s1) \<Rightarrow> bounce_pods c ns pods 0 s1)"

section \<open>Merging into the accounts of a namespace\<close>

fun merge_accounts :: "'s PodClient \<Rightarrow> string \<Rightarrow> string list \<Rightarrow> ServiceAccount list \<Rightarrow> bool \<Rightarrow> ('s, bool) act" where
  "merge_accounts c ns names [] stl s = (Inr stl, s)"
| "merge_accounts c ns names (sa # sas) stl s =
     (case mergeImagePullSecrets sa names of
        (sa', False) \<Rightarrow> merge_accounts c ns names sas stl s
      | (sa', True) \<Rightarrow>
          (case UpdateSA c ns sa' s of
             (Inl e, s1) \<Rightarrow> (Inl (wrap_err (''update SA '' @ ns @ ''/'' @ sa_Name sa) e), s1)
           | (Inr _, s1) \<Rightarrow> merge_accounts c ns names sas False s1))"

text \<open>The accounts to merge into: the chart's own and the namespace's default one, once.\<close>

definition chart_accounts :: "'s PodClient \<Rightarrow> string \<Rightarrow> ('s, ServiceAccount list) act" where
  "chart_accounts c ns s =
     (case ListHelmSAs c ns s of
        (Inl e, s1) \<Rightarrow> (Inl (wrap_err (''list ServiceAccounts in '' @ ns) e), s1)
      | (Inr sas, s1) \<Rightarrow>
          (case GetSA c ns ''default'' s1 of
             (Inl e, s2) \<Rightarrow> if err_is e = SNotFound then (Inr sas, s2)
                           else (Inl (wrap_err (''get default ServiceAccount in '' @ ns) e), s2)
           | (Inr d, s2) \<Rightarrow>
               (Inr (if list_ex (\<lambda>sa. sa_Name sa = ''default'') sas then sas else sas @ [d]), s2)))"

definition reconcilePullSecretsForNamespace :: "'s PodClient \<Rightarrow> string \<Rightarrow> string list \<Rightarrow> ('s, bool) act" where
  "reconcilePullSecretsForNamespace c ns names s =
     (case chart_accounts c ns s of
        (Inl e, s1) \<Rightarrow> (Inl e, s1)
      | (Inr sas, s1) \<Rightarrow>
          (case merge_accounts c ns names sas True s1 of
             (Inl e, s2) \<Rightarrow> (Inl e, s2)
           | (Inr stl, s2) \<Rightarrow>
               (case restartImagePullBackOffPods c ns s2 of
                  (Inl e, s3) \<Rightarrow> (Inl e, s3)
                | (Inr bounced, s3) \<Rightarrow> (Inr (stl \<and> bounced = 0), s3))))"

fun reconcile_deliveries :: "'s PodClient \<Rightarrow> PullSecretDelivery list \<Rightarrow> bool \<Rightarrow> ('s, bool) act" where
  "reconcile_deliveries c [] stl s = (Inr stl, s)"
| "reconcile_deliveries c (d # ds) stl s =
     (if psd_Namespace d = '''' \<or> psd_Names d = [] then reconcile_deliveries c ds stl s
      else case reconcilePullSecretsForNamespace c (psd_Namespace d) (psd_Names d) s of
             (Inl e, s1) \<Rightarrow> (Inl e, s1)
           | (Inr nsSettled, s1) \<Rightarrow> reconcile_deliveries c ds (stl \<and> nsSettled) s1)"

definition reconcilePullSecrets :: "'s PodClient \<Rightarrow> AIWorkload \<Rightarrow> ('s, bool) act" where
  "reconcilePullSecrets c w s =
     (if PullSecretDeliveries (Status w) = [] \<or> \<not> targetsLocalCluster w then (Inr True, s)
      else reconcile_deliveries c (PullSecretDeliveries (Status w)) True s)"

section \<open>Pruning the accounts\<close>

definition prune_account :: "string list \<Rightarrow> ServiceAccount \<Rightarrow> ServiceAccount \<times> bool" where
  "prune_account ours sa =
     (sa\<lparr>sa_ImagePullSecrets := filter (\<lambda>n. n \<notin> set ours) (sa_ImagePullSecrets sa)\<rparr>,
      list_ex (\<lambda>n. n \<in> set ours) (sa_ImagePullSecrets sa))"

fun prune_accounts :: "'s PodClient \<Rightarrow> string \<Rightarrow> string list \<Rightarrow> ServiceAccount list \<Rightarrow> ('s, unit) act" where
  "prune_accounts c ns ours [] s = (Inr (), s)"
| "prune_accounts c ns ours (sa # sas) s =
     (case prune_account ours sa of
        (sa', False) \<Rightarrow> prune_accounts c ns ours sas s
      | (sa', True) \<Rightarrow>
          (case UpdateSA c ns sa' s of
             (Inl e, s1) \<Rightarrow> (Inl (wrap_err (''update SA '' @ ns @ ''/'' @ sa_Name sa) e), s1)
           | (Inr _, s1) \<Rightarrow> prune_accounts c ns ours sas s1))"

fun prune_deliveries :: "'s PodClient \<Rightarrow> PullSecretDelivery list \<Rightarrow> ('s, unit) act" where
  "prune_deliveries c [] s = (Inr (), s)"
| "prune_deliveries c (d # ds) s =
     (if psd_Namespace d = '''' \<or> psd_Names d = [] then prune_deliveries c ds s
      else case ListSAs c (psd_Namespace d) s of
             (Inl e, s1) \<Rightarrow> (Inl (wrap_err (''list SAs in '' @ psd_Namespace d) e), s1)
           | (Inr sas, s1) \<Rightarrow>
               (case prune_accounts c (psd_Namespace d) (psd_Names d) sas s1 of
                  (Inl e, s2) \<Rightarrow> (Inl e, s2)
                | (Inr _, s2) \<Rightarrow> prune_deliveries c ds s2))"

definition pruneLocalSAImagePullSecrets :: "'s PodClient \<Rightarrow> AIWorkload \<Rightarrow> ('s, unit) act" where
  "pruneLocalSAImagePullSecrets c w = prune_deliveries c (PullSecretDeliveries (Status w))"

section \<open>The bound on bounces\<close>

lemma ParseInt_int64: "ParseInt v = Some n \<Longrightarrow> int64 n"
  by (auto simp: ParseInt_def Let_def split: if_splits option.splits)

text \<open>
  \<open>obj\<close> is the object a reference stands for, \<open>bounces\<close> the number its annotation shows (0 if
  there is none) and \<open>deleted\<close> how many pods of it the operator has deleted so far. A failed call may
  have been applied.
\<close>

locale pod_client =
  fixes c :: "'s PodClient" and obj :: "string \<Rightarrow> OwnerRef \<Rightarrow> 'o"
    and bounces :: "'s \<Rightarrow> 'o \<Rightarrow> int" and deleted :: "'s \<Rightarrow> 'o \<Rightarrow> nat"
  assumes pods_frame: "bounces (snd (ListHelmPods c ns s)) = bounces s \<and> deleted (snd (ListHelmPods c ns s)) = deleted s"
    and owner_frame: "bounces (snd (GetOwner c ns cr s)) = bounces s \<and> deleted (snd (GetOwner c ns cr s)) = deleted s"
    and owner_value: "GetOwner c ns cr s = (Inr annotations, s') \<Longrightarrow> bounces s (obj ns cr) =
        (if mget annotations chartPodBounceAnnotation = '''' then 0
         else bounce_value (mget annotations chartPodBounceAnnotation))"
    and owner_patch: "PatchOwner c ns cr chartPodBounceAnnotation v s = (r, s') \<Longrightarrow> deleted s' = deleted s
        \<and> (bounces s' = (bounces s)(obj ns cr := bounce_value v) \<or> isl r \<and> bounces s' = bounces s)"
    and pod_delete: "DeletePod c ns p s = (r, s') \<Longrightarrow> bounces s' = bounces s
        \<and> (deleted s' = deleted s \<or>
           (\<exists>cr. pod_Controller p = Some cr \<and> deleted s' = (deleted s)(obj ns cr := Suc (deleted s (obj ns cr)))))"
begin

text \<open>What any number of steps may do to one controller.\<close>

definition within :: "'s \<Rightarrow> 's \<Rightarrow> bool" where
  "within s s' \<longleftrightarrow> (\<forall>o'. bounces s o' \<le> bounces s' o' \<and> bounces s' o' \<le> max 3 (bounces s o')
     \<and> int (deleted s' o') - int (deleted s o') \<le> bounces s' o' - bounces s o')"

lemma within_refl [simp]: "within s s"
  by (simp add: within_def)

lemma within_same: "bounces s' = bounces s \<Longrightarrow> deleted s' = deleted s \<Longrightarrow> within s s'"
  by (simp add: within_def)

lemma within_trans:
  assumes "within s s'" "within s' s''"
  shows "within s s''"
  unfolding within_def
proof
  fix o'
  have "bounces s o' \<le> bounces s' o' \<and> bounces s' o' \<le> max 3 (bounces s o')
     \<and> int (deleted s' o') - int (deleted s o') \<le> bounces s' o' - bounces s o'"
    "bounces s' o' \<le> bounces s'' o' \<and> bounces s'' o' \<le> max 3 (bounces s' o')
     \<and> int (deleted s'' o') - int (deleted s' o') \<le> bounces s'' o' - bounces s' o'"
    using assms unfolding within_def by blast+
  then show "bounces s o' \<le> bounces s'' o' \<and> bounces s'' o' \<le> max 3 (bounces s o')
     \<and> int (deleted s'' o') - int (deleted s o') \<le> bounces s'' o' - bounces s o'"
    by linarith
qed

lemma bounce_value_FormatInt: "int64 n \<Longrightarrow> bounce_value (FormatInt n) = n"
  by (simp add: bounce_value_def ParseInt_FormatInt)

lemma read_count:
  assumes "readBounceCount c ns cr s = (r, s')"
  shows "within s s' \<and> (\<forall>n. r = Inr n \<longrightarrow> n = bounces s' (obj ns cr))"
proof (cases "group_version_ok (or_APIVersion cr)")
  case True
  obtain g s1 where g: "GetOwner c ns cr s = (g, s1)" by (cases "GetOwner c ns cr s")
  have f: "bounces s1 = bounces s" "deleted s1 = deleted s" using owner_frame [of ns cr s] g by simp_all
  show ?thesis using assms True g f owner_value [of ns cr s _ s1] by (cases g) (auto simp: readBounceCount_def within_same)
qed (use assms in \<open>auto simp: readBounceCount_def\<close>)

lemma bounces_int64: "readBounceCount c ns cr s = (Inr n, s') \<Longrightarrow> int64 n"
proof -
  assume "readBounceCount c ns cr s = (Inr n, s')"
  then have "n = 0 \<or> (\<exists>v. n = bounce_value v)"
    by (auto simp: readBounceCount_def split: if_splits prod.splits sum.splits)
  moreover have "int64 (bounce_value v)" for v
    using ParseInt_int64 [of v] by (cases "ParseInt v") (simp_all add: bounce_value_def int64_def)
  ultimately show ?thesis by (auto simp: int64_def)
qed

lemma bounce_pod_within: "within s (snd (bounce_pod c ns p s))"
proof (cases "isPodImagePullBackOff p \<and> pod_Controller p \<noteq> None")
  case True
  then obtain cr where cr: "isPodImagePullBackOff p" "pod_Controller p = Some cr" by auto
  obtain r s1 where rd: "readBounceCount c ns cr s = (r, s1)" by (cases "readBounceCount c ns cr s")
  note rd' = read_count [OF rd]
  show ?thesis
  proof (cases r)
    case (Inr n)
    then have n: "n = bounces s1 (obj ns cr)" using rd' by simp
    show ?thesis
    proof (cases "n \<ge> chartPodMaxBounces")
      case False
      then have lt: "n < 3" by (simp add: chartPodMaxBounces_def)
      obtain ri s2 where inc: "incrementBounceCount c ns cr (n + 1) s1 = (ri, s2)"
        by (cases "incrementBounceCount c ns cr (n + 1) s1")
      note patch = owner_patch [OF inc [unfolded incrementBounceCount_def]]
      have val: "bounce_value (FormatInt (n + 1)) = n + 1"
        using lt n bounces_int64 [of ns cr s n s1] rd Inr by (intro bounce_value_FormatInt) (auto simp: int64_def)
      have up: "within s s'" if "bounces s' = (bounces s1)(obj ns cr := n + 1)"
        "deleted s' = deleted s1 \<or> deleted s' = (deleted s1)(obj ns cr := Suc (deleted s1 (obj ns cr)))" for s'
      proof -
        have "within s1 s'" using that lt n by (auto simp: within_def)
        then show ?thesis using within_trans rd' by blast
      qed
      show ?thesis
      proof (cases ri)
        case (Inl e)
        then have "within s s2" using patch up [of s2] within_trans [of s s1 s2] within_same [of s2 s1] rd' val by auto
        then show ?thesis using cr rd Inr inc Inl False by (simp add: bounce_pod_def)
      next
        case ri: (Inr u)
        then have b2: "bounces s2 = (bounces s1)(obj ns cr := n + 1)" "deleted s2 = deleted s1" using patch val by auto
        obtain rd2 s3 where del: "DeletePod c ns p s2 = (rd2, s3)" by (cases "DeletePod c ns p s2")
        have "within s s3" using up [of s3] pod_delete [OF del] b2 cr(2) by auto
        then show ?thesis using cr rd Inr inc ri False del by (cases rd2) (simp_all add: bounce_pod_def)
      qed
    qed (use cr rd rd' Inr in \<open>simp add: bounce_pod_def\<close>)
  qed (use cr rd rd' in \<open>simp add: bounce_pod_def\<close>)
qed (auto simp: bounce_pod_def split: option.split)

lemma bounce_pods_within: "within s (snd (bounce_pods c ns ps n s))"
proof (induction ps arbitrary: n s)
  case (Cons p ps)
  obtain r s1 where b: "bounce_pod c ns p s = (r, s1)" by (cases "bounce_pod c ns p s")
  then have "within s s1" using bounce_pod_within [of s ns p] by simp
  then show ?case using Cons.IH within_trans b by (cases r) auto
qed simp

lemma restart_within: "within s (snd (restartImagePullBackOffPods c ns s))"
proof -
  obtain r s1 where l: "ListHelmPods c ns s = (r, s1)" by (cases "ListHelmPods c ns s")
  then have "within s s1" using pods_frame [of ns s] by (simp add: within_same)
  then show ?thesis using l bounce_pods_within within_trans
    by (cases r) (auto simp: restartImagePullBackOffPods_def)
qed

end

text \<open>One pass over some namespace, however it ends.\<close>

inductive bounce_pass :: "'s PodClient \<Rightarrow> 's \<Rightarrow> 's \<Rightarrow> bool" for c where
  pass: "restartImagePullBackOffPods c ns s = (r, s') \<Longrightarrow> bounce_pass c s s'"

inductive_cases bounce_passE: "bounce_pass c s s'"

lemma passes_within:
  assumes "pod_client c obj bounces deleted" "(bounce_pass c)\<^sup>*\<^sup>* s s'"
  shows "pod_client.within bounces deleted s s'"
  using assms(2)
proof (induction rule: rtranclp_induct)
  case (step s1 s2)
  from step(2) obtain ns r where "restartImagePullBackOffPods c ns s1 = (r, s2)" by (rule bounce_passE)
  then have "pod_client.within bounces deleted s1 s2"
    using pod_client.restart_within [OF assms(1), of s1 ns] by simp
  then show ?case using pod_client.within_trans [OF assms(1)] step(3) by blast
qed (simp add: pod_client.within_refl [OF assms(1)])

text \<open>
  C33. A pod that cannot pull its image is bounced a bounded number of times: over any number of
  passes, in any namespaces, with any calls failing or being lost, the operator deletes at most three
  pods of one controller, less what the controller's counter already showed; the counter never goes
  down and never passes three by the operator's doing; and a controller whose counter has reached
  three loses no pod any more.
\<close>

theorem bounces_bounded:
  assumes "pod_client c obj bounces deleted" and "(bounce_pass c)\<^sup>*\<^sup>* s s'"
  shows "int (deleted s' o') - int (deleted s o') \<le> max 0 (3 - bounces s o')
    \<and> bounces s o' \<le> bounces s' o' \<and> bounces s' o' \<le> max 3 (bounces s o')
    \<and> (bounces s o' \<ge> 3 \<longrightarrow> deleted s' o' \<le> deleted s o')"
proof -
  have "bounces s o' \<le> bounces s' o'" "bounces s' o' \<le> max 3 (bounces s o')"
    "int (deleted s' o') - int (deleted s o') \<le> bounces s' o' - bounces s o'"
    using passes_within [OF assms] unfolding pod_client.within_def [OF assms(1)] by blast+
  then show ?thesis by (auto simp: max_def split: if_splits)
qed

section \<open>Merging and pruning service accounts\<close>

lemma add_missing_set: "set (add_missing out ns) = set out \<union> set ns"
  by (induction ns arbitrary: out) auto

lemma add_missing_prefix: "\<exists>new. add_missing out ns = out @ new \<and> set new \<subseteq> set ns - set out \<and> distinct new"
proof (induction ns arbitrary: out)
  case (Cons n ns)
  show ?case
  proof (cases "n \<in> set out")
    case True
    then show ?thesis using Cons.IH [of out] by auto
  next
    case False
    obtain new where "add_missing (out @ [n]) ns = (out @ [n]) @ new" "set new \<subseteq> set ns - set (out @ [n])" "distinct new"
      using Cons.IH by blast
    then show ?thesis using False by (intro exI [of _ "n # new"]) auto
  qed
qed simp

lemma add_missing_same: "set ns \<subseteq> set out \<Longrightarrow> add_missing out ns = out"
  by (induction ns) auto

lemma merge_changes: "snd (mergeImagePullSecrets sa names) = (fst (mergeImagePullSecrets sa names) \<noteq> sa)"
proof -
  obtain new where new: "add_missing (sa_ImagePullSecrets sa) names = sa_ImagePullSecrets sa @ new"
    "set new \<subseteq> set names - set (sa_ImagePullSecrets sa)" using add_missing_prefix by blast
  have "set new = set names - set (sa_ImagePullSecrets sa)"
    using add_missing_set [of "sa_ImagePullSecrets sa" names] new by auto
  then have "list_ex (\<lambda>n. n \<notin> set (sa_ImagePullSecrets sa)) names = (new \<noteq> [])"
    by (cases new) (auto simp: list_ex_iff)
  then show ?thesis using new by (cases sa) (simp add: mergeImagePullSecrets_def)
qed

text \<open>
  Adding the pull secrets to a service account keeps the entries it has, in their order, and
  appends the missing names once; it reports a change exactly if a name was missing; adding them again
  changes nothing; and pruning removes them again exactly: an account that had none of the names
  gets back the list it started with.
\<close>

theorem account_merge_prune:
  "(\<exists>new. sa_ImagePullSecrets (fst (mergeImagePullSecrets sa names)) = sa_ImagePullSecrets sa @ new
       \<and> distinct new \<and> set new = set names - set (sa_ImagePullSecrets sa))
   \<and> (snd (mergeImagePullSecrets sa names) = (fst (mergeImagePullSecrets sa names) \<noteq> sa))
   \<and> mergeImagePullSecrets (fst (mergeImagePullSecrets sa names)) names = (fst (mergeImagePullSecrets sa names), False)
   \<and> sa_ImagePullSecrets (fst (prune_account names (fst (mergeImagePullSecrets sa names))))
       = filter (\<lambda>n. n \<notin> set names) (sa_ImagePullSecrets sa)
   \<and> snd (prune_account names sa) = (fst (prune_account names sa) \<noteq> sa)"
proof (intro conjI)
  obtain new where new: "add_missing (sa_ImagePullSecrets sa) names = sa_ImagePullSecrets sa @ new"
    "set new \<subseteq> set names - set (sa_ImagePullSecrets sa)" "distinct new" using add_missing_prefix by blast
  have setn: "set new = set names - set (sa_ImagePullSecrets sa)"
    using add_missing_set [of "sa_ImagePullSecrets sa" names] new by auto
  show "\<exists>new. sa_ImagePullSecrets (fst (mergeImagePullSecrets sa names)) = sa_ImagePullSecrets sa @ new
       \<and> distinct new \<and> set new = set names - set (sa_ImagePullSecrets sa)"
    using new setn by (intro exI [of _ new]) (simp add: mergeImagePullSecrets_def)
  show "snd (mergeImagePullSecrets sa names) = (fst (mergeImagePullSecrets sa names) \<noteq> sa)" by (rule merge_changes)
  show "mergeImagePullSecrets (fst (mergeImagePullSecrets sa names)) names = (fst (mergeImagePullSecrets sa names), False)"
    using add_missing_same [of names "add_missing (sa_ImagePullSecrets sa) names"]
    by (simp add: mergeImagePullSecrets_def add_missing_set list_ex_iff)
  show "sa_ImagePullSecrets (fst (prune_account names (fst (mergeImagePullSecrets sa names))))
       = filter (\<lambda>n. n \<notin> set names) (sa_ImagePullSecrets sa)"
    using new by (auto simp: prune_account_def mergeImagePullSecrets_def filter_empty_conv)
  have "list_ex (\<lambda>n. n \<in> set names) xs = (filter (\<lambda>n. n \<notin> set names) xs \<noteq> xs)" for xs :: "string list"
    by (auto simp: list_ex_iff filter_id_conv)
  then show "snd (prune_account names sa) = (fst (prune_account names sa) \<noteq> sa)"
    by (cases sa) (simp add: prune_account_def)
qed

text \<open>What a client that also knows the service accounts (of a namespace, by name) keeps.\<close>

locale account_client = pod_client c obj bounces deleted
  for c :: "'s PodClient" and obj :: "string \<Rightarrow> OwnerRef \<Rightarrow> 'o"
    and bounces :: "'s \<Rightarrow> 'o \<Rightarrow> int" and deleted :: "'s \<Rightarrow> 'o \<Rightarrow> nat" +
  fixes accounts :: "'s \<Rightarrow> string \<Rightarrow> string \<Rightarrow> ServiceAccount option"
  assumes list_frame: "accounts (snd (ListHelmSAs c ns s)) = accounts s" "accounts (snd (ListSAs c ns s)) = accounts s"
      "accounts (snd (GetSA c ns n s)) = accounts s" "accounts (snd (ListHelmPods c ns s)) = accounts s"
      "accounts (snd (GetOwner c ns cr s)) = accounts s" "accounts (snd (PatchOwner c ns cr k v s)) = accounts s"
      "accounts (snd (DeletePod c ns p s)) = accounts s"
    and list_helm: "ListHelmSAs c ns s = (Inr sas, s') \<Longrightarrow> distinct (map sa_Name sas)
        \<and> (\<forall>sa. sa \<in> set sas \<longleftrightarrow> accounts s ns (sa_Name sa) = Some sa \<and> sa_Managed sa)"
    and list_all_accounts: "ListSAs c ns s = (Inr sas, s') \<Longrightarrow> distinct (map sa_Name sas)
        \<and> (\<forall>sa. sa \<in> set sas \<longleftrightarrow> accounts s ns (sa_Name sa) = Some sa)"
    and get_account: "GetSA c ns n s = (Inr sa, s') \<Longrightarrow> accounts s ns n = Some sa \<and> sa_Name sa = n"
    and no_account: "GetSA c ns n s = (Inl e, s') \<Longrightarrow> err_is e = SNotFound \<Longrightarrow> accounts s ns n = None"
    and account_named: "accounts s ns n = Some sa \<Longrightarrow> sa_Name sa = n"
    and update_account: "UpdateSA c ns sa s = (r, s') \<Longrightarrow>
        accounts s' = (accounts s)(ns := (accounts s ns)(sa_Name sa \<mapsto> sa)) \<or> isl r \<and> accounts s' = accounts s"
begin

lemma read_accounts: "accounts (snd (readBounceCount c ns cr s)) = accounts s"
  using list_frame(5) [of ns cr s] by (auto simp: readBounceCount_def split: prod.split sum.split)

lemma bounce_pods_accounts: "accounts (snd (bounce_pods c ns ps n s)) = accounts s"
proof (induction ps arbitrary: n s)
  case (Cons p ps)
  have one: "accounts (snd (bounce_pod c ns p s)) = accounts s"
  proof (cases "isPodImagePullBackOff p \<and> pod_Controller p \<noteq> None")
    case True
    then obtain cr where cr: "isPodImagePullBackOff p" "pod_Controller p = Some cr" by auto
    obtain rb s1 where rb: "readBounceCount c ns cr s = (rb, s1)" by (cases "readBounceCount c ns cr s")
    have a1: "accounts s1 = accounts s" using read_accounts [of ns cr s] rb by simp
    obtain ri s2 where i: "incrementBounceCount c ns cr (projr rb + 1) s1 = (ri, s2)"
      by (cases "incrementBounceCount c ns cr (projr rb + 1) s1")
    have a2: "accounts s2 = accounts s1" using list_frame(6) [of ns cr _ _ s1] i by (metis incrementBounceCount_def snd_conv)
    obtain rd s3 where d: "DeletePod c ns p s2 = (rd, s3)" by (cases "DeletePod c ns p s2")
    have a3: "accounts s3 = accounts s2" using list_frame(7) [of ns p s2] d by simp
    show ?thesis using rb cr i d a1 a2 a3 by (cases rb; cases ri; cases rd) (auto simp: bounce_pod_def)
  qed (auto simp: bounce_pod_def split: option.split)
  obtain r s1 where "bounce_pod c ns p s = (r, s1)" by (cases "bounce_pod c ns p s")
  then show ?case using Cons.IH one by (cases r) auto
qed simp

lemma restart_accounts: "accounts (snd (restartImagePullBackOffPods c ns s)) = accounts s"
proof -
  obtain r s1 where l: "ListHelmPods c ns s = (r, s1)" by (cases "ListHelmPods c ns s")
  then have "accounts s1 = accounts s" using list_frame(4) [of ns s] by simp
  then show ?thesis using l bounce_pods_accounts [of ns _ 0 s1] by (cases r) (simp_all add: restartImagePullBackOffPods_def)
qed

lemma merge_accounts_ok:
  assumes "merge_accounts c ns names sas b s = (Inr b', s')" "distinct (map sa_Name sas)"
  shows "(\<forall>sa \<in> set sas. accounts s ns (sa_Name sa) = Some sa \<longrightarrow>
        accounts s' ns (sa_Name sa) = Some (fst (mergeImagePullSecrets sa names)))
    \<and> (\<forall>n. n \<notin> set (map sa_Name sas) \<longrightarrow> accounts s' ns n = accounts s ns n)
    \<and> (\<forall>ns'. ns' \<noteq> ns \<longrightarrow> accounts s' ns' = accounts s ns')
    \<and> (b' \<longrightarrow> b \<and> s' = s)"
  using assms
proof (induction sas arbitrary: b s)
  case (Cons sa sas)
  obtain sa' m where mg: "mergeImagePullSecrets sa names = (sa', m)" by (cases "mergeImagePullSecrets sa names")
  have nm: "sa_Name sa' = sa_Name sa" using mg by (auto simp: mergeImagePullSecrets_def)
  show ?case
  proof (cases m)
    case False
    then have eq: "sa' = sa" using merge_changes [of sa names] mg by simp
    show ?thesis using Cons.IH [of b s] Cons.prems mg False eq by simp
  next
    case True
    obtain r s1 where u: "UpdateSA c ns sa' s = (r, s1)" by (cases "UpdateSA c ns sa' s")
    obtain x where x: "r = Inr x" using Cons.prems(1) mg True u by (cases r) auto
    then have a: "accounts s1 = (accounts s)(ns := (accounts s ns)(sa_Name sa \<mapsto> sa'))" using update_account [OF u] nm by simp
    have rest: "merge_accounts c ns names sas False s1 = (Inr b', s')" using Cons.prems(1) mg True u x by simp
    have "\<forall>x \<in> set sas. sa_Name x \<noteq> sa_Name sa" using Cons.prems(2) by (simp add: image_iff) metis
    with Cons.IH [OF rest] Cons.prems(2) show ?thesis using a mg by auto
  qed
qed simp

lemma chart_accounts_ok:
  assumes "chart_accounts c ns s = (Inr sas, s')"
  shows "distinct (map sa_Name sas) \<and> accounts s' = accounts s
    \<and> (\<forall>sa. sa \<in> set sas \<longleftrightarrow> accounts s ns (sa_Name sa) = Some sa \<and> (sa_Managed sa \<or> sa_Name sa = ''default''))"
proof -
  obtain r s1 where l: "ListHelmSAs c ns s = (r, s1)" by (cases "ListHelmSAs c ns s")
  then obtain ls where ls: "r = Inr ls" using assms by (cases r) (simp_all add: chart_accounts_def)
  have a1: "accounts s1 = accounts s" using list_frame(1) [of ns s] l by simp
  have l': "distinct (map sa_Name ls)" "\<And>sa. sa \<in> set ls \<longleftrightarrow> accounts s ns (sa_Name sa) = Some sa \<and> sa_Managed sa"
    using list_helm [of ns s ls s1] l ls by auto
  obtain g s2 where g: "GetSA c ns ''default'' s1 = (g, s2)" by (cases "GetSA c ns ''default'' s1")
  have a2: "accounts s2 = accounts s" using list_frame(3) [of ns "''default''" s1] g a1 by simp
  show ?thesis
  proof (cases g)
    case (Inl e)
    then have e: "err_is e = SNotFound" "sas = ls" "s' = s2" using assms l ls g by (auto simp: chart_accounts_def split: if_splits)
    have "accounts s ns ''default'' = None" using no_account [of ns "''default''" s1 e s2] g Inl e(1) a1 by simp
    then have "sa_Name sa \<noteq> ''default''" if "accounts s ns (sa_Name sa) = Some sa" for sa using that by auto
    then show ?thesis using l' e a2 by metis
  next
    case (Inr d)
    have d: "accounts s ns ''default'' = Some d" "sa_Name d = ''default''"
      using get_account [of ns "''default''" s1 d s2] g Inr a1 by simp_all
    have is_d: "sa = d" if "accounts s ns (sa_Name sa) = Some sa" "sa_Name sa = ''default''" for sa
      using that d(1) by simp
    have sas: "sas = (if list_ex (\<lambda>sa. sa_Name sa = ''default'') ls then ls else ls @ [d])" "s' = s2"
      using assms l ls g Inr by (auto simp: chart_accounts_def)
    show ?thesis
    proof (cases "list_ex (\<lambda>sa. sa_Name sa = ''default'') ls")
      case True
      then obtain x where x: "x \<in> set ls" "sa_Name x = ''default''" by (auto simp: list_ex_iff)
      then have m: "d \<in> set ls" using l'(2) [of x] d by simp
      have "sa \<in> set ls \<longleftrightarrow> accounts s ns (sa_Name sa) = Some sa \<and> (sa_Managed sa \<or> sa_Name sa = ''default'')" for sa
        using is_d [of sa] m l'(2) [of sa] by auto
      then show ?thesis using sas True l'(1) a2 by simp
    next
      case False
      then have nd: "\<forall>x \<in> set ls. sa_Name x \<noteq> ''default''" by (auto simp: list_ex_iff)
      have "sa \<in> set (ls @ [d]) \<longleftrightarrow> accounts s ns (sa_Name sa) = Some sa \<and> (sa_Managed sa \<or> sa_Name sa = ''default'')" for sa
        using is_d [of sa] nd d l'(2) [of sa] by auto
      moreover have "distinct (map sa_Name (ls @ [d]))" using l'(1) nd d(2) by auto
      ultimately show ?thesis using sas False a2 by simp
    qed
  qed
qed

lemma namespace_merged:
  assumes "reconcilePullSecretsForNamespace c ns names s = (Inr b, s')"
  shows "\<exists>sas. distinct (map sa_Name sas)
    \<and> (\<forall>sa. sa \<in> set sas \<longleftrightarrow> accounts s ns (sa_Name sa) = Some sa \<and> (sa_Managed sa \<or> sa_Name sa = ''default''))
    \<and> (\<forall>sa \<in> set sas. accounts s' ns (sa_Name sa) = Some (fst (mergeImagePullSecrets sa names)))
    \<and> (\<forall>n. n \<notin> set (map sa_Name sas) \<longrightarrow> accounts s' ns n = accounts s ns n)
    \<and> (\<forall>ns'. ns' \<noteq> ns \<longrightarrow> accounts s' ns' = accounts s ns')
    \<and> (b \<longrightarrow> accounts s' = accounts s)"
proof -
  obtain rc s1 where ch: "chart_accounts c ns s = (rc, s1)" by (cases "chart_accounts c ns s")
  then obtain sas where sas: "rc = Inr sas" using assms by (cases rc) (simp_all add: reconcilePullSecretsForNamespace_def)
  obtain rm s2 where mg: "merge_accounts c ns names sas True s1 = (rm, s2)" by (cases "merge_accounts c ns names sas True s1")
  then obtain b2 where b2: "rm = Inr b2" using assms ch sas by (cases rm) (simp_all add: reconcilePullSecretsForNamespace_def)
  obtain rr s3 where rs: "restartImagePullBackOffPods c ns s2 = (rr, s3)" by (cases "restartImagePullBackOffPods c ns s2")
  then obtain n where n: "rr = Inr n" using assms ch sas mg b2 by (cases rr) (simp_all add: reconcilePullSecretsForNamespace_def)
  have fin: "s' = s3" "b = (b2 \<and> n = 0)" using assms ch sas mg b2 rs n by (simp_all add: reconcilePullSecretsForNamespace_def)
  have a3: "accounts s3 = accounts s2" using restart_accounts [of ns s2] rs by simp
  note c' = chart_accounts_ok [OF ch [unfolded sas]]
  note m' = merge_accounts_ok [OF mg [unfolded b2] conjunct1 [OF c']]
  show ?thesis
    by (intro exI [of _ sas]) (use c' m' fin a3 in auto)
qed

end

text \<open>
  Reconciling a namespace gives every service account of the chart, and the namespace's default
  one, all the pull secrets delivered there, as an extension of what it had; every other account
  of the namespace and every other namespace stays as it is; and it reports itself settled only if no
  account had to change.
\<close>

theorem namespace_accounts_merged:
  assumes "account_client c obj bounces deleted accounts"
    and "reconcilePullSecretsForNamespace c ns names s = (Inr b, s')"
  shows "(\<forall>sa n. accounts s ns n = Some sa \<and> (sa_Managed sa \<or> n = ''default'') \<longrightarrow>
        (\<exists>new. accounts s' ns n = Some (sa\<lparr>sa_ImagePullSecrets := sa_ImagePullSecrets sa @ new\<rparr>)
          \<and> set new = set names - set (sa_ImagePullSecrets sa) \<and> distinct new))
    \<and> (\<forall>n. (\<forall>sa. accounts s ns n = Some sa \<longrightarrow> \<not> sa_Managed sa \<and> n \<noteq> ''default'') \<longrightarrow> accounts s' ns n = accounts s ns n)
    \<and> (\<forall>ns'. ns' \<noteq> ns \<longrightarrow> accounts s' ns' = accounts s ns')
    \<and> (b \<longrightarrow> accounts s' = accounts s)"
proof -
  obtain sas where sas: "distinct (map sa_Name sas)"
    "\<And>sa. sa \<in> set sas \<longleftrightarrow> accounts s ns (sa_Name sa) = Some sa \<and> (sa_Managed sa \<or> sa_Name sa = ''default'')"
    "\<And>sa. sa \<in> set sas \<Longrightarrow> accounts s' ns (sa_Name sa) = Some (fst (mergeImagePullSecrets sa names))"
    "\<And>n. n \<notin> set (map sa_Name sas) \<Longrightarrow> accounts s' ns n = accounts s ns n"
    "\<And>ns'. ns' \<noteq> ns \<Longrightarrow> accounts s' ns' = accounts s ns'" "b \<longrightarrow> accounts s' = accounts s"
    using account_client.namespace_merged [OF assms] by blast
  note named = account_client.account_named [OF assms(1)]
  show ?thesis
  proof (intro conjI allI impI; (elim conjE)?)
    fix sa n assume h: "accounts s ns n = Some sa" "sa_Managed sa \<or> n = ''default''"
    then have "accounts s' ns n = Some (fst (mergeImagePullSecrets sa names))" using sas(2,3) [of sa] named [OF h(1)] by simp
    moreover obtain new where "add_missing (sa_ImagePullSecrets sa) names = sa_ImagePullSecrets sa @ new"
        "set new \<subseteq> set names - set (sa_ImagePullSecrets sa)" "distinct new" using add_missing_prefix by blast
    moreover from this have "set new = set names - set (sa_ImagePullSecrets sa)"
      using add_missing_set [of "sa_ImagePullSecrets sa" names] by auto
    ultimately show "\<exists>new. accounts s' ns n = Some (sa\<lparr>sa_ImagePullSecrets := sa_ImagePullSecrets sa @ new\<rparr>)
          \<and> set new = set names - set (sa_ImagePullSecrets sa) \<and> distinct new"
      by (intro exI [of _ new]) (simp add: mergeImagePullSecrets_def)
  next
    fix n assume h: "\<forall>sa. accounts s ns n = Some sa \<longrightarrow> \<not> sa_Managed sa \<and> n \<noteq> ''default''"
    have "n \<notin> set (map sa_Name sas)"
    proof
      assume "n \<in> set (map sa_Name sas)"
      then obtain sa where "sa \<in> set sas" "sa_Name sa = n" by auto
      then show False using sas(2) [of sa] h by auto
    qed
    then show "accounts s' ns n = accounts s ns n" by (rule sas(4))
  qed (use sas in auto)
qed

section \<open>An in-memory cluster of accounts and pods\<close>

record pod_world =
  pw_accounts :: "(string \<times> ServiceAccount) list"
  pw_pods :: "(string \<times> Pod) list"
  pw_owners :: "string \<times> OwnerRef \<Rightarrow> smap option"
  pw_deleted :: "string \<times> OwnerRef \<Rightarrow> nat"
  pw_faults :: "(bool \<times> string) option list"

definition pw_call :: "(pod_world \<Rightarrow> (err + 'a) \<times> pod_world) \<Rightarrow> (pod_world, 'a) act" where
  "pw_call f s =
     (let s0 = s\<lparr>pw_faults := tl (pw_faults s)\<rparr>
      in case pw_faults s of
           Some (True, e) # _ \<Rightarrow> (Inl (Err SOther e), snd (f s0))
         | Some (False, e) # _ \<Rightarrow> (Inl (Err SOther e), s0)
         | _ \<Rightarrow> f s0)"

definition pw_account :: "pod_world \<Rightarrow> string \<Rightarrow> string \<Rightarrow> ServiceAccount option" where
  "pw_account s ns n = map_option snd (find (\<lambda>(m, sa). m = ns \<and> sa_Name sa = n) (pw_accounts s))"

definition pw_list :: "pod_world \<Rightarrow> string \<Rightarrow> ServiceAccount list" where
  "pw_list s ns = List.map_filter (pw_account s ns) (remdups (map (sa_Name \<circ> snd) (pw_accounts s)))"

definition pw_bounces :: "pod_world \<Rightarrow> string \<times> OwnerRef \<Rightarrow> int" where
  "pw_bounces s o' = (case pw_owners s o' of None \<Rightarrow> 0
     | Some ann \<Rightarrow> if mget ann chartPodBounceAnnotation = '''' then 0 else bounce_value (mget ann chartPodBounceAnnotation))"

definition pw_client :: "pod_world PodClient" where
  "pw_client = \<lparr>
     ListHelmSAs = (\<lambda>ns. pw_call (\<lambda>s. (Inr (filter sa_Managed (pw_list s ns)), s))),
     ListSAs = (\<lambda>ns. pw_call (\<lambda>s. (Inr (pw_list s ns), s))),
     GetSA = (\<lambda>ns n. pw_call (\<lambda>s. case pw_account s ns n of None \<Rightarrow> (Inl not_found, s) | Some sa \<Rightarrow> (Inr sa, s))),
     UpdateSA = (\<lambda>ns sa. pw_call (\<lambda>s. (Inr (), s\<lparr>pw_accounts := (ns, sa) # pw_accounts s\<rparr>))),
     ListHelmPods = (\<lambda>ns. pw_call (\<lambda>s. (Inr (map snd (filter (\<lambda>(m, p). m = ns) (pw_pods s))), s))),
     GetOwner = (\<lambda>ns cr. pw_call (\<lambda>s. case pw_owners s (ns, cr) of None \<Rightarrow> (Inl not_found, s) | Some a \<Rightarrow> (Inr a, s))),
     PatchOwner = (\<lambda>ns cr k v. pw_call (\<lambda>s. case pw_owners s (ns, cr) of None \<Rightarrow> (Inl not_found, s)
        | Some a \<Rightarrow> (Inr (), s\<lparr>pw_owners := (pw_owners s)((ns, cr) \<mapsto> a(k \<mapsto> v))\<rparr>))),
     DeletePod = (\<lambda>ns p. pw_call (\<lambda>s. if (ns, p) \<notin> set (pw_pods s) then (Inl not_found, s)
        else (Inr (), s\<lparr>pw_pods := remove1 (ns, p) (pw_pods s),
          pw_deleted := (case pod_Controller p of None \<Rightarrow> pw_deleted s
            | Some cr \<Rightarrow> (pw_deleted s)((ns, cr) := Suc (pw_deleted s (ns, cr))))\<rparr>)))\<rparr>"

lemma pw_call_cases:
  obtains s0 where "pw_accounts s0 = pw_accounts s" "pw_owners s0 = pw_owners s" "pw_deleted s0 = pw_deleted s"
    "pw_pods s0 = pw_pods s" "pw_call f s = f s0 \<or> (\<exists>e. pw_call f s = (Inl (Err SOther e), snd (f s0)) \<or> pw_call f s = (Inl (Err SOther e), s0))"
  by (rule that [of "s\<lparr>pw_faults := tl (pw_faults s)\<rparr>"])
    (auto simp: pw_call_def Let_def split: list.split option.split bool.split)

lemma pw_bounces_cong: "pw_owners s' = pw_owners s \<Longrightarrow> pw_bounces s' = pw_bounces s"
  by (rule ext) (simp add: pw_bounces_def)

lemma pw_account_cong: "pw_accounts s' = pw_accounts s \<Longrightarrow> pw_account s' = pw_account s"
  by (intro ext) (simp add: pw_account_def)

lemma pw_bounces_upd:
  assumes "pw_owners s (ns, cr) = Some a" "pw_owners s' = (pw_owners s)((ns, cr) \<mapsto> a(chartPodBounceAnnotation \<mapsto> v))"
  shows "pw_bounces s' = (pw_bounces s)((ns, cr) := bounce_value v)"
proof -
  have "bounce_value '''' = 0" by (simp add: bounce_value_def ParseInt_def Let_def)
  then show ?thesis using assms by (auto simp: pw_bounces_def fun_eq_iff)
qed

interpretation pw: pod_client pw_client Pair pw_bounces pw_deleted
proof
  fix ns cr s annotations s' v r p
  show "pw_bounces (snd (ListHelmPods pw_client ns s)) = pw_bounces s \<and> pw_deleted (snd (ListHelmPods pw_client ns s)) = pw_deleted s"
    by (rule pw_call_cases [of s "\<lambda>s. (Inr (map snd (filter (\<lambda>(m, p). m = ns) (pw_pods s))), s)"])
      (auto simp: pw_client_def intro!: pw_bounces_cong)
  show "pw_bounces (snd (GetOwner pw_client ns cr s)) = pw_bounces s \<and> pw_deleted (snd (GetOwner pw_client ns cr s)) = pw_deleted s"
    by (rule pw_call_cases [of s "\<lambda>s. case pw_owners s (ns, cr) of None \<Rightarrow> (Inl not_found, s) | Some a \<Rightarrow> (Inr a, s)"])
      (auto simp: pw_client_def intro!: pw_bounces_cong split: option.splits)
  show "GetOwner pw_client ns cr s = (Inr annotations, s') \<Longrightarrow> pw_bounces s (ns, cr) =
        (if mget annotations chartPodBounceAnnotation = '''' then 0 else bounce_value (mget annotations chartPodBounceAnnotation))"
    by (rule pw_call_cases [of s "\<lambda>s. case pw_owners s (ns, cr) of None \<Rightarrow> (Inl not_found, s) | Some a \<Rightarrow> (Inr a, s)"])
      (auto simp: pw_client_def pw_bounces_def split: option.splits)
  show "PatchOwner pw_client ns cr chartPodBounceAnnotation v s = (r, s') \<Longrightarrow> pw_deleted s' = pw_deleted s
        \<and> (pw_bounces s' = (pw_bounces s)((ns, cr) := bounce_value v) \<or> isl r \<and> pw_bounces s' = pw_bounces s)"
    by (rule pw_call_cases [of s "\<lambda>s. case pw_owners s (ns, cr) of None \<Rightarrow> (Inl not_found, s)
        | Some a \<Rightarrow> (Inr (), s\<lparr>pw_owners := (pw_owners s)((ns, cr) \<mapsto> a(chartPodBounceAnnotation \<mapsto> v))\<rparr>)"])
      (auto simp: pw_client_def split: option.splits dest: pw_bounces_cong intro: pw_bounces_upd)
  show "DeletePod pw_client ns p s = (r, s') \<Longrightarrow> pw_bounces s' = pw_bounces s
        \<and> (pw_deleted s' = pw_deleted s \<or>
           (\<exists>cr. pod_Controller p = Some cr \<and> pw_deleted s' = (pw_deleted s)((ns, cr) := Suc (pw_deleted s (ns, cr)))))"
    by (rule pw_call_cases [of s "\<lambda>s. if (ns, p) \<notin> set (pw_pods s) then (Inl not_found, s)
        else (Inr (), s\<lparr>pw_pods := remove1 (ns, p) (pw_pods s),
          pw_deleted := (case pod_Controller p of None \<Rightarrow> pw_deleted s
            | Some cr \<Rightarrow> (pw_deleted s)((ns, cr) := Suc (pw_deleted s (ns, cr))))\<rparr>)"])
      (auto simp: pw_client_def split: option.splits if_splits intro!: pw_bounces_cong)
qed

lemma find_SomeD: "find P xs = Some x \<Longrightarrow> x \<in> set xs \<and> P x"
  by (induction xs) (auto split: if_splits)

lemma pw_account_name: "pw_account s ns n = Some sa \<Longrightarrow> sa_Name sa = n"
  by (auto simp: pw_account_def dest!: find_SomeD)

lemma pw_list_member: "sa \<in> set (pw_list s ns) \<longleftrightarrow> pw_account s ns (sa_Name sa) = Some sa"
proof
  assume "sa \<in> set (pw_list s ns)"
  then obtain n where "pw_account s ns n = Some sa" by (auto simp: pw_list_def map_filter_def split: option.splits)
  then show "pw_account s ns (sa_Name sa) = Some sa" using pw_account_name by metis
next
  assume h: "pw_account s ns (sa_Name sa) = Some sa"
  then have "sa_Name sa \<in> set (map (sa_Name \<circ> snd) (pw_accounts s))"
    by (force simp: pw_account_def dest!: find_SomeD)
  then show "sa \<in> set (pw_list s ns)" using h
    by (auto simp: pw_list_def map_filter_def image_iff intro!: bexI [of _ "sa_Name sa"])
qed

lemma pw_list_distinct: "distinct (map sa_Name (pw_list s ns))"
proof -
  have "map sa_Name (List.map_filter (pw_account s ns) ns') = filter (\<lambda>n. pw_account s ns n \<noteq> None) ns'" for ns'
    by (induction ns') (auto simp: map_filter_simps pw_account_name split: option.splits)
  then show ?thesis by (simp add: pw_list_def)
qed

lemma pw_list_cong: "pw_accounts s0 = pw_accounts s \<Longrightarrow> pw_list s0 ns = pw_list s ns"
  using pw_account_cong [of s0 s] by (simp add: pw_list_def)

lemma helm_listed: "ListHelmSAs pw_client ns s = (Inr sas, s') \<Longrightarrow> sas = filter sa_Managed (pw_list s ns)"
  by (cases rule: pw_call_cases [of s "\<lambda>s. (Inr (filter sa_Managed (pw_list s ns)), s)"])
    (auto simp: pw_client_def dest: pw_list_cong [where ns = ns])

lemma all_listed: "ListSAs pw_client ns s = (Inr sas, s') \<Longrightarrow> sas = pw_list s ns"
  by (cases rule: pw_call_cases [of s "\<lambda>s. (Inr (pw_list s ns), s)"]) (auto simp: pw_client_def dest: pw_list_cong [where ns = ns])

interpretation pw: account_client pw_client Pair pw_bounces pw_deleted pw_account
proof
  fix ns n s cr k v p sas s' sa e r
  show "pw_account (snd (ListHelmSAs pw_client ns s)) = pw_account s"
    by (rule pw_call_cases [of s "\<lambda>s. (Inr (filter sa_Managed (pw_list s ns)), s)"])
      (auto simp: pw_client_def intro!: pw_account_cong)
  show "pw_account (snd (ListSAs pw_client ns s)) = pw_account s"
    by (rule pw_call_cases [of s "\<lambda>s. (Inr (pw_list s ns), s)"]) (auto simp: pw_client_def intro!: pw_account_cong)
  show "pw_account (snd (GetSA pw_client ns n s)) = pw_account s"
    by (rule pw_call_cases [of s "\<lambda>s. case pw_account s ns n of None \<Rightarrow> (Inl not_found, s) | Some sa \<Rightarrow> (Inr sa, s)"])
      (auto simp: pw_client_def intro!: pw_account_cong split: option.splits)
  show "pw_account (snd (ListHelmPods pw_client ns s)) = pw_account s"
    by (rule pw_call_cases [of s "\<lambda>s. (Inr (map snd (filter (\<lambda>(m, p). m = ns) (pw_pods s))), s)"])
      (auto simp: pw_client_def intro!: pw_account_cong)
  show "pw_account (snd (GetOwner pw_client ns cr s)) = pw_account s"
    by (rule pw_call_cases [of s "\<lambda>s. case pw_owners s (ns, cr) of None \<Rightarrow> (Inl not_found, s) | Some a \<Rightarrow> (Inr a, s)"])
      (auto simp: pw_client_def intro!: pw_account_cong split: option.splits)
  show "pw_account (snd (PatchOwner pw_client ns cr k v s)) = pw_account s"
    by (rule pw_call_cases [of s "\<lambda>s. case pw_owners s (ns, cr) of None \<Rightarrow> (Inl not_found, s)
        | Some a \<Rightarrow> (Inr (), s\<lparr>pw_owners := (pw_owners s)((ns, cr) \<mapsto> a(k \<mapsto> v))\<rparr>)"])
      (auto simp: pw_client_def intro!: pw_account_cong split: option.splits)
  show "pw_account (snd (DeletePod pw_client ns p s)) = pw_account s"
    by (rule pw_call_cases [of s "\<lambda>s. if (ns, p) \<notin> set (pw_pods s) then (Inl not_found, s)
        else (Inr (), s\<lparr>pw_pods := remove1 (ns, p) (pw_pods s),
          pw_deleted := (case pod_Controller p of None \<Rightarrow> pw_deleted s
            | Some cr \<Rightarrow> (pw_deleted s)((ns, cr) := Suc (pw_deleted s (ns, cr))))\<rparr>)"])
      (auto simp: pw_client_def intro!: pw_account_cong split: option.splits if_splits)
  show "ListHelmSAs pw_client ns s = (Inr sas, s') \<Longrightarrow> distinct (map sa_Name sas)
        \<and> (\<forall>sa. sa \<in> set sas \<longleftrightarrow> pw_account s ns (sa_Name sa) = Some sa \<and> sa_Managed sa)"
    by (drule helm_listed) (simp add: pw_list_member distinct_map_filter pw_list_distinct)
  show "ListSAs pw_client ns s = (Inr sas, s') \<Longrightarrow> distinct (map sa_Name sas)
        \<and> (\<forall>sa. sa \<in> set sas \<longleftrightarrow> pw_account s ns (sa_Name sa) = Some sa)"
    by (drule all_listed) (simp add: pw_list_member pw_list_distinct)
  show "GetSA pw_client ns n s = (Inr sa, s') \<Longrightarrow> pw_account s ns n = Some sa \<and> sa_Name sa = n"
    by (rule pw_call_cases [of s "\<lambda>s. case pw_account s ns n of None \<Rightarrow> (Inl not_found, s) | Some sa \<Rightarrow> (Inr sa, s)"])
      (auto simp: pw_client_def dest: pw_account_cong pw_account_name split: option.splits)
  show "GetSA pw_client ns n s = (Inl e, s') \<Longrightarrow> err_is e = SNotFound \<Longrightarrow> pw_account s ns n = None"
    by (rule pw_call_cases [of s "\<lambda>s. case pw_account s ns n of None \<Rightarrow> (Inl not_found, s) | Some sa \<Rightarrow> (Inr sa, s)"])
      (auto simp: pw_client_def not_found_def dest: pw_account_cong split: option.splits)
  show "pw_account s ns n = Some sa \<Longrightarrow> sa_Name sa = n" by (rule pw_account_name)
  have upd: "pw_account (s0\<lparr>pw_accounts := (ns, sa) # pw_accounts s\<rparr>) = (pw_account s)(ns := (pw_account s ns)(sa_Name sa \<mapsto> sa))"
    for s0 :: pod_world
    by (intro ext) (auto simp: pw_account_def)
  show "UpdateSA pw_client ns sa s = (r, s') \<Longrightarrow>
        pw_account s' = (pw_account s)(ns := (pw_account s ns)(sa_Name sa \<mapsto> sa)) \<or> isl r \<and> pw_account s' = pw_account s"
    by (rule pw_call_cases [of s "\<lambda>s. (Inr (), s\<lparr>pw_accounts := (ns, sa) # pw_accounts s\<rparr>)"])
      (auto simp: pw_client_def upd dest: pw_account_cong)
qed

text \<open>A pod that cannot pull, an account of a chart and an account of its namespace.\<close>

definition example_pods :: pod_world where
  "example_pods = \<lparr>
     pw_accounts = [(''ai'', \<lparr>sa_Name = ''default'', sa_Managed = False, sa_ImagePullSecrets = []\<rparr>),
                    (''ai'', \<lparr>sa_Name = ''chart'', sa_Managed = True, sa_ImagePullSecrets = [''regcred'']\<rparr>)],
     pw_pods = [(''ai'', \<lparr>pod_Name = ''p1'', pod_InitWaiting = [], pod_Waiting = [Some ''ErrImagePull''],
                  pod_Controller = Some \<lparr>or_APIVersion = ''apps/v1'', or_Kind = ''ReplicaSet'', or_Name = ''rs''\<rparr>\<rparr>)],
     pw_owners = [(''ai'', \<lparr>or_APIVersion = ''apps/v1'', or_Kind = ''ReplicaSet'', or_Name = ''rs''\<rparr>) \<mapsto> Map.empty],
     pw_deleted = (\<lambda>_. 0), pw_faults = []\<rparr>"

definition example_owner :: "string \<times> OwnerRef" where
  "example_owner = (''ai'', \<lparr>or_APIVersion = ''apps/v1'', or_Kind = ''ReplicaSet'', or_Name = ''rs''\<rparr>)"

theorem bounces_bounded_witness:
  "let s' = snd (restartImagePullBackOffPods pw_client ''ai'' example_pods)
   in int (pw_deleted s' example_owner) - int (pw_deleted example_pods example_owner) \<le> max 0 (3 - pw_bounces example_pods example_owner)"
proof -
  let ?s = "snd (restartImagePullBackOffPods pw_client ''ai'' example_pods)"
  have "bounce_pass pw_client example_pods ?s" by (rule bounce_pass.pass) (rule prod.collapse [symmetric])
  then have "(bounce_pass pw_client)\<^sup>*\<^sup>* example_pods ?s" by blast
  from bounces_bounded [OF pw.pod_client_axioms this] show ?thesis by (simp add: Let_def)
qed

lemma example_merged:
  "case reconcilePullSecretsForNamespace pw_client ''ai'' [''ngc-secret''] example_pods of (Inr b, _) \<Rightarrow> \<not> b | _ \<Rightarrow> False"
  by code_simp

theorem namespace_accounts_merged_witness:
  "case reconcilePullSecretsForNamespace pw_client ''ai'' [''ngc-secret''] example_pods of
     (Inr b, s') \<Rightarrow> \<exists>new. pw_account s' ''ai'' ''chart''
         = Some \<lparr>sa_Name = ''chart'', sa_Managed = True, sa_ImagePullSecrets = [''regcred''] @ new\<rparr> \<and> set new = {''ngc-secret''}
   | _ \<Rightarrow> False"
proof -
  obtain r s' where rc: "reconcilePullSecretsForNamespace pw_client ''ai'' [''ngc-secret''] example_pods = (r, s')"
    by (cases "reconcilePullSecretsForNamespace pw_client ''ai'' [''ngc-secret''] example_pods")
  obtain b where b: "r = Inr b" using example_merged rc by (cases r) simp_all
  let ?sa = "\<lparr>sa_Name = ''chart'', sa_Managed = True, sa_ImagePullSecrets = [''regcred'']\<rparr>"
  have sa: "pw_account example_pods ''ai'' ''chart'' = Some ?sa \<and> (sa_Managed ?sa \<or> ''chart'' = ''default'')"
    by (simp add: pw_account_def example_pods_def)
  from conjunct1 [OF namespace_accounts_merged [OF pw.account_client_axioms rc [unfolded b]], rule_format, OF sa]
  obtain new where "pw_account s' ''ai'' ''chart'' = Some (?sa\<lparr>sa_ImagePullSecrets := sa_ImagePullSecrets ?sa @ new\<rparr>)"
    "set new = set [''ngc-secret''] - set (sa_ImagePullSecrets ?sa)" by blast
  then show ?thesis unfolding rc b by (auto intro!: exI [of _ new])
qed

section \<open>Deliveries are recorded and pruned\<close>

definition delivered :: "PullSecretDelivery list \<Rightarrow> string \<Rightarrow> string list" where
  "delivered ds ns = concat (map psd_Names (filter (\<lambda>d. psd_Namespace d = ns \<and> ns \<noteq> '''') ds))"

context account_client begin

lemma prune_accounts_ok:
  assumes "prune_accounts c ns ours sas s = (Inr (), s')" "distinct (map sa_Name sas)"
    "\<forall>sa \<in> set sas. accounts s ns (sa_Name sa) = Some sa"
  shows "(\<forall>sa \<in> set sas. accounts s' ns (sa_Name sa) = Some (fst (prune_account ours sa)))
    \<and> (\<forall>n. n \<notin> set (map sa_Name sas) \<longrightarrow> accounts s' ns n = accounts s ns n)
    \<and> (\<forall>ns'. ns' \<noteq> ns \<longrightarrow> accounts s' ns' = accounts s ns')"
  using assms
proof (induction sas arbitrary: s)
  case (Cons sa sas)
  obtain sa' m where pr: "prune_account ours sa = (sa', m)" by (cases "prune_account ours sa")
  have nm: "sa_Name sa' = sa_Name sa" using pr by (auto simp: prune_account_def)
  have ne: "\<forall>x \<in> set sas. sa_Name x \<noteq> sa_Name sa" using Cons.prems(2) by (simp add: image_iff) metis
  show ?case
  proof (cases m)
    case False
    then have eq: "sa' = sa" using pr by (cases sa) (auto simp: prune_account_def list_ex_iff filter_id_conv)
    show ?thesis using Cons.IH [of s] Cons.prems pr False eq ne by simp
  next
    case True
    obtain r s1 where u: "UpdateSA c ns sa' s = (r, s1)" by (cases "UpdateSA c ns sa' s")
    obtain x where x: "r = Inr x" using Cons.prems(1) pr True u by (cases r) auto
    then have a: "accounts s1 = (accounts s)(ns := (accounts s ns)(sa_Name sa \<mapsto> sa'))" using update_account [OF u] nm by simp
    have rest: "prune_accounts c ns ours sas s1 = (Inr (), s')" using Cons.prems(1) pr True u x by simp
    have pre: "\<forall>x \<in> set sas. accounts s1 ns (sa_Name x) = Some x" using Cons.prems(3) a ne by simp
    from Cons.IH [OF rest _ pre] Cons.prems(2) show ?thesis using a pr by auto
  qed
qed simp

lemma prune_deliveries_ok:
  "prune_deliveries c ds s = (Inr (), s') \<Longrightarrow>
   accounts s' ns n = map_option (\<lambda>sa. fst (prune_account (delivered ds ns) sa)) (accounts s ns n)"
proof (induction ds arbitrary: s)
  case Nil
  then show ?case by (cases "accounts s ns n") (auto simp: delivered_def prune_account_def)
next
  case (Cons d ds)
  show ?case
  proof (cases "psd_Namespace d = '''' \<or> psd_Names d = []")
    case True
    then show ?thesis using Cons by (auto simp: delivered_def)
  next
    case False
    obtain r s1 where l: "ListSAs c (psd_Namespace d) s = (r, s1)" by (cases "ListSAs c (psd_Namespace d) s")
    then obtain sas where sas: "r = Inr sas" using Cons.prems False by (cases r) simp_all
    have a1: "accounts s1 = accounts s" using list_frame(2) [of "psd_Namespace d" s] l by simp
    have l': "distinct (map sa_Name sas)" "\<And>sa. sa \<in> set sas \<longleftrightarrow> accounts s1 (psd_Namespace d) (sa_Name sa) = Some sa"
      using list_all_accounts [of "psd_Namespace d" s sas s1] l sas a1 by auto
    obtain rp s2 where p: "prune_accounts c (psd_Namespace d) (psd_Names d) sas s1 = (rp, s2)"
      by (cases "prune_accounts c (psd_Namespace d) (psd_Names d) sas s1")
    then have rp: "rp = Inr ()" and rest: "prune_deliveries c ds s2 = (Inr (), s')"
      using Cons.prems False l sas by (cases rp; simp)+
    have pre: "\<forall>sa \<in> set sas. accounts s1 (psd_Namespace d) (sa_Name sa) = Some sa" using l'(2) by simp
    note p' = prune_accounts_ok [OF p [unfolded rp] l'(1) pre]
    have two: "accounts s2 ns n = (if psd_Namespace d = ns
        then map_option (\<lambda>sa. fst (prune_account (psd_Names d) sa)) (accounts s ns n) else accounts s ns n)"
    proof (cases "psd_Namespace d = ns")
      case True
      show ?thesis
      proof (cases "accounts s ns n")
        case None
        then have "n \<notin> set (map sa_Name sas)" using l'(2) a1 True by auto
        then show ?thesis using p' True None a1 by simp
      next
        case (Some sa)
        then have "sa \<in> set sas" "sa_Name sa = n" using l'(2) [of sa] account_named [OF Some] a1 True by simp_all
        then show ?thesis using p' True Some by auto
      qed
    qed (use p' a1 in auto)
    have comp: "fst (prune_account b (fst (prune_account a sa))) = fst (prune_account (a @ b) sa)" for a b sa
      by (simp add: prune_account_def conj_commute)
    have "delivered (d # ds) ns = (if psd_Namespace d = ns then psd_Names d @ delivered ds ns else delivered ds ns)"
      using False by (auto simp: delivered_def)
    then show ?thesis using Cons.IH [OF rest] two by (cases "accounts s ns n") (simp_all add: comp)
  qed
qed

end

text \<open>
  Deleting a workload takes the pull secrets it had delivered into a namespace out of every
  service account there and leaves all else as it was. It does so in the operator's own cluster also
  for a workload that targets downstream clusters only, although reconciling such a workload never
  touches a service account here: the accounts of an unrelated local namespace of the same name lose
  their entries.
\<close>

theorem deletion_prunes_accounts:
  assumes "account_client c obj bounces deleted accounts" and "pruneLocalSAImagePullSecrets c w s = (Inr (), s')"
  shows "accounts s' ns n = map_option (\<lambda>sa. sa\<lparr>sa_ImagePullSecrets :=
        filter (\<lambda>x. x \<notin> set (delivered (PullSecretDeliveries (Status w)) ns)) (sa_ImagePullSecrets sa)\<rparr>) (accounts s ns n)
    \<and> (\<not> targetsLocalCluster w \<longrightarrow> reconcilePullSecrets c w s0 = (Inr True, s0))"
  using account_client.prune_deliveries_ok [OF assms(1) assms(2) [unfolded pruneLocalSAImagePullSecrets_def], of ns n]
  by (simp add: prune_account_def reconcilePullSecrets_def)

definition example_downstream :: AIWorkload where
  "example_downstream = example_workload
     \<lparr>Spec := example_spec\<lparr>TargetClusters := [''c-m-1'']\<rparr>,
      Status := example_status\<lparr>PullSecretDeliveries := [\<lparr>psd_Namespace = ''ai'', psd_Names = [''regcred'']\<rparr>]\<rparr>\<rparr>"

lemma example_pruned: "\<not> isl (fst (pruneLocalSAImagePullSecrets pw_client example_downstream example_pods))"
  by code_simp

theorem deletion_prunes_accounts_witness:
  "\<not> targetsLocalCluster example_downstream
   \<and> pw_account example_pods ''ai'' ''chart'' = Some \<lparr>sa_Name = ''chart'', sa_Managed = True, sa_ImagePullSecrets = [''regcred'']\<rparr>
   \<and> pw_account (snd (pruneLocalSAImagePullSecrets pw_client example_downstream example_pods)) ''ai'' ''chart''
       = Some \<lparr>sa_Name = ''chart'', sa_Managed = True, sa_ImagePullSecrets = []\<rparr>"
proof -
  have sa: "pw_account example_pods ''ai'' ''chart'' = Some \<lparr>sa_Name = ''chart'', sa_Managed = True, sa_ImagePullSecrets = [''regcred'']\<rparr>"
    by (simp add: pw_account_def example_pods_def)
  obtain r s' where p: "pruneLocalSAImagePullSecrets pw_client example_downstream example_pods = (r, s')"
    by (cases "pruneLocalSAImagePullSecrets pw_client example_downstream example_pods")
  then have r: "r = Inr ()" using example_pruned by (cases r) simp_all
  have "delivered (PullSecretDeliveries (Status example_downstream)) ''ai'' = [''regcred'']"
    by (simp add: delivered_def example_downstream_def)
  then show ?thesis
    using deletion_prunes_accounts [OF pw.account_client_axioms p [unfolded r], of "''ai''" "''chart''" example_pods] sa p
    by (simp add: example_downstream_def targetsLocalCluster_def)
qed

lemma merge_bucket_spaces:
  "map psd_Namespace (merge_bucket ds ns names) =
     (if ns \<in> set (map psd_Namespace ds) then map psd_Namespace ds else map psd_Namespace ds @ [ns])"
  by (induction ds) auto

lemma merge_bucket_get:
  "distinct (map psd_Namespace ds) \<Longrightarrow>
   map_of (map (\<lambda>d. (psd_Namespace d, psd_Names d)) (merge_bucket ds ns names)) k =
     (if k = ns then Some (mergeStringSet (case map_of (map (\<lambda>d. (psd_Namespace d, psd_Names d)) ds) ns of None \<Rightarrow> [] | Some xs \<Rightarrow> xs) names)
      else map_of (map (\<lambda>d. (psd_Namespace d, psd_Names d)) ds) k)"
  by (induction ds) auto

text \<open>
  Recording a delivery keeps one bucket per namespace, adds the names to the bucket of theirs in
  order and without repetition, touches no other bucket, and is idempotent; a delivery without a
  namespace or without names is ignored.
\<close>

theorem delivery_recorded:
  assumes "distinct (map psd_Namespace ds)"
  defines "bucket \<equiv> \<lambda>ds ns. map_of (map (\<lambda>d. (psd_Namespace d, psd_Names d)) ds) ns"
  shows "distinct (map psd_Namespace (mergePullSecretDelivery ds ns names))
    \<and> (ns \<noteq> '''' \<and> names \<noteq> [] \<longrightarrow>
        (\<exists>new. bucket (mergePullSecretDelivery ds ns names) ns = Some ((case bucket ds ns of None \<Rightarrow> [] | Some xs \<Rightarrow> xs) @ new)
          \<and> distinct new \<and> set new = set names - set (case bucket ds ns of None \<Rightarrow> [] | Some xs \<Rightarrow> xs)))
    \<and> (ns = '''' \<or> names = [] \<longrightarrow> mergePullSecretDelivery ds ns names = ds)
    \<and> (\<forall>k. k \<noteq> ns \<longrightarrow> bucket (mergePullSecretDelivery ds ns names) k = bucket ds k)
    \<and> mergePullSecretDelivery (mergePullSecretDelivery ds ns names) ns names = mergePullSecretDelivery ds ns names"
proof (intro conjI impI allI)
  show "distinct (map psd_Namespace (mergePullSecretDelivery ds ns names))"
    using assms(1) by (simp add: mergePullSecretDelivery_def merge_bucket_spaces)
  let ?old = "case bucket ds ns of None \<Rightarrow> [] | Some xs \<Rightarrow> xs"
  assume h: "ns \<noteq> '''' \<and> names \<noteq> []"
  obtain new where new: "add_missing ?old names = ?old @ new" "set new \<subseteq> set names - set ?old" "distinct new"
    using add_missing_prefix by blast
  moreover have "set new = set names - set ?old" using add_missing_set [of ?old names] new by auto
  ultimately show "\<exists>new. bucket (mergePullSecretDelivery ds ns names) ns = Some (?old @ new)
      \<and> distinct new \<and> set new = set names - set ?old"
    using h merge_bucket_get [OF assms(1), of ns names ns]
    by (intro exI [of _ new]) (simp add: mergePullSecretDelivery_def mergeStringSet_def bucket_def)
next
  fix k assume "k \<noteq> ns"
  then show "bucket (mergePullSecretDelivery ds ns names) k = bucket ds k"
    using merge_bucket_get [OF assms(1), of ns names k] by (simp add: mergePullSecretDelivery_def bucket_def)
next
  have again: "merge_bucket (merge_bucket ds ns names) ns names = merge_bucket ds ns names" for ds
    by (induction ds) (simp_all add: mergeStringSet_def add_missing_same add_missing_set)
  show "mergePullSecretDelivery (mergePullSecretDelivery ds ns names) ns names = mergePullSecretDelivery ds ns names"
    by (simp add: mergePullSecretDelivery_def again)
qed (auto simp: mergePullSecretDelivery_def)

theorem delivery_recorded_witness:
  "mergePullSecretDelivery [\<lparr>psd_Namespace = ''ai'', psd_Names = [''a'']\<rparr>] '''' [''b''] = [\<lparr>psd_Namespace = ''ai'', psd_Names = [''a'']\<rparr>]"
  using delivery_recorded [of "[\<lparr>psd_Namespace = ''ai'', psd_Names = [''a'']\<rparr>]" "''''" "[''b'']"] by simp

end
