(* ===== verification/GoDigests.thy ===== *)
theory GoDigests
  imports GoSha256
begin

text \<open>
  \<open>crypto/md5\<close> and \<open>crypto/sha1\<close>, from which the operator derives the suffix of a Helm release
  name and of the name of a merge Job. Both share the padding and the block structure of \<open>GoSha256\<close>;
  MD5 reads and writes its words with the low byte first.
\<close>

section \<open>SHA-1\<close>

definition H1 :: "w32 list" where
  "H1 = [1732584193, 4023233417, 2562383102, 271733878, 3285377520]"

text \<open>The schedule of a block: \<open>n\<close> more words behind the words so far.\<close>

fun schedule1 :: "nat \<Rightarrow> w32 list \<Rightarrow> w32 list" where
  "schedule1 0 ws = ws"
| "schedule1 (Suc n) ws =
     (let t = length ws
      in schedule1 n (ws @ [word_rotl 1 (xor (xor (ws ! (t - 3)) (ws ! (t - 8))) (xor (ws ! (t - 14)) (ws ! (t - 16))))]))"

definition mix1 :: "nat \<Rightarrow> w32 \<Rightarrow> w32 \<Rightarrow> w32 \<Rightarrow> w32" where
  "mix1 t b c d =
     (if t < 20 then or (and b c) (and (not b) d) + 1518500249
      else if t < 40 then xor b (xor c d) + 1859775393
      else if t < 60 then or (and b c) (or (and b d) (and c d)) + 2400959708
      else xor b (xor c d) + 3395469782)"

definition round1 :: "w32 list \<Rightarrow> nat \<times> w32 \<Rightarrow> w32 list" where
  "round1 v tw =
     (let a = v ! 0; b = v ! 1; c = v ! 2; d = v ! 3; e = v ! 4
      in [word_rotl 5 a + mix1 (fst tw) b c d + e + snd tw, a, word_rotl 30 b, c, d])"

definition compress1 :: "w32 list \<Rightarrow> w32 list \<Rightarrow> w32 list" where
  "compress1 st block = map2 (+) st (foldl round1 st (zip [0..<80] (schedule1 64 block)))"

definition sha1 :: "string \<Rightarrow> string" where
  "sha1 m =
     (let p = pad256 m
      in concat (map (\<lambda>w. be_bytes 4 (unat w))
           (foldl (\<lambda>st b. compress1 st (map be_word (chunks 16 4 b))) H1 (chunks (length p div 64) 64 p))))"

section \<open>MD5\<close>

definition K5 :: "w32 list" where
  "K5 =
    [3614090360, 3905402710, 606105819, 3250441966, 4118548399, 1200080426, 2821735955, 4249261313,
     1770035416, 2336552879, 4294925233, 2304563134, 1804603682, 4254626195, 2792965006, 1236535329,
     4129170786, 3225465664, 643717713, 3921069994, 3593408605, 38016083, 3634488961, 3889429448,
     568446438, 3275163606, 4107603335, 1163531501, 2850285829, 4243563512, 1735328473, 2368359562,
     4294588738, 2272392833, 1839030562, 4259657740, 2763975236, 1272893353, 4139469664, 3200236656,
     681279174, 3936430074, 3572445317, 76029189, 3654602809, 3873151461, 530742520, 3299628645,
     4096336452, 1126891415, 2878612391, 4237533241, 1700485571, 2399980690, 4293915773, 2240044497,
     1873313359, 4264355552, 2734768916, 1309151649, 4149444226, 3174756917, 718787259, 3951481745]"

definition S5 :: "nat list" where
  "S5 = [7, 12, 17, 22, 5, 9, 14, 20, 4, 11, 16, 23, 6, 10, 15, 21]"

definition H5 :: "w32 list" where
  "H5 = [1732584193, 4023233417, 2562383102, 271733878]"

text \<open>The mixing function of step \<open>i\<close> and the word of the block it takes.\<close>

definition mix5 :: "nat \<Rightarrow> w32 \<Rightarrow> w32 \<Rightarrow> w32 \<Rightarrow> w32 \<times> nat" where
  "mix5 i b c d =
     (if i < 16 then (or (and b c) (and (not b) d), i)
      else if i < 32 then (or (and d b) (and (not d) c), (5 * i + 1) mod 16)
      else if i < 48 then (xor b (xor c d), (3 * i + 5) mod 16)
      else (xor c (or b (not d)), (7 * i) mod 16))"

definition round5 :: "w32 list \<Rightarrow> w32 list \<Rightarrow> nat \<Rightarrow> w32 list" where
  "round5 block v i =
     (let a = v ! 0; b = v ! 1; c = v ! 2; d = v ! 3; fg = mix5 i b c d
      in [d, b + word_rotl (S5 ! (4 * (i div 16) + i mod 4)) (a + fst fg + K5 ! i + block ! snd fg), b, c])"

definition compress5 :: "w32 list \<Rightarrow> w32 list \<Rightarrow> w32 list" where
  "compress5 st block = map2 (+) st (foldl (round5 block) st [0..<64])"

definition le_word :: "string \<Rightarrow> w32" where "le_word bs = be_word (rev bs)"

definition pad5 :: "string \<Rightarrow> string" where
  "pad5 m = m @ CHR 0x80 # replicate ((119 - length m mod 64) mod 64) CHR 0x00 @ rev (be_bytes 8 (8 * length m))"

definition md5 :: "string \<Rightarrow> string" where
  "md5 m =
     (let p = pad5 m
      in concat (map (\<lambda>w. rev (be_bytes 4 (unat w)))
           (foldl (\<lambda>st b. compress5 st (map le_word (chunks 16 4 b))) H5 (chunks (length p div 64) 64 p))))"

section \<open>Lengths\<close>

lemma foldl_length:
  "(\<And>st b. length st = n \<Longrightarrow> length (f st b) = n) \<Longrightarrow> length st = n \<Longrightarrow> length (foldl f st bs) = n"
  by (induction bs arbitrary: st) auto

lemma schedule1_length [simp]: "length (schedule1 n ws) = length ws + n"
  by (induction n arbitrary: ws) (auto simp: Let_def)

lemma compress1_length: "length st = 5 \<Longrightarrow> length (compress1 st b) = 5"
  unfolding compress1_def by (simp add: foldl_length [of 5 round1] round1_def Let_def)

lemma compress5_length: "length st = 4 \<Longrightarrow> length (compress5 st b) = 4"
  unfolding compress5_def by (simp add: foldl_length [of 4 "round5 b"] round5_def Let_def)

lemma sha1_length [simp]: "length (sha1 m) = 20"
  unfolding sha1_def Let_def
  by (subst concat_map_length [of _ _ 4]) (simp_all add: foldl_length [of 5] compress1_length H1_def)

lemma md5_length [simp]: "length (md5 m) = 16"
  unfolding md5_def Let_def
  by (subst concat_map_length [of _ _ 4]) (simp_all add: foldl_length [of 4] compress5_length H5_def)

end
