(* ===== verification/SaMerge.thy ===== *)
theory SaMerge
  imports PullSecrets GoDigests
begin

text \<open>
  The merge of pull secrets into the service accounts of a downstream cluster
  (\<open>internal/cluster/sa_merge.go\<close>): the shell script, the manifests that run it once and on a schedule,
  the name of the Job, and what running the script does to a namespace.
\<close>

section \<open>The script\<close>

text \<open>\<open>quoted\<close> puts a single quote between its parts; the comments of the script have three dashes.\<close>

definition quoted :: "string list \<Rightarrow> string" where "quoted parts = join [CHR 0x27] parts"

definition em_dash :: string where "em_dash = [CHR 0xE2, CHR 0x80, CHR 0x94]"

definition unlines :: "string list \<Rightarrow> string" where "unlines ls = join [CHR 0x0A] ls"

definition saMergeScriptTemplate :: "string \<Rightarrow> string \<Rightarrow> string" where
  "saMergeScriptTemplate ns names = unlines
      [''set -eu'',
       ''# Desired names, space-separated (rendered by the operator). Kept single-line'',
       quoted [''# so the YAML block-scalar embedding this script doesn'', ''t break.''],
       quoted [''DESIRED='', names, ''''],
       quoted [''NS='', ns, ''''],
       ''# Tracks whether we patched any SA this run. The Pod-bounce below only fires'',
       ''# when this is 1, so a stable namespace (nothing to patch) never churns Pods.'',
       ''PATCHED=0'',
       ''# Patch chart-managed SAs (app.kubernetes.io/managed-by=Helm) PLUS the namespace'',
       ''# \"default\" SA. Many charts '' @ em_dash @ '' and bundled subcharts (e.g. the bitnami postgresql'',
       ''# dependency of litellm) '' @ em_dash @ '' run their pods under \"default\" rather than a chart SA,'',
       quoted [''# so image-pull creds must land there too or those pods can'', ''t pull (notably''],
       quoted [''# AppCollection images pulled by a SUSE-registry chart'', ''s subchart). Other''],
       ''# cluster-admin SAs in the namespace are left alone. The merge is a union, so'',
       ''# patching \"default\" only ADDS creds and never clobbers existing entries.'',
       quoted [''SAS=$(kubectl -n \"$NS\" get sa -l '', ''app.kubernetes.io/managed-by=Helm'', '' -o jsonpath='', ''{.items[*].metadata.name}'', '')''],
       quoted [''for sa in $(printf '', ''default %s'', '' \"$SAS\" | tr '', '' '', '' '', [bslash] @ ''n'', '' | sort -u); do''],
       quoted [''  # Read SA'', ''s current imagePullSecrets names, one per line.''],
       quoted [''  EXISTING=$(kubectl -n \"$NS\" get sa \"$sa\" -o jsonpath='', ''{range .imagePullSecrets[*]}{.name}{\"'' @ [bslash] @ ''n\"}{end}'', '')''],
       ''  # Union: existing + desired, deduped + sorted. tr+sort handles empty EXISTING'',
       ''  # (no .imagePullSecrets field) cleanly.'',
       quoted [''  UNION=$(printf '', ''%s'' @ [bslash] @ ''n%s'' @ [bslash] @ ''n'', '' \"$EXISTING\" \"$DESIRED\" | tr '', '' '', '' '', [bslash] @ ''n'', '' | sort -u | tr -s '', [bslash] @ ''n'', '' '', '' '', '')''],
       quoted [''  EXISTING_SORTED=$(printf '', ''%s'' @ [bslash] @ ''n'', '' \"$EXISTING\" | tr '', '' '', '' '', [bslash] @ ''n'', '' | sort -u | tr -s '', [bslash] @ ''n'', '' '', '' '', '')''],
       ''  if [ \"$UNION\" = \"$EXISTING_SORTED\" ]; then'',
       ''    echo \"$sa: already has desired imagePullSecrets, skipping\"'',
       ''    continue'',
       ''  fi'',
       ''  # Build JSON array from the unioned names (POSIX sh, no jq).'',
       quoted [''  JSON='', '''', ''''],
       quoted [''  SEP='', '''', ''''],
       ''  for n in $UNION; do'',
       ''    JSON=\"${JSON}${SEP}{'' @ [bslash] @ ''\"name'' @ [bslash] @ ''\":'' @ [bslash] @ ''\"$n'' @ [bslash] @ ''\"}\"'',
       quoted [''    SEP='', '','', ''''],
       ''  done'',
       ''  PATCH=\"{'' @ [bslash] @ ''\"imagePullSecrets'' @ [bslash] @ ''\":[$JSON]}\"'',
       ''  echo \"$sa: patching with $PATCH\"'',
       ''  # Strategic-merge here is REPLACE-semantics on this atomic list, but we send'',
       ''  # the full union so the end state is correct. See buildSAMergeResources doc.'',
       ''  kubectl -n \"$NS\" patch sa \"$sa\" --type=strategic -p \"$PATCH\"'',
       ''  PATCHED=1'',
       ''done'',
       quoted [''# Bounce chart-managed Pods stuck pulling images so they re-read their SA'', ''s''],
       ''# imagePullSecrets at admission (a Pod created before its SA was patched keeps'',
       ''# its possibly-empty imagePullSecrets baked in until recreated) '' @ em_dash @ '' but ONLY when'',
       ''# we actually changed an SA this run. Without this guard a genuinely unpullable'',
       ''# or slow-pulling Pod would be deleted and recreated on every tick, which reads'',
       ''# as the workload perpetually toggling Pending<->Running.'',
       ''if [ \"$PATCHED\" = 1 ]; then'',
       quoted [''  kubectl -n \"$NS\" get pods -l '', ''app.kubernetes.io/managed-by=Helm'', '' -o jsonpath='', ''{range .items[*]}{.metadata.name}={range .status.initContainerStatuses[*]}{.state.waiting.reason},{end}{range .status.containerStatuses[*]}{.state.waiting.reason},{end}{\"'' @ [bslash] @ ''n\"}{end}'', '' | while IFS='', ''='', '' read -r pod reasons; do''],
       ''    [ -n \"$pod\" ] || continue'',
       ''    case \",$reasons\" in'',
       ''      *,ImagePullBackOff,*|*,ErrImagePull,*)'',
       ''        echo \"$pod: image pull failing after SA patch, deleting so it re-reads SA imagePullSecrets\"'',
       ''        kubectl -n \"$NS\" delete pod \"$pod\" --ignore-not-found'',
       ''        ;;'',
       ''    esac'',
       ''  done'',
       ''fi'',
       '''']"

text \<open>\<open>strings.Split\<close> at line feeds.\<close>

fun split_lines :: "string \<Rightarrow> string list" where
  "split_lines [] = ['''']"
| "split_lines (c # cs) =
     (if c = CHR 0x0A then '''' # split_lines cs
      else case split_lines cs of l # ls \<Rightarrow> (c # l) # ls | [] \<Rightarrow> [[c]])"

definition indent :: "nat \<Rightarrow> string \<Rightarrow> string" where
  "indent spaces s = unlines (map (\<lambda>l. if l \<noteq> '''' then replicate spaces CHR '' '' @ l else l) (split_lines s))"

definition saMergeTemplate :: "string \<Rightarrow> string \<Rightarrow> string \<Rightarrow> string \<Rightarrow> string \<Rightarrow> string \<Rightarrow> string \<Rightarrow> string" where
  "saMergeTemplate ns job cron sched acct img script = unlines
      [''apiVersion: v1'',
       ''kind: ServiceAccount'',
       ''metadata:'',
       ''  name: '' @ acct,
       ''  namespace: '' @ ns,
       ''---'',
       ''apiVersion: rbac.authorization.k8s.io/v1'',
       ''kind: Role'',
       ''metadata:'',
       ''  name: '' @ acct,
       ''  namespace: '' @ ns,
       ''rules:'',
       ''  - apiGroups: [\"\"]'',
       ''    resources: [\"serviceaccounts\"]'',
       ''    verbs: [\"get\", \"list\", \"patch\"]'',
       ''  - apiGroups: [\"\"]'',
       ''    resources: [\"pods\"]'',
       ''    verbs: [\"get\", \"list\", \"delete\"]'',
       ''---'',
       ''apiVersion: rbac.authorization.k8s.io/v1'',
       ''kind: RoleBinding'',
       ''metadata:'',
       ''  name: '' @ acct,
       ''  namespace: '' @ ns,
       ''subjects:'',
       ''  - kind: ServiceAccount'',
       ''    name: '' @ acct,
       ''    namespace: '' @ ns,
       ''roleRef:'',
       ''  apiGroup: rbac.authorization.k8s.io'',
       ''  kind: Role'',
       ''  name: '' @ acct,
       ''---'',
       ''apiVersion: batch/v1'',
       ''kind: Job'',
       ''metadata:'',
       ''  name: '' @ job,
       ''  namespace: '' @ ns,
       ''  labels:'',
       ''    ai-factory.suse.com/role: pullsecret-sa-merge'',
       ''spec:'',
       ''  backoffLimit: 4'',
       ''  template:'',
       ''    metadata:'',
       ''      labels:'',
       ''        ai-factory.suse.com/role: pullsecret-sa-merge'',
       ''    spec:'',
       ''      serviceAccountName: '' @ acct,
       ''      restartPolicy: OnFailure'',
       ''      securityContext:'',
       ''        runAsNonRoot: true'',
       ''        runAsUser: 65534'',
       ''        seccompProfile:'',
       ''          type: RuntimeDefault'',
       ''      containers:'',
       ''        - name: merge'',
       ''          image: '' @ img,
       ''          imagePullPolicy: IfNotPresent'',
       ''          securityContext:'',
       ''            allowPrivilegeEscalation: false'',
       ''            readOnlyRootFilesystem: true'',
       ''            capabilities:'',
       ''              drop: [\"ALL\"]'',
       ''          volumeMounts:'',
       ''            - name: tmp'',
       ''              mountPath: /tmp'',
       ''          command: [\"/bin/sh\", \"-c\"]'',
       ''          args:'',
       ''            - |'',
       indent 14 script,
       ''      volumes:'',
       ''        - name: tmp'',
       ''          emptyDir: {}'',
       ''---'',
       ''apiVersion: batch/v1'',
       ''kind: CronJob'',
       ''metadata:'',
       ''  name: '' @ cron,
       ''  namespace: '' @ ns,
       ''  labels:'',
       ''    ai-factory.suse.com/role: pullsecret-sa-merge'',
       ''spec:'',
       ''  schedule: \"'' @ sched @ ''\"'',
       ''  concurrencyPolicy: Forbid'',
       ''  startingDeadlineSeconds: 200'',
       ''  successfulJobsHistoryLimit: 1'',
       ''  failedJobsHistoryLimit: 1'',
       ''  jobTemplate:'',
       ''    spec:'',
       ''      backoffLimit: 4'',
       ''      template:'',
       ''        metadata:'',
       ''          labels:'',
       ''            ai-factory.suse.com/role: pullsecret-sa-merge'',
       ''        spec:'',
       ''          serviceAccountName: '' @ acct,
       ''          restartPolicy: OnFailure'',
       ''          securityContext:'',
       ''            runAsNonRoot: true'',
       ''            runAsUser: 65534'',
       ''            seccompProfile:'',
       ''              type: RuntimeDefault'',
       ''          containers:'',
       ''            - name: merge'',
       ''              image: '' @ img,
       ''              imagePullPolicy: IfNotPresent'',
       ''              securityContext:'',
       ''                allowPrivilegeEscalation: false'',
       ''                readOnlyRootFilesystem: true'',
       ''                capabilities:'',
       ''                  drop: [\"ALL\"]'',
       ''              volumeMounts:'',
       ''                - name: tmp'',
       ''                  mountPath: /tmp'',
       ''              command: [\"/bin/sh\", \"-c\"]'',
       ''              args:'',
       ''                - |'',
       indent 18 script,
       ''          volumes:'',
       ''            - name: tmp'',
       ''              emptyDir: {}'',
       '''']"

definition saMergeServiceAccount :: string where "saMergeServiceAccount = ''ai-pullsecret-merger''"
definition saMergeJobNamePrefix :: string where "saMergeJobNamePrefix = ''ai-pullsecret-merge''"
definition saMergeCronSchedule :: string where "saMergeCronSchedule = ''*/5 * * * *''"

text \<open>The name of the Job carries a hash of everything its pod template depends on.\<close>

definition merge_hash :: "string \<Rightarrow> string list \<Rightarrow> string \<Rightarrow> string \<Rightarrow> string" where
  "merge_hash ns sortedNames img script =
     take 10 (hex_encode (sha1 (ns @ [CHR 0x00] @ join '','' sortedNames @ [CHR 0x00] @ img @ [CHR 0x00] @ script)))"

definition buildSAMergeResources :: "string \<Rightarrow> string list \<Rightarrow> string \<Rightarrow> err + string" where
  "buildSAMergeResources ns secretNames img =
     (if ns = '''' then Inl (Err SOther ''namespace required'')
      else if secretNames = [] then Inl (Err SOther ''secretNames required'')
      else if img = '''' then Inl (Err SOther ''image required'')
      else
        (let sortedNames = sort secretNames;
             script = saMergeScriptTemplate ns (join '' '' sortedNames)
         in Inr (saMergeTemplate ns (saMergeJobNamePrefix @ ''-'' @ merge_hash ns sortedNames img script)
              (saMergeJobNamePrefix @ ''-cron'') saMergeCronSchedule saMergeServiceAccount img script)))"

section \<open>Running the script\<close>

text \<open>
  A namespace as the script sees it: its service accounts, and its pods with the mark of a chart. Every
  call of \<open>kubectl\<close> is answered; reading an account that does not exist fails, which ends the
  script (\<open>set -e\<close>). The names have no blanks, so a list of words is the text between them.
\<close>

record merge_ns =
  mn_accounts :: "ServiceAccount list"
  mn_pods :: "(bool \<times> Pod) list"

text \<open>\<open>sort -u\<close>\<close>

definition sort_u :: "string list \<Rightarrow> string list" where "sort_u xs = sort (remdups xs)"

text \<open>
  \<open>EXISTING=$(...)\<close> loses the empty lines at its end, and printing it gives at least one line.
\<close>

definition existing_lines :: "string list \<Rightarrow> string list" where
  "existing_lines xs = (case rev (dropWhile (\<lambda>x. x = '''') (rev xs)) of [] \<Rightarrow> [''''] | ys \<Rightarrow> ys)"

definition merge_account :: "string list \<Rightarrow> ServiceAccount \<Rightarrow> ServiceAccount option" where
  "merge_account desired sa =
     (let existing = existing_lines (sa_ImagePullSecrets sa); union = sort_u (existing @ desired)
      in if union = sort_u existing then None
         else Some (sa\<lparr>sa_ImagePullSecrets := filter (\<lambda>n. n \<noteq> '''') union\<rparr>))"

definition replace_account :: "ServiceAccount \<Rightarrow> ServiceAccount list \<Rightarrow> ServiceAccount list" where
  "replace_account sa sas = map (\<lambda>x. if sa_Name x = sa_Name sa then sa else x) sas"

text \<open>The loop over the account names: \<open>None\<close> is the exit on an account that is not there.\<close>

fun merge_loop :: "string list \<Rightarrow> string list \<Rightarrow> bool \<Rightarrow> ServiceAccount list \<Rightarrow> bool option \<times> ServiceAccount list" where
  "merge_loop desired [] patched sas = (Some patched, sas)"
| "merge_loop desired (n # ns) patched sas =
     (case find (\<lambda>sa. sa_Name sa = n) sas of
        None \<Rightarrow> (None, sas)
      | Some sa \<Rightarrow>
          (case merge_account desired sa of
             None \<Rightarrow> merge_loop desired ns patched sas
           | Some sa' \<Rightarrow> merge_loop desired ns True (replace_account sa' sas)))"

definition merge_run :: "string list \<Rightarrow> merge_ns \<Rightarrow> bool \<times> merge_ns" where
  "merge_run desired st =
     (case merge_loop desired (sort_u (''default'' # map sa_Name (filter sa_Managed (mn_accounts st)))) False (mn_accounts st) of
        (None, sas) \<Rightarrow> (False, st\<lparr>mn_accounts := sas\<rparr>)
      | (Some patched, sas) \<Rightarrow>
          (True, st\<lparr>mn_accounts := sas,
             mn_pods := (if patched then filter (\<lambda>(chart, p). \<not> (chart \<and> isPodImagePullBackOff p)) (mn_pods st)
                         else mn_pods st)\<rparr>))"

section \<open>The script does downstream what the operator does locally\<close>

lemma sort_u_set [simp]: "set (sort_u xs) = set xs"
  by (simp add: sort_u_def)

lemma sort_u_eq: "sort_u xs = sort_u ys \<longleftrightarrow> set xs = set ys"
  by (metis sort_u_set sort_u_def distinct_remdups distinct_sort sorted_distinct_set_unique sorted_sort)

lemma sort_u_distinct [simp]: "distinct (sort_u xs)"
  by (simp add: sort_u_def)

lemma existing_lines_plain: "'''' \<notin> set xs \<Longrightarrow> existing_lines xs = (if xs = [] then [''''] else xs)"
proof -
  assume "'''' \<notin> set xs"
  then have "dropWhile (\<lambda>x. x = '''') (rev xs) = rev xs"
    by (cases "rev xs") (auto simp: dropWhile_eq_self_iff dest: arg_cong [where f = set])
  then show ?thesis by (simp add: existing_lines_def split: list.split)
qed

definition merged_account :: "string list \<Rightarrow> ServiceAccount \<Rightarrow> ServiceAccount" where
  "merged_account desired sa = (case merge_account desired sa of None \<Rightarrow> sa | Some sa' \<Rightarrow> sa')"

lemma merge_account_None:
  assumes "desired \<noteq> []" "'''' \<notin> set desired" "'''' \<notin> set (sa_ImagePullSecrets sa)"
  shows "merge_account desired sa = None \<longleftrightarrow> set desired \<subseteq> set (sa_ImagePullSecrets sa)"
  using assms
  by (cases desired; cases "sa_ImagePullSecrets sa") (auto simp: merge_account_def Let_def sort_u_eq existing_lines_plain)

lemma merged_account_props:
  assumes "desired \<noteq> []" "'''' \<notin> set desired" "'''' \<notin> set (sa_ImagePullSecrets sa)"
  shows "sa_Name (merged_account desired sa) = sa_Name sa" "sa_Managed (merged_account desired sa) = sa_Managed sa"
    "set (sa_ImagePullSecrets (merged_account desired sa)) = set (sa_ImagePullSecrets sa) \<union> set desired"
    "merged_account desired sa = sa \<longleftrightarrow> merge_account desired sa = None"
proof -
  have c: "merge_account desired sa = Some (sa\<lparr>sa_ImagePullSecrets :=
      filter (\<lambda>n. n \<noteq> '''') (sort_u (existing_lines (sa_ImagePullSecrets sa) @ desired))\<rparr>)"
    if "merge_account desired sa \<noteq> None"
    using that by (auto simp: merge_account_def Let_def split: if_splits)
  have st: "set (filter (\<lambda>n. n \<noteq> '''') (sort_u (existing_lines (sa_ImagePullSecrets sa) @ desired)))
      = set (sa_ImagePullSecrets sa) \<union> set desired"
    using assms by (auto simp: existing_lines_plain)
  show "sa_Name (merged_account desired sa) = sa_Name sa" "sa_Managed (merged_account desired sa) = sa_Managed sa"
    using c by (cases "merge_account desired sa"; simp add: merged_account_def)+
  show u: "set (sa_ImagePullSecrets (merged_account desired sa)) = set (sa_ImagePullSecrets sa) \<union> set desired"
    using c st merge_account_None [OF assms]
    by (cases "merge_account desired sa") (auto simp: merged_account_def)
  show "merged_account desired sa = sa \<longleftrightarrow> merge_account desired sa = None"
    using u merge_account_None [OF assms] by (auto simp: merged_account_def)
qed

lemma filter_map_keys:
  "(\<And>x. x \<in> set xs \<Longrightarrow> g (f x) = g x \<and> P (f x) = P x) \<Longrightarrow> map g (filter P (map f xs)) = map g (filter P xs)"
  by (induction xs) auto

lemma find_named:
  "n \<in> set (map sa_Name sas) \<Longrightarrow> \<exists>sa \<in> set sas. find (\<lambda>sa. sa_Name sa = n) sas = Some sa \<and> sa_Name sa = n"
  by (induction sas) auto

definition merge_named :: "string list \<Rightarrow> string set \<Rightarrow> ServiceAccount list \<Rightarrow> ServiceAccount list" where
  "merge_named desired ns sas = map (\<lambda>sa. if sa_Name sa \<in> ns then merged_account desired sa else sa) sas"

lemma merge_named_step:
  assumes "distinct (map sa_Name sas)" "sa \<in> set sas" "sa_Name sa = n" "sa_Name (merged_account desired sa) = n"
  shows "replace_account (merged_account desired sa) sas = merge_named desired {n} sas"
  using assms unfolding replace_account_def merge_named_def
  by (intro map_cong) (auto dest: distinct_map [THEN iffD1, THEN conjunct2, THEN inj_onD])

lemma merge_loop_all:
  assumes "desired \<noteq> []" "'''' \<notin> set desired" "\<forall>sa \<in> set sas. '''' \<notin> set (sa_ImagePullSecrets sa)"
    "distinct (map sa_Name sas)" "distinct ns" "set ns \<subseteq> set (map sa_Name sas)"
  shows "merge_loop desired ns patched sas =
      (Some (patched \<or> merge_named desired (set ns) sas \<noteq> sas), merge_named desired (set ns) sas)"
  using assms
proof (induction ns arbitrary: patched sas)
  case Nil
  then show ?case by (simp add: merge_named_def)
next
  case (Cons n ns)
  note props = merged_account_props [OF Cons.prems(1,2)]
  obtain sa where sa: "sa \<in> set sas" "find (\<lambda>sa. sa_Name sa = n) sas = Some sa" "sa_Name sa = n"
    using find_named [of n sas] Cons.prems(6) by auto
  have nb: "'''' \<notin> set (sa_ImagePullSecrets sa)" using Cons.prems(3) sa(1) by blast
  define sas1 where "sas1 = merge_named desired {n} sas"
  have s1: "sas1 = replace_account (merged_account desired sa) sas"
    unfolding sas1_def using merge_named_step [OF Cons.prems(4) sa(1,3)] props(1) [OF nb] sa(3) by simp
  have names: "map sa_Name sas1 = map sa_Name sas"
    using props(1) Cons.prems(3) by (auto simp: sas1_def merge_named_def)
  have blank: "\<forall>sa \<in> set sas1. '''' \<notin> set (sa_ImagePullSecrets sa)"
    using props(3) Cons.prems(2,3) by (auto simp: sas1_def merge_named_def)
  have nn: "sa_Name (merged_account desired x) \<in> A \<longleftrightarrow> sa_Name x \<in> A" if "x \<in> set sas" for x A
    using props(1) Cons.prems(3) that by simp
  have two: "merge_named desired (set ns) sas1 = merge_named desired (set (n # ns)) sas"
    using Cons.prems(5) nn unfolding sas1_def merge_named_def map_map by (intro map_cong) auto
  have same: "sas1 = sas \<longleftrightarrow> merge_account desired sa = None"
  proof
    assume "sas1 = sas"
    then have "map (\<lambda>sa. if sa_Name sa \<in> {n} then merged_account desired sa else sa) sas = map id sas"
      by (simp add: sas1_def merge_named_def)
    then have "\<forall>x \<in> set sas. (if sa_Name x \<in> {n} then merged_account desired x else x) = x" unfolding map_eq_conv by simp
    then have "merged_account desired sa = sa" using sa(1,3) by (auto dest: bspec [of _ _ sa])
    then show "merge_account desired sa = None" using props(4) [OF nb] by simp
  next
    assume "merge_account desired sa = None"
    then have "merged_account desired sa = sa" by (simp add: merged_account_def)
    then show "sas1 = sas" unfolding s1 using Cons.prems(4) sa(1)
      by (auto simp: replace_account_def intro!: map_idI dest: distinct_map [THEN iffD1, THEN conjunct2, THEN inj_onD])
  qed
  have changed: "merge_named desired (set (n # ns)) sas \<noteq> sas" if "sas1 \<noteq> sas"
  proof -
    have "merged_account desired sa \<noteq> sa" using that same props(4) [OF nb] by simp
    then show ?thesis unfolding merge_named_def using sa(1,3) map_eq_conv [of _ sas id]
      by (auto intro!: bexI [of _ sa])
  qed
  have ih: "merge_loop desired ns p sas1 = (Some (p \<or> merge_named desired (set ns) sas1 \<noteq> sas1), merge_named desired (set ns) sas1)" for p
    using Cons.IH [of sas1 p] Cons.prems(1,2,4,5,6) names blank by simp
  show ?case
  proof (cases "merge_account desired sa")
    case None
    then show ?thesis using sa(2) ih [of patched] two same by simp
  next
    case (Some sa')
    then have "sa' = merged_account desired sa" by (simp add: merged_account_def)
    then show ?thesis using sa(2) ih [of True] two s1 Some changed same by simp
  qed
qed

text \<open>
  C35. The merge script, run in the namespace of a downstream cluster, gives every service account of a
  chart and the default one exactly the entries that the operator's own merge gives a local one, and
  leaves the other accounts alone. Pods that cannot pull their image are deleted only if the run
  changed an account; running it again changes nothing and deletes nothing, so the schedule never
  churns a namespace that has settled.
\<close>

theorem downstream_merge:
  assumes "distinct (map sa_Name (mn_accounts st))" "''default'' \<in> set (map sa_Name (mn_accounts st))"
    and "names \<noteq> []" "'''' \<notin> set names" "\<forall>sa \<in> set (mn_accounts st). '''' \<notin> set (sa_ImagePullSecrets sa)"
    and "merge_run names st = (ok, st')"
  shows "ok
    \<and> list_all2 (\<lambda>sa sa'. sa_Name sa' = sa_Name sa \<and>
          (if sa_Managed sa \<or> sa_Name sa = ''default''
           then set (sa_ImagePullSecrets sa') = set (sa_ImagePullSecrets (fst (mergeImagePullSecrets sa names)))
           else sa' = sa)) (mn_accounts st) (mn_accounts st')
    \<and> mn_pods st' = (if mn_accounts st' = mn_accounts st then mn_pods st
          else filter (\<lambda>(chart, p). \<not> (chart \<and> isPodImagePullBackOff p)) (mn_pods st))
    \<and> merge_run names st' = (True, st')"
proof -
  let ?sas = "mn_accounts st" and ?N = "\<lambda>sas. sort_u (''default'' # map sa_Name (filter sa_Managed sas))"
  let ?sas' = "merge_named names (set (?N ?sas)) ?sas"
  note props = merged_account_props [OF assms(3,4)]
  have sub: "set (?N ?sas) \<subseteq> set (map sa_Name ?sas)" using assms(2) by auto
  have run: "merge_loop names (?N ?sas) False ?sas = (Some (?sas' \<noteq> ?sas), ?sas')"
    using merge_loop_all [OF assms(3,4,5,1) _ sub] by simp
  have st': "ok" "mn_accounts st' = ?sas'"
    "mn_pods st' = (if ?sas' \<noteq> ?sas then filter (\<lambda>(chart, p). \<not> (chart \<and> isPodImagePullBackOff p)) (mn_pods st) else mn_pods st)"
    using assms(6) run by (auto simp: merge_run_def)
  have named: "sa_Name sa \<in> set (?N ?sas) \<longleftrightarrow> sa_Managed sa \<or> sa_Name sa = ''default''" if "sa \<in> set ?sas" for sa
    using that assms(1) by (auto dest: distinct_map [THEN iffD1, THEN conjunct2, THEN inj_onD])
  have keys: "map sa_Name ?sas' = map sa_Name ?sas" "map sa_Managed ?sas' = map sa_Managed ?sas"
    using props(1,2) assms(5) by (auto simp: merge_named_def)
  have "map sa_Name (filter sa_Managed ?sas') = map sa_Name (filter sa_Managed ?sas)"
    unfolding merge_named_def by (rule filter_map_keys) (use props(1,2) assms(5) in auto)
  then have N': "?N ?sas' = ?N ?sas" by simp
  have blank: "\<forall>sa \<in> set ?sas'. '''' \<notin> set (sa_ImagePullSecrets sa)"
    using props(3) assms(4,5) by (auto simp: merge_named_def)
  have fix1: "merged_account names (merged_account names sa) = merged_account names sa" if "sa \<in> set ?sas" for sa
  proof -
    have nb: "'''' \<notin> set (sa_ImagePullSecrets sa)" using that assms(5) by blast
    have nb': "'''' \<notin> set (sa_ImagePullSecrets (merged_account names sa))" using props(3) [OF nb] assms(4) nb by simp
    show ?thesis using props(4) [OF nb'] merge_account_None [OF assms(3,4) nb'] props(3) [OF nb] by simp
  qed
  have again: "merge_named names (set (?N ?sas)) ?sas' = ?sas'"
    using fix1 props(1) assms(5) unfolding merge_named_def map_map by (intro map_cong) auto
  have "merge_loop names (?N ?sas') False ?sas' = (Some False, ?sas')"
  proof -
    have d: "distinct (map sa_Name ?sas')" "set (?N ?sas) \<subseteq> set (map sa_Name ?sas')" using keys(1) assms(1) sub by simp_all
    show ?thesis unfolding N' merge_loop_all [OF assms(3,4) blank d(1) sort_u_distinct d(2)] again by simp
  qed
  then have "merge_run names st' = (True, st')" using st' by (simp add: merge_run_def)
  moreover have "list_all2 (\<lambda>sa sa'. sa_Name sa' = sa_Name sa \<and>
          (if sa_Managed sa \<or> sa_Name sa = ''default''
           then set (sa_ImagePullSecrets sa') = set (sa_ImagePullSecrets (fst (mergeImagePullSecrets sa names)))
           else sa' = sa)) ?sas ?sas'"
  proof -
    have "?sas' = map (\<lambda>sa. if sa_Managed sa \<or> sa_Name sa = ''default'' then merged_account names sa else sa) ?sas"
      unfolding merge_named_def by (intro map_cong refl) (simp only: named)
    then show ?thesis using props(1,3) assms(5)
      by (auto simp: list_all2_conv_all_nth mergeImagePullSecrets_def add_missing_set)
  qed
  ultimately show ?thesis using st' by auto
qed

definition example_downstream_ns :: merge_ns where
  "example_downstream_ns = \<lparr>
     mn_accounts = [\<lparr>sa_Name = ''default'', sa_Managed = False, sa_ImagePullSecrets = [''regcred'']\<rparr>,
                    \<lparr>sa_Name = ''admin'', sa_Managed = False, sa_ImagePullSecrets = []\<rparr>],
     mn_pods = [(True, \<lparr>pod_Name = ''p1'', pod_InitWaiting = [], pod_Waiting = [Some ''ErrImagePull''], pod_Controller = None\<rparr>)]\<rparr>"

theorem downstream_merge_witness:
  "let st' = snd (merge_run [''ngc-secret''] example_downstream_ns)
   in fst (merge_run [''ngc-secret''] example_downstream_ns) \<and> merge_run [''ngc-secret''] st' = (True, st')"
proof -
  obtain ok st' where r: "merge_run [''ngc-secret''] example_downstream_ns = (ok, st')"
    by (cases "merge_run [''ngc-secret''] example_downstream_ns")
  have h: "distinct (map sa_Name (mn_accounts example_downstream_ns))"
    "''default'' \<in> set (map sa_Name (mn_accounts example_downstream_ns))" "[''ngc-secret''] \<noteq> []" "'''' \<notin> set [''ngc-secret'']"
    "\<forall>sa \<in> set (mn_accounts example_downstream_ns). '''' \<notin> set (sa_ImagePullSecrets sa)"
    by (simp_all add: example_downstream_ns_def)
  from downstream_merge [OF h r] show ?thesis by (simp add: r)
qed

end
