(* ===== verification/Frames.thy ===== *)
theory Frames
  imports Injectors
begin

text \<open>
  What the credentials and the injectors leave alone. An observation of the state that none of the five
  calls of a client changes is changed by nothing that is built from them; every store beside the
  secrets, such as those of Fleet, is such an observation.
\<close>

locale client_frame =
  fixes c :: "'s Client" and obs :: "'s \<Rightarrow> 'o"
  assumes get_obs: "obs (snd (GetSecret c ns n s)) = obs s"
    and update_obs: "obs (snd (UpdateSecret c ns n sec s)) = obs s"
    and patch_obs: "obs (snd (PatchSecret c ns n sec s)) = obs s"
    and space_obs: "obs (snd (PatchNamespace c ns s)) = obs s"
    and settings_obs: "obs (snd (GetSettings c s)) = obs s"
begin

lemma ReadPair_obs: "obs (snd (ReadPair c ns u t s)) = obs s"
proof (cases "u = None \<or> t = None")
  case True
  then show ?thesis by (auto simp: ReadPair_def split: option.split)
next
  case False
  then obtain a b where ab: "u = Some a" "t = Some b" by auto
  obtain r1 s1 where g1: "GetSecret c ns (ref_Name a) s = (r1, s1)" by (cases "GetSecret c ns (ref_Name a) s")
  obtain r2 s2 where g2: "GetSecret c ns (ref_Name b) s1 = (r2, s2)" by (cases "GetSecret c ns (ref_Name b) s1")
  show ?thesis using get_obs [of ns "ref_Name a" s] get_obs [of ns "ref_Name b" s1] g1 g2
    by (cases r1; cases r2) (simp_all add: ReadPair_def ab)
qed

lemma discover_obs: "obs (snd (discover_in c ns registry names s)) = obs s"
proof (induction names arbitrary: s)
  case (Cons n names)
  obtain r s1 where g: "GetSecret c ns n s = (r, s1)" by (cases "GetSecret c ns n s")
  have f: "obs s1 = obs s" using get_obs [of ns n s] g by simp
  show ?case
  proof (cases r)
    case (Inr sec)
    define m where "m = (if registry = RegistryNvidia then normalizeNvidiaSecret c ns n sec s1 else (Inr sec, s1))"
    obtain r2 s2 where m: "m = (r2, s2)" by (cases m)
    have "obs s2 = obs s1" using update_obs [of ns n "normalized sec" s1] m
      by (auto simp: m_def normalizeNvidiaSecret_def ret_def split: if_splits)
    then show ?thesis using g Inr Cons.IH [of s2] f m
      by (cases r2) (auto simp: m_def [symmetric] split: option.split)
  qed (use g f Cons.IH [of s1] in simp)
qed simp

lemma creds_obs: "obs (snd (readRegistryCredentials c ns registry eu et s)) = obs s"
proof -
  have d: "obs (snd (discovered_or c ns eu et registry s)) = obs s" for s
    using discover_obs [of ns registry "WellKnownSecretNames registry" s]
    by (cases "discover_in c ns registry (WellKnownSecretNames registry) s")
      (simp add: discovered_or_def discoverRefs_def split: option.split prod.split)
  obtain r s1 where p: "ReadPair c ns eu et s = (r, s1)" by (cases "ReadPair c ns eu et s")
  then have "obs s1 = obs s" using ReadPair_obs [of ns eu et s] by simp
  then have ef: "obs (snd (EffectiveRefs c ns eu et registry s)) = obs s" using d [of s1] d [of s] p
    by (cases r) (auto simp: EffectiveRefs_def split: option.split)
  obtain u t s2 where e: "EffectiveRefs c ns eu et registry s = ((u, t), s2)" by (metis surj_pair)
  then show ?thesis using ef ReadPair_obs [of ns u t s2] by (simp add: readRegistryCredentials_def)
qed

lemma add_auth_obs: "obs (snd (add_auth c ns registry sect host st)) = obs (snd st)"
  using creds_obs [of ns registry "UserSecretRef sect" "TokenSecretRef sect" "snd st"]
  by (auto simp: add_auth_def split: prod.split sum.split option.split)

lemma suse_auths_obs: "obs (snd (addSUSESettingsAuths c ns auths s)) = obs s"
  using settings_obs [of s] by (cases "GetSettings c s") (auto simp: addSUSESettingsAuths_def add_auth_obs split: sum.split)

lemma combined_config_obs: "obs (snd (buildSUSECombinedDockerConfig c ns s)) = obs s"
  using suse_auths_obs [of ns "[]" s]
  by (cases "addSUSESettingsAuths c ns [] s") (simp add: buildSUSECombinedDockerConfig_def)

lemma ngc_config_obs: "obs (snd (buildNGCDockerConfig c ns s)) = obs s"
proof -
  obtain r s1 where g: "GetSettings c s = (r, s1)" by (cases "GetSettings c s")
  then have s1: "obs s1 = obs s" using settings_obs [of s] by simp
  show ?thesis
  proof (cases r)
    case (Inr cf)
    then show ?thesis using s1 g creds_obs [of ns RegistryNvidia "UserSecretRef (set_Nvidia cf)" "TokenSecretRef (set_Nvidia cf)" s1]
      by (auto simp: buildNGCDockerConfig_def split: prod.split sum.split option.split)
  qed (use g s1 in \<open>simp add: buildNGCDockerConfig_def\<close>)
qed

lemma apply_secret_obs: "obs (snd (ApplySecret c ns n sec s)) = obs s"
  using patch_obs [of ns n sec s]
  by (cases "PatchSecret c ns n sec s") (auto simp: ApplySecret_def split: sum.split)

lemma own_auth_obs: "obs (snd (own_auth c info s)) = obs s"
  using get_obs [of "ri_ClientSecretNS info" "ri_ClientSecret info" s]
  by (cases "GetSecret c (ri_ClientSecretNS info) (ri_ClientSecret info) s")
    (auto simp: own_auth_def Let_def split: sum.split)

lemma combined_secret_obs: "obs (snd (ensureCombinedPullSecret c opns ns info wl s)) = obs s"
proof -
  obtain a0 s1 where o: "own_auth c info s = (a0, s1)" by (cases "own_auth c info s")
  obtain a s2 where a: "addSUSESettingsAuths c opns a0 s1 = (a, s2)" by (cases "addSUSESettingsAuths c opns a0 s1")
  obtain rn s3 where n: "PatchNamespace c ns s2 = (rn, s3)" by (cases "PatchNamespace c ns s2")
  obtain rp s4 where p: "ApplySecret c ns combinedPullSecretName (docker_secret (docker_document a)) s3 = (rp, s4)"
    by (cases "ApplySecret c ns combinedPullSecretName (docker_secret (docker_document a)) s3")
  have "obs s1 = obs s" "obs s2 = obs s1" "obs s3 = obs s2" "obs s4 = obs s3"
    using own_auth_obs [of info s] suse_auths_obs [of opns a0 s1] space_obs [of ns s2] apply_secret_obs [of ns combinedPullSecretName _ s3] o a n p
    by (simp, simp, simp) (metis p snd_conv apply_secret_obs)
  then show ?thesis using o a n p
    by (cases rn; cases rp) (simp_all add: ensureCombinedPullSecret_def ensureNamespace_def)
qed

lemma write_ngc_obs: "obs (snd (write_ngc_secrets c ns cfg token s)) = obs s"
proof -
  let ?api = "\<lparr>sec_Type = SecretTypeOpaque, sec_Data = ngcAPISecretData token\<rparr>"
  obtain rn s1 where n: "PatchNamespace c ns s = (rn, s1)" by (cases "PatchNamespace c ns s")
  obtain rp s2 where p: "ApplySecret c ns nvidiaImagePullSecretName (docker_secret cfg) s1 = (rp, s2)"
    by (cases "ApplySecret c ns nvidiaImagePullSecretName (docker_secret cfg) s1")
  obtain ra s3 where a: "ApplySecret c ns nvidiaAPISecretName ?api s2 = (ra, s3)"
    by (cases "ApplySecret c ns nvidiaAPISecretName ?api s2")
  have "obs s1 = obs s" "obs s2 = obs s1" "obs s3 = obs s2"
    using space_obs [of ns s] apply_secret_obs [of ns nvidiaImagePullSecretName "docker_secret cfg" s1]
      apply_secret_obs [of ns nvidiaAPISecretName ?api s2] n p a by simp_all
  then show ?thesis using n p a
    by (cases rn; cases rp; cases ra) (simp_all add: write_ngc_secrets_def ensureNamespace_def)
qed

lemma nvidia_obs: "obs (snd (nvidiaApply c opns ns info wl vals s)) = obs s"
proof -
  obtain rb s1 where b: "buildNGCDockerConfig c opns s = (rb, s1)" by (cases "buildNGCDockerConfig c opns s")
  have s1: "obs s1 = obs s" using ngc_config_obs [of opns s] b by simp
  obtain rg s2 where g: "GetSettings c s1 = (rg, s2)" by (cases "GetSettings c s1")
  have s2: "obs s2 = obs s1" using settings_obs [of s1] g by simp
  show ?thesis
  proof (cases "\<exists>cfg cf. rb = Inr (Some cfg) \<and> rg = Inr cf")
    case False
    then show ?thesis using b g s1 s2 by (auto simp: nvidiaApply_def split: sum.split option.split)
  next
    case True
    then obtain cfg cf where r: "rb = Inr (Some cfg)" "rg = Inr cf" by blast
    obtain rr s3 where rr: "readRegistryCredentials c opns RegistryNvidia (UserSecretRef (set_Nvidia cf)) (TokenSecretRef (set_Nvidia cf)) s2 = (rr, s3)"
      by (cases "readRegistryCredentials c opns RegistryNvidia (UserSecretRef (set_Nvidia cf)) (TokenSecretRef (set_Nvidia cf)) s2")
    have s3: "obs s3 = obs s2"
      using creds_obs [of opns RegistryNvidia "UserSecretRef (set_Nvidia cf)" "TokenSecretRef (set_Nvidia cf)" s2] rr by simp
    have w: "obs s' = obs s3" if "write_ngc_secrets c ns cfg token s3 = (r', s')" for token r' s'
      using write_ngc_obs [of ns cfg token s3] that by simp
    show ?thesis using b g rr r s1 s2 s3
      by (auto simp: nvidiaApply_def split: sum.split option.split prod.split dest: w)
  qed
qed

lemma injector_obs: "obs (snd (injectorFor vendor c opns ns info wl vals s)) = obs s"
proof (cases "vendor = VendorNvidia")
  case True
  then show ?thesis using nvidia_obs by (simp add: injectorFor_def)
next
  case False
  then show ?thesis using combined_secret_obs [of opns ns info wl s]
    by (cases "ensureCombinedPullSecret c opns ns info wl s")
      (auto simp: injectorFor_def suseApply_def split: sum.split option.split)
qed

lemma fleet_auth_obs: "obs (snd (ensureFleetAuthSecret c fleetNS srcNS name s)) = obs s"
proof -
  obtain r s1 where g: "GetSecret c srcNS name s = (r, s1)" by (cases "GetSecret c srcNS name s")
  then have "obs s1 = obs s" using get_obs [of srcNS name s] by simp
  then show ?thesis using g patch_obs by (cases r) (auto simp: ensureFleetAuthSecret_def)
qed

end

end
