(* ===== verification/Delivery.thy ===== *)
theory Delivery
  imports SaMerge Frames
begin

text \<open>
  Delivering pull secrets: \<open>deliverPullSecrets\<close>, the factory that builds the secrets and the
  cleanup of \<open>internal/controller/aiworkload/pullsecrets.go\<close>, and the Fleet bundle that carries the
  secrets to one downstream cluster (\<open>internal/cluster/bundle_client.go\<close>). The YAML documents of a
  bundle are kept as the objects they describe; the manifests of the merge are text. The server that
  stores the bundles is the locale \<open>delivery_client\<close>; deleting a bundle takes effect at once.
\<close>

section \<open>The bundle of one cluster and namespace\<close>

text \<open>A secret with its namespace and name.\<close>

type_synonym NamedSecret = "string \<times> string \<times> Secret"

datatype BundleContent =
    NamespaceYAML string "(string \<times> string) list"
  | SecretYAML NamedSecret
  | TextYAML string

record PullSecretBundle =
  pb_Namespace :: string
  pb_Name :: string
  pb_Labels :: smap
  pb_Resources :: "(string \<times> BundleContent) list"
  pb_ClusterName :: string
  pb_ReleaseName :: string
  pb_TakeOwnership :: bool

record BundleClientOptions =
  opt_ClusterID :: string
  opt_FleetWorkspace :: string
  opt_OwnerName :: string
  opt_OwnerNamespace :: string
  opt_Namespace :: string
  opt_SAMergeImage :: string

record 's BundleAPI =
  PatchBundle :: "PullSecretBundle \<Rightarrow> ('s, unit) act"
  ListBundles :: "smap \<Rightarrow> ('s, PullSecretBundle list) act"
  DeleteBundle :: "string \<Rightarrow> string \<Rightarrow> ('s, unit) act"

definition pullSecretHelmReleaseNameMax :: nat where "pullSecretHelmReleaseNameMax = 53"
definition pullSecretHelmHashLen :: nat where "pullSecretHelmHashLen = 5"

definition pullSecretReleaseName :: "string \<Rightarrow> string" where
  "pullSecretReleaseName name =
     (if length name \<le> pullSecretHelmReleaseNameMax then name
      else (let suffix = take pullSecretHelmHashLen (hex_encode (md5 name));
                headLen = pullSecretHelmReleaseNameMax - pullSecretHelmHashLen - 1;
                separator = (if name ! (headLen - 1) = CHR ''-'' then '''' else ''-'')
            in take headLen name @ separator @ suffix))"

definition pullSecretBundleName :: "string \<Rightarrow> string \<Rightarrow> string \<Rightarrow> string" where
  "pullSecretBundleName owner clusterID ns =
     label63 (''ai-pullsecrets-'' @ owner @ ''-'' @ clusterID @ (if ns \<noteq> '''' then ''-'' @ ns else ''''))"

definition NewBundleClient :: "BundleClientOptions \<Rightarrow> BundleClientOptions" where
  "NewBundleClient opts =
     (if opt_SAMergeImage opts = '''' then opts\<lparr>opt_SAMergeImage := ''registry.suse.com/suse/kubectl:1.35''\<rparr> else opts)"

definition owner_labels :: "string \<Rightarrow> string \<Rightarrow> smap" where
  "owner_labels name ns =
     [''ai-factory.suse.com/owner-name'' \<mapsto> name, ''ai-factory.suse.com/owner-namespace'' \<mapsto> ns]"

text \<open>The bundle that \<open>ApplyPullSecretBundle\<close> writes; without secrets there is none.\<close>

definition bundle_resources :: "string \<Rightarrow> NamedSecret list \<Rightarrow> string \<Rightarrow> (string \<times> BundleContent) list" where
  "bundle_resources ns secrets saMerge =
     (ns @ ''-namespace.yaml'', NamespaceYAML ns [(''helm.sh/resource-policy'', ''keep'')])
     # map (\<lambda>(sns, name, sec). (sns @ ''-'' @ name @ ''.yaml'', SecretYAML (sns, name, sec))) secrets
     @ [(ns @ ''-sa-merge.yaml'', TextYAML saMerge)]"

definition pull_bundle :: "BundleClientOptions \<Rightarrow> NamedSecret list \<Rightarrow> err + PullSecretBundle" where
  "pull_bundle opts secrets =
     (let ns = fst (hd secrets)
      in if ns = '''' then Inl (Err SOther ''ApplyPullSecretBundle: first secret has empty namespace'')
         else if list_ex (\<lambda>sec. fst sec \<noteq> ns) secrets then
           Inl (Err SOther ''ApplyPullSecretBundle: mixed namespaces; a Bundle ships one namespace'')
         else (case buildSAMergeResources ns (map (\<lambda>sec. fst (snd sec)) secrets) (opt_SAMergeImage opts) of
                 Inl e \<Rightarrow> Inl (wrap_err (''build SA-merge resources for ns '' @ ns) e)
               | Inr saMerge \<Rightarrow>
                   (let name = pullSecretBundleName (opt_OwnerName opts) (opt_ClusterID opts) (opt_Namespace opts)
                    in Inr \<lparr>pb_Namespace = opt_FleetWorkspace opts, pb_Name = name,
                         pb_Labels = owner_labels (opt_OwnerName opts) (opt_OwnerNamespace opts),
                         pb_Resources = bundle_resources ns secrets saMerge,
                         pb_ClusterName = opt_ClusterID opts, pb_ReleaseName = pullSecretReleaseName name,
                         pb_TakeOwnership = True\<rparr>)))"

definition ApplyPullSecretBundle :: "'s BundleAPI \<Rightarrow> BundleClientOptions \<Rightarrow> NamedSecret list \<Rightarrow> ('s, unit) act" where
  "ApplyPullSecretBundle bc opts secrets s =
     (if secrets = [] then (Inr (), s)
      else case pull_bundle opts secrets of
             Inl e \<Rightarrow> (Inl e, s)
           | Inr b \<Rightarrow>
               (case PatchBundle bc b s of
                  (Inl e, s1) \<Rightarrow> (Inl (wrap_err (''apply bundle '' @ pb_Namespace b @ ''/'' @ pb_Name b) e), s1)
                | (Inr _, s1) \<Rightarrow> (Inr (), s1)))"

section \<open>Building the secrets\<close>

type_synonym 's PullSecretFactory = "string \<Rightarrow> string \<Rightarrow> ('s, NamedSecret option) act"

definition docker_or_none :: "string \<Rightarrow> string \<Rightarrow> ('s, string option) act \<Rightarrow> ('s, NamedSecret option) act" where
  "docker_or_none ns name build s =
     (case build s of
        (Inl e, s1) \<Rightarrow> (Inl e, s1)
      | (Inr None, s1) \<Rightarrow> (Inr None, s1)
      | (Inr (Some cfg), s1) \<Rightarrow> (Inr (Some (ns, name, docker_secret cfg)), s1))"

definition pullSecretFactory :: "'s Client \<Rightarrow> string \<Rightarrow> 's PullSecretFactory" where
  "pullSecretFactory c opns ns name s =
     (if name = nvidiaImagePullSecretName then docker_or_none ns name (buildNGCDockerConfig c opns) s
      else if name = nvidiaAPISecretName then
        (case GetSettings c s of
           (Inl _, s1) \<Rightarrow> (Inr None, s1)
         | (Inr conf, s1) \<Rightarrow>
             (case readRegistryCredentials c opns RegistryNvidia (UserSecretRef (set_Nvidia conf))
                     (TokenSecretRef (set_Nvidia conf)) s1 of
                (Inl e, s2) \<Rightarrow> (Inl e, s2)
              | (Inr None, s2) \<Rightarrow> (Inr None, s2)
              | (Inr (Some (_, token)), s2) \<Rightarrow>
                  (Inr (Some (ns, name, \<lparr>sec_Type = SecretTypeOpaque, sec_Data = ngcAPISecretData token\<rparr>)), s2)))
      else if name = combinedPullSecretName then docker_or_none ns name (buildSUSECombinedDockerConfig c opns) s
      else (Inr None, s))"

fun build_secrets :: "'s PullSecretFactory \<Rightarrow> string \<Rightarrow> string list \<Rightarrow> ('s, NamedSecret list) act" where
  "build_secrets factory ns [] s = (Inr [], s)"
| "build_secrets factory ns (name # names) s =
     (case factory ns name s of
        (Inl e, s1) \<Rightarrow> (Inl (wrap_err (''build pull secret '' @ name @ '' for '' @ ns) e), s1)
      | (Inr sec, s1) \<Rightarrow>
          (case build_secrets factory ns names s1 of
             (Inl e, s2) \<Rightarrow> (Inl e, s2)
           | (Inr secs, s2) \<Rightarrow> (Inr (case sec of None \<Rightarrow> secs | Some x \<Rightarrow> x # secs), s2)))"

fun build_bundles :: "'s PullSecretFactory \<Rightarrow> PullSecretDelivery list \<Rightarrow> ('s, (string \<times> NamedSecret list) list) act" where
  "build_bundles factory [] s = (Inr [], s)"
| "build_bundles factory (d # ds) s =
     (if psd_Namespace d = '''' then build_bundles factory ds s
      else case build_secrets factory (psd_Namespace d) (psd_Names d) s of
             (Inl e, s1) \<Rightarrow> (Inl e, s1)
           | (Inr secs, s1) \<Rightarrow>
               (case build_bundles factory ds s1 of
                  (Inl e, s2) \<Rightarrow> (Inl e, s2)
                | (Inr bs, s2) \<Rightarrow> (Inr (if secs \<noteq> [] then (psd_Namespace d, secs) # bs else bs), s2)))"

section \<open>Delivering\<close>

definition deliver_local :: "'s Client \<Rightarrow> (string \<times> NamedSecret list) list \<Rightarrow> ('s, unit) act" where
  "deliver_local c bundles = for_each bundles (\<lambda>b. for_each (snd b) (\<lambda>sec s.
     (case ApplySecret c (fst sec) (fst (snd sec)) (snd (snd sec)) s of
        (Inl e, s1) \<Rightarrow> (Inl (wrap_err (''apply pull secret '' @ fst b @ ''/'' @ fst (snd sec) @ '' to local cluster'') e), s1)
      | (Inr _, s1) \<Rightarrow> (Inr (), s1))))"

definition bundle_options :: "AIWorkload \<Rightarrow> string \<Rightarrow> string \<Rightarrow> BundleClientOptions" where
  "bundle_options w clusterID ns = NewBundleClient
     \<lparr>opt_ClusterID = clusterID, opt_FleetWorkspace = ''fleet-default'', opt_OwnerName = wl_Name w,
      opt_OwnerNamespace = wl_Namespace w, opt_Namespace = ns, opt_SAMergeImage = ''''\<rparr>"

definition deliver_bundle :: "'s BundleAPI \<Rightarrow> AIWorkload \<Rightarrow> string \<Rightarrow> string \<times> NamedSecret list \<Rightarrow> ('s, unit) act" where
  "deliver_bundle bc w clusterID b s =
     (case ApplyPullSecretBundle bc (bundle_options w clusterID (fst b)) (snd b) s of
        (Inl e, s1) \<Rightarrow> (Inl (wrap_err (''apply pull-secret bundle to cluster '' @ clusterID @ '' ns '' @ fst b) e), s1)
      | (Inr _, s1) \<Rightarrow> (Inr (), s1))"

definition deliver_downstream :: "'s BundleAPI \<Rightarrow> AIWorkload \<Rightarrow> (string \<times> NamedSecret list) list \<Rightarrow> ('s, unit) act" where
  "deliver_downstream bc w bundles = for_each (TargetClusters (Spec w)) (\<lambda>clusterID.
     if clusterID = '''' \<or> clusterID = ''local'' then ret ()
     else for_each bundles (deliver_bundle bc w clusterID))"

definition deliverPullSecrets :: "'s Client \<Rightarrow> 's BundleAPI \<Rightarrow> AIWorkload \<Rightarrow> 's PullSecretFactory option \<Rightarrow> ('s, unit) act" where
  "deliverPullSecrets c bc w factory s =
     (case factory of
        None \<Rightarrow> (Inr (), s)
      | Some f \<Rightarrow>
          if PullSecretDeliveries (Status w) = [] then (Inr (), s)
          else (case build_bundles f (PullSecretDeliveries (Status w)) s of
                  (Inl e, s1) \<Rightarrow> (Inl e, s1)
                | (Inr bundles, s1) \<Rightarrow>
                    if bundles = [] then (Inr (), s1)
                    else (case (if targetsLocalCluster w then deliver_local c bundles s1 else (Inr (), s1)) of
                            (Inl e, s2) \<Rightarrow> (Inl e, s2)
                          | (Inr _, s2) \<Rightarrow> deliver_downstream bc w bundles s2)))"

definition cleanupPullSecretBundles :: "'s BundleAPI \<Rightarrow> AIWorkload \<Rightarrow> ('s, unit) act" where
  "cleanupPullSecretBundles bc w s =
     (case ListBundles bc (owner_labels (wl_Name w) (wl_Namespace w)) s of
        (Inl e, s1) \<Rightarrow> (Inl (wrap_err (''list pull-secret bundles for '' @ wl_Namespace w @ ''/'' @ wl_Name w) e), s1)
      | (Inr bundles, s1) \<Rightarrow> for_each bundles (\<lambda>b s.
          case DeleteBundle bc (pb_Namespace b) (pb_Name b) s of
            (Inl e, s2) \<Rightarrow> if err_is e = SNotFound then (Inr (), s2)
                          else (Inl (wrap_err (''delete bundle '' @ pb_Namespace b @ ''/'' @ pb_Name b) e), s2)
          | (Inr _, s2) \<Rightarrow> (Inr (), s2)) s1)"

section \<open>The laws of the bundle store\<close>

text \<open>
  \<open>bundles\<close> is the store of bundles, by workspace and name. The two halves of the server do not
  interfere: a call for a bundle leaves the secrets, namespaces and settings alone, and the other way
  round.
\<close>

locale delivery_client = writing_client c look up spaces conf
  for c :: "'s Client" and look :: "'s \<Rightarrow> string \<times> string \<Rightarrow> Secret option" and up :: "'s \<Rightarrow> bool"
    and spaces :: "'s \<Rightarrow> string set" and conf :: "'s \<Rightarrow> SettingsSpec option" +
  fixes bc :: "'s BundleAPI" and bundles :: "'s \<Rightarrow> string \<times> string \<Rightarrow> PullSecretBundle option"
  assumes get_bundles: "bundles (snd (GetSecret c ns n s)) = bundles s"
    and update_bundles: "bundles (snd (UpdateSecret c ns n sec s)) = bundles s"
    and patch_bundles: "bundles (snd (PatchSecret c ns n sec s)) = bundles s"
    and space_bundles: "bundles (snd (PatchNamespace c ns s)) = bundles s"
    and settings_bundles: "bundles (snd (GetSettings c s)) = bundles s"
    and bundle_named: "bundles s k = Some b \<Longrightarrow> k = (pb_Namespace b, pb_Name b)"
    and bundle_patch: "PatchBundle bc b s = (r, s') \<Longrightarrow> look s' = look s \<and> spaces s' = spaces s
        \<and> (bundles s' = (bundles s)((pb_Namespace b, pb_Name b) \<mapsto> b) \<or> isl r \<and> bundles s' = bundles s)"
    and bundle_list: "ListBundles bc ls s = (rl, s') \<Longrightarrow> look s' = look s \<and> bundles s' = bundles s
        \<and> (\<forall>bs b. rl = Inr bs \<longrightarrow> (b \<in> set bs \<longleftrightarrow> (\<exists>k. bundles s k = Some b) \<and> ls \<subseteq>\<^sub>m pb_Labels b))"
    and bundle_delete: "DeleteBundle bc ns n s = (r, s') \<Longrightarrow> look s' = look s
        \<and> (bundles s' = (bundles s)((ns, n) := None) \<or> isl r \<and> bundles s' = bundles s)"
    and bundle_absent: "DeleteBundle bc ns n s = (Inl e, s') \<Longrightarrow> err_is e = SNotFound \<Longrightarrow> bundles s (ns, n) = None"

sublocale delivery_client \<subseteq> keeps: client_frame c bundles
  by unfold_locales (rule get_bundles update_bundles patch_bundles space_bundles settings_bundles)+

context delivery_client begin

text \<open>Building the secrets reads credentials and does nothing else.\<close>

definition reads_creds :: "string \<Rightarrow> 's \<Rightarrow> 's \<Rightarrow> bool" where
  "reads_creds opns s s' \<longleftrightarrow> reads_only look spaces conf opns s s' \<and> bundles s' = bundles s"

lemma reads_creds_refl [simp]: "reads_creds opns s s"
  by (simp add: reads_creds_def)

lemma reads_creds_trans: "reads_creds opns s s' \<Longrightarrow> reads_creds opns s' s'' \<Longrightarrow> reads_creds opns s s''"
  unfolding reads_creds_def using reads_only_trans by metis

lemma settings_reads_creds: "reads_creds opns s (snd (GetSettings c s))"
  by (simp add: reads_creds_def settings_reads settings_bundles)

lemma creds_reads_creds: "reads_creds opns s (snd (readRegistryCredentials c opns registry eu et s))"
  by (simp add: reads_creds_def creds_reads keeps.creds_obs)

lemma ngc_reads_creds: "reads_creds opns s (snd (buildNGCDockerConfig c opns s))"
  by (simp add: reads_creds_def ngc_config_reads keeps.ngc_config_obs)

lemma suse_reads_creds: "reads_creds opns s (snd (buildSUSECombinedDockerConfig c opns s))"
  using suse_auths_reads [of opns s "[]"] keeps.combined_config_obs [of opns s]
  by (cases "addSUSESettingsAuths c opns [] s") (simp add: reads_creds_def buildSUSECombinedDockerConfig_def)

end

text \<open>What a secret of a list of buckets is.\<close>

definition built_from :: "PullSecretDelivery list \<Rightarrow> (string \<times> NamedSecret list) list \<Rightarrow> bool" where
  "built_from ds built \<longleftrightarrow> (\<forall>b \<in> set built. fst b \<noteq> '''' \<and> snd b \<noteq> []
     \<and> (\<exists>d \<in> set ds. psd_Namespace d = fst b \<and> set (map (\<lambda>x. fst (snd x)) (snd b)) \<subseteq> set (psd_Names d))
     \<and> (\<forall>x \<in> set (snd b). fst x = fst b) \<and> distinct (map (\<lambda>x. fst (snd x)) (snd b)))"

context delivery_client begin

lemma factory_step:
  assumes "pullSecretFactory c opns ns name s = (r, s')"
  shows "reads_creds opns s s' \<and> (\<forall>x. r = Inr (Some x) \<longrightarrow> fst x = ns \<and> fst (snd x) = name)"
proof -
  have d: "reads_creds opns s s' \<and> (\<forall>x. r = Inr (Some x) \<longrightarrow> fst x = ns \<and> fst (snd x) = name)"
    if "docker_or_none ns name build s = (r, s')" "reads_creds opns s (snd (build s))" for build
    using that by (cases "build s") (auto simp: docker_or_none_def split: sum.splits option.splits)
  consider "name = nvidiaImagePullSecretName" | "name \<noteq> nvidiaImagePullSecretName" "name = nvidiaAPISecretName"
    | "name \<noteq> nvidiaImagePullSecretName" "name \<noteq> nvidiaAPISecretName" "name = combinedPullSecretName"
    | "name \<noteq> nvidiaImagePullSecretName" "name \<noteq> nvidiaAPISecretName" "name \<noteq> combinedPullSecretName" by blast
  then show ?thesis
  proof cases
    case 1
    then show ?thesis using assms d [of "buildNGCDockerConfig c opns", OF _ ngc_reads_creds] by (simp add: pullSecretFactory_def)
  next
    case 2
    obtain rg s1 where g: "GetSettings c s = (rg, s1)" by (cases "GetSettings c s")
    have s1: "reads_creds opns s s1" using settings_reads_creds [of opns s] g by simp
    show ?thesis
    proof (cases rg)
      case (Inl e)
      then show ?thesis using assms 2 g s1 by (auto simp: pullSecretFactory_def)
    next
      case (Inr cf)
      obtain rr s2 where rr: "readRegistryCredentials c opns RegistryNvidia (UserSecretRef (set_Nvidia cf)) (TokenSecretRef (set_Nvidia cf)) s1 = (rr, s2)"
        by (cases "readRegistryCredentials c opns RegistryNvidia (UserSecretRef (set_Nvidia cf)) (TokenSecretRef (set_Nvidia cf)) s1")
      have "reads_creds opns s s2"
        using reads_creds_trans [OF s1] creds_reads_creds [of opns s1 RegistryNvidia "UserSecretRef (set_Nvidia cf)" "TokenSecretRef (set_Nvidia cf)"] rr by simp
      then show ?thesis using assms 2 g Inr rr by (auto simp: pullSecretFactory_def split: sum.splits option.splits)
    qed
  next
    case 3
    then show ?thesis using assms d [of "buildSUSECombinedDockerConfig c opns", OF _ suse_reads_creds] by (simp add: pullSecretFactory_def)
  qed (use assms in \<open>auto simp: pullSecretFactory_def\<close>)
qed

lemma build_secrets_step:
  "build_secrets (pullSecretFactory c opns) ns names s = (r, s') \<Longrightarrow> reads_creds opns s s'
   \<and> (\<forall>secs. r = Inr secs \<longrightarrow> set (map (\<lambda>x. fst (snd x)) secs) \<subseteq> set names \<and> (\<forall>x \<in> set secs. fst x = ns)
        \<and> (distinct names \<longrightarrow> distinct (map (\<lambda>x. fst (snd x)) secs)))"
proof (induction names arbitrary: s r s')
  case (Cons n names)
  obtain rf s1 where f: "pullSecretFactory c opns ns n s = (rf, s1)" by (cases "pullSecretFactory c opns ns n s")
  note f' = factory_step [OF f]
  show ?case
  proof (cases rf)
    case (Inl e)
    then show ?thesis using Cons.prems f f' by auto
  next
    case (Inr o')
    obtain rb s2 where b: "build_secrets (pullSecretFactory c opns) ns names s1 = (rb, s2)"
      by (cases "build_secrets (pullSecretFactory c opns) ns names s1")
    note ih = Cons.IH [OF b]
    have "s' = s2" using Cons.prems f Inr b by (cases rb) auto
    moreover have "reads_creds opns s s2" using reads_creds_trans f' ih by blast
    moreover have "r = Inr secs \<Longrightarrow> \<exists>rest. rb = Inr rest \<and> secs = (case o' of None \<Rightarrow> rest | Some x \<Rightarrow> x # rest)" for secs
      using Cons.prems f Inr b by (cases rb) auto
    ultimately show ?thesis using ih f' Inr by (fastforce split: option.splits)
  qed
qed simp

lemma build_bundles_step:
  "build_bundles (pullSecretFactory c opns) ds s = (r, s') \<Longrightarrow> \<forall>d \<in> set ds. distinct (psd_Names d) \<Longrightarrow>
   reads_creds opns s s' \<and> (\<forall>built. r = Inr built \<longrightarrow> built_from ds built
      \<and> (distinct (map psd_Namespace ds) \<longrightarrow> distinct (map fst built)))"
proof (induction ds arbitrary: s r s')
  case Nil
  then show ?case by (auto simp: built_from_def)
next
  case (Cons d ds)
  have mono: "built_from ds b \<Longrightarrow> built_from (d # ds) b" for b by (auto simp: built_from_def)
  show ?case
  proof (cases "psd_Namespace d = ''''")
    case True
    then show ?thesis using Cons mono by auto
  next
    case False
    obtain rs s1 where b: "build_secrets (pullSecretFactory c opns) (psd_Namespace d) (psd_Names d) s = (rs, s1)"
      by (cases "build_secrets (pullSecretFactory c opns) (psd_Namespace d) (psd_Names d) s")
    note b' = build_secrets_step [OF b]
    show ?thesis
    proof (cases rs)
      case (Inl e)
      then show ?thesis using Cons.prems False b b' by auto
    next
      case (Inr secs)
      obtain rb s2 where bb: "build_bundles (pullSecretFactory c opns) ds s1 = (rb, s2)"
        by (cases "build_bundles (pullSecretFactory c opns) ds s1")
      note ih = Cons.IH [OF bb]
      have st: "s' = s2" using Cons.prems False b Inr bb by (cases rb) auto
      have res: "r = Inr built \<Longrightarrow> \<exists>rest. rb = Inr rest \<and> built = (if secs \<noteq> [] then (psd_Namespace d, secs) # rest else rest)" for built
        using Cons.prems False b Inr bb by (cases rb) auto
      have head: "built_from (d # ds) ((psd_Namespace d, secs) # rest)" if "secs \<noteq> []" "built_from ds rest" for rest
        using that b' Inr False Cons.prems(2) mono [OF that(2)] by (auto simp: built_from_def)
      have names: "set (map fst rest) \<subseteq> set (map psd_Namespace ds)" if "built_from ds rest" for rest
        using that by (force simp: built_from_def)
      show ?thesis
      proof (intro conjI allI impI)
        show "reads_creds opns s s'" using reads_creds_trans b' ih Cons.prems(2) st by (metis list.set_intros(2))
        fix built assume bu: "r = Inr built"
        obtain rest where rest: "rb = Inr rest" "built = (if secs \<noteq> [] then (psd_Namespace d, secs) # rest else rest)"
          using res [OF bu] by blast
        have ih': "built_from ds rest" "distinct (map psd_Namespace ds) \<longrightarrow> distinct (map fst rest)"
          using ih rest(1) Cons.prems(2) by simp_all
        show "built_from (d # ds) built" using rest(2) head mono ih'(1) by simp
        assume "distinct (map psd_Namespace (d # ds))"
        then show "distinct (map fst built)" using rest(2) ih'(2) names [OF ih'(1)] by auto
      qed
    qed
  qed
qed

end

definition downstream_ids :: "AIWorkload \<Rightarrow> string list" where
  "downstream_ids w = filter (\<lambda>cl. \<not> (cl = '''' \<or> cl = ''local'')) (TargetClusters (Spec w))"

lemma bundle_options_simps [simp]:
  "opt_ClusterID (bundle_options w cl ns) = cl" "opt_FleetWorkspace (bundle_options w cl ns) = ''fleet-default''"
  "opt_OwnerName (bundle_options w cl ns) = wl_Name w" "opt_OwnerNamespace (bundle_options w cl ns) = wl_Namespace w"
  "opt_Namespace (bundle_options w cl ns) = ns"
  by (simp_all add: bundle_options_def NewBundleClient_def)

lemma pull_bundle_key:
  "pull_bundle opts secrets = Inr pb \<Longrightarrow> pb_Namespace pb = opt_FleetWorkspace opts
     \<and> pb_Name pb = pullSecretBundleName (opt_OwnerName opts) (opt_ClusterID opts) (opt_Namespace opts)
     \<and> pb_Labels pb = owner_labels (opt_OwnerName opts) (opt_OwnerNamespace opts)"
  by (auto simp: pull_bundle_def Let_def split: if_splits sum.splits)

context delivery_client begin

lemma deliver_local_step:
  assumes "deliver_local c built s = (Inr (), s')" and "built_from ds built" "distinct (map fst built)"
  shows "(\<forall>b \<in> set built. \<forall>x \<in> set (snd b). sets_secret (snd (snd x)) (look s' (fst x, fst (snd x)))) \<and> bundles s' = bundles s"
proof -
  define body where "body = (\<lambda>(b :: string \<times> NamedSecret list) (sec :: NamedSecret) s.
     (case ApplySecret c (fst sec) (fst (snd sec)) (snd (snd sec)) s of
        (Inl e, s1) \<Rightarrow> (Inl (wrap_err (''apply pull secret '' @ fst b @ ''/'' @ fst (snd sec) @ '' to local cluster'') e), s1)
      | (Inr _, s1) \<Rightarrow> (Inr (), s1)))"
  define xs where "xs = concat (map (\<lambda>b. map (Pair b) (snd b)) built)"
  have mem: "(b, x) \<in> set xs \<longleftrightarrow> b \<in> set built \<and> x \<in> set (snd b)" for b x by (auto simp: xs_def)
  have run: "for_each xs (\<lambda>(b, x). body b x) s = (Inr (), s')"
    using assms(1) unfolding deliver_local_def body_def [symmetric] for_each_nested xs_def .
  have bnd: "bundles (snd (body b x s)) = bundles s" for b x s
  proof -
    obtain r s1 where a: "PatchSecret c (fst x) (fst (snd x)) (snd (snd x)) s = (r, s1)"
      by (cases "PatchSecret c (fst x) (fst (snd x)) (snd (snd x)) s")
    then show ?thesis using patch_bundles [of "fst x" "fst (snd x)" "snd (snd x)" s]
      by (cases r) (simp_all add: body_def ApplySecret_def)
  qed
  have b: "bundles (snd (for_each xs (\<lambda>(b, x). body b x) s)) = bundles s"
    by (rule for_each_inv) (simp_all add: bnd split: prod.split)
  have "(\<forall>bx \<in> set xs. sets_secret (snd (snd (snd bx))) (look s' (fst (snd bx), fst (snd (snd bx)))))
      \<and> (\<forall>k. k \<notin> (\<lambda>bx. (fst (snd bx), fst (snd (snd bx)))) ` set xs \<longrightarrow> look s' k = look s k)"
  proof (rule for_each_sets [OF run])
    fix bx s0 s1 assume st: "(\<lambda>(b, x). body b x) bx s0 = (Inr (), s1)"
    obtain b ns n sec where bx: "bx = (b, ns, n, sec)" by (metis surj_pair)
    obtain r s2 where a: "ApplySecret c ns n sec s0 = (r, s2)" by (cases "ApplySecret c ns n sec s0")
    then have "r = Inr ()" "s2 = s1" using st bx by (cases r; simp add: body_def)+
    then show "sets_secret (snd (snd (snd bx))) (look s1 (fst (snd bx), fst (snd (snd bx))))
        \<and> (\<forall>k. k \<noteq> (fst (snd bx), fst (snd (snd bx))) \<longrightarrow> look s1 k = look s0 k)"
      using apply_step [OF a] bx by simp
  next
    fix bx by' assume m: "bx \<in> set xs" "by' \<in> set xs"
      and k: "(fst (snd bx), fst (snd (snd bx))) = (fst (snd by'), fst (snd (snd by')))"
    obtain b x where bx: "bx = (b, x)" by (cases bx)
    obtain b' x' where by': "by' = (b', x')" by (cases by')
    have in1: "b \<in> set built" "x \<in> set (snd b)" "b' \<in> set built" "x' \<in> set (snd b')" using m mem bx by' by auto
    have "fst b = fst b'" using assms(2) in1 k bx by' by (auto simp: built_from_def)
    then have "b = b'" using assms(3) in1 by (auto dest: distinct_map [THEN iffD1, THEN conjunct2, THEN inj_onD])
    moreover have "distinct (map (\<lambda>x. fst (snd x)) (snd b))" using assms(2) in1 by (simp add: built_from_def)
    ultimately have "x = x'" using in1 k bx by' by (auto dest: distinct_map [THEN iffD1, THEN conjunct2, THEN inj_onD])
    then show "sets_secret (snd (snd (snd bx))) = sets_secret (snd (snd (snd by')))" using bx by' by simp
  qed
  then have w: "\<And>bx. bx \<in> set xs \<Longrightarrow> sets_secret (snd (snd (snd bx))) (look s' (fst (snd bx), fst (snd (snd bx))))" by blast
  have "sets_secret (snd (snd x)) (look s' (fst x, fst (snd x)))" if "b \<in> set built" "x \<in> set (snd b)" for b x
    using w [of "(b, x)"] that mem by simp
  then show ?thesis using b run by simp
qed

lemma deliver_bundle_step:
  assumes "deliver_bundle bc w cl b s = (r, s')"
  shows "look s' = look s"
    and "r = Inr () \<Longrightarrow> snd b \<noteq> [] \<Longrightarrow> \<exists>pb. pull_bundle (bundle_options w cl (fst b)) (snd b) = Inr pb
      \<and> bundles s' = (bundles s)((''fleet-default'', pullSecretBundleName (wl_Name w) cl (fst b)) \<mapsto> pb)"
proof -
  define pb where "pb = pull_bundle (bundle_options w cl (fst b)) (snd b)"
  have "look s' = look s \<and> (r = Inr () \<longrightarrow> snd b \<noteq> [] \<longrightarrow> (\<exists>x. pb = Inr x
      \<and> bundles s' = (bundles s)((''fleet-default'', pullSecretBundleName (wl_Name w) cl (fst b)) \<mapsto> x)))"
  proof (cases "snd b = [] \<or> isl pb")
    case True
    then show ?thesis using assms by (cases pb) (auto simp: deliver_bundle_def ApplyPullSecretBundle_def pb_def split: if_splits)
  next
    case False
    then obtain x where x: "pb = Inr x" by (cases pb) auto
    obtain rp s1 where p: "PatchBundle bc x s = (rp, s1)" by (cases "PatchBundle bc x s")
    have "s' = s1" "r = Inr () \<Longrightarrow> \<not> isl rp" using assms False x p
      by (cases rp; auto simp: deliver_bundle_def ApplyPullSecretBundle_def pb_def)+
    then show ?thesis using bundle_patch [OF p] x pull_bundle_key [OF x [unfolded pb_def]] by auto
  qed
  then show "look s' = look s"
    and "r = Inr () \<Longrightarrow> snd b \<noteq> [] \<Longrightarrow> \<exists>pb. pull_bundle (bundle_options w cl (fst b)) (snd b) = Inr pb
      \<and> bundles s' = (bundles s)((''fleet-default'', pullSecretBundleName (wl_Name w) cl (fst b)) \<mapsto> pb)"
    by (simp_all add: pb_def)
qed

lemma deliver_downstream_step:
  assumes "deliver_downstream bc w built s = (Inr (), s')" and "built_from ds built" "distinct (map fst built)"
    and "inj_on (\<lambda>(cl, ns). pullSecretBundleName (wl_Name w) cl ns) (set (downstream_ids w) \<times> set (map fst built))"
  shows "look s' = look s
    \<and> (\<forall>cl \<in> set (downstream_ids w). \<forall>b \<in> set built. \<exists>pb. pull_bundle (bundle_options w cl (fst b)) (snd b) = Inr pb
        \<and> bundles s' (''fleet-default'', pullSecretBundleName (wl_Name w) cl (fst b)) = Some pb)
    \<and> (\<forall>k. (\<forall>cl \<in> set (downstream_ids w). \<forall>b \<in> set built. k \<noteq> (''fleet-default'', pullSecretBundleName (wl_Name w) cl (fst b)))
        \<longrightarrow> bundles s' k = bundles s k)"
proof -
  define xs where "xs = concat (map (\<lambda>cl. map (Pair cl) built) (downstream_ids w))"
  define key where "key = (\<lambda>(cl, b :: string \<times> NamedSecret list). (''fleet-default'', pullSecretBundleName (wl_Name w) cl (fst b)))"
  define Q where "Q = (\<lambda>(cl, b) v. \<exists>pb. pull_bundle (bundle_options w cl (fst b)) (snd b) = Inr pb \<and> v = Some pb)"
  have mem: "(cl, b) \<in> set xs \<longleftrightarrow> cl \<in> set (downstream_ids w) \<and> b \<in> set built" for cl b by (auto simp: xs_def)
  have run: "for_each xs (\<lambda>(cl, b). deliver_bundle bc w cl b) s = (Inr (), s')"
    using assms(1) unfolding deliver_downstream_def for_each_skip downstream_ids_def [symmetric] for_each_nested xs_def .
  have look: "look (snd (for_each xs (\<lambda>(cl, b). deliver_bundle bc w cl b) s)) = look s"
  proof (rule for_each_inv)
    fix x :: "string \<times> string \<times> NamedSecret list" and s0 assume l: "look s0 = look s"
    obtain cl b where x: "x = (cl, b)" by (cases x)
    show "look (snd ((\<lambda>(cl, b). deliver_bundle bc w cl b) x s0)) = look s"
      using deliver_bundle_step(1) [OF prod.collapse [symmetric], of w cl b s0] l x by simp
  qed simp
  have "(\<forall>x \<in> set xs. Q x (bundles s' (key x))) \<and> (\<forall>k. k \<notin> key ` set xs \<longrightarrow> bundles s' k = bundles s k)"
  proof (rule for_each_sets [OF run])
    fix x s0 s1 assume m: "x \<in> set xs" and st: "(\<lambda>(cl, b). deliver_bundle bc w cl b) x s0 = (Inr (), s1)"
    obtain cl b where x: "x = (cl, b)" by (cases x)
    have "snd b \<noteq> []" using m x mem assms(2) by (simp add: built_from_def)
    then show "Q x (bundles s1 (key x)) \<and> (\<forall>k. k \<noteq> key x \<longrightarrow> bundles s1 k = bundles s0 k)"
      using deliver_bundle_step(2) [of w cl b s0 "Inr ()" s1] st x by (auto simp: Q_def key_def)
  next
    fix x y assume m: "x \<in> set xs" "y \<in> set xs" and k: "key x = key y"
    obtain cl b where x: "x = (cl, b)" by (cases x)
    obtain cl' b' where y: "y = (cl', b')" by (cases y)
    have "(cl, fst b) = (cl', fst b')"
      by (rule inj_onD [OF assms(4)]) (use m k x y mem in \<open>auto simp: key_def\<close>)
    then have "b = b'" using assms(3) m x y mem by (auto dest: distinct_map [THEN iffD1, THEN conjunct2, THEN inj_onD])
    then show "Q x = Q y" using \<open>(cl, fst b) = (cl', fst b')\<close> x y by simp
  qed
  then have fin: "\<And>x. x \<in> set xs \<Longrightarrow> Q x (bundles s' (key x))" "\<And>k. k \<notin> key ` set xs \<Longrightarrow> bundles s' k = bundles s k"
    by blast+
  show ?thesis
  proof (intro conjI ballI allI impI)
    show "look s' = look s" using look run by simp
    fix cl b assume "cl \<in> set (downstream_ids w)" "b \<in> set built"
    then show "\<exists>pb. pull_bundle (bundle_options w cl (fst b)) (snd b) = Inr pb
        \<and> bundles s' (''fleet-default'', pullSecretBundleName (wl_Name w) cl (fst b)) = Some pb"
      using fin(1) [of "(cl, b)"] mem by (auto simp: Q_def key_def)
  next
    fix k assume "\<forall>cl \<in> set (downstream_ids w). \<forall>b \<in> set built. k \<noteq> (''fleet-default'', pullSecretBundleName (wl_Name w) cl (fst b))"
    then have ne: "k \<noteq> key (cl, b)" if "(cl, b) \<in> set xs" for cl b
      using that unfolding mem key_def prod.case by blast
    have "k \<notin> key ` set xs"
    proof
      assume "k \<in> key ` set xs"
      then obtain x where x: "k = key x" "x \<in> set xs" by blast
      then show False using ne [of "fst x" "snd x"] unfolding prod.collapse by blast
    qed
    then show "bundles s' k = bundles s k" by (rule fin(2))
  qed
qed

end


context delivery_client begin

lemma cleanup_step:
  assumes "cleanupPullSecretBundles bc w s = (Inr (), s')"
  shows "bundles s' k = (case bundles s k of None \<Rightarrow> None
      | Some b \<Rightarrow> if owner_labels (wl_Name w) (wl_Namespace w) \<subseteq>\<^sub>m pb_Labels b then None else Some b)"
    and "look s' = look s"
proof -
  let ?ls = "owner_labels (wl_Name w) (wl_Namespace w)"
  define body where "body = (\<lambda>(b :: PullSecretBundle) s. case DeleteBundle bc (pb_Namespace b) (pb_Name b) s of
            (Inl e, s2) \<Rightarrow> if err_is e = SNotFound then (Inr (), s2)
                          else (Inl (wrap_err (''delete bundle '' @ pb_Namespace b @ ''/'' @ pb_Name b) e), s2)
          | (Inr _, s2) \<Rightarrow> (Inr (), s2))"
  obtain rl s1 where l: "ListBundles bc ?ls s = (rl, s1)" by (cases "ListBundles bc ?ls s")
  then obtain bs where bs: "rl = Inr bs" using assms by (cases rl) (simp_all add: cleanupPullSecretBundles_def)
  have run: "for_each bs body s1 = (Inr (), s')"
    using assms l bs by (simp add: cleanupPullSecretBundles_def body_def)
  note l' = bundle_list [OF l]
  have step: "look s2 = look s0 \<and> (r = Inr () \<longrightarrow> bundles s2 = (bundles s0)((pb_Namespace b, pb_Name b) := None))"
    if "body b s0 = (r, s2)" for b s0 s2 r
  proof -
    obtain rd s3 where d: "DeleteBundle bc (pb_Namespace b) (pb_Name b) s0 = (rd, s3)"
      by (cases "DeleteBundle bc (pb_Namespace b) (pb_Name b) s0")
    show ?thesis
    proof (cases rd)
      case (Inl e)
      have "err_is e = SNotFound \<Longrightarrow> (bundles s0)((pb_Namespace b, pb_Name b) := None) = bundles s0"
        using bundle_absent [OF d [unfolded Inl]] by auto
      then show ?thesis using that d Inl bundle_delete [OF d] by (auto simp: body_def split: if_splits)
    qed (use that d bundle_delete [OF d] in \<open>auto simp: body_def\<close>)
  qed
  have "look (snd (for_each bs body s1)) = look s1"
    by (rule for_each_inv) (simp_all add: step [OF prod.collapse [symmetric], THEN conjunct1])
  then show "look s' = look s" using run l' by simp
  have fin: "(\<forall>x \<in> set bs. bundles s' (pb_Namespace x, pb_Name x) = None)
      \<and> (\<forall>k. k \<notin> (\<lambda>b. (pb_Namespace b, pb_Name b)) ` set bs \<longrightarrow> bundles s' k = bundles s1 k)"
    by (rule for_each_sets [OF run]) (auto dest: step)
  have listed: "x \<in> set bs \<longleftrightarrow> (\<exists>k. bundles s k = Some x) \<and> ?ls \<subseteq>\<^sub>m pb_Labels x" for x
    using l' bs by simp
  show "bundles s' k = (case bundles s k of None \<Rightarrow> None | Some b \<Rightarrow> if ?ls \<subseteq>\<^sub>m pb_Labels b then None else Some b)"
  proof (cases "k \<in> (\<lambda>b. (pb_Namespace b, pb_Name b)) ` set bs")
    case True
    then obtain b where b: "b \<in> set bs" "k = (pb_Namespace b, pb_Name b)" by blast
    then obtain k' where "bundles s k' = Some b" "?ls \<subseteq>\<^sub>m pb_Labels b" using listed by blast
    then have "bundles s k = Some b" using bundle_named b(2) by metis
    then show ?thesis using fin b \<open>?ls \<subseteq>\<^sub>m pb_Labels b\<close> by simp
  next
    case False
    have "\<not> ?ls \<subseteq>\<^sub>m pb_Labels b" if "bundles s k = Some b" for b
      using that False listed [of b] bundle_named [OF that] by auto
    moreover have "bundles s' k = bundles s k" using conjunct2 [OF fin, rule_format, OF False] l' by simp
    ultimately show ?thesis by (cases "bundles s k") simp_all
  qed
qed

end

text \<open>
  Deleting a workload removes exactly the bundles that carry its name and namespace as owner. But the
  name of a bundle does not contain the workload's namespace: two workloads of one name in different
  namespaces share the bundle of a cluster and target namespace, the last one to deliver owns it, and
  its deletion takes away the secrets the other one still needs.
\<close>

theorem cleanup_takes_shared_bundle:
  assumes "delivery_client c look up spaces conf bc bundles"
    and "cleanupPullSecretBundles bc w s = (Inr (), s')"
  shows "look s' = look s \<and> bundles s' = (\<lambda>k. case bundles s k of None \<Rightarrow> None
      | Some b \<Rightarrow> if owner_labels (wl_Name w) (wl_Namespace w) \<subseteq>\<^sub>m pb_Labels b then None else Some b)
    \<and> (\<forall>w' cl b s0. wl_Name w' = wl_Name w \<and> snd b \<noteq> [] \<and> deliver_bundle bc w cl b s0 = (Inr (), s)
        \<longrightarrow> bundles s' (''fleet-default'', pullSecretBundleName (wl_Name w') cl (fst b)) = None)"
proof (intro conjI allI impI)
  show "look s' = look s" by (rule delivery_client.cleanup_step(2) [OF assms])
  show "bundles s' = (\<lambda>k. case bundles s k of None \<Rightarrow> None
      | Some b \<Rightarrow> if owner_labels (wl_Name w) (wl_Namespace w) \<subseteq>\<^sub>m pb_Labels b then None else Some b)"
    by (rule ext) (rule delivery_client.cleanup_step(1) [OF assms])
  fix w' cl b s0 assume h: "wl_Name w' = wl_Name w \<and> snd b \<noteq> [] \<and> deliver_bundle bc w cl b s0 = (Inr (), s)"
  then obtain pb where pb: "pull_bundle (bundle_options w cl (fst b)) (snd b) = Inr pb"
    "bundles s (''fleet-default'', pullSecretBundleName (wl_Name w) cl (fst b)) = Some pb"
    using delivery_client.deliver_bundle_step(2) [OF assms(1), of w cl b s0 "Inr ()" s] by auto
  then show "bundles s' (''fleet-default'', pullSecretBundleName (wl_Name w') cl (fst b)) = None"
    using delivery_client.cleanup_step(1) [OF assms] pull_bundle_key [OF pb(1)] h by simp
qed

section \<open>An in-memory server\<close>

text \<open>The cluster of \<open>Credentials\<close> with a store of bundles; both follow the one schedule of faults.\<close>

type_synonym world = "cluster \<times> PullSecretBundle list"

definition on_cluster :: "(cluster, 'a) act \<Rightarrow> (world, 'a) act" where
  "on_cluster f s = (fst (f (fst s)), (snd (f (fst s)), snd s))"

definition world_client :: "world Client" where
  "world_client = \<lparr>
     GetSecret = (\<lambda>ns n. on_cluster (GetSecret cluster_client ns n)),
     UpdateSecret = (\<lambda>ns n sec. on_cluster (UpdateSecret cluster_client ns n sec)),
     PatchSecret = (\<lambda>ns n sec. on_cluster (PatchSecret cluster_client ns n sec)),
     PatchNamespace = (\<lambda>ns. on_cluster (PatchNamespace cluster_client ns)),
     GetSettings = on_cluster (GetSettings cluster_client)\<rparr>"

definition bundle_key :: "PullSecretBundle \<Rightarrow> string \<times> string" where
  "bundle_key b = (pb_Namespace b, pb_Name b)"

definition world_bundles :: "world \<Rightarrow> string \<times> string \<Rightarrow> PullSecretBundle option" where
  "world_bundles s k = find (\<lambda>b. bundle_key b = k) (snd s)"

definition world_call :: "(PullSecretBundle list \<Rightarrow> (err + 'a) \<times> PullSecretBundle list) \<Rightarrow> (world, 'a) act" where
  "world_call f s =
     (let s0 = (fst s)\<lparr>cl_faults := tl (cl_faults (fst s))\<rparr>
      in case cl_faults (fst s) of
           Some (True, e) # _ \<Rightarrow> (Inl (Err SOther e), (s0, snd (f (snd s))))
         | Some (False, e) # _ \<Rightarrow> (Inl (Err SOther e), (s0, snd s))
         | _ \<Rightarrow> (fst (f (snd s)), (s0, snd (f (snd s)))))"

definition world_api :: "world BundleAPI" where
  "world_api = \<lparr>
     PatchBundle = (\<lambda>b. world_call (\<lambda>bs. (Inr (), b # filter (\<lambda>x. bundle_key x \<noteq> bundle_key b) bs))),
     ListBundles = (\<lambda>ls. world_call (\<lambda>bs. (Inr (filter (\<lambda>b. find (\<lambda>x. bundle_key x = bundle_key b) bs = Some b \<and> ls \<subseteq>\<^sub>m pb_Labels b) bs), bs))),
     DeleteBundle = (\<lambda>ns n. world_call (\<lambda>bs. if find (\<lambda>b. bundle_key b = (ns, n)) bs = None then (Inl not_found, bs)
        else (Inr (), filter (\<lambda>x. bundle_key x \<noteq> (ns, n)) bs)))\<rparr>"

lemma world_simps:
  "GetSecret world_client ns n s = on_cluster (GetSecret cluster_client ns n) s"
  "UpdateSecret world_client ns n sec s = on_cluster (UpdateSecret cluster_client ns n sec) s"
  "PatchSecret world_client ns n sec s = on_cluster (PatchSecret cluster_client ns n sec) s"
  "PatchNamespace world_client ns s = on_cluster (PatchNamespace cluster_client ns) s"
  "GetSettings world_client s = on_cluster (GetSettings cluster_client) s"
  by (simp_all add: world_client_def)

lemma on_cluster_iff: "on_cluster f s = (r, s') \<longleftrightarrow> f (fst s) = (r, fst s') \<and> snd s' = snd s"
  by (auto simp: on_cluster_def prod_eq_iff)

lemma on_cluster_parts [simp]:
  "fst (on_cluster f s) = fst (f (fst s))" "fst (snd (on_cluster f s)) = snd (f (fst s))" "snd (snd (on_cluster f s)) = snd s"
  by (simp_all add: on_cluster_def)

lemma world_call_cases:
  assumes "world_call f s = (r, s')"
  shows "cl_secrets (fst s') = cl_secrets (fst s) \<and> cl_namespaces (fst s') = cl_namespaces (fst s)
    \<and> (r = fst (f (snd s)) \<and> snd s' = snd (f (snd s))
        \<or> (\<exists>e. r = Inl (Err SOther e)) \<and> (snd s' = snd s \<or> snd s' = snd (f (snd s))))"
  using assms by (auto simp: world_call_def Let_def split: list.splits option.splits bool.splits)

lemma find_filter_keys:
  "find (\<lambda>b. bundle_key b = k) (filter (\<lambda>x. bundle_key x \<noteq> k') bs) = (if k = k' then None else find (\<lambda>b. bundle_key b = k) bs)"
  by (induction bs) auto

lemma find_key: "find (\<lambda>b. bundle_key b = k) bs = Some b \<Longrightarrow> bundle_key b = k \<and> b \<in> set bs"
  by (auto simp: find_Some_iff)

lemma find_some_key:
  "(\<exists>k. find (\<lambda>b. bundle_key b = k) bs = Some b) \<longleftrightarrow> b \<in> set bs \<and> find (\<lambda>x. bundle_key x = bundle_key b) bs = Some b"
  using find_key by metis

interpretation dl: delivery_client world_client "\<lambda>s. cl_secrets (fst s)" "\<lambda>s. no_faults (fst s)"
    "\<lambda>s. set (cl_namespaces (fst s))" "\<lambda>s. cl_settings (fst s)" world_api world_bundles
proof unfold_locales
  fix ns n s sec r s' sec' e ls rl k b
  show "cl_secrets (fst (snd (GetSecret world_client ns n s))) = cl_secrets (fst s)"
    using cl.get_look by (simp add: world_simps)
  show "GetSecret world_client ns n s = (Inr sec, s') \<Longrightarrow> cl_secrets (fst s) (ns, n) = Some sec"
    using cl.get_ok by (simp add: world_simps on_cluster_iff)
  show "GetSecret world_client ns n s = (Inl e, s') \<Longrightarrow> err_is e = SNotFound \<Longrightarrow> cl_secrets (fst s) (ns, n) = None"
    using cl.get_absent by (auto simp: world_simps on_cluster_iff)
  show "no_faults (fst s) \<Longrightarrow> no_faults (fst (snd (GetSecret world_client ns n s)))
      \<and> (case fst (GetSecret world_client ns n s) of Inl e \<Rightarrow> err_is e = SNotFound | Inr _ \<Rightarrow> True)"
    using cl.get_up by (simp add: world_simps)
  show "UpdateSecret world_client ns n sec s = (Inr sec', s') \<Longrightarrow>
      sec' = sec \<and> cl_secrets (fst s') = (cl_secrets (fst s))((ns, n) \<mapsto> sec)"
    unfolding world_simps on_cluster_iff by (elim conjE) (rule cl.update_ok)
  show "UpdateSecret world_client ns n sec s = (Inl e, s') \<Longrightarrow>
      cl_secrets (fst s') = cl_secrets (fst s) \<or> cl_secrets (fst s') = (cl_secrets (fst s))((ns, n) \<mapsto> sec)"
    unfolding world_simps on_cluster_iff by (elim conjE) (rule cl.update_err)
  show "no_faults (fst s) \<Longrightarrow> cl_secrets (fst s) (ns, n) \<noteq> None \<Longrightarrow>
      no_faults (fst (snd (UpdateSecret world_client ns n sec s))) \<and> \<not> isl (fst (UpdateSecret world_client ns n sec s))"
    using cl.update_up by (simp add: world_simps)
  show "set (cl_namespaces (fst (snd (GetSecret world_client ns n s)))) = set (cl_namespaces (fst s))
      \<and> cl_settings (fst (snd (GetSecret world_client ns n s))) = cl_settings (fst s)"
    using cl.get_frame by (simp add: world_simps)
  show "set (cl_namespaces (fst (snd (UpdateSecret world_client ns n sec s)))) = set (cl_namespaces (fst s))
      \<and> cl_settings (fst (snd (UpdateSecret world_client ns n sec s))) = cl_settings (fst s)"
    using cl.update_frame by (simp add: world_simps)
  show "cl_secrets (fst (snd (GetSettings world_client s))) = cl_secrets (fst s)
      \<and> set (cl_namespaces (fst (snd (GetSettings world_client s)))) = set (cl_namespaces (fst s))
      \<and> cl_settings (fst (snd (GetSettings world_client s))) = cl_settings (fst s)"
    using cl.settings_frame by (simp add: world_simps)
  show "no_faults (fst s) \<Longrightarrow> no_faults (fst (snd (GetSettings world_client s)))
      \<and> (case cl_settings (fst s) of None \<Rightarrow> isl (fst (GetSettings world_client s))
         | Some st \<Rightarrow> fst (GetSettings world_client s) = Inr st)"
    unfolding world_simps on_cluster_parts by (rule cl.settings_up)
  show "PatchNamespace world_client ns s = (r, s') \<Longrightarrow> cl_secrets (fst s') = cl_secrets (fst s)
      \<and> cl_settings (fst s') = cl_settings (fst s)
      \<and> (set (cl_namespaces (fst s')) = insert ns (set (cl_namespaces (fst s))) \<or> isl r \<and> set (cl_namespaces (fst s')) = set (cl_namespaces (fst s)))"
    unfolding world_simps on_cluster_iff by (elim conjE) (rule cl.space_step)
  show "no_faults (fst s) \<Longrightarrow> no_faults (fst (snd (PatchNamespace world_client ns s))) \<and> \<not> isl (fst (PatchNamespace world_client ns s))"
    using cl.space_up by (simp add: world_simps)
  show "PatchSecret world_client ns n sec s = (r, s') \<Longrightarrow> set (cl_namespaces (fst s')) = set (cl_namespaces (fst s))
      \<and> cl_settings (fst s') = cl_settings (fst s) \<and> (\<forall>k. k \<noteq> (ns, n) \<longrightarrow> cl_secrets (fst s') k = cl_secrets (fst s) k)
      \<and> (sets_secret sec (cl_secrets (fst s') (ns, n)) \<or> isl r \<and> cl_secrets (fst s') (ns, n) = cl_secrets (fst s) (ns, n))"
    unfolding world_simps on_cluster_iff by (elim conjE) (rule cl.patch_step)
  show "no_faults (fst s) \<Longrightarrow> no_faults (fst (snd (PatchSecret world_client ns n sec s)))
      \<and> (ns \<in> set (cl_namespaces (fst s)) \<longrightarrow> \<not> isl (fst (PatchSecret world_client ns n sec s)))"
    using cl.patch_up by (simp add: world_simps)
  show "world_bundles (snd (GetSecret world_client ns n s)) = world_bundles s"
    "world_bundles (snd (UpdateSecret world_client ns n sec s)) = world_bundles s"
    "world_bundles (snd (PatchSecret world_client ns n sec s)) = world_bundles s"
    "world_bundles (snd (PatchNamespace world_client ns s)) = world_bundles s"
    "world_bundles (snd (GetSettings world_client s)) = world_bundles s"
    by (simp_all add: world_simps world_bundles_def fun_eq_iff)
  show "world_bundles s k = Some b \<Longrightarrow> k = (pb_Namespace b, pb_Name b)"
    using find_key [of k "snd s" b] by (simp add: world_bundles_def bundle_key_def)
  have key: "(pb_Namespace b, pb_Name b) = bundle_key b" for b by (simp add: bundle_key_def)
  show "PatchBundle world_api b s = (r, s') \<Longrightarrow> cl_secrets (fst s') = cl_secrets (fst s)
      \<and> set (cl_namespaces (fst s')) = set (cl_namespaces (fst s))
      \<and> (world_bundles s' = (world_bundles s)((pb_Namespace b, pb_Name b) \<mapsto> b) \<or> isl r \<and> world_bundles s' = world_bundles s)"
    using world_call_cases [of "\<lambda>bs. (Inr (), b # filter (\<lambda>x. bundle_key x \<noteq> bundle_key b) bs)" s r s']
    unfolding key by (auto simp: world_api_def world_bundles_def fun_eq_iff find_filter_keys)
  show "ListBundles world_api ls s = (rl, s') \<Longrightarrow> cl_secrets (fst s') = cl_secrets (fst s) \<and> world_bundles s' = world_bundles s
      \<and> (\<forall>bs b. rl = Inr bs \<longrightarrow> (b \<in> set bs \<longleftrightarrow> (\<exists>k. world_bundles s k = Some b) \<and> ls \<subseteq>\<^sub>m pb_Labels b))"
    using world_call_cases [of "\<lambda>bs. (Inr (filter (\<lambda>b. find (\<lambda>x. bundle_key x = bundle_key b) bs = Some b \<and> ls \<subseteq>\<^sub>m pb_Labels b) bs), bs)" s rl s']
    unfolding world_bundles_def find_some_key by (auto simp: world_api_def fun_eq_iff)
  show "DeleteBundle world_api ns n s = (r, s') \<Longrightarrow> cl_secrets (fst s') = cl_secrets (fst s)
      \<and> (world_bundles s' = (world_bundles s)((ns, n) := None) \<or> isl r \<and> world_bundles s' = world_bundles s)"
    using world_call_cases [of "\<lambda>bs. if find (\<lambda>b. bundle_key b = (ns, n)) bs = None then (Inl not_found, bs)
        else (Inr (), filter (\<lambda>x. bundle_key x \<noteq> (ns, n)) bs)" s r s']
    by (auto simp: world_api_def world_bundles_def fun_eq_iff find_filter_keys split: if_splits)
  show "DeleteBundle world_api ns n s = (Inl e, s') \<Longrightarrow> err_is e = SNotFound \<Longrightarrow> world_bundles s (ns, n) = None"
    using world_call_cases [of "\<lambda>bs. if find (\<lambda>b. bundle_key b = (ns, n)) bs = None then (Inl not_found, bs)
        else (Inr (), filter (\<lambda>x. bundle_key x \<noteq> (ns, n)) bs)" s "Inl e" s']
    by (auto simp: world_api_def world_bundles_def split: if_splits)
qed

definition example_delivering :: AIWorkload where
  "example_delivering = example_downstream
     \<lparr>Status := example_status\<lparr>PullSecretDeliveries := [\<lparr>psd_Namespace = ''ai'', psd_Names = [''ngc-secret'']\<rparr>]\<rparr>\<rparr>"

lemma example_delivering_simps [simp]:
  "TargetClusters (Spec example_delivering) = [''c-m-1'']" "wl_Name example_delivering = ''demo''"
  "wl_Namespace example_delivering = ''default''"
  "PullSecretDeliveries (Status example_delivering) = [\<lparr>psd_Namespace = ''ai'', psd_Names = [''ngc-secret'']\<rparr>]"
  "downstream_ids example_delivering = [''c-m-1'']" "\<not> targetsLocalCluster example_delivering"
  by (simp_all add: example_delivering_def example_downstream_def example_workload_def downstream_ids_def targetsLocalCluster_def)

lemma example_built:
  "case build_bundles (pullSecretFactory world_client ''op'') [\<lparr>psd_Namespace = ''ai'', psd_Names = [''ngc-secret'']\<rparr>] (example_cluster, []) of
     (Inr [(ns, [(n1, nm, sec)])], s1) \<Rightarrow> ns = ''ai'' \<and> n1 = ''ai'' \<and> nm = ''ngc-secret'' \<and> snd s1 = [] \<and> cl_faults (fst s1) = []
   | _ \<Rightarrow> False"
  by code_simp

lemma example_delivered:
  "\<exists>built s1 s'. build_bundles (pullSecretFactory world_client ''op'') (PullSecretDeliveries (Status example_delivering)) (example_cluster, []) = (Inr built, s1)
     \<and> deliverPullSecrets world_client world_api example_delivering (Some (pullSecretFactory world_client ''op'')) (example_cluster, []) = (Inr (), s')
     \<and> built \<noteq> []"
proof -
  obtain r s1 where b: "build_bundles (pullSecretFactory world_client ''op'') [\<lparr>psd_Namespace = ''ai'', psd_Names = [''ngc-secret'']\<rparr>] (example_cluster, []) = (r, s1)"
    by (cases "build_bundles (pullSecretFactory world_client ''op'') [\<lparr>psd_Namespace = ''ai'', psd_Names = [''ngc-secret'']\<rparr>] (example_cluster, [])")
  then obtain sec where r: "r = Inr [(''ai'', [(''ai'', ''ngc-secret'', sec)])]" and s1: "snd s1 = []" "cl_faults (fst s1) = []"
    using example_built by (auto split: sum.splits list.splits)
  let ?opts = "bundle_options example_delivering ''c-m-1'' ''ai''"
  have im: "opt_SAMergeImage ?opts \<noteq> ''''" by (simp add: bundle_options_def NewBundleClient_def)
  obtain pb where pb: "pull_bundle ?opts [(''ai'', ''ngc-secret'', sec)] = Inr pb"
    using im by (simp add: pull_bundle_def buildSAMergeResources_def Let_def)
  have "ApplyPullSecretBundle world_api ?opts [(''ai'', ''ngc-secret'', sec)] s1 = (Inr (), ((fst s1)\<lparr>cl_faults := []\<rparr>, [pb]))"
    using s1 by (simp add: ApplyPullSecretBundle_def pb world_api_def world_call_def)
  then have "deliverPullSecrets world_client world_api example_delivering (Some (pullSecretFactory world_client ''op'')) (example_cluster, [])
      = (Inr (), ((fst s1)\<lparr>cl_faults := []\<rparr>, [pb]))"
    by (simp add: deliverPullSecrets_def b r deliver_downstream_def deliver_bundle_def del: build_bundles.simps)
  then show ?thesis using b r by (simp del: build_bundles.simps)
qed


definition example_pull_bundle :: PullSecretBundle where
  "example_pull_bundle = \<lparr>pb_Namespace = ''fleet-default'', pb_Name = ''b'', pb_Labels = owner_labels ''demo'' ''default'',
     pb_Resources = [], pb_ClusterName = ''c-m-1'', pb_ReleaseName = ''b'', pb_TakeOwnership = True\<rparr>"

lemma example_labels: "pb_Labels example_pull_bundle = owner_labels ''demo'' ''default''"
  by (simp add: example_pull_bundle_def)

theorem cleanup_takes_shared_bundle_witness:
  "world_bundles (example_cluster, [example_pull_bundle]) (''fleet-default'', ''b'') = Some example_pull_bundle
   \<and> world_bundles (snd (cleanupPullSecretBundles world_api example_delivering (example_cluster, [example_pull_bundle]))) (''fleet-default'', ''b'') = None"
proof -
  have b: "world_bundles (example_cluster, [example_pull_bundle]) (''fleet-default'', ''b'') = Some example_pull_bundle"
    by (simp add: world_bundles_def bundle_key_def example_pull_bundle_def)
  obtain r s' where c: "cleanupPullSecretBundles world_api example_delivering (example_cluster, [example_pull_bundle]) = (r, s')"
    by (cases "cleanupPullSecretBundles world_api example_delivering (example_cluster, [example_pull_bundle])")
  then have r: "r = Inr ()"
    by (auto simp: cleanupPullSecretBundles_def world_api_def world_call_def example_cluster_def example_pull_bundle_def bundle_key_def)
  note e = conjunct1 [OF conjunct2 [OF cleanup_takes_shared_bundle [OF dl.delivery_client_axioms c [unfolded r]]]]
  have "world_bundles s' (''fleet-default'', ''b'') = None" unfolding e using b by (simp add: example_labels)
  then show ?thesis using b by (simp add: c)
qed

text \<open>
  The release name of a bundle fits the 53 bytes Helm allows; a name that fits is kept, one that
  does not keeps its first 47 bytes, followed by one dash and five hexadecimal digits of its hash; and the name
  of the bundle itself is within 63 bytes.
\<close>

theorem bundle_names_fit:
  "length (pullSecretReleaseName name) \<le> 53
   \<and> (length name \<le> 53 \<longrightarrow> pullSecretReleaseName name = name)
   \<and> (length name > 53 \<longrightarrow> (\<exists>hash. length hash = 5 \<and> set hash \<subseteq> set ''0123456789abcdef''
        \<and> pullSecretReleaseName name = (if last (take 47 name) = CHR ''-'' then take 47 name @ hash else take 47 name @ ''-'' @ hash)))
   \<and> length (pullSecretBundleName owner clusterID ns) \<le> 63"
proof -
  have lab: "length (label63 s) \<le> 63" for s
  proof (cases "63 < length s")
    case True
    then have lim: "(63 :: int) < int (length s)" "(7 :: int) \<le> 63" by simp_all
    have "\<exists>head. TruncateDNS1123Label s 63 = Some (if head = [] then hash_suffix s else head @ ''-'' @ hash_suffix s)
        \<and> int (length head) + 1 + int (length (hash_suffix s)) \<le> 63"
      by (rule truncate_long [OF lim]) blast
    then show ?thesis by (auto simp: label63_def)
  qed (simp add: label63_def truncate_short)
  let ?hash = "take 5 (hex_encode (md5 name))"
  have hash: "length ?hash = 5" by (simp add: hex_encode_length)
  have digits: "set ?hash \<subseteq> set ''0123456789abcdef''"
    by (rule order_trans [OF set_take_subset hex_encode_set [OF hexdig_hex]])
  have long: "pullSecretReleaseName name = (if last (take 47 name) = CHR ''-'' then take 47 name @ ?hash else take 47 name @ ''-'' @ ?hash)"
    if "53 < length name"
  proof -
    have "name ! 46 = last (take 47 name)" using that by (subst last_conv_nth) auto
    then show ?thesis using that
      by (simp add: pullSecretReleaseName_def pullSecretHelmReleaseNameMax_def pullSecretHelmHashLen_def Let_def)
  qed
  have short: "length name \<le> 53 \<Longrightarrow> pullSecretReleaseName name = name"
    by (simp add: pullSecretReleaseName_def pullSecretHelmReleaseNameMax_def)
  have "length (pullSecretReleaseName name) \<le> 53"
  proof (cases "length name \<le> 53")
    case False
    then show ?thesis using long hash length_take [of 47 name] by (simp del: length_take)
  qed (use short in simp)
  moreover have "length (pullSecretBundleName owner clusterID ns) \<le> 63" unfolding pullSecretBundleName_def by (rule lab)
  moreover have "\<exists>hash. length hash = 5 \<and> set hash \<subseteq> set ''0123456789abcdef''
        \<and> pullSecretReleaseName name = (if last (take 47 name) = CHR ''-'' then take 47 name @ hash else take 47 name @ ''-'' @ hash)"
    if "53 < length name"
    by (rule exI [of _ ?hash]) (use hash digits long [OF that] in blast)
  ultimately show ?thesis using short by blast
qed

theorem bundle_names_fit_witness:
  "pullSecretReleaseName ''ai-pullsecrets-demo-c-m-1-ai'' = ''ai-pullsecrets-demo-c-m-1-ai''"
  using bundle_names_fit [of "''ai-pullsecrets-demo-c-m-1-ai''" "''demo''" "''c-m-1''" "''ai''"] by simp

end
