(* ===== verification/Git.thy ===== *)
theory Git
  imports Delivery Rollout
begin

text \<open>
  The Git repository of the GitOps strategy: the client of \<open>internal/git/client.go\<close>, and in
  \<open>internal/controller/aiworkload\<close> the publication of a component's file
  (\<open>publishBlueprintGitFile\<close> of \<open>blueprint.go\<close>) and its removal (\<open>gitops.go\<close>). The Git library is
  reached through three calls: the listing of the remote's references, a shallow clone of a branch, and
  the push of a commit. A repository without commits is listed and cloned as \<open>None\<close>. Whether a certificate bundle parses is a parameter.
\<close>

section \<open>The client\<close>

record GitClient =
  gc_RepoURL :: string
  gc_Branch :: string
  gc_Auth :: "(string \<times> string) option"
  gc_CABundle :: "string option"

record 's GitAPI =
  ListRefs :: "GitClient \<Rightarrow> ('s, string list option) act"
  CloneFiles :: "GitClient \<Rightarrow> ('s, smap option) act"
  PushFiles :: "GitClient \<Rightarrow> smap \<Rightarrow> string \<Rightarrow> ('s, string) act"

definition ReadSecret :: "'s Client \<Rightarrow> string \<Rightarrow> string \<Rightarrow> ('s, smap) act" where
  "ReadSecret c ns name s =
     (case GetSecret c ns name s of
        (Inl e, s1) \<Rightarrow> (Inl (wrap_err (''get secret '' @ ns @ ''/'' @ name) e), s1)
      | (Inr sec, s1) \<Rightarrow> (Inr (sec_Data sec), s1))"

definition defaultBranch :: "GitRepoSource \<Rightarrow> string" where
  "defaultBranch fs = (if git_Branch fs = '''' then ''main'' else git_Branch fs)"

text \<open>The two halves of \<open>NewFromSettings\<close>: the credentials and the certificate bundle.\<close>

definition git_auth :: "'s Client \<Rightarrow> string \<Rightarrow> GitRepoSource \<Rightarrow> ('s, (string \<times> string) option) act" where
  "git_auth c ns fs s =
     (case git_CredSecretRef fs of
        None \<Rightarrow>
          if git_AuthType fs \<noteq> '''' \<or> git_Username fs \<noteq> '''' then
            (Inl (Err SOther ''fleet.authType or fleet.username requires fleet.credSecretRef''), s)
          else (Inr None, s)
      | Some ref \<Rightarrow>
          if git_AuthType fs \<notin> {'''', ''token'', ''basic''} then (Inl (Err SOther ''unsupported fleet.authType''), s)
          else (case ReadSecret c ns (ref_Name ref) s of
                  (Inl e, s1) \<Rightarrow> (Inl (wrap_err (''read git credential Secret '' @ ref_Name ref) e), s1)
                | (Inr data, s1) \<Rightarrow>
                    (case data (ref_Key ref) of
                       None \<Rightarrow> (Inl (Err SOther (''git credential Secret '' @ ref_Name ref @ '' does not contain key '' @ ref_Key ref)), s1)
                     | Some password \<Rightarrow>
                         if password = '''' then (Inl (Err SOther ''git credential must not be empty''), s1)
                         else (Inr (Some (ResolveGitHTTPSUsername (git_Username fs) data, password)), s1))))"

definition git_ca :: "(string \<Rightarrow> bool) \<Rightarrow> 's Client \<Rightarrow> string \<Rightarrow> GitRepoSource \<Rightarrow> ('s, string option) act" where
  "git_ca pem_ok c ns fs s =
     (case git_CABundleSecretRef fs of
        None \<Rightarrow> (Inr None, s)
      | Some ref \<Rightarrow>
          (case ReadSecret c ns (ref_Name ref) s of
             (Inl e, s1) \<Rightarrow> (Inl (wrap_err ''read git CA bundle'' e), s1)
           | (Inr data, s1) \<Rightarrow>
               (case data (ref_Key ref) of
                  None \<Rightarrow> (Inl (Err SOther (''git CA Secret '' @ ref_Name ref @ '' does not contain key '' @ ref_Key ref)), s1)
                | Some ca \<Rightarrow>
                    if ca = '''' \<or> \<not> pem_ok ca then (Inl (Err SOther ''read git CA bundle: no PEM certificate''), s1)
                    else (Inr (Some ca), s1))))"

definition NewFromSettings :: "(string \<Rightarrow> bool) \<Rightarrow> 's Client \<Rightarrow> GitRepoSource \<Rightarrow> string \<Rightarrow> ('s, GitClient) act" where
  "NewFromSettings pem_ok c fs ns s =
     (if git_RepoURL fs = '''' then (Inl (Err SOther ''fleet.repoURL not configured in Settings''), s)
      else case git_auth c ns fs s of
             (Inl e, s1) \<Rightarrow> (Inl e, s1)
           | (Inr auth, s1) \<Rightarrow>
               (case git_ca pem_ok c ns fs s1 of
                  (Inl e, s2) \<Rightarrow> (Inl e, s2)
                | (Inr ca, s2) \<Rightarrow>
                    (Inr \<lparr>gc_RepoURL = git_RepoURL fs, gc_Branch = defaultBranch fs, gc_Auth = auth, gc_CABundle = ca\<rparr>, s2)))"

definition CheckAuth :: "'s GitAPI \<Rightarrow> GitClient \<Rightarrow> ('s, unit) act" where
  "CheckAuth g gc s =
     (case ListRefs g gc s of
        (Inl e, s1) \<Rightarrow> (Inl e, s1)
      | (Inr None, s1) \<Rightarrow> (Inr (), s1)
      | (Inr (Some refs), s1) \<Rightarrow> (Inr (), s1))"

section \<open>Files\<close>

text \<open>\<open>clone\<close>, with \<open>initEmpty\<close> for a repository without commits.\<close>

definition clone_tree :: "'s GitAPI \<Rightarrow> GitClient \<Rightarrow> ('s, smap) act" where
  "clone_tree g gc s =
     (case CloneFiles g gc s of
        (Inl e, s1) \<Rightarrow> (Inl (wrap_err ''clone'' e), s1)
      | (Inr None, s1) \<Rightarrow> (Inr Map.empty, s1)
      | (Inr (Some files), s1) \<Rightarrow> (Inr files, s1))"

definition commitAndPush :: "'s GitAPI \<Rightarrow> GitClient \<Rightarrow> smap \<Rightarrow> string \<Rightarrow> ('s, string) act" where
  "commitAndPush g gc files msg s =
     (case PushFiles g gc files msg s of
        (Inl e, s1) \<Rightarrow> (Inl (wrap_err ''push'' e), s1)
      | (Inr hash, s1) \<Rightarrow> (Inr hash, s1))"

definition fileContentMatches :: "smap \<Rightarrow> string \<Rightarrow> string \<Rightarrow> bool" where
  "fileContentMatches files path expected \<longleftrightarrow> files path = Some expected"

definition WriteFile :: "'s GitAPI \<Rightarrow> GitClient \<Rightarrow> string \<Rightarrow> string \<Rightarrow> string \<Rightarrow> ('s, string) act" where
  "WriteFile g gc path content msg s =
     (case clone_tree g gc s of
        (Inl e, s1) \<Rightarrow> (Inl e, s1)
      | (Inr files, s1) \<Rightarrow>
          if fileContentMatches files path content then (Inr '''', s1)
          else commitAndPush g gc (files(path \<mapsto> content)) msg s1)"

definition DeleteFile :: "'s GitAPI \<Rightarrow> GitClient \<Rightarrow> string \<Rightarrow> string \<Rightarrow> ('s, string) act" where
  "DeleteFile g gc path msg s =
     (case clone_tree g gc s of
        (Inl e, s1) \<Rightarrow> (Inl e, s1)
      | (Inr files, s1) \<Rightarrow>
          if files path = None then (Inr '''', s1)
          else commitAndPush g gc (files(path := None)) msg s1)"

section \<open>Publishing and removing a component's file\<close>

text \<open>
  A method with the workload as an in-out parameter threads it with the state; what it did to the object
  in memory before an error stays done.
\<close>

type_synonym ('s, 'a) wact = "(AIWorkload \<times> 's, 'a) act"

text \<open>What the calls of this theory need from the operator's environment.\<close>

record 's GitEnv =
  ge_Client :: "'s Client"
  ge_Git :: "'s GitAPI"
  ge_PemOk :: "string \<Rightarrow> bool"
  ge_OperatorNS :: string
  ge_Update :: "'s writer"

definition gitManifestHash :: "string \<Rightarrow> string" where
  "gitManifestHash content = hex_encode (sha256 content)"

definition gitFileHashAnnotation :: "string \<Rightarrow> string" where
  "gitFileHashAnnotation bundleName = ''ai-factory.suse.com/gitfile-hash-'' @ bundleName"

definition git_path :: "string \<Rightarrow> string" where
  "git_path bundleName = ''workloads/'' @ bundleName @ ''.yaml''"

definition publication_hash :: "GitRepoSource \<Rightarrow> string \<Rightarrow> string" where
  "publication_hash fs content =
     gitManifestHash (git_RepoURL fs @ [CHR 0x00] @ defaultBranch fs @ [CHR 0x00] @ content)"

definition publishBlueprintGitFile :: "'s GitEnv \<Rightarrow> string \<Rightarrow> string \<Rightarrow> ('s, unit) wact" where
  "publishBlueprintGitFile ge bundleName content = (\<lambda>(w, s).
     case GetSettings (ge_Client ge) s of
        (Inl e, s1) \<Rightarrow> (Inl (wrap_err ''read settings'' e), w, s1)
      | (Inr conf, s1) \<Rightarrow>
          if mget (Annotations w) (gitFileHashAnnotation bundleName) = publication_hash (set_Fleet conf) content
          then (Inr (), w, s1)
          else (case NewFromSettings (ge_PemOk ge) (ge_Client ge) (set_Fleet conf) (ge_OperatorNS ge) s1 of
                  (Inl e, s2) \<Rightarrow> (Inl (wrap_err ''init git client'' e), w, s2)
                | (Inr gc, s2) \<Rightarrow>
                    (case WriteFile (ge_Git ge) gc (git_path bundleName) content
                            (''chore: deploy blueprint component '' @ bundleName) s2 of
                       (Inl e, s3) \<Rightarrow> (Inl e, w, s3)
                     | (Inr _, s3) \<Rightarrow>
                         (let w1 = setAnnotation (gitFileHashAnnotation bundleName) (publication_hash (set_Fleet conf) content) w
                          in case ge_Update ge w1 s3 of
                               (Inl e, s4) \<Rightarrow> (Inl e, w1, s4)
                             | (Inr w2, s4) \<Rightarrow> (Inr (), w2, s4)))))"

definition deleteGitFileByName :: "'s GitEnv \<Rightarrow> string \<Rightarrow> ('s, unit) act" where
  "deleteGitFileByName ge bundleName s =
     (case GetSettings (ge_Client ge) s of
        (Inl e, s1) \<Rightarrow> (Inl (wrap_err ''read settings'' e), s1)
      | (Inr conf, s1) \<Rightarrow>
          (case NewFromSettings (ge_PemOk ge) (ge_Client ge) (set_Fleet conf) (ge_OperatorNS ge) s1 of
             (Inl e, s2) \<Rightarrow> (Inl (wrap_err ''init git client'' e), s2)
           | (Inr gc, s2) \<Rightarrow>
               (case DeleteFile (ge_Git ge) gc (git_path bundleName) (''chore: remove workload '' @ bundleName) s2 of
                  (Inl e, s3) \<Rightarrow> (Inl e, s3)
                | (Inr _, s3) \<Rightarrow> (Inr (), s3))))"

section \<open>The laws of the remote\<close>

text \<open>
  \<open>remote\<close> is what the branches of the repositories hold. A clone reads the branch of the client; a push
  that succeeds replaces it, and one that fails has replaced it or not.
\<close>

definition repo_of :: "GitClient \<Rightarrow> string \<times> string" where
  "repo_of gc = (gc_RepoURL gc, gc_Branch gc)"

locale git_remote =
  fixes g :: "'s GitAPI" and remote :: "'s \<Rightarrow> string \<times> string \<Rightarrow> smap"
  assumes clone_step: "CloneFiles g gc s = (r, s') \<Longrightarrow> remote s' = remote s
        \<and> (\<forall>f. r = Inr f \<longrightarrow> remote s (repo_of gc) = (case f of None \<Rightarrow> Map.empty | Some m \<Rightarrow> m))"
    and push_step: "PushFiles g gc files msg s = (p, s') \<Longrightarrow>
        remote s' = (remote s)(repo_of gc := files) \<or> isl p \<and> remote s' = remote s"
    and refs_step: "remote (snd (ListRefs g gc s)) = remote s"
begin

lemma clone_tree_step:
  "clone_tree g gc s = (r, s') \<Longrightarrow> remote s' = remote s \<and> (\<forall>f. r = Inr f \<longrightarrow> remote s (repo_of gc) = f)"
  using clone_step [of gc s] by (auto simp: clone_tree_def split: prod.splits sum.splits option.splits)

text \<open>A commit changes the one file it is about, or, when it fails, nothing.\<close>

lemma write_file_step:
  assumes "WriteFile g gc path content msg s = (r, s')"
  shows "remote s' = (remote s)(repo_of gc := (remote s (repo_of gc))(path \<mapsto> content)) \<or> isl r \<and> remote s' = remote s"
proof -
  obtain r1 s1 where c: "clone_tree g gc s = (r1, s1)" by (cases "clone_tree g gc s")
  show ?thesis
  proof (cases r1)
    case (Inl e)
    then show ?thesis using assms c clone_tree_step [OF c] by (auto simp: WriteFile_def)
  next
    case (Inr files)
    have same: "remote s1 = remote s" "remote s (repo_of gc) = files" using clone_tree_step [OF c] Inr by auto
    show ?thesis
    proof (cases "files path = Some content")
      case True
      then have "(remote s)(repo_of gc := (remote s (repo_of gc))(path \<mapsto> content)) = remote s"
        using same(2) by (auto simp: fun_eq_iff)
      then show ?thesis using assms c Inr same True by (simp add: WriteFile_def fileContentMatches_def)
    next
      case False
      obtain r2 s2 where p: "PushFiles g gc (files(path \<mapsto> content)) msg s1 = (r2, s2)"
        by (cases "PushFiles g gc (files(path \<mapsto> content)) msg s1")
      show ?thesis using assms c Inr same False p push_step [OF p]
        by (auto simp: WriteFile_def fileContentMatches_def commitAndPush_def split: sum.splits)
    qed
  qed
qed

lemma delete_file_step:
  assumes "DeleteFile g gc path msg s = (r, s')"
  shows "remote s' = (remote s)(repo_of gc := (remote s (repo_of gc))(path := None)) \<or> isl r \<and> remote s' = remote s"
proof -
  obtain r1 s1 where c: "clone_tree g gc s = (r1, s1)" by (cases "clone_tree g gc s")
  show ?thesis
  proof (cases r1)
    case (Inl e)
    then show ?thesis using assms c clone_tree_step [OF c] by (auto simp: DeleteFile_def)
  next
    case (Inr files)
    have same: "remote s1 = remote s" "remote s (repo_of gc) = files" using clone_tree_step [OF c] Inr by auto
    show ?thesis
    proof (cases "files path = None")
      case True
      then have "(remote s)(repo_of gc := (remote s (repo_of gc))(path := None)) = remote s"
        using same(2) by (auto simp: fun_eq_iff)
      then show ?thesis using assms c Inr same True by (simp add: DeleteFile_def)
    next
      case False
      obtain r2 s2 where p: "PushFiles g gc (files(path := None)) msg s1 = (r2, s2)"
        by (cases "PushFiles g gc (files(path := None)) msg s1")
      show ?thesis using assms c Inr same False p push_step [OF p]
        by (auto simp: DeleteFile_def commitAndPush_def split: sum.splits)
    qed
  qed
qed

end

text \<open>The client of the settings works on the repository and branch the settings name.\<close>

lemma settings_repo: "NewFromSettings ok c fs ns s = (Inr gc, s') \<Longrightarrow> repo_of gc = (git_RepoURL fs, defaultBranch fs)"
  by (auto simp: NewFromSettings_def repo_of_def split: if_splits prod.splits sum.splits)

context client_frame begin

lemma read_secret_obs: "obs (snd (ReadSecret c ns name s)) = obs s"
  using get_obs [of ns name s] by (cases "GetSecret c ns name s") (auto simp: ReadSecret_def split: sum.split)

lemma git_auth_obs: "obs (snd (git_auth c ns fs s)) = obs s"
  using read_secret_obs by (auto simp: git_auth_def split: option.split prod.split sum.split) (metis snd_conv)+

lemma git_ca_obs: "obs (snd (git_ca ok c ns fs s)) = obs s"
  using read_secret_obs by (auto simp: git_ca_def split: option.split prod.split sum.split) (metis snd_conv)+

lemma git_client_obs: "obs (snd (NewFromSettings ok c fs ns s)) = obs s"
proof -
  obtain r1 s1 where a: "git_auth c ns fs s = (r1, s1)" by (cases "git_auth c ns fs s")
  obtain r2 s2 where b: "git_ca ok c ns fs s1 = (r2, s2)" by (cases "git_ca ok c ns fs s1")
  have "obs s1 = obs s" "obs s2 = obs s1" using git_auth_obs [of ns fs s] git_ca_obs [of ok ns fs s1] a b by simp_all
  then show ?thesis using a b by (auto simp: NewFromSettings_def split: sum.split)
qed

end

end
