(* ===== verification/GoIndent.thy ===== *)
theory GoIndent
  imports GoJson
begin

text \<open>
  \<open>json.MarshalIndent\<close> as the operator writes its git files, and the round trip of its text, which
  holds the separator of the documents of such a file nowhere.
\<close>

text \<open>\<open>json.MarshalIndent(v, "", "  ")\<close>; \<open>nl\<close> is the newline with the current indentation.\<close>

fun marshal_indent :: "string \<Rightarrow> json \<Rightarrow> string" where
  "marshal_indent nl (JArr xs) =
     (if xs = [] then ''[]''
      else ''['' @ nl @ ''  '' @ join ('','' @ nl @ ''  '') (map (marshal_indent (nl @ ''  '')) xs) @ nl @ '']'')"
| "marshal_indent nl (JObj kvs) =
     (if kvs = [] then ''{}''
      else ''{'' @ nl @ ''  '' @ join ('','' @ nl @ ''  '')
             (map (\<lambda>(k, v). quote k @ '': '' @ marshal_indent (nl @ ''  '') v) kvs) @ nl @ ''}'')"
| "marshal_indent nl j = marshal j"

definition newline :: string where "newline = [CHR 0x0A]"

lemma marshal_indent_head:
  "json_ok j \<Longrightarrow> \<exists>c t. marshal_indent nl j = c # t \<and> \<not> is_space c \<and> c \<noteq> CHR '']''"
  using marshal_head [of j] by (cases j) auto

lemma blank_spaces [simp]: "list_all is_space '' ''" "list_all is_space ''  ''"
  by (simp_all add: is_space_def)

lemma join_first: "xs \<noteq> [] \<Longrightarrow> \<exists>t. join sep (map g xs) = g (hd xs) @ t"
  by (cases xs; cases "tl xs") auto

lemma pval_marshal_indent:
  "json_ok j \<Longrightarrow> list_all is_space nl \<Longrightarrow> 2 * length (marshal_indent nl j) \<le> f \<Longrightarrow> delim r
   \<Longrightarrow> pval (Suc f) (marshal_indent nl j @ r) = Some (norm j, r)"
proof (induction j arbitrary: nl f r)
  case (JArr xs)
  show ?case
  proof (cases "xs = []")
    case False
    obtain g where f: "f = Suc g" using JArr.prems False by (cases f) auto
    let ?nl = "nl @ ''  ''"
    let ?t = "join ('','' @ ?nl) (map (marshal_indent ?nl) xs)"
    have sp: "list_all is_space ?nl" using JArr.prems(2) by (simp add: is_space_def [of "CHR 0x20"])
    have ok: "\<And>x. x \<in> set xs \<Longrightarrow> json_ok x" using JArr.prems by (simp add: list_all_iff)
    have "pelems f (?t @ nl @ CHR '']'' # r) = Some (map norm xs, r)"
      unfolding f using JArr.prems f ok False sp
      by (intro pelems_join [where enc = "marshal_indent ?nl"]) (auto intro: JArr.IH)
    moreover obtain c u where "?t @ nl @ CHR '']'' # r = c # u" "\<not> is_space c" "c \<noteq> CHR '']''"
      using join_first [OF False, of "'','' @ ?nl" "marshal_indent ?nl"] marshal_indent_head [of "hd xs" ?nl] ok [of "hd xs"] False
      by (metis append_Cons append_assoc hd_in_set)
    ultimately show ?thesis using False sp
      by (simp add: pval.simps(2) skip_spaces [OF sp, simplified])
  qed (simp add: pval.simps(2))
next
  case (JObj kvs)
  show ?case
  proof (cases "kvs = []")
    case False
    obtain g where f: "f = Suc g" using JObj.prems False by (cases f) auto
    let ?nl = "nl @ ''  ''"
    let ?t = "join ('','' @ ?nl) (map (\<lambda>(k, v). quote k @ '':'' @ '' '' @ marshal_indent ?nl v) kvs)"
    have sp: "list_all is_space ?nl" "list_all is_space '' ''" using JObj.prems(2) by (simp_all add: is_space_def [of "CHR 0x20"])
    have ok: "\<And>k v. (k, v) \<in> set kvs \<Longrightarrow> valid_utf8 k \<and> json_ok v"
      using JObj.prems by (auto simp: list_all_iff)
    have "pmembers f [] (?t @ nl @ CHR ''}'' # r) = Some (foldl (\<lambda>acc (k, v). obj_set k v acc) [] (map (\<lambda>(k, v). (k, norm v)) kvs), r)"
      unfolding f using JObj.prems f ok False sp
      by (intro pmembers_join [where enc = "marshal_indent ?nl"]) (auto intro: JObj.IH)
    moreover obtain u where "?t @ nl @ CHR ''}'' # r = dquote # u"
      using False by (cases kvs; cases "tl kvs") (auto simp: quote_def split: prod.split)
    ultimately show ?thesis using False sp
      by (simp add: pval.simps(2) skip_spaces [OF sp(1), simplified])
  qed (simp add: pval.simps(2))
qed (simp_all only: marshal_indent.simps pval_marshal)

lemma unmarshal_marshal_indent:
  assumes "json_ok j" "list_all is_space nl"
  shows "unmarshal (marshal_indent nl j) = Some (norm j)"
  using pval_marshal_indent [OF assms, of "2 * length (marshal_indent nl j) + 1" "[]"]
  by (simp add: unmarshal_def skip_def)

section \<open>The documents of a file\<close>

text \<open>A text in which a line never starts with a dash and that does not end in a line break.\<close>

fun calm :: "string \<Rightarrow> bool" where
  "calm [] = True"
| "calm [c] = (c \<noteq> CHR 0x0A)"
| "calm (c # d # s) = ((c = CHR 0x0A \<longrightarrow> d \<noteq> CHR ''-'') \<and> calm (d # s))"

lemma calm_append: "calm a \<Longrightarrow> calm b \<Longrightarrow> calm (a @ b)"
proof (induction a rule: calm.induct)
  case (2 c)
  then show ?case by (cases b) auto
qed auto

lemma calm_bracket: "calm a \<Longrightarrow> calm b \<Longrightarrow> calm c \<Longrightarrow> calm d \<Longrightarrow> calm (a @ b @ c @ d)"
  by (simp only: calm_append)

lemma calm_join: "calm sep \<Longrightarrow> \<forall>x \<in> set xs. calm x \<Longrightarrow> calm (join sep xs)"
  by (induction sep xs rule: join.induct) (auto intro: calm_append)

lemma calm_plain: "CHR 0x0A \<notin> set s \<Longrightarrow> calm s"
  by (induction s rule: calm.induct) auto

lemma rune_bytes:
  assumes "1 < rune_len (a # s)" "c \<in> set (take (rune_len (a # s)) (a # s))"
  shows "c \<noteq> CHR 0x0A"
proof -
  let ?k = "lead_len a"
  have k: "rune_len (a # s) = ?k" "conts_ok a (take (?k - 1) s)" using assms(1) by (auto simp: rune_len_Cons split: if_splits)
  then obtain j where j: "?k = Suc j" using assms(1) by (cases ?k) auto
  have a: "a \<noteq> CHR 0x0A" using rune_len_multi [of a s] assms(1) by (auto simp: byte_in_def)
  have "c = a \<or> c \<in> set (take j s)" using assms(2) k j by auto
  moreover have "c \<noteq> CHR 0x0A" if "c \<in> set (take j s)"
    using k(2) j that by (cases "take j s") (auto simp: conts_ok_def second_ok_def byte_in_def list_all_iff split: if_splits)
  ultimately show ?thesis using a by blast
qed

lemma esc_ascii_plain: "CHR 0x0A \<notin> set (esc_ascii c)"
proof (cases "c = CHR 0x0A")
  case False
  have h: "CHR 0x0A \<noteq> hexdig n" if "n < 16" for n
  proof -
    have "\<forall>n \<in> set [0..<16]. CHR 0x0A \<noteq> hexdig n" by (simp add: hexdig_def upt_rec)
    then show ?thesis using that by simp
  qed
  have "CHR 0x0A \<notin> set [bslash, CHR ''u'', CHR ''0'', CHR ''0'', hexdig (of_char c div 16), hexdig (of_char c mod 16)]"
    using byte_of_char [of c] by (simp add: h less_mult_imp_div_less bslash_def)
  then show ?thesis using False
    by (simp add: esc_ascii_def Let_def bslash_def dquote_def)
qed (simp add: esc_ascii_def bslash_def dquote_def)

lemma esc_plain: "CHR 0x0A \<notin> set (esc s)"
proof (induction s rule: esc.induct)
  case (2 a s)
  let ?k = "rune_len (a # s)"
  have "CHR 0x0A \<notin> set (take ?k (a # s))" if "1 < ?k" using rune_bytes [OF that] by blast
  then show ?case using 2 esc_ascii_plain [of a]
    by (auto simp: Let_def bslash_def simp del: take_Suc_Cons)
qed simp

lemma quote_plain: "CHR 0x0A \<notin> set (quote s)"
  using esc_plain [of s] by (auto simp: quote_def dquote_def)

lemma calm_marshal:
  assumes "json_ok j" "\<forall>xs. j \<noteq> JArr xs" "\<forall>kvs. j \<noteq> JObj kvs"
  shows "CHR 0x0A \<notin> set (marshal j)"
  using assms quote_plain
  by (cases j) (auto simp: list_all_iff num_char_def is_digit_def)

definition indentation :: "string \<Rightarrow> bool" where
  "indentation nl \<longleftrightarrow> (\<exists>n. nl = newline @ replicate n CHR 0x20)"

lemma indentation_more: "indentation nl \<Longrightarrow> indentation (nl @ ''  '')"
  unfolding indentation_def
  by (metis append_assoc replicate_app_Cons_same replicate_Suc append_Cons append_Nil append_Nil2 replicate_append_same)

lemma indentation_calm:
  assumes "indentation nl"
  shows "calm (nl @ ''  '')" "calm (nl @ '']'')" "calm (nl @ ''}'')"
proof -
  obtain n where n: "nl = newline @ replicate n CHR 0x20" using assms unfolding indentation_def by blast
  have "calm (replicate n CHR 0x20 @ [c])" if "c \<noteq> CHR 0x0A" for c
    using that by (intro calm_append calm_plain) auto
  then have "calm (nl @ [c])" if "c \<notin> {CHR 0x0A, CHR ''-''}" for c
    using that n by (cases n) (auto simp: newline_def)
  from this [of "CHR 0x20"] this [of "CHR '']''"] this [of "CHR ''}''"] calm_append [of "nl @ '' ''" "'' ''"]
  show "calm (nl @ ''  '')" "calm (nl @ '']'')" "calm (nl @ ''}'')" by simp_all
qed

lemma marshal_indent_calm: "json_ok j \<Longrightarrow> indentation nl \<Longrightarrow> calm (marshal_indent nl j)"
proof (induction j arbitrary: nl)
  case (JArr xs)
  have "calm (join ('','' @ nl @ ''  '') (map (marshal_indent (nl @ ''  '')) xs))"
    using JArr indentation_more [OF JArr.prems(2)] indentation_calm [OF JArr.prems(2)]
    by (intro calm_join) (auto simp: list_all_iff intro: calm_append [of "'',''", simplified])
  from calm_bracket [OF _ indentation_calm(1) [OF JArr.prems(2)] this indentation_calm(2) [OF JArr.prems(2)], of "''[''"]
  show ?case by simp
next
  case (JObj kvs)
  have "calm (quote k @ '': '' @ marshal_indent (nl @ ''  '') v)" if "(k, v) \<in> set kvs" for k v
  proof -
    have "calm (marshal_indent (nl @ ''  '') v)"
      using JObj.IH [of "(k, v)" v "nl @ ''  ''"] JObj.prems that indentation_more [OF JObj.prems(2)]
      by (auto simp: list_all_iff)
    then show ?thesis using calm_plain [OF quote_plain] by (intro calm_append) auto
  qed
  then have "calm (join ('','' @ nl @ ''  '') (map (\<lambda>(k, v). quote k @ '': '' @ marshal_indent (nl @ ''  '') v) kvs))"
    using indentation_calm [OF JObj.prems(2)]
    by (intro calm_join) (auto intro: calm_append [of "'',''", simplified])
  from calm_bracket [OF _ indentation_calm(1) [OF JObj.prems(2)] this indentation_calm(3) [OF JObj.prems(2)], of "''{''"]
  show ?case by simp
qed (simp_all only: marshal_indent.simps calm_plain calm_marshal json.distinct simp_thms not_False_eq_True)

definition document_separator :: string where
  "document_separator = newline @ ''---'' @ newline"

lemma index_str_less: "index_str s p = Some i \<Longrightarrow> p \<noteq> [] \<Longrightarrow> i < length s"
  by (induction s p arbitrary: i rule: index_str.induct) (auto split: if_splits)

function split_documents :: "string \<Rightarrow> string list" where
  "split_documents s =
     (case index_str s document_separator of
        None \<Rightarrow> [s]
      | Some i \<Rightarrow> take i s # split_documents (drop (i + 5) s))"
  by pat_completeness auto

termination
  by (relation "measure length") (auto dest: index_str_less simp: document_separator_def)

declare split_documents.simps [simp del]

lemma separator_hd: "has_prefix (c # s) document_separator \<Longrightarrow> c = CHR 0x0A \<and> (\<exists>t. s = CHR ''-'' # t)"
  by (cases s) (auto simp: has_prefix_def document_separator_def newline_def)

lemma calm_index: "calm d \<Longrightarrow> index_str (d @ document_separator @ r) document_separator = Some (length d)"
proof (induction d rule: calm.induct)
  case 1
  then show ?case by (simp add: document_separator_def newline_def has_prefix_def)
next
  case (2 c)
  then have "\<not> has_prefix (c # document_separator @ r) document_separator" using separator_hd by auto
  moreover have "index_str (document_separator @ r) document_separator = Some 0"
    by (simp add: document_separator_def newline_def has_prefix_def)
  ultimately show ?case by simp
next
  case (3 c d s)
  have "\<not> has_prefix (c # d # s @ document_separator @ r) document_separator"
    using separator_hd [of c "d # s @ document_separator @ r"] 3(2) by auto
  then show ?case using 3 by simp
qed

lemma calm_index_none: "calm d \<Longrightarrow> index_str d document_separator = None"
proof (induction d rule: calm.induct)
  case (3 c d s)
  have "\<not> has_prefix (c # d # s) document_separator" using separator_hd [of c "d # s"] 3(2) by auto
  then show ?case using 3 by simp
qed (simp_all add: document_separator_def newline_def has_prefix_def)

lemma split_join_documents:
  assumes "ds \<noteq> []" "\<forall>d \<in> set ds. calm d"
  shows "split_documents (join document_separator ds) = ds"
  using assms
proof (induction ds)
  case (Cons x ds)
  have five: "length document_separator = 5" by (simp add: document_separator_def newline_def)
  show ?case
  proof (cases ds)
    case Nil
    then show ?thesis using Cons.prems by (simp add: split_documents.simps [of x] calm_index_none)
  next
    case (Cons y ys)
    let ?r = "join document_separator ds"
    have "index_str (x @ document_separator @ ?r) document_separator = Some (length x)"
      using Cons.prems by (simp add: calm_index)
    then have "split_documents (x @ document_separator @ ?r) = x # split_documents ?r"
      using five by (simp add: split_documents.simps [of "x @ document_separator @ ?r"])
    moreover have "split_documents ?r = ds" using Cons.IH Cons.prems Cons by simp
    ultimately show ?thesis using Cons by simp
  qed
qed simp

end
