(* ===== verification/Chart.thy ===== *)
theory Chart
  imports Injectors Rollout GoIndent
begin

text \<open>
  What the operator renders for Fleet, as values (\<open>internal/controller/aiworkload/gitchart.go\<close> and
  the literal objects of \<open>blueprint.go\<close>): HelmOps, self-contained Bundles with the files of a chart
  that was fetched from a git-backed repository, and the documents of a git file. Decompression and the
  tar format are a parameter: an archive is an error or its entries and the error, if any, that ends
  the listing. An unstructured object is a record of the fields that are set.
\<close>

section \<open>Fleet objects\<close>

record HelmOpSpec =
  hs_Namespace :: string
  hs_Name :: string
  hs_Labels :: "(string \<times> string) list"
  hs_SpecLabels :: "(string \<times> string) list"
  hs_DefaultNamespace :: string
  hs_Helm :: jmap
  hs_ForceSync :: int
  hs_Targets :: "json list"
  hs_HelmSecretName :: "string option"

record FleetBundleSpec =
  fb_Namespace :: string
  fb_Name :: string
  fb_Annotations :: "(string \<times> string) list"
  fb_Labels :: "(string \<times> string) list"
  fb_DefaultNamespace :: string
  fb_Helm :: jmap
  fb_Targets :: "json list"
  fb_Resources :: "json list"

text \<open>A Go map literal: the members in the order of their keys.\<close>

definition gomap :: "(string \<times> json) list \<Rightarrow> jmap" where
  "gomap kvs = foldl (\<lambda>m (k, v). obj_set k v m) [] kvs"

definition downstream_target :: "string \<Rightarrow> json" where
  "downstream_target i =
     JObj [(''clusterSelector'', JObj [(''matchLabels'', JObj [(''management.cattle.io/cluster-name'', JStr i)])])]"

fun splitWorkloadTargets :: "string list \<Rightarrow> json list \<times> json list" where
  "splitWorkloadTargets [] = ([], [])"
| "splitWorkloadTargets (i # ids) =
     (case splitWorkloadTargets ids of (local, downstream) \<Rightarrow>
        if i = ''local'' then (JObj [(''clusterName'', JStr ''local'')] # local, downstream)
        else (local, downstream_target i # downstream))"

definition target_pairs :: "AIWorkload \<Rightarrow> (string \<times> json list) list" where
  "target_pairs w =
     (case splitWorkloadTargets (TargetClusters (Spec w)) of (local, downstream) \<Rightarrow>
        filter (\<lambda>p. snd p \<noteq> []) [(''fleet-local'', local), (''fleet-default'', downstream)])"

section \<open>Paths\<close>

fun split_slash :: "string \<Rightarrow> string list" where
  "split_slash [] = [[]]"
| "split_slash (c # s) =
     (if c = CHR ''/'' then [] # split_slash s
      else case split_slash s of [] \<Rightarrow> [[c]] | x # xs \<Rightarrow> (c # x) # xs)"

text \<open>\<open>path.Clean\<close>: the elements kept so far, the last one first.\<close>

definition clean_step :: "bool \<Rightarrow> string list \<Rightarrow> string \<Rightarrow> string list" where
  "clean_step rooted out e =
     (if e = '''' \<or> e = ''.'' then out
      else if e = ''..'' then
        (case out of [] \<Rightarrow> if rooted then [] else [''..'']
         | x # xs \<Rightarrow> if x = ''..'' then ''..'' # out else xs)
      else e # out)"

definition path_IsAbs :: "string \<Rightarrow> bool" where
  "path_IsAbs p \<longleftrightarrow> has_prefix p ''/''"

definition clean_elements :: "string \<Rightarrow> string list" where
  "clean_elements p = rev (foldl (clean_step (path_IsAbs p)) [] (split_slash p))"

definition path_Clean :: "string \<Rightarrow> string" where
  "path_Clean p =
     (if path_IsAbs p then ''/'' @ join ''/'' (clean_elements p)
      else if clean_elements p = [] then ''.'' else join ''/'' (clean_elements p))"

definition escapes_root :: "string \<Rightarrow> bool" where
  "escapes_root name \<longleftrightarrow> name = ''..'' \<or> has_prefix name ''../'' \<or> path_IsAbs name"

section \<open>The files of a chart archive\<close>

record TarEntry =
  te_Name :: string
  te_Regular :: bool
  te_Data :: string
  te_Broken :: "string option"

type_synonym untar = "string \<Rightarrow> err + TarEntry list \<times> string option"

definition maxBundleResourcesBytes :: nat where "maxBundleResourcesBytes = 1048576"
definition maxChartArchiveBytes :: nat where "maxChartArchiveBytes = 4194304"

text \<open>\<open>io.ReadAll(io.LimitReader(r, n))\<close>: an error after the limit is not seen.\<close>

definition read_limited :: "nat \<Rightarrow> TarEntry \<Rightarrow> string + string" where
  "read_limited n h =
     (case te_Broken h of
        None \<Rightarrow> Inr (take n (te_Data h))
      | Some e \<Rightarrow> if n \<le> length (te_Data h) then Inr (take n (te_Data h)) else Inl e)"

definition resource_json :: "string \<Rightarrow> string \<Rightarrow> json" where
  "resource_json name data =
     (if valid_utf8 data then JObj [(''content'', JStr data), (''name'', JStr name)]
      else JObj [(''content'', JStr (EncodeToString data)), (''encoding'', JStr ''base64''), (''name'', JStr name)])"

definition resource_size :: "string \<Rightarrow> string \<Rightarrow> nat" where
  "resource_size name data =
     (if valid_utf8 data then length data else length (EncodeToString data)) + length name"

definition chart_dir :: "string \<Rightarrow> string \<Rightarrow> string" where
  "chart_dir dir name =
     (case index_byte name CHR ''/'' of
        None \<Rightarrow> dir
      | Some i \<Rightarrow> if 0 < i \<and> dir = '''' then take i name else dir)"

text \<open>The loop over the entries; \<open>tail\<close> is the error of the last call of \<open>Next\<close>.\<close>

fun unpack_entries :: "string option \<Rightarrow> TarEntry list \<Rightarrow> nat \<Rightarrow> string \<Rightarrow> err + json list \<times> string" where
  "unpack_entries tail [] used dir =
     (case tail of None \<Rightarrow> Inr ([], dir) | Some e \<Rightarrow> Inl (wrap_err ''tar'' (Err SOther e)))"
| "unpack_entries tail (h # hs) used dir =
     (if \<not> te_Regular h then unpack_entries tail hs used dir
      else let name = path_Clean (te_Name h)
      in if escapes_root name then Inl (Err SOther (''archive entry '' @ te_Name h @ '' escapes the chart root''))
      else case read_limited (maxBundleResourcesBytes - used + 1) h of
             Inl e \<Rightarrow> Inl (wrap_err (''read '' @ name) (Err SOther e))
           | Inr data \<Rightarrow>
               let used' = used + resource_size name data
               in if used' > maxBundleResourcesBytes then Inl (Err SChartTooLarge ''unpacked chart exceeds the limit'')
                  else case unpack_entries tail hs used' (chart_dir dir name) of
                         Inl e \<Rightarrow> Inl e
                       | Inr (rs, d) \<Rightarrow> Inr (resource_json name data # rs, d))"

definition chartTgzToBundleResources :: "untar \<Rightarrow> string \<Rightarrow> err + json list \<times> string" where
  "chartTgzToBundleResources untar tgz =
     (case untar tgz of
        Inl e \<Rightarrow> Inl (wrap_err ''gzip'' e)
      | Inr (entries, tail) \<Rightarrow>
          (case unpack_entries tail entries 0 '''' of
             Inl e \<Rightarrow> Inl e
           | Inr (rs, dir) \<Rightarrow>
               if dir = '''' \<or> rs = [] then Inl (Err SOther ''no chart directory found in archive'')
               else Inr (rs, dir)))"

section \<open>The Bundle of a git-backed chart\<close>

definition chartFingerprintAnnotation :: string where
  "chartFingerprintAnnotation = ''ai-factory.suse.com/git-chart-fingerprint''"

definition values_member :: "jmap option \<Rightarrow> (string \<times> json) list" where
  "values_member vals = (if map_len vals > 0 then [(''values'', JObj (the vals))] else [])"

definition release_options :: "BlueprintComponent \<Rightarrow> (string \<times> json) list" where
  "release_options c =
     [(''releaseName'', JStr (capReleaseName (componentReleaseName c))),
      (''disablePreProcess'', JBool True), (''takeOwnership'', JBool True)]"

definition buildGitChartBundle ::
  "untar \<Rightarrow> string \<Rightarrow> string \<Rightarrow> string \<Rightarrow> string \<Rightarrow> BlueprintComponent \<Rightarrow> jmap option \<Rightarrow> string \<Rightarrow> json list \<Rightarrow> err + FleetBundleSpec" where
  "buildGitChartBundle untar bundleName namespace fingerprint tgz c vals fleetNS targets =
     (if length tgz > maxChartArchiveBytes then Inl (Err SChartTooLarge (''chart '' @ bc_ChartName c @ '' archive is over the limit''))
      else case chartTgzToBundleResources untar tgz of
             Inl e \<Rightarrow> Inl (wrap_err (''unpack chart '' @ bc_ChartName c) e)
           | Inr (resources, chartDir) \<Rightarrow>
               Inr \<lparr>fb_Namespace = fleetNS, fb_Name = bundleName,
                 fb_Annotations = (if fingerprint \<noteq> '''' then [(chartFingerprintAnnotation, fingerprint)] else []),
                 fb_Labels = (if fingerprint \<noteq> '''' then [(renderDigestLabel, renderDigestLabelValue fingerprint)] else []),
                 fb_DefaultNamespace = namespace,
                 fb_Helm = gomap ((''chart'', JStr chartDir) # release_options c @ values_member vals),
                 fb_Targets = targets, fb_Resources = resources\<rparr>)"

definition fingerprint_text ::
  "BlueprintComponent \<Rightarrow> string \<Rightarrow> string \<Rightarrow> jmap option \<Rightarrow> json list \<Rightarrow> json list \<Rightarrow> string" where
  "fingerprint_text c ns repoCommit vals local downstream =
     bc_ChartRepo c @ nul @ bc_ChartName c @ nul @ bc_ChartVersion c @ nul @ bc_ReleaseName c @ nul @ ns @ nul
       @ repoCommit @ nul @ marshal (values_json vals) @ marshal (JArr local) @ marshal (JArr downstream)"

definition gitChartFingerprint ::
  "BlueprintComponent \<Rightarrow> string \<Rightarrow> string \<Rightarrow> jmap option \<Rightarrow> json list \<Rightarrow> json list \<Rightarrow> string" where
  "gitChartFingerprint c ns repoCommit vals local downstream =
     hex_encode (sha256 (fingerprint_text c ns repoCommit vals local downstream))"

section \<open>Git documents\<close>

definition strings_obj :: "(string \<times> string) list \<Rightarrow> json" where
  "strings_obj kvs = JObj (gomap (map (\<lambda>(k, v). (k, JStr v)) kvs))"

definition helmop_json :: "HelmOpSpec \<Rightarrow> json" where
  "helmop_json sp = JObj (gomap
     [(''apiVersion'', JStr ''fleet.cattle.io/v1alpha1''), (''kind'', JStr ''HelmOp''),
      (''metadata'', JObj (gomap [(''name'', JStr (hs_Name sp)), (''namespace'', JStr (hs_Namespace sp)),
         (''labels'', strings_obj (hs_Labels sp))])),
      (''spec'', JObj (gomap ([(''defaultNamespace'', JStr (hs_DefaultNamespace sp)), (''helm'', JObj (hs_Helm sp)),
         (''targets'', JArr (hs_Targets sp)), (''forceSyncGeneration'', JNum (FormatInt (hs_ForceSync sp))),
         (''labels'', strings_obj (hs_SpecLabels sp))]
         @ (case hs_HelmSecretName sp of None \<Rightarrow> [] | Some n \<Rightarrow> [(''helmSecretName'', JStr n)]))))])"

definition strings_member :: "string \<Rightarrow> (string \<times> string) list \<Rightarrow> (string \<times> json) list" where
  "strings_member k kvs = (if kvs = [] then [] else [(k, strings_obj kvs)])"

definition bundle_json :: "FleetBundleSpec \<Rightarrow> json" where
  "bundle_json b = JObj (gomap
     [(''apiVersion'', JStr ''fleet.cattle.io/v1alpha1''), (''kind'', JStr ''Bundle''),
      (''metadata'', JObj (gomap ([(''name'', JStr (fb_Name b)), (''namespace'', JStr (fb_Namespace b))]
         @ strings_member ''annotations'' (fb_Annotations b) @ strings_member ''labels'' (fb_Labels b)))),
      (''spec'', JObj (gomap [(''defaultNamespace'', JStr (fb_DefaultNamespace b)), (''helm'', JObj (fb_Helm b)),
         (''targets'', JArr (fb_Targets b)), (''resources'', JArr (fb_Resources b))]))])"

definition marshalGitResources :: "json list \<Rightarrow> string" where
  "marshalGitResources objects = join document_separator (map (marshal_indent newline) objects)"

section \<open>Clean paths\<close>

lemma split_slash_nonempty [simp]: "split_slash s \<noteq> []"
  by (induction s) (auto split: list.split)

lemma split_slash_elements: "e \<in> set (split_slash s) \<Longrightarrow> CHR ''/'' \<notin> set e"
  by (induction s arbitrary: e) (auto split: list.splits if_splits)

lemma split_slash_append: "CHR ''/'' \<notin> set e \<Longrightarrow> split_slash (e @ CHR ''/'' # s) = e # split_slash s"
  by (induction e) auto

lemma split_slash_whole: "CHR ''/'' \<notin> set e \<Longrightarrow> split_slash e = [e]"
  by (induction e) auto

lemma split_join: "es \<noteq> [] \<Longrightarrow> \<forall>e \<in> set es. CHR ''/'' \<notin> set e \<Longrightarrow> split_slash (join ''/'' es) = es"
proof (induction es)
  case (Cons e es)
  then show ?case by (cases es) (auto simp: split_slash_append split_slash_whole)
qed simp

text \<open>The elements that are kept: first parent references, if the path is relative, then names.\<close>

definition clean_list :: "bool \<Rightarrow> string list \<Rightarrow> bool" where
  "clean_list rooted out \<longleftrightarrow> (\<exists>names n. out = names @ replicate n ''..'' \<and> (rooted \<longrightarrow> n = 0)
     \<and> (\<forall>e \<in> set names. e \<notin> {'''', ''.'', ''..''} \<and> CHR ''/'' \<notin> set e))"

lemma clean_step_list:
  assumes "clean_list rooted out" "CHR ''/'' \<notin> set e"
  shows "clean_list rooted (clean_step rooted out e)"
proof -
  obtain names n where o: "out = names @ replicate n ''..''" "rooted \<longrightarrow> n = 0"
    "\<forall>e \<in> set names. e \<notin> {'''', ''.'', ''..''} \<and> CHR ''/'' \<notin> set e"
    using assms(1) unfolding clean_list_def by blast
  consider "e = '''' \<or> e = ''.''" | "e = ''..''" | "e \<notin> {'''', ''.'', ''..''}" by blast
  then show ?thesis
  proof cases
    case 1
    then show ?thesis using assms by (auto simp: clean_step_def)
  next
    case 2
    show ?thesis
    proof (cases names)
      case (Cons x xs)
      then have "clean_step rooted out e = xs @ replicate n ''..''" using 2 o by (simp add: clean_step_def)
      then show ?thesis using o Cons unfolding clean_list_def by (metis list.set_intros(2))
    next
      case Nil
      show ?thesis
      proof (cases rooted)
        case True
        then show ?thesis using Nil o 2 assms by (simp add: clean_step_def)
      next
        case False
        have "clean_step rooted out e = [] @ replicate (Suc n) ''..''"
          using Nil o 2 False by (cases n) (simp_all add: clean_step_def)
        then show ?thesis using False unfolding clean_list_def by (metis empty_iff list.set(1))
      qed
    qed
  next
    case 3
    then have "clean_step rooted out e = (e # names) @ replicate n ''..''" using o by (simp add: clean_step_def)
    then show ?thesis using o 3 assms(2) unfolding clean_list_def by (metis set_ConsD)
  qed
qed

lemma clean_elements_list: "clean_list (path_IsAbs p) (rev (clean_elements p))"
proof -
  have "clean_list r (foldl (clean_step r) out es)" if "clean_list r out" "\<forall>e \<in> set es. CHR ''/'' \<notin> set e" for r out es
    using that by (induction es arbitrary: out) (auto intro: clean_step_list)
  moreover have "clean_list r []" for r unfolding clean_list_def by force
  ultimately show ?thesis using split_slash_elements by (auto simp: clean_elements_def)
qed

text \<open>A cleaned path that passes the check has no parent reference among its elements.\<close>

lemma confined_elements:
  assumes "\<not> escapes_root (path_Clean p)"
  shows "''..'' \<notin> set (split_slash (path_Clean p))"
proof -
  have rel: "\<not> path_IsAbs p" using assms by (auto simp: escapes_root_def path_Clean_def path_IsAbs_def has_prefix_def)
  show ?thesis
  proof (cases "clean_elements p = []")
    case False
    obtain names n where o: "rev (clean_elements p) = names @ replicate n ''..''"
      "\<forall>e \<in> set names. e \<notin> {'''', ''.'', ''..''} \<and> CHR ''/'' \<notin> set e"
      using clean_elements_list [of p] unfolding clean_list_def by blast
    then have ce: "clean_elements p = replicate n ''..'' @ rev names" by (metis rev_append rev_replicate rev_rev_ident)
    have pc: "path_Clean p = join ''/'' (clean_elements p)" using rel False by (simp add: path_Clean_def)
    have "n = 0"
    proof (rule ccontr)
      assume "n \<noteq> 0"
      then obtain m where n: "n = Suc m" by (cases n) auto
      define rest where "rest = replicate m ''..'' @ rev names"
      have "path_Clean p = join ''/'' (''..'' # rest)" using pc ce n by (simp add: rest_def)
      then have "path_Clean p = ''..'' \<or> has_prefix (path_Clean p) ''../''" by (cases rest) (auto simp: has_prefix_def)
      then show False using assms by (auto simp: escapes_root_def)
    qed
    then have "split_slash (path_Clean p) = rev names" using pc ce o False by (simp add: split_join)
    then show ?thesis using o by auto
  qed (use rel in \<open>simp add: path_Clean_def\<close>)
qed

section \<open>An unpacked chart is the archive\<close>

definition resource_data :: "json \<Rightarrow> string option" where
  "resource_data j =
     (case j of JObj m \<Rightarrow>
        (case obj_get m ''content'' of
           Some (JStr t) \<Rightarrow> if obj_get m ''encoding'' = Some (JStr ''base64'') then DecodeString t else Some t
         | _ \<Rightarrow> None)
      | _ \<Rightarrow> None)"

definition resource_name :: "json \<Rightarrow> string option" where
  "resource_name j =
     (case j of JObj m \<Rightarrow> (case obj_get m ''name'' of Some (JStr t) \<Rightarrow> Some t | _ \<Rightarrow> None) | _ \<Rightarrow> None)"

definition stored_size :: "json \<Rightarrow> nat" where
  "stored_size j =
     (case j of JObj m \<Rightarrow>
        (case (obj_get m ''content'', obj_get m ''name'') of (Some (JStr t), Some (JStr n)) \<Rightarrow> length t + length n | _ \<Rightarrow> 0)
      | _ \<Rightarrow> 0)"

lemma resource_json_simps [simp]:
  "resource_data (resource_json name data) = Some data"
  "resource_name (resource_json name data) = Some name"
  "stored_size (resource_json name data) = resource_size name data"
  by (simp_all add: resource_json_def resource_data_def resource_name_def stored_size_def resource_size_def)

lemma encoded_longer: "length d \<le> length (EncodeToString d)"
  by (induction d rule: EncodeToString.induct) simp_all

lemma read_limited_whole:
  assumes "read_limited (m - used + 1) h = Inr data" "used + resource_size name data \<le> m"
  shows "data = te_Data h"
proof (rule ccontr)
  assume ne: "data \<noteq> te_Data h"
  have "data = take (m - used + 1) (te_Data h)" using assms(1) by (auto simp: read_limited_def split: option.splits if_splits)
  then have "length data = m - used + 1" using ne by (metis length_take min.absorb2 nat_le_linear take_all)
  moreover have "length data \<le> resource_size name data" using encoded_longer [of data] by (simp add: resource_size_def)
  ultimately show False using assms(2) by linarith
qed

lemma unpack_entries_ok:
  assumes "unpack_entries tail hs used dir = Inr (rs, d)" "used \<le> maxBundleResourcesBytes"
  shows "tail = None \<and> rs = map (\<lambda>h. resource_json (path_Clean (te_Name h)) (te_Data h)) (filter te_Regular hs)
    \<and> (\<forall>h \<in> set (filter te_Regular hs). \<not> escapes_root (path_Clean (te_Name h)))
    \<and> used + sum_list (map stored_size rs) \<le> maxBundleResourcesBytes"
  using assms
proof (induction hs arbitrary: used dir rs d)
  case Nil
  then show ?case by (auto split: option.splits)
next
  case (Cons h hs)
  show ?case
  proof (cases "te_Regular h")
    case False
    then have u: "unpack_entries tail hs used dir = Inr (rs, d)" using Cons.prems(1) by simp
    have skip: "filter te_Regular (h # hs) = filter te_Regular hs" using False by simp
    show ?thesis unfolding skip by (rule Cons.IH [OF u Cons.prems(2)])
  next
    case True
    let ?n = "path_Clean (te_Name h)"
    obtain data where r: "read_limited (maxBundleResourcesBytes - used + 1) h = Inr data" "\<not> escapes_root ?n"
        "used + resource_size ?n data \<le> maxBundleResourcesBytes"
      using Cons.prems(1) True by (auto simp: Let_def split: sum.splits if_splits)
    then obtain rs' where u: "unpack_entries tail hs (used + resource_size ?n data) (chart_dir dir ?n) = Inr (rs', d)"
        "rs = resource_json ?n data # rs'"
      using Cons.prems(1) True by (auto simp: Let_def split: sum.splits if_splits)
    have "data = te_Data h" by (rule read_limited_whole [OF r(1,3)])
    then show ?thesis using Cons.IH [OF u(1) r(3)] u(2) r(2) True by (auto simp del: map_map)
  qed
qed

text \<open>
  C18. The resources of a git-backed chart's Bundle are the regular files of its archive, in order: each
  decodes to the whole content of its file (a file cut off by the limit is never stored), under the
  cleaned path of its entry, which is relative and has no parent reference; together they take at most
  1 MiB as stored; and the archive was read to its end without an error.
\<close>

theorem chart_unpacked:
  assumes "chartTgzToBundleResources untar tgz = Inr (rs, dir)"
  shows "\<exists>entries. untar tgz = Inr (entries, None)
    \<and> map resource_data rs = map (Some \<circ> te_Data) (filter te_Regular entries)
    \<and> map resource_name rs = map (Some \<circ> path_Clean \<circ> te_Name) (filter te_Regular entries)
    \<and> (\<forall>h \<in> set (filter te_Regular entries). \<not> path_IsAbs (path_Clean (te_Name h))
          \<and> ''..'' \<notin> set (split_slash (path_Clean (te_Name h))))
    \<and> sum_list (map stored_size rs) \<le> 1048576"
proof -
  obtain entries tail where u: "untar tgz = Inr (entries, tail)" "unpack_entries tail entries 0 '''' = Inr (rs, dir)"
    using assms by (auto simp: chartTgzToBundleResources_def split: sum.splits if_splits)
  note ok = unpack_entries_ok [OF u(2)]
  have "\<not> path_IsAbs (path_Clean (te_Name h)) \<and> ''..'' \<notin> set (split_slash (path_Clean (te_Name h)))"
    if "h \<in> set (filter te_Regular entries)" for h
    using ok that confined_elements by (auto simp: escapes_root_def)
  then show ?thesis using u(1) ok by (auto simp: maxBundleResourcesBytes_def)
qed

definition example_untar :: untar where
  "example_untar tgz =
     (if tgz = ''gz'' then Inr ([\<lparr>te_Name = ''web/'', te_Regular = False, te_Data = '''', te_Broken = None\<rparr>,
        \<lparr>te_Name = ''./web//Chart.yaml'', te_Regular = True, te_Data = ''name: web'', te_Broken = None\<rparr>,
        \<lparr>te_Name = ''web/icon'', te_Regular = True, te_Data = [CHR 0xFF, CHR 0xD8], te_Broken = None\<rparr>], None)
      else Inl (Err SOther ''invalid header''))"

lemma example_unpacked:
  "chartTgzToBundleResources example_untar ''gz'' =
     Inr ([JObj [(''content'', JStr ''name: web''), (''name'', JStr ''web/Chart.yaml'')],
           JObj [(''content'', JStr ''/9g=''), (''encoding'', JStr ''base64''), (''name'', JStr ''web/icon'')]], ''web'')"
proof -
  have c: "path_Clean ''./web//Chart.yaml'' = ''web/Chart.yaml''" "path_Clean ''web/icon'' = ''web/icon''"
    "\<not> escapes_root ''web/Chart.yaml''" "\<not> escapes_root ''web/icon''"
    "chart_dir '''' ''web/Chart.yaml'' = ''web''" "chart_dir ''web'' ''web/icon'' = ''web''"
    "valid_utf8 ''name: web''" "\<not> valid_utf8 [CHR 0xFF, CHR 0xD8]" "EncodeToString [CHR 0xFF, CHR 0xD8] = ''/9g=''"
    by code_simp+
  show ?thesis
    by (simp add: chartTgzToBundleResources_def example_untar_def read_limited_def c resource_json_def resource_size_def
        maxBundleResourcesBytes_def del: valid_utf8.simps EncodeToString.simps)
qed

theorem chart_unpacked_witness:
  "map resource_name [JObj [(''content'', JStr ''name: web''), (''name'', JStr ''web/Chart.yaml'')],
      JObj [(''content'', JStr ''/9g=''), (''encoding'', JStr ''base64''), (''name'', JStr ''web/icon'')]]
   = [Some ''web/Chart.yaml'', Some ''web/icon''] \<and> (\<exists>entries. example_untar ''gz'' = Inr (entries, None))"
proof -
  have "\<exists>entries. example_untar ''gz'' = Inr (entries, None)"
    using chart_unpacked [OF example_unpacked] by blast
  then show ?thesis by (simp add: resource_name_def)
qed

section \<open>The fingerprint identifies the render\<close>

lemma json_cut:
  assumes "marshal a @ r = marshal b @ r'" "json_doc a" "json_doc b" "delim r" "delim r'"
  shows "a = b \<and> r = r'"
proof -
  define f where "f = 2 * (length (marshal a) + length (marshal b))"
  have pa: "pval (Suc f) (marshal a @ r) = Some (norm a, r)"
    by (rule pval_marshal) (use assms(2,4) in \<open>simp_all add: f_def json_doc_def\<close>)
  have pb: "pval (Suc f) (marshal b @ r') = Some (norm b, r')"
    by (rule pval_marshal) (use assms(3,5) in \<open>simp_all add: f_def json_doc_def\<close>)
  have "norm a = norm b \<and> r = r'" using trans [OF sym [OF pa [unfolded assms(1)]] pb] by simp
  moreover have "norm a = a" "norm b = b" using assms(2,3) by (simp_all add: json_doc_def norm_canonical)
  ultimately show ?thesis by simp
qed

lemma delim_array: "delim (marshal (JArr xs) @ r)"
  by (simp add: delim_def num_char_def is_digit_def)

text \<open>
  The fingerprint of a git-backed component identifies what its Bundle is built from: two renders
  have different fingerprints, so that the Bundle is rebuilt, unless they agree in the repository, chart,
  version, release name override, namespace, indexed commit, values and targets, or two texts with the
  same SHA-256 digest are exhibited. (The named fields hold no NUL byte; the values and targets are JSON
  documents of valid UTF-8.)
\<close>

theorem fingerprint_identifies:
  assumes "\<forall>f \<in> {bc_ChartRepo c, bc_ChartName c, bc_ChartVersion c, bc_ReleaseName c, ns, commit,
             bc_ChartRepo c', bc_ChartName c', bc_ChartVersion c', bc_ReleaseName c', ns', commit'}. CHR 0x00 \<notin> set f"
    and "json_doc (values_json vals)" "json_doc (values_json vals')"
    and "json_doc (JArr l)" "json_doc (JArr l')" "json_doc (JArr d)" "json_doc (JArr d')"
  shows "gitChartFingerprint c ns commit vals l d \<noteq> gitChartFingerprint c' ns' commit' vals' l' d'
    \<or> sha256_collision (fingerprint_text c ns commit vals l d) (fingerprint_text c' ns' commit' vals' l' d')
    \<or> (bc_ChartRepo c = bc_ChartRepo c' \<and> bc_ChartName c = bc_ChartName c' \<and> bc_ChartVersion c = bc_ChartVersion c'
       \<and> bc_ReleaseName c = bc_ReleaseName c' \<and> ns = ns' \<and> commit = commit' \<and> vals = vals' \<and> l = l' \<and> d = d')"
proof (cases "fingerprint_text c ns commit vals l d = fingerprint_text c' ns' commit' vals' l' d'")
  case False
  then show ?thesis using hex_encode_inj by (auto simp: gitChartFingerprint_def sha256_collision_def)
next
  case True
  note t = True [unfolded fingerprint_text_def]
  note t1 = nul_cut [OF t] note t2 = nul_cut [OF conjunct2 [OF t1]] note t3 = nul_cut [OF conjunct2 [OF t2]]
  note t4 = nul_cut [OF conjunct2 [OF t3]] note t5 = nul_cut [OF conjunct2 [OF t4]] note t6 = nul_cut [OF conjunct2 [OF t5]]
  have f: "bc_ChartRepo c = bc_ChartRepo c'" "bc_ChartName c = bc_ChartName c'" "bc_ChartVersion c = bc_ChartVersion c'"
      "bc_ReleaseName c = bc_ReleaseName c'" "ns = ns'" "commit = commit'"
      "marshal (values_json vals) @ marshal (JArr l) @ marshal (JArr d) =
       marshal (values_json vals') @ marshal (JArr l') @ marshal (JArr d')"
    using t1 t2 t3 t4 t5 t6 assms(1) by simp_all
  note v = json_cut [OF f(7) assms(2,3) delim_array delim_array]
  have l: "l = l' \<and> marshal (JArr d) = marshal (JArr d')"
    using json_cut [OF conjunct2 [OF v] assms(4,5)] delim_array [of d "[]"] delim_array [of d' "[]"] by simp
  then have "d = d'" using json_codec.enc_inj assms(6,7) by blast
  moreover have "vals = vals'" using v by (auto simp: values_json_def split: option.splits)
  ultimately show ?thesis using f l by blast
qed

definition example_git_component :: BlueprintComponent where
  "example_git_component = \<lparr>bc_ChartRepo = ''team'', bc_ChartName = ''web'', bc_ChartVersion = ''1.0'',
     bc_Vendor = VendorSUSE, bc_TargetNamespace = '''', bc_ReleaseName = '''', bc_Values = None\<rparr>"

theorem fingerprint_identifies_witness:
  "(gitChartFingerprint example_git_component ''ai'' ''c1'' (Some []) [] [downstream_target ''edge'']
     = gitChartFingerprint example_git_component ''ai'' ''c2'' (Some []) [] [downstream_target ''edge''])
   = sha256_collision (fingerprint_text example_git_component ''ai'' ''c1'' (Some []) [] [downstream_target ''edge''])
        (fingerprint_text example_git_component ''ai'' ''c2'' (Some []) [] [downstream_target ''edge''])"
proof -
  have f: "\<forall>f \<in> {bc_ChartRepo example_git_component, bc_ChartName example_git_component, bc_ChartVersion example_git_component,
      bc_ReleaseName example_git_component, ''ai'', ''c1'', bc_ChartRepo example_git_component,
      bc_ChartName example_git_component, bc_ChartVersion example_git_component, bc_ReleaseName example_git_component,
      ''ai'', ''c2''}. CHR 0x00 \<notin> set f"
    by (simp add: example_git_component_def)
  have v: "json_doc (values_json (Some []))" by code_simp
  have l: "json_doc (JArr [])" by code_simp
  have d: "json_doc (JArr [downstream_target ''edge''])" by code_simp
  from fingerprint_identifies [OF f v v l l d d] show ?thesis by (auto simp: gitChartFingerprint_def sha256_collision_def)
qed

section \<open>A git file reads back\<close>

text \<open>
  The file that is committed for a component holds its objects: splitting it at the document
  separators and decoding each document gives the objects back, in order. No string in an object (a value
  of the user, the content of a chart file) can introduce a separator.
\<close>

theorem git_file_roundtrip:
  assumes "objects \<noteq> []" "\<forall>j \<in> set objects. json_doc j"
  shows "map unmarshal (split_documents (marshalGitResources objects)) = map Some objects"
proof -
  have nl: "indentation newline" "list_all is_space newline"
    by (auto simp: indentation_def newline_def is_space_def intro: exI [of _ 0])
  have "split_documents (marshalGitResources objects) = map (marshal_indent newline) objects"
    unfolding marshalGitResources_def
    by (rule split_join_documents) (use assms marshal_indent_calm nl(1) in \<open>auto simp: json_doc_def\<close>)
  moreover have "unmarshal (marshal_indent newline j) = Some j" if "j \<in> set objects" for j
    using unmarshal_marshal_indent [OF _ nl(2), of j] assms(2) that by (auto simp: json_doc_def norm_canonical)
  ultimately show ?thesis by simp
qed

definition example_helmop :: HelmOpSpec where
  "example_helmop = \<lparr>hs_Namespace = ''fleet-default'', hs_Name = ''demo-web'', hs_Labels = [(workloadUIDLabel, ''u1'')],
     hs_SpecLabels = [(workloadUIDLabel, ''u1'')], hs_DefaultNamespace = ''ai'',
     hs_Helm = gomap (release_options example_git_component), hs_ForceSync = 0,
     hs_Targets = [downstream_target ''edge''], hs_HelmSecretName = None\<rparr>"

theorem git_file_roundtrip_witness:
  "map unmarshal (split_documents (marshalGitResources [helmop_json example_helmop, JObj [(''note'', JStr (document_separator @ ''x''))]]))
   = [Some (helmop_json example_helmop), Some (JObj [(''note'', JStr (document_separator @ ''x''))])]"
proof -
  have "json_doc (helmop_json example_helmop)" "json_doc (JObj [(''note'', JStr (document_separator @ ''x''))])"
    by code_simp+
  then show ?thesis
    using git_file_roundtrip [of "[helmop_json example_helmop, JObj [(''note'', JStr (document_separator @ ''x''))]]"] by simp
qed

end
