(* ===== verification/Fleet.thy ===== *)
theory Fleet
  imports Git Chart
begin

text \<open>
  The Fleet objects of a blueprint workload (\<open>internal/controller/aiworkload\<close>): how a component becomes a
  HelmOp, a Bundle or a git file (\<open>blueprint.go\<close>, \<open>gitchart.go\<close>), how the stale ones are found and removed,
  and how they are deleted with the workload (\<open>aiworkload_controller.go\<close>). The API server, the Git remote
  and the chart fetcher are the calls of an environment record.
\<close>

section \<open>The environment\<close>

text \<open>The fields of a HelmOp's spec that are synchronised back; older operators wrote \<open>spec.namespace\<close>.\<close>

record HelmOpView =
  hv_Version :: "string option"
  hv_DefaultNamespace :: "string option"
  hv_Namespace :: "string option"
  hv_Values :: "jmap option"

record 's FleetAPI =
  PatchHelmOp :: "HelmOpSpec \<Rightarrow> ('s, HelmOp) act"
  GetHelmOp :: "string \<Rightarrow> string \<Rightarrow> ('s, HelmOp) act"
  UpdateHelmOp :: "string \<Rightarrow> string \<Rightarrow> HelmOp \<Rightarrow> ('s, unit) act"
  ListHelmOps :: "string \<Rightarrow> string \<Rightarrow> ('s, string list) act"
  DeleteHelmOp :: "string \<Rightarrow> string \<Rightarrow> ('s, unit) act"
  PatchFleetBundle :: "FleetBundleSpec \<Rightarrow> ('s, unit) act"
  GetFleetBundle :: "string \<Rightarrow> string \<Rightarrow> ('s, smap) act"
  DeleteFleetBundle :: "string \<Rightarrow> string \<Rightarrow> ('s, unit) act"
  ReadHelmOp :: "string \<Rightarrow> string \<Rightarrow> ('s, HelmOpView) act"
  ListDeployments :: "string \<Rightarrow> ('s, BundleDeployment list) act"

record 's Env =
  en_Git :: "'s GitEnv"
  en_Fleet :: "'s FleetAPI"
  en_Merge :: merger
  en_Repo :: "string \<Rightarrow> err + ClusterRepo"
  en_Fetch :: "(string \<Rightarrow> string \<Rightarrow> string \<Rightarrow> ('s, string) act) option"
  en_Untar :: untar

definition en_Client :: "'s Env \<Rightarrow> 's Client" where
  "en_Client en = ge_Client (en_Git en)"

definition fleetNamespaces :: "string list" where
  "fleetNamespaces = [''fleet-local'', ''fleet-default'']"

fun vendor_string :: "ComponentVendor \<Rightarrow> string" where
  "vendor_string VendorSUSE = ''suse''"
| "vendor_string VendorNvidia = ''nvidia''"
| "vendor_string (VendorOther v) = v"

section \<open>Rendering a component\<close>

text \<open>The Helm options of a HelmOp.\<close>

definition helm_spec :: "BlueprintComponent \<Rightarrow> clusterRepoInfo \<Rightarrow> jmap option \<Rightarrow> jmap" where
  "helm_spec c info vals = gomap
     ((''version'', JStr (bc_ChartVersion c)) # release_options c
      @ (if has_prefix (ri_URL info) ''oci://'' then [(''repo'', JStr (ociChartRef (ri_URL info) (bc_ChartName c)))]
         else [(''repo'', JStr (ri_URL info)), (''chart'', JStr (bc_ChartName c))])
      @ values_member vals)"

definition render_digest :: "AIWorkload \<Rightarrow> BlueprintComponent \<Rightarrow> clusterRepoInfo \<Rightarrow> jmap option \<Rightarrow> string" where
  "render_digest w c info vals = perHelmOpRenderDigest
     \<lparr>in_ChartRepo = bc_ChartRepo c, in_ChartName = bc_ChartName c, in_ChartVersion = bc_ChartVersion c,
      in_Namespace = componentNamespace w c, in_Vendor = vendor_string (bc_Vendor c), in_RepoURL = ri_URL info,
      in_Targets = TargetClusters (Spec w), in_Values = vals\<rparr>"

definition helmop_of ::
  "AIWorkload \<Rightarrow> BlueprintComponent \<Rightarrow> clusterRepoInfo \<Rightarrow> jmap option \<Rightarrow> string \<Rightarrow> string \<times> json list \<Rightarrow> HelmOpSpec" where
  "helmop_of w c info vals bundleName pair =
     \<lparr>hs_Namespace = fst pair, hs_Name = bundleName, hs_Labels = [(workloadUIDLabel, wl_UID w)],
      hs_SpecLabels = [(renderDigestLabel, renderDigestLabelValue (render_digest w c info vals)), (workloadUIDLabel, wl_UID w)],
      hs_DefaultNamespace = componentNamespace w c, hs_Helm = helm_spec c info vals,
      hs_ForceSync = retryEpochValue w, hs_Targets = snd pair,
      hs_HelmSecretName = (if ri_ClientSecret info \<noteq> '''' then Some (ri_ClientSecret info) else None)\<rparr>"

text \<open>The values of a component with the pull secrets injected; the secrets are recorded in the status.\<close>

definition record_delivery :: "string \<Rightarrow> string list \<Rightarrow> AIWorkload \<Rightarrow> AIWorkload" where
  "record_delivery ns created w =
     w\<lparr>Status := (Status w)\<lparr>PullSecretDeliveries := mergePullSecretDelivery (PullSecretDeliveries (Status w)) ns created\<rparr>\<rparr>"

definition component_values :: "'s Env \<Rightarrow> BlueprintComponent \<Rightarrow> clusterRepoInfo \<Rightarrow> ('s, jmap option) wact" where
  "component_values en c info = (\<lambda>(w, s).
     case resolveComponentValues (en_Merge en) w c of
       Inl e \<Rightarrow> (Inl (wrap_err (''resolve component values for '' @ bc_ChartName c) e), w, s)
     | Inr vals \<Rightarrow>
         (case injectorFor (bc_Vendor c) (en_Client en) (ge_OperatorNS (en_Git en)) (componentNamespace w c) info
                 (targetsLocalCluster w) vals s of
            (Inl e, s1) \<Rightarrow> (Inl (wrap_err (''inject secrets for '' @ bc_ChartName c) e), w, s1)
          | (Inr (created, vals'), s1) \<Rightarrow> (Inr vals', record_delivery (componentNamespace w c) created w, s1)))"

definition baseline_of :: "string \<Rightarrow> AIWorkload \<Rightarrow> HelmOp \<Rightarrow> RenderBaseline" where
  "baseline_of digest w ho = \<lparr>rb_HelmOpUID = ho_UID ho, rb_RenderDigest = digest, rb_RetryEpoch = retryEpochValue w,
     rb_HelmOpGeneration = ho_Generation ho, rb_AcceptedFingerprint = acceptedConditionFingerprint (Some ho)\<rparr>"

definition record_baseline :: "string \<Rightarrow> HelmOp \<Rightarrow> AIWorkload \<Rightarrow> AIWorkload" where
  "record_baseline digest ho w =
     w\<lparr>Status := (Status w)\<lparr>RenderBaselines := upsertRenderBaseline (RenderBaselines (Status w)) (baseline_of digest w ho)\<rparr>\<rparr>"

section \<open>Charts of git-backed repositories\<close>

definition fetchGitChart ::
  "(string \<Rightarrow> string \<Rightarrow> string \<Rightarrow> ('s, string) act) \<Rightarrow> BlueprintComponent \<Rightarrow> ('s, string) act" where
  "fetchGitChart fetcher c s =
     (case fetcher (bc_ChartRepo c) (bc_ChartName c) (bc_ChartVersion c) s of
        (Inl e, s1) \<Rightarrow> (Inl (wrap_err (''fetch chart '' @ bc_ChartName c) e), s1)
      | (Inr tgz, s1) \<Rightarrow> (Inr tgz, s1))"

definition gitChartBundleMatches :: "'s FleetAPI \<Rightarrow> string \<Rightarrow> string \<Rightarrow> string \<Rightarrow> 's \<Rightarrow> bool \<times> 's" where
  "gitChartBundleMatches f ns bundleName fingerprint s =
     (case GetFleetBundle f ns bundleName s of
        (Inl _, s1) \<Rightarrow> (False, s1)
      | (Inr annotations, s1) \<Rightarrow> (mget annotations chartFingerprintAnnotation = fingerprint, s1))"

fun all_match :: "'s FleetAPI \<Rightarrow> string \<Rightarrow> string \<Rightarrow> (string \<times> json list) list \<Rightarrow> 's \<Rightarrow> bool \<times> 's" where
  "all_match f bundleName fingerprint [] s = (True, s)"
| "all_match f bundleName fingerprint (p # ps) s =
     (case gitChartBundleMatches f (fst p) bundleName fingerprint s of
        (False, s1) \<Rightarrow> (False, s1)
      | (True, s1) \<Rightarrow> all_match f bundleName fingerprint ps s1)"

definition no_targets :: "BlueprintComponent \<Rightarrow> err" where
  "no_targets c = Err SOther (''GitOps blueprint component '' @ bc_ChartName c @ '' has no target clusters'')"

text \<open>The two halves of \<open>ensureBlueprintGitChartBundle\<close>, once values and fingerprint are known.\<close>

definition publish_chart_bundles ::
  "'s Env \<Rightarrow> (string \<Rightarrow> string \<Rightarrow> string \<Rightarrow> ('s, string) act) \<Rightarrow> BlueprintComponent \<Rightarrow> string \<Rightarrow> string \<Rightarrow> jmap option \<Rightarrow> ('s, string) wact" where
  "publish_chart_bundles en fetcher c bundleName fingerprint vals = (\<lambda>(w, s).
     case fetchGitChart fetcher c s of
       (Inl e, s1) \<Rightarrow> (Inl e, w, s1)
     | (Inr tgz, s1) \<Rightarrow>
         (case ecollect (\<lambda>p. case buildGitChartBundle (en_Untar en) bundleName (componentNamespace w c) fingerprint tgz c vals
                                   (fst p) (snd p) of Inl e \<Rightarrow> Inl e | Inr b \<Rightarrow> Inr [bundle_json b]) (target_pairs w) of
            Inl e \<Rightarrow> (Inl e, w, s1)
          | Inr objects \<Rightarrow>
              if objects = [] then (Inl (no_targets c), w, s1)
              else (case publishBlueprintGitFile (en_Git en) bundleName (marshalGitResources objects) (w, s1) of
                      (Inl e, w1, s2) \<Rightarrow> (Inl e, w1, s2)
                    | (Inr _, w1, s2) \<Rightarrow> (Inr fingerprint, w1, s2))))"

definition apply_chart_bundles ::
  "'s Env \<Rightarrow> (string \<Rightarrow> string \<Rightarrow> string \<Rightarrow> ('s, string) act) \<Rightarrow> BlueprintComponent \<Rightarrow> string \<Rightarrow> string \<Rightarrow> jmap option \<Rightarrow> ('s, string) wact" where
  "apply_chart_bundles en fetcher c bundleName fingerprint vals = (\<lambda>(w, s).
     case all_match (en_Fleet en) bundleName fingerprint (target_pairs w) s of
       (True, s1) \<Rightarrow> (Inr fingerprint, w, s1)
     | (False, s1) \<Rightarrow>
         (case fetchGitChart fetcher c s1 of
            (Inl e, s2) \<Rightarrow> (Inl e, w, s2)
          | (Inr tgz, s2) \<Rightarrow>
              (case for_each (target_pairs w) (\<lambda>p s.
                      case buildGitChartBundle (en_Untar en) bundleName (componentNamespace w c) fingerprint tgz c vals (fst p) (snd p) of
                        Inl e \<Rightarrow> (Inl e, s)
                      | Inr b \<Rightarrow>
                          (case PatchFleetBundle (en_Fleet en) b s of
                             (Inl e, s') \<Rightarrow> (Inl (wrap_err (''patch Bundle '' @ fst p @ ''/'' @ bundleName) e), s')
                           | (Inr _, s') \<Rightarrow> (Inr (), s'))) s2 of
                 (Inl e, s3) \<Rightarrow> (Inl e, w, s3)
               | (Inr _, s3) \<Rightarrow> (Inr fingerprint, w, s3))))"

definition ensureBlueprintGitChartBundle ::
  "'s Env \<Rightarrow> BlueprintComponent \<Rightarrow> string \<Rightarrow> clusterRepoInfo \<Rightarrow> bool \<Rightarrow> ('s, string) wact" where
  "ensureBlueprintGitChartBundle en c bundleName info gitOps = (\<lambda>(w, s).
     case en_Fetch en of
       None \<Rightarrow> (Inl (Err SCatalogClientNotConfigured (''git-backed ClusterRepo '' @ bc_ChartRepo c @ '' needs a Rancher API token'')), w, s)
     | Some fetcher \<Rightarrow>
         (case component_values en c info (w, s) of
            (Inl e, w1, s1) \<Rightarrow> (Inl e, w1, s1)
          | (Inr vals, w1, s1) \<Rightarrow>
              (let (local, downstream) = splitWorkloadTargets (TargetClusters (Spec w1));
                   fingerprint = gitChartFingerprint c (componentNamespace w1 c) (ri_Commit info) vals local downstream
               in (if gitOps then publish_chart_bundles else apply_chart_bundles) en fetcher c bundleName fingerprint vals (w1, s1))))"

section \<open>HelmOps and git files\<close>

text \<open>One workspace of the loop of \<open>ensureBlueprintHelmOp\<close>; a failed copy of the credentials is logged only.\<close>

definition patch_helmop ::
  "'s Env \<Rightarrow> BlueprintComponent \<Rightarrow> string \<Rightarrow> clusterRepoInfo \<Rightarrow> jmap option \<Rightarrow> string \<times> json list \<Rightarrow> ('s, unit) wact" where
  "patch_helmop en c bundleName info vals pair = (\<lambda>(w, s).
     let s1 = (if ri_ClientSecret info \<noteq> ''''
               then snd (ensureFleetAuthSecret (en_Client en) (fst pair) (ri_ClientSecretNS info) (ri_ClientSecret info) s) else s)
     in case PatchHelmOp (en_Fleet en) (helmop_of w c info vals bundleName pair) s1 of
          (Inl e, s2) \<Rightarrow> (Inl (wrap_err (''patch HelmOp '' @ fst pair @ ''/'' @ bundleName) e), w, s2)
        | (Inr ho, s2) \<Rightarrow> (Inr (), record_baseline (render_digest w c info vals) ho w, s2))"

definition ensureBlueprintHelmOp :: "'s Env \<Rightarrow> BlueprintComponent \<Rightarrow> string \<Rightarrow> ('s, string) wact" where
  "ensureBlueprintHelmOp en c bundleName = (\<lambda>(w, s).
     case resolveClusterRepo (en_Repo en) (bc_ChartRepo c) of
       Inl e \<Rightarrow> (Inl (wrap_err (''resolve repo '' @ bc_ChartRepo c) e), w, s)
     | Inr info \<Rightarrow>
         if ri_Kind info = RepoKindGit then ensureBlueprintGitChartBundle en c bundleName info False (w, s)
         else (case component_values en c info (w, s) of
                 (Inl e, w1, s1) \<Rightarrow> (Inl e, w1, s1)
               | (Inr vals, w1, s1) \<Rightarrow>
                   (case for_each (target_pairs w1) (patch_helmop en c bundleName info vals) (w1, s1) of
                      (Inl e, w2, s2) \<Rightarrow> (Inl e, w2, s2)
                    | (Inr _, w2, s2) \<Rightarrow> (Inr (render_digest w c info vals), w2, s2))))"

definition sync_auth :: "'s Env \<Rightarrow> clusterRepoInfo \<Rightarrow> string \<times> json list \<Rightarrow> ('s, unit) act" where
  "sync_auth en info pair s =
     (if ri_ClientSecret info \<noteq> '''' then
        (case ensureFleetAuthSecret (en_Client en) (fst pair) (ri_ClientSecretNS info) (ri_ClientSecret info) s of
           (Inl e, s1) \<Rightarrow> (Inl (wrap_err (''sync auth secret to '' @ fst pair) e), s1)
         | (Inr _, s1) \<Rightarrow> (Inr (), s1))
      else (Inr (), s))"

definition git_objects :: "AIWorkload \<Rightarrow> BlueprintComponent \<Rightarrow> clusterRepoInfo \<Rightarrow> jmap option \<Rightarrow> string \<Rightarrow> json list" where
  "git_objects w c info vals bundleName = map (\<lambda>p. helmop_json (helmop_of w c info vals bundleName p)) (target_pairs w)"

definition ensureBlueprintGitFile :: "'s Env \<Rightarrow> BlueprintComponent \<Rightarrow> string \<Rightarrow> ('s, string) wact" where
  "ensureBlueprintGitFile en c bundleName = (\<lambda>(w, s).
     case resolveClusterRepo (en_Repo en) (bc_ChartRepo c) of
       Inl e \<Rightarrow> (Inl (wrap_err (''resolve repo '' @ bc_ChartRepo c) e), w, s)
     | Inr info \<Rightarrow>
         if ri_Kind info = RepoKindGit then ensureBlueprintGitChartBundle en c bundleName info True (w, s)
         else (case component_values en c info (w, s) of
                 (Inl e, w1, s1) \<Rightarrow> (Inl e, w1, s1)
               | (Inr vals, w1, s1) \<Rightarrow>
                   (case for_each (target_pairs w1) (sync_auth en info) s1 of
                      (Inl e, s2) \<Rightarrow> (Inl e, w1, s2)
                    | (Inr _, s2) \<Rightarrow>
                        if target_pairs w1 = [] then (Inl (no_targets c), w1, s2)
                        else (case publishBlueprintGitFile (en_Git en) bundleName
                                      (marshalGitResources (git_objects w1 c info vals bundleName)) (w1, s2) of
                                (Inl e, w2, s3) \<Rightarrow> (Inl e, w2, s3)
                              | (Inr _, w2, s3) \<Rightarrow> (Inr (render_digest w1 c info vals), w2, s3)))))"

section \<open>Reading and deleting Fleet objects\<close>

definition getHelmOpIn :: "'s FleetAPI \<Rightarrow> string \<Rightarrow> string \<Rightarrow> ('s, HelmOp option) act" where
  "getHelmOpIn f ns name s =
     (case GetHelmOp f ns name s of
        (Inl e, s1) \<Rightarrow> (if err_is e = SNotFound then Inr None else Inl e, s1)
      | (Inr ho, s1) \<Rightarrow> (Inr (Some ho), s1))"

definition deleteHelmOpIn :: "'s FleetAPI \<Rightarrow> string \<Rightarrow> string \<Rightarrow> ('s, unit) act" where
  "deleteHelmOpIn f ns name s =
     (case DeleteHelmOp f ns name s of
        (Inl e, s1) \<Rightarrow> if err_is e = SNotFound then (Inr (), s1)
                      else (Inl (wrap_err (''delete HelmOp '' @ ns @ ''/'' @ name) e), s1)
      | (Inr _, s1) \<Rightarrow> (Inr (), s1))"

definition deleteBundleIn :: "'s FleetAPI \<Rightarrow> string \<Rightarrow> string \<Rightarrow> ('s, unit) act" where
  "deleteBundleIn f ns name s =
     (case DeleteFleetBundle f ns name s of
        (Inl e, s1) \<Rightarrow> if err_is e = SNotFound then (Inr (), s1)
                      else (Inl (wrap_err (''delete Bundle '' @ ns @ ''/'' @ name) e), s1)
      | (Inr _, s1) \<Rightarrow> (Inr (), s1))"

text \<open>A loop that goes on after an error and joins the errors (\<open>errors.Join\<close>).\<close>

fun join_errors :: "('b \<Rightarrow> ('s, unit) act) \<Rightarrow> 'b list \<Rightarrow> ('s, unit) act" where
  "join_errors f [] s = (Inr (), s)"
| "join_errors f (x # xs) s =
     (case f x s of (r, s1) \<Rightarrow>
      (case join_errors f xs s1 of (r', s2) \<Rightarrow> (case r of Inl e \<Rightarrow> (Inl e, s2) | Inr _ \<Rightarrow> (r', s2))))"

definition deleteHelmOp :: "'s FleetAPI \<Rightarrow> string \<Rightarrow> ('s, unit) act" where
  "deleteHelmOp f name = join_errors (\<lambda>ns. deleteHelmOpIn f ns name) fleetNamespaces"

definition deleteBundle :: "'s FleetAPI \<Rightarrow> string \<Rightarrow> ('s, unit) act" where
  "deleteBundle f name = join_errors (\<lambda>ns. deleteBundleIn f ns name) fleetNamespaces"

section \<open>Removing what is no longer desired\<close>

definition backfill_label :: "'s FleetAPI \<Rightarrow> string \<Rightarrow> string \<times> string \<Rightarrow> ('s, unit) act" where
  "backfill_label f uid k s =
     (case getHelmOpIn f (fst k) (snd k) s of
        (Inl e, s1) \<Rightarrow> (Inl e, s1)
      | (Inr None, s1) \<Rightarrow> (Inr (), s1)
      | (Inr (Some ho), s1) \<Rightarrow>
          if mget (ho_Labels ho) workloadUIDLabel = ''''
          then UpdateHelmOp f (fst k) (snd k) (ho\<lparr>ho_Labels := (ho_Labels ho)(workloadUIDLabel \<mapsto> uid)\<rparr>) s1
          else (Inr (), s1))"

definition remove_stale :: "'s Env \<Rightarrow> AIWorkloadDeployStrategy \<Rightarrow> (string \<times> string) list \<Rightarrow> string \<Rightarrow> string \<Rightarrow> ('s, unit) act" where
  "remove_stale en strategy desired ns name s =
     (if (ns, name) \<in> set desired then (Inr (), s)
      else if strategy = AIWorkloadDeployGitOps then deleteGitFileByName (en_Git en) name s
      else bnd (deleteHelmOpIn (en_Fleet en) ns name) (\<lambda>_. deleteBundleIn (en_Fleet en) ns name) s)"

definition remove_stale_in :: "'s Env \<Rightarrow> AIWorkload \<Rightarrow> (string \<times> string) list \<Rightarrow> string \<Rightarrow> ('s, unit) act" where
  "remove_stale_in en w desired ns =
     bnd (ListHelmOps (en_Fleet en) ns (wl_UID w)) (\<lambda>names.
       for_each names (remove_stale en (DeployStrategy (Spec w)) desired ns))"

definition cleanupStaleHelmOps :: "'s Env \<Rightarrow> AIWorkload \<Rightarrow> HelmOpKey list \<Rightarrow> ('s, unit) act" where
  "cleanupStaleHelmOps en w desired =
     bnd (for_each (FleetBundleNames (Spec w)) (\<lambda>name.
            for_each fleetNamespaces (\<lambda>ns. backfill_label (en_Fleet en) (wl_UID w) (ns, name)))) (\<lambda>_.
       for_each fleetNamespaces (remove_stale_in en w (map key_id desired)))"

definition collectDesiredHelmOpUIDs :: "'s FleetAPI \<Rightarrow> HelmOpKey list \<Rightarrow> 's \<Rightarrow> string list \<times> 's" where
  "collectDesiredHelmOpUIDs f keys s =
     foldl (\<lambda>(uids, s) k. case getHelmOpIn f (k_Namespace k) (k_Name k) s of
        (Inr (Some ho), s1) \<Rightarrow> (uids @ [ho_UID ho], s1) | (_, s1) \<Rightarrow> (uids, s1)) ([], s) keys"

section \<open>The loop over the components\<close>

text \<open>
  The loop of \<open>reconcileBlueprintStatus\<close>: an error of a component's deployment, which is turned into a
  condition, and one of the lookup of a HelmOp, which is returned as it is.
\<close>

datatype step_error = ComponentError BlueprintComponent err | PassError err

definition deploy_component :: "'s Env \<Rightarrow> BlueprintComponent \<Rightarrow> ('s, string) wact" where
  "deploy_component en c = (\<lambda>(w, s).
     let bundleName = blueprintBundleName (wl_Name w) (bc_ChartName c)
     in case DeployStrategy (Spec w) of
          AIWorkloadDeployFleetBundle \<Rightarrow> ensureBlueprintHelmOp en c bundleName (w, s)
        | AIWorkloadDeployGitOps \<Rightarrow> ensureBlueprintGitFile en c bundleName (w, s)
        | AIWorkloadDeployHelm \<Rightarrow> (Inr '''', w, s))"

definition git_baseline :: "'s Env \<Rightarrow> string \<Rightarrow> HelmOpKey \<Rightarrow> ('s, unit) wact" where
  "git_baseline en digest k = (\<lambda>(w, s).
     if DeployStrategy (Spec w) \<noteq> AIWorkloadDeployGitOps then (Inr (), w, s)
     else case getHelmOpIn (en_Fleet en) (k_Namespace k) (k_Name k) s of
            (Inl e, s1) \<Rightarrow> (Inl e, w, s1)
          | (Inr None, s1) \<Rightarrow> (Inr (), w, s1)
          | (Inr (Some ho), s1) \<Rightarrow> (Inr (), record_baseline digest ho w, s1))"

definition workload_keys :: "AIWorkload \<Rightarrow> BlueprintComponent list \<Rightarrow> HelmOpKey list" where
  "workload_keys w cs = desiredHelmOpKeys (wl_Name w) (TargetClusters (Spec w)) cs (DeployStrategy (Spec w))"

definition digest_key :: "HelmOpKey \<Rightarrow> string" where
  "digest_key k = k_Namespace k @ ''/'' @ k_Name k"

fun ensure_components :: "'s Env \<Rightarrow> BlueprintComponent list \<Rightarrow> smap \<Rightarrow> AIWorkload \<times> 's \<Rightarrow> (step_error + smap) \<times> AIWorkload \<times> 's" where
  "ensure_components en [] ds ws = (Inr ds, ws)"
| "ensure_components en (c # cs) ds ws =
     (case deploy_component en c ws of
        (Inl e, ws1) \<Rightarrow> (Inl (ComponentError c e), ws1)
      | (Inr digest, ws1) \<Rightarrow>
          (case for_each (workload_keys (fst ws1) [c]) (git_baseline en digest) ws1 of
             (Inl e, ws2) \<Rightarrow> (Inl (PassError e), ws2)
           | (Inr _, ws2) \<Rightarrow>
               ensure_components en cs (foldl (\<lambda>ds k. ds(digest_key k \<mapsto> digest)) ds (workload_keys (fst ws1) [c])) ws2))"

end
