(* ===== verification/FleetStore.thy ===== *)
theory FleetStore
  imports Fleet
begin

text \<open>
  The laws of the store of Fleet objects, and what the operations of \<open>Fleet\<close> do to it: rendering a
  component writes the HelmOps of its workspaces and nothing else, and the cleanup removes exactly the
  HelmOps that carry the workload's label and are not desired. A deletion that is accepted is taken to be
  complete: Fleet's finalizers are not modelled.
\<close>

section \<open>The laws\<close>

text \<open>
  Server-side apply with forced ownership: what the operator sets, the stored object has. It may have more
  labels, and more members of the Helm values, that other writers own.
\<close>

definition applies :: "HelmOpSpec \<Rightarrow> HelmOp \<times> HelmOpSpec \<Rightarrow> bool" where
  "applies sp stored \<longleftrightarrow> (case stored of (ho, st) \<Rightarrow>
     hs_Namespace st = hs_Namespace sp \<and> hs_Name st = hs_Name sp
     \<and> hs_DefaultNamespace st = hs_DefaultNamespace sp \<and> hs_ForceSync st = hs_ForceSync sp \<and> hs_Targets st = hs_Targets sp
     \<and> (\<forall>k v. k \<noteq> ''values'' \<longrightarrow> obj_get (hs_Helm sp) k = Some v \<longrightarrow> obj_get (hs_Helm st) k = Some v)
     \<and> (\<forall>k v. map_of (hs_SpecLabels sp) k = Some v \<longrightarrow> map_of (hs_SpecLabels st) k = Some v)
     \<and> (\<forall>k v. map_of (hs_Labels sp) k = Some v \<longrightarrow> ho_Labels ho k = Some v)
     \<and> (\<forall>n. hs_HelmSecretName sp = Some n \<longrightarrow> hs_HelmSecretName st = Some n))"

definition fb_applies :: "FleetBundleSpec \<Rightarrow> FleetBundleSpec \<Rightarrow> bool" where
  "fb_applies b stored \<longleftrightarrow>
     fb_Namespace stored = fb_Namespace b \<and> fb_Name stored = fb_Name b
     \<and> fb_DefaultNamespace stored = fb_DefaultNamespace b \<and> fb_Targets stored = fb_Targets b \<and> fb_Resources stored = fb_Resources b
     \<and> (\<forall>k v. map_of (fb_Annotations b) k = Some v \<longrightarrow> map_of (fb_Annotations stored) k = Some v)
     \<and> (\<forall>k v. map_of (fb_Labels b) k = Some v \<longrightarrow> map_of (fb_Labels stored) k = Some v)"

definition labelled :: "string \<Rightarrow> (HelmOp \<times> HelmOpSpec) option \<Rightarrow> bool" where
  "labelled uid stored \<longleftrightarrow> (\<exists>ho st. stored = Some (ho, st) \<and> ho_Labels ho workloadUIDLabel = Some uid)"

definition spec_key :: "HelmOpSpec \<Rightarrow> string \<times> string" where
  "spec_key sp = (hs_Namespace sp, hs_Name sp)"

locale fleet_store =
  fixes f :: "'s FleetAPI"
    and ops :: "'s \<Rightarrow> string \<times> string \<Rightarrow> (HelmOp \<times> HelmOpSpec) option"
    and fbs :: "'s \<Rightarrow> string \<times> string \<Rightarrow> FleetBundleSpec option"
  assumes patch_op: "PatchHelmOp f sp s = (rp, s') \<Longrightarrow> fbs s' = fbs s
        \<and> ((\<exists>ho st. ops s' = (ops s)(spec_key sp \<mapsto> (ho, st)) \<and> applies sp (ho, st) \<and> (isl rp \<or> rp = Inr ho))
           \<or> isl rp \<and> ops s' = ops s)"
    and get_op: "GetHelmOp f ns n s = (rg, s') \<Longrightarrow> ops s' = ops s \<and> fbs s' = fbs s
        \<and> (\<forall>ho. rg = Inr ho \<longrightarrow> (\<exists>st. ops s (ns, n) = Some (ho, st)))
        \<and> (\<forall>e. rg = Inl e \<longrightarrow> err_is e = SNotFound \<longrightarrow> ops s (ns, n) = None)"
    and update_op: "UpdateHelmOp f ns n ho s = (ru, s') \<Longrightarrow> fbs s' = fbs s
        \<and> ((\<exists>old st ho'. ops s (ns, n) = Some (old, st) \<and> ops s' = (ops s)((ns, n) \<mapsto> (ho', st)) \<and> ho_Labels ho' = ho_Labels ho)
           \<or> isl ru \<and> ops s' = ops s)"
    and list_ops: "ListHelmOps f ns uid s = (rl, s') \<Longrightarrow> ops s' = ops s \<and> fbs s' = fbs s
        \<and> (\<forall>names. rl = Inr names \<longrightarrow> (\<forall>n. n \<in> set names \<longleftrightarrow> labelled uid (ops s (ns, n))))"
    and delete_op: "DeleteHelmOp f ns n s = (rd, s') \<Longrightarrow> fbs s' = fbs s
        \<and> (ops s' = (ops s)((ns, n) := None) \<or> isl rd \<and> ops s' = ops s)
        \<and> (\<forall>e. rd = Inl e \<longrightarrow> err_is e = SNotFound \<longrightarrow> ops s' (ns, n) = None)"
    and patch_fb: "PatchFleetBundle f b s = (rb, s') \<Longrightarrow> ops s' = ops s
        \<and> ((\<exists>b'. fbs s' = (fbs s)((fb_Namespace b, fb_Name b) \<mapsto> b') \<and> fb_applies b b') \<or> isl rb \<and> fbs s' = fbs s)"
    and get_fb: "GetFleetBundle f ns n s = (rf, s') \<Longrightarrow> ops s' = ops s \<and> fbs s' = fbs s
        \<and> (\<forall>m. rf = Inr m \<longrightarrow> (\<exists>b. fbs s (ns, n) = Some b \<and> m = map_of (fb_Annotations b)))"
    and delete_fb: "DeleteFleetBundle f ns n s = (rx, s') \<Longrightarrow> ops s' = ops s
        \<and> (fbs s' = (fbs s)((ns, n) := None) \<or> isl rx \<and> fbs s' = fbs s)
        \<and> (\<forall>e. rx = Inl e \<longrightarrow> err_is e = SNotFound \<longrightarrow> fbs s' (ns, n) = None)"
begin

lemma helmop_get_step:
  "getHelmOpIn f ns n s = (r, s') \<Longrightarrow> ops s' = ops s \<and> fbs s' = fbs s
     \<and> (\<forall>x. r = Inr x \<longrightarrow> (case x of None \<Rightarrow> ops s (ns, n) = None | Some ho \<Rightarrow> \<exists>st. ops s (ns, n) = Some (ho, st)))"
  using get_op [of ns n s] by (auto simp: getHelmOpIn_def split: prod.splits sum.splits if_splits)

lemma helmop_delete_step:
  assumes "deleteHelmOpIn f ns n s = (r, s')"
  shows "fbs s' = fbs s \<and> (ops s' = (ops s)((ns, n) := None) \<or> isl r \<and> ops s' = ops s)"
proof -
  obtain rd s1 where d: "DeleteHelmOp f ns n s = (rd, s1)" by (cases "DeleteHelmOp f ns n s")
  have "fbs s1 = fbs s \<and> (ops s1 = (ops s)((ns, n) := None) \<or> ops s1 = ops s \<and> (\<exists>e. rd = Inl e \<and> err_is e \<noteq> SNotFound))"
    using delete_op [OF d] fun_upd_idem [of "ops s" "(ns, n)" None] by (cases rd) auto
  then show ?thesis using assms d by (cases rd) (auto simp: deleteHelmOpIn_def split: if_splits)
qed

lemma bundle_delete_step:
  assumes "deleteBundleIn f ns n s = (r, s')"
  shows "ops s' = ops s \<and> (fbs s' = (fbs s)((ns, n) := None) \<or> isl r \<and> fbs s' = fbs s)"
proof -
  obtain rd s1 where d: "DeleteFleetBundle f ns n s = (rd, s1)" by (cases "DeleteFleetBundle f ns n s")
  have "ops s1 = ops s \<and> (fbs s1 = (fbs s)((ns, n) := None) \<or> fbs s1 = fbs s \<and> (\<exists>e. rd = Inl e \<and> err_is e \<noteq> SNotFound))"
    using delete_fb [OF d] fun_upd_idem [of "fbs s" "(ns, n)" None] by (cases rd) auto
  then show ?thesis using assms d by (cases rd) (auto simp: deleteBundleIn_def split: if_splits)
qed

end

text \<open>
  The calls of an environment that read credentials or fetch charts leave the Fleet objects alone. They are
  separate kinds of objects, or another server.
\<close>

locale fleet_client = creds: client_frame "en_Client en" "\<lambda>s. (ops s, fbs s)" + fleet_store "en_Fleet en" ops fbs
  for en :: "'s Env" and ops :: "'s \<Rightarrow> string \<times> string \<Rightarrow> (HelmOp \<times> HelmOpSpec) option"
    and fbs :: "'s \<Rightarrow> string \<times> string \<Rightarrow> FleetBundleSpec option" +
  assumes fetch_frame: "en_Fetch en = Some fetcher \<Longrightarrow> leaves (\<lambda>s. (ops s, fbs s)) (fetcher repo n v)"

section \<open>What a render reads of the workload\<close>

text \<open>The methods change the status of the object in memory; what they render does not depend on it.\<close>

definition same_main :: "AIWorkload \<Rightarrow> AIWorkload \<Rightarrow> bool" where
  "same_main w w' \<longleftrightarrow> (\<exists>st. w' = w\<lparr>Status := st\<rparr>)"

lemma same_main_refl [simp]: "same_main w w"
  by (auto simp: same_main_def intro: exI [of _ "Status w"])

lemma same_main_trans: "same_main w w' \<Longrightarrow> same_main w' w'' \<Longrightarrow> same_main w w''"
  by (auto simp: same_main_def)

lemma same_main_updates [simp]:
  "same_main w (record_delivery ns created w)" "same_main w (record_baseline digest ho w)"
  by (auto simp: same_main_def record_delivery_def record_baseline_def)

lemma same_main_fields:
  assumes "same_main w w'"
  shows "Spec w' = Spec w" "wl_UID w' = wl_UID w" "wl_Name w' = wl_Name w" "Annotations w' = Annotations w"
    "target_pairs w' = target_pairs w" "componentNamespace w' c = componentNamespace w c"
    "render_digest w' c info vals = render_digest w c info vals"
    "helmop_of w' c info vals n p = helmop_of w c info vals n p"
  using assms
  by (auto simp: same_main_def target_pairs_def componentNamespace_def render_digest_def helmop_of_def retryEpochValue_def)

lemma target_pairs_namespaces: "distinct (map fst (target_pairs w)) \<and> set (map fst (target_pairs w)) \<subseteq> set fleetNamespaces"
  by (auto simp: target_pairs_def fleetNamespaces_def split: prod.split)

section \<open>Rendering a component\<close>

text \<open>What one component leaves in the store: an up-to-date HelmOp in each of its workspaces.\<close>

definition rendered ::
  "'s Env \<Rightarrow> AIWorkload \<Rightarrow> BlueprintComponent \<Rightarrow> string \<Rightarrow> string \<Rightarrow> (string \<times> string \<Rightarrow> (HelmOp \<times> HelmOpSpec) option) \<Rightarrow> bool" where
  "rendered en w c n digest stored \<longleftrightarrow>
     (\<exists>info vals. resolveClusterRepo (en_Repo en) (bc_ChartRepo c) = Inr info \<and> digest = render_digest w c info vals
        \<and> (\<forall>p \<in> set (target_pairs w). \<exists>x. stored (fst p, n) = Some x \<and> applies (helmop_of w c info vals n p) x))"

definition git_backed :: "'s Env \<Rightarrow> BlueprintComponent \<Rightarrow> bool" where
  "git_backed en c \<longleftrightarrow> (\<exists>info. resolveClusterRepo (en_Repo en) (bc_ChartRepo c) = Inr info \<and> ri_Kind info = RepoKindGit)"

context fleet_client begin

abbreviation objs where "objs s \<equiv> (ops s, fbs s)"

lemma values_step:
  assumes "component_values en c info (w, s) = (r, w', s')"
  shows "objs s' = objs s \<and> same_main w w'"
proof (cases "resolveComponentValues (en_Merge en) w c")
  case (Inl e)
  then show ?thesis using assms by (simp add: component_values_def)
next
  case (Inr vals)
  let ?i = "injectorFor (bc_Vendor c) (en_Client en) (ge_OperatorNS (en_Git en)) (componentNamespace w c) info (targetsLocalCluster w) vals"
  obtain ri s1 where i: "?i s = (ri, s1)" by (cases "?i s")
  then have "objs s1 = objs s"
    using creds.injector_obs [of "bc_Vendor c" "ge_OperatorNS (en_Git en)" "componentNamespace w c" info "targetsLocalCluster w" vals s]
    by simp
  then show ?thesis using assms i Inr by (auto simp: component_values_def split: sum.splits)
qed

lemma patch_helmop_step:
  assumes "patch_helmop en c n info vals p (w, s) = (r, w', s')"
  shows "fbs s' = fbs s \<and> same_main w w'
    \<and> ((\<exists>x. ops s' = (ops s)((fst p, n) \<mapsto> x) \<and> applies (helmop_of w c info vals n p) x) \<or> isl r \<and> ops s' = ops s)"
proof -
  define s1 where "s1 = (if ri_ClientSecret info \<noteq> ''''
     then snd (ensureFleetAuthSecret (en_Client en) (fst p) (ri_ClientSecretNS info) (ri_ClientSecret info) s) else s)"
  have s1: "objs s1 = objs s"
    using creds.fleet_auth_obs [of "fst p" "ri_ClientSecretNS info" "ri_ClientSecret info" s] by (simp add: s1_def)
  let ?sp = "helmop_of w c info vals n p"
  obtain rp s2 where q: "PatchHelmOp (en_Fleet en) ?sp s1 = (rp, s2)" by (cases "PatchHelmOp (en_Fleet en) ?sp s1")
  have k: "spec_key ?sp = (fst p, n)" by (simp add: spec_key_def helmop_of_def)
  have e: "s' = s2" "isl rp \<longrightarrow> isl r" "same_main w w'"
    using assms q by (auto simp: patch_helmop_def Let_def s1_def [symmetric] split: sum.splits)
  show ?thesis using patch_op [OF q, unfolded k] e s1 by auto
qed

lemma patch_pairs_step:
  assumes "for_each ps (patch_helmop en c n info vals) (w, s) = (Inr u, w', s')" "distinct (map fst ps)"
  shows "fbs s' = fbs s \<and> same_main w w'
    \<and> (\<forall>p \<in> set ps. \<exists>x. ops s' (fst p, n) = Some x \<and> applies (helmop_of w c info vals n p) x)
    \<and> (\<forall>k. k \<notin> (\<lambda>p. (fst p, n)) ` set ps \<longrightarrow> ops s' k = ops s k)"
proof -
  let ?I = "\<lambda>ws. fbs (snd ws) = fbs s \<and> same_main w (fst ws)"
  let ?L = "\<lambda>ws. ops (snd ws)" and ?key = "\<lambda>p. (fst p, n)"
  let ?Q = "\<lambda>p v. \<exists>x. v = Some x \<and> applies (helmop_of w c info vals n p) x"
  have step: "?I ws' \<and> ?Q p (?L ws' (?key p)) \<and> (\<forall>k. k \<noteq> ?key p \<longrightarrow> ?L ws' k = ?L ws k)"
    if "p \<in> set ps" "?I ws" "patch_helmop en c n info vals p ws = (Inr (), ws')" for p ws ws'
  proof -
    obtain v t v' t' where ws: "ws = (v, t)" "ws' = (v', t')" by (cases ws; cases ws')
    have v: "same_main w v" "fbs t = fbs s" using that(2) by (simp_all add: ws)
    have "patch_helmop en c n info vals p (v, t) = (Inr (), v', t')" using that(3) by (simp add: ws)
    note st = patch_helmop_step [OF this, unfolded same_main_fields(8) [OF v(1)]]
    then obtain x where x: "ops t' = (ops t)((fst p, n) \<mapsto> x)" "applies (helmop_of w c info vals n p) x" by auto
    have "same_main w v'" using st v(1) same_main_trans by blast
    then show ?thesis using st x v(2) by (simp add: ws)
  qed
  have same: "?Q p = ?Q q" if "p \<in> set ps" "q \<in> set ps" "?key p = ?key q" for p q
  proof -
    have "p = q" using that assms(2) by (auto simp: distinct_map dest: inj_onD)
    then show ?thesis by simp
  qed
  have "?I (w', s') \<and> (\<forall>p \<in> set ps. ?Q p (?L (w', s') (?key p))) \<and> (\<forall>k. k \<notin> ?key ` set ps \<longrightarrow> ?L (w', s') k = ?L (w, s) k)"
    by (rule for_each_sets_inv [where I = ?I and Q = ?Q and L = ?L and key = ?key, OF assms(1) _ step same]) simp
  then show ?thesis by simp
qed

text \<open>A git-backed component writes Bundles, not HelmOps.\<close>

lemma matches_step: "gitChartBundleMatches (en_Fleet en) ns n fp s = (b, s') \<Longrightarrow> objs s' = objs s"
  using get_fb [of ns n s] by (auto simp: gitChartBundleMatches_def split: prod.splits sum.splits)

lemma all_match_step: "all_match (en_Fleet en) n fp ps s = (b, s') \<Longrightarrow> objs s' = objs s"
proof (induction ps arbitrary: s)
  case (Cons p ps)
  obtain b1 s1 where m: "gitChartBundleMatches (en_Fleet en) (fst p) n fp s = (b1, s1)"
    by (cases "gitChartBundleMatches (en_Fleet en) (fst p) n fp s")
  then show ?case using Cons matches_step [OF m] by (auto split: bool.splits)
qed simp

lemma fetch_step: "en_Fetch en = Some fetcher \<Longrightarrow> fetchGitChart fetcher c s = (r, s') \<Longrightarrow> objs s' = objs s"
  using leavesD [OF fetch_frame] by (fastforce simp: fetchGitChart_def split: prod.splits sum.splits)

lemma apply_chart_ops:
  assumes "apply_chart_bundles en fetcher c n fp vals (w, s) = (r, w', s')" "en_Fetch en = Some fetcher"
  shows "ops s' = ops s \<and> w' = w"
proof -
  let ?body = "\<lambda>tgz p s. case buildGitChartBundle (en_Untar en) n (componentNamespace w c) fp tgz c vals (fst p) (snd p) of
       Inl e \<Rightarrow> (Inl e, s)
     | Inr b \<Rightarrow> (case PatchFleetBundle (en_Fleet en) b s of
           (Inl e, s') \<Rightarrow> (Inl (wrap_err (''patch Bundle '' @ fst p @ ''/'' @ n) e), s') | (Inr _, s') \<Rightarrow> (Inr (), s'))"
  have body: "leaves ops (for_each (target_pairs w) (?body tgz))" for tgz
  proof (rule leaves_for_each)
    fix p
    show "leaves ops (?body tgz p)"
      unfolding leaves_def using patch_fb by (auto split: sum.split prod.split)
  qed
  obtain b s1 where m: "all_match (en_Fleet en) n fp (target_pairs w) s = (b, s1)"
    by (cases "all_match (en_Fleet en) n fp (target_pairs w) s")
  show ?thesis
  proof (cases b)
    case True
    then show ?thesis using assms m all_match_step [OF m] by (simp add: apply_chart_bundles_def)
  next
    case False
    obtain rf s2 where g: "fetchGitChart fetcher c s1 = (rf, s2)" by (cases "fetchGitChart fetcher c s1")
    have s2: "ops s2 = ops s" using all_match_step [OF m] fetch_step [OF assms(2) g] by simp
    show ?thesis
    proof (cases rf)
      case (Inl e)
      then show ?thesis using assms m False g s2 by (simp add: apply_chart_bundles_def)
    next
      case (Inr tgz)
      obtain ru s3 where e: "for_each (target_pairs w) (?body tgz) s2 = (ru, s3)" by (cases "for_each (target_pairs w) (?body tgz) s2")
      show ?thesis using assms m False g s2 Inr e leavesD [OF body e]
        by (auto simp: apply_chart_bundles_def split: sum.splits)
    qed
  qed
qed

lemma helmop_step:
  assumes "ensureBlueprintHelmOp en c n (w, s) = (Inr digest, w', s')"
  shows "same_main w w' \<and> (if git_backed en c then ops s' = ops s
    else rendered en w c n digest (ops s') \<and> fbs s' = fbs s \<and> (\<forall>k. k \<notin> (\<lambda>p. (fst p, n)) ` set (target_pairs w) \<longrightarrow> ops s' k = ops s k))"
proof -
  obtain info where i: "resolveClusterRepo (en_Repo en) (bc_ChartRepo c) = Inr info"
    using assms by (cases "resolveClusterRepo (en_Repo en) (bc_ChartRepo c)") (simp_all add: ensureBlueprintHelmOp_def)
  obtain rv w1 s1 where v: "component_values en c info (w, s) = (rv, w1, s1)" by (metis surj_pair)
  note vs = values_step [OF v]
  show ?thesis
  proof (cases "ri_Kind info = RepoKindGit")
    case True
    then have g: "git_backed en c" using i by (simp add: git_backed_def)
    have e: "ensureBlueprintGitChartBundle en c n info False (w, s) = (Inr digest, w', s')"
      using assms i True by (simp add: ensureBlueprintHelmOp_def)
    obtain fetcher where f: "en_Fetch en = Some fetcher"
      using e by (cases "en_Fetch en") (simp_all add: ensureBlueprintGitChartBundle_def)
    obtain vals where rv: "rv = Inr vals" using e f v by (cases rv) (simp_all add: ensureBlueprintGitChartBundle_def)
    obtain fp where a: "apply_chart_bundles en fetcher c n fp vals (w1, s1) = (Inr digest, w', s')"
      using e f v rv by (auto simp: ensureBlueprintGitChartBundle_def split: prod.splits)
    show ?thesis using apply_chart_ops [OF a f] vs g by simp
  next
    case False
    then have g: "\<not> git_backed en c" using i by (simp add: git_backed_def)
    obtain vals where rv: "rv = Inr vals" using assms i False v by (cases rv) (simp_all add: ensureBlueprintHelmOp_def)
    obtain u where p: "for_each (target_pairs w1) (patch_helmop en c n info vals) (w1, s1) = (Inr u, w', s')"
        and d: "digest = render_digest w c info vals"
      using assms i False v rv by (auto simp: ensureBlueprintHelmOp_def split: prod.splits sum.splits)
    note ps = patch_pairs_step [OF p conjunct1 [OF target_pairs_namespaces], unfolded same_main_fields [OF conjunct2 [OF vs]]]
    show ?thesis using ps vs g i d same_main_trans by (auto simp: rendered_def)
  qed
qed

end

section \<open>Workspaces and keys\<close>

lemma split_targets:
  "fst (splitWorkloadTargets ids) = [] \<longleftrightarrow> ''local'' \<notin> set ids"
  "snd (splitWorkloadTargets ids) = [] \<longleftrightarrow> set ids \<subseteq> {''local''}"
  by (induction ids) (auto split: prod.split)

lemma target_namespaces:
  "fst ` set (target_pairs w) = {ns. ns = ''fleet-local'' \<and> ''local'' \<in> set (TargetClusters (Spec w))
     \<or> ns = ''fleet-default'' \<and> \<not> set (TargetClusters (Spec w)) \<subseteq> {''local''}}"
  using split_targets [of "TargetClusters (Spec w)"]
  by (cases "splitWorkloadTargets (TargetClusters (Spec w))") (auto simp: target_pairs_def)

lemma component_key_pairs:
  "st \<noteq> AIWorkloadDeployHelm \<Longrightarrow> key_id ` set (component_keys wn l d st c) =
     {ns. ns = ''fleet-local'' \<and> 0 < l \<or> ns = ''fleet-default'' \<and> 0 < d} \<times> {blueprintBundleName wn (bc_ChartName c)}"
  by (auto simp: component_keys_def Let_def key_id_def)

lemma workload_keys_ids:
  assumes "DeployStrategy (Spec w) \<noteq> AIWorkloadDeployHelm"
  shows "key_id ` set (workload_keys w cs) =
    fst ` set (target_pairs w) \<times> (\<lambda>c. blueprintBundleName (wl_Name w) (bc_ChartName c)) ` set cs"
proof -
  have d: "0 < downstreamTargets cl \<longleftrightarrow> \<not> set cl \<subseteq> {''local''}" for cl
    by (auto simp: downstreamTargets_def filter_empty_conv)
  have l: "0 < localTargets cl \<longleftrightarrow> ''local'' \<in> set cl" for cl
    by (simp add: localTargets_def)
  show ?thesis
    unfolding target_namespaces workload_keys_def desiredHelmOpKeys_set image_UN component_key_pairs [OF assms] d l by blast
qed

definition bundle_of :: "AIWorkload \<Rightarrow> BlueprintComponent \<Rightarrow> string" where
  "bundle_of w c = blueprintBundleName (wl_Name w) (bc_ChartName c)"

lemma same_main_keys: "same_main w w' \<Longrightarrow> workload_keys w' cs = workload_keys w cs \<and> bundle_of w' c = bundle_of w c"
  by (auto simp: same_main_def workload_keys_def bundle_of_def)

lemma digest_keys_differ:
  assumes "ns \<in> set fleetNamespaces" "ns' \<in> set fleetNamespaces" "ns @ ''/'' @ n = ns' @ ''/'' @ n'"
  shows "ns = ns' \<and> n = n'"
  using assms by (auto simp: fleetNamespaces_def)

lemma foldl_digests:
  "foldl (\<lambda>ds k. ds(digest_key k \<mapsto> d)) ds ks x = (if x \<in> digest_key ` set ks then Some d else ds x)"
  by (induction ks arbitrary: ds) auto

lemma no_git_baseline:
  "DeployStrategy (Spec w) \<noteq> AIWorkloadDeployGitOps \<Longrightarrow> for_each ks (git_baseline en d) (w, s) = (Inr (), w, s)"
  by (induction ks) (simp_all add: git_baseline_def)

lemma workload_key_space: "k \<in> set (workload_keys w cs) \<Longrightarrow> k_Namespace k \<in> set fleetNamespaces \<and> k_Name k \<in> bundle_of w ` set cs"
  by (auto simp: workload_keys_def desiredHelmOpKeys_set component_keys_set fleetNamespaces_def bundle_of_def)

definition digests_recorded :: "AIWorkload \<Rightarrow> BlueprintComponent \<Rightarrow> string \<Rightarrow> smap \<Rightarrow> bool" where
  "digests_recorded w c digest ds \<longleftrightarrow> (\<forall>k \<in> set (workload_keys w [c]). ds (digest_key k) = Some digest)"

section \<open>All components\<close>

context fleet_client begin

lemma rendered_cong: "same_main w w' \<Longrightarrow> rendered en w' c n d (ops s) = rendered en w c n d (ops s)"
  by (simp add: rendered_def same_main_fields)

lemma rendered_keeps:
  "rendered en w c n d (ops s) \<Longrightarrow> (\<And>ns. ops s' (ns, n) = ops s (ns, n)) \<Longrightarrow> rendered en w c n d (ops s')"
  by (simp add: rendered_def)

lemma components_step:
  assumes "ensure_components en cs ds (w, s) = (Inr ds', w', s')" "DeployStrategy (Spec w) = AIWorkloadDeployFleetBundle"
    and "distinct (map (bundle_of w) cs)"
  shows "same_main w w'
    \<and> (\<forall>c \<in> set cs. \<not> git_backed en c \<longrightarrow> (\<exists>d. rendered en w c (bundle_of w c) d (ops s') \<and> digests_recorded w c d ds'))
    \<and> (\<forall>k. k \<notin> key_id ` set (workload_keys w cs) \<longrightarrow> ops s' k = ops s k)
    \<and> (\<forall>ns n. ns \<in> set fleetNamespaces \<longrightarrow> n \<notin> bundle_of w ` set cs \<longrightarrow> ds' (ns @ ''/'' @ n) = ds (ns @ ''/'' @ n))"
  using assms
proof (induction cs arbitrary: ds w s)
  case (Cons c cs)
  let ?n = "bundle_of w c"
  obtain rd w1 s1 where d: "deploy_component en c (w, s) = (rd, w1, s1)" by (metis surj_pair)
  then obtain digest where rd: "rd = Inr digest" using Cons.prems(1) by (cases rd) simp_all
  have h: "ensureBlueprintHelmOp en c ?n (w, s) = (Inr digest, w1, s1)"
    using d rd Cons.prems(2) by (simp add: deploy_component_def bundle_of_def)
  note hs = helmop_step [OF h]
  have sm: "same_main w w1" using hs by simp
  have bn: "bundle_of w1 = bundle_of w" using same_main_keys [OF sm] by blast
  have wk: "workload_keys w1 cs' = workload_keys w cs'" for cs' using same_main_keys [OF sm] by blast
  note cong = bn wk same_main_fields(1) [OF sm]
  let ?ks = "workload_keys w [c]"
  let ?ds1 = "foldl (\<lambda>ds k. ds(digest_key k \<mapsto> digest)) ds ?ks"
  have rest: "ensure_components en cs ?ds1 (w1, s1) = (Inr ds', w', s')"
    using Cons.prems(1,2) d rd cong by (simp add: no_git_baseline)
  have pre: "DeployStrategy (Spec w1) = AIWorkloadDeployFleetBundle" "distinct (map (bundle_of w1) cs)"
    using Cons.prems(2,3) cong by simp_all
  note ih = Cons.IH [OF rest pre]
  have sm': "same_main w w'" using sm ih same_main_trans by blast
  have later: "ops s' (ns, ?n) = ops s1 (ns, ?n)" for ns
  proof -
    have "(ns, ?n) \<notin> key_id ` set (workload_keys w1 cs)"
      using Cons.prems(3) workload_key_space [of _ w cs] cong by (auto simp: key_id_def)
    then show ?thesis using ih by blast
  qed
  have digests: "digests_recorded w c digest ds'"
    unfolding digests_recorded_def
  proof
    fix k assume k: "k \<in> set ?ks"
    then have sp: "k_Namespace k \<in> set fleetNamespaces" "k_Name k = ?n" using workload_key_space [OF k] by auto
    have "k_Name k \<notin> bundle_of w1 ` set cs" using Cons.prems(3) cong sp(2) by auto
    then have "ds' (digest_key k) = ?ds1 (digest_key k)" using ih sp(1) unfolding digest_key_def by blast
    then show "ds' (digest_key k) = Some digest" using k by (simp add: foldl_digests)
  qed
  have new: "\<exists>d. rendered en w c ?n d (ops s') \<and> digests_recorded w c d ds'" if "\<not> git_backed en c"
    using hs that digests rendered_keeps [OF _ later] by auto
  have old: "\<exists>d. rendered en w b (bundle_of w b) d (ops s') \<and> digests_recorded w b d ds'" if "b \<in> set cs" "\<not> git_backed en b" for b
    using ih that cong rendered_cong [OF sm] by (auto simp: digests_recorded_def)
  have keys: "key_id ` set (workload_keys w (c # cs)) = key_id ` set ?ks \<union> key_id ` set (workload_keys w cs)"
    by (simp add: workload_keys_def desiredHelmOpKeys_set image_Un)
  have ks: "key_id ` set ?ks = (\<lambda>p. (fst p, ?n)) ` set (target_pairs w)"
    using workload_keys_ids [of w "[c]"] Cons.prems(2) by (auto simp: bundle_of_def)
  have frame: "ops s' k = ops s k" if "k \<notin> key_id ` set (workload_keys w (c # cs))" for k
  proof -
    have "ops s' k = ops s1 k" using ih that keys cong by (cases k) simp
    moreover have "ops s1 k = ops s k" using hs that keys ks by (cases k) (auto split: if_splits)
    ultimately show ?thesis by simp
  qed
  have dframe: "ds' (ns @ ''/'' @ n) = ds (ns @ ''/'' @ n)"
    if "ns \<in> set fleetNamespaces" "n \<notin> bundle_of w ` set (c # cs)" for ns n
  proof -
    have "ns @ ''/'' @ n \<notin> digest_key ` set ?ks"
    proof
      assume "ns @ ''/'' @ n \<in> digest_key ` set ?ks"
      then obtain k where k: "k \<in> set ?ks" "ns @ ''/'' @ n = k_Namespace k @ ''/'' @ k_Name k" by (auto simp: digest_key_def)
      then show False using workload_key_space [OF k(1)] digest_keys_differ [OF that(1) _ k(2)] that(2) by auto
    qed
    then have "?ds1 (ns @ ''/'' @ n) = ds (ns @ ''/'' @ n)" by (simp add: foldl_digests)
    moreover have "ds' (ns @ ''/'' @ n) = ?ds1 (ns @ ''/'' @ n)" using ih that cong by auto
    ultimately show ?thesis by simp
  qed
  show ?case using sm' new old frame dframe by auto
qed simp

end

section \<open>Cleaning up\<close>

definition relabelled :: "string \<Rightarrow> (HelmOp \<times> HelmOpSpec) option \<Rightarrow> (HelmOp \<times> HelmOpSpec) option \<Rightarrow> bool" where
  "relabelled uid v v' \<longleftrightarrow> v' = v
     \<or> (\<exists>ho st ho'. v = Some (ho, st) \<and> mget (ho_Labels ho) workloadUIDLabel = '''' \<and> v' = Some (ho', st)
          \<and> ho_Labels ho' = (ho_Labels ho)(workloadUIDLabel \<mapsto> uid))"

lemma relabelled_refl [simp]: "relabelled uid v v"
  by (simp add: relabelled_def)

lemma relabelled_trans:
  assumes "relabelled uid v v'" "relabelled uid v' v''" "uid \<noteq> ''''"
  shows "relabelled uid v v''"
  using assms by (auto simp: relabelled_def)

lemma relabelled_labelled: "relabelled uid v v' \<Longrightarrow> labelled uid v \<Longrightarrow> uid \<noteq> '''' \<Longrightarrow> v' = v"
  by (auto simp: relabelled_def labelled_def mget_def)

context fleet_store begin

lemma backfill_step:
  assumes "backfill_label f uid (ns, n) s = (Inr u, s')"
  shows "fbs s' = fbs s \<and> relabelled uid (ops s (ns, n)) (ops s' (ns, n)) \<and> (\<forall>k. k \<noteq> (ns, n) \<longrightarrow> ops s' k = ops s k)"
proof -
  obtain rg s1 where g: "getHelmOpIn f ns n s = (rg, s1)" by (cases "getHelmOpIn f ns n s")
  note gs = helmop_get_step [OF g]
  obtain x where rg: "rg = Inr x" using assms g by (cases rg) (simp_all add: backfill_label_def)
  show ?thesis
  proof (cases "\<exists>ho. x = Some ho \<and> mget (ho_Labels ho) workloadUIDLabel = ''''")
    case True
    then obtain ho where ho: "x = Some ho" "mget (ho_Labels ho) workloadUIDLabel = ''''" by blast
    then have up: "UpdateHelmOp f ns n (ho\<lparr>ho_Labels := (ho_Labels ho)(workloadUIDLabel \<mapsto> uid)\<rparr>) s1 = (Inr u, s')"
      using assms g rg by (simp add: backfill_label_def)
    obtain st where st: "ops s (ns, n) = Some (ho, st)" using gs rg ho(1) by auto
    from update_op [OF up] obtain ho' where
      "ops s' = (ops s1)((ns, n) \<mapsto> (ho', st))" "ho_Labels ho' = (ho_Labels ho)(workloadUIDLabel \<mapsto> uid)" "fbs s' = fbs s1"
      using gs st by auto
    then show ?thesis using gs st ho(2) by (auto simp: relabelled_def)
  next
    case False
    then have "s' = s1" using assms g rg by (cases x) (auto simp: backfill_label_def split: if_splits)
    then show ?thesis using gs by simp
  qed
qed

lemma backfill_all_step:
  assumes "for_each names (\<lambda>n. for_each fleetNamespaces (\<lambda>ns. backfill_label f uid (ns, n))) s = (Inr u, s')" "uid \<noteq> ''''"
  shows "fbs s' = fbs s \<and> (\<forall>k. relabelled uid (ops s k) (ops s' k)) \<and> (\<forall>k. snd k \<notin> set names \<longrightarrow> ops s' k = ops s k)"
proof -
  let ?P = "\<lambda>t. fbs t = fbs s \<and> (\<forall>k. relabelled uid (ops s k) (ops t k)) \<and> (\<forall>k. snd k \<notin> set names \<longrightarrow> ops t k = ops s k)"
  have one: "?P t'" if "?P t" "backfill_label f uid (ns, n) t = (Inr v, t')" "n \<in> set names" for t t' ns n v
  proof -
    note b = backfill_step [OF that(2)]
    have r: "relabelled uid (ops s k) (ops t' k)" for k
    proof (cases "k = (ns, n)")
      case True
      have "relabelled uid (ops s k) (ops t k)" using that(1) by blast
      then show ?thesis using relabelled_trans [OF _ _ assms(2)] b True by blast
    next
      case False
      then show ?thesis using b that(1) by (cases k) simp
    qed
    have "ops t' k = ops s k" if "snd k \<notin> set names" for k
    proof -
      have "k \<noteq> (ns, n)" using that \<open>n \<in> set names\<close> by auto
      then show ?thesis using b \<open>?P t\<close> that by (cases k) simp
    qed
    then show ?thesis using b that(1) r by simp
  qed
  have inner: "?P t'" if "?P t" "for_each nss (\<lambda>ns. backfill_label f uid (ns, n)) t = (Inr v, t')" "n \<in> set names" for t t' nss n v
    using that(1,2)
  proof (induction nss arbitrary: t)
    case (Cons ns nss)
    obtain rb t1 where b: "backfill_label f uid (ns, n) t = (rb, t1)" by (cases "backfill_label f uid (ns, n) t")
    then obtain v where "rb = Inr v" using Cons.prems(2) by (cases rb) simp_all
    with b have b': "backfill_label f uid (ns, n) t = (Inr v, t1)" by simp
    show ?case by (rule Cons.IH [OF one [OF Cons.prems(1) b' that(3)]]) (use Cons.prems(2) b' in simp)
  qed simp
  have "?P t'" if "?P t" "for_each ms (\<lambda>n. for_each fleetNamespaces (\<lambda>ns. backfill_label f uid (ns, n))) t = (Inr v, t')"
      "set ms \<subseteq> set names" for t t' ms v
    using that
  proof (induction ms arbitrary: t)
    case (Cons m ms)
    obtain rb t1 where b: "for_each fleetNamespaces (\<lambda>ns. backfill_label f uid (ns, m)) t = (rb, t1)"
      by (cases "for_each fleetNamespaces (\<lambda>ns. backfill_label f uid (ns, m)) t")
    then obtain v where "rb = Inr v" using Cons.prems(2) by (cases rb) simp_all
    with b have b': "for_each fleetNamespaces (\<lambda>ns. backfill_label f uid (ns, m)) t = (Inr v, t1)" by simp
    have m: "m \<in> set names" "set ms \<subseteq> set names" using Cons.prems(3) by auto
    show ?case by (rule Cons.IH [OF inner [OF Cons.prems(1) b' m(1)] _ m(2)]) (use Cons.prems(2) b' in simp)
  qed simp
  from this [OF _ assms(1) subset_refl] show ?thesis by simp
qed

end

context fleet_client begin

text \<open>One workspace: the labelled HelmOps that are not desired go, with the Bundles of their names.\<close>

lemma remove_one_step:
  assumes "bnd (deleteHelmOpIn (en_Fleet en) ns n) (\<lambda>_. deleteBundleIn (en_Fleet en) ns n) s = (Inr u, s')"
  shows "objs s' = ((ops s)((ns, n) := None), (fbs s)((ns, n) := None))"
proof -
  obtain v s1 where "deleteHelmOpIn (en_Fleet en) ns n s = (Inr v, s1)" "deleteBundleIn (en_Fleet en) ns n s1 = (Inr u, s')"
    using assms by (auto simp: bnd_Inr)
  then show ?thesis using helmop_delete_step bundle_delete_step by fastforce
qed

lemma remove_stale_in_step:
  assumes "remove_stale_in en w desired ns s = (Inr u, s')" "DeployStrategy (Spec w) \<noteq> AIWorkloadDeployGitOps"
  shows "\<forall>k. if fst k = ns \<and> labelled (wl_UID w) (ops s k) \<and> k \<notin> set desired
    then ops s' k = None \<and> fbs s' k = None else ops s' k = ops s k \<and> fbs s' k = fbs s k"
proof -
  let ?del = "\<lambda>n. bnd (deleteHelmOpIn (en_Fleet en) ns n) (\<lambda>_. deleteBundleIn (en_Fleet en) ns n)"
  obtain names s1 where l: "ListHelmOps (en_Fleet en) ns (wl_UID w) s = (Inr names, s1)"
      and f: "for_each names (remove_stale en (DeployStrategy (Spec w)) desired ns) s1 = (Inr u, s')"
    using assms(1) by (auto simp: remove_stale_in_def bnd_Inr)
  note ls = list_ops [OF l]
  have "remove_stale en (DeployStrategy (Spec w)) desired ns = (\<lambda>n. if (ns, n) \<in> set desired then ret () else ?del n)"
    using assms(2) by (auto simp: remove_stale_def ret_def fun_eq_iff)
  then have f': "for_each (filter (\<lambda>n. (ns, n) \<notin> set desired) names) ?del s1 = (Inr u, s')" using f by (simp add: for_each_skip)
  have step: "(ops t' (ns, n), fbs t' (ns, n)) = (None, None) \<and> (\<forall>k. k \<noteq> (ns, n) \<longrightarrow> (ops t' k, fbs t' k) = (ops t k, fbs t k))"
    if "?del n t = (Inr (), t')" for n t t'
    using remove_one_step [OF that] by auto
  have gone: "(\<forall>n \<in> set (filter (\<lambda>n. (ns, n) \<notin> set desired) names). (ops s' (ns, n), fbs s' (ns, n)) = (None, None))
    \<and> (\<forall>k. k \<notin> Pair ns ` set (filter (\<lambda>n. (ns, n) \<notin> set desired) names) \<longrightarrow> (ops s' k, fbs s' k) = (ops s1 k, fbs s1 k))"
    by (rule for_each_sets [where key = "Pair ns" and L = "\<lambda>s k. (ops s k, fbs s k)" and Q = "\<lambda>n v. v = (None, None)", OF f' step])
      simp_all
  show ?thesis
  proof
    fix k :: "string \<times> string"
    obtain m n where k: "k = (m, n)" by (cases k)
    show "if fst k = ns \<and> labelled (wl_UID w) (ops s k) \<and> k \<notin> set desired
      then ops s' k = None \<and> fbs s' k = None else ops s' k = ops s k \<and> fbs s' k = fbs s k"
      using gone ls by (cases "m = ns \<and> n \<in> set names \<and> (m, n) \<notin> set desired") (auto simp: k)
  qed
qed

text \<open>The cleanup as a whole.\<close>

lemma cleanup_fleet_step:
  assumes "cleanupStaleHelmOps en w desired s = (Inr u, s')" "DeployStrategy (Spec w) \<noteq> AIWorkloadDeployGitOps" "wl_UID w \<noteq> ''''"
  shows "\<exists>mid. (\<forall>k. relabelled (wl_UID w) (ops s k) (mid k)) \<and> (\<forall>k. snd k \<notin> set (FleetBundleNames (Spec w)) \<longrightarrow> mid k = ops s k)
    \<and> (\<forall>k. if fst k \<in> set fleetNamespaces \<and> labelled (wl_UID w) (mid k) \<and> k \<notin> key_id ` set desired
         then ops s' k = None \<and> fbs s' k = None else ops s' k = mid k \<and> fbs s' k = fbs s k)"
proof -
  let ?rm = "remove_stale_in en w (map key_id desired)"
  obtain v s1 where b: "for_each (FleetBundleNames (Spec w)) (\<lambda>n. for_each fleetNamespaces
        (\<lambda>ns. backfill_label (en_Fleet en) (wl_UID w) (ns, n))) s = (Inr v, s1)"
      and r: "for_each fleetNamespaces ?rm s1 = (Inr u, s')"
    using assms(1) by (auto simp: cleanupStaleHelmOps_def bnd_Inr)
  obtain a b s2 where r1: "?rm ''fleet-local'' s1 = (Inr a, s2)" and r2: "?rm ''fleet-default'' s2 = (Inr b, s')"
    using r by (auto simp: fleetNamespaces_def split: prod.splits sum.splits)
  note b1 = backfill_all_step [OF b assms(3)]
  note c1 = remove_stale_in_step [OF r1 assms(2)] and c2 = remove_stale_in_step [OF r2 assms(2)]
  have "if fst k \<in> set fleetNamespaces \<and> labelled (wl_UID w) (ops s1 k) \<and> k \<notin> key_id ` set desired
      then ops s' k = None \<and> fbs s' k = None else ops s' k = ops s1 k \<and> fbs s' k = fbs s k" for k
    using spec [OF c1, of k] spec [OF c2, of k] conjunct1 [OF b1] by (auto simp: fleetNamespaces_def split: if_splits)
  then show ?thesis using b1 by blast
qed

end

end
