(* ===== verification/Hub.thy ===== *)
theory Hub
  imports FleetStore
begin

text \<open>
  An in-memory management cluster that keeps every law the development states: the secrets and the
  pull-secret Bundles of \<open>Delivery\<close>, the accounts and pods of \<open>PullSecrets\<close>, the Fleet objects, the branches of
  the Git remotes and the workload. Each call to it takes the next entry of the schedule of faults of
  \<open>Credentials\<close>: it may fail before or after what it does.
\<close>

section \<open>The state and its calls\<close>

type_synonym op_key = "string \<times> string"

record hub =
  hub_world :: world
  hub_pods :: pod_world
  hub_ops :: "(op_key \<times> HelmOp \<times> HelmOpSpec) list"
  hub_fbs :: "(op_key \<times> FleetBundleSpec) list"
  hub_deployments :: "string \<Rightarrow> BundleDeployment list"
  hub_git :: "string \<times> string \<Rightarrow> smap"
  hub_workload :: "AIWorkload option"

definition on_world :: "(world, 'a) act \<Rightarrow> (hub, 'a) act" where
  "on_world m s = (fst (m (hub_world s)), s\<lparr>hub_world := snd (m (hub_world s))\<rparr>)"

definition on_pods :: "(pod_world, 'a) act \<Rightarrow> (hub, 'a) act" where
  "on_pods m s = (fst (m (hub_pods s)), s\<lparr>hub_pods := snd (m (hub_pods s))\<rparr>)"

definition hub_call :: "(hub \<Rightarrow> (err + 'a) \<times> hub) \<Rightarrow> (hub, 'a) act" where
  "hub_call f s =
     (let c = fst (hub_world s);
          s0 = s\<lparr>hub_world := (c\<lparr>cl_faults := tl (cl_faults c)\<rparr>, snd (hub_world s))\<rparr>
      in case cl_faults c of
           Some (True, e) # _ \<Rightarrow> (Inl (Err SOther e), snd (f s0))
         | Some (False, e) # _ \<Rightarrow> (Inl (Err SOther e), s0)
         | _ \<Rightarrow> f s0)"

definition hub_client :: "hub Client" where
  "hub_client = \<lparr>
     GetSecret = (\<lambda>ns n. on_world (GetSecret world_client ns n)),
     UpdateSecret = (\<lambda>ns n sec. on_world (UpdateSecret world_client ns n sec)),
     PatchSecret = (\<lambda>ns n sec. on_world (PatchSecret world_client ns n sec)),
     PatchNamespace = (\<lambda>ns. on_world (PatchNamespace world_client ns)),
     GetSettings = on_world (GetSettings world_client)\<rparr>"

definition stored_helmop :: "HelmOpSpec \<Rightarrow> (HelmOp \<times> HelmOpSpec) option \<Rightarrow> HelmOp" where
  "stored_helmop sp old =
     (case old of
        None \<Rightarrow> \<lparr>ho_UID = hs_Namespace sp @ ''/'' @ hs_Name sp, ho_Generation = 1, ho_Labels = map_of (hs_Labels sp), ho_Conditions = []\<rparr>
      | Some (ho, _) \<Rightarrow> ho\<lparr>ho_Labels := ho_Labels ho ++ map_of (hs_Labels sp), ho_Generation := ho_Generation ho + 1\<rparr>)"

definition view_of :: "HelmOpSpec \<Rightarrow> HelmOpView" where
  "view_of sp = \<lparr>hv_Version = (case obj_get (hs_Helm sp) ''version'' of Some (JStr v) \<Rightarrow> Some v | _ \<Rightarrow> None),
     hv_DefaultNamespace = Some (hs_DefaultNamespace sp), hv_Namespace = None,
     hv_Values = (case obj_get (hs_Helm sp) ''values'' of Some (JObj m) \<Rightarrow> Some m | _ \<Rightarrow> None)\<rparr>"

definition hub_fleet :: "hub FleetAPI" where
  "hub_fleet = \<lparr>
     PatchHelmOp = (\<lambda>sp. hub_call (\<lambda>s. let ho = stored_helmop sp (map_of (hub_ops s) (spec_key sp))
        in (Inr ho, s\<lparr>hub_ops := (spec_key sp, ho, sp) # hub_ops s\<rparr>))),
     GetHelmOp = (\<lambda>ns n. hub_call (\<lambda>s. (case map_of (hub_ops s) (ns, n) of None \<Rightarrow> Inl not_found | Some x \<Rightarrow> Inr (fst x), s))),
     UpdateHelmOp = (\<lambda>ns n ho. hub_call (\<lambda>s. case map_of (hub_ops s) (ns, n) of None \<Rightarrow> (Inl not_found, s)
        | Some x \<Rightarrow> (Inr (), s\<lparr>hub_ops := ((ns, n), (fst x)\<lparr>ho_Labels := ho_Labels ho\<rparr>, snd x) # hub_ops s\<rparr>))),
     ListHelmOps = (\<lambda>ns uid. hub_call (\<lambda>s.
        (Inr (map (snd \<circ> fst) (filter (\<lambda>x. fst (fst x) = ns \<and> labelled uid (map_of (hub_ops s) (fst x))) (hub_ops s))), s))),
     DeleteHelmOp = (\<lambda>ns n. hub_call (\<lambda>s. if map_of (hub_ops s) (ns, n) = None then (Inl not_found, s)
        else (Inr (), s\<lparr>hub_ops := filter (\<lambda>x. fst x \<noteq> (ns, n)) (hub_ops s)\<rparr>))),
     PatchFleetBundle = (\<lambda>b. hub_call (\<lambda>s. (Inr (), s\<lparr>hub_fbs := ((fb_Namespace b, fb_Name b), b) # hub_fbs s\<rparr>))),
     GetFleetBundle = (\<lambda>ns n. hub_call (\<lambda>s. (case map_of (hub_fbs s) (ns, n) of None \<Rightarrow> Inl not_found
        | Some b \<Rightarrow> Inr (map_of (fb_Annotations b)), s))),
     DeleteFleetBundle = (\<lambda>ns n. hub_call (\<lambda>s. if map_of (hub_fbs s) (ns, n) = None then (Inl not_found, s)
        else (Inr (), s\<lparr>hub_fbs := filter (\<lambda>x. fst x \<noteq> (ns, n)) (hub_fbs s)\<rparr>))),
     ReadHelmOp = (\<lambda>ns n. hub_call (\<lambda>s. (case map_of (hub_ops s) (ns, n) of None \<Rightarrow> Inl not_found | Some x \<Rightarrow> Inr (view_of (snd x)), s))),
     ListDeployments = (\<lambda>n. hub_call (\<lambda>s. (Inr (hub_deployments s n), s)))\<rparr>"

definition hub_git_api :: "hub GitAPI" where
  "hub_git_api = \<lparr>
     ListRefs = (\<lambda>gc. hub_call (\<lambda>s. (Inr (Some [gc_Branch gc]), s))),
     CloneFiles = (\<lambda>gc. hub_call (\<lambda>s. (Inr (Some (hub_git s (repo_of gc))), s))),
     PushFiles = (\<lambda>gc files msg. hub_call (\<lambda>s. (Inr ''commit'', s\<lparr>hub_git := (hub_git s)(repo_of gc := files)\<rparr>)))\<rparr>"

definition hub_write :: "(AIWorkload \<Rightarrow> AIWorkload) \<Rightarrow> (hub, AIWorkload) act" where
  "hub_write f = hub_call (\<lambda>s. case hub_workload s of None \<Rightarrow> (Inl not_found, s)
     | Some old \<Rightarrow> (Inr (f old), s\<lparr>hub_workload := Some (f old)\<rparr>))"

definition hub_update :: "hub writer" where
  "hub_update w = hub_write (\<lambda>old. w\<lparr>Status := Status old,
     wl_Generation := wl_Generation old + (if Spec w = Spec old then 0 else 1)\<rparr>)"

definition hub_status_update :: "hub writer" where
  "hub_status_update w = hub_write (\<lambda>old. old\<lparr>Status := Status w\<rparr>)"

definition hub_git_env :: "hub GitEnv" where
  "hub_git_env = \<lparr>ge_Client = hub_client, ge_Git = hub_git_api, ge_PemOk = (\<lambda>_. True), ge_OperatorNS = ''op'',
     ge_Update = hub_update\<rparr>"

definition hub_fetch :: "string \<Rightarrow> string \<Rightarrow> string \<Rightarrow> (hub, string) act" where
  "hub_fetch repo n v = hub_call (\<lambda>s. (Inr ''gz'', s))"

definition hub_env :: "(string \<Rightarrow> err + ClusterRepo) \<Rightarrow> bool \<Rightarrow> hub Env" where
  "hub_env repos token = \<lparr>en_Git = hub_git_env, en_Fleet = hub_fleet,
     en_Merge = (\<lambda>a b. Inr (case b of None \<Rightarrow> a | Some m \<Rightarrow> Some (foldl (\<lambda>acc (k, v). obj_set k v acc) (case a of None \<Rightarrow> [] | Some n \<Rightarrow> n) m))),
     en_Repo = repos, en_Fetch = (if token then Some hub_fetch else None), en_Untar = example_untar\<rparr>"

section \<open>Its laws\<close>

lemma on_world_simps [simp]:
  "hub_ops (snd (on_world m s)) = hub_ops s" "hub_fbs (snd (on_world m s)) = hub_fbs s" "hub_git (snd (on_world m s)) = hub_git s"
  "hub_workload (snd (on_world m s)) = hub_workload s"
  by (simp_all add: on_world_def)

text \<open>A call does what it says, or fails with another error and has done it or nothing.\<close>

lemma hub_call_cases:
  assumes "hub_call f s = (r, s')"
  obtains s0 where "hub_ops s0 = hub_ops s" "hub_fbs s0 = hub_fbs s" "hub_git s0 = hub_git s" "hub_workload s0 = hub_workload s"
      "f s0 = (r, s')"
    | s0 e where "hub_ops s0 = hub_ops s" "hub_fbs s0 = hub_fbs s" "hub_git s0 = hub_git s" "hub_workload s0 = hub_workload s"
      "r = Inl (Err SOther e)" "s' = s0 \<or> s' = snd (f s0)"
proof -
  define s0 where "s0 = s\<lparr>hub_world := ((fst (hub_world s))\<lparr>cl_faults := tl (cl_faults (fst (hub_world s)))\<rparr>, snd (hub_world s))\<rparr>"
  have s0: "hub_ops s0 = hub_ops s" "hub_fbs s0 = hub_fbs s" "hub_git s0 = hub_git s" "hub_workload s0 = hub_workload s"
    by (simp_all add: s0_def)
  have "f s0 = (r, s') \<or> (\<exists>e. r = Inl (Err SOther e) \<and> (s' = s0 \<or> s' = snd (f s0)))"
    using assms unfolding hub_call_def Let_def s0_def [symmetric]
    by (auto split: list.splits option.splits prod.splits bool.splits)
  then show ?thesis using that s0 by blast
qed

lemma map_of_filter_key: "map_of (filter (\<lambda>x. fst x \<noteq> k) xs) = (map_of xs)(k := None)"
  by (induction xs) auto

lemma hub_reads:
  assumes "\<And>t. snd (f t) = t"
  shows "leaves (\<lambda>s. (hub_ops s, hub_fbs s, hub_git s, hub_workload s)) (hub_call f)"
  unfolding leaves_def
proof
  fix s
  obtain r s' where c: "hub_call f s = (r, s')" by (cases "hub_call f s")
  show "(hub_ops (snd (hub_call f s)), hub_fbs (snd (hub_call f s)), hub_git (snd (hub_call f s)), hub_workload (snd (hub_call f s))) =
    (hub_ops s, hub_fbs s, hub_git s, hub_workload s)"
  proof (rule hub_call_cases [OF c])
    fix s0 assume "hub_ops s0 = hub_ops s" "hub_fbs s0 = hub_fbs s" "hub_git s0 = hub_git s" "hub_workload s0 = hub_workload s" "f s0 = (r, s')"
    then show ?thesis using assms [of s0] c by simp
  next
    fix s0 e assume "hub_ops s0 = hub_ops s" "hub_fbs s0 = hub_fbs s" "hub_git s0 = hub_git s" "hub_workload s0 = hub_workload s"
      "r = Inl (Err SOther e)" "s' = s0 \<or> s' = snd (f s0)"
    then show ?thesis using assms [of s0] c by auto
  qed
qed

interpretation hub_creds: client_frame hub_client "\<lambda>s. (hub_ops s, hub_fbs s, hub_git s, hub_workload s, hub_pods s)"
  by unfold_locales (simp_all add: hub_client_def on_world_def)

interpretation hub_store: fleet_store hub_fleet "\<lambda>s. map_of (hub_ops s)" "\<lambda>s. map_of (hub_fbs s)"
proof unfold_locales
  fix sp :: HelmOpSpec and s s' :: hub and rp
  assume "PatchHelmOp hub_fleet sp s = (rp, s')"
  then have c: "hub_call (\<lambda>s. let ho = stored_helmop sp (map_of (hub_ops s) (spec_key sp))
        in (Inr ho, s\<lparr>hub_ops := (spec_key sp, ho, sp) # hub_ops s\<rparr>)) s = (rp, s')" by (simp add: hub_fleet_def)
  let ?ho = "stored_helmop sp (map_of (hub_ops s) (spec_key sp))"
  have ap: "applies sp (?ho, sp)"
    by (auto simp: applies_def stored_helmop_def map_add_def split: option.split)
  have "map_of (hub_fbs s') = map_of (hub_fbs s)
    \<and> (map_of (hub_ops s') = (map_of (hub_ops s))(spec_key sp \<mapsto> (?ho, sp)) \<and> (isl rp \<or> rp = Inr ?ho)
       \<or> isl rp \<and> map_of (hub_ops s') = map_of (hub_ops s))"
    using c by (elim hub_call_cases) (auto simp: Let_def)
  then show "map_of (hub_fbs s') = map_of (hub_fbs s)
    \<and> ((\<exists>ho st. map_of (hub_ops s') = (map_of (hub_ops s))(spec_key sp \<mapsto> (ho, st)) \<and> applies sp (ho, st) \<and> (isl rp \<or> rp = Inr ho))
       \<or> isl rp \<and> map_of (hub_ops s') = map_of (hub_ops s))"
    using ap by blast
next
  fix ns n and s s' :: hub and rg
  assume "GetHelmOp hub_fleet ns n s = (rg, s')"
  then have "hub_call (\<lambda>s. (case map_of (hub_ops s) (ns, n) of None \<Rightarrow> Inl not_found | Some x \<Rightarrow> Inr (fst x), s)) s = (rg, s')"
    by (simp add: hub_fleet_def)
  then show "map_of (hub_ops s') = map_of (hub_ops s) \<and> map_of (hub_fbs s') = map_of (hub_fbs s)
    \<and> (\<forall>ho. rg = Inr ho \<longrightarrow> (\<exists>st. map_of (hub_ops s) (ns, n) = Some (ho, st)))
    \<and> (\<forall>e. rg = Inl e \<longrightarrow> err_is e = SNotFound \<longrightarrow> map_of (hub_ops s) (ns, n) = None)"
    by (elim hub_call_cases) (auto split: option.splits)
next
  fix ns n ho and s s' :: hub and ru
  assume "UpdateHelmOp hub_fleet ns n ho s = (ru, s')"
  then have c: "hub_call (\<lambda>s. case map_of (hub_ops s) (ns, n) of None \<Rightarrow> (Inl not_found, s)
        | Some x \<Rightarrow> (Inr (), s\<lparr>hub_ops := ((ns, n), (fst x)\<lparr>ho_Labels := ho_Labels ho\<rparr>, snd x) # hub_ops s\<rparr>)) s = (ru, s')"
    by (simp add: hub_fleet_def)
  have "map_of (hub_fbs s') = map_of (hub_fbs s)
    \<and> ((\<exists>a b. map_of (hub_ops s) (ns, n) = Some (a, b) \<and> map_of (hub_ops s') = (map_of (hub_ops s))((ns, n) \<mapsto> (a\<lparr>ho_Labels := ho_Labels ho\<rparr>, b)))
       \<or> isl ru \<and> map_of (hub_ops s') = map_of (hub_ops s))"
    using c by (elim hub_call_cases) (auto split: option.splits)
  moreover have "ho_Labels (a\<lparr>ho_Labels := l\<rparr>) = l" for a :: HelmOp and l by simp
  ultimately show "map_of (hub_fbs s') = map_of (hub_fbs s)
    \<and> ((\<exists>old st ho'. map_of (hub_ops s) (ns, n) = Some (old, st) \<and> map_of (hub_ops s') = (map_of (hub_ops s))((ns, n) \<mapsto> (ho', st))
          \<and> ho_Labels ho' = ho_Labels ho)
       \<or> isl ru \<and> map_of (hub_ops s') = map_of (hub_ops s))"
    by blast
next
  fix ns uid and s s' :: hub and rl
  assume "ListHelmOps hub_fleet ns uid s = (rl, s')"
  then have "hub_call (\<lambda>s. (Inr (map (snd \<circ> fst) (filter (\<lambda>x. fst (fst x) = ns \<and> labelled uid (map_of (hub_ops s) (fst x))) (hub_ops s))), s)) s
     = (rl, s')"
    by (simp add: hub_fleet_def)
  moreover have "n \<in> set (map (snd \<circ> fst) (filter (\<lambda>x. fst (fst x) = ns \<and> labelled uid (map_of xs (fst x))) xs)) \<longleftrightarrow> labelled uid (map_of xs (ns, n))"
    for n and xs :: "(op_key \<times> HelmOp \<times> HelmOpSpec) list"
  proof
    assume "labelled uid (map_of xs (ns, n))"
    then obtain v where "((ns, n), v) \<in> set xs" by (auto simp: labelled_def dest: map_of_SomeD)
    then have "((ns, n), v) \<in> set (filter (\<lambda>x. fst (fst x) = ns \<and> labelled uid (map_of xs (fst x))) xs)"
      using \<open>labelled uid (map_of xs (ns, n))\<close> by simp
    then have "(snd \<circ> fst) ((ns, n), v) \<in> set (map (snd \<circ> fst) (filter (\<lambda>x. fst (fst x) = ns \<and> labelled uid (map_of xs (fst x))) xs))"
      by (simp only: set_map imageI)
    then show "n \<in> set (map (snd \<circ> fst) (filter (\<lambda>x. fst (fst x) = ns \<and> labelled uid (map_of xs (fst x))) xs))" by simp
  qed auto
  ultimately show "map_of (hub_ops s') = map_of (hub_ops s) \<and> map_of (hub_fbs s') = map_of (hub_fbs s)
    \<and> (\<forall>names. rl = Inr names \<longrightarrow> (\<forall>n. n \<in> set names \<longleftrightarrow> labelled uid (map_of (hub_ops s) (ns, n))))"
    by (elim hub_call_cases) auto
next
  fix ns n and s s' :: hub and rd
  assume "DeleteHelmOp hub_fleet ns n s = (rd, s')"
  then have "hub_call (\<lambda>s. if map_of (hub_ops s) (ns, n) = None then (Inl not_found, s)
        else (Inr (), s\<lparr>hub_ops := filter (\<lambda>x. fst x \<noteq> (ns, n)) (hub_ops s)\<rparr>)) s = (rd, s')"
    by (simp add: hub_fleet_def)
  then show "map_of (hub_fbs s') = map_of (hub_fbs s)
    \<and> (map_of (hub_ops s') = (map_of (hub_ops s))((ns, n) := None) \<or> isl rd \<and> map_of (hub_ops s') = map_of (hub_ops s))
    \<and> (\<forall>e. rd = Inl e \<longrightarrow> err_is e = SNotFound \<longrightarrow> map_of (hub_ops s') (ns, n) = None)"
    by (elim hub_call_cases) (auto simp: map_of_filter_key split: if_splits)
next
  fix b and s s' :: hub and rb
  assume "PatchFleetBundle hub_fleet b s = (rb, s')"
  then have "hub_call (\<lambda>s. (Inr (), s\<lparr>hub_fbs := ((fb_Namespace b, fb_Name b), b) # hub_fbs s\<rparr>)) s = (rb, s')" by (simp add: hub_fleet_def)
  then show "map_of (hub_ops s') = map_of (hub_ops s)
    \<and> ((\<exists>b'. map_of (hub_fbs s') = (map_of (hub_fbs s))((fb_Namespace b, fb_Name b) \<mapsto> b') \<and> fb_applies b b')
       \<or> isl rb \<and> map_of (hub_fbs s') = map_of (hub_fbs s))"
    by (elim hub_call_cases) (auto simp: fb_applies_def)
next
  fix ns n and s s' :: hub and rf
  assume "GetFleetBundle hub_fleet ns n s = (rf, s')"
  then have "hub_call (\<lambda>s. (case map_of (hub_fbs s) (ns, n) of None \<Rightarrow> Inl not_found | Some b \<Rightarrow> Inr (map_of (fb_Annotations b)), s)) s = (rf, s')"
    by (simp add: hub_fleet_def)
  then show "map_of (hub_ops s') = map_of (hub_ops s) \<and> map_of (hub_fbs s') = map_of (hub_fbs s)
    \<and> (\<forall>m. rf = Inr m \<longrightarrow> (\<exists>b. map_of (hub_fbs s) (ns, n) = Some b \<and> m = map_of (fb_Annotations b)))"
    by (elim hub_call_cases) (auto split: option.splits)
next
  fix ns n and s s' :: hub and rx
  assume "DeleteFleetBundle hub_fleet ns n s = (rx, s')"
  then have "hub_call (\<lambda>s. if map_of (hub_fbs s) (ns, n) = None then (Inl not_found, s)
        else (Inr (), s\<lparr>hub_fbs := filter (\<lambda>x. fst x \<noteq> (ns, n)) (hub_fbs s)\<rparr>)) s = (rx, s')"
    by (simp add: hub_fleet_def)
  then show "map_of (hub_ops s') = map_of (hub_ops s)
    \<and> (map_of (hub_fbs s') = (map_of (hub_fbs s))((ns, n) := None) \<or> isl rx \<and> map_of (hub_fbs s') = map_of (hub_fbs s))
    \<and> (\<forall>e. rx = Inl e \<longrightarrow> err_is e = SNotFound \<longrightarrow> map_of (hub_fbs s') (ns, n) = None)"
    by (elim hub_call_cases) (auto simp: map_of_filter_key split: if_splits)
qed

interpretation hub_remote: git_remote hub_git_api hub_git
proof unfold_locales
  fix gc and s s' :: hub and r
  assume "CloneFiles hub_git_api gc s = (r, s')"
  then have "hub_call (\<lambda>s. (Inr (Some (hub_git s (repo_of gc))), s)) s = (r, s')" by (simp add: hub_git_api_def)
  then show "hub_git s' = hub_git s \<and> (\<forall>f. r = Inr f \<longrightarrow> hub_git s (repo_of gc) = (case f of None \<Rightarrow> Map.empty | Some m \<Rightarrow> m))"
    by (elim hub_call_cases) auto
next
  fix gc files msg and s s' :: hub and p
  assume "PushFiles hub_git_api gc files msg s = (p, s')"
  then have "hub_call (\<lambda>s. (Inr ''commit'', s\<lparr>hub_git := (hub_git s)(repo_of gc := files)\<rparr>)) s = (p, s')" by (simp add: hub_git_api_def)
  then show "hub_git s' = (hub_git s)(repo_of gc := files) \<or> isl p \<and> hub_git s' = hub_git s"
    by (elim hub_call_cases) auto
next
  fix gc and s :: hub
  show "hub_git (snd (ListRefs hub_git_api gc s)) = hub_git s"
    using leavesD [OF hub_reads [of "\<lambda>s. (Inr (Some [gc_Branch gc]), s)"]] by (simp add: hub_git_api_def leaves_def [symmetric])
      (metis (no_types, lifting) Pair_inject prod.collapse)
qed

lemma hub_write_cases:
  assumes "hub_write f s = (r, s')"
  shows "(\<exists>old. hub_workload s = Some old \<and> hub_workload s' = Some (f old) \<and> (r = Inr (f old) \<or> (\<exists>e. r = Inl (Err SOther e))))
    \<or> (\<exists>e. r = Inl e \<and> hub_workload s' = hub_workload s \<and> (err_is e = SNotFound \<longrightarrow> hub_workload s = None))"
  using assms unfolding hub_write_def by (elim hub_call_cases) (auto split: option.splits)

interpretation hub_workloads: workload_store hub_update hub_status_update hub_workload
proof unfold_locales
  fix w s w' s' e
  show "hub_update w s = (Inr w', s') \<Longrightarrow> \<exists>old. hub_workload s = Some old \<and> main_part w old w' \<and> hub_workload s' = Some w'"
    unfolding hub_update_def by (drule hub_write_cases) (auto simp: main_part_def)
  show "hub_update w s = (Inl e, s') \<Longrightarrow>
      hub_workload s' = hub_workload s \<or> (\<exists>old new. hub_workload s = Some old \<and> main_part w old new \<and> hub_workload s' = Some new)"
    unfolding hub_update_def by (drule hub_write_cases) (auto simp: main_part_def)
  show "hub_status_update w s = (Inr w', s') \<Longrightarrow>
      \<exists>old. hub_workload s = Some old \<and> w' = old\<lparr>Status := Status w\<rparr> \<and> hub_workload s' = Some w'"
    unfolding hub_status_update_def by (drule hub_write_cases) auto
  show "hub_status_update w s = (Inl e, s') \<Longrightarrow>
      hub_workload s' = hub_workload s \<or> (\<exists>old. hub_workload s = Some old \<and> hub_workload s' = Some (old\<lparr>Status := Status w\<rparr>))"
    unfolding hub_status_update_def by (drule hub_write_cases) auto
  show "hub_status_update w s = (Inl e, s') \<Longrightarrow> err_is e = SNotFound \<Longrightarrow> hub_workload s = None"
    unfolding hub_status_update_def by (drule hub_write_cases) auto
qed

interpretation hub_render: fleet_client "hub_env repos token" "\<lambda>s. map_of (hub_ops s)" "\<lambda>s. map_of (hub_fbs s)"
  for repos token
proof -
  have e: "en_Client (hub_env repos token) = hub_client" "en_Fleet (hub_env repos token) = hub_fleet"
    by (simp_all add: hub_env_def hub_git_env_def en_Client_def)
  show "fleet_client (hub_env repos token) (\<lambda>s. map_of (hub_ops s)) (\<lambda>s. map_of (hub_fbs s))"
  proof (intro fleet_client.intro fleet_client_axioms.intro)
    show "client_frame (en_Client (hub_env repos token)) (\<lambda>s. (map_of (hub_ops s), map_of (hub_fbs s)))"
      unfolding e by unfold_locales (simp_all add: hub_client_def on_world_def)
    show "fleet_store (en_Fleet (hub_env repos token)) (\<lambda>s. map_of (hub_ops s)) (\<lambda>s. map_of (hub_fbs s))"
      unfolding e by (rule hub_store.fleet_store_axioms)
    show "leaves (\<lambda>s. (map_of (hub_ops s), map_of (hub_fbs s))) (fetcher repo n v)"
      if "en_Fetch (hub_env repos token) = Some fetcher" for fetcher repo n v
      using that hub_reads [of "\<lambda>s. (Inr ''gz'', s)"]
      by (auto simp: hub_env_def hub_fetch_def [abs_def] leaves_def split: if_splits)
  qed
qed

section \<open>A concrete pass\<close>

definition example_repos :: "string \<Rightarrow> err + ClusterRepo" where
  "example_repos n =
     (if n = ''apps'' then Inr \<lparr>cr_clientSecretName = None, cr_clientSecretNamespace = None, cr_url = Some ''https://charts.lan'',
        cr_ociRepo = None, cr_gitRepo = None, cr_gitBranch = None, cr_commit = None\<rparr>
      else if n = ''team'' then Inr \<lparr>cr_clientSecretName = None, cr_clientSecretNamespace = None, cr_url = None,
        cr_ociRepo = None, cr_gitRepo = Some ''https://git.lan/charts'', cr_gitBranch = None, cr_commit = Some ''c1''\<rparr>
      else Inl not_found)"

definition example_web :: BlueprintComponent where
  "example_web = \<lparr>bc_ChartRepo = ''apps'', bc_ChartName = ''web'', bc_ChartVersion = ''1.0'', bc_Vendor = VendorSUSE,
     bc_TargetNamespace = '''', bc_ReleaseName = '''', bc_Values = None\<rparr>"

definition example_mixed :: AIWorkload where
  "example_mixed = example_workload\<lparr>Spec := example_spec\<lparr>TargetClusters := [''local'', ''edge''], FleetBundleNames := [''demo-web'']\<rparr>\<rparr>"

definition old_helmop :: "string \<Rightarrow> string \<Rightarrow> string \<Rightarrow> op_key \<times> HelmOp \<times> HelmOpSpec" where
  "old_helmop ns n uid =
     ((ns, n), \<lparr>ho_UID = ns @ n, ho_Generation = 1, ho_Labels = [workloadUIDLabel \<mapsto> uid], ho_Conditions = []\<rparr>,
      example_helmop\<lparr>hs_Namespace := ns, hs_Name := n\<rparr>)"

definition example_hub :: hub where
  "example_hub = \<lparr>
     hub_world = (\<lparr>cl_secrets = Map.empty, cl_namespaces = [''op''], cl_settings = None, cl_faults = []\<rparr>, []),
     hub_pods = example_pods,
     hub_ops = [old_helmop ''fleet-default'' ''demo-old'' ''u1'', old_helmop ''fleet-default'' ''other'' ''u2''],
     hub_fbs = [], hub_deployments = (\<lambda>_. []), hub_git = (\<lambda>_. Map.empty), hub_workload = Some example_mixed\<rparr>"

text \<open>Without faults a call does what it says, and without settings the injectors do nothing.\<close>

definition quiet :: "hub \<Rightarrow> bool" where
  "quiet s \<longleftrightarrow> cl_faults (fst (hub_world s)) = []"

lemma hub_call_quiet: "quiet s \<Longrightarrow> hub_call f s = f s"
proof -
  assume q: "quiet s"
  define s0 where "s0 = s\<lparr>hub_world := ((fst (hub_world s))\<lparr>cl_faults := tl (cl_faults (fst (hub_world s)))\<rparr>, snd (hub_world s))\<rparr>"
  have "s0 = s" unfolding s0_def using q by (cases s; cases "fst (hub_world s)") (auto simp: quiet_def)
  moreover have "hub_call f s = f s0" using q by (simp add: hub_call_def Let_def s0_def quiet_def)
  ultimately show ?thesis by simp
qed

lemma quiet_updates [simp]: "quiet (s\<lparr>hub_ops := x\<rparr>) = quiet s" "quiet (s\<lparr>hub_fbs := y\<rparr>) = quiet s" "quiet (s\<lparr>hub_git := z\<rparr>) = quiet s"
  "quiet (s\<lparr>hub_workload := u\<rparr>) = quiet s"
  by (simp_all add: quiet_def)

definition unconfigured :: "hub \<Rightarrow> bool" where
  "unconfigured s \<longleftrightarrow> quiet s \<and> cl_settings (fst (hub_world s)) = None"

lemma hub_settings_absent:
  assumes "unconfigured s"
  shows "GetSettings hub_client s = (Inl not_found, s)"
proof -
  obtain c b where w: "hub_world s = (c, b)" by (cases "hub_world s")
  have "c\<lparr>cl_faults := []\<rparr> = c" using assms w by (cases c) (simp add: unconfigured_def quiet_def)
  then have "GetSettings cluster_client c = (Inl not_found, c)"
    using assms w by (simp add: cluster_simps cl_call_def Let_def unconfigured_def quiet_def cl_read_def)
  moreover have "s\<lparr>hub_world := (c, b)\<rparr> = s" using w by (cases s) simp
  ultimately show ?thesis using w by (simp add: hub_client_def on_world_def world_simps on_cluster_def)
qed

lemma hub_suse_quiet:
  assumes "unconfigured s" "ri_ClientSecret info = ''''"
  shows "suseApply hub_client opns ns info wl vals s = (Inr ([], vals), s)"
  using hub_settings_absent [OF assms(1)] assms(2)
  by (simp add: suseApply_def ensureCombinedPullSecret_def own_auth_def addSUSESettingsAuths_def)

definition web_info :: clusterRepoInfo where
 "web_info = \<lparr>ri_Kind = RepoKindHTTP, ri_URL = ''https://charts.lan'', ri_GitRepo = '''', ri_GitBranch = '''', ri_Commit = '''',
    ri_ClientSecret = '''', ri_ClientSecretNS = ''cattle-system''\<rparr>"

lemma web_resolved: "resolveClusterRepo example_repos ''apps'' = Inr web_info"
  by (simp add: resolveClusterRepo_def example_repos_def str_field_def has_prefix_def web_info_def Let_def)

lemma web_values:
  assumes "unconfigured s"
  shows "component_values (hub_env example_repos token) example_web web_info (example_mixed, s) =
    (Inr (Some []), record_delivery ''ai'' [] example_mixed, s)"
  using hub_suse_quiet [OF assms, of web_info]
  by (simp add: component_values_def resolveComponentValues_def example_web_def example_mixed_def example_defs hub_env_def
      injectorFor_def en_Client_def hub_git_env_def componentNamespace_def web_info_def)

lemma web_pairs: "target_pairs (record_delivery ns cr example_mixed) =
   [(''fleet-local'', [JObj [(''clusterName'', JStr ''local'')]]), (''fleet-default'', [downstream_target ''edge''])]"
  by (simp add: target_pairs_def record_delivery_def example_mixed_def example_defs)

lemma web_patched:
  assumes "quiet s"
  shows "\<exists>x w'. patch_helmop (hub_env example_repos token) example_web n web_info vals p (w, s) =
    (Inr (), w', s\<lparr>hub_ops := ((fst p, n), x) # hub_ops s\<rparr>) \<and> ho_Labels (fst x) workloadUIDLabel = Some (wl_UID w) \<and> same_main w w'"
proof -
  let ?sp = "helmop_of w example_web web_info vals n p"
  let ?ho = "stored_helmop ?sp (map_of (hub_ops s) (fst p, n))"
  have "patch_helmop (hub_env example_repos token) example_web n web_info vals p (w, s) =
    (Inr (), record_baseline (render_digest w example_web web_info vals) ?ho w, s\<lparr>hub_ops := ((fst p, n), ?ho, ?sp) # hub_ops s\<rparr>)"
    using assms
    by (simp add: patch_helmop_def web_info_def hub_env_def hub_fleet_def hub_call_quiet Let_def spec_key_def helmop_of_def)
  moreover have "ho_Labels ?ho workloadUIDLabel = Some (wl_UID w)"
    by (auto simp: stored_helmop_def helmop_of_def map_add_def split: option.split)
  ultimately show ?thesis by (metis fst_conv same_main_updates(2))
qed

lemma web_ensured:
  assumes "unconfigured s"
  shows "\<exists>d w' x y. ensureBlueprintHelmOp (hub_env example_repos token) example_web n (example_mixed, s) = (Inr d, w',
     s\<lparr>hub_ops := ((''fleet-default'', n), x) # ((''fleet-local'', n), y) # hub_ops s\<rparr>)
     \<and> ho_Labels (fst x) workloadUIDLabel = Some ''u1'' \<and> ho_Labels (fst y) workloadUIDLabel = Some ''u1'' \<and> same_main example_mixed w'"
proof -
  let ?en = "hub_env example_repos token" and ?w = "record_delivery ''ai'' [] example_mixed"
  let ?p1 = "(''fleet-local'', [JObj [(''clusterName'', JStr ''local'')]])" and ?p2 = "(''fleet-default'', [downstream_target ''edge''])"
  have r: "resolveClusterRepo (en_Repo ?en) (bc_ChartRepo example_web) = Inr web_info" "ri_Kind web_info \<noteq> RepoKindGit"
    using web_resolved by (simp_all add: hub_env_def example_web_def web_info_def)
  have q: "quiet s" using assms by (simp add: unconfigured_def)
  obtain x1 w1 where p1: "patch_helmop ?en example_web n web_info (Some []) ?p1 (?w, s) =
      (Inr (), w1, s\<lparr>hub_ops := ((fst ?p1, n), x1) # hub_ops s\<rparr>)" "ho_Labels (fst x1) workloadUIDLabel = Some (wl_UID ?w)" "same_main ?w w1"
    using web_patched [OF q] by blast
  let ?s1 = "s\<lparr>hub_ops := ((fst ?p1, n), x1) # hub_ops s\<rparr>"
  have q1: "quiet ?s1" using q by simp
  obtain x2 w2 where p2: "patch_helmop ?en example_web n web_info (Some []) ?p2 (w1, ?s1) =
      (Inr (), w2, ?s1\<lparr>hub_ops := ((fst ?p2, n), x2) # hub_ops ?s1\<rparr>)" "ho_Labels (fst x2) workloadUIDLabel = Some (wl_UID w1)" "same_main w1 w2"
    using web_patched [OF q1] by blast
  have "ensureBlueprintHelmOp ?en example_web n (example_mixed, s) =
     (Inr (render_digest example_mixed example_web web_info (Some [])), w2, ?s1\<lparr>hub_ops := ((fst ?p2, n), x2) # hub_ops ?s1\<rparr>)"
    using p1(1) p2(1) by (simp add: ensureBlueprintHelmOp_def r web_values [OF assms] web_pairs)
  moreover have sm: "same_main example_mixed w1" "same_main example_mixed w2"
    using p1(3) p2(3) same_main_trans same_main_updates(1) by blast+
  moreover have "wl_UID ?w = ''u1''" "wl_UID w1 = ''u1''"
    using same_main_fields(2) [OF sm(1)] by (simp_all add: example_mixed_def example_defs record_delivery_def)
  ultimately show ?thesis using p1(2) p2(2)
    by - (rule exI [of _ "render_digest example_mixed example_web web_info (Some [])"], rule exI [of _ w2], rule exI [of _ x2],
      rule exI [of _ x1], simp)
qed

lemma hub_labels: "labelled ''u1'' (Some x) \<longleftrightarrow> ho_Labels (fst x) workloadUIDLabel = Some ''u1''"
  by (cases x) (simp add: labelled_def)

lemma example_pass:
  "\<exists>ds w1 s1 s2. ensure_components (hub_env example_repos token) [example_web] Map.empty (example_mixed, example_hub) = (Inr ds, w1, s1)
    \<and> cleanupStaleHelmOps (hub_env example_repos token) w1 (workload_keys w1 [example_web]) s1 = (Inr (), s2)"
proof -
  let ?en = "hub_env example_repos token" and ?n = "bundle_of example_mixed example_web"
  have st: "DeployStrategy (Spec example_mixed) = AIWorkloadDeployFleetBundle" by (simp add: example_mixed_def example_defs)
  have n: "?n = ''demo-web''" by code_simp
  have u: "unconfigured example_hub" by (simp add: unconfigured_def quiet_def example_hub_def)
  obtain d w1 x y where e: "ensureBlueprintHelmOp ?en example_web ?n (example_mixed, example_hub) =
      (Inr d, w1, example_hub\<lparr>hub_ops := ((''fleet-default'', ?n), x) # ((''fleet-local'', ?n), y) # hub_ops example_hub\<rparr>)"
      "ho_Labels (fst x) workloadUIDLabel = Some ''u1''" "ho_Labels (fst y) workloadUIDLabel = Some ''u1''" "same_main example_mixed w1"
    using web_ensured [OF u] by blast
  let ?s1 = "example_hub\<lparr>hub_ops := ((''fleet-default'', ?n), x) # ((''fleet-local'', ?n), y) # hub_ops example_hub\<rparr>"
  have c: "\<exists>ds. ensure_components ?en [example_web] Map.empty (example_mixed, example_hub) = (Inr ds, w1, ?s1)"
    using e(1) st same_main_fields(1) [OF e(4)] by (simp add: deploy_component_def bundle_of_def [symmetric] no_git_baseline)
  have q: "quiet ?s1" using u by (simp add: unconfigured_def)
  have k: "map key_id (workload_keys w1 [example_web]) = [(''fleet-default'', ''demo-web''), (''fleet-local'', ''demo-web'')]"
    unfolding conjunct1 [OF same_main_keys [OF e(4)]] by code_simp
  have "\<exists>s2. cleanupStaleHelmOps ?en w1 (workload_keys w1 [example_web]) ?s1 = (Inr (), s2)"
  proof -
    have f: "en_Fleet ?en = hub_fleet" by (simp add: hub_env_def)
    have w: "wl_UID w1 = ''u1''" "FleetBundleNames (Spec w1) = [''demo-web'']" "DeployStrategy (Spec w1) = AIWorkloadDeployFleetBundle"
      using same_main_fields [OF e(4)] by (simp_all add: example_mixed_def example_defs)
    have ops: "hub_ops example_hub = [old_helmop ''fleet-default'' ''demo-old'' ''u1'', old_helmop ''fleet-default'' ''other'' ''u2'']"
        "hub_fbs example_hub = []"
      by (simp_all add: example_hub_def)
    show ?thesis using q e(2,3)
      by (simp add: cleanupStaleHelmOps_def k w n f ops bnd_def fleetNamespaces_def backfill_label_def getHelmOpIn_def
        remove_stale_in_def remove_stale_def deleteHelmOpIn_def deleteBundleIn_def hub_fleet_def hub_call_quiet mget_def
        hub_labels old_helmop_def not_found_def)
  qed
  then show ?thesis using c by blast
qed

end
