(* ===== verification/GitPass.thy ===== *)
theory GitPass
  imports Hub
begin

text \<open>
  The GitOps strategy: what the publication of a component's file and the cleanup do to the Git remote, to
  the workload on the API server and to the object in memory. The settings, which name the repository and
  the branch, are taken to stay the same during a pass.
\<close>

section \<open>The laws together\<close>

text \<open>Each server leaves the state of the others alone.\<close>

locale gitops_client =
  creds: client_frame "en_Client en" "\<lambda>s. (ops s, fbs s, remote s, stored s, conf s)" +
  fleet: fleet_store "en_Fleet en" ops fbs +
  git: git_remote "ge_Git (en_Git en)" remote +
  objs: workload_store "ge_Update (en_Git en)" stat stored
  for en :: "'s Env" and ops :: "'s \<Rightarrow> string \<times> string \<Rightarrow> (HelmOp \<times> HelmOpSpec) option"
    and fbs :: "'s \<Rightarrow> string \<times> string \<Rightarrow> FleetBundleSpec option" and remote :: "'s \<Rightarrow> string \<times> string \<Rightarrow> smap"
    and stat :: "'s writer" and stored :: "'s \<Rightarrow> AIWorkload option" and conf :: "'s \<Rightarrow> SettingsSpec option" +
  assumes settings_read: "GetSettings (en_Client en) s = (rc, s') \<Longrightarrow> (\<forall>cf. rc = Inr cf \<longrightarrow> conf s = Some cf)"
    and git_frame: "leaves (\<lambda>s. (ops s, stored s, conf s)) (CloneFiles (ge_Git (en_Git en)) gc)"
      "leaves (\<lambda>s. (ops s, stored s, conf s)) (PushFiles (ge_Git (en_Git en)) gc files msg)"
    and fleet_frame: "leaves (\<lambda>s. (remote s, conf s)) (GetHelmOp (en_Fleet en) ns n)"
      "leaves (\<lambda>s. (remote s, conf s)) (UpdateHelmOp (en_Fleet en) ns n ho)"
      "leaves (\<lambda>s. (remote s, conf s)) (ListHelmOps (en_Fleet en) ns uid)"
    and update_frame: "leaves (\<lambda>s. (ops s, remote s, conf s)) (ge_Update (en_Git en) w)"

definition published_to :: "SettingsSpec \<Rightarrow> string \<times> string" where
  "published_to cf = (git_RepoURL (set_Fleet cf), defaultBranch (set_Fleet cf))"

definition with_file :: "(string \<times> string \<Rightarrow> smap) \<Rightarrow> SettingsSpec \<Rightarrow> string \<Rightarrow> string option \<Rightarrow> string \<times> string \<Rightarrow> smap" where
  "with_file rem cf n content = rem(published_to cf := (rem (published_to cf))(git_path n := content))"

context gitops_client begin

lemma clone_leaves: "leaves (\<lambda>s. (ops s, stored s, conf s)) (clone_tree (ge_Git (en_Git en)) gc)"
  unfolding leaves_def
proof
  fix s
  obtain r s1 where c: "CloneFiles (ge_Git (en_Git en)) gc s = (r, s1)" by (cases "CloneFiles (ge_Git (en_Git en)) gc s")
  show "(ops (snd (clone_tree (ge_Git (en_Git en)) gc s)), stored (snd (clone_tree (ge_Git (en_Git en)) gc s)),
      conf (snd (clone_tree (ge_Git (en_Git en)) gc s))) = (ops s, stored s, conf s)"
    using leavesD [OF git_frame(1) c] c by (auto simp: clone_tree_def split: sum.split option.split)
qed

lemma push_leaves: "leaves (\<lambda>s. (ops s, stored s, conf s)) (commitAndPush (ge_Git (en_Git en)) gc files msg)"
  unfolding leaves_def
proof
  fix s
  obtain r s1 where c: "PushFiles (ge_Git (en_Git en)) gc files msg s = (r, s1)" by (cases "PushFiles (ge_Git (en_Git en)) gc files msg s")
  show "(ops (snd (commitAndPush (ge_Git (en_Git en)) gc files msg s)), stored (snd (commitAndPush (ge_Git (en_Git en)) gc files msg s)),
      conf (snd (commitAndPush (ge_Git (en_Git en)) gc files msg s))) = (ops s, stored s, conf s)"
    using leavesD [OF git_frame(2) c] c by (auto simp: commitAndPush_def split: sum.split)
qed

lemma write_leaves:
  assumes "WriteFile (ge_Git (en_Git en)) gc path content msg s = (r, s')"
  shows "ops s' = ops s \<and> stored s' = stored s \<and> conf s' = conf s"
proof -
  obtain r1 s1 where c: "clone_tree (ge_Git (en_Git en)) gc s = (r1, s1)" by (cases "clone_tree (ge_Git (en_Git en)) gc s")
  show ?thesis using assms c leavesD [OF clone_leaves c] leavesD [OF push_leaves]
    by (fastforce simp: WriteFile_def split: sum.splits if_splits)
qed

lemma delete_leaves:
  assumes "DeleteFile (ge_Git (en_Git en)) gc path msg s = (r, s')"
  shows "ops s' = ops s \<and> stored s' = stored s \<and> conf s' = conf s"
proof -
  obtain r1 s1 where c: "clone_tree (ge_Git (en_Git en)) gc s = (r1, s1)" by (cases "clone_tree (ge_Git (en_Git en)) gc s")
  show ?thesis using assms c leavesD [OF clone_leaves c] leavesD [OF push_leaves]
    by (fastforce simp: DeleteFile_def split: sum.splits if_splits)
qed

text \<open>The removal of a file, when it succeeds, removes exactly that file.\<close>

lemma delete_by_name_step:
  assumes "deleteGitFileByName (en_Git en) n s = (Inr u, s')"
  shows "\<exists>cf. conf s = Some cf \<and> remote s' = with_file (remote s) cf n None \<and> ops s' = ops s \<and> conf s' = conf s"
proof -
  obtain rc s1 where g: "GetSettings (en_Client en) s = (rc, s1)" by (cases "GetSettings (en_Client en) s")
  have o1: "(ops s1, remote s1, conf s1) = (ops s, remote s, conf s)" using creds.settings_obs [of s] g by simp
  obtain cf where cf: "rc = Inr cf" using assms g by (cases rc) (simp_all add: deleteGitFileByName_def en_Client_def)
  obtain rg s2 where n: "NewFromSettings (ge_PemOk (en_Git en)) (en_Client en) (set_Fleet cf) (ge_OperatorNS (en_Git en)) s1 = (rg, s2)"
    by (cases "NewFromSettings (ge_PemOk (en_Git en)) (en_Client en) (set_Fleet cf) (ge_OperatorNS (en_Git en)) s1")
  have o2: "(ops s2, remote s2, conf s2) = (ops s1, remote s1, conf s1)"
    using creds.git_client_obs [of "ge_PemOk (en_Git en)" "set_Fleet cf" "ge_OperatorNS (en_Git en)" s1] n by simp
  obtain gc where gc: "rg = Inr gc" using assms g cf n by (cases rg) (simp_all add: deleteGitFileByName_def en_Client_def)
  obtain h where d: "DeleteFile (ge_Git (en_Git en)) gc (git_path n) (''chore: remove workload '' @ n) s2 = (Inr h, s')"
    using assms g cf n gc by (auto simp: deleteGitFileByName_def en_Client_def split: prod.splits sum.splits)
  have k: "repo_of gc = published_to cf" using settings_repo [OF n [unfolded gc]] by (simp add: published_to_def)
  have "conf s = Some cf" using settings_read [OF g] cf by simp
  then show ?thesis using git.delete_file_step [OF d] delete_leaves [OF d] o1 o2 k by (auto simp: with_file_def)
qed

text \<open>The publication.\<close>

lemma publish_step:
  assumes "publishBlueprintGitFile (en_Git en) n content (w, s) = (Inr u, w', s')"
  shows "\<exists>cf. conf s = Some cf \<and> ops s' = ops s \<and> conf s' = conf s
    \<and> (if mget (Annotations w) (gitFileHashAnnotation n) = publication_hash (set_Fleet cf) content
       then w' = w \<and> remote s' = remote s \<and> stored s' = stored s
       else remote s' = with_file (remote s) cf n (Some content) \<and> stored s' = Some w'
         \<and> (\<exists>old. stored s = Some old
              \<and> main_part (setAnnotation (gitFileHashAnnotation n) (publication_hash (set_Fleet cf) content) w) old w'))"
proof -
  obtain rc s1 where g: "GetSettings (en_Client en) s = (rc, s1)" by (cases "GetSettings (en_Client en) s")
  have o1: "(ops s1, remote s1, stored s1, conf s1) = (ops s, remote s, stored s, conf s)" using creds.settings_obs [of s] g by simp
  obtain cf where cf: "rc = Inr cf" using assms g by (cases rc) (simp_all add: publishBlueprintGitFile_def en_Client_def)
  have c: "conf s = Some cf" using settings_read [OF g] cf by simp
  let ?h = "publication_hash (set_Fleet cf) content" and ?a = "gitFileHashAnnotation n"
  show ?thesis
  proof (cases "mget (Annotations w) ?a = ?h")
    case True
    then have "w' = w" "s' = s1" using assms g cf by (simp_all add: publishBlueprintGitFile_def en_Client_def)
    then show ?thesis using c o1 True by auto
  next
    case False
    obtain rg s2 where n: "NewFromSettings (ge_PemOk (en_Git en)) (en_Client en) (set_Fleet cf) (ge_OperatorNS (en_Git en)) s1 = (rg, s2)"
      by (cases "NewFromSettings (ge_PemOk (en_Git en)) (en_Client en) (set_Fleet cf) (ge_OperatorNS (en_Git en)) s1")
    have o2: "(ops s2, remote s2, stored s2, conf s2) = (ops s1, remote s1, stored s1, conf s1)"
      using creds.git_client_obs [of "ge_PemOk (en_Git en)" "set_Fleet cf" "ge_OperatorNS (en_Git en)" s1] n by simp
    obtain gc where gc: "rg = Inr gc" using assms g cf n False by (cases rg) (simp_all add: publishBlueprintGitFile_def en_Client_def)
    obtain rw s3 where w: "WriteFile (ge_Git (en_Git en)) gc (git_path n) content (''chore: deploy blueprint component '' @ n) s2 = (rw, s3)"
      by (cases "WriteFile (ge_Git (en_Git en)) gc (git_path n) content (''chore: deploy blueprint component '' @ n) s2")
    obtain h where rw: "rw = Inr h" using assms g cf n gc w False by (cases rw) (simp_all add: publishBlueprintGitFile_def en_Client_def)
    obtain w2 where u: "ge_Update (en_Git en) (setAnnotation ?a ?h w) s3 = (Inr w2, s')" "w' = w2"
      using assms g cf n gc w rw False
      by (auto simp: publishBlueprintGitFile_def en_Client_def Let_def split: prod.splits sum.splits)
    have k: "repo_of gc = published_to cf" using settings_repo [OF n [unfolded gc]] by (simp add: published_to_def)
    have r3: "remote s3 = with_file (remote s) cf n (Some content)"
      using git.write_file_step [OF w [unfolded rw]] o1 o2 k by (auto simp: with_file_def)
    have "(ops s3, stored s3, conf s3) = (ops s, stored s, conf s)" using write_leaves [OF w] o1 o2 by simp
    moreover have "(ops s', remote s', conf s') = (ops s3, remote s3, conf s3)" by (rule leavesD [OF update_frame u(1)])
    moreover obtain old where "stored s3 = Some old" "main_part (setAnnotation ?a ?h w) old w2" "stored s' = Some w2"
      using objs.upd_ok [OF u(1)] by blast
    moreover from calculation have "stored s = Some old" by simp
    ultimately show ?thesis using c False r3 u(2) by auto
  qed
qed

text \<open>Reading and labelling HelmOps does not touch the remote.\<close>

lemma backfill_remote: "leaves (\<lambda>s. (remote s, conf s)) (backfill_label (en_Fleet en) uid k)"
  unfolding leaves_def
proof
  fix s
  obtain r s1 where g: "GetHelmOp (en_Fleet en) (fst k) (snd k) s = (r, s1)" by (cases "GetHelmOp (en_Fleet en) (fst k) (snd k) s")
  show "(remote (snd (backfill_label (en_Fleet en) uid k s)), conf (snd (backfill_label (en_Fleet en) uid k s))) = (remote s, conf s)"
    using leavesD [OF fleet_frame(1) g] g fleet_frame(2)
    by (auto simp: backfill_label_def getHelmOpIn_def leaves_def split: sum.split)
qed

text \<open>The removal of stale files: what is removed, or was missing, is missing afterwards.\<close>

definition missing :: "SettingsSpec \<Rightarrow> 's \<Rightarrow> string \<Rightarrow> bool" where
  "missing cf s n \<longleftrightarrow> remote s (published_to cf) (git_path n) = None"

lemma git_path_inj: "git_path n = git_path m \<longleftrightarrow> n = m"
  by (simp add: git_path_def)

lemma remove_files_step:
  assumes "for_each names (remove_stale en AIWorkloadDeployGitOps desired ns) s = (Inr u, s')" "conf s = Some cf"
  shows "ops s' = ops s \<and> conf s' = conf s
    \<and> (\<forall>n. missing cf s n \<or> n \<in> set names \<and> (ns, n) \<notin> set desired \<longrightarrow> missing cf s' n)"
  using assms
proof (induction names arbitrary: s)
  case (Cons m names)
  obtain r s1 where d: "remove_stale en AIWorkloadDeployGitOps desired ns m s = (r, s1)"
    by (cases "remove_stale en AIWorkloadDeployGitOps desired ns m s")
  then obtain v where r: "r = Inr v" using Cons.prems(1) by (cases r) simp_all
  have rest: "for_each names (remove_stale en AIWorkloadDeployGitOps desired ns) s1 = (Inr u, s')" using Cons.prems(1) d r by simp
  have one: "ops s1 = ops s \<and> conf s1 = conf s \<and> (\<forall>n. missing cf s n \<or> n = m \<and> (ns, n) \<notin> set desired \<longrightarrow> missing cf s1 n)"
  proof (cases "(ns, m) \<in> set desired")
    case True
    then show ?thesis using d by (auto simp: remove_stale_def)
  next
    case False
    then have "deleteGitFileByName (en_Git en) m s = (Inr v, s1)" using d r by (simp add: remove_stale_def)
    from delete_by_name_step [OF this] show ?thesis using Cons.prems(2)
      by (auto simp: missing_def with_file_def git_path_inj)
  qed
  then have "conf s1 = Some cf" using Cons.prems(2) by simp
  from Cons.IH [OF rest this] one show ?case by auto
qed simp

lemma remove_stale_files_in:
  assumes "remove_stale_in en w desired ns s = (Inr u, s')" "DeployStrategy (Spec w) = AIWorkloadDeployGitOps" "conf s = Some cf"
  shows "ops s' = ops s \<and> conf s' = conf s
    \<and> (\<forall>n. missing cf s n \<or> labelled (wl_UID w) (ops s (ns, n)) \<and> (ns, n) \<notin> set desired \<longrightarrow> missing cf s' n)"
proof -
  obtain names s1 where l: "ListHelmOps (en_Fleet en) ns (wl_UID w) s = (Inr names, s1)"
      and f: "for_each names (remove_stale en AIWorkloadDeployGitOps desired ns) s1 = (Inr u, s')"
    using assms(1,2) by (auto simp: remove_stale_in_def bnd_Inr)
  note ls = fleet.list_ops [OF l] and lf = leavesD [OF fleet_frame(3) l]
  have "conf s1 = Some cf" using lf assms(3) by simp
  from remove_files_step [OF f this] show ?thesis using ls lf by (auto simp: missing_def)
qed

lemma cleanup_git_step:
  assumes "cleanupStaleHelmOps en w desired s = (Inr u, s')" "DeployStrategy (Spec w) = AIWorkloadDeployGitOps" "wl_UID w \<noteq> ''''"
    and "conf s = Some cf" "ns \<in> set fleetNamespaces" "labelled (wl_UID w) (ops s (ns, n))" "(ns, n) \<notin> key_id ` set desired"
  shows "missing cf s' n \<and> conf s' = conf s"
proof -
  let ?rm = "remove_stale_in en w (map key_id desired)"
  let ?bf = "\<lambda>n. for_each fleetNamespaces (\<lambda>ns. backfill_label (en_Fleet en) (wl_UID w) (ns, n))"
  obtain v s1 where b: "for_each (FleetBundleNames (Spec w)) ?bf s = (Inr v, s1)" and r: "for_each fleetNamespaces ?rm s1 = (Inr u, s')"
    using assms(1) by (auto simp: cleanupStaleHelmOps_def bnd_Inr)
  obtain a b' s2 where r1: "?rm ''fleet-local'' s1 = (Inr a, s2)" and r2: "?rm ''fleet-default'' s2 = (Inr b', s')"
    using r by (auto simp: fleetNamespaces_def split: prod.splits sum.splits)
  have "leaves (\<lambda>s. (remote s, conf s)) (for_each (FleetBundleNames (Spec w)) ?bf)"
    by (intro leaves_for_each backfill_remote)
  from leavesD [OF this b] have c1: "conf s1 = Some cf" using assms(4) by simp
  have lab: "labelled (wl_UID w) (ops s1 (ns, n))"
    using fleet.backfill_all_step [OF b assms(3)] relabelled_labelled [OF _ assms(6,3)] assms(6) by metis
  note m1 = remove_stale_files_in [OF r1 assms(2) c1]
  have c2: "conf s2 = Some cf" using m1 c1 by simp
  note m2 = remove_stale_files_in [OF r2 assms(2) c2]
  have nd: "(ns, n) \<notin> set (map key_id desired)" using assms(7) by simp
  consider "ns = ''fleet-local''" | "ns = ''fleet-default''" using assms(5) by (auto simp: fleetNamespaces_def)
  then have "missing cf s' n"
  proof cases
    case 1
    then have "missing cf s2 n" using m1 lab nd by blast
    then show ?thesis using m2 by blast
  next
    case 2
    then show ?thesis using m1 m2 lab nd by metis
  qed
  then show ?thesis using m1 m2 c1 assms(4) by simp
qed

end

section \<open>Publication\<close>

text \<open>
  C15. A publication that succeeds and was not skipped puts the rendered file, and nothing else, on the
  branch the settings name, and records the digest of what it put there in the workload's annotation, on the
  API server and in memory, so that the same content is not pushed a second time. The object in memory is
  then the stored one: its status is the one the API server had, and what this pass had put into the status
  (the recorded pull-secret deliveries and baselines) is lost to the rest of the pass.
\<close>

theorem publication_recorded:
  assumes "gitops_client en ops fbs remote stat stored conf"
    and "publishBlueprintGitFile (en_Git en) n content (w, s) = (Inr (), w', s')" "conf s = Some cf"
    and "mget (Annotations w) (gitFileHashAnnotation n) \<noteq> publication_hash (set_Fleet cf) content"
  shows "remote s' = (remote s)(published_to cf := (remote s (published_to cf))(''workloads/'' @ n @ ''.yaml'' \<mapsto> content))
    \<and> stored s' = Some w' \<and> mget (Annotations w') (gitFileHashAnnotation n) = publication_hash (set_Fleet cf) content
    \<and> (\<exists>old. stored s = Some old \<and> Status w' = Status old)
    \<and> (\<forall>t u v t'. conf t = Some cf \<longrightarrow> publishBlueprintGitFile (en_Git en) n content (w', t) = (Inr u, v, t') \<longrightarrow> v = w' \<and> remote t' = remote t)"
proof -
  note st = gitops_client.publish_step [OF assms(1,2)]
  obtain old where p: "remote s' = with_file (remote s) cf n (Some content)" "stored s' = Some w'" "stored s = Some old"
      "main_part (setAnnotation (gitFileHashAnnotation n) (publication_hash (set_Fleet cf) content) w) old w'"
    using st assms(3,4) by auto
  have f: "Annotations w' = (Annotations w)(gitFileHashAnnotation n \<mapsto> publication_hash (set_Fleet cf) content)" "Status w' = Status old"
    using p(4) by (cases w'; cases old; cases w; simp add: main_part_def setAnnotation_def)+
  have a: "mget (Annotations w') (gitFileHashAnnotation n) = publication_hash (set_Fleet cf) content" using f(1) by simp
  have "v = w' \<and> remote t' = remote t"
    if "conf t = Some cf" "publishBlueprintGitFile (en_Git en) n content (w', t) = (Inr u, v, t')" for t u v t'
    using gitops_client.publish_step [OF assms(1) that(2)] that(1) a by auto
  then show ?thesis using p f(2) a by (auto simp: with_file_def git_path_def)
qed

text \<open>
  In the GitOps strategy the two workspaces of a component share one file. When the component is no longer
  desired in one of them, the cleanup deletes the file, although its other HelmOp is still desired; and as
  the annotation still holds the digest of the content, the next publication of that content is skipped: the
  file stays deleted and Fleet removes the component from the clusters on which it is desired.
\<close>

theorem shared_file_lost:
  assumes "gitops_client en ops fbs remote stat stored conf"
    and "cleanupStaleHelmOps en w desired s = (Inr (), s')" "DeployStrategy (Spec w) = AIWorkloadDeployGitOps" "wl_UID w \<noteq> ''''"
    and "conf s = Some cf" "labelled (wl_UID w) (ops s (''fleet-local'', n))" "(''fleet-local'', n) \<notin> key_id ` set desired"
    and "mget (Annotations w) (gitFileHashAnnotation n) = publication_hash (set_Fleet cf) content"
    and "publishBlueprintGitFile (en_Git en) n content (w, s') = (Inr (), w'', s'')"
  shows "w'' = w \<and> remote s'' (published_to cf) (''workloads/'' @ n @ ''.yaml'') = None"
proof -
  have ns: "''fleet-local'' \<in> set fleetNamespaces" by (simp add: fleetNamespaces_def)
  note step = gitops_client.cleanup_git_step [OF assms(1)]
  note m = step [OF assms(2,3,4,5) ns assms(6,7)]
  have "conf s' = Some cf" using m assms(5) by simp
  then show ?thesis using gitops_client.publish_step [OF assms(1,9)] assms(8) conjunct1 [OF m]
    by (auto simp: gitops_client.missing_def [OF assms(1)] git_path_def)
qed

section \<open>The in-memory cluster keeps the laws\<close>

definition hub_conf :: "hub \<Rightarrow> SettingsSpec option" where
  "hub_conf s = cl_settings (fst (hub_world s))"

lemma hub_call_leaves:
  assumes "\<And>t. obs (snd (f t)) = obs t"
    and "\<And>s x. obs (s\<lparr>hub_world := ((fst (hub_world s))\<lparr>cl_faults := x\<rparr>, snd (hub_world s))\<rparr>) = obs s"
  shows "leaves obs (hub_call f)"
  using assms by (auto simp: leaves_def hub_call_def Let_def split: list.split option.split prod.split bool.split)

lemma hub_conf_faults [simp]:
  "hub_conf (s\<lparr>hub_world := ((fst (hub_world s))\<lparr>cl_faults := x\<rparr>, snd (hub_world s))\<rparr>) = hub_conf s"
  "hub_conf (s\<lparr>hub_git := g\<rparr>) = hub_conf s" "hub_conf (s\<lparr>hub_ops := os\<rparr>) = hub_conf s"
  "hub_conf (s\<lparr>hub_workload := u\<rparr>) = hub_conf s"
  by (simp_all add: hub_conf_def)

lemma hub_conf_world: "cl_settings (fst (snd (f (hub_world s)))) = cl_settings (fst (hub_world s)) \<Longrightarrow> hub_conf (snd (on_world f s)) = hub_conf s"
  by (simp add: hub_conf_def on_world_def prod.case_eq_if)

lemma hub_conf_client:
  "hub_conf (snd (GetSecret hub_client ns n s)) = hub_conf s"
  "hub_conf (snd (UpdateSecret hub_client ns n sec s)) = hub_conf s"
  "hub_conf (snd (PatchSecret hub_client ns n sec s)) = hub_conf s"
  "hub_conf (snd (PatchNamespace hub_client ns s)) = hub_conf s"
  "hub_conf (snd (GetSettings hub_client s)) = hub_conf s"
proof -
  show "hub_conf (snd (GetSecret hub_client ns n s)) = hub_conf s"
    using dl.get_frame [of ns n "hub_world s"] by (simp add: hub_client_def hub_conf_world)
  show "hub_conf (snd (UpdateSecret hub_client ns n sec s)) = hub_conf s"
    using dl.update_frame [of ns n sec "hub_world s"] by (simp add: hub_client_def hub_conf_world)
  show "hub_conf (snd (PatchSecret hub_client ns n sec s)) = hub_conf s"
    using dl.patch_step [of ns n sec "hub_world s", OF prod.collapse [symmetric]] by (simp add: hub_client_def hub_conf_world)
  show "hub_conf (snd (PatchNamespace hub_client ns s)) = hub_conf s"
    using dl.space_step [of ns "hub_world s", OF prod.collapse [symmetric]] by (simp add: hub_client_def hub_conf_world)
  show "hub_conf (snd (GetSettings hub_client s)) = hub_conf s"
    using dl.settings_frame [of "hub_world s"] by (simp add: hub_client_def hub_conf_world)
qed

lemma settings_read: "cl_call (\<lambda>s. cl_read (cl_settings s) s) c = (rc, c') \<Longrightarrow> rc = Inr cf \<Longrightarrow> cl_settings c = Some cf"
  by (auto simp: cl_call_def Let_def cl_read_def split: list.splits option.splits prod.splits bool.splits)

lemma hub_settings_read:
  assumes "GetSettings hub_client s = (Inr cf, s')"
  shows "hub_conf s = Some cf"
unfolding hub_conf_def
proof (rule settings_read)
  show "cl_call (\<lambda>s. cl_read (cl_settings s) s) (fst (hub_world s)) = (Inr cf, snd (cl_call (\<lambda>s. cl_read (cl_settings s) s) (fst (hub_world s))))"
    using assms by (simp add: hub_client_def on_world_def world_simps on_cluster_def cluster_simps prod_eq_iff)
qed simp

interpretation hub_gitops: gitops_client "hub_env repos token" "\<lambda>s. map_of (hub_ops s)" "\<lambda>s. map_of (hub_fbs s)" hub_git
    hub_status_update hub_workload hub_conf
  for repos token
proof -
  have e: "en_Client (hub_env repos token) = hub_client" "en_Fleet (hub_env repos token) = hub_fleet"
      "ge_Git (en_Git (hub_env repos token)) = hub_git_api" "ge_Update (en_Git (hub_env repos token)) = hub_update"
    by (simp_all add: hub_env_def hub_git_env_def en_Client_def)
  show "gitops_client (hub_env repos token) (\<lambda>s. map_of (hub_ops s)) (\<lambda>s. map_of (hub_fbs s)) hub_git hub_status_update hub_workload hub_conf"
  proof (intro gitops_client.intro gitops_client_axioms.intro, unfold e)
    show "client_frame hub_client (\<lambda>s. (map_of (hub_ops s), map_of (hub_fbs s), hub_git s, hub_workload s, hub_conf s))"
      by unfold_locales (simp_all add: hub_conf_client, simp_all add: hub_client_def on_world_def)
    show "fleet_store hub_fleet (\<lambda>s. map_of (hub_ops s)) (\<lambda>s. map_of (hub_fbs s))" by (rule hub_store.fleet_store_axioms)
    show "git_remote hub_git_api hub_git" by (rule hub_remote.git_remote_axioms)
    show "workload_store hub_update hub_status_update hub_workload" by (rule hub_workloads.workload_store_axioms)
  next
    fix s s' and rc :: "err + SettingsSpec"
    assume "GetSettings hub_client s = (rc, s')"
    then show "\<forall>cf. rc = Inr cf \<longrightarrow> hub_conf s = Some cf" by (auto intro: hub_settings_read)
  next
    fix gc
    show "leaves (\<lambda>s. (map_of (hub_ops s), hub_workload s, hub_conf s)) (CloneFiles hub_git_api gc)"
      unfolding hub_git_api_def by (simp, rule hub_call_leaves) simp_all
  next
    fix gc files msg
    show "leaves (\<lambda>s. (map_of (hub_ops s), hub_workload s, hub_conf s)) (PushFiles hub_git_api gc files msg)"
      unfolding hub_git_api_def by (simp, rule hub_call_leaves) simp_all
  next
    fix ns n
    show "leaves (\<lambda>s. (hub_git s, hub_conf s)) (GetHelmOp hub_fleet ns n)"
      unfolding hub_fleet_def by (simp, rule hub_call_leaves) simp_all
  next
    fix ns n ho
    show "leaves (\<lambda>s. (hub_git s, hub_conf s)) (UpdateHelmOp hub_fleet ns n ho)"
      unfolding hub_fleet_def by (simp, rule hub_call_leaves) (simp_all split: option.split)
  next
    fix ns uid
    show "leaves (\<lambda>s. (hub_git s, hub_conf s)) (ListHelmOps hub_fleet ns uid)"
      unfolding hub_fleet_def by (simp, rule hub_call_leaves) simp_all
  next
    fix w
    show "leaves (\<lambda>s. (map_of (hub_ops s), hub_git s, hub_conf s)) (hub_update w)"
      unfolding hub_update_def hub_write_def by (rule hub_call_leaves) (simp_all split: option.split)
  qed
qed

section \<open>A cluster with settings\<close>

definition example_git_hub :: hub where
  "example_git_hub = example_hub\<lparr>
     hub_world := (\<lparr>cl_secrets = Map.empty, cl_namespaces = [''op''], cl_settings = Some example_settings, cl_faults = []\<rparr>, [])\<rparr>"

lemma example_git_hub_quiet: "quiet example_git_hub" "hub_conf example_git_hub = Some example_settings"
    "hub_git example_git_hub = (\<lambda>_. Map.empty)" "hub_workload example_git_hub = Some example_mixed"
  by (simp_all add: quiet_def example_git_hub_def example_hub_def hub_conf_def)

lemma hub_settings_quiet:
  assumes "quiet s" "hub_conf s = Some cf"
  shows "GetSettings hub_client s = (Inr cf, s)"
proof -
  obtain c b where w: "hub_world s = (c, b)" by (cases "hub_world s")
  have "c\<lparr>cl_faults := []\<rparr> = c" using assms w by (cases c) (simp add: quiet_def)
  then have "GetSettings cluster_client c = (Inr cf, c)"
    using assms w by (simp add: cluster_simps cl_call_def Let_def hub_conf_def quiet_def cl_read_def)
  moreover have "s\<lparr>hub_world := (c, b)\<rparr> = s" using w by (cases s) simp
  ultimately show ?thesis using w by (simp add: hub_client_def on_world_def world_simps on_cluster_def)
qed

lemma example_git_client:
  "NewFromSettings ok c (set_Fleet example_settings) ns s =
     (Inr \<lparr>gc_RepoURL = ''https://git.lan/fleet'', gc_Branch = ''main'', gc_Auth = None, gc_CABundle = None\<rparr>, s)"
  by (simp add: NewFromSettings_def git_auth_def git_ca_def example_settings_def mirrored_settings_def example_git_def defaultBranch_def)

definition example_gitops :: AIWorkload where
  "example_gitops = example_mixed\<lparr>Spec := (Spec example_mixed)\<lparr>DeployStrategy := AIWorkloadDeployGitOps\<rparr>\<rparr>"

lemma hash_of_something: "gitManifestHash x \<noteq> ''''"
  using hex_encode_length [of "sha256 x"] sha256_length [of x] by (auto simp: gitManifestHash_def)

theorem publication_recorded_witness:
  "\<exists>w' s'. publishBlueprintGitFile (en_Git (hub_env example_repos True)) ''demo-web'' ''kind'' (example_gitops, example_git_hub) = (Inr (), w', s')
    \<and> hub_git s' (''https://git.lan/fleet'', ''main'') ''workloads/demo-web.yaml'' = Some ''kind''
    \<and> mget (Annotations w') (gitFileHashAnnotation ''demo-web'') \<noteq> ''''"
proof -
  let ?run = "publishBlueprintGitFile (en_Git (hub_env example_repos True)) ''demo-web'' ''kind'' (example_gitops, example_git_hub)"
  have a: "Annotations example_gitops = Map.empty" by (simp add: example_gitops_def example_mixed_def example_defs)
  have n: "mget (Annotations example_gitops) (gitFileHashAnnotation ''demo-web'') \<noteq> publication_hash (set_Fleet example_settings) ''kind''"
    using hash_of_something [symmetric] by (simp add: a mget_def publication_hash_def)
  have g: "en_Git (hub_env example_repos True) = hub_git_env" by (simp add: hub_env_def)
  have "\<exists>w' s'. ?run = (Inr (), w', s')"
    using n by (simp add: publishBlueprintGitFile_def g hub_git_env_def hub_settings_quiet [OF example_git_hub_quiet(1,2)]
      example_git_client WriteFile_def clone_tree_def fileContentMatches_def commitAndPush_def hub_git_api_def hub_call_quiet
      example_git_hub_quiet hub_update_def hub_write_def Let_def)
  then obtain w' s' where r: "?run = (Inr (), w', s')" by blast
  note all = publication_recorded [OF hub_gitops.gitops_client_axioms r example_git_hub_quiet(2) n]
  have p: "published_to example_settings = (''https://git.lan/fleet'', ''main'')"
    by (simp add: published_to_def example_settings_def mirrored_settings_def example_git_def defaultBranch_def)
  show ?thesis using r all hash_of_something by (auto simp: p publication_hash_def)
qed

text \<open>The workload has left the local cluster; its file is on the remote.\<close>

definition example_shared_hub :: hub where
  "example_shared_hub = example_git_hub\<lparr>hub_ops := [old_helmop ''fleet-local'' ''demo-web'' ''u1'', old_helmop ''fleet-default'' ''demo-web'' ''u1''],
     hub_git := (\<lambda>_. Map.empty)((''https://git.lan/fleet'', ''main'') := [''workloads/demo-web.yaml'' \<mapsto> ''kind''])\<rparr>"

definition example_shared :: AIWorkload where
  "example_shared = setAnnotation (gitFileHashAnnotation ''demo-web'') (publication_hash (set_Fleet example_settings) ''kind'') example_gitops"

definition example_keys :: "HelmOpKey list" where
  "example_keys = [\<lparr>k_Namespace = ''fleet-default'', k_Name = ''demo-web'', k_ComponentChartName = ''web'', k_ReleaseName = '''', k_ExpectedClusters = 1\<rparr>]"

lemma example_shared_cleanup:
  "\<exists>s'. cleanupStaleHelmOps (hub_env example_repos True) example_shared example_keys
      example_shared_hub = (Inr (), s') \<and> quiet s' \<and> hub_conf s' = Some example_settings"
proof -
  have q: "quiet example_shared_hub" "hub_conf example_shared_hub = Some example_settings"
    using example_git_hub_quiet by (simp_all add: example_shared_hub_def)
  have w: "wl_UID example_shared = ''u1''" "FleetBundleNames (Spec example_shared) = [''demo-web'']"
      "DeployStrategy (Spec example_shared) = AIWorkloadDeployGitOps"
    by (simp_all add: example_shared_def setAnnotation_def example_gitops_def example_mixed_def example_defs)
  have ops: "hub_ops example_shared_hub = [old_helmop ''fleet-local'' ''demo-web'' ''u1'', old_helmop ''fleet-default'' ''demo-web'' ''u1'']"
      "hub_git example_shared_hub (''https://git.lan/fleet'', ''main'') = [''workloads/demo-web.yaml'' \<mapsto> ''kind'']"
    by (simp_all add: example_shared_hub_def)
  show ?thesis
    using q by (simp add: cleanupStaleHelmOps_def w ops bnd_def fleetNamespaces_def backfill_label_def getHelmOpIn_def hub_env_def
        remove_stale_in_def remove_stale_def deleteGitFileByName_def hub_fleet_def hub_call_quiet mget_def key_id_def example_keys_def
        hub_labels old_helmop_def not_found_def hub_git_env_def hub_settings_quiet example_git_client DeleteFile_def clone_tree_def
        commitAndPush_def hub_git_api_def git_path_def repo_of_def)
qed

theorem shared_file_lost_witness:
  "\<exists>s' s''. cleanupStaleHelmOps (hub_env example_repos True) example_shared example_keys
      example_shared_hub = (Inr (), s')
    \<and> publishBlueprintGitFile (en_Git (hub_env example_repos True)) ''demo-web'' ''kind'' (example_shared, s') = (Inr (), example_shared, s'')
    \<and> hub_git s'' (''https://git.lan/fleet'', ''main'') ''workloads/demo-web.yaml'' = None"
proof -
  obtain s' where c: "cleanupStaleHelmOps (hub_env example_repos True) example_shared example_keys
      example_shared_hub = (Inr (), s')" and q: "quiet s'" "hub_conf s' = Some example_settings"
    using example_shared_cleanup by blast
  have a: "mget (Annotations example_shared) (gitFileHashAnnotation ''demo-web'') = publication_hash (set_Fleet example_settings) ''kind''"
    by (simp add: example_shared_def setAnnotation_def mget_def)
  have p: "publishBlueprintGitFile (en_Git (hub_env example_repos True)) ''demo-web'' ''kind'' (example_shared, s') = (Inr (), example_shared, s')"
    using a by (simp add: publishBlueprintGitFile_def hub_env_def hub_git_env_def hub_settings_quiet [OF q])
  have h: "DeployStrategy (Spec example_shared) = AIWorkloadDeployGitOps" "wl_UID example_shared \<noteq> ''''" "wl_UID example_shared = ''u1''"
    by (simp_all add: example_shared_def setAnnotation_def example_gitops_def example_mixed_def example_defs)
  have l: "labelled (wl_UID example_shared) (map_of (hub_ops example_shared_hub) (''fleet-local'', ''demo-web''))"
    by (simp add: h(3) hub_labels example_shared_hub_def old_helmop_def)
  have n: "(''fleet-local'', ''demo-web'') \<notin> key_id ` set example_keys"
    by (simp add: key_id_def example_keys_def)
  have cf: "hub_conf example_shared_hub = Some example_settings" using example_git_hub_quiet by (simp add: example_shared_hub_def)
  have t: "published_to example_settings = (''https://git.lan/fleet'', ''main'')"
    by (simp add: published_to_def example_settings_def mirrored_settings_def example_git_def defaultBranch_def)
  show ?thesis
    using c p shared_file_lost [OF hub_gitops.gitops_client_axioms c h(1,2) cf l n a p] by (auto simp: t)
qed

end
