(* ===== verification/AppStatus.thy ===== *)
theory AppStatus
  imports GitPass Readiness
begin

text \<open>
  Workloads whose source is a single application (\<open>internal/controller/aiworkload\<close>): the pull secrets of
  the application (\<open>app.go\<close>), the status mirrored from Fleet (\<open>aiworkload_controller.go\<close>) and, in the GitOps
  strategy, the synchronisation of the spec from the HelmOp that Fleet made of the git file, and the
  removal of a workload whose file is gone (\<open>gitops.go\<close>). The user interface writes the HelmOp, the
  operator only reads it.
\<close>

section \<open>Pull secrets\<close>

definition secrets_recorded :: "AIWorkload \<Rightarrow> bool" where
  "secrets_recorded w \<longleftrightarrow>
     list_ex (\<lambda>d. psd_Namespace d = TargetNamespace (Spec w) \<and> psd_Names d \<noteq> []) (PullSecretDeliveries (Status w))"

definition reconcileAppPullSecrets :: "'s Env \<Rightarrow> ('s, unit) wact" where
  "reconcileAppPullSecrets en = (\<lambda>(w, s).
     case SourceApp (Spec w) of
       None \<Rightarrow> (Inr (), w, s)
     | Some src \<Rightarrow>
         if TargetNamespace (Spec w) = '''' \<or> secrets_recorded w then (Inr (), w, s)
         else (case resolveClusterRepo (en_Repo en) (app_ChartRepo src) of
                 Inl e \<Rightarrow>
                   if err_is e = SClusterRepoNotReady \<or> err_is e = SNoMatch then (Inr (), w, s)
                   else (Inl (wrap_err (''resolve ClusterRepo '' @ app_ChartRepo src) e), w, s)
               | Inr info \<Rightarrow>
                   (case injectorFor (app_Vendor src) (en_Client en) (ge_OperatorNS (en_Git en)) (TargetNamespace (Spec w)) info
                           (targetsLocalCluster w) (Some []) s of
                      (Inl e, s1) \<Rightarrow> (Inl (wrap_err ''inject pull secrets for App workload'' e), w, s1)
                    | (Inr (created, _), s1) \<Rightarrow> (Inr (), record_delivery (TargetNamespace (Spec w)) created w, s1))))"

section \<open>The HelmOp of the application\<close>

fun first_helmop :: "'s FleetAPI \<Rightarrow> string \<Rightarrow> string list \<Rightarrow> ('s, HelmOpView option) act" where
  "first_helmop f name [] s = (Inr None, s)"
| "first_helmop f name (ns # nss) s =
     (case ReadHelmOp f ns name s of
        (Inr ho, s1) \<Rightarrow> (Inr (Some ho), s1)
      | (Inl e, s1) \<Rightarrow> if err_is e = SNotFound then first_helmop f name nss s1 else (Inl e, s1))"

definition getHelmOp :: "'s FleetAPI \<Rightarrow> string \<Rightarrow> ('s, HelmOpView option) act" where
  "getHelmOp f name = first_helmop f name fleetNamespaces"

definition helmOpNamespace :: "HelmOpView \<Rightarrow> string" where
  "helmOpNamespace ho =
     (if str_field (hv_DefaultNamespace ho) \<noteq> '''' then str_field (hv_DefaultNamespace ho) else str_field (hv_Namespace ho))"

text \<open>A JSON encoder ends each value with a new line.\<close>

definition helmOpHash :: "string \<Rightarrow> string \<Rightarrow> jmap option \<Rightarrow> string" where
  "helmOpHash version namespace vals = hex_encode (sha256
     (marshal (JStr version) @ newline @ marshal (JStr namespace) @ newline @ marshal (values_json vals) @ newline))"

definition gitSyncAnnotation :: string where "gitSyncAnnotation = ''ai-factory.suse.com/last-git-sync''"

fun set_override :: "string \<Rightarrow> string \<Rightarrow> ComponentValueOverride list \<Rightarrow> ComponentValueOverride list" where
  "set_override chart raw [] = [\<lparr>ov_ComponentName = chart, ov_Values = Some raw, ov_Enabled = None\<rparr>]"
| "set_override chart raw (cv # cvs) =
     (if ov_ComponentName cv = chart then cv\<lparr>ov_Values := Some raw\<rparr> # cvs else cv # set_override chart raw cvs)"

definition synced_spec :: "HelmOpView \<Rightarrow> AIWorkloadSpec \<Rightarrow> AIWorkloadSpec" where
  "synced_spec ho sp =
     (let version = str_field (hv_Version ho); namespace = helmOpNamespace ho;
          sp1 = (case SourceApp sp of
                   Some app \<Rightarrow> if version \<noteq> '''' then sp\<lparr>SourceApp := Some (app\<lparr>app_ChartVersion := version\<rparr>)\<rparr> else sp
                 | None \<Rightarrow> sp);
          sp2 = (if namespace \<noteq> '''' then sp1\<lparr>TargetNamespace := namespace\<rparr> else sp1)
      in case SourceApp sp2 of
           Some app \<Rightarrow> if map_len (hv_Values ho) > 0
             then sp2\<lparr>ComponentValues := set_override (app_ChartName app) (marshal (values_json (hv_Values ho))) (ComponentValues sp2)\<rparr>
             else sp2
         | None \<Rightarrow> sp2)"

definition syncSpecFromHelmOp :: "'s writer \<Rightarrow> HelmOpView \<Rightarrow> ('s, unit) wact" where
  "syncSpecFromHelmOp upd ho = (\<lambda>(w, s).
     let newHash = helmOpHash (str_field (hv_Version ho)) (helmOpNamespace ho) (hv_Values ho)
     in if mget (Annotations w) gitSyncAnnotation = newHash then (Inr (), w, s)
        else let w1 = setAnnotation gitSyncAnnotation newHash (w\<lparr>Spec := synced_spec ho (Spec w)\<rparr>)
             in case upd w1 s of
                  (Inl e, s1) \<Rightarrow> (Inl e, w1, s1)
                | (Inr w2, s1) \<Rightarrow> (Inr (), w2, s1))"

section \<open>The mirrored status\<close>

definition mirrored :: "BundleDeployment list \<Rightarrow> AIWorkloadClusterStatus list" where
  "mirrored bds = map (\<lambda>bd. let phase = fleetStateToClusterPhase (str_field (bd_DisplayState bd)) in
       \<lparr>cs_ClusterID = str_field (bd_ClusterID bd), cs_Phase = phase,
        cs_Message = (if phase = ClusterRunning then '''' else str_field (bd_DisplayMessage bd))\<rparr>)
     (filter (\<lambda>bd. str_field (bd_ClusterID bd) \<noteq> '''') bds)"

definition mirrorFleetStatus :: "'s FleetAPI \<Rightarrow> nat \<Rightarrow> ('s, unit) wact" where
  "mirrorFleetStatus f now = (\<lambda>(w, s).
     case ListDeployments f (hd (FleetBundleNames (Spec w))) s of
       (Inl e, s1) \<Rightarrow> (Inl e, w, s1)
     | (Inr bds, s1) \<Rightarrow>
         (Inr (), w\<lparr>Status := (Status w)\<lparr>ClusterStatuses := mirrored bds,
            st_Phase := guardPhaseTransition now (derivePhase (mirrored bds)) (st_Phase (Status w)) (wl_CreationTimestamp w)\<rparr>\<rparr>, s1))"

definition reconcileFleetStatus :: "'s FleetAPI \<Rightarrow> nat \<Rightarrow> ('s, unit) wact" where
  "reconcileFleetStatus f now = (\<lambda>(w, s).
     if FleetBundleNames (Spec w) = [] then (Inr (), w, s)
     else case getHelmOp f (hd (FleetBundleNames (Spec w))) s of
            (Inl e, s1) \<Rightarrow> (Inl e, w, s1)
          | (Inr None, s1) \<Rightarrow> (Inr (), w\<lparr>Status := (Status w)\<lparr>st_Phase := PhaseUnknown, ClusterStatuses := []\<rparr>\<rparr>, s1)
          | (Inr (Some _), s1) \<Rightarrow> mirrorFleetStatus f now (w, s1))"

definition aiWorkloadFinalizer :: string where "aiWorkloadFinalizer = ''ai-factory.suse.com/cleanup''"

definition remove_finalizer :: "AIWorkload \<Rightarrow> AIWorkload" where
  "remove_finalizer w = w\<lparr>wl_Finalizers := filter (\<lambda>f. f \<noteq> aiWorkloadFinalizer) (wl_Finalizers w)\<rparr>"

definition deleteAIWorkload :: "'s writer \<Rightarrow> (AIWorkload \<Rightarrow> ('s, unit) act) \<Rightarrow> ('s, unit) wact" where
  "deleteAIWorkload upd del = (\<lambda>(w, s).
     case upd (remove_finalizer w) s of
       (Inl e, s1) \<Rightarrow> (Inl e, remove_finalizer w, s1)
     | (Inr w1, s1) \<Rightarrow> (case del w1 s1 of (r, s2) \<Rightarrow> (r, w1, s2)))"

definition reconcileGitOpsStatus ::
  "'s FleetAPI \<Rightarrow> 's writer \<Rightarrow> (AIWorkload \<Rightarrow> ('s, unit) act) \<Rightarrow> nat \<Rightarrow> ('s, unit) wact" where
  "reconcileGitOpsStatus f upd del now = (\<lambda>(w, s).
     if FleetBundleNames (Spec w) = [] then (Inr (), w, s)
     else case getHelmOp f (hd (FleetBundleNames (Spec w))) s of
            (Inl e, s1) \<Rightarrow> (Inl e, w, s1)
          | (Inr None, s1) \<Rightarrow>
              if mget (Annotations w) gitSyncAnnotation = '''' then (Inr (), setPhase PhasePending w, s1)
              else deleteAIWorkload upd del (w, s1)
          | (Inr (Some ho), s1) \<Rightarrow>
              (case syncSpecFromHelmOp upd ho (w, s1) of
                 (Inl e, w1, s2) \<Rightarrow> (Inl e, w1, s2)
               | (Inr _, w1, s2) \<Rightarrow> mirrorFleetStatus f now (w1, s2)))"

end
