(* ===== verification/Deletion.thy ===== *)
theory Deletion
  imports AppStatus
begin

text \<open>
  The deletion of an AIWorkload (\<open>handleDeletion\<close> of \<open>aiworkload_controller.go\<close>): the finalizer is
  kept until what the workload deployed has been asked to go. A Helm release must be gone; the HelmOps and
  Bundles of a Fleet workload are deleted; of a GitOps workload the git files are deleted and failures are
  only logged. The Rancher client that uninstalls a release is optional, as it needs a token.
\<close>

section \<open>The release of a Helm workload\<close>

record 's Uninstaller =
  UninstallApp :: "string \<Rightarrow> string \<Rightarrow> ('s, unit) act"
  AppUninstallInProgress :: "string \<Rightarrow> string \<Rightarrow> ('s, bool) act"

definition reasonAwaitingUninstall :: string where "reasonAwaitingUninstall = ''AwaitingUninstall''"
definition reasonUninstalling :: string where "reasonUninstalling = ''Uninstalling''"
definition reasonRancherTokenRejected :: string where "reasonRancherTokenRejected = ''RancherTokenRejected''"

text \<open>The two characters of the messages that are not ASCII, in UTF-8.\<close>

definition em_dash :: string where "em_dash = [CHR 0xE2, CHR 0x80, CHR 0x94]"
definition right_arrow :: string where "right_arrow = [CHR 0xE2, CHR 0x86, CHR 0x92]"

definition setUninstallCondition :: "'s writer \<Rightarrow> string \<Rightarrow> string \<Rightarrow> AIWorkload \<times> 's \<Rightarrow> AIWorkload \<times> 's" where
  "setUninstallCondition stat reason message = (\<lambda>(w, s).
     if (\<exists>c. Conditions (Status w) conditionTypeReady = Some c \<and> c_Status c = ConditionFalse \<and> c_Reason c = reason) then (w, s)
     else let w1 = setReady ConditionFalse reason (truncateForCondition message) w
          in case stat w1 s of
               (Inl _, s1) \<Rightarrow> (w1, s1)
             | (Inr w2, s1) \<Rightarrow> (w2, s1))"

text \<open>The answer that keeps the finalizer, with the condition that says why.\<close>

definition keep_waiting :: "'s writer \<Rightarrow> string \<Rightarrow> string \<Rightarrow> int \<Rightarrow> ('s, bool \<times> Result) wact" where
  "keep_waiting stat reason message secs ws = (Inr (False, requeue_after (secs * int second)), setUninstallCondition stat reason message ws)"

definition rejectToken :: "'s writer \<Rightarrow> ('s, bool \<times> Result) wact" where
  "rejectToken stat = keep_waiting stat reasonRancherTokenRejected
     (''Rancher rejected the catalog token during uninstall '' @ em_dash @ '' re-authorize under Settings '' @ right_arrow @ '' Rancher API Access.'') 15"

definition delegate_uninstall :: "'s writer \<Rightarrow> 's Uninstaller \<Rightarrow> string \<Rightarrow> string \<Rightarrow> ('s, bool \<times> Result) wact" where
  "delegate_uninstall stat u ns release = (\<lambda>(w, s).
     case AppUninstallInProgress u ns release s of
       (Inl e, s1) \<Rightarrow> if err_is e = SUnauthorized then rejectToken stat (w, s1)
                     else (Inr (False, requeue_after (15 * int second)), w, s1)
     | (Inr True, s1) \<Rightarrow> keep_waiting stat reasonUninstalling ''Uninstalling the Helm release via Rancher; waiting for it to clear.'' 10 (w, s1)
     | (Inr False, s1) \<Rightarrow>
         (case UninstallApp u ns release s1 of
            (Inl e, s2) \<Rightarrow> if err_is e = SUnauthorized then rejectToken stat (w, s2)
                          else (Inr (False, requeue_after (15 * int second)), w, s2)
          | (Inr _, s2) \<Rightarrow>
              keep_waiting stat reasonUninstalling ''Uninstalling the Helm release via Rancher; waiting for it to clear.'' 10 (w, s2)))"

definition handleHelmRelease ::
  "('s \<Rightarrow> helm_reader) \<Rightarrow> 's Uninstaller option \<Rightarrow> 's writer \<Rightarrow> AppSource \<Rightarrow> ('s, bool \<times> Result) wact" where
  "handleHelmRelease hl un stat app = (\<lambda>(w, s).
     case helmReleaseStatus (hl_secrets (hl s) (TargetNamespace (Spec w)) (app_Release app)) of
       Inl e \<Rightarrow> (Inl e, w, s)
     | Inr state \<Rightarrow>
         if \<not> hr_exists state then (Inr (True, result_done), w, s)
         else (case un of
                 Some u \<Rightarrow> delegate_uninstall stat u (TargetNamespace (Spec w)) (app_Release app) (w, s)
               | None \<Rightarrow> keep_waiting stat reasonAwaitingUninstall
                   (''Helm release still present; uninstall from the Apps page, or configure a Rancher token (Settings '' @ right_arrow
                      @ '' Rancher API Access) to enable headless uninstall.'') 15 (w, s)))"

section \<open>The finalizer\<close>

definition delete_fleet :: "'s FleetAPI \<Rightarrow> AIWorkload \<Rightarrow> ('s, unit) act" where
  "delete_fleet f w = for_each (FleetBundleNames (Spec w)) (\<lambda>name. bnd (deleteHelmOp f name) (\<lambda>_. deleteBundle f name))"

definition delete_git_files :: "'s GitEnv \<Rightarrow> AIWorkload \<Rightarrow> ('s, unit) act" where
  "delete_git_files ge w = for_each (FleetBundleNames (Spec w)) (\<lambda>name s. (Inr (), snd (deleteGitFileByName ge name s)))"

text \<open>The calls of the controller that the environment of the pass does not have.\<close>

record 's Ctl =
  ct_Env :: "'s Env"
  ct_Pods :: "'s PodClient"
  ct_Bundles :: "'s BundleAPI"
  ct_Status :: "'s writer"
  ct_Delete :: "AIWorkload \<Rightarrow> ('s, unit) act"
  ct_Helm :: "'s \<Rightarrow> helm_reader"
  ct_Uninstall :: "'s Uninstaller option"

definition ct_Update :: "'s Ctl \<Rightarrow> 's writer" where
  "ct_Update ct = ge_Update (en_Git (ct_Env ct))"

definition release_finalizer :: "'s Ctl \<Rightarrow> ('s, Result) wact" where
  "release_finalizer ct = (\<lambda>(w, s).
     case bnd (cleanupPullSecretBundles (ct_Bundles ct) w) (\<lambda>_. pruneLocalSAImagePullSecrets (ct_Pods ct) w) s of
       (Inl e, s1) \<Rightarrow> (Inl e, w, s1)
     | (Inr _, s1) \<Rightarrow>
         (case ct_Update ct (remove_finalizer w) s1 of
            (Inl e, s2) \<Rightarrow> (Inl e, remove_finalizer w, s2)
          | (Inr w1, s2) \<Rightarrow> (Inr result_done, w1, s2)))"

definition handleDeletion :: "'s Ctl \<Rightarrow> ('s, Result) wact" where
  "handleDeletion ct = (\<lambda>(w, s).
     case DeployStrategy (Spec w) of
       AIWorkloadDeployHelm \<Rightarrow>
         (case SourceApp (Spec w) of
            None \<Rightarrow> release_finalizer ct (w, s)
          | Some app \<Rightarrow>
              (case handleHelmRelease (ct_Helm ct) (ct_Uninstall ct) (ct_Status ct) app (w, s) of
                 (Inl e, w1, s1) \<Rightarrow> (Inl e, w1, s1)
               | (Inr (False, res), w1, s1) \<Rightarrow> (Inr res, w1, s1)
               | (Inr (True, res), w1, s1) \<Rightarrow> release_finalizer ct (w1, s1)))
     | AIWorkloadDeployFleetBundle \<Rightarrow>
         (case delete_fleet (en_Fleet (ct_Env ct)) w s of
            (Inl e, s1) \<Rightarrow> (Inl e, w, s1)
          | (Inr _, s1) \<Rightarrow> release_finalizer ct (w, s1))
     | AIWorkloadDeployGitOps \<Rightarrow> release_finalizer ct (w, snd (delete_git_files (en_Git (ct_Env ct)) w s)))"

section \<open>The laws together\<close>

definition finalized :: "AIWorkload option \<Rightarrow> bool" where
  "finalized stored \<longleftrightarrow> (\<exists>w. stored = Some w \<and> aiWorkloadFinalizer \<in> set (wl_Finalizers w))"

lemma finalized_simps [simp]:
  "\<not> finalized None" "finalized (Some w) \<longleftrightarrow> aiWorkloadFinalizer \<in> set (wl_Finalizers w)"
  by (simp_all add: finalized_def)

text \<open>
  \<open>stored\<close> is the workload on the API server. Only the two writers touch it, and the status writer leaves
  the finalizers alone; nothing is assumed of what \<open>Update\<close> stores.
\<close>

locale deletion_client =
  delivery_client "en_Client (ct_Env ct)" look up spaces conf "ct_Bundles ct" bundles +
  fleet: fleet_store "en_Fleet (ct_Env ct)" ops fbs +
  rest: client_frame "en_Client (ct_Env ct)" stored
  for ct :: "'s Ctl" and look :: "'s \<Rightarrow> string \<times> string \<Rightarrow> Secret option" and up :: "'s \<Rightarrow> bool"
    and spaces :: "'s \<Rightarrow> string set" and conf :: "'s \<Rightarrow> SettingsSpec option"
    and bundles :: "'s \<Rightarrow> string \<times> string \<Rightarrow> PullSecretBundle option"
    and ops :: "'s \<Rightarrow> string \<times> string \<Rightarrow> (HelmOp \<times> HelmOpSpec) option"
    and fbs :: "'s \<Rightarrow> string \<times> string \<Rightarrow> FleetBundleSpec option" and stored :: "'s \<Rightarrow> AIWorkload option" +
  assumes bundle_frame: "leaves (\<lambda>s. (ops s, fbs s, stored s)) (ListBundles (ct_Bundles ct) ls)"
      "leaves (\<lambda>s. (ops s, fbs s, stored s)) (DeleteBundle (ct_Bundles ct) ns n)"
    and pod_frame: "leaves (\<lambda>s. (ops s, fbs s, bundles s, stored s)) (ListSAs (ct_Pods ct) ns)"
      "leaves (\<lambda>s. (ops s, fbs s, bundles s, stored s)) (UpdateSA (ct_Pods ct) ns sa)"
    and fleet_frame: "leaves stored (DeleteHelmOp (en_Fleet (ct_Env ct)) ns n)" "leaves stored (DeleteFleetBundle (en_Fleet (ct_Env ct)) ns n)"
    and git_frame: "leaves stored (CloneFiles (ge_Git (en_Git (ct_Env ct))) gc)" "leaves stored (PushFiles (ge_Git (en_Git (ct_Env ct))) gc files msg)"
    and rancher_frame: "ct_Uninstall ct = Some un \<Longrightarrow> leaves stored (UninstallApp un ns n)"
      "ct_Uninstall ct = Some un \<Longrightarrow> leaves stored (AppUninstallInProgress un ns n)"
    and write_frame: "leaves (\<lambda>s. (ops s, fbs s, bundles s)) (ct_Update ct w)"
    and status_frame: "leaves (\<lambda>s. finalized (stored s)) (ct_Status ct w)"
begin

lemma prune_leaves: "leaves (\<lambda>s. (ops s, fbs s, bundles s, stored s)) (pruneLocalSAImagePullSecrets (ct_Pods ct) w)"
proof -
  let ?obs = "\<lambda>s. (ops s, fbs s, bundles s, stored s)"
  have accounts: "?obs (snd (prune_accounts (ct_Pods ct) ns ours sas s)) = ?obs s" for ns ours sas s
  proof (induction sas arbitrary: s)
    case (Cons sa sas)
    obtain sa' ch where p: "prune_account ours sa = (sa', ch)" by (cases "prune_account ours sa")
    obtain r s1 where u: "UpdateSA (ct_Pods ct) ns sa' s = (r, s1)" by (cases "UpdateSA (ct_Pods ct) ns sa' s")
    show ?case using p u Cons.IH leavesD [OF pod_frame(2) u] by (cases r; cases ch) simp_all
  qed simp
  have "?obs (snd (prune_deliveries (ct_Pods ct) ds s)) = ?obs s" for ds s
  proof (induction ds arbitrary: s)
    case (Cons d ds)
    obtain r s1 where l: "ListSAs (ct_Pods ct) (psd_Namespace d) s = (r, s1)" by (cases "ListSAs (ct_Pods ct) (psd_Namespace d) s")
    show ?case
    proof (cases "psd_Namespace d = '''' \<or> psd_Names d = []")
      case True
      then show ?thesis using Cons.IH by simp
    next
      case False
      show ?thesis
      proof (cases r)
        case (Inr sas)
        obtain r2 s2 where a: "prune_accounts (ct_Pods ct) (psd_Namespace d) (psd_Names d) sas s1 = (r2, s2)"
          by (cases "prune_accounts (ct_Pods ct) (psd_Namespace d) (psd_Names d) sas s1")
        have "?obs s2 = ?obs s" using accounts [of "psd_Namespace d" "psd_Names d" sas s1] a leavesD [OF pod_frame(1) l] by simp
        then show ?thesis using False l Inr a Cons.IH [of s2] by (cases r2) auto
      qed (use False l leavesD [OF pod_frame(1) l] in auto)
    qed
  qed simp
  then show ?thesis by (simp add: leaves_def pruneLocalSAImagePullSecrets_def)
qed

lemma cleanup_leaves: "leaves (\<lambda>s. (ops s, fbs s, stored s)) (cleanupPullSecretBundles (ct_Bundles ct) w)"
proof -
  let ?obs = "\<lambda>s. (ops s, fbs s, stored s)"
  define body where "body = (\<lambda>(b :: PullSecretBundle) s. case DeleteBundle (ct_Bundles ct) (pb_Namespace b) (pb_Name b) s of
            (Inl e, s2) \<Rightarrow> if err_is e = SNotFound then (Inr (), s2)
                          else (Inl (wrap_err (''delete bundle '' @ pb_Namespace b @ ''/'' @ pb_Name b) e), s2)
          | (Inr _, s2) \<Rightarrow> (Inr (), s2))"
  have "leaves ?obs (body b)" for b
    unfolding leaves_def
  proof
    fix s
    obtain r s2 where d: "DeleteBundle (ct_Bundles ct) (pb_Namespace b) (pb_Name b) s = (r, s2)"
      by (cases "DeleteBundle (ct_Bundles ct) (pb_Namespace b) (pb_Name b) s")
    show "?obs (snd (body b s)) = ?obs s" using leavesD [OF bundle_frame(2) d] d by (cases r) (auto simp: body_def)
  qed
  then have loop: "leaves ?obs (for_each bs body)" for bs by (rule leaves_for_each)
  show ?thesis
    unfolding leaves_def
  proof
    fix s
    let ?ls = "owner_labels (wl_Name w) (wl_Namespace w)"
    obtain rl s1 where l: "ListBundles (ct_Bundles ct) ?ls s = (rl, s1)" by (cases "ListBundles (ct_Bundles ct) ?ls s")
    have "cleanupPullSecretBundles (ct_Bundles ct) w s = (case rl of
        Inl e \<Rightarrow> (Inl (wrap_err (''list pull-secret bundles for '' @ wl_Namespace w @ ''/'' @ wl_Name w) e), s1)
      | Inr bs \<Rightarrow> for_each bs body s1)"
      using l by (cases rl) (simp_all add: cleanupPullSecretBundles_def body_def)
    then show "?obs (snd (cleanupPullSecretBundles (ct_Bundles ct) w s)) = ?obs s"
      using loop leavesD [OF bundle_frame(1) l] by (cases rl) (simp_all add: leaves_def)
  qed
qed

end

context deletion_client begin

text \<open>Deleting the Fleet objects: after success none of the named ones is left, and no other is touched.\<close>

lemma helmops_gone:
  assumes "deleteHelmOp (en_Fleet (ct_Env ct)) n s = (r, s')"
  shows "fbs s' = fbs s \<and> stored s' = stored s \<and> (\<forall>k. k \<notin> set fleetNamespaces \<times> {n} \<longrightarrow> ops s' k = ops s k)
    \<and> (\<not> isl r \<longrightarrow> (\<forall>ns \<in> set fleetNamespaces. ops s' (ns, n) = None))
    \<and> (\<forall>k. ops s k = None \<longrightarrow> ops s' k = None)"
proof -
  have keep: "leaves stored (deleteHelmOpIn (en_Fleet (ct_Env ct)) ns n)" for ns
    using fleet_frame(1) [of ns n] by (auto simp: leaves_def deleteHelmOpIn_def split: prod.split sum.split) (metis snd_conv)+
  obtain r1 s1 where a: "deleteHelmOpIn (en_Fleet (ct_Env ct)) ''fleet-local'' n s = (r1, s1)"
    by (cases "deleteHelmOpIn (en_Fleet (ct_Env ct)) ''fleet-local'' n s")
  obtain r2 s2 where b: "deleteHelmOpIn (en_Fleet (ct_Env ct)) ''fleet-default'' n s1 = (r2, s2)"
    by (cases "deleteHelmOpIn (en_Fleet (ct_Env ct)) ''fleet-default'' n s1")
  have s': "s' = s2" "isl r \<longleftrightarrow> isl r1 \<or> isl r2"
    using assms a b by (auto simp: deleteHelmOp_def fleetNamespaces_def split: sum.splits)
  have st: "stored s2 = stored s" using leavesD [OF keep a] leavesD [OF keep b] by simp
  show ?thesis using fleet.helmop_delete_step [OF a] fleet.helmop_delete_step [OF b] s' st
    by (auto simp: fleetNamespaces_def)
qed

lemma bundles_gone:
  assumes "deleteBundle (en_Fleet (ct_Env ct)) n s = (r, s')"
  shows "ops s' = ops s \<and> stored s' = stored s \<and> (\<forall>k. k \<notin> set fleetNamespaces \<times> {n} \<longrightarrow> fbs s' k = fbs s k)
    \<and> (\<not> isl r \<longrightarrow> (\<forall>ns \<in> set fleetNamespaces. fbs s' (ns, n) = None))
    \<and> (\<forall>k. fbs s k = None \<longrightarrow> fbs s' k = None)"
proof -
  have keep: "leaves stored (deleteBundleIn (en_Fleet (ct_Env ct)) ns n)" for ns
    using fleet_frame(2) [of ns n] by (auto simp: leaves_def deleteBundleIn_def split: prod.split sum.split) (metis snd_conv)+
  obtain r1 s1 where a: "deleteBundleIn (en_Fleet (ct_Env ct)) ''fleet-local'' n s = (r1, s1)"
    by (cases "deleteBundleIn (en_Fleet (ct_Env ct)) ''fleet-local'' n s")
  obtain r2 s2 where b: "deleteBundleIn (en_Fleet (ct_Env ct)) ''fleet-default'' n s1 = (r2, s2)"
    by (cases "deleteBundleIn (en_Fleet (ct_Env ct)) ''fleet-default'' n s1")
  have s': "s' = s2" "isl r \<longleftrightarrow> isl r1 \<or> isl r2"
    using assms a b by (auto simp: deleteBundle_def fleetNamespaces_def split: sum.splits)
  have st: "stored s2 = stored s" using leavesD [OF keep a] leavesD [OF keep b] by simp
  show ?thesis using fleet.bundle_delete_step [OF a] fleet.bundle_delete_step [OF b] s' st
    by (auto simp: fleetNamespaces_def)
qed

lemma fleet_deleted:
  assumes "delete_fleet (en_Fleet (ct_Env ct)) w s = (r, s')"
  shows "stored s' = stored s
    \<and> (\<not> isl r \<longrightarrow> (\<forall>n \<in> set (FleetBundleNames (Spec w)). \<forall>ns \<in> set fleetNamespaces. ops s' (ns, n) = None \<and> fbs s' (ns, n) = None))
    \<and> (\<forall>k. snd k \<notin> set (FleetBundleNames (Spec w)) \<longrightarrow> ops s' k = ops s k \<and> fbs s' k = fbs s k)"
proof -
  define body where "body = (\<lambda>n. bnd (deleteHelmOp (en_Fleet (ct_Env ct)) n) (\<lambda>_. deleteBundle (en_Fleet (ct_Env ct)) n))"
  have one: "stored s2 = stored s1
      \<and> (\<not> isl r1 \<longrightarrow> (\<forall>ns \<in> set fleetNamespaces. ops s2 (ns, n) = None \<and> fbs s2 (ns, n) = None))
      \<and> (\<forall>k. snd k \<noteq> n \<longrightarrow> ops s2 k = ops s1 k \<and> fbs s2 k = fbs s1 k)
      \<and> (\<forall>k. (ops s1 k = None \<longrightarrow> ops s2 k = None) \<and> (fbs s1 k = None \<longrightarrow> fbs s2 k = None))"
    if run: "body n s1 = (r1, s2)" for n s1 r1 s2
  proof -
    obtain ra sa where a: "deleteHelmOp (en_Fleet (ct_Env ct)) n s1 = (ra, sa)" by (cases "deleteHelmOp (en_Fleet (ct_Env ct)) n s1")
    obtain rb sb where b: "deleteBundle (en_Fleet (ct_Env ct)) n sa = (rb, sb)" by (cases "deleteBundle (en_Fleet (ct_Env ct)) n sa")
    show ?thesis
    proof (cases ra)
      case (Inl e)
      then have "s2 = sa" "isl r1" using run a by (auto simp: body_def bnd_apply)
      then show ?thesis using helmops_gone [OF a] by auto
    next
      case (Inr u)
      then have "s2 = sb" "r1 = rb" using run a b by (auto simp: body_def bnd_apply)
      then show ?thesis using helmops_gone [OF a] bundles_gone [OF b] Inr by auto
    qed
  qed
  have "stored s' = stored s
    \<and> (\<not> isl r \<longrightarrow> (\<forall>n \<in> set names. \<forall>ns \<in> set fleetNamespaces. ops s' (ns, n) = None \<and> fbs s' (ns, n) = None))
    \<and> (\<forall>k. snd k \<notin> set names \<longrightarrow> ops s' k = ops s k \<and> fbs s' k = fbs s k)
    \<and> (\<forall>k. (ops s k = None \<longrightarrow> ops s' k = None) \<and> (fbs s k = None \<longrightarrow> fbs s' k = None))"
    if "for_each names body s = (r, s')" for names s
    using that
  proof (induction names arbitrary: s)
    case (Cons n names)
    obtain r1 s1 where a: "body n s = (r1, s1)" by (cases "body n s")
    show ?case
    proof (cases r1)
      case (Inl e)
      then have "s' = s1" "isl r" using Cons.prems a by auto
      then show ?thesis using one [OF a] by auto
    next
      case (Inr u)
      then have "for_each names body s1 = (r, s')" using Cons.prems a by simp
      then show ?thesis using Cons.IH [of s1] one [OF a] Inr by auto
    qed
  qed simp
  then show ?thesis using assms by (simp add: delete_fleet_def body_def [symmetric])
qed

end

context deletion_client begin

lemma git_file_leaves: "leaves stored (deleteGitFileByName (en_Git (ct_Env ct)) n)"
  unfolding leaves_def
proof
  fix s
  let ?ge = "en_Git (ct_Env ct)"
  have cl: "ge_Client ?ge = en_Client (ct_Env ct)" by (simp add: en_Client_def)
  have dropped: "leaves stored (DeleteFile (ge_Git ?ge) gc path msg)" for gc path msg
    unfolding leaves_def
  proof
    fix s
    obtain r1 s1 where c: "CloneFiles (ge_Git ?ge) gc s = (r1, s1)" by (cases "CloneFiles (ge_Git ?ge) gc s")
    have k: "stored (snd (commitAndPush (ge_Git ?ge) gc fs msg s1)) = stored s1" for fs
      using git_frame(2) [of gc fs msg] by (auto simp: leaves_def commitAndPush_def split: prod.split sum.split) (metis snd_conv)+
    show "stored (snd (DeleteFile (ge_Git ?ge) gc path msg s)) = stored s"
      using leavesD [OF git_frame(1) c] k c by (auto simp: DeleteFile_def clone_tree_def split: sum.split option.split)
  qed
  obtain r1 s1 where a: "GetSettings (en_Client (ct_Env ct)) s = (r1, s1)" by (cases "GetSettings (en_Client (ct_Env ct)) s")
  have s1: "stored s1 = stored s" using rest.settings_obs [of s] a by simp
  show "stored (snd (deleteGitFileByName ?ge n s)) = stored s"
  proof (cases r1)
    case (Inr conf)
    obtain r2 s2 where b: "NewFromSettings (ge_PemOk ?ge) (en_Client (ct_Env ct)) (set_Fleet conf) (ge_OperatorNS ?ge) s1 = (r2, s2)"
      by (cases "NewFromSettings (ge_PemOk ?ge) (en_Client (ct_Env ct)) (set_Fleet conf) (ge_OperatorNS ?ge) s1")
    have s2: "stored s2 = stored s1" using rest.git_client_obs b by (metis snd_conv)
    show ?thesis
    proof (cases r2)
      case (Inr gc)
      obtain r3 s3 where d: "DeleteFile (ge_Git ?ge) gc (git_path n) (''chore: remove workload '' @ n) s2 = (r3, s3)"
        by (cases "DeleteFile (ge_Git ?ge) gc (git_path n) (''chore: remove workload '' @ n) s2")
      show ?thesis using a b d Inr \<open>r1 = Inr conf\<close> cl s1 s2 leavesD [OF dropped d]
        by (cases r3) (simp_all add: deleteGitFileByName_def)
    qed (use a b Inr cl s1 s2 in \<open>simp add: deleteGitFileByName_def\<close>)
  qed (use a cl s1 in \<open>simp add: deleteGitFileByName_def\<close>)
qed

lemma git_files_leaves: "leaves stored (delete_git_files (en_Git (ct_Env ct)) w)"
  unfolding delete_git_files_def
  by (rule leaves_for_each) (use git_file_leaves in \<open>auto simp: leaves_def\<close>)

text \<open>Waiting for the release never releases the finalizer.\<close>

lemma waiting_keeps:
  "finalized (stored (snd (setUninstallCondition (ct_Status ct) reason message (w, s)))) = finalized (stored s)"
  using leavesD [OF status_frame] by (auto simp: setUninstallCondition_def Let_def split: prod.split sum.split)

lemma waited: "setUninstallCondition (ct_Status ct) reason message (w, s) = (w', s') \<Longrightarrow> finalized (stored s') = finalized (stored s)"
  using waiting_keeps [of reason message w s] by simp

lemma delegation_keeps:
  assumes "ct_Uninstall ct = Some un"
  shows "\<exists>res. fst (delegate_uninstall (ct_Status ct) un ns rel (w, s)) = Inr (False, res)
    \<and> finalized (stored (snd (snd (delegate_uninstall (ct_Status ct) un ns rel (w, s))))) = finalized (stored s)"
proof -
  obtain r1 s1 where a: "AppUninstallInProgress un ns rel s = (r1, s1)" by (cases "AppUninstallInProgress un ns rel s")
  obtain r2 s2 where b: "UninstallApp un ns rel s1 = (r2, s2)" by (cases "UninstallApp un ns rel s1")
  have "stored s1 = stored s" "stored s2 = stored s"
    using leavesD [OF rancher_frame(2) [OF assms] a] leavesD [OF rancher_frame(1) [OF assms] b] by simp_all
  then show ?thesis using a b
    by (cases r1; cases r2) (auto simp: delegate_uninstall_def keep_waiting_def rejectToken_def waiting_keeps split: bool.split)
qed

lemma helm_release_step:
  assumes "handleHelmRelease (ct_Helm ct) (ct_Uninstall ct) (ct_Status ct) app (w, s) = (r, w', s')"
  shows "(\<exists>res. r = Inr (True, res) \<and> w' = w \<and> s' = s
      \<and> (\<exists>st. helmReleaseStatus (hl_secrets (ct_Helm ct s) (TargetNamespace (Spec w)) (app_Release app)) = Inr st \<and> \<not> hr_exists st))
    \<or> (isl r \<or> (\<exists>res. r = Inr (False, res))) \<and> finalized (stored s') = finalized (stored s)"
proof (cases "helmReleaseStatus (hl_secrets (ct_Helm ct s) (TargetNamespace (Spec w)) (app_Release app))")
  case (Inr st)
  show ?thesis
  proof (cases "hr_exists st \<and> ct_Uninstall ct \<noteq> None")
    case True
    then obtain un where "ct_Uninstall ct = Some un" by blast
    then show ?thesis using assms Inr True delegation_keeps [of un "TargetNamespace (Spec w)" "app_Release app" w s]
      by (auto simp: handleHelmRelease_def)
  next
    case False
    then show ?thesis using assms Inr
      by (auto simp: handleHelmRelease_def keep_waiting_def waited split: option.splits if_splits)
  qed
qed (use assms in \<open>auto simp: handleHelmRelease_def\<close>)

lemma release_step:
  assumes "release_finalizer ct (w, s) = (r, w', s')" "finalized (stored s)" "\<not> finalized (stored s')"
  shows "ops s' = ops s \<and> fbs s' = fbs s
    \<and> (\<forall>k b. bundles s' k = Some b \<longrightarrow> \<not> owner_labels (wl_Name w) (wl_Namespace w) \<subseteq>\<^sub>m pb_Labels b)"
proof -
  obtain r1 s1 where a: "cleanupPullSecretBundles (ct_Bundles ct) w s = (r1, s1)" by (cases "cleanupPullSecretBundles (ct_Bundles ct) w s")
  have o1: "(ops s1, fbs s1, stored s1) = (ops s, fbs s, stored s)" by (rule leavesD [OF cleanup_leaves a])
  show ?thesis
  proof (cases r1)
    case (Inr u)
    obtain r2 s2 where b: "pruneLocalSAImagePullSecrets (ct_Pods ct) w s1 = (r2, s2)" by (cases "pruneLocalSAImagePullSecrets (ct_Pods ct) w s1")
    have o2: "(ops s2, fbs s2, bundles s2, stored s2) = (ops s1, fbs s1, bundles s1, stored s1)" by (rule leavesD [OF prune_leaves b])
    show ?thesis
    proof (cases r2)
      case (Inr u2)
      obtain r3 s3 where c: "ct_Update ct (remove_finalizer w) s2 = (r3, s3)" by (cases "ct_Update ct (remove_finalizer w) s2")
      have "s' = s3" using assms(1) a b c \<open>r1 = Inr u\<close> Inr by (cases r3) (simp_all add: release_finalizer_def bnd_apply)
      then have "(ops s', fbs s', bundles s') = (ops s2, fbs s2, bundles s2)" using leavesD [OF write_frame c] by simp
      then show ?thesis using o1 o2 cleanup_step(1) [of w s s1] a \<open>r1 = Inr u\<close> by (auto split: option.splits if_splits)
    qed (use assms a b Inr o1 o2 in \<open>simp add: release_finalizer_def bnd_apply\<close>)
  qed (use assms a o1 in \<open>simp add: release_finalizer_def bnd_apply\<close>)
qed

end

end
