(* ===== verification/DeletionPass.thy ===== *)
theory DeletionPass
  imports Deletion
begin

text \<open>
  What the deletion of a workload guarantees, and what it does not: the properties of \<open>handleDeletion\<close> and of
  the removal of a GitOps workload whose file is gone, with the in-memory cluster as the server they run on.
\<close>

section \<open>What deletion leaves behind\<close>


text \<open>
  But the names in the spec are those of the blueprint at the first pass. A component that a later version
  of the blueprint added has a HelmOp under a name that is not among them; deleting the workload succeeds,
  its finalizer is gone, and that HelmOp, which carries the workload's label, stays, so that Fleet keeps
  the component deployed for ever.
\<close>

theorem added_component_orphaned:
  assumes "deletion_client ct look up spaces conf bundles ops fbs stored"
    and "handleDeletion ct (w, s) = (r, w', s')" "finalized (stored s)" "\<not> finalized (stored s')"
    and "DeployStrategy (Spec w) = AIWorkloadDeployFleetBundle"
    and "blueprintBundleName (wl_Name w) (bc_ChartName c) \<notin> set (FleetBundleNames (Spec w))"
    and "k \<in> key_id ` set (workload_keys w [c])"
  shows "ops s' k = ops s k \<and> fbs s' k = fbs s k"
proof -
  obtain rd sd where d: "delete_fleet (en_Fleet (ct_Env ct)) w s = (rd, sd)" by (cases "delete_fleet (en_Fleet (ct_Env ct)) w s")
  note gone = deletion_client.fleet_deleted [OF assms(1) d]
  have n: "snd k = blueprintBundleName (wl_Name w) (bc_ChartName c)"
    using assms(5,7) workload_keys_ids [of w "[c]"] by auto
  show ?thesis
  proof (cases rd)
    case (Inl e)
    then show ?thesis using assms(2-5) d gone by (simp add: handleDeletion_def)
  next
    case (Inr u)
    then have rel: "release_finalizer ct (w, sd) = (r, w', s')" using assms(2,5) d by (simp add: handleDeletion_def)
    have "finalized (stored sd)" using gone assms(3) by simp
    then show ?thesis using deletion_client.release_step [OF assms(1) rel _ assms(4)] gone n assms(6) by (cases k) auto
  qed
qed

section \<open>The in-memory cluster\<close>

definition hub_pod_client :: "hub PodClient" where
  "hub_pod_client = \<lparr>
     ListHelmSAs = (\<lambda>ns. on_pods (ListHelmSAs pw_client ns)), ListSAs = (\<lambda>ns. on_pods (ListSAs pw_client ns)),
     GetSA = (\<lambda>ns n. on_pods (GetSA pw_client ns n)), UpdateSA = (\<lambda>ns sa. on_pods (UpdateSA pw_client ns sa)),
     ListHelmPods = (\<lambda>ns. on_pods (ListHelmPods pw_client ns)), GetOwner = (\<lambda>ns ow. on_pods (GetOwner pw_client ns ow)),
     PatchOwner = (\<lambda>ns ow k v. on_pods (PatchOwner pw_client ns ow k v)), DeletePod = (\<lambda>ns p. on_pods (DeletePod pw_client ns p))\<rparr>"

definition hub_bundle_api :: "hub BundleAPI" where
  "hub_bundle_api = \<lparr>PatchBundle = (\<lambda>b. on_world (PatchBundle world_api b)), ListBundles = (\<lambda>ls. on_world (ListBundles world_api ls)),
     DeleteBundle = (\<lambda>ns n. on_world (DeleteBundle world_api ns n))\<rparr>"

definition hub_delete :: "AIWorkload \<Rightarrow> (hub, unit) act" where
  "hub_delete w = hub_call (\<lambda>s. if hub_workload s = None then (Inl not_found, s) else (Inr (), s\<lparr>hub_workload := None\<rparr>))"

definition hub_uninstaller :: "hub Uninstaller" where
  "hub_uninstaller = \<lparr>UninstallApp = (\<lambda>ns n. hub_call (\<lambda>s. (Inr (), s))), AppUninstallInProgress = (\<lambda>ns n. hub_call (\<lambda>s. (Inr False, s)))\<rparr>"

definition hub_ctl :: "(string \<Rightarrow> err + ClusterRepo) \<Rightarrow> bool \<Rightarrow> (hub \<Rightarrow> helm_reader) \<Rightarrow> hub Ctl" where
  "hub_ctl repos token helm = \<lparr>ct_Env = hub_env repos token, ct_Pods = hub_pod_client, ct_Bundles = hub_bundle_api,
     ct_Status = hub_status_update, ct_Delete = hub_delete, ct_Helm = helm,
     ct_Uninstall = (if token then Some hub_uninstaller else None)\<rparr>"

lemma on_world_iff: "on_world f s = (r, s') \<longleftrightarrow> f (hub_world s) = (r, hub_world s') \<and> s' = s\<lparr>hub_world := hub_world s'\<rparr>"
proof
  assume "on_world f s = (r, s')"
  then show "f (hub_world s) = (r, hub_world s') \<and> s' = s\<lparr>hub_world := hub_world s'\<rparr>"
    by (auto simp: on_world_def prod_eq_iff)
next
  assume "f (hub_world s) = (r, hub_world s') \<and> s' = s\<lparr>hub_world := hub_world s'\<rparr>"
  then show "on_world f s = (r, s')" by (metis fst_conv on_world_def snd_conv)
qed

lemma on_world_parts [simp]:
  "fst (on_world f s) = fst (f (hub_world s))" "hub_world (snd (on_world f s)) = snd (f (hub_world s))"
  by (simp_all add: on_world_def)

lemma hub_settings_up:
  assumes "no_faults (fst (hub_world s))"
  shows "case cl_settings (fst (hub_world s)) of None \<Rightarrow> isl (fst (GetSettings hub_client s))
    | Some st \<Rightarrow> fst (GetSettings hub_client s) = Inr st"
  using dl.settings_up [OF assms] by (auto simp: hub_client_def split: option.split)

interpretation hub_delivery: delivery_client hub_client "\<lambda>s. cl_secrets (fst (hub_world s))" "\<lambda>s. no_faults (fst (hub_world s))"
    "\<lambda>s. set (cl_namespaces (fst (hub_world s)))" "\<lambda>s. cl_settings (fst (hub_world s))" hub_bundle_api "\<lambda>s. world_bundles (hub_world s)"
  by unfold_locales
    (auto simp: hub_client_def hub_bundle_api_def on_world_iff
      dest: dl.get_ok dl.get_absent dl.update_ok dl.update_err dl.space_step dl.patch_step dl.bundle_named dl.bundle_patch dl.bundle_list
        dl.bundle_delete dl.bundle_absent
      simp: hub_settings_up dl.get_look dl.get_up dl.update_up dl.get_frame dl.update_frame dl.settings_frame dl.settings_up dl.space_up dl.patch_up
        dl.get_bundles dl.update_bundles dl.patch_bundles dl.space_bundles dl.settings_bundles)

interpretation hub_deletion: deletion_client "hub_ctl repos token helm" "\<lambda>s. cl_secrets (fst (hub_world s))"
    "\<lambda>s. no_faults (fst (hub_world s))" "\<lambda>s. set (cl_namespaces (fst (hub_world s)))" "\<lambda>s. cl_settings (fst (hub_world s))"
    "\<lambda>s. world_bundles (hub_world s)" "\<lambda>s. map_of (hub_ops s)" "\<lambda>s. map_of (hub_fbs s)" hub_workload
  for repos token helm
proof -
  have e: "en_Client (ct_Env (hub_ctl repos token helm)) = hub_client" "en_Fleet (ct_Env (hub_ctl repos token helm)) = hub_fleet"
      "ct_Bundles (hub_ctl repos token helm) = hub_bundle_api" "ct_Pods (hub_ctl repos token helm) = hub_pod_client"
      "ge_Git (en_Git (ct_Env (hub_ctl repos token helm))) = hub_git_api" "ct_Update (hub_ctl repos token helm) = hub_update"
      "ct_Status (hub_ctl repos token helm) = hub_status_update"
      "ct_Uninstall (hub_ctl repos token helm) = (if token then Some hub_uninstaller else None)"
    by (simp_all add: hub_ctl_def hub_env_def hub_git_env_def en_Client_def ct_Update_def)
  show "deletion_client (hub_ctl repos token helm) (\<lambda>s. cl_secrets (fst (hub_world s))) (\<lambda>s. no_faults (fst (hub_world s)))
    (\<lambda>s. set (cl_namespaces (fst (hub_world s)))) (\<lambda>s. cl_settings (fst (hub_world s))) (\<lambda>s. world_bundles (hub_world s))
    (\<lambda>s. map_of (hub_ops s)) (\<lambda>s. map_of (hub_fbs s)) hub_workload"
  proof (intro deletion_client.intro deletion_client_axioms.intro, unfold e)
    show "delivery_client hub_client (\<lambda>s. cl_secrets (fst (hub_world s))) (\<lambda>s. no_faults (fst (hub_world s)))
      (\<lambda>s. set (cl_namespaces (fst (hub_world s)))) (\<lambda>s. cl_settings (fst (hub_world s))) hub_bundle_api (\<lambda>s. world_bundles (hub_world s))"
      by (rule hub_delivery.delivery_client_axioms)
    show "fleet_store hub_fleet (\<lambda>s. map_of (hub_ops s)) (\<lambda>s. map_of (hub_fbs s))" by (rule hub_store.fleet_store_axioms)
    show "client_frame hub_client hub_workload" by unfold_locales (simp_all add: hub_client_def)
  next
    fix w
    show "leaves (\<lambda>s. finalized (hub_workload s)) (hub_status_update w)"
      unfolding leaves_def
    proof
      fix s
      obtain r s' where h: "hub_write (\<lambda>old. old\<lparr>Status := Status w\<rparr>) s = (r, s')" by (cases "hub_write (\<lambda>old. old\<lparr>Status := Status w\<rparr>) s")
      show "finalized (hub_workload (snd (hub_status_update w s))) = finalized (hub_workload s)"
        using hub_write_cases [OF h] h by (auto simp: hub_status_update_def)
    qed
    show "leaves (\<lambda>s. (map_of (hub_ops s), map_of (hub_fbs s), world_bundles (hub_world s))) (hub_update w)"
      unfolding hub_update_def hub_write_def by (rule hub_call_leaves) (simp_all add: world_bundles_def fun_eq_iff split: option.split)
  next
    fix un ns n assume "(if token then Some hub_uninstaller else None) = Some un"
    then have u: "un = hub_uninstaller" by (simp split: if_splits)
    show "leaves hub_workload (UninstallApp un ns n)"
      unfolding u hub_uninstaller_def by (simp, rule hub_call_leaves) simp_all
    show "leaves hub_workload (AppUninstallInProgress un ns n)"
      unfolding u hub_uninstaller_def by (simp, rule hub_call_leaves) simp_all
  qed (simp_all add: leaves_def hub_bundle_api_def hub_pod_client_def on_pods_def hub_fleet_def hub_git_api_def
       hub_call_leaves [unfolded leaves_def, rule_format])
qed

section \<open>A workload that is deleted\<close>

definition example_dying :: AIWorkload where
  "example_dying = example_mixed\<lparr>wl_Deleting := True, wl_Finalizers := [aiWorkloadFinalizer]\<rparr>"

definition example_extra :: BlueprintComponent where
  "example_extra = example_web\<lparr>bc_ChartName := ''extra''\<rparr>"

definition example_dying_hub :: hub where
  "example_dying_hub = example_hub\<lparr>hub_ops := [old_helmop ''fleet-default'' ''demo-web'' ''u1'', old_helmop ''fleet-default'' ''demo-extra'' ''u1''],
     hub_workload := Some example_dying\<rparr>"

definition no_releases :: "hub \<Rightarrow> helm_reader" where
  "no_releases s = \<lparr>hl_secrets = (\<lambda>_ _. Inr []), hl_deployments = (\<lambda>_. Inr []), hl_statefulsets = (\<lambda>_. Inr []),
     hl_daemonsets = (\<lambda>_. Inr []), hl_pods = (\<lambda>_ _. Inr [])\<rparr>"

lemma example_dying_simps [simp]:
  "DeployStrategy (Spec example_dying) = AIWorkloadDeployFleetBundle" "FleetBundleNames (Spec example_dying) = [''demo-web'']"
  "wl_UID example_dying = ''u1''" "wl_Name example_dying = ''demo''" "wl_Namespace example_dying = ''default''"
  "PullSecretDeliveries (Status example_dying) = []" "wl_Finalizers example_dying = [aiWorkloadFinalizer]"
  by (simp_all add: example_dying_def example_mixed_def example_defs)

lemma example_deleted:
  "\<exists>w' s'. handleDeletion (hub_ctl example_repos True no_releases) (example_dying, example_dying_hub) = (Inr result_done, w', s')
     \<and> \<not> finalized (hub_workload s') \<and> map_of (hub_ops s') (''fleet-default'', ''demo-web'') = None"
proof -
  let ?ct = "hub_ctl example_repos True no_releases"
  have ops: "hub_ops example_dying_hub = [old_helmop ''fleet-default'' ''demo-web'' ''u1'', old_helmop ''fleet-default'' ''demo-extra'' ''u1'']"
      "hub_fbs example_dying_hub = []" "hub_workload example_dying_hub = Some example_dying" "quiet example_dying_hub"
      "hub_world example_dying_hub = (\<lparr>cl_secrets = Map.empty, cl_namespaces = [''op''], cl_settings = None, cl_faults = []\<rparr>, [])"
    by (simp_all add: example_dying_hub_def example_hub_def quiet_def)
  obtain sd where d: "delete_fleet hub_fleet example_dying example_dying_hub = (Inr (), sd)"
      "hub_workload sd = Some example_dying" "hub_world sd = hub_world example_dying_hub"
      "map_of (hub_ops sd) (''fleet-default'', ''demo-web'') = None"
    using ops by (simp add: delete_fleet_def deleteHelmOp_def deleteBundle_def fleetNamespaces_def deleteHelmOpIn_def deleteBundleIn_def
        hub_fleet_def hub_call_quiet old_helmop_def not_found_def bnd_def)
  have c: "cleanupPullSecretBundles hub_bundle_api example_dying sd = (Inr (), sd)"
    using d(3) ops by (simp add: cleanupPullSecretBundles_def hub_bundle_api_def on_world_def world_api_def world_call_def)
  have p: "pruneLocalSAImagePullSecrets hub_pod_client example_dying sd = (Inr (), sd)"
    by (simp add: pruneLocalSAImagePullSecrets_def)
  have q: "quiet sd" using d(3) ops by (simp add: quiet_def)
  have e: "ct_Bundles ?ct = hub_bundle_api" "ct_Pods ?ct = hub_pod_client" "ct_Update ?ct = hub_update" "en_Fleet (ct_Env ?ct) = hub_fleet"
    by (simp_all add: hub_ctl_def hub_env_def hub_git_env_def ct_Update_def)
  show ?thesis
    using d(1,2,4) c p q by (simp add: handleDeletion_def release_finalizer_def e bnd_def hub_update_def hub_write_def hub_call_quiet
        remove_finalizer_def)
qed


theorem added_component_orphaned_witness:
  "\<exists>w' s'. handleDeletion (hub_ctl example_repos True no_releases) (example_dying, example_dying_hub) = (Inr result_done, w', s')
    \<and> \<not> finalized (hub_workload s') \<and> labelled (wl_UID example_dying) (map_of (hub_ops s') (''fleet-default'', ''demo-extra''))"
proof -
  obtain w' s' where h: "handleDeletion (hub_ctl example_repos True no_releases) (example_dying, example_dying_hub) = (Inr result_done, w', s')"
      "\<not> finalized (hub_workload s')"
    using example_deleted by blast
  have f: "finalized (hub_workload example_dying_hub)" by (simp add: example_dying_hub_def)
  have n: "blueprintBundleName (wl_Name example_dying) (bc_ChartName example_extra) \<notin> set (FleetBundleNames (Spec example_dying))"
    by code_simp
  have k: "(''fleet-default'', ''demo-extra'') \<in> key_id ` set (workload_keys example_dying [example_extra])" by code_simp
  have "map_of (hub_ops s') (''fleet-default'', ''demo-extra'') = map_of (hub_ops example_dying_hub) (''fleet-default'', ''demo-extra'')"
    using added_component_orphaned [OF hub_deletion.deletion_client_axioms h(1) f h(2) example_dying_simps(1) n k] by simp
  then show ?thesis using h by (simp add: example_dying_hub_def old_helmop_def hub_labels)
qed

end
