(* ===== verification/AppPass.thy ===== *)
theory AppPass
  imports DeletionPass
begin

text \<open>
  The GitOps strategy of an application: the synchronisation of the spec settles and misses no change, and
  the removal of a workload whose git file is gone skips the cleanup that a deletion does.
\<close>

section \<open>The synchronised spec\<close>

definition helmop_text :: "string \<Rightarrow> string \<Rightarrow> jmap option \<Rightarrow> string" where
  "helmop_text version namespace vals =
     marshal (JStr version) @ newline @ marshal (JStr namespace) @ newline @ marshal (values_json vals) @ newline"

text \<open>A HelmOp as the API server returns it: its strings are valid UTF-8 and its values a JSON document.\<close>

definition readable :: "HelmOpView \<Rightarrow> bool" where
  "readable ho \<longleftrightarrow> valid_utf8 (str_field (hv_Version ho)) \<and> valid_utf8 (helmOpNamespace ho) \<and> json_doc (values_json (hv_Values ho))"

definition view_hash :: "HelmOpView \<Rightarrow> string" where
  "view_hash ho = helmOpHash (str_field (hv_Version ho)) (helmOpNamespace ho) (hv_Values ho)"

definition view_text :: "HelmOpView \<Rightarrow> string" where
  "view_text ho = helmop_text (str_field (hv_Version ho)) (helmOpNamespace ho) (hv_Values ho)"

lemma delim_newline: "delim (newline @ r)"
  by (simp add: delim_def newline_def num_char_def is_digit_def)

lemma json_doc_str: "json_doc (JStr v) \<longleftrightarrow> valid_utf8 v"
  by (simp add: json_doc_def)

lemma view_hash_identifies:
  assumes "readable ho" "readable ho'" "view_hash ho = view_hash ho'"
  shows "sha256_collision (view_text ho) (view_text ho') \<or>
    str_field (hv_Version ho) = str_field (hv_Version ho') \<and> helmOpNamespace ho = helmOpNamespace ho' \<and> hv_Values ho = hv_Values ho'"
proof (cases "view_text ho = view_text ho'")
  case False
  then show ?thesis using assms(3) hex_encode_inj
    by (auto simp: view_hash_def helmOpHash_def view_text_def helmop_text_def sha256_collision_def)
next
  case True
  note t = True [unfolded view_text_def helmop_text_def]
  have r: "json_doc (JStr (str_field (hv_Version ho)))" "json_doc (JStr (str_field (hv_Version ho')))"
      "json_doc (JStr (helmOpNamespace ho))" "json_doc (JStr (helmOpNamespace ho'))"
      "json_doc (values_json (hv_Values ho))" "json_doc (values_json (hv_Values ho'))"
    using assms(1,2) by (simp_all add: readable_def json_doc_str)
  note v = json_cut [OF t r(1,2) delim_newline delim_newline]
  have t2: "marshal (JStr (helmOpNamespace ho)) @ newline @ marshal (values_json (hv_Values ho)) @ newline =
      marshal (JStr (helmOpNamespace ho')) @ newline @ marshal (values_json (hv_Values ho')) @ newline"
    using conjunct2 [OF v] by simp
  note n = json_cut [OF t2 r(3,4) delim_newline delim_newline]
  have t3: "marshal (values_json (hv_Values ho)) @ newline = marshal (values_json (hv_Values ho')) @ newline"
    using conjunct2 [OF n] by simp
  have "values_json (hv_Values ho) = values_json (hv_Values ho')"
    using json_cut [OF t3 r(5,6)] delim_newline [of "[]"] by simp
  then have "hv_Values ho = hv_Values ho'" by (auto simp: values_json_def split: option.splits)
  then show ?thesis using conjunct1 [OF v] conjunct1 [OF n] by simp
qed

text \<open>The values that a pass uses for a component: the first override of its name that has some.\<close>

lemma set_override_first:
  "\<exists>cv. find (\<lambda>cv. ov_ComponentName cv = n) (set_override n raw cvs) = Some cv \<and> ov_Values cv = Some raw"
  "filter (\<lambda>cv. ov_ComponentName cv \<noteq> n) (set_override n raw cvs) = filter (\<lambda>cv. ov_ComponentName cv \<noteq> n) cvs"
  by (induction cvs) auto

text \<open>
  After a synchronisation that succeeds the spec has the chart version, the namespace and the values of the
  HelmOp and is otherwise what it was; the API server has it. Running it again on the same HelmOp writes
  nothing, and a HelmOp that was changed in one of the three is noticed, or two texts with the same
  SHA-256 digest are exhibited. Values that were emptied are noticed but not taken over: the spec keeps
  the old ones.
\<close>

theorem git_sync_settles:
  assumes "workload_store upd stat stored" "readable ho"
    and "syncSpecFromHelmOp upd ho (w, s) = (Inr (), w', s')" "mget (Annotations w) gitSyncAnnotation \<noteq> view_hash ho"
  shows "stored s' = Some w' \<and> (\<forall>t. syncSpecFromHelmOp upd ho (w', t) = (Inr (), w', t))
    \<and> (\<forall>app. SourceApp (Spec w) = Some app \<longrightarrow> SourceApp (Spec w') = Some (app\<lparr>app_ChartVersion :=
        (if str_field (hv_Version ho) = '''' then app_ChartVersion app else str_field (hv_Version ho))\<rparr>)
      \<and> (if map_len (hv_Values ho) > 0
         then \<exists>cv. find (\<lambda>cv. ov_ComponentName cv = app_ChartName app) (ComponentValues (Spec w')) = Some cv
           \<and> ov_Values cv = Some (marshal (values_json (hv_Values ho)))
           \<and> filter (\<lambda>cv. ov_ComponentName cv \<noteq> app_ChartName app) (ComponentValues (Spec w'))
             = filter (\<lambda>cv. ov_ComponentName cv \<noteq> app_ChartName app) (ComponentValues (Spec w))
         else ComponentValues (Spec w') = ComponentValues (Spec w)))
    \<and> TargetNamespace (Spec w') = (if helmOpNamespace ho = '''' then TargetNamespace (Spec w) else helmOpNamespace ho)
    \<and> FleetBundleNames (Spec w') = FleetBundleNames (Spec w) \<and> TargetClusters (Spec w') = TargetClusters (Spec w)
    \<and> (\<forall>ho'. readable ho' \<and> mget (Annotations w') gitSyncAnnotation = view_hash ho' \<longrightarrow>
        sha256_collision (view_text ho) (view_text ho') \<or> str_field (hv_Version ho) = str_field (hv_Version ho')
          \<and> helmOpNamespace ho = helmOpNamespace ho' \<and> hv_Values ho = hv_Values ho')"
proof -
  let ?w1 = "setAnnotation gitSyncAnnotation (view_hash ho) (w\<lparr>Spec := synced_spec ho (Spec w)\<rparr>)"
  have "upd ?w1 s = (Inr w', s')"
    using assms(3,4) by (auto simp: syncSpecFromHelmOp_def view_hash_def Let_def split: prod.splits sum.splits)
  from workload_store.upd_ok [OF assms(1) this] obtain old where m: "main_part ?w1 old w'" and st: "stored s' = Some w'" by blast
  have sp: "Spec w' = synced_spec ho (Spec w)" and an: "mget (Annotations w') gitSyncAnnotation = view_hash ho"
    using m by (cases w'; cases old; cases w; simp add: main_part_def setAnnotation_def)+
  have again: "syncSpecFromHelmOp upd ho (w', t) = (Inr (), w', t)" for t
    using an by (simp add: syncSpecFromHelmOp_def view_hash_def Let_def)
  have app: "SourceApp (Spec w') = Some (app\<lparr>app_ChartVersion :=
        (if str_field (hv_Version ho) = '''' then app_ChartVersion app else str_field (hv_Version ho))\<rparr>)
      \<and> ComponentValues (Spec w') = (if map_len (hv_Values ho) > 0
         then set_override (app_ChartName app) (marshal (values_json (hv_Values ho))) (ComponentValues (Spec w))
         else ComponentValues (Spec w))"
    if "SourceApp (Spec w) = Some app" for app
    using that by (simp add: sp synced_spec_def Let_def)
  have rest: "TargetNamespace (Spec w') = (if helmOpNamespace ho = '''' then TargetNamespace (Spec w) else helmOpNamespace ho)"
      "FleetBundleNames (Spec w') = FleetBundleNames (Spec w)" "TargetClusters (Spec w') = TargetClusters (Spec w)"
    by (simp_all add: sp synced_spec_def Let_def split: option.split)
  show ?thesis using st again app rest an view_hash_identifies [OF assms(2)] set_override_first by auto
qed

definition example_gitapp :: AIWorkload where
  "example_gitapp = example_workload\<lparr>wl_Finalizers := [aiWorkloadFinalizer], Spec := example_spec\<lparr>SourceType := AIWorkloadSourceApp,
     SourceApp := Some \<lparr>app_ChartRepo = ''apps'', app_ChartName = ''web'', app_ChartVersion = ''1.0'', app_Release = ''web'', app_Vendor = VendorSUSE\<rparr>,
     SourceBlueprint := None, DeployStrategy := AIWorkloadDeployGitOps, FleetBundleNames := [''demo-web'']\<rparr>\<rparr>"

definition example_view :: HelmOpView where
  "example_view = \<lparr>hv_Version = Some ''1.1'', hv_DefaultNamespace = Some ''ai'', hv_Namespace = None,
     hv_Values = Some [(''replicas'', JNum ''2'')]\<rparr>"

theorem git_sync_settles_witness:
  "\<exists>w' s'. syncSpecFromHelmOp hub_update example_view (example_gitapp, example_git_hub\<lparr>hub_workload := Some example_gitapp\<rparr>) = (Inr (), w', s')
    \<and> hub_workload s' = Some w' \<and> map_option app_ChartVersion (SourceApp (Spec w')) = Some ''1.1''"
proof -
  let ?s = "example_git_hub\<lparr>hub_workload := Some example_gitapp\<rparr>"
  have a: "Annotations example_gitapp = Map.empty" by (simp add: example_gitapp_def example_defs)
  have n: "mget (Annotations example_gitapp) gitSyncAnnotation \<noteq> view_hash example_view"
    using hash_of_something [unfolded gitManifestHash_def, symmetric] by (simp add: a mget_def view_hash_def helmOpHash_def)
  have r: "readable example_view" by code_simp
  have q: "quiet ?s" using example_git_hub_quiet by simp
  have "\<exists>w' s'. syncSpecFromHelmOp hub_update example_view (example_gitapp, ?s) = (Inr (), w', s')"
    using n q by (simp add: syncSpecFromHelmOp_def view_hash_def Let_def hub_update_def hub_write_def hub_call_quiet)
  then obtain w' s' where h: "syncSpecFromHelmOp hub_update example_view (example_gitapp, ?s) = (Inr (), w', s')" by blast
  have src: "SourceApp (Spec example_gitapp) = Some \<lparr>app_ChartRepo = ''apps'', app_ChartName = ''web'', app_ChartVersion = ''1.0'',
      app_Release = ''web'', app_Vendor = VendorSUSE\<rparr>"
    by (simp add: example_gitapp_def)
  note all = git_sync_settles [OF hub_workloads.workload_store_axioms r h n]
  show ?thesis using h all src by (simp add: example_view_def str_field_def)
qed

section \<open>The file that was removed\<close>

locale mirror_client = deletion_client +
  objs: workload_store "ct_Update ct" "ct_Status ct" stored +
  assumes read_helmop: "ReadHelmOp (en_Fleet (ct_Env ct)) ns n s = (rv, s') \<Longrightarrow> ops s' = ops s
        \<and> (\<forall>v. rv = Inr v \<longrightarrow> ops s (ns, n) \<noteq> None) \<and> (\<forall>e. rv = Inl e \<longrightarrow> err_is e = SNotFound \<longrightarrow> ops s (ns, n) = None)"
    and read_frame: "leaves (\<lambda>s. (bundles s, stored s)) (ReadHelmOp (en_Fleet (ct_Env ct)) ns n)"
    and delete_object: "ct_Delete ct w s = (Inr u, s') \<Longrightarrow> stored s = Some v \<Longrightarrow> wl_Finalizers v = [] \<Longrightarrow> stored s' = None"
    and delete_frame: "leaves bundles (ct_Delete ct w)"
begin

lemma no_helmop:
  assumes "getHelmOp (en_Fleet (ct_Env ct)) n s = (r, s')" "\<forall>ns \<in> set fleetNamespaces. ops s (ns, n) = None"
  shows "bundles s' = bundles s \<and> stored s' = stored s \<and> (isl r \<or> r = Inr None)"
proof -
  have "bundles s' = bundles s \<and> stored s' = stored s \<and> (isl r \<or> r = Inr None)"
    if "first_helmop (en_Fleet (ct_Env ct)) n nss s = (r, s')" "\<forall>ns \<in> set nss. ops s (ns, n) = None" for nss s
    using that
  proof (induction nss arbitrary: s)
    case (Cons ns nss)
    obtain rv s1 where g: "ReadHelmOp (en_Fleet (ct_Env ct)) ns n s = (rv, s1)" by (cases "ReadHelmOp (en_Fleet (ct_Env ct)) ns n s")
    note l = read_helmop [OF g] leavesD [OF read_frame g]
    obtain e where e: "rv = Inl e" using l(1) Cons.prems(2) by (cases rv) auto
    show ?case
    proof (cases "err_is e = SNotFound")
      case True
      then have "first_helmop (en_Fleet (ct_Env ct)) n nss s1 = (r, s')" using Cons.prems(1) g e by simp
      moreover have "\<forall>ns \<in> set nss. ops s1 (ns, n) = None" using l(1) Cons.prems(2) by simp
      ultimately show ?thesis using Cons.IH l(2) by simp
    qed (use Cons.prems(1) g e l in auto)
  qed auto
  then show ?thesis using assms by (simp add: getHelmOp_def)
qed

end

text \<open>
  When the git file of a GitOps application is removed, so that its HelmOp disappears, the operator removes
  the workload by taking off the finalizer itself. The cleanup of a deletion then never runs: every
  pull-secret Bundle that carries the workload as its owner is still there, with the registry credentials
  it distributes to the downstream clusters, and no object is left whose deletion would remove it.
\<close>

theorem removed_file_orphans_secrets:
  assumes "mirror_client ct look up spaces conf bundles ops fbs stored"
    and "reconcileGitOpsStatus (en_Fleet (ct_Env ct)) (ct_Update ct) (ct_Delete ct) now (w, s) = (Inr (), w', s')"
    and "FleetBundleNames (Spec w) \<noteq> []" "\<forall>ns \<in> set fleetNamespaces. ops s (ns, hd (FleetBundleNames (Spec w))) = None"
    and "mget (Annotations w) gitSyncAnnotation \<noteq> ''''" "set (wl_Finalizers w) \<subseteq> {aiWorkloadFinalizer}"
  shows "stored s' = None \<and> bundles s' = bundles s"
proof -
  let ?f = "en_Fleet (ct_Env ct)" and ?n = "hd (FleetBundleNames (Spec w))"
  have mc: "deletion_client ct look up spaces conf bundles ops fbs stored" and ws: "workload_store (ct_Update ct) (ct_Status ct) stored"
    using assms(1) by (simp_all add: mirror_client_def)
  obtain r1 s1 where g: "getHelmOp ?f ?n s = (r1, s1)" by (cases "getHelmOp ?f ?n s")
  note n = mirror_client.no_helmop [OF assms(1) g assms(4)]
  have "r1 = Inr None" using n assms(2,3) g by (cases r1) (auto simp: reconcileGitOpsStatus_def)
  then have d: "deleteAIWorkload (ct_Update ct) (ct_Delete ct) (w, s1) = (Inr (), w', s')"
    using assms(2,3,5) g by (simp add: reconcileGitOpsStatus_def)
  obtain r2 s2 where u: "ct_Update ct (remove_finalizer w) s1 = (r2, s2)" by (cases "ct_Update ct (remove_finalizer w) s1")
  then obtain w2 where w2: "r2 = Inr w2" using d by (cases r2) (simp_all add: deleteAIWorkload_def)
  have del: "ct_Delete ct w2 s2 = (Inr (), s')" using d u w2 by (auto simp: deleteAIWorkload_def split: prod.splits)
  obtain old where m: "main_part (remove_finalizer w) old w2" "stored s2 = Some w2"
    using workload_store.upd_ok [OF ws u [unfolded w2]] by blast
  have "wl_Finalizers w2 = wl_Finalizers (remove_finalizer w)"
    using m(1) by (cases w2; cases old; cases w; simp add: main_part_def remove_finalizer_def)
  also have "\<dots> = []" using assms(6) by (auto simp: remove_finalizer_def filter_empty_conv)
  finally have fin: "wl_Finalizers w2 = []" .
  have "stored s' = None" by (rule mirror_client.delete_object [OF assms(1) del m(2) fin])
  moreover have "bundles s2 = bundles s1" using leavesD [OF deletion_client.write_frame [OF mc] u] by simp
  moreover have "bundles s' = bundles s2" by (rule leavesD [OF mirror_client.delete_frame [OF assms(1)] del])
  ultimately show ?thesis using n by simp
qed

interpretation hub_mirror: mirror_client "hub_ctl repos token helm" "\<lambda>s. cl_secrets (fst (hub_world s))"
    "\<lambda>s. no_faults (fst (hub_world s))" "\<lambda>s. set (cl_namespaces (fst (hub_world s)))" "\<lambda>s. cl_settings (fst (hub_world s))"
    "\<lambda>s. world_bundles (hub_world s)" "\<lambda>s. map_of (hub_ops s)" "\<lambda>s. map_of (hub_fbs s)" hub_workload
  for repos token helm
proof (intro mirror_client.intro mirror_client_axioms.intro hub_deletion.deletion_client_axioms)
  have e: "en_Fleet (ct_Env (hub_ctl repos token helm)) = hub_fleet" "ct_Update (hub_ctl repos token helm) = hub_update"
      "ct_Status (hub_ctl repos token helm) = hub_status_update" "ct_Delete (hub_ctl repos token helm) = hub_delete"
    by (simp_all add: hub_ctl_def hub_env_def hub_git_env_def ct_Update_def)
  show "workload_store (ct_Update (hub_ctl repos token helm)) (ct_Status (hub_ctl repos token helm)) hub_workload"
    unfolding e by (rule hub_workloads.workload_store_axioms)
  fix ns n s rv s' w u v
  show "leaves (\<lambda>s. (world_bundles (hub_world s), hub_workload s)) (ReadHelmOp (en_Fleet (ct_Env (hub_ctl repos token helm))) ns n)"
    unfolding e hub_fleet_def by (simp, rule hub_call_leaves) (simp_all add: world_bundles_def fun_eq_iff)
  show "leaves (\<lambda>s. world_bundles (hub_world s)) (ct_Delete (hub_ctl repos token helm) w)"
    unfolding e hub_delete_def by (rule hub_call_leaves) (simp_all add: world_bundles_def fun_eq_iff)
  show "map_of (hub_ops s') = map_of (hub_ops s) \<and> (\<forall>v. rv = Inr v \<longrightarrow> map_of (hub_ops s) (ns, n) \<noteq> None)
    \<and> (\<forall>e. rv = Inl e \<longrightarrow> err_is e = SNotFound \<longrightarrow> map_of (hub_ops s) (ns, n) = None)"
    if "ReadHelmOp (en_Fleet (ct_Env (hub_ctl repos token helm))) ns n s = (rv, s')"
    using that unfolding e hub_fleet_def by simp (elim hub_call_cases, auto split: option.splits)
  show "hub_workload s' = None" if "ct_Delete (hub_ctl repos token helm) w s = (Inr u, s')" "hub_workload s = Some v"
    using that unfolding e hub_delete_def by (elim hub_call_cases) auto
qed

text \<open>An application whose pull secrets were delivered to a downstream cluster, after its file was removed.\<close>

definition example_removed :: AIWorkload where
  "example_removed = setAnnotation gitSyncAnnotation ''h'' example_gitapp"

definition example_owned :: PullSecretBundle where
  "example_owned = example_pull_bundle\<lparr>pb_Labels := owner_labels ''demo'' ''default''\<rparr>"

definition example_removed_hub :: hub where
  "example_removed_hub = example_hub\<lparr>hub_ops := [], hub_workload := Some example_removed,
     hub_world := (fst (hub_world example_hub), [example_owned])\<rparr>"

theorem removed_file_orphans_secrets_witness:
  "\<exists>w' s'. reconcileGitOpsStatus hub_fleet hub_update hub_delete 0 (example_removed, example_removed_hub) = (Inr (), w', s')
    \<and> hub_workload s' = None \<and> world_bundles (hub_world s') (bundle_key example_owned) = Some example_owned
    \<and> owner_labels (wl_Name example_removed) (wl_Namespace example_removed) \<subseteq>\<^sub>m pb_Labels example_owned"
proof -
  let ?ct = "hub_ctl example_repos True no_releases"
  have e: "en_Fleet (ct_Env ?ct) = hub_fleet" "ct_Update ?ct = hub_update" "ct_Delete ?ct = hub_delete"
    by (simp_all add: hub_ctl_def hub_env_def hub_git_env_def ct_Update_def)
  have q: "quiet example_removed_hub" "hub_ops example_removed_hub = []" "hub_workload example_removed_hub = Some example_removed"
    by (simp_all add: quiet_def example_removed_hub_def example_hub_def)
  have w: "FleetBundleNames (Spec example_removed) = [''demo-web'']" "mget (Annotations example_removed) gitSyncAnnotation = ''h''"
      "wl_Finalizers example_removed = [aiWorkloadFinalizer]" "wl_Name example_removed = ''demo''" "wl_Namespace example_removed = ''default''"
    by (simp_all add: example_removed_def setAnnotation_def example_gitapp_def example_defs)
  have "\<exists>w' s'. reconcileGitOpsStatus hub_fleet hub_update hub_delete 0 (example_removed, example_removed_hub) = (Inr (), w', s')"
    using q by (simp add: reconcileGitOpsStatus_def w getHelmOp_def fleetNamespaces_def hub_fleet_def hub_call_quiet not_found_def
        deleteAIWorkload_def hub_update_def hub_write_def hub_delete_def)
  then obtain w' s' where r: "reconcileGitOpsStatus hub_fleet hub_update hub_delete 0 (example_removed, example_removed_hub) = (Inr (), w', s')"
    by blast
  have h: "FleetBundleNames (Spec example_removed) \<noteq> []" "mget (Annotations example_removed) gitSyncAnnotation \<noteq> ''''"
      "set (wl_Finalizers example_removed) \<subseteq> {aiWorkloadFinalizer}"
      "\<forall>ns \<in> set fleetNamespaces. map_of (hub_ops example_removed_hub) (ns, hd (FleetBundleNames (Spec example_removed))) = None"
    using w q by simp_all
  have b: "world_bundles (hub_world example_removed_hub) (bundle_key example_owned) = Some example_owned"
    by (simp add: example_removed_hub_def world_bundles_def)
  have o: "owner_labels (wl_Name example_removed) (wl_Namespace example_removed) \<subseteq>\<^sub>m pb_Labels example_owned"
    by (simp add: w example_owned_def)
  show ?thesis using r b o removed_file_orphans_secrets [OF hub_mirror.mirror_client_axioms r [folded e] h(1,4,2,3)] by auto
qed

end
