(* ===== verification/Controller.thy ===== *)
theory Controller
  imports AppPass
begin

text \<open>
  The AIWorkload controller as a whole (\<open>internal/controller/aiworkload\<close>): the pass over a blueprint workload
  (\<open>reconcileBlueprintStatus\<close> of \<open>blueprint.go\<close>), the choice of the strategy, \<open>Reconcile\<close> itself, and the
  functions that map a changed object to the workloads to reconcile (\<open>aiworkload_controller.go\<close>). The
  quoting of names in messages is that of names without special characters. Events and log lines are not
  modelled; the clock stands still during a pass.
\<close>

section \<open>The environment\<close>

text \<open>The reads of Fleet objects and Helm releases are functions of the state, as they change nothing.\<close>

record 's Operator =
  opr_Ctl :: "'s Ctl"
  opr_Blueprint :: "string \<Rightarrow> ('s, BlueprintComponent list) act"
  opr_Get :: "('s, AIWorkload) act"
  opr_Reads :: "'s \<Rightarrow> fleet_reader"
  opr_Sync :: "'s \<Rightarrow> sync_lister"

abbreviation opr_Env :: "'s Operator \<Rightarrow> 's Env" where
  "opr_Env opr \<equiv> ct_Env (opr_Ctl opr)"

section \<open>Blueprint workloads\<close>

text \<open>Ready is False with a reason, and the phase is Failed once the workload is out of its grace period.\<close>

definition failing :: "nat \<Rightarrow> string \<Rightarrow> string \<Rightarrow> AIWorkload \<Rightarrow> AIWorkload" where
  "failing now reason msg w =
     setPhase (guardPhaseTransition now PhaseFailed (st_Phase (Status w)) (wl_CreationTimestamp w)) (setReady ConditionFalse reason msg w)"

definition component_failed :: "nat \<Rightarrow> BlueprintComponent \<Rightarrow> err \<Rightarrow> AIWorkload \<Rightarrow> (err + Result) \<times> AIWorkload" where
  "component_failed now c e w =
     (let chart = go_quoted (bc_ChartName c); repo = go_quoted (bc_ChartRepo c)
      in if err_is e = SCatalogClientNotConfigured then
           (Inr (requeue_after (60 * int second)), failing now ''CatalogClientNotConfigured''
              (''Component '' @ chart @ '' uses git-backed repo '' @ repo @ '', which requires a Rancher API token. Set one under Settings ''
               @ right_arrow @ '' Rancher API Access in the AI Factory UI (Settings.spec.rancherCatalog.tokenSecretRef).'') w)
         else if err_is e = SUnauthorized then
           (Inr (requeue_after (60 * int second)), failing now reasonRancherTokenRejected
              (''Rancher rejected the API token while fetching component '' @ chart @ '' from git-backed repo '' @ repo
               @ ''. The token may have expired '' @ em_dash @ '' re-authorize under Settings '' @ right_arrow
               @ '' Rancher API Access in the AI Factory UI.'') w)
         else if err_is e = SChartTooLarge then
           (Inr result_done, failing now ''ChartTooLarge''
              (''Component '' @ chart @ '' cannot be deployed from git-backed repo '' @ repo @ '': '' @ err_text e) w)
         else if err_is e = SClusterRepoNotReady then
           (Inr (requeue_after (30 * int second)), failing now ''ClusterRepoNotReady''
              (''Repository '' @ repo @ '' is not available yet. If this persists, verify its credentials in Settings.'') w)
         else
           (Inl e, failing now ''ComponentReconcileFailed''
              (''Component '' @ chart @ '' from repo '' @ repo @ '' could not be reconciled: '' @ truncateForCondition (err_text e)) w))"

definition first_names :: "AIWorkload \<Rightarrow> BlueprintComponent list \<Rightarrow> string list" where
  "first_names w components = map (\<lambda>c. blueprintBundleName (wl_Name w) (bc_ChartName c)) components"

text \<open>What the pass reports when the objects are in place, from the matrix to the condition.\<close>

definition show_cells :: "nat \<Rightarrow> AIWorkloadComponentStatus list \<Rightarrow> AIWorkload \<Rightarrow> AIWorkload" where
  "show_cells now cells w = w\<lparr>Status := (Status w)\<lparr>ComponentStatuses := cells, ClusterStatuses := aggregateClusterStatuses cells,
     st_Phase := guardPhaseTransition now (phaseFromCells cells) (st_Phase (Status w)) (wl_CreationTimestamp w)\<rparr>\<rparr>"

definition report_pass ::
  "'s Operator \<Rightarrow> nat \<Rightarrow> BlueprintComponent list \<Rightarrow> HelmOpKey list \<Rightarrow> smap \<Rightarrow> ('s, Result) wact" where
  "report_pass opr now components keys digests = (\<lambda>(w, s).
     case buildComponentMatrix (opr_Reads opr s) w keys digests of
       Inl e \<Rightarrow> (Inl e, w, s)
     | Inr cells \<Rightarrow>
         (case certifyDeployedSource (opr_Reads opr s) now (show_cells now cells w) keys digests of
            Inl e \<Rightarrow> (Inl e, show_cells now cells w, s)
          | Inr w1 \<Rightarrow>
              (case isWorkloadCustomized (en_Merge (opr_Env opr)) w1 (Some components) of
                 Inl e \<Rightarrow> (Inl e, w1, s)
               | Inr customized \<Rightarrow>
                   (Inr result_done, setReady ConditionTrue ''Reconciled'' ''Component bundles reconciled''
                      (w1\<lparr>Status := (Status w1)\<lparr>Customized := customized\<rparr>\<rparr>), s))))"

definition settle_pass ::
  "'s Operator \<Rightarrow> nat \<Rightarrow> BlueprintComponent list \<Rightarrow> BlueprintComponent list \<Rightarrow> smap \<Rightarrow> ('s, Result) wact" where
  "settle_pass opr now components enabled digests = (\<lambda>(w, s).
     let w1 = w\<lparr>Status := (Status w)\<lparr>ObservedGeneration := wl_Generation w\<rparr>\<rparr>;
         keys = workload_keys w1 enabled
     in case cleanupStaleHelmOps (opr_Env opr) w1 keys s of
          (Inl e, s1) \<Rightarrow> (Inl e, w1, s1)
        | (Inr _, s1) \<Rightarrow>
            (case collectDesiredHelmOpUIDs (en_Fleet (opr_Env opr)) keys s1 of (uids, s2) \<Rightarrow>
               report_pass opr now components keys digests
                 (w1\<lparr>Status := (Status w1)\<lparr>RenderBaselines := pruneRenderBaselines (RenderBaselines (Status w1)) (\<lambda>u. u \<in> set uids)\<rparr>\<rparr>, s2)))"

definition deploy_pass :: "'s Operator \<Rightarrow> nat \<Rightarrow> BlueprintComponent list \<Rightarrow> ('s, Result) wact" where
  "deploy_pass opr now components = (\<lambda>(w, s).
     let enabled = filterEnabledComponents w components
     in case ensure_components (opr_Env opr) enabled Map.empty (w, s) of
       (Inl (ComponentError c e), w1, s1) \<Rightarrow> (case component_failed now c e w1 of (r, w2) \<Rightarrow> (r, w2, s1))
     | (Inl (PassError e), w1, s1) \<Rightarrow> (Inl e, w1, s1)
     | (Inr digests, w1, s1) \<Rightarrow> settle_pass opr now components enabled digests (w1, s1))"

definition reconcileBlueprintStatus :: "'s Operator \<Rightarrow> nat \<Rightarrow> ('s, Result) wact" where
  "reconcileBlueprintStatus opr now = (\<lambda>(w, s).
     case SourceBlueprint (Spec w) of
       None \<Rightarrow> (Inr result_done, w, s)
     | Some src \<Rightarrow>
         (case opr_Blueprint opr (bpCRName (bps_Name src) (bps_Version src)) s of
            (Inl e, s1) \<Rightarrow>
              if err_is e = SNotFound then
                (Inr result_done, failing now ''BlueprintNotFound''
                   (''Blueprint '' @ go_quoted (bpCRName (bps_Name src) (bps_Version src)) @ '' was not found.'') w, s1)
              else (Inl e, w, s1)
          | (Inr components, s1) \<Rightarrow>
              if FleetBundleNames (Spec w) = [] then
                (let w1 = w\<lparr>Spec := (Spec w)\<lparr>FleetBundleNames := first_names w components\<rparr>\<rparr>
                 in case ct_Update (opr_Ctl opr) w1 s1 of
                      (Inl e, s2) \<Rightarrow> (Inl e, w1, s2)
                    | (Inr w2, s2) \<Rightarrow> (Inr requeue_now, w2, s2))
              else deploy_pass opr now components (w, s1)))"

section \<open>The choice of the strategy\<close>

definition reconcile_strategy :: "'s Operator \<Rightarrow> nat \<Rightarrow> ('s, Result) wact" where
  "reconcile_strategy opr now = (\<lambda>(w, s).
     case DeployStrategy (Spec w) of
       AIWorkloadDeployHelm \<Rightarrow>
         (case reconcileHelmStatus (ct_Helm (opr_Ctl opr) s) w of Inl e \<Rightarrow> (Inl e, w, s) | Inr w1 \<Rightarrow> (Inr result_done, w1, s))
     | AIWorkloadDeployFleetBundle \<Rightarrow> bnd (reconcileFleetStatus (en_Fleet (opr_Env opr)) now) (\<lambda>_. ret result_done) (w, s)
     | AIWorkloadDeployGitOps \<Rightarrow>
         bnd (reconcileGitOpsStatus (en_Fleet (opr_Env opr)) (ct_Update (opr_Ctl opr)) (ct_Delete (opr_Ctl opr)) now)
           (\<lambda>_. ret result_done) (w, s))"

definition reconcileStatus :: "'s Operator \<Rightarrow> nat \<Rightarrow> ('s, Result) wact" where
  "reconcileStatus opr now = (\<lambda>(w, s).
     case SourceType (Spec w) of
       AIWorkloadSourceBlueprint \<Rightarrow> reconcileBlueprintStatus opr now (w, s)
     | AIWorkloadSourceApp \<Rightarrow> bnd (reconcileAppPullSecrets (opr_Env opr)) (\<lambda>_. reconcile_strategy opr now) (w, s))"

section \<open>Reconcile\<close>

definition helmReadinessRequeue :: int where "helmReadinessRequeue = 30 * int second"

definition add_finalizer :: "AIWorkload \<Rightarrow> AIWorkload" where
  "add_finalizer w = w\<lparr>wl_Finalizers := wl_Finalizers w @ [aiWorkloadFinalizer]\<rparr>"

definition terminal :: "err + Result \<Rightarrow> bool" where
  "terminal r \<longleftrightarrow> (\<exists>res. r = Inr res \<and> \<not> Requeue res \<and> RequeueAfter res = 0)"

text \<open>The secrets, once the status is stored and no operation is in flight.\<close>

definition deliver_secrets :: "'s Operator \<Rightarrow> AIWorkload \<Rightarrow> ('s, Result) act" where
  "deliver_secrets opr w s =
     (let c = en_Client (opr_Env opr); opns = ge_OperatorNS (en_Git (opr_Env opr));
          poll = (if DeployStrategy (Spec w) = AIWorkloadDeployHelm \<and> SourceApp (Spec w) \<noteq> None
                  then requeue_after helmReadinessRequeue else result_done)
      in if PullSecretDeliveries (Status w) = [] then (Inr poll, s)
         else bnd (deliverPullSecrets c (ct_Bundles (opr_Ctl opr)) w (Some (pullSecretFactory c opns))) (\<lambda>_.
                bnd (reconcilePullSecrets (ct_Pods (opr_Ctl opr)) w) (\<lambda>settled.
                  ret (if settled then poll else requeue_after (30 * int second)))) s)"

definition after_status :: "'s Operator \<Rightarrow> nat \<Rightarrow> AIWorkload \<Rightarrow> ('s, Result) act" where
  "after_status opr now w s =
     (case reconcileOperation (ct_Update (opr_Ctl opr)) (ct_Status (opr_Ctl opr)) (opr_Sync opr s) now w s of
        (Inl e, s1) \<Rightarrow> (Inl e, s1)
      | (Inr (res, w1), s1) \<Rightarrow> if RequeueAfter res > 0 then (Inr res, s1) else deliver_secrets opr w1 s1)"

definition persist :: "'s Operator \<Rightarrow> nat \<Rightarrow> err + Result \<Rightarrow> AIWorkload \<Rightarrow> ('s, Result) act" where
  "persist opr now r w s =
     (let w1 = projectOperation (if terminal r then w\<lparr>Status := (Status w)\<lparr>ObservedGeneration := wl_Generation w\<rparr>\<rparr> else w)
      in case ct_Status (opr_Ctl opr) w1 s of
           (Inl e, s1) \<Rightarrow>
             (case r of
                Inl e0 \<Rightarrow> (Inl e0, s1)
              | Inr _ \<Rightarrow> if err_is e = SNotFound then (Inr result_done, s1) else (Inl e, s1))
         | (Inr w2, s1) \<Rightarrow>
             (case r of
                Inl e0 \<Rightarrow> (Inl e0, s1)
              | Inr res \<Rightarrow> if Requeue res \<or> RequeueAfter res > 0 then (Inr res, s1) else after_status opr now w2 s1))"

definition Reconcile :: "'s Operator \<Rightarrow> nat \<Rightarrow> ('s, Result) act" where
  "Reconcile opr now s =
     (case opr_Get opr s of
        (Inl e, s1) \<Rightarrow> if err_is e = SNotFound then (Inr result_done, s1) else (Inl e, s1)
      | (Inr w, s1) \<Rightarrow>
          if wl_Deleting w then (case handleDeletion (opr_Ctl opr) (w, s1) of (r, _, s2) \<Rightarrow> (r, s2))
          else if aiWorkloadFinalizer \<notin> set (wl_Finalizers w) then
            bnd (ct_Update (opr_Ctl opr) (add_finalizer w)) (\<lambda>_. ret requeue_now) s1
          else (case handleTriggers (ct_Update (opr_Ctl opr)) now w s1 of
                  (Inl e, s2) \<Rightarrow> (Inl e, s2)
                | (Inr (True, _), s2) \<Rightarrow> (Inr requeue_now, s2)
                | (Inr (False, w1), s2) \<Rightarrow> (case reconcileStatus opr now (w1, s2) of (r, w2, s3) \<Rightarrow> persist opr now r w2 s3)))"

section \<open>From a changed object to the workloads\<close>

definition key_of :: "AIWorkload \<Rightarrow> string \<times> string" where
  "key_of w = (wl_Namespace w, wl_Name w)"

text \<open>The workloads that satisfy a condition; a list call that fails gives none.\<close>

definition requests_where :: "(AIWorkload \<Rightarrow> bool) \<Rightarrow> err + AIWorkload list \<Rightarrow> (string \<times> string) list" where
  "requests_where p listed = (case listed of Inl _ \<Rightarrow> [] | Inr ws \<Rightarrow> map key_of (filter p ws))"

definition workloadsWithFleetBundle :: "err + AIWorkload list \<Rightarrow> string \<Rightarrow> (string \<times> string) list" where
  "workloadsWithFleetBundle listed name = requests_where (\<lambda>w. name \<in> set (FleetBundleNames (Spec w))) listed"

definition bundleDeploymentToAIWorkloads :: "err + AIWorkload list \<Rightarrow> smap \<Rightarrow> (string \<times> string) list" where
  "bundleDeploymentToAIWorkloads listed labels =
     (if mget labels ''fleet.cattle.io/bundle-name'' = '''' then []
      else workloadsWithFleetBundle listed (mget labels ''fleet.cattle.io/bundle-name''))"

definition helmOpToAIWorkloads :: "err + AIWorkload list \<Rightarrow> string \<Rightarrow> (string \<times> string) list" where
  "helmOpToAIWorkloads listed name = workloadsWithFleetBundle listed name"

definition bundleToAIWorkloads :: "err + AIWorkload list \<Rightarrow> string \<Rightarrow> smap \<Rightarrow> (string \<times> string) list" where
  "bundleToAIWorkloads listed name labels =
     (let uid = mget labels workloadUIDLabel
      in if uid = '''' then workloadsWithFleetBundle listed name
         else case listed of
                Inl _ \<Rightarrow> workloadsWithFleetBundle listed name
              | Inr ws \<Rightarrow> (case find (\<lambda>w. wl_UID w = uid) ws of
                             Some w \<Rightarrow> [key_of w]
                           | None \<Rightarrow> workloadsWithFleetBundle listed name))"

definition helmSecretToAIWorkloads :: "err + AIWorkload list \<Rightarrow> string \<Rightarrow> smap \<Rightarrow> (string \<times> string) list" where
  "helmSecretToAIWorkloads listed namespace labels =
     (if mget labels ''owner'' \<noteq> ''helm'' \<or> mget labels ''name'' = '''' then []
      else requests_where (\<lambda>w. DeployStrategy (Spec w) = AIWorkloadDeployHelm
             \<and> (\<exists>app. SourceApp (Spec w) = Some app \<and> app_Release app = mget labels ''name'')
             \<and> TargetNamespace (Spec w) = namespace) listed)"

definition allAIWorkloadRequests :: "err + AIWorkload list \<Rightarrow> (string \<times> string) list" where
  "allAIWorkloadRequests listed = requests_where (\<lambda>_. True) listed"

definition credentialSecretToAIWorkloads :: "string \<Rightarrow> err + AIWorkload list \<Rightarrow> string \<Rightarrow> string \<Rightarrow> (string \<times> string) list" where
  "credentialSecretToAIWorkloads opns listed namespace name =
     (if namespace \<noteq> opns \<or> \<not> IsWellKnownSecret name then [] else allAIWorkloadRequests listed)"

definition blueprintAIWorkloadRequests :: "err + AIWorkload list \<Rightarrow> (string \<times> string) list" where
  "blueprintAIWorkloadRequests listed = requests_where (\<lambda>w. SourceBlueprint (Spec w) \<noteq> None) listed"

definition clusterRepoToAIWorkloads :: "err + AIWorkload list \<Rightarrow> (string \<times> string) list" where
  "clusterRepoToAIWorkloads listed = requests_where (\<lambda>w. SourceBlueprint (Spec w) \<noteq> None \<or> SourceApp (Spec w) \<noteq> None) listed"

end
