(* ===== verification/FleetPass.thy ===== *)
theory FleetPass
  imports Hub
begin

text \<open>
  Whole passes over the components of a blueprint workload: what the store of Fleet objects and the Git
  remote hold when the loop and the cleanup have ended without an error.
\<close>

section \<open>The FleetBundle strategy\<close>

text \<open>
  One pass of the FleetBundle strategy, when its components are deployed and its cleanup ends without an
  error: every component whose repository is not git-backed has a HelmOp in each of its workspaces that carries the
  options, the targets, the owner label and the digest that the pass records as expected; among the HelmOps of
  the two workspaces, only the desired ones carry the workload's label, whatever the store held before; and a
  HelmOp that is not desired, does not carry the label and is not of the recorded names is as it was.
\<close>

theorem fleet_pass_exact:
  assumes "fleet_client en ops fbs"
    and "ensure_components en cs Map.empty (w, s) = (Inr ds, w1, s1)"
    and "cleanupStaleHelmOps en w1 (workload_keys w1 cs) s1 = (Inr (), s2)"
    and "DeployStrategy (Spec w) = AIWorkloadDeployFleetBundle" "wl_UID w \<noteq> ''''" "distinct (map (bundle_of w) cs)"
  shows "(\<forall>c \<in> set cs. \<not> git_backed en c \<longrightarrow> (\<exists>d. rendered en w c (bundle_of w c) d (ops s2) \<and> digests_recorded w c d ds))
    \<and> (\<forall>k. fst k \<in> set fleetNamespaces \<longrightarrow> labelled (wl_UID w) (ops s2 k) \<longrightarrow> k \<in> key_id ` set (workload_keys w cs))
    \<and> (\<forall>k. k \<notin> key_id ` set (workload_keys w cs) \<longrightarrow> \<not> labelled (wl_UID w) (ops s k)
         \<longrightarrow> snd k \<notin> set (FleetBundleNames (Spec w)) \<longrightarrow> ops s2 k = ops s k)"
proof -
  note cs = fleet_client.components_step [OF assms(1,2,4,6)]
  have sm: "same_main w w1" using cs by blast
  have fields: "workload_keys w1 cs = workload_keys w cs" "Spec w1 = Spec w" "wl_UID w1 = wl_UID w"
    using same_main_keys [OF sm] same_main_fields [OF sm] by auto
  obtain mid where m: "\<forall>k. relabelled (wl_UID w) (ops s1 k) (mid k)"
      "\<forall>k. snd k \<notin> set (FleetBundleNames (Spec w)) \<longrightarrow> mid k = ops s1 k"
      "\<forall>k. if fst k \<in> set fleetNamespaces \<and> labelled (wl_UID w) (mid k) \<and> k \<notin> key_id ` set (workload_keys w cs)
         then ops s2 k = None \<and> fbs s2 k = None else ops s2 k = mid k \<and> fbs s2 k = fbs s1 k"
    using fleet_client.cleanup_fleet_step [OF assms(1,3)] assms(4,5) fields by auto
  have kept: "rendered en w c (bundle_of w c) d (ops s2)" if "rendered en w c (bundle_of w c) d (ops s1)" "c \<in> set cs" for c d
  proof -
    have "ops s2 (fst p, bundle_of w c) = Some x"
      if "ops s1 (fst p, bundle_of w c) = Some x" "applies (helmop_of w c info vals (bundle_of w c) p) x" "p \<in> set (target_pairs w)"
      for p x info vals
    proof -
      let ?k = "(fst p, bundle_of w c)"
      have "labelled (wl_UID w) (ops s1 ?k)"
        using that(1,2) by (cases x) (auto simp: labelled_def applies_def helmop_of_def)
      then have "mid ?k = ops s1 ?k" using m(1) relabelled_labelled assms(5) by blast
      moreover have "?k \<in> key_id ` set (workload_keys w cs)"
        using workload_keys_ids [of w cs] assms(4) \<open>c \<in> set cs\<close> that(3) by (auto simp: bundle_of_def)
      ultimately show ?thesis using spec [OF m(3), of ?k] that(1) by simp
    qed
    then show ?thesis using that(1) unfolding rendered_def by blast
  qed
  have "k \<in> key_id ` set (workload_keys w cs)"
    if "fst k \<in> set fleetNamespaces" "labelled (wl_UID w) (ops s2 k)" for k
    using spec [OF m(3), of k] that by (auto simp: labelled_def split: if_splits)
  moreover have "ops s2 k = ops s k"
    if k: "k \<notin> key_id ` set (workload_keys w cs)" "\<not> labelled (wl_UID w) (ops s k)" "snd k \<notin> set (FleetBundleNames (Spec w))" for k
  proof -
    have "ops s1 k = ops s k" using cs k(1) by blast
    moreover have "mid k = ops s1 k" using m(2) k(3) by blast
    ultimately show ?thesis using spec [OF m(3), of k] k(2) by simp
  qed
  ultimately show ?thesis using cs kept by blast
qed

theorem fleet_pass_exact_witness:
  "\<exists>ds w1 s1 s2. ensure_components (hub_env example_repos True) [example_web] Map.empty (example_mixed, example_hub) = (Inr ds, w1, s1)
    \<and> cleanupStaleHelmOps (hub_env example_repos True) w1 (workload_keys w1 [example_web]) s1 = (Inr (), s2)
    \<and> \<not> labelled ''u1'' (map_of (hub_ops s2) (''fleet-default'', ''demo-old''))
    \<and> map_of (hub_ops s2) (''fleet-default'', ''other'') = map_of (hub_ops example_hub) (''fleet-default'', ''other'')"
proof -
  obtain ds w1 s1 s2 where p: "ensure_components (hub_env example_repos True) [example_web] Map.empty (example_mixed, example_hub) = (Inr ds, w1, s1)"
      "cleanupStaleHelmOps (hub_env example_repos True) w1 (workload_keys w1 [example_web]) s1 = (Inr (), s2)"
    using example_pass by blast
  have h: "DeployStrategy (Spec example_mixed) = AIWorkloadDeployFleetBundle" "wl_UID example_mixed = ''u1''" "wl_UID example_mixed \<noteq> ''''"
      "FleetBundleNames (Spec example_mixed) = [''demo-web'']" "distinct (map (bundle_of example_mixed) [example_web])"
    by (simp_all add: example_mixed_def example_defs)
  have k: "key_id ` set (workload_keys example_mixed [example_web]) = {(''fleet-default'', ''demo-web''), (''fleet-local'', ''demo-web'')}"
    by code_simp
  note all = fleet_pass_exact [OF hub_render.fleet_client_axioms p h(1,3,5), unfolded k h(2,4)]
  have "\<not> labelled ''u1'' (map_of (hub_ops s2) (''fleet-default'', ''demo-old''))"
    using spec [OF conjunct1 [OF conjunct2 [OF all]], of "(''fleet-default'', ''demo-old'')"] by (simp add: fleetNamespaces_def)
  moreover have "map_of (hub_ops s2) (''fleet-default'', ''other'') = map_of (hub_ops example_hub) (''fleet-default'', ''other'')"
    using spec [OF conjunct2 [OF conjunct2 [OF all]], of "(''fleet-default'', ''other'')"]
    by (simp add: example_hub_def old_helmop_def labelled_def)
  ultimately show ?thesis using p by blast
qed

text \<open>
  The cleanup of the FleetBundle strategy finds stale objects by their HelmOps. The Bundle of a git-backed
  chart has none and carries no owner label, so that no cleanup ever removes it, whatever is desired: a
  git-backed component that is disabled, or that a new version of the blueprint drops, stays deployed.
\<close>

theorem chart_bundle_survives:
  assumes "fleet_client en ops fbs"
    and "cleanupStaleHelmOps en w desired s = (Inr (), s')"
    and "DeployStrategy (Spec w) = AIWorkloadDeployFleetBundle" "wl_UID w \<noteq> ''''" "ops s (ns, n) = None"
  shows "fbs s' (ns, n) = fbs s (ns, n)"
proof -
  obtain mid where m: "\<forall>k. relabelled (wl_UID w) (ops s k) (mid k)"
      "\<forall>k. if fst k \<in> set fleetNamespaces \<and> labelled (wl_UID w) (mid k) \<and> k \<notin> key_id ` set desired
         then ops s' k = None \<and> fbs s' k = None else ops s' k = mid k \<and> fbs s' k = fbs s k"
    using fleet_client.cleanup_fleet_step [OF assms(1,2)] assms(3,4) by auto
  have "mid (ns, n) = None" using spec [OF m(1), of "(ns, n)"] assms(5) by (simp add: relabelled_def)
  then show ?thesis using spec [OF m(2), of "(ns, n)"] by (simp add: labelled_def)
qed

definition example_chart_bundle :: FleetBundleSpec where
  "example_chart_bundle = \<lparr>fb_Namespace = ''fleet-default'', fb_Name = ''demo-web'', fb_Annotations = [(chartFingerprintAnnotation, ''f1'')],
     fb_Labels = [], fb_DefaultNamespace = ''ai'', fb_Helm = [], fb_Targets = [downstream_target ''edge''], fb_Resources = []\<rparr>"

definition example_chart_hub :: hub where
  "example_chart_hub = example_hub\<lparr>hub_fbs := [((''fleet-default'', ''demo-web''), example_chart_bundle)]\<rparr>"

theorem chart_bundle_survives_witness:
  "\<exists>s'. cleanupStaleHelmOps (hub_env example_repos True) example_mixed [] example_chart_hub = (Inr (), s')
    \<and> map_of (hub_fbs s') (''fleet-default'', ''demo-web'') = Some example_chart_bundle"
proof -
  have q: "quiet example_chart_hub" by (simp add: quiet_def example_chart_hub_def example_hub_def)
  have w: "wl_UID example_mixed = ''u1''" "FleetBundleNames (Spec example_mixed) = [''demo-web'']"
      "DeployStrategy (Spec example_mixed) = AIWorkloadDeployFleetBundle" "wl_UID example_mixed \<noteq> ''''"
    by (simp_all add: example_mixed_def example_defs)
  have ops: "hub_ops example_chart_hub = [old_helmop ''fleet-default'' ''demo-old'' ''u1'', old_helmop ''fleet-default'' ''other'' ''u2'']"
      "hub_fbs example_chart_hub = [((''fleet-default'', ''demo-web''), example_chart_bundle)]"
    by (simp_all add: example_hub_def example_chart_hub_def)
  have "\<exists>s'. cleanupStaleHelmOps (hub_env example_repos True) example_mixed [] example_chart_hub = (Inr (), s')"
    using q by (simp add: cleanupStaleHelmOps_def w ops bnd_def fleetNamespaces_def backfill_label_def getHelmOpIn_def hub_env_def
        remove_stale_in_def remove_stale_def deleteHelmOpIn_def deleteBundleIn_def hub_fleet_def hub_call_quiet
        hub_labels old_helmop_def not_found_def)
  then obtain s' where s': "cleanupStaleHelmOps (hub_env example_repos True) example_mixed [] example_chart_hub = (Inr (), s')" by blast
  have none: "map_of (hub_ops example_chart_hub) (''fleet-default'', ''demo-web'') = None" by (simp add: ops old_helmop_def)
  have "map_of (hub_fbs s') (''fleet-default'', ''demo-web'') = map_of (hub_fbs example_chart_hub) (''fleet-default'', ''demo-web'')"
    by (rule chart_bundle_survives [where ops = "\<lambda>s. map_of (hub_ops s)" and fbs = "\<lambda>s. map_of (hub_fbs s)",
          OF hub_render.fleet_client_axioms s' w(3,4)]) (rule none)
  then show ?thesis using s' ops by auto
qed

end
