(* ===== verification/ControllerPass.thy ===== *)
theory ControllerPass
  imports Controller FleetPass
begin

text \<open>
  The properties of whole passes of the controller: what a blueprint pass that reports Ready has done and
  what the phase it shows means, how failures reach the stored object, that nothing is deployed before the
  finalizer is stored, and which workloads a changed object wakes.
\<close>

section \<open>What Running means\<close>

lemma running_cells:
  assumes "buildComponentMatrix fl w keys ds = Inr cells" "phaseFromCells cells = PhaseRunning"
    and "k \<in> set keys" "i \<in> set (expectedIDs w k)"
  shows "applied_in fl ds k i {''Ready'', ''Modified''}"
proof -
  obtain all where all: "ecollect (key_cells fl w ds) keys = Inr all" "set cells = set all"
    using assms(1) by (auto simp: buildComponentMatrix_def split: sum.splits)
  have run: "cell_Phase c = ClusterRunning" if "c \<in> set cells" for c
    using assms(2) that by (auto simp: phaseFromCells_def derivePhase_all list_all_iff split: if_splits)
  obtain cs where cs: "key_cells fl w ds k = Inr cs" "set cs \<subseteq> set cells"
    using ecollect_all_ok [OF all(1) assms(3)] all(2) by auto
  obtain c where "c \<in> set cs" "cell_ClusterID c = i" using key_cells_covers [OF cs(1) assms(4)] by blast
  then show ?thesis using key_cells_running [OF cs(1)] run cs(2) by blast
qed

section \<open>The end of a pass\<close>

lemma cells_shown [simp]:
  "Spec (show_cells now cells w) = Spec w" "wl_CreationTimestamp (show_cells now cells w) = wl_CreationTimestamp w"
  "st_Phase (Status (show_cells now cells w)) =
     guardPhaseTransition now (phaseFromCells cells) (st_Phase (Status w)) (wl_CreationTimestamp w)"
  by (simp_all add: show_cells_def)

lemma certify_keeps:
  assumes "certifyDeployedSource fl now w keys ds = Inr w'"
  shows "Spec w' = Spec w" "st_Phase (Status w') = st_Phase (Status w)"
  using assms unfolding certifyDeployedSource_cases by (auto simp: certify_new_def split: if_splits sum.splits)

lemma report_step:
  assumes "report_pass opr now components keys digests (w, s) = (Inr res, w', s')"
  shows "s' = s \<and> res = result_done \<and> (st_Phase (Status w') = PhaseRunning \<longrightarrow>
    (\<forall>k \<in> set keys. \<forall>i \<in> set (expectedIDs w k). applied_in (opr_Reads opr s) digests k i {''Ready'', ''Modified''}))"
proof -
  obtain cells where cells: "buildComponentMatrix (opr_Reads opr s) w keys digests = Inr cells"
    using assms by (auto simp: report_pass_def split: sum.splits)
  obtain w1 where w1: "certifyDeployedSource (opr_Reads opr s) now (show_cells now cells w) keys digests = Inr w1"
    using assms cells by (auto simp: report_pass_def split: sum.splits)
  obtain b where b: "s' = s" "res = result_done" "w' = setReady ConditionTrue ''Reconciled'' ''Component bundles reconciled''
      (w1\<lparr>Status := (Status w1)\<lparr>Customized := b\<rparr>\<rparr>)"
    using assms cells w1 by (auto simp: report_pass_def split: sum.splits)
  have "st_Phase (Status w') = guardPhaseTransition now (phaseFromCells cells) (st_Phase (Status w)) (wl_CreationTimestamp w)"
    using certify_keeps(2) [OF w1] b(3) by simp
  then show ?thesis using b(1,2) running_cells [OF cells] by (auto simp: guard_cases)
qed

lemma expectedIDs_spec: "Spec w = Spec w' \<Longrightarrow> expectedIDs w k = expectedIDs w' k"
  by (simp add: expectedIDs_def)

context fleet_store begin

lemma collect_step: "ops (snd (collectDesiredHelmOpUIDs f keys s)) = ops s"
proof -
  have "ops (snd (foldl (\<lambda>(uids, s) k. case getHelmOpIn f (k_Namespace k) (k_Name k) s of
        (Inr (Some ho), s1) \<Rightarrow> (uids @ [ho_UID ho], s1) | (_, s1) \<Rightarrow> (uids, s1)) (us, s) keys)) = ops s" for us s
  proof (induction keys arbitrary: us s)
    case (Cons k keys)
    obtain r s1 where g: "getHelmOpIn f (k_Namespace k) (k_Name k) s = (r, s1)" by (cases "getHelmOpIn f (k_Namespace k) (k_Name k) s")
    have "ops s1 = ops s" using helmop_get_step [OF g] by simp
    then show ?case using Cons.IH g by (cases r) (simp_all split: option.split)
  qed simp
  then show ?thesis by (simp add: collectDesiredHelmOpUIDs_def)
qed

end

definition ready_true :: "AIWorkload \<Rightarrow> bool" where
  "ready_true w \<longleftrightarrow> ready_status w = Some ConditionTrue"

lemma failing_not_ready: "\<not> ready_true (failing now reason msg w)"
  by (simp add: ready_true_def ready_status_def failing_def setPhase_def setReady_def setCondition_def)

lemma component_failed_not_ready: "component_failed now c e w = (r, w') \<Longrightarrow> \<not> ready_true w'"
  using failing_not_ready by (auto simp: component_failed_def Let_def split: if_splits)

text \<open>A pass that ends well and ready went all the way.\<close>

lemma ready_pass_parts:
  assumes "reconcileBlueprintStatus opr now (w, s) = (Inr result_done, w', s')" "ready_true w'" "SourceBlueprint (Spec w) = Some src"
  obtains components s1 ds w1 s2 where "opr_Blueprint opr (bpCRName (bps_Name src) (bps_Version src)) s = (Inr components, s1)"
    "ensure_components (opr_Env opr) (filterEnabledComponents w components) Map.empty (w, s1) = (Inr ds, w1, s2)"
    "settle_pass opr now components (filterEnabledComponents w components) ds (w1, s2) = (Inr result_done, w', s')"
proof -
  let ?n = "bpCRName (bps_Name src) (bps_Version src)"
  obtain rb s1 where b: "opr_Blueprint opr ?n s = (rb, s1)" by (cases "opr_Blueprint opr ?n s")
  obtain components where c: "rb = Inr components"
    using assms b failing_not_ready by (cases rb) (auto simp: reconcileBlueprintStatus_def split: if_splits)
  have "FleetBundleNames (Spec w) \<noteq> []"
    using assms b c by (auto simp: reconcileBlueprintStatus_def result_done_def requeue_now_def Let_def split: prod.splits sum.splits)
  then have d: "deploy_pass opr now components (w, s1) = (Inr result_done, w', s')"
    using assms b c by (simp add: reconcileBlueprintStatus_def)
  obtain re w1 s2 where e: "ensure_components (opr_Env opr) (filterEnabledComponents w components) Map.empty (w, s1) = (re, w1, s2)"
    by (metis prod_cases3)
  show ?thesis
  proof (cases re)
    case (Inl x)
    then show ?thesis using d e assms(2) component_failed_not_ready
      by (cases x) (auto simp: deploy_pass_def Let_def split: prod.splits)
  next
    case (Inr ds)
    then show ?thesis using that b c d e by (simp add: deploy_pass_def Let_def)
  qed
qed

lemma remove_stale_status: "remove_stale_in en (w\<lparr>Status := st\<rparr>) = remove_stale_in en w"
  by (intro ext) (simp add: remove_stale_in_def)

lemma settle_parts:
  assumes "settle_pass opr now components enabled ds (w, s) = (Inr res, w', s')"
  obtains s1 uids s2 w2 where "cleanupStaleHelmOps (opr_Env opr) (w\<lparr>Status := (Status w)\<lparr>ObservedGeneration := wl_Generation w\<rparr>\<rparr>)
      (workload_keys w enabled) s = (Inr (), s1)"
    "collectDesiredHelmOpUIDs (en_Fleet (opr_Env opr)) (workload_keys w enabled) s1 = (uids, s2)" "same_main w w2"
    "report_pass opr now components (workload_keys w enabled) ds (w2, s2) = (Inr res, w', s')"
proof -
  let ?w1 = "w\<lparr>Status := (Status w)\<lparr>ObservedGeneration := wl_Generation w\<rparr>\<rparr>" and ?k = "workload_keys w enabled"
  have k: "workload_keys ?w1 enabled = ?k" by (simp add: workload_keys_def)
  obtain rc s1 where c: "cleanupStaleHelmOps (opr_Env opr) ?w1 ?k s = (rc, s1)" by (cases "cleanupStaleHelmOps (opr_Env opr) ?w1 ?k s")
  obtain uids s2 where u: "collectDesiredHelmOpUIDs (en_Fleet (opr_Env opr)) ?k s1 = (uids, s2)"
    by (cases "collectDesiredHelmOpUIDs (en_Fleet (opr_Env opr)) ?k s1")
  have rc: "rc = Inr ()" using assms c by (cases rc) (simp_all add: settle_pass_def Let_def k)
  define w2 where "w2 = ?w1\<lparr>Status := (Status ?w1)\<lparr>RenderBaselines := pruneRenderBaselines (RenderBaselines (Status ?w1)) (\<lambda>x. x \<in> set uids)\<rparr>\<rparr>"
  have "report_pass opr now components ?k ds (w2, s2) = (Inr res, w', s')"
    using assms c u rc by (simp add: settle_pass_def Let_def k w2_def)
  moreover have "same_main w w2" by (auto simp: w2_def same_main_def)
  ultimately show ?thesis using that c rc u by blast
qed


section \<open>A pass on the in-memory cluster\<close>

text \<open>Fleet has seen none of the objects yet: no Bundles, no deployments, and nothing to sync.\<close>

definition no_fleet :: "hub \<Rightarrow> fleet_reader" where
  "no_fleet s = \<lparr>fl_bundle = (\<lambda>_ _. Inl not_found), fl_deployments = (\<lambda>_ _. Inr []), fl_helmop = (\<lambda>_ _. Inl not_found)\<rparr>"

definition hub_get :: "(hub, AIWorkload) act" where
  "hub_get = hub_call (\<lambda>s. (case hub_workload s of None \<Rightarrow> Inl not_found | Some w \<Rightarrow> Inr w, s))"

definition hub_operator :: "BlueprintComponent list \<Rightarrow> hub Operator" where
  "hub_operator components = \<lparr>opr_Ctl = hub_ctl example_repos True no_releases,
     opr_Blueprint = (\<lambda>n. hub_call (\<lambda>s. (if n = bpCRName ''rag'' ''1.0'' then Inr components else Inl not_found, s))),
     opr_Get = hub_get, opr_Reads = no_fleet, opr_Sync = (\<lambda>_ _. Inr [])\<rparr>"

lemma hub_operator_simps [simp]:
  "opr_Ctl (hub_operator cs) = hub_ctl example_repos True no_releases" "opr_Get (hub_operator cs) = hub_get"
  "opr_Reads (hub_operator cs) = no_fleet" "ct_Env (hub_ctl repos token helm) = hub_env repos token"
  "ct_Update (hub_ctl repos token helm) = hub_update" "ct_Status (hub_ctl repos token helm) = hub_status_update"
  "en_Fleet (hub_env repos token) = hub_fleet"
  by (simp_all add: hub_operator_def hub_ctl_def ct_Update_def hub_env_def hub_git_env_def)

lemma no_fleet_phase: "missing_phase (no_fleet s) w k d None = Inr ClusterPending"
  by (simp add: missing_phase_def Rollout.getHelmOpIn_def absent_ok_def no_fleet_def not_found_def)

lemma no_fleet_matrix: "\<exists>cells. buildComponentMatrix (no_fleet s) w keys ds = Inr cells"
proof -
  have m: "\<exists>ms. missing_cells (no_fleet s) w k d None ids = Inr ms" for k d ids
    unfolding missing_cells_def no_fleet_phase by (induction ids) auto
  have "\<exists>cs. key_cells (no_fleet s) w ds k = Inr cs" for k
    using m [of k "digest_of ds k" "missing_ids w k []"]
    by (auto simp: key_cells_def getBundle_def absent_ok_def not_found_def no_fleet_def live_def Let_def)
  then have "\<exists>cs. ecollect (key_cells (no_fleet s) w ds) keys = Inr cs"
    by (induction keys) (auto, metis sum.case(2))
  then show ?thesis by (auto simp: buildComponentMatrix_def)
qed

lemma no_fleet_certify: "certifyDeployedSource (no_fleet s) now w keys ds = Inr w"
proof (cases keys)
  case (Cons k ks)
  have "\<not> all_rolled_out (no_fleet s) ds (k # ks)" by (auto simp: all_rolled_out_def no_fleet_def)
  moreover have "certify_entries (no_fleet s) ds (k # ks) = Inr None"
    by (simp add: no_fleet_def getBundle_def absent_ok_def not_found_def bundleCertified_def bundleRenderCurrent_def)
  ultimately show ?thesis using Cons by (simp only: certifyDeployedSource_cases) simp
qed (simp add: certifyDeployedSource_cases)

lemma web_not_customized: "Spec w = Spec example_mixed \<Longrightarrow> isWorkloadCustomized merge w (Some [example_web]) = Inr False"
  by (simp add: isWorkloadCustomized_def isComponentEnabled_def resolveComponentValues_def example_mixed_def example_defs example_web_def map_len_def)

lemma hub_report:
  assumes "Spec w = Spec example_mixed"
  shows "\<exists>w'. report_pass (hub_operator cs) now [example_web] keys ds (w, s) = (Inr result_done, w', s) \<and> ready_true w'"
proof -
  obtain cells where c: "buildComponentMatrix (no_fleet s) w keys ds = Inr cells" using no_fleet_matrix by blast
  show ?thesis using assms
    by (simp add: report_pass_def c no_fleet_certify web_not_customized ready_true_def ready_status_def setReady_def setCondition_def)
qed

lemma hub_collect: "\<exists>uids s'. collectDesiredHelmOpUIDs hub_fleet keys s = (uids, s')"
  by (metis surj_pair)

lemma example_passes:
  "\<exists>w' s'. reconcileBlueprintStatus (hub_operator [example_web]) now (example_mixed, example_hub) = (Inr result_done, w', s')
    \<and> ready_true w'"
proof -
  let ?opr = "hub_operator [example_web]"
  have q: "quiet example_hub" by (simp add: quiet_def example_hub_def)
  have bp: "opr_Blueprint ?opr (bpCRName ''rag'' ''1.0'') example_hub = (Inr [example_web], example_hub)"
    by (simp add: hub_operator_def hub_call_quiet [OF q])
  have f: "filterEnabledComponents example_mixed [example_web] = [example_web]"
    by (simp add: filterEnabledComponents_def isComponentEnabled_def example_mixed_def example_defs)
  obtain ds w1 s1 s2 where p: "ensure_components (hub_env example_repos True) [example_web] Map.empty (example_mixed, example_hub) = (Inr ds, w1, s1)"
      "cleanupStaleHelmOps (hub_env example_repos True) w1 (workload_keys w1 [example_web]) s1 = (Inr (), s2)"
    using example_pass by blast
  have sm: "same_main example_mixed w1"
    by (rule conjunct1 [OF fleet_client.components_step [OF hub_render.fleet_client_axioms p(1)], rotated -1])
      (simp_all add: example_mixed_def example_defs)
  have k: "workload_keys (w1\<lparr>Status := st\<rparr>) [example_web] = workload_keys w1 [example_web]" for st by (simp add: workload_keys_def)
  have c: "cleanupStaleHelmOps (hub_env example_repos True) (w1\<lparr>Status := st\<rparr>) (workload_keys w1 [example_web]) s1 = (Inr (), s2)" for st
    using p(2) by (simp add: cleanupStaleHelmOps_def remove_stale_status)
  obtain uids s3 where u: "collectDesiredHelmOpUIDs hub_fleet (workload_keys w1 [example_web]) s2 = (uids, s3)"
    by (metis surj_pair)
  have sp: "Spec (w1\<lparr>Status := st\<rparr>) = Spec example_mixed" for st using same_main_fields(1) [OF sm] by simp
  have "\<exists>w' s'. settle_pass ?opr now [example_web] [example_web] ds (w1, s1) = (Inr result_done, w', s') \<and> ready_true w'"
    using hub_report [OF sp, of "[example_web]" now "workload_keys w1 [example_web]" ds _ s3]
    by (simp add: settle_pass_def Let_def k c u) blast
  then have "\<exists>w' s'. deploy_pass ?opr now [example_web] (example_mixed, example_hub) = (Inr result_done, w', s') \<and> ready_true w'"
    using p(1) unfolding deploy_pass_def Let_def by (simp del: ensure_components.simps add: f)
  moreover have "SourceBlueprint (Spec example_mixed) = Some \<lparr>bps_Name = ''rag'', bps_Version = ''1.0''\<rparr>"
      "FleetBundleNames (Spec example_mixed) \<noteq> []"
    by (simp_all add: example_mixed_def example_defs)
  ultimately show ?thesis using bp by (simp add: reconcileBlueprintStatus_def)
qed


section \<open>No effects without the finalizer\<close>

text \<open>
  C16. Whatever a call of \<open>Reconcile\<close> changes beyond the workload object itself, be it HelmOps, Bundles, git
  branches, releases or secrets, the object it read was already being deleted or already carried the
  finalizer; so that nothing is deployed that the deletion path would not get to see.
\<close>

theorem finalizer_first:
  assumes "leaves obs (opr_Get opr)" "\<forall>w. leaves obs (ct_Update (opr_Ctl opr) w)"
    and "Reconcile opr now s = (r, s')" "obs s' \<noteq> obs s"
  shows "\<exists>w s1. opr_Get opr s = (Inr w, s1) \<and> (wl_Deleting w \<or> aiWorkloadFinalizer \<in> set (wl_Finalizers w))"
proof (rule ccontr)
  assume n: "\<not> ?thesis"
  obtain rg s1 where g: "opr_Get opr s = (rg, s1)" by (cases "opr_Get opr s")
  have o: "obs s1 = obs s" using leavesD [OF assms(1) g] .
  show False
  proof (cases rg)
    case (Inl e)
    then have "s' = s1" using assms(3) g by (simp add: Reconcile_def split: if_splits)
    then show False using assms(4) o by simp
  next
    case (Inr w)
    then have w: "\<not> wl_Deleting w" "aiWorkloadFinalizer \<notin> set (wl_Finalizers w)" using n g by auto
    obtain ru s2 where u: "ct_Update (opr_Ctl opr) (add_finalizer w) s1 = (ru, s2)" by (cases "ct_Update (opr_Ctl opr) (add_finalizer w) s1")
    have "s' = s2" using assms(3) g u w Inr by (cases ru) (simp_all add: Reconcile_def bnd_def ret_def)
    then show False using assms(4) o leavesD [OF assms(2) [rule_format] u] by simp
  qed
qed

theorem finalizer_first_witness:
  "\<exists>w s1 r s'. Reconcile (hub_operator [example_web]) 0 example_dying_hub = (r, s')
    \<and> map_of (hub_ops s') (''fleet-default'', ''demo-web'') = None
    \<and> hub_get example_dying_hub = (Inr w, s1) \<and> (wl_Deleting w \<or> aiWorkloadFinalizer \<in> set (wl_Finalizers w))"
proof -
  let ?opr = "hub_operator [example_web]" and ?s = example_dying_hub
  let ?obs = "\<lambda>s. map_of (hub_ops s) (''fleet-default'', ''demo-web'')"
  have q: "quiet ?s" by (simp add: quiet_def example_dying_hub_def example_hub_def)
  have g: "hub_get ?s = (Inr example_dying, ?s)" unfolding hub_get_def hub_call_quiet [OF q] by (simp add: example_dying_hub_def)
  obtain w' s' where h: "handleDeletion (hub_ctl example_repos True no_releases) (example_dying, ?s) = (Inr result_done, w', s')"
      "?obs s' = None"
    using example_deleted by blast
  have "wl_Deleting example_dying" by (simp add: example_dying_def)
  then have r: "Reconcile ?opr 0 ?s = (Inr result_done, s')" using g h(1) by (simp add: Reconcile_def)
  have lv: "leaves ?obs (opr_Get ?opr)" "\<forall>w. leaves ?obs (ct_Update (opr_Ctl ?opr) w)"
    by (auto simp: hub_get_def hub_update_def hub_write_def intro!: hub_call_leaves split: option.split)
  have "?obs s' \<noteq> ?obs ?s" using h(2) by (simp add: example_dying_hub_def old_helmop_def)
  then obtain w s1 where "opr_Get ?opr ?s = (Inr w, s1)" "wl_Deleting w \<or> aiWorkloadFinalizer \<in> set (wl_Finalizers w)"
    using finalizer_first [OF lv r] by blast
  then show ?thesis using r h(2) by (metis hub_operator_simps(2))
qed

section \<open>Failures are reported and retried\<close>

definition retried :: "err + Result \<Rightarrow> bool" where
  "retried r \<longleftrightarrow> isl r \<or> (\<exists>n \<ge> 30 * int second. r = Inr (requeue_after n))"

lemma component_failed_cases:
  assumes "component_failed now c e w = (r, w')"
  obtains reason msg where "w' = failing now reason msg w" "err_is e = SChartTooLarge \<and> r = Inr result_done \<or> err_is e \<noteq> SChartTooLarge \<and> retried r"
  using assms by (auto simp: component_failed_def Let_def retried_def second_def requeue_after_def split: if_splits)

lemma persist_retried:
  assumes "retried r" "persist opr now r w s = (r', s')"
  shows "s' = snd (ct_Status (opr_Ctl opr) (projectOperation w) s)
    \<and> (retried r' \<or> (\<exists>e. fst (ct_Status (opr_Ctl opr) (projectOperation w) s) = Inl e \<and> err_is e = SNotFound))"
proof -
  have t: "\<not> terminal r" using assms(1) by (auto simp: retried_def terminal_def requeue_after_def second_def isl_def)
  obtain rs s1 where st: "ct_Status (opr_Ctl opr) (projectOperation w) s = (rs, s1)" by (cases "ct_Status (opr_Ctl opr) (projectOperation w) s")
  show ?thesis
    using assms t st
    by (cases rs; cases r) (auto simp: persist_def Let_def retried_def second_def requeue_after_def split: if_splits)
qed

text \<open>
  When a component of a blueprint cannot be deployed, the pass writes Ready False and the phase Failed
  (Pending while the workload is new) to the status it then stores. Unless the chart is too large, which no
  retry would change, that write is all the pass still does: no operation is closed, no pull secret delivered,
  and the reconciliation ends with an error or a requeue of at least 30 seconds, or the object is gone.
\<close>

theorem component_failure_reported:
  assumes "ensure_components (opr_Env opr) (filterEnabledComponents w components) Map.empty (w, s) = (Inl (ComponentError c e), w1, s1)"
    and "deploy_pass opr now components (w, s) = (r, w', s2)" "persist opr now r w' s2 = (r', s')"
  shows "ready_status w' = Some ConditionFalse \<and> st_Phase (Status w') \<in> {PhaseFailed, PhasePending}
    \<and> (st_Phase (Status w') = PhasePending \<longrightarrow> since now (Some (wl_CreationTimestamp w1)) < 5 * 60 * 1000000000)
    \<and> (err_is e \<noteq> SChartTooLarge \<longrightarrow> s' = snd (ct_Status (opr_Ctl opr) (projectOperation w') s1)
        \<and> (retried r' \<or> (\<exists>e. fst (ct_Status (opr_Ctl opr) (projectOperation w') s1) = Inl e \<and> err_is e = SNotFound)))"
proof -
  have d: "component_failed now c e w1 = (r, w')" "s2 = s1"
    using assms(1,2) by (auto simp: deploy_pass_def Let_def split: prod.splits)
  obtain reason msg where m: "w' = failing now reason msg w1"
      "err_is e = SChartTooLarge \<and> r = Inr result_done \<or> err_is e \<noteq> SChartTooLarge \<and> retried r"
    using component_failed_cases [OF d(1)] .
  have "ready_status w' = Some ConditionFalse"
    by (simp add: m(1) ready_status_def failing_def setPhase_def setReady_def setCondition_def)
  moreover have "st_Phase (Status w') = guardPhaseTransition now PhaseFailed (st_Phase (Status w1)) (wl_CreationTimestamp w1)"
    by (simp add: m(1) failing_def setPhase_def)
  moreover have "err_is e \<noteq> SChartTooLarge \<longrightarrow> s' = snd (ct_Status (opr_Ctl opr) (projectOperation w') s1)
        \<and> (retried r' \<or> (\<exists>e. fst (ct_Status (opr_Ctl opr) (projectOperation w') s1) = Inl e \<and> err_is e = SNotFound))"
    using m(2) persist_retried [OF _ assms(3)] d(2) by auto
  ultimately show ?thesis by (auto simp: guardPhaseTransition_def initialDeployGracePeriod_def second_def)
qed

definition example_lost :: BlueprintComponent where
  "example_lost = example_web\<lparr>bc_ChartRepo := ''gone''\<rparr>"

theorem component_failure_reported_witness:
  "\<exists>r w' s2 r' s'. deploy_pass (hub_operator [example_lost]) 0 [example_lost] (example_mixed, example_hub) = (r, w', s2)
    \<and> persist (hub_operator [example_lost]) 0 r w' s2 = (r', s') \<and> ready_status w' = Some ConditionFalse
    \<and> st_Phase (Status w') = PhasePending \<and> (retried r' \<or> hub_workload s2 = None)"
proof -
  let ?opr = "hub_operator [example_lost]" and ?e = "wrap_err ''resolve repo gone'' (Err SClusterRepoNotReady ''get ClusterRepo gone'')"
  have f: "filterEnabledComponents example_mixed [example_lost] = [example_lost]"
    by (simp add: filterEnabledComponents_def isComponentEnabled_def example_mixed_def example_defs)
  have r: "en_Repo (opr_Env ?opr) ''gone'' = Inl not_found" by (simp add: hub_env_def example_repos_def)
  have e: "ensure_components (opr_Env ?opr) (filterEnabledComponents example_mixed [example_lost]) Map.empty (example_mixed, example_hub)
      = (Inl (ComponentError example_lost ?e), example_mixed, example_hub)"
    unfolding f using r
    by (simp add: deploy_component_def ensureBlueprintHelmOp_def resolveClusterRepo_def not_found_def example_lost_def example_web_def
        example_mixed_def example_defs Let_def)
  obtain r w' s2 where d: "deploy_pass ?opr 0 [example_lost] (example_mixed, example_hub) = (r, w', s2)" by (metis prod_cases3)
  obtain r' s' where p: "persist ?opr 0 r w' s2 = (r', s')" by (metis surj_pair)
  note rep = component_failure_reported [OF e d p]
  have "err_is ?e \<noteq> SChartTooLarge" by simp
  moreover have "s2 = example_hub" using d e by (auto simp: deploy_pass_def Let_def split: prod.splits)
  moreover have "\<not> (fst (hub_status_update w example_hub) = Inl e \<and> err_is e = SNotFound)" for w e
    by (simp add: hub_status_update_def hub_write_def hub_call_def example_hub_def)
  ultimately have "retried r'" using rep by auto
  moreover have "st_Phase (Status w') = PhasePending"
    using d e by (auto simp: deploy_pass_def component_failed_def failing_def setPhase_def guardPhaseTransition_def Let_def
        initialDeployGracePeriod_def second_def example_mixed_def example_defs split: prod.splits if_splits)
  ultimately show ?thesis using d p rep by blast
qed

section \<open>Whom a change wakes\<close>

lemma requested: "k \<in> set (requests_where p (Inr ws)) \<longleftrightarrow> (\<exists>w \<in> set ws. p w \<and> k = key_of w)"
  by (auto simp: requests_where_def)

lemma not_by_name:
  assumes "w \<in> set ws" "distinct (map key_of ws)" "name \<notin> set (FleetBundleNames (Spec w))"
  shows "key_of w \<notin> set (workloadsWithFleetBundle (Inr ws) name)"
  using assms by (auto simp: workloadsWithFleetBundle_def requested distinct_map dest: inj_onD)

lemma find_the_workload:
  assumes "w \<in> set ws" "distinct (map f ws)"
  shows "find (\<lambda>x. f x = f w) ws = Some w"
  using assms by (induction ws) (auto simp: rev_image_eqI)

text \<open>
  A changed Bundle that carries the label of a workload wakes that workload, and it alone. But HelmOps and
  BundleDeployments are mapped through the recorded names only: those of a component that a later version of
  the blueprint added wake no reconciliation of their workload, however they are labelled.
\<close>

theorem changes_that_wake:
  assumes "w \<in> set ws" "distinct (map wl_UID ws)" "distinct (map key_of ws)" "wl_UID w \<noteq> ''''"
    and "mget labels workloadUIDLabel = wl_UID w" "name \<notin> set (FleetBundleNames (Spec w))"
  shows "bundleToAIWorkloads (Inr ws) name labels = [key_of w]
    \<and> key_of w \<notin> set (helmOpToAIWorkloads (Inr ws) name)
    \<and> (mget labels ''fleet.cattle.io/bundle-name'' = name \<longrightarrow> key_of w \<notin> set (bundleDeploymentToAIWorkloads (Inr ws) labels))"
  using assms not_by_name [OF assms(1,3)] find_the_workload [OF assms(1,2)]
  by (simp add: bundleToAIWorkloads_def helmOpToAIWorkloads_def bundleDeploymentToAIWorkloads_def Let_def)

theorem changes_that_wake_witness:
  "bundleToAIWorkloads (Inr [example_mixed]) ''demo-extra'' [workloadUIDLabel \<mapsto> ''u1''] = [(''default'', ''demo'')]
    \<and> helmOpToAIWorkloads (Inr [example_mixed]) ''demo-extra'' = []"
proof -
  have w: "wl_UID example_mixed = ''u1''" "key_of example_mixed = (''default'', ''demo'')"
      "FleetBundleNames (Spec example_mixed) = [''demo-web'']"
    by (simp_all add: example_mixed_def example_defs key_of_def)
  show ?thesis
    using changes_that_wake [of example_mixed "[example_mixed]" "[workloadUIDLabel \<mapsto> ''u1'']" "''demo-extra''"] w
    by (simp add: mget_def helmOpToAIWorkloads_def workloadsWithFleetBundle_def requests_where_def)
qed

end
