(* ===== verification/GoUrl.thy ===== *)
theory GoUrl
  imports GoNumbers GoStrings
begin

text \<open>
  \<open>url.Parse\<close> of Go's \<open>net/url\<close>, as far as the operator reads its result: the scheme, the host with its
  port, the path, and whether there is an error. The text of the error is not modelled, and of a bracketed
  IPv6 host only the brackets, the port and the escapes are checked. \<open>path.Base\<close> and the case folding of
  \<open>strings.EqualFold\<close> on ASCII are here too.
\<close>

section \<open>Escapes\<close>

definition lower_hex :: "char \<Rightarrow> char" where
  "lower_hex c = (if c \<in> set ''ABCDEF'' then char_of (of_char c + (32::nat)) else c)"

definition unhex :: "char \<Rightarrow> nat option" where
  "unhex c = index_byte ''0123456789abcdef'' (lower_hex c)"

datatype encoding = EncodePath | EncodeHost | EncodeUserPassword

text \<open>A byte that a host may not hold unescaped (\<open>shouldEscape\<close> in the mode of hosts).\<close>

definition host_char :: "char \<Rightarrow> bool" where
  "host_char c \<longleftrightarrow> c \<in> set ''ABCDEFGHIJKLMNOPQRSTUVWXYZabcdefghijklmnopqrstuvwxyz0123456789-_.~!$&()*+,;=:[]<>''
     \<or> c = CHR 0x27 \<or> c = CHR 0x22"

definition ascii :: "char \<Rightarrow> bool" where "ascii c \<longleftrightarrow> of_char c < (128::nat)"

text \<open>\<open>unescape\<close>: \<open>None\<close> for a malformed escape or a byte the mode does not allow.\<close>

fun unescape :: "encoding \<Rightarrow> string \<Rightarrow> string option" where
  "unescape mode [] = Some []"
| "unescape mode (c # s) =
     (if c = CHR ''%'' then
        (case s of
           a # b # r \<Rightarrow>
             (case (unhex a, unhex b) of
                (Some x, Some y) \<Rightarrow>
                  if mode = EncodeHost \<and> x < 8 \<and> [a, b] \<noteq> ''25'' then None
                  else map_option (Cons (char_of (16 * x + y))) (unescape mode r)
              | _ \<Rightarrow> None)
         | _ \<Rightarrow> None)
      else if mode = EncodeHost \<and> ascii c \<and> \<not> host_char c then None
      else map_option (Cons c) (unescape mode s))"

section \<open>The parts\<close>

record URL =
  u_Scheme :: string
  u_Host :: string
  u_Path :: string

definition letter :: "char \<Rightarrow> bool" where
  "letter c \<longleftrightarrow> c \<in> set ''ABCDEFGHIJKLMNOPQRSTUVWXYZabcdefghijklmnopqrstuvwxyz''"

text \<open>\<open>getScheme\<close>: \<open>None\<close> is the missing protocol scheme; the flag says that the first byte is read.\<close>

fun scheme_from :: "bool \<Rightarrow> string \<Rightarrow> (string \<times> string) option option" where
  "scheme_from first [] = Some None"
| "scheme_from first (c # s) =
     (if letter c \<or> (\<not> first \<and> (is_digit c \<or> c \<in> set ''+-.'')) then
        map_option (map_option (\<lambda>(a, b). (c # a, b))) (scheme_from False s)
      else if c = CHR '':'' then (if first then None else Some (Some ([], s)))
      else Some None)"

definition getScheme :: "string \<Rightarrow> (string \<times> string) option" where
  "getScheme raw = (case scheme_from True raw of None \<Rightarrow> None | Some None \<Rightarrow> Some ('''', raw) | Some (Some p) \<Rightarrow> Some p)"

definition before :: "char \<Rightarrow> string \<Rightarrow> string" where "before c s = takeWhile (\<lambda>x. x \<noteq> c) s"

definition from_first :: "char \<Rightarrow> string \<Rightarrow> string" where "from_first c s = dropWhile (\<lambda>x. x \<noteq> c) s"

text \<open>The part after the last \<open>c\<close>, and the part from it on; \<open>None\<close> without one.\<close>

definition after_last :: "char \<Rightarrow> string \<Rightarrow> string option" where
  "after_last c s = (if c \<in> set s then Some (rev (before c (rev s))) else None)"

definition validOptionalPort :: "string \<Rightarrow> bool" where
  "validOptionalPort port \<longleftrightarrow> port = '''' \<or> (hd port = CHR '':'' \<and> list_all is_digit (tl port))"

definition parseHost :: "string \<Rightarrow> string option" where
  "parseHost host =
     (if has_prefix host ''['' then
        (case after_last CHR '']'' host of
           None \<Rightarrow> None
         | Some port \<Rightarrow> if validOptionalPort port then unescape EncodeHost host else None)
      else
        (case after_last CHR '':'' host of
           None \<Rightarrow> unescape EncodeHost host
         | Some port \<Rightarrow> if list_all is_digit port then unescape EncodeHost host else None))"

definition validUserinfo :: "string \<Rightarrow> bool" where
  "validUserinfo s \<longleftrightarrow> list_all (\<lambda>c. letter c \<or> is_digit c \<or> c \<in> set ''-._:~!$&()*+,;=%@'' \<or> c = CHR 0x27) s"

definition parseAuthority :: "string \<Rightarrow> string option" where
  "parseAuthority authority =
     (case after_last CHR ''@'' authority of
        None \<Rightarrow> parseHost authority
      | Some host \<Rightarrow>
          (case parseHost host of
             None \<Rightarrow> None
           | Some h \<Rightarrow>
               let user = take (length authority - length host - 1) authority
               in if validUserinfo user \<and> unescape EncodeUserPassword user \<noteq> None then Some h else None))"

definition control_byte :: "char \<Rightarrow> bool" where
  "control_byte c \<longleftrightarrow> of_char c < (32::nat) \<or> of_char c = (127::nat)"

definition with_path :: "string \<Rightarrow> string \<Rightarrow> string \<Rightarrow> URL option" where
  "with_path scheme host rest = map_option (\<lambda>p. \<lparr>u_Scheme = scheme, u_Host = host, u_Path = p\<rparr>) (unescape EncodePath rest)"

definition parse_hierarchy :: "string \<Rightarrow> string \<Rightarrow> URL option" where
  "parse_hierarchy scheme rest =
     (if \<not> has_prefix rest ''/'' \<and> scheme \<noteq> '''' then Some \<lparr>u_Scheme = scheme, u_Host = '''', u_Path = ''''\<rparr>
      else if \<not> has_prefix rest ''/'' \<and> CHR '':'' \<in> set (before CHR ''/'' rest) then None
      else if (scheme \<noteq> '''' \<or> \<not> has_prefix rest ''///'') \<and> has_prefix rest ''//'' then
        (case parseAuthority (before CHR ''/'' (drop 2 rest)) of
           None \<Rightarrow> None
         | Some host \<Rightarrow> with_path scheme host (from_first CHR ''/'' (drop 2 rest)))
      else with_path scheme '''' rest)"

definition url_Parse :: "string \<Rightarrow> URL option" where
  "url_Parse raw =
     (let u = before CHR ''#'' raw
      in if list_ex control_byte u then None
         else if unescape EncodePath (drop (Suc (length u)) raw) = None then None
         else if u = ''*'' then Some \<lparr>u_Scheme = '''', u_Host = '''', u_Path = ''*''\<rparr>
         else (case getScheme u of
                 None \<Rightarrow> None
               | Some (scheme, rest) \<Rightarrow> parse_hierarchy (map lower_ascii scheme) (before CHR ''?'' rest)))"

text \<open>\<open>Hostname\<close>: the host without a port and without brackets.\<close>

definition strip_port :: "string \<Rightarrow> string" where
  "strip_port host =
     (case after_last CHR '':'' host of
        None \<Rightarrow> host
      | Some port \<Rightarrow> if list_all is_digit port then take (length host - length port - 1) host else host)"

definition Hostname :: "URL \<Rightarrow> string" where
  "Hostname u =
     (let h = strip_port (u_Host u)
      in if has_prefix h ''['' \<and> has_suffix h '']'' then butlast (tl h) else h)"

section \<open>Paths and case\<close>

definition path_Base :: "string \<Rightarrow> string" where
  "path_Base p =
     (if p = '''' then ''.''
      else let q = trim_right CHR ''/'' p
           in if q = '''' then ''/'' else (case after_last CHR ''/'' q of None \<Rightarrow> q | Some b \<Rightarrow> b))"

definition EqualFold :: "string \<Rightarrow> string \<Rightarrow> bool" where
  "EqualFold a b \<longleftrightarrow> map lower_ascii a = map lower_ascii b"

section \<open>Laws\<close>

lemma before_append: "c \<notin> set a \<Longrightarrow> before c (a @ c # b) = a"
  by (simp add: before_def takeWhile_append)

lemma before_none: "c \<notin> set a \<Longrightarrow> before c a = a"
  by (auto simp: before_def takeWhile_eq_all_conv)

lemma from_first_append: "c \<notin> set a \<Longrightarrow> from_first c (a @ c # b) = c # b"
  by (simp add: from_first_def dropWhile_append)

lemma from_first_none: "c \<notin> set a \<Longrightarrow> from_first c a = []"
  by (auto simp: from_first_def)

lemma after_last_none [simp]: "after_last c s = None \<longleftrightarrow> c \<notin> set s"
  by (simp add: after_last_def)

lemma after_last_append: "c \<notin> set b \<Longrightarrow> after_last c (a @ c # b) = Some b"
  by (simp add: after_last_def before_append)

text \<open>A name of a host or of a path segment: no byte that is special anywhere in a URL.\<close>

definition plain_name :: "string \<Rightarrow> bool" where
  "plain_name s \<longleftrightarrow> list_all (\<lambda>c. letter c \<or> is_digit c \<or> c \<in> set ''-._~'') s"

lemma plain_chars:
  assumes "plain_name s"
  shows "CHR ''%'' \<notin> set s" "CHR ''/'' \<notin> set s" "CHR ''#'' \<notin> set s" "CHR ''?'' \<notin> set s" "CHR '':'' \<notin> set s" "CHR ''@'' \<notin> set s"
    "CHR ''['' \<notin> set s"
  using assms [unfolded plain_name_def list_all_iff] by (fastforce simp: letter_def is_digit_def)+

lemma unescape_plain:
  assumes "CHR ''%'' \<notin> set s" "mode = EncodeHost \<Longrightarrow> list_all (\<lambda>c. ascii c \<longrightarrow> host_char c) s"
  shows "unescape mode s = Some s"
  using assms by (induction s) auto

end
