(* ===== verification/HelmEngine.thy ===== *)
theory HelmEngine
  imports GoUrl Values Operations
begin

text \<open>
  The Helm engine (\<open>internal/infra/helm\<close>: \<open>action.go\<close>, \<open>convergence.go\<close>, \<open>chart\_cache.go\<close>, \<open>chart.go\<close>,
  \<open>tls.go\<close>, \<open>client.go\<close>). It brings a release to what a spec asks for, with as few chart pulls as it can. The
  Helm library and the registry are parameters; the memory of the client (verdicts, downloaded archives,
  the gauge and the pull counter) is part of the state. Values come from JSON, so that encoding them never
  fails. Locks and log lines are not modelled; the clock stands still during a call.
\<close>

section \<open>Data\<close>

record ReleaseInfo =
  rl_ChartName :: string
  rl_Version :: string
  rl_Values :: "jmap option"
  rl_Status :: string
  rl_Revision :: int

text \<open>A release of the library, with the name and version in the metadata of its chart.\<close>

record HelmRelease =
  hrel_Config :: "jmap option"
  hrel_Version :: int
  hrel_Chart :: "(string \<times> string) option"
  hrel_Status :: "string option"
  hrel_Manifest :: string

record RegistryAuth =
  ra_Username :: string
  ra_Password :: string

record TLSConfig =
  tls_InsecureSkipVerify :: bool
  tls_RootCAs :: "string option"
  tls_Certificates :: "(string \<times> string) option"

record ReleaseSpec =
  rs_Name :: string
  rs_Namespace :: string
  rs_ChartRef :: string
  rs_RepoURL :: string
  rs_Version :: string
  rs_Values :: "jmap option"
  rs_RegistryAuth :: "RegistryAuth option"
  rs_TLSConfig :: "TLSConfig option"

text \<open>A chart that was parsed: its archive or the files of its directory, and the version of its metadata.\<close>

record HelmChart =
  hc_Archive :: string
  hc_Version :: string

datatype RegistryLogin =
    SharedRegistry
  | FreshRegistry "RegistryAuth option" "TLSConfig option"

record 's HelmLib =
  lib_IsPending :: "string \<Rightarrow> bool"
  lib_Init :: "string \<Rightarrow> ('s, unit) act"
  lib_Last :: "string \<Rightarrow> ('s, HelmRelease) act"
  lib_Deployed :: "string \<Rightarrow> ('s, HelmRelease) act"
  lib_NewRegistry :: "RegistryAuth option \<Rightarrow> TLSConfig option \<Rightarrow> err + unit"
  lib_LocateChart :: "RegistryLogin \<Rightarrow> RegistryAuth option \<Rightarrow> string \<Rightarrow> string \<Rightarrow> string \<Rightarrow> ('s, string) act"
  lib_ReadFile :: "string \<Rightarrow> ('s, string) act"
  lib_LoadDir :: "string \<Rightarrow> ('s, HelmChart) act"
  lib_LoadArchive :: "string \<Rightarrow> err + HelmChart"
  lib_CheckDependencies :: "HelmChart \<Rightarrow> err + unit"
  lib_Get :: "string \<Rightarrow> RegistryAuth option \<Rightarrow> TLSConfig \<Rightarrow> ('s, string) act"
  lib_Install :: "ReleaseSpec \<Rightarrow> HelmChart \<Rightarrow> ('s, unit) act"
  lib_Upgrade :: "ReleaseSpec \<Rightarrow> HelmChart \<Rightarrow> ('s, unit) act"
  lib_DryRun :: "ReleaseSpec \<Rightarrow> HelmChart \<Rightarrow> ('s, string) act"
  lib_Uninstall :: "string \<Rightarrow> ('s, unit) act"

section \<open>The memory of the client\<close>

record convergedAt =
  at_Revision :: int
  at_Spec :: string
  at_ProvenAt :: nat
  at_Deployed :: string

record cachedArchive =
  ca_Archive :: string
  ca_At :: nat

text \<open>\<open>pulled\<close> and \<open>hits\<close> list the specs the two counters were raised for.\<close>

record helm_mem =
  converged :: "string \<Rightarrow> convergedAt option"
  charts :: "string \<Rightarrow> cachedArchive option"
  unconverged :: "string \<Rightarrow> nat option"
  pulled :: "ReleaseSpec list"
  hits :: "ReleaseSpec list"

type_synonym ('s, 'a) helm_act = "('s \<times> helm_mem, 'a) act"

definition on_lib :: "('s, 'a) act \<Rightarrow> ('s, 'a) helm_act" where
  "on_lib m = (\<lambda>(s, mem). case m s of (r, s') \<Rightarrow> (r, s', mem))"

definition on_mem :: "(helm_mem \<Rightarrow> helm_mem) \<Rightarrow> ('s, unit) helm_act" where
  "on_mem f = (\<lambda>(s, mem). (Inr (), s, f mem))"

section \<open>Fingerprints (convergence.go)\<close>

definition convergenceTTL :: int where "convergenceTTL = 30 * 60 * int second"

definition valuesFingerprint :: "jmap option \<Rightarrow> string" where
  "valuesFingerprint values = (if map_len values = 0 then '''' else marshal (values_json values))"

definition specFingerprint :: "ReleaseSpec \<Rightarrow> string" where
  "specFingerprint spec = join nul [rs_ChartRef spec, rs_RepoURL spec, rs_Version spec, valuesFingerprint (rs_Values spec)]"

definition deployedFingerprint :: "ReleaseInfo \<Rightarrow> string" where
  "deployedFingerprint d = join nul [rl_ChartName d, rl_Version d, valuesFingerprint (rl_Values d)]"

definition convergenceHolds :: "nat \<Rightarrow> ReleaseSpec \<Rightarrow> ReleaseInfo \<Rightarrow> helm_mem \<Rightarrow> bool" where
  "convergenceHolds now spec d mem =
     (case converged mem (rs_Name spec) of
        None \<Rightarrow> False
      | Some e \<Rightarrow> at_Revision e = rl_Revision d \<and> at_Spec e = specFingerprint spec \<and> at_Deployed e = deployedFingerprint d
          \<and> since now (Some (at_ProvenAt e)) \<le> convergenceTTL)"

definition verdict :: "nat \<Rightarrow> ReleaseSpec \<Rightarrow> ReleaseInfo \<Rightarrow> convergedAt" where
  "verdict now spec d = \<lparr>at_Revision = rl_Revision d, at_Spec = specFingerprint spec, at_ProvenAt = now,
     at_Deployed = deployedFingerprint d\<rparr>"

definition latchConvergence :: "nat \<Rightarrow> ReleaseSpec \<Rightarrow> ReleaseInfo \<Rightarrow> helm_mem \<Rightarrow> helm_mem" where
  "latchConvergence now spec d mem = mem\<lparr>converged := (converged mem)(rs_Name spec \<mapsto> verdict now spec d)\<rparr>"

definition dropConvergence :: "string \<Rightarrow> helm_mem \<Rightarrow> helm_mem" where
  "dropConvergence name mem = mem\<lparr>converged := (converged mem)(name := None)\<rparr>"

definition set_gauge :: "string \<Rightarrow> nat \<Rightarrow> helm_mem \<Rightarrow> helm_mem" where
  "set_gauge name v mem = mem\<lparr>unconverged := (unconverged mem)(name \<mapsto> v)\<rparr>"

section \<open>Loading a chart (chart.go, chart\_cache.go, tls.go)\<close>

definition withDependencies :: "'s HelmLib \<Rightarrow> HelmChart \<Rightarrow> err + HelmChart" where
  "withDependencies lib ch =
     (case lib_CheckDependencies lib ch of Inl e \<Rightarrow> Inl (wrap_err ''missing dependencies'' e) | Inr _ \<Rightarrow> Inr ch)"

definition loadArchive :: "'s HelmLib \<Rightarrow> string \<Rightarrow> err + HelmChart" where
  "loadArchive lib archive = ebind (lib_LoadArchive lib archive) (withDependencies lib)"

definition loadUnpackedChart :: "'s HelmLib \<Rightarrow> string \<Rightarrow> ('s, HelmChart) act" where
  "loadUnpackedChart lib path = bnd (lib_LoadDir lib path) (\<lambda>ch s. (withDependencies lib ch, s))"

text \<open>A file that cannot be read is taken for a directory, which has no archive to keep.\<close>

definition loadLocalChart :: "'s HelmLib \<Rightarrow> string \<Rightarrow> ('s, HelmChart \<times> string option) act" where
  "loadLocalChart lib path s =
     (case lib_ReadFile lib path s of
        (Inl _, s1) \<Rightarrow> bnd (loadUnpackedChart lib path) (\<lambda>ch. ret (ch, None)) s1
      | (Inr archive, s1) \<Rightarrow>
          (case loadArchive lib archive of Inl e \<Rightarrow> (Inl e, s1) | Inr ch \<Rightarrow> (Inr (ch, Some archive), s1)))"

definition resolveChart ::
  "'s HelmLib \<Rightarrow> RegistryLogin \<Rightarrow> RegistryAuth option \<Rightarrow> ReleaseSpec \<Rightarrow> ('s, HelmChart \<times> string option) act" where
  "resolveChart lib login basic spec =
     bnd (lib_LocateChart lib login basic (rs_ChartRef spec) (rs_RepoURL spec) (rs_Version spec)) (loadLocalChart lib)"

definition ociRegistryClient :: "'s HelmLib \<Rightarrow> RegistryAuth option \<Rightarrow> TLSConfig option \<Rightarrow> err + RegistryLogin" where
  "ociRegistryClient lib auth tls =
     (if auth = None \<and> tls = None then Inr SharedRegistry
      else ebind (lib_NewRegistry lib auth tls) (\<lambda>_. Inr (FreshRegistry auth tls)))"

definition loadChartHTTPSWithTLS ::
  "'s HelmLib \<Rightarrow> string \<Rightarrow> RegistryAuth option \<Rightarrow> TLSConfig \<Rightarrow> ('s, HelmChart) act" where
  "loadChartHTTPSWithTLS lib ref auth tls = bnd (lib_Get lib ref auth tls) (\<lambda>data s. (loadArchive lib data, s))"

definition pullChart :: "'s HelmLib \<Rightarrow> ReleaseSpec \<Rightarrow> ('s, HelmChart \<times> string option) act" where
  "pullChart lib spec s =
     (if has_prefix (rs_ChartRef spec) ''oci://'' then
        (case ociRegistryClient lib (rs_RegistryAuth spec) (rs_TLSConfig spec) of
           Inl e \<Rightarrow> (Inl e, s)
         | Inr login \<Rightarrow> resolveChart lib login None spec s)
      else case rs_TLSConfig spec of
             Some tls \<Rightarrow> bnd (loadChartHTTPSWithTLS lib (rs_ChartRef spec) (rs_RegistryAuth spec) tls) (\<lambda>ch. ret (ch, None)) s
           | None \<Rightarrow> resolveChart lib SharedRegistry (rs_RegistryAuth spec) spec s)"

definition chartCacheTTL :: int where "chartCacheTTL = 10 * 60 * int second"

definition chartCacheKey :: "ReleaseSpec \<Rightarrow> string option" where
  "chartCacheKey spec =
     (if rs_RegistryAuth spec \<noteq> None \<or> rs_TLSConfig spec \<noteq> None then None
      else Some (join nul [rs_ChartRef spec, rs_RepoURL spec, rs_Version spec]))"

definition expired :: "nat \<Rightarrow> cachedArchive \<Rightarrow> bool" where
  "expired now c \<longleftrightarrow> since now (Some (ca_At c)) > chartCacheTTL"

definition cachedChart :: "'s HelmLib \<Rightarrow> nat \<Rightarrow> string \<Rightarrow> helm_mem \<Rightarrow> HelmChart option \<times> helm_mem" where
  "cachedChart lib now key mem =
     (case charts mem key of
        None \<Rightarrow> (None, mem)
      | Some c \<Rightarrow>
          if expired now c then (None, mem\<lparr>charts := (charts mem)(key := None)\<rparr>)
          else (case loadArchive lib (ca_Archive c) of
                  Inl _ \<Rightarrow> (None, mem\<lparr>charts := (charts mem)(key := None)\<rparr>)
                | Inr ch \<Rightarrow> (Some ch, mem)))"

definition cacheChart :: "nat \<Rightarrow> string \<Rightarrow> string option \<Rightarrow> helm_mem \<Rightarrow> helm_mem" where
  "cacheChart now key archive mem =
     (case archive of
        None \<Rightarrow> mem
      | Some a \<Rightarrow>
          if a = '''' then mem
          else mem\<lparr>charts := (\<lambda>k. case charts mem k of None \<Rightarrow> None | Some c \<Rightarrow> if expired now c then None else Some c)
                 (key \<mapsto> \<lparr>ca_Archive = a, ca_At = now\<rparr>)\<rparr>)"

definition loadChart :: "'s HelmLib \<Rightarrow> nat \<Rightarrow> ReleaseSpec \<Rightarrow> ('s, HelmChart) helm_act" where
  "loadChart lib now spec = (\<lambda>(s, mem).
     case (case chartCacheKey spec of None \<Rightarrow> (None, mem) | Some key \<Rightarrow> cachedChart lib now key mem) of
       (Some ch, mem1) \<Rightarrow> (Inr ch, s, mem1\<lparr>hits := hits mem1 @ [spec]\<rparr>)
     | (None, mem1) \<Rightarrow>
         let mem2 = mem1\<lparr>pulled := pulled mem1 @ [spec]\<rparr>
         in case pullChart lib spec s of
              (Inl e, s1) \<Rightarrow> (Inl e, s1, mem2)
            | (Inr (ch, archive), s1) \<Rightarrow>
                (Inr ch, s1, case chartCacheKey spec of None \<Rightarrow> mem2 | Some key \<Rightarrow> cacheChart now key archive mem2))"

section \<open>Actions (action.go)\<close>

definition install :: "'s HelmLib \<Rightarrow> nat \<Rightarrow> ReleaseSpec \<Rightarrow> ('s, unit) helm_act" where
  "install lib now spec = bnd (loadChart lib now spec) (\<lambda>ch. on_lib (lib_Install lib spec ch))"

definition upgrade :: "'s HelmLib \<Rightarrow> nat \<Rightarrow> ReleaseSpec \<Rightarrow> ('s, unit) helm_act" where
  "upgrade lib now spec = bnd (loadChart lib now spec) (\<lambda>ch. on_lib (lib_Upgrade lib spec ch))"

text \<open>The manifest the upgrade would apply, with the chart's own version.\<close>

definition renderUpgrade :: "'s HelmLib \<Rightarrow> nat \<Rightarrow> ReleaseSpec \<Rightarrow> ('s, string \<times> string) helm_act" where
  "renderUpgrade lib now spec = bnd (loadChart lib now spec) (\<lambda>ch.
     bnd (on_lib (lib_DryRun lib spec ch)) (\<lambda>manifest. ret (manifest, hc_Version ch)))"

definition DeleteRelease :: "'s HelmLib \<Rightarrow> string \<Rightarrow> string \<Rightarrow> ('s, unit) helm_act" where
  "DeleteRelease lib ns name =
     bnd (on_lib (lib_Init lib ns)) (\<lambda>_.
     bnd (on_mem (\<lambda>mem. (dropConvergence name mem)\<lparr>unconverged := (unconverged mem)(name := None)\<rparr>)) (\<lambda>_ st.
       case on_lib (lib_Uninstall lib name) st of
         (Inl e, st1) \<Rightarrow> if err_is e = SNotFound then (Inr (), st1) else (Inl e, st1)
       | (Inr _, st1) \<Rightarrow> (Inr (), st1)))"

definition releaseInfoFrom :: "HelmRelease \<Rightarrow> ReleaseInfo" where
  "releaseInfoFrom rel = \<lparr>
     rl_ChartName = (case hrel_Chart rel of None \<Rightarrow> '''' | Some (n, v) \<Rightarrow> n),
     rl_Version = (case hrel_Chart rel of None \<Rightarrow> '''' | Some (n, v) \<Rightarrow> v),
     rl_Values = hrel_Config rel,
     rl_Status = (case hrel_Status rel of None \<Rightarrow> '''' | Some st \<Rightarrow> st),
     rl_Revision = hrel_Version rel\<rparr>"

text \<open>
  Both lookups of the storage. The error \<open>SNotFound\<close> stands for a release that is not there; of \<open>Deployed\<close>
  also for one of which no revision is deployed.
\<close>

definition found_release :: "(err + HelmRelease) \<times> 's \<Rightarrow> (err + ReleaseInfo option) \<times> 's" where
  "found_release x =
     (case x of
        (Inl e, s) \<Rightarrow> if err_is e = SNotFound then (Inr None, s) else (Inl e, s)
      | (Inr rel, s) \<Rightarrow> (Inr (Some (releaseInfoFrom rel)), s))"

definition lastRelease :: "'s HelmLib \<Rightarrow> string \<Rightarrow> ('s, ReleaseInfo option) act" where
  "lastRelease lib name s = found_release (lib_Last lib name s)"

definition deployedRelease :: "'s HelmLib \<Rightarrow> string \<Rightarrow> ('s, ReleaseInfo option) act" where
  "deployedRelease lib name s = found_release (lib_Deployed lib name s)"

definition LastRelease :: "'s HelmLib \<Rightarrow> string \<Rightarrow> string \<Rightarrow> ('s, ReleaseInfo option) helm_act" where
  "LastRelease lib ns name = on_lib (bnd (lib_Init lib ns) (\<lambda>_. lastRelease lib name))"

definition DeployedRelease :: "'s HelmLib \<Rightarrow> string \<Rightarrow> string \<Rightarrow> ('s, ReleaseInfo option) helm_act" where
  "DeployedRelease lib ns name = on_lib (bnd (lib_Init lib ns) (\<lambda>_. deployedRelease lib name))"

definition deployedManifest :: "'s HelmLib \<Rightarrow> string \<Rightarrow> ('s, string) act" where
  "deployedManifest lib name = bnd (lib_Deployed lib name) (\<lambda>rel. ret (hrel_Manifest rel))"

section \<open>The decision\<close>

datatype releaseAction = actionInstall | actionUpgrade | actionSkip | actionPending

definition versionDrift :: "ReleaseInfo \<Rightarrow> ReleaseSpec \<Rightarrow> bool" where
  "versionDrift d spec \<longleftrightarrow> rl_Version d \<noteq> rs_Version spec"

definition valuesEqual :: "jmap option \<Rightarrow> jmap option \<Rightarrow> bool" where
  "valuesEqual a b \<longleftrightarrow> (map_len a = 0 \<and> map_len b = 0) \<or> marshal (values_json a) = marshal (values_json b)"

definition releaseNeedsUpgrade :: "ReleaseInfo \<Rightarrow> ReleaseSpec \<Rightarrow> bool" where
  "releaseNeedsUpgrade d spec \<longleftrightarrow> versionDrift d spec \<or> \<not> valuesEqual (rl_Values d) (rs_Values spec)"

definition decideRelease ::
  "(string \<Rightarrow> bool) \<Rightarrow> ReleaseInfo option \<Rightarrow> ('s, ReleaseInfo option) act \<Rightarrow> ReleaseSpec \<Rightarrow> ('s, releaseAction \<times> ReleaseInfo option) act" where
  "decideRelease isPending newest deployedFn spec s =
     (case newest of
        None \<Rightarrow> (Inr (actionInstall, None), s)
      | Some l \<Rightarrow>
          if isPending (rl_Status l) then (Inr (actionPending, None), s)
          else (case deployedFn s of
                  (Inl e, s1) \<Rightarrow> (Inl e, s1)
                | (Inr None, s1) \<Rightarrow> (Inr (actionUpgrade, None), s1)
                | (Inr (Some d), s1) \<Rightarrow>
                    (Inr (if releaseNeedsUpgrade d spec then actionUpgrade else actionSkip, Some d), s1)))"

definition pending_error :: "ReleaseSpec \<Rightarrow> ReleaseInfo \<Rightarrow> err" where
  "pending_error spec l = Err SReleasePending (''helm release has a pending operation in progress: release '' @ [CHR 0x22] @ rs_Name spec @ [CHR 0x22]
     @ '' is '' @ rl_Status l @ '' at revision '' @ FormatInt (rl_Revision l))"

text \<open>The diff of manifests, and what follows from it.\<close>

definition diff_and_upgrade :: "'s HelmLib \<Rightarrow> nat \<Rightarrow> ReleaseSpec \<Rightarrow> ReleaseInfo \<Rightarrow> ('s, unit) helm_act" where
  "diff_and_upgrade lib now spec d = (\<lambda>st.
     case on_lib (deployedManifest lib (rs_Name spec)) st of
       (rc, st1) \<Rightarrow>
         (case renderUpgrade lib now spec st1 of
            (Inl e, st2) \<Rightarrow> (Inl e, st2)
          | (Inr (rendered, chartVersion), st2) \<Rightarrow>
              if (case rc of Inl _ \<Rightarrow> '''' | Inr m \<Rightarrow> m) = rendered
              then on_mem (\<lambda>mem. set_gauge (rs_Name spec) 1 (latchConvergence now spec d mem)) st2
              else upgrade lib now spec st2))"

definition converge :: "'s HelmLib \<Rightarrow> nat \<Rightarrow> ReleaseSpec \<Rightarrow> ReleaseInfo \<Rightarrow> ('s, unit) helm_act" where
  "converge lib now spec d = (\<lambda>st.
     if convergenceHolds now spec d (snd st) then on_mem (set_gauge (rs_Name spec) 1) st
     else diff_and_upgrade lib now spec d st)"

definition EnsureRelease :: "'s HelmLib \<Rightarrow> nat \<Rightarrow> ReleaseSpec \<Rightarrow> ('s, unit) helm_act" where
  "EnsureRelease lib now spec =
     bnd (on_lib (lib_Init lib (rs_Namespace spec))) (\<lambda>_.
     bnd (on_lib (lastRelease lib (rs_Name spec))) (\<lambda>newest.
     bnd (on_lib (decideRelease (lib_IsPending lib) newest (deployedRelease lib (rs_Name spec)) spec)) (\<lambda>(decision, deployed).
       case decision of
         actionInstall \<Rightarrow> install lib now spec
       | actionPending \<Rightarrow> (case newest of None \<Rightarrow> ret () | Some l \<Rightarrow> throw (pending_error spec l))
       | actionSkip \<Rightarrow> on_mem (set_gauge (rs_Name spec) 0)
       | actionUpgrade \<Rightarrow> (case deployed of None \<Rightarrow> upgrade lib now spec | Some d \<Rightarrow> converge lib now spec d))))"

definition valuesKeyDiff :: "jmap option \<Rightarrow> jmap option \<Rightarrow> string list \<times> string list" where
  "valuesKeyDiff stored requested =
     (let keys = (\<lambda>m. case m of None \<Rightarrow> [] | Some kvs \<Rightarrow> map fst kvs)
      in (sort (filter (\<lambda>k. k \<notin> set (keys requested)) (keys stored)), sort (filter (\<lambda>k. k \<notin> set (keys stored)) (keys requested))))"

text \<open>\<open>ConvertHelmValues\<close>: the first member that does not decode fails, in the order of the map.\<close>

fun ConvertHelmValues :: "(string \<times> string) list \<Rightarrow> err + jmap" where
  "ConvertHelmValues [] = Inr []"
| "ConvertHelmValues ((k, raw) # m) =
     (case unmarshal raw of
        None \<Rightarrow> Inl (Err SOther ''invalid JSON'')
      | Some v \<Rightarrow> ebind (ConvertHelmValues m) (\<lambda>out. Inr (obj_set k v out)))"

end
