(* ===== verification/Extension.thy ===== *)
theory Extension
  imports Credentials GoTime Readiness HelmEngine
begin

text \<open>
  The \<open>InstallAIExtension\<close> resource (\<open>api/v1alpha1/installaiextension\_types.go\<close>), its conditions, and the clocks
  of the waits that the controller keeps in annotations. Times are nanoseconds; a clock has whole seconds,
  as its RFC 3339 form has. The operator runs in UTC, in which it also reads the stamps back.
\<close>

section \<open>The resource\<close>

datatype ExtensionSourceKind =
    ExtensionSourceKindHelm
  | ExtensionSourceKindGit
  | OtherSourceKind string

definition kind_text :: "ExtensionSourceKind \<Rightarrow> string" where
  "kind_text k = (case k of ExtensionSourceKindHelm \<Rightarrow> ''Helm'' | ExtensionSourceKindGit \<Rightarrow> ''Git'' | OtherSourceKind s \<Rightarrow> s)"

record BasicAuth =
  ba_UserSecretRef :: SecretKeyRef
  ba_TokenSecretRef :: SecretKeyRef

text \<open>The token method has one reference; the docker configuration is the name of a secret.\<close>

record HelmAuth =
  ha_Basic :: "BasicAuth option"
  ha_Token :: "SecretKeyRef option"
  ha_DockerConfig :: "string option"

record HelmTLS =
  ht_CASecretRef :: "SecretKeyRef option"
  ht_InsecureSkipVerify :: bool
  ht_AcknowledgeInsecure :: bool
  ht_ClientTLSSecretRef :: "string option"

record HelmSource =
  hs_ChartURL :: string
  hs_Version :: string
  hs_Values :: "(string \<times> string) list"
  hs_Auth :: "HelmAuth option"
  hs_TLS :: "HelmTLS option"

record GitSource =
  gs_Repo :: string
  gs_Branch :: string

record ExtensionSource =
  xs_Kind :: ExtensionSourceKind
  xs_Helm :: "HelmSource option"
  xs_Git :: "GitSource option"

record ExtensionConfig =
  xc_Name :: string
  xc_Version :: string

record InstallAIExtensionSpec =
  x_Source :: ExtensionSource
  x_Extension :: ExtensionConfig

datatype InstallAIExtensionPhase = ExtUnset | ExtPending | ExtInstalling | ExtInstalled | ExtFailed

text \<open>A condition with the time at which its status last changed.\<close>

record ExtCondition = Condition +
  c_LastTransitionTime :: nat

text \<open>No source kind is \<open>None\<close>, the empty string of the code.\<close>

record InstallAIExtensionStatus =
  xt_Phase :: InstallAIExtensionPhase
  xt_Conditions :: "string \<Rightarrow> ExtCondition option"
  xt_ObservedGeneration :: int
  HelmReleaseName :: string
  HelmReleaseRevision :: int
  ActiveExtensionName :: string
  ActiveSourceKind :: "ExtensionSourceKind option"

record InstallAIExtension =
  x_Generation :: int
  x_Annotations :: smap
  x_Finalizers :: "string list"
  x_Deleting :: bool
  x_Spec :: InstallAIExtensionSpec
  x_Status :: InstallAIExtensionStatus

definition ext_name :: "InstallAIExtension \<Rightarrow> string" where "ext_name ext = xc_Name (x_Extension (x_Spec ext))"

definition ext_version :: "InstallAIExtension \<Rightarrow> string" where "ext_version ext = xc_Version (x_Extension (x_Spec ext))"

definition ext_kind :: "InstallAIExtension \<Rightarrow> ExtensionSourceKind" where "ext_kind ext = xs_Kind (x_Source (x_Spec ext))"

definition set_status :: "(InstallAIExtensionStatus \<Rightarrow> InstallAIExtensionStatus) \<Rightarrow> InstallAIExtension \<Rightarrow> InstallAIExtension" where
  "set_status f ext = ext\<lparr>x_Status := f (x_Status ext)\<rparr>"

definition set_phase :: "InstallAIExtensionPhase \<Rightarrow> InstallAIExtension \<Rightarrow> InstallAIExtension" where
  "set_phase p = set_status (\<lambda>st. st\<lparr>xt_Phase := p\<rparr>)"

section \<open>Conditions\<close>

definition conditionTypeHelmInstalled :: string where "conditionTypeHelmInstalled = ''HelmInstalled''"
definition conditionTypeDeploymentReady :: string where "conditionTypeDeploymentReady = ''DeploymentReady''"
definition conditionTypeServiceReady :: string where "conditionTypeServiceReady = ''ServiceReady''"
definition conditionTypeClusterRepo :: string where "conditionTypeClusterRepo = ''ClusterRepoReady''"
definition conditionTypeUIPlugin :: string where "conditionTypeUIPlugin = ''UIPluginReady''"

definition reasonReleasePending :: string where "reasonReleasePending = ''ReleasePending''"
definition reasonReleasePendingTimedOut :: string where "reasonReleasePendingTimedOut = ''ReleasePendingTimedOut''"
definition reasonReadinessTimedOut :: string where "reasonReadinessTimedOut = ''TimedOut''"

text \<open>The stamp moves only when the status changes.\<close>

definition stamp :: "nat \<Rightarrow> ConditionStatus \<Rightarrow> ExtCondition option \<Rightarrow> nat" where
  "stamp now status old = (case old of None \<Rightarrow> now | Some c \<Rightarrow> if c_Status c = status then c_LastTransitionTime c else now)"

definition set_ext_condition ::
  "nat \<Rightarrow> string \<Rightarrow> ConditionStatus \<Rightarrow> string \<Rightarrow> string \<Rightarrow> InstallAIExtension \<Rightarrow> InstallAIExtension" where
  "set_ext_condition now condType status reason message ext =
     set_status (\<lambda>st. st\<lparr>xt_Conditions := (xt_Conditions st)(condType \<mapsto>
       \<lparr>c_Status = status, c_Reason = reason, c_Message = message, c_ObservedGeneration = x_Generation ext,
        c_LastTransitionTime = stamp now status (xt_Conditions st condType)\<rparr>)\<rparr>) ext"

definition remove_condition :: "string \<Rightarrow> InstallAIExtension \<Rightarrow> InstallAIExtension" where
  "remove_condition condType = set_status (\<lambda>st. st\<lparr>xt_Conditions := (xt_Conditions st)(condType := None)\<rparr>)"

text \<open>A failure that only a change of the spec or of the operator's flags can mend.\<close>

definition reject :: "nat \<Rightarrow> string \<Rightarrow> string \<Rightarrow> InstallAIExtension \<Rightarrow> InstallAIExtension" where
  "reject now reason message ext = set_phase ExtFailed (set_ext_condition now conditionTypeReady ConditionFalse reason message ext)"

section \<open>Failing and trying again\<close>

definition healthCheckInterval :: int where "healthCheckInterval = 60 * int second"
definition maxFailureRetryInterval :: int where "maxFailureRetryInterval = 15 * 60 * int second"
definition readinessRequeue :: int where "readinessRequeue = 10 * int second"
definition resolutionRetryInterval :: int where "resolutionRetryInterval = 30 * int second"
definition pendingReleaseRequeue :: int where "pendingReleaseRequeue = 30 * int second"
definition pendingReleaseTimeout :: int where "pendingReleaseTimeout = 15 * 60 * int second"

text \<open>A condition without a stamp has the time zero.\<close>

definition failureRetryInterval :: "nat \<Rightarrow> InstallAIExtension \<Rightarrow> int" where
  "failureRetryInterval now ext =
     (case xt_Conditions (x_Status ext) conditionTypeReady of
        None \<Rightarrow> healthCheckInterval
      | Some c \<Rightarrow>
          if c_LastTransitionTime c = 0 then healthCheckInterval
          else let elapsed = since now (Some (c_LastTransitionTime c))
               in if elapsed < healthCheckInterval then healthCheckInterval
                  else if elapsed > maxFailureRetryInterval then maxFailureRetryInterval
                  else elapsed)"

definition failed_ready :: "nat \<Rightarrow> string \<Rightarrow> string \<Rightarrow> string \<Rightarrow> InstallAIExtension \<Rightarrow> InstallAIExtension" where
  "failed_ready now condType reason message ext =
     (let e1 = set_ext_condition now condType ConditionFalse reason message ext
      in set_phase ExtFailed
           (if condType \<noteq> conditionTypeReady then set_ext_condition now conditionTypeReady ConditionFalse reason message e1 else e1))"

definition setFailureAndRetry :: "nat \<Rightarrow> string \<Rightarrow> string \<Rightarrow> string \<Rightarrow> InstallAIExtension \<Rightarrow> Result \<times> InstallAIExtension" where
  "setFailureAndRetry now condType reason message ext =
     (let e = failed_ready now condType reason message ext in (requeue_after (failureRetryInterval now e), e))"

section \<open>Clocks\<close>

definition annotationWaitingSince :: string where "annotationWaitingSince = ''ai-factory.suse.com/waiting-since''"
definition annotationReleasePendingSince :: string where "annotationReleasePendingSince = ''ai-factory.suse.com/release-pending-since''"
definition annotationServiceWaitingSince :: string where "annotationServiceWaitingSince = ''ai-factory.suse.com/service-waiting-since''"

definition getWaitingSince :: "nat \<Rightarrow> InstallAIExtension \<Rightarrow> string \<Rightarrow> nat option" where
  "getWaitingSince now ext key =
     (case x_Annotations ext key of
        None \<Rightarrow> None
      | Some ts \<Rightarrow> (case parse_rfc3339 ts of None \<Rightarrow> None | Some t \<Rightarrow> if t * second > now then None else Some (t * second)))"

definition setWaitingSince :: "nat \<Rightarrow> string \<Rightarrow> InstallAIExtension \<Rightarrow> InstallAIExtension" where
  "setWaitingSince now key ext = ext\<lparr>x_Annotations := (x_Annotations ext)(key \<mapsto> format_rfc3339 (now div second))\<rparr>"

definition clearWaitingSince :: "string \<Rightarrow> InstallAIExtension \<Rightarrow> InstallAIExtension" where
  "clearWaitingSince key ext = ext\<lparr>x_Annotations := (x_Annotations ext)(key := None)\<rparr>"

definition inReleasePendingWait :: "InstallAIExtension \<Rightarrow> bool" where
  "inReleasePendingWait ext \<longleftrightarrow>
     (case xt_Conditions (x_Status ext) conditionTypeReady of
        None \<Rightarrow> False
      | Some c \<Rightarrow> c_Reason c = reasonReleasePending \<or> c_Reason c = reasonReleasePendingTimedOut)"

end
