(* ===== verification/HelmAuth.thy ===== *)
theory HelmAuth
  imports Extension DockerConfig
begin

text \<open>
  Credentials and TLS trust of a chart pull (\<open>internal/credentials/helmauth.go\<close>, \<open>helmtls.go\<close>): the secrets an
  extension names, read from the operator's namespace. That a text is a PEM bundle or a certificate matches
  its key is a parameter; the trust pool is represented by the bundle that is added to the system's.
\<close>

section \<open>Single keys\<close>

definition readKey :: "'s Client \<Rightarrow> string \<Rightarrow> SecretKeyRef \<Rightarrow> ('s, string option) act" where
  "readKey c ns r s =
     (case GetSecret c ns (ref_Name r) s of
        (Inl e, s1) \<Rightarrow> if err_is e = SNotFound then (Inr None, s1) else (Inl e, s1)
      | (Inr sec, s1) \<Rightarrow> (Inr (if mget (sec_Data sec) (ref_Key r) = '''' then None else Some (mget (sec_Data sec) (ref_Key r))), s1))"

definition chartHost :: "string \<Rightarrow> err + string" where
  "chartHost chartURL =
     (case url_Parse chartURL of
        None \<Rightarrow> Inl (Err SOther (''cannot determine registry host from chart URL '' @ go_quoted chartURL))
      | Some u \<Rightarrow> if u_Host u = '''' then Inl (Err SOther (''cannot determine registry host from chart URL '' @ go_quoted chartURL))
                  else Inr (u_Host u))"

definition docker_error_text :: "docker_error \<Rightarrow> string" where
  "docker_error_text e =
     (case e of
        MalformedDockerConfig \<Rightarrow> ''malformed dockerconfigjson''
      | InvalidBase64 h \<Rightarrow> ''invalid base64 auth for host '' @ go_quoted h
      | MalformedAuthPair h \<Rightarrow> ''malformed auth pair for host '' @ go_quoted h
      | NoUsableCredentials h \<Rightarrow> ''no usable credentials for host '' @ go_quoted h
      | NoMatchingEntry h \<Rightarrow> ''no dockerconfigjson entry matching host '' @ go_quoted h)"

section \<open>Authentication\<close>

definition dockerConfigJsonKey :: string where "dockerConfigJsonKey = ''.dockerconfigjson''"

definition auth_basic :: "'s Client \<Rightarrow> string \<Rightarrow> BasicAuth \<Rightarrow> ('s, RegistryAuth option) act" where
  "auth_basic c ns b s =
     (case ReadPair c ns (Some (ba_UserSecretRef b)) (Some (ba_TokenSecretRef b)) s of
        (Inl e, s1) \<Rightarrow> (Inl (wrap_err ''reading basic auth secret'' e), s1)
      | (Inr None, s1) \<Rightarrow> (Inl (Err SOther (''basic auth secrets missing or have empty keys (user: ''
            @ go_quoted (ref_Name (ba_UserSecretRef b)) @ '', token: '' @ go_quoted (ref_Name (ba_TokenSecretRef b)) @ '')'')), s1)
      | (Inr (Some (user, token)), s1) \<Rightarrow> (Inr (Some \<lparr>ra_Username = user, ra_Password = token\<rparr>), s1))"

definition auth_token :: "'s Client \<Rightarrow> string \<Rightarrow> SecretKeyRef \<Rightarrow> ('s, RegistryAuth option) act" where
  "auth_token c ns r s =
     (case readKey c ns r s of
        (Inl e, s1) \<Rightarrow> (Inl (wrap_err ''reading token auth secret'' e), s1)
      | (Inr None, s1) \<Rightarrow> (Inl (Err SOther (''token auth secret '' @ go_quoted (ref_Name r)
            @ '' missing or has empty key '' @ go_quoted (ref_Key r))), s1)
      | (Inr (Some token), s1) \<Rightarrow> (Inr (Some \<lparr>ra_Username = NvidiaDefaultUsername, ra_Password = token\<rparr>), s1))"

definition auth_docker ::
  "'s Client \<Rightarrow> ((string \<times> AuthEntry) list \<Rightarrow> (string \<times> AuthEntry) list) \<Rightarrow> string \<Rightarrow> string \<Rightarrow> string \<Rightarrow> ('s, RegistryAuth option) act" where
  "auth_docker c order ns chartURL secret s =
     (case chartHost chartURL of
        Inl e \<Rightarrow> (Inl e, s)
      | Inr host \<Rightarrow>
          (case GetSecret c ns secret s of
             (Inl e, s1) \<Rightarrow> (Inl (wrap_err (''reading dockerconfig secret '' @ go_quoted secret) e), s1)
           | (Inr sec, s1) \<Rightarrow>
               (let blob = mget (sec_Data sec) dockerConfigJsonKey
                in if blob = '''' then
                     (Inl (Err SOther (''dockerconfig secret '' @ go_quoted secret @ '' missing key '' @ go_quoted dockerConfigJsonKey)), s1)
                   else (case dockerConfigCredentials order blob host of
                           Inl d \<Rightarrow> (Inl (Err SOther (docker_error_text d)), s1)
                         | Inr (user, pass) \<Rightarrow> (Inr (Some \<lparr>ra_Username = user, ra_Password = pass\<rparr>), s1)))))"

definition ResolveHelmAuth ::
  "'s Client \<Rightarrow> ((string \<times> AuthEntry) list \<Rightarrow> (string \<times> AuthEntry) list) \<Rightarrow> string \<Rightarrow> HelmAuth option \<Rightarrow> string \<Rightarrow>
    ('s, RegistryAuth option) act" where
  "ResolveHelmAuth c order ns auth chartURL =
     (case auth of
        None \<Rightarrow> ret None
      | Some a \<Rightarrow>
          (case (ha_Basic a, ha_Token a, ha_DockerConfig a) of
             (Some b, _, _) \<Rightarrow> auth_basic c ns b
           | (None, Some r, _) \<Rightarrow> auth_token c ns r
           | (None, None, Some secret) \<Rightarrow> auth_docker c order ns chartURL secret
           | (None, None, None) \<Rightarrow> throw (Err SOther ''no auth method set'')))"

section \<open>TLS\<close>

record TLSParser =
  tp_PEM :: "string \<Rightarrow> bool"
  tp_KeyPair :: "string \<Rightarrow> string \<Rightarrow> bool"

definition tls_roots :: "'s Client \<Rightarrow> TLSParser \<Rightarrow> string \<Rightarrow> SecretKeyRef option \<Rightarrow> ('s, string option) act" where
  "tls_roots c p ns ca =
     (case ca of
        None \<Rightarrow> ret None
      | Some r \<Rightarrow> (\<lambda>s.
          case readKey c ns r s of
            (Inl e, s1) \<Rightarrow> (Inl (wrap_err ''reading CA secret'' e), s1)
          | (Inr None, s1) \<Rightarrow> (Inl (Err SOther (''CA secret '' @ go_quoted (ref_Name r) @ '' missing or has empty key '' @ go_quoted (ref_Key r))), s1)
          | (Inr (Some pem), s1) \<Rightarrow>
              if tp_PEM p pem then (Inr (Some pem), s1)
              else (Inl (Err SOther (''CA secret '' @ go_quoted (ref_Name r) @ '' key '' @ go_quoted (ref_Key r)
                     @ '' does not contain a valid PEM certificate'')), s1)))"

definition tls_certificates :: "'s Client \<Rightarrow> TLSParser \<Rightarrow> string \<Rightarrow> string option \<Rightarrow> ('s, (string \<times> string) option) act" where
  "tls_certificates c p ns secret =
     (case secret of
        None \<Rightarrow> ret None
      | Some name \<Rightarrow> (\<lambda>s.
          case GetSecret c ns name s of
            (Inl e, s1) \<Rightarrow> (Inl (wrap_err (''reading client TLS secret '' @ go_quoted name) e), s1)
          | (Inr sec, s1) \<Rightarrow>
              (let crt = mget (sec_Data sec) ''tls.crt''; key = mget (sec_Data sec) ''tls.key''
               in if crt = '''' \<or> key = '''' then
                    (Inl (Err SOther (''client TLS secret '' @ go_quoted name @ '' missing '' @ go_quoted ''tls.crt'' @ '' or '' @ go_quoted ''tls.key'')), s1)
                  else if tp_KeyPair p crt key then (Inr (Some (crt, key)), s1)
                  else (Inl (Err SOther (''client TLS secret '' @ go_quoted name @ '': invalid certificate/key pair'')), s1))))"

definition ResolveHelmTLS :: "'s Client \<Rightarrow> TLSParser \<Rightarrow> string \<Rightarrow> HelmTLS option \<Rightarrow> ('s, TLSConfig option) act" where
  "ResolveHelmTLS c p ns cfg =
     (case cfg of
        None \<Rightarrow> ret None
      | Some t \<Rightarrow>
          bnd (tls_roots c p ns (ht_CASecretRef t)) (\<lambda>roots.
          bnd (tls_certificates c p ns (ht_ClientTLSSecretRef t)) (\<lambda>certs.
          ret (Some \<lparr>tls_InsecureSkipVerify = ht_InsecureSkipVerify t, tls_RootCAs = roots, tls_Certificates = certs\<rparr>))))"

end
