(* ===== verification/Rancher.thy ===== *)
theory Rancher
  imports Extension
begin

text \<open>
  The Rancher objects of an extension (\<open>internal/infra/rancher\<close>: \<open>clusterrepo.go\<close>, \<open>uiplugin.go\<close>, \<open>metadata.go\<close>,
  \<open>preflight.go\<close>) and the chart index they are described from (\<open>internal/infra/helm/index.go\<close>,
  \<open>index\_cache.go\<close>). The client is a parameter: \<open>CreateOrUpdate\<close> reads an object or starts a new one, lets
  the caller change it, and stores it. Only the fields of an object that the operator sets are kept.
\<close>

section \<open>The chart index\<close>

record ChartVersion =
  cv_Version :: string
  cv_Annotations :: smap

type_synonym IndexFile = "string \<Rightarrow> ChartVersion list option"

definition FindAnnotations :: "IndexFile \<Rightarrow> string \<Rightarrow> string \<Rightarrow> err + smap" where
  "FindAnnotations index chartName version =
     (case index chartName of
        None \<Rightarrow> Inl (Err SOther (''chart '' @ go_quoted chartName @ '' not found in index''))
      | Some versions \<Rightarrow>
          (case find (\<lambda>v. cv_Version v = version) versions of
             Some v \<Rightarrow> Inr (cv_Annotations v)
           | None \<Rightarrow> Inl (Err SOther (''version '' @ go_quoted version @ '' not found for chart '' @ go_quoted chartName))))"

record IndexCacheEntry =
  ie_Index :: IndexFile
  ie_FetchedAt :: nat

type_synonym IndexCache = "string \<Rightarrow> IndexCacheEntry option"

definition indexCacheTTL :: int where "indexCacheTTL = 5 * 60 * int second"

definition cache_Get :: "nat \<Rightarrow> string \<Rightarrow> IndexCache \<Rightarrow> IndexCacheEntry option \<times> IndexCache" where
  "cache_Get now key items =
     (case items key of
        None \<Rightarrow> (None, items)
      | Some entry \<Rightarrow>
          if since now (Some (ie_FetchedAt entry)) > indexCacheTTL then (None, items(key := None)) else (Some entry, items))"

definition cache_Set :: "string \<Rightarrow> IndexCacheEntry \<Rightarrow> IndexCache \<Rightarrow> IndexCache" where
  "cache_Set key entry items = items(key \<mapsto> entry)"

definition cache_Delete :: "string \<Rightarrow> IndexCache \<Rightarrow> IndexCache" where
  "cache_Delete key items = items(key := None)"

section \<open>The objects and their client\<close>

record ClusterRepo =
  cr_URL :: "string option"
  cr_GitRepo :: "string option"
  cr_GitBranch :: "string option"
  cr_ForceUpdate :: "string option"
  cr_Annotations :: smap

record UIPlugin =
  up_Name :: "string option"
  up_Version :: "string option"
  up_Endpoint :: "string option"
  up_Metadata :: "smap option"

text \<open>The cache of the manager is a part of the state.\<close>

record 's RancherAPI =
  rk_ClientConfig :: "('s, unit) act"
  rk_GetCRD :: "string \<Rightarrow> ('s, unit) act"
  rk_UpsertRepo :: "string \<Rightarrow> (ClusterRepo \<Rightarrow> ('s, ClusterRepo) act) \<Rightarrow> ('s, unit) act"
  rk_UpsertPlugin :: "string \<Rightarrow> string \<Rightarrow> (UIPlugin \<Rightarrow> ('s, UIPlugin) act) \<Rightarrow> ('s, unit) act"
  rk_DeleteRepo :: "string \<Rightarrow> ('s, unit) act"
  rk_DeletePlugin :: "string \<Rightarrow> string \<Rightarrow> ('s, unit) act"
  rk_FetchIndex :: "string \<Rightarrow> ('s, IndexFile) act"
  rk_Cache :: "'s \<Rightarrow> IndexCache"
  rk_PutCache :: "IndexCache \<Rightarrow> 's \<Rightarrow> 's"

text \<open>What the controller uses of it.\<close>

record 's rancherManager =
  CheckCRDs :: "string list \<Rightarrow> ('s, unit) act"
  EnsureClusterRepo :: "InstallAIExtension \<Rightarrow> string \<Rightarrow> ('s, unit) act"
  EnsureUIPlugin :: "InstallAIExtension \<Rightarrow> string \<Rightarrow> string \<Rightarrow> ('s, unit) act"
  DeleteClusterRepo :: "string \<Rightarrow> ('s, unit) act"
  DeleteUIPlugin :: "string \<Rightarrow> string \<Rightarrow> ('s, unit) act"

section \<open>Preflight\<close>

definition check_crd :: "'s RancherAPI \<Rightarrow> string \<Rightarrow> ('s, unit) act" where
  "check_crd k crd s =
     (case rk_GetCRD k crd s of
        (Inl e, s1) \<Rightarrow> if err_is e = SNotFound then (Inl (Err SOther (''dependency '' @ go_quoted crd @ '' is not ready'')), s1) else (Inl e, s1)
      | (Inr _, s1) \<Rightarrow> (Inr (), s1))"

definition manager_CheckCRDs :: "'s RancherAPI \<Rightarrow> string list \<Rightarrow> ('s, unit) act" where
  "manager_CheckCRDs k crds = bnd (rk_ClientConfig k) (\<lambda>_. for_each crds (check_crd k))"

section \<open>The ClusterRepo\<close>

definition annotationSyncedVersion :: string where "annotationSyncedVersion = ''ai-factory.suse.com/synced-version''"

definition ClusterRepoName :: "string \<Rightarrow> string" where "ClusterRepoName extensionName = extensionName"

definition forceIndexRefreshIfVersionChanged :: "nat \<Rightarrow> string \<Rightarrow> ClusterRepo \<Rightarrow> ClusterRepo" where
  "forceIndexRefreshIfVersionChanged now version repo =
     (if mget (cr_Annotations repo) annotationSyncedVersion = version then repo
      else repo\<lparr>cr_ForceUpdate := Some (format_rfc3339 (now div second)),
                cr_Annotations := (cr_Annotations repo)(annotationSyncedVersion \<mapsto> version)\<rparr>)"

text \<open>A git source without its section panics; the controller calls this only with one.\<close>

definition repo_spec :: "nat \<Rightarrow> InstallAIExtension \<Rightarrow> string \<Rightarrow> ClusterRepo \<Rightarrow> err + ClusterRepo" where
  "repo_spec now ext svcURL repo =
     (case ext_kind ext of
        ExtensionSourceKindHelm \<Rightarrow>
          Inr (forceIndexRefreshIfVersionChanged now (ext_version ext)
            (repo\<lparr>cr_GitRepo := None, cr_GitBranch := None, cr_URL := Some svcURL\<rparr>))
      | ExtensionSourceKindGit \<Rightarrow>
          (case xs_Git (x_Source (x_Spec ext)) of
             None \<Rightarrow> Inl (Err SOther ''nil pointer'')
           | Some g \<Rightarrow> Inr (forceIndexRefreshIfVersionChanged now (ext_version ext)
               (repo\<lparr>cr_URL := None, cr_GitRepo := Some (gs_Repo g), cr_GitBranch := Some (gs_Branch g)\<rparr>)))
      | OtherSourceKind kind \<Rightarrow> Inl (Err SOther (''unsupported source kind: '' @ kind)))"

definition manager_EnsureClusterRepo :: "'s RancherAPI \<Rightarrow> nat \<Rightarrow> InstallAIExtension \<Rightarrow> string \<Rightarrow> ('s, unit) act" where
  "manager_EnsureClusterRepo k now ext svcURL =
     rk_UpsertRepo k (ClusterRepoName (ext_name ext)) (\<lambda>repo s. (repo_spec now ext svcURL repo, s))"

definition delete_ignoring_absent :: "('s, unit) act \<Rightarrow> ('s, unit) act" where
  "delete_ignoring_absent m s =
     (case m s of (Inl e, s1) \<Rightarrow> if err_is e = SNotFound then (Inr (), s1) else (Inl e, s1) | (Inr _, s1) \<Rightarrow> (Inr (), s1))"

definition manager_DeleteClusterRepo :: "'s RancherAPI \<Rightarrow> string \<Rightarrow> ('s, unit) act" where
  "manager_DeleteClusterRepo k name = delete_ignoring_absent (rk_DeleteRepo k name)"

definition GitRawBaseURL :: "string \<Rightarrow> string \<Rightarrow> err + string" where
  "GitRawBaseURL repo branch =
     (if branch = '''' then Inl (Err SOther ''git branch must not be empty'')
      else case url_Parse repo of
             None \<Rightarrow> Inl (Err SOther ''invalid git repo URL'')
           | Some u \<Rightarrow>
               if u_Host u \<noteq> ''github.com''
               then Inl (Err SOther (''unsupported git host '' @ go_quoted (u_Host u) @ '': only github.com is supported''))
               else Inr (''https://raw.githubusercontent.com'' @ trim_suffix (u_Path u) ''.git'' @ ''/refs/heads/'' @ branch))"

section \<open>The metadata of the plugin\<close>

definition KeyDisplayName :: string where "KeyDisplayName = ''catalog.cattle.io/display-name''"
definition KeyRancherVersion :: string where "KeyRancherVersion = ''catalog.cattle.io/rancher-version''"
definition KeyUIExtensionsRange :: string where "KeyUIExtensionsRange = ''catalog.cattle.io/ui-extensions-version''"

text \<open>The index and whether it came from the cache.\<close>

definition getOrFetchIndex :: "'s RancherAPI \<Rightarrow> nat \<Rightarrow> string \<Rightarrow> ('s, IndexFile \<times> bool) act" where
  "getOrFetchIndex k now repoURL s =
     (case cache_Get now repoURL (rk_Cache k s) of
        (Some entry, items) \<Rightarrow> (Inr (ie_Index entry, True), rk_PutCache k items s)
      | (None, items) \<Rightarrow>
          (case rk_FetchIndex k (repoURL @ ''/index.yaml'') (rk_PutCache k items s) of
             (Inl e, s1) \<Rightarrow> (Inl e, s1)
           | (Inr index, s1) \<Rightarrow>
               (Inr (index, False), rk_PutCache k (cache_Set repoURL \<lparr>ie_Index = index, ie_FetchedAt = now\<rparr> (rk_Cache k s1)) s1)))"

definition filterSupportedMetadata :: "smap \<Rightarrow> smap" where
  "filterSupportedMetadata annotations =
     (\<lambda>key. if key \<in> {KeyDisplayName, KeyRancherVersion, KeyUIExtensionsRange} then annotations key else None)"

definition mergeMetadata :: "smap \<Rightarrow> smap \<Rightarrow> string \<Rightarrow> smap" where
  "mergeMetadata indexMeta userMeta extensionName =
     (let meta = indexMeta ++ userMeta
      in if meta KeyDisplayName = None then meta(KeyDisplayName \<mapsto> extensionName) else meta)"

definition index_annotations :: "'s RancherAPI \<Rightarrow> nat \<Rightarrow> string \<Rightarrow> string \<Rightarrow> string \<Rightarrow> ('s, smap) act" where
  "index_annotations k now repoURL extensionName version s =
     (case getOrFetchIndex k now repoURL s of
        (Inl e, s1) \<Rightarrow> (Inl e, s1)
      | (Inr (index, cached), s1) \<Rightarrow>
          (case FindAnnotations index extensionName version of
             Inr a \<Rightarrow> (Inr a, s1)
           | Inl e \<Rightarrow>
               if \<not> cached then (Inl e, s1)
               else (case getOrFetchIndex k now repoURL (rk_PutCache k (cache_Delete repoURL (rk_Cache k s1)) s1) of
                       (Inl e2, s2) \<Rightarrow> (Inl e2, s2)
                     | (Inr (index2, _), s2) \<Rightarrow> (FindAnnotations index2 extensionName version, s2))))"

definition buildExtensionMetadata ::
  "'s RancherAPI \<Rightarrow> nat \<Rightarrow> string \<Rightarrow> string \<Rightarrow> string \<Rightarrow> smap \<Rightarrow> ('s, smap) act" where
  "buildExtensionMetadata k now repoURL extensionName version userMeta =
     bnd (index_annotations k now repoURL extensionName version)
       (\<lambda>a. ret (mergeMetadata (filterSupportedMetadata a) userMeta extensionName))"

section \<open>The UIPlugin\<close>

definition plugin_spec :: "'s RancherAPI \<Rightarrow> nat \<Rightarrow> InstallAIExtension \<Rightarrow> string \<Rightarrow> UIPlugin \<Rightarrow> ('s, UIPlugin) act" where
  "plugin_spec k now ext svcURL ui =
     bnd (buildExtensionMetadata k now svcURL (ext_name ext) (ext_version ext) Map.empty) (\<lambda>meta.
       ret (ui\<lparr>up_Name := Some (ext_name ext), up_Version := Some (ext_version ext),
               up_Endpoint := Some (svcURL @ ''/plugin/'' @ ext_name ext @ ''-'' @ ext_version ext), up_Metadata := Some meta\<rparr>))"

definition manager_EnsureUIPlugin :: "'s RancherAPI \<Rightarrow> nat \<Rightarrow> InstallAIExtension \<Rightarrow> string \<Rightarrow> string \<Rightarrow> ('s, unit) act" where
  "manager_EnsureUIPlugin k now ext svcURL ns = rk_UpsertPlugin k (ext_name ext) ns (plugin_spec k now ext svcURL)"

definition manager_DeleteUIPlugin :: "'s RancherAPI \<Rightarrow> string \<Rightarrow> string \<Rightarrow> ('s, unit) act" where
  "manager_DeleteUIPlugin k name ns = delete_ignoring_absent (rk_DeletePlugin k name ns)"

definition manager :: "'s RancherAPI \<Rightarrow> nat \<Rightarrow> 's rancherManager" where
  "manager k now = \<lparr>CheckCRDs = manager_CheckCRDs k, EnsureClusterRepo = manager_EnsureClusterRepo k now,
     EnsureUIPlugin = manager_EnsureUIPlugin k now, DeleteClusterRepo = manager_DeleteClusterRepo k,
     DeleteUIPlugin = manager_DeleteUIPlugin k\<rparr>"

end
