(* ===== verification/ExtensionControl.thy ===== *)
theory ExtensionControl
  imports HelmAuth Rancher
begin

text \<open>
  The reconciler of \<open>InstallAIExtension\<close> (\<open>installaiextension\_controller.go\<close>, \<open>finalizer.go\<close>, with
  \<open>internal/installaiextension/endpoint.go\<close> and \<open>internal/infra/kubernetes/service.go\<close>). A pass threads the object
  in memory and the world; the clock stands still during a pass. The calls of the API server, the Helm
  client and the Rancher manager are parameters. Log lines are not modelled.
\<close>

section \<open>What the reconciler uses\<close>

record 's HelmClient =
  hcl_EnsureRelease :: "ReleaseSpec \<Rightarrow> ('s, unit) act"
  hcl_DeleteRelease :: "string \<Rightarrow> ('s, unit) act"
  hcl_LastRelease :: "string \<Rightarrow> ('s, ReleaseInfo option) act"

record Service =
  sv_Name :: string
  sv_Namespace :: string
  sv_Ports :: "int list"

datatype ctx_error = Canceled | DeadlineExceeded

text \<open>
  The update of the object returns it as stored; the patch of the status takes the object and the one it is
  compared with. \<open>xo_Load\<close> and \<open>xo_LoadOrStore\<close> are the map of Helm clients. \<open>xo_Err\<close> is the state of the context.
\<close>

record 's ExtReconciler =
  xo_Get :: "('s, InstallAIExtension) act"
  xo_Update :: "InstallAIExtension \<Rightarrow> ('s, InstallAIExtension) act"
  xo_PatchStatus :: "InstallAIExtension \<Rightarrow> InstallAIExtension \<Rightarrow> ('s, unit) act"
  xo_UpsertConfigMap :: "(smap \<Rightarrow> smap) \<Rightarrow> ('s, unit) act"
  xo_Deployments :: "string \<Rightarrow> string \<Rightarrow> ('s, Deployment list) act"
  xo_Services :: "string \<Rightarrow> string \<Rightarrow> ('s, Service list) act"
  xo_Secrets :: "'s Client"
  xo_AuthOrder :: "(string \<times> AuthEntry) list \<Rightarrow> (string \<times> AuthEntry) list"
  xo_TLSParser :: TLSParser
  xo_Load :: "string \<Rightarrow> 's \<Rightarrow> 's HelmClient option"
  xo_LoadOrStore :: "string \<Rightarrow> 's HelmClient \<Rightarrow> 's \<Rightarrow> 's HelmClient \<times> 's"
  xo_BuildClient :: "string \<Rightarrow> ('s, 's HelmClient) act"
  xo_Rancher :: "'s rancherManager"
  xo_Err :: "'s \<Rightarrow> ctx_error option"
  xo_ExtensionNamespace :: string
  xo_OperatorNamespace :: string
  xo_OperatorService :: string
  xo_ReadinessTimeout :: int
  xo_AllowInsecureRegistryTLS :: bool
  xo_AllowedRegistryHosts :: "string list"

type_synonym ('s, 'a) xact = "(InstallAIExtension \<times> 's, 'a) act"

definition helmFor :: "'s ExtReconciler \<Rightarrow> string \<Rightarrow> ('s, 's HelmClient) act" where
  "helmFor xo ns s =
     (case xo_Load xo ns s of
        Some h \<Rightarrow> (Inr h, s)
      | None \<Rightarrow>
          (case xo_BuildClient xo ns s of
             (Inl e, s1) \<Rightarrow> (Inl e, s1)
           | (Inr built, s1) \<Rightarrow> (case xo_LoadOrStore xo ns built s1 of (h, s2) \<Rightarrow> (Inr h, s2))))"

definition registryHostAllowed :: "'s ExtReconciler \<Rightarrow> string \<Rightarrow> string \<Rightarrow> bool" where
  "registryHostAllowed xo host hostname \<longleftrightarrow>
     xo_AllowedRegistryHosts xo = [] \<or> (\<exists>h \<in> set (xo_AllowedRegistryHosts xo). EqualFold h host \<or> EqualFold h hostname)"

definition ServiceForHelmRelease :: "'s ExtReconciler \<Rightarrow> string \<Rightarrow> string \<Rightarrow> ('s, Service) act" where
  "ServiceForHelmRelease xo ns release s =
     (case xo_Services xo ns release s of
        (Inl e, s1) \<Rightarrow> (Inl e, s1)
      | (Inr [], s1) \<Rightarrow> (Inl (Err SOther (''no service found for release '' @ go_quoted release)), s1)
      | (Inr (svc # _), s1) \<Rightarrow> (Inr svc, s1))"

definition ServiceEndpoint :: "Service option \<Rightarrow> err + string \<times> string \<times> int" where
  "ServiceEndpoint svc =
     (case svc of
        None \<Rightarrow> Inl (Err SOther ''service is nil'')
      | Some v \<Rightarrow> (case sv_Ports v of
            [] \<Rightarrow> Inl (Err SOther (''service '' @ sv_Name v @ '' has no ports''))
          | p # _ \<Rightarrow> Inr (sv_Name v, sv_Namespace v, p)))"

definition deriveReleaseName :: "string \<Rightarrow> string" where
  "deriveReleaseName chartURL =
     trim_suffix (case url_Parse chartURL of None \<Rightarrow> path_Base chartURL | Some u \<Rightarrow> path_Base (u_Path u)) ''-server'' @ ''-server''"

text \<open>A whole number of seconds as Go writes a \<open>time.Duration\<close>.\<close>

definition duration_text :: "int \<Rightarrow> string" where
  "duration_text d =
     (let s = d div int second
      in (if s \<ge> 3600 then FormatInt (s div 3600) @ ''h'' else '''') @ (if s \<ge> 60 then FormatInt (s div 60 mod 60) @ ''m'' else '''')
         @ FormatInt (s mod 60) @ ''s'')"

section \<open>Annotation writes\<close>

definition updateAnnotations :: "'s ExtReconciler \<Rightarrow> ('s, unit) xact" where
  "updateAnnotations xo = (\<lambda>(ext, s).
     case xo_Update xo ext s of
       (Inl e, s1) \<Rightarrow> (Inl e, ext, s1)
     | (Inr stored, s1) \<Rightarrow> (Inr (), stored\<lparr>x_Status := x_Status ext\<rparr>, s1))"

definition clear_clock :: "'s ExtReconciler \<Rightarrow> nat \<Rightarrow> string \<Rightarrow> ('s, unit) xact" where
  "clear_clock xo now key = (\<lambda>(ext, s).
     if getWaitingSince now ext key = None then (Inr (), ext, s)
     else updateAnnotations xo (clearWaitingSince key ext, s))"

definition clearReleasePending :: "'s ExtReconciler \<Rightarrow> nat \<Rightarrow> ('s, unit) xact" where
  "clearReleasePending xo now = clear_clock xo now annotationReleasePendingSince"

section \<open>Bounded waits\<close>

text \<open>A clock that is not running is started; within its bound the wait goes on, past it the pass fails.\<close>

definition timed_wait ::
  "'s ExtReconciler \<Rightarrow> nat \<Rightarrow> string \<Rightarrow> int \<Rightarrow> (InstallAIExtension \<Rightarrow> Result \<times> InstallAIExtension) \<Rightarrow>
     (InstallAIExtension \<Rightarrow> Result \<times> InstallAIExtension) \<Rightarrow> ('s, Result) xact" where
  "timed_wait xo now key bound wait expire = (\<lambda>(ext, s).
     case getWaitingSince now ext key of
       None \<Rightarrow>
         (case updateAnnotations xo (setWaitingSince now key ext, s) of
            (Inl e, x) \<Rightarrow> (Inl e, x)
          | (Inr _, ext1, s1) \<Rightarrow> (case wait ext1 of (r, ext2) \<Rightarrow> (Inr r, ext2, s1)))
     | Some t \<Rightarrow>
         (case (if since now (Some t) > bound then expire ext else wait ext) of (r, ext1) \<Rightarrow> (Inr r, ext1, s)))"

definition awaitReadiness :: "'s ExtReconciler \<Rightarrow> nat \<Rightarrow> string \<Rightarrow> string \<Rightarrow> string \<Rightarrow> string \<Rightarrow> ('s, Result) xact" where
  "awaitReadiness xo now annotation condType reason message =
     timed_wait xo now annotation (xo_ReadinessTimeout xo)
       (\<lambda>ext. (requeue_after readinessRequeue, set_ext_condition now condType ConditionFalse reason message ext))
       (setFailureAndRetry now condType reasonReadinessTimedOut
          (message @ '' (still not resolved after '' @ duration_text (xo_ReadinessTimeout xo) @ '')''))"

definition mark_pending :: "nat \<Rightarrow> string \<Rightarrow> string \<Rightarrow> InstallAIExtension \<Rightarrow> InstallAIExtension" where
  "mark_pending now condType msg ext =
     set_ext_condition now conditionTypeReady ConditionFalse reasonReleasePending msg
       (set_ext_condition now condType ConditionFalse reasonReleasePending msg ext)"

definition pending_wait :: "'s ExtReconciler \<Rightarrow> nat \<Rightarrow> string \<Rightarrow> err \<Rightarrow> ('s, Result) xact" where
  "pending_wait xo now condType e =
     timed_wait xo now annotationReleasePendingSince pendingReleaseTimeout
       (\<lambda>ext. (requeue_after pendingReleaseRequeue, mark_pending now condType (''Waiting for in-flight Helm operation: '' @ err_text e) ext))
       (setFailureAndRetry now condType reasonReleasePendingTimedOut
          (''Helm release still mid-operation after '' @ duration_text pendingReleaseTimeout
             @ ''; a pending release cannot be upgraded over, so resolve it with `helm rollback` or `helm uninstall`: '' @ err_text e))"

text \<open>The answer is the result of the pass when the release is pending, and \<open>None\<close> when the caller goes on.\<close>

definition handlePendingRelease :: "'s ExtReconciler \<Rightarrow> nat \<Rightarrow> string \<Rightarrow> err option \<Rightarrow> ('s, Result option) xact" where
  "handlePendingRelease xo now condType err = (\<lambda>x.
     case err of
       Some e \<Rightarrow>
         if err_is e = SReleasePending then
           (case pending_wait xo now condType e x of (Inl u, y) \<Rightarrow> (Inl u, y) | (Inr r, y) \<Rightarrow> (Inr (Some r), y))
         else (Inr None, snd (clearReleasePending xo now x))
     | None \<Rightarrow> (case clearReleasePending xo now x of (Inl u, y) \<Rightarrow> (Inl u, y) | (Inr _, y) \<Rightarrow> (Inr None, y)))"

section \<open>A release that runs\<close>

definition restartReadinessClocks :: "'s ExtReconciler \<Rightarrow> nat \<Rightarrow> int \<Rightarrow> ('s, unit) xact" where
  "restartReadinessClocks xo now revision = (\<lambda>(ext, s).
     if HelmReleaseRevision (x_Status ext) = 0 \<or> revision = HelmReleaseRevision (x_Status ext) then (Inr (), ext, s)
     else let live = filter (\<lambda>a. getWaitingSince now ext a \<noteq> None) [annotationWaitingSince, annotationServiceWaitingSince]
          in if live = [] then (Inr (), ext, s)
             else updateAnnotations xo (fold clearWaitingSince live ext, s))"

definition record_revision :: "'s ExtReconciler \<Rightarrow> nat \<Rightarrow> ReleaseInfo option \<Rightarrow> ('s, unit) xact" where
  "record_revision xo now info = (\<lambda>x.
     case info of
       None \<Rightarrow> (Inr (), x)
     | Some i \<Rightarrow>
         (case restartReadinessClocks xo now (wrap32 (rl_Revision i)) x of
            (Inl e, y) \<Rightarrow> (Inl e, y)
          | (Inr _, ext, s) \<Rightarrow> (Inr (), set_status (\<lambda>st. st\<lparr>HelmReleaseRevision := wrap32 (rl_Revision i)\<rparr>) ext, s)))"

text \<open>The wait for the deployments of the release; \<open>required\<close> says whether there have to be any.\<close>

definition await_deployments :: "'s ExtReconciler \<Rightarrow> nat \<Rightarrow> string \<Rightarrow> string \<Rightarrow> bool \<Rightarrow> ('s, Result option) xact" where
  "await_deployments xo now ns release required = (\<lambda>(ext, s).
     case xo_Deployments xo ns release s of
       (listed, s1) \<Rightarrow>
         (case IsDeploymentReady listed release of
            Inl e \<Rightarrow>
              (case awaitReadiness xo now annotationWaitingSince conditionTypeDeploymentReady ''CheckFailed''
                      (''Failed to check deployment readiness: '' @ err_text e) (ext, s1) of
                 (Inl u, y) \<Rightarrow> (Inl u, y) | (Inr r, y) \<Rightarrow> (Inr (Some r), y))
          | Inr st \<Rightarrow>
              if \<not> dst_Ready st \<and> (dst_Found st \<or> required) then
                (case awaitReadiness xo now annotationWaitingSince conditionTypeDeploymentReady ''NotReady'' (dst_Message st) (ext, s1) of
                   (Inl u, y) \<Rightarrow> (Inl u, y) | (Inr r, y) \<Rightarrow> (Inr (Some r), y))
              else
                (case clear_clock xo now annotationWaitingSince (ext, s1) of
                   (Inl u, y) \<Rightarrow> (Inl u, y)
                 | (Inr _, ext1, s2) \<Rightarrow>
                     (Inr None, set_ext_condition now conditionTypeDeploymentReady ConditionTrue ''Available''
                        (if dst_Found st then dst_Message st else ''Release has no deployment to wait for'') ext1, s2))))"

definition awaitReleaseRunning :: "'s ExtReconciler \<Rightarrow> nat \<Rightarrow> string \<Rightarrow> string \<Rightarrow> bool \<Rightarrow> ('s, Result option) xact" where
  "awaitReleaseRunning xo now ns release required = (\<lambda>(ext, s).
     case bnd (helmFor xo ns) (\<lambda>h. hcl_LastRelease h release) s of
       (Inl e, s1) \<Rightarrow> (Inl e, ext, s1)
     | (Inr info, s1) \<Rightarrow>
         (case record_revision xo now info (ext, s1) of
            (Inl e, y) \<Rightarrow> (Inl e, y)
          | (Inr _, y) \<Rightarrow> await_deployments xo now ns release required y))"

section \<open>Cleanup\<close>

text \<open>All calls are made, and their errors are collected.\<close>

fun run_all :: "('s, unit) act list \<Rightarrow> 's \<Rightarrow> err list \<times> 's" where
  "run_all [] s = ([], s)"
| "run_all (m # ms) s =
     (case m s of
        (Inl e, s1) \<Rightarrow> (case run_all ms s1 of (es, s2) \<Rightarrow> (e # es, s2))
      | (Inr _, s1) \<Rightarrow> run_all ms s1)"

definition join_errs :: "err list \<Rightarrow> err option" where
  "join_errs es = (if es = [] then None else Some (Err SOther (join [CHR 0x0A] (map err_text es))))"

definition uninstall_release :: "'s ExtReconciler \<Rightarrow> string \<Rightarrow> ('s, unit) act" where
  "uninstall_release xo name = bnd (helmFor xo (xo_ExtensionNamespace xo)) (\<lambda>h. hcl_DeleteRelease h name)"

text \<open>Without a client nothing is uninstalled, and nothing is reported.\<close>

definition uninstall_with_client :: "'s ExtReconciler \<Rightarrow> string \<Rightarrow> ('s, unit) act" where
  "uninstall_with_client xo name s =
     (case helmFor xo (xo_ExtensionNamespace xo) s of
        (Inl _, s1) \<Rightarrow> (Inr (), s1)
      | (Inr h, s1) \<Rightarrow> hcl_DeleteRelease h name s1)"

definition delete_rancher :: "'s ExtReconciler \<Rightarrow> string \<Rightarrow> ('s, unit) act list" where
  "delete_rancher xo name =
     [DeleteClusterRepo (xo_Rancher xo) (ClusterRepoName name), DeleteUIPlugin (xo_Rancher xo) name (xo_ExtensionNamespace xo)]"

definition cleanup_names :: "InstallAIExtension \<Rightarrow> string list" where
  "cleanup_names ext =
     (let active = ActiveExtensionName (x_Status ext)
      in if active \<noteq> '''' \<and> active \<noteq> ext_name ext then [ext_name ext, active] else [ext_name ext])"

definition cleanup :: "'s ExtReconciler \<Rightarrow> InstallAIExtension \<Rightarrow> ('s, unit) act" where
  "cleanup xo ext s =
     (let release = HelmReleaseName (x_Status ext);
          git = ActiveSourceKind (x_Status ext) = Some ExtensionSourceKindGit \<or> ext_kind ext = ExtensionSourceKindGit
      in case run_all
           (concat (map (delete_rancher xo) (filter (\<lambda>n. n \<noteq> '''') (cleanup_names ext)))
            @ (if release \<noteq> '''' then [uninstall_release xo release] else [])
            @ (if git then map (uninstall_with_client xo) (filter (\<lambda>n. n \<noteq> release) (cleanup_names ext)) else [])) s of
           (es, s1) \<Rightarrow> (case join_errs es of None \<Rightarrow> (Inr (), s1) | Some e \<Rightarrow> (Inl e, s1)))"

definition finalizerName :: string where "finalizerName = ''ai-factory.suse.com/finalizer''"

definition ensureFinalizer :: "'s ExtReconciler \<Rightarrow> ('s, bool) xact" where
  "ensureFinalizer xo = (\<lambda>(ext, s).
     if finalizerName \<in> set (x_Finalizers ext) then (Inr False, ext, s)
     else let ext1 = ext\<lparr>x_Finalizers := x_Finalizers ext @ [finalizerName]\<rparr>
          in case xo_Update xo ext1 s of
               (Inl e, s1) \<Rightarrow> (Inl e, ext1, s1)
             | (Inr stored, s1) \<Rightarrow> (Inr True, stored, s1))"

definition ext_handleDeletion :: "'s ExtReconciler \<Rightarrow> InstallAIExtension \<Rightarrow> ('s, Result) act" where
  "ext_handleDeletion xo ext s =
     (if finalizerName \<notin> set (x_Finalizers ext) then (Inr result_done, s)
      else case cleanup xo ext s of
             (Inl e, s1) \<Rightarrow> (Inl e, s1)
           | (Inr _, s1) \<Rightarrow>
               (case xo_Update xo (ext\<lparr>x_Finalizers := filter (\<lambda>f. f \<noteq> finalizerName) (x_Finalizers ext)\<rparr>) s1 of
                  (Inl e, s2) \<Rightarrow> if err_is e = SNotFound then (Inr result_done, s2) else (Inl e, s2)
                | (Inr _, s2) \<Rightarrow> (Inr result_done, s2)))"

text \<open>The release of the old name or source: it is uninstalled, and forgotten whatever comes of that.\<close>

definition stale_helm :: "InstallAIExtensionStatus \<Rightarrow> bool" where
  "stale_helm st \<longleftrightarrow> ActiveSourceKind st = Some ExtensionSourceKindHelm \<and> HelmReleaseName st \<noteq> ''''"

definition forget_release :: "InstallAIExtension \<Rightarrow> InstallAIExtension" where
  "forget_release = set_status (\<lambda>st. st\<lparr>HelmReleaseName := '''', HelmReleaseRevision := 0\<rparr>)"

definition remove_stale_name :: "'s ExtReconciler \<Rightarrow> string \<Rightarrow> InstallAIExtension \<Rightarrow> 's \<Rightarrow> err list \<times> 's" where
  "remove_stale_name xo name ext s =
     (case run_all (delete_rancher xo name
          @ (if stale_helm (x_Status ext) then [uninstall_with_client xo (HelmReleaseName (x_Status ext))] else [])) s of
        (es, s1) \<Rightarrow>
          (es, if ActiveSourceKind (x_Status ext) = Some ExtensionSourceKindGit then snd (uninstall_with_client xo name s1) else s1))"

definition cleanup_renamed :: "'s ExtReconciler \<Rightarrow> InstallAIExtension \<times> 's \<Rightarrow> err list \<times> InstallAIExtension \<times> 's" where
  "cleanup_renamed xo = (\<lambda>(ext, s).
     let old = ActiveExtensionName (x_Status ext)
     in if old = '''' \<or> old = ext_name ext then ([], ext, s)
        else case remove_stale_name xo old ext s of
               (es, s1) \<Rightarrow> (es, if stale_helm (x_Status ext) then forget_release ext else ext, s1))"

definition cleanup_switched :: "'s ExtReconciler \<Rightarrow> InstallAIExtension \<times> 's \<Rightarrow> err list \<times> InstallAIExtension \<times> 's" where
  "cleanup_switched xo = (\<lambda>(ext, s).
     let old = ActiveExtensionName (x_Status ext); name = (if old = '''' then ext_name ext else old)
     in if ActiveSourceKind (x_Status ext) = None \<or> ActiveSourceKind (x_Status ext) = Some (ext_kind ext) then ([], ext, s)
        else case remove_stale_name xo name ext s of
               (es, s1) \<Rightarrow>
                 (es, if stale_helm (x_Status ext)
                      then remove_condition conditionTypeServiceReady (remove_condition conditionTypeDeploymentReady
                             (remove_condition conditionTypeHelmInstalled (forget_release ext)))
                      else ext, s1))"

definition cleanupStaleResources :: "'s ExtReconciler \<Rightarrow> ('s, unit) xact" where
  "cleanupStaleResources xo x =
     (case cleanup_renamed xo x of
        (es1, y) \<Rightarrow> (case cleanup_switched xo y of
           (es2, z) \<Rightarrow> (case join_errs (es1 @ es2) of None \<Rightarrow> (Inr (), z) | Some e \<Rightarrow> (Inl e, z))))"


section \<open>The Helm source\<close>

definition service_url :: "string \<times> string \<times> int \<Rightarrow> string" where
  "service_url p = (case p of (name, ns, port) \<Rightarrow> ''http://'' @ name @ ''.'' @ ns @ '':'' @ FormatInt port)"

text \<open>The objects of Rancher, once the service has a URL.\<close>

definition ensure_rancher :: "'s ExtReconciler \<Rightarrow> nat \<Rightarrow> string \<Rightarrow> ('s, Result) xact" where
  "ensure_rancher xo now svcURL = (\<lambda>(ext, s).
     case EnsureClusterRepo (xo_Rancher xo) ext svcURL s of
       (Inl e, s1) \<Rightarrow>
         (case setFailureAndRetry now conditionTypeClusterRepo ''Failed'' (''ClusterRepo failed: '' @ err_text e) ext of
            (r, ext1) \<Rightarrow> (Inr r, ext1, s1))
     | (Inr _, s1) \<Rightarrow>
         (let ext1 = set_ext_condition now conditionTypeClusterRepo ConditionTrue ''Created'' ''ClusterRepo created'' ext
          in case EnsureUIPlugin (xo_Rancher xo) ext1 svcURL (xo_ExtensionNamespace xo) s1 of
               (Inl e, s2) \<Rightarrow>
                 (case setFailureAndRetry now conditionTypeUIPlugin ''Failed'' (''UIPlugin failed: '' @ err_text e) ext1 of
                    (r, ext2) \<Rightarrow> (Inr r, ext2, s2))
             | (Inr _, s2) \<Rightarrow>
                 (Inr result_done, set_ext_condition now conditionTypeUIPlugin ConditionTrue ''Created'' ''UIPlugin created'' ext1, s2)))"

definition await_service :: "'s ExtReconciler \<Rightarrow> nat \<Rightarrow> string \<Rightarrow> ('s, Result) xact" where
  "await_service xo now msg =
     awaitReadiness xo now annotationServiceWaitingSince conditionTypeServiceReady ''ServiceFailed'' msg"

definition expose_service :: "'s ExtReconciler \<Rightarrow> nat \<Rightarrow> string \<Rightarrow> ('s, Result) xact" where
  "expose_service xo now release = (\<lambda>(ext, s).
     case ServiceForHelmRelease xo (xo_ExtensionNamespace xo) release s of
       (Inl e, s1) \<Rightarrow> await_service xo now (''Service not found: '' @ err_text e) (ext, s1)
     | (Inr svc, s1) \<Rightarrow>
         (case ServiceEndpoint (Some svc) of
            Inl e \<Rightarrow> await_service xo now (''Service endpoint error: '' @ err_text e) (ext, s1)
          | Inr endpoint \<Rightarrow>
              (case clear_clock xo now annotationServiceWaitingSince (ext, s1) of
                 (Inl e, y) \<Rightarrow> (Inl e, y)
               | (Inr _, ext1, s2) \<Rightarrow>
                   ensure_rancher xo now (service_url endpoint)
                     (set_ext_condition now conditionTypeServiceReady ConditionTrue ''Available'' (''Service URL: '' @ service_url endpoint) ext1, s2))))"

text \<open>What follows \<open>EnsureRelease\<close>.\<close>

definition after_ensure :: "'s ExtReconciler \<Rightarrow> nat \<Rightarrow> string \<Rightarrow> err option \<Rightarrow> ('s, Result) xact" where
  "after_ensure xo now release err x =
     (case handlePendingRelease xo now conditionTypeHelmInstalled err x of
        (Inl e, y) \<Rightarrow> (Inl e, y)
      | (Inr (Some r), y) \<Rightarrow> (Inr r, y)
      | (Inr None, ext, s) \<Rightarrow>
          (case err of
             Some e \<Rightarrow>
               (case setFailureAndRetry now conditionTypeHelmInstalled ''InstallFailed'' (''Helm install failed: '' @ err_text e) ext of
                  (r, ext1) \<Rightarrow> (Inr r, ext1, s))
           | None \<Rightarrow>
               (case awaitReleaseRunning xo now (xo_ExtensionNamespace xo) release True
                   (set_status (\<lambda>st. st\<lparr>HelmReleaseName := release\<rparr>)
                     (set_ext_condition now conditionTypeHelmInstalled ConditionTrue ''Installed'' (''Helm release '' @ release @ '' installed'') ext), s) of
                  (Inl e, y) \<Rightarrow> (Inl e, y)
                | (Inr (Some r), y) \<Rightarrow> (Inr r, y)
                | (Inr None, y) \<Rightarrow> expose_service xo now release y)))"

definition unresolved :: "nat \<Rightarrow> string \<Rightarrow> string \<Rightarrow> InstallAIExtension \<Rightarrow> 's \<Rightarrow> (err + Result) \<times> InstallAIExtension \<times> 's" where
  "unresolved now reason msg ext s = (Inr (requeue_after resolutionRetryInterval), reject now reason msg ext, s)"

definition error_of :: "err + 'a \<Rightarrow> err option" where
  "error_of r = (case r of Inl e \<Rightarrow> Some e | Inr _ \<Rightarrow> None)"

definition release_spec ::
  "'s ExtReconciler \<Rightarrow> HelmSource \<Rightarrow> jmap \<Rightarrow> RegistryAuth option \<Rightarrow> TLSConfig option \<Rightarrow> ReleaseSpec" where
  "release_spec xo hs values auth tls = \<lparr>rs_Name = deriveReleaseName (hs_ChartURL hs), rs_Namespace = xo_ExtensionNamespace xo,
     rs_ChartRef = hs_ChartURL hs, rs_RepoURL = '''', rs_Version = hs_Version hs, rs_Values = Some values,
     rs_RegistryAuth = auth, rs_TLSConfig = tls\<rparr>"

text \<open>The client, the credentials and the trust of the pull, and the release.\<close>

definition install_release :: "'s ExtReconciler \<Rightarrow> nat \<Rightarrow> HelmSource \<Rightarrow> jmap \<Rightarrow> ('s, Result) xact" where
  "install_release xo now hs values = (\<lambda>(ext, s).
     case helmFor xo (xo_ExtensionNamespace xo) s of
       (Inl e, s1) \<Rightarrow> (Inl e, ext, s1)
     | (Inr h, s1) \<Rightarrow>
         (case ResolveHelmAuth (xo_Secrets xo) (xo_AuthOrder xo) (xo_OperatorNamespace xo) (hs_Auth hs) (hs_ChartURL hs) s1 of
            (Inl e, s2) \<Rightarrow> unresolved now ''AuthResolutionFailed'' (''registry auth resolution failed: '' @ err_text e) ext s2
          | (Inr auth, s2) \<Rightarrow>
              (case ResolveHelmTLS (xo_Secrets xo) (xo_TLSParser xo) (xo_OperatorNamespace xo) (hs_TLS hs) s2 of
                 (Inl e, s3) \<Rightarrow> unresolved now ''TLSResolutionFailed'' (''registry TLS resolution failed: '' @ err_text e) ext s3
               | (Inr tls, s3) \<Rightarrow>
                   (case hcl_EnsureRelease h (release_spec xo hs values auth tls) s3 of
                      (r, s4) \<Rightarrow> after_ensure xo now (deriveReleaseName (hs_ChartURL hs)) (error_of r) (ext, s4)))))"

text \<open>The last checks of the spec, after the release of another chart URL has been uninstalled.\<close>

definition checked_install :: "'s ExtReconciler \<Rightarrow> nat \<Rightarrow> HelmSource \<Rightarrow> ('s, Result) xact" where
  "checked_install xo now hs = (\<lambda>(ext, s).
     case ConvertHelmValues (hs_Values hs) of
       Inl e \<Rightarrow> (Inr result_done, reject now ''InvalidSpec'' (''invalid helm values: '' @ err_text e) ext, s)
     | Inr values \<Rightarrow>
         (case url_Parse (hs_ChartURL hs) of
            None \<Rightarrow> (Inr result_done, reject now ''InvalidSpec'' (''unsupported chart URL: '' @ hs_ChartURL hs) ext, s)
          | Some u \<Rightarrow>
              if u_Scheme u \<noteq> ''oci'' \<and> u_Scheme u \<noteq> ''https''
              then (Inr result_done, reject now ''InvalidSpec'' (''unsupported chart URL: '' @ hs_ChartURL hs) ext, s)
              else if \<not> registryHostAllowed xo (u_Host u) (Hostname u)
              then (Inr result_done, reject now ''RegistryHostNotAllowed'' (''registry host '' @ go_quoted (u_Host u)
                      @ '' is not permitted by the operator's registry host allowlist (manager.allowedRegistryHosts / --allowed-registry-hosts)'') ext, s)
              else install_release xo now hs values (ext, s)))"

definition uninstall_previous :: "'s ExtReconciler \<Rightarrow> HelmSource \<Rightarrow> InstallAIExtension \<Rightarrow> 's \<Rightarrow> 's" where
  "uninstall_previous xo hs ext s =
     (let old = HelmReleaseName (x_Status ext)
      in if old \<noteq> '''' \<and> old \<noteq> deriveReleaseName (hs_ChartURL hs) then snd (uninstall_with_client xo old s) else s)"

definition insecure :: "HelmSource \<Rightarrow> bool" where
  "insecure hs \<longleftrightarrow> (case hs_TLS hs of None \<Rightarrow> False | Some t \<Rightarrow> ht_InsecureSkipVerify t)"

definition reconcileHelmSource :: "'s ExtReconciler \<Rightarrow> nat \<Rightarrow> ('s, Result) xact" where
  "reconcileHelmSource xo now = (\<lambda>(ext, s).
     case xs_Helm (x_Source (x_Spec ext)) of
       None \<Rightarrow> (Inr result_done, reject now ''InvalidSpec'' ''source.kind is Helm but source.helm is not set'' ext, s)
     | Some hs \<Rightarrow>
         if insecure hs \<and> \<not> xo_AllowInsecureRegistryTLS xo
         then (Inr result_done, reject now ''InsecureTLSNotAllowed''
                 (''spec.source.helm.tls.insecureSkipVerify is set but the operator was not deployed with insecure ''
                  @ ''registry TLS enabled (manager.allowInsecureRegistryTLS / --allow-insecure-registry-tls)'') ext, s)
         else checked_install xo now hs (ext, uninstall_previous xo hs ext s))"

section \<open>The Git source\<close>

definition git_release_spec :: "'s ExtReconciler \<Rightarrow> InstallAIExtension \<Rightarrow> string \<Rightarrow> ReleaseSpec" where
  "git_release_spec xo ext repoURL = \<lparr>rs_Name = ext_name ext, rs_Namespace = xo_ExtensionNamespace xo, rs_ChartRef = ext_name ext,
     rs_RepoURL = repoURL, rs_Version = ext_version ext, rs_Values = None, rs_RegistryAuth = None, rs_TLSConfig = None\<rparr>"

definition ensureUIPluginGit :: "'s ExtReconciler \<Rightarrow> InstallAIExtension \<Rightarrow> string \<Rightarrow> ('s, unit) act" where
  "ensureUIPluginGit xo ext repoURL =
     bnd (helmFor xo (xo_ExtensionNamespace xo)) (\<lambda>h. hcl_EnsureRelease h (git_release_spec xo ext repoURL))"

definition after_plugin :: "'s ExtReconciler \<Rightarrow> nat \<Rightarrow> err option \<Rightarrow> ('s, Result) xact" where
  "after_plugin xo now err x =
     (case handlePendingRelease xo now conditionTypeUIPlugin err x of
        (Inl e, y) \<Rightarrow> (Inl e, y)
      | (Inr (Some r), y) \<Rightarrow> (Inr r, y)
      | (Inr None, ext, s) \<Rightarrow>
          (case err of
             Some e \<Rightarrow>
               (case setFailureAndRetry now conditionTypeUIPlugin ''Failed'' (''UIPlugin install failed: '' @ err_text e) ext of
                  (r, ext1) \<Rightarrow> (Inr r, ext1, s))
           | None \<Rightarrow>
               (let ext1 = set_ext_condition now conditionTypeUIPlugin ConditionTrue ''Created'' ''UIPlugin installed from git source'' ext
                in case awaitReleaseRunning xo now (xo_ExtensionNamespace xo) (ext_name ext1) False (ext1, s) of
                     (Inl e, y) \<Rightarrow> (Inl e, y)
                   | (Inr (Some r), y) \<Rightarrow> (Inr r, y)
                   | (Inr None, y) \<Rightarrow> (Inr result_done, y))))"

definition reconcileGitSource :: "'s ExtReconciler \<Rightarrow> nat \<Rightarrow> ('s, Result) xact" where
  "reconcileGitSource xo now = (\<lambda>(ext, s).
     case xs_Git (x_Source (x_Spec ext)) of
       None \<Rightarrow> (Inr result_done, reject now ''InvalidSpec'' ''source.kind is Git but source.git is not set'' ext, s)
     | Some g \<Rightarrow>
         (case GitRawBaseURL (gs_Repo g) (gs_Branch g) of
            Inl e \<Rightarrow> (Inr result_done, reject now ''InvalidSpec'' (''invalid git repo URL: '' @ err_text e) ext, s)
          | Inr rawBaseURL \<Rightarrow>
              (case EnsureClusterRepo (xo_Rancher xo) ext '''' s of
                 (Inl e, s1) \<Rightarrow>
                   (case setFailureAndRetry now conditionTypeClusterRepo ''Failed'' (''ClusterRepo failed: '' @ err_text e) ext of
                      (r, ext1) \<Rightarrow> (Inr r, ext1, s1))
               | (Inr _, s1) \<Rightarrow>
                   (let ext1 = set_ext_condition now conditionTypeClusterRepo ConditionTrue ''Created'' ''ClusterRepo created for git source'' ext
                    in case ensureUIPluginGit xo ext1 rawBaseURL s1 of
                         (r, s2) \<Rightarrow> after_plugin xo now (error_of r) (ext1, s2)))))"

section \<open>The pass\<close>

definition syncUIConfigMap :: "'s ExtReconciler \<Rightarrow> ('s, unit) act" where
  "syncUIConfigMap xo = xo_UpsertConfigMap xo
     (\<lambda>data. data(''operatorNamespace'' \<mapsto> xo_OperatorNamespace xo, ''operatorService'' \<mapsto> xo_OperatorService xo))"

definition reconcile_source :: "'s ExtReconciler \<Rightarrow> nat \<Rightarrow> ('s, Result) xact" where
  "reconcile_source xo now = (\<lambda>(ext, s).
     case ext_kind ext of
       ExtensionSourceKindHelm \<Rightarrow> reconcileHelmSource xo now (ext, s)
     | ExtensionSourceKindGit \<Rightarrow> reconcileGitSource xo now (ext, s)
     | OtherSourceKind kind \<Rightarrow> (Inr result_done, reject now ''InvalidSpec'' (''unsupported source kind: '' @ kind) ext, s))"

definition mark_installed :: "nat \<Rightarrow> InstallAIExtension \<Rightarrow> InstallAIExtension" where
  "mark_installed now ext =
     set_status (\<lambda>st. st\<lparr>xt_Phase := ExtInstalled, ActiveExtensionName := ext_name ext, ActiveSourceKind := Some (ext_kind ext)\<rparr>)
       (set_ext_condition now conditionTypeReady ConditionTrue ''Installed'' ''Extension installed successfully'' ext)"

definition finish_pass :: "'s ExtReconciler \<Rightarrow> nat \<Rightarrow> ('s, Result) xact" where
  "finish_pass xo now = (\<lambda>(ext, s).
     if xt_Phase (x_Status ext) = ExtFailed then (Inr result_done, ext, s)
     else case syncUIConfigMap xo s of
            (Inl _, s1) \<Rightarrow> (Inr requeue_now, mark_installed now ext, s1)
          | (Inr _, s1) \<Rightarrow> (Inr (requeue_after healthCheckInterval), mark_installed now ext, s1))"

definition reconcile :: "'s ExtReconciler \<Rightarrow> nat \<Rightarrow> ('s, Result) xact" where
  "reconcile xo now = (\<lambda>(ext0, s).
     case cleanupStaleResources xo (set_phase ExtInstalling ext0, s) of
       (Inl e, y) \<Rightarrow> (Inl e, y)
     | (Inr _, ext, s1) \<Rightarrow>
         (case CheckCRDs (xo_Rancher xo) [''uiplugins.catalog.cattle.io'', ''clusterrepos.catalog.cattle.io''] s1 of
            (Inl e, s2) \<Rightarrow>
              (case setFailureAndRetry now conditionTypeReady ''CRDsMissing'' (''Rancher CRDs not found: '' @ err_text e) ext of
                 (r, ext1) \<Rightarrow> (Inr r, ext1, s2))
          | (Inr _, s2) \<Rightarrow>
              (case reconcile_source xo now (ext, s2) of
                 (Inl e, y) \<Rightarrow> (Inl e, y)
               | (Inr r, y) \<Rightarrow> if r \<noteq> result_done then (Inr r, y) else finish_pass xo now y)))"

text \<open>What \<open>reconcileRequest\<close> does with the verdict of a pass that was not interrupted.\<close>

definition settle_marker :: "'s ExtReconciler \<Rightarrow> nat \<Rightarrow> err + Result \<Rightarrow> InstallAIExtension \<times> 's \<Rightarrow> InstallAIExtension \<times> 's" where
  "settle_marker xo now r x =
     (if \<not> isl r \<and> \<not> inReleasePendingWait (fst x) then snd (clearReleasePending xo now x) else x)"

definition observe_generation :: "err + Result \<Rightarrow> InstallAIExtension \<Rightarrow> InstallAIExtension" where
  "observe_generation r ext =
     (if \<not> isl r \<and> xt_Phase (x_Status ext) = ExtInstalled
      then set_status (\<lambda>st. st\<lparr>xt_ObservedGeneration := x_Generation ext\<rparr>) ext else ext)"

definition settle :: "'s ExtReconciler \<Rightarrow> nat \<Rightarrow> InstallAIExtension \<Rightarrow> err + Result \<Rightarrow> InstallAIExtension \<Rightarrow> ('s, Result) act" where
  "settle xo now original r ext s =
     (case settle_marker xo now r (ext, s) of
        (ext1, s1) \<Rightarrow>
          (case xo_PatchStatus xo (observe_generation r ext1) original s1 of
             (Inl e, s2) \<Rightarrow> (Inl e, s2)
           | (Inr _, s2) \<Rightarrow> (r, s2)))"

definition ctx_err :: "ctx_error \<Rightarrow> err" where
  "ctx_err c = Err SOther (case c of Canceled \<Rightarrow> ''context canceled'' | DeadlineExceeded \<Rightarrow> ''context deadline exceeded'')"

definition reconcileRequest :: "'s ExtReconciler \<Rightarrow> nat \<Rightarrow> ('s, Result) act" where
  "reconcileRequest xo now s =
     (case xo_Get xo s of
        (Inl e, s1) \<Rightarrow> if err_is e = SNotFound then (Inr result_done, s1) else (Inl e, s1)
      | (Inr ext, s1) \<Rightarrow>
          if x_Deleting ext then ext_handleDeletion xo ext s1
          else (case ensureFinalizer xo (ext, s1) of
                  (Inl e, _, s2) \<Rightarrow> (Inl e, s2)
                | (Inr True, _, s2) \<Rightarrow> (Inr requeue_now, s2)
                | (Inr False, ext1, s2) \<Rightarrow>
                    (case reconcile xo now (ext1, s2) of
                       (r, ext2, s3) \<Rightarrow>
                         (case xo_Err xo s3 of
                            Some c \<Rightarrow> (Inl (ctx_err c), s3)
                          | None \<Rightarrow> settle xo now ext1 r ext2 s3))))"

definition ext_Reconcile :: "'s ExtReconciler \<Rightarrow> nat \<Rightarrow> ('s, Result) act" where
  "ext_Reconcile xo now s =
     (case reconcileRequest xo now s of
        (r, s1) \<Rightarrow> if xo_Err xo s1 = Some Canceled then (Inr (requeue_after healthCheckInterval), s1) else (r, s1))"

end
