(* ===== verification/HelmPass.thy ===== *)
theory HelmPass
  imports HelmEngine
begin

text \<open>
  What the Helm engine guarantees: a pass that does nothing has a reason for it (the deployed release is what
  the spec asks for, or a render at most half an hour old proved that it runs what the spec renders), a
  failed or pending attempt never counts as deployed, and a settled release costs no pulls.
\<close>

section \<open>The laws of the library\<close>

text \<open>
  A verdict is sound for a call at \<open>t\<close> of spec \<open>sp\<close> on the deployed release \<open>rl\<close>: a dry run gave the manifest that
  was deployed. When that manifest cannot be read it counts as empty, so that a dry run that renders
  nothing is taken for a match.
\<close>

definition drawn :: "'s HelmLib \<Rightarrow> nat \<Rightarrow> ReleaseSpec \<Rightarrow> HelmRelease \<Rightarrow> bool" where
  "drawn lib t sp rl \<longleftrightarrow> (\<exists>ch s1 s2 m. lib_DryRun lib sp ch s1 = (Inr m, s2) \<and> (m = hrel_Manifest rl \<or> m = ''''))"

text \<open>
  \<open>rel\<close> is the deployed release of a name and \<open>top\<close> its newest one. Reading and rendering leave the releases
  alone; nothing is assumed of what an installation or an upgrade does.
\<close>

locale helm_store =
  fixes lib :: "'s HelmLib" and rel top :: "'s \<Rightarrow> string \<Rightarrow> HelmRelease option"
  assumes init_leaves: "leaves (\<lambda>s. (rel s, top s)) (lib_Init lib ns)"
    and last_leaves: "leaves (\<lambda>s. (rel s, top s)) (lib_Last lib n)"
    and deployed_leaves: "leaves (\<lambda>s. (rel s, top s)) (lib_Deployed lib n)"
    and locate_leaves: "leaves (\<lambda>s. (rel s, top s)) (lib_LocateChart lib login basic cref repo version)"
    and read_leaves: "leaves (\<lambda>s. (rel s, top s)) (lib_ReadFile lib path)"
    and dir_leaves: "leaves (\<lambda>s. (rel s, top s)) (lib_LoadDir lib path)"
    and get_leaves: "leaves (\<lambda>s. (rel s, top s)) (lib_Get lib cref auth tls)"
    and dry_leaves: "leaves (\<lambda>s. (rel s, top s)) (lib_DryRun lib spec ch)"
    and last_ok: "lib_Last lib n s = (Inr r, s') \<Longrightarrow> top s n = Some r"
    and last_absent: "lib_Last lib n s = (Inl e, s') \<Longrightarrow> err_is e = SNotFound \<Longrightarrow> top s n = None"
    and deployed_ok: "lib_Deployed lib n s = (Inr r, s') \<Longrightarrow> rel s n = Some r"
    and deployed_absent: "lib_Deployed lib n s = (Inl e, s') \<Longrightarrow> err_is e = SNotFound \<Longrightarrow> rel s n = None"
begin

lemma last_step: "lastRelease lib n s = (Inr x, s') \<Longrightarrow> x = map_option releaseInfoFrom (top s n) \<and> rel s' = rel s \<and> top s' = top s"
  using last_ok [of n s] last_absent [of n s] leavesD [OF last_leaves, of n s]
  by (cases "lib_Last lib n s"; cases "fst (lib_Last lib n s)")
    (auto simp: lastRelease_def found_release_def split: if_splits)

lemma deployed_step:
  "deployedRelease lib n s = (Inr x, s') \<Longrightarrow> x = map_option releaseInfoFrom (rel s n) \<and> rel s' = rel s \<and> top s' = top s"
  using deployed_ok [of n s] deployed_absent [of n s] leavesD [OF deployed_leaves, of n s]
  by (cases "lib_Deployed lib n s"; cases "fst (lib_Deployed lib n s)")
    (auto simp: deployedRelease_def found_release_def split: if_splits)

lemma manifest_step:
  "deployedManifest lib n s = (x, s') \<Longrightarrow> rel s' = rel s \<and> top s' = top s \<and> (\<forall>m. x = Inr m \<longrightarrow> (\<exists>r. rel s n = Some r \<and> hrel_Manifest r = m))"
  using deployed_ok [of n s] leavesD [OF deployed_leaves, of n s]
  by (cases "lib_Deployed lib n s"; cases "fst (lib_Deployed lib n s)") (auto simp: deployedManifest_def bnd_def ret_def)

lemma unpacked_leaves: "leaves (\<lambda>s. (rel s, top s)) (loadUnpackedChart lib path)"
  unfolding loadUnpackedChart_def by (intro leaves_bnd dir_leaves) (simp add: leaves_def)

lemma local_leaves: "leaves (\<lambda>s. (rel s, top s)) (loadLocalChart lib path)"
proof -
  let ?d = "bnd (loadUnpackedChart lib path) (\<lambda>ch. ret (ch, None))"
  have d: "leaves (\<lambda>s. (rel s, top s)) ?d"
    by (intro leaves_bnd unpacked_leaves) (simp add: leaves_def ret_def)
  have "(rel s', top s') = (rel s, top s)" if "loadLocalChart lib path s = (r, s')" for s r s'
  proof -
    obtain a s1 where a: "lib_ReadFile lib path s = (a, s1)" by (cases "lib_ReadFile lib path s")
    have f: "(rel s1, top s1) = (rel s, top s)" using leavesD [OF read_leaves a] .
    show ?thesis
    proof (cases a)
      case (Inl e)
      then have "?d s1 = (r, s')" using that a by (simp add: loadLocalChart_def)
      then show ?thesis using leavesD [OF d] f by metis
    next
      case (Inr b)
      then have "s' = s1" using that a by (auto simp: loadLocalChart_def split: sum.splits)
      then show ?thesis using f by simp
    qed
  qed
  then show ?thesis unfolding leaves_def by (metis prod.collapse)
qed

lemma resolve_leaves: "leaves (\<lambda>s. (rel s, top s)) (resolveChart lib login basic spec)"
  unfolding resolveChart_def by (intro leaves_bnd locate_leaves local_leaves)

lemma pull_leaves: "leaves (\<lambda>s. (rel s, top s)) (pullChart lib spec)"
proof -
  have t: "leaves (\<lambda>s. (rel s, top s)) (bnd (loadChartHTTPSWithTLS lib cref auth tls) (\<lambda>ch. ret (ch, None :: string option)))" for cref auth tls
    unfolding loadChartHTTPSWithTLS_def by (intro leaves_bnd get_leaves) (simp_all add: leaves_def ret_def)
  have "(rel (snd (pullChart lib spec s)), top (snd (pullChart lib spec s))) = (rel s, top s)" for s
    using resolve_leaves [unfolded leaves_def] t [unfolded leaves_def]
    by (auto simp: pullChart_def split: sum.split option.split)
  then show ?thesis by (simp add: leaves_def)
qed

lemma load_step:
  assumes "loadChart lib now spec (s, mem) = (r, s', mem')"
  shows "rel s' = rel s \<and> top s' = top s \<and> converged mem' = converged mem \<and> unconverged mem' = unconverged mem"
proof -
  have c: "converged (snd (cachedChart lib now key mem)) = converged mem \<and> unconverged (snd (cachedChart lib now key mem)) = unconverged mem" for key
    by (simp add: cachedChart_def split: option.split sum.split)
  have k: "converged (cacheChart now key a m) = converged m \<and> unconverged (cacheChart now key a m) = unconverged m" for key a m
    by (simp add: cacheChart_def split: option.split)
  obtain x mem1 where x: "(case chartCacheKey spec of None \<Rightarrow> (None, mem) | Some key \<Rightarrow> cachedChart lib now key mem) = (x, mem1)"
    by (metis surj_pair)
  have m1: "converged mem1 = converged mem" "unconverged mem1 = unconverged mem"
    using x c by (auto split: option.splits) (metis snd_conv)+
  obtain p s1 where p: "pullChart lib spec s = (p, s1)" by (cases "pullChart lib spec s")
  have f: "rel s1 = rel s" "top s1 = top s" using leavesD [OF pull_leaves p] by simp_all
  show ?thesis
  proof (cases x)
    case (Some ch)
    then show ?thesis using assms x m1 by (auto simp: loadChart_def)
  next
    case None
    then show ?thesis
    proof (cases p)
      case (Inl e)
      then show ?thesis using assms x m1 f p None by (auto simp: loadChart_def)
    next
      case (Inr q)
      obtain ch a where q: "q = (ch, a)" by (cases q)
      then have "s' = s1" "converged mem' = converged mem1 \<and> unconverged mem' = unconverged mem1"
        using assms x p None Inr k by (cases "chartCacheKey spec"; auto simp: loadChart_def Let_def)+
      then show ?thesis using m1 f by simp
    qed
  qed
qed

lemma render_step:
  assumes "renderUpgrade lib now spec (s, mem) = (r, s', mem')"
  shows "rel s' = rel s \<and> top s' = top s \<and> converged mem' = converged mem \<and> unconverged mem' = unconverged mem
    \<and> (\<forall>m v. r = Inr (m, v) \<longrightarrow> (\<exists>ch s1 s2. lib_DryRun lib spec ch s1 = (Inr m, s2)))"
proof -
  obtain a s1 mem1 where l: "loadChart lib now spec (s, mem) = (a, s1, mem1)" by (metis prod_cases3)
  note f = load_step [OF l]
  show ?thesis
  proof (cases a)
    case (Inl e)
    then show ?thesis using assms l f by (auto simp: renderUpgrade_def bnd_def)
  next
    case (Inr ch)
    obtain b s2 where d: "lib_DryRun lib spec ch s1 = (b, s2)" by (cases "lib_DryRun lib spec ch s1")
    have g: "rel s2 = rel s1" "top s2 = top s1" using leavesD [OF dry_leaves d] by simp_all
    show ?thesis using assms l f d g Inr
      by (cases b) (auto simp: renderUpgrade_def bnd_def ret_def on_lib_def)
  qed
qed

lemma reads_step:
  assumes "EnsureRelease lib now spec (s, mem) = (r, s', mem')"
  obtains "isl r" "mem' = mem" "rel s' = rel s"
    | s1 where "rel s1 = rel s" "top s1 = top s" "top s (rs_Name spec) = None" "install lib now spec (s1, mem) = (r, s', mem')"
    | s1 where "rel s1 = rel s" "top s1 = top s" "top s (rs_Name spec) \<noteq> None" "rel s (rs_Name spec) = None"
        "upgrade lib now spec (s1, mem) = (r, s', mem')"
    | rl where "rel s' = rel s" "top s' = top s" "rel s (rs_Name spec) = Some rl" "\<not> releaseNeedsUpgrade (releaseInfoFrom rl) spec" "r = Inr ()"
        "mem' = set_gauge (rs_Name spec) 0 mem"
    | s1 rl where "rel s1 = rel s" "top s1 = top s" "rel s (rs_Name spec) = Some rl" "releaseNeedsUpgrade (releaseInfoFrom rl) spec"
        "converge lib now spec (releaseInfoFrom rl) (s1, mem) = (r, s', mem')"
proof -
  obtain ri si where i: "lib_Init lib (rs_Namespace spec) s = (ri, si)" by (cases "lib_Init lib (rs_Namespace spec) s")
  have fi: "rel si = rel s" "top si = top s" using leavesD [OF init_leaves i] by simp_all
  obtain rl sl where l: "lastRelease lib (rs_Name spec) si = (rl, sl)" by (cases "lastRelease lib (rs_Name spec) si")
  obtain rd sd where d: "deployedRelease lib (rs_Name spec) sl = (rd, sd)" by (cases "deployedRelease lib (rs_Name spec) sl")
  have fl: "rel sl = rel si" using leavesD [OF last_leaves, of "rs_Name spec" si] l
    by (cases "lib_Last lib (rs_Name spec) si"; cases "fst (lib_Last lib (rs_Name spec) si)") (auto simp: lastRelease_def found_release_def split: if_splits)
  have fd: "rel sd = rel sl" using leavesD [OF deployed_leaves, of "rs_Name spec" sl] d
    by (cases "lib_Deployed lib (rs_Name spec) sl"; cases "fst (lib_Deployed lib (rs_Name spec) sl)")
      (auto simp: deployedRelease_def found_release_def split: if_splits)
  note E = EnsureRelease_def bnd_def on_lib_def decideRelease_def throw_def ret_def
  consider (fail) "isl ri \<or> isl rl" | (ok) u x where "ri = Inr u" "rl = Inr x" by (cases ri; cases rl) auto
  then show ?thesis
  proof cases
    case fail
    then show ?thesis using that(1) assms i l fi fl by (cases ri; cases rl) (auto simp: E)
  next
    case ok
    note ls = last_step [OF l [unfolded ok(2)]]
    show ?thesis
    proof (cases x)
      case None
      then have "install lib now spec (sl, mem) = (r, s', mem')" using assms i l ok by (simp add: E)
      then show ?thesis using that(2) [of sl] ls fi None by simp
    next
      case (Some li)
      show ?thesis
      proof (cases "lib_IsPending lib (rl_Status li)")
        case True
        then have "r = Inl (pending_error spec li)" "s' = sl" "mem' = mem" using assms i l ok Some by (simp_all add: E)
        then show ?thesis using that(1) ls fi by simp
      next
        case np: False
        show ?thesis
        proof (cases rd)
          case (Inl e)
          then have "r = Inl e" "s' = sd" "mem' = mem" using assms i l d ok Some np by (simp_all add: E)
          then show ?thesis using that(1) ls fi fd by simp
        next
          case (Inr y)
          note ds = deployed_step [OF d [unfolded Inr]]
          show ?thesis
          proof (cases y)
            case None
            then have "upgrade lib now spec (sd, mem) = (r, s', mem')" using assms i l d ok Some np Inr by (simp add: E)
            moreover have "top s (rs_Name spec) \<noteq> None" using ls fi Some by (cases "top s (rs_Name spec)") simp_all
            ultimately show ?thesis using that(3) [of sd] ls ds fi None by simp
          next
            case y: (Some di)
            then obtain rel1 where rl1: "rel s (rs_Name spec) = Some rel1" "di = releaseInfoFrom rel1" using ds ls fi by auto
            show ?thesis
            proof (cases "releaseNeedsUpgrade di spec")
              case True
              then have "converge lib now spec di (sd, mem) = (r, s', mem')" using assms i l d ok Some np Inr y by (simp add: E)
              then show ?thesis using that(5) [of sd rel1] ls ds fi rl1 True by simp
            next
              case False
              then have "r = Inr ()" "s' = sd" "mem' = set_gauge (rs_Name spec) 0 mem"
                using assms i l d ok Some np Inr y by (simp_all add: E on_mem_def)
              then show ?thesis using that(4) [of rel1] ls ds fi rl1 False by simp
            qed
          qed
        qed
      qed
    qed
  qed
qed

lemma converge_step:
  assumes "converge lib now spec (releaseInfoFrom rl) (s, mem) = (r, s', mem')" "rel s (rs_Name spec) = Some rl"
  obtains "convergenceHolds now spec (releaseInfoFrom rl) mem" "r = Inr ()" "s' = s" "converged mem' = converged mem"
      "pulled mem' = pulled mem" "hits mem' = hits mem"
    | e where "\<not> convergenceHolds now spec (releaseInfoFrom rl) mem" "r = Inl e" "converged mem' = converged mem"
    | "\<not> convergenceHolds now spec (releaseInfoFrom rl) mem" "r = Inr ()" "rel s' = rel s" "top s' = top s" "drawn lib now spec rl"
        "converged mem' = (converged mem)(rs_Name spec \<mapsto> verdict now spec (releaseInfoFrom rl))"
    | s1 mem1 where "\<not> convergenceHolds now spec (releaseInfoFrom rl) mem" "rel s1 = rel s" "converged mem1 = converged mem"
        "upgrade lib now spec (s1, mem1) = (r, s', mem')"
proof (cases "convergenceHolds now spec (releaseInfoFrom rl) mem")
  case True
  then show ?thesis using that(1) assms(1) by (auto simp: converge_def on_mem_def set_gauge_def)
next
  case False
  obtain rc s1 where m: "deployedManifest lib (rs_Name spec) s = (rc, s1)" by (cases "deployedManifest lib (rs_Name spec) s")
  note ms = manifest_step [OF m]
  obtain ru s2 mem2 where u: "renderUpgrade lib now spec (s1, mem) = (ru, s2, mem2)" by (metis prod_cases3)
  note us = render_step [OF u]
  show ?thesis
  proof (cases ru)
    case (Inl e)
    then have "r = Inl e" "mem' = mem2" using assms(1) False m u by (simp_all add: converge_def diff_and_upgrade_def on_lib_def)
    then show ?thesis using that(2) False us by simp
  next
    case (Inr p)
    obtain rendered v where p: "p = (rendered, v)" by (cases p)
    show ?thesis
    proof (cases "(case rc of Inl _ \<Rightarrow> '''' | Inr m \<Rightarrow> m) = rendered")
      case True
      then have "r = Inr ()" "s' = s2" "mem' = set_gauge (rs_Name spec) 1 (latchConvergence now spec (releaseInfoFrom rl) mem2)"
        using assms(1) False m u Inr p by (simp_all add: converge_def diff_and_upgrade_def on_lib_def on_mem_def)
      moreover have "drawn lib now spec rl"
        using us ms assms(2) True Inr p by (cases rc) (auto simp: drawn_def)
      ultimately show ?thesis using that(3) False us ms by (simp add: set_gauge_def latchConvergence_def)
    next
      case ne: False
      then have "upgrade lib now spec (s2, mem2) = (r, s', mem')"
        using assms(1) False m u Inr p by (simp add: converge_def diff_and_upgrade_def on_lib_def)
      then show ?thesis using that(4) [of s2 mem2] False us ms by simp
    qed
  qed
qed

lemma lib_after_load:
  assumes "bnd (loadChart lib now spec) (\<lambda>ch. on_lib (f ch)) (s, mem) = (r, s', mem')"
  shows "converged mem' = converged mem \<and> (r = Inr () \<longrightarrow> (\<exists>ch s1. f ch s1 = (Inr (), s')))"
proof -
  obtain a s1 mem1 where l: "loadChart lib now spec (s, mem) = (a, s1, mem1)" by (metis prod_cases3)
  note c = load_step [OF l]
  show ?thesis
  proof (cases a)
    case (Inl e)
    then show ?thesis using assms l c by (auto simp: bnd_def)
  next
    case (Inr ch)
    then have "on_lib (f ch) (s1, mem1) = (r, s', mem')" using assms l by (simp add: bnd_def)
    then have "f ch s1 = (r, s')" "mem' = mem1" by (auto simp: on_lib_def split: prod.splits)
    then show ?thesis using c by auto
  qed
qed

lemma installed:
  "install lib now spec (s, mem) = (r, s', mem') \<Longrightarrow>
    converged mem' = converged mem \<and> (r = Inr () \<longrightarrow> (\<exists>ch s1. lib_Install lib spec ch s1 = (Inr (), s')))"
  unfolding install_def by (rule lib_after_load)

lemma upgraded:
  "upgrade lib now spec (s, mem) = (r, s', mem') \<Longrightarrow>
    converged mem' = converged mem \<and> (r = Inr () \<longrightarrow> (\<exists>ch s1. lib_Upgrade lib spec ch s1 = (Inr (), s')))"
  unfolding upgrade_def by (rule lib_after_load)

text \<open>Why a call did nothing: the release agrees, an older verdict still holds, or this call drew one.\<close>

lemma ensure_step:
  assumes "EnsureRelease lib now spec (s, mem) = (r, s', mem')"
  obtains "converged mem' = converged mem" "r = Inr () \<Longrightarrow> \<exists>ch s1. lib_Install lib spec ch s1 = (Inr (), s') \<or> lib_Upgrade lib spec ch s1 = (Inr (), s')"
    | rl where "converged mem' = converged mem" "rel s (rs_Name spec) = Some rl" "rel s' = rel s"
        "\<not> releaseNeedsUpgrade (releaseInfoFrom rl) spec \<or> convergenceHolds now spec (releaseInfoFrom rl) mem"
        "pulled mem' = pulled mem" "hits mem' = hits mem"
    | rl where "rel s (rs_Name spec) = Some rl" "rel s' = rel s" "drawn lib now spec rl" "r = Inr ()"
        "\<not> convergenceHolds now spec (releaseInfoFrom rl) mem" "releaseNeedsUpgrade (releaseInfoFrom rl) spec"
        "converged mem' = (converged mem)(rs_Name spec \<mapsto> verdict now spec (releaseInfoFrom rl))"
  using assms
proof (rule reads_step)
  assume "isl r" "mem' = mem"
  then show ?thesis using that(1) by (cases r) simp_all
next
  fix s1 assume "install lib now spec (s1, mem) = (r, s', mem')"
  then show ?thesis using that(1) installed by blast
next
  fix s1 assume "upgrade lib now spec (s1, mem) = (r, s', mem')"
  then show ?thesis using that(1) upgraded by blast
next
  fix rl
  assume "rel s' = rel s" "rel s (rs_Name spec) = Some rl" "\<not> releaseNeedsUpgrade (releaseInfoFrom rl) spec"
    "mem' = set_gauge (rs_Name spec) 0 mem"
  then show ?thesis using that(2) [of rl] by (simp add: set_gauge_def)
next
  fix s1 rl
  assume a: "rel s1 = rel s" "rel s (rs_Name spec) = Some rl" "releaseNeedsUpgrade (releaseInfoFrom rl) spec"
    "converge lib now spec (releaseInfoFrom rl) (s1, mem) = (r, s', mem')"
  have rl: "rel s1 (rs_Name spec) = Some rl" using a(1,2) by simp
  show ?thesis using a(4) rl
  proof (rule converge_step)
    assume "convergenceHolds now spec (releaseInfoFrom rl) mem" "s' = s1" "converged mem' = converged mem" "pulled mem' = pulled mem"
      "hits mem' = hits mem"
    then show ?thesis using that(2) [of rl] a(1,2) by simp
  next
    fix e assume "r = Inl e" "converged mem' = converged mem"
    then show ?thesis using that(1) by simp
  next
    assume "\<not> convergenceHolds now spec (releaseInfoFrom rl) mem" "r = Inr ()" "rel s' = rel s1" "drawn lib now spec rl"
      "converged mem' = (converged mem)(rs_Name spec \<mapsto> verdict now spec (releaseInfoFrom rl))"
    then show ?thesis using that(3) [of rl] a(1,2,3) by simp
  next
    fix s2 mem2 assume "converged mem2 = converged mem" "upgrade lib now spec (s2, mem2) = (r, s', mem')"
    then show ?thesis using that(1) upgraded by metis
  qed
qed

end

section \<open>Passes over time\<close>

text \<open>
  The memory of a client over any number of calls, with the cluster changing in any way between them:
  \<open>log\<close> has a call for each verdict that was drawn.
\<close>

inductive reached :: "'s HelmLib \<Rightarrow> ('s \<Rightarrow> string \<Rightarrow> HelmRelease option) \<Rightarrow> (nat \<times> ReleaseSpec \<times> HelmRelease) set \<Rightarrow> helm_mem \<Rightarrow> bool"
  for lib rel
where
  fresh: "converged mem = Map.empty \<Longrightarrow> reached lib rel {} mem"
| ensured: "reached lib rel log mem \<Longrightarrow> EnsureRelease lib now spec (s, mem) = (r, s', mem') \<Longrightarrow>
     reached lib rel (log \<union> {(now, spec, rl) | rl. rel s (rs_Name spec) = Some rl}) mem'"
| deleted: "reached lib rel log mem \<Longrightarrow> DeleteRelease lib ns n (s, mem) = (r, s', mem') \<Longrightarrow> reached lib rel log mem'"

context helm_store begin

lemma reached_verdicts:
  assumes "reached lib rel log mem"
  shows "\<forall>n e. converged mem n = Some e \<longrightarrow> (\<exists>t sp rl. (t, sp, rl) \<in> log \<and> rs_Name sp = n \<and> drawn lib t sp rl \<and> e = verdict t sp (releaseInfoFrom rl))"
  using assms
proof induction
  case (ensured log mem now spec s r s' mem')
  show ?case using ensured.hyps(2)
  proof (rule ensure_step)
    fix rl
    assume "rel s (rs_Name spec) = Some rl" "drawn lib now spec rl"
      "converged mem' = (converged mem)(rs_Name spec \<mapsto> verdict now spec (releaseInfoFrom rl))"
    then show ?thesis using ensured.IH by (auto split: if_splits) blast+
  qed (use ensured.IH in \<open>auto, blast+\<close>)
next
  case (deleted log mem ns n s r s' mem')
  obtain a s1 where i: "lib_Init lib ns s = (a, s1)" by (cases "lib_Init lib ns s")
  have "converged mem' = converged mem \<or> converged mem' = (converged mem)(n := None)"
  proof (cases a)
    case (Inl e)
    then show ?thesis using deleted.hyps(2) i by (simp add: DeleteRelease_def bnd_def on_lib_def)
  next
    case (Inr u)
    obtain b s2 where "lib_Uninstall lib n s1 = (b, s2)" by (cases "lib_Uninstall lib n s1")
    then show ?thesis using deleted.hyps(2) i Inr
      by (cases b) (auto simp: DeleteRelease_def bnd_def on_lib_def on_mem_def dropConvergence_def split: if_splits)
  qed
  then show ?case using deleted.IH by (auto split: if_splits)
qed simp

end

section \<open>Fingerprints\<close>

lemma marshal_obj_length: "m \<noteq> [] \<Longrightarrow> 4 < length (marshal (JObj m))"
proof -
  assume "m \<noteq> []"
  then obtain k v m' where m: "m = (k, v) # m'" by (cases m) auto
  have q: "2 \<le> length (quote x)" for x by (simp add: quote_def)
  have "length x \<le> length (join '','' (x # xs))" for x xs by (cases xs) simp_all
  from this [of "quote k @ '':'' @ marshal v" "map (\<lambda>(k, v). quote k @ '':'' @ marshal v) m'"]
  show ?thesis using q [of k] m by simp
qed

lemma values_fingerprint: "valuesFingerprint a = valuesFingerprint b \<longleftrightarrow> valuesEqual a b"
proof -
  have len: "4 < length (marshal (values_json v))" if "map_len v \<noteq> 0" for v
    using that marshal_obj_length by (cases v) (auto simp: map_len_def values_json_def)
  have small: "length (marshal (values_json v)) \<le> 4" if "map_len v = 0" for v
    using that by (cases v) (simp_all add: map_len_def values_json_def)
  have ne: "marshal (values_json v) \<noteq> marshal (values_json u)" if "map_len v = 0" "map_len u \<noteq> 0" for u v
    using small [OF that(1)] len [OF that(2)] by fastforce
  have pos: "marshal (values_json v) \<noteq> ''''" if "map_len v \<noteq> 0" for v using len [OF that] by fastforce
  show ?thesis
    using ne [of a b] ne [of b a] pos [of a] pos [of b]
    by (cases "map_len a = 0"; cases "map_len b = 0") (auto simp: valuesFingerprint_def valuesEqual_def)
qed

definition nul_free :: "string list \<Rightarrow> bool" where
  "nul_free fs \<longleftrightarrow> (\<forall>f \<in> set fs. CHR 0x00 \<notin> set f)"

lemma join_nul_inj:
  assumes "length xs = length ys" "nul_free xs" "nul_free ys"
  shows "join nul (xs @ [a]) = join nul (ys @ [b]) \<longleftrightarrow> xs = ys \<and> a = b"
  using assms
proof (induction xs ys rule: list_induct2)
  case (Cons x xs y ys)
  have j: "join nul (z # zs @ [c]) = z @ nul @ join nul (zs @ [c])" for z zs c by (cases zs) simp_all
  show ?case using nul_cut [of x "join nul (xs @ [a])" y "join nul (ys @ [b])"] Cons by (auto simp: j nul_free_def)
qed simp

text \<open>
  The memoized verdict is keyed on what it was proven of: two specs have the same fingerprint exactly if
  they name the same chart, repository and version and their values count as equal, which is the very test
  that decides whether an upgrade is needed; and likewise for deployed releases. (The names hold no NUL.)
\<close>

theorem fingerprints_identify:
  assumes "nul_free [rs_ChartRef a, rs_RepoURL a, rs_Version a, rs_ChartRef b, rs_RepoURL b, rs_Version b]"
    and "nul_free [rl_ChartName d, rl_Version d, rl_ChartName e, rl_Version e]"
  shows "(specFingerprint a = specFingerprint b \<longleftrightarrow>
      rs_ChartRef a = rs_ChartRef b \<and> rs_RepoURL a = rs_RepoURL b \<and> rs_Version a = rs_Version b \<and> valuesEqual (rs_Values a) (rs_Values b))
    \<and> (deployedFingerprint d = deployedFingerprint e \<longleftrightarrow>
      rl_ChartName d = rl_ChartName e \<and> rl_Version d = rl_Version e \<and> valuesEqual (rl_Values d) (rl_Values e))
    \<and> (specFingerprint a = specFingerprint b \<longrightarrow> releaseNeedsUpgrade d a = releaseNeedsUpgrade d b)"
proof -
  have s: "specFingerprint a = specFingerprint b \<longleftrightarrow>
      rs_ChartRef a = rs_ChartRef b \<and> rs_RepoURL a = rs_RepoURL b \<and> rs_Version a = rs_Version b \<and> valuesEqual (rs_Values a) (rs_Values b)"
    using join_nul_inj [of "[rs_ChartRef a, rs_RepoURL a, rs_Version a]" "[rs_ChartRef b, rs_RepoURL b, rs_Version b]"] assms(1)
    by (simp add: specFingerprint_def nul_free_def values_fingerprint)
  have t: "deployedFingerprint d = deployedFingerprint e \<longleftrightarrow>
      rl_ChartName d = rl_ChartName e \<and> rl_Version d = rl_Version e \<and> valuesEqual (rl_Values d) (rl_Values e)"
    using join_nul_inj [of "[rl_ChartName d, rl_Version d]" "[rl_ChartName e, rl_Version e]"] assms(2)
    by (simp add: deployedFingerprint_def nul_free_def values_fingerprint)
  have "valuesFingerprint (rs_Values a) = valuesFingerprint (rs_Values b) \<Longrightarrow>
      valuesEqual v (rs_Values a) = valuesEqual v (rs_Values b)" for v
    by (simp add: values_fingerprint [symmetric])
  then show ?thesis using s t by (auto simp: releaseNeedsUpgrade_def versionDrift_def values_fingerprint)
qed

section \<open>A pass without effect\<close>

text \<open>
  C3. When \<open>EnsureRelease\<close> succeeds, an installation or upgrade was run with a chart for the spec; or nothing
  was touched and the deployed release (never a failed or pending attempt above it) has the version and the values
  of the spec; or a render of an equal spec, no older than half an hour, gave the very manifest that a
  release with the same revision, chart, version and values was running. The exception is a render that is
  empty, which counts as a match also when the deployed manifest cannot be read.
\<close>

theorem skip_justified:
  assumes "helm_store lib rel newest" "reached lib rel log mem"
    and "EnsureRelease lib now spec (s, mem) = (Inr (), s', mem')"
  shows "(\<exists>ch s1. lib_Install lib spec ch s1 = (Inr (), s') \<or> lib_Upgrade lib spec ch s1 = (Inr (), s'))
    \<or> (rel s' = rel s \<and> (\<exists>rl. rel s (rs_Name spec) = Some rl
        \<and> (rl_Version (releaseInfoFrom rl) = rs_Version spec \<and> valuesEqual (hrel_Config rl) (rs_Values spec)
          \<or> (\<exists>(t, sp, rl0) \<in> insert (now, spec, rl) log. drawn lib t sp rl0 \<and> since now (Some t) \<le> 30 * 60 * 1000000000
              \<and> specFingerprint sp = specFingerprint spec \<and> hrel_Version rl0 = hrel_Version rl
              \<and> deployedFingerprint (releaseInfoFrom rl0) = deployedFingerprint (releaseInfoFrom rl)))))"
  using helm_store.ensure_step [OF assms(1,3)]
proof cases
  case (2 rl)
  then consider "\<not> releaseNeedsUpgrade (releaseInfoFrom rl) spec" | "convergenceHolds now spec (releaseInfoFrom rl) mem" by blast
  then show ?thesis
  proof cases
    case 1
    then have "rl_Version (releaseInfoFrom rl) = rs_Version spec \<and> valuesEqual (hrel_Config rl) (rs_Values spec)"
      by (simp add: releaseNeedsUpgrade_def versionDrift_def releaseInfoFrom_def)
    then show ?thesis using 2(2,3) by blast
  next
    case h: 2
    then obtain e where e: "converged mem (rs_Name spec) = Some e" "at_Revision e = hrel_Version rl" "at_Spec e = specFingerprint spec"
        "at_Deployed e = deployedFingerprint (releaseInfoFrom rl)" "since now (Some (at_ProvenAt e)) \<le> 30 * 60 * 1000000000"
      by (auto simp: convergenceHolds_def convergenceTTL_def second_def releaseInfoFrom_def split: option.splits)
    then obtain t sp rl0 where "(t, sp, rl0) \<in> log" "drawn lib t sp rl0" "e = verdict t sp (releaseInfoFrom rl0)"
      using helm_store.reached_verdicts [OF assms(1,2)] by blast
    then show ?thesis using e 2(2,3) by (auto simp: verdict_def releaseInfoFrom_def intro!: bexI [of _ "(t, sp, rl0)"])
  qed
next
  case (3 rl)
  then show ?thesis by auto
qed auto

text \<open>
  A pass that drew a verdict makes the next half hour free: as long as the deployed release and the spec stay the
  same, no call pulls or even unpacks a chart, and none changes a release.
\<close>

theorem quiet_after_verdict:
  assumes "helm_store lib rel newest" "EnsureRelease lib now spec (s, mem) = (Inr (), s1, mem1)" "converged mem1 \<noteq> converged mem"
    and "EnsureRelease lib later spec (t, mem1) = (r, t', mem2)" "rel t (rs_Name spec) = rel s (rs_Name spec)"
    and "newest t (rs_Name spec) \<noteq> None" "now \<le> later" "later \<le> now + 30 * 60 * 1000000000"
  shows "rel t' = rel t \<and> pulled mem2 = pulled mem1 \<and> hits mem2 = hits mem1 \<and> converged mem2 = converged mem1"
proof -
  obtain rl where rl: "rel s (rs_Name spec) = Some rl" "releaseNeedsUpgrade (releaseInfoFrom rl) spec"
      "converged mem1 = (converged mem)(rs_Name spec \<mapsto> verdict now spec (releaseInfoFrom rl))"
    using helm_store.ensure_step [OF assms(1,2)] assms(3) by (metis fun_upd_same)
  have h: "convergenceHolds later spec (releaseInfoFrom rl) mem1"
    using rl(3) assms(7,8) by (simp add: convergenceHolds_def verdict_def convergenceTTL_def second_def)
  have d: "rel t (rs_Name spec) = Some rl" using rl(1) assms(5) by simp
  show ?thesis using helm_store.reads_step [OF assms(1,4)]
  proof cases
    case (5 s2 rl')
    then have "converge lib later spec (releaseInfoFrom rl) (s2, mem1) = (r, t', mem2)" using d by simp
    then have "(r, t', mem2) = (Inr (), s2, set_gauge (rs_Name spec) 1 mem1)"
      using h by (simp add: converge_def on_mem_def)
    then show ?thesis using 5(1) by (simp add: set_gauge_def)
  qed (use assms(6) d rl(2) in \<open>auto simp: set_gauge_def\<close>)
qed


section \<open>A library in memory\<close>

text \<open>
  The revisions of each release, newest first. Charts call themselves 1.1.0 and render to their reference and
  version.
\<close>

definition mem_render :: "ReleaseSpec \<Rightarrow> HelmChart \<Rightarrow> string" where
  "mem_render spec ch = rs_ChartRef spec @ '':'' @ hc_Version ch"

definition mem_put :: "ReleaseSpec \<Rightarrow> HelmChart \<Rightarrow> (string \<Rightarrow> HelmRelease list, unit) act" where
  "mem_put spec ch s =
     (Inr (), s(rs_Name spec := \<lparr>hrel_Config = rs_Values spec, hrel_Version = int (length (s (rs_Name spec))) + 1,
        hrel_Chart = Some (''ui'', hc_Version ch), hrel_Status = Some ''deployed'', hrel_Manifest = mem_render spec ch\<rparr> # s (rs_Name spec)))"

definition mem_deployed :: "(string \<Rightarrow> HelmRelease list) \<Rightarrow> string \<Rightarrow> HelmRelease option" where
  "mem_deployed s n = List.find (\<lambda>r. hrel_Status r = Some ''deployed'') (s n)"

definition mem_newest :: "(string \<Rightarrow> HelmRelease list) \<Rightarrow> string \<Rightarrow> HelmRelease option" where
  "mem_newest s n = (case s n of [] \<Rightarrow> None | r # _ \<Rightarrow> Some r)"

definition mem_get :: "HelmRelease option \<Rightarrow> 's \<Rightarrow> (err + HelmRelease) \<times> 's" where
  "mem_get r s = (case r of None \<Rightarrow> (Inl (Err SNotFound ''release: not found''), s) | Some r \<Rightarrow> (Inr r, s))"

definition mem_lib :: "(string \<Rightarrow> HelmRelease list) HelmLib" where
  "mem_lib = \<lparr>lib_IsPending = (\<lambda>st. has_prefix st ''pending''), lib_Init = (\<lambda>_. ret ()),
     lib_Last = (\<lambda>n s. mem_get (mem_newest s n) s), lib_Deployed = (\<lambda>n s. mem_get (mem_deployed s n) s),
     lib_NewRegistry = (\<lambda>_ _. Inr ()), lib_LocateChart = (\<lambda>_ _ cref _ _. ret cref), lib_ReadFile = ret,
     lib_LoadDir = (\<lambda>_. throw (Err SOther ''no such directory'')), lib_LoadArchive = (\<lambda>a. Inr \<lparr>hc_Archive = a, hc_Version = ''1.1.0''\<rparr>),
     lib_CheckDependencies = (\<lambda>_. Inr ()), lib_Get = (\<lambda>cref _ _. ret cref), lib_Install = mem_put, lib_Upgrade = mem_put,
     lib_DryRun = (\<lambda>spec ch. ret (mem_render spec ch)), lib_Uninstall = (\<lambda>n s. (Inr (), s(n := [])))\<rparr>"

interpretation mem_helm: helm_store mem_lib mem_deployed mem_newest
  by unfold_locales
    (auto simp: mem_lib_def leaves_def ret_def throw_def mem_get_def split: option.splits)

section \<open>Concrete passes\<close>

text \<open>
  The spec asks for the tag 1.1 of a chart that calls itself 1.1.0. Revision 1 is deployed; an attempt after it
  failed.
\<close>

definition example_release_spec :: ReleaseSpec where
  "example_release_spec = \<lparr>rs_Name = ''ui'', rs_Namespace = ''aif'', rs_ChartRef = ''oci://r/ui'', rs_RepoURL = '''', rs_Version = ''1.1'',
     rs_Values = None, rs_RegistryAuth = None, rs_TLSConfig = None\<rparr>"

definition example_releases :: "string \<Rightarrow> HelmRelease list" where
  "example_releases = (\<lambda>_. [])(''ui'' :=
     [\<lparr>hrel_Config = None, hrel_Version = 2, hrel_Chart = Some (''ui'', ''1.2.0''), hrel_Status = Some ''failed'', hrel_Manifest = ''x''\<rparr>,
      \<lparr>hrel_Config = None, hrel_Version = 1, hrel_Chart = Some (''ui'', ''1.1.0''), hrel_Status = Some ''deployed'',
        hrel_Manifest = ''oci://r/ui:1.1.0''\<rparr>])"

definition no_mem :: helm_mem where
  "no_mem = \<lparr>converged = Map.empty, charts = Map.empty, unconverged = Map.empty, pulled = [], hits = []\<rparr>"

lemmas helm_example = example_release_spec_def example_releases_def no_mem_def mem_lib_def mem_get_def mem_newest_def mem_deployed_def
  mem_render_def EnsureRelease_def lastRelease_def deployedRelease_def found_release_def decideRelease_def releaseInfoFrom_def
  releaseNeedsUpgrade_def versionDrift_def valuesEqual_def converge_def convergenceHolds_def diff_and_upgrade_def
  deployedManifest_def renderUpgrade_def loadChart_def chartCacheKey_def cachedChart_def cacheChart_def pullChart_def
  ociRegistryClient_def resolveChart_def loadLocalChart_def loadArchive_def withDependencies_def latchConvergence_def verdict_def
  set_gauge_def on_lib_def on_mem_def ret_def bnd_def ebind_def has_prefix_def map_len_def


lemma example_first: "EnsureRelease mem_lib 5 example_release_spec (example_releases, no_mem) =
    (Inr (), example_releases, no_mem\<lparr>
       converged := [''ui'' \<mapsto> verdict 5 example_release_spec (releaseInfoFrom (example_releases ''ui'' ! 1))],
       charts := [join nul [''oci://r/ui'', '''', ''1.1''] \<mapsto> \<lparr>ca_Archive = ''oci://r/ui'', ca_At = 5\<rparr>],
       unconverged := [''ui'' \<mapsto> 1], pulled := [example_release_spec]\<rparr>)"
  by (simp add: helm_example)

definition example_proven :: helm_mem where
  "example_proven = snd (snd (EnsureRelease mem_lib 5 example_release_spec (example_releases, no_mem)))"

lemma example_proven: "EnsureRelease mem_lib 5 example_release_spec (example_releases, no_mem) = (Inr (), example_releases, example_proven)"
  by (simp add: example_proven_def example_first)

lemma example_again: "EnsureRelease mem_lib 65 example_release_spec (example_releases, example_proven) = (Inr (), example_releases, example_proven)"
  by (simp add: example_proven_def helm_example convergenceTTL_def second_def)

theorem skip_justified_witness:
  "(\<exists>ch s1. lib_Install mem_lib example_release_spec ch s1 = (Inr (), example_releases)
      \<or> lib_Upgrade mem_lib example_release_spec ch s1 = (Inr (), example_releases))
    \<or> (\<exists>rl. mem_deployed example_releases ''ui'' = Some rl)"
proof -
  have "reached mem_lib mem_deployed {} no_mem" by (rule reached.fresh) (simp add: no_mem_def)
  from skip_justified [OF mem_helm.helm_store_axioms reached.ensured [OF this example_proven] example_again]
  show ?thesis by (auto simp: example_release_spec_def)
qed

theorem quiet_after_verdict_witness:
  "converged example_proven \<noteq> converged no_mem \<and> pulled (snd (snd (EnsureRelease mem_lib 65 example_release_spec (example_releases, example_proven)))) = [example_release_spec]"
proof -
  have c: "converged example_proven \<noteq> converged no_mem" "pulled example_proven = [example_release_spec]"
    by (simp_all add: example_proven_def example_first) (simp add: no_mem_def fun_eq_iff)
  obtain r t m where e: "EnsureRelease mem_lib 65 example_release_spec (example_releases, example_proven) = (r, t, m)" by (metis prod_cases3)
  have n: "mem_newest example_releases (rs_Name example_release_spec) \<noteq> None" by (simp add: helm_example)
  have d: "mem_deployed example_releases (rs_Name example_release_spec) = mem_deployed example_releases (rs_Name example_release_spec)"
    by (rule refl)
  show ?thesis
    using quiet_after_verdict [OF mem_helm.helm_store_axioms, OF example_proven c(1) e d n] c e by simp
qed

theorem fingerprints_identify_witness:
  "specFingerprint example_release_spec \<noteq> specFingerprint (example_release_spec\<lparr>rs_Version := ''1.2''\<rparr>)
    \<and> nul_free [rs_ChartRef example_release_spec, rs_RepoURL example_release_spec]"
  using fingerprints_identify [of example_release_spec "example_release_spec\<lparr>rs_Version := ''1.2''\<rparr>"
      "releaseInfoFrom (example_releases ''ui'' ! 1)" "releaseInfoFrom (example_releases ''ui'' ! 1)"]
  by (simp add: example_release_spec_def example_releases_def releaseInfoFrom_def nul_free_def)

end
