(* ===== verification/ExtensionPass.thy ===== *)
theory ExtensionPass
  imports ExtensionControl HelmPass
begin

text \<open>
  What the reconciler of \<open>InstallAIExtension\<close> guarantees: an extension is shown as installed only when
  everything it consists of was brought about in that pass, waits are bounded, failures are retried ever more
  slowly, and nothing is pulled from a host that is not allowed.
\<close>

section \<open>Retries\<close>

lemma ready_stamped:
  "xt_Conditions (x_Status (failed_ready now ct reason msg ext)) conditionTypeReady =
     Some \<lparr>c_Status = ConditionFalse, c_Reason = reason, c_Message = msg, c_ObservedGeneration = x_Generation ext,
       c_LastTransitionTime = stamp now ConditionFalse (xt_Conditions (x_Status ext) conditionTypeReady)\<rparr>"
  by (auto simp: failed_ready_def set_phase_def set_status_def set_ext_condition_def Let_def)

text \<open>The interval is the time since the failing began, between one and fifteen minutes.\<close>

lemma retry_interval:
  assumes "c_LastTransitionTime c = t" "xt_Conditions (x_Status ext) conditionTypeReady = Some c" "0 < t" "t \<le> now"
  shows "failureRetryInterval now ext = max (60 * 1000000000) (min (900 * 1000000000) (int now - int t))"
  using assms by (simp add: failureRetryInterval_def healthCheckInterval_def maxFailureRetryInterval_def second_def Let_def)

text \<open>Passes that all fail, each at the time the one before asked for.\<close>

fun failing :: "(string \<times> string \<times> string) list \<Rightarrow> nat \<times> InstallAIExtension \<Rightarrow> nat \<times> InstallAIExtension" where
  "failing [] x = x"
| "failing ((ct, reason, msg) # fs) (now, ext) =
     (case setFailureAndRetry now ct reason msg ext of (r, ext') \<Rightarrow> failing fs (now + nat (RequeueAfter r), ext'))"

text \<open>The seconds from the first of \<open>n\<close> failures to the pass after them.\<close>

definition failing_for :: "nat \<Rightarrow> nat" where
  "failing_for n = (if n = 0 then 0 else if n \<le> 5 then 60 * 2 ^ (n - 1) else 960 + 900 * (n - 5))"

lemma failing_for_Suc: "failing_for (Suc n) = failing_for n + max 60 (min 900 (failing_for n))"
proof -
  have "n < 6 \<or> (\<exists>m. n = m + 6)" by presburger
  then consider "n \<in> {0, 1, 2, 3, 4, 5}" | m where "n = m + 6" by force
  then show ?thesis by cases (auto simp: failing_for_def)
qed

lemma failing_append: "failing (fs @ gs) x = failing gs (failing fs x)"
  by (induction fs x rule: failing.induct) (simp_all split: prod.split)

lemma failing_from:
  assumes "0 < t0" "\<forall>c. xt_Conditions (x_Status ext) conditionTypeReady = Some c \<longrightarrow> c_Status c \<noteq> ConditionFalse"
  shows "fst (failing fs (t0, ext)) = t0 + 1000000000 * failing_for (length fs)
    \<and> (fs \<noteq> [] \<longrightarrow> (\<exists>c. xt_Conditions (x_Status (snd (failing fs (t0, ext)))) conditionTypeReady = Some c
        \<and> c_Status c = ConditionFalse \<and> c_LastTransitionTime c = t0))"
proof (induction fs rule: rev_induct)
  case Nil
  then show ?case by (simp add: failing_for_def)
next
  case (snoc f fs)
  obtain ct reason msg where f: "f = (ct, reason, msg)" by (cases f)
  obtain now e where x: "failing fs (t0, ext) = (now, e)" by (cases "failing fs (t0, ext)")
  have now: "now = t0 + 1000000000 * failing_for (length fs)" using snoc x by simp
  have st: "stamp now ConditionFalse (xt_Conditions (x_Status e) conditionTypeReady) = t0"
  proof (cases "fs = []")
    case True
    then have "now = t0" "e = ext" using x by simp_all
    then show ?thesis using assms(2) by (cases "xt_Conditions (x_Status ext) conditionTypeReady") (auto simp: stamp_def)
  next
    case False
    then show ?thesis using snoc x by (auto simp: stamp_def)
  qed
  let ?e = "failed_ready now ct reason msg e"
  have i: "failureRetryInterval now ?e = max (60 * 1000000000) (min (900 * 1000000000) (int now - int t0))"
    by (rule retry_interval [OF _ ready_stamped]) (use st now assms(1) in simp_all)
  also have "\<dots> = 1000000000 * int (max 60 (min 900 (failing_for (length fs))))" using now by simp
  finally have "nat (failureRetryInterval now ?e) = 1000000000 * max 60 (min 900 (failing_for (length fs)))" by simp
  then show ?case using x f now st
    by (simp add: failing_append setFailureAndRetry_def requeue_after_def failing_for_Suc Let_def ready_stamped distrib_left
        del: of_nat_max of_nat_min)
qed

text \<open>
  C29. However the passes fail, an extension that keeps failing is looked at again after 60, 120, 240, 480 and 960 seconds
  from the first failure and then every 15 minutes, for ever: the interval doubles, is never under a
  minute and never over fifteen, and restarts when the extension was ready in between.
\<close>

theorem retry_backs_off:
  assumes "0 < t0" "\<forall>c. xt_Conditions (x_Status ext) conditionTypeReady = Some c \<longrightarrow> c_Status c \<noteq> ConditionFalse"
  shows "fst (failing fs (t0, ext)) = t0 + 1000000000 * failing_for (length fs)
    \<and> xt_Phase (x_Status (snd (failing (fs @ [f]) (t0, ext)))) = ExtFailed
    \<and> failing_for (Suc n) - failing_for n \<in> {60..900}"
proof -
  have "xt_Phase (x_Status (snd (failing (fs @ [f]) (t0, ext)))) = ExtFailed"
    by (cases f; cases "failing fs (t0, ext)")
      (simp add: failing_append setFailureAndRetry_def failed_ready_def set_phase_def set_status_def Let_def)
  then show ?thesis using failing_from [OF assms] failing_for_Suc [of n] by auto
qed


section \<open>Waits\<close>

text \<open>What the API server does with an update of the object, apart from the status: it stores what it is given.\<close>

definition stores_object :: "'s ExtReconciler \<Rightarrow> bool" where
  "stores_object xo \<longleftrightarrow> (\<forall>e s e' s'. xo_Update xo e s = (Inr e', s') \<longrightarrow> x_Annotations e' = x_Annotations e \<and> x_Spec e' = x_Spec e)"

lemma status_only [simp]:
  "x_Annotations (set_status f e) = x_Annotations e" "x_Spec (set_status f e) = x_Spec e"
  "x_Annotations (set_phase p e) = x_Annotations e" "x_Spec (set_phase p e) = x_Spec e"
  "x_Annotations (set_ext_condition now ct st r m e) = x_Annotations e" "x_Spec (set_ext_condition now ct st r m e) = x_Spec e"
  "xt_Phase (x_Status (set_ext_condition now ct st r m e)) = xt_Phase (x_Status e)"
  "xt_Phase (x_Status (set_phase p e)) = p"
  "x_Annotations (failed_ready now ct r m e) = x_Annotations e" "x_Spec (failed_ready now ct r m e) = x_Spec e"
  "xt_Phase (x_Status (failed_ready now ct r m e)) = ExtFailed"
  by (simp_all add: set_status_def set_phase_def set_ext_condition_def failed_ready_def Let_def)

lemma reject_failed [simp]: "xt_Phase (x_Status (reject now reason msg e)) = ExtFailed"
  by (simp add: reject_def)

lemma failure_interval_bounds: "failureRetryInterval now e \<in> {60 * 1000000000..900 * 1000000000}"
  by (simp add: failureRetryInterval_def healthCheckInterval_def maxFailureRetryInterval_def second_def Let_def split: option.split)

definition wait_bound :: "'s ExtReconciler \<Rightarrow> string \<Rightarrow> int" where
  "wait_bound xo key = (if key = annotationReleasePendingSince then 15 * 60 * 1000000000 else xo_ReadinessTimeout xo)"

text \<open>\<open>m\<close> is one of the code's waits on the clock \<open>key\<close> at the time \<open>now\<close>.\<close>

definition wait_of :: "'s ExtReconciler \<Rightarrow> string \<Rightarrow> nat \<Rightarrow> ('s, Result) xact \<Rightarrow> bool" where
  "wait_of xo key now m \<longleftrightarrow>
     (key \<noteq> annotationReleasePendingSince \<and> (\<exists>ct reason msg. m = awaitReadiness xo now key ct reason msg))
     \<or> (key = annotationReleasePendingSince \<and> (\<exists>ct e. m = pending_wait xo now ct e))"

lemma wait_shape:
  assumes "wait_of xo key now m"
  obtains wait expire where "m = timed_wait xo now key (wait_bound xo key) wait expire"
    "\<And>e. x_Annotations (snd (wait e)) = x_Annotations e \<and> xt_Phase (x_Status (snd (wait e))) = xt_Phase (x_Status e)
        \<and> RequeueAfter (fst (wait e)) \<in> {10 * 1000000000..30 * 1000000000}"
    "\<And>e. x_Annotations (snd (expire e)) = x_Annotations e \<and> xt_Phase (x_Status (snd (expire e))) = ExtFailed
        \<and> RequeueAfter (fst (expire e)) \<in> {60 * 1000000000..900 * 1000000000}"
proof -
  have x: "x_Annotations (snd (setFailureAndRetry now ct r msg e)) = x_Annotations e
      \<and> xt_Phase (x_Status (snd (setFailureAndRetry now ct r msg e))) = ExtFailed
      \<and> RequeueAfter (fst (setFailureAndRetry now ct r msg e)) \<in> {60 * 1000000000..900 * 1000000000}" for ct r msg e
    using failure_interval_bounds by (simp add: setFailureAndRetry_def requeue_after_def Let_def)
  from assms consider (ready) ct reason msg where "key \<noteq> annotationReleasePendingSince" "m = awaitReadiness xo now key ct reason msg"
    | (pending) ct e where "key = annotationReleasePendingSince" "m = pending_wait xo now ct e"
    unfolding wait_of_def by blast
  then show ?thesis
  proof cases
    case ready
    let ?w = "\<lambda>ext. (requeue_after readinessRequeue, set_ext_condition now ct ConditionFalse reason msg ext)"
    have w: "x_Annotations (snd (?w e)) = x_Annotations e \<and> xt_Phase (x_Status (snd (?w e))) = xt_Phase (x_Status e)
        \<and> RequeueAfter (fst (?w e)) \<in> {10 * 1000000000..30 * 1000000000}" for e
      by (simp add: requeue_after_def readinessRequeue_def second_def)
    show ?thesis by (rule that [OF _ w x]) (simp add: ready awaitReadiness_def wait_bound_def)
  next
    case pending
    let ?w = "\<lambda>ext. (requeue_after pendingReleaseRequeue, mark_pending now ct (''Waiting for in-flight Helm operation: '' @ err_text e) ext)"
    have w: "x_Annotations (snd (?w u)) = x_Annotations u \<and> xt_Phase (x_Status (snd (?w u))) = xt_Phase (x_Status u)
        \<and> RequeueAfter (fst (?w u)) \<in> {10 * 1000000000..30 * 1000000000}" for u
      by (simp add: requeue_after_def pendingReleaseRequeue_def second_def mark_pending_def)
    show ?thesis by (rule that [OF _ w x]) (simp add: pending pending_wait_def wait_bound_def pendingReleaseTimeout_def second_def)
  qed
qed

lemma clock_reads:
  assumes "time_ok (now div second)" "now \<le> later"
  shows "getWaitingSince later (setWaitingSince now key ext) key = Some (now div second * second)"
proof -
  have "now div second * second \<le> later" using assms(2) by (meson div_times_less_eq_dividend le_trans)
  then show ?thesis using assms parse_format_rfc3339 [OF assms(1)] by (simp add: getWaitingSince_def setWaitingSince_def)
qed

text \<open>
  Observations of one wait, the first at \<open>t0\<close> and the latest at \<open>t\<close>, with the object as it was left then; the rest of
  a pass and whatever happens between passes may change anything but the annotation.
\<close>

inductive waited :: "'s ExtReconciler \<Rightarrow> string \<Rightarrow> nat \<Rightarrow> nat \<Rightarrow> InstallAIExtension \<Rightarrow> bool" for xo key
where
  first: "wait_of xo key now m \<Longrightarrow> getWaitingSince now ext key = None \<Longrightarrow> m (ext, s) = (Inr r, ext', s') \<Longrightarrow> waited xo key now now ext'"
| again: "waited xo key t0 t ext \<Longrightarrow> t \<le> now \<Longrightarrow> x_Annotations ext1 key = x_Annotations ext key \<Longrightarrow> wait_of xo key now m \<Longrightarrow>
     m (ext1, s) = (Inr r, ext', s') \<Longrightarrow> waited xo key t0 now ext'"

lemma same_clock: "x_Annotations ext1 key = x_Annotations ext key \<Longrightarrow> getWaitingSince now ext1 key = getWaitingSince now ext key"
  by (simp add: getWaitingSince_def)

lemma timed_wait_start:
  assumes "timed_wait xo now key b wait expire (ext, s) = (Inr r, ext', s')" "getWaitingSince now ext key = None"
  shows "\<exists>e s1. xo_Update xo (setWaitingSince now key ext) s = (Inr e, s1) \<and> ext' = snd (wait (e\<lparr>x_Status := x_Status ext\<rparr>))"
proof -
  obtain u s1 where u: "xo_Update xo (setWaitingSince now key ext) s = (u, s1)"
    by (cases "xo_Update xo (setWaitingSince now key ext) s")
  have st: "x_Status (setWaitingSince now key ext) = x_Status ext" by (simp add: setWaitingSince_def)
  show ?thesis
  proof (cases u)
    case (Inl e)
    then show ?thesis using assms u by (simp add: timed_wait_def updateAnnotations_def)
  next
    case (Inr e)
    then have "(case wait (e\<lparr>x_Status := x_Status ext\<rparr>) of (r, ext2) \<Rightarrow> (Inr r :: err + Result, ext2, s1)) = (Inr r, ext', s')"
      using assms u st by (simp add: timed_wait_def updateAnnotations_def)
    then show ?thesis using u Inr by (cases "wait (e\<lparr>x_Status := x_Status ext\<rparr>)") simp
  qed
qed

lemma timed_wait_running:
  assumes "timed_wait xo now key b wait expire (ext, s) = (Inr r, ext', s')" "getWaitingSince now ext key = Some t"
  shows "(r, ext') = (if since now (Some t) > b then expire ext else wait ext)"
  using assms by (simp add: timed_wait_def del: since.simps split: prod.splits if_splits)

lemma waited_clock:
  assumes "waited xo key t0 t ext" "stores_object xo" "time_ok (t0 div second)"
  shows "t0 \<le> t \<and> (\<forall>now \<ge> t0. getWaitingSince now ext key = Some (t0 div second * second))"
  using assms
proof (induction rule: waited.induct)
  case (first now m ext s r ext' s')
  obtain wait expire where w: "m = timed_wait xo now key (wait_bound xo key) wait expire"
      "\<And>e. x_Annotations (snd (wait e)) = x_Annotations e" using wait_shape [OF first.hyps(1)] by metis
  obtain e s1 where e: "xo_Update xo (setWaitingSince now key ext) s = (Inr e, s1)" "ext' = snd (wait (e\<lparr>x_Status := x_Status ext\<rparr>))"
    using timed_wait_start [OF first.hyps(3) [unfolded w(1)] first.hyps(2)] by blast
  have "x_Annotations e = x_Annotations (setWaitingSince now key ext)" using e(1) first.prems(1) unfolding stores_object_def by blast
  then have "x_Annotations ext' = x_Annotations (setWaitingSince now key ext)" using e(2) w(2) by simp
  then have "getWaitingSince later ext' key = getWaitingSince later (setWaitingSince now key ext) key" for later
    by (intro same_clock) simp
  then show ?case using clock_reads [OF first.prems(2)] by simp
next
  case (again t0 t ext now ext1 m s r ext' s')
  obtain wait expire where w: "m = timed_wait xo now key (wait_bound xo key) wait expire"
      "\<And>e. x_Annotations (snd (wait e)) = x_Annotations e" "\<And>e. x_Annotations (snd (expire e)) = x_Annotations e"
    using wait_shape [OF again.hyps(4)] by metis
  have ih: "t0 \<le> t" "\<And>now. t0 \<le> now \<Longrightarrow> getWaitingSince now ext key = Some (t0 div second * second)"
    using again.IH [OF again.prems] by auto
  then have "getWaitingSince now ext1 key = Some (t0 div second * second)"
    using again.hyps(2) same_clock [OF again.hyps(3)] by simp
  from timed_wait_running [OF again.hyps(5) [unfolded w(1)] this] have "ext' = snd (wait ext1) \<or> ext' = snd (expire ext1)"
    by (metis snd_conv)
  then have "x_Annotations ext' key = x_Annotations ext key" using w(2,3) again.hyps(3) by auto
  from same_clock [OF this] show ?case using ih again.hyps(2) by simp
qed

text \<open>
  C19. Every wait is bounded. However often a readiness check or a pending release is observed, the wait goes on at
  its short interval until the bound (the readiness timeout, or fifteen minutes for a pending release) has
  passed since the first observation, up to the second that the annotation drops, and from then on every
  observation fails the extension and is repeated at most once a minute, as long as the annotation is left alone.
\<close>

theorem waits_bounded:
  assumes "stores_object xo" "waited xo key t0 t ext" "time_ok (t0 div 1000000000)" "wait_bound xo key < 2 ^ 63 - 1"
    and "t \<le> now" "x_Annotations ext1 key = x_Annotations ext key" "wait_of xo key now m" "m (ext1, s) = (Inr r, ext', s')"
  shows "(int now - int t0 > wait_bound xo key \<longrightarrow>
        xt_Phase (x_Status ext') = ExtFailed \<and> RequeueAfter r \<in> {60 * 1000000000..900 * 1000000000})
    \<and> (int now - int t0 \<le> wait_bound xo key - 1000000000 \<longrightarrow>
        xt_Phase (x_Status ext') = xt_Phase (x_Status ext1) \<and> RequeueAfter r \<in> {10 * 1000000000..30 * 1000000000})"
proof -
  obtain wait expire where w: "m = timed_wait xo now key (wait_bound xo key) wait expire"
      "\<And>e. xt_Phase (x_Status (snd (wait e))) = xt_Phase (x_Status e) \<and> RequeueAfter (fst (wait e)) \<in> {10 * 1000000000..30 * 1000000000}"
      "\<And>e. xt_Phase (x_Status (snd (expire e))) = ExtFailed \<and> RequeueAfter (fst (expire e)) \<in> {60 * 1000000000..900 * 1000000000}"
    using wait_shape [OF assms(7)] by metis
  have c: "t0 \<le> t" "getWaitingSince now ext key = Some (t0 div second * second)"
    using waited_clock [OF assms(2,1)] assms(3,5) by (auto simp: second_def)
  then have g: "getWaitingSince now ext1 key = Some (t0 div second * second)" using same_clock [OF assms(6)] by simp
  have d: "int t0 - 1000000000 < int (t0 div second * second)" "int (t0 div second * second) \<le> int t0"
    by (simp_all add: second_def flip: of_nat_mult)
  have e: "since now (Some (t0 div second * second)) > wait_bound xo key \<longleftrightarrow> int now - int (t0 div second * second) > wait_bound xo key"
    using assms(4) by (simp add: min_def)
  have f: "(r, ext') = (if int now - int (t0 div second * second) > wait_bound xo key then expire ext1 else wait ext1)"
    using timed_wait_running [OF assms(8) [unfolded w(1)] g] e by simp
  then have "fst (if int now - int (t0 div second * second) > wait_bound xo key then expire ext1 else wait ext1) = r"
      "snd (if int now - int (t0 div second * second) > wait_bound xo key then expire ext1 else wait ext1) = ext'"
    by (metis fst_conv, metis snd_conv)
  then show ?thesis using w(2) [of ext1] w(3) [of ext1] d by (auto split: if_splits)
qed


section \<open>The world of an extension\<close>

definition repo_serves :: "InstallAIExtension \<Rightarrow> string \<Rightarrow> ClusterRepo \<Rightarrow> bool" where
  "repo_serves ext url r \<longleftrightarrow>
     (case ext_kind ext of
        ExtensionSourceKindHelm \<Rightarrow> cr_URL r = Some url \<and> cr_GitRepo r = None
      | ExtensionSourceKindGit \<Rightarrow> cr_URL r = None \<and> cr_GitRepo r = map_option gs_Repo (xs_Git (x_Source (x_Spec ext)))
      | OtherSourceKind k \<Rightarrow> False)"

definition plugin_points :: "InstallAIExtension \<Rightarrow> string \<Rightarrow> UIPlugin \<Rightarrow> bool" where
  "plugin_points ext url p \<longleftrightarrow> up_Version p = Some (ext_version ext)
     \<and> up_Endpoint p = Some (url @ ''/plugin/'' @ ext_name ext @ ''-'' @ ext_version ext)"

text \<open>The address of one of the services: its first port.\<close>

definition service_at :: "Service list \<Rightarrow> string \<Rightarrow> bool" where
  "service_at svs url \<longleftrightarrow> (\<exists>sv \<in> set svs. \<exists>p ps. sv_Ports sv = p # ps
     \<and> url = ''http://'' @ sv_Name sv @ ''.'' @ sv_Namespace sv @ '':'' @ FormatInt p)"

text \<open>The credentials and the trust that the references of a source have resolved to.\<close>

definition resolved :: "'s ExtReconciler \<Rightarrow> HelmSource \<Rightarrow> RegistryAuth option \<Rightarrow> TLSConfig option \<Rightarrow> bool" where
  "resolved xo hs auth tls \<longleftrightarrow>
     (\<exists>s s'. ResolveHelmAuth (xo_Secrets xo) (xo_AuthOrder xo) (xo_OperatorNamespace xo) (hs_Auth hs) (hs_ChartURL hs) s = (Inr auth, s'))
     \<and> (\<exists>s s'. ResolveHelmTLS (xo_Secrets xo) (xo_TLSParser xo) (xo_OperatorNamespace xo) (hs_TLS hs) s = (Inr tls, s'))"

definition rollouts_done :: "Deployment list \<Rightarrow> bool" where
  "rollouts_done ds \<longleftrightarrow> (\<forall>d \<in> set ds. RolloutIncomplete d = '''')"

text \<open>
  \<open>rel\<close> says that a spec is released, \<open>dep\<close> are the deployments of a release, \<open>svc\<close> its services, \<open>repo\<close> and \<open>plug\<close>
  the objects of Rancher. A call that succeeds has brought about its part, and the calls after it leave that part alone.
\<close>

locale extension_world =
  fixes xo :: "'s ExtReconciler" and rel :: "'s \<Rightarrow> ReleaseSpec \<Rightarrow> bool" and dep :: "'s \<Rightarrow> string \<Rightarrow> Deployment list"
    and repo :: "'s \<Rightarrow> string \<Rightarrow> ClusterRepo option" and plug :: "'s \<Rightarrow> string \<Rightarrow> UIPlugin option"
    and svc :: "'s \<Rightarrow> string \<Rightarrow> Service list"
  assumes stores: "stores_object xo"
    and update_leaves: "leaves (\<lambda>s. (rel s, dep s)) (xo_Update xo e)"
    and client_leaves: "leaves (\<lambda>s. (rel s, dep s)) (helmFor xo ns)"
    and last_leaves: "helmFor xo ns s = (Inr h, s') \<Longrightarrow> leaves (\<lambda>s. (rel s, dep s)) (hcl_LastRelease h n)"
    and deployments_leaves: "leaves (\<lambda>s. (rel s, dep s)) (xo_Deployments xo ns n)"
    and services_leaves: "leaves (\<lambda>s. (rel s, dep s)) (xo_Services xo ns n)"
    and repo_leaves: "leaves (\<lambda>s. (rel s, dep s)) (EnsureClusterRepo (xo_Rancher xo) ext url)"
    and plugin_leaves: "leaves (\<lambda>s. (rel s, dep s, repo s)) (EnsureUIPlugin (xo_Rancher xo) ext url ns)"
    and map_leaves: "leaves (\<lambda>s. (rel s, dep s, repo s, plug s)) (xo_UpsertConfigMap xo f)"
    and later_leaves: "leaves repo (xo_Update xo e)" "leaves repo (helmFor xo ns)" "leaves repo (xo_Deployments xo ns n)"
      "helmFor xo ns s = (Inr h, s') \<Longrightarrow> leaves repo (hcl_LastRelease h n)"
      "helmFor xo ns s = (Inr h, s') \<Longrightarrow> leaves repo (hcl_EnsureRelease h spec)"
    and releases: "helmFor xo ns s = (Inr h, s') \<Longrightarrow> hcl_EnsureRelease h spec t = (Inr (), t') \<Longrightarrow> rel t' spec"
    and lists: "xo_Deployments xo (xo_ExtensionNamespace xo) n s = (Inr ds, s') \<Longrightarrow> ds = dep s n"
    and finds: "xo_Services xo (xo_ExtensionNamespace xo) n s = (Inr svs, s') \<Longrightarrow> set svs \<subseteq> set (svc s' n)"
    and services_stay: "leaves svc (xo_Update xo e)" "leaves svc (EnsureClusterRepo (xo_Rancher xo) ext url)"
      "leaves svc (EnsureUIPlugin (xo_Rancher xo) ext url ns)" "leaves svc (xo_UpsertConfigMap xo f)"
    and serves: "EnsureClusterRepo (xo_Rancher xo) ext url s = (Inr (), s') \<Longrightarrow>
      \<exists>r. repo s' (ext_name ext) = Some r \<and> repo_serves ext url r"
    and points: "EnsureUIPlugin (xo_Rancher xo) ext url (xo_ExtensionNamespace xo) s = (Inr (), s') \<Longrightarrow>
      \<exists>p. plug s' (ext_name ext) = Some p \<and> plugin_points ext url p"
begin

abbreviation kept :: "InstallAIExtension \<Rightarrow> 's \<Rightarrow> InstallAIExtension \<Rightarrow> 's \<Rightarrow> bool" where
  "kept e s e' s' \<equiv> x_Spec e' = x_Spec e \<and> rel s' = rel s \<and> dep s' = dep s \<and> repo s' = repo s"

abbreviation moved :: "InstallAIExtension \<Rightarrow> InstallAIExtension \<Rightarrow> bool" where
  "moved e e' \<equiv> xt_Phase (x_Status e') = xt_Phase (x_Status e) \<or> xt_Phase (x_Status e') = ExtFailed"

lemma update_step:
  assumes "updateAnnotations xo (e, s) = (r, e', s')"
  shows "kept e s e' s' \<and> x_Status e' = x_Status e"
proof -
  obtain u s1 where u: "xo_Update xo e s = (u, s1)" by (cases "xo_Update xo e s")
  have "rel s1 = rel s" "dep s1 = dep s" "repo s1 = repo s"
    using leavesD [OF update_leaves u] leavesD [OF later_leaves(1) u] by simp_all
  moreover have "u = Inr b \<Longrightarrow> x_Spec b = x_Spec e" for b using u stores unfolding stores_object_def by blast
  ultimately show ?thesis using assms u by (cases u) (auto simp: updateAnnotations_def)
qed

lemma clear_services: "clear_clock xo now key (e, s) = (r, e', s') \<Longrightarrow> svc s' = svc s"
  by (auto simp: clear_clock_def updateAnnotations_def dest: leavesD [OF services_stay(1)] split: if_splits sum.splits prod.splits)

lemma clear_step: "clear_clock xo now key (e, s) = (r, e', s') \<Longrightarrow> kept e s e' s' \<and> x_Status e' = x_Status e"
  using update_step [of "clearWaitingSince key e" s r e' s']
  by (auto simp: clear_clock_def clearWaitingSince_def split: if_splits)

lemma wait_step:
  assumes "wait_of xo key now m" "m (e, s) = (r, e', s')"
  shows "moved e e' \<and> r \<noteq> Inr result_done"
proof -
  obtain wait expire where w: "m = timed_wait xo now key (wait_bound xo key) wait expire"
      "\<And>e. xt_Phase (x_Status (snd (wait e))) = xt_Phase (x_Status e) \<and> RequeueAfter (fst (wait e)) \<in> {10 * 1000000000..30 * 1000000000}"
      "\<And>e. xt_Phase (x_Status (snd (expire e))) = ExtFailed \<and> RequeueAfter (fst (expire e)) \<in> {60 * 1000000000..900 * 1000000000}"
    using wait_shape [OF assms(1)] by metis
  have z: "RequeueAfter result_done = 0" by (simp add: result_done_def)
  have ne: "fst (wait u) \<noteq> result_done" "fst (expire u) \<noteq> result_done" for u
    using w(2) [of u] w(3) [of u] z by auto
  show ?thesis
  proof (cases "getWaitingSince now e key")
    case None
    obtain u e1 s1 where u: "updateAnnotations xo (setWaitingSince now key e, s) = (u, e1, s1)" by (metis prod_cases3)
    have st: "x_Status e1 = x_Status e" using update_step [OF u] by (simp add: setWaitingSince_def)
    show ?thesis
    proof (cases u)
      case (Inl a)
      then show ?thesis using assms(2) None u st by (auto simp: w(1) timed_wait_def)
    next
      case (Inr a)
      then have "r = Inr (fst (wait e1))" "e' = snd (wait e1)"
        using assms(2) None u by (cases "wait e1"; simp add: w(1) timed_wait_def)+
      then show ?thesis using w(2) [of e1] ne st by simp
    qed
  next
    case (Some t)
    then have "(r, e') = (Inr (fst (wait e)), snd (wait e)) \<or> (r, e') = (Inr (fst (expire e)), snd (expire e))"
      using assms(2) by (auto simp: w(1) timed_wait_def split: prod.splits if_splits)
    then show ?thesis using w(2) [of e] w(3) [of e] ne by auto
  qed
qed

lemma ready_wait: "key \<noteq> annotationReleasePendingSince \<Longrightarrow> awaitReadiness xo now key ct reason msg (e, s) = (r, e', s') \<Longrightarrow>
    moved e e' \<and> r \<noteq> Inr result_done"
  using wait_step [of key now "awaitReadiness xo now key ct reason msg" e s r e' s'] by (auto simp: wait_of_def)

lemma other_clocks [simp]: "annotationWaitingSince \<noteq> annotationReleasePendingSince" "annotationServiceWaitingSince \<noteq> annotationReleasePendingSince"
  by (simp_all add: annotationWaitingSince_def annotationReleasePendingSince_def annotationServiceWaitingSince_def)

lemma pending_step:
  assumes "handlePendingRelease xo now ct err (e, s) = (r, e', s')"
  shows "moved e e' \<and> r \<noteq> Inr (Some result_done) \<and> (r = Inr None \<longrightarrow> kept e s e' s' \<and> x_Status e' = x_Status e)"
proof (cases "\<exists>u. err = Some u \<and> err_is u = SReleasePending")
  case True
  then obtain u where u: "err = Some u" "err_is u = SReleasePending" by blast
  obtain q e1 s1 where q: "pending_wait xo now ct u (e, s) = (q, e1, s1)" by (metis prod_cases3)
  have "moved e e1 \<and> q \<noteq> Inr result_done"
    using wait_step [of annotationReleasePendingSince now "pending_wait xo now ct u" e s q e1 s1] q by (auto simp: wait_of_def)
  then show ?thesis using assms u q by (cases q) (auto simp: handlePendingRelease_def)
next
  case False
  obtain q e1 s1 where q: "clearReleasePending xo now (e, s) = (q, e1, s1)" by (metis prod_cases3)
  note c = clear_step [OF q [unfolded clearReleasePending_def]]
  show ?thesis
  proof (cases err)
    case None
    then show ?thesis using assms c q by (cases q) (auto simp: handlePendingRelease_def)
  next
    case (Some u)
    then show ?thesis using assms c q False by (auto simp: handlePendingRelease_def)
  qed
qed

end


context extension_world begin

lemma restart_step: "restartReadinessClocks xo now v (e, s) = (r, e', s') \<Longrightarrow> kept e s e' s' \<and> x_Status e' = x_Status e"
proof -
  assume a: "restartReadinessClocks xo now v (e, s) = (r, e', s')"
  have f: "x_Status (fold clearWaitingSince ks e) = x_Status e \<and> x_Spec (fold clearWaitingSince ks e) = x_Spec e" for ks e
    by (induction ks arbitrary: e) (simp_all add: clearWaitingSince_def)
  let ?live = "filter (\<lambda>a. getWaitingSince now e a \<noteq> None) [annotationWaitingSince, annotationServiceWaitingSince]"
  from a consider "e' = e" "s' = s" | "updateAnnotations xo (fold clearWaitingSince ?live e, s) = (r, e', s')"
    unfolding restartReadinessClocks_def Let_def prod.case by (metis prod.inject)
  then show ?thesis using update_step [of "fold clearWaitingSince ?live e" s r e' s'] f [of ?live e] by cases auto
qed

lemma revision_step: "record_revision xo now info (e, s) = (r, e', s') \<Longrightarrow>
    kept e s e' s' \<and> xt_Phase (x_Status e') = xt_Phase (x_Status e)"
proof -
  assume a: "record_revision xo now info (e, s) = (r, e', s')"
  show ?thesis
  proof (cases info)
    case None
    then show ?thesis using a by (simp add: record_revision_def)
  next
    case (Some i)
    obtain q e1 s1 where q: "restartReadinessClocks xo now (wrap32 (rl_Revision i)) (e, s) = (q, e1, s1)" by (metis prod_cases3)
    show ?thesis using a Some q restart_step [OF q] by (cases q) (auto simp: record_revision_def set_status_def)
  qed
qed

lemma ready_deployments:
  assumes "IsDeploymentReady (Inr ds) n = Inr st" "dst_Ready st \<or> \<not> dst_Found st \<and> \<not> required"
  shows "rollouts_done ds \<and> (required \<longrightarrow> ds \<noteq> [])"
proof (cases ds)
  case Nil
  then show ?thesis using assms by (auto simp: IsDeploymentReady_def rollouts_done_def)
next
  case (Cons d xs)
  then show ?thesis using assms
    by (cases "first_incomplete ds")
      (auto simp: IsDeploymentReady_def rollouts_done_def first_incomplete_None list_all_iff simp del: first_incomplete.simps split: prod.splits)
qed

lemma deployments_step:
  assumes "await_deployments xo now (xo_ExtensionNamespace xo) n required (e, s) = (r, e', s')"
  shows "moved e e' \<and> r \<noteq> Inr (Some result_done) \<and> (r = Inr None \<longrightarrow> kept e s e' s' \<and> xt_Phase (x_Status e') = xt_Phase (x_Status e)
    \<and> rollouts_done (dep s n) \<and> (required \<longrightarrow> dep s n \<noteq> []))"
proof -
  obtain l s1 where l: "xo_Deployments xo (xo_ExtensionNamespace xo) n s = (l, s1)" by (cases "xo_Deployments xo (xo_ExtensionNamespace xo) n s")
  have k: "rel s1 = rel s" "dep s1 = dep s" "repo s1 = repo s"
    using leavesD [OF deployments_leaves l] leavesD [OF later_leaves(3) l] by simp_all
  consider (err) u where "IsDeploymentReady l n = Inl u"
    | (wait) st where "IsDeploymentReady l n = Inr st" "\<not> dst_Ready st \<and> (dst_Found st \<or> required)"
    | (ready) st where "IsDeploymentReady l n = Inr st" "dst_Ready st \<or> \<not> dst_Found st \<and> \<not> required"
    by (cases "IsDeploymentReady l n") blast+
  then show ?thesis
  proof cases
    case err
    obtain q e1 s2 where q: "awaitReadiness xo now annotationWaitingSince conditionTypeDeploymentReady ''CheckFailed''
        (''Failed to check deployment readiness: '' @ err_text u) (e, s1) = (q, e1, s2)" by (metis prod_cases3)
    show ?thesis using assms l err q ready_wait [OF other_clocks(1) q]
      by (cases q) (auto simp: await_deployments_def)
  next
    case wait
    obtain q e1 s2 where q: "awaitReadiness xo now annotationWaitingSince conditionTypeDeploymentReady ''NotReady'' (dst_Message st) (e, s1) = (q, e1, s2)"
      by (metis prod_cases3)
    show ?thesis using assms l wait q ready_wait [OF other_clocks(1) q]
      by (cases q) (auto simp: await_deployments_def)
  next
    case ready
    then obtain ds where ds: "l = Inr ds" by (cases l) (auto simp: IsDeploymentReady_def)
    have d: "ds = dep s n" by (rule lists [OF l [unfolded ds]])
    obtain q e1 s2 where q: "clear_clock xo now annotationWaitingSince (e, s1) = (q, e1, s2)" by (metis prod_cases3)
    show ?thesis using assms l ready q clear_step [OF q] k ready_deployments [OF ready(1) [unfolded ds] ready(2)] d
      by (cases q) (auto simp: await_deployments_def)
  qed
qed

lemma running_step:
  assumes "awaitReleaseRunning xo now (xo_ExtensionNamespace xo) n required (e, s) = (r, e', s')"
  shows "moved e e' \<and> r \<noteq> Inr (Some result_done) \<and> (r = Inr None \<longrightarrow> kept e s e' s' \<and> xt_Phase (x_Status e') = xt_Phase (x_Status e)
    \<and> rollouts_done (dep s n) \<and> (required \<longrightarrow> dep s n \<noteq> []))"
proof -
  let ?last = "bnd (helmFor xo (xo_ExtensionNamespace xo)) (\<lambda>h. hcl_LastRelease h n)"
  obtain q s1 where q: "?last s = (q, s1)" by (cases "?last s")
  obtain c s0 where c: "helmFor xo (xo_ExtensionNamespace xo) s = (c, s0)" by (cases "helmFor xo (xo_ExtensionNamespace xo) s")
  have c0: "rel s0 = rel s" "dep s0 = dep s" "repo s0 = repo s" using leavesD [OF client_leaves c] leavesD [OF later_leaves(2) c] by simp_all
  show ?thesis
  proof (cases q)
    case (Inl u)
    then show ?thesis using assms q by (auto simp: awaitReleaseRunning_def)
  next
    case (Inr info)
    then obtain h where h: "c = Inr h" "hcl_LastRelease h n s0 = (Inr info, s1)" using q c by (cases c) (auto simp: bnd_def)
    have k: "rel s1 = rel s" "dep s1 = dep s" "repo s1 = repo s"
      using c0 leavesD [OF last_leaves [OF c [unfolded h(1)]] h(2)] leavesD [OF later_leaves(4) [OF c [unfolded h(1)]] h(2)] by simp_all
    obtain v e1 s2 where v: "record_revision xo now info (e, s1) = (v, e1, s2)" by (metis prod_cases3)
    note vs = revision_step [OF v]
    show ?thesis
    proof (cases v)
      case (Inl u)
      then show ?thesis using assms q Inr v vs by (auto simp: awaitReleaseRunning_def)
    next
      case v': (Inr u)
      then have "await_deployments xo now (xo_ExtensionNamespace xo) n required (e1, s2) = (r, e', s')"
        using assms q Inr v by (simp add: awaitReleaseRunning_def)
      from deployments_step [OF this] show ?thesis using vs k by auto
    qed
  qed
qed

lemma retry_not_done: "fst (setFailureAndRetry now ct reason msg e) \<noteq> result_done"
  using failure_interval_bounds [of now "failed_ready now ct reason msg e"]
  by (auto simp: setFailureAndRetry_def requeue_after_def result_done_def Let_def)

lemma failed_step: "setFailureAndRetry now ct reason msg e = (q, e') \<Longrightarrow> moved e e' \<and> q \<noteq> result_done"
  using retry_not_done [of now ct reason msg e] by (auto simp: setFailureAndRetry_def Let_def)

lemma rancher_step:
  assumes "ensure_rancher xo now url (e, s) = (r, e', s')"
  shows "moved e e' \<and> (r = Inr result_done \<longrightarrow> x_Spec e' = x_Spec e \<and> rel s' = rel s \<and> dep s' = dep s \<and> svc s' = svc s
    \<and> (\<exists>c. repo s' (ext_name e) = Some c \<and> repo_serves e url c) \<and> (\<exists>p. plug s' (ext_name e) = Some p \<and> plugin_points e url p))"
proof -
  obtain a s1 where a: "EnsureClusterRepo (xo_Rancher xo) e url s = (a, s1)" by (cases "EnsureClusterRepo (xo_Rancher xo) e url s")
  have k1: "rel s1 = rel s" "dep s1 = dep s" "svc s1 = svc s"
    using leavesD [OF repo_leaves a] leavesD [OF services_stay(2) a] by simp_all
  show ?thesis
  proof (cases a)
    case (Inl u)
    obtain q e1 where q: "setFailureAndRetry now conditionTypeClusterRepo ''Failed'' (''ClusterRepo failed: '' @ err_text u) e = (q, e1)"
      by (meson surj_pair)
    show ?thesis using assms a Inl q failed_step [OF q] by (auto simp: ensure_rancher_def)
  next
    case (Inr u)
    let ?e = "set_ext_condition now conditionTypeClusterRepo ConditionTrue ''Created'' ''ClusterRepo created'' e"
    obtain b s2 where b: "EnsureUIPlugin (xo_Rancher xo) ?e url (xo_ExtensionNamespace xo) s1 = (b, s2)"
      by (cases "EnsureUIPlugin (xo_Rancher xo) ?e url (xo_ExtensionNamespace xo) s1")
    have k2: "rel s2 = rel s1" "dep s2 = dep s1" "repo s2 = repo s1" "svc s2 = svc s1"
      using leavesD [OF plugin_leaves b] leavesD [OF services_stay(3) b] by simp_all
    have n: "ext_name ?e = ext_name e" by (simp add: ext_name_def)
    show ?thesis
    proof (cases b)
      case (Inl w)
      obtain q e1 where q: "setFailureAndRetry now conditionTypeUIPlugin ''Failed'' (''UIPlugin failed: '' @ err_text w) ?e = (q, e1)"
        by (meson surj_pair)
      show ?thesis using assms a b Inl Inr q failed_step [OF q] by (auto simp: ensure_rancher_def)
    next
      case b': (Inr w)
      have "plugin_points ?e url = plugin_points e url"
        by (intro ext) (simp add: plugin_points_def ext_name_def ext_version_def)
      then show ?thesis using assms a b Inr b' k1 k2 serves [of e url s s1] points [of ?e url s1 s2] n
        by (auto simp: ensure_rancher_def)
    qed
  qed
qed

end


lemma same_spec:
  assumes "x_Spec e1 = x_Spec e"
  shows "ext_name e1 = ext_name e" "ext_kind e1 = ext_kind e" "repo_serves e1 = repo_serves e" "plugin_points e1 = plugin_points e"
  unfolding repo_serves_def [abs_def] plugin_points_def [abs_def] ext_name_def ext_kind_def ext_version_def assms by (rule refl)+

context extension_world begin

abbreviation served :: "InstallAIExtension \<Rightarrow> string \<Rightarrow> 's \<Rightarrow> bool" where
  "served e n s \<equiv> \<exists>url. service_at (svc s n) url \<and> (\<exists>c. repo s (ext_name e) = Some c \<and> repo_serves e url c) \<and> (\<exists>p. plug s (ext_name e) = Some p \<and> plugin_points e url p)"

lemma service_wait: "await_service xo now msg (e, s) = (r, e', s') \<Longrightarrow> moved e e' \<and> r \<noteq> Inr result_done"
  unfolding await_service_def by (rule ready_wait [OF other_clocks(2)])

lemma expose_step:
  assumes "expose_service xo now n (e, s) = (r, e', s')"
  shows "moved e e' \<and> (r = Inr result_done \<longrightarrow> x_Spec e' = x_Spec e \<and> rel s' = rel s \<and> dep s' = dep s \<and> served e n s')"
proof -
  let ?list = "ServiceForHelmRelease xo (xo_ExtensionNamespace xo) n"
  obtain a s1 where a: "?list s = (a, s1)" by (cases "?list s")
  obtain l s0 where l: "xo_Services xo (xo_ExtensionNamespace xo) n s = (l, s0)" by (cases "xo_Services xo (xo_ExtensionNamespace xo) n s")
  have "s1 = s0" using a l by (auto simp: ServiceForHelmRelease_def split: sum.splits list.splits)
  then have k1: "rel s1 = rel s" "dep s1 = dep s" using leavesD [OF services_leaves l] by simp_all
  have there: "v \<in> set (svc s1 n)" if "a = Inr v" for v
    using a that l finds [of n s _ s0] \<open>s1 = s0\<close> by (auto simp: ServiceForHelmRelease_def split: sum.splits list.splits)
  show ?thesis
  proof (cases a)
    case (Inl u)
    then have "await_service xo now (''Service not found: '' @ err_text u) (e, s1) = (r, e', s')" using assms a by (simp add: expose_service_def)
    from service_wait [OF this] show ?thesis by blast
  next
    case (Inr v)
    show ?thesis
    proof (cases "ServiceEndpoint (Some v)")
      case (Inl u)
      then have "await_service xo now (''Service endpoint error: '' @ err_text u) (e, s1) = (r, e', s')"
        using assms a Inr by (simp add: expose_service_def)
      from service_wait [OF this] show ?thesis by blast
    next
      case ep: (Inr p)
      obtain q e1 s2 where q: "clear_clock xo now annotationServiceWaitingSince (e, s1) = (q, e1, s2)" by (metis prod_cases3)
      note cs = clear_step [OF q]
      show ?thesis
      proof (cases q)
        case (Inl u)
        then show ?thesis using assms a Inr ep q cs by (auto simp: expose_service_def)
      next
        case q': (Inr u)
        let ?e = "set_ext_condition now conditionTypeServiceReady ConditionTrue ''Available'' (''Service URL: '' @ service_url p) e1"
        have "ensure_rancher xo now (service_url p) (?e, s2) = (r, e', s')"
          using assms a Inr ep q q' by (simp add: expose_service_def)
        note rs = rancher_step [OF this]
        have sp: "x_Spec ?e = x_Spec e" using cs by simp
        have "service_at (svc s2 n) (service_url p)"
          using there [OF Inr] ep clear_services [OF q]
          by (cases p) (auto simp: service_at_def service_url_def ServiceEndpoint_def split: list.splits)
        then show ?thesis using rs cs k1 sp unfolding same_spec [OF sp] by auto
      qed
    qed
  qed
qed

lemma ensured_step:
  assumes "after_ensure xo now n err (e, s) = (r, e', s')"
  shows "moved e e' \<and> (r = Inr result_done \<longrightarrow> err = None \<and> x_Spec e' = x_Spec e \<and> rel s' = rel s \<and> dep s' = dep s
    \<and> rollouts_done (dep s n) \<and> dep s n \<noteq> [] \<and> served e n s')"
proof -
  obtain q e1 s1 where q: "handlePendingRelease xo now conditionTypeHelmInstalled err (e, s) = (q, e1, s1)" by (metis prod_cases3)
  note ps = pending_step [OF q]
  show ?thesis
  proof (cases "q = Inr None")
    case False
    then show ?thesis using assms q ps by (cases q) (auto simp: after_ensure_def split: option.splits)
  next
    case True
    show ?thesis
    proof (cases err)
      case (Some u)
      obtain w e2 where w: "setFailureAndRetry now conditionTypeHelmInstalled ''InstallFailed'' (''Helm install failed: '' @ err_text u) e1 = (w, e2)"
        by (meson surj_pair)
      show ?thesis using assms q ps True Some w failed_step [OF w] by (auto simp: after_ensure_def)
    next
      case None
      let ?e = "set_status (\<lambda>st. st\<lparr>HelmReleaseName := n\<rparr>)
          (set_ext_condition now conditionTypeHelmInstalled ConditionTrue ''Installed'' (''Helm release '' @ n @ '' installed'') e1)"
      obtain w e2 s2 where w: "awaitReleaseRunning xo now (xo_ExtensionNamespace xo) n True (?e, s1) = (w, e2, s2)" by (metis prod_cases3)
      note ws = running_step [OF w]
      have ph: "xt_Phase (x_Status ?e) = xt_Phase (x_Status e1)" by (simp add: set_status_def set_ext_condition_def)
      show ?thesis
      proof (cases "w = Inr None")
        case False
        then show ?thesis using assms q ps True None w ws ph by (cases w) (auto simp: after_ensure_def split: option.splits)
      next
        case w': True
        then have x: "expose_service xo now n (e2, s2) = (r, e', s')" using assms q True None w by (simp add: after_ensure_def)
        have sp: "x_Spec e2 = x_Spec e" using ws w' ps True by simp
        show ?thesis using expose_step [OF x] ws w' ps True ph None sp unfolding same_spec [OF sp] by auto
      qed
    qed
  qed
qed

text \<open>A Helm pass that ends with nothing more to do has either rejected the spec or installed it all.\<close>

lemma install_step:
  assumes "install_release xo now hs values (e, s) = (r, e', s')"
  shows "moved e e' \<and> (r = Inr result_done \<longrightarrow> (\<exists>auth tls. resolved xo hs auth tls \<and> rel s' (release_spec xo hs values auth tls))
    \<and> x_Spec e' = x_Spec e \<and> rollouts_done (dep s' (deriveReleaseName (hs_ChartURL hs))) \<and> dep s' (deriveReleaseName (hs_ChartURL hs)) \<noteq> []
    \<and> served e (deriveReleaseName (hs_ChartURL hs)) s')"
proof -
  let ?auth = "ResolveHelmAuth (xo_Secrets xo) (xo_AuthOrder xo) (xo_OperatorNamespace xo) (hs_Auth hs) (hs_ChartURL hs)"
  let ?tls = "ResolveHelmTLS (xo_Secrets xo) (xo_TLSParser xo) (xo_OperatorNamespace xo) (hs_TLS hs)"
  have z: "requeue_after resolutionRetryInterval \<noteq> result_done"
    by (simp add: requeue_after_def result_done_def resolutionRetryInterval_def second_def)
  obtain c s1 where c: "helmFor xo (xo_ExtensionNamespace xo) s = (c, s1)" by (cases "helmFor xo (xo_ExtensionNamespace xo) s")
  obtain a s2 where a: "?auth s1 = (a, s2)" by (cases "?auth s1")
  obtain t s3 where t: "?tls s2 = (t, s3)" by (cases "?tls s2")
  show ?thesis
  proof (cases "isl c \<or> isl a \<or> isl t")
    case True
    then show ?thesis using assms c a t z
      by (cases c; cases a; cases t) (auto simp: install_release_def unresolved_def)
  next
    case False
    then obtain h auth tls where i: "c = Inr h" "a = Inr auth" "t = Inr tls" by (cases c; cases a; cases t) auto
    obtain u s4 where u: "hcl_EnsureRelease h (release_spec xo hs values auth tls) s3 = (u, s4)"
      by (cases "hcl_EnsureRelease h (release_spec xo hs values auth tls) s3")
    have "after_ensure xo now (deriveReleaseName (hs_ChartURL hs)) (error_of u) (e, s4) = (r, e', s')"
      using assms c a t i u by (simp add: install_release_def)
    note es = ensured_step [OF this]
    have "error_of u = None \<Longrightarrow> u = Inr ()" by (cases u) (simp_all add: error_of_def)
    moreover have "resolved xo hs auth tls" using a t i unfolding resolved_def by blast
    ultimately show ?thesis using es releases [OF c [unfolded i(1)]] u by metis
  qed
qed

lemma helm_step:
  assumes "reconcileHelmSource xo now (e, s) = (r, e', s')"
  shows "moved e e' \<and> (r = Inr result_done \<longrightarrow> xt_Phase (x_Status e') \<noteq> ExtFailed \<longrightarrow> (\<exists>hs values auth tls.
      xs_Helm (x_Source (x_Spec e)) = Some hs \<and> ConvertHelmValues (hs_Values hs) = Inr values
      \<and> resolved xo hs auth tls \<and> rel s' (release_spec xo hs values auth tls) \<and> x_Spec e' = x_Spec e
      \<and> rollouts_done (dep s' (deriveReleaseName (hs_ChartURL hs))) \<and> dep s' (deriveReleaseName (hs_ChartURL hs)) \<noteq> []
      \<and> served e (deriveReleaseName (hs_ChartURL hs)) s'))"
proof (cases "xs_Helm (x_Source (x_Spec e))")
  case None
  then show ?thesis using assms by (auto simp: reconcileHelmSource_def)
next
  case (Some hs)
  show ?thesis
  proof (cases "insecure hs \<and> \<not> xo_AllowInsecureRegistryTLS xo")
    case True
    then show ?thesis using assms Some by (auto simp: reconcileHelmSource_def)
  next
    case False
    let ?s = "uninstall_previous xo hs e s"
    have ch: "checked_install xo now hs (e, ?s) = (r, e', s')" using assms Some False by (simp add: reconcileHelmSource_def)
    consider "xt_Phase (x_Status e') = ExtFailed" | vals where "ConvertHelmValues (hs_Values hs) = Inr vals"
        "install_release xo now hs vals (e, ?s) = (r, e', s')"
      using ch by (auto simp: checked_install_def split: sum.splits option.splits if_splits)
    then show ?thesis using install_step Some by cases (blast, metis)
  qed
qed

end


text \<open>What an extension consists of: its release, its deployments rolled out, and its objects in Rancher.\<close>

definition all_there :: "'s ExtReconciler \<Rightarrow> ('s \<Rightarrow> ReleaseSpec \<Rightarrow> bool) \<Rightarrow> ('s \<Rightarrow> string \<Rightarrow> Deployment list) \<Rightarrow>
    ('s \<Rightarrow> string \<Rightarrow> ClusterRepo option) \<Rightarrow> ('s \<Rightarrow> string \<Rightarrow> UIPlugin option) \<Rightarrow> ('s \<Rightarrow> string \<Rightarrow> Service list) \<Rightarrow>
    InstallAIExtension \<Rightarrow> 's \<Rightarrow> bool" where
  "all_there xo rel dep repo plug svc e s \<longleftrightarrow>
     (case ext_kind e of
        ExtensionSourceKindHelm \<Rightarrow>
          (\<exists>hs vals auth tls url c p. xs_Helm (x_Source (x_Spec e)) = Some hs \<and> ConvertHelmValues (hs_Values hs) = Inr vals
            \<and> resolved xo hs auth tls \<and> rel s (release_spec xo hs vals auth tls) \<and> dep s (deriveReleaseName (hs_ChartURL hs)) \<noteq> []
            \<and> rollouts_done (dep s (deriveReleaseName (hs_ChartURL hs)))
            \<and> service_at (svc s (deriveReleaseName (hs_ChartURL hs))) url \<and> repo s (ext_name e) = Some c \<and> repo_serves e url c
            \<and> plug s (ext_name e) = Some p \<and> plugin_points e url p)
      | ExtensionSourceKindGit \<Rightarrow>
          (\<exists>g base c. xs_Git (x_Source (x_Spec e)) = Some g \<and> GitRawBaseURL (gs_Repo g) (gs_Branch g) = Inr base
            \<and> rel s (git_release_spec xo e base) \<and> rollouts_done (dep s (ext_name e))
            \<and> repo s (ext_name e) = Some c \<and> repo_serves e '''' c)
      | OtherSourceKind k \<Rightarrow> False)"

lemma all_there_spec: "x_Spec e1 = x_Spec e \<Longrightarrow> all_there xo rel dep repo plug svc e1 = all_there xo rel dep repo plug svc e"
  unfolding all_there_def [abs_def] git_release_spec_def ext_version_def by (simp only: same_spec [of e1 e])

lemma stale_cleanup_step:
  assumes "cleanupStaleResources xo (e, s) = (r, e', s')"
  shows "x_Spec e' = x_Spec e \<and> xt_Phase (x_Status e') = xt_Phase (x_Status e)"
proof -
  have f: "x_Spec (forget_release u) = x_Spec u \<and> xt_Phase (x_Status (forget_release u)) = xt_Phase (x_Status u)
      \<and> x_Spec (remove_condition ct u) = x_Spec u \<and> xt_Phase (x_Status (remove_condition ct u)) = xt_Phase (x_Status u)" for u ct
    by (simp add: forget_release_def remove_condition_def set_status_def)
  obtain es1 e1 s1 where a: "cleanup_renamed xo (e, s) = (es1, e1, s1)" by (metis prod_cases3)
  obtain es2 e2 s2 where b: "cleanup_switched xo (e1, s1) = (es2, e2, s2)" by (metis prod_cases3)
  have "x_Spec e1 = x_Spec e \<and> xt_Phase (x_Status e1) = xt_Phase (x_Status e)"
    using a f by (auto simp: cleanup_renamed_def Let_def split: prod.splits if_splits)
  moreover have "x_Spec e2 = x_Spec e1 \<and> xt_Phase (x_Status e2) = xt_Phase (x_Status e1)"
    using b f by (auto simp: cleanup_switched_def Let_def split: prod.splits if_splits)
  moreover have "e' = e2" using assms a b by (auto simp: cleanupStaleResources_def split: option.splits)
  ultimately show ?thesis by simp
qed

context extension_world begin

lemma plugin_step:
  assumes "after_plugin xo now err (e, s) = (r, e', s')"
  shows "moved e e' \<and> (r = Inr result_done \<longrightarrow> err = None \<and> kept e s e' s' \<and> rollouts_done (dep s (ext_name e)))"
proof -
  obtain q e1 s1 where q: "handlePendingRelease xo now conditionTypeUIPlugin err (e, s) = (q, e1, s1)" by (metis prod_cases3)
  note ps = pending_step [OF q]
  show ?thesis
  proof (cases "q = Inr None")
    case False
    then show ?thesis using assms q ps by (cases q) (auto simp: after_plugin_def split: option.splits)
  next
    case True
    show ?thesis
    proof (cases err)
      case (Some u)
      obtain w e2 where w: "setFailureAndRetry now conditionTypeUIPlugin ''Failed'' (''UIPlugin install failed: '' @ err_text u) e1 = (w, e2)"
        by (meson surj_pair)
      show ?thesis using assms q ps True Some w failed_step [OF w] by (auto simp: after_plugin_def)
    next
      case None
      let ?e = "set_ext_condition now conditionTypeUIPlugin ConditionTrue ''Created'' ''UIPlugin installed from git source'' e1"
      have sp: "x_Spec ?e = x_Spec e" using ps True by simp
      obtain w e2 s2 where w: "awaitReleaseRunning xo now (xo_ExtensionNamespace xo) (ext_name ?e) False (?e, s1) = (w, e2, s2)" by (metis prod_cases3)
      note ws = running_step [OF w] same_spec(1) [OF sp]
      show ?thesis
      proof (cases "w = Inr None")
        case False
        then show ?thesis using assms q ps True None w ws by (cases w) (auto simp: after_plugin_def Let_def split: option.splits)
      next
        case w': True
        then show ?thesis using assms q ps True None w ws by (auto simp: after_plugin_def Let_def)
      qed
    qed
  qed
qed

lemma git_step:
  assumes "reconcileGitSource xo now (e, s) = (r, e', s')"
  shows "moved e e' \<and> (r = Inr result_done \<longrightarrow> xt_Phase (x_Status e') \<noteq> ExtFailed \<longrightarrow> (\<exists>g base.
      xs_Git (x_Source (x_Spec e)) = Some g \<and> GitRawBaseURL (gs_Repo g) (gs_Branch g) = Inr base
      \<and> rel s' (git_release_spec xo e base) \<and> x_Spec e' = x_Spec e \<and> rollouts_done (dep s' (ext_name e))
      \<and> (\<exists>c. repo s' (ext_name e) = Some c \<and> repo_serves e '''' c)))"
proof (cases "xs_Git (x_Source (x_Spec e))")
  case None
  then show ?thesis using assms by (auto simp: reconcileGitSource_def)
next
  case (Some g)
  show ?thesis
  proof (cases "GitRawBaseURL (gs_Repo g) (gs_Branch g)")
    case (Inl u)
    then show ?thesis using assms Some by (auto simp: reconcileGitSource_def)
  next
    case (Inr base)
    obtain a s1 where a: "EnsureClusterRepo (xo_Rancher xo) e '''' s = (a, s1)" by (cases "EnsureClusterRepo (xo_Rancher xo) e '''' s")
    show ?thesis
    proof (cases a)
      case (Inl u)
      obtain w e2 where w: "setFailureAndRetry now conditionTypeClusterRepo ''Failed'' (''ClusterRepo failed: '' @ err_text u) e = (w, e2)"
        by (meson surj_pair)
      show ?thesis using assms Some Inr a Inl w failed_step [OF w] by (auto simp: reconcileGitSource_def)
    next
      case a': (Inr u)
      let ?e = "set_ext_condition now conditionTypeClusterRepo ConditionTrue ''Created'' ''ClusterRepo created for git source'' e"
      have sp: "x_Spec ?e = x_Spec e" by simp
      obtain b s2 where b: "ensureUIPluginGit xo ?e base s1 = (b, s2)" by (cases "ensureUIPluginGit xo ?e base s1")
      have p: "after_plugin xo now (error_of b) (?e, s2) = (r, e', s')"
        using assms Some Inr a a' b by (simp add: reconcileGitSource_def Let_def)
      note ps = plugin_step [OF p] same_spec [OF sp]
      have spec: "git_release_spec xo ?e base = git_release_spec xo e base"
        by (simp add: git_release_spec_def same_spec(1) [OF sp] ext_version_def)
      have "error_of b = None \<Longrightarrow> rel s2 (git_release_spec xo e base) \<and> repo s2 = repo s1"
      proof -
        assume "error_of b = None"
        then have b': "b = Inr ()" by (cases b) (simp_all add: error_of_def)
        then obtain h t where h: "helmFor xo (xo_ExtensionNamespace xo) s1 = (Inr h, t)"
            "hcl_EnsureRelease h (git_release_spec xo e base) t = (Inr (), s2)"
          using b spec by (auto simp: ensureUIPluginGit_def bnd_Inr)
        show ?thesis using releases [OF h] leavesD [OF later_leaves(2) h(1)] leavesD [OF later_leaves(5) [OF h(1)] h(2)] by simp
      qed
      then show ?thesis using ps Some Inr serves [of e "''''" s s1] a a' by auto
    qed
  qed
qed

lemma source_step:
  assumes "reconcile_source xo now (e, s) = (r, e', s')"
  shows "moved e e' \<and> (r = Inr result_done \<longrightarrow> xt_Phase (x_Status e') \<noteq> ExtFailed \<longrightarrow> all_there xo rel dep repo plug svc e s' \<and> x_Spec e' = x_Spec e)"
proof (cases "ext_kind e")
  case ExtensionSourceKindHelm
  then have h: "reconcileHelmSource xo now (e, s) = (r, e', s')" using assms by (simp add: reconcile_source_def)
  show ?thesis using helm_step [OF h] unfolding all_there_def ExtensionSourceKindHelm by (auto; blast)
next
  case ExtensionSourceKindGit
  then have h: "reconcileGitSource xo now (e, s) = (r, e', s')" using assms by (simp add: reconcile_source_def)
  show ?thesis using git_step [OF h] unfolding all_there_def ExtensionSourceKindGit by auto
next
  case (OtherSourceKind k)
  then show ?thesis using assms by (auto simp: reconcile_source_def)
qed

end



section \<open>Before the pull\<close>

text \<open>
  Nothing is read or pulled for a host that the administrator does not allow: the pass rejects the spec for good,
  no secret is read and no chart is fetched. But it comes late: a release of another chart URL has been
  uninstalled by then, so that a mistyped or forbidden URL takes the running extension down.
\<close>

theorem rejected_before_credentials:
  assumes "xs_Helm (x_Source (x_Spec ext)) = Some hs" "url_Parse (hs_ChartURL hs) = Some u"
    and "\<not> registryHostAllowed xo (u_Host u) (Hostname u)"
  shows "fst (reconcileHelmSource xo now (ext, s)) = Inr result_done
    \<and> xt_Phase (x_Status (fst (snd (reconcileHelmSource xo now (ext, s))))) = ExtFailed
    \<and> snd (snd (reconcileHelmSource xo now (ext, s))) =
        (if insecure hs \<and> \<not> xo_AllowInsecureRegistryTLS xo then s
         else if HelmReleaseName (x_Status ext) \<in> {'''', deriveReleaseName (hs_ChartURL hs)} then s
         else snd (uninstall_with_client xo (HelmReleaseName (x_Status ext)) s))"
  using assms
  by (cases "ConvertHelmValues (hs_Values hs)") (simp_all add: reconcileHelmSource_def checked_install_def uninstall_previous_def Let_def)

section \<open>Releases that are left behind\<close>

lemma run_all_leaves:
  assumes "\<forall>m \<in> set ms. leaves obs m"
  shows "obs (snd (run_all ms s)) = obs s"
  using assms
proof (induction ms arbitrary: s)
  case (Cons m ms)
  have "obs (snd (m s)) = obs s" using Cons.prems by (simp add: leaves_def)
  then show ?case using Cons.IH [of "snd (m s)"] Cons.prems by (auto split: prod.split sum.split)
qed simp

lemma stale_name_leaves:
  assumes "\<forall>m \<in> set (delete_rancher xo name). leaves obs m" "\<not> stale_helm (x_Status ext)"
    and "ActiveSourceKind (x_Status ext) \<noteq> Some ExtensionSourceKindGit" "remove_stale_name xo name ext s = (es, s')"
  shows "obs s' = obs s"
proof -
  have "s' = snd (run_all (delete_rancher xo name) s)"
    using assms(2-4) by (simp add: remove_stale_name_def split: prod.splits)
  then show ?thesis using run_all_leaves [OF assms(1)] by simp
qed

lemma forgotten [simp]:
  "HelmReleaseName (x_Status (forget_release e)) = ''''" "ActiveSourceKind (x_Status (forget_release e)) = ActiveSourceKind (x_Status e)"
  "ActiveExtensionName (x_Status (forget_release e)) = ActiveExtensionName (x_Status e)"
  "x_Status (remove_condition ct e) = (x_Status e)\<lparr>xt_Conditions := (xt_Conditions (x_Status e))(ct := None)\<rparr>"
  by (simp_all add: forget_release_def remove_condition_def set_status_def)

lemma no_release_leaves:
  assumes "\<forall>name. \<forall>m \<in> set (delete_rancher xo name). leaves obs m"
    and "HelmReleaseName (x_Status ext) = ''''" "ActiveSourceKind (x_Status ext) = Some ExtensionSourceKindHelm"
    and "cleanupStaleResources xo (ext, s) = (r, ext', s')"
  shows "obs s' = obs s"
proof -
  have n: "\<not> stale_helm (x_Status ext)" using assms(2) by (simp add: stale_helm_def)
  have g: "ActiveSourceKind (x_Status ext) \<noteq> Some ExtensionSourceKindGit" using assms(3) by simp
  obtain es1 e1 s1 where a: "cleanup_renamed xo (ext, s) = (es1, e1, s1)" by (metis prod_cases3)
  obtain es2 e2 s2 where b: "cleanup_switched xo (e1, s1) = (es2, e2, s2)" by (metis prod_cases3)
  have "e1 = ext \<and> obs s1 = obs s"
    using a n stale_name_leaves [OF spec [OF assms(1)] n g]
    by (auto simp: cleanup_renamed_def Let_def split: prod.splits if_splits)
  moreover have "obs s2 = obs s1"
    using b n calculation stale_name_leaves [OF spec [OF assms(1)] n g]
    by (auto simp: cleanup_switched_def Let_def split: prod.splits if_splits)
  moreover have "s' = s2" using assms(4) a b by (auto simp: cleanupStaleResources_def split: option.splits)
  ultimately show ?thesis by simp
qed

text \<open>
  When the cleanup after a change of name or source fails, the name of the Helm release is forgotten all the same, and the
  failed pass stores that: no later pass uninstalls the release, whatever else it retries. (\<open>obs\<close> is
  what is released.)
\<close>

theorem failed_uninstall_forgotten:
  assumes "cleanupStaleResources xo (ext, s) = (Inl e, ext', s')" "stale_helm (x_Status ext)"
    and "\<forall>name. \<forall>m \<in> set (delete_rancher xo name). leaves obs m"
  shows "HelmReleaseName (x_Status ext') = ''''
    \<and> settle xo now original (Inl e) ext' t =
        (case xo_PatchStatus xo ext' original t of (Inl u, t1) \<Rightarrow> (Inl u, t1) | (Inr _, t1) \<Rightarrow> (Inl e, t1))
    \<and> obs (snd (snd (cleanupStaleResources xo (ext', t)))) = obs t"
proof -
  obtain es1 e1 s1 where a: "cleanup_renamed xo (ext, s) = (es1, e1, s1)" by (metis prod_cases3)
  obtain es2 e2 s2 where b: "cleanup_switched xo (e1, s1) = (es2, e2, s2)" by (metis prod_cases3)
  have c: "join_errs (es1 @ es2) = Some e" "ext' = e2" using assms(1) a b by (auto simp: cleanupStaleResources_def split: option.splits)
  have k: "ActiveSourceKind (x_Status ext) = Some ExtensionSourceKindHelm" using assms(2) by (simp add: stale_helm_def)
  have e1: "(e1 = ext \<and> es1 = []) \<or> e1 = forget_release ext"
    using a assms(2) by (auto simp: cleanup_renamed_def Let_def split: prod.splits if_splits)
  then have k1: "ActiveSourceKind (x_Status e1) = Some ExtensionSourceKindHelm" using k by auto
  have e2: "(e2 = e1 \<and> (es2 = [] \<or> \<not> stale_helm (x_Status e1))) \<or> HelmReleaseName (x_Status e2) = ''''"
    and k2: "ActiveSourceKind (x_Status e2) = Some ExtensionSourceKindHelm"
    using b k1 by (auto simp: cleanup_switched_def Let_def split: prod.splits if_splits)
  have h: "HelmReleaseName (x_Status ext') = ''''"
  proof (cases "es1 = [] \<and> es2 = []")
    case True
    then show ?thesis using c(1) by (simp add: join_errs_def)
  next
    case False
    then show ?thesis using e1 e2 c(2) assms(2) by auto
  qed
  have "obs (snd (snd (cleanupStaleResources xo (ext', t)))) = obs t"
    using no_release_leaves [OF assms(3) h] k2 c(2) by (metis prod.collapse)
  then show ?thesis using h by (simp add: settle_def settle_marker_def observe_generation_def)
qed


section \<open>Deletion\<close>

datatype owned = OwnedRepo string | OwnedPlugin string | OwnedRelease string

text \<open>A call that deletes \<open>x\<close>: nothing else goes, and when it is \<open>sure\<close>, \<open>x\<close> is gone when the call succeeds.\<close>

definition deletes :: "('s \<Rightarrow> owned set) \<Rightarrow> bool \<Rightarrow> owned \<Rightarrow> ('s, unit) act \<Rightarrow> bool" where
  "deletes here sure x m \<longleftrightarrow>
     (\<forall>s r s'. m s = (r, s') \<longrightarrow> here s - {x} \<subseteq> here s' \<and> here s' \<subseteq> here s \<and> (sure \<longrightarrow> r = Inr () \<longrightarrow> x \<notin> here s'))"

lemma deletesD:
  "deletes here sure x m \<Longrightarrow> m s = (r, s') \<Longrightarrow> here s - {x} \<subseteq> here s' \<and> here s' \<subseteq> here s \<and> (sure \<longrightarrow> r = Inr () \<longrightarrow> x \<notin> here s')"
  by (simp add: deletes_def)

lemma deletes_weak: "deletes here True x m \<Longrightarrow> deletes here sure x m"
  by (simp add: deletes_def)

locale teardown =
  fixes xo :: "'s ExtReconciler" and here :: "'s \<Rightarrow> owned set"
  assumes client_keeps: "leaves here (helmFor xo ns)"
    and update_keeps: "leaves here (xo_Update xo e)"
    and repo_deleted: "deletes here True (OwnedRepo n) (DeleteClusterRepo (xo_Rancher xo) n)"
    and plugin_deleted: "deletes here True (OwnedPlugin n) (DeleteUIPlugin (xo_Rancher xo) n ns)"
    and release_deleted: "helmFor xo ns s = (Inr h, s') \<Longrightarrow> deletes here True (OwnedRelease n) (hcl_DeleteRelease h n)"
begin

lemma uninstall_deletes: "deletes here True (OwnedRelease n) (uninstall_release xo n)"
proof -
  have "here s - {OwnedRelease n} \<subseteq> here s' \<and> here s' \<subseteq> here s \<and> (r = Inr () \<longrightarrow> OwnedRelease n \<notin> here s')"
    if "uninstall_release xo n s = (r, s')" for s r s'
  proof -
    obtain c s1 where c: "helmFor xo (xo_ExtensionNamespace xo) s = (c, s1)" by (cases "helmFor xo (xo_ExtensionNamespace xo) s")
    have k: "here s1 = here s" using leavesD [OF client_keeps c] .
    show ?thesis
    proof (cases c)
      case (Inl e)
      then show ?thesis using that c k by (auto simp: uninstall_release_def bnd_def)
    next
      case (Inr h)
      then have "hcl_DeleteRelease h n s1 = (r, s')" using that c by (simp add: uninstall_release_def bnd_def)
      from deletesD [OF release_deleted [OF c [unfolded Inr]] this] show ?thesis using k by simp
    qed
  qed
  then show ?thesis by (simp add: deletes_def)
qed

lemma uninstall_quietly_deletes:
  assumes "sure \<longrightarrow> (\<forall>s. \<not> isl (fst (helmFor xo (xo_ExtensionNamespace xo) s)))"
  shows "deletes here sure (OwnedRelease n) (uninstall_with_client xo n)"
proof -
  have "here s - {OwnedRelease n} \<subseteq> here s' \<and> here s' \<subseteq> here s \<and> (sure \<longrightarrow> r = Inr () \<longrightarrow> OwnedRelease n \<notin> here s')"
    if "uninstall_with_client xo n s = (r, s')" for s r s'
  proof -
    obtain c s1 where c: "helmFor xo (xo_ExtensionNamespace xo) s = (c, s1)" by (cases "helmFor xo (xo_ExtensionNamespace xo) s")
    have k: "here s1 = here s" using leavesD [OF client_keeps c] .
    show ?thesis
    proof (cases c)
      case (Inl e)
      then have "\<not> sure" using assms c by (metis fst_conv sum.disc(1))
      then show ?thesis using that c k Inl by (auto simp: uninstall_with_client_def)
    next
      case (Inr h)
      then have "hcl_DeleteRelease h n s1 = (r, s')" using that c by (simp add: uninstall_with_client_def)
      from deletesD [OF release_deleted [OF c [unfolded Inr]] this] show ?thesis using k by simp
    qed
  qed
  then show ?thesis by (simp add: deletes_def)
qed

text \<open>A list of calls with what each is to delete.\<close>

lemma run_all_deletes:
  assumes "\<forall>(sure, x, m) \<in> set ts. deletes here sure x m" "run_all (map (\<lambda>(sure, x, m). m) ts) s = (es, s')"
  shows "here s - (\<lambda>(sure, x, m). x) ` set ts \<subseteq> here s' \<and> here s' \<subseteq> here s
    \<and> (es = [] \<longrightarrow> (\<forall>(sure, x, m) \<in> set ts. sure \<longrightarrow> x \<notin> here s'))"
  using assms
proof (induction ts arbitrary: s es)
  case (Cons t ts)
  obtain sure x m where t: "t = (sure, x, m)" by (cases t)
  obtain r s1 where m: "m s = (r, s1)" by (cases "m s")
  obtain es1 where es: "run_all (map (\<lambda>(sure, x, m). m) ts) s1 = (es1, s')" "es = [] \<longrightarrow> r = Inr () \<and> es1 = []"
    using Cons.prems(2) t m
    by (cases r; cases "run_all (map (\<lambda>(sure, x, m). m) ts) s1") auto
  have d: "here s - {x} \<subseteq> here s1" "here s1 \<subseteq> here s" "sure \<longrightarrow> r = Inr () \<longrightarrow> x \<notin> here s1"
    using Cons.prems(1) t m by (auto simp: deletes_def)
  have ih: "here s1 - (\<lambda>(sure, x, m). x) ` set ts \<subseteq> here s'" "here s' \<subseteq> here s1"
      "es1 = [] \<longrightarrow> (\<forall>(sure, x, m) \<in> set ts. sure \<longrightarrow> x \<notin> here s')"
    using Cons.IH [OF _ es(1)] Cons.prems(1) by auto
  show ?case using d ih es(2) t by auto
qed simp

definition targets :: "bool \<Rightarrow> InstallAIExtension \<Rightarrow> (bool \<times> owned \<times> ('s, unit) act) list" where
  "targets sure ext =
     (let release = HelmReleaseName (x_Status ext);
          git = ActiveSourceKind (x_Status ext) = Some ExtensionSourceKindGit \<or> ext_kind ext = ExtensionSourceKindGit
      in concat (map (\<lambda>n. [(True, OwnedRepo n, DeleteClusterRepo (xo_Rancher xo) (ClusterRepoName n)),
            (True, OwnedPlugin n, DeleteUIPlugin (xo_Rancher xo) n (xo_ExtensionNamespace xo))]) (filter (\<lambda>n. n \<noteq> '''') (cleanup_names ext)))
         @ (if release \<noteq> '''' then [(True, OwnedRelease release, uninstall_release xo release)] else [])
         @ (if git then map (\<lambda>n. (sure, OwnedRelease n, uninstall_with_client xo n)) (filter (\<lambda>n. n \<noteq> release) (cleanup_names ext)) else []))"

lemma cleanup_targets:
  assumes "cleanup xo ext s = (Inr u, s')"
  shows "run_all (map (\<lambda>(sure, x, m). m) (targets sure ext)) s = ([], s')"
proof -
  have c: "map (\<lambda>(sure, x, m). m) (concat (map (\<lambda>n. [(True, OwnedRepo n, DeleteClusterRepo (xo_Rancher xo) (ClusterRepoName n)),
      (True, OwnedPlugin n, DeleteUIPlugin (xo_Rancher xo) n (xo_ExtensionNamespace xo))]) ns)) = concat (map (delete_rancher xo) ns)" for ns
    by (induction ns) (simp_all add: delete_rancher_def)
  have "\<exists>es. run_all (map (\<lambda>(sure, x, m). m) (targets sure ext)) s = (es, s') \<and> join_errs es = None"
    using assms unfolding cleanup_def targets_def Let_def map_append c
    by (auto simp: comp_def split: prod.splits option.splits)
  then show ?thesis by (auto simp: join_errs_def split: if_splits)
qed

lemma targets_delete:
  assumes "sure \<longrightarrow> (\<forall>s. \<not> isl (fst (helmFor xo (xo_ExtensionNamespace xo) s)))"
  shows "\<forall>(sure', x, m) \<in> set (targets sure ext). deletes here sure' x m"
  by (auto simp: targets_def Let_def ClusterRepoName_def
      intro: uninstall_deletes uninstall_quietly_deletes [OF assms] repo_deleted plugin_deleted split: if_splits)

lemma cleanup_step:
  assumes "cleanup xo ext s = (Inr u, s')" "sure \<longrightarrow> (\<forall>s. \<not> isl (fst (helmFor xo (xo_ExtensionNamespace xo) s)))"
  shows "here s - (\<lambda>(sure, x, m). x) ` set (targets sure ext) \<subseteq> here s' \<and> (\<forall>(sure', x, m) \<in> set (targets sure ext). sure' \<longrightarrow> x \<notin> here s')"
  using run_all_deletes [OF targets_delete [OF assms(2)] cleanup_targets [OF assms(1)]] by auto

lemma deletion_step:
  assumes "ext_handleDeletion xo ext s = (Inr r, s')" "finalizerName \<in> set (x_Finalizers ext)"
  obtains s1 where "cleanup xo ext s = (Inr (), s1)" "here s' = here s1"
proof -
  obtain a s1 where a: "cleanup xo ext s = (a, s1)" by (cases "cleanup xo ext s")
  then have "a = Inr ()" using assms by (cases a) (auto simp: ext_handleDeletion_def)
  moreover obtain b s2 where b: "xo_Update xo (ext\<lparr>x_Finalizers := filter (\<lambda>f. f \<noteq> finalizerName) (x_Finalizers ext)\<rparr>) s1 = (b, s2)"
    by (meson surj_pair)
  ultimately have "s' = s2" using assms a by (cases b) (auto simp: ext_handleDeletion_def split: if_splits)
  then show ?thesis using that [of s1] leavesD [OF update_keeps b] a \<open>a = Inr ()\<close> by simp
qed

end

text \<open>
  C22. The finalizer is taken off only when the ClusterRepo and the UIPlugin of the extension, under its present and its last
  installed name, and the Helm release of its status are gone, and of a Git source the release of either
  name, unless no Helm client could be built. But what was never recorded stays: a Helm source whose first installation failed
  has no release in its status, and its failed release survives the extension.
\<close>

theorem deletion_complete:
  assumes "teardown xo here" "ext_handleDeletion xo ext s = (Inr r, s')" "finalizerName \<in> set (x_Finalizers ext)"
  shows "(\<forall>n \<in> set (cleanup_names ext) - {''''}. OwnedRepo n \<notin> here s' \<and> OwnedPlugin n \<notin> here s')
    \<and> (HelmReleaseName (x_Status ext) \<noteq> '''' \<longrightarrow> OwnedRelease (HelmReleaseName (x_Status ext)) \<notin> here s')
    \<and> ((\<forall>s. \<not> isl (fst (helmFor xo (xo_ExtensionNamespace xo) s)))
        \<and> (ActiveSourceKind (x_Status ext) = Some ExtensionSourceKindGit \<or> ext_kind ext = ExtensionSourceKindGit) \<longrightarrow>
          (\<forall>n \<in> set (cleanup_names ext). OwnedRelease n \<notin> here s' \<or> n = HelmReleaseName (x_Status ext)))
    \<and> (HelmReleaseName (x_Status ext) = '''' \<and> ActiveSourceKind (x_Status ext) \<noteq> Some ExtensionSourceKindGit
        \<and> ext_kind ext \<noteq> ExtensionSourceKindGit \<longrightarrow> (\<forall>n. OwnedRelease n \<in> here s \<longrightarrow> OwnedRelease n \<in> here s'))"
proof -
  obtain s1 where c: "cleanup xo ext s = (Inr (), s1)" "here s' = here s1"
    using teardown.deletion_step [OF assms] by blast
  note T = teardown.targets_def [OF assms(1)]
  have gone: "x \<notin> here s'" if "(\<exists>m. (True, x, m) \<in> set (teardown.targets xo sure ext))"
      "sure \<longrightarrow> (\<forall>s. \<not> isl (fst (helmFor xo (xo_ExtensionNamespace xo) s)))" for sure x
    using teardown.cleanup_step [OF assms(1) c(1) that(2)] that(1) c(2) by auto
  have p1: "OwnedRepo n \<notin> here s' \<and> OwnedPlugin n \<notin> here s'" if "n \<in> set (cleanup_names ext) - {''''}" for n
    using gone [of "OwnedRepo n" False] gone [of "OwnedPlugin n" False] that by (auto simp: T Let_def)
  have p2: "OwnedRelease (HelmReleaseName (x_Status ext)) \<notin> here s'" if "HelmReleaseName (x_Status ext) \<noteq> ''''"
    by (rule gone [of _ False]) (use that in \<open>auto simp: T Let_def\<close>)
  have p3: "OwnedRelease n \<notin> here s'" if "\<forall>s. \<not> isl (fst (helmFor xo (xo_ExtensionNamespace xo) s))"
      "ActiveSourceKind (x_Status ext) = Some ExtensionSourceKindGit \<or> ext_kind ext = ExtensionSourceKindGit"
      "n \<in> set (cleanup_names ext)" "n \<noteq> HelmReleaseName (x_Status ext)" for n
    by (rule gone [of _ True]) (use that in \<open>auto simp: T Let_def\<close>)
  have p4: "OwnedRelease n \<in> here s'" if "HelmReleaseName (x_Status ext) = ''''" "OwnedRelease n \<in> here s"
      "\<not> (ActiveSourceKind (x_Status ext) = Some ExtensionSourceKindGit \<or> ext_kind ext = ExtensionSourceKindGit)" for n
  proof -
    have "OwnedRelease n \<notin> (\<lambda>(sure, x, m). x) ` set (teardown.targets xo False ext)"
      using that(1,3) by (auto simp: T Let_def)
    then show ?thesis using teardown.cleanup_step [OF assms(1) c(1), of False] that(2) c(2) by auto
  qed
  show ?thesis using p1 p2 p3 p4 by blast
qed


section \<open>A world in memory\<close>

text \<open>The client of an extension's namespace is the Helm engine.\<close>

definition helm_client :: "'s HelmLib \<Rightarrow> nat \<Rightarrow> string \<Rightarrow> ('s \<times> helm_mem) HelmClient" where
  "helm_client lib now ns = \<lparr>hcl_EnsureRelease = EnsureRelease lib now, hcl_DeleteRelease = DeleteRelease lib ns,
     hcl_LastRelease = LastRelease lib ns\<rparr>"

text \<open>When \<open>ew_Down\<close> holds, nothing can be uninstalled.\<close>

record ext_world =
  ew_Ext :: InstallAIExtension
  ew_Helm :: "(string \<Rightarrow> HelmRelease list) \<times> helm_mem"
  ew_Repos :: "string \<Rightarrow> ClusterRepo option"
  ew_Plugins :: "string \<Rightarrow> UIPlugin option"
  ew_Index :: IndexCache
  ew_Deployments :: "string \<Rightarrow> Deployment list"
  ew_Down :: bool

definition in_helm :: "((string \<Rightarrow> HelmRelease list) \<times> helm_mem, 'a) act \<Rightarrow> (ext_world, 'a) act" where
  "in_helm m w = (case m (ew_Helm w) of (r, h) \<Rightarrow> (r, w\<lparr>ew_Helm := h\<rparr>))"

definition hub_helm :: "nat \<Rightarrow> ext_world HelmClient" where
  "hub_helm now = (let h = helm_client mem_lib now ''aif'' in
     \<lparr>hcl_EnsureRelease = (\<lambda>spec. in_helm (hcl_EnsureRelease h spec)),
      hcl_DeleteRelease = (\<lambda>n w. if ew_Down w then (Inl (Err SOther ''timeout''), w) else in_helm (hcl_DeleteRelease h n) w),
      hcl_LastRelease = (\<lambda>n. in_helm (hcl_LastRelease h n))\<rparr>)"

definition blank_repo :: ClusterRepo where
  "blank_repo = \<lparr>cr_URL = None, cr_GitRepo = None, cr_GitBranch = None, cr_ForceUpdate = None, cr_Annotations = Map.empty\<rparr>"

definition blank_plugin :: UIPlugin where
  "blank_plugin = \<lparr>up_Name = None, up_Version = None, up_Endpoint = None, up_Metadata = None\<rparr>"

definition hub_index :: IndexFile where
  "hub_index = [''ui'' \<mapsto> [\<lparr>cv_Version = ''1.1'', cv_Annotations = [KeyDisplayName \<mapsto> ''AI'']\<rparr>]]"

definition or_else :: "'a option \<Rightarrow> 'a \<Rightarrow> 'a" where "or_else x d = (case x of None \<Rightarrow> d | Some a \<Rightarrow> a)"

definition hub_rancher :: "ext_world RancherAPI" where
  "hub_rancher = \<lparr>rk_ClientConfig = ret (), rk_GetCRD = (\<lambda>_. ret ()),
     rk_UpsertRepo = (\<lambda>n f w. case f (or_else (ew_Repos w n) blank_repo) w of
        (Inl e, w1) \<Rightarrow> (Inl e, w1) | (Inr c, w1) \<Rightarrow> (Inr (), w1\<lparr>ew_Repos := (ew_Repos w1)(n \<mapsto> c)\<rparr>)),
     rk_UpsertPlugin = (\<lambda>n ns f w. case f (or_else (ew_Plugins w n) blank_plugin) w of
        (Inl e, w1) \<Rightarrow> (Inl e, w1) | (Inr c, w1) \<Rightarrow> (Inr (), w1\<lparr>ew_Plugins := (ew_Plugins w1)(n \<mapsto> c)\<rparr>)),
     rk_DeleteRepo = (\<lambda>n w. (Inr (), w\<lparr>ew_Repos := (ew_Repos w)(n := None)\<rparr>)),
     rk_DeletePlugin = (\<lambda>n ns w. (Inr (), w\<lparr>ew_Plugins := (ew_Plugins w)(n := None)\<rparr>)),
     rk_FetchIndex = (\<lambda>_. ret hub_index), rk_Cache = ew_Index, rk_PutCache = (\<lambda>c w. w\<lparr>ew_Index := c\<rparr>)\<rparr>"

definition no_secrets :: "ext_world Client" where
  "no_secrets = \<lparr>GetSecret = (\<lambda>_ _. throw (Err SNotFound ''not found'')), UpdateSecret = (\<lambda>_ _. ret), PatchSecret = (\<lambda>_ _ _. ret ()),
     PatchNamespace = (\<lambda>_. ret ()), GetSettings = throw (Err SNotFound ''not found'')\<rparr>"

definition hub_ext :: "nat \<Rightarrow> ext_world ExtReconciler" where
  "hub_ext now = \<lparr>xo_Get = (\<lambda>w. (Inr (ew_Ext w), w)), xo_Update = (\<lambda>e w. (Inr (e\<lparr>x_Status := x_Status (ew_Ext w)\<rparr>), w\<lparr>ew_Ext := e\<lparr>x_Status := x_Status (ew_Ext w)\<rparr>\<rparr>)),
     xo_PatchStatus = (\<lambda>e b w. (Inr (), w\<lparr>ew_Ext := (ew_Ext w)\<lparr>x_Status := x_Status e\<rparr>\<rparr>)), xo_UpsertConfigMap = (\<lambda>_. ret ()),
     xo_Deployments = (\<lambda>_ n w. (Inr (ew_Deployments w n), w)),
     xo_Services = (\<lambda>_ n. ret [\<lparr>sv_Name = n, sv_Namespace = ''aif'', sv_Ports = [80]\<rparr>]), xo_Secrets = no_secrets, xo_AuthOrder = id,
     xo_TLSParser = \<lparr>tp_PEM = (\<lambda>_. False), tp_KeyPair = (\<lambda>_ _. False)\<rparr>, xo_Load = (\<lambda>_ _. Some (hub_helm now)),
     xo_LoadOrStore = (\<lambda>_ h w. (h, w)), xo_BuildClient = (\<lambda>_. ret (hub_helm now)), xo_Rancher = manager hub_rancher now,
     xo_Err = (\<lambda>_. None), xo_ExtensionNamespace = ''aif'', xo_OperatorNamespace = ''aif'', xo_OperatorService = ''op'',
     xo_ReadinessTimeout = 600 * 1000000000, xo_AllowInsecureRegistryTLS = False, xo_AllowedRegistryHosts = [''r'']\<rparr>"

definition hub_released :: "ext_world \<Rightarrow> ReleaseSpec \<Rightarrow> bool" where
  "hub_released w spec \<longleftrightarrow> mem_deployed (fst (ew_Helm w)) (rs_Name spec) \<noteq> None"

lemma mem_ensured:
  assumes "EnsureRelease mem_lib now spec (s, mem) = (Inr (), s', mem')"
  shows "mem_deployed s' (rs_Name spec) \<noteq> None"
  using assms
proof (rule mem_helm.ensure_step)
  assume "Inr () = (Inr () :: err + unit) \<Longrightarrow>
      \<exists>ch s1. lib_Install mem_lib spec ch s1 = (Inr (), s') \<or> lib_Upgrade mem_lib spec ch s1 = (Inr (), s')"
  then show ?thesis by (auto simp: mem_lib_def mem_put_def mem_deployed_def)
qed simp_all

lemma hub_client [simp]: "helmFor (hub_ext now) ns w = (Inr (hub_helm now), w)"
  by (simp add: helmFor_def hub_ext_def)

lemma hub_last: "\<exists>r. hcl_LastRelease (hub_helm now) n w = (r, w)"
proof -
  obtain s mem where h: "ew_Helm w = (s, mem)" by (cases "ew_Helm w")
  have i: "lib_Init mem_lib ns = ret ()" for ns by (simp add: mem_lib_def)
  have "snd (lastRelease mem_lib n s) = s"
    by (simp add: lastRelease_def found_release_def mem_lib_def mem_get_def split: option.split)
  then have "snd (LastRelease mem_lib ''aif'' n (ew_Helm w)) = ew_Helm w"
    by (cases "lastRelease mem_lib n s") (simp add: LastRelease_def on_lib_def bnd_def i ret_def h)
  then obtain r where "LastRelease mem_lib ''aif'' n (ew_Helm w) = (r, ew_Helm w)" by (metis prod.collapse)
  then show ?thesis by (simp add: hub_helm_def helm_client_def Let_def in_helm_def)
qed

lemma hub_index_step: "getOrFetchIndex hub_rancher t url w = (r, w') \<Longrightarrow> \<exists>c. w' = w\<lparr>ew_Index := c\<rparr>"
  by (auto simp: getOrFetchIndex_def hub_rancher_def ret_def split: option.splits prod.splits sum.splits)

lemma hub_annotations_step: "index_annotations hub_rancher t url n v w = (r, w') \<Longrightarrow> \<exists>c. w' = w\<lparr>ew_Index := c\<rparr>"
proof -
  assume a: "index_annotations hub_rancher t url n v w = (r, w')"
  obtain x w1 where x: "getOrFetchIndex hub_rancher t url w = (x, w1)" by (cases "getOrFetchIndex hub_rancher t url w")
  obtain c where c: "w1 = w\<lparr>ew_Index := c\<rparr>" using hub_index_step [OF x] by blast
  let ?w = "rk_PutCache hub_rancher (cache_Delete url (rk_Cache hub_rancher w1)) w1"
  obtain y w2 where y: "getOrFetchIndex hub_rancher t url ?w = (y, w2)" by (cases "getOrFetchIndex hub_rancher t url ?w")
  obtain d where d: "w2 = ?w\<lparr>ew_Index := d\<rparr>" using hub_index_step [OF y] by blast
  have "w' = w1 \<or> w' = w2" using a x y by (auto simp: index_annotations_def split: sum.splits if_splits prod.splits)
  then show ?thesis using c d by (auto simp: hub_rancher_def)
qed

lemma hub_plugin_step:
  assumes "EnsureUIPlugin (xo_Rancher (hub_ext now)) e url ns w = (r, w')"
  shows "ew_Helm w' = ew_Helm w \<and> ew_Deployments w' = ew_Deployments w \<and> ew_Repos w' = ew_Repos w
    \<and> (r = Inr () \<longrightarrow> (\<exists>p. ew_Plugins w' (ext_name e) = Some p \<and> plugin_points e url p))"
proof -
  let ?a = "index_annotations hub_rancher now url (ext_name e) (ext_version e)"
  obtain a w1 where a: "?a w = (a, w1)" by (cases "?a w")
  obtain c where c: "w1 = w\<lparr>ew_Index := c\<rparr>" using hub_annotations_step [OF a] by blast
  show ?thesis using assms a c
    by (cases a) (auto simp: hub_ext_def manager_def manager_EnsureUIPlugin_def plugin_spec_def buildExtensionMetadata_def bnd_def ret_def
        plugin_points_def hub_rancher_def)
qed

lemma hub_repo_step:
  assumes "EnsureClusterRepo (xo_Rancher (hub_ext now)) e url w = (r, w')"
  shows "ew_Helm w' = ew_Helm w \<and> ew_Deployments w' = ew_Deployments w
    \<and> (r = Inr () \<longrightarrow> (\<exists>c. ew_Repos w' (ext_name e) = Some c \<and> repo_serves e url c))"
proof (cases "repo_spec now e url (or_else (ew_Repos w (ext_name e)) blank_repo)")
  case (Inl u)
  then show ?thesis using assms
    by (auto simp: hub_ext_def manager_def manager_EnsureClusterRepo_def hub_rancher_def ClusterRepoName_def)
next
  case (Inr c)
  then have "repo_serves e url c"
    by (auto simp: repo_spec_def repo_serves_def forceIndexRefreshIfVersionChanged_def split: ExtensionSourceKind.splits option.splits)
  then show ?thesis using assms Inr
    by (auto simp: hub_ext_def manager_def manager_EnsureClusterRepo_def hub_rancher_def ClusterRepoName_def)
qed

lemma hub_released_step:
  assumes "hcl_EnsureRelease (hub_helm now) spec w = (Inr (), w')"
  shows "hub_released w' spec"
proof -
  obtain s mem where h: "ew_Helm w = (s, mem)" by (cases "ew_Helm w")
  obtain r s1 mem1 where e: "EnsureRelease mem_lib now spec (s, mem) = (r, s1, mem1)" by (metis prod_cases3)
  show ?thesis using assms h e mem_ensured [of now spec s mem s1 mem1]
    by (auto simp: hub_helm_def helm_client_def Let_def in_helm_def hub_released_def)
qed

lemma in_helm_leaves: "ew_Repos (snd (in_helm m w)) = ew_Repos w" "ew_Plugins (snd (in_helm m w)) = ew_Plugins w"
  by (simp_all add: in_helm_def split: prod.split)

definition hub_services :: "ext_world \<Rightarrow> string \<Rightarrow> Service list" where
  "hub_services w n = [\<lparr>sv_Name = n, sv_Namespace = ''aif'', sv_Ports = [80]\<rparr>]"

interpretation hub: extension_world "hub_ext now" hub_released ew_Deployments ew_Repos ew_Plugins hub_services for now
proof unfold_locales
  fix f show "leaves (\<lambda>s. (hub_released s, ew_Deployments s, ew_Repos s, ew_Plugins s)) (xo_UpsertConfigMap (hub_ext now) f)"
    by (simp add: hub_ext_def leaves_def ret_def)
next
  fix e url ns show "leaves (\<lambda>s. (hub_released s, ew_Deployments s, ew_Repos s)) (EnsureUIPlugin (xo_Rancher (hub_ext now)) e url ns)"
    unfolding leaves_def using hub_plugin_step by (simp add: hub_released_def [abs_def]) (metis surj_pair snd_conv)
next
  fix e url show "leaves (\<lambda>s. (hub_released s, ew_Deployments s)) (EnsureClusterRepo (xo_Rancher (hub_ext now)) e url)"
    unfolding leaves_def using hub_repo_step by (simp add: hub_released_def [abs_def]) (metis surj_pair snd_conv)
next
  fix ns s h s' n assume "helmFor (hub_ext now) ns s = (Inr h, s')"
  then have h: "h = hub_helm now" by simp
  show "leaves (\<lambda>s. (hub_released s, ew_Deployments s)) (hcl_LastRelease h n)" "leaves ew_Repos (hcl_LastRelease h n)"
    unfolding leaves_def h using hub_last by (metis snd_conv)+
  show "leaves ew_Repos (hcl_EnsureRelease h spec)" for spec
    by (simp add: leaves_def h hub_helm_def Let_def in_helm_leaves)
next
  fix ns s h s' spec t t' assume "helmFor (hub_ext now) ns s = (Inr h, s')" "hcl_EnsureRelease h spec t = (Inr (), t')"
  then show "hub_released t' spec" using hub_released_step [of now spec t t'] by auto
next
  fix e url s s' assume "EnsureClusterRepo (xo_Rancher (hub_ext now)) e url s = (Inr (), s')"
  from hub_repo_step [OF this] show "\<exists>r. ew_Repos s' (ext_name e) = Some r \<and> repo_serves e url r" by blast
next
  fix e url s s' assume "EnsureUIPlugin (xo_Rancher (hub_ext now)) e url (xo_ExtensionNamespace (hub_ext now)) s = (Inr (), s')"
  from hub_plugin_step [OF this] show "\<exists>p. ew_Plugins s' (ext_name e) = Some p \<and> plugin_points e url p" by blast
next
  show "stores_object (hub_ext now)" by (auto simp: stores_object_def hub_ext_def)
next
  fix n s ds s' assume "xo_Deployments (hub_ext now) (xo_ExtensionNamespace (hub_ext now)) n s = (Inr ds, s')"
  then show "ds = ew_Deployments s n" by (auto simp: hub_ext_def)
qed (simp_all add: leaves_def hub_services_def [abs_def], simp_all add: hub_ext_def ret_def hub_released_def [abs_def])


text \<open>What the world holds of an extension.\<close>

definition hub_here :: "ext_world \<Rightarrow> owned set" where
  "hub_here w = OwnedRepo ` dom (ew_Repos w) \<union> OwnedPlugin ` dom (ew_Plugins w) \<union> OwnedRelease ` {n. fst (ew_Helm w) n \<noteq> []}"

lemma mem_deleted:
  assumes "DeleteRelease mem_lib ns n (s, mem) = (r, s', mem')"
  shows "s' = s(n := [])"
  using assms by (simp add: DeleteRelease_def on_lib_def on_mem_def bnd_def mem_lib_def ret_def)

lemma hub_release_deleted: "deletes hub_here True (OwnedRelease n) (hcl_DeleteRelease (hub_helm now) n)"
proof -
  have "hub_here w - {OwnedRelease n} \<subseteq> hub_here w' \<and> hub_here w' \<subseteq> hub_here w \<and> (r = Inr () \<longrightarrow> OwnedRelease n \<notin> hub_here w')"
    if "hcl_DeleteRelease (hub_helm now) n w = (r, w')" for w r w'
  proof (cases "ew_Down w")
    case True
    then show ?thesis using that by (auto simp: hub_helm_def Let_def)
  next
    case False
    obtain s mem where h: "ew_Helm w = (s, mem)" by (cases "ew_Helm w")
    obtain q s1 mem1 where d: "DeleteRelease mem_lib ''aif'' n (s, mem) = (q, s1, mem1)" by (metis prod_cases3)
    then have "w' = w\<lparr>ew_Helm := (s(n := []), mem1)\<rparr>"
      using that False h mem_deleted [OF d] by (simp add: hub_helm_def helm_client_def Let_def in_helm_def)
    then show ?thesis using h by (auto simp: hub_here_def)
  qed
  then show ?thesis by (simp add: deletes_def)
qed

interpretation hub_teardown: teardown "hub_ext now" hub_here for now
proof unfold_locales
  fix n show "deletes hub_here True (OwnedRepo n) (DeleteClusterRepo (xo_Rancher (hub_ext now)) n)"
    by (auto simp: deletes_def hub_ext_def manager_def manager_DeleteClusterRepo_def delete_ignoring_absent_def hub_rancher_def
        hub_here_def)
next
  fix n ns show "deletes hub_here True (OwnedPlugin n) (DeleteUIPlugin (xo_Rancher (hub_ext now)) n ns)"
    by (auto simp: deletes_def hub_ext_def manager_def manager_DeleteUIPlugin_def delete_ignoring_absent_def hub_rancher_def
        hub_here_def)
next
  fix ns s h s' n assume "helmFor (hub_ext now) ns s = (Inr h, s')"
  then show "deletes hub_here True (OwnedRelease n) (hcl_DeleteRelease h n)" using hub_release_deleted [of n now] by auto
qed (simp_all add: leaves_def, simp_all add: hub_ext_def hub_here_def)

section \<open>Concrete passes\<close>

definition example_ext :: InstallAIExtension where
  "example_ext = \<lparr>x_Generation = 1, x_Annotations = Map.empty, x_Finalizers = [finalizerName], x_Deleting = False,
     x_Spec = \<lparr>x_Source = \<lparr>xs_Kind = ExtensionSourceKindHelm, xs_Helm = Some \<lparr>hs_ChartURL = ''oci://r/ui'', hs_Version = ''1.1'',
         hs_Values = [], hs_Auth = None, hs_TLS = None\<rparr>, xs_Git = None\<rparr>, x_Extension = \<lparr>xc_Name = ''ui'', xc_Version = ''1.1''\<rparr>\<rparr>,
     x_Status = \<lparr>xt_Phase = ExtUnset, xt_Conditions = Map.empty, xt_ObservedGeneration = 0, HelmReleaseName = '''',
       HelmReleaseRevision = 0, ActiveExtensionName = '''', ActiveSourceKind = None\<rparr>\<rparr>"

definition example_world :: "InstallAIExtension \<Rightarrow> bool \<Rightarrow> ext_world" where
  "example_world e down = \<lparr>ew_Ext = e, ew_Helm = (\<lambda>_. [], no_mem), ew_Repos = Map.empty, ew_Plugins = Map.empty, ew_Index = Map.empty,
     ew_Deployments = (\<lambda>_. [\<lparr>d_Name = ''ui'', d_Annotations = Map.empty, d_Selector = None, d_Generation = 1, d_Replicas_spec = Some 1,
       d_ObservedGeneration = 1, d_Replicas = 1, d_UpdatedReplicas = 1, d_AvailableReplicas = 1\<rparr>]), ew_Down = down\<rparr>"

lemma hub_crds: "CheckCRDs (xo_Rancher (hub_ext now)) crds w = (Inr (), w)"
proof -
  have "for_each crds (check_crd hub_rancher) w = (Inr (), w)"
    by (induction crds) (simp_all add: check_crd_def hub_rancher_def ret_def)
  then show ?thesis by (simp add: hub_ext_def manager_def manager_CheckCRDs_def bnd_def) (simp add: hub_rancher_def ret_def)
qed

lemma example_source:
  "fst (reconcile_source (hub_ext 5) 5 (set_phase ExtInstalling example_ext, example_world example_ext False)) = Inr result_done"
  "xt_Phase (x_Status (fst (snd (reconcile_source (hub_ext 5) 5 (set_phase ExtInstalling example_ext, example_world example_ext False))))) = ExtInstalling"
  by code_simp+

lemma example_installs: "xt_Phase (x_Status (fst (snd (reconcile (hub_ext 5) 5 (example_ext, example_world example_ext False))))) = ExtInstalled"
proof -
  let ?x = "(set_phase ExtInstalling example_ext, example_world example_ext False)"
  have c: "cleanupStaleResources (hub_ext 5) ?x = (Inr (), ?x)"
    by (simp add: cleanupStaleResources_def cleanup_renamed_def cleanup_switched_def join_errs_def example_ext_def set_phase_def set_status_def)
  obtain r e w where s: "reconcile_source (hub_ext 5) 5 ?x = (r, e, w)" by (metis prod_cases3)
  then have "r = Inr result_done" "xt_Phase (x_Status e) = ExtInstalling" using example_source by simp_all
  moreover have "syncUIConfigMap (hub_ext 5) w = (Inr (), w)" by (simp add: syncUIConfigMap_def hub_ext_def ret_def)
  ultimately show ?thesis using s c hub_crds [of 5]
    by (simp add: reconcile_def finish_pass_def mark_installed_def set_status_def)
qed


theorem retry_backs_off_witness: "fst (failing [(''Ready'', ''a'', ''b''), (''UIPluginReady'', ''a'', ''b''), (''Ready'', ''c'', ''d'')] (5, example_ext)) = 240000000005"
  using retry_backs_off [of 5 example_ext "[(''Ready'', ''a'', ''b''), (''UIPluginReady'', ''a'', ''b''), (''Ready'', ''c'', ''d'')]"]
  by (simp add: example_ext_def failing_for_def)


definition example_wait :: "nat \<Rightarrow> (ext_world, Result) xact" where
  "example_wait now = awaitReadiness (hub_ext 5) now annotationWaitingSince conditionTypeDeploymentReady ''NotReady'' ''0/1''"

lemma example_wait_ok: "\<exists>r e' w'. example_wait now (e, w) = (Inr r, e', w')"
proof (cases "getWaitingSince now e annotationWaitingSince")
  case None
  then show ?thesis by (simp add: example_wait_def awaitReadiness_def timed_wait_def updateAnnotations_def hub_ext_def)
next
  case (Some t)
  then show ?thesis by (simp add: example_wait_def awaitReadiness_def timed_wait_def split: prod.split)
qed

theorem waits_bounded_witness:
  "\<exists>r e w r' e' w'. example_wait 0 (example_ext, example_world example_ext False) = (Inr r, e, w)
    \<and> example_wait 601000000000 (e, w) = (Inr r', e', w') \<and> xt_Phase (x_Status e') = ExtFailed"
proof -
  let ?xo = "hub_ext 5"
  have of: "wait_of ?xo annotationWaitingSince t (example_wait t)" for t
    by (auto simp: wait_of_def example_wait_def annotationWaitingSince_def annotationReleasePendingSince_def)
  obtain r e w where a: "example_wait 0 (example_ext, example_world example_ext False) = (Inr r, e, w)"
    using example_wait_ok by metis
  obtain r' e' w' where b: "example_wait 601000000000 (e, w) = (Inr r', e', w')" using example_wait_ok by metis
  have n: "getWaitingSince 0 example_ext annotationWaitingSince = None" by (simp add: getWaitingSince_def example_ext_def)
  have bd: "wait_bound ?xo annotationWaitingSince = 600 * 1000000000"
    by (simp add: wait_bound_def hub_ext_def annotationWaitingSince_def annotationReleasePendingSince_def)
  have t: "time_ok (0 div 1000000000)" by (simp add: time_ok_def year_of.simps ylen_def)
  have l: "wait_bound ?xo annotationWaitingSince < 2 ^ 63 - 1" using bd by simp
  from waits_bounded [OF hub.stores waited.first [OF of n a] t l le0 refl of b] show ?thesis using a b bd by auto
qed

text \<open>A chart from a registry that is not allowed, while the release of another chart runs.\<close>

definition example_forbidden :: HelmSource where
  "example_forbidden = \<lparr>hs_ChartURL = ''oci://evil/ui'', hs_Version = ''1.1'', hs_Values = [], hs_Auth = None, hs_TLS = None\<rparr>"

definition example_moved :: InstallAIExtension where
  "example_moved = example_ext\<lparr>x_Spec := (x_Spec example_ext)\<lparr>x_Source := (x_Source (x_Spec example_ext))\<lparr>xs_Helm := Some example_forbidden\<rparr>\<rparr>,
     x_Status := (x_Status example_ext)\<lparr>HelmReleaseName := ''old-server'', ActiveExtensionName := ''old'', ActiveSourceKind := Some ExtensionSourceKindHelm\<rparr>\<rparr>"

theorem rejected_before_credentials_witness:
  "snd (snd (reconcileHelmSource (hub_ext 5) 5 (example_moved, example_world example_moved False)))
     = snd (uninstall_with_client (hub_ext 5) ''old-server'' (example_world example_moved False))"
proof -
  have h: "xs_Helm (x_Source (x_Spec example_moved)) = Some example_forbidden" by (simp add: example_moved_def)
  have u: "url_Parse (hs_ChartURL example_forbidden) = Some \<lparr>u_Scheme = ''oci'', u_Host = ''evil'', u_Path = ''/ui''\<rparr>"
    and n: "\<not> registryHostAllowed (hub_ext 5) (u_Host \<lparr>u_Scheme = ''oci'', u_Host = ''evil'', u_Path = ''/ui''\<rparr>)
      (Hostname \<lparr>u_Scheme = ''oci'', u_Host = ''evil'', u_Path = ''/ui''\<rparr>)"
    and d: "HelmReleaseName (x_Status example_moved) \<notin> {'''', deriveReleaseName (hs_ChartURL example_forbidden)}"
    and i: "insecure example_forbidden = False" "HelmReleaseName (x_Status example_moved) = ''old-server''"
    by code_simp+
  show ?thesis using rejected_before_credentials [OF h u n, of 5 "example_world example_moved False"] d i by simp
qed

theorem failed_uninstall_forgotten_witness:
  "HelmReleaseName (x_Status (fst (snd (cleanupStaleResources (hub_ext 5) (example_moved, example_world example_moved True))))) = ''''"
proof -
  obtain r e w where c: "cleanupStaleResources (hub_ext 5) (example_moved, example_world example_moved True) = (r, e, w)" by (metis prod_cases3)
  have "isl (fst (cleanupStaleResources (hub_ext 5) (example_moved, example_world example_moved True)))" by code_simp
  then obtain x where r: "r = Inl x" using c by (cases r) simp_all
  have h: "stale_helm (x_Status example_moved)" by (simp add: stale_helm_def example_moved_def)
  have l: "\<forall>name. \<forall>m \<in> set (delete_rancher (hub_ext 5) name). leaves ew_Helm m"
    by (simp add: delete_rancher_def hub_ext_def manager_def manager_DeleteClusterRepo_def manager_DeleteUIPlugin_def
        delete_ignoring_absent_def hub_rancher_def leaves_def)
  show ?thesis using failed_uninstall_forgotten [OF c [unfolded r] h l] c by simp
qed

theorem deletion_complete_witness:
  "\<exists>w. ext_handleDeletion (hub_ext 5) example_ext ((example_world example_ext False)\<lparr>ew_Repos := [''ui'' \<mapsto> blank_repo]\<rparr>) = (Inr result_done, w)
    \<and> OwnedRepo ''ui'' \<notin> hub_here w"
proof -
  let ?w = "(example_world example_ext False)\<lparr>ew_Repos := [''ui'' \<mapsto> blank_repo]\<rparr>"
  have f: "finalizerName \<in> set (x_Finalizers example_ext)" by (simp add: example_ext_def)
  obtain r w where d: "ext_handleDeletion (hub_ext 5) example_ext ?w = (r, w)" by (meson surj_pair)
  have "fst (ext_handleDeletion (hub_ext 5) example_ext ?w) = Inr result_done" by code_simp
  then have r: "r = Inr result_done" using d by simp
  have "''ui'' \<in> set (cleanup_names example_ext) - {''''}" by (simp add: cleanup_names_def example_ext_def ext_name_def Let_def)
  then show ?thesis using deletion_complete [OF hub_teardown.teardown_axioms d [unfolded r] f] d r by blast
qed

end
