(* ===== verification/RancherPass.thy ===== *)
theory RancherPass
  imports ExtensionPass
begin

text \<open>
  What the Rancher objects of an extension guarantee: the index is downloaded again once for every new version, and
  a chart is reported as missing only after a look at an index fetched in that call.
\<close>

section \<open>The ClusterRepo\<close>

text \<open>
  A ClusterRepo has exactly one source, the one of the spec. Rancher is told to download its index again when
  the version of the extension is not the one recorded, and then the version is recorded, so that later
  passes over the same version, whatever their time and URL, leave the request alone.
\<close>

theorem refresh_once_per_version:
  assumes "repo_spec now ext url c = Inr c1" "ext_version ext \<noteq> ''''"
  shows "repo_serves ext url c1 \<and> mget (cr_Annotations c1) annotationSyncedVersion = ext_version ext
    \<and> cr_ForceUpdate c1 = (if mget (cr_Annotations c) annotationSyncedVersion = ext_version ext then cr_ForceUpdate c
        else Some (format_rfc3339 (now div 1000000000)))
    \<and> (\<forall>later ext2 url2 c2. repo_spec later ext2 url2 c1 = Inr c2 \<longrightarrow>
        (cr_ForceUpdate c2 = cr_ForceUpdate c1 \<longleftrightarrow> ext_version ext2 = ext_version ext
          \<or> cr_ForceUpdate c1 = Some (format_rfc3339 (later div 1000000000))))"
proof -
  have f: "repo_serves e u d1 \<and> mget (cr_Annotations d1) annotationSyncedVersion = ext_version e
      \<and> cr_ForceUpdate d1 = (if mget (cr_Annotations d) annotationSyncedVersion = ext_version e then cr_ForceUpdate d
          else Some (format_rfc3339 (t div 1000000000)))"
    if "repo_spec t e u d = Inr d1" for t e u d d1
    using that by (auto simp: repo_spec_def repo_serves_def forceIndexRefreshIfVersionChanged_def second_def
        split: ExtensionSourceKind.splits option.splits)
  show ?thesis using f [OF assms(1)] f [of _ _ _ c1] by (metis option.inject)
qed

theorem refresh_once_per_version_witness:
  "\<exists>c1 c2. repo_spec 5000000000 example_ext ''u'' blank_repo = Inr c1 \<and> repo_spec 9000000000 example_ext ''v'' c1 = Inr c2
    \<and> cr_ForceUpdate c2 = Some (format_rfc3339 5) \<and> cr_URL c2 = Some ''v''"
proof -
  have k: "ext_kind example_ext = ExtensionSourceKindHelm" "ext_version example_ext = ''1.1''"
    by (simp_all add: ext_kind_def ext_version_def example_ext_def)
  obtain c1 where c1: "repo_spec 5000000000 example_ext ''u'' blank_repo = Inr c1" by (simp add: repo_spec_def k)
  obtain c2 where c2: "repo_spec 9000000000 example_ext ''v'' c1 = Inr c2" by (simp add: repo_spec_def k)
  have v: "ext_version example_ext \<noteq> ''''" by (simp add: k)
  show ?thesis
    using refresh_once_per_version [OF c1 v] refresh_once_per_version [OF c2 v] c1 c2
    by (auto simp: blank_repo_def k repo_serves_def)
qed

section \<open>The metadata\<close>

text \<open>The cache is a part of the state that can be written and read back.\<close>

definition cache_kept :: "'s RancherAPI \<Rightarrow> bool" where
  "cache_kept k \<longleftrightarrow> (\<forall>c s. rk_Cache k (rk_PutCache k c s) = c)"

lemma fetched_index:
  assumes "getOrFetchIndex k now url s = (r, s')"
  obtains e where "rk_Cache k s url = Some e" "r = Inr (ie_Index e, True)" "int now - int (ie_FetchedAt e) \<le> 300 * 1000000000"
    | t t' i where "rk_FetchIndex k (url @ ''/index.yaml'') t = (Inr i, t')" "r = Inr (i, False)"
    | t t' u where "rk_FetchIndex k (url @ ''/index.yaml'') t = (Inl u, t')" "r = Inl u"
proof (cases "cache_Get now url (rk_Cache k s)")
  case (Pair entry items)
  show ?thesis
  proof (cases entry)
    case (Some e)
    then have e: "rk_Cache k s url = Some e" "since now (Some (ie_FetchedAt e)) \<le> indexCacheTTL"
      using Pair by (auto simp: cache_Get_def split: option.splits if_splits)
    then have "int now - int (ie_FetchedAt e) \<le> 300 * 1000000000" by (simp add: indexCacheTTL_def second_def)
    then show ?thesis using that(1) assms Pair Some e by (auto simp: getOrFetchIndex_def)
  next
    case None
    obtain x t' where x: "rk_FetchIndex k (url @ ''/index.yaml'') (rk_PutCache k items s) = (x, t')" by (meson surj_pair)
    then show ?thesis using that(2,3) assms Pair None by (cases x) (auto simp: getOrFetchIndex_def)
  qed
qed

lemma index_word:
  assumes "rk_FetchIndex k u t = (x, t')" "case x of Inl v \<Rightarrow> e = v | Inr i \<Rightarrow> FindAnnotations i name version = Inl e"
  shows "\<exists>t t' x. rk_FetchIndex k u t = (x, t') \<and> (case x of Inl v \<Rightarrow> e = v | Inr i \<Rightarrow> FindAnnotations i name version = Inl e)"
  using assms by blast

text \<open>
  The description of an extension comes from an index that is at most five minutes old; and an extension is
  reported as missing only on the word of an index fetched in this very call, or when that fetch fails,
  never on the word of the cache.
\<close>

theorem metadata_current:
  assumes "cache_kept k" "index_annotations k now url name version s = (r, s')"
  shows "case r of
      Inr a \<Rightarrow> (\<exists>e. rk_Cache k s url = Some e \<and> int now - int (ie_FetchedAt e) \<le> 300 * 1000000000 \<and> FindAnnotations (ie_Index e) name version = Inr a)
        \<or> (\<exists>t t' i. rk_FetchIndex k (url @ ''/index.yaml'') t = (Inr i, t') \<and> FindAnnotations i name version = Inr a)
    | Inl u \<Rightarrow> \<exists>t t' x. rk_FetchIndex k (url @ ''/index.yaml'') t = (x, t')
        \<and> (case x of Inl v \<Rightarrow> u = v | Inr i \<Rightarrow> FindAnnotations i name version = Inl u)"
proof -
  obtain x s1 where x: "getOrFetchIndex k now url s = (x, s1)" by (cases "getOrFetchIndex k now url s")
  show ?thesis
  proof (cases rule: fetched_index [OF x])
    case (1 e)
    show ?thesis
    proof (cases "FindAnnotations (ie_Index e) name version")
      case (Inr a)
      then have "r = Inr a" using assms(2) x 1(2) by (simp add: index_annotations_def)
      then show ?thesis using 1 Inr by simp
    next
      case miss: (Inl u)
      let ?s = "rk_PutCache k (cache_Delete url (rk_Cache k s1)) s1"
      obtain y s2 where y: "getOrFetchIndex k now url ?s = (y, s2)" by (cases "getOrFetchIndex k now url ?s")
      have n: "rk_Cache k ?s url = None" using assms(1) by (simp add: cache_kept_def cache_Delete_def)
      have r: "r = (case y of Inl e2 \<Rightarrow> Inl e2 | Inr (i2, _) \<Rightarrow> FindAnnotations i2 name version)"
        using assms(2) x 1(2) miss y by (auto simp: index_annotations_def split: sum.splits prod.splits)
      show ?thesis
      proof (cases rule: fetched_index [OF y])
        case 1
        then show ?thesis using n by simp
      next
        case (2 t t' i)
        then show ?thesis using r index_word [OF 2(1)] by (cases "FindAnnotations i name version") auto
      next
        case (3 t t' w)
        then show ?thesis using r index_word [OF 3(1)] by simp
      qed
    qed
  next
    case (2 t t' i)
    then have "r = FindAnnotations i name version" using assms(2) x by (auto simp: index_annotations_def split: sum.splits)
    then show ?thesis using index_word [OF 2(1)] 2(1) by (cases "FindAnnotations i name version") auto
  next
    case (3 t t' u)
    then have "r = Inl u" using assms(2) x by (simp add: index_annotations_def)
    then show ?thesis using index_word [OF 3(1)] by simp
  qed
qed

theorem metadata_current_witness:
  "fst (index_annotations hub_rancher 5 ''http://u'' ''ui'' ''9.9'' (example_world example_ext False))
    = Inl (Err SOther (''version '' @ go_quoted ''9.9'' @ '' not found for chart '' @ go_quoted ''ui''))"
proof -
  have k: "cache_kept hub_rancher" by (simp add: cache_kept_def hub_rancher_def)
  obtain r s where r: "index_annotations hub_rancher 5 ''http://u'' ''ui'' ''9.9'' (example_world example_ext False) = (r, s)"
    by (meson surj_pair)
  have f: "rk_FetchIndex hub_rancher u t = (Inr hub_index, t)" for u t by (simp add: hub_rancher_def ret_def)
  have "rk_Cache hub_rancher (example_world example_ext False) ''http://u'' = None"
    by (simp add: hub_rancher_def example_world_def)
  moreover have m: "FindAnnotations hub_index ''ui'' ''9.9''
      = Inl (Err SOther (''version '' @ go_quoted ''9.9'' @ '' not found for chart '' @ go_quoted ''ui''))"
    by (simp add: FindAnnotations_def hub_index_def)
  ultimately show ?thesis using metadata_current [OF k r] r f by (cases r) auto
qed

end
