(* ===== verification/Catalog.thy ===== *)
theory Catalog
  imports GoUrl Journal "HOL-Library.Product_Lexorder" "HOL-Library.Multiset"
begin

text \<open>
  The application catalog (\<open>internal/catalog\<close>): \<open>catalog.go\<close> turns a catalog document into a list of valid entries, and
  \<open>ngc_repos.go\<close> decides which of their repositories may be given the NGC token. Members of a document are matched
  by their exact name, space and case are those of ASCII, and the order in which Go visits a map is an argument.
\<close>

section \<open>NGC repositories (ngc_repos.go)\<close>

definition trim_space :: "string \<Rightarrow> string" where
  "trim_space s =
     (let sp = (\<lambda>c. c \<in> {CHR 0x09, CHR 0x0A, CHR 0x0B, CHR 0x0C, CHR 0x0D, CHR 0x20})
      in rev (dropWhile sp (rev (dropWhile sp s))))"

definition NGCHost :: string where "NGCHost = ''helm.ngc.nvidia.com''"

definition orgNGCPaths :: "string list" where "orgNGCPaths = [''/nvidia'', ''/nvidia/blueprint'']"

definition publicNGCPaths :: "string list" where "publicNGCPaths = [''/nvidia/doca'']"

definition gatedNGCPaths :: "string list" where
  "gatedNGCPaths =
     [''/nim/baidu'', ''/nim/mit'', ''/nim/nvidia'', ''/nvidia/ace'', ''/nvidia/cuopt'', ''/nvidia/nemo-microservices'',
      ''/nvidia/omniverse'', ''/nvidia/omniverse-usdcode'', ''/nvidia/riva'', ''/nvidia/runai'']"

definition excludedNGCPaths :: "string list" where
  "excludedNGCPaths =
     [''/nim'', ''/nim/snowflake'', ''/eevaigoeixww/animation'', ''/eevaigoeixww/conversational-ai'']"

datatype NGCPathKind = NGCPathUnknown | NGCPathOrg | NGCPathPublic | NGCPathGated | NGCPathExcluded

definition ClassifyNGCPath :: "string \<Rightarrow> NGCPathKind" where
  "ClassifyNGCPath path =
     (if path \<in> set orgNGCPaths then NGCPathOrg
      else if path \<in> set excludedNGCPaths then NGCPathExcluded
      else if path \<in> set publicNGCPaths then NGCPathPublic
      else if path \<in> set gatedNGCPaths then NGCPathGated
      else NGCPathUnknown)"

definition IsNGCURL :: "string \<Rightarrow> bool" where
  "IsNGCURL u =
     (case url_Parse (trim_space u) of
        None \<Rightarrow> False
      | Some parsed \<Rightarrow> u_Scheme parsed = ''https'' \<and> u_Host parsed = NGCHost)"

text \<open>\<open>strings.TrimRight(strings.TrimSpace(u), "/")\<close>, as every reader of a repository URL writes it.\<close>

definition repo_key :: "string \<Rightarrow> string" where "repo_key u = trim_right CHR ''/'' (trim_space u)"

definition NGCClusterRepoName :: "string \<Rightarrow> err + string" where
  "NGCClusterRepoName ngcURL =
     (let normalized = repo_key ngcURL
      in if \<not> IsNGCURL normalized then Inl (Err SOther (''not an NGC URL: '' @ go_quoted ngcURL))
         else (case url_Parse normalized of
                 None \<Rightarrow> Inl (Err SOther (''parse NGC URL '' @ go_quoted ngcURL))
               | Some parsed \<Rightarrow>
                   (case ClassifyNGCPath (u_Path parsed) of
                      NGCPathOrg \<Rightarrow>
                        if u_Path parsed = ''/nvidia'' then Inr ''nvidia''
                        else if u_Path parsed = ''/nvidia/blueprint'' then Inr ''nvidia-blueprints''
                        else Inl (Err SOther (''NGC org path '' @ go_quoted (u_Path parsed) @ '' has no stable ClusterRepo alias''))
                    | NGCPathExcluded \<Rightarrow> Inl (Err SOther (''NGC path '' @ go_quoted (u_Path parsed) @ '' is excluded''))
                    | _ \<Rightarrow>
                        (let name = label63 (Slugify (trim_prefix (u_Path parsed) ''/''))
                         in if name = '''' then Inl (Err SOther (''empty ClusterRepo slug for NGC URL '' @ go_quoted ngcURL))
                            else if name = ''nvidia'' \<or> name = ''nvidia-blueprints''
                            then Inl (Err SOther (''NGC team slug '' @ go_quoted name @ '' collides with an org repo name''))
                            else Inr name))))"

section \<open>Entries (catalog.go)\<close>

record Label =
  lb_Code :: string
  lb_Name :: string

record Item =
  it_Name :: string
  it_SlugName :: string
  it_Description :: string
  it_ProjectURL :: string
  it_DocumentationURL :: string
  it_ReferenceGuideURL :: string
  it_SourceCodeURL :: string
  it_LogoURL :: string
  it_ChangelogURL :: string
  it_LastUpdatedAt :: string
  it_PackagingFormat :: string
  it_RepositoryURL :: string
  it_RepositoryName :: string
  it_Library :: string
  it_Labels :: "Label list"

text \<open>Decoding a slice and a struct: \<open>null\<close> is the nil slice and changes nothing in a struct.\<close>

fun decode_list :: "(json \<Rightarrow> 'a option) \<Rightarrow> json option \<Rightarrow> 'a list option" where
  "decode_list f None = Some []"
| "decode_list f (Some JNull) = Some []"
| "decode_list f (Some (JArr xs)) = those (map f xs)"
| "decode_list f (Some _) = None"

fun decode_struct :: "((string \<Rightarrow> json option) \<Rightarrow> 'a option) \<Rightarrow> json \<Rightarrow> 'a option" where
  "decode_struct f JNull = f Map.empty"
| "decode_struct f (JObj m) = f (obj_get m)"
| "decode_struct f _ = None"

definition label_members :: "(string \<Rightarrow> json option) \<Rightarrow> Label option" where
  "label_members m =
     Option.bind (str_value (m ''code'')) (\<lambda>code.
     Option.bind (str_value (m ''name'')) (\<lambda>name. Some \<lparr>lb_Code = code, lb_Name = name\<rparr>))"

definition decode_label :: "json \<Rightarrow> Label option" where "decode_label = decode_struct label_members"

definition decode_members :: "(string \<Rightarrow> json option) \<Rightarrow> Item option" where
  "decode_members m =
     Option.bind (str_value (m ''name'')) (\<lambda>name.
     Option.bind (str_value (m ''slug_name'')) (\<lambda>slug.
     Option.bind (str_value (m ''description'')) (\<lambda>description.
     Option.bind (str_value (m ''project_url'')) (\<lambda>project.
     Option.bind (str_value (m ''documentation_url'')) (\<lambda>documentation.
     Option.bind (str_value (m ''reference_guide_url'')) (\<lambda>guide.
     Option.bind (str_value (m ''source_code_url'')) (\<lambda>source.
     Option.bind (str_value (m ''logo_url'')) (\<lambda>logo.
     Option.bind (str_value (m ''changelog_url'')) (\<lambda>changelog.
     Option.bind (str_value (m ''last_updated_at'')) (\<lambda>updated.
     Option.bind (str_value (m ''packaging_format'')) (\<lambda>format.
     Option.bind (str_value (m ''repository_url'')) (\<lambda>url.
     Option.bind (str_value (m ''repository_name'')) (\<lambda>repo.
     Option.bind (str_value (m ''library'')) (\<lambda>library.
     Option.bind (decode_list decode_label (m ''labels'')) (\<lambda>labels.
       Some \<lparr>it_Name = name, it_SlugName = slug, it_Description = description, it_ProjectURL = project,
         it_DocumentationURL = documentation, it_ReferenceGuideURL = guide, it_SourceCodeURL = source,
         it_LogoURL = logo, it_ChangelogURL = changelog, it_LastUpdatedAt = updated, it_PackagingFormat = format,
         it_RepositoryURL = url, it_RepositoryName = repo, it_Library = library, it_Labels = labels\<rparr>)))))))))))))))"

definition decode_item :: "json \<Rightarrow> Item option" where "decode_item = decode_struct decode_members"

definition decode_items :: "json \<Rightarrow> Item list option" where "decode_items j = decode_list decode_item (Some j)"

definition library_entries :: "string \<times> json \<Rightarrow> Item list" where
  "library_entries kv =
     (case decode_items (snd kv) of
        None \<Rightarrow> []
      | Some entries \<Rightarrow> map (\<lambda>e. if it_Library e = '''' then e\<lparr>it_Library := fst kv\<rparr> else e) entries)"

definition parse_catalog :: "(jmap \<Rightarrow> jmap) \<Rightarrow> string \<Rightarrow> Item list" where
  "parse_catalog order raw =
     (case unmarshal raw of
        None \<Rightarrow> []
      | Some doc \<Rightarrow>
          (case decode_items doc of
             Some arr \<Rightarrow> arr
           | None \<Rightarrow>
               (case doc of
                  JObj m \<Rightarrow>
                    (case obj_get m ''items'' of
                       Some items \<Rightarrow> (case decode_items items of None \<Rightarrow> [] | Some xs \<Rightarrow> xs)
                     | None \<Rightarrow> concat (map library_entries (order m)))
                | _ \<Rightarrow> [])))"

section \<open>Validation\<close>

definition item_valid :: "Item \<Rightarrow> bool" where
  "item_valid it \<longleftrightarrow>
     it_Name it \<noteq> '''' \<and> it_SlugName it \<noteq> '''' \<and>
     it_PackagingFormat it \<in> {'''', ''HELM_CHART'', ''CONTAINER''}"

definition cleanLabels :: "Label list \<Rightarrow> Label list" where
  "cleanLabels labels = filter (\<lambda>l. \<not> (lb_Code l = '''' \<and> lb_Name l = '''')) labels"

definition stamp_repository :: "Item \<Rightarrow> Item" where
  "stamp_repository it =
     (if it_RepositoryName it = '''' \<and> it_Library it = ''nvidia'' then
        (case NGCClusterRepoName (it_RepositoryURL it) of Inl e \<Rightarrow> it | Inr name \<Rightarrow> it\<lparr>it_RepositoryName := name\<rparr>)
      else it)"

definition finished_item :: "Item \<Rightarrow> Item" where
  "finished_item it = (let it1 = stamp_repository it in it1\<lparr>it_Labels := cleanLabels (it_Labels it1)\<rparr>)"

text \<open>\<open>sort.SliceStable\<close> by library and name.\<close>

definition item_key :: "Item \<Rightarrow> string \<times> string" where
  "item_key it = (to_lower (it_Library it), to_lower (it_Name it))"

definition finalize :: "Item list \<Rightarrow> Item list" where
  "finalize items = sort_key item_key (map finished_item (filter item_valid items))"

definition NormalizeReport :: "(jmap \<Rightarrow> jmap) \<Rightarrow> string \<Rightarrow> Item list \<times> nat" where
  "NormalizeReport order raw = (let candidates = parse_catalog order raw in (finalize candidates, length candidates))"

definition Normalize :: "(jmap \<Rightarrow> jmap) \<Rightarrow> string \<Rightarrow> Item list" where
  "Normalize order raw = fst (NormalizeReport order raw)"

definition supportedLabelCode :: string where "supportedLabelCode = ''supported''"

text \<open>The bundled catalog is an argument, as it is a file that the build embeds.\<close>

fun representative :: "string \<Rightarrow> string \<Rightarrow> Item list \<Rightarrow> string" where
  "representative want fallback [] = fallback"
| "representative want fallback (it # items) =
     (if repo_key (it_RepositoryURL it) \<noteq> want then representative want fallback items
      else if list_ex (\<lambda>l. lb_Code l = supportedLabelCode) (it_Labels it) then it_SlugName it
      else representative want (if fallback = '''' then it_SlugName it else fallback) items)"

definition RepresentativeChart :: "Item list \<Rightarrow> string \<Rightarrow> string" where
  "RepresentativeChart bundled repositoryURL =
     (let want = repo_key repositoryURL in if want = '''' then '''' else representative want '''' bundled)"

section \<open>The repositories of the teams\<close>

record NGCTeamRepos =
  ntr_Public :: "string list"
  ntr_Gated :: "string list"

definition add_new :: "string \<Rightarrow> string list \<Rightarrow> string list" where
  "add_new u seen = (if u \<in> set seen then seen else seen @ [u])"

definition classify_item :: "Item \<Rightarrow> NGCTeamRepos \<Rightarrow> NGCTeamRepos" where
  "classify_item it out =
     (let u = repo_key (it_RepositoryURL it)
      in if \<not> IsNGCURL u then out
         else (case url_Parse u of
                 None \<Rightarrow> out
               | Some parsed \<Rightarrow>
                   (case ClassifyNGCPath (u_Path parsed) of
                      NGCPathOrg \<Rightarrow> out
                    | NGCPathExcluded \<Rightarrow> out
                    | NGCPathGated \<Rightarrow> out\<lparr>ntr_Gated := add_new u (ntr_Gated out)\<rparr>
                    | _ \<Rightarrow> out\<lparr>ntr_Public := add_new u (ntr_Public out)\<rparr>)))"

definition classifyNGCTeamRepos :: "Item list \<Rightarrow> NGCTeamRepos" where
  "classifyNGCTeamRepos items =
     (let out = fold classify_item items \<lparr>ntr_Public = [], ntr_Gated = []\<rparr>
      in \<lparr>ntr_Public = sort (ntr_Public out), ntr_Gated = sort (ntr_Gated out)\<rparr>)"

end
