(* ===== verification/CatalogSync.thy ===== *)
theory CatalogSync
  imports Catalog GoIndent
begin

text \<open>
  The generator of the bundled catalog (\<open>hack/generate-catalog\<close>): it pages through the NGC search, keeps the
  supported charts, and reconciles them with the catalog document. The pages come from a server and are a parameter.
  The list of labels that every generated entry starts with is a variable of the program that decoding an
  override writes into; the model keeps it as a cell.
\<close>

section \<open>Search results (transform.go)\<close>

definition helmChart :: string where "helmChart = ''HELM_CHART''"
definition ngcHelmBase :: string where "ngcHelmBase = ''https://helm.ngc.nvidia.com''"
definition nvaieSupported :: string where "nvaieSupported = ''nvaie_supported''"

record ngcLabelGroup =
  lg_UnresolvedValues :: "string list"

record ngcAttribute =
  at_Key :: string
  at_Value :: string

record ngcResource =
  nr_ResourceID :: string
  nr_Name :: string
  nr_DisplayName :: string
  nr_Description :: string
  nr_OrgName :: string
  nr_TeamName :: string
  nr_DateModified :: string
  nr_Labels :: "ngcLabelGroup list"
  nr_Attributes :: "ngcAttribute list"

text \<open>The members \<open>key\<close> and \<open>values\<close> of a group and \<open>resourceType\<close> are decoded for their type only.\<close>

definition group_members :: "(string \<Rightarrow> json option) \<Rightarrow> ngcLabelGroup option" where
  "group_members m =
     Option.bind (str_value (m ''key'')) (\<lambda>key.
     Option.bind (decode_list (\<lambda>j. str_value (Some j)) (m ''values'')) (\<lambda>values.
     Option.bind (decode_list (\<lambda>j. str_value (Some j)) (m ''unresolvedValues'')) (\<lambda>unresolved.
       Some \<lparr>lg_UnresolvedValues = unresolved\<rparr>)))"

definition attribute_members :: "(string \<Rightarrow> json option) \<Rightarrow> ngcAttribute option" where
  "attribute_members m =
     Option.bind (str_value (m ''key'')) (\<lambda>key.
     Option.bind (str_value (m ''value'')) (\<lambda>value. Some \<lparr>at_Key = key, at_Value = value\<rparr>))"

definition resource_members :: "(string \<Rightarrow> json option) \<Rightarrow> ngcResource option" where
  "resource_members m =
     Option.bind (str_value (m ''resourceType'')) (\<lambda>ty.
     Option.bind (str_value (m ''resourceId'')) (\<lambda>i.
     Option.bind (str_value (m ''name'')) (\<lambda>name.
     Option.bind (str_value (m ''displayName'')) (\<lambda>display.
     Option.bind (str_value (m ''description'')) (\<lambda>description.
     Option.bind (str_value (m ''orgName'')) (\<lambda>org.
     Option.bind (str_value (m ''teamName'')) (\<lambda>team.
     Option.bind (str_value (m ''dateModified'')) (\<lambda>modified.
     Option.bind (decode_list (decode_struct group_members) (m ''labels'')) (\<lambda>labels.
     Option.bind (decode_list (decode_struct attribute_members) (m ''attributes'')) (\<lambda>attributes.
       Some \<lparr>nr_ResourceID = i, nr_Name = name, nr_DisplayName = display, nr_Description = description,
         nr_OrgName = org, nr_TeamName = team, nr_DateModified = modified, nr_Labels = labels,
         nr_Attributes = attributes\<rparr>))))))))))"

definition result_members :: "(string \<Rightarrow> json option) \<Rightarrow> (string \<times> ngcResource list) option" where
  "result_members m =
     Option.bind (str_value (m ''groupValue'')) (\<lambda>group.
     Option.bind (decode_list (decode_struct resource_members) (m ''resources'')) (\<lambda>resources. Some (group, resources)))"

definition response_members :: "(string \<Rightarrow> json option) \<Rightarrow> (int \<times> (string \<times> ngcResource list) list) option" where
  "response_members m =
     Option.bind (int_value (m ''resultTotal'')) (\<lambda>reported.
     Option.bind (decode_list (decode_struct result_members) (m ''results'')) (\<lambda>results. Some (reported, results)))"

text \<open>The resources that are not there yet, appended in order.\<close>

definition add_resource :: "ngcResource \<Rightarrow> ngcResource list \<Rightarrow> ngcResource list" where
  "add_resource r out = (if nr_ResourceID r \<in> nr_ResourceID ` set out then out else out @ [r])"

definition add_resources :: "ngcResource list \<Rightarrow> ngcResource list \<Rightarrow> ngcResource list" where
  "add_resources rs out = fold add_resource rs out"

definition parseResources :: "string \<Rightarrow> err + ngcResource list \<times> int" where
  "parseResources body =
     (case Option.bind (unmarshal body) (decode_struct response_members) of
        None \<Rightarrow> Inl (Err SOther ''parse NGC response'')
      | Some (reported, results) \<Rightarrow>
          Inr (add_resources (concat (map snd (filter (\<lambda>g. fst g = helmChart) results))) [], reported))"

definition verifyComplete :: "int \<Rightarrow> int \<Rightarrow> err + unit" where
  "verifyComplete collected resultTotal =
     (if resultTotal \<le> 0 then
        Inl (Err SOther (''NGC returned no HELM_CHART results (resultTotal='' @ FormatInt resultTotal
          @ ''); refusing to regenerate from an empty response''))
      else if collected < resultTotal then
        Inl (Err SOther (''incomplete NGC response: collected '' @ FormatInt collected @ '' of '' @ FormatInt resultTotal
          @ '' HELM_CHART resources; refusing to regenerate from a partial response''))
      else Inr ())"

section \<open>Paging (main.go)\<close>

text \<open>The loop of \<open>fetchAllResources\<close>: it ends with a page that has nothing new, and may never end.\<close>

partial_function (option) fetch_pages ::
  "(nat \<Rightarrow> ('s, string) act) \<Rightarrow> nat \<Rightarrow> ngcResource list \<Rightarrow> int \<Rightarrow> 's \<Rightarrow> ((err + ngcResource list \<times> int) \<times> 's) option" where
  "fetch_pages fetch page known reported s =
     (case fetch page s of
        (Inl e, s1) \<Rightarrow> Some (Inl e, s1)
      | (Inr body, s1) \<Rightarrow>
          (case parseResources body of
             Inl e \<Rightarrow> Some (Inl e, s1)
           | Inr (res, t) \<Rightarrow>
               (let more = add_resources res known; reported1 = (if page = 0 then t else reported)
                in if length more = length known then Some (Inr (more, reported1), s1)
                   else fetch_pages fetch (Suc page) more reported1 s1)))"

definition fetchAllResources :: "(nat \<Rightarrow> ('s, string) act) \<Rightarrow> 's \<Rightarrow> ((err + ngcResource list) \<times> 's) option" where
  "fetchAllResources fetch s =
     map_option (\<lambda>(r, s1).
       (case r of
          Inl e \<Rightarrow> Inl e
        | Inr (resources, reported) \<Rightarrow> ebind (verifyComplete (int (length resources)) reported) (\<lambda>_. Inr resources), s1))
       (fetch_pages fetch 0 [] 0 s)"

section \<open>Selection (derive.go)\<close>

definition isNVAIE :: "ngcResource \<Rightarrow> bool" where
  "isNVAIE res = list_ex (\<lambda>g. nvaieSupported \<in> set (lg_UnresolvedValues g)) (nr_Labels res)"

definition ngcRepoPath :: "ngcResource \<Rightarrow> string" where
  "ngcRepoPath res = ''/'' @ nr_OrgName res @ (if nr_TeamName res \<noteq> '''' then ''/'' @ nr_TeamName res else '''')"

definition ngcRepoURL :: "ngcResource \<Rightarrow> string" where "ngcRepoURL res = ngcHelmBase @ ngcRepoPath res"

definition ngcLogoURL :: "ngcResource \<Rightarrow> string" where
  "ngcLogoURL res =
     (case find (\<lambda>a. at_Key a = ''logo'') (nr_Attributes res) of None \<Rightarrow> '''' | Some a \<Rightarrow> trim_space (at_Value a))"

definition empty_item :: Item where
  "empty_item = \<lparr>it_Name = '''', it_SlugName = '''', it_Description = '''', it_ProjectURL = '''',
     it_DocumentationURL = '''', it_ReferenceGuideURL = '''', it_SourceCodeURL = '''', it_LogoURL = '''',
     it_ChangelogURL = '''', it_LastUpdatedAt = '''', it_PackagingFormat = '''', it_RepositoryURL = '''',
     it_RepositoryName = '''', it_Library = '''', it_Labels = []\<rparr>"

definition deriveItem :: "ngcResource \<Rightarrow> Item" where
  "deriveItem res = empty_item\<lparr>it_Name := nr_DisplayName res, it_SlugName := nr_Name res,
     it_Description := nr_Description res, it_LogoURL := ngcLogoURL res, it_LastUpdatedAt := nr_DateModified res,
     it_PackagingFormat := helmChart, it_RepositoryURL := ngcRepoURL res\<rparr>"

definition derived_items :: "ngcResource list \<Rightarrow> Item list" where
  "derived_items resources =
     map deriveItem (filter (\<lambda>r. isNVAIE r \<and> ClassifyNGCPath (ngcRepoPath r) \<notin> {NGCPathExcluded, NGCPathUnknown}) resources)"

section \<open>Overrides (overrides.go)\<close>

type_synonym overrides = "string \<Rightarrow> json option"

definition loadOverrides :: "string \<Rightarrow> err + overrides" where
  "loadOverrides data =
     (if trim_space data = '''' then Inr Map.empty
      else case unmarshal data of
             Some (JObj m) \<Rightarrow> Inr (obj_get m)
           | Some JNull \<Rightarrow> Inr Map.empty
           | _ \<Rightarrow> Inl (Err SOther ''parse overrides''))"

text \<open>
  A member that an override has replaces the field; an absent or null one leaves it. The labels of a generated
  entry are at first the shared list, whose single element is the cell. Decoding writes the first element
  of an array into the cell, and copies only when the array is longer; an empty array or \<open>null\<close> makes a list
  of its own.
\<close>

datatype labels_ref = Shared | Own "Label list"

definition overlay :: "string \<Rightarrow> json option \<Rightarrow> string option" where
  "overlay old m = (if m = None \<or> m = Some JNull then Some old else str_value m)"

definition overlay_label :: "Label \<Rightarrow> json \<Rightarrow> Label option" where
  "overlay_label old j =
     (case j of
        JNull \<Rightarrow> Some old
      | JObj m \<Rightarrow>
          Option.bind (overlay (lb_Code old) (obj_get m ''code'')) (\<lambda>c.
          Option.bind (overlay (lb_Name old) (obj_get m ''name'')) (\<lambda>n. Some \<lparr>lb_Code = c, lb_Name = n\<rparr>))
      | _ \<Rightarrow> None)"

definition overlay_labels :: "Label \<Rightarrow> json option \<Rightarrow> (labels_ref \<times> Label) option" where
  "overlay_labels cell m =
     (case m of
        None \<Rightarrow> Some (Shared, cell)
      | Some JNull \<Rightarrow> Some (Own [], cell)
      | Some (JArr []) \<Rightarrow> Some (Own [], cell)
      | Some (JArr [x]) \<Rightarrow> Option.bind (overlay_label cell x) (\<lambda>l. Some (Shared, l))
      | Some (JArr (x # xs)) \<Rightarrow>
          Option.bind (overlay_label cell x) (\<lambda>l.
          Option.bind (those (map decode_label xs)) (\<lambda>ls. Some (Own (l # ls), l)))
      | _ \<Rightarrow> None)"

definition overlay_members :: "(string \<Rightarrow> json option) \<Rightarrow> Item \<Rightarrow> Label \<Rightarrow> ((Item \<times> labels_ref) \<times> Label) option" where
  "overlay_members m it cell =
     Option.bind (overlay (it_Name it) (m ''name'')) (\<lambda>name.
     Option.bind (overlay (it_SlugName it) (m ''slug_name'')) (\<lambda>slug.
     Option.bind (overlay (it_Description it) (m ''description'')) (\<lambda>description.
     Option.bind (overlay (it_ProjectURL it) (m ''project_url'')) (\<lambda>project.
     Option.bind (overlay (it_DocumentationURL it) (m ''documentation_url'')) (\<lambda>documentation.
     Option.bind (overlay (it_ReferenceGuideURL it) (m ''reference_guide_url'')) (\<lambda>guide.
     Option.bind (overlay (it_SourceCodeURL it) (m ''source_code_url'')) (\<lambda>source.
     Option.bind (overlay (it_LogoURL it) (m ''logo_url'')) (\<lambda>logo.
     Option.bind (overlay (it_ChangelogURL it) (m ''changelog_url'')) (\<lambda>changelog.
     Option.bind (overlay (it_LastUpdatedAt it) (m ''last_updated_at'')) (\<lambda>updated.
     Option.bind (overlay (it_PackagingFormat it) (m ''packaging_format'')) (\<lambda>format.
     Option.bind (overlay (it_RepositoryURL it) (m ''repository_url'')) (\<lambda>url.
     Option.bind (overlay (it_RepositoryName it) (m ''repository_name'')) (\<lambda>repo.
     Option.bind (overlay (it_Library it) (m ''library'')) (\<lambda>library.
     Option.bind (overlay_labels cell (m ''labels'')) (\<lambda>(labels, cell1).
       Some ((\<lparr>it_Name = name, it_SlugName = slug, it_Description = description, it_ProjectURL = project,
         it_DocumentationURL = documentation, it_ReferenceGuideURL = guide, it_SourceCodeURL = source,
         it_LogoURL = logo, it_ChangelogURL = changelog, it_LastUpdatedAt = updated, it_PackagingFormat = format,
         it_RepositoryURL = url, it_RepositoryName = repo, it_Library = library, it_Labels = []\<rparr>, labels), cell1))))))))))))))))"

definition apply_override :: "overrides \<Rightarrow> Item \<Rightarrow> Label \<Rightarrow> err + ((Item \<times> labels_ref) \<times> Label)" where
  "apply_override ov it cell =
     (case ov (it_SlugName it) of
        None \<Rightarrow> Inr ((it, Shared), cell)
      | Some raw \<Rightarrow>
          (case raw of
             JNull \<Rightarrow> Inr ((it, Shared), cell)
           | JObj m \<Rightarrow>
               (case overlay_members (obj_get m) it cell of
                  None \<Rightarrow> Inl (Err SOther (''apply override for '' @ go_quoted (it_SlugName it)))
                | Some r \<Rightarrow> Inr r)
           | _ \<Rightarrow> Inl (Err SOther (''apply override for '' @ go_quoted (it_SlugName it)))))"

section \<open>The generated entries (merge.go)\<close>

definition supportedLabel :: Label where "supportedLabel = \<lparr>lb_Code = ''supported'', lb_Name = ''Supported''\<rparr>"

definition has_chip :: "Label list \<Rightarrow> bool" where "has_chip labels = list_ex (\<lambda>l. lb_Code l = ''supported'') labels"

text \<open>No slug is listed as preserved.\<close>

definition isOwned :: "Item \<Rightarrow> bool" where "isOwned e = has_chip (it_Labels e)"

definition labels_now :: "Label \<Rightarrow> labels_ref \<Rightarrow> Label list" where
  "labels_now cell r = (case r of Shared \<Rightarrow> [cell] | Own ls \<Rightarrow> ls)"

definition ensureSupportedLabel :: "Label \<Rightarrow> labels_ref \<Rightarrow> labels_ref" where
  "ensureSupportedLabel cell r =
     (if has_chip (labels_now cell r) then r else Own (cell # labels_now cell r))"

fun build_owned :: "overrides \<Rightarrow> Item list \<Rightarrow> Label \<Rightarrow> err + (Item \<times> labels_ref) list \<times> Label" where
  "build_owned ov [] cell = Inr ([], cell)"
| "build_owned ov (d # ds) cell =
     (case apply_override ov d cell of
        Inl e \<Rightarrow> Inl e
      | Inr ((it, labels), cell1) \<Rightarrow>
          (case build_owned ov ds cell1 of
             Inl e \<Rightarrow> Inl e
           | Inr (rest, cell2) \<Rightarrow> Inr ((it, ensureSupportedLabel cell1 labels) # rest, cell2)))"

text \<open>Nothing writes the cell after the loop, so that the entries have their labels from there on.\<close>

definition built_items :: "overrides \<Rightarrow> Item list \<Rightarrow> err + Item list" where
  "built_items ov derived =
     (case build_owned ov derived supportedLabel of
        Inl e \<Rightarrow> Inl e
      | Inr (xs, cell) \<Rightarrow> Inr (map (\<lambda>(it, r). it\<lparr>it_Labels := labels_now cell r\<rparr>) xs))"

definition nimNvidiaRepoURL :: string where "nimNvidiaRepoURL = ngcHelmBase @ ''/nim/nvidia''"

definition repoRank :: "string \<Rightarrow> nat" where
  "repoRank url = (if trim_right CHR ''/'' url = nimNvidiaRepoURL then 1 else 0)"

definition preferOver :: "Item \<Rightarrow> Item \<Rightarrow> bool" where
  "preferOver candidate current =
     (let cr = repoRank (it_RepositoryURL candidate); cu = repoRank (it_RepositoryURL current)
      in if cr \<noteq> cu then cr > cu else it_RepositoryURL candidate < it_RepositoryURL current)"

definition keep_better :: "Item \<Rightarrow> Item list \<Rightarrow> Item list" where
  "keep_better it out =
     (if it_SlugName it \<in> it_SlugName ` set out
      then map (\<lambda>x. if it_SlugName x = it_SlugName it \<and> preferOver it x then it else x) out
      else out @ [it])"

definition dedupeBySlug :: "Item list \<Rightarrow> Item list" where "dedupeBySlug items = fold keep_better items []"

section \<open>The document\<close>

record catalogDoc =
  doc_SuseAI :: "Item list option"
  doc_NVIDIA :: "Item list option"
  doc_Openshell :: "Item list option"

definition decode_slice :: "json option \<Rightarrow> Item list option option" where
  "decode_slice m =
     (if m = None \<or> m = Some JNull then Some None else map_option Some (decode_list decode_item m))"

definition doc_members :: "(string \<Rightarrow> json option) \<Rightarrow> catalogDoc option" where
  "doc_members m =
     Option.bind (decode_slice (m ''suse-ai'')) (\<lambda>suse.
     Option.bind (decode_slice (m ''nvidia'')) (\<lambda>nvidia.
     Option.bind (decode_slice (m ''openshell'')) (\<lambda>openshell.
       Some \<lparr>doc_SuseAI = suse, doc_NVIDIA = nvidia, doc_Openshell = openshell\<rparr>)))"

definition libraries :: "string list" where "libraries = [''suse-ai'', ''nvidia'', ''openshell'']"

text \<open>Of several unknown libraries Go names any one, the model the first by name.\<close>

definition parse_doc :: "string \<Rightarrow> err + catalogDoc" where
  "parse_doc catalogJSON =
     (case unmarshal catalogJSON of
        Some (JObj m) \<Rightarrow>
          (case find (\<lambda>k. k \<notin> set libraries) (map fst m) of
             Some k \<Rightarrow> Inl (Err SOther (''unrecognized top-level catalog library '' @ go_quoted k
                        @ '': add it to catalogDoc before regenerating''))
           | None \<Rightarrow> (case doc_members (obj_get m) of None \<Rightarrow> Inl (Err SOther ''parse catalog'') | Some doc \<Rightarrow> Inr doc))
      | Some JNull \<Rightarrow> Inr \<lparr>doc_SuseAI = None, doc_NVIDIA = None, doc_Openshell = None\<rparr>
      | _ \<Rightarrow> Inl (Err SOther ''parse catalog keys''))"

definition label_json :: "Label \<Rightarrow> json" where
  "label_json l = struct_json [(''code'', False, JStr (lb_Code l)), (''name'', False, JStr (lb_Name l))]"

definition item_fields :: "Item \<Rightarrow> field list" where
  "item_fields it =
     [(''name'', False, JStr (it_Name it)),
      (''slug_name'', False, JStr (it_SlugName it)),
      (''description'', it_Description it = '''', JStr (it_Description it)),
      (''project_url'', it_ProjectURL it = '''', JStr (it_ProjectURL it)),
      (''documentation_url'', it_DocumentationURL it = '''', JStr (it_DocumentationURL it)),
      (''reference_guide_url'', it_ReferenceGuideURL it = '''', JStr (it_ReferenceGuideURL it)),
      (''source_code_url'', it_SourceCodeURL it = '''', JStr (it_SourceCodeURL it)),
      (''logo_url'', it_LogoURL it = '''', JStr (it_LogoURL it)),
      (''changelog_url'', it_ChangelogURL it = '''', JStr (it_ChangelogURL it)),
      (''last_updated_at'', it_LastUpdatedAt it = '''', JStr (it_LastUpdatedAt it)),
      (''packaging_format'', it_PackagingFormat it = '''', JStr (it_PackagingFormat it)),
      (''repository_url'', it_RepositoryURL it = '''', JStr (it_RepositoryURL it)),
      (''repository_name'', it_RepositoryName it = '''', JStr (it_RepositoryName it)),
      (''library'', it_Library it = '''', JStr (it_Library it)),
      (''labels'', it_Labels it = [], JArr (map label_json (it_Labels it)))]"

definition item_json :: "Item \<Rightarrow> json" where "item_json it = struct_json (item_fields it)"

definition slice_json :: "Item list option \<Rightarrow> json" where
  "slice_json xs = (case xs of None \<Rightarrow> JNull | Some ys \<Rightarrow> JArr (map item_json ys))"

definition doc_json :: "catalogDoc \<Rightarrow> json" where
  "doc_json doc = struct_json
     [(''suse-ai'', False, slice_json (doc_SuseAI doc)),
      (''nvidia'', False, slice_json (doc_NVIDIA doc)),
      (''openshell'', False, slice_json (doc_Openshell doc))]"

definition render_doc :: "catalogDoc \<Rightarrow> string" where
  "render_doc doc = marshal_indent newline (doc_json doc) @ newline"

definition nvidia_entries :: "catalogDoc \<Rightarrow> Item list" where
  "nvidia_entries doc = (case doc_NVIDIA doc of None \<Rightarrow> [] | Some xs \<Rightarrow> xs)"

definition reconciled :: "Item list \<Rightarrow> Item list \<Rightarrow> Item list" where
  "reconciled old built =
     (let owned = dedupeBySlug built;
          kept = filter (\<lambda>e. \<not> (isOwned e \<or> it_SlugName e \<in> it_SlugName ` set owned)) old
      in sort_key it_SlugName (dedupeBySlug (kept @ owned)))"

definition new_slugs :: "Item list \<Rightarrow> Item list \<Rightarrow> string list" where
  "new_slugs items than = sort (remdups (filter (\<lambda>s. s \<notin> it_SlugName ` set than) (map it_SlugName items)))"

definition syncNVAIE :: "string \<Rightarrow> Item list \<Rightarrow> overrides \<Rightarrow> err + string \<times> string list \<times> string list" where
  "syncNVAIE catalogJSON derived ov =
     (case parse_doc catalogJSON of
        Inl e \<Rightarrow> Inl e
      | Inr doc \<Rightarrow>
          (case built_items ov derived of
             Inl e \<Rightarrow> Inl e
           | Inr built \<Rightarrow>
               (let result = reconciled (nvidia_entries doc) built
                in Inr (render_doc (doc\<lparr>doc_NVIDIA := Some result\<rparr>),
                        new_slugs result (nvidia_entries doc), new_slugs (nvidia_entries doc) result))))"

end
