(* ===== verification/CatalogPass.thy ===== *)
theory CatalogPass
  imports CatalogSync
begin

text \<open>
  What the catalog guarantees: which repositories the operator may give the NGC token, the shape of the served list,
  and that generating the bundled catalog ends, settles and does not depend on the order of the search results.
\<close>

section \<open>Repositories of the teams\<close>

definition ngc_kind :: "string \<Rightarrow> NGCPathKind option" where
  "ngc_kind u = (if IsNGCURL u then map_option (\<lambda>p. ClassifyNGCPath (u_Path p)) (url_Parse u) else None)"

lemma classify_item_kind:
  "classify_item it out =
     (let u = repo_key (it_RepositoryURL it)
      in if ngc_kind u = Some NGCPathGated then out\<lparr>ntr_Gated := add_new u (ntr_Gated out)\<rparr>
         else if ngc_kind u \<in> {Some NGCPathPublic, Some NGCPathUnknown} then out\<lparr>ntr_Public := add_new u (ntr_Public out)\<rparr>
         else out)"
  by (auto simp: classify_item_def ngc_kind_def Let_def split: option.split NGCPathKind.split)

lemma new_url_set [simp]: "set (add_new u seen) = insert u (set seen)"
  by (auto simp: add_new_def)

lemma new_url_distinct [simp]: "distinct (add_new u seen) = distinct seen"
  by (simp add: add_new_def)

lemma fold_classify:
  "set (ntr_Gated (fold classify_item items out)) =
     set (ntr_Gated out) \<union> {u \<in> (\<lambda>it. repo_key (it_RepositoryURL it)) ` set items. ngc_kind u = Some NGCPathGated}
   \<and> set (ntr_Public (fold classify_item items out)) =
     set (ntr_Public out) \<union> {u \<in> (\<lambda>it. repo_key (it_RepositoryURL it)) ` set items.
        ngc_kind u \<in> {Some NGCPathPublic, Some NGCPathUnknown}}
   \<and> (distinct (ntr_Gated (fold classify_item items out)) \<longleftrightarrow> distinct (ntr_Gated out))
   \<and> (distinct (ntr_Public (fold classify_item items out)) \<longleftrightarrow> distinct (ntr_Public out))"
proof (induction items arbitrary: out)
  case (Cons it items)
  show ?case using Cons.IH [of "classify_item it out"] by (auto simp: classify_item_kind Let_def)
qed simp

text \<open>
  Of all the repository URLs in the catalog, the gated ones are exactly those with HTTPS on the NGC host and a path of
  the list of gated paths, and a URL with an unknown path is taken for public; organisation and excluded paths are in
  neither list. Both lists are sorted without repetition and share no URL.
\<close>

theorem team_repos_classified:
  "let t = classifyNGCTeamRepos items; urls = (\<lambda>it. repo_key (it_RepositoryURL it)) ` set items in
     set (ntr_Gated t) = {u \<in> urls. ngc_kind u = Some NGCPathGated}
   \<and> set (ntr_Public t) = {u \<in> urls. ngc_kind u \<in> {Some NGCPathPublic, Some NGCPathUnknown}}
   \<and> set (ntr_Gated t) \<inter> set (ntr_Public t) = {}
   \<and> sorted (ntr_Gated t) \<and> sorted (ntr_Public t) \<and> distinct (ntr_Gated t) \<and> distinct (ntr_Public t)"
  using fold_classify [of items "\<lparr>ntr_Public = [], ntr_Gated = []\<rparr>"]
  by (auto simp: classifyNGCTeamRepos_def Let_def)

lemma ngc_kind_gated: "ngc_kind u = Some NGCPathGated \<Longrightarrow> IsNGCURL u"
  by (simp add: ngc_kind_def split: if_splits)

lemma ngc_name_cases:
  assumes "NGCClusterRepoName u = Inr n"
  obtains p where "url_Parse (repo_key u) = Some p" "IsNGCURL (repo_key u)" "u_Path p = ''/nvidia''" "n = ''nvidia''"
    | p where "url_Parse (repo_key u) = Some p" "IsNGCURL (repo_key u)" "u_Path p = ''/nvidia/blueprint''" "n = ''nvidia-blueprints''"
    | p where "url_Parse (repo_key u) = Some p" "IsNGCURL (repo_key u)"
        "ClassifyNGCPath (u_Path p) \<in> {NGCPathPublic, NGCPathGated, NGCPathUnknown}"
        "n = label63 (Slugify (trim_prefix (u_Path p) ''/''))" "n \<noteq> ''''" "n \<noteq> ''nvidia''" "n \<noteq> ''nvidia-blueprints''"
  using assms
  by (auto simp: NGCClusterRepoName_def Let_def split: option.splits NGCPathKind.splits if_splits)

section \<open>The served list\<close>

lemma stamp_fields [simp]:
  "it_Name (stamp_repository it) = it_Name it" "it_Library (stamp_repository it) = it_Library it"
  "it_SlugName (stamp_repository it) = it_SlugName it" "it_PackagingFormat (stamp_repository it) = it_PackagingFormat it"
  "it_RepositoryURL (stamp_repository it) = it_RepositoryURL it" "it_Labels (stamp_repository it) = it_Labels it"
  by (simp_all add: stamp_repository_def split: sum.split)

lemma stamp_twice: "stamp_repository (it\<lparr>it_Labels := ls\<rparr>) = (stamp_repository it)\<lparr>it_Labels := ls\<rparr>"
  "stamp_repository (stamp_repository it) = stamp_repository it"
  by (auto simp: stamp_repository_def split: sum.split)

lemma finished_item_simps [simp]:
  "finished_item (finished_item it) = finished_item it" "item_valid (finished_item it) = item_valid it"
  "item_key (finished_item it) = item_key it"
  by (simp_all add: finished_item_def Let_def stamp_twice item_valid_def item_key_def cleanLabels_def)

text \<open>
  The list that is served has exactly the valid entries of the document, each completed once, sorted by library and
  name with the document's order among equals; normalising it again changes nothing, and what is reported as
  dropped is the number of entries that are not valid.
\<close>

theorem catalog_normalized:
  "let (items, parsed) = NormalizeReport order raw; found = parse_catalog order raw in
     mset items = image_mset finished_item (filter_mset item_valid (mset found))
   \<and> sorted (map item_key items)
   \<and> (\<forall>k. filter (\<lambda>it. item_key it = k) items = filter (\<lambda>it. item_key it = k) (map finished_item (filter item_valid found)))
   \<and> list_all item_valid items \<and> finalize items = items
   \<and> parsed - length items = length (filter (\<lambda>it. \<not> item_valid it) found)"
proof -
  let ?found = "parse_catalog order raw" and ?items = "finalize (parse_catalog order raw)"
  have v: "list_all item_valid ?items" by (auto simp: finalize_def list_all_iff)
  have fin: "map finished_item ?items = ?items"
    by (rule map_idI) (auto simp: finalize_def)
  have "filter item_valid ?items = ?items" using v by (simp add: list_all_iff)
  then have "finalize ?items = sort_key item_key ?items" unfolding finalize_def [of ?items] by (simp add: fin)
  moreover have "sorted (map item_key ?items)" by (simp add: finalize_def)
  ultimately have idem: "finalize ?items = ?items" by (simp add: sort_key_id_if_sorted)
  have "length ?found = length (filter item_valid ?found) + length (filter (\<lambda>it. \<not> item_valid it) ?found)"
    by (rule sum_length_filter_compl [symmetric])
  then have drop: "length ?found - length ?items = length (filter (\<lambda>it. \<not> item_valid it) ?found)"
    by (simp add: finalize_def)
  show ?thesis unfolding NormalizeReport_def Let_def split_conv
    using v idem drop by (simp add: finalize_def sort_key_stable)
qed

section \<open>The search ends\<close>

lemma add_resource_simps:
  "distinct (map nr_ResourceID (add_resource r out)) = distinct (map nr_ResourceID out)"
  "nr_ResourceID ` set (add_resource r out) = insert (nr_ResourceID r) (nr_ResourceID ` set out)"
  "set out \<subseteq> set (add_resource r out)" "set (add_resource r out) \<subseteq> insert r (set out)"
  by (auto simp: add_resource_def)

lemma add_resources_simps:
  "distinct (map nr_ResourceID (add_resources rs out)) = distinct (map nr_ResourceID out)"
  "nr_ResourceID ` set (add_resources rs out) = nr_ResourceID ` set rs \<union> nr_ResourceID ` set out"
  unfolding add_resources_def by (induction rs arbitrary: out) (use add_resource_simps in auto)

lemma distinct_length: "distinct (map f xs) \<Longrightarrow> card (f ` set xs) = length xs"
  by (metis distinct_card length_map set_map)

definition serves :: "(nat \<Rightarrow> ('s, string) act) \<Rightarrow> string set \<Rightarrow> bool" where
  "serves fetch U \<longleftrightarrow> (\<forall>page s body s' res n. fetch page s = (Inr body, s') \<longrightarrow> parseResources body = Inr (res, n)
     \<longrightarrow> nr_ResourceID ` set res \<subseteq> U)"

lemma servesD: "serves fetch U \<Longrightarrow> fetch page s = (Inr body, s') \<Longrightarrow> parseResources body = Inr (res, n) \<Longrightarrow> nr_ResourceID ` set res \<subseteq> U"
  unfolding serves_def by blast

text \<open>The pages from \<open>page\<close> on, \<open>n\<close> of them, up to the first error.\<close>

fun read_pages :: "(nat \<Rightarrow> ('s, string) act) \<Rightarrow> nat \<Rightarrow> nat \<Rightarrow> ('s, (ngcResource list \<times> int) list) act" where
  "read_pages fetch page 0 s = (Inr [], s)"
| "read_pages fetch page (Suc n) s =
     (case fetch page s of
        (Inl e, s1) \<Rightarrow> (Inl e, s1)
      | (Inr body, s1) \<Rightarrow>
          (case parseResources body of
             Inl e \<Rightarrow> (Inl e, s1)
           | Inr p \<Rightarrow> (case read_pages fetch (Suc page) n s1 of (Inl e, s2) \<Rightarrow> (Inl e, s2) | (Inr ps, s2) \<Rightarrow> (Inr (p # ps), s2))))"

definition page_ids :: "ngcResource list \<times> int \<Rightarrow> string set" where "page_ids p = nr_ResourceID ` set (fst p)"

text \<open>Every page but the last has something that is neither in \<open>K\<close> nor on an earlier page.\<close>

fun only_last_stale :: "string set \<Rightarrow> (ngcResource list \<times> int) list \<Rightarrow> bool" where
  "only_last_stale K [] = False"
| "only_last_stale K [p] = (page_ids p \<subseteq> K)"
| "only_last_stale K (p # ps) = (\<not> page_ids p \<subseteq> K \<and> only_last_stale (K \<union> page_ids p) ps)"

definition collect :: "(ngcResource list \<times> int) list \<Rightarrow> ngcResource list \<Rightarrow> ngcResource list" where
  "collect ps known = fold (\<lambda>p. add_resources (fst p)) ps known"

lemma collect_simps:
  "distinct (map nr_ResourceID (collect ps known)) = distinct (map nr_ResourceID known)"
  "nr_ResourceID ` set (collect ps known) = nr_ResourceID ` set known \<union> (\<Union>p \<in> set ps. page_ids p)"
  unfolding collect_def by (induction ps arbitrary: known) (auto simp: add_resources_simps page_ids_def)

lemma add_resources_sound: "set (add_resources rs out) \<subseteq> set rs \<union> set out"
  unfolding add_resources_def by (induction rs arbitrary: out) (use add_resource_simps(4) in fastforce)+

lemma collect_sound: "set (collect ps known) \<subseteq> set known \<union> (\<Union>p \<in> set ps. set (fst p))"
  unfolding collect_def
proof (induction ps arbitrary: known)
  case (Cons p ps)
  then show ?case using add_resources_sound [of "fst p" known] by fastforce
qed simp

lemma nothing_new:
  assumes "distinct (map nr_ResourceID known)"
  shows "length (add_resources rs known) = length known \<longleftrightarrow> nr_ResourceID ` set rs \<subseteq> nr_ResourceID ` set known"
proof -
  let ?K = "nr_ResourceID ` set known" and ?R = "nr_ResourceID ` set rs"
  have "card (?R \<union> ?K) = length (add_resources rs known)"
    using distinct_length [of nr_ResourceID "add_resources rs known"] assms by (simp add: add_resources_simps)
  moreover have "card ?K = length known" using distinct_length [OF assms] .
  moreover have "card (?R \<union> ?K) = card ?K \<longleftrightarrow> ?R \<subseteq> ?K"
    using card_subset_eq [of "?R \<union> ?K" ?K] by (metis List.finite_set Un_upper2 finite_UnI finite_imageI le_iff_sup sup_commute)
  ultimately show ?thesis by simp
qed

lemma fetch_pages_trace:
  assumes fin: "finite U" and serves: "serves fetch U"
  shows "nr_ResourceID ` set known \<subseteq> U \<Longrightarrow> distinct (map nr_ResourceID known) \<Longrightarrow>
    \<exists>k r s'. fetch_pages fetch page known reported s = Some (r, s')
      \<and> (case read_pages fetch page (Suc k) s of
           (Inl e, s1) \<Rightarrow> r = Inl e \<and> s' = s1
         | (Inr ps, s1) \<Rightarrow> s' = s1 \<and> r = Inr (collect ps known, if page = 0 then snd (hd ps) else reported)
             \<and> only_last_stale (nr_ResourceID ` set known) ps)"
proof (induction "card U - length known" arbitrary: page known reported s rule: less_induct)
  case less
  obtain x s1 where f: "fetch page s = (x, s1)" by (cases "fetch page s")
  show ?case
  proof (cases x)
    case (Inl e)
    then show ?thesis using f by (subst fetch_pages.simps) (auto intro!: exI [of _ 0])
  next
    case body: (Inr body)
    show ?thesis
    proof (cases "parseResources body")
      case (Inl e)
      then show ?thesis using f body by (subst fetch_pages.simps) (auto intro!: exI [of _ 0])
    next
      case (Inr rn)
      obtain res n where rn: "rn = (res, n)" by (cases rn)
      let ?more = "add_resources res known" and ?n = "if page = 0 then n else reported"
      note in_U = servesD [OF serves f [unfolded body] Inr [unfolded rn]]
      have m: "nr_ResourceID ` set ?more \<subseteq> U" "distinct (map nr_ResourceID ?more)"
        using in_U less.prems by (auto simp: add_resources_simps)
      note new = nothing_new [OF less.prems(2), of res]
      show ?thesis
      proof (cases "length ?more = length known")
        case True
        then show ?thesis using f body Inr rn new
          by (subst fetch_pages.simps) (auto intro!: exI [of _ 0] simp: collect_def page_ids_def)
      next
        case False
        have "length known \<le> length ?more"
          using card_mono [OF finite_subset [OF m(1) fin], of "nr_ResourceID ` set known"] distinct_length [OF m(2)] distinct_length [OF less.prems(2)]
          by (simp add: add_resources_simps)
        moreover have "length ?more \<le> card U" using card_mono [OF fin m(1)] distinct_length [OF m(2)] by simp
        ultimately have "card U - length ?more < card U - length known" using False by simp
        from less.hyps [OF this m, of "Suc page" ?n s1, simplified nat.distinct(2) if_False] obtain k r s' where
          r: "fetch_pages fetch (Suc page) ?more ?n s1 = Some (r, s')"
          and t: "case read_pages fetch (Suc page) (Suc k) s1 of
             (Inl e, s1) \<Rightarrow> r = Inl e \<and> s' = s1
           | (Inr ps, s1) \<Rightarrow> s' = s1 \<and> r = Inr (collect ps ?more, ?n) \<and> only_last_stale (nr_ResourceID ` set ?more) ps" by (elim exE conjE) (rule that)
        have g: "fetch_pages fetch page known reported s = Some (r, s')"
          using f body Inr rn False r by (subst fetch_pages.simps) simp
        obtain y s2 where y: "read_pages fetch (Suc page) (Suc k) s1 = (y, s2)" by (cases "read_pages fetch (Suc page) (Suc k) s1")
        have p: "read_pages fetch page (Suc (Suc k)) s = (map_sum id (Cons (res, n)) y, s2)"
          using f body Inr rn y by (simp only: read_pages.simps(2) [of fetch page]) (simp split: sum.split)
        show ?thesis
        proof (rule exI [of _ "Suc k"], rule exI [of _ r], rule exI [of _ s'], rule conjI [OF g])
          show "case read_pages fetch page (Suc (Suc k)) s of
              (Inl e, s1) \<Rightarrow> r = Inl e \<and> s' = s1
            | (Inr ps, s1) \<Rightarrow> s' = s1 \<and> r = Inr (collect ps known, if page = 0 then snd (hd ps) else reported)
                \<and> only_last_stale (nr_ResourceID ` set known) ps"
          proof (cases y)
            case (Inr ps)
            then have u: "s' = s2" "r = Inr (collect ps ?more, ?n)" "only_last_stale (nr_ResourceID ` set ?more) ps" using t y by simp_all
            then have "ps \<noteq> []" by auto
            then have "only_last_stale (nr_ResourceID ` set known) ((res, n) # ps)"
              using u(3) False new by (cases ps) (auto simp: add_resources_simps page_ids_def Un_commute)
            then show ?thesis using p Inr u(1,2) by (simp add: collect_def)
          qed (use t y p in simp)
        qed
      qed
    qed
  qed
qed

text \<open>
  C24. If the server knows finitely many resources, fetching them ends, whatever the order of its pages and whatever
  fails. Pages are read up to the first without a new resource. If one of them cannot be fetched or parsed, the first such error is the result.
  Otherwise the result has each resource of these pages once, or is an error if the first page reported no resources or more than were found.
\<close>

theorem fetch_terminates:
  assumes "finite U" "serves fetch U"
  shows "\<exists>k r s'. fetchAllResources fetch s = Some (r, s')
    \<and> (case read_pages fetch 0 (Suc k) s of
         (Inl e, s1) \<Rightarrow> r = Inl e \<and> s' = s1
       | (Inr ps, s1) \<Rightarrow> s' = s1 \<and> only_last_stale {} ps
           \<and> (\<exists>out. distinct (map nr_ResourceID out) \<and> nr_ResourceID ` set out = (\<Union>p \<in> set ps. page_ids p)
                \<and> set out \<subseteq> (\<Union>p \<in> set ps. set (fst p))
                \<and> (if 0 < snd (hd ps) \<and> snd (hd ps) \<le> int (length out) then r = Inr out else isl r)))"
proof -
  from fetch_pages_trace [OF assms, of "[]" 0 0 s, simplified list.set image_empty list.map distinct.simps empty_subsetI simp_thms if_True, OF TrueI TrueI] obtain k r s' where
    r: "fetch_pages fetch 0 [] 0 s = Some (r, s')"
    and t: "case read_pages fetch 0 (Suc k) s of
        (Inl e, s1) \<Rightarrow> r = Inl e \<and> s' = s1
      | (Inr ps, s1) \<Rightarrow> s' = s1 \<and> r = Inr (collect ps [], snd (hd ps)) \<and> only_last_stale {} ps" by (elim exE conjE) (rule that)
  obtain y s2 where y: "read_pages fetch 0 (Suc k) s = (y, s2)" by (cases "read_pages fetch 0 (Suc k) s")
  show ?thesis
  proof (cases y)
    case (Inl e)
    then show ?thesis using r t y by (intro exI [of _ k] exI [of _ "Inl e"] exI [of _ s']) (simp add: fetchAllResources_def)
  next
    case (Inr ps)
    let ?out = "collect ps []" and ?n = "snd (hd ps)"
    have u: "s' = s2" "r = Inr (?out, ?n)" "only_last_stale {} ps" using t y Inr by simp_all
    let ?r = "ebind (verifyComplete (int (length ?out)) ?n) (\<lambda>_. Inr ?out)"
    have g: "fetchAllResources fetch s = Some (?r, s2)" using r u by (simp add: fetchAllResources_def)
    have v: "if 0 < ?n \<and> ?n \<le> int (length ?out) then ?r = Inr ?out else isl ?r" by (simp add: verifyComplete_def)
    have c: "distinct (map nr_ResourceID ?out)" "nr_ResourceID ` set ?out = (\<Union>p \<in> set ps. page_ids p)"
        "set ?out \<subseteq> (\<Union>p \<in> set ps. set (fst p))"
      using collect_simps [of ps "[]"] collect_sound [of ps "[]"] by simp_all
    show ?thesis
      by (rule exI [of _ k], rule exI [of _ ?r], rule exI [of _ s2], rule conjI [OF g])
        (simp only: y Inr sum.case prod.case u(3) simp_thms, intro exI [of _ ?out] conjI c v)
  qed
qed

section \<open>One entry per slug\<close>

text \<open>The preference between two entries as a key: the smaller is preferred.\<close>

definition prefer_key :: "Item \<Rightarrow> nat \<times> string" where
  "prefer_key it = (1 - repoRank (it_RepositoryURL it), it_RepositoryURL it)"

lemma preferOver_key: "preferOver a b \<longleftrightarrow> prefer_key a < prefer_key b"
  by (auto simp: preferOver_def prefer_key_def repoRank_def Let_def less_prod_def)

text \<open>\<open>best\<close> among the entries of its slug: what the fold over \<open>xs\<close> keeps.\<close>

definition survivors :: "Item set \<Rightarrow> Item list \<Rightarrow> bool" where
  "survivors X out \<longleftrightarrow> distinct (map it_SlugName out) \<and> set out \<subseteq> X \<and> it_SlugName ` X = it_SlugName ` set out
     \<and> (\<forall>x \<in> set out. \<forall>y \<in> X. it_SlugName y = it_SlugName x \<longrightarrow> prefer_key x \<le> prefer_key y)"

lemma keep_better_slugs:
  "map it_SlugName (keep_better it out) =
     (if it_SlugName it \<in> it_SlugName ` set out then map it_SlugName out else map it_SlugName out @ [it_SlugName it])"
  by (auto simp: keep_better_def comp_def)

lemma survivors_step:
  assumes "survivors X out"
  shows "survivors (insert it X) (keep_better it out)"
proof (cases "it_SlugName it \<in> it_SlugName ` set out")
  case True
  let ?f = "\<lambda>x. if it_SlugName x = it_SlugName it \<and> preferOver it x then it else x"
  have k: "keep_better it out = map ?f out" using True by (simp add: keep_better_def)
  have le: "prefer_key (?f x) \<le> prefer_key x" "it_SlugName (?f x) = it_SlugName x" for x
    by (auto simp: preferOver_key)
  have slugs: "it_SlugName ` set (map ?f out) = it_SlugName ` set out" unfolding set_map image_image le(2) ..
  have "prefer_key z \<le> prefer_key y"
    if z: "z \<in> set (map ?f out)" "y \<in> insert it X" "it_SlugName y = it_SlugName z" for z y
  proof -
    obtain x where x: "x \<in> set out" "z = ?f x" using z(1) by auto
    show ?thesis
    proof (cases "y = it")
      case False
      then have "prefer_key x \<le> prefer_key y" using assms x z by (auto simp: survivors_def split: if_splits)
      then show ?thesis using le(1) [of x] x(2) by simp
    qed (use x z(3) in \<open>auto simp: preferOver_key split: if_splits\<close>)
  qed
  then show ?thesis
    using assms True slugs unfolding k survivors_def by (auto simp: comp_def le(2) split: if_splits)
next
  case False
  then have k: "keep_better it out = out @ [it]" by (simp add: keep_better_def)
  have "it_SlugName y \<noteq> it_SlugName it" if "y \<in> X" for y
    using assms False that unfolding survivors_def by (metis imageI)
  then show ?thesis using assms False unfolding k survivors_def by auto
qed

lemma dedupe_survivors: "survivors (set items) (dedupeBySlug items)"
proof -
  have "survivors (X \<union> set items) (fold keep_better items out)" if "survivors X out" for X out
    using that
  proof (induction items arbitrary: X out)
    case (Cons it items)
    from Cons.IH [OF survivors_step [OF Cons.prems, of it]] show ?case by simp
  qed simp
  from this [of "{}" "[]"] show ?thesis by (simp add: dedupeBySlug_def survivors_def)
qed

lemma dedupe_slugs:
  "distinct (map it_SlugName (dedupeBySlug items))" "it_SlugName ` set (dedupeBySlug items) = it_SlugName ` set items"
  "set (dedupeBySlug items) \<subseteq> set items"
  using dedupe_survivors [of items] by (auto simp: survivors_def)

lemma fold_keep_new:
  "distinct (map it_SlugName items) \<Longrightarrow> it_SlugName ` set items \<inter> it_SlugName ` set out = {} \<Longrightarrow>
   fold keep_better items out = out @ items"
  by (induction items arbitrary: out) (auto simp: keep_better_def)

lemma dedupe_append:
  assumes "distinct (map it_SlugName b)" "it_SlugName ` set a \<inter> it_SlugName ` set b = {}"
  shows "dedupeBySlug (a @ b) = dedupeBySlug a @ b"
proof -
  have "it_SlugName ` set b \<inter> it_SlugName ` set (dedupeBySlug a) = {}" using assms(2) dedupe_slugs(2) [of a] by auto
  from fold_keep_new [OF assms(1) this] show ?thesis by (simp add: dedupeBySlug_def)
qed

lemma dedupe_id: "distinct (map it_SlugName items) \<Longrightarrow> dedupeBySlug items = items"
  using fold_keep_new [of items "[]"] by (simp add: dedupeBySlug_def)

text \<open>The entries that the URL and the slug determine are kept whatever the order.\<close>

definition determined :: "Item set \<Rightarrow> bool" where
  "determined X \<longleftrightarrow> (\<forall>x \<in> X. \<forall>y \<in> X. it_SlugName x = it_SlugName y \<and> it_RepositoryURL x = it_RepositoryURL y \<longrightarrow> x = y)"

lemma survivors_unique:
  assumes "survivors X a" "survivors X b" "determined X"
  shows "set a \<subseteq> set b"
proof
  fix x assume x: "x \<in> set a"
  then obtain y where y: "y \<in> set b" "it_SlugName y = it_SlugName x"
    using assms(1,2) unfolding survivors_def by (metis (no_types, lifting) imageE imageI)
  have "x \<in> X" "y \<in> X" using x y(1) assms(1,2) unfolding survivors_def by auto
  then have "prefer_key x = prefer_key y"
    using x y assms(1,2) unfolding survivors_def by (metis order_antisym)
  then have "x = y" using assms(3) \<open>x \<in> X\<close> \<open>y \<in> X\<close> y(2) by (auto simp: determined_def prefer_key_def)
  then show "x \<in> set b" using y by simp
qed

section \<open>Reconciling is settled and has no order\<close>

lemma sort_slugs_eq:
  assumes "set a = set b" "distinct (map it_SlugName a)" "distinct (map it_SlugName b)"
  shows "sort_key it_SlugName a = sort_key it_SlugName b"
proof (rule sort_key_inj_key_eq)
  have "mset a = mset b" using assms by (metis distinct_map set_eq_iff_mset_eq_distinct)
  then show "mset a = mset (sort_key it_SlugName b)" by simp
  show "inj_on it_SlugName (set a)" using assms(2) by (simp add: distinct_map)
qed simp

definition kept_entries :: "Item list \<Rightarrow> Item list \<Rightarrow> Item list" where
  "kept_entries old owned = dedupeBySlug (filter (\<lambda>e. \<not> (isOwned e \<or> it_SlugName e \<in> it_SlugName ` set owned)) old)"

lemma reconciled_alt:
  "reconciled old built = sort_key it_SlugName (kept_entries old (dedupeBySlug built) @ dedupeBySlug built)"
  unfolding reconciled_def Let_def kept_entries_def
  by (subst dedupe_append) (auto simp: dedupe_slugs(1))

lemma kept_entries_simps:
  "set (kept_entries old owned) \<subseteq> set old" "distinct (map it_SlugName (kept_entries old owned))"
  "e \<in> set (kept_entries old owned) \<Longrightarrow> \<not> isOwned e \<and> it_SlugName e \<notin> it_SlugName ` set owned"
  using dedupe_slugs(3) [of "filter (\<lambda>e. \<not> (isOwned e \<or> it_SlugName e \<in> it_SlugName ` set owned)) old"]
  by (auto simp: kept_entries_def dedupe_slugs(1))

lemma reconciled_set:
  "set (reconciled old built) = set (kept_entries old (dedupeBySlug built)) \<union> set (dedupeBySlug built)"
  "distinct (map it_SlugName (reconciled old built))" "sorted (map it_SlugName (reconciled old built))"
proof -
  let ?k = "kept_entries old (dedupeBySlug built)" and ?o = "dedupeBySlug built"
  show "set (reconciled old built) = set ?k \<union> set ?o" "sorted (map it_SlugName (reconciled old built))"
    by (simp_all add: reconciled_alt)
  have "it_SlugName ` set ?k \<inter> it_SlugName ` set ?o = {}" using kept_entries_simps(3) by blast
  then have "distinct (map it_SlugName (?k @ ?o))" by (simp add: kept_entries_simps(2) dedupe_slugs(1) image_Int_subset)
  moreover have "mset (map it_SlugName (reconciled old built)) = mset (map it_SlugName (?k @ ?o))"
    by (simp add: reconciled_alt)
  ultimately show "distinct (map it_SlugName (reconciled old built))" using mset_eq_imp_distinct_iff by blast
qed

lemma reconciled_settled:
  assumes "\<forall>x \<in> set built. isOwned x"
  shows "reconciled (reconciled old built) built = reconciled old built"
proof -
  let ?o = "dedupeBySlug built" and ?R = "reconciled old built"
  let ?F = "filter (\<lambda>e. \<not> (isOwned e \<or> it_SlugName e \<in> it_SlugName ` set ?o)) ?R"
  have owned: "x \<in> set ?o \<Longrightarrow> isOwned x" for x using assms dedupe_slugs(3) [of built] by auto
  have F: "set ?F = set (kept_entries old ?o)"
    using kept_entries_simps(3) [of _ old ?o] owned by (auto simp: reconciled_set(1))
  have d: "distinct (map it_SlugName ?F)" using reconciled_set(2) [of old built] by (simp add: distinct_map_filter)
  have k: "kept_entries ?R ?o = ?F" unfolding kept_entries_def by (rule dedupe_id [OF d])
  have disj: "it_SlugName ` set (kept_entries old ?o) \<inter> it_SlugName ` set ?o = {}" using kept_entries_simps(3) by blast
  have "sort_key it_SlugName (?F @ ?o) = sort_key it_SlugName (kept_entries old ?o @ ?o)"
    using F d disj by (intro sort_slugs_eq) (simp_all add: kept_entries_simps(2) dedupe_slugs(1) del: filter_set set_filter)
  then show ?thesis using reconciled_alt [of ?R built, unfolded k] reconciled_alt [of old built] by simp
qed

lemma reconciled_orderless:
  assumes "set built = set built'" "determined (set built)"
  shows "reconciled old built = reconciled old built'"
proof -
  let ?o = "dedupeBySlug built" and ?o' = "dedupeBySlug built'"
  have "survivors (set built) ?o" "survivors (set built) ?o'"
    using dedupe_survivors [of built] dedupe_survivors [of built'] assms(1) by simp_all
  then have o: "set ?o = set ?o'" using survivors_unique [OF _ _ assms(2)] by blast
  have k: "kept_entries old ?o' = kept_entries old ?o" by (simp add: kept_entries_def o)
  have disj: "it_SlugName ` set (kept_entries old ?o) \<inter> it_SlugName ` set ?o = {}" using kept_entries_simps(3) by blast
  show ?thesis unfolding reconciled_alt k
    by (rule sort_slugs_eq) (use o disj in \<open>simp_all add: kept_entries_simps(2) dedupe_slugs(1)\<close>)
qed

section \<open>Pinned fields\<close>

text \<open>Overrides that write no label into the shared list.\<close>

definition quiet :: "overrides \<Rightarrow> bool" where
  "quiet ov \<longleftrightarrow> (\<forall>slug m. ov slug = Some (JObj m) \<longrightarrow> (\<forall>x xs. obj_get m ''labels'' \<noteq> Some (JArr (x # xs))))"

definition pinned :: "overrides \<Rightarrow> Item \<Rightarrow> err + Item list" where
  "pinned ov d =
     (case apply_override ov d supportedLabel of
        Inl e \<Rightarrow> Inl e
      | Inr ((it, r), _) \<Rightarrow> Inr [it\<lparr>it_Labels := labels_now supportedLabel (ensureSupportedLabel supportedLabel r)\<rparr>])"

lemma overlay_labels_quiet:
  "(\<forall>x xs. m \<noteq> Some (JArr (x # xs))) \<Longrightarrow> overlay_labels cell m = Some (r, cell') \<Longrightarrow> cell' = cell"
  by (auto simp: overlay_labels_def split: option.splits json.splits list.splits)

lemma overlay_quiet:
  assumes "\<forall>x xs. m ''labels'' \<noteq> Some (JArr (x # xs))" "overlay_members m it cell = Some (p, cell')"
  shows "cell' = cell"
proof -
  obtain r where "overlay_labels cell (m ''labels'') = Some (r, cell')"
    using assms(2) by (auto simp: overlay_members_def split: Option.bind_splits)
  then show ?thesis by (rule overlay_labels_quiet [OF assms(1)])
qed

lemma apply_quiet:
  assumes "quiet ov" "apply_override ov d cell = Inr (p, cell')"
  shows "cell' = cell"
proof (cases "ov (it_SlugName d)")
  case None
  then show ?thesis using assms(2) by (simp add: apply_override_def)
next
  case (Some raw)
  then show ?thesis
  proof (cases raw)
    case (JObj m)
    then obtain p' where "overlay_members (obj_get m) d cell = Some (p', cell')"
      using assms(2) Some by (auto simp: apply_override_def split: option.splits)
    then show ?thesis using overlay_quiet [of "obj_get m" d cell p' cell'] assms(1) Some JObj by (auto simp: quiet_def)
  qed (use assms(2) Some in \<open>simp_all add: apply_override_def\<close>)
qed

lemma built_items_pinned:
  assumes "quiet ov"
  shows "built_items ov ds = ecollect (pinned ov) ds"
proof -
  have "(case build_owned ov ds supportedLabel of
           Inl e \<Rightarrow> Inl e
         | Inr (xs, cell) \<Rightarrow> Inr (map (\<lambda>(it, r). it\<lparr>it_Labels := labels_now cell r\<rparr>) xs)) = ecollect (pinned ov) ds
     \<and> (\<forall>xs cell. build_owned ov ds supportedLabel = Inr (xs, cell) \<longrightarrow> cell = supportedLabel)"
  proof (induction ds)
    case (Cons d ds)
    show ?case
    proof (cases "apply_override ov d supportedLabel")
      case (Inl e)
      then show ?thesis by (simp add: pinned_def)
    next
      case (Inr q)
      then obtain it r where q: "apply_override ov d supportedLabel = Inr ((it, r), supportedLabel)"
        using apply_quiet [OF assms] by (metis prod.collapse)
      show ?thesis using Cons.IH by (auto simp: q pinned_def split: sum.splits)
    qed
  qed simp
  then show ?thesis by (simp add: built_items_def)
qed

lemma chip_ensured: "has_chip (labels_now supportedLabel (ensureSupportedLabel supportedLabel r))"
  by (cases r) (auto simp: ensureSupportedLabel_def labels_now_def has_chip_def supportedLabel_def)

lemma pinned_owned: "pinned ov d = Inr xs \<Longrightarrow> x \<in> set xs \<Longrightarrow> isOwned x"
  by (auto simp: pinned_def isOwned_def chip_ensured split: sum.splits)

lemma ecollect_same_set:
  assumes "ecollect f xs = Inr a" "set ys = set xs"
  shows "\<exists>b. ecollect f ys = Inr b \<and> set b = set a"
proof -
  have "\<exists>b. ecollect f ys = Inr b" if "set ys \<subseteq> set xs" for ys
    using that
  proof (induction ys)
    case (Cons y ys)
    from ecollect_all_ok [OF assms(1), of y] Cons obtain zs b where "f y = Inr zs" "ecollect f ys = Inr b" by auto
    then show ?case by simp
  qed simp
  then obtain b where b: "ecollect f ys = Inr b" using assms(2) by blast
  have "z \<in> set b \<longleftrightarrow> z \<in> set a" for z
    using ecollect_member [OF b, of z] ecollect_member [OF assms(1), of z] assms(2) by simp
  then show ?thesis using b by blast
qed

section \<open>The document comes back\<close>

definition utf8_label :: "Label \<Rightarrow> bool" where
  "utf8_label l \<longleftrightarrow> valid_utf8 (lb_Code l) \<and> valid_utf8 (lb_Name l)"

definition utf8_item :: "Item \<Rightarrow> bool" where
  "utf8_item it \<longleftrightarrow>
     list_all valid_utf8 [it_Name it, it_SlugName it, it_Description it, it_ProjectURL it, it_DocumentationURL it,
       it_ReferenceGuideURL it, it_SourceCodeURL it, it_LogoURL it, it_ChangelogURL it, it_LastUpdatedAt it,
       it_PackagingFormat it, it_RepositoryURL it, it_RepositoryName it, it_Library it]
     \<and> list_all utf8_label (it_Labels it)"

definition utf8_slice :: "Item list option \<Rightarrow> bool" where
  "utf8_slice xs = (case xs of None \<Rightarrow> True | Some ys \<Rightarrow> list_all utf8_item ys)"

definition utf8_doc :: "catalogDoc \<Rightarrow> bool" where
  "utf8_doc doc \<longleftrightarrow> utf8_slice (doc_SuseAI doc) \<and> utf8_slice (doc_NVIDIA doc) \<and> utf8_slice (doc_Openshell doc)"

lemma ascii_members [simp]: "list_all (byte_in 0 0x7F) s \<Longrightarrow> valid_utf8 s"
  by (rule valid_utf8_ascii) (simp add: list_all_iff)

lemma members_lookup:
  "distinct (map fst fs) \<Longrightarrow> map_of (members fs) k = Option.bind (map_of fs k) (\<lambda>(d, j). if d then None else Some j)"
proof (induction fs rule: members.induct)
  case (2 k' d j fs)
  have "k \<notin> fst ` set fs \<Longrightarrow> map_of fs k = None" by (simp add: map_of_eq_None_iff)
  then show ?case using 2 by auto
qed simp

lemma json_ok_struct: "(\<And>k d j. (k, d, j) \<in> set fs \<Longrightarrow> valid_utf8 k \<and> json_ok j) \<Longrightarrow> json_ok (struct_json fs)"
  by (auto simp: struct_json_def list_all_iff dest!: members_set)

lemma decode_struct_norm:
  assumes "distinct (map fst fs)"
  shows "decode_struct f (norm (struct_json fs)) = f (\<lambda>k. map_option norm (Option.bind (map_of fs k) (\<lambda>(d, j). if d then None else Some j)))"
proof -
  obtain m where m: "norm (JObj (members fs)) = JObj m" "\<forall>k. obj_get m k = map_option norm (map_of (members fs) k)"
    using norm_struct [OF members_distinct [OF assms]] by blast
  have "map_of m = (\<lambda>k. map_option norm (Option.bind (map_of fs k) (\<lambda>(d, j). if d then None else Some j)))"
    using m(2) by (simp add: fun_eq_iff members_lookup [OF assms])
  then show ?thesis by (simp add: struct_json_def m(1) del: norm.simps)
qed

lemma those_decoded: "(\<And>x. x \<in> set xs \<Longrightarrow> f (h x) = Some x) \<Longrightarrow> those (map f (map h xs)) = Some xs"
  by (induction xs) auto

text \<open>A string member, dropped when it is empty or always written.\<close>

lemma string_member [simp]:
  "str_value (map_option norm (Option.bind (Some (s = '''', JStr s)) (\<lambda>(d, j). if d then None else Some j))) = Some s"
  "str_value (map_option norm (Option.bind (Some (False, JStr s)) (\<lambda>(d, j). if d then None else Some j))) = Some s"
  by simp_all

lemma label_decoded: "decode_label (norm (label_json l)) = Some l"
  by (simp add: label_json_def decode_label_def decode_struct_norm label_members_def)

lemma label_json_ok: "utf8_label l \<Longrightarrow> json_ok (label_json l)"
  unfolding label_json_def by (rule json_ok_struct) (auto simp: utf8_label_def byte_in_def)

lemma labels_decoded:
  "decode_list decode_label (map_option norm (Option.bind (Some (ls = [], JArr (map label_json ls))) (\<lambda>(d, j). if d then None else Some j))) = Some ls"
  using those_decoded [of ls decode_label "\<lambda>l. norm (label_json l)"] label_decoded by (auto simp: comp_def)

lemma item_keys: "distinct (map fst (item_fields it))"
  by (simp add: item_fields_def)

lemma item_decoded: "decode_item (norm (item_json it)) = Some it"
proof -
  have look: "map_of (item_fields it) ''name'' = Some (False, JStr (it_Name it))"
    "map_of (item_fields it) ''slug_name'' = Some (False, JStr (it_SlugName it))"
    "map_of (item_fields it) ''description'' = Some (it_Description it = '''', JStr (it_Description it))"
    "map_of (item_fields it) ''project_url'' = Some (it_ProjectURL it = '''', JStr (it_ProjectURL it))"
    "map_of (item_fields it) ''documentation_url'' = Some (it_DocumentationURL it = '''', JStr (it_DocumentationURL it))"
    "map_of (item_fields it) ''reference_guide_url'' = Some (it_ReferenceGuideURL it = '''', JStr (it_ReferenceGuideURL it))"
    "map_of (item_fields it) ''source_code_url'' = Some (it_SourceCodeURL it = '''', JStr (it_SourceCodeURL it))"
    "map_of (item_fields it) ''logo_url'' = Some (it_LogoURL it = '''', JStr (it_LogoURL it))"
    "map_of (item_fields it) ''changelog_url'' = Some (it_ChangelogURL it = '''', JStr (it_ChangelogURL it))"
    "map_of (item_fields it) ''last_updated_at'' = Some (it_LastUpdatedAt it = '''', JStr (it_LastUpdatedAt it))"
    "map_of (item_fields it) ''packaging_format'' = Some (it_PackagingFormat it = '''', JStr (it_PackagingFormat it))"
    "map_of (item_fields it) ''repository_url'' = Some (it_RepositoryURL it = '''', JStr (it_RepositoryURL it))"
    "map_of (item_fields it) ''repository_name'' = Some (it_RepositoryName it = '''', JStr (it_RepositoryName it))"
    "map_of (item_fields it) ''library'' = Some (it_Library it = '''', JStr (it_Library it))"
    "map_of (item_fields it) ''labels'' = Some (it_Labels it = [], JArr (map label_json (it_Labels it)))"
    by (simp_all add: item_fields_def)
  show ?thesis
    unfolding item_json_def decode_item_def decode_struct_norm [OF item_keys] decode_members_def look string_member labels_decoded
    by simp
qed

lemma item_json_ok: "utf8_item it \<Longrightarrow> json_ok (item_json it)"
  unfolding item_json_def by (rule json_ok_struct)
    (auto simp: item_fields_def utf8_item_def byte_in_def list_all_iff label_json_ok)

lemma slice_json_ok: "utf8_slice xs \<Longrightarrow> json_ok (slice_json xs)"
  by (auto simp: slice_json_def utf8_slice_def list_all_iff item_json_ok split: option.splits)

lemma slice_decoded:
  "decode_slice (map_option norm (Option.bind (Some (False, slice_json xs)) (\<lambda>(d, j). if d then None else Some j))) = Some xs"
proof (cases xs)
  case (Some ys)
  have "those (map decode_item (map (\<lambda>it. norm (item_json it)) ys)) = Some ys" by (rule those_decoded) (rule item_decoded)
  then show ?thesis using Some by (simp add: decode_slice_def slice_json_def comp_def)
qed (simp add: decode_slice_def slice_json_def)

lemma unmarshal_line:
  assumes "json_ok j"
  shows "unmarshal (marshal_indent newline j @ newline) = Some (norm j)"
proof -
  have sp: "list_all is_space newline" by (simp add: newline_def is_space_def)
  have d: "delim newline" by (simp add: newline_def delim_def num_char_def is_digit_def)
  have "2 * length (marshal_indent newline j @ newline) + 2 = Suc (2 * length (marshal_indent newline j) + 3)"
    by (simp add: newline_def)
  then have "pval (2 * length (marshal_indent newline j @ newline) + 2) (marshal_indent newline j @ newline) = Some (norm j, newline)"
    using pval_marshal_indent [OF assms sp, of "2 * length (marshal_indent newline j) + 3" newline] d
    by (simp only: le_add1)
  moreover have "skip newline = []" by (simp add: newline_def skip_def is_space_def)
  ultimately show ?thesis by (simp add: unmarshal_def)
qed

lemma doc_decoded:
  assumes "utf8_doc doc"
  shows "parse_doc (render_doc doc) = Inr doc"
proof -
  let ?fs = "[(''suse-ai'', False, slice_json (doc_SuseAI doc)), (''nvidia'', False, slice_json (doc_NVIDIA doc)),
      (''openshell'', False, slice_json (doc_Openshell doc))]"
  have dist: "distinct (map fst ?fs)" by simp
  have ok: "json_ok (doc_json doc)"
    unfolding doc_json_def by (rule json_ok_struct) (use assms in \<open>auto simp: utf8_doc_def byte_in_def slice_json_ok\<close>)
  obtain m where m: "norm (struct_json ?fs) = JObj m" "\<forall>k. obj_get m k = map_option norm (map_of (members ?fs) k)"
    using norm_struct [OF members_distinct [OF dist]] unfolding struct_json_def by blast
  have u: "unmarshal (render_doc doc) = Some (JObj m)"
    using unmarshal_line [OF ok] m(1) by (simp add: render_doc_def doc_json_def)
  have "k \<in> set libraries" if "k \<in> set (map fst m)" for k
  proof -
    have "obj_get m k \<noteq> None" using that by (auto simp: map_of_eq_None_iff)
    then show ?thesis using m(2) by (auto simp: libraries_def split: if_splits)
  qed
  then have f: "find (\<lambda>k. k \<notin> set libraries) (map fst m) = None" by (auto simp: find_None_iff)
  have look: "map_of ?fs ''suse-ai'' = Some (False, slice_json (doc_SuseAI doc))"
    "map_of ?fs ''nvidia'' = Some (False, slice_json (doc_NVIDIA doc))"
    "map_of ?fs ''openshell'' = Some (False, slice_json (doc_Openshell doc))" by simp_all
  have "decode_struct doc_members (JObj m) = Some doc"
    unfolding m(1) [symmetric] decode_struct_norm [OF dist] doc_members_def look slice_decoded by simp
  then show ?thesis using u f by (simp add: parse_doc_def)
qed

section \<open>The generator settles\<close>

lemma new_slugs_same: "new_slugs xs xs = []"
  by (simp add: new_slugs_def filter_empty_conv)

lemma sync_cases:
  assumes "syncNVAIE raw derived ov = Inr (out, added, removed)"
  obtains doc built where "parse_doc raw = Inr doc" "built_items ov derived = Inr built"
    "out = render_doc (doc\<lparr>doc_NVIDIA := Some (reconciled (nvidia_entries doc) built)\<rparr>)"
    "added = new_slugs (reconciled (nvidia_entries doc) built) (nvidia_entries doc)"
    "removed = new_slugs (nvidia_entries doc) (reconciled (nvidia_entries doc) built)"
  using assms by (auto simp: syncNVAIE_def Let_def split: sum.splits)

text \<open>What a run reads is valid UTF-8, as what a JSON decoder gives is.\<close>

definition utf8_inputs :: "string \<Rightarrow> Item list \<Rightarrow> overrides \<Rightarrow> bool" where
  "utf8_inputs raw derived ov \<longleftrightarrow>
     (\<forall>doc. parse_doc raw = Inr doc \<longrightarrow> utf8_doc doc) \<and> (\<forall>built. built_items ov derived = Inr built \<longrightarrow> list_all utf8_item built)"


definition example_catalog :: string where
  "example_catalog = marshal (JObj [(''suse-ai'', JArr []), (''nvidia'', JArr []), (''openshell'', JArr [])])"

definition example_chart :: "string \<Rightarrow> Item" where
  "example_chart slug = empty_item\<lparr>it_Name := slug, it_SlugName := slug, it_RepositoryURL := nimNvidiaRepoURL\<rparr>"

lemma example_parsed: "parse_doc example_catalog = Inr \<lparr>doc_SuseAI = Some [], doc_NVIDIA = Some [], doc_Openshell = Some []\<rparr>"
  by code_simp

lemma example_owned: "built_items Map.empty [example_chart ''gpu-operator''] = Inr [(example_chart ''gpu-operator'')\<lparr>it_Labels := [supportedLabel]\<rparr>]"
  by code_simp

lemma example_utf8: "utf8_item ((example_chart ''gpu-operator'')\<lparr>it_Labels := [supportedLabel]\<rparr>)"
  by code_simp


definition example_page :: "nat \<Rightarrow> (unit, string) act" where
  "example_page n s = (Inr (marshal (JObj [(''resultTotal'', JNum ''1''), (''results'', JArr [JObj [(''groupValue'', JStr helmChart),
     (''resources'', JArr [JObj [(''resourceId'', JStr ''nim/x'')]])]])])), s)"

lemma example_page_parsed:
  "map_sum id (\<lambda>(res, n). (map nr_ResourceID res, n)) (parseResources (the (case fst (example_page n s) of Inr b \<Rightarrow> Some b | Inl e \<Rightarrow> None)))
     = Inr ([''nim/x''], 1)"
  unfolding example_page_def by code_simp

theorem fetch_terminates_witness: "\<exists>r s'. fetchAllResources example_page () = Some (r, s')"
proof -
  have "serves example_page {''nim/x''}"
    unfolding serves_def
  proof (intro allI impI)
    fix page s body s' res n
    assume h: "example_page page s = (Inr body, s')" "parseResources body = Inr (res, n)"
    then have "map nr_ResourceID res = [''nim/x'']" using example_page_parsed [of page s] by simp
    then have "set (map nr_ResourceID res) = {''nim/x''}" by simp
    then show "nr_ResourceID ` set res \<subseteq> {''nim/x''}" by simp
  qed
  then show ?thesis using fetch_terminates [of "{''nim/x''}" example_page "()"] by blast
qed

section \<open>An override that lists labels\<close>

lemma build_untouched:
  assumes "\<forall>x \<in> set ds. ov (it_SlugName x) = None"
  shows "build_owned ov ds cell = Inr (map (\<lambda>d. (d, ensureSupportedLabel cell Shared)) ds, cell)"
  using assms by (induction ds) (simp_all add: apply_override_def)

lemma build_append:
  "build_owned ov (a @ b) cell =
     (case build_owned ov a cell of
        Inl e \<Rightarrow> Inl e
      | Inr (xs, cell1) \<Rightarrow> (case build_owned ov b cell1 of Inl e \<Rightarrow> Inl e | Inr (ys, cell2) \<Rightarrow> Inr (xs @ ys, cell2)))"
  by (induction a arbitrary: cell) (auto split: sum.splits prod.splits)

lemma kept_without_results:
  assumes "\<forall>x \<in> set old. \<not> isOwned x" "distinct (map it_SlugName old)"
  shows "set (reconciled old []) = set old"
proof -
  have "filter (\<lambda>e. \<not> (isOwned e \<or> it_SlugName e \<in> it_SlugName ` set [])) old = old" using assms(1) by simp
  then show ?thesis using assms(2) by (simp add: reconciled_set(1) kept_entries_def dedupe_id dedupeBySlug_def [of "[]"])
qed

text \<open>
  An override that lists one label for one chart replaces the Supported label of every generated entry of the run, as
  all of them share the list that it is decoded into: none is owned by the generator any more. Such entries stay in the
  catalog when the search no longer finds them.
\<close>

theorem label_override_strips_all:
  assumes "ov (it_SlugName d) = Some (JObj m)" "obj_get m ''labels'' = Some (JArr [j])"
    and "overlay_label supportedLabel j = Some c" "lb_Code c \<noteq> ''supported''"
    and "\<forall>x \<in> set earlier \<union> set later. ov (it_SlugName x) = None"
    and "built_items ov (earlier @ d # later) = Inr built"
  shows "(\<forall>x \<in> set built. \<not> isOwned x)
    \<and> set (reconciled (reconciled [] built) []) = set (reconciled [] built)"
proof -
  have chip: "has_chip [supportedLabel]" "\<not> has_chip [c]" "\<not> has_chip [c, c]"
    using assms(4) by (simp_all add: has_chip_def supportedLabel_def)
  have b: "build_owned ov earlier supportedLabel = Inr (map (\<lambda>d. (d, Shared)) earlier, supportedLabel)"
    and l: "build_owned ov later c = Inr (map (\<lambda>d. (d, Own [c, c])) later, c)"
    using build_untouched [of earlier ov supportedLabel] build_untouched [of later ov c] assms(5) chip
    by (simp_all add: ensureSupportedLabel_def labels_now_def)
  have "\<exists>it. overlay_members (obj_get m) d supportedLabel = Some ((it, Shared), c)
      \<or> overlay_members (obj_get m) d supportedLabel = None"
    using assms(2,3) by (auto simp: overlay_members_def overlay_labels_def split: Option.bind_splits)
  then obtain it where "apply_override ov d supportedLabel = Inr ((it, Shared), c)
      \<or> isl (apply_override ov d supportedLabel)" using assms(1) by (auto simp: apply_override_def)
  moreover have "\<not> isl (apply_override ov d supportedLabel)"
    using assms(6) b by (auto simp: built_items_def build_append isl_def split: sum.splits prod.splits)
  ultimately have a: "apply_override ov d supportedLabel = Inr ((it, Shared), c)" by blast
  have "build_owned ov (earlier @ d # later) supportedLabel
      = Inr (map (\<lambda>d. (d, Shared)) earlier @ (it, Own [c, c]) # map (\<lambda>d. (d, Own [c, c])) later, c)"
    using b l a chip by (simp add: build_append ensureSupportedLabel_def labels_now_def)
  then have "\<exists>ls. \<not> has_chip ls \<and> it_Labels x = ls" if "x \<in> set built" for x
    using assms(6) that chip by (auto simp: built_items_def labels_now_def)
  then have no: "\<forall>x \<in> set built. \<not> isOwned x" by (auto simp: isOwned_def)
  have "\<forall>x \<in> set (reconciled [] built). \<not> isOwned x"
    using no dedupe_slugs(3) [of built] kept_entries_simps(1) [of "[]" "dedupeBySlug built"] by (auto simp: reconciled_set(1))
  then have "set (reconciled (reconciled [] built) []) = set (reconciled [] built)"
    by (rule kept_without_results) (rule reconciled_set(2))
  with no show ?thesis by blast
qed

theorem label_override_strips_all_witness:
  "\<exists>built. built_items [''a'' \<mapsto> JObj [(''labels'', JArr [JObj [(''code'', JStr ''beta'')]])]] [example_chart ''a'', example_chart ''b''] = Inr built
    \<and> (\<forall>x \<in> set built. \<not> isOwned x)"
proof -
  let ?ov = "[''a'' \<mapsto> JObj [(''labels'', JArr [JObj [(''code'', JStr ''beta'')]])]] :: overrides"
  obtain built where b: "built_items ?ov ([] @ example_chart ''a'' # [example_chart ''b'']) = Inr built"
    by (simp add: built_items_def apply_override_def overlay_members_def overlay_labels_def overlay_label_def overlay_def example_chart_def empty_item_def)
  have "\<forall>x \<in> set built. \<not> isOwned x"
    by (rule conjunct1 [OF label_override_strips_all [OF _ _ _ _ _ b, where m = "[(''labels'', JArr [JObj [(''code'', JStr ''beta'')]])]"
          and c = "\<lparr>lb_Code = ''beta'', lb_Name = ''Supported''\<rparr>" and j = "JObj [(''code'', JStr ''beta'')]"]])
      (simp_all add: example_chart_def overlay_label_def overlay_def supportedLabel_def)
  then show ?thesis using b by auto
qed

end
