(* ===== verification/Settings.thy ===== *)
theory Settings
  imports Rancher Catalog Injectors
begin

text \<open>
  The settings controller (\<open>internal/controller/settings/settings\_controller.go\<close>, with \<open>internal/infra/rancher/ca.go\<close> and
  the constructor of \<open>catalog.go\<close> there): it finds the registry secrets, keeps the Fleet GitRepos of the customer and of the
  blueprint catalogs, mirrors the credentials to where Rancher and Fleet read them, and keeps the ClusterRepos of the
  registries. The bundled catalog is an argument. Log lines are not modelled; the calls of the API server and the
  retry on conflict are parameters. A server-side apply is its object; the ClusterRepo fields that are
  forced to be empty are part of it.
\<close>

section \<open>Objects and calls\<close>

record Settings =
  se_Namespace :: string
  se_Name :: string
  se_Generation :: int
  se_Spec :: SettingsSpec
  se_LastApplied :: "nat option"
  se_ObservedGeneration :: int

record GitRepo =
  gr_Repo :: string
  gr_Branch :: string
  gr_Paths :: "string list"
  gr_ClientSecretName :: "string option"
  gr_CABundle :: "string option"
  gr_Labels :: smap

text \<open>
  A ClusterRepo as the operator manages it: \<open>mr_ClientSecret\<close> is what the operator's own field manager has set. \<open>mr_Foreign\<close> is what other
  managers own of \<open>spec.clientSecret\<close> (name and namespace); the operator never sends it.
\<close>

record ManagedRepo =
  mr_URL :: string
  mr_GitRepo :: string
  mr_GitBranch :: string
  mr_InsecureSkipTLSVerify :: bool
  mr_ServiceAccount :: string
  mr_ServiceAccountNamespace :: string
  mr_ClientSecret :: "(string \<times> string) option"
  mr_Labels :: smap
  mr_Foreign :: "(string \<times> string) option"

record CatalogClient =
  cc_BaseURL :: string
  cc_Token :: string
  cc_InsecureSkipVerify :: bool
  cc_RootCAs :: "string option"

text \<open>\<open>sx_SetHolder\<close> is absent when the controller has no holder for the Rancher client.\<close>

record 's SettingsAPI =
  sx_Client :: "'s Client"
  sx_GetSettings :: "string \<Rightarrow> string \<Rightarrow> ('s, Settings) act"
  sx_ListSettings :: "('s, Settings list) act"
  sx_PatchSettings :: "Settings \<Rightarrow> Settings \<Rightarrow> ('s, Settings) act"
  sx_UpdateStatus :: "Settings \<Rightarrow> ('s, unit) act"
  sx_RetryOnConflict :: "('s, unit) act \<Rightarrow> ('s, unit) act"
  sx_GetGitRepo :: "string \<Rightarrow> ('s, unit) act"
  sx_ApplyGitRepo :: "string \<Rightarrow> GitRepo \<Rightarrow> ('s, unit) act"
  sx_DeleteGitRepo :: "string \<Rightarrow> ('s, unit) act"
  sx_ListCatalogRepos :: "('s, string list) act"
  sx_DeleteSecret :: "string \<Rightarrow> string \<Rightarrow> ('s, unit) act"
  sx_RemoveCACerts :: "string \<Rightarrow> string \<Rightarrow> ('s, unit) act"
  sx_ApplyRepo :: "string \<Rightarrow> ManagedRepo \<Rightarrow> ('s, unit) act"
  sx_ForceUpdate :: "string \<Rightarrow> string \<Rightarrow> ('s, unit) act"
  sx_DeleteRepo :: "string \<Rightarrow> ('s, unit) act"
  sx_ListTeamRepos :: "('s, string list) act"
  sx_PEM :: "string \<Rightarrow> bool"
  sx_SetHolder :: "(CatalogClient option \<Rightarrow> 's \<Rightarrow> 's) option"

section \<open>Names (credentials.go, settings_controller.go)\<close>

definition SettingsName :: string where "SettingsName = ''settings''"

definition DefaultApplicationCollectionURL :: string where "DefaultApplicationCollectionURL = ''oci://dp.apps.rancher.io/charts''"
definition DefaultSUSERegistryURL :: string where "DefaultSUSERegistryURL = ''oci://registry.suse.com/ai/charts''"
definition DefaultNvidiaChartsURL :: string where "DefaultNvidiaChartsURL = ''https://helm.ngc.nvidia.com/nvidia''"
definition DefaultNvidiaBlueprintURL :: string where "DefaultNvidiaBlueprintURL = ''https://helm.ngc.nvidia.com/nvidia/blueprint''"
definition DefaultOpenshellURL :: string where "DefaultOpenshellURL = ''oci://ghcr.io/nvidia/openshell/helm-chart''"
definition DefaultOpenshellWorkspaceURL :: string where
  "DefaultOpenshellWorkspaceURL = ''oci://ghcr.io/nvidia/openshell/openshell-workspace''"

definition ClusterRepoApplicationCollection :: string where "ClusterRepoApplicationCollection = ''application-collection''"
definition ClusterRepoSUSERegistry :: string where "ClusterRepoSUSERegistry = ''suse-ai-registry''"
definition ClusterRepoNvidia :: string where "ClusterRepoNvidia = ''nvidia''"
definition ClusterRepoNvidiaBlueprint :: string where "ClusterRepoNvidiaBlueprint = ''nvidia-blueprints''"
definition ClusterRepoOpenshell :: string where "ClusterRepoOpenshell = ''openshell''"
definition ClusterRepoOpenshellWorkspace :: string where "ClusterRepoOpenshellWorkspace = ''openshell-workspace''"

definition ManagedRepoLabel :: string where "ManagedRepoLabel = ''ai-factory.suse.com/managed-repo''"
definition TeamRepoLabel :: string where "TeamRepoLabel = ''ai-factory.suse.com/nvidia-team-repo''"
definition CatalogRepoLabel :: string where "CatalogRepoLabel = ''ai-factory.suse.com/blueprint-catalog-repo''"

definition AuthSecretApplicationCollection :: string where "AuthSecretApplicationCollection = ''application-collection-auth''"
definition AuthSecretSUSERegistry :: string where "AuthSecretSUSERegistry = ''suse-ai-registry-auth''"
definition AuthSecretNvidia :: string where "AuthSecretNvidia = ''ngc-helm-auth''"

definition BlueprintCatalogDefault :: string where "BlueprintCatalogDefault = ''suse-default''"
definition fleetGitRepoName :: string where "fleetGitRepoName = ''suse-ai-fleet-repo''"
definition fleetGitRepoNamespace :: string where "fleetGitRepoNamespace = ''fleet-local''"
definition SecretTypeBasicAuth :: string where "SecretTypeBasicAuth = ''kubernetes.io/basic-auth''"
definition cattleSystem :: string where "cattleSystem = ''cattle-system''"

definition authSecretNamespaces :: "string list" where
  "authSecretNamespaces = [''cattle-system'', ''fleet-local'', ''fleet-default'']"

definition catalogGitRepoName :: "string \<Rightarrow> string" where "catalogGitRepoName name = ''blueprint-catalog-'' @ name"
definition gitCredMirrorName :: "string \<Rightarrow> string" where "gitCredMirrorName gitRepoName = gitRepoName @ ''-cred''"

definition teamClusterRepoName :: "string \<Rightarrow> err + string" where
  "teamClusterRepoName ngcURL =
     (case NGCClusterRepoName ngcURL of
        Inl e \<Rightarrow> Inl e
      | Inr name \<Rightarrow>
          if name \<in> {ClusterRepoNvidia, ClusterRepoNvidiaBlueprint}
          then Inl (Err SOther (''team slug '' @ go_quoted name @ '' collides with org repo name''))
          else Inr name)"

text \<open>The loop keeps the URL each name was first seen with.\<close>

fun team_names :: "string list \<Rightarrow> (string \<times> string) list \<Rightarrow> err + string list" where
  "team_names [] seen = Inr []"
| "team_names (u # us) seen =
     (case teamClusterRepoName u of
        Inl e \<Rightarrow> Inl e
      | Inr name \<Rightarrow>
          (case map_of seen name of
             Some previous \<Rightarrow>
               if previous \<noteq> u then
                 Inl (Err SOther (''NGC repository URLs '' @ go_quoted previous @ '' and '' @ go_quoted u
                   @ '' collide at ClusterRepo name '' @ go_quoted name))
               else team_names us seen
           | None \<Rightarrow> map_sum id (Cons name) (team_names us ((name, u) # seen))))"

definition catalogNvidiaTeamRepoNames :: "Item list \<Rightarrow> err + string list" where
  "catalogNvidiaTeamRepoNames bundled =
     (let teams = classifyNGCTeamRepos bundled in team_names (ntr_Public teams @ ntr_Gated teams) [])"

section \<open>Well-known secrets\<close>

definition ensureWellKnownSecretRefs :: "'s SettingsAPI \<Rightarrow> Settings \<Rightarrow> ('s, Settings) act" where
  "ensureWellKnownSecretRefs x s w =
     (case WireSpec (sx_Client x) (se_Spec s) (se_Namespace s) w of
        ((spec, changed), w1) \<Rightarrow>
          if \<not> changed then (Inr s, w1)
          else (case sx_PatchSettings x s (s\<lparr>se_Spec := spec\<rparr>) w1 of
                  (Inl e, w2) \<Rightarrow> (Inl (wrap_err ''patch settings secret refs'' e), w2)
                | (Inr s2, w2) \<Rightarrow> (Inr s2, w2)))"

definition readSecretKey :: "'s Client \<Rightarrow> string \<Rightarrow> SecretKeyRef \<Rightarrow> ('s, string) act" where
  "readSecretKey c ns r w =
     (case GetSecret c ns (ref_Name r) w of
        (Inl e, w1) \<Rightarrow> (Inl e, w1)
      | (Inr sec, w1) \<Rightarrow> (Inr (mget (sec_Data sec) (ref_Key r)), w1))"

section \<open>Git repositories\<close>

text \<open>\<open>x509.AppendCertsFromPEM\<close> rejects an empty text.\<close>

definition readGitCABundle :: "'s SettingsAPI \<Rightarrow> string \<Rightarrow> SecretKeyRef \<Rightarrow> ('s, string) act" where
  "readGitCABundle x ns r w =
     (let what = ns @ ''/'' @ ref_Name r
      in case GetSecret (sx_Client x) ns (ref_Name r) w of
           (Inl e, w1) \<Rightarrow> (Inl (wrap_err (''read Git CA Secret '' @ what) e), w1)
         | (Inr sec, w1) \<Rightarrow>
             (case sec_Data sec (ref_Key r) of
                None \<Rightarrow> (Inl (Err SOther (''git CA Secret '' @ what @ '' does not contain key '' @ go_quoted (ref_Key r))), w1)
              | Some ca \<Rightarrow>
                  if ca = '''' \<or> \<not> sx_PEM x ca
                  then (Inl (Err SOther (''git CA Secret '' @ what @ '' key '' @ go_quoted (ref_Key r)
                          @ '' does not contain a PEM certificate'')), w1)
                  else (Inr ca, w1)))"

definition replace_wrong_type :: "'s SettingsAPI \<Rightarrow> string \<Rightarrow> ('s, unit) act" where
  "replace_wrong_type x mirrorName w =
     (case GetSecret (sx_Client x) fleetGitRepoNamespace mirrorName w of
        (Inl e, w1) \<Rightarrow> if err_is e = SNotFound then (Inr (), w1) else (Inl (wrap_err ''get mirror secret'' e), w1)
      | (Inr existing, w1) \<Rightarrow>
          if sec_Type existing = SecretTypeBasicAuth then (Inr (), w1)
          else (case sx_DeleteSecret x fleetGitRepoNamespace mirrorName w1 of
                  (Inl e, w2) \<Rightarrow>
                    if err_is e = SNotFound then (Inr (), w2) else (Inl (wrap_err ''delete stale mirror secret'' e), w2)
                | (Inr _, w2) \<Rightarrow> (Inr (), w2)))"

definition mirrorGitCredSecretRef :: "'s SettingsAPI \<Rightarrow> string \<Rightarrow> GitRepoSource \<Rightarrow> SecretKeyRef \<Rightarrow> string \<Rightarrow> ('s, unit) act" where
  "mirrorGitCredSecretRef x mirrorName src r srcNamespace w =
     (case GetSecret (sx_Client x) srcNamespace (ref_Name r) w of
        (Inl e, w1) \<Rightarrow> (Inl (wrap_err (''read source secret '' @ srcNamespace @ ''/'' @ ref_Name r) e), w1)
      | (Inr sec, w1) \<Rightarrow>
          if git_AuthType src \<notin> {'''', ''token'', ''basic''} then
            (Inl (Err SOther (''unsupported fleet.authType '' @ go_quoted (git_AuthType src)
               @ ''; HTTPS Git credentials use username plus password or personal access token'')), w1)
          else
            (case sec_Data sec (ref_Key r) of
               None \<Rightarrow> (Inl (Err SOther (''git credential Secret '' @ srcNamespace @ ''/'' @ ref_Name r
                          @ '' does not contain key '' @ go_quoted (ref_Key r))), w1)
             | Some password \<Rightarrow>
                 if password = '''' then (Inl (Err SOther ''git credential must not be empty''), w1)
                 else bnd (replace_wrong_type x mirrorName) (\<lambda>_.
                        PatchSecret (sx_Client x) fleetGitRepoNamespace mirrorName
                          \<lparr>sec_Type = SecretTypeBasicAuth,
                           sec_Data = [''username'' \<mapsto> ResolveGitHTTPSUsername (git_Username src) (sec_Data sec),
                                       ''password'' \<mapsto> password]\<rparr>) w1))"

definition git_branch_or_main :: "GitRepoSource \<Rightarrow> string" where
  "git_branch_or_main src = (if git_Branch src = '''' then ''main'' else git_Branch src)"

definition git_credential :: "'s SettingsAPI \<Rightarrow> string \<Rightarrow> GitRepoSource \<Rightarrow> string \<Rightarrow> ('s, string option) act" where
  "git_credential x name src ns =
     (case git_CredSecretRef src of
        None \<Rightarrow> ret None
      | Some r \<Rightarrow> (\<lambda>w.
          case mirrorGitCredSecretRef x (gitCredMirrorName name) src r ns w of
            (Inl e, w1) \<Rightarrow> (Inl (wrap_err ''mirror git credential secret'' e), w1)
          | (Inr _, w1) \<Rightarrow> (Inr (Some (gitCredMirrorName name)), w1)))"

definition git_trust :: "'s SettingsAPI \<Rightarrow> GitRepoSource \<Rightarrow> string \<Rightarrow> ('s, string option) act" where
  "git_trust x src ns =
     (case git_CABundleSecretRef src of
        None \<Rightarrow> ret None
      | Some r \<Rightarrow> bnd (readGitCABundle x ns r) (\<lambda>ca. ret (Some (EncodeToString ca))))"

definition applyGitRepo :: "'s SettingsAPI \<Rightarrow> string \<Rightarrow> GitRepoSource \<Rightarrow> string \<Rightarrow> string list \<Rightarrow> smap \<Rightarrow> ('s, unit) act" where
  "applyGitRepo x name src ns paths labels =
     (if git_CredSecretRef src = None \<and> (git_AuthType src \<noteq> '''' \<or> git_Username src \<noteq> '''')
      then throw (Err SOther ''fleet.authType or fleet.username requires fleet.credSecretRef'')
      else bnd (git_credential x name src ns) (\<lambda>cred.
           bnd (git_trust x src ns) (\<lambda>ca.
             sx_ApplyGitRepo x name
               \<lparr>gr_Repo = git_RepoURL src, gr_Branch = git_branch_or_main src, gr_Paths = paths,
                gr_ClientSecretName = cred, gr_CABundle = ca, gr_Labels = labels\<rparr>)))"

definition applyFleetGitRepo :: "'s SettingsAPI \<Rightarrow> Settings \<Rightarrow> ('s, unit) act" where
  "applyFleetGitRepo x s =
     applyGitRepo x fleetGitRepoName (set_Fleet (se_Spec s)) (se_Namespace s) [''blueprints'', ''workloads''] Map.empty"

definition reconcileFleetGitRepo :: "'s SettingsAPI \<Rightarrow> Settings \<Rightarrow> ('s, unit) act" where
  "reconcileFleetGitRepo x s w =
     (let desired = git_RepoURL (set_Fleet (se_Spec s)) \<noteq> ''''
      in case sx_GetGitRepo x fleetGitRepoName w of
           (Inl e, w1) \<Rightarrow>
             if err_is e \<noteq> SNotFound then (Inl (wrap_err ''get GitRepo'' e), w1)
             else if \<not> desired then (Inr (), w1) else applyFleetGitRepo x s w1
         | (Inr _, w1) \<Rightarrow>
             if \<not> desired then sx_DeleteGitRepo x fleetGitRepoName w1 else applyFleetGitRepo x s w1)"

section \<open>Blueprint catalogs\<close>

definition prune_catalog :: "'s SettingsAPI \<Rightarrow> string \<Rightarrow> ('s, unit) act" where
  "prune_catalog x name w =
     (case delete_ignoring_absent (sx_DeleteGitRepo x name) w of
        (Inl e, w1) \<Rightarrow> (Inl (wrap_err (''prune catalog GitRepo '' @ name) e), w1)
      | (Inr _, w1) \<Rightarrow>
          (case delete_ignoring_absent (sx_DeleteSecret x fleetGitRepoNamespace (gitCredMirrorName name)) w1 of
             (Inl e, w2) \<Rightarrow> (Inl (wrap_err (''prune catalog credential mirror for '' @ name) e), w2)
           | (Inr _, w2) \<Rightarrow> (Inr (), w2)))"

definition pruneCatalogRepos :: "'s SettingsAPI \<Rightarrow> string set \<Rightarrow> ('s, unit) act" where
  "pruneCatalogRepos x keep w =
     (case sx_ListCatalogRepos x w of
        (Inl e, w1) \<Rightarrow> (Inl (wrap_err ''list catalog GitRepos'' e), w1)
      | (Inr names, w1) \<Rightarrow> for_each names (\<lambda>name. if name \<in> keep then ret () else prune_catalog x name) w1)"

definition catalog_paths :: "BlueprintCatalogSource \<Rightarrow> string list" where
  "catalog_paths cat = (if bc_Paths cat = [] then [''blueprints''] else bc_Paths cat)"

definition catalog_labels :: smap where
  "catalog_labels = [CatalogRepoLabel \<mapsto> ''true'', ManagedRepoLabel \<mapsto> ''true'']"

definition reconcile_catalog :: "'s SettingsAPI \<Rightarrow> string \<Rightarrow> BlueprintCatalogSource \<Rightarrow> ('s, unit) act" where
  "reconcile_catalog x ns cat =
     (if bc_Name cat = BlueprintCatalogDefault then
        throw (Err SOther (''catalog name '' @ go_quoted (bc_Name cat) @ '' is reserved for the default catalog''))
      else if git_RepoURL (bc_Source cat) = '''' then
        throw (Err SOther (''catalog '' @ go_quoted (bc_Name cat) @ '' has no repoURL configured''))
      else (\<lambda>w.
        case applyGitRepo x (catalogGitRepoName (bc_Name cat)) (bc_Source cat) ns (catalog_paths cat) catalog_labels w of
          (Inl e, w1) \<Rightarrow> (Inl (wrap_err (''apply catalog '' @ go_quoted (bc_Name cat)) e), w1)
        | (Inr _, w1) \<Rightarrow> (Inr (), w1)))"

text \<open>Every catalog is tried; the errors are collected and joined.\<close>

fun try_each :: "'b list \<Rightarrow> ('b \<Rightarrow> ('s, unit) act) \<Rightarrow> 's \<Rightarrow> err list \<times> 's" where
  "try_each [] f w = ([], w)"
| "try_each (b # bs) f w =
     (case f b w of
        (Inl e, w1) \<Rightarrow> (case try_each bs f w1 of (es, w2) \<Rightarrow> (e # es, w2))
      | (Inr _, w1) \<Rightarrow> try_each bs f w1)"

definition reconcileBlueprintCatalogs :: "'s SettingsAPI \<Rightarrow> Settings \<Rightarrow> 's \<Rightarrow> err list \<times> 's" where
  "reconcileBlueprintCatalogs x s w =
     (let cats = set_BlueprintCatalogs (se_Spec s);
          keep = catalogGitRepoName ` bc_Name ` set cats
      in case try_each cats (reconcile_catalog x (se_Namespace s)) w of
           (errs, w1) \<Rightarrow>
             (case pruneCatalogRepos x keep w1 of
                (Inl e, w2) \<Rightarrow> (errs @ [e], w2)
              | (Inr _, w2) \<Rightarrow> (errs, w2)))"

section \<open>Credentials of a registry\<close>

definition readRegistryCABundle :: "'s SettingsAPI \<Rightarrow> string \<Rightarrow> SecretKeyRef option \<Rightarrow> ('s, string) act" where
  "readRegistryCABundle x ns ca =
     (case ca of
        None \<Rightarrow> ret ''''
      | Some r \<Rightarrow> (\<lambda>w.
          let what = ns @ ''/'' @ ref_Name r
          in case readSecretKey (sx_Client x) ns r w of
               (Inl e, w1) \<Rightarrow> (Inl (wrap_err (''read registry CA secret '' @ what) e), w1)
             | (Inr pem, w1) \<Rightarrow>
                 if pem = '''' then
                   (Inl (Err SOther (''registry CA secret '' @ what @ '' has empty or missing key '' @ go_quoted (ref_Key r))), w1)
                 else if \<not> sx_PEM x pem then
                   (Inl (Err SOther (''registry CA secret '' @ what @ '' key '' @ go_quoted (ref_Key r)
                      @ '' does not contain a valid PEM certificate'')), w1)
                 else (Inr pem, w1)))"

definition registryAuthChanged :: "'s Client \<Rightarrow> string \<Rightarrow> string \<Rightarrow> string \<Rightarrow> string \<Rightarrow> 's \<Rightarrow> bool \<times> 's" where
  "registryAuthChanged c secretName user token ca w =
     (case GetSecret c cattleSystem secretName w of
        (Inl e, w1) \<Rightarrow> (err_is e = SNotFound, w1)
      | (Inr existing, w1) \<Rightarrow>
          (mget (sec_Data existing) ''username'' \<noteq> user \<or> mget (sec_Data existing) ''password'' \<noteq> token
             \<or> mget (sec_Data existing) ''cacerts'' \<noteq> ca, w1))"

definition removeRegistryCABundle :: "'s SettingsAPI \<Rightarrow> string \<Rightarrow> string \<Rightarrow> ('s, unit) act" where
  "removeRegistryCABundle x ns name w =
     (case GetSecret (sx_Client x) ns name w of
        (Inl e, w1) \<Rightarrow> (Inl (wrap_err (''get auth secret '' @ ns @ ''/'' @ name @ '' before removing stale CA'') e), w1)
      | (Inr existing, w1) \<Rightarrow>
          if sec_Data existing ''cacerts'' = None then (Inr (), w1)
          else (case sx_RemoveCACerts x ns name w1 of
                  (Inl e, w2) \<Rightarrow> (Inl (wrap_err (''remove stale CA from auth secret '' @ ns @ ''/'' @ name) e), w2)
                | (Inr _, w2) \<Rightarrow> (Inr (), w2)))"

definition auth_secret :: "string \<Rightarrow> string \<Rightarrow> string \<Rightarrow> Secret" where
  "auth_secret user token ca =
     \<lparr>sec_Type = SecretTypeBasicAuth,
      sec_Data = (let data = [''username'' \<mapsto> user, ''password'' \<mapsto> token]
                  in if ca = '''' then data else data(''cacerts'' \<mapsto> ca))\<rparr>"

definition mirror_auth :: "'s SettingsAPI \<Rightarrow> string \<Rightarrow> string \<Rightarrow> string \<Rightarrow> string \<Rightarrow> string \<Rightarrow> ('s, unit) act" where
  "mirror_auth x secretName user token ca ns w =
     (case PatchSecret (sx_Client x) ns secretName (auth_secret user token ca) w of
        (Inl e, w1) \<Rightarrow>
          if ns \<noteq> cattleSystem \<and> err_is e = SNotFound then (Inr (), w1)
          else (Inl (wrap_err (''apply auth secret '' @ ns @ ''/'' @ secretName) e), w1)
      | (Inr _, w1) \<Rightarrow> if ca = '''' then removeRegistryCABundle x ns secretName w1 else (Inr (), w1))"

text \<open>The name of the mirror, empty when there are no credentials, and whether they changed.\<close>

definition applyRegistryAuthSecret ::
  "'s SettingsAPI \<Rightarrow> string \<Rightarrow> string \<Rightarrow> SecretKeyRef option \<Rightarrow> SecretKeyRef option \<Rightarrow> SecretKeyRef option \<Rightarrow> ('s, string \<times> bool) act" where
  "applyRegistryAuthSecret x ns secretName userRef tokenRef caRef w =
     (case ReadPair (sx_Client x) ns userRef tokenRef w of
        (Inl e, w1) \<Rightarrow> (Inl (wrap_err ''read registry credentials'' e), w1)
      | (Inr None, w1) \<Rightarrow> (Inr ('''', False), w1)
      | (Inr (Some (user, token)), w1) \<Rightarrow>
          (case readRegistryCABundle x ns caRef w1 of
             (Inl e, w2) \<Rightarrow> (Inl e, w2)
           | (Inr ca, w2) \<Rightarrow>
               (case registryAuthChanged (sx_Client x) secretName user token ca w2 of
                  (changed, w3) \<Rightarrow>
                    (case for_each authSecretNamespaces (mirror_auth x secretName user token ca) w3 of
                       (Inl e, w4) \<Rightarrow> (Inl e, w4)
                     | (Inr _, w4) \<Rightarrow> (Inr (secretName, changed), w4)))))"

text \<open>All namespaces are tried; the first error is returned.\<close>

definition deleteAuthSecret :: "'s SettingsAPI \<Rightarrow> string \<Rightarrow> ('s, unit) act" where
  "deleteAuthSecret x name w =
     (case try_each authSecretNamespaces (\<lambda>ns. delete_ignoring_absent (sx_DeleteSecret x ns name)) w of
        (errs, w1) \<Rightarrow> (case errs of [] \<Rightarrow> (Inr (), w1) | e # _ \<Rightarrow> (Inl e, w1)))"

section \<open>ClusterRepos\<close>

text \<open>\<open>time.RFC3339Nano\<close>: the fraction of a second without its trailing zeros.\<close>

definition format_nano :: "nat \<Rightarrow> string" where
  "format_nano now =
     (let frac = trim_right CHR ''0'' (pad_num 9 (now mod second))
      in butlast (format_rfc3339 (now div second)) @ (if frac = '''' then '''' else ''.'' @ frac) @ ''Z'')"

definition forceUpdateClusterRepo :: "'s SettingsAPI \<Rightarrow> nat \<Rightarrow> string \<Rightarrow> ('s, unit) act" where
  "forceUpdateClusterRepo x now name w =
     (case sx_ForceUpdate x name (format_nano now) w of
        (Inl e, w1) \<Rightarrow> (Inl (wrap_err (''force-update ClusterRepo '' @ name) e), w1)
      | (Inr _, w1) \<Rightarrow> (Inr (), w1))"

definition managedRepoSpec :: "string \<Rightarrow> string \<Rightarrow> smap \<Rightarrow> ManagedRepo" where
  "managedRepoSpec repoURL clientSecretName labels =
     \<lparr>mr_URL = repoURL, mr_GitRepo = '''', mr_GitBranch = '''', mr_InsecureSkipTLSVerify = False, mr_ServiceAccount = '''',
      mr_ServiceAccountNamespace = '''',
      mr_ClientSecret = (if clientSecretName = '''' then None else Some (clientSecretName, cattleSystem)), mr_Labels = labels,
      mr_Foreign = None\<rparr>"

definition managed_labels :: smap where "managed_labels = [ManagedRepoLabel \<mapsto> ''true'']"
definition team_labels :: smap where "team_labels = [TeamRepoLabel \<mapsto> ''true'', ManagedRepoLabel \<mapsto> ''true'']"

definition applyClusterRepo :: "'s SettingsAPI \<Rightarrow> string \<Rightarrow> string \<Rightarrow> string \<Rightarrow> ('s, unit) act" where
  "applyClusterRepo x name url clientSecretName = sx_ApplyRepo x name (managedRepoSpec url clientSecretName managed_labels)"

definition deleteClusterRepo :: "'s SettingsAPI \<Rightarrow> string \<Rightarrow> ('s, unit) act" where
  "deleteClusterRepo x name = delete_ignoring_absent (sx_DeleteRepo x name)"

definition applyMarkedTeamClusterRepo :: "'s SettingsAPI \<Rightarrow> string \<Rightarrow> string \<Rightarrow> string \<Rightarrow> ('s, unit) act" where
  "applyMarkedTeamClusterRepo x name repoURL clientSecretName =
     sx_ApplyRepo x name (managedRepoSpec repoURL clientSecretName team_labels)"

definition applyTeamClusterRepo :: "'s SettingsAPI \<Rightarrow> string \<Rightarrow> string \<Rightarrow> string \<Rightarrow> ('s, unit) act" where
  "applyTeamClusterRepo x name ngcURL clientSecretName =
     (if clientSecretName \<noteq> '''' \<and> \<not> IsNGCURL ngcURL
      then throw (Err SOther (''refusing to attach clientSecret to non-NGC URL '' @ go_quoted ngcURL))
      else applyMarkedTeamClusterRepo x name ngcURL clientSecretName)"

definition applyMirroredTeamClusterRepo :: "'s SettingsAPI \<Rightarrow> string \<Rightarrow> string \<Rightarrow> string \<Rightarrow> ('s, unit) act" where
  "applyMirroredTeamClusterRepo x name mirrorURL clientSecretName = applyMarkedTeamClusterRepo x name mirrorURL clientSecretName"

definition pruneRegistryRepos :: "'s SettingsAPI \<Rightarrow> string \<Rightarrow> string list \<Rightarrow> ('s, unit) act" where
  "pruneRegistryRepos x authSecretName repoNames =
     bnd (for_each repoNames (deleteClusterRepo x)) (\<lambda>_. deleteAuthSecret x authSecretName)"

definition pruneTeamRepos :: "'s SettingsAPI \<Rightarrow> string set \<Rightarrow> ('s, unit) act" where
  "pruneTeamRepos x keep w =
     (case sx_ListTeamRepos x w of
        (Inl e, w1) \<Rightarrow> (Inl (wrap_err ''list team ClusterRepos'' e), w1)
      | (Inr names, w1) \<Rightarrow> for_each names (\<lambda>name. if name \<in> keep then ret () else deleteClusterRepo x name) w1)"

definition reconcileRegistryRepo ::
  "'s SettingsAPI \<Rightarrow> nat \<Rightarrow> string \<Rightarrow> SecretKeyRef option \<times> SecretKeyRef option \<Rightarrow> SecretKeyRef option \<Rightarrow> string \<Rightarrow> string
    \<Rightarrow> string list \<Rightarrow> ('s, unit) act" where
  "reconcileRegistryRepo x now ns refs caRef authSecretName url repoNames =
     bnd (if fst refs \<noteq> None \<and> snd refs \<noteq> None
          then applyRegistryAuthSecret x ns authSecretName (fst refs) (snd refs) caRef else ret ('''', False))
       (\<lambda>(secretName, changed).
          if secretName = '''' then pruneRegistryRepos x authSecretName repoNames
          else for_each repoNames (\<lambda>name.
                 bnd (applyClusterRepo x name url secretName)
                   (\<lambda>_. if changed then forceUpdateClusterRepo x now name else ret ())))"

section \<open>NVIDIA\<close>

definition fixedNvidiaRepos :: "string list" where "fixedNvidiaRepos = [ClusterRepoNvidia, ClusterRepoNvidiaBlueprint]"

definition tear_nvidia_down :: "'s SettingsAPI \<Rightarrow> ('s, unit) act" where
  "tear_nvidia_down x = bnd (pruneTeamRepos x {}) (\<lambda>_. pruneRegistryRepos x AuthSecretNvidia fixedNvidiaRepos)"

definition mirror_nvidia :: "'s SettingsAPI \<Rightarrow> nat \<Rightarrow> string \<Rightarrow> string list \<Rightarrow> string \<Rightarrow> bool \<Rightarrow> ('s, unit) act" where
  "mirror_nvidia x now url teams secretName changed =
     bnd (for_each fixedNvidiaRepos (\<lambda>name. applyClusterRepo x name url secretName)) (\<lambda>_.
     bnd (for_each teams (\<lambda>name. applyMirroredTeamClusterRepo x name url secretName)) (\<lambda>_.
     bnd (pruneTeamRepos x (set teams)) (\<lambda>_.
       if changed then for_each (fixedNvidiaRepos @ teams) (forceUpdateClusterRepo x now) else ret ())))"

text \<open>The public and then the gated repositories; what a name is made of may be an error.\<close>

definition apply_team :: "'s SettingsAPI \<Rightarrow> nat \<Rightarrow> string \<Rightarrow> bool \<Rightarrow> string \<Rightarrow> ('s, unit) act" where
  "apply_team x now secretName changed u =
     (case teamClusterRepoName u of
        Inl e \<Rightarrow> throw e
      | Inr name \<Rightarrow> bnd (applyTeamClusterRepo x name u secretName)
                      (\<lambda>_. if changed then forceUpdateClusterRepo x now name else ret ()))"

definition team_keep :: "string list \<Rightarrow> string set" where
  "team_keep us = set (concat (map (\<lambda>u. case teamClusterRepoName u of Inl e \<Rightarrow> [] | Inr name \<Rightarrow> [name]) us))"

definition reconcileNGCTeamRepos ::
  "'s SettingsAPI \<Rightarrow> nat \<Rightarrow> Item list \<Rightarrow> string \<Rightarrow> SecretKeyRef option \<times> SecretKeyRef option \<Rightarrow> SecretKeyRef option \<Rightarrow> ('s, unit) act" where
  "reconcileNGCTeamRepos x now bundled ns refs caRef =
     (let teams = classifyNGCTeamRepos bundled in
      bnd (if ntr_Gated teams \<noteq> [] then applyRegistryAuthSecret x ns AuthSecretNvidia (fst refs) (snd refs) caRef
           else ret ('''', False))
        (\<lambda>(secretName, changed).
      bnd (if secretName = '''' then deleteAuthSecret x AuthSecretNvidia else ret ()) (\<lambda>_.
      bnd (for_each (ntr_Public teams) (apply_team x now '''' False)) (\<lambda>_.
      bnd (if secretName \<noteq> '''' then for_each (ntr_Gated teams) (apply_team x now secretName changed) else ret ()) (\<lambda>_.
        pruneTeamRepos x (team_keep (ntr_Public teams) \<union> (if secretName \<noteq> '''' then team_keep (ntr_Gated teams) else {})))))))"

definition nvidia_endpoint :: "SettingsSpec \<Rightarrow> string" where
  "nvidia_endpoint spec = (case RegistryEndpoints spec of None \<Rightarrow> '''' | Some ep \<Rightarrow> ep_Nvidia ep)"

definition nvidia_mirror_mode ::
  "'s SettingsAPI \<Rightarrow> nat \<Rightarrow> Item list \<Rightarrow> Settings \<Rightarrow> string \<Rightarrow> SecretKeyRef option \<times> SecretKeyRef option \<Rightarrow> ('s, unit) act" where
  "nvidia_mirror_mode x now bundled s url refs =
     (case catalogNvidiaTeamRepoNames bundled of
        Inl e \<Rightarrow> throw e
      | Inr teams \<Rightarrow>
          if fst refs \<noteq> None \<and> snd refs \<noteq> None then
            bnd (applyRegistryAuthSecret x (se_Namespace s) AuthSecretNvidia (fst refs) (snd refs) (CABundleSecretRef (set_Nvidia (se_Spec s))))
              (\<lambda>(secretName, changed).
                 if secretName = '''' then tear_nvidia_down x else mirror_nvidia x now url teams secretName changed)
          else bnd (deleteAuthSecret x AuthSecretNvidia) (\<lambda>_. mirror_nvidia x now url teams '''' False))"

definition nvidia_connected_mode ::
  "'s SettingsAPI \<Rightarrow> nat \<Rightarrow> Item list \<Rightarrow> Settings \<Rightarrow> SecretKeyRef option \<times> SecretKeyRef option \<Rightarrow> ('s, unit) act" where
  "nvidia_connected_mode x now bundled s refs =
     (if fst refs = None \<or> snd refs = None then tear_nvidia_down x
      else bnd (applyClusterRepo x ClusterRepoNvidia DefaultNvidiaChartsURL '''') (\<lambda>_.
           bnd (applyClusterRepo x ClusterRepoNvidiaBlueprint DefaultNvidiaBlueprintURL '''') (\<lambda>_.
             reconcileNGCTeamRepos x now bundled (se_Namespace s) refs (CABundleSecretRef (set_Nvidia (se_Spec s))))))"

definition section_refs :: "'s SettingsAPI \<Rightarrow> Settings \<Rightarrow> Registry \<Rightarrow> RegistrySettings \<Rightarrow> 's \<Rightarrow>
    (SecretKeyRef option \<times> SecretKeyRef option) \<times> 's" where
  "section_refs x s registry sec = EffectiveRefs (sx_Client x) (se_Namespace s) (UserSecretRef sec) (TokenSecretRef sec) registry"

definition reconcileNvidiaRepos :: "'s SettingsAPI \<Rightarrow> nat \<Rightarrow> Item list \<Rightarrow> Settings \<Rightarrow> ('s, unit) act" where
  "reconcileNvidiaRepos x now bundled s w =
     (case section_refs x s RegistryNvidia (set_Nvidia (se_Spec s)) w of
        (refs, w1) \<Rightarrow>
          (let url = nvidia_endpoint (se_Spec s)
           in if url \<noteq> '''' then nvidia_mirror_mode x now bundled s url refs w1
              else nvidia_connected_mode x now bundled s refs w1))"

section \<open>All registries\<close>

definition endpoint_or :: "(RegistryEndpointsSettings \<Rightarrow> string) \<Rightarrow> string \<Rightarrow> SettingsSpec \<Rightarrow> string" where
  "endpoint_or f fallback spec =
     (case RegistryEndpoints spec of None \<Rightarrow> fallback | Some ep \<Rightarrow> if f ep = '''' then fallback else f ep)"

definition reconcile_section ::
  "'s SettingsAPI \<Rightarrow> nat \<Rightarrow> Settings \<Rightarrow> Registry \<Rightarrow> RegistrySettings \<Rightarrow> string \<Rightarrow> string \<Rightarrow> string \<Rightarrow> ('s, unit) act" where
  "reconcile_section x now s registry sec authSecretName url repo w =
     (case section_refs x s registry sec w of
        (refs, w1) \<Rightarrow> reconcileRegistryRepo x now (se_Namespace s) refs (CABundleSecretRef sec) authSecretName url [repo] w1)"

definition reconcileClusterRepos :: "'s SettingsAPI \<Rightarrow> nat \<Rightarrow> Item list \<Rightarrow> Settings \<Rightarrow> ('s, unit) act" where
  "reconcileClusterRepos x now bundled s =
     bnd (reconcile_section x now s RegistryApplicationCollection (set_ApplicationCollection (se_Spec s)) AuthSecretApplicationCollection
            (endpoint_or ep_ApplicationCollection DefaultApplicationCollectionURL (se_Spec s)) ClusterRepoApplicationCollection) (\<lambda>_.
     bnd (reconcile_section x now s RegistrySUSERegistry (set_SUSERegistry (se_Spec s)) AuthSecretSUSERegistry
            (endpoint_or ep_SUSERegistry DefaultSUSERegistryURL (se_Spec s)) ClusterRepoSUSERegistry) (\<lambda>_.
     bnd (applyClusterRepo x ClusterRepoOpenshell (endpoint_or ep_OpenShell DefaultOpenshellURL (se_Spec s)) '''') (\<lambda>_.
     bnd (applyClusterRepo x ClusterRepoOpenshellWorkspace (endpoint_or ep_OpenShell DefaultOpenshellWorkspaceURL (se_Spec s)) '''') (\<lambda>_.
       reconcileNvidiaRepos x now bundled s))))"

section \<open>The client of Rancher's catalog\<close>

definition DefaultBaseURL :: string where "DefaultBaseURL = ''https://rancher.cattle-system.svc''"

definition NewCatalogClient :: "(string \<Rightarrow> bool) \<Rightarrow> string \<Rightarrow> string \<Rightarrow> string \<Rightarrow> bool \<Rightarrow> err + CatalogClient" where
  "NewCatalogClient pem baseURL token caPEM insecure =
     (if \<not> insecure \<and> caPEM \<noteq> '''' \<and> \<not> pem caPEM then Inl (Err SOther ''parse Rancher CA PEM: no certificates found'')
      else Inr \<lparr>cc_BaseURL = trim_suffix baseURL ''/'', cc_Token = token, cc_InsecureSkipVerify = insecure,
                cc_RootCAs = (if \<not> insecure \<and> caPEM \<noteq> '''' then Some caPEM else None)\<rparr>)"

definition DiscoverInternalCA :: "'s Client \<Rightarrow> ('s, string) act" where
  "DiscoverInternalCA c w =
     (let name = ''tls-rancher-internal-ca''; key = ''tls.crt''; what = cattleSystem @ ''/'' @ name
      in case GetSecret c cattleSystem name w of
           (Inl e, w1) \<Rightarrow>
             if err_is e = SNotFound then (Inl (Err SCANotFound (''rancher internal CA secret not found: '' @ what)), w1)
             else (Inl (wrap_err (''read '' @ what) e), w1)
         | (Inr sec, w1) \<Rightarrow>
             if mget (sec_Data sec) key = ''''
             then (Inl (Err SCANotFound (''rancher internal CA secret not found: '' @ what @ '' has no '' @ key)), w1)
             else (Inr (mget (sec_Data sec) key), w1))"

definition resolveCABundle :: "'s SettingsAPI \<Rightarrow> Settings \<Rightarrow> 's \<Rightarrow> (string \<times> string) \<times> 's" where
  "resolveCABundle x s w =
     (case rc_CABundleSecretRef (set_RancherCatalog (se_Spec s)) of
        Some r \<Rightarrow>
          (case readSecretKey (sx_Client x) (se_Namespace s) r w of
             (Inl e, w1) \<Rightarrow> (('''', ''settings-error''), w1)
           | (Inr ca, w1) \<Rightarrow> if ca = '''' then (('''', ''settings-error''), w1) else ((ca, ''settings''), w1))
      | None \<Rightarrow>
          (case DiscoverInternalCA (sx_Client x) w of
             (Inl e, w1) \<Rightarrow> (('''', ''system''), w1)
           | (Inr ca, w1) \<Rightarrow> ((ca, ''discovered''), w1)))"

definition reconcileRancherCatalogClient :: "'s SettingsAPI \<Rightarrow> Settings \<Rightarrow> 's \<Rightarrow> 's" where
  "reconcileRancherCatalogClient x s w =
     (case sx_SetHolder x of
        None \<Rightarrow> w
      | Some put \<Rightarrow>
          (let rc = set_RancherCatalog (se_Spec s)
           in case rc_TokenSecretRef rc of
                None \<Rightarrow> put None w
              | Some r \<Rightarrow>
                  (case readSecretKey (sx_Client x) (se_Namespace s) r w of
                     (Inl e, w1) \<Rightarrow> put None w1
                   | (Inr token, w1) \<Rightarrow>
                       if token = '''' then put None w1
                       else (case resolveCABundle x s w1 of
                               ((ca, src), w2) \<Rightarrow>
                                 (case NewCatalogClient (sx_PEM x) (if rc_URL rc = '''' then DefaultBaseURL else rc_URL rc) token ca
                                         (rc_InsecureSkipVerify rc) of
                                    Inl e \<Rightarrow> put None w2
                                  | Inr client \<Rightarrow> put (Some client) w2)))))"

section \<open>The reconciler\<close>

definition updateStatus :: "'s SettingsAPI \<Rightarrow> nat \<Rightarrow> string \<Rightarrow> string \<Rightarrow> ('s, unit) act" where
  "updateStatus x now ns name =
     sx_RetryOnConflict x (bnd (sx_GetSettings x ns name) (\<lambda>s.
       sx_UpdateStatus x (s\<lparr>se_LastApplied := Some now, se_ObservedGeneration := se_Generation s\<rparr>)))"

definition settings_Reconcile :: "'s SettingsAPI \<Rightarrow> nat \<Rightarrow> Item list \<Rightarrow> string \<Rightarrow> string \<Rightarrow> ('s, unit) act" where
  "settings_Reconcile x now bundled ns name w =
     (case sx_GetSettings x ns name w of
        (Inl e, w1) \<Rightarrow> if err_is e = SNotFound then (Inr (), w1) else (Inl e, w1)
      | (Inr s0, w1) \<Rightarrow>
          bnd (ensureWellKnownSecretRefs x s0) (\<lambda>s.
          bnd (reconcileFleetGitRepo x s) (\<lambda>_.
          bnd (\<lambda>w2. (Inr (), snd (reconcileBlueprintCatalogs x s w2))) (\<lambda>_.
          bnd (reconcileClusterRepos x now bundled s) (\<lambda>_.
          bnd (\<lambda>w2. (Inr (), reconcileRancherCatalogClient x s w2)) (\<lambda>_.
            updateStatus x now ns name))))) w1)"

section \<open>What wakes it\<close>

definition allSettingsRequests :: "'s SettingsAPI \<Rightarrow> 's \<Rightarrow> (string \<times> string) list \<times> 's" where
  "allSettingsRequests x w =
     (case sx_ListSettings x w of
        (Inl e, w1) \<Rightarrow> ([], w1)
      | (Inr ss, w1) \<Rightarrow> (map (\<lambda>s. (se_Namespace s, se_Name s)) ss, w1))"

definition enqueueForGitRepo :: "'s SettingsAPI \<Rightarrow> string \<Rightarrow> string \<Rightarrow> smap \<Rightarrow> 's \<Rightarrow> (string \<times> string) list \<times> 's" where
  "enqueueForGitRepo x ns name labels w =
     (if ns \<noteq> fleetGitRepoNamespace then ([], w)
      else if name \<noteq> fleetGitRepoName \<and> mget labels CatalogRepoLabel \<noteq> ''true'' then ([], w)
      else allSettingsRequests x w)"

definition settings_refs :: "SettingsSpec \<Rightarrow> SecretKeyRef option list" where
  "settings_refs spec =
     [git_CredSecretRef (set_Fleet spec), git_CABundleSecretRef (set_Fleet spec),
      UserSecretRef (set_ApplicationCollection spec), TokenSecretRef (set_ApplicationCollection spec),
      CABundleSecretRef (set_ApplicationCollection spec),
      UserSecretRef (set_SUSERegistry spec), TokenSecretRef (set_SUSERegistry spec), CABundleSecretRef (set_SUSERegistry spec),
      UserSecretRef (set_Nvidia spec), TokenSecretRef (set_Nvidia spec), CABundleSecretRef (set_Nvidia spec),
      rc_TokenSecretRef (set_RancherCatalog spec), rc_CABundleSecretRef (set_RancherCatalog spec)]
     @ concat (map (\<lambda>cat. [git_CredSecretRef (bc_Source cat), git_CABundleSecretRef (bc_Source cat)]) (set_BlueprintCatalogs spec))"

definition isReferencedSettingsSecret :: "'s SettingsAPI \<Rightarrow> string \<Rightarrow> string \<Rightarrow> 's \<Rightarrow> bool \<times> 's" where
  "isReferencedSettingsSecret x opns name w =
     (case sx_GetSettings x opns SettingsName w of
        (Inl e, w1) \<Rightarrow> (False, w1)
      | (Inr s, w1) \<Rightarrow> (list_ex (\<lambda>r. case r of None \<Rightarrow> False | Some ref' \<Rightarrow> ref_Name ref' = name) (settings_refs (se_Spec s)), w1))"

definition enqueueSettingsForSecret :: "'s SettingsAPI \<Rightarrow> string \<Rightarrow> string \<Rightarrow> string \<Rightarrow> 's \<Rightarrow> (string \<times> string) list \<times> 's" where
  "enqueueSettingsForSecret x opns ns name w =
     (if ns \<noteq> opns then ([], w)
      else if IsWellKnownSecret name then ([(opns, SettingsName)], w)
      else (case isReferencedSettingsSecret x opns name w of
              (b, w1) \<Rightarrow> (if b then [(opns, SettingsName)] else [], w1)))"

end
