(* ===== verification/SettingsPass.thy ===== *)
theory SettingsPass
  imports Settings
begin

text \<open>
  What the settings controller guarantees: to which addresses the credentials of a registry are given, which ClusterRepos
  a pass leaves behind, that one catalog does not disturb another, and what a pass that fails may leave undone for good.
\<close>

section \<open>Server-side apply\<close>

text \<open>
  What a server makes of an applied ClusterRepo. The fields that the operator sends are forced, and those it sent before and no longer sends are
  removed; but a client secret that another manager owns survives an apply that names none, and where the operator names one the
  other manager keeps only the parts that agree. The client secret that Rancher uses is the operator's, or else the foreign one.
\<close>

fun co_owned :: "string \<times> string \<Rightarrow> string \<times> string \<Rightarrow> (string \<times> string) option" where
  "co_owned (n, ns) (n', ns') =
     (if n = n' \<or> ns = ns' then Some (if n = n' then n' else '''', if ns = ns' then ns' else '''') else None)"

definition foreign_after :: "ManagedRepo \<Rightarrow> ManagedRepo option \<Rightarrow> (string \<times> string) option" where
  "foreign_after r old =
     (case mr_ClientSecret r of
        None \<Rightarrow> Option.bind old mr_Foreign
      | Some c \<Rightarrow> Option.bind (Option.bind old mr_Foreign) (co_owned c))"

definition applied_onto :: "ManagedRepo option \<Rightarrow> ManagedRepo \<Rightarrow> ManagedRepo" where
  "applied_onto old r = r\<lparr>mr_Foreign := foreign_after r old\<rparr>"

definition live_secret :: "ManagedRepo \<Rightarrow> (string \<times> string) option" where
  "live_secret r = (case mr_ClientSecret r of None \<Rightarrow> mr_Foreign r | Some c \<Rightarrow> Some c)"

text \<open>Parts of a client secret that were there before.\<close>

fun part_of :: "(string \<times> string) option \<Rightarrow> (string \<times> string) option \<Rightarrow> bool" where
  "part_of None old = True"
| "part_of (Some c) None = False"
| "part_of (Some (n, ns)) (Some (n', ns')) = (n \<in> {'''', n'} \<and> ns \<in> {'''', ns'})"

lemma part_of_refl [simp]: "part_of a a"
  by (cases a) auto

lemma part_of_trans: "part_of a b \<Longrightarrow> part_of b c \<Longrightarrow> part_of a c"
  by (cases a; cases b; cases c) auto

lemma co_owned_part: "part_of (Option.bind f (co_owned c)) f"
  by (cases f; cases c) auto

lemma foreign_after_part: "part_of (foreign_after r old) (Option.bind old mr_Foreign)"
  using co_owned_part [of "Option.bind old mr_Foreign"] by (cases "mr_ClientSecret r") (simp_all add: foreign_after_def)

lemma applied_onto_simps [simp]:
  "mr_URL (applied_onto old r) = mr_URL r" "mr_ClientSecret (applied_onto old r) = mr_ClientSecret r"
  "mr_Labels (applied_onto old r) = mr_Labels r" "mr_Foreign (applied_onto old r) = foreign_after r old"
  by (simp_all add: applied_onto_def)

section \<open>To whom credentials are given\<close>

text \<open>
  A ClusterRepo that the operator may have written: nothing of another source, of weaker TLS or of a service account, and
  the credentials of a registry only at the address of that registry, or on the public NGC host over HTTPS.
\<close>

definition may_authenticate :: "SettingsSpec \<Rightarrow> string \<Rightarrow> string \<Rightarrow> bool" where
  "may_authenticate spec secretName url \<longleftrightarrow>
     secretName = AuthSecretApplicationCollection \<and> url = endpoint_or ep_ApplicationCollection DefaultApplicationCollectionURL spec
     \<or> secretName = AuthSecretSUSERegistry \<and> url = endpoint_or ep_SUSERegistry DefaultSUSERegistryURL spec
     \<or> secretName = AuthSecretNvidia \<and> (if nvidia_endpoint spec = '''' then IsNGCURL url else url = nvidia_endpoint spec)"

definition operator_repo :: "SettingsSpec \<Rightarrow> ManagedRepo \<Rightarrow> bool" where
  "operator_repo spec r \<longleftrightarrow>
     mr_GitRepo r = '''' \<and> mr_GitBranch r = '''' \<and> \<not> mr_InsecureSkipTLSVerify r \<and> mr_ServiceAccount r = ''''
     \<and> mr_ServiceAccountNamespace r = '''' \<and> mr_Labels r ManagedRepoLabel = Some ''true''
     \<and> (case mr_ClientSecret r of
          None \<Rightarrow> True
        | Some (secretName, ns) \<Rightarrow> ns = cattleSystem \<and> may_authenticate spec secretName (mr_URL r))"

type_synonym repo_map = "string \<Rightarrow> ManagedRepo option"

definition confined :: "SettingsSpec \<Rightarrow> repo_map \<Rightarrow> repo_map \<Rightarrow> bool" where
  "confined spec old new \<longleftrightarrow>
     (\<forall>n. new n = old n \<or> (case new n of None \<Rightarrow> True | Some r \<Rightarrow> operator_repo spec r \<and> part_of (mr_Foreign r) (Option.bind (old n) mr_Foreign)))"

lemma confinedD:
  "confined spec old new \<Longrightarrow> new n = Some r \<Longrightarrow> old n \<noteq> Some r \<Longrightarrow> operator_repo spec r \<and> part_of (mr_Foreign r) (Option.bind (old n) mr_Foreign)"
  unfolding confined_def by (drule spec [of _ n]) simp

lemma confined_refl [simp]: "confined spec m m"
  by (simp add: confined_def)

lemma confined_trans: "confined spec a b \<Longrightarrow> confined spec b d \<Longrightarrow> confined spec a d"
proof -
  assume 1: "confined spec a b" and 2: "confined spec b d"
  have "d n = a n \<or> (case d n of None \<Rightarrow> True | Some r \<Rightarrow> operator_repo spec r \<and> part_of (mr_Foreign r) (Option.bind (a n) mr_Foreign))" for n
  proof (cases "b n = a n")
    case True
    then show ?thesis using 2 unfolding confined_def by metis
  next
    case False
    then have b: "case b n of None \<Rightarrow> True | Some r \<Rightarrow> operator_repo spec r \<and> part_of (mr_Foreign r) (Option.bind (a n) mr_Foreign)"
      using 1 unfolding confined_def by metis
    then have p: "part_of (Option.bind (b n) mr_Foreign) (Option.bind (a n) mr_Foreign)" by (cases "b n") simp_all
    show ?thesis
    proof (cases "d n = b n")
      case True
      then show ?thesis using b by simp
    next
      case False
      then have "case d n of None \<Rightarrow> True | Some r \<Rightarrow> operator_repo spec r \<and> part_of (mr_Foreign r) (Option.bind (b n) mr_Foreign)"
        using 2 unfolding confined_def by metis
      then show ?thesis using part_of_trans [OF _ p] by (cases "d n") auto
    qed
  qed
  then show "confined spec a d" by (simp add: confined_def)
qed

lemma confined_endpoints: "RegistryEndpoints a = RegistryEndpoints b \<Longrightarrow> confined a = confined b"
  unfolding confined_def operator_repo_def may_authenticate_def endpoint_or_def nvidia_endpoint_def fun_eq_iff by presburger

lemma operator_repo_spec:
  assumes "labels ManagedRepoLabel = Some ''true''" "secretName \<noteq> '''' \<longrightarrow> may_authenticate spec secretName url"
  shows "operator_repo spec (managedRepoSpec url secretName labels)"
  using assms by (simp add: operator_repo_def managedRepoSpec_def)

lemma label_simps [simp]:
  "managed_labels ManagedRepoLabel = Some ''true''" "team_labels ManagedRepoLabel = Some ''true''"
  "mget managed_labels TeamRepoLabel = ''''" "mget team_labels TeamRepoLabel = ''true''"
  by (simp_all add: managed_labels_def team_labels_def ManagedRepoLabel_def TeamRepoLabel_def mget_def)

text \<open>The calls that ClusterRepos depend on.\<close>

locale repo_store =
  fixes x :: "'s SettingsAPI" and repos :: "'s \<Rightarrow> repo_map"
  assumes reads: "leaves repos (GetSecret (sx_Client x) ns n)" "leaves repos (sx_ListTeamRepos x)"
    and writes: "leaves repos (UpdateSecret (sx_Client x) ns n sec)" "leaves repos (PatchSecret (sx_Client x) ns n sec)"
      "leaves repos (sx_DeleteSecret x ns n)" "leaves repos (sx_RemoveCACerts x ns n)"
      "leaves repos (sx_ForceUpdate x n t)"
    and git_calls: "leaves repos (sx_GetGitRepo x n)" "leaves repos (sx_ApplyGitRepo x n g)" "leaves repos (sx_DeleteGitRepo x n)"
      "leaves repos (sx_ListCatalogRepos x)"
    and own_calls: "leaves repos (sx_GetSettings x ns n)" "leaves repos (sx_PatchSettings x old new)" "leaves repos (sx_UpdateStatus x se)"
      "leaves repos m \<Longrightarrow> leaves repos (sx_RetryOnConflict x m)" "sx_SetHolder x = Some put \<Longrightarrow> repos (put cl s) = repos s"
    and patched: "sx_PatchSettings x old new s = (Inr new', s') \<Longrightarrow> se_Spec new' = se_Spec new"
    and apply_repo: "sx_ApplyRepo x n r s = (u, s') \<Longrightarrow> repos s' = (repos s)(n \<mapsto> applied_onto (repos s n) r) \<or> isl u \<and> repos s' = repos s"
    and delete_repo: "sx_DeleteRepo x n s = (u, s') \<Longrightarrow> repos s' = (repos s)(n := None)
      \<or> isl u \<and> repos s' = repos s \<and> (\<forall>e. u = Inl e \<longrightarrow> err_is e = SNotFound \<longrightarrow> repos s n = None)"
    and list_team: "sx_ListTeamRepos x s = (Inr names, s') \<Longrightarrow>
      set names = {n. \<exists>r. repos s n = Some r \<and> mget (mr_Labels r) TeamRepoLabel = ''true''}"
begin

definition safe :: "SettingsSpec \<Rightarrow> ('s, 'a) act \<Rightarrow> bool" where
  "safe spec m \<longleftrightarrow> (\<forall>s. confined spec (repos s) (repos (snd (m s))))"

lemma safeD: "safe spec m \<Longrightarrow> m s = (r, s') \<Longrightarrow> confined spec (repos s) (repos s')"
  unfolding safe_def by (metis snd_conv)

lemma safe_leaves: "leaves repos m \<Longrightarrow> safe spec m"
  by (simp add: safe_def leaves_def)

lemma safe_ret: "safe spec (ret a)" "safe spec (throw e)"
  by (simp_all add: safe_def ret_def throw_def)

lemma safe_bnd: "safe spec m \<Longrightarrow> (\<And>a. safe spec (f a)) \<Longrightarrow> safe spec (bnd m f)"
  unfolding safe_def bnd_def by (auto split: prod.split sum.split) (metis snd_conv confined_trans)+

lemma safe_for_each: "(\<And>b. b \<in> set bs \<Longrightarrow> safe spec (f b)) \<Longrightarrow> safe spec (for_each bs f)"
  unfolding safe_def
proof
  fix s assume "\<And>b. b \<in> set bs \<Longrightarrow> \<forall>s. confined spec (repos s) (repos (snd (f b s)))"
  then show "confined spec (repos s) (repos (snd (for_each bs f s)))"
    using for_each_inv [of "\<lambda>t. confined spec (repos s) (repos t)" s bs f] confined_trans by fastforce
qed

lemma safe_apply: "operator_repo spec r \<Longrightarrow> safe spec (sx_ApplyRepo x n r)"
  unfolding safe_def
proof
  fix s assume o: "operator_repo spec r"
  obtain u s1 where a: "sx_ApplyRepo x n r s = (u, s1)" by (cases "sx_ApplyRepo x n r s")
  have "operator_repo spec (applied_onto (repos s n) r)"
    using o by (simp add: operator_repo_def applied_onto_def cong: option.case_cong)
  then have "confined spec (repos s) ((repos s)(n \<mapsto> applied_onto (repos s n) r))"
    by (simp add: confined_def foreign_after_part)
  then show "confined spec (repos s) (repos (snd (sx_ApplyRepo x n r s)))" using apply_repo [OF a] a by auto
qed

lemma safe_delete: "safe spec (deleteClusterRepo x n)"
  unfolding safe_def
proof
  fix s
  obtain u s1 where d: "sx_DeleteRepo x n s = (u, s1)" by (cases "sx_DeleteRepo x n s")
  then have "repos s1 = (repos s)(n := None) \<or> repos s1 = repos s" using delete_repo by blast
  then show "confined spec (repos s) (repos (snd (deleteClusterRepo x n s)))"
    using d by (auto simp: deleteClusterRepo_def delete_ignoring_absent_def confined_def split: sum.split)
qed

lemma safe_prune: "safe spec (pruneTeamRepos x keep)"
  unfolding safe_def
proof
  fix s
  obtain u s1 where l: "sx_ListTeamRepos x s = (u, s1)" by (cases "sx_ListTeamRepos x s")
  then have r: "repos s1 = repos s" using leavesD [OF reads(2)] by blast
  show "confined spec (repos s) (repos (snd (pruneTeamRepos x keep s)))"
  proof (cases u)
    case (Inr names)
    have "safe spec (for_each names (\<lambda>name. if name \<in> keep then ret () else deleteClusterRepo x name))"
      by (rule safe_for_each) (simp add: safe_ret safe_delete)
    then have "confined spec (repos s1) (repos (snd (for_each names (\<lambda>name. if name \<in> keep then ret () else deleteClusterRepo x name) s1)))"
      by (simp add: safe_def)
    then show ?thesis using l r Inr by (simp add: pruneTeamRepos_def)
  qed (use l r in \<open>simp add: pruneTeamRepos_def\<close>)
qed

text \<open>Reading and mirroring credentials leave the ClusterRepos alone.\<close>

lemma leaves_cases: "leaves repos m \<Longrightarrow> repos (snd (m s)) = repos s"
  by (simp add: leaves_def)

lemma leaves_ReadPair: "leaves repos (ReadPair (sx_Client x) ns u t)"
  using reads(1) unfolding leaves_def ReadPair_def by (auto split: option.split prod.split sum.split) (metis snd_conv)+

lemma leaves_readKey: "leaves repos (readSecretKey (sx_Client x) ns r)"
  using reads(1) unfolding leaves_def readSecretKey_def by (auto split: prod.split sum.split) (metis snd_conv)+

lemma leaves_ca: "leaves repos (readRegistryCABundle x ns ca)"
  using leaves_readKey unfolding leaves_def readRegistryCABundle_def
  by (auto simp: ret_def Let_def split: option.split prod.split sum.split) (metis snd_conv)+

lemma leaves_changed: "repos (snd (registryAuthChanged (sx_Client x) n u t ca s)) = repos s"
  using leaves_cases [OF reads(1), of cattleSystem n s] by (auto simp: registryAuthChanged_def split: prod.split sum.split)

lemma leaves_mirror: "leaves repos (mirror_auth x n u t ca ns)"
proof -
  have "leaves repos (removeRegistryCABundle x ns n)"
    using reads(1) writes(4) unfolding leaves_def removeRegistryCABundle_def by (auto split: prod.split sum.split) (metis snd_conv)+
  then show ?thesis
    using writes(2) unfolding leaves_def mirror_auth_def by (auto split: prod.split sum.split) (metis snd_conv)+
qed

lemma leaves_auth: "leaves repos (applyRegistryAuthSecret x ns n u t ca)"
  unfolding leaves_def
proof
  fix s
  have m: "repos (snd (for_each authSecretNamespaces (mirror_auth x n a b ca') s1)) = repos s1" for a b ca' s1
    by (rule leaves_cases) (rule leaves_for_each, rule leaves_mirror)
  obtain r1 s1 where 1: "ReadPair (sx_Client x) ns u t s = (r1, s1)" by (cases "ReadPair (sx_Client x) ns u t s")
  have l1: "repos s1 = repos s" using leavesD [OF leaves_ReadPair 1] .
  show "repos (snd (applyRegistryAuthSecret x ns n u t ca s)) = repos s"
  proof (cases r1)
    case (Inr p)
    show ?thesis
    proof (cases p)
      case (Some ut)
      obtain a b where ab: "ut = (a, b)" by (cases ut)
      obtain r2 s2 where 2: "readRegistryCABundle x ns ca s1 = (r2, s2)" by (cases "readRegistryCABundle x ns ca s1")
      have l2: "repos s2 = repos s1" using leavesD [OF leaves_ca 2] .
      show ?thesis
      proof (cases r2)
        case r2: (Inr pem)
        obtain ch s3 where 3: "registryAuthChanged (sx_Client x) n a b pem s2 = (ch, s3)" by (cases "registryAuthChanged (sx_Client x) n a b pem s2")
        have l3: "repos s3 = repos s2" using leaves_changed [of n a b pem s2] 3 by simp
        show ?thesis using m [of a b pem s3] l1 l2 l3 1 2 3 Inr Some ab r2
          by (cases "for_each authSecretNamespaces (mirror_auth x n a b pem) s3") (auto simp: applyRegistryAuthSecret_def split: sum.split)
      qed (use 1 2 l1 l2 Inr Some ab in \<open>simp add: applyRegistryAuthSecret_def\<close>)
    qed (use 1 l1 Inr in \<open>simp add: applyRegistryAuthSecret_def\<close>)
  qed (use 1 l1 in \<open>simp add: applyRegistryAuthSecret_def\<close>)
qed

lemma auth_name: "applyRegistryAuthSecret x ns n u t ca s = (Inr (secretName, changed), s') \<Longrightarrow> secretName = '''' \<or> secretName = n"
  by (auto simp: applyRegistryAuthSecret_def split: prod.splits sum.splits option.splits)

lemma leaves_ignoring: "leaves repos m \<Longrightarrow> leaves repos (delete_ignoring_absent m)"
  unfolding leaves_def delete_ignoring_absent_def by (auto split: prod.split sum.split) (metis snd_conv)+

lemma leaves_try: "(\<And>b s. repos (snd (f b s)) = repos s) \<Longrightarrow> repos (snd (try_each bs f s)) = repos s"
proof (induction bs arbitrary: s)
  case (Cons b bs)
  then show ?case by (auto split: prod.split sum.split) (metis snd_conv)+
qed simp

lemma leaves_deleteAuth: "leaves repos (deleteAuthSecret x n)"
proof -
  have "repos (snd (try_each authSecretNamespaces (\<lambda>ns. delete_ignoring_absent (sx_DeleteSecret x ns n)) s)) = repos s" for s
    by (rule leaves_try) (rule leaves_cases [OF leaves_ignoring [OF writes(3)]])
  then show ?thesis unfolding leaves_def deleteAuthSecret_def by (auto split: prod.split list.split) (metis snd_conv)+
qed

lemma leaves_force: "leaves repos (forceUpdateClusterRepo x now n)"
  using writes(5) unfolding leaves_def forceUpdateClusterRepo_def by (auto split: prod.split sum.split) (metis snd_conv)+

lemma leaves_discover: "repos (snd (discover_in (sx_Client x) ns registry names s)) = repos s"
proof (induction names arbitrary: s)
  case (Cons n names)
  obtain r s1 where g: "GetSecret (sx_Client x) ns n s = (r, s1)" by (cases "GetSecret (sx_Client x) ns n s")
  have l: "repos s1 = repos s" using leavesD [OF reads(1) g] .
  show ?case
  proof (cases r)
    case (Inl e)
    then show ?thesis using g l Cons.IH [of s1] by simp
  next
    case (Inr sec)
    define m where "m = (if registry = RegistryNvidia then normalizeNvidiaSecret (sx_Client x) ns n sec s1 else (Inr sec, s1))"
    have "repos (snd m) = repos s1"
      using leaves_cases [OF writes(1)] by (simp add: m_def normalizeNvidiaSecret_def ret_def)
    then show ?thesis using g l Inr Cons.IH [of "snd m"]
      by (cases m) (auto simp: m_def [symmetric] split: sum.split option.split)
  qed
qed simp

lemma leaves_refs: "repos (snd (section_refs x s registry sec w)) = repos w"
proof -
  have d: "repos (snd (discovered_or (sx_Client x) ns eu et registry w)) = repos w" for ns eu et w
    using leaves_discover [of ns registry "WellKnownSecretNames registry" w]
    by (auto simp: discovered_or_def discoverRefs_def split: prod.split option.split)
  show ?thesis
    using leaves_cases [OF leaves_ReadPair, of "se_Namespace s" "UserSecretRef sec" "TokenSecretRef sec" w] d
    by (auto simp: section_refs_def EffectiveRefs_def split: prod.split sum.split option.split)
qed

text \<open>The registries.\<close>

lemma safe_bnd_if:
  assumes "safe spec m" "\<And>a s s'. m s = (Inr a, s') \<Longrightarrow> safe spec (f a)"
  shows "safe spec (bnd m f)"
  unfolding safe_def
proof
  fix s
  obtain r s1 where m: "m s = (r, s1)" by (cases "m s")
  have 1: "confined spec (repos s) (repos s1)" using safeD [OF assms(1) m] .
  show "confined spec (repos s) (repos (snd (bnd m f s)))"
  proof (cases r)
    case (Inr a)
    then have "safe spec (f a)" using assms(2) m by blast
    then have "confined spec (repos s1) (repos (snd (f a s1)))" by (simp add: safe_def)
    then show ?thesis using confined_trans [OF 1] m Inr by (simp add: bnd_def)
  qed (use 1 m in \<open>simp add: bnd_def\<close>)
qed

lemma safe_deleteAuth: "safe spec (deleteAuthSecret x n)"
  by (rule safe_leaves [OF leaves_deleteAuth])

lemma safe_pruneRegistry: "safe spec (pruneRegistryRepos x n names)"
  unfolding pruneRegistryRepos_def by (rule safe_bnd [OF safe_for_each [OF safe_delete] safe_deleteAuth])

lemma safe_applyClusterRepo:
  "secretName \<noteq> '''' \<longrightarrow> may_authenticate spec secretName url \<Longrightarrow> safe spec (applyClusterRepo x n url secretName)"
  unfolding applyClusterRepo_def by (rule safe_apply [OF operator_repo_spec]) simp_all

lemma safe_applyMarked:
  "secretName \<noteq> '''' \<longrightarrow> may_authenticate spec secretName url \<Longrightarrow> safe spec (applyMarkedTeamClusterRepo x n url secretName)"
  unfolding applyMarkedTeamClusterRepo_def by (rule safe_apply [OF operator_repo_spec]) simp_all

lemma safe_force: "safe spec (if b then forceUpdateClusterRepo x now n else ret ())"
  by (simp add: safe_leaves [OF leaves_force] safe_ret)

lemma registry_auth_name:
  assumes "(if b then applyRegistryAuthSecret x ns n u t ca else ret ('''', False)) s = (Inr a, s')"
  shows "fst a = '''' \<or> fst a = n"
  using assms auth_name [of ns n u t ca s "fst a" "snd a"] by (auto simp: ret_def split: if_splits)

lemma safe_registry_auth: "safe spec (if b then applyRegistryAuthSecret x ns n u t ca else ret ('''', False))"
  by (simp add: safe_leaves [OF leaves_auth] safe_ret)

lemma safe_registry:
  assumes "may_authenticate spec n url"
  shows "safe spec (reconcileRegistryRepo x now ns refs ca n url names)"
  unfolding reconcileRegistryRepo_def
proof (rule safe_bnd_if [OF safe_registry_auth])
  fix a :: "string \<times> bool" and s s'
  assume "(if fst refs \<noteq> None \<and> snd refs \<noteq> None then applyRegistryAuthSecret x ns n (fst refs) (snd refs) ca else ret ('''', False)) s = (Inr a, s')"
  then have "fst a = '''' \<or> fst a = n" by (rule registry_auth_name)
  moreover have "safe spec (for_each names (\<lambda>name. bnd (applyClusterRepo x name url n) (\<lambda>_. if snd a then forceUpdateClusterRepo x now name else ret ())))"
    by (intro safe_for_each safe_bnd safe_force safe_applyClusterRepo) (simp add: assms)
  ultimately show "safe spec ((\<lambda>(secretName, changed). if secretName = '''' then pruneRegistryRepos x n names
      else for_each names (\<lambda>name. bnd (applyClusterRepo x name url secretName) (\<lambda>_. if changed then forceUpdateClusterRepo x now name else ret ()))) a)"
    using safe_pruneRegistry by (cases a) auto
qed

lemma safe_section:
  "may_authenticate spec n url \<Longrightarrow> safe spec (reconcile_section x now s registry sec n url repo)"
  using safe_registry leaves_refs [of s registry sec] unfolding safe_def reconcile_section_def
  by (auto split: prod.split) (metis snd_conv)+

text \<open>NVIDIA.\<close>

lemma safe_tear_down: "safe spec (tear_nvidia_down x)"
  unfolding tear_nvidia_down_def by (rule safe_bnd [OF safe_prune safe_pruneRegistry])

lemma safe_mirror:
  assumes "secretName \<noteq> '''' \<longrightarrow> may_authenticate spec secretName url"
  shows "safe spec (mirror_nvidia x now url teams secretName changed)"
proof -
  have "safe spec (if changed then for_each (fixedNvidiaRepos @ teams) (forceUpdateClusterRepo x now) else ret ())"
    by (simp add: safe_for_each [OF safe_leaves [OF leaves_force]] safe_ret)
  then show ?thesis
    unfolding mirror_nvidia_def applyMirroredTeamClusterRepo_def
    using assms by (intro safe_bnd safe_for_each safe_applyClusterRepo safe_applyMarked safe_prune)
qed

lemma safe_team:
  assumes "secretName = '''' \<or> secretName = AuthSecretNvidia" "nvidia_endpoint spec = ''''"
  shows "safe spec (apply_team x now secretName changed u)"
proof (cases "teamClusterRepoName u")
  case (Inr name)
  have "safe spec (applyTeamClusterRepo x name u secretName)"
    using assms by (auto simp: applyTeamClusterRepo_def may_authenticate_def intro!: safe_ret safe_applyMarked)
  then show ?thesis using Inr by (simp add: apply_team_def safe_bnd safe_force)
qed (simp add: apply_team_def safe_ret)

lemma safe_teams:
  assumes "nvidia_endpoint spec = ''''"
  shows "safe spec (reconcileNGCTeamRepos x now bundled ns refs ca)"
  unfolding reconcileNGCTeamRepos_def Let_def
proof (rule safe_bnd_if [OF safe_registry_auth])
  fix a :: "string \<times> bool" and s s'
  assume "(if ntr_Gated (classifyNGCTeamRepos bundled) \<noteq> [] then applyRegistryAuthSecret x ns AuthSecretNvidia (fst refs) (snd refs) ca else ret ('''', False)) s = (Inr a, s')"
  then have n: "fst a = '''' \<or> fst a = AuthSecretNvidia" by (rule registry_auth_name)
  have 1: "safe spec (if fst a = '''' then deleteAuthSecret x AuthSecretNvidia else ret ())"
    by (simp add: safe_deleteAuth safe_ret)
  have 2: "safe spec (if fst a \<noteq> '''' then for_each us (apply_team x now (fst a) (snd a)) else ret ())" for us
    by (simp add: safe_for_each [OF safe_team [OF n assms]] safe_ret)
  have 3: "safe spec (bnd (if fst a = '''' then deleteAuthSecret x AuthSecretNvidia else ret ()) (\<lambda>_.
      bnd (for_each us (apply_team x now '''' False)) (\<lambda>_.
      bnd (if fst a \<noteq> '''' then for_each vs (apply_team x now (fst a) (snd a)) else ret ()) (\<lambda>_. pruneTeamRepos x keep))))" for us vs keep
    by (rule safe_bnd [OF 1 safe_bnd [OF safe_for_each [OF safe_team [OF disjI1 [OF refl] assms]] safe_bnd [OF 2 safe_prune]]])
  show "safe spec ((\<lambda>(secretName, changed).
      bnd (if secretName = '''' then deleteAuthSecret x AuthSecretNvidia else ret ()) (\<lambda>_.
      bnd (for_each (ntr_Public (classifyNGCTeamRepos bundled)) (apply_team x now '''' False)) (\<lambda>_.
      bnd (if secretName \<noteq> '''' then for_each (ntr_Gated (classifyNGCTeamRepos bundled)) (apply_team x now secretName changed) else ret ()) (\<lambda>_.
        pruneTeamRepos x (team_keep (ntr_Public (classifyNGCTeamRepos bundled))
          \<union> (if secretName \<noteq> '''' then team_keep (ntr_Gated (classifyNGCTeamRepos bundled)) else {})))))) a)"
    unfolding case_prod_beta by (rule 3)
qed

lemma safe_mirror_mode:
  assumes "nvidia_endpoint spec = url" "url \<noteq> ''''"
  shows "safe spec (nvidia_mirror_mode x now bundled s url refs)"
proof (cases "catalogNvidiaTeamRepoNames bundled")
  case (Inr teams)
  have m: "secretName = '''' \<or> secretName = AuthSecretNvidia \<Longrightarrow> safe spec (mirror_nvidia x now url teams secretName ch)" for secretName ch
    by (rule safe_mirror) (use assms in \<open>auto simp: may_authenticate_def\<close>)
  have "safe spec (bnd (applyRegistryAuthSecret x ns AuthSecretNvidia u t ca)
      (\<lambda>(secretName, changed). if secretName = '''' then tear_nvidia_down x else mirror_nvidia x now url teams secretName changed))" for ns u t ca
  proof (rule safe_bnd_if [OF safe_leaves [OF leaves_auth]])
    fix a :: "string \<times> bool" and s s'
    assume "applyRegistryAuthSecret x ns AuthSecretNvidia u t ca s = (Inr a, s')"
    then have "fst a = '''' \<or> fst a = AuthSecretNvidia" using auth_name [of ns AuthSecretNvidia u t ca s "fst a" "snd a" s'] by simp
    then have "safe spec (mirror_nvidia x now url teams (fst a) (snd a))" by (rule m)
    then show "safe spec ((\<lambda>(secretName, changed). if secretName = '''' then tear_nvidia_down x else mirror_nvidia x now url teams secretName changed) a)"
      by (cases a) (simp add: safe_tear_down)
  qed
  moreover have "safe spec (bnd (deleteAuthSecret x AuthSecretNvidia) (\<lambda>_. mirror_nvidia x now url teams '''' False))"
    by (intro safe_bnd safe_deleteAuth m) simp
  ultimately show ?thesis using Inr by (simp add: nvidia_mirror_mode_def)
qed (simp add: nvidia_mirror_mode_def safe_ret)

lemma safe_connected_mode:
  assumes "nvidia_endpoint spec = ''''"
  shows "safe spec (nvidia_connected_mode x now bundled s refs)"
  using assms by (auto simp: nvidia_connected_mode_def intro!: safe_tear_down safe_bnd safe_applyClusterRepo safe_teams)

lemma safe_nvidia: "safe (se_Spec s) (reconcileNvidiaRepos x now bundled s)"
  unfolding safe_def
proof
  fix w
  obtain refs w1 where r: "section_refs x s RegistryNvidia (set_Nvidia (se_Spec s)) w = (refs, w1)"
    by (cases "section_refs x s RegistryNvidia (set_Nvidia (se_Spec s)) w")
  have l: "repos w1 = repos w" using leaves_refs [of s RegistryNvidia "set_Nvidia (se_Spec s)" w] r by simp
  have "safe (se_Spec s) (if nvidia_endpoint (se_Spec s) \<noteq> '''' then nvidia_mirror_mode x now bundled s (nvidia_endpoint (se_Spec s)) refs
      else nvidia_connected_mode x now bundled s refs)" (is "safe _ ?m")
    using safe_mirror_mode safe_connected_mode by simp
  then have "confined (se_Spec s) (repos w1) (repos (snd (?m w1)))" by (simp only: safe_def)
  moreover note l
  ultimately show "confined (se_Spec s) (repos w) (repos (snd (reconcileNvidiaRepos x now bundled s w)))"
    using r by (simp add: reconcileNvidiaRepos_def Let_def split: if_splits)
qed

lemma safe_ClusterRepos: "safe (se_Spec s) (reconcileClusterRepos x now bundled s)"
  unfolding reconcileClusterRepos_def
  by (intro safe_bnd safe_section safe_applyClusterRepo safe_nvidia) (simp_all add: may_authenticate_def)

text \<open>The rest of a pass.\<close>

lemma leaves_replace: "leaves repos (replace_wrong_type x n)"
  using reads(1) writes(3) unfolding leaves_def replace_wrong_type_def by (auto split: prod.split sum.split) (metis snd_conv)+

lemma leaves_mirrorGit: "leaves repos (mirrorGitCredSecretRef x n src r ns)"
proof -
  have "leaves repos (bnd (replace_wrong_type x n) (\<lambda>_. PatchSecret (sx_Client x) fleetGitRepoNamespace n sec))" for sec
    by (rule leaves_bnd [OF leaves_replace writes(2)])
  then show ?thesis
    using reads(1) unfolding leaves_def mirrorGitCredSecretRef_def by (auto split: prod.split sum.split option.split) (metis snd_conv)+
qed

lemma leaves_return: "leaves repos (ret a)" "leaves repos (throw e)"
  by (simp_all add: leaves_def ret_def throw_def)

lemma leaves_applyGit: "leaves repos (applyGitRepo x n src ns paths labels)"
proof -
  have "leaves repos (git_credential x n src ns)"
    using leaves_mirrorGit unfolding leaves_def git_credential_def by (auto simp: ret_def split: prod.split sum.split option.split) (metis snd_conv)+
  moreover have "leaves repos (git_trust x src ns)"
  proof (cases "git_CABundleSecretRef src")
    case (Some r)
    have "leaves repos (readGitCABundle x ns r)"
      using reads(1) unfolding leaves_def readGitCABundle_def by (auto simp: Let_def split: prod.split sum.split option.split) (metis snd_conv)+
    then show ?thesis using Some by (simp add: git_trust_def leaves_bnd leaves_return)
  qed (simp add: git_trust_def leaves_return)
  ultimately show ?thesis unfolding applyGitRepo_def by (simp add: leaves_return leaves_bnd git_calls(2))
qed

lemma leaves_fleet: "leaves repos (reconcileFleetGitRepo x s)"
  unfolding leaves_def
proof
  fix w
  obtain r w1 where g: "sx_GetGitRepo x fleetGitRepoName w = (r, w1)" by (cases "sx_GetGitRepo x fleetGitRepoName w")
  have "repos w1 = repos w" using leavesD [OF git_calls(1) g] .
  moreover have "repos (snd (applyFleetGitRepo x s w1)) = repos w1" unfolding applyFleetGitRepo_def by (rule leaves_cases [OF leaves_applyGit])
  moreover have "repos (snd (sx_DeleteGitRepo x fleetGitRepoName w1)) = repos w1" by (rule leaves_cases [OF git_calls(3)])
  ultimately show "repos (snd (reconcileFleetGitRepo x s w)) = repos w"
    using g by (simp add: reconcileFleetGitRepo_def Let_def split: sum.split)
qed

lemma leaves_catalog: "leaves repos (reconcile_catalog x ns cat)"
  using leaves_applyGit unfolding leaves_def reconcile_catalog_def by (auto simp: throw_def split: prod.split sum.split) (metis snd_conv)+

lemma leaves_pruneCatalogs: "leaves repos (pruneCatalogRepos x keep)"
proof -
  have "leaves repos (prune_catalog x n)" for n
    using leaves_ignoring [OF git_calls(3)] leaves_ignoring [OF writes(3)]
    unfolding leaves_def prune_catalog_def by (auto split: prod.split sum.split) (metis snd_conv)+
  then have "leaves repos (for_each names (\<lambda>n. if n \<in> keep then ret () else prune_catalog x n))" for names
    by (intro leaves_for_each) (simp add: leaves_return)
  then show ?thesis
    using git_calls(4) unfolding leaves_def pruneCatalogRepos_def by (auto split: prod.split sum.split) (metis snd_conv)+
qed

lemma leaves_catalogs: "repos (snd (reconcileBlueprintCatalogs x s w)) = repos w"
proof -
  have "repos (snd (try_each cats (reconcile_catalog x ns) w)) = repos w" for cats ns w
    by (rule leaves_try) (rule leaves_cases [OF leaves_catalog])
  then show ?thesis
    using leaves_cases [OF leaves_pruneCatalogs] unfolding reconcileBlueprintCatalogs_def
    by (auto simp: Let_def split: prod.split sum.split) (metis snd_conv)+
qed

lemma leaves_client: "repos (reconcileRancherCatalogClient x s w) = repos w"
proof (cases "sx_SetHolder x")
  case (Some put)
  have ca: "repos (snd (resolveCABundle x s w)) = repos w" for w
    using leaves_cases [OF reads(1)] leaves_cases [OF leaves_readKey] unfolding resolveCABundle_def DiscoverInternalCA_def
    by (auto simp: Let_def split: prod.split sum.split option.split) (metis snd_conv)+
  note put = own_calls(5) [OF Some]
  show ?thesis
  proof (cases "rc_TokenSecretRef (set_RancherCatalog (se_Spec s))")
    case (Some r)
    obtain t w1 where t: "readSecretKey (sx_Client x) (se_Namespace s) r w = (t, w1)" by (cases "readSecretKey (sx_Client x) (se_Namespace s) r w")
    have t1: "repos w1 = repos w" using leavesD [OF leaves_readKey t] .
    obtain pem src w2 where c: "resolveCABundle x s w1 = ((pem, src), w2)" by (cases "resolveCABundle x s w1") auto
    have "repos w2 = repos w1" using ca [of w1] c by simp
    then show ?thesis using \<open>sx_SetHolder x = Some put\<close> Some t t1 c put
      by (simp add: reconcileRancherCatalogClient_def Let_def split: sum.split)
  qed (use \<open>sx_SetHolder x = Some put\<close> put in \<open>simp add: reconcileRancherCatalogClient_def Let_def\<close>)
qed (simp add: reconcileRancherCatalogClient_def)

lemma leaves_wire: "repos (snd (WireSpec (sx_Client x) spec ns w)) = repos w"
proof -
  have e: "repos (snd (EffectiveRefs (sx_Client x) ns u t registry w)) = repos w" for u t registry w
    using leaves_refs [of "undefined\<lparr>se_Namespace := ns\<rparr>" registry "undefined\<lparr>UserSecretRef := u, TokenSecretRef := t\<rparr>" w]
    by (simp add: section_refs_def)
  have "repos (snd (wire_section (sx_Client x) ns registry sc w)) = repos w" for registry sc w
    using e [of "UserSecretRef (fst sc)" "TokenSecretRef (fst sc)" registry w]
    by (auto simp: wire_section_def split: prod.split option.split)
  then show ?thesis unfolding WireSpec_def by (auto split: prod.split) (metis snd_conv)+
qed

lemma leaves_ensure: "repos (snd (ensureWellKnownSecretRefs x s w)) = repos w"
  using leaves_wire [of "se_Spec s" "se_Namespace s" w] leaves_cases [OF own_calls(2)]
  by (auto simp: ensureWellKnownSecretRefs_def split: prod.split sum.split) (metis snd_conv)+

lemma ensure_endpoints:
  "ensureWellKnownSecretRefs x s w = (Inr s', w') \<Longrightarrow> RegistryEndpoints (se_Spec s') = RegistryEndpoints (se_Spec s)"
  using patched by (fastforce simp: ensureWellKnownSecretRefs_def WireSpec_def split: prod.splits sum.splits if_splits)

lemma safe_rest:
  "safe (se_Spec s) (bnd (reconcileFleetGitRepo x s) (\<lambda>_.
     bnd (\<lambda>w2. (Inr (), snd (reconcileBlueprintCatalogs x s w2))) (\<lambda>_.
     bnd (reconcileClusterRepos x now bundled s) (\<lambda>_.
     bnd (\<lambda>w2. (Inr (), reconcileRancherCatalogClient x s w2)) (\<lambda>_. updateStatus x now ns name)))))"
proof -
  have 1: "leaves repos (\<lambda>w2. (Inr (), snd (reconcileBlueprintCatalogs x s w2)))"
    by (simp add: leaves_def leaves_catalogs)
  have 2: "leaves repos (\<lambda>w2. (Inr (), reconcileRancherCatalogClient x s w2))"
    by (simp add: leaves_def leaves_client)
  have 3: "leaves repos (updateStatus x now ns name)"
    unfolding updateStatus_def by (intro own_calls(4) leaves_bnd own_calls(1,3))
  show ?thesis
    by (intro safe_bnd safe_ClusterRepos safe_leaves [OF leaves_fleet] safe_leaves [OF 1] safe_leaves [OF 2] safe_leaves [OF 3])
qed

theorem pass_confined:
  assumes "sx_GetSettings x ns name w = (Inr s, w0)" "settings_Reconcile x now bundled ns name w = (r, w')"
  shows "confined (se_Spec s) (repos w) (repos w')"
proof -
  have g: "repos w0 = repos w" using leavesD [OF own_calls(1) assms(1)] .
  obtain e w1 where e: "ensureWellKnownSecretRefs x s w0 = (e, w1)" by (cases "ensureWellKnownSecretRefs x s w0")
  have l: "repos w1 = repos w" using leaves_ensure [of s w0] e g by simp
  show ?thesis
  proof (cases e)
    case (Inl er)
    then show ?thesis using assms e l by (simp add: settings_Reconcile_def bnd_def)
  next
    case (Inr s1)
    have ep: "RegistryEndpoints (se_Spec s1) = RegistryEndpoints (se_Spec s)" using ensure_endpoints e Inr by blast
    have "confined (se_Spec s1) (repos w1) (repos w')"
      by (rule safeD [OF safe_rest [of s1 now bundled ns name], of w1 r])
        (use assms e Inr in \<open>simp add: settings_Reconcile_def bnd_def [of "ensureWellKnownSecretRefs x s"]\<close>)
    then show ?thesis using confined_endpoints [OF ep] l by simp
  qed
qed

end

end
