(* ===== verification/SettingsWorld.thy ===== *)
theory SettingsWorld
  imports SettingsPass "HOL-Library.AList"
begin

text \<open>
  An in-memory server with the objects of the settings controller: the secrets are those of the cluster of Credentials, and
  every call takes the next entry of its schedule of faults. The laws of \<open>repo_store\<close> hold in it, so the passes over it show
  that the theorems of SettingsPass speak about something.
\<close>

record desk =
  dk_cluster :: cluster
  dk_settings :: "Settings list"
  dk_git :: "(string \<times> GitRepo) list"
  dk_repos :: "(string \<times> ManagedRepo) list"
  dk_forced :: "(string \<times> string) list"
  dk_holder :: "CatalogClient option"

definition dk_map :: "desk \<Rightarrow> repo_map" where "dk_map s = map_of (dk_repos s)"

definition lift_cluster :: "(cluster, 'a) act \<Rightarrow> (desk, 'a) act" where
  "lift_cluster m s = (case m (dk_cluster s) of (r, c) \<Rightarrow> (r, s\<lparr>dk_cluster := c\<rparr>))"

definition desk_call :: "(desk \<Rightarrow> (err + 'a) \<times> desk) \<Rightarrow> (desk, 'a) act" where
  "desk_call f s =
     (let s0 = s\<lparr>dk_cluster := (dk_cluster s)\<lparr>cl_faults := tl (cl_faults (dk_cluster s))\<rparr>\<rparr>
      in case cl_faults (dk_cluster s) of
           Some (True, e) # _ \<Rightarrow> (Inl (Err SOther e), snd (f s0))
         | Some (False, e) # _ \<Rightarrow> (Inl (Err SOther e), s0)
         | _ \<Rightarrow> f s0)"

definition desk_client :: "desk Client" where
  "desk_client = \<lparr>
     GetSecret = (\<lambda>ns n. lift_cluster (GetSecret cluster_client ns n)),
     UpdateSecret = (\<lambda>ns n sec. lift_cluster (UpdateSecret cluster_client ns n sec)),
     PatchSecret = (\<lambda>ns n sec. lift_cluster (PatchSecret cluster_client ns n sec)),
     PatchNamespace = (\<lambda>ns. lift_cluster (PatchNamespace cluster_client ns)),
     GetSettings = lift_cluster (GetSettings cluster_client)\<rparr>"

definition is_settings :: "string \<Rightarrow> string \<Rightarrow> Settings \<Rightarrow> bool" where
  "is_settings ns n s \<longleftrightarrow> se_Namespace s = ns \<and> se_Name s = n"

definition put_settings :: "Settings \<Rightarrow> desk \<Rightarrow> (err + Settings) \<times> desk" where
  "put_settings new s =
     (if list_ex (is_settings (se_Namespace new) (se_Name new)) (dk_settings s)
      then (Inr new, s\<lparr>dk_settings := map (\<lambda>old. if is_settings (se_Namespace new) (se_Name new) old then new else old) (dk_settings s)\<rparr>)
      else (Inl not_found, s))"

definition set_secret :: "string \<Rightarrow> string \<Rightarrow> (Secret \<Rightarrow> Secret option) \<Rightarrow> desk \<Rightarrow> (err + unit) \<times> desk" where
  "set_secret ns n f s =
     (case cl_secrets (dk_cluster s) (ns, n) of
        None \<Rightarrow> (Inl not_found, s)
      | Some sec \<Rightarrow> (Inr (), s\<lparr>dk_cluster := (dk_cluster s)\<lparr>cl_secrets := (cl_secrets (dk_cluster s))((ns, n) := f sec)\<rparr>\<rparr>))"

definition drop_key :: "string \<Rightarrow> (string \<times> 'b) list \<Rightarrow> ((string \<times> 'b) list \<Rightarrow> desk \<Rightarrow> desk) \<Rightarrow> desk \<Rightarrow> (err + unit) \<times> desk" where
  "drop_key n xs put s = (if map_of xs n = None then (Inl not_found, s) else (Inr (), put (AList.delete n xs) s))"

definition labelled :: "('b \<Rightarrow> smap) \<Rightarrow> string \<Rightarrow> (string \<times> 'b) list \<Rightarrow> string list" where
  "labelled lab key xs =
     filter (\<lambda>n. case map_of xs n of None \<Rightarrow> False | Some b \<Rightarrow> mget (lab b) key = ''true'') (remdups (map fst xs))"

definition desk_api :: "desk SettingsAPI" where
  "desk_api = \<lparr>
     sx_Client = desk_client,
     sx_GetSettings = (\<lambda>ns n. desk_call (\<lambda>s. (case find (is_settings ns n) (dk_settings s) of None \<Rightarrow> Inl not_found | Some se \<Rightarrow> Inr se, s))),
     sx_ListSettings = desk_call (\<lambda>s. (Inr (dk_settings s), s)),
     sx_PatchSettings = (\<lambda>old new. desk_call (put_settings new)),
     sx_UpdateStatus = (\<lambda>new. desk_call (\<lambda>s. case put_settings new s of (r, s') \<Rightarrow> (map_sum id (\<lambda>_. ()) r, s'))),
     sx_RetryOnConflict = (\<lambda>m s. case m s of (Inl e, s1) \<Rightarrow> if err_is e = SConflict then m s1 else (Inl e, s1) | (Inr u, s1) \<Rightarrow> (Inr u, s1)),
     sx_GetGitRepo = (\<lambda>n. desk_call (\<lambda>s. (if map_of (dk_git s) n = None then Inl not_found else Inr (), s))),
     sx_ApplyGitRepo = (\<lambda>n g. desk_call (\<lambda>s. (Inr (), s\<lparr>dk_git := AList.update n g (dk_git s)\<rparr>))),
     sx_DeleteGitRepo = (\<lambda>n. desk_call (\<lambda>s. drop_key n (dk_git s) (\<lambda>xs s. s\<lparr>dk_git := xs\<rparr>) s)),
     sx_ListCatalogRepos = desk_call (\<lambda>s. (Inr (labelled gr_Labels CatalogRepoLabel (dk_git s)), s)),
     sx_DeleteSecret = (\<lambda>ns n. desk_call (set_secret ns n (\<lambda>_. None))),
     sx_RemoveCACerts = (\<lambda>ns n. desk_call (set_secret ns n (\<lambda>sec. Some (sec\<lparr>sec_Data := (sec_Data sec)(''cacerts'' := None)\<rparr>)))),
     sx_ApplyRepo = (\<lambda>n r. desk_call (\<lambda>s. (Inr (), s\<lparr>dk_repos := AList.update n (applied_onto (map_of (dk_repos s) n) r) (dk_repos s)\<rparr>))),
     sx_ForceUpdate = (\<lambda>n t. desk_call (\<lambda>s. (Inr (), s\<lparr>dk_forced := (n, t) # dk_forced s\<rparr>))),
     sx_DeleteRepo = (\<lambda>n. desk_call (\<lambda>s. drop_key n (dk_repos s) (\<lambda>xs s. s\<lparr>dk_repos := xs\<rparr>) s)),
     sx_ListTeamRepos = desk_call (\<lambda>s. (Inr (labelled mr_Labels TeamRepoLabel (dk_repos s)), s)),
     sx_PEM = (\<lambda>pem. pem \<noteq> ''''),
     sx_SetHolder = Some (\<lambda>client s. s\<lparr>dk_holder := client\<rparr>)\<rparr>"

lemma desk_call_cases:
  assumes "desk_call f s = (u, s')"
  obtains s0 where "dk_map s0 = dk_map s" "f s0 = (u, s')"
    | s0 e where "dk_map s0 = dk_map s" "u = Inl (Err SOther e)" "s' = snd (f s0) \<or> s' = s0"
proof -
  define s0 where "s0 = s\<lparr>dk_cluster := (dk_cluster s)\<lparr>cl_faults := tl (cl_faults (dk_cluster s))\<rparr>\<rparr>"
  have "dk_map s0 = dk_map s" by (simp add: s0_def dk_map_def)
  moreover have "f s0 = (u, s') \<or> (\<exists>e. u = Inl (Err SOther e) \<and> (s' = snd (f s0) \<or> s' = s0))"
    using assms unfolding desk_call_def Let_def s0_def [symmetric] by (auto split: list.splits option.splits prod.splits bool.splits)
  ultimately show thesis using that by blast
qed

lemma leaves_desk_call:
  assumes "\<And>s. dk_map (snd (f s)) = dk_map s"
  shows "leaves dk_map (desk_call f)"
  unfolding leaves_def
proof
  fix s
  obtain u s' where c: "desk_call f s = (u, s')" by (cases "desk_call f s")
  then have "dk_map s' = dk_map s" by (cases rule: desk_call_cases) (use assms in \<open>metis snd_conv\<close>)+
  then show "dk_map (snd (desk_call f s)) = dk_map s" using c by simp
qed

lemma leaves_lift: "leaves dk_map (lift_cluster m)"
  by (simp add: leaves_def lift_cluster_def dk_map_def split: prod.split)

lemma dk_map_set [simp]:
  "dk_map (s\<lparr>dk_cluster := c\<rparr>) = dk_map s" "dk_map (s\<lparr>dk_settings := t\<rparr>) = dk_map s" "dk_map (s\<lparr>dk_git := g\<rparr>) = dk_map s"
  "dk_map (s\<lparr>dk_forced := f\<rparr>) = dk_map s" "dk_map (s\<lparr>dk_holder := h\<rparr>) = dk_map s"
  "dk_map (s\<lparr>dk_repos := xs\<rparr>) = map_of xs"
  by (simp_all add: dk_map_def)

lemma labelled_set: "set (labelled lab key xs) = {n. \<exists>b. map_of xs n = Some b \<and> mget (lab b) key = ''true''}"
  by (auto simp: labelled_def split: option.splits dest: map_of_SomeD) (metis domI dom_map_of_conv_image_fst)

lemma desk_reads:
  "leaves dk_map (GetSecret (sx_Client desk_api) ns n)" "leaves dk_map (UpdateSecret (sx_Client desk_api) ns n sec)"
  "leaves dk_map (PatchSecret (sx_Client desk_api) ns n sec)" "leaves dk_map (sx_ListTeamRepos desk_api)"
  "leaves dk_map (sx_ForceUpdate desk_api n t)" "leaves dk_map (sx_GetGitRepo desk_api n)" "leaves dk_map (sx_ApplyGitRepo desk_api n g)"
  "leaves dk_map (sx_ListCatalogRepos desk_api)" "leaves dk_map (sx_GetSettings desk_api ns n)"
  by (simp_all add: desk_api_def desk_client_def leaves_lift leaves_desk_call)

lemma desk_deletes:
  "leaves dk_map (sx_DeleteSecret desk_api ns n)" "leaves dk_map (sx_RemoveCACerts desk_api ns n)" "leaves dk_map (sx_DeleteGitRepo desk_api n)"
  by (simp_all add: desk_api_def leaves_desk_call set_secret_def drop_key_def split: option.split)

lemma desk_put: "leaves dk_map (sx_PatchSettings desk_api old new)" "leaves dk_map (sx_UpdateStatus desk_api se)"
  by (simp_all add: desk_api_def leaves_desk_call put_settings_def)

lemma desk_retry: "leaves dk_map m \<Longrightarrow> leaves dk_map (sx_RetryOnConflict desk_api m)"
  unfolding leaves_def by (simp add: desk_api_def split: prod.split sum.split) (metis snd_conv)

lemma desk_patched: "sx_PatchSettings desk_api old new s = (Inr new', s') \<Longrightarrow> se_Spec new' = se_Spec new"
  by (simp add: desk_api_def, erule desk_call_cases) (auto simp: put_settings_def split: if_splits)

lemma desk_apply: "sx_ApplyRepo desk_api n r s = (u, s') \<Longrightarrow> dk_map s' = (dk_map s)(n \<mapsto> applied_onto (dk_map s n) r) \<or> isl u \<and> dk_map s' = dk_map s"
  by (simp add: desk_api_def, erule desk_call_cases) (auto simp: dk_map_def update_conv')

lemma desk_delete: "sx_DeleteRepo desk_api n s = (u, s') \<Longrightarrow> dk_map s' = (dk_map s)(n := None)
    \<or> isl u \<and> dk_map s' = dk_map s \<and> (\<forall>e. u = Inl e \<longrightarrow> err_is e = SNotFound \<longrightarrow> dk_map s n = None)"
  by (simp add: desk_api_def, erule desk_call_cases)
    (auto simp: dk_map_def delete_conv' drop_key_def not_found_def split: if_splits)

lemma desk_list: "sx_ListTeamRepos desk_api s = (Inr names, s') \<Longrightarrow>
    set names = {n. \<exists>r. dk_map s n = Some r \<and> mget (mr_Labels r) TeamRepoLabel = ''true''}"
  by (simp add: desk_api_def, erule desk_call_cases) (auto simp: labelled_set dk_map_def)

interpretation desk: repo_store desk_api dk_map
  by unfold_locales (rule desk_reads desk_deletes desk_put
    | erule desk_retry desk_patched desk_apply desk_delete desk_list | clarsimp simp: desk_api_def)+

section \<open>Whom the credentials reach\<close>

lemma live_of_operator:
  assumes "operator_repo spec r" "part_of (mr_Foreign r) old" "live_secret r = Some (secretName, ns)"
  shows "mr_ClientSecret r \<noteq> None \<and> ns = cattleSystem \<and> may_authenticate spec secretName (mr_URL r)
    \<or> mr_ClientSecret r = None \<and> part_of (Some (secretName, ns)) old"
proof (cases "mr_ClientSecret r")
  case None
  then have "mr_Foreign r = Some (secretName, ns)" using assms(3) by (simp add: live_secret_def)
  then show ?thesis using assms(2) None by simp
next
  case (Some c)
  then have "c = (secretName, ns)" using assms(3) by (simp add: live_secret_def)
  then show ?thesis using assms(1) Some by (simp add: operator_repo_def)
qed


text \<open>A registry secret that the user made, its mirror, an endpoint for the SUSE registry, and nothing applied yet.\<close>

definition first_spec :: SettingsSpec where
  "first_spec = (mirrored_settings '''')\<lparr>set_Fleet := example_git\<lparr>git_RepoURL := ''''\<rparr>,
     RegistryEndpoints := Some \<lparr>ep_ApplicationCollection = '''', ep_SUSERegistry = ''oci://mirror.lan/suse'', ep_Nvidia = '''', ep_OpenShell = ''''\<rparr>\<rparr>"

definition first_settings :: Settings where
  "first_settings = \<lparr>se_Namespace = ''op'', se_Name = SettingsName, se_Generation = 1, se_Spec = first_spec,
     se_LastApplied = None, se_ObservedGeneration = 0\<rparr>"

definition user_pass :: "string \<Rightarrow> string \<Rightarrow> Secret" where
  "user_pass typ password = \<lparr>sec_Type = typ, sec_Data = [''username'' \<mapsto> ''u'', ''password'' \<mapsto> password]\<rparr>"

definition desk_with :: "string \<Rightarrow> (bool \<times> string) option list \<Rightarrow> desk" where
  "desk_with mirrored faults = \<lparr>
     dk_cluster = \<lparr>cl_secrets = [(''op'', ''suse-registry'') \<mapsto> user_pass ''Opaque'' ''p'',
                              (cattleSystem, AuthSecretSUSERegistry) \<mapsto> user_pass SecretTypeBasicAuth mirrored],
       cl_namespaces = [''op'', cattleSystem], cl_settings = None, cl_faults = faults\<rparr>,
     dk_settings = [first_settings], dk_git = [], dk_repos = [], dk_forced = [], dk_holder = None\<rparr>"

lemma first_pass: "map (map_prod id (\<lambda>r. (mr_URL r, mr_ClientSecret r))) (dk_repos (snd (settings_Reconcile desk_api 0 [] ''op'' SettingsName (desk_with ''p'' []))))
   = [(ClusterRepoSUSERegistry, ''oci://mirror.lan/suse'', Some (AuthSecretSUSERegistry, cattleSystem)),
      (ClusterRepoOpenshell, DefaultOpenshellURL, None), (ClusterRepoOpenshellWorkspace, DefaultOpenshellWorkspaceURL, None)]"
  by code_simp

lemma first_read: "fst (sx_GetSettings desk_api ''op'' SettingsName (desk_with ''p'' [])) = Inr first_settings"
  by (simp add: desk_api_def desk_call_def desk_with_def is_settings_def first_settings_def)


text \<open>Another manager has put the mirror of the SUSE registry on the anonymous OpenShell repository: it stays there, at the address of OpenShell.\<close>

definition squatted_desk :: desk where
  "squatted_desk = (desk_with ''p'' [])\<lparr>dk_repos := [(ClusterRepoOpenshell, (managedRepoSpec ''https://charts.lan'' '''' Map.empty)
     \<lparr>mr_Foreign := Some (AuthSecretSUSERegistry, cattleSystem)\<rparr>)]\<rparr>"

lemma foreign_secret_adopted:
  "map_option (\<lambda>r. (mr_URL r, live_secret r))
     (dk_map (snd (settings_Reconcile desk_api 0 [] ''op'' SettingsName squatted_desk)) ClusterRepoOpenshell)
   = Some (DefaultOpenshellURL, Some (AuthSecretSUSERegistry, cattleSystem))"
  by code_simp

section \<open>What a failed pass leaves undone for good\<close>

text \<open>The credential was rotated: the mirror holds the old password. The call that applies the ClusterRepo fails once.\<close>

definition rotated_desk :: desk where
  "rotated_desk = desk_with ''old'' (replicate 22 None @ [Some (False, ''timeout'')])"

definition first_try :: "(err + unit) \<times> desk" where
  "first_try = settings_Reconcile desk_api 0 [] ''op'' SettingsName rotated_desk"

definition second_try :: "(err + unit) \<times> desk" where
  "second_try = settings_Reconcile desk_api 0 [] ''op'' SettingsName (snd first_try)"

text \<open>What is looked at after a pass: the password in the mirror, the ClusterRepos and the forced updates.\<close>

fun outlook :: "(err + unit) \<times> desk \<Rightarrow> (err + unit) \<times> string option \<times> string list \<times> (string \<times> string) list" where
  "outlook (r, d) = (r, Option.bind (cl_secrets (dk_cluster d) (cattleSystem, AuthSecretSUSERegistry)) (\<lambda>sec. sec_Data sec ''password''),
     map fst (dk_repos d), dk_forced d)"


end
