(* ===== verification/SettingsRepos.thy ===== *)
theory SettingsRepos
  imports SettingsWorld
begin

text \<open>
  What the ClusterRepos are after a pass of the settings controller that succeeds: those of the registries, of OpenShell and of
  NVIDIA, and exactly the repositories of the catalog's NGC teams.
\<close>

section \<open>What is asked for\<close>

text \<open>A repository that exists only while its registry has credentials.\<close>

definition as_asked :: "repo_map \<Rightarrow> string \<Rightarrow> string \<Rightarrow> string \<Rightarrow> bool" where
  "as_asked m n url secretName \<longleftrightarrow> m n \<in> {None, Some (managedRepoSpec url secretName managed_labels)}"

definition open_repos :: "SettingsSpec \<Rightarrow> repo_map \<Rightarrow> bool" where
  "open_repos spec m \<longleftrightarrow>
     m ClusterRepoOpenshell = Some (managedRepoSpec (endpoint_or ep_OpenShell DefaultOpenshellURL spec) '''' managed_labels)
     \<and> m ClusterRepoOpenshellWorkspace = Some (managedRepoSpec (endpoint_or ep_OpenShell DefaultOpenshellWorkspaceURL spec) '''' managed_labels)"

definition registry_repos :: "SettingsSpec \<Rightarrow> repo_map \<Rightarrow> bool" where
  "registry_repos spec m \<longleftrightarrow>
     as_asked m ClusterRepoApplicationCollection (endpoint_or ep_ApplicationCollection DefaultApplicationCollectionURL spec) AuthSecretApplicationCollection
     \<and> as_asked m ClusterRepoSUSERegistry (endpoint_or ep_SUSERegistry DefaultSUSERegistryURL spec) AuthSecretSUSERegistry"

text \<open>The public repositories of NVIDIA: at the mirror with its secret if there are credentials, or on the NGC host without.\<close>

definition nvidia_repos :: "SettingsSpec \<Rightarrow> repo_map \<Rightarrow> bool" where
  "nvidia_repos spec m \<longleftrightarrow>
     (if nvidia_endpoint spec = '''' then
        as_asked m ClusterRepoNvidia DefaultNvidiaChartsURL '''' \<and> as_asked m ClusterRepoNvidiaBlueprint DefaultNvidiaBlueprintURL ''''
      else \<exists>secretName \<in> {'''', AuthSecretNvidia}.
        as_asked m ClusterRepoNvidia (nvidia_endpoint spec) secretName \<and> as_asked m ClusterRepoNvidiaBlueprint (nvidia_endpoint spec) secretName)"

definition team_urls :: "Item list \<Rightarrow> string set" where
  "team_urls bundled = set (ntr_Public (classifyNGCTeamRepos bundled)) \<union> set (ntr_Gated (classifyNGCTeamRepos bundled))"

definition is_team :: "repo_map \<Rightarrow> string \<Rightarrow> bool" where
  "is_team m n \<longleftrightarrow> (\<exists>r. m n = Some r \<and> mget (mr_Labels r) TeamRepoLabel = ''true'')"

text \<open>A team repository of the catalog: anonymous when it is public, with the credentials when it is gated.\<close>

definition team_repo :: "SettingsSpec \<Rightarrow> Item list \<Rightarrow> repo_map \<Rightarrow> string \<Rightarrow> bool" where
  "team_repo spec bundled m n \<longleftrightarrow>
     (\<exists>u \<in> team_urls bundled. teamClusterRepoName u = Inr n \<and>
       (if nvidia_endpoint spec = '''' then
          m n = Some (managedRepoSpec u '''' team_labels) \<and> u \<in> set (ntr_Public (classifyNGCTeamRepos bundled))
          \<or> m n = Some (managedRepoSpec u AuthSecretNvidia team_labels) \<and> u \<in> set (ntr_Gated (classifyNGCTeamRepos bundled))
        else \<exists>secretName \<in> {'''', AuthSecretNvidia}. m n = Some (managedRepoSpec (nvidia_endpoint spec) secretName team_labels)))"

definition settled :: "SettingsSpec \<Rightarrow> Item list \<Rightarrow> repo_map \<Rightarrow> bool" where
  "settled spec bundled m \<longleftrightarrow> registry_repos spec m \<and> open_repos spec m \<and> nvidia_repos spec m
     \<and> (\<forall>n. is_team m n \<longrightarrow> team_repo spec bundled m n)"

definition other_repos :: "string list" where
  "other_repos = [ClusterRepoApplicationCollection, ClusterRepoSUSERegistry, ClusterRepoOpenshell, ClusterRepoOpenshellWorkspace]"

lemmas repo_names = ClusterRepoApplicationCollection_def ClusterRepoSUSERegistry_def ClusterRepoOpenshell_def
  ClusterRepoOpenshellWorkspace_def ClusterRepoNvidia_def ClusterRepoNvidiaBlueprint_def

text \<open>The part that the NVIDIA step must keep, and what keeps it.\<close>

definition others :: "SettingsSpec \<Rightarrow> bool \<Rightarrow> bool \<Rightarrow> repo_map \<Rightarrow> bool" where
  "others spec ac su m \<longleftrightarrow> registry_repos spec m \<and> open_repos spec m
     \<and> (m ClusterRepoApplicationCollection \<noteq> None \<longleftrightarrow> ac) \<and> (m ClusterRepoSUSERegistry \<noteq> None \<longleftrightarrow> su)"

lemma others_upd: "n \<notin> set other_repos \<Longrightarrow> others spec ac su (m(n := v)) = others spec ac su m"
  by (auto simp: others_def registry_repos_def open_repos_def as_asked_def other_repos_def)

lemma not_team_managed: "m n = Some (managedRepoSpec url sec managed_labels) \<Longrightarrow> \<not> is_team m n"
  by (simp add: is_team_def managedRepoSpec_def)

definition pruned :: "string set \<Rightarrow> repo_map \<Rightarrow> repo_map" where
  "pruned keep m = (\<lambda>n. if n \<notin> keep \<and> is_team m n then None else m n)"

lemma as_asked_pruned: "as_asked m n url sec \<Longrightarrow> as_asked (pruned keep m) n url sec"
  by (auto simp: as_asked_def pruned_def)

lemma pruned_managed: "m n = Some (managedRepoSpec url sec managed_labels) \<Longrightarrow> pruned keep m n = m n"
  using not_team_managed [of m n url sec] by (simp add: pruned_def)

lemma pruned_kept: "n \<in> keep \<Longrightarrow> pruned keep m n = m n"
  by (simp add: pruned_def)

lemma pruned_asked: "as_asked m n url sec \<Longrightarrow> pruned keep m n = m n"
  unfolding as_asked_def using pruned_managed [of m n url sec keep] by (auto simp: pruned_def)

lemma others_pruned: "others spec ac su m \<Longrightarrow> others spec ac su (pruned keep m)"
  by (auto simp: others_def registry_repos_def open_repos_def as_asked_pruned pruned_managed pruned_asked)

lemma is_team_pruned: "is_team (pruned keep m) n \<longleftrightarrow> n \<in> keep \<and> is_team m n"
  by (auto simp: is_team_def pruned_def)

lemma team_repo_pruned: "team_repo spec bundled m n \<Longrightarrow> n \<in> keep \<Longrightarrow> team_repo spec bundled (pruned keep m) n"
  by (simp add: team_repo_def pruned_def)

lemma is_team_upd [simp]:
  "is_team (m(n := None)) k \<longleftrightarrow> k \<noteq> n \<and> is_team m k"
  "is_team (m(n \<mapsto> managedRepoSpec url sec managed_labels)) k \<longleftrightarrow> k \<noteq> n \<and> is_team m k"
  "is_team (m(n \<mapsto> managedRepoSpec url sec team_labels)) k \<longleftrightarrow> k = n \<or> is_team m k"
  by (auto simp: is_team_def managedRepoSpec_def)

lemma team_repo_marked: "team_repo spec bundled m n \<Longrightarrow> is_team m n"
  by (auto simp: team_repo_def is_team_def managedRepoSpec_def split: if_splits)

text \<open>
  The NVIDIA step is decided by what it finds: nothing at all, or the name of the secret to use, which is empty for anonymous access. Then these
  are the team repositories that are due.
\<close>

definition teams_due :: "SettingsSpec \<Rightarrow> Item list \<Rightarrow> string option \<Rightarrow> string set" where
  "teams_due spec bundled nv =
     (case nv of
        None \<Rightarrow> {}
      | Some secretName \<Rightarrow>
          if nvidia_endpoint spec = '''' then
            team_keep (ntr_Public (classifyNGCTeamRepos bundled))
              \<union> (if secretName \<noteq> '''' then team_keep (ntr_Gated (classifyNGCTeamRepos bundled)) else {})
          else (case catalogNvidiaTeamRepoNames bundled of Inl e \<Rightarrow> {} | Inr teams \<Rightarrow> set teams))"

definition nvidia_as_found :: "SettingsSpec \<Rightarrow> Item list \<Rightarrow> string option \<Rightarrow> repo_map \<Rightarrow> bool" where
  "nvidia_as_found spec bundled nv t \<longleftrightarrow>
     (\<forall>n \<in> set fixedNvidiaRepos. t n \<noteq> None \<longleftrightarrow> nv \<noteq> None) \<and> (\<forall>n. is_team t n \<longleftrightarrow> n \<in> teams_due spec bundled nv)
     \<and> (nvidia_endpoint spec \<noteq> '''' \<longrightarrow> (\<forall>n r secretName. (n \<in> set fixedNvidiaRepos \<or> is_team t n) \<and> t n = Some r \<and> nv = Some secretName
          \<longrightarrow> mr_ClientSecret r = (if secretName = '''' then None else Some (secretName, cattleSystem))))"

definition done_nvidia :: "SettingsSpec \<Rightarrow> bool \<Rightarrow> bool \<Rightarrow> Item list \<Rightarrow> string option \<Rightarrow> repo_map \<Rightarrow> bool" where
  "done_nvidia spec ac su bundled nv t \<longleftrightarrow> others spec ac su t \<and> nvidia_repos spec t \<and> (\<forall>n. is_team t n \<longrightarrow> team_repo spec bundled t n)
     \<and> nvidia_as_found spec bundled nv t"

lemma nvidia_names [simp]: "ClusterRepoNvidia \<notin> set other_repos" "ClusterRepoNvidiaBlueprint \<notin> set other_repos"
  "ClusterRepoNvidia \<noteq> ClusterRepoNvidiaBlueprint"
  by (simp_all add: other_repos_def repo_names)

text \<open>The NVIDIA step with both public repositories in place.\<close>

definition with_fixed :: "SettingsSpec \<Rightarrow> bool \<Rightarrow> bool \<Rightarrow> string \<Rightarrow> string \<Rightarrow> string \<Rightarrow> repo_map \<Rightarrow> bool" where
  "with_fixed spec ac su url1 url2 sec t \<longleftrightarrow> others spec ac su t \<and> t ClusterRepoNvidia = Some (managedRepoSpec url1 sec managed_labels)
     \<and> t ClusterRepoNvidiaBlueprint = Some (managedRepoSpec url2 sec managed_labels)"

text \<open>No NGC repository of the catalog is called as one of the other registries.\<close>

definition teams_free :: "Item list \<Rightarrow> bool" where
  "teams_free bundled \<longleftrightarrow> (\<forall>u \<in> team_urls bundled. case teamClusterRepoName u of Inl e \<Rightarrow> True | Inr n \<Rightarrow> n \<notin> set other_repos)"

lemma team_not_fixed: "teamClusterRepoName u = Inr n \<Longrightarrow> n \<noteq> ClusterRepoNvidia \<and> n \<noteq> ClusterRepoNvidiaBlueprint"
  by (auto simp: teamClusterRepoName_def split: sum.splits if_splits)

lemma with_fixed_team:
  assumes "teams_free bundled" "u \<in> team_urls bundled" "teamClusterRepoName u = Inr n"
  shows "with_fixed spec ac su url1 url2 sec (t(n := v)) = with_fixed spec ac su url1 url2 sec t"
proof -
  have "n \<notin> set other_repos" using assms unfolding teams_free_def by (auto split: sum.splits)
  then show ?thesis using team_not_fixed [OF assms(3)] by (auto simp: with_fixed_def others_upd)
qed

lemma with_fixed_pruned: "with_fixed spec ac su url1 url2 sec t \<Longrightarrow> with_fixed spec ac su url1 url2 sec (pruned keep t)"
  by (simp add: with_fixed_def others_pruned pruned_managed)

lemma team_names_sound: "team_names us seen = Inr names \<Longrightarrow> n \<in> set names \<Longrightarrow> \<exists>u \<in> set us. teamClusterRepoName u = Inr n"
proof (induction us arbitrary: seen names)
  case (Cons u us)
  have m: "map_sum id (Cons b) r = Inr ns \<longleftrightarrow> (\<exists>ms. r = Inr ms \<and> ns = b # ms)" for b :: string and r :: "err + string list" and ns
    by (cases r) auto
  show ?case
  proof (cases "teamClusterRepoName u")
    case b: (Inr b)
    show ?thesis using Cons.prems b by (cases "map_of seen b") (auto simp: m split: if_splits dest: Cons.IH)
  qed (use Cons in simp)
qed simp

lemma team_repo_upd: "team_repo spec bundled t n \<Longrightarrow> team_repo spec bundled (t(n' \<mapsto> v)) n' \<Longrightarrow> team_repo spec bundled (t(n' \<mapsto> v)) n"
proof (cases "n' = n")
  case False
  assume t: "team_repo spec bundled t n"
  have same: "(t(n' \<mapsto> v)) n = t n" using False by simp
  show ?thesis using t unfolding team_repo_def by (simp only: same)
qed simp

text \<open>The repository of one NGC URL is as asked, if the URL gives a name.\<close>

definition url_done :: "SettingsSpec \<Rightarrow> Item list \<Rightarrow> string \<Rightarrow> repo_map \<Rightarrow> bool" where
  "url_done spec bundled u t \<longleftrightarrow> (case teamClusterRepoName u of Inl e \<Rightarrow> True | Inr n \<Rightarrow> team_repo spec bundled t n)"

lemma team_keep_iff: "n \<in> team_keep us \<longleftrightarrow> (\<exists>u \<in> set us. teamClusterRepoName u = Inr n)"
  by (force simp: team_keep_def split: sum.splits)

lemma url_done_keep: "\<forall>c \<in> set us. url_done spec bundled c t \<Longrightarrow> n \<in> team_keep us \<Longrightarrow> team_repo spec bundled t n"
  by (fastforce simp: team_keep_iff url_done_def)

section \<open>What a call ensures when it succeeds\<close>

text \<open>The name of the secret that a section gives to its repository; empty when it finds no credentials.\<close>

definition secret_of :: "(err + string \<times> bool) \<times> 's \<Rightarrow> string" where
  "secret_of r = (case fst r of Inl e \<Rightarrow> '''' | Inr (secretName, changed) \<Rightarrow> secretName)"

definition section_secret :: "'s SettingsAPI \<Rightarrow> Settings \<Rightarrow> Registry \<Rightarrow> RegistrySettings \<Rightarrow> string \<Rightarrow> 's \<Rightarrow> string" where
  "section_secret x s registry sec authSecretName w =
     (case section_refs x s registry sec w of
        (refs, w1) \<Rightarrow> secret_of ((if fst refs \<noteq> None \<and> snd refs \<noteq> None
          then applyRegistryAuthSecret x (se_Namespace s) authSecretName (fst refs) (snd refs) (CABundleSecretRef sec) else ret ('''', False)) w1))"

text \<open>What the NVIDIA step finds: the credentials are read at the start, or after the public repositories have been applied.\<close>

definition nvidia_found :: "'s SettingsAPI \<Rightarrow> Item list \<Rightarrow> Settings \<Rightarrow> 's \<Rightarrow> string option" where
  "nvidia_found x bundled s w =
     (case section_refs x s RegistryNvidia (set_Nvidia (se_Spec s)) w of
        (refs, w1) \<Rightarrow>
          let both = fst refs \<noteq> None \<and> snd refs \<noteq> None;
              mirror = applyRegistryAuthSecret x (se_Namespace s) AuthSecretNvidia (fst refs) (snd refs) (CABundleSecretRef (set_Nvidia (se_Spec s)));
              applied = (\<lambda>w. snd (applyClusterRepo x ClusterRepoNvidiaBlueprint DefaultNvidiaBlueprintURL ''''
                (snd (applyClusterRepo x ClusterRepoNvidia DefaultNvidiaChartsURL '''' w))))
          in if nvidia_endpoint (se_Spec s) \<noteq> '''' then
               (if \<not> both then Some '''' else if secret_of (mirror w1) = '''' then None else Some (secret_of (mirror w1)))
             else if \<not> both then None
             else Some (if ntr_Gated (classifyNGCTeamRepos bundled) = [] then '''' else secret_of (mirror (applied w1))))"

text \<open>The repositories without what other managers own.\<close>

definition own :: "repo_map \<Rightarrow> repo_map" where
  "own m = (\<lambda>n. map_option (\<lambda>r. r\<lparr>mr_Foreign := None\<rparr>) (m n))"

lemma own_upd [simp]: "own (m(n := v)) = (own m)(n := map_option (\<lambda>r. r\<lparr>mr_Foreign := None\<rparr>) v)"
  by (auto simp: own_def)

lemma own_applied [simp]: "(applied_onto old (managedRepoSpec url sec labels))\<lparr>mr_Foreign := None\<rparr> = managedRepoSpec url sec labels"
  by (simp add: applied_onto_def managedRepoSpec_def)

lemma own_None: "own m n = None \<longleftrightarrow> m n = None"
  by (simp add: own_def)

lemma own_team: "is_team (own m) n \<longleftrightarrow> is_team m n"
  by (auto simp: is_team_def own_def)

context repo_store begin

definition ensures :: "(repo_map \<Rightarrow> bool) \<Rightarrow> ('s, 'a) act \<Rightarrow> ('a \<Rightarrow> repo_map \<Rightarrow> bool) \<Rightarrow> bool" where
  "ensures P m Q \<longleftrightarrow> (\<forall>s a s'. P (own (repos s)) \<longrightarrow> m s = (Inr a, s') \<longrightarrow> Q a (own (repos s')))"

lemma ensuresD: "ensures P m Q \<Longrightarrow> P (own (repos s)) \<Longrightarrow> m s = (Inr a, s') \<Longrightarrow> Q a (own (repos s'))"
  by (simp add: ensures_def)

lemma ens_pre: "ensures P m Q \<Longrightarrow> (\<And>t. P' t \<Longrightarrow> P t) \<Longrightarrow> ensures P' m Q"
  unfolding ensures_def by blast

lemma ens_post: "ensures P m Q \<Longrightarrow> (\<And>a t. Q a t \<Longrightarrow> Q' a t) \<Longrightarrow> ensures P m Q'"
  unfolding ensures_def by blast

lemma ens_bnd: "ensures P m R \<Longrightarrow> (\<And>a. ensures (R a) (f a) Q) \<Longrightarrow> ensures P (bnd m f) Q"
  unfolding ensures_def by (metis bnd_Inr)

lemma ens_ret: "ensures (Q a) (ret a) Q"
  by (simp add: ensures_def ret_def)

lemma ens_throw: "ensures P (throw e) Q"
  by (simp add: ensures_def throw_def)

lemma ens_leaves: "leaves repos m \<Longrightarrow> (\<And>s a s'. m s = (Inr a, s') \<Longrightarrow> I a) \<Longrightarrow> ensures P m (\<lambda>a t. P t \<and> I a)"
  unfolding ensures_def by (metis leavesD)

lemma ens_frame: "leaves repos m \<Longrightarrow> ensures P m (\<lambda>_. P)"
  unfolding ensures_def by (metis leavesD)

lemma bnd_assoc: "bnd (bnd f g) h = bnd f (\<lambda>a. bnd (g a) h)"
  by (rule ext) (simp add: bnd_def split: prod.split sum.split)

lemma for_each_Cons: "for_each (b # bs) f = bnd (f b) (\<lambda>_. for_each bs f)"
  by (auto simp: bnd_def split: prod.split sum.split)

lemma ens_inv:
  assumes "\<And>b. b \<in> set bs \<Longrightarrow> ensures P (f b) (\<lambda>_. P)"
  shows "ensures P (for_each bs f) (\<lambda>_. P)"
  using assms
proof (induction bs)
  case (Cons b bs)
  show ?case
    unfolding for_each_Cons by (rule ens_bnd [where R = "\<lambda>_. P"]) (use Cons in simp_all)
qed (simp add: ensures_def)

text \<open>A loop that brings about something for each element, which the other rounds keep.\<close>

lemma ens_each:
  assumes "\<And>b. b \<in> set bs \<Longrightarrow> ensures I (f b) (\<lambda>_ t. I t \<and> G b t)"
    and "\<And>b c. b \<in> set bs \<Longrightarrow> c \<in> set bs \<Longrightarrow> ensures (\<lambda>t. I t \<and> G b t) (f c) (\<lambda>_. G b)"
  shows "ensures I (for_each bs f) (\<lambda>_ t. I t \<and> (\<forall>b \<in> set bs. G b t))"
proof -
  have "ensures (\<lambda>t. I t \<and> (\<forall>b \<in> ds. G b t)) (for_each cs f) (\<lambda>_ t. I t \<and> (\<forall>b \<in> ds \<union> set cs. G b t))"
    if "ds \<subseteq> set bs" "set cs \<subseteq> set bs" for ds cs
    using that
  proof (induction cs arbitrary: ds)
    case (Cons c cs)
    have "ensures (\<lambda>t. I t \<and> (\<forall>b \<in> ds. G b t)) (f c) (\<lambda>_ t. I t \<and> (\<forall>b \<in> insert c ds. G b t))"
      unfolding ensures_def
    proof (intro allI impI)
      fix s a s' assume p: "I (own (repos s)) \<and> (\<forall>b \<in> ds. G b (own (repos s)))" and r: "f c s = (Inr a, s')"
      have "I (own (repos s')) \<and> G c (own (repos s'))" using assms(1) [of c] p r Cons.prems(2) by (auto simp: ensures_def)
      moreover have "G b (own (repos s'))" if "b \<in> ds" for b
        using assms(2) [of b c] p r Cons.prems that by (auto simp: ensures_def)
      ultimately show "I (own (repos s')) \<and> (\<forall>b \<in> insert c ds. G b (own (repos s')))" by simp
    qed
    then have "ensures (\<lambda>t. I t \<and> (\<forall>b \<in> ds. G b t)) (bnd (f c) (\<lambda>_. for_each cs f)) (\<lambda>_ t. I t \<and> (\<forall>b \<in> ds \<union> set (c # cs). G b t))"
      by (rule ens_bnd) (rule ens_post [OF Cons.IH], use Cons.prems in auto)
    then show ?case unfolding for_each_Cons by simp
  qed (simp add: ensures_def)
  from this [of "{}" bs] show ?thesis by simp
qed

lemma ens_apply: "ensures (\<lambda>t. P (t(n \<mapsto> managedRepoSpec url sec labels))) (sx_ApplyRepo x n (managedRepoSpec url sec labels)) (\<lambda>_. P)"
  unfolding ensures_def using apply_repo by fastforce

lemma ens_delete: "ensures (\<lambda>t. P (t(n := None))) (deleteClusterRepo x n) (\<lambda>_. P)"
  unfolding ensures_def
proof (intro allI impI)
  fix s a s' assume p: "P ((own (repos s))(n := None))" and r: "deleteClusterRepo x n s = (Inr a, s')"
  obtain u s1 where d: "sx_DeleteRepo x n s = (u, s1)" by (cases "sx_DeleteRepo x n s")
  have s': "s' = s1" and u: "\<forall>e. u = Inl e \<longrightarrow> err_is e = SNotFound"
    using r d by (auto simp: deleteClusterRepo_def delete_ignoring_absent_def split: sum.splits if_splits)
  have "repos s1 = (repos s)(n := None)"
    using delete_repo [OF d] u by (cases u) (auto simp: fun_upd_idem_iff)
  then show "P (own (repos s'))" using p s' by simp
qed

lemma ens_prune: "ensures (\<lambda>t. P (pruned keep t)) (pruneTeamRepos x keep) (\<lambda>_. P)"
  unfolding ensures_def
proof (intro allI impI)
  fix s a s' assume p: "P (pruned keep (own (repos s)))" and r: "pruneTeamRepos x keep s = (Inr a, s')"
  obtain u s1 where l: "sx_ListTeamRepos x s = (u, s1)" by (cases "sx_ListTeamRepos x s")
  obtain names where u: "u = Inr names" using r l by (auto simp: pruneTeamRepos_def split: sum.splits)
  have s1: "repos s1 = repos s" using leavesD [OF reads(2) l] .
  let ?f = "\<lambda>name. if name \<in> keep then ret () else deleteClusterRepo x name"
  have run: "for_each names ?f s1 = (Inr a, s')" using r l u by (simp add: pruneTeamRepos_def)
  let ?I = "\<lambda>t. \<forall>n. t n = own (repos s) n \<or> n \<in> set names \<and> n \<notin> keep \<and> t n = None"
  have i: "ensures ?I (?f n) (\<lambda>_ t. ?I t \<and> (n \<notin> keep \<longrightarrow> t n = None))" if "n \<in> set names" for n
  proof (cases "n \<in> keep")
    case False
    have "ensures ?I (deleteClusterRepo x n) (\<lambda>_ t. ?I t \<and> t n = None)"
      by (rule ens_pre [OF ens_delete [of "\<lambda>t. ?I t \<and> t n = None" n]]) (use that False in auto)
    then show ?thesis using False by simp
  qed (simp add: ensures_def ret_def)
  have k: "ensures (\<lambda>t. ?I t \<and> (b \<notin> keep \<longrightarrow> t b = None)) (?f c) (\<lambda>_ t. b \<notin> keep \<longrightarrow> t b = None)" for b c
  proof (cases "c \<in> keep")
    case False
    have "ensures (\<lambda>t. ?I t \<and> (b \<notin> keep \<longrightarrow> t b = None)) (deleteClusterRepo x c) (\<lambda>_ t. b \<notin> keep \<longrightarrow> t b = None)"
      by (rule ens_pre [OF ens_delete]) simp
    then show ?thesis using False by simp
  qed (simp add: ensures_def ret_def)
  have "?I (own (repos s')) \<and> (\<forall>n \<in> set names. n \<notin> keep \<longrightarrow> own (repos s') n = None)"
    by (rule ensuresD [OF ens_each [OF i k] _ run]) (simp_all add: s1)
  moreover have "n \<in> set names \<longleftrightarrow> is_team (own (repos s)) n" for n
    unfolding own_team using list_team l u by (auto simp: is_team_def)
  ultimately have "own (repos s') = pruned keep (own (repos s))" by (auto simp: pruned_def fun_eq_iff)
  then show "P (own (repos s'))" using p by simp
qed

section \<open>The registries and OpenShell\<close>

lemma ens_auth:
  "ensures P (if b then applyRegistryAuthSecret x ns n u t ca else ret ('''', False)) (\<lambda>a t. P t \<and> (fst a = '''' \<or> fst a = n))"
proof (rule ens_leaves)
  show "leaves repos (if b then applyRegistryAuthSecret x ns n u t ca else ret ('''', False))"
    by (simp add: leaves_auth leaves_return)
qed (rule registry_auth_name)

lemma ens_force: "ensures P (if b then forceUpdateClusterRepo x now n else ret ()) (\<lambda>_. P)"
  by (rule ens_frame) (simp add: leaves_force leaves_return)

lemma ens_applyClusterRepo: "ensures (\<lambda>t. P (t(n \<mapsto> managedRepoSpec url sec managed_labels))) (applyClusterRepo x n url sec) (\<lambda>_. P)"
  unfolding applyClusterRepo_def by (rule ens_apply)

lemma for_each_one: "for_each [b] f = f b"
  by (rule ext) (auto split: prod.split sum.split)

lemma ens_found:
  assumes "secretName = '''' \<or> secretName = n"
  shows "ensures (\<lambda>t. P (t(repo := if secretName = '''' then None else Some (managedRepoSpec url n managed_labels))))
    (if secretName = '''' then pruneRegistryRepos x n [repo]
     else for_each [repo] (\<lambda>name. bnd (applyClusterRepo x name url secretName) (\<lambda>_. if ch then forceUpdateClusterRepo x now name else ret ())))
    (\<lambda>_. P)"
proof (cases "secretName = ''''")
  case True
  have "ensures (\<lambda>t. P (t(repo := None))) (pruneRegistryRepos x n [repo]) (\<lambda>_. P)"
    unfolding pruneRegistryRepos_def for_each_one by (rule ens_bnd [OF ens_delete ens_frame [OF leaves_deleteAuth]])
  then show ?thesis using True by simp
next
  case False
  then have "secretName = n" using assms by simp
  moreover have "ensures (\<lambda>t. P (t(repo \<mapsto> managedRepoSpec url n managed_labels)))
      (for_each [repo] (\<lambda>name. bnd (applyClusterRepo x name url n) (\<lambda>_. if ch then forceUpdateClusterRepo x now name else ret ()))) (\<lambda>_. P)"
    unfolding for_each_one by (rule ens_bnd [OF ens_applyClusterRepo ens_force])
  ultimately show ?thesis using False by simp
qed

text \<open>The repository of a registry is there exactly if the section found its credentials.\<close>

lemma section_does:
  assumes "reconcile_section x now s registry sec n url repo w = (Inr a, w')"
  shows "own (repos w') = (own (repos w))(repo := if section_secret x s registry sec n w = '''' then None
    else Some (managedRepoSpec url n managed_labels))"
proof -
  obtain refs w1 where f: "section_refs x s registry sec w = (refs, w1)" by (cases "section_refs x s registry sec w")
  have l1: "repos w1 = repos w" using leaves_refs [of s registry sec w] f by simp
  let ?auth = "if fst refs \<noteq> None \<and> snd refs \<noteq> None
    then applyRegistryAuthSecret x (se_Namespace s) n (fst refs) (snd refs) (CABundleSecretRef sec) else ret ('''', False)"
  have "reconcileRegistryRepo x now (se_Namespace s) refs (CABundleSecretRef sec) n url [repo] w1 = (Inr a, w')"
    using assms f by (simp add: reconcile_section_def)
  then obtain secretName ch w2 where m: "?auth w1 = (Inr (secretName, ch), w2)"
      "(if secretName = '''' then pruneRegistryRepos x n [repo]
       else for_each [repo] (\<lambda>name. bnd (applyClusterRepo x name url secretName) (\<lambda>_. if ch then forceUpdateClusterRepo x now name else ret ()))) w2
       = (Inr a, w')"
    unfolding reconcileRegistryRepo_def bnd_Inr by auto
  have "leaves repos ?auth" by (simp add: leaves_auth leaves_return)
  note l2 = leavesD [OF this m(1)]
  have n: "secretName = '''' \<or> secretName = n" using registry_auth_name [OF m(1)] by simp
  have "section_secret x s registry sec n w = secretName" using f m(1) by (simp add: section_secret_def secret_of_def)
  then show ?thesis
    using ensuresD [OF ens_found [OF n, of "\<lambda>t. t = (own (repos w))(repo := if secretName = '''' then None else Some (managedRepoSpec url n managed_labels))"
      repo url ch now] _ m(2)] l1 l2 by simp
qed

section \<open>NVIDIA\<close>

lemma fixed_loop: "for_each fixedNvidiaRepos f = bnd (f ClusterRepoNvidia) (\<lambda>_. f ClusterRepoNvidiaBlueprint)"
  by (simp only: fixedNvidiaRepos_def for_each_Cons [of _ "[_]"] for_each_one)

lemma ens_tear_down: "ensures (others spec ac su) (tear_nvidia_down x) (\<lambda>_. done_nvidia spec ac su bundled None)"
proof -
  have "ensures (\<lambda>t. done_nvidia spec ac su bundled None ((pruned {} t)(ClusterRepoNvidia := None, ClusterRepoNvidiaBlueprint := None)))
      (tear_nvidia_down x) (\<lambda>_. done_nvidia spec ac su bundled None)"
    unfolding tear_nvidia_down_def pruneRegistryRepos_def fixed_loop
    by (rule ens_bnd [OF ens_prune ens_bnd [OF ens_bnd [OF ens_delete ens_delete] ens_frame [OF leaves_deleteAuth]]])
  then show ?thesis
  proof (rule ens_pre)
    fix t assume "others spec ac su t"
    then show "done_nvidia spec ac su bundled None ((pruned {} t)(ClusterRepoNvidia := None, ClusterRepoNvidiaBlueprint := None))"
      by (auto simp: done_nvidia_def others_upd others_pruned nvidia_repos_def as_asked_def is_team_pruned nvidia_as_found_def teams_due_def
          fixedNvidiaRepos_def)
  qed
qed

lemma ens_fixed:
  "ensures (others spec ac su) (bnd (applyClusterRepo x ClusterRepoNvidia url1 sec) (\<lambda>_. applyClusterRepo x ClusterRepoNvidiaBlueprint url2 sec))
     (\<lambda>_. with_fixed spec ac su url1 url2 sec)"
  by (rule ens_pre [OF ens_bnd [OF ens_applyClusterRepo ens_applyClusterRepo]]) (simp add: with_fixed_def others_upd)

lemma ens_applyMarked:
  "ensures (\<lambda>t. P (t(n \<mapsto> managedRepoSpec url sec team_labels))) (applyMarkedTeamClusterRepo x n url sec) (\<lambda>_. P)"
  unfolding applyMarkedTeamClusterRepo_def by (rule ens_apply)

lemma ens_teams_pruned:
  "ensures (\<lambda>t. with_fixed spec ac su url1 url2 sec t \<and> (\<forall>n \<in> keep. team_repo spec bundled t n)) (pruneTeamRepos x keep)
     (\<lambda>_ t. with_fixed spec ac su url1 url2 sec t \<and> (\<forall>n \<in> keep. team_repo spec bundled t n) \<and> (\<forall>n. is_team t n \<longleftrightarrow> n \<in> keep))"
  by (rule ens_pre [OF ens_prune]) (auto simp: with_fixed_pruned is_team_pruned team_repo_pruned intro: team_repo_marked)

lemma ens_mirror:
  assumes "teams_free bundled" "nvidia_endpoint spec = url" "url \<noteq> ''''" "sec = '''' \<or> sec = AuthSecretNvidia"
    and teams: "catalogNvidiaTeamRepoNames bundled = Inr teams"
  shows "ensures (others spec ac su) (mirror_nvidia x now url teams sec ch) (\<lambda>_. done_nvidia spec ac su bundled (Some sec))"
proof -
  have names: "\<exists>u \<in> team_urls bundled. teamClusterRepoName u = Inr n" if "n \<in> set teams" for n
    using teams team_names_sound that by (fastforce simp: catalogNvidiaTeamRepoNames_def Let_def team_urls_def)
  let ?I = "with_fixed spec ac su url url sec" and ?v = "managedRepoSpec url sec team_labels"
  have tr: "t n = Some ?v \<Longrightarrow> team_repo spec bundled t n" if "n \<in> set teams" for n t
    using names [OF that] assms(2-4) by (auto simp: team_repo_def)
  have 1: "ensures (others spec ac su) (for_each fixedNvidiaRepos (\<lambda>name. applyClusterRepo x name url sec)) (\<lambda>_. ?I)"
    unfolding fixed_loop by (rule ens_fixed)
  have fx: "?I (t(n \<mapsto> r)) = ?I t" if "n \<in> set teams" for n t r
    using names [OF that] with_fixed_team [OF assms(1)] by blast
  have 2: "ensures ?I (for_each teams (\<lambda>name. applyMirroredTeamClusterRepo x name url sec)) (\<lambda>_ t. ?I t \<and> (\<forall>n \<in> set teams. t n = Some ?v))"
    unfolding applyMirroredTeamClusterRepo_def
  proof (rule ens_each)
    fix n assume n: "n \<in> set teams"
    show "ensures ?I (applyMarkedTeamClusterRepo x n url sec) (\<lambda>_ t. ?I t \<and> t n = Some ?v)"
      by (rule ens_pre [OF ens_applyMarked]) (simp add: fx [OF n])
    fix b assume "b \<in> set teams"
    show "ensures (\<lambda>t. ?I t \<and> t b = Some ?v) (applyMarkedTeamClusterRepo x n url sec) (\<lambda>_ t. t b = Some ?v)"
      by (rule ens_pre [OF ens_applyMarked]) auto
  qed
  have 3: "ensures (\<lambda>t. ?I t \<and> (\<forall>n \<in> set teams. t n = Some ?v)) (pruneTeamRepos x (set teams))
      (\<lambda>_ t. ?I t \<and> (\<forall>n \<in> set teams. t n = Some ?v) \<and> (\<forall>n. is_team t n \<longleftrightarrow> n \<in> set teams))"
    by (rule ens_pre [OF ens_prune]) (auto simp: with_fixed_pruned is_team_pruned pruned_kept intro: team_repo_marked [OF tr])
  have 4: "ensures P (if ch then for_each (fixedNvidiaRepos @ teams) (forceUpdateClusterRepo x now) else ret ()) (\<lambda>_. P)" for P
    by (rule ens_frame) (simp add: leaves_for_each leaves_force leaves_return)
  have "ensures (others spec ac su) (mirror_nvidia x now url teams sec ch)
      (\<lambda>_ t. ?I t \<and> (\<forall>n \<in> set teams. t n = Some ?v) \<and> (\<forall>n. is_team t n \<longleftrightarrow> n \<in> set teams))"
    unfolding mirror_nvidia_def by (rule ens_bnd [OF 1 ens_bnd [OF 2 ens_bnd [OF 3 4]]])
  then show ?thesis
  proof (rule ens_post)
    fix t assume t: "?I t \<and> (\<forall>n \<in> set teams. t n = Some ?v) \<and> (\<forall>n. is_team t n \<longleftrightarrow> n \<in> set teams)"
    then have "nvidia_as_found spec bundled (Some sec) t"
      using assms(2,3) teams by (auto simp: nvidia_as_found_def teams_due_def with_fixed_def fixedNvidiaRepos_def managedRepoSpec_def)
    then show "done_nvidia spec ac su bundled (Some sec) t"
      using t tr assms(2-4) by (auto simp: done_nvidia_def with_fixed_def nvidia_repos_def as_asked_def)
  qed
qed

lemma mirror_mode_does:
  assumes "teams_free bundled" "nvidia_endpoint (se_Spec s) \<noteq> ''''"
    and "section_refs x s RegistryNvidia (set_Nvidia (se_Spec s)) w = (refs, w1)" "others (se_Spec s) ac su (own (repos w1))"
    and "nvidia_mirror_mode x now bundled s (nvidia_endpoint (se_Spec s)) refs w1 = (Inr a, w')"
  shows "done_nvidia (se_Spec s) ac su bundled (nvidia_found x bundled s w) (own (repos w'))"
proof -
  obtain teams where t: "catalogNvidiaTeamRepoNames bundled = Inr teams"
    using assms(5) by (cases "catalogNvidiaTeamRepoNames bundled") (simp_all add: nvidia_mirror_mode_def throw_def)
  note mi = ens_mirror [OF assms(1) refl assms(2) _ t]
  show ?thesis
  proof (cases "fst refs \<noteq> None \<and> snd refs \<noteq> None")
    case True
    let ?auth = "applyRegistryAuthSecret x (se_Namespace s) AuthSecretNvidia (fst refs) (snd refs) (CABundleSecretRef (set_Nvidia (se_Spec s)))"
    obtain sec ch w2 where m: "?auth w1 = (Inr (sec, ch), w2)"
        "(if sec = '''' then tear_nvidia_down x else mirror_nvidia x now (nvidia_endpoint (se_Spec s)) teams sec ch) w2 = (Inr a, w')"
      using assms(5) t True by (auto simp: nvidia_mirror_mode_def bnd_Inr)
    have o: "others (se_Spec s) ac su (own (repos w2))" using leavesD [OF leaves_auth m(1)] assms(4) by simp
    have n: "sec = '''' \<or> sec = AuthSecretNvidia" using auth_name [OF m(1)] .
    have f: "nvidia_found x bundled s w = (if sec = '''' then None else Some sec)"
      using assms(2,3) True m(1) by (simp add: nvidia_found_def secret_of_def Let_def)
    show ?thesis
    proof (cases "sec = ''''")
      case True
      then show ?thesis using ensuresD [OF ens_tear_down o] m(2) f by simp
    next
      case False
      then show ?thesis using ensuresD [OF mi [OF n] o] m(2) f by simp
    qed
  next
    case False
    obtain u w2 where m: "deleteAuthSecret x AuthSecretNvidia w1 = (Inr u, w2)"
        "mirror_nvidia x now (nvidia_endpoint (se_Spec s)) teams '''' False w2 = (Inr a, w')"
      using assms(5) t False by (auto simp: nvidia_mirror_mode_def bnd_Inr)
    have "others (se_Spec s) ac su (own (repos w2))" using leavesD [OF leaves_deleteAuth m(1)] assms(4) by simp
    moreover have "nvidia_found x bundled s w = Some ''''" using assms(2,3) False by (auto simp: nvidia_found_def Let_def)
    ultimately show ?thesis using ensuresD [OF mi _ m(2)] by simp
  qed
qed

lemma ens_apply_team:
  assumes "teams_free bundled" "u \<in> team_urls bundled"
    and right: "\<And>n t. teamClusterRepoName u = Inr n \<Longrightarrow> team_repo spec bundled (t(n \<mapsto> managedRepoSpec u sec team_labels)) n"
  shows "ensures (\<lambda>t. with_fixed spec ac su a b '''' t \<and> (\<forall>c \<in> C. url_done spec bundled c t)) (apply_team x now sec ch u)
    (\<lambda>_ t. with_fixed spec ac su a b '''' t \<and> (\<forall>c \<in> C. url_done spec bundled c t) \<and> url_done spec bundled u t)" (is "ensures ?P _ (\<lambda>_. ?Q)")
proof (cases "teamClusterRepoName u")
  case (Inr n)
  have up: "url_done spec bundled c (t(n \<mapsto> managedRepoSpec u sec team_labels))" if "url_done spec bundled c t" for c t
    using that team_repo_upd [OF _ right [OF Inr]] by (auto simp: url_done_def split: sum.splits)
  have "ensures ?P (applyMarkedTeamClusterRepo x n u sec) (\<lambda>_. ?Q)"
  proof (rule ens_pre [OF ens_applyMarked])
    fix t assume "?P t"
    then show "?Q (t(n \<mapsto> managedRepoSpec u sec team_labels))"
      using up right [OF Inr, of t] Inr by (auto simp: with_fixed_team [OF assms(1,2) Inr] url_done_def)
  qed
  then have "ensures ?P (applyTeamClusterRepo x n u sec) (\<lambda>_. ?Q)" by (simp add: applyTeamClusterRepo_def ens_throw)
  then have "ensures ?P (bnd (applyTeamClusterRepo x n u sec) (\<lambda>_. if ch then forceUpdateClusterRepo x now n else ret ())) (\<lambda>_. ?Q)"
    by (rule ens_bnd [OF _ ens_force])
  then show ?thesis using Inr by (simp add: apply_team_def)
qed (simp add: apply_team_def ens_throw)

lemma ens_urls:
  assumes "teams_free bundled" "set us \<subseteq> team_urls bundled"
    and right: "\<And>u n t. u \<in> set us \<Longrightarrow> teamClusterRepoName u = Inr n \<Longrightarrow> team_repo spec bundled (t(n \<mapsto> managedRepoSpec u sec team_labels)) n"
  shows "ensures (\<lambda>t. with_fixed spec ac su a b '''' t \<and> (\<forall>c \<in> C. url_done spec bundled c t)) (for_each us (apply_team x now sec ch))
    (\<lambda>_ t. with_fixed spec ac su a b '''' t \<and> (\<forall>c \<in> C \<union> set us. url_done spec bundled c t))"
proof -
  have "ensures (\<lambda>t. with_fixed spec ac su a b '''' t \<and> (\<forall>c \<in> C. url_done spec bundled c t)) (for_each us (apply_team x now sec ch))
    (\<lambda>_ t. (with_fixed spec ac su a b '''' t \<and> (\<forall>c \<in> C. url_done spec bundled c t)) \<and> (\<forall>c \<in> set us. url_done spec bundled c t))"
  proof (rule ens_each)
    fix u assume u: "u \<in> set us"
    have st: "ensures (\<lambda>t. with_fixed spec ac su a b '''' t \<and> (\<forall>c \<in> D. url_done spec bundled c t)) (apply_team x now sec ch u)
        (\<lambda>_ t. with_fixed spec ac su a b '''' t \<and> (\<forall>c \<in> D. url_done spec bundled c t) \<and> url_done spec bundled u t)" for D
      by (rule ens_apply_team [OF assms(1)]) (use u assms(2) right in auto)
    show "ensures (\<lambda>t. with_fixed spec ac su a b '''' t \<and> (\<forall>c \<in> C. url_done spec bundled c t)) (apply_team x now sec ch u)
        (\<lambda>_ t. (with_fixed spec ac su a b '''' t \<and> (\<forall>c \<in> C. url_done spec bundled c t)) \<and> url_done spec bundled u t)"
      by (rule ens_post [OF st]) simp
    fix v
    show "ensures (\<lambda>t. (with_fixed spec ac su a b '''' t \<and> (\<forall>c \<in> C. url_done spec bundled c t)) \<and> url_done spec bundled v t) (apply_team x now sec ch u)
        (\<lambda>_. url_done spec bundled v)"
      by (rule ens_post [OF ens_pre [OF st [of "insert v C"]]]) auto
  qed
  then show ?thesis by (rule ens_post) auto
qed

lemma ens_team_loops:
  assumes "teams_free bundled" "nvidia_endpoint spec = ''''" "sec = '''' \<or> sec = AuthSecretNvidia"
  shows "ensures (with_fixed spec ac su a b '''')
    (bnd (if sec = '''' then deleteAuthSecret x AuthSecretNvidia else ret ()) (\<lambda>_.
     bnd (for_each (ntr_Public (classifyNGCTeamRepos bundled)) (apply_team x now '''' False)) (\<lambda>_.
     bnd (if sec \<noteq> '''' then for_each (ntr_Gated (classifyNGCTeamRepos bundled)) (apply_team x now sec ch) else ret ()) (\<lambda>_.
       pruneTeamRepos x (team_keep (ntr_Public (classifyNGCTeamRepos bundled))
         \<union> (if sec \<noteq> '''' then team_keep (ntr_Gated (classifyNGCTeamRepos bundled)) else {}))))))
    (\<lambda>_ t. with_fixed spec ac su a b '''' t \<and> (\<forall>n \<in> teams_due spec bundled (Some sec). team_repo spec bundled t n)
      \<and> (\<forall>n. is_team t n \<longleftrightarrow> n \<in> teams_due spec bundled (Some sec)))"
proof -
  let ?pub = "ntr_Public (classifyNGCTeamRepos bundled)" and ?gat = "ntr_Gated (classifyNGCTeamRepos bundled)"
  let ?I = "with_fixed spec ac su a b ''''"
  have due: "team_keep ?pub \<union> (if sec \<noteq> '''' then team_keep ?gat else {}) = teams_due spec bundled (Some sec)"
    using assms(2) by (simp add: teams_due_def)
  have pub: "ensures ?I (for_each ?pub (apply_team x now '''' False)) (\<lambda>_ t. ?I t \<and> (\<forall>c \<in> set ?pub. url_done spec bundled c t))"
    using ens_urls [OF assms(1), of ?pub spec "''''" ac su a b "{}" now False] assms(2) by (auto simp: team_urls_def team_repo_def)
  have gat: "ensures (\<lambda>t. ?I t \<and> (\<forall>c \<in> set ?pub. url_done spec bundled c t))
      (if sec \<noteq> '''' then for_each ?gat (apply_team x now sec ch) else ret ())
      (\<lambda>_ t. ?I t \<and> (\<forall>n \<in> team_keep ?pub \<union> (if sec \<noteq> '''' then team_keep ?gat else {}). team_repo spec bundled t n))"
  proof (cases "sec = ''''")
    case False
    then have s: "sec = AuthSecretNvidia" using assms(3) by simp
    have "ensures (\<lambda>t. ?I t \<and> (\<forall>c \<in> set ?pub. url_done spec bundled c t)) (for_each ?gat (apply_team x now sec ch))
        (\<lambda>_ t. ?I t \<and> (\<forall>c \<in> set ?pub \<union> set ?gat. url_done spec bundled c t))"
      by (rule ens_urls [OF assms(1)]) (use assms(2) s in \<open>auto simp: team_urls_def team_repo_def\<close>)
    then have "ensures (\<lambda>t. ?I t \<and> (\<forall>c \<in> set ?pub. url_done spec bundled c t)) (for_each ?gat (apply_team x now sec ch))
        (\<lambda>_ t. ?I t \<and> (\<forall>n \<in> team_keep ?pub \<union> team_keep ?gat. team_repo spec bundled t n))"
      by (rule ens_post) (auto intro: url_done_keep)
    then show ?thesis using False by simp
  next
    case True
    have "?I t \<and> (\<forall>n \<in> team_keep ?pub. team_repo spec bundled t n)" if "?I t \<and> (\<forall>c \<in> set ?pub. url_done spec bundled c t)" for t
      using that by (auto intro: url_done_keep)
    then show ?thesis using True by (auto simp: ensures_def ret_def)
  qed
  have del: "ensures ?I (if sec = '''' then deleteAuthSecret x AuthSecretNvidia else ret ()) (\<lambda>_. ?I)"
    by (rule ens_frame) (simp add: leaves_deleteAuth leaves_return)
  show ?thesis using ens_bnd [OF del ens_bnd [OF pub ens_bnd [OF gat ens_teams_pruned]]] by (simp only: due)
qed

lemma connected_mode_does:
  assumes "teams_free bundled" "nvidia_endpoint (se_Spec s) = ''''"
    and "section_refs x s RegistryNvidia (set_Nvidia (se_Spec s)) w = (refs, w1)" "others (se_Spec s) ac su (own (repos w1))"
    and "nvidia_connected_mode x now bundled s refs w1 = (Inr a, w')"
  shows "done_nvidia (se_Spec s) ac su bundled (nvidia_found x bundled s w) (own (repos w'))"
proof (cases "fst refs = None \<or> snd refs = None")
  case True
  then have "nvidia_found x bundled s w = None" using assms(2,3) by (auto simp: nvidia_found_def Let_def)
  then show ?thesis using ensuresD [OF ens_tear_down assms(4)] assms(5) True by (simp add: nvidia_connected_mode_def)
next
  case False
  let ?ns = "se_Namespace s" and ?ca = "CABundleSecretRef (set_Nvidia (se_Spec s))"
  let ?auth = "if ntr_Gated (classifyNGCTeamRepos bundled) \<noteq> [] then applyRegistryAuthSecret x ?ns AuthSecretNvidia (fst refs) (snd refs) ?ca else ret ('''', False)"
  let ?I = "with_fixed (se_Spec s) ac su DefaultNvidiaChartsURL DefaultNvidiaBlueprintURL ''''"
  obtain u2 w2 u3 w3 where m: "applyClusterRepo x ClusterRepoNvidia DefaultNvidiaChartsURL '''' w1 = (Inr u2, w2)"
      "applyClusterRepo x ClusterRepoNvidiaBlueprint DefaultNvidiaBlueprintURL '''' w2 = (Inr u3, w3)"
      "reconcileNGCTeamRepos x now bundled ?ns refs ?ca w3 = (Inr a, w')"
    using assms(5) unfolding nvidia_connected_mode_def if_not_P [OF False] bnd_Inr by blast
  have "bnd (applyClusterRepo x ClusterRepoNvidia DefaultNvidiaChartsURL '''')
      (\<lambda>_. applyClusterRepo x ClusterRepoNvidiaBlueprint DefaultNvidiaBlueprintURL '''') w1 = (Inr u3, w3)"
    unfolding bnd_Inr using m(1,2) by blast
  then have i3: "?I (own (repos w3))" by (rule ensuresD [OF ens_fixed assms(4)])
  obtain sec ch w4 where n: "?auth w3 = (Inr (sec, ch), w4)"
      "bnd (if sec = '''' then deleteAuthSecret x AuthSecretNvidia else ret ()) (\<lambda>_.
       bnd (for_each (ntr_Public (classifyNGCTeamRepos bundled)) (apply_team x now '''' False)) (\<lambda>_.
       bnd (if sec \<noteq> '''' then for_each (ntr_Gated (classifyNGCTeamRepos bundled)) (apply_team x now sec ch) else ret ()) (\<lambda>_.
         pruneTeamRepos x (team_keep (ntr_Public (classifyNGCTeamRepos bundled))
           \<union> (if sec \<noteq> '''' then team_keep (ntr_Gated (classifyNGCTeamRepos bundled)) else {}))))) w4 = (Inr a, w')"
    using m(3) unfolding reconcileNGCTeamRepos_def Let_def bnd_Inr [of ?auth] by auto
  have "leaves repos ?auth" by (simp add: leaves_auth leaves_return)
  from leavesD [OF this n(1)] have i4: "?I (own (repos w4))" using i3 by simp
  have name: "sec = '''' \<or> sec = AuthSecretNvidia" using registry_auth_name [OF n(1)] by simp
  note t = ensuresD [OF ens_team_loops [OF assms(1,2) name] i4 n(2)]
  have f: "nvidia_found x bundled s w = Some sec"
    using assms(2,3) False m(1,2) n(1) by (auto simp: nvidia_found_def Let_def secret_of_def ret_def split: if_splits)
  have "nvidia_as_found (se_Spec s) bundled (Some sec) (own (repos w'))"
    using t assms(2) by (simp add: nvidia_as_found_def with_fixed_def fixedNvidiaRepos_def)
  moreover have "nvidia_repos (se_Spec s) (own (repos w'))" using t assms(2) by (simp add: nvidia_repos_def with_fixed_def as_asked_def)
  ultimately show ?thesis using t f by (auto simp: done_nvidia_def with_fixed_def)
qed

section \<open>All of them\<close>

lemma nvidia_does:
  assumes "teams_free bundled" "others (se_Spec s) ac su (own (repos w))" "reconcileNvidiaRepos x now bundled s w = (Inr a, w')"
  shows "done_nvidia (se_Spec s) ac su bundled (nvidia_found x bundled s w) (own (repos w'))"
proof -
  obtain refs w1 where f: "section_refs x s RegistryNvidia (set_Nvidia (se_Spec s)) w = (refs, w1)"
    by (cases "section_refs x s RegistryNvidia (set_Nvidia (se_Spec s)) w")
  have o: "others (se_Spec s) ac su (own (repos w1))" using leaves_refs [of s RegistryNvidia "set_Nvidia (se_Spec s)" w] f assms(2) by simp
  show ?thesis
    using mirror_mode_does [OF assms(1) _ f o, of now a w'] connected_mode_does [OF assms(1) _ f o, of now a w'] assms(3) f
    by (cases "nvidia_endpoint (se_Spec s) = ''''") (simp_all add: reconcileNvidiaRepos_def Let_def)
qed

end

lemma done_nvidiaD:
  assumes "done_nvidia spec ac su bundled nv t"
  shows "settled spec bundled t \<and> (t ClusterRepoApplicationCollection \<noteq> None \<longleftrightarrow> ac) \<and> (t ClusterRepoSUSERegistry \<noteq> None \<longleftrightarrow> su)
    \<and> nvidia_as_found spec bundled nv t"
proof -
  note d = assms [unfolded done_nvidia_def others_def]
  show ?thesis unfolding settled_def by (intro conjI; insert d; elim conjE; assumption)
qed

text \<open>The states between the steps of a pass, and what the pass finds in them.\<close>

definition after_collection :: "'s SettingsAPI \<Rightarrow> nat \<Rightarrow> Settings \<Rightarrow> 's \<Rightarrow> 's" where
  "after_collection x now s w = snd (reconcile_section x now s RegistryApplicationCollection (set_ApplicationCollection (se_Spec s))
     AuthSecretApplicationCollection (endpoint_or ep_ApplicationCollection DefaultApplicationCollectionURL (se_Spec s)) ClusterRepoApplicationCollection w)"

definition after_suse :: "'s SettingsAPI \<Rightarrow> nat \<Rightarrow> Settings \<Rightarrow> 's \<Rightarrow> 's" where
  "after_suse x now s w = snd (reconcile_section x now s RegistrySUSERegistry (set_SUSERegistry (se_Spec s)) AuthSecretSUSERegistry
     (endpoint_or ep_SUSERegistry DefaultSUSERegistryURL (se_Spec s)) ClusterRepoSUSERegistry (after_collection x now s w))"

definition after_openshell :: "'s SettingsAPI \<Rightarrow> nat \<Rightarrow> Settings \<Rightarrow> 's \<Rightarrow> 's" where
  "after_openshell x now s w =
     snd (applyClusterRepo x ClusterRepoOpenshellWorkspace (endpoint_or ep_OpenShell DefaultOpenshellWorkspaceURL (se_Spec s)) ''''
       (snd (applyClusterRepo x ClusterRepoOpenshell (endpoint_or ep_OpenShell DefaultOpenshellURL (se_Spec s)) '''' (after_suse x now s w))))"

definition collection_found :: "'s SettingsAPI \<Rightarrow> Settings \<Rightarrow> 's \<Rightarrow> bool" where
  "collection_found x s w \<longleftrightarrow>
     section_secret x s RegistryApplicationCollection (set_ApplicationCollection (se_Spec s)) AuthSecretApplicationCollection w \<noteq> ''''"

definition suse_found :: "'s SettingsAPI \<Rightarrow> nat \<Rightarrow> Settings \<Rightarrow> 's \<Rightarrow> bool" where
  "suse_found x now s w \<longleftrightarrow>
     section_secret x s RegistrySUSERegistry (set_SUSERegistry (se_Spec s)) AuthSecretSUSERegistry (after_collection x now s w) \<noteq> ''''"

context repo_store begin

lemma pass_settles:
  assumes "teams_free bundled" "reconcileClusterRepos x now bundled s w = (Inr a, w')"
  shows "done_nvidia (se_Spec s) (collection_found x s w) (suse_found x now s w) bundled (nvidia_found x bundled s (after_openshell x now s w)) (own (repos w'))"
proof -
  let ?e = "\<lambda>f d. endpoint_or f d (se_Spec s)"
  obtain u1 w1 u2 w2 u3 w3 u4 w4 where m:
      "reconcile_section x now s RegistryApplicationCollection (set_ApplicationCollection (se_Spec s)) AuthSecretApplicationCollection
        (?e ep_ApplicationCollection DefaultApplicationCollectionURL) ClusterRepoApplicationCollection w = (Inr u1, w1)"
      "reconcile_section x now s RegistrySUSERegistry (set_SUSERegistry (se_Spec s)) AuthSecretSUSERegistry
        (?e ep_SUSERegistry DefaultSUSERegistryURL) ClusterRepoSUSERegistry w1 = (Inr u2, w2)"
      "applyClusterRepo x ClusterRepoOpenshell (?e ep_OpenShell DefaultOpenshellURL) '''' w2 = (Inr u3, w3)"
      "applyClusterRepo x ClusterRepoOpenshellWorkspace (?e ep_OpenShell DefaultOpenshellWorkspaceURL) '''' w3 = (Inr u4, w4)"
      "reconcileNvidiaRepos x now bundled s w4 = (Inr a, w')"
    using assms(2) unfolding reconcileClusterRepos_def bnd_Inr by blast
  have st: "after_collection x now s w = w1" "after_suse x now s w = w2" "after_openshell x now s w = w4"
    using m(1-4) by (simp_all add: after_collection_def after_suse_def after_openshell_def)
  have put: "own (repos t') = (own (repos t))(n \<mapsto> managedRepoSpec url '''' managed_labels)"
    if "applyClusterRepo x n url '''' t = (Inr u, t')" for n url t u t'
    using ensuresD [OF ens_applyClusterRepo [of "\<lambda>m. m = (own (repos t))(n \<mapsto> managedRepoSpec url '''' managed_labels)"] _ that] by simp
  have "others (se_Spec s) (collection_found x s w) (suse_found x now s w) (own (repos w4))"
    unfolding put [OF m(4)] put [OF m(3)] section_does [OF m(2)] section_does [OF m(1)]
    by (simp add: others_def registry_repos_def open_repos_def as_asked_def repo_names collection_found_def suse_found_def st)
  from nvidia_does [OF assms(1) this m(5)] show ?thesis by (simp add: st)
qed

end


text \<open>A catalog with one public NGC repository, the NVIDIA credentials, and a team repository of an earlier catalog.\<close>

definition team_item :: Item where
  "team_item = \<lparr>it_Name = ''Doca'', it_SlugName = ''doca'', it_Description = '''', it_ProjectURL = '''', it_DocumentationURL = '''',
     it_ReferenceGuideURL = '''', it_SourceCodeURL = '''', it_LogoURL = '''', it_ChangelogURL = '''', it_LastUpdatedAt = '''',
     it_PackagingFormat = '''', it_RepositoryURL = ''https://helm.ngc.nvidia.com/nvidia/doca'', it_RepositoryName = '''',
     it_Library = ''NVAIE'', it_Labels = []\<rparr>"

definition team_desk :: desk where
  "team_desk = (desk_with ''p'' [])\<lparr>
     dk_cluster := (dk_cluster (desk_with ''p'' []))\<lparr>cl_secrets := [(''op'', ''nvidia'') \<mapsto> user_pass ''Opaque'' ''nvapi-1'']\<rparr>,
     dk_repos := [(''nvidia-old'', managedRepoSpec ''https://helm.ngc.nvidia.com/nvidia/old'' '''' team_labels),
                  (''mine'', managedRepoSpec ''https://charts.lan'' '''' Map.empty)]\<rparr>"


end
