(* ===== verification/SettingsGit.thy ===== *)
theory SettingsGit
  imports SettingsWorld
begin

text \<open>
  The Fleet GitRepos of the settings controller: which of them a pass over the blueprint catalogs touches, and that a catalog
  that fails costs no other one.
\<close>

section \<open>The calls that GitRepos depend on\<close>

type_synonym git_map = "string \<Rightarrow> GitRepo option"

locale git_store =
  fixes x :: "'s SettingsAPI" and git :: "'s \<Rightarrow> git_map"
  assumes secret_calls: "leaves git (GetSecret (sx_Client x) ns n)" "leaves git (PatchSecret (sx_Client x) ns n sec)"
      "leaves git (sx_DeleteSecret x ns n)"
    and apply_ok: "sx_ApplyGitRepo x n g s = (Inr u, s') \<Longrightarrow> git s' = (git s)(n \<mapsto> g)"
    and apply_err: "sx_ApplyGitRepo x n g s = (Inl e, s') \<Longrightarrow> git s' = (git s)(n \<mapsto> g) \<or> git s' = git s"
    and delete_git: "sx_DeleteGitRepo x n s = (v, s') \<Longrightarrow> git s' = (git s)(n := None) \<or> git s' = git s"
    and list_leaves: "leaves git (sx_ListCatalogRepos x)"
    and list_labelled: "sx_ListCatalogRepos x s = (Inr names, s') \<Longrightarrow> n \<in> set names \<Longrightarrow>
      \<exists>g. git s n = Some g \<and> mget (gr_Labels g) CatalogRepoLabel = ''true''"
begin

lemma keeps: "leaves git m \<Longrightarrow> git (snd (m s)) = git s"
  by (simp add: leaves_def)

lemma credential_keeps: "leaves git (git_credential x n src ns)"
proof -
  have "leaves git (replace_wrong_type x m)" for m
    using secret_calls unfolding leaves_def replace_wrong_type_def by (auto split: prod.split sum.split) (metis snd_conv)+
  then have "leaves git (bnd (replace_wrong_type x m) (\<lambda>_. PatchSecret (sx_Client x) fleetGitRepoNamespace m sec))" for m sec
    by (rule leaves_bnd) (rule secret_calls(2))
  then have "leaves git (mirrorGitCredSecretRef x m src r ns)" for m r
    using secret_calls(1) unfolding leaves_def mirrorGitCredSecretRef_def
    by (auto split: prod.split sum.split option.split) (metis snd_conv)+
  then show ?thesis
    unfolding leaves_def git_credential_def by (auto simp: ret_def split: prod.split sum.split option.split) (metis snd_conv)+
qed

lemma trust_keeps: "leaves git (git_trust x src ns)"
proof (cases "git_CABundleSecretRef src")
  case (Some r)
  have "leaves git (readGitCABundle x ns r)"
    using secret_calls(1) unfolding leaves_def readGitCABundle_def
    by (auto simp: Let_def split: prod.split sum.split option.split) (metis snd_conv)+
  then show ?thesis using Some by (auto simp: git_trust_def intro!: leaves_bnd) (simp add: leaves_def ret_def)
qed (simp add: git_trust_def leaves_def ret_def)

end

text \<open>What the GitRepo of a catalog is, apart from the credential and the trust.\<close>

definition serves :: "git_map \<Rightarrow> BlueprintCatalogSource \<Rightarrow> bool" where
  "serves m cat \<longleftrightarrow>
     (case m (catalogGitRepoName (bc_Name cat)) of
        None \<Rightarrow> False
      | Some g \<Rightarrow> gr_Repo g = git_RepoURL (bc_Source cat) \<and> gr_Branch g = git_branch_or_main (bc_Source cat)
          \<and> gr_Paths g = catalog_paths cat \<and> gr_Labels g = catalog_labels)"

definition managed_catalog :: "git_map \<Rightarrow> string \<Rightarrow> bool" where
  "managed_catalog m n \<longleftrightarrow> (\<exists>g. m n = Some g \<and> mget (gr_Labels g) CatalogRepoLabel = ''true'')"

context git_store begin

lemma applyGitRepo_cases:
  assumes "applyGitRepo x n src ns paths labels s = (r, s')"
  shows "(\<not> isl r \<or> git s' \<noteq> git s) \<longrightarrow>
    (\<exists>g. git s' = (git s)(n \<mapsto> g) \<and> gr_Repo g = git_RepoURL src \<and> gr_Branch g = git_branch_or_main src \<and> gr_Paths g = paths \<and> gr_Labels g = labels)"
proof (cases "git_CredSecretRef src = None \<and> (git_AuthType src \<noteq> '''' \<or> git_Username src \<noteq> '''')")
  case False
  obtain c s1 where c: "git_credential x n src ns s = (c, s1)" by (cases "git_credential x n src ns s")
  have 1: "git s1 = git s" using leavesD [OF credential_keeps c] .
  show ?thesis
  proof (cases c)
    case (Inr cred)
    obtain t s2 where t: "git_trust x src ns s1 = (t, s2)" by (cases "git_trust x src ns s1")
    have 2: "git s2 = git s" using leavesD [OF trust_keeps t] 1 by simp
    show ?thesis
    proof (cases t)
      case ca: (Inr ca)
      define g where "g = \<lparr>gr_Repo = git_RepoURL src, gr_Branch = git_branch_or_main src, gr_Paths = paths,
        gr_ClientSecretName = cred, gr_CABundle = ca, gr_Labels = labels\<rparr>"
      have "sx_ApplyGitRepo x n g s2 = (r, s')"
        using assms False c t Inr ca by (auto simp: applyGitRepo_def bnd_def g_def)
      then have "git s' = (git s)(n \<mapsto> g) \<or> isl r \<and> git s' = git s"
        using apply_ok [of n g s2] apply_err [of n g s2] 2 by (cases r) auto
      moreover have "gr_Repo g = git_RepoURL src" "gr_Branch g = git_branch_or_main src" "gr_Paths g = paths" "gr_Labels g = labels"
        by (simp_all add: g_def)
      ultimately show ?thesis by blast
    qed (use assms False c t Inr 2 in \<open>auto simp: applyGitRepo_def bnd_def\<close>)
  qed (use assms False c 1 in \<open>auto simp: applyGitRepo_def bnd_def\<close>)
qed (use assms in \<open>auto simp: applyGitRepo_def throw_def\<close>)

lemma catalog_step:
  assumes "reconcile_catalog x ns cat s = (r, s')"
  shows "(git s' = git s \<or> serves (git s') cat \<and> (\<forall>n. n \<noteq> catalogGitRepoName (bc_Name cat) \<longrightarrow> git s' n = git s n)) \<and> (isl r \<or> serves (git s') cat)"
proof (cases "bc_Name cat = BlueprintCatalogDefault \<or> git_RepoURL (bc_Source cat) = ''''")
  case False
  obtain u s1 where a: "applyGitRepo x (catalogGitRepoName (bc_Name cat)) (bc_Source cat) ns (catalog_paths cat) catalog_labels s = (u, s1)"
    by (cases "applyGitRepo x (catalogGitRepoName (bc_Name cat)) (bc_Source cat) ns (catalog_paths cat) catalog_labels s")
  have e: "s' = s1" "isl r = isl u" using assms False a by (auto simp: reconcile_catalog_def split: sum.splits)
  show ?thesis using applyGitRepo_cases [OF a] e by (auto simp: serves_def)
next
  case True
  then have "\<exists>e. reconcile_catalog x ns cat = throw e" by (auto simp: reconcile_catalog_def)
  then show ?thesis using assms by (auto simp: throw_def)
qed

lemma catalogs_loop:
  assumes "try_each cats (reconcile_catalog x ns) s = (errs, s')" "distinct (map bc_Name cats)"
  shows "(\<forall>n. git s' n = git s n \<or> (\<exists>cat \<in> set cats. n = catalogGitRepoName (bc_Name cat) \<and> serves (git s') cat))
    \<and> length (filter (\<lambda>cat. \<not> serves (git s') cat) cats) \<le> length errs"
  using assms
proof (induction cats arbitrary: s errs)
  case (Cons cat cats)
  obtain r s1 where r: "reconcile_catalog x ns cat s = (r, s1)" by (cases "reconcile_catalog x ns cat s")
  obtain es s2 where t: "try_each cats (reconcile_catalog x ns) s1 = (es, s2)" by (cases "try_each cats (reconcile_catalog x ns) s1")
  have s2: "s2 = s'" "length errs = (if isl r then Suc (length es) else length es)"
    using Cons.prems(1) r t by (auto split: sum.splits)
  note ih = Cons.IH [OF t [unfolded s2(1)]]
  note st = catalog_step [OF r]
  let ?n = "catalogGitRepoName (bc_Name cat)"
  have same: "git s' ?n = git s1 ?n"
    using ih Cons.prems(2) by (auto simp: catalogGitRepoName_def dest!: spec [of _ ?n])
  then have sv: "serves (git s') cat = serves (git s1) cat" by (simp add: serves_def)
  show ?case
  proof (intro conjI allI)
    fix n
    show "git s' n = git s n \<or> (\<exists>c \<in> set (cat # cats). n = catalogGitRepoName (bc_Name c) \<and> serves (git s') c)"
    proof (cases "n = ?n")
      case False
      then have "git s1 n = git s n" using st by auto
      moreover have "git s' n = git s1 n \<or> (\<exists>c \<in> set cats. n = catalogGitRepoName (bc_Name c) \<and> serves (git s') c)"
        using ih Cons.prems(2) by simp
      ultimately show ?thesis by auto
    qed (use st same sv in auto)
  qed (use ih st s2 sv Cons.prems(2) in auto)
qed simp

lemma prune_one: "git (snd (prune_catalog x n s)) = (git s)(n := None) \<or> git (snd (prune_catalog x n s)) = git s"
proof -
  obtain r s1 where d: "sx_DeleteGitRepo x n s = (r, s1)" by (cases "sx_DeleteGitRepo x n s")
  have "git (snd (delete_ignoring_absent (sx_DeleteGitRepo x n) s)) = git s1" using d by (simp add: delete_ignoring_absent_def split: sum.split)
  moreover have "git (snd (delete_ignoring_absent (sx_DeleteSecret x ns m) t)) = git t" for ns m t
    using keeps [OF secret_calls(3), of ns m t] by (auto simp: delete_ignoring_absent_def split: prod.split sum.split)
  ultimately have "git (snd (prune_catalog x n s)) = git s1"
    unfolding prune_catalog_def by (auto split: prod.split sum.split) (metis snd_conv)+
  then show ?thesis using delete_git [OF d] by simp
qed

lemma prune_loop:
  "git (snd (for_each names (\<lambda>n. if n \<in> keep then ret () else prune_catalog x n) s)) n = git s n
   \<or> n \<in> set names \<and> n \<notin> keep \<and> git (snd (for_each names (\<lambda>n. if n \<in> keep then ret () else prune_catalog x n) s)) n = None"
proof (rule for_each_inv [where P = "\<lambda>t. git t n = git s n \<or> n \<in> set names \<and> n \<notin> keep \<and> git t n = None"])
  fix m t assume "m \<in> set names" "git t n = git s n \<or> n \<in> set names \<and> n \<notin> keep \<and> git t n = None"
  then show "git (snd ((if m \<in> keep then ret () else prune_catalog x m) t)) n = git s n
      \<or> n \<in> set names \<and> n \<notin> keep \<and> git (snd ((if m \<in> keep then ret () else prune_catalog x m) t)) n = None"
    using prune_one [of m t] by (auto simp: ret_def fun_eq_iff split: if_splits)
qed simp

lemma prune_cases:
  assumes "pruneCatalogRepos x keep s = (r, s')"
  shows "git s' n = git s n \<or> n \<notin> keep \<and> git s' n = None \<and> managed_catalog (git s) n"
proof -
  obtain u s1 where l: "sx_ListCatalogRepos x s = (u, s1)" by (cases "sx_ListCatalogRepos x s")
  have 1: "git s1 = git s" using leavesD [OF list_leaves l] .
  show ?thesis
  proof (cases u)
    case (Inr names)
    then have s': "s' = snd (for_each names (\<lambda>n. if n \<in> keep then ret () else prune_catalog x n) s1)"
      using assms l by (simp add: pruneCatalogRepos_def)
    have "n \<in> set names \<Longrightarrow> managed_catalog (git s) n" using list_labelled l Inr by (simp add: managed_catalog_def)
    then show ?thesis using prune_loop [of names keep s1 n] 1 by (auto simp: s')
  qed (use assms l 1 in \<open>auto simp: pruneCatalogRepos_def\<close>)
qed

theorem catalogs_pass:
  assumes "reconcileBlueprintCatalogs x s w = (errs, w')" "distinct (map bc_Name cats)" "cats = set_BlueprintCatalogs (se_Spec s)"
  shows "(\<forall>n. git w' n = git w n
      \<or> (\<exists>cat \<in> set cats. n = catalogGitRepoName (bc_Name cat) \<and> serves (git w') cat)
      \<or> n \<notin> catalogGitRepoName ` bc_Name ` set cats \<and> managed_catalog (git w) n \<and> git w' n = None)
    \<and> length (filter (\<lambda>cat. \<not> serves (git w') cat) cats) \<le> length errs"
proof -
  let ?keep = "catalogGitRepoName ` bc_Name ` set cats"
  obtain es w1 where t: "try_each cats (reconcile_catalog x (se_Namespace s)) w = (es, w1)"
    by (cases "try_each cats (reconcile_catalog x (se_Namespace s)) w")
  obtain p w2 where p: "pruneCatalogRepos x ?keep w1 = (p, w2)" by (cases "pruneCatalogRepos x ?keep w1")
  have e: "w2 = w'" "length es \<le> length errs"
    using assms(1,3) t p by (auto simp: reconcileBlueprintCatalogs_def Let_def split: sum.splits)
  note loop = catalogs_loop [OF t assms(2)]
  have pr: "git w' n = git w1 n \<or> n \<notin> ?keep \<and> git w' n = None \<and> managed_catalog (git w1) n" for n
    using prune_cases [OF p] e(1) by simp
  have sv: "serves (git w') cat = serves (git w1) cat" if "cat \<in> set cats" for cat
    using pr [of "catalogGitRepoName (bc_Name cat)"] that by (auto simp: serves_def)
  have "filter (\<lambda>cat. \<not> serves (git w') cat) cats = filter (\<lambda>cat. \<not> serves (git w1) cat) cats" using sv by (auto intro: filter_cong)
  moreover have "git w' n = git w n \<or> (\<exists>cat \<in> set cats. n = catalogGitRepoName (bc_Name cat) \<and> serves (git w') cat)
      \<or> n \<notin> ?keep \<and> managed_catalog (git w) n \<and> git w' n = None" for n
  proof (cases "n \<in> ?keep")
    case True
    then have "git w' n = git w1 n" using pr [of n] by auto
    then show ?thesis using loop sv by auto
  next
    case False
    then have "git w1 n = git w n" using loop by auto
    then show ?thesis using pr [of n] False by (auto simp: managed_catalog_def)
  qed
  ultimately show ?thesis using loop e(2) by auto
qed

end

section \<open>The in-memory server keeps the laws\<close>

definition dk_gits :: "desk \<Rightarrow> git_map" where "dk_gits s = map_of (dk_git s)"

lemma gits_call:
  assumes "desk_call f s = (u, s')"
  obtains s0 where "dk_gits s0 = dk_gits s" "f s0 = (u, s')"
    | s0 e where "dk_gits s0 = dk_gits s" "u = Inl (Err SOther e)" "s' = snd (f s0) \<or> s' = s0"
proof -
  define s0 where "s0 = s\<lparr>dk_cluster := (dk_cluster s)\<lparr>cl_faults := tl (cl_faults (dk_cluster s))\<rparr>\<rparr>"
  have "dk_gits s0 = dk_gits s" by (simp add: s0_def dk_gits_def)
  moreover have "f s0 = (u, s') \<or> (\<exists>e. u = Inl (Err SOther e) \<and> (s' = snd (f s0) \<or> s' = s0))"
    using assms unfolding desk_call_def Let_def s0_def [symmetric] by (auto split: list.splits option.splits prod.splits bool.splits)
  ultimately show thesis using that by blast
qed

lemma leaves_gits:
  assumes "\<And>s. dk_gits (snd (f s)) = dk_gits s"
  shows "leaves dk_gits (desk_call f)"
  unfolding leaves_def
proof
  fix s
  obtain u s' where c: "desk_call f s = (u, s')" by (cases "desk_call f s")
  then have "dk_gits s' = dk_gits s" by (cases rule: gits_call) (use assms in \<open>metis snd_conv\<close>)+
  then show "dk_gits (snd (desk_call f s)) = dk_gits s" using c by simp
qed

lemma dk_gits_set [simp]: "dk_gits (s\<lparr>dk_cluster := c\<rparr>) = dk_gits s" "dk_gits (s\<lparr>dk_git := xs\<rparr>) = map_of xs"
  by (simp_all add: dk_gits_def)

lemma gits_secret:
  "leaves dk_gits (GetSecret (sx_Client desk_api) ns n)" "leaves dk_gits (PatchSecret (sx_Client desk_api) ns n sec)"
  "leaves dk_gits (sx_DeleteSecret desk_api ns n)" "leaves dk_gits (sx_ListCatalogRepos desk_api)"
  by (simp_all add: desk_api_def desk_client_def leaves_gits set_secret_def split: option.split)
    (simp_all add: leaves_def lift_cluster_def split: prod.split)

lemma gits_apply:
  "sx_ApplyGitRepo desk_api n g s = (Inr u, s') \<Longrightarrow> dk_gits s' = (dk_gits s)(n \<mapsto> g)"
  "sx_ApplyGitRepo desk_api n g s = (Inl e, s') \<Longrightarrow> dk_gits s' = (dk_gits s)(n \<mapsto> g) \<or> dk_gits s' = dk_gits s"
  by (simp_all add: desk_api_def, erule_tac [1] gits_call, erule_tac [3] gits_call) (auto simp: dk_gits_def update_conv')

lemma gits_delete: "sx_DeleteGitRepo desk_api n s = (v, s') \<Longrightarrow> dk_gits s' = (dk_gits s)(n := None) \<or> dk_gits s' = dk_gits s"
  by (simp add: desk_api_def, erule gits_call) (auto simp: dk_gits_def delete_conv' drop_key_def split: if_splits)

lemma gits_list: "sx_ListCatalogRepos desk_api s = (Inr names, s') \<Longrightarrow> n \<in> set names \<Longrightarrow>
    \<exists>g. dk_gits s n = Some g \<and> mget (gr_Labels g) CatalogRepoLabel = ''true''"
  by (simp add: desk_api_def, erule gits_call) (auto simp: labelled_set dk_gits_def)

interpretation desk: git_store desk_api dk_gits
  by unfold_locales (rule gits_secret | erule gits_apply gits_delete | erule (1) gits_list)+

section \<open>Catalogs do not disturb each other\<close>

text \<open>
  C21. One catalog does not disturb another. A pass over catalogs with distinct names changes a GitRepo only to what a listed
  catalog asks for, or removes it when no catalog is listed for it and it carries the marker of a catalog, so that the
  customer's own repository stays; and however the calls fail, at most as many listed catalogs are left without their
  GitRepo as errors are reported.
\<close>

theorem catalogs_independent:
  assumes "git_store x git" "reconcileBlueprintCatalogs x s w = (errs, w')"
    "distinct (map bc_Name (set_BlueprintCatalogs (se_Spec s)))"
  shows "(\<forall>n. git w' n = git w n
      \<or> (\<exists>cat \<in> set (set_BlueprintCatalogs (se_Spec s)). n = catalogGitRepoName (bc_Name cat) \<and> serves (git w') cat)
      \<or> n \<notin> catalogGitRepoName ` bc_Name ` set (set_BlueprintCatalogs (se_Spec s)) \<and> managed_catalog (git w) n \<and> git w' n = None)
    \<and> length (filter (\<lambda>cat. \<not> serves (git w') cat) (set_BlueprintCatalogs (se_Spec s))) \<le> length errs"
  using git_store.catalogs_pass [OF assms(1,2,3) refl] by simp

definition two_catalogs :: "BlueprintCatalogSource list" where
  "two_catalogs = [\<lparr>bc_Name = ''broken'', bc_Paths = [], bc_Source = example_git\<lparr>git_RepoURL := ''''\<rparr>\<rparr>,
                   \<lparr>bc_Name = ''team'', bc_Paths = [], bc_Source = example_git\<rparr>]"

definition catalog_settings :: Settings where
  "catalog_settings = first_settings\<lparr>se_Spec := first_spec\<lparr>set_BlueprintCatalogs := two_catalogs\<rparr>\<rparr>"

definition plain_repo :: "smap \<Rightarrow> GitRepo" where
  "plain_repo labels = \<lparr>gr_Repo = ''https://git.lan/x'', gr_Branch = ''main'', gr_Paths = [], gr_ClientSecretName = None, gr_CABundle = None, gr_Labels = labels\<rparr>"

definition catalog_desk :: desk where
  "catalog_desk = (desk_with ''p'' [])\<lparr>dk_git :=
     [(fleetGitRepoName, plain_repo Map.empty), (catalogGitRepoName ''gone'', plain_repo catalog_labels)]\<rparr>"

theorem catalogs_independent_witness:
  "map fst (dk_git (snd (reconcileBlueprintCatalogs desk_api catalog_settings catalog_desk))) = [fleetGitRepoName, catalogGitRepoName ''team'']
   \<and> length (filter (\<lambda>cat. \<not> serves (dk_gits (snd (reconcileBlueprintCatalogs desk_api catalog_settings catalog_desk))) cat) two_catalogs) \<le> 1"
proof -
  let ?r = "reconcileBlueprintCatalogs desk_api catalog_settings catalog_desk"
  have e: "length (fst ?r) = 1" "map fst (dk_git (snd ?r)) = [fleetGitRepoName, catalogGitRepoName ''team'']"
    by code_simp+
  have c: "set_BlueprintCatalogs (se_Spec catalog_settings) = two_catalogs" by (simp add: catalog_settings_def)
  have d: "distinct (map bc_Name (set_BlueprintCatalogs (se_Spec catalog_settings)))" by (simp add: c two_catalogs_def)
  show ?thesis
    using catalogs_independent [OF desk.git_store_axioms prod.collapse [of ?r, symmetric] d] e unfolding c by simp
qed

end
