(* ===== verification/Api.thy ===== *)
theory Api
  imports Operations Values Names
begin

text \<open>
  The REST API for workloads and blueprints (\<open>internal/api\<close>: \<open>errors.go\<close>, \<open>aiworkload.go\<close>, \<open>aiworkload\_actions.go\<close>,
  \<open>blueprint.go\<close>). A handler takes the path values, the content type and the decoded body, which is a text of
  the decoder's complaint if it could not be decoded, and gives a status with the object or the error that is written.
  The calls of the API server and the random bytes are fields of a record. \<open>managedFields\<close>, which every reply clears, are
  not modelled.
\<close>

section \<open>Errors and replies (errors.go)\<close>

datatype api_sentinel = ErrNotFound | ErrInvalidInput | ErrConflict | ErrForbidden

fun sentinel_text :: "api_sentinel \<Rightarrow> string" where
  "sentinel_text ErrNotFound = ''not found''"
| "sentinel_text ErrInvalidInput = ''invalid input''"
| "sentinel_text ErrConflict = ''conflict''"
| "sentinel_text ErrForbidden = ''forbidden''"

datatype api_err = ApiErr (api_is: "api_sentinel option") (api_text: string)

text \<open>\<open>fmt.Errorf("%w: ...", sentinel)\<close>, and an error of the API server or a text without a sentinel.\<close>

definition api_wrap :: "api_sentinel \<Rightarrow> string \<Rightarrow> api_err" where
  "api_wrap k msg = ApiErr (Some k) (sentinel_text k @ '': '' @ msg)"

definition invalid_input :: "string \<Rightarrow> api_err" where "invalid_input msg = api_wrap ErrInvalidInput msg"
definition api_plain :: "string \<Rightarrow> api_err" where "api_plain msg = ApiErr None msg"

record APIError =
  ae_Code :: string
  ae_Message :: string

type_synonym 'a reply = "nat \<times> (APIError + 'a)"

fun error_code :: "api_sentinel option \<Rightarrow> string" where
  "error_code None = ''INTERNAL_ERROR''"
| "error_code (Some ErrNotFound) = ''NOT_FOUND''"
| "error_code (Some ErrInvalidInput) = ''INVALID_INPUT''"
| "error_code (Some ErrConflict) = ''CONFLICT''"
| "error_code (Some ErrForbidden) = ''FORBIDDEN''"

definition writeError :: "nat \<Rightarrow> api_err \<Rightarrow> 'a reply" where
  "writeError status e = (status, Inl \<lparr>ae_Code = error_code (api_is e), ae_Message = api_text e\<rparr>)"

definition writeJSON :: "nat \<Rightarrow> 'a \<Rightarrow> 'a reply" where
  "writeJSON status v = (status, Inr v)"

definition internal :: "err \<Rightarrow> 'a reply" where "internal e = writeError 500 (api_plain (err_text e))"

section \<open>Requests, objects and calls\<close>

record 'b request =
  rq_ContentType :: string
  rq_Body :: "string + 'b"

record WorkloadBody =
  cb_Name :: string
  cb_Spec :: AIWorkloadSpec
  cb_Status :: "AIWorkloadStatus option"

record BlueprintSpec =
  bs_DisplayName :: string
  bs_Version :: string
  bs_Description :: string
  bs_Source :: string
  bs_Deprecated :: bool
  bs_Components :: "BlueprintComponent list"

record Blueprint =
  bl_Name :: string
  bl_Labels :: smap
  bl_Spec :: BlueprintSpec

record BlueprintBody =
  bb_BlueprintName :: string
  bb_Spec :: BlueprintSpec

text \<open>
  A server-side apply and a creation give back the stored object; \<open>wb_PatchWorkload\<close> is the merge patch from the first
  object to the second.
\<close>

record 's Web =
  wb_ListWorkloads :: "('s, AIWorkload list) act"
  wb_GetWorkload :: "string \<Rightarrow> string \<Rightarrow> ('s, AIWorkload) act"
  wb_EnsureNamespace :: "string \<Rightarrow> ('s, unit) act"
  wb_CreateWorkload :: "string \<Rightarrow> string \<Rightarrow> AIWorkloadSpec \<Rightarrow> ('s, AIWorkload) act"
  wb_ApplyWorkload :: "string \<Rightarrow> string \<Rightarrow> AIWorkloadSpec \<Rightarrow> ('s, AIWorkload) act"
  wb_PatchWorkload :: "AIWorkload \<Rightarrow> AIWorkload \<Rightarrow> ('s, AIWorkload) act"
  wb_UpdateStatus :: "AIWorkload \<Rightarrow> ('s, AIWorkload) act"
  wb_DeleteWorkload :: "string \<Rightarrow> string \<Rightarrow> ('s, unit) act"
  wb_ListBlueprints :: "('s, Blueprint list) act"
  wb_GetBlueprint :: "string \<Rightarrow> ('s, Blueprint) act"
  wb_CreateBlueprint :: "Blueprint \<Rightarrow> ('s, Blueprint) act"
  wb_UpdateBlueprint :: "Blueprint \<Rightarrow> ('s, Blueprint) act"
  wb_DeleteBlueprint :: "string \<Rightarrow> ('s, unit) act"
  wb_Random :: "'s \<Rightarrow> string \<times> 's"

definition json_request :: "string \<Rightarrow> bool" where "json_request ct = has_prefix ct ''application/json''"

definition not_json :: "'a reply" where "not_json = writeError 415 (invalid_input ''Content-Type must be application/json'')"

section \<open>Names of blueprints (blueprint.go)\<close>

text \<open>\<open>slugifyBlueprintName\<close> is written again in this package, with the same expressions as \<open>Slugify\<close>.\<close>

definition slugifyBlueprintName :: "string \<Rightarrow> string" where
  "slugifyBlueprintName name = trim_both CHR ''-'' (dash_runs False (to_lower name))"

definition blueprintCRName :: "string \<Rightarrow> string \<Rightarrow> string" where
  "blueprintCRName family version =
     (let v = (case index_byte version CHR ''+'' of None \<Rightarrow> version | Some i \<Rightarrow> take i version)
      in slugifyBlueprintName family @ ''-'' @ replace_char CHR ''.'' ''-'' v)"

section \<open>Validation of a workload (aiworkload.go)\<close>

definition validateAIWorkloadSpec :: "AIWorkloadSpec \<Rightarrow> AIWorkload option \<Rightarrow> api_err option" where
  "validateAIWorkloadSpec spec existing =
     (if SourceType spec = AIWorkloadSourceBlueprint \<and> TargetClusters spec = []
      then Some (invalid_input ''Blueprint workloads require at least one target cluster'')
      else (case existing of
              Some old \<Rightarrow> if DeployStrategy (Spec old) \<noteq> DeployStrategy spec
                          then Some (invalid_input ''deployStrategy is immutable'') else None
            | None \<Rightarrow> None))"

fun effectiveComponentEnabled :: "ComponentValueOverride list \<Rightarrow> string \<Rightarrow> bool" where
  "effectiveComponentEnabled [] chartName = True"
| "effectiveComponentEnabled (ov # ovs) chartName =
     (if ov_ComponentName ov \<noteq> chartName then effectiveComponentEnabled ovs chartName
      else ov_Enabled ov = None \<or> ov_Enabled ov = Some True)"

definition component_problem :: "AIWorkloadSpec \<Rightarrow> BlueprintComponent list \<Rightarrow> api_err option" where
  "component_problem spec components =
     (case find (\<lambda>ov. ov_ComponentName ov \<notin> bc_ChartName ` set components) (ComponentValues spec) of
        Some ov \<Rightarrow> Some (invalid_input (''componentValues references unknown component '' @ go_quoted (ov_ComponentName ov)))
      | None \<Rightarrow>
          if length (filter (\<lambda>c. effectiveComponentEnabled (ComponentValues spec) (bc_ChartName c)) components) = 0
          then Some (invalid_input ''at least one component must remain enabled'') else None)"

definition validateBlueprintComponentValues :: "'s Web \<Rightarrow> AIWorkloadSpec \<Rightarrow> 's \<Rightarrow> api_err option \<times> 's" where
  "validateBlueprintComponentValues wb spec s =
     (if SourceType spec \<noteq> AIWorkloadSourceBlueprint \<or> ComponentValues spec = [] then (None, s)
      else (case SourceBlueprint spec of
              None \<Rightarrow> (None, s)
            | Some src \<Rightarrow>
                (let crName = blueprintCRName (bps_Name src) (bps_Version src)
                 in case wb_GetBlueprint wb crName s of
                      (Inl e, s1) \<Rightarrow>
                        (Some (if err_is e = SNotFound then invalid_input (''blueprint '' @ go_quoted crName @ '' not found'')
                               else api_plain (err_text e)), s1)
                    | (Inr bp, s1) \<Rightarrow> (component_problem spec (bs_Components (bl_Spec bp)), s1))))"

definition problem_status :: "api_err \<Rightarrow> nat" where
  "problem_status e = (if api_is e = Some ErrInvalidInput then 422 else 500)"

text \<open>Both checks, as creation and update make them: what is reported, and nothing if the spec is admitted.\<close>

definition refuse_spec :: "'s Web \<Rightarrow> AIWorkloadSpec \<Rightarrow> AIWorkload option \<Rightarrow> 's \<Rightarrow> (nat \<times> api_err) option \<times> 's" where
  "refuse_spec wb spec existing s =
     (case validateAIWorkloadSpec spec existing of
        Some e \<Rightarrow> (Some (422, e), s)
      | None \<Rightarrow>
          (case validateBlueprintComponentValues wb spec s of
             (Some e, s1) \<Rightarrow> (Some (problem_status e, e), s1)
           | (None, s1) \<Rightarrow> (None, s1)))"

section \<open>Workloads\<close>

definition listAIWorkloads :: "'s Web \<Rightarrow> 's \<Rightarrow> AIWorkload list reply \<times> 's" where
  "listAIWorkloads wb s =
     (case wb_ListWorkloads wb s of (Inl e, s1) \<Rightarrow> (internal e, s1) | (Inr ws, s1) \<Rightarrow> (writeJSON 200 ws, s1))"

text \<open>An initial status is written too; that this fails is only logged.\<close>

definition store_status :: "'s Web \<Rightarrow> AIWorkloadStatus option \<Rightarrow> AIWorkload \<Rightarrow> 's \<Rightarrow> AIWorkload \<times> 's" where
  "store_status wb st wl s =
     (case st of
        None \<Rightarrow> (wl, s)
      | Some status \<Rightarrow>
          (case wb_UpdateStatus wb (wl\<lparr>Status := status\<rparr>) s of
             (Inl e, s1) \<Rightarrow> (wl\<lparr>Status := status\<rparr>, s1)
           | (Inr wl', s1) \<Rightarrow> (wl', s1)))"

text \<open>The bytes of a dash in UTF-8.\<close>

definition api_em_dash :: string where "api_em_dash = [CHR 0xE2, CHR 0x80, CHR 0x94]"

definition already_exists :: "string \<Rightarrow> string \<Rightarrow> api_err" where
  "already_exists name ns = api_plain (''deployment '' @ go_quoted name @ '' already exists in namespace '' @ go_quoted ns
     @ '' '' @ api_em_dash @ '' choose a different instance name or use Manage to update it'')"

definition createAIWorkload :: "'s Web \<Rightarrow> string \<Rightarrow> WorkloadBody request \<Rightarrow> 's \<Rightarrow> AIWorkload reply \<times> 's" where
  "createAIWorkload wb ns rq s =
     (if ns = '''' then (writeError 400 (invalid_input ''namespace is required''), s)
      else if \<not> json_request (rq_ContentType rq) then (not_json, s)
      else (case rq_Body rq of
              Inl msg \<Rightarrow> (writeError 400 (invalid_input msg), s)
            | Inr body \<Rightarrow>
                (case refuse_spec wb (cb_Spec body) None s of
                   (Some (status, e), s1) \<Rightarrow> (writeError status e, s1)
                 | (None, s1) \<Rightarrow>
                     (case wb_EnsureNamespace wb ns s1 of
                        (Inl e, s2) \<Rightarrow> (internal (wrap_err (''failed to ensure namespace '' @ go_quoted ns) e), s2)
                      | (Inr _, s2) \<Rightarrow>
                          (case wb_CreateWorkload wb ns (cb_Name body) (cb_Spec body) s2 of
                             (Inl e, s3) \<Rightarrow>
                               (if err_is e = SAlreadyExists then writeError 409 (already_exists (cb_Name body) ns)
                                else if err_is e = SInvalid then writeError 422 (invalid_input (err_text e))
                                else internal e, s3)
                           | (Inr wl, s3) \<Rightarrow>
                               (case store_status wb (cb_Status body) wl s3 of (wl', s4) \<Rightarrow> (writeJSON 201 wl', s4)))))))"

definition no_deployment :: "string \<Rightarrow> string \<Rightarrow> api_err" where
  "no_deployment name ns = api_plain (''deployment '' @ go_quoted name @ '' not found in namespace '' @ go_quoted ns)"

definition names_required :: "'a reply" where "names_required = writeError 400 (invalid_input ''namespace and name are required'')"

definition updateAIWorkload :: "'s Web \<Rightarrow> string \<Rightarrow> string \<Rightarrow> WorkloadBody request \<Rightarrow> 's \<Rightarrow> AIWorkload reply \<times> 's" where
  "updateAIWorkload wb ns name rq s =
     (if ns = '''' \<or> name = '''' then (names_required, s)
      else if \<not> json_request (rq_ContentType rq) then (not_json, s)
      else (case rq_Body rq of
              Inl msg \<Rightarrow> (writeError 400 (invalid_input msg), s)
            | Inr body \<Rightarrow>
                (case wb_GetWorkload wb ns name s of
                   (Inl e, s1) \<Rightarrow> (if err_is e = SNotFound then writeError 404 (no_deployment name ns) else internal e, s1)
                 | (Inr existing, s1) \<Rightarrow>
                     (case refuse_spec wb (cb_Spec body) (Some existing) s1 of
                        (Some (status, e), s2) \<Rightarrow> (writeError status e, s2)
                      | (None, s2) \<Rightarrow>
                          (case wb_ApplyWorkload wb ns name (cb_Spec body) s2 of
                             (Inl e, s3) \<Rightarrow>
                               (if err_is e = SInvalid then writeError 422 (invalid_input (err_text e)) else internal e, s3)
                           | (Inr wl, s3) \<Rightarrow>
                               (case store_status wb (cb_Status body) wl s3 of (wl', s4) \<Rightarrow> (writeJSON 200 wl', s4)))))))"

definition deleteAIWorkload_request :: "'s Web \<Rightarrow> string \<Rightarrow> string \<Rightarrow> 's \<Rightarrow> unit reply \<times> 's" where
  "deleteAIWorkload_request wb ns name s =
     (if ns = '''' \<or> name = '''' then (names_required, s)
      else (case wb_DeleteWorkload wb ns name s of
              (Inl e, s1) \<Rightarrow> (if err_is e = SNotFound then writeError 404 (no_deployment name ns) else internal e, s1)
            | (Inr _, s1) \<Rightarrow> (writeJSON 204 (), s1)))"

section \<open>Recovery requests (aiworkload\_actions.go)\<close>

definition operationInProgress :: "AIWorkload \<Rightarrow> bool" where
  "operationInProgress w \<longleftrightarrow>
     (case ActiveOperation (Status w) of None \<Rightarrow> False | Some op \<Rightarrow> op_State op = OperationStateInProgress)
     \<or> (mget (Annotations w) operationAnnotation \<noteq> '''' \<and>
          (case decodeOperation (mget (Annotations w) operationAnnotation) of
             None \<Rightarrow> False | Some op \<Rightarrow> op_State op = OperationStateInProgress))"

definition newNonce :: "'s Web \<Rightarrow> 's \<Rightarrow> string \<times> 's" where
  "newNonce wb s = (case wb_Random wb s of (b, s1) \<Rightarrow> (hex_encode b, s1))"

text \<open>\<open>Inl\<close> is the error it has written itself.\<close>

definition setRequestAnnotation ::
  "'s Web \<Rightarrow> string \<Rightarrow> string \<Rightarrow> string \<Rightarrow> string \<Rightarrow> 's \<Rightarrow> ((nat \<times> api_err) + AIWorkload) \<times> 's" where
  "setRequestAnnotation wb ns name annotation v s =
     (if ns = '''' \<or> name = '''' then (Inl (400, invalid_input ''namespace and name are required''), s)
      else (case wb_GetWorkload wb ns name s of
              (Inl e, s1) \<Rightarrow>
                (Inl (if err_is e = SNotFound then (404, no_deployment name ns) else (500, api_plain (err_text e))), s1)
            | (Inr wl, s1) \<Rightarrow>
                if SourceType (Spec wl) \<noteq> AIWorkloadSourceBlueprint then
                  (Inl (400, invalid_input ''recovery operations are only supported for Blueprint-sourced workloads''), s1)
                else (case wb_PatchWorkload wb wl (setAnnotation annotation v wl) s1 of
                        (Inl e, s2) \<Rightarrow> (Inl (500, api_plain (err_text e)), s2)
                      | (Inr wl', s2) \<Rightarrow> (Inr wl', s2))))"

definition accepted_reply :: "((nat \<times> api_err) + AIWorkload) \<times> 's \<Rightarrow> string option \<Rightarrow> string option reply \<times> 's" where
  "accepted_reply r target =
     (case r of (Inl (status, e), s) \<Rightarrow> (writeError status e, s) | (Inr _, s) \<Rightarrow> (writeJSON 202 target, s))"

definition upgradeAIWorkload :: "'s Web \<Rightarrow> string \<Rightarrow> string \<Rightarrow> string + string \<Rightarrow> 's \<Rightarrow> string option reply \<times> 's" where
  "upgradeAIWorkload wb ns name body s =
     (case body of
        Inl msg \<Rightarrow> (writeError 400 (invalid_input msg), s)
      | Inr target \<Rightarrow>
          if target = '''' then (writeError 400 (invalid_input ''targetVersion is required''), s)
          else (case newNonce wb s of
                  (nonce, s1) \<Rightarrow>
                    accepted_reply (setRequestAnnotation wb ns name upgradeRequestAnnotation (nonce @ ''|'' @ target) s1) (Some target)))"

definition rollbackAIWorkload :: "'s Web \<Rightarrow> string \<Rightarrow> string \<Rightarrow> 's \<Rightarrow> string option reply \<times> 's" where
  "rollbackAIWorkload wb ns name s =
     (case newNonce wb s of
        (nonce, s1) \<Rightarrow> accepted_reply (setRequestAnnotation wb ns name rollbackRequestAnnotation nonce s1) None)"

definition retryAIWorkload :: "'s Web \<Rightarrow> string \<Rightarrow> string \<Rightarrow> 's \<Rightarrow> string option reply \<times> 's" where
  "retryAIWorkload wb ns name s =
     (if ns = '''' \<or> name = '''' then (names_required, s)
      else (case wb_GetWorkload wb ns name s of
              (Inl e, s1) \<Rightarrow> (if err_is e = SNotFound then writeError 404 (no_deployment name ns) else internal e, s1)
            | (Inr wl, s1) \<Rightarrow>
                if operationInProgress wl then (writeError 409 (invalid_input ''an operation is already in progress''), s1)
                else (case newNonce wb s1 of
                        (nonce, s2) \<Rightarrow> accepted_reply (setRequestAnnotation wb ns name retryRequestAnnotation nonce s2) None)))"

section \<open>Blueprints (blueprint.go)\<close>

definition BlueprintNameLabel :: string where "BlueprintNameLabel = ''ai-factory.suse.com/blueprint-name''"
definition BlueprintVersionLabel :: string where "BlueprintVersionLabel = ''ai-factory.suse.com/blueprint-version''"
definition BlueprintSourceLabel :: string where "BlueprintSourceLabel = ''ai-factory.suse.com/source''"
definition BlueprintSourceBundled :: string where "BlueprintSourceBundled = ''bundled''"
definition fleetBundleNameLabel :: string where "fleetBundleNameLabel = ''fleet.cattle.io/bundle-name''"

definition listBlueprints :: "'s Web \<Rightarrow> 's \<Rightarrow> Blueprint list reply \<times> 's" where
  "listBlueprints wb s =
     (case wb_ListBlueprints wb s of (Inl e, s1) \<Rightarrow> (internal e, s1) | (Inr bs, s1) \<Rightarrow> (writeJSON 200 bs, s1))"

text \<open>The family a new blueprint belongs to, or what is wrong with it.\<close>

definition blueprint_family :: "BlueprintBody \<Rightarrow> api_err + string" where
  "blueprint_family body =
     (if bs_DisplayName (bb_Spec body) = '''' then Inl (invalid_input ''displayName is required'')
      else if bs_Version (bb_Spec body) = '''' then Inl (invalid_input ''version is required'')
      else if bb_BlueprintName body \<noteq> '''' then
        (if slugifyBlueprintName (bb_BlueprintName body) = ''''
         then Inl (invalid_input ''blueprintName must contain at least one alphanumeric character'')
         else Inr (slugifyBlueprintName (bb_BlueprintName body)))
      else if slugifyBlueprintName (bs_DisplayName (bb_Spec body)) = ''''
        then Inl (invalid_input ''displayName must contain at least one alphanumeric character'')
      else Inr (slugifyBlueprintName (bs_DisplayName (bb_Spec body))))"

definition new_blueprint :: "string \<Rightarrow> BlueprintSpec \<Rightarrow> Blueprint" where
  "new_blueprint family spec =
     \<lparr>bl_Name = blueprintCRName family (bs_Version spec),
      bl_Labels = [BlueprintNameLabel \<mapsto> family, BlueprintVersionLabel \<mapsto> bs_Version spec], bl_Spec = spec\<rparr>"

definition createBlueprint :: "'s Web \<Rightarrow> BlueprintBody request \<Rightarrow> 's \<Rightarrow> Blueprint reply \<times> 's" where
  "createBlueprint wb rq s =
     (if \<not> json_request (rq_ContentType rq) then (not_json, s)
      else (case rq_Body rq of
              Inl msg \<Rightarrow> (writeError 400 (invalid_input msg), s)
            | Inr body \<Rightarrow>
                (case blueprint_family body of
                   Inl e \<Rightarrow> (writeError 400 e, s)
                 | Inr family \<Rightarrow>
                     (case wb_CreateBlueprint wb (new_blueprint family (bb_Spec body)) s of
                        (Inl e, s1) \<Rightarrow>
                          (if err_is e = SAlreadyExists then
                             writeError 409 (api_wrap ErrConflict (''blueprint with normalized name '' @ go_quoted family @ '' and version ''
                               @ go_quoted (bs_Version (bb_Spec body)) @ '' already exists '' @ api_em_dash @ '' choose a different name or version''))
                           else if err_is e = SInvalid then writeError 422 (invalid_input (err_text e))
                           else internal e, s1)
                      | (Inr bp, s1) \<Rightarrow> (writeJSON 201 bp, s1)))))"

definition no_blueprint :: "string \<Rightarrow> api_err" where
  "no_blueprint name = api_wrap ErrNotFound (''blueprint '' @ go_quoted name @ '' not found'')"

definition read_blueprint :: "'s Web \<Rightarrow> string \<Rightarrow> 's \<Rightarrow> ((nat \<times> api_err) + Blueprint) \<times> 's" where
  "read_blueprint wb name s =
     (case wb_GetBlueprint wb name s of
        (Inl e, s1) \<Rightarrow> (Inl (if err_is e = SNotFound then (404, no_blueprint name) else (500, api_plain (err_text e))), s1)
      | (Inr bp, s1) \<Rightarrow> (Inr bp, s1))"

definition getBlueprint :: "'s Web \<Rightarrow> string \<Rightarrow> 's \<Rightarrow> Blueprint reply \<times> 's" where
  "getBlueprint wb name s =
     (case read_blueprint wb name s of (Inl (status, e), s1) \<Rightarrow> (writeError status e, s1) | (Inr bp, s1) \<Rightarrow> (writeJSON 200 bp, s1))"

definition isManagedBlueprint :: "Blueprint \<Rightarrow> bool" where
  "isManagedBlueprint bp \<longleftrightarrow>
     mget (bl_Labels bp) BlueprintSourceLabel = BlueprintSourceBundled \<or> bl_Labels bp fleetBundleNameLabel \<noteq> None"

definition deleteBlueprint :: "'s Web \<Rightarrow> string \<Rightarrow> 's \<Rightarrow> unit reply \<times> 's" where
  "deleteBlueprint wb name s =
     (case read_blueprint wb name s of
        (Inl (status, e), s1) \<Rightarrow> (writeError status e, s1)
      | (Inr bp, s1) \<Rightarrow>
          if isManagedBlueprint bp then
            (writeError 403 (api_wrap ErrForbidden (''blueprint '' @ go_quoted name
               @ '' is managed by the product or a catalog and cannot be deleted here; ''
               @ ''remove or edit the catalog in git (or disable defaultBlueprints for bundled ones)'')), s1)
          else (case wb_DeleteBlueprint wb name s1 of
                  (Inl e, s2) \<Rightarrow> (if err_is e = SNotFound then writeError 404 (no_blueprint name) else internal e, s2)
                | (Inr _, s2) \<Rightarrow> (writeJSON 204 (), s2)))"

definition updateBlueprint :: "'s Web \<Rightarrow> string \<Rightarrow> BlueprintSpec request \<Rightarrow> 's \<Rightarrow> Blueprint reply \<times> 's" where
  "updateBlueprint wb name rq s =
     (if \<not> json_request (rq_ContentType rq) then (not_json, s)
      else (case rq_Body rq of
              Inl msg \<Rightarrow> (writeError 400 (invalid_input msg), s)
            | Inr spec \<Rightarrow>
                (case read_blueprint wb name s of
                   (Inl (status, e), s1) \<Rightarrow> (writeError status e, s1)
                 | (Inr bp, s1) \<Rightarrow>
                     (case wb_UpdateBlueprint wb (bp\<lparr>bl_Spec := spec\<rparr>) s1 of
                        (Inl e, s2) \<Rightarrow> (internal e, s2)
                      | (Inr bp', s2) \<Rightarrow> (writeJSON 200 bp', s2)))))"

end
