(* ===== verification/ApiPass.thy ===== *)
theory ApiPass
  imports Api
begin

text \<open>
  What the REST API guarantees for workloads and blueprints: a request that is refused changes nothing, what is admitted can be
  deployed by the controller, a recovery request reaches it, and a blueprint is found under the name the controller derives.
\<close>

section \<open>Admitted specs\<close>

text \<open>
  A blueprint workload has a target; if it overrides components, its blueprint exists under the name the controller uses, every
  override names one of its components, and the controller finds a component to deploy.
\<close>

definition admitted :: "(string \<Rightarrow> Blueprint option) \<Rightarrow> AIWorkloadSpec \<Rightarrow> bool" where
  "admitted bps spec \<longleftrightarrow>
     (SourceType spec = AIWorkloadSourceBlueprint \<longrightarrow> TargetClusters spec \<noteq> [] \<and>
        (case SourceBlueprint spec of
           None \<Rightarrow> True
         | Some src \<Rightarrow> ComponentValues spec \<noteq> [] \<longrightarrow>
             (\<exists>bp. bps (bpCRName (bps_Name src) (bps_Version src)) = Some bp
                \<and> (\<forall>ov \<in> set (ComponentValues spec). \<exists>c \<in> set (bs_Components (bl_Spec bp)). bc_ChartName c = ov_ComponentName ov)
                \<and> (\<forall>w. Spec w = spec \<longrightarrow> filterEnabledComponents w (bs_Components (bl_Spec bp)) \<noteq> []))))"

lemma blueprintCRName_controller: "blueprintCRName family version = bpCRName family version"
  by (simp add: blueprintCRName_def bpCRName_def slugifyBlueprintName_def Slugify_def)

lemma effective_controller: "effectiveComponentEnabled (ComponentValues (Spec w)) n = isComponentEnabled w n"
proof -
  have "effectiveComponentEnabled ovs n = (case find (\<lambda>ov. ov_ComponentName ov = n) ovs of
      None \<Rightarrow> True | Some ov \<Rightarrow> (case ov_Enabled ov of None \<Rightarrow> True | Some b \<Rightarrow> b))" for ovs
    by (induction ovs) (auto split: option.split)
  then show ?thesis by (simp add: isComponentEnabled_def)
qed

lemma no_component_problem:
  assumes "component_problem spec components = None" "ov \<in> set (ComponentValues spec)"
  shows "\<exists>c \<in> set components. bc_ChartName c = ov_ComponentName ov"
proof -
  have "ov_ComponentName ov \<in> bc_ChartName ` set components"
    using assms by (auto simp: component_problem_def find_None_iff split: option.splits)
  then show ?thesis by auto
qed

lemma component_remains:
  assumes "component_problem spec components = None" "Spec w = spec"
  shows "filterEnabledComponents w components \<noteq> []"
  using assms effective_controller [of w]
  by (auto simp: component_problem_def filterEnabledComponents_def filter_empty_conv split: option.splits if_splits)

section \<open>The laws of the API server\<close>

locale web_store =
  fixes wb :: "'s Web" and wls :: "'s \<Rightarrow> string \<times> string \<Rightarrow> AIWorkload option" and bps :: "'s \<Rightarrow> string \<Rightarrow> Blueprint option"
  assumes reads: "leaves wls (wb_GetWorkload wb ns n)" "leaves wls (wb_GetBlueprint wb n)" "leaves wls (wb_EnsureNamespace wb ns)"
      "wb_Random wb s = (v, s') \<Longrightarrow> wls s' = wls s" "leaves bps (wb_GetWorkload wb ns n)" "leaves bps (wb_GetBlueprint wb n)"
    and get_ok: "wb_GetWorkload wb ns n s = (Inr w, s') \<Longrightarrow> wls s (ns, n) = Some w \<and> wl_Namespace w = ns \<and> wl_Name w = n"
    and create_ok: "wb_CreateWorkload wb ns n spec s = (Inr w, s') \<Longrightarrow>
      Spec w = spec \<and> wl_Namespace w = ns \<and> wl_Name w = n \<and> wls s (ns, n) = None \<and> wls s' = (wls s)((ns, n) \<mapsto> w)"
    and create_err: "wb_CreateWorkload wb ns n spec s = (Inl e, s') \<Longrightarrow> err_is e \<in> {SAlreadyExists, SInvalid} \<Longrightarrow> wls s' = wls s"
    and apply_ok: "wb_ApplyWorkload wb ns n spec s = (Inr w, s') \<Longrightarrow>
      Spec w = spec \<and> wl_Namespace w = ns \<and> wl_Name w = n \<and> wls s' = (wls s)((ns, n) \<mapsto> w)"
    and apply_err: "wb_ApplyWorkload wb ns n spec s = (Inl e, s') \<Longrightarrow> err_is e = SInvalid \<Longrightarrow> wls s' = wls s"
    and status_keeps: "wb_UpdateStatus wb w s = (r, s') \<Longrightarrow> wls s' = wls s
      \<or> (\<exists>old. wls s (wl_Namespace w, wl_Name w) = Some old \<and> wls s' = (wls s)((wl_Namespace w, wl_Name w) \<mapsto> old\<lparr>Status := Status w\<rparr>))"
    and delete_err: "wb_DeleteWorkload wb ns n s = (Inl e, s') \<Longrightarrow> err_is e = SNotFound \<Longrightarrow> wls s' = wls s"
    and patch_ok: "wb_PatchWorkload wb old (setAnnotation k v old) s = (Inr w, s') \<Longrightarrow> wls s (wl_Namespace old, wl_Name old) = Some old \<Longrightarrow>
      w = setAnnotation k v old \<and> wls s' = (wls s)((wl_Namespace old, wl_Name old) \<mapsto> w)"
    and blueprint_ok: "wb_GetBlueprint wb n s = (Inr bp, s') \<Longrightarrow> bps s n = Some bp"
    and blueprint_created: "wb_CreateBlueprint wb bp s = (Inr bp', s') \<Longrightarrow> bp' = bp \<and> bps s' = (bps s)(bl_Name bp \<mapsto> bp)"
begin

lemma values_ok:
  assumes "validateBlueprintComponentValues wb spec s = (p, s')" "validateAIWorkloadSpec spec existing = None"
  shows "wls s' = wls s \<and> (p = None \<longrightarrow> admitted (bps s) spec)"
proof -
  have t: "SourceType spec = AIWorkloadSourceBlueprint \<longrightarrow> TargetClusters spec \<noteq> []"
    using assms(2) by (auto simp: validateAIWorkloadSpec_def split: if_splits)
  consider (skip) "SourceType spec \<noteq> AIWorkloadSourceBlueprint \<or> ComponentValues spec = []"
    | (none) "SourceBlueprint spec = None" | (src) src where "SourceType spec = AIWorkloadSourceBlueprint" "ComponentValues spec \<noteq> []" "SourceBlueprint spec = Some src"
    by (cases "SourceBlueprint spec") auto
  then show ?thesis
  proof cases
    case skip
    then show ?thesis using assms(1) t by (auto simp: validateBlueprintComponentValues_def admitted_def split: option.splits)
  next
    case none
    then show ?thesis using assms(1) t by (auto simp: validateBlueprintComponentValues_def admitted_def split: if_splits)
  next
    case src
    let ?n = "blueprintCRName (bps_Name src) (bps_Version src)"
    obtain r s1 where g: "wb_GetBlueprint wb ?n s = (r, s1)" by (cases "wb_GetBlueprint wb ?n s")
    have l: "wls s1 = wls s" using leavesD [OF reads(2) g] .
    show ?thesis
    proof (cases r)
      case (Inr bp)
      then have p: "p = component_problem spec (bs_Components (bl_Spec bp))" "s' = s1"
        using assms(1) src g by (simp_all add: validateBlueprintComponentValues_def Let_def)
      have "admitted (bps s) spec" if "p = None"
        using that p(1) src t blueprint_ok [OF g [unfolded Inr]] no_component_problem component_remains
        by (auto simp: admitted_def blueprintCRName_controller [symmetric])
      then show ?thesis using l p(2) by simp
    qed (use assms(1) src g l in \<open>auto simp: validateBlueprintComponentValues_def Let_def\<close>)
  qed
qed

lemma refuse_ok:
  assumes "refuse_spec wb spec existing s = (p, s')"
  shows "wls s' = wls s \<and> (p = None \<longrightarrow> admitted (bps s) spec \<and> (\<forall>old. existing = Some old \<longrightarrow> DeployStrategy (Spec old) = DeployStrategy spec))"
proof (cases "validateAIWorkloadSpec spec existing")
  case None
  obtain q s1 where v: "validateBlueprintComponentValues wb spec s = (q, s1)" by (cases "validateBlueprintComponentValues wb spec s")
  have d: "\<forall>old. existing = Some old \<longrightarrow> DeployStrategy (Spec old) = DeployStrategy spec"
    using None by (auto simp: validateAIWorkloadSpec_def split: if_splits)
  show ?thesis using values_ok [OF v None] assms None v d by (auto simp: refuse_spec_def split: option.splits)
qed (use assms in \<open>auto simp: refuse_spec_def\<close>)

text \<open>Writing a status afterwards keeps the spec.\<close>

lemma status_spec:
  assumes "store_status wb st w s = (w', s')" "wls s (wl_Namespace w, wl_Name w) = Some v"
  shows "\<exists>v'. wls s' (wl_Namespace w, wl_Name w) = Some v' \<and> Spec v' = Spec v"
proof (cases st)
  case (Some status)
  obtain r s1 where u: "wb_UpdateStatus wb (w\<lparr>Status := status\<rparr>) s = (r, s1)" by (cases "wb_UpdateStatus wb (w\<lparr>Status := status\<rparr>) s")
  have "s' = s1" using assms(1) Some u by (auto simp: store_status_def split: sum.splits)
  then show ?thesis using status_keeps [OF u] assms(2) by auto
qed (use assms in \<open>auto simp: store_status_def\<close>)

lemma create_pass:
  assumes "createAIWorkload wb ns rq s = ((status, r), s')"
  shows "(\<forall>w. r = Inr w \<longrightarrow> (\<exists>body v. rq_Body rq = Inr body \<and> wls s (ns, cb_Name body) = None
      \<and> wls s' (ns, cb_Name body) = Some v \<and> Spec v = cb_Spec body \<and> admitted (bps s) (cb_Spec body)))
    \<and> (isl r \<and> status < 500 \<longrightarrow> wls s' = wls s)"
proof (cases "ns = '''' \<or> \<not> json_request (rq_ContentType rq)")
  case False
  show ?thesis
  proof (cases "rq_Body rq")
    case body: (Inr body)
    obtain p s1 where v: "refuse_spec wb (cb_Spec body) None s = (p, s1)" by (cases "refuse_spec wb (cb_Spec body) None s")
    note ok = refuse_ok [OF v]
    show ?thesis
    proof (cases p)
      case None
      obtain n s2 where n: "wb_EnsureNamespace wb ns s1 = (n, s2)" by (cases "wb_EnsureNamespace wb ns s1")
      have 2: "wls s2 = wls s" using leavesD [OF reads(3) n] ok by simp
      show ?thesis
      proof (cases n)
        case nr: (Inr u)
        obtain c s3 where c: "wb_CreateWorkload wb ns (cb_Name body) (cb_Spec body) s2 = (c, s3)"
          by (cases "wb_CreateWorkload wb ns (cb_Name body) (cb_Spec body) s2")
        show ?thesis
        proof (cases c)
          case (Inl e)
          then show ?thesis using assms False body v None n nr c create_err [OF c [unfolded Inl]] 2
            by (auto simp: createAIWorkload_def internal_def writeError_def split: if_splits)
        next
          case (Inr w)
          note cr = create_ok [OF c [unfolded Inr]]
          obtain w' s4 where st: "store_status wb (cb_Status body) w s3 = (w', s4)" by (cases "store_status wb (cb_Status body) w s3")
          have "\<exists>v'. wls s4 (ns, cb_Name body) = Some v' \<and> Spec v' = cb_Spec body"
            using status_spec [OF st, of w] cr by auto
          then show ?thesis using assms False body v None n nr c Inr st ok cr 2
            by (auto simp: createAIWorkload_def writeJSON_def)
        qed
      qed (use assms False body v None n in \<open>auto simp: createAIWorkload_def internal_def writeError_def\<close>)
    qed (use assms False body v ok in \<open>auto simp: createAIWorkload_def writeError_def\<close>)
  qed (use assms False in \<open>auto simp: createAIWorkload_def writeError_def\<close>)
qed (use assms in \<open>auto simp: createAIWorkload_def not_json_def writeError_def split: if_splits\<close>)

lemma update_pass:
  assumes "updateAIWorkload wb ns n rq s = ((status, r), s')"
  shows "(\<forall>w. r = Inr w \<longrightarrow> (\<exists>body old v. rq_Body rq = Inr body \<and> wls s (ns, n) = Some old \<and> DeployStrategy (Spec old) = DeployStrategy (cb_Spec body)
      \<and> wls s' (ns, n) = Some v \<and> Spec v = cb_Spec body \<and> admitted (bps s) (cb_Spec body)))
    \<and> (isl r \<and> status < 500 \<longrightarrow> wls s' = wls s)"
proof (cases "ns = '''' \<or> n = '''' \<or> \<not> json_request (rq_ContentType rq)")
  case False
  show ?thesis
  proof (cases "rq_Body rq")
    case body: (Inr body)
    obtain g s0 where g: "wb_GetWorkload wb ns n s = (g, s0)" by (cases "wb_GetWorkload wb ns n s")
    have 0: "wls s0 = wls s" "bps s0 = bps s" using leavesD [OF reads(1) g] leavesD [OF reads(5) g] by simp_all
    show ?thesis
    proof (cases g)
      case old: (Inr old)
      obtain p s1 where v: "refuse_spec wb (cb_Spec body) (Some old) s0 = (p, s1)" by (cases "refuse_spec wb (cb_Spec body) (Some old) s0")
      note ok = refuse_ok [OF v, unfolded 0]
      show ?thesis
      proof (cases p)
        case None
        obtain c s3 where c: "wb_ApplyWorkload wb ns n (cb_Spec body) s1 = (c, s3)" by (cases "wb_ApplyWorkload wb ns n (cb_Spec body) s1")
        show ?thesis
        proof (cases c)
          case (Inl e)
          then show ?thesis using assms False body g old v None c apply_err [OF c [unfolded Inl]] ok
            by (auto simp: updateAIWorkload_def internal_def writeError_def split: if_splits)
        next
          case (Inr w)
          note ap = apply_ok [OF c [unfolded Inr]]
          obtain w' s4 where st: "store_status wb (cb_Status body) w s3 = (w', s4)" by (cases "store_status wb (cb_Status body) w s3")
          have "\<exists>v'. wls s4 (ns, n) = Some v' \<and> Spec v' = cb_Spec body" using status_spec [OF st, of w] ap by auto
          then show ?thesis using assms False body g old v None c Inr st ok get_ok [OF g [unfolded old]]
            by (auto simp: updateAIWorkload_def writeJSON_def)
        qed
      qed (use assms False body g old v ok in \<open>auto simp: updateAIWorkload_def writeError_def\<close>)
    qed (use assms False body g 0 in \<open>auto simp: updateAIWorkload_def internal_def writeError_def split: if_splits\<close>)
  qed (use assms False in \<open>auto simp: updateAIWorkload_def writeError_def\<close>)
qed (use assms in \<open>auto simp: updateAIWorkload_def names_required_def not_json_def writeError_def split: if_splits\<close>)

text \<open>Recovery requests.\<close>

lemma request_pass:
  assumes "setRequestAnnotation wb ns n k v s = (r, s')"
  shows "case r of Inr w \<Rightarrow> \<exists>old. wls s (ns, n) = Some old \<and> SourceType (Spec old) = AIWorkloadSourceBlueprint
      \<and> wls s' = (wls s)((ns, n) \<mapsto> setAnnotation k v old)
    | Inl (status, e) \<Rightarrow> status < 500 \<longrightarrow> wls s' = wls s"
proof (cases "ns = '''' \<or> n = ''''")
  case False
  obtain g s1 where g: "wb_GetWorkload wb ns n s = (g, s1)" by (cases "wb_GetWorkload wb ns n s")
  have 1: "wls s1 = wls s" using leavesD [OF reads(1) g] .
  show ?thesis
  proof (cases g)
    case old: (Inr old)
    show ?thesis
    proof (cases "SourceType (Spec old) = AIWorkloadSourceBlueprint")
      case True
      obtain q s2 where q: "wb_PatchWorkload wb old (setAnnotation k v old) s1 = (q, s2)" by (cases "wb_PatchWorkload wb old (setAnnotation k v old) s1")
      show ?thesis using assms False g old True q patch_ok [of old k v s1 _ s2] get_ok [OF g [unfolded old]] 1
        by (cases q) (auto simp: setRequestAnnotation_def)
    qed (use assms False g old 1 in \<open>auto simp: setRequestAnnotation_def\<close>)
  qed (use assms False g 1 in \<open>auto simp: setRequestAnnotation_def split: if_splits\<close>)
qed (use assms in \<open>auto simp: setRequestAnnotation_def\<close>)

lemma upgrade_pass:
  assumes "upgradeAIWorkload wb ns n body s = ((status, r), s')"
  shows "(\<forall>x. r = Inr x \<longrightarrow> (\<exists>target old. body = Inr target \<and> target \<noteq> '''' \<and> wls s (ns, n) = Some old
      \<and> SourceType (Spec old) = AIWorkloadSourceBlueprint
      \<and> wls s' (ns, n) = Some (setAnnotation upgradeRequestAnnotation (fst (newNonce wb s) @ ''|'' @ target) old)))
    \<and> (isl r \<and> status < 500 \<longrightarrow> wls s' = wls s)"
proof (cases body)
  case (Inr target)
  show ?thesis
  proof (cases "target = ''''")
    case False
    obtain b s1 where r: "wb_Random wb s = (b, s1)" by (cases "wb_Random wb s")
    define nonce where "nonce = hex_encode b"
    have nc: "newNonce wb s = (nonce, s1)" by (simp add: newNonce_def r nonce_def)
    obtain q s2 where q: "setRequestAnnotation wb ns n upgradeRequestAnnotation (nonce @ ''|'' @ target) s1 = (q, s2)"
      by (cases "setRequestAnnotation wb ns n upgradeRequestAnnotation (nonce @ ''|'' @ target) s1")
    show ?thesis using assms Inr False nc q request_pass [OF q] reads(4) [OF r]
      by (cases q) (auto simp: upgradeAIWorkload_def accepted_reply_def writeError_def writeJSON_def)
  qed (use assms Inr in \<open>auto simp: upgradeAIWorkload_def writeError_def\<close>)
qed (use assms in \<open>auto simp: upgradeAIWorkload_def writeError_def\<close>)

end

end
