(* ===== verification/ApiWorld.thy ===== *)
theory ApiWorld
  imports ApiPass
begin

text \<open>
  An in-memory server for the REST API, in which the laws of \<open>web_store\<close> hold, and what the endpoints for workloads and blueprints
  guarantee: accepted specs can be deployed, an upgrade request starts the operation, a blueprint is found by the controller.
\<close>

section \<open>An in-memory server\<close>

record shelf =
  sf_workloads :: "AIWorkload list"
  sf_blueprints :: "Blueprint list"
  sf_random :: "string list"
  sf_faults :: "(bool \<times> string) option list"

definition keyed :: "('a \<Rightarrow> 'k) \<Rightarrow> 'a list \<Rightarrow> 'k \<Rightarrow> 'a option" where
  "keyed key xs k = find (\<lambda>x. key x = k) xs"

definition put_keyed :: "('a \<Rightarrow> 'k) \<Rightarrow> 'a \<Rightarrow> 'a list \<Rightarrow> 'a list" where
  "put_keyed key x xs = x # filter (\<lambda>y. key y \<noteq> key x) xs"

definition wl_key :: "AIWorkload \<Rightarrow> string \<times> string" where "wl_key w = (wl_Namespace w, wl_Name w)"

definition sf_wls :: "shelf \<Rightarrow> string \<times> string \<Rightarrow> AIWorkload option" where "sf_wls s = keyed wl_key (sf_workloads s)"
definition sf_bps :: "shelf \<Rightarrow> string \<Rightarrow> Blueprint option" where "sf_bps s = keyed bl_Name (sf_blueprints s)"

definition shelf_call :: "(shelf \<Rightarrow> (err + 'a) \<times> shelf) \<Rightarrow> (shelf, 'a) act" where
  "shelf_call f s =
     (let s0 = s\<lparr>sf_faults := tl (sf_faults s)\<rparr>
      in case sf_faults s of
           Some (True, e) # _ \<Rightarrow> (Inl (Err SOther e), snd (f s0))
         | Some (False, e) # _ \<Rightarrow> (Inl (Err SOther e), s0)
         | _ \<Rightarrow> f s0)"

definition looked_up :: "'a option \<Rightarrow> shelf \<Rightarrow> (err + 'a) \<times> shelf" where
  "looked_up x s = (case x of None \<Rightarrow> Inl (Err SNotFound ''not found'') | Some v \<Rightarrow> Inr v, s)"

definition no_status :: AIWorkloadStatus where
  "no_status = \<lparr>st_Phase = PhasePending, ClusterStatuses = [], PullSecretDeliveries = [], Conditions = Map.empty, ObservedGeneration = 0,
     DeployedSource = None, ComponentStatuses = [], ActiveOperation = None, RenderBaselines = [], Customized = False\<rparr>"

definition new_workload :: "string \<Rightarrow> string \<Rightarrow> AIWorkloadSpec \<Rightarrow> AIWorkload" where
  "new_workload ns n spec = \<lparr>wl_Name = n, wl_Namespace = ns, wl_UID = ns @ ''/'' @ n, wl_Generation = 1, wl_CreationTimestamp = 0,
     wl_Deleting = False, wl_Finalizers = [], Annotations = Map.empty, Spec = spec, Status = no_status\<rparr>"

definition put_wl :: "AIWorkload \<Rightarrow> shelf \<Rightarrow> (err + AIWorkload) \<times> shelf" where
  "put_wl w s = (Inr w, s\<lparr>sf_workloads := put_keyed wl_key w (sf_workloads s)\<rparr>)"

definition put_bp :: "Blueprint \<Rightarrow> shelf \<Rightarrow> (err + Blueprint) \<times> shelf" where
  "put_bp b s = (Inr b, s\<lparr>sf_blueprints := put_keyed bl_Name b (sf_blueprints s)\<rparr>)"

text \<open>What is stored under the key is changed, and nothing is found otherwise.\<close>

definition edit :: "(shelf \<Rightarrow> 'a option) \<Rightarrow> ('a \<Rightarrow> shelf \<Rightarrow> (err + 'b) \<times> shelf) \<Rightarrow> (shelf, 'b) act" where
  "edit look f = shelf_call (\<lambda>s. case look s of None \<Rightarrow> (Inl (Err SNotFound ''not found''), s) | Some v \<Rightarrow> f v s)"

definition merged :: "smap \<Rightarrow> smap \<Rightarrow> smap \<Rightarrow> smap" where
  "merged old new cur k = (if new k = old k then cur k else new k)"

definition shelf_web :: "shelf Web" where
  "shelf_web = \<lparr>
     wb_ListWorkloads = shelf_call (\<lambda>s. (Inr (sf_workloads s), s)),
     wb_GetWorkload = (\<lambda>ns n. shelf_call (\<lambda>s. looked_up (sf_wls s (ns, n)) s)),
     wb_EnsureNamespace = (\<lambda>ns. shelf_call (\<lambda>s. (Inr (), s))),
     wb_CreateWorkload = (\<lambda>ns n spec. shelf_call (\<lambda>s.
       if sf_wls s (ns, n) \<noteq> None then (Inl (Err SAlreadyExists ''already exists''), s)
       else if n = '''' then (Inl (Err SInvalid ''name is required''), s) else put_wl (new_workload ns n spec) s)),
     wb_ApplyWorkload = (\<lambda>ns n spec. shelf_call (\<lambda>s.
       put_wl (case sf_wls s (ns, n) of None \<Rightarrow> new_workload ns n spec
                 | Some old \<Rightarrow> old\<lparr>Spec := spec, wl_Generation := wl_Generation old + 1, wl_Namespace := ns, wl_Name := n\<rparr>) s)),
     wb_PatchWorkload = (\<lambda>old new. edit (\<lambda>s. sf_wls s (wl_key old))
       (\<lambda>cur. put_wl (cur\<lparr>Annotations := merged (Annotations old) (Annotations new) (Annotations cur)\<rparr>))),
     wb_UpdateStatus = (\<lambda>new. edit (\<lambda>s. sf_wls s (wl_key new)) (\<lambda>old. put_wl (old\<lparr>Status := Status new\<rparr>))),
     wb_DeleteWorkload = (\<lambda>ns n. edit (\<lambda>s. sf_wls s (ns, n))
       (\<lambda>old s. (Inr (), s\<lparr>sf_workloads := filter (\<lambda>w. wl_key w \<noteq> (ns, n)) (sf_workloads s)\<rparr>))),
     wb_ListBlueprints = shelf_call (\<lambda>s. (Inr (sf_blueprints s), s)),
     wb_GetBlueprint = (\<lambda>n. shelf_call (\<lambda>s. looked_up (sf_bps s n) s)),
     wb_CreateBlueprint = (\<lambda>b. shelf_call (\<lambda>s. if sf_bps s (bl_Name b) \<noteq> None then (Inl (Err SAlreadyExists ''already exists''), s) else put_bp b s)),
     wb_UpdateBlueprint = (\<lambda>b. edit (\<lambda>s. sf_bps s (bl_Name b)) (\<lambda>_. put_bp b)),
     wb_DeleteBlueprint = (\<lambda>n. edit (\<lambda>s. sf_bps s n) (\<lambda>_ s. (Inr (), s\<lparr>sf_blueprints := filter (\<lambda>b. bl_Name b \<noteq> n) (sf_blueprints s)\<rparr>))),
     wb_Random = (\<lambda>s. (case sf_random s of [] \<Rightarrow> ''0'' | x # _ \<Rightarrow> x, s\<lparr>sf_random := tl (sf_random s)\<rparr>))\<rparr>"

lemma keyed_key: "keyed key xs k = Some x \<Longrightarrow> key x = k"
  by (simp add: keyed_def find_Some_iff) blast

lemma keyed_put: "keyed key (put_keyed key x xs) = (keyed key xs)(key x \<mapsto> x)"
proof
  fix k
  show "keyed key (put_keyed key x xs) k = ((keyed key xs)(key x \<mapsto> x)) k"
    by (induction xs) (auto simp: keyed_def put_keyed_def)
qed

lemma sf_wls_key: "sf_wls s k = Some w \<Longrightarrow> (wl_Namespace w, wl_Name w) = k"
  using keyed_key [of wl_key "sf_workloads s"] by (simp add: sf_wls_def wl_key_def)

lemma put_wl_ok: "put_wl w s = (u, s') \<Longrightarrow> u = Inr w \<and> sf_wls s' = (sf_wls s)((wl_Namespace w, wl_Name w) \<mapsto> w)"
  by (auto simp: put_wl_def sf_wls_def keyed_put wl_key_def)

lemma put_bp_ok: "put_bp b s = (u, s') \<Longrightarrow> u = Inr b \<and> sf_bps s' = (sf_bps s)(bl_Name b \<mapsto> b)"
  by (auto simp: put_bp_def sf_bps_def keyed_put)

text \<open>Whatever the schedule of faults does, a call ends like the undisturbed one or with an error that nobody interprets.\<close>

lemma shelf_call_cases:
  assumes "shelf_call f s = (u, s')"
  obtains s0 where "sf_wls s0 = sf_wls s" "sf_bps s0 = sf_bps s" "f s0 = (u, s')"
    | s0 e where "sf_wls s0 = sf_wls s" "sf_bps s0 = sf_bps s" "u = Inl (Err SOther e)" "s' = snd (f s0) \<or> s' = s0"
proof -
  define s0 where "s0 = s\<lparr>sf_faults := tl (sf_faults s)\<rparr>"
  have "sf_wls s0 = sf_wls s" "sf_bps s0 = sf_bps s" by (simp_all add: s0_def sf_wls_def sf_bps_def)
  moreover have "f s0 = (u, s') \<or> (\<exists>e. u = Inl (Err SOther e) \<and> (s' = snd (f s0) \<or> s' = s0))"
    using assms unfolding shelf_call_def Let_def s0_def [symmetric] by (auto split: list.splits option.splits prod.splits bool.splits)
  ultimately show thesis using that by blast
qed

lemma leaves_shelf_call:
  assumes "\<And>s. snd (f s) = s"
  shows "leaves sf_wls (shelf_call f)" "leaves sf_bps (shelf_call f)"
proof -
  have "sf_wls (snd (shelf_call f s)) = sf_wls s \<and> sf_bps (snd (shelf_call f s)) = sf_bps s" for s
  proof -
    obtain u s' where c: "shelf_call f s = (u, s')" by (cases "shelf_call f s")
    then have "sf_wls s' = sf_wls s \<and> sf_bps s' = sf_bps s" by (cases rule: shelf_call_cases) (use assms in \<open>metis snd_conv\<close>)+
    then show ?thesis using c by simp
  qed
  then show "leaves sf_wls (shelf_call f)" "leaves sf_bps (shelf_call f)" by (simp_all add: leaves_def)
qed

lemma shelf_reads:
  "leaves sf_wls (wb_GetWorkload shelf_web ns n)" "leaves sf_wls (wb_GetBlueprint shelf_web n)" "leaves sf_wls (wb_EnsureNamespace shelf_web ns)"
  "leaves sf_bps (wb_GetWorkload shelf_web ns n)" "leaves sf_bps (wb_GetBlueprint shelf_web n)"
  by (simp_all add: shelf_web_def leaves_shelf_call looked_up_def)

lemma shelf_random: "wb_Random shelf_web s = (v, s') \<Longrightarrow> sf_wls s' = sf_wls s"
  by (auto simp: shelf_web_def sf_wls_def)

lemma shelf_get: "wb_GetWorkload shelf_web ns n s = (Inr w, s') \<Longrightarrow> sf_wls s (ns, n) = Some w \<and> wl_Namespace w = ns \<and> wl_Name w = n"
  by (simp add: shelf_web_def, erule shelf_call_cases) (auto simp: looked_up_def split: option.splits dest: sf_wls_key)

lemma shelf_create: "wb_CreateWorkload shelf_web ns n spec s = (Inr w, s') \<Longrightarrow>
    Spec w = spec \<and> wl_Namespace w = ns \<and> wl_Name w = n \<and> sf_wls s (ns, n) = None \<and> sf_wls s' = (sf_wls s)((ns, n) \<mapsto> w)"
  by (simp add: shelf_web_def, erule shelf_call_cases) (auto simp: new_workload_def split: if_splits dest!: put_wl_ok)

lemma shelf_create_err: "wb_CreateWorkload shelf_web ns n spec s = (Inl e, s') \<Longrightarrow> err_is e \<in> {SAlreadyExists, SInvalid} \<Longrightarrow> sf_wls s' = sf_wls s"
  by (simp add: shelf_web_def, erule shelf_call_cases) (auto split: if_splits dest!: put_wl_ok)

lemma shelf_apply: "wb_ApplyWorkload shelf_web ns n spec s = (Inr w, s') \<Longrightarrow>
    Spec w = spec \<and> wl_Namespace w = ns \<and> wl_Name w = n \<and> sf_wls s' = (sf_wls s)((ns, n) \<mapsto> w)"
  by (simp add: shelf_web_def, erule shelf_call_cases) (auto simp: new_workload_def split: option.splits dest!: put_wl_ok)

lemma shelf_apply_err: "wb_ApplyWorkload shelf_web ns n spec s = (Inl e, s') \<Longrightarrow> err_is e = SInvalid \<Longrightarrow> sf_wls s' = sf_wls s"
  by (simp add: shelf_web_def, erule shelf_call_cases) (auto dest!: put_wl_ok)

lemma put_status:
  assumes "sf_wls s k = Some old"
  shows "sf_wls (snd (put_wl (old\<lparr>Status := st\<rparr>) s)) = (sf_wls s)(k \<mapsto> old\<lparr>Status := st\<rparr>)"
  using put_wl_ok [of "old\<lparr>Status := st\<rparr>" s] sf_wls_key [OF assms] by (cases "put_wl (old\<lparr>Status := st\<rparr>) s") auto

lemma shelf_status:
  assumes "wb_UpdateStatus shelf_web w s = (r, s')"
  shows "sf_wls s' = sf_wls s
    \<or> (\<exists>old. sf_wls s (wl_Namespace w, wl_Name w) = Some old \<and> sf_wls s' = (sf_wls s)((wl_Namespace w, wl_Name w) \<mapsto> old\<lparr>Status := Status w\<rparr>))"
proof -
  let ?f = "\<lambda>s. case sf_wls s (wl_key w) of None \<Rightarrow> (Inl (Err SNotFound ''not found''), s) | Some old \<Rightarrow> put_wl (old\<lparr>Status := Status w\<rparr>) s"
  have "shelf_call ?f s = (r, s')" using assms by (simp add: shelf_web_def edit_def)
  then obtain s0 where s0: "sf_wls s0 = sf_wls s" "s' = snd (?f s0) \<or> s' = s0" by (cases rule: shelf_call_cases) (metis snd_conv)+
  show ?thesis
  proof (cases "sf_wls s (wl_key w)")
    case (Some old)
    then show ?thesis using s0 put_status [of s0 "wl_key w" old "Status w"] by (auto simp: wl_key_def)
  qed (use s0 in auto)
qed

lemma shelf_delete_err: "wb_DeleteWorkload shelf_web ns n s = (Inl e, s') \<Longrightarrow> err_is e = SNotFound \<Longrightarrow> sf_wls s' = sf_wls s"
  by (simp add: shelf_web_def edit_def, erule shelf_call_cases) (auto split: option.splits)

lemma merged_set: "merged m (m(k \<mapsto> v)) m = m(k \<mapsto> v)"
  by (auto simp: merged_def)

lemma shelf_patch: "wb_PatchWorkload shelf_web old (setAnnotation k v old) s = (Inr w, s') \<Longrightarrow> sf_wls s (wl_Namespace old, wl_Name old) = Some old \<Longrightarrow>
    w = setAnnotation k v old \<and> sf_wls s' = (sf_wls s)((wl_Namespace old, wl_Name old) \<mapsto> w)"
  by (simp add: shelf_web_def edit_def wl_key_def, erule shelf_call_cases)
    (auto simp: merged_set setAnnotation_def dest!: put_wl_ok)

lemma shelf_blueprint: "wb_GetBlueprint shelf_web n s = (Inr bp, s') \<Longrightarrow> sf_bps s n = Some bp"
  by (simp add: shelf_web_def, erule shelf_call_cases) (auto simp: looked_up_def split: option.splits)

lemma shelf_blueprint_created: "wb_CreateBlueprint shelf_web bp s = (Inr bp', s') \<Longrightarrow> bp' = bp \<and> sf_bps s' = (sf_bps s)(bl_Name bp \<mapsto> bp)"
  by (simp add: shelf_web_def, erule shelf_call_cases) (auto split: if_splits dest!: put_bp_ok)

interpretation shelf: web_store shelf_web sf_wls sf_bps
  by unfold_locales (fact shelf_reads shelf_random shelf_get shelf_create shelf_create_err shelf_apply shelf_apply_err shelf_status
    shelf_delete_err shelf_patch shelf_blueprint shelf_blueprint_created)+

lemma hex_valid: "set s \<subseteq> set ''0123456789abcdef'' \<Longrightarrow> valid_utf8 s"
  by (induction s) (auto simp: byte_in_def)

section \<open>From the request to the deployment\<close>


definition plain_component :: "string \<Rightarrow> BlueprintComponent" where
  "plain_component n = \<lparr>bc_ChartRepo = ''oci://registry.suse.com'', bc_ChartName = n, bc_ChartVersion = ''1.0'', bc_Vendor = VendorSUSE,
     bc_TargetNamespace = '''', bc_ReleaseName = n, bc_Values = None\<rparr>"

definition chat_blueprint :: BlueprintBody where
  "chat_blueprint = \<lparr>bb_BlueprintName = '''', bb_Spec = \<lparr>bs_DisplayName = ''RAG'', bs_Version = ''1.0'', bs_Description = '''', bs_Source = '''',
     bs_Deprecated = False, bs_Components = [plain_component ''web'', plain_component ''db'']\<rparr>\<rparr>"

definition without_db :: AIWorkloadSpec where
  "without_db = example_spec\<lparr>ComponentValues := [\<lparr>ov_ComponentName = ''db'', ov_Values = None, ov_Enabled = Some False\<rparr>]\<rparr>"

definition json_of :: "'a \<Rightarrow> 'a request" where "json_of b = \<lparr>rq_ContentType = ''application/json'', rq_Body = Inr b\<rparr>"

definition empty_shelf :: shelf where "empty_shelf = \<lparr>sf_workloads = [], sf_blueprints = [], sf_random = [], sf_faults = []\<rparr>"

definition chat_shelf :: shelf where "chat_shelf = snd (createBlueprint shelf_web (json_of chat_blueprint) empty_shelf)"

definition chat_created :: "AIWorkload reply \<times> shelf" where
  "chat_created = createAIWorkload shelf_web ''team'' (json_of \<lparr>cb_Name = ''chat'', cb_Spec = without_db, cb_Status = None\<rparr>) chat_shelf"

lemma replied: "fst (fst x) = k \<and> \<not> isl (snd (fst x)) \<Longrightarrow> \<exists>v. x = ((k, Inr v), snd x)"
  by (cases "fst x"; cases "snd (fst x)"; cases x) simp_all

lemma chat_created_status: "fst (fst chat_created) = 201 \<and> \<not> isl (snd (fst chat_created))"
  by code_simp



definition chat_upgraded :: "string option reply \<times> shelf" where
  "chat_upgraded = upgradeAIWorkload shelf_web ''team'' ''chat'' (Inr ''2.0'') ((snd chat_created)\<lparr>sf_random := [''nonce of 12b'']\<rparr>)"

lemma chat_upgraded_status: "fst chat_upgraded = (202, Inr (Some ''2.0''))"
  by code_simp

lemma chat_requested: "map_option (\<lambda>w. (Annotations w upgradeRequestAnnotation, Annotations w handledOpsAnnotation, currentVersion w))
    (sf_wls (snd chat_upgraded) (''team'', ''chat'')) = Some (Some ''6e6f6e6365206f6620313262|2.0'', None, ''1.0'')"
  by code_simp


text \<open>
  C20. A blueprint is found by its name. When the API has created a blueprint, it is stored under the name that the controller derives from
  the family label and the version, for every spelling of the family with the same slug and every build metadata of the version; and
  with these labels. The names do not identify a blueprint, though: version 4.5.6 of the family rag-1-2-3 has the name of the pre-release
  1.2.3-4.5.6 of rag.
\<close>

theorem blueprint_found:
  assumes "web_store wb wls bps" and "createBlueprint wb rq s = ((status, Inr bp), s')" and "rq_Body rq = Inr body"
    and "family = (if bb_BlueprintName body = [] then bs_DisplayName (bb_Spec body) else bb_BlueprintName body)"
    and "version = bs_Version (bb_Spec body)"
  shows "status = 201 \<and> Slugify family \<noteq> [] \<and> bl_Spec bp = bb_Spec body
    \<and> bl_Labels bp = [BlueprintNameLabel \<mapsto> Slugify family, BlueprintVersionLabel \<mapsto> version]
    \<and> (\<forall>name. Slugify name = Slugify family \<longrightarrow> bps s' (bpCRName name version) = Some bp)
    \<and> bps s' (bpCRName (Slugify family) version) = Some bp
    \<and> (\<forall>build. CHR ''+'' \<notin> set version \<longrightarrow> bps s' (bpCRName family (version @ ''+'' @ build)) = Some bp)
    \<and> bpCRName ''rag-1-2-3'' ''4.5.6'' = bpCRName ''rag'' ''1.2.3-4.5.6''"
proof -
  obtain f where f: "blueprint_family body = Inr f"
    using assms(2,3) by (cases "blueprint_family body") (auto simp: createBlueprint_def not_json_def writeError_def split: if_splits)
  obtain r s1 where r: "wb_CreateBlueprint wb (new_blueprint f (bb_Spec body)) s = (r, s1)"
    by (cases "wb_CreateBlueprint wb (new_blueprint f (bb_Spec body)) s")
  have bp: "r = Inr bp" "s1 = s'" "status = 201"
    using assms(2,3) f r by (auto simp: createBlueprint_def not_json_def writeError_def writeJSON_def internal_def split: if_splits sum.splits)
  note st = web_store.blueprint_created [OF assms(1) r [unfolded bp]]
  have fam: "f = Slugify family" "Slugify family \<noteq> []"
    using f assms(4) by (auto simp: blueprint_family_def slugifyBlueprintName_def Slugify_def split: if_splits)
  have n: "bpCRName name v = bpCRName f v" if "Slugify name = Slugify family" for name v
    using that by (simp add: bpCRName_def fam(1) Slugify_idem)
  have found: "bps s' (bpCRName f version) = Some bp" "bl_Spec bp = bb_Spec body"
      "bl_Labels bp = [BlueprintNameLabel \<mapsto> f, BlueprintVersionLabel \<mapsto> version]"
    using st by (auto simp: new_blueprint_def blueprintCRName_controller assms(5))
  have "bpCRName ''rag-1-2-3'' ''4.5.6'' = bpCRName ''rag'' ''1.2.3-4.5.6''" by code_simp
  then show ?thesis using n found fam bp(3) bpCRName_build_metadata [of version family] by simp
qed

theorem blueprint_found_witness:
  "map_option (bs_DisplayName \<circ> bl_Spec) (sf_bps chat_shelf (bpCRName ''Rag!'' ''1.0'')) = Some ''RAG''"
proof -
  have c: "fst (fst (createBlueprint shelf_web (json_of chat_blueprint) empty_shelf)) = 201
      \<and> \<not> isl (snd (fst (createBlueprint shelf_web (json_of chat_blueprint) empty_shelf)))" by code_simp
  then obtain bp where bp: "createBlueprint shelf_web (json_of chat_blueprint) empty_shelf = ((201, Inr bp), chat_shelf)"
    unfolding chat_shelf_def using replied [OF c] by blast
  have b: "rq_Body (json_of chat_blueprint) = Inr chat_blueprint" by (simp add: json_of_def)
  have f: "''RAG'' = (if bb_BlueprintName chat_blueprint = [] then bs_DisplayName (bb_Spec chat_blueprint) else bb_BlueprintName chat_blueprint)"
    "''1.0'' = bs_Version (bb_Spec chat_blueprint)" "bs_DisplayName (bb_Spec chat_blueprint) = ''RAG''" by (simp_all add: chat_blueprint_def)
  have "Slugify ''Rag!'' = Slugify ''RAG''" by code_simp
  then have "sf_bps chat_shelf (bpCRName ''Rag!'' ''1.0'') = Some bp" "bl_Spec bp = bb_Spec chat_blueprint"
    using blueprint_found [OF shelf.web_store_axioms bp b f(1,2)] by blast+
  then show ?thesis by (simp add: f(3))
qed

end
