(* ===== verification/ApiSettings.thy ===== *)
theory ApiSettings
  imports Api Settings Git
begin

text \<open>
  The endpoints of the settings and the catalog (\<open>internal/api\<close>: \<open>settings.go\<close>, \<open>chart\_access.go\<close>, \<open>catalog.go\<close>): saving,
  the preflight credentials, the probes of credentials and of charts, publishing to Git, and the application catalog. The probes
  themselves, go-git and HTTP are fields of a record; the latency that a result carries is left out.
\<close>

section \<open>Calls\<close>

record ProbeResult =
  pr_Status :: string
  pr_Message :: string

record ChartResult =
  cr_RepositoryURL :: string
  cr_ChartName :: string
  cr_Version :: string
  cr_Check :: string
  cr_Status :: string
  cr_Reason :: string
  cr_HTTPStatus :: nat

text \<open>
  \<open>sw_Settings\<close> reads the object called settings in the operator's namespace and \<open>sw_Apply\<close> applies a spec to it; \<open>sw_GitRejected\<close> tells the
  two errors of go-git that mean rejected credentials; \<open>sw_Slot\<close> is a free place among the four probes, or the end of the time;
  \<open>sw_Order\<close> is the order in which Go visits a map.
\<close>

record 's SettingsWeb =
  sw_Client :: "'s Client"
  sw_Namespace :: string
  sw_Settings :: "('s, SettingsSpec) act"
  sw_Apply :: "SettingsSpec \<Rightarrow> ('s, SettingsSpec) act"
  sw_PEM :: "string \<Rightarrow> bool"
  sw_Git :: "'s GitAPI"
  sw_GitRejected :: "err \<Rightarrow> bool"
  sw_ProbeRegistry :: "string \<Rightarrow> string \<Rightarrow> string \<Rightarrow> string \<Rightarrow> 's \<Rightarrow> ProbeResult \<times> 's"
  sw_CheckCatalog :: "CatalogClient \<Rightarrow> ('s, unit) act"
  sw_ProbeChart :: "string \<Rightarrow> string \<Rightarrow> string \<Rightarrow> string \<Rightarrow> string \<Rightarrow> 's \<Rightarrow> ChartResult \<times> 's"
  sw_Slot :: "'s \<Rightarrow> bool \<times> 's"
  sw_FetchCatalog :: "string \<Rightarrow> ('s, string) act"
  sw_Order :: "jmap \<Rightarrow> jmap"

definition no_source :: GitRepoSource where
  "no_source = \<lparr>git_RepoURL = '''', git_Branch = '''', git_AuthType = '''', git_Username = '''', git_CredSecretRef = None, git_CABundleSecretRef = None\<rparr>"

definition zero_registry :: RegistrySettings where
  "zero_registry = \<lparr>UserSecretRef = None, TokenSecretRef = None, CABundleSecretRef = None\<rparr>"

definition zero_spec :: SettingsSpec where
  "zero_spec = \<lparr>set_Fleet = no_source, set_ApplicationCollection = zero_registry, set_SUSERegistry = zero_registry, set_Nvidia = zero_registry,
     RegistryEndpoints = None, set_AppCatalogURL = '''',
     set_RancherCatalog = \<lparr>rc_URL = '''', rc_TokenSecretRef = None, rc_CABundleSecretRef = None, rc_InsecureSkipVerify = False\<rparr>,
     set_BlueprintCatalogs = []\<rparr>"

section \<open>Reading and saving\<close>

definition getSettings_request :: "'s SettingsWeb \<Rightarrow> 's \<Rightarrow> SettingsSpec reply \<times> 's" where
  "getSettings_request sw w =
     (case sw_Settings sw w of
        (Inl e, w1) \<Rightarrow> (if err_is e = SNotFound then writeError 404 (api_wrap ErrNotFound ''settings CR not found'') else internal e, w1)
      | (Inr spec, w1) \<Rightarrow> (writeJSON 200 spec, w1))"

text \<open>The remote catalog that is not managed by the settings page is kept.\<close>

definition with_remote :: "'s SettingsWeb \<Rightarrow> SettingsSpec \<Rightarrow> ('s, SettingsSpec) act" where
  "with_remote sw spec w =
     (if set_AppCatalogURL spec \<noteq> '''' then (Inr spec, w)
      else (case sw_Settings sw w of
              (Inr existing, w1) \<Rightarrow> (Inr (spec\<lparr>set_AppCatalogURL := set_AppCatalogURL existing\<rparr>), w1)
            | (Inl e, w1) \<Rightarrow> (if err_is e = SNotFound then Inr spec else Inl e, w1)))"

definition putSettings :: "'s SettingsWeb \<Rightarrow> SettingsSpec request \<Rightarrow> 's \<Rightarrow> SettingsSpec reply \<times> 's" where
  "putSettings sw rq w =
     (if \<not> json_request (rq_ContentType rq) then (not_json, w)
      else (case rq_Body rq of
              Inl msg \<Rightarrow> (writeError 400 (invalid_input msg), w)
            | Inr spec \<Rightarrow>
                (case with_remote sw spec w of
                   (Inl e, w1) \<Rightarrow> (internal e, w1)
                 | (Inr spec', w1) \<Rightarrow>
                     (case sw_Apply sw spec' w1 of (Inl e, w2) \<Rightarrow> (internal e, w2) | (Inr saved, w2) \<Rightarrow> (writeJSON 200 saved, w2)))))"

section \<open>Registry credentials\<close>

definition api_defaultAppCollectionHost :: string where "api_defaultAppCollectionHost = ''dp.apps.rancher.io''"
definition api_defaultSUSERegistryHost :: string where "api_defaultSUSERegistryHost = ''registry.suse.com''"
definition api_defaultNvidiaHost :: string where "api_defaultNvidiaHost = ''nvcr.io''"

record RegistryCred =
  rcr_Username :: string
  rcr_Password :: string
  rcr_RegistryHost :: string

record RegistryCredentials =
  rcs_ApplicationCollection :: "RegistryCred option"
  rcs_SUSERegistry :: "RegistryCred option"
  rcs_Nvidia :: "RegistryCred option"

text \<open>Unlike the controller's, this \<open>readSecretKey\<close> reports a key that is not there.\<close>

definition api_readSecretKey :: "'s SettingsWeb \<Rightarrow> SecretKeyRef \<Rightarrow> ('s, string) act" where
  "api_readSecretKey sw r w =
     (case GetSecret (sw_Client sw) (sw_Namespace sw) (ref_Name r) w of
        (Inl e, w1) \<Rightarrow> (Inl e, w1)
      | (Inr sec, w1) \<Rightarrow>
          (case sec_Data sec (ref_Key r) of
             None \<Rightarrow> (Inl (Err SOther (''key '' @ go_quoted (ref_Key r) @ '' not found in secret '' @ go_quoted (ref_Name r))), w1)
           | Some v \<Rightarrow> (Inr v, w1)))"

text \<open>Both keys are read, whatever the first gives.\<close>

definition read_cred :: "'s SettingsWeb \<Rightarrow> Registry \<Rightarrow> RegistrySettings \<Rightarrow> string \<Rightarrow> 's \<Rightarrow> RegistryCred option \<times> 's" where
  "read_cred sw registry sec host w =
     (case EffectiveRefs (sw_Client sw) (sw_Namespace sw) (UserSecretRef sec) (TokenSecretRef sec) registry w of
        ((Some u, Some t), w1) \<Rightarrow>
          (case api_readSecretKey sw u w1 of
             (user, w2) \<Rightarrow>
               (case api_readSecretKey sw t w2 of
                  (pass, w3) \<Rightarrow>
                    (case (user, pass) of
                       (Inr u', Inr p') \<Rightarrow> (Some \<lparr>rcr_Username = u', rcr_Password = p', rcr_RegistryHost = host\<rparr>, w3)
                     | _ \<Rightarrow> (None, w3))))
      | (_, w1) \<Rightarrow> (None, w1))"

definition api_endpoint_host :: "(RegistryEndpointsSettings \<Rightarrow> string) \<Rightarrow> string \<Rightarrow> SettingsSpec \<Rightarrow> string" where
  "api_endpoint_host f fallback spec =
     (case RegistryEndpoints spec of None \<Rightarrow> fallback | Some ep \<Rightarrow> if f ep \<noteq> '''' then Host (f ep) else fallback)"

definition getRegistryCredentials :: "'s SettingsWeb \<Rightarrow> 's \<Rightarrow> RegistryCredentials reply \<times> 's" where
  "getRegistryCredentials sw w =
     (case sw_Settings sw w of
        (Inl e, w1) \<Rightarrow> (writeJSON 200 \<lparr>rcs_ApplicationCollection = None, rcs_SUSERegistry = None, rcs_Nvidia = None\<rparr>, w1)
      | (Inr spec, w1) \<Rightarrow>
          (case read_cred sw RegistryApplicationCollection (set_ApplicationCollection spec)
                  (api_endpoint_host ep_ApplicationCollection api_defaultAppCollectionHost spec) w1 of
             (app, w2) \<Rightarrow>
               (case read_cred sw RegistrySUSERegistry (set_SUSERegistry spec) (api_endpoint_host ep_SUSERegistry api_defaultSUSERegistryHost spec) w2 of
                  (suse, w3) \<Rightarrow>
                    (case read_cred sw RegistryNvidia (set_Nvidia spec) api_defaultNvidiaHost w3 of
                       (nv, w4) \<Rightarrow> (writeJSON 200 \<lparr>rcs_ApplicationCollection = app, rcs_SUSERegistry = suse, rcs_Nvidia = nv\<rparr>, w4)))))"

section \<open>Publishing\<close>

record gitPublishBody =
  gp_BundleName :: string
  gp_BundleYAML :: string

definition publishToGit :: "'s SettingsWeb \<Rightarrow> string + gitPublishBody \<Rightarrow> 's \<Rightarrow> string reply \<times> 's" where
  "publishToGit sw rq w =
     (case rq of
        Inl msg \<Rightarrow> (writeError 400 (invalid_input msg), w)
      | Inr body \<Rightarrow>
          if gp_BundleName body = '''' \<or> gp_BundleYAML body = '''' then
            (writeError 400 (invalid_input ''bundleName and bundleYAML are required''), w)
          else (case sw_Settings sw w of
                  (Inl e, w1) \<Rightarrow> (internal (wrap_err ''read settings'' e), w1)
                | (Inr spec, w1) \<Rightarrow>
                    (case NewFromSettings (sw_PEM sw) (sw_Client sw) (set_Fleet spec) (sw_Namespace sw) w1 of
                       (Inl e, w2) \<Rightarrow> (internal (wrap_err ''init git client'' e), w2)
                     | (Inr gc, w2) \<Rightarrow>
                         (case WriteFile (sw_Git sw) gc (''workloads/'' @ gp_BundleName body @ ''.yaml'') (gp_BundleYAML body)
                                 (''chore: deploy workload '' @ gp_BundleName body) w2 of
                            (Inl e, w3) \<Rightarrow> (internal (wrap_err ''git commit'' e), w3)
                          | (Inr commit, w3) \<Rightarrow> (writeJSON 200 commit, w3)))))"

section \<open>Validation of credentials\<close>

definition statusOK :: string where "statusOK = ''ok''"
definition statusFailed :: string where "statusFailed = ''failed''"
definition statusError :: string where "statusError = ''error''"
definition statusSkipped :: string where "statusSkipped = ''skipped''"

definition allValidateTargets :: "string list" where
  "allValidateTargets = [''applicationCollection'', ''suseRegistry'', ''nvidia'', ''gitops'', ''rancherCatalog'']"

record validateOverride =
  ov_UserSecretRef :: "SecretKeyRef option"
  ov_TokenSecretRef :: "SecretKeyRef option"
  ov_CredSecretRef :: "SecretKeyRef option"
  ov_RepoURL :: string
  ov_Branch :: string
  ov_AuthType :: string
  ov_Username :: string
  ov_CABundleSecretRef :: "SecretKeyRef option"
  ov_URL :: string
  ov_InsecureSkipVerify :: bool

definition no_override :: validateOverride where
  "no_override = \<lparr>ov_UserSecretRef = None, ov_TokenSecretRef = None, ov_CredSecretRef = None, ov_RepoURL = '''', ov_Branch = '''',
     ov_AuthType = '''', ov_Username = '''', ov_CABundleSecretRef = None, ov_URL = '''', ov_InsecureSkipVerify = False\<rparr>"

record validateCredsRequest =
  vc_Targets :: "string list"
  vc_Overrides :: "string \<Rightarrow> validateOverride option"

record validateResult =
  vr_Target :: string
  vr_Status :: string
  vr_Host :: string
  vr_Message :: string

definition result_of :: "string \<Rightarrow> string \<Rightarrow> string \<Rightarrow> string \<Rightarrow> validateResult" where
  "result_of target host status msg = \<lparr>vr_Target = target, vr_Status = status, vr_Host = host, vr_Message = msg\<rparr>"

definition secretRefComplete :: "SecretKeyRef option \<Rightarrow> bool" where
  "secretRefComplete r \<longleftrightarrow> (case r of None \<Rightarrow> False | Some k \<Rightarrow> ref_Name k \<noteq> '''' \<and> ref_Key k \<noteq> '''')"

definition savedRegistryRefs :: "string \<Rightarrow> SettingsSpec \<Rightarrow> SecretKeyRef option \<times> SecretKeyRef option \<times> SecretKeyRef option" where
  "savedRegistryRefs target spec =
     (let refs = (\<lambda>sec. (UserSecretRef sec, TokenSecretRef sec, CABundleSecretRef sec))
      in if target = ''applicationCollection'' then refs (set_ApplicationCollection spec)
         else if target = ''suseRegistry'' then refs (set_SUSERegistry spec)
         else if target = ''nvidia'' then refs (set_Nvidia spec)
         else (None, None, None))"

definition registryHost :: "string \<Rightarrow> SettingsSpec \<Rightarrow> string \<Rightarrow> string" where
  "registryHost target spec overrideURL =
     (if overrideURL \<noteq> '''' then Host overrideURL
      else if target = ''applicationCollection'' then api_endpoint_host ep_ApplicationCollection api_defaultAppCollectionHost spec
      else if target = ''suseRegistry'' then api_endpoint_host ep_SUSERegistry api_defaultSUSERegistryHost spec
      else if target = ''nvidia'' then api_endpoint_host ep_Nvidia api_defaultNvidiaHost spec
      else '''')"

fun or_saved :: "'a option \<Rightarrow> 'a option \<Rightarrow> 'a option" where
  "or_saved None saved = saved"
| "or_saved (Some r) saved = Some r"

text \<open>The pair and the certificates to probe with; \<open>Inl\<close> is the status and message of a probe that is not made.\<close>

definition registry_ca :: "'s SettingsWeb \<Rightarrow> SecretKeyRef option \<Rightarrow> 's \<Rightarrow> ((string \<times> string) + string) \<times> 's" where
  "registry_ca sw caRef w =
     (case caRef of
        None \<Rightarrow> (Inr '''', w)
      | Some r \<Rightarrow>
          (case api_readSecretKey sw r w of
             (Inl e, w1) \<Rightarrow> (Inl (statusError, ''could not read CA bundle: '' @ err_text e), w1)
           | (Inr ca, w1) \<Rightarrow> (if ca = '''' then Inl (statusError, ''CA bundle is empty'') else Inr ca, w1)))"

definition registry_pair ::
  "'s SettingsWeb \<Rightarrow> SecretKeyRef option \<Rightarrow> SecretKeyRef option \<Rightarrow> 's \<Rightarrow> ((string \<times> string) + string \<times> string) \<times> 's" where
  "registry_pair sw userRef tokenRef w =
     (case (userRef, tokenRef) of
        (Some u, Some t) \<Rightarrow>
          if \<not> secretRefComplete userRef \<or> \<not> secretRefComplete tokenRef then (Inl (statusSkipped, ''not configured''), w)
          else (case api_readSecretKey sw u w of
                  (Inl e, w1) \<Rightarrow> (Inl (statusError, ''could not read credential: '' @ err_text e), w1)
                | (Inr user, w1) \<Rightarrow>
                    (case api_readSecretKey sw t w1 of
                       (Inl e, w2) \<Rightarrow> (Inl (statusError, ''could not read credential: '' @ err_text e), w2)
                     | (Inr pass, w2) \<Rightarrow>
                         (if user = '''' \<and> pass = '''' then Inl (statusSkipped, ''not configured'') else Inr (user, pass), w2)))
      | _ \<Rightarrow> (Inl (statusSkipped, ''not configured''), w))"

definition validateRegistry :: "'s SettingsWeb \<Rightarrow> string \<Rightarrow> SettingsSpec \<Rightarrow> validateOverride \<Rightarrow> 's \<Rightarrow> validateResult \<times> 's" where
  "validateRegistry sw target spec ov w =
     (let host = registryHost target spec (ov_URL ov);
          (savedUser, savedToken, savedCA) = savedRegistryRefs target spec
      in case registry_pair sw (or_saved (ov_UserSecretRef ov) savedUser) (or_saved (ov_TokenSecretRef ov) savedToken) w of
           (Inl (status, msg), w1) \<Rightarrow> (result_of target host status msg, w1)
         | (Inr (user, pass), w1) \<Rightarrow>
             (case registry_ca sw (or_saved (ov_CABundleSecretRef ov) savedCA) w1 of
                (Inl (status, msg), w2) \<Rightarrow> (result_of target host status msg, w2)
              | (Inr ca, w2) \<Rightarrow>
                  (case sw_ProbeRegistry sw host user pass ca w2 of
                     (probe, w3) \<Rightarrow> (result_of target host (pr_Status probe) (pr_Message probe), w3))))"

definition git_override :: "SettingsSpec \<Rightarrow> validateOverride \<Rightarrow> GitRepoSource" where
  "git_override spec ov =
     (if ov_RepoURL ov = '''' then set_Fleet spec
      else \<lparr>git_RepoURL = ov_RepoURL ov, git_Branch = ov_Branch ov, git_AuthType = ov_AuthType ov, git_Username = ov_Username ov,
            git_CredSecretRef = ov_CredSecretRef ov, git_CABundleSecretRef = ov_CABundleSecretRef ov\<rparr>)"

definition validateGit :: "'s SettingsWeb \<Rightarrow> SettingsSpec \<Rightarrow> validateOverride \<Rightarrow> 's \<Rightarrow> validateResult \<times> 's" where
  "validateGit sw spec ov w =
     (let src = git_override spec ov; res = result_of ''gitops'' ''''
      in if git_RepoURL src = '''' then (res statusSkipped ''not configured'', w)
         else (case NewFromSettings (sw_PEM sw) (sw_Client sw) src (sw_Namespace sw) w of
                 (Inl e, w1) \<Rightarrow> (res statusError (err_text e), w1)
               | (Inr gc, w1) \<Rightarrow>
                   (case CheckAuth (sw_Git sw) gc w1 of
                      (Inr _, w2) \<Rightarrow> (res statusOK ''repository reachable'', w2)
                    | (Inl e, w2) \<Rightarrow> (res (if sw_GitRejected sw e then statusFailed else statusError) (err_text e), w2))))"

text \<open>The token reference with what belongs to it: from the form if that names a secret and a key, or the saved ones.\<close>

definition catalog_override :: "SettingsSpec \<Rightarrow> validateOverride \<Rightarrow> RancherCatalogSettings" where
  "catalog_override spec ov =
     (if \<not> secretRefComplete (ov_TokenSecretRef ov) then set_RancherCatalog spec
      else \<lparr>rc_URL = ov_URL ov, rc_TokenSecretRef = ov_TokenSecretRef ov, rc_CABundleSecretRef = ov_CABundleSecretRef ov,
            rc_InsecureSkipVerify = ov_InsecureSkipVerify ov\<rparr>)"

definition catalog_ca :: "'s SettingsWeb \<Rightarrow> SecretKeyRef option \<Rightarrow> ('s, string) act" where
  "catalog_ca sw caRef w =
     (case caRef of
        Some r \<Rightarrow> api_readSecretKey sw r w
      | None \<Rightarrow> (case DiscoverInternalCA (sw_Client sw) w of (Inl e, w1) \<Rightarrow> (Inr '''', w1) | (Inr ca, w1) \<Rightarrow> (Inr ca, w1)))"

text \<open>The client that is probed; \<open>Inl\<close> is the result without a probe.\<close>

definition catalog_candidate :: "'s SettingsWeb \<Rightarrow> RancherCatalogSettings \<Rightarrow> 's \<Rightarrow> (validateResult + CatalogClient) \<times> 's" where
  "catalog_candidate sw rc w =
     (let res = result_of ''rancherCatalog'' ''''; url = (if rc_URL rc = '''' then DefaultBaseURL else rc_URL rc)
      in case rc_TokenSecretRef rc of
           None \<Rightarrow> (Inl (res statusSkipped ''not configured''), w)
         | Some r \<Rightarrow>
             if \<not> secretRefComplete (Some r) then (Inl (res statusSkipped ''not configured''), w)
             else (case api_readSecretKey sw r w of
                     (Inl e, w1) \<Rightarrow> (Inl (res statusError (''could not read credential: '' @ err_text e)), w1)
                   | (Inr token, w1) \<Rightarrow>
                       if token = '''' then (Inl (res statusSkipped ''not configured''), w1)
                       else (case catalog_ca sw (rc_CABundleSecretRef rc) w1 of
                               (Inl e, w2) \<Rightarrow> (Inl (res statusError (''could not read CA bundle: '' @ err_text e)), w2)
                             | (Inr ca, w2) \<Rightarrow>
                                 (case NewCatalogClient (sw_PEM sw) url token ca (rc_InsecureSkipVerify rc) of
                                    Inl e \<Rightarrow> (Inl (result_of ''rancherCatalog'' (Host url) statusError (err_text e)), w2)
                                  | Inr client \<Rightarrow> (Inr client, w2)))))"

definition validateRancherCatalog :: "'s SettingsWeb \<Rightarrow> SettingsSpec \<Rightarrow> validateOverride \<Rightarrow> 's \<Rightarrow> validateResult \<times> 's" where
  "validateRancherCatalog sw spec ov w =
     (let rc = catalog_override spec ov; url = (if rc_URL rc = '''' then DefaultBaseURL else rc_URL rc);
          res = result_of ''rancherCatalog'' (Host url)
      in case catalog_candidate sw rc w of
           (Inl r, w1) \<Rightarrow> (r, w1)
         | (Inr client, w1) \<Rightarrow>
             (case sw_CheckCatalog sw client w1 of
                (Inr _, w2) \<Rightarrow> (res statusOK ''authenticated'', w2)
              | (Inl e, w2) \<Rightarrow> (res (if err_is e = SUnauthorized then statusFailed else statusError) (err_text e), w2)))"

definition validate_target ::
  "'s SettingsWeb \<Rightarrow> SettingsSpec \<Rightarrow> (string \<Rightarrow> validateOverride option) \<Rightarrow> string \<Rightarrow> 's \<Rightarrow> validateResult \<times> 's" where
  "validate_target sw spec overrides target w =
     (let ov = (case overrides target of None \<Rightarrow> no_override | Some ov \<Rightarrow> ov)
      in if target = ''gitops'' then validateGit sw spec ov w
         else if target = ''rancherCatalog'' then validateRancherCatalog sw spec ov w
         else if target \<in> {''applicationCollection'', ''suseRegistry'', ''nvidia''} then validateRegistry sw target spec ov w
         else (result_of target '''' statusSkipped ''unknown target'', w))"

fun run_each :: "('a \<Rightarrow> 's \<Rightarrow> 'b \<times> 's) \<Rightarrow> 'a list \<Rightarrow> 's \<Rightarrow> 'b list \<times> 's" where
  "run_each f [] w = ([], w)"
| "run_each f (x # xs) w = (case f x w of (r, w1) \<Rightarrow> (case run_each f xs w1 of (rs, w2) \<Rightarrow> (r # rs, w2)))"

text \<open>An empty body is a request without targets; settings that cannot be read are empty.\<close>

definition validateCredentials :: "'s SettingsWeb \<Rightarrow> string + validateCredsRequest \<Rightarrow> 's \<Rightarrow> validateResult list reply \<times> 's" where
  "validateCredentials sw rq w =
     (case rq of
        Inl msg \<Rightarrow> (writeError 400 (invalid_input msg), w)
      | Inr req \<Rightarrow>
          (case sw_Settings sw w of
             (s, w1) \<Rightarrow>
               (let spec = (case s of Inl e \<Rightarrow> zero_spec | Inr spec \<Rightarrow> spec);
                    targets = (if vc_Targets req = [] then allValidateTargets else vc_Targets req)
                in case run_each (validate_target sw spec (vc_Overrides req)) targets w1 of
                     (results, w2) \<Rightarrow> (writeJSON 200 results, w2))))"

section \<open>Access to charts (chart\_access.go)\<close>

record chartAccessConfiguration =
  cac_URL :: string
  cac_UserSecretRef :: "SecretKeyRef option"
  cac_TokenSecretRef :: "SecretKeyRef option"
  cac_CABundleSecretRef :: "SecretKeyRef option"

record chartAccessRequest =
  car_Target :: string
  car_Configuration :: "chartAccessConfiguration option"
  car_ChartName :: string

record chartProbeSource =
  cps_url :: string
  cps_chart :: string
  cps_authenticated :: bool

definition representativeChart :: "Item list \<Rightarrow> string \<Rightarrow> string \<Rightarrow> string" where
  "representativeChart bundled endpoint fallback =
     (let chart = RepresentativeChart bundled endpoint in if chart \<noteq> '''' then chart else fallback)"

definition connected_sources :: "Item list \<Rightarrow> chartProbeSource list" where
  "connected_sources bundled =
     (let teams = classifyNGCTeamRepos bundled; source = (\<lambda>auth u. \<lparr>cps_url = u, cps_chart = RepresentativeChart bundled u, cps_authenticated = auth\<rparr>)
      in map (source False) ([''https://helm.ngc.nvidia.com/nvidia'', ''https://helm.ngc.nvidia.com/nvidia/blueprint''] @ ntr_Public teams)
         @ map (source True) (ntr_Gated teams))"

definition chartProbeSources :: "Item list \<Rightarrow> string \<Rightarrow> chartAccessConfiguration \<Rightarrow> string \<Rightarrow> api_err + chartProbeSource list" where
  "chartProbeSources bundled target conf chartName =
     (let endpoint = trim_right CHR ''/'' (trim_space (cac_URL conf)); chart = trim_space chartName;
          one = (\<lambda>url fallback. Inr [\<lparr>cps_url = url, cps_chart = (if chart = '''' then representativeChart bundled url fallback else chart),
                                        cps_authenticated = True\<rparr>])
      in if target = ''applicationCollection'' then one (if endpoint = '''' then DefaultApplicationCollectionURL else endpoint) ''ollama''
         else if target = ''suseRegistry'' then one (if endpoint = '''' then DefaultSUSERegistryURL else endpoint) ''qdrant''
         else if target = ''nvidia'' then (if endpoint = '''' then Inr (connected_sources bundled) else one endpoint ''aiq-aira'')
         else Inl (invalid_input ''unknown chart registry target''))"

record probe_credentials =
  pc_User :: string
  pc_Password :: string
  pc_CA :: string
  pc_Reason :: string

definition chart_pair :: "'s SettingsWeb \<Rightarrow> chartAccessConfiguration \<Rightarrow> string \<Rightarrow> 's \<Rightarrow> probe_credentials \<times> 's" where
  "chart_pair sw conf ca w =
     (let refused = (\<lambda>reason. \<lparr>pc_User = '''', pc_Password = '''', pc_CA = ca, pc_Reason = reason\<rparr>)
      in case (cac_UserSecretRef conf, cac_TokenSecretRef conf) of
           (None, None) \<Rightarrow> (refused '''', w)
         | (Some u, Some t) \<Rightarrow>
             if \<not> secretRefComplete (Some u) \<or> \<not> secretRefComplete (Some t) then (refused ''configuration'', w)
             else (case api_readSecretKey sw u w of
                     (Inl e, w1) \<Rightarrow> (refused ''credentialsUnreadable'', w1)
                   | (Inr user, w1) \<Rightarrow>
                       (case api_readSecretKey sw t w1 of
                          (Inl e, w2) \<Rightarrow> (refused ''credentialsUnreadable'', w2)
                        | (Inr pass, w2) \<Rightarrow>
                            (if user = '''' \<or> pass = '''' then refused ''configuration''
                             else \<lparr>pc_User = user, pc_Password = pass, pc_CA = ca, pc_Reason = ''''\<rparr>, w2)))
         | _ \<Rightarrow> (refused ''configuration'', w))"

definition chartProbeCredentials :: "'s SettingsWeb \<Rightarrow> chartAccessConfiguration \<Rightarrow> 's \<Rightarrow> probe_credentials \<times> 's" where
  "chartProbeCredentials sw conf w =
     (let unreadable = \<lparr>pc_User = '''', pc_Password = '''', pc_CA = '''', pc_Reason = ''caUnreadable''\<rparr>
      in case cac_CABundleSecretRef conf of
           None \<Rightarrow> chart_pair sw conf '''' w
         | Some r \<Rightarrow>
             (case api_readSecretKey sw r w of
                (Inl e, w1) \<Rightarrow> (unreadable, w1)
              | (Inr ca, w1) \<Rightarrow> if ca = '''' then (unreadable, w1) else chart_pair sw conf ca w1))"

definition unprobed :: "chartProbeSource \<Rightarrow> string \<Rightarrow> ChartResult" where
  "unprobed src reason = \<lparr>cr_RepositoryURL = cps_url src, cr_ChartName = cps_chart src, cr_Version = '''', cr_Check = '''',
     cr_Status = ''error'', cr_Reason = reason, cr_HTTPStatus = 0\<rparr>"

text \<open>One probe; the code runs up to four of them at once, and each writes its own result.\<close>

definition probe_source :: "'s SettingsWeb \<Rightarrow> probe_credentials \<Rightarrow> chartProbeSource \<Rightarrow> 's \<Rightarrow> ChartResult \<times> 's" where
  "probe_source sw creds src w =
     (if pc_Reason creds \<noteq> '''' \<and> (cps_authenticated src \<or> pc_Reason creds = ''caUnreadable'') then (unprobed src (pc_Reason creds), w)
      else (case sw_Slot sw w of
              (False, w1) \<Rightarrow> (unprobed src ''timeout'', w1)
            | (True, w1) \<Rightarrow>
                if cps_authenticated src
                then sw_ProbeChart sw (cps_url src) (cps_chart src) (pc_User creds) (pc_Password creds) (pc_CA creds) w1
                else sw_ProbeChart sw (cps_url src) (cps_chart src) '''' '''' (pc_CA creds) w1))"

definition validateChartAccess ::
  "'s SettingsWeb \<Rightarrow> Item list \<Rightarrow> string + chartAccessRequest \<Rightarrow> 's \<Rightarrow> ChartResult list reply \<times> 's" where
  "validateChartAccess sw bundled rq w =
     (case rq of
        Inl msg \<Rightarrow> (writeError 400 (invalid_input ''explicit chart access configuration is required''), w)
      | Inr req \<Rightarrow>
          (case car_Configuration req of
             None \<Rightarrow> (writeError 400 (invalid_input ''explicit chart access configuration is required''), w)
           | Some conf \<Rightarrow>
               (case chartProbeSources bundled (car_Target req) conf (car_ChartName req) of
                  Inl e \<Rightarrow> (writeError 400 e, w)
                | Inr sources \<Rightarrow>
                    (case chartProbeCredentials sw conf w of
                       (creds, w1) \<Rightarrow>
                         (case run_each (probe_source sw creds) sources w1 of (results, w2) \<Rightarrow> (writeJSON 200 results, w2))))))"

section \<open>The application catalog (catalog.go)\<close>

definition remoteURL :: "'s SettingsWeb \<Rightarrow> ('s, string) act" where
  "remoteURL sw w =
     (case sw_Settings sw w of
        (Inl e, w1) \<Rightarrow> (if err_is e = SNotFound then Inr '''' else Inl e, w1)
      | (Inr spec, w1) \<Rightarrow> (Inr (set_AppCatalogURL spec), w1))"

definition fetchRemote :: "'s SettingsWeb \<Rightarrow> string \<Rightarrow> ('s, Item list) act" where
  "fetchRemote sw rawURL w =
     (case url_Parse rawURL of
        Some u \<Rightarrow>
          if u_Scheme u \<noteq> ''http'' \<and> u_Scheme u \<noteq> ''https''
          then (Inl (Err SOther (''configured catalog URL must be http(s): '' @ go_quoted rawURL)), w)
          else (case sw_FetchCatalog sw rawURL w of
                  (Inl e, w1) \<Rightarrow> (Inl e, w1)
                | (Inr body, w1) \<Rightarrow> (Inr (fst (NormalizeReport (sw_Order sw) body)), w1))
      | None \<Rightarrow> (Inl (Err SOther (''configured catalog URL must be http(s): '' @ go_quoted rawURL)), w))"

definition getCatalog :: "'s SettingsWeb \<Rightarrow> Item list \<Rightarrow> 's \<Rightarrow> Item list reply \<times> 's" where
  "getCatalog sw bundled w =
     (case remoteURL sw w of
        (Inl e, w1) \<Rightarrow> (internal e, w1)
      | (Inr url, w1) \<Rightarrow>
          if url = '''' then (writeJSON 200 bundled, w1)
          else (case fetchRemote sw url w1 of
                  (Inl e, w2) \<Rightarrow> (writeJSON 200 bundled, w2)
                | (Inr items, w2) \<Rightarrow> (writeJSON 200 (if items = [] then bundled else items), w2)))"

end
