(* ===== verification/ChartProbe.thy ===== *)
theory ChartProbe
  imports ApiSettings Chart
begin

text \<open>
  The probe of a chart (\<open>internal/credcheck/charts.go\<close>): an index and one byte of a chart over HTTPS, or a tag and a manifest through the
  OCI client. The exchange of one HTTP request, the OCI client, YAML and PEM are fields of a record; redirects are followed here, as the code decides
  about each. Escapes in a path are resolved before its dots; what a host name is in Punycode and the latency are left out.
\<close>

section \<open>URLs\<close>

text \<open>What \<open>url.Parse\<close> keeps beside scheme, host and path.\<close>

definition url_Fragment :: "string \<Rightarrow> string" where "url_Fragment raw = drop (Suc (length (before CHR ''#'' raw))) raw"

definition url_RawQuery :: "string \<Rightarrow> string" where
  "url_RawQuery raw = (let u = before CHR ''#'' raw in drop (Suc (length (before CHR ''?'' u))) u)"

definition url_has_user :: "string \<Rightarrow> bool" where
  "url_has_user raw =
     (case getScheme (before CHR ''#'' raw) of
        None \<Rightarrow> False
      | Some (scheme, rest) \<Rightarrow>
          (let r = before CHR ''?'' rest
           in (scheme \<noteq> '''' \<or> \<not> has_prefix r ''///'') \<and> has_prefix r ''//'' \<and> CHR ''@'' \<in> set (before CHR ''/'' (drop 2 r))))"

text \<open>\<open>resolvePath\<close>: the dot elements are removed; the elements that stay are collected in reverse order.\<close>

fun no_dots :: "string list \<Rightarrow> string list \<Rightarrow> string list" where
  "no_dots [] acc = rev acc"
| "no_dots (e # es) acc =
     (if e = ''.'' then no_dots es acc
      else if e = ''..'' then no_dots es (tl acc)
      else no_dots es (e # acc))"

definition resolvePath :: "string \<Rightarrow> string \<Rightarrow> string" where
  "resolvePath base ref =
     (let full = (if ref = '''' then base
                  else if hd ref \<noteq> CHR ''/'' then take (length base - length (before CHR ''/'' (rev base))) base @ ref
                  else ref)
      in if full = '''' then ''''
         else (let elems = split_slash full;
                   r = ''/'' @ join ''/'' (no_dots elems []) @ (if last elems \<in> {''.'', ''..''} then ''/'' else '''')
               in if has_prefix r ''//'' then tl r else r))"

text \<open>\<open>ResolveReference\<close> against a URL without user.\<close>

definition ResolveReference :: "URL \<Rightarrow> bool \<Rightarrow> URL \<Rightarrow> URL" where
  "ResolveReference base ref_has_user ref =
     (let scheme = (if u_Scheme ref = '''' then u_Scheme base else u_Scheme ref)
      in if u_Scheme ref \<noteq> '''' \<or> u_Host ref \<noteq> '''' \<or> ref_has_user
         then \<lparr>u_Scheme = scheme, u_Host = u_Host ref, u_Path = resolvePath (u_Path ref) ''''\<rparr>
         else \<lparr>u_Scheme = scheme, u_Host = u_Host base, u_Path = resolvePath (u_Path base) (u_Path ref)\<rparr>)"

section \<open>Requests\<close>

datatype probe_error = ErrorResponse nat | DeadlineExceeded | BadCertificate | NotReached

record chart_request =
  cq_URL :: URL
  cq_Auth :: "(string \<times> string) option"
  cq_Range :: bool

text \<open>\<open>cp_Redirect\<close> is where an answer that redirects sends the client; \<open>cp_ReadError\<close> the error of reading the body.\<close>

record chart_answer =
  cp_Status :: nat
  cp_Redirect :: "URL option"
  cp_Body :: string
  cp_ReadError :: "probe_error option"

record chart_index =
  ci_APIVersion :: string
  ci_Entries :: "(string \<times> (string \<times> string list) list) list"

text \<open>
  The calls take the CA bundle. The OCI client is made for a repository, with the credential of one registry host; \<open>cp_Tags\<close> is its first page of
  tags, \<open>cp_Manifest\<close> the manifest of a tag.
\<close>

record 's Prober =
  cp_PEM :: "string \<Rightarrow> bool"
  cp_Send :: "string \<Rightarrow> chart_request \<Rightarrow> 's \<Rightarrow> (probe_error + chart_answer) \<times> 's"
  cp_ValidRepository :: "string \<Rightarrow> bool"
  cp_Tags :: "string \<Rightarrow> string \<Rightarrow> string \<Rightarrow> string \<Rightarrow> string \<Rightarrow> 's \<Rightarrow> (probe_error + string list) \<times> 's"
  cp_Manifest :: "string \<Rightarrow> string \<Rightarrow> string \<Rightarrow> string \<Rightarrow> string \<Rightarrow> string \<Rightarrow> 's \<Rightarrow> (probe_error + chart_answer) \<times> 's"
  cp_YAML :: "string \<Rightarrow> chart_index option"

text \<open>
  \<open>client.Do\<close> with \<open>CheckRedirect\<close>: \<open>via\<close> counts the requests that were sent. The client copies the credentials of the first request
  until it leaves the domain of that request, and \<open>CheckRedirect\<close> deletes them for any other host.
\<close>

definition isDomainOrSubdomain :: "string \<Rightarrow> string \<Rightarrow> bool" where
  "isDomainOrSubdomain sub parent \<longleftrightarrow> sub = parent \<or> CHR '':'' \<notin> set sub \<and> CHR ''%'' \<notin> set sub \<and> has_suffix sub (CHR ''.'' # parent)"

fun client_Do :: "'s Prober \<Rightarrow> string \<Rightarrow> chart_request \<Rightarrow> nat \<Rightarrow> bool \<Rightarrow> chart_request \<Rightarrow> 's \<Rightarrow> (probe_error + chart_answer) \<times> 's" where
  "client_Do p ca first left stripped rq s =
     (case cp_Send p ca rq s of
        (Inl e, s1) \<Rightarrow> (Inl e, s1)
      | (Inr resp, s1) \<Rightarrow>
          (case cp_Redirect resp of
             None \<Rightarrow> (Inr resp, s1)
           | Some to \<Rightarrow>
               (case left of
                  0 \<Rightarrow> (Inl NotReached, s1)
                | Suc left' \<Rightarrow>
                    if u_Scheme to \<noteq> ''https'' then (Inl NotReached, s1)
                    else let other = u_Host to \<noteq> u_Host (cq_URL first);
                             stripped' = (stripped \<or> other \<and> \<not> isDomainOrSubdomain (Hostname to) (Hostname (cq_URL first)))
                         in client_Do p ca first left' stripped'
                              \<lparr>cq_URL = to, cq_Auth = (if stripped' \<or> other then None else cq_Auth first), cq_Range = cq_Range first\<rparr> s1)))"

declare client_Do.simps [simp del]

definition chartRequest :: "'s Prober \<Rightarrow> string \<Rightarrow> URL \<Rightarrow> string \<Rightarrow> string \<Rightarrow> 's \<Rightarrow> (probe_error + chart_answer) \<times> 's" where
  "chartRequest p ca u username password =
     (let rq = \<lparr>cq_URL = u, cq_Auth = (if username \<noteq> '''' \<or> password \<noteq> '''' then Some (username, password) else None),
               cq_Range = (\<not> has_suffix (u_Path u) ''/index.yaml'')\<rparr>
      in client_Do p ca rq 9 False rq)"

section \<open>Results\<close>

definition maxChartMetadata :: nat where "maxChartMetadata = 8 * 1024 * 1024"

text \<open>\<open>Inl\<close> when the metadata are too long or cannot be read; then it matters whether the time is over.\<close>

definition readChartMetadata :: "chart_answer \<Rightarrow> probe_error + string" where
  "readChartMetadata resp =
     (if length (cp_Body resp) > maxChartMetadata then Inl NotReached
      else case cp_ReadError resp of Some e \<Rightarrow> Inl e | None \<Rightarrow> Inr (cp_Body resp))"

definition chartHTTPFailure :: "ChartResult \<Rightarrow> nat \<Rightarrow> ChartResult option" where
  "chartHTTPFailure result status =
     (if status \<in> {200, 206} then None
      else let r = result\<lparr>cr_HTTPStatus := status\<rparr>
           in Some (if status \<in> {401, 403} then r\<lparr>cr_Status := ''failed'', cr_Reason := ''accessDenied''\<rparr>
                    else if status = 404 then r\<lparr>cr_Status := ''failed'', cr_Reason := ''notFound''\<rparr>
                    else r\<lparr>cr_Status := ''error'', cr_Reason := ''connectionFailed''\<rparr>))"

definition classifyChartError :: "ChartResult \<Rightarrow> probe_error \<Rightarrow> ChartResult" where
  "classifyChartError result e =
     (case e of
        ErrorResponse status \<Rightarrow> (case chartHTTPFailure result status of None \<Rightarrow> result | Some r \<Rightarrow> r)
      | DeadlineExceeded \<Rightarrow> result\<lparr>cr_Reason := ''timeout''\<rparr>
      | BadCertificate \<Rightarrow> result\<lparr>cr_Reason := ''tls''\<rparr>
      | NotReached \<Rightarrow> result\<lparr>cr_Reason := ''connectionFailed''\<rparr>)"

text \<open>A probe gives the error that is left to classify and the result as far as it got.\<close>

type_synonym 's probing = "'s \<Rightarrow> (probe_error option \<times> ChartResult) \<times> 's"

definition reason :: "string \<Rightarrow> ChartResult \<Rightarrow> probe_error option \<times> ChartResult" where
  "reason why result = (None, result\<lparr>cr_Reason := why\<rparr>)"

definition not_there :: "ChartResult \<Rightarrow> probe_error option \<times> ChartResult" where
  "not_there result = (None, result\<lparr>cr_Status := ''failed'', cr_Reason := ''notFound''\<rparr>)"

section \<open>OCI\<close>

definition media_type :: "json \<Rightarrow> string option" where
  "media_type = decode_struct (\<lambda>m. str_value (m ''mediaType''))"

text \<open>Of the manifest the media types of the configuration and of the layers are read.\<close>

definition chart_manifest :: "string \<Rightarrow> bool" where
  "chart_manifest data \<longleftrightarrow>
     (case Option.bind (unmarshal data) (decode_struct (\<lambda>m.
        Option.bind (media_type (case m ''config'' of None \<Rightarrow> JNull | Some j \<Rightarrow> j)) (\<lambda>config.
        Option.bind (decode_list media_type (m ''layers'')) (\<lambda>layers. Some (config, layers))))) of
        None \<Rightarrow> False
      | Some (config, layers) \<Rightarrow>
          config = ''application/vnd.cncf.helm.config.v1+json'' \<and> ''application/vnd.cncf.helm.chart.content.v1.tar+gzip'' \<in> set layers)"

definition chart_component :: "string \<Rightarrow> bool" where
  "chart_component name \<longleftrightarrow> name \<notin> {'''', ''.'', ''..''} \<and> list_all (\<lambda>c. c \<notin> set ''/:@?#%'' \<and> c \<noteq> CHR 0x5C) name"

definition probeOCIChart :: "'s Prober \<Rightarrow> string \<Rightarrow> URL \<Rightarrow> string \<Rightarrow> string \<Rightarrow> ChartResult \<Rightarrow> 's probing" where
  "probeOCIChart p ca u username password result0 s =
     (let result = result0\<lparr>cr_Check := ''manifest''\<rparr>; name = cr_ChartName result0;
          repository = u_Host u @ trim_right CHR ''/'' (u_Path u) @ ''/'' @ name
      in if \<not> chart_component name \<or> \<not> cp_ValidRepository p repository then (reason ''configuration'' result, s)
         else (case cp_Tags p ca repository (u_Host u) username password s of
                 (Inl e, s1) \<Rightarrow> ((Some e, result), s1)
               | (Inr tags, s1) \<Rightarrow>
                   (let version = (case tags of [] \<Rightarrow> '''' | t # _ \<Rightarrow> t); found = result\<lparr>cr_Version := version\<rparr>
                    in if version = '''' then (not_there found, s1)
                       else (case cp_Manifest p ca repository (u_Host u) username password version s1 of
                               (Inl e, s2) \<Rightarrow> ((Some e, found), s2)
                             | (Inr body, s2) \<Rightarrow>
                                 (case readChartMetadata body of
                                    Inl DeadlineExceeded \<Rightarrow> (Some DeadlineExceeded, found)
                                  | Inl e \<Rightarrow> reason ''invalidChart'' found
                                  | Inr data \<Rightarrow> if chart_manifest data then (None, found) else reason ''invalidChart'' found, s2)))))"

section \<open>HTTPS\<close>

text \<open>The chart that is tried: the one that was asked for, or the first of the index by name.\<close>

definition sample_name :: "string \<Rightarrow> chart_index \<Rightarrow> string" where
  "sample_name name index = (if name \<noteq> '''' then name else (case sort (map fst (ci_Entries index)) of [] \<Rightarrow> '''' | n # _ \<Rightarrow> n))"

definition probe_entry :: "'s Prober \<Rightarrow> string \<Rightarrow> URL \<Rightarrow> URL \<Rightarrow> string \<Rightarrow> string \<Rightarrow> chart_index \<Rightarrow> ChartResult \<Rightarrow> 's probing" where
  "probe_entry p ca u base username password index result0 s =
     (let result = result0\<lparr>cr_ChartName := sample_name (cr_ChartName result0) index\<rparr>
      in case map_of (ci_Entries index) (cr_ChartName result) of
           Some ((version, location # _) # _) \<Rightarrow>
             (let found = result\<lparr>cr_Version := version\<rparr>
              in case url_Parse location of
                   None \<Rightarrow> (reason ''invalidIndex'' found, s)
                 | Some ref \<Rightarrow>
                     (let chartURL = ResolveReference base (url_has_user location) ref
                      in if u_Scheme chartURL \<noteq> ''https'' \<or> u_Host chartURL \<noteq> u_Host u \<or> url_has_user location
                         then (reason ''outsideRepository'' found, s)
                         else (case chartRequest p ca chartURL username password s of
                                 (Inl e, s1) \<Rightarrow> ((Some e, found), s1)
                               | (Inr resp, s1) \<Rightarrow> ((None, case chartHTTPFailure found (cp_Status resp) of None \<Rightarrow> found | Some r \<Rightarrow> r), s1))))
         | _ \<Rightarrow> (not_there result, s))"

definition probeHTTPSChart :: "'s Prober \<Rightarrow> string \<Rightarrow> URL \<Rightarrow> string \<Rightarrow> string \<Rightarrow> ChartResult \<Rightarrow> 's probing" where
  "probeHTTPSChart p ca u username password result0 s =
     (let result = result0\<lparr>cr_Check := ''chartFile''\<rparr>;
          base = u\<lparr>u_Path := trim_right CHR ''/'' (u_Path u) @ ''/''\<rparr>;
          indexURL = ResolveReference base False \<lparr>u_Scheme = '''', u_Host = '''', u_Path = ''index.yaml''\<rparr>
      in case chartRequest p ca indexURL username password s of
           (Inl e, s1) \<Rightarrow> ((Some e, result), s1)
         | (Inr resp, s1) \<Rightarrow>
             (case chartHTTPFailure result (cp_Status resp) of
                Some failed \<Rightarrow> ((None, failed), s1)
              | None \<Rightarrow>
                  (case readChartMetadata resp of
                     Inl DeadlineExceeded \<Rightarrow> ((Some DeadlineExceeded, result), s1)
                   | Inl e \<Rightarrow> (reason ''invalidIndex'' result, s1)
                   | Inr data \<Rightarrow>
                       (case cp_YAML p data of
                          None \<Rightarrow> (reason ''invalidIndex'' result, s1)
                        | Some index \<Rightarrow>
                            if ci_APIVersion index \<noteq> ''v1'' then (reason ''invalidIndex'' result, s1)
                            else probe_entry p ca u base username password index result s1))))"

definition probe_url :: "string \<Rightarrow> URL option" where
  "probe_url raw =
     (case url_Parse raw of
        None \<Rightarrow> None
      | Some u \<Rightarrow>
          if u_Host u = '''' \<or> url_has_user raw \<or> url_RawQuery raw \<noteq> '''' \<or> url_Fragment raw \<noteq> '''' \<or> u_Scheme u \<notin> {''oci'', ''https''}
          then None else Some u)"

definition ProbeChart :: "'s Prober \<Rightarrow> string \<Rightarrow> string \<Rightarrow> string \<Rightarrow> string \<Rightarrow> string \<Rightarrow> 's \<Rightarrow> ChartResult \<times> 's" where
  "ProbeChart p repositoryURL chartName username password caPEM s =
     (let result = \<lparr>cr_RepositoryURL = repositoryURL, cr_ChartName = chartName, cr_Version = '''', cr_Check = '''', cr_Status = ''error'',
                    cr_Reason = '''', cr_HTTPStatus = 0\<rparr>
      in case probe_url repositoryURL of
           None \<Rightarrow> (result\<lparr>cr_Reason := ''configuration''\<rparr>, s)
         | Some u \<Rightarrow>
             if caPEM \<noteq> '''' \<and> \<not> cp_PEM p caPEM then (result\<lparr>cr_Reason := ''tls''\<rparr>, s)
             else (case (if u_Scheme u = ''oci'' then probeOCIChart else probeHTTPSChart) p caPEM u username password result s of
                     ((Some e, r), s1) \<Rightarrow> (classifyChartError r e, s1)
                   | ((None, r), s1) \<Rightarrow> (if cr_Reason r = '''' then r\<lparr>cr_Status := ''ok''\<rparr> else r, s1)))"

section \<open>To whom the credentials go\<close>

text \<open>What leaves the probe: a request with its credentials, if it has any, or credentials handed to the OCI client for one registry host.\<close>

datatype disclosure = HttpRequest URL "(string \<times> string) option" | OciClient string string string

text \<open>
  Within the bounds of a repository: a request goes over HTTPS, and with credentials only to the host of the repository; the OCI client has them for that
  host only.
\<close>

definition has_creds :: "string \<times> string \<Rightarrow> bool" where "has_creds creds \<longleftrightarrow> creds \<noteq> ('''', '''')"

fun within :: "URL \<Rightarrow> string \<times> string \<Rightarrow> disclosure \<Rightarrow> bool" where
  "within u creds (HttpRequest to auth) \<longleftrightarrow>
     u_Scheme to = ''https'' \<and> (auth \<noteq> None \<longrightarrow> auth = Some creds \<and> has_creds creds \<and> u_Host to = u_Host u)"
| "within u creds (OciClient host username password) \<longleftrightarrow> host = u_Host u \<and> (username, password) = creds"

fun carries :: "disclosure \<Rightarrow> bool" where
  "carries (HttpRequest to auth) \<longleftrightarrow> auth \<noteq> None"
| "carries (OciClient host username password) \<longleftrightarrow> username \<noteq> '''' \<or> password \<noteq> ''''"

text \<open>A log of what is given to the calls.\<close>

locale sender =
  fixes p :: "'s Prober" and log :: "'s \<Rightarrow> disclosure list"
  assumes logged: "log (snd (cp_Send p ca rq s)) = HttpRequest (cq_URL rq) (cq_Auth rq) # log s"
    and tags_logged: "log (snd (cp_Tags p ca repository host username password s)) = OciClient host username password # log s"
    and manifest_logged: "log (snd (cp_Manifest p ca repository host username password version s)) = OciClient host username password # log s"
begin

definition adds :: "(disclosure \<Rightarrow> bool) \<Rightarrow> ('s \<Rightarrow> 'a \<times> 's) \<Rightarrow> bool" where
  "adds P m \<longleftrightarrow> (\<forall>s. \<exists>new. log (snd (m s)) = new @ log s \<and> (\<forall>d \<in> set new. P d))"

lemma addsD: "adds P m \<Longrightarrow> m s = (r, s') \<Longrightarrow> \<exists>new. log s' = new @ log s \<and> (\<forall>d \<in> set new. P d)"
  unfolding adds_def by (metis snd_conv)

lemma adds_then:
  assumes "log s1 = new @ log s" "\<forall>d \<in> set new. P d" "\<exists>more. log s2 = more @ log s1 \<and> (\<forall>d \<in> set more. P d)"
  shows "\<exists>new. log s2 = new @ log s \<and> (\<forall>d \<in> set new. P d)"
proof -
  obtain more where "log s2 = more @ log s1" "\<forall>d \<in> set more. P d" using assms(3) by blast
  then show ?thesis using assms(1,2) by (intro exI [of _ "more @ new"]) auto
qed

lemma Do_adds:
  assumes "u_Scheme (cq_URL rq) = ''https''" "within u creds (HttpRequest (cq_URL rq) (cq_Auth rq))"
    and "u_Host (cq_URL first) = u_Host u" "cq_Auth first \<noteq> None \<longrightarrow> cq_Auth first = Some creds \<and> has_creds creds"
  shows "\<exists>new. log (snd (client_Do p ca first left stripped rq s)) = new @ log s \<and> (\<forall>d \<in> set new. within u creds d)"
  using assms
proof (induction left arbitrary: stripped rq s)
  case 0
  obtain r s1 where c: "cp_Send p ca rq s = (r, s1)" by (cases "cp_Send p ca rq s")
  then have l: "log s1 = [HttpRequest (cq_URL rq) (cq_Auth rq)] @ log s" using logged [of ca rq s] by simp
  have "snd (client_Do p ca first 0 stripped rq s) = s1"
    using c by (simp add: client_Do.simps [of p ca first 0] split: sum.split option.split)
  then show ?case using l 0 by auto
next
  case (Suc left)
  obtain r s1 where c: "cp_Send p ca rq s = (r, s1)" by (cases "cp_Send p ca rq s")
  then have l: "log s1 = [HttpRequest (cq_URL rq) (cq_Auth rq)] @ log s" using logged [of ca rq s] by simp
  have w: "\<forall>d \<in> set [HttpRequest (cq_URL rq) (cq_Auth rq)]. within u creds d" using Suc.prems by simp
  let ?m = "client_Do p ca first (Suc left) stripped rq s"
  show ?case
  proof (cases "\<exists>resp to. r = Inr resp \<and> cp_Redirect resp = Some to \<and> u_Scheme to = ''https''")
    case False
    then have "snd ?m = s1"
      using c by (cases r) (auto simp: client_Do.simps [of p ca first "Suc left"] split: option.split)
    then show ?thesis using l w by auto
  next
    case True
    then obtain resp to where t: "r = Inr resp" "cp_Redirect resp = Some to" "u_Scheme to = ''https''" by blast
    let ?other = "u_Host to \<noteq> u_Host (cq_URL first)"
    define stripped' where "stripped' = (stripped \<or> ?other \<and> \<not> isDomainOrSubdomain (Hostname to) (Hostname (cq_URL first)))"
    have m: "?m = client_Do p ca first left stripped'
        \<lparr>cq_URL = to, cq_Auth = (if stripped' \<or> ?other then None else cq_Auth first), cq_Range = cq_Range first\<rparr> s1"
      using c t by (simp add: client_Do.simps [of p ca first "Suc left"] Let_def stripped'_def)
    show ?thesis unfolding m by (rule adds_then [OF l w Suc.IH]) (use t(3) Suc.prems(3,4) in auto)
  qed
qed

lemma request_adds:
  assumes "u_Scheme to = ''https''" "u_Host to = u_Host u"
  shows "adds (within u (username, password)) (chartRequest p ca to username password)"
  unfolding adds_def chartRequest_def Let_def by (intro allI Do_adds) (simp_all add: assms has_creds_def)

lemma quiet: "\<exists>new. log s = new @ log s \<and> (\<forall>d \<in> set new. P d)"
  by (intro exI [of _ "[]"]) simp

lemma entry_adds: "adds (within u (username, password)) (probe_entry p ca u base username password index result)"
  unfolding adds_def
proof
  fix s
  let ?m = "probe_entry p ca u base username password index result s"
  have "snd ?m = s \<or> (\<exists>to. u_Scheme to = ''https'' \<and> u_Host to = u_Host u \<and> snd ?m = snd (chartRequest p ca to username password s))"
    by (auto simp: probe_entry_def Let_def split: option.split list.split prod.split sum.split)
  then show "\<exists>new. log (snd ?m) = new @ log s \<and> (\<forall>d \<in> set new. within u (username, password) d)"
  proof
    assume "\<exists>to. u_Scheme to = ''https'' \<and> u_Host to = u_Host u \<and> snd ?m = snd (chartRequest p ca to username password s)"
    then obtain to where to: "u_Scheme to = ''https''" "u_Host to = u_Host u" "snd ?m = snd (chartRequest p ca to username password s)" by blast
    show ?thesis using request_adds [OF to(1,2)] unfolding adds_def to(3) by blast
  qed (use quiet in simp)
qed

lemma https_adds:
  assumes "u_Scheme u = ''https''"
  shows "adds (within u (username, password)) (probeHTTPSChart p ca u username password result)"
  unfolding adds_def
proof
  fix s
  let ?base = "u\<lparr>u_Path := trim_right CHR ''/'' (u_Path u) @ ''/''\<rparr>"
  let ?url = "ResolveReference ?base False \<lparr>u_Scheme = '''', u_Host = '''', u_Path = ''index.yaml''\<rparr>"
  have url: "u_Scheme ?url = ''https''" "u_Host ?url = u_Host u" using assms by (simp_all add: ResolveReference_def)
  obtain r s1 where c: "chartRequest p ca ?url username password s = (r, s1)" by (cases "chartRequest p ca ?url username password s")
  obtain new where n: "log s1 = new @ log s" "\<forall>d \<in> set new. within u (username, password) d" using addsD [OF request_adds [OF url] c] by blast
  let ?m = "probeHTTPSChart p ca u username password result s"
  have "snd ?m = s1 \<or> (\<exists>index result'. snd ?m = snd (probe_entry p ca u ?base username password index result' s1))"
    using c by (auto simp: probeHTTPSChart_def Let_def split: sum.split option.split probe_error.split)
  then show "\<exists>new. log (snd ?m) = new @ log s \<and> (\<forall>d \<in> set new. within u (username, password) d)"
  proof
    assume "\<exists>index result'. snd ?m = snd (probe_entry p ca u ?base username password index result' s1)"
    then obtain index result' where e: "snd ?m = snd (probe_entry p ca u ?base username password index result' s1)" by blast
    show ?thesis unfolding e by (rule adds_then [OF n]) (use entry_adds in \<open>simp add: adds_def\<close>)
  qed (use n in auto)
qed

lemma oci_adds: "adds (\<lambda>d. d = OciClient (u_Host u) username password) (probeOCIChart p ca u username password result)"
  unfolding adds_def
proof
  fix s
  let ?repo = "u_Host u @ trim_right CHR ''/'' (u_Path u) @ ''/'' @ cr_ChartName result"
  let ?d = "OciClient (u_Host u) username password"
  obtain r s1 where c: "cp_Tags p ca ?repo (u_Host u) username password s = (r, s1)" by (cases "cp_Tags p ca ?repo (u_Host u) username password s")
  then have l: "log s1 = ?d # log s" using tags_logged [of ca ?repo "u_Host u" username password s] by simp
  let ?m = "probeOCIChart p ca u username password result s"
  have "snd ?m = s \<or> snd ?m = s1 \<or> (\<exists>version. snd ?m = snd (cp_Manifest p ca ?repo (u_Host u) username password version s1))"
    using c by (auto simp: probeOCIChart_def Let_def split: sum.split list.split probe_error.split prod.split) (metis snd_conv)+
  then consider "log (snd ?m) = log s" | "log (snd ?m) = ?d # log s" | "log (snd ?m) = [?d, ?d] @ log s"
    using l manifest_logged by fastforce
  then show "\<exists>new. log (snd ?m) = new @ log s \<and> (\<forall>d \<in> set new. d = ?d)"
  proof cases
    case 2
    then show ?thesis by (intro exI [of _ "[?d]"]) simp
  next
    case 3
    then show ?thesis by (intro exI [of _ "[?d, ?d]"]) simp
  qed simp
qed

text \<open>What a probe gives away stays within the repository, and a probe without credentials carries none.\<close>

lemma probe_adds:
  assumes "ProbeChart p url chart username password ca s = (r, s')"
  shows "\<exists>new. log s' = new @ log s \<and> (\<forall>d \<in> set new. \<exists>u. url_Parse url = Some u \<and> within u (username, password) d)"
proof (cases "probe_url url")
  case None
  then show ?thesis using assms quiet by (simp add: ProbeChart_def)
next
  case (Some u)
  then have u: "url_Parse url = Some u" "u_Scheme u \<in> {''oci'', ''https''}" by (auto simp: probe_url_def split: option.splits if_splits)
  show ?thesis
  proof (cases "ca \<noteq> '''' \<and> \<not> cp_PEM p ca")
    case True
    then show ?thesis using assms Some quiet by (simp add: ProbeChart_def)
  next
    case False
    define result where "result = \<lparr>cr_RepositoryURL = url, cr_ChartName = chart, cr_Version = '''', cr_Check = '''', cr_Status = ''error'',
      cr_Reason = '''', cr_HTTPStatus = 0\<rparr>"
    let ?probe = "(if u_Scheme u = ''oci'' then probeOCIChart else probeHTTPSChart) p ca u username password result s"
    obtain e r' s1 where q: "?probe = ((e, r'), s1)" by (metis prod.collapse)
    then have "s' = s1" using assms Some False by (cases e) (auto simp: ProbeChart_def Let_def result_def)
    then have m: "s' = snd ?probe" using q by simp
    have "adds (within u (username, password)) ((if u_Scheme u = ''oci'' then probeOCIChart else probeHTTPSChart) p ca u username password result)"
    proof (cases "u_Scheme u = ''oci''")
      case True
      then show ?thesis using oci_adds [of u username password ca result] by (fastforce simp: adds_def)
    next
      case False
      then show ?thesis using https_adds u(2) by simp
    qed
    then show ?thesis unfolding m adds_def using u(1) by blast
  qed
qed

end

end
