(* ===== verification/ApiSettingsPass.thy ===== *)
theory ApiSettingsPass
  imports ApiSettings SettingsRepos CatalogPass ChartProbe
begin

text \<open>
  What the settings endpoints guarantee: a saved page keeps the remote catalog, the preflight agrees with the controller, the client that is
  validated is the one the controller installs, and the probes of charts are those of the controller's repositories.
\<close>

section \<open>Saving\<close>

text \<open>What a saved page makes of the spec: the remote catalog is kept when the page does not name one.\<close>

definition merged_spec :: "SettingsSpec \<Rightarrow> SettingsSpec option \<Rightarrow> SettingsSpec" where
  "merged_spec spec old =
     (if set_AppCatalogURL spec \<noteq> '''' then spec
      else case old of None \<Rightarrow> spec | Some o1 \<Rightarrow> spec\<lparr>set_AppCatalogURL := set_AppCatalogURL o1\<rparr>)"

text \<open>\<open>conf\<close> is the stored spec. An apply that reports an error may still have been carried out.\<close>

locale settings_store =
  fixes sw :: "'s SettingsWeb" and conf :: "'s \<Rightarrow> SettingsSpec option"
  assumes settings_keep: "leaves conf (sw_Settings sw)"
    and settings_ok: "sw_Settings sw w = (Inr spec, w') \<Longrightarrow> conf w = Some spec"
    and settings_absent: "sw_Settings sw w = (Inl e, w') \<Longrightarrow> err_is e = SNotFound \<Longrightarrow> conf w = None"
    and apply_ok: "sw_Apply sw spec w = (Inr spec', w') \<Longrightarrow> spec' = spec \<and> conf w' = Some spec"
    and apply_err: "sw_Apply sw spec w = (Inl e, w') \<Longrightarrow> conf w' = conf w \<or> conf w' = Some spec"
begin

lemma with_remote_ok:
  assumes "with_remote sw spec w = (r, w1)"
  shows "conf w1 = conf w \<and> (\<forall>spec'. r = Inr spec' \<longrightarrow> spec' = merged_spec spec (conf w))"
proof -
  obtain x w2 where g: "sw_Settings sw w = (x, w2)" by (cases "sw_Settings sw w")
  have k: "conf w2 = conf w" using leavesD [OF settings_keep g] .
  show ?thesis using assms g k settings_ok [of w _ w2] settings_absent [of w _ w2]
    by (cases x) (auto simp: with_remote_def merged_spec_def split: if_splits)
qed

lemma put_pass:
  assumes "putSettings sw rq w = ((status, r), w')"
  shows "(\<forall>saved. r = Inr saved \<longrightarrow> (\<exists>spec. rq_Body rq = Inr spec \<and> saved = merged_spec spec (conf w) \<and> conf w' = Some saved))
    \<and> (isl r \<longrightarrow> conf w' = conf w \<or> (\<exists>spec. rq_Body rq = Inr spec \<and> conf w' = Some (merged_spec spec (conf w))))"
proof (cases "json_request (rq_ContentType rq)")
  case True
  show ?thesis
  proof (cases "rq_Body rq")
    case spec: (Inr spec)
    obtain x w1 where x: "with_remote sw spec w = (x, w1)" by (cases "with_remote sw spec w")
    note m = with_remote_ok [OF x]
    show ?thesis
    proof (cases x)
      case (Inr spec')
      obtain a w2 where a: "sw_Apply sw spec' w1 = (a, w2)" by (cases "sw_Apply sw spec' w1")
      show ?thesis using assms True spec x m Inr a apply_ok [of spec' w1 _ w2] apply_err [of spec' w1 _ w2]
        by (cases a) (auto simp: putSettings_def internal_def writeError_def writeJSON_def)
    qed (use assms True spec x m in \<open>auto simp: putSettings_def internal_def writeError_def\<close>)
  qed (use assms True in \<open>auto simp: putSettings_def writeError_def\<close>)
qed (use assms in \<open>auto simp: putSettings_def not_json_def writeError_def\<close>)

end

section \<open>The preflight\<close>

context secret_client begin

lemma api_read_up:
  assumes "sw_Client sw = c" "up s"
  shows "\<exists>s' e. api_readSecretKey sw r s = (case Option.bind (look s (sw_Namespace sw, ref_Name r)) (\<lambda>sec. sec_Data sec (ref_Key r)) of
      None \<Rightarrow> Inl e | Some v \<Rightarrow> Inr v, s') \<and> up s' \<and> look s' = look s"
proof (cases rule: get_up_cases [OF assms(2), of "sw_Namespace sw" "ref_Name r"])
  case (1 s')
  then show ?thesis using assms(1) by (auto simp: api_readSecretKey_def)
next
  case (2 sec s')
  then show ?thesis using assms(1) by (cases "sec_Data sec (ref_Key r)") (auto simp: api_readSecretKey_def)
qed

lemma effective_stays_up:
  assumes "up s"
  shows "up (snd (EffectiveRefs c ns eu et registry s))"
  by (rule effective_up [OF assms, of ns eu et registry]) auto

lemma preflight_pair:
  assumes "sw_Client sw = c" "up s" "ns = sw_Namespace sw"
  shows "fst (readRegistryCredentials c ns registry (UserSecretRef sec) (TokenSecretRef sec) s)
    = Inr (case fst (read_cred sw registry sec host s) of
             None \<Rightarrow> None
           | Some cr \<Rightarrow> if rcr_Username cr = '''' \<or> rcr_Password cr = '''' then None else Some (rcr_Username cr, rcr_Password cr))"
proof -
  obtain u t s1 where e: "EffectiveRefs c ns (UserSecretRef sec) (TokenSecretRef sec) registry s = ((u, t), s1)"
    by (cases "EffectiveRefs c ns (UserSecretRef sec) (TokenSecretRef sec) registry s") auto
  have up1: "up s1" using effective_stays_up [OF assms(2), of ns "UserSecretRef sec" "TokenSecretRef sec" registry] e by simp
  obtain s9 where p: "ReadPair c ns u t s1 = (Inr (pair_in (look s1) ns u t), s9)" using ReadPair_up [OF up1] by blast
  show ?thesis
  proof (cases "u = None \<or> t = None")
    case True
    then show ?thesis using assms e p by (auto simp: readRegistryCredentials_def read_cred_def pair_in_def split: option.splits)
  next
    case False
    then obtain u' t' where ut: "u = Some u'" "t = Some t'" by auto
    obtain s2 e2 where r2: "api_readSecretKey sw u' s1 = (case Option.bind (look s1 (ns, ref_Name u')) (\<lambda>sec. sec_Data sec (ref_Key u')) of
        None \<Rightarrow> Inl e2 | Some v \<Rightarrow> Inr v, s2)" "up s2" "look s2 = look s1"
      using api_read_up [OF assms(1) up1, of u'] assms(3) by blast
    obtain s3 e3 where r3: "api_readSecretKey sw t' s2 = (case Option.bind (look s1 (ns, ref_Name t')) (\<lambda>sec. sec_Data sec (ref_Key t')) of
        None \<Rightarrow> Inl e3 | Some v \<Rightarrow> Inr v, s3)"
      using api_read_up [OF assms(1) r2(2), of t'] assms(3) r2(3) by auto
    show ?thesis using assms e p ut r2(1) r3
      by (auto simp: readRegistryCredentials_def read_cred_def pair_in_def pair_of_def split: option.splits sum.splits)
  qed
qed

end

section \<open>The validated client\<close>

lemma catalog_ca_controller:
  assumes "catalog_ca sw (rc_CABundleSecretRef (set_RancherCatalog (se_Spec s))) w = (Inr ca, w1)"
    and "sx_Client x = sw_Client sw" "se_Namespace s = sw_Namespace sw"
  shows "\<exists>src. resolveCABundle x s w = ((ca, src), w1)"
  using assms by (auto simp: catalog_ca_def resolveCABundle_def readSecretKey_def api_readSecretKey_def mget_def
      split: option.splits sum.splits prod.splits)

lemma candidate_controller:
  assumes "catalog_candidate sw (set_RancherCatalog (se_Spec s)) w = (Inr client, w1)"
    and "sx_Client x = sw_Client sw" "sx_PEM x = sw_PEM sw" "sx_SetHolder x = Some put" "se_Namespace s = sw_Namespace sw"
  shows "reconcileRancherCatalogClient x s w = put (Some client) w1"
proof -
  let ?rc = "set_RancherCatalog (se_Spec s)" and ?url = "if rc_URL (set_RancherCatalog (se_Spec s)) = '''' then DefaultBaseURL else rc_URL (set_RancherCatalog (se_Spec s))"
  obtain r where r: "rc_TokenSecretRef ?rc = Some r" "secretRefComplete (Some r)"
    using assms(1) by (cases "rc_TokenSecretRef ?rc") (auto simp: catalog_candidate_def Let_def split: if_splits)
  obtain t w2 where t: "api_readSecretKey sw r w = (t, w2)" by (cases "api_readSecretKey sw r w")
  then obtain token where token: "t = Inr token" "token \<noteq> ''''"
    using assms(1) r by (cases t) (auto simp: catalog_candidate_def Let_def split: if_splits)
  obtain a w3 where a: "catalog_ca sw (rc_CABundleSecretRef ?rc) w2 = (a, w3)" by (cases "catalog_ca sw (rc_CABundleSecretRef ?rc) w2")
  then obtain ca where ca: "a = Inr ca" "NewCatalogClient (sw_PEM sw) ?url token ca (rc_InsecureSkipVerify ?rc) = Inr client" "w3 = w1"
    using assms(1) r t token by (cases a) (auto simp: catalog_candidate_def Let_def split: sum.splits)
  obtain src where "resolveCABundle x s w2 = ((ca, src), w1)"
    using catalog_ca_controller [of sw s w2 ca w3 x] a ca assms by auto
  moreover have "readSecretKey (sx_Client x) (se_Namespace s) r w = (Inr token, w2)"
    using t token assms by (auto simp: readSecretKey_def api_readSecretKey_def mget_def split: sum.splits prod.splits option.splits)
  ultimately show ?thesis using r token ca(2) assms by (simp add: reconcileRancherCatalogClient_def Let_def)
qed

section \<open>The endpoints in memory\<close>

text \<open>The cluster of Credentials with a log of the chart probes: URL, user and password, latest first, and the client that the controller holds.\<close>

record office =
  of_cluster :: cluster
  of_probes :: "disclosure list"
  of_holder :: "CatalogClient option"

definition at_cluster :: "(cluster, 'a) act \<Rightarrow> (office, 'a) act" where
  "at_cluster m w = (case m (of_cluster w) of (r, c) \<Rightarrow> (r, w\<lparr>of_cluster := c\<rparr>))"

definition office_client :: "office Client" where
  "office_client = \<lparr>
     GetSecret = (\<lambda>ns n. at_cluster (GetSecret cluster_client ns n)),
     UpdateSecret = (\<lambda>ns n sec. at_cluster (UpdateSecret cluster_client ns n sec)),
     PatchSecret = (\<lambda>ns n sec. at_cluster (PatchSecret cluster_client ns n sec)),
     PatchNamespace = (\<lambda>ns. at_cluster (PatchNamespace cluster_client ns)),
     GetSettings = at_cluster (GetSettings cluster_client)\<rparr>"

definition offline :: "('s, 'a) act" where "offline w = (Inl (Err SOther ''offline''), w)"

text \<open>A network in which no chart is found; what is given away is kept.\<close>

definition give_away :: "disclosure \<Rightarrow> office \<Rightarrow> office" where "give_away d w = w\<lparr>of_probes := d # of_probes w\<rparr>"

definition office_prober :: "office Prober" where
  "office_prober = \<lparr>
     cp_PEM = (\<lambda>pem. pem \<noteq> ''''),
     cp_Send = (\<lambda>ca rq w. (Inl NotReached, give_away (HttpRequest (cq_URL rq) (cq_Auth rq)) w)),
     cp_ValidRepository = (\<lambda>repository. True),
     cp_Tags = (\<lambda>ca repository host user pass w. (Inr [], give_away (OciClient host user pass) w)),
     cp_Manifest = (\<lambda>ca repository host user pass version w. (Inl NotReached, give_away (OciClient host user pass) w)),
     cp_YAML = (\<lambda>data. None)\<rparr>"

definition office_web :: "office SettingsWeb" where
  "office_web = \<lparr>
     sw_Client = office_client, sw_Namespace = ''op'',
     sw_Settings = at_cluster (GetSettings cluster_client),
     sw_Apply = (\<lambda>spec. at_cluster (cl_call (\<lambda>s. (Inr spec, s\<lparr>cl_settings := Some spec\<rparr>)))),
     sw_PEM = (\<lambda>pem. pem \<noteq> ''''),
     sw_Git = \<lparr>ListRefs = (\<lambda>gc. offline), CloneFiles = (\<lambda>gc. offline), PushFiles = (\<lambda>gc files msg. offline)\<rparr>,
     sw_GitRejected = (\<lambda>e. False),
     sw_ProbeRegistry = (\<lambda>host user pass ca w. (\<lparr>pr_Status = statusOK, pr_Message = ''authenticated''\<rparr>, w)),
     sw_CheckCatalog = (\<lambda>client w. (if cc_Token client = ''good'' then Inr () else Inl (Err SUnauthorized ''rejected''), w)),
     sw_ProbeChart = ProbeChart office_prober,
     sw_Slot = (\<lambda>w. (True, w)),
     sw_FetchCatalog = (\<lambda>url. offline),
     sw_Order = id\<rparr>"

definition office_conf :: "office \<Rightarrow> SettingsSpec option" where "office_conf w = cl_settings (of_cluster w)"

lemma cl_settings_call:
  assumes "cl_call f s = (u, s')"
  obtains s0 where "cl_settings s0 = cl_settings s" "f s0 = (u, s')"
    | s0 e where "cl_settings s0 = cl_settings s" "u = Inl (Err SOther e)" "s' = snd (f s0) \<or> s' = s0"
  using cl_call_cases [of s f] assms that by (metis snd_conv prod.inject)

lemma office_read: "at_cluster (GetSettings cluster_client) w = (r, w') \<Longrightarrow>
    office_conf w' = office_conf w \<and> (\<forall>spec. r = Inr spec \<longrightarrow> office_conf w = Some spec) \<and> (\<forall>e. r = Inl e \<longrightarrow> err_is e = SNotFound \<longrightarrow> office_conf w = None)"
  by (auto simp: at_cluster_def cluster_client_def office_conf_def cl_read_def not_found_def split: prod.splits option.splits elim!: cl_settings_call)

lemma office_apply: "sw_Apply office_web spec w = (r, w') \<Longrightarrow>
    (\<forall>spec'. r = Inr spec' \<longrightarrow> spec' = spec \<and> office_conf w' = Some spec) \<and> (isl r \<longrightarrow> office_conf w' = office_conf w \<or> office_conf w' = Some spec)"
  by (auto simp: office_web_def at_cluster_def office_conf_def split: prod.splits elim!: cl_settings_call)

interpretation office: settings_store office_web office_conf
proof unfold_locales
  have s: "sw_Settings office_web = at_cluster (GetSettings cluster_client)" by (simp add: office_web_def)
  fix w spec w' e spec'
  show "leaves office_conf (sw_Settings office_web)" unfolding leaves_def s using office_read by (metis prod.collapse)
  show "sw_Settings office_web w = (Inr spec, w') \<Longrightarrow> office_conf w = Some spec" unfolding s using office_read by blast
  show "sw_Settings office_web w = (Inl e, w') \<Longrightarrow> err_is e = SNotFound \<Longrightarrow> office_conf w = None" unfolding s using office_read by blast
  show "sw_Apply office_web spec w = (Inr spec', w') \<Longrightarrow> spec' = spec \<and> office_conf w' = Some spec" using office_apply by blast
  show "sw_Apply office_web spec w = (Inl e, w') \<Longrightarrow> office_conf w' = office_conf w \<or> office_conf w' = Some spec" using office_apply by fastforce
qed

text \<open>The secrets of the office are those of its cluster.\<close>

definition of_secrets :: "office \<Rightarrow> string \<times> string \<Rightarrow> Secret option" where "of_secrets w = cl_secrets (of_cluster w)"
definition of_quiet :: "office \<Rightarrow> bool" where "of_quiet w = no_faults (of_cluster w)"

interpretation office_secrets: secret_client office_client of_secrets of_quiet
proof unfold_locales
  fix ns n s sec sec' e s'
  show "of_secrets (snd (GetSecret office_client ns n s)) = of_secrets s"
    using cl.get_look [of ns n "of_cluster s"] by (simp add: office_client_def at_cluster_def of_secrets_def split: prod.split) (metis snd_conv)
  show "GetSecret office_client ns n s = (Inr sec, s') \<Longrightarrow> of_secrets s (ns, n) = Some sec"
    using cl.get_ok [of ns n "of_cluster s"] by (auto simp: office_client_def at_cluster_def of_secrets_def split: prod.splits)
  show "GetSecret office_client ns n s = (Inl e, s') \<Longrightarrow> err_is e = SNotFound \<Longrightarrow> of_secrets s (ns, n) = None"
    using cl.get_absent [of ns n "of_cluster s"] by (auto simp: office_client_def at_cluster_def of_secrets_def split: prod.splits)
  show "of_quiet s \<Longrightarrow> of_quiet (snd (GetSecret office_client ns n s))
      \<and> (case fst (GetSecret office_client ns n s) of Inl e \<Rightarrow> err_is e = SNotFound | Inr _ \<Rightarrow> True)"
    using cl.get_up [of "of_cluster s" ns n] by (auto simp: office_client_def at_cluster_def of_quiet_def split: prod.splits)
  show "UpdateSecret office_client ns n sec s = (Inr sec', s') \<Longrightarrow> sec' = sec \<and> of_secrets s' = (of_secrets s)((ns, n) \<mapsto> sec)"
    using cl.update_ok [of ns n sec "of_cluster s"] by (auto simp: office_client_def at_cluster_def of_secrets_def split: prod.splits)
  show "UpdateSecret office_client ns n sec s = (Inl e, s') \<Longrightarrow> of_secrets s' = of_secrets s \<or> of_secrets s' = (of_secrets s)((ns, n) \<mapsto> sec)"
    using cl.update_err [of ns n sec "of_cluster s"] by (auto simp: office_client_def at_cluster_def of_secrets_def split: prod.splits)
  show "of_quiet s \<Longrightarrow> of_secrets s (ns, n) \<noteq> None \<Longrightarrow>
      of_quiet (snd (UpdateSecret office_client ns n sec s)) \<and> \<not> isl (fst (UpdateSecret office_client ns n sec s))"
    using cl.update_up [of "of_cluster s" ns n sec] by (auto simp: office_client_def at_cluster_def of_quiet_def of_secrets_def split: prod.splits)
qed

section \<open>Who is probed with the credentials\<close>

text \<open>What may be given away for a source: with the credentials only where the source has them.\<close>

definition sent :: "probe_credentials \<Rightarrow> chartProbeSource \<Rightarrow> disclosure \<Rightarrow> bool" where
  "sent creds src d \<longleftrightarrow> (\<exists>u. url_Parse (cps_url src) = Some u
     \<and> within u (if cps_authenticated src then (pc_User creds, pc_Password creds) else ('''', '''')) d)"

lemma sent_carries: "sent creds src d \<Longrightarrow> carries d \<Longrightarrow> cps_authenticated src"
  by (cases d) (auto simp: sent_def has_creds_def split: if_splits)

text \<open>The handlers with the probe of \<open>ChartProbe\<close>, over a log of what it gives away.\<close>

locale probe_log = sender p log for p :: "'s Prober" and log :: "'s \<Rightarrow> disclosure list" +
  fixes sw :: "'s SettingsWeb"
  assumes wired: "sw_ProbeChart sw = ProbeChart p"
    and slot_quiet: "sw_Slot sw w = (b, w') \<Longrightarrow> log w' = log w"
    and secret_quiet: "leaves log (GetSecret (sw_Client sw) ns n)"
begin

lemma read_quiet: "api_readSecretKey sw r w = (x, w') \<Longrightarrow> log w' = log w"
  using leavesD [OF secret_quiet [of "sw_Namespace sw" "ref_Name r"]]
  by (auto simp: api_readSecretKey_def split: prod.splits sum.splits option.splits)

lemma pair_quiet: "chart_pair sw conf ca w = (creds, w') \<Longrightarrow> log w' = log w"
  by (auto simp: chart_pair_def Let_def split: prod.splits sum.splits option.splits if_splits dest!: read_quiet)

lemma credentials_quiet: "chartProbeCredentials sw conf w = (creds, w') \<Longrightarrow> log w' = log w"
  by (auto simp: chartProbeCredentials_def Let_def split: prod.splits sum.splits option.splits if_splits dest!: read_quiet pair_quiet)

lemma source_adds:
  assumes "probe_source sw creds src w = (r, w')"
  shows "\<exists>new. log w' = new @ log w \<and> (\<forall>d \<in> set new. sent creds src d)"
proof (cases "pc_Reason creds \<noteq> '''' \<and> (cps_authenticated src \<or> pc_Reason creds = ''caUnreadable'')")
  case False
  obtain b w1 where b: "sw_Slot sw w = (b, w1)" by (cases "sw_Slot sw w")
  have s: "probe_source sw creds src w = (if \<not> b then (unprobed src ''timeout'', w1)
      else if cps_authenticated src then ProbeChart p (cps_url src) (cps_chart src) (pc_User creds) (pc_Password creds) (pc_CA creds) w1
      else ProbeChart p (cps_url src) (cps_chart src) '''' '''' (pc_CA creds) w1)"
    using False b by (auto simp: probe_source_def wired)
  show ?thesis
  proof (cases b)
    case True
    show ?thesis
    proof (cases "cps_authenticated src")
      case a: True
      then have "ProbeChart p (cps_url src) (cps_chart src) (pc_User creds) (pc_Password creds) (pc_CA creds) w1 = (r, w')" using assms s True by simp
      from probe_adds [OF this] show ?thesis using slot_quiet [OF b] a by (auto simp: sent_def)
    next
      case a: False
      then have "ProbeChart p (cps_url src) (cps_chart src) '''' '''' (pc_CA creds) w1 = (r, w')" using assms s True by simp
      from probe_adds [OF this] show ?thesis using slot_quiet [OF b] a by (auto simp: sent_def)
    qed
  qed (use assms s slot_quiet [OF b] quiet in simp)
qed (use assms quiet in \<open>auto simp: probe_source_def\<close>)

lemma sources_add:
  assumes "run_each (probe_source sw creds) srcs w = (rs, w')"
  shows "\<exists>new. log w' = new @ log w \<and> (\<forall>d \<in> set new. \<exists>src \<in> set srcs. sent creds src d)"
  using assms
proof (induction srcs arbitrary: w rs)
  case (Cons src srcs)
  obtain r w1 where p: "probe_source sw creds src w = (r, w1)" by (cases "probe_source sw creds src w")
  obtain rs1 where q: "run_each (probe_source sw creds) srcs w1 = (rs1, w')" using Cons.prems p by (auto split: prod.splits)
  obtain new where n: "log w1 = new @ log w" "\<forall>d \<in> set new. \<exists>src' \<in> set (src # srcs). sent creds src' d"
    using source_adds [OF p] by auto
  show ?case by (rule adds_then [OF n]) (use Cons.IH [OF q] in auto)
qed (use quiet in simp)

lemma access_pass:
  assumes "validateChartAccess sw bundled (Inr req) w = (reply, w')"
  shows "\<exists>new. log w' = new @ log w \<and> (new \<noteq> [] \<longrightarrow> (\<exists>conf srcs creds. car_Configuration req = Some conf
    \<and> chartProbeSources bundled (car_Target req) conf (car_ChartName req) = Inr srcs
    \<and> (\<forall>d \<in> set new. \<exists>src \<in> set srcs. sent creds src d)))"
proof (cases "car_Configuration req")
  case (Some conf)
  show ?thesis
  proof (cases "chartProbeSources bundled (car_Target req) conf (car_ChartName req)")
    case (Inr srcs)
    obtain creds w1 where c: "chartProbeCredentials sw conf w = (creds, w1)" by (cases "chartProbeCredentials sw conf w")
    obtain rs w2 where r: "run_each (probe_source sw creds) srcs w1 = (rs, w2)" by (cases "run_each (probe_source sw creds) srcs w1")
    have w2: "w' = w2" using assms Some Inr c r by (simp add: validateChartAccess_def)
    obtain new where n: "log w2 = new @ log w" "\<forall>d \<in> set new. \<exists>src \<in> set srcs. sent creds src d"
      using sources_add [OF r] credentials_quiet [OF c] by auto
    show ?thesis unfolding w2 using n Some Inr by blast
  qed (use assms Some in \<open>auto simp: validateChartAccess_def intro!: exI [of _ "[]"]\<close>)
qed (use assms in \<open>auto simp: validateChartAccess_def intro!: exI [of _ "[]"]\<close>)

end

interpretation office_log: probe_log office_prober of_probes office_web
  by unfold_locales (auto simp: office_web_def office_prober_def give_away_def office_client_def at_cluster_def leaves_def split: prod.splits)

lemma sources_recipients:
  assumes "chartProbeSources bundled target conf chart = Inr srcs" "src \<in> set srcs" "cps_authenticated src"
  shows "if repo_key (cac_URL conf) \<noteq> '''' then cps_url src = repo_key (cac_URL conf)
    else target = ''applicationCollection'' \<and> cps_url src = DefaultApplicationCollectionURL
      \<or> target = ''suseRegistry'' \<and> cps_url src = DefaultSUSERegistryURL
      \<or> target = ''nvidia'' \<and> IsNGCURL (cps_url src) \<and> cps_url src \<in> set (ntr_Gated (classifyNGCTeamRepos bundled))"
proof -
  have g: "u \<in> set (ntr_Gated (classifyNGCTeamRepos bundled)) \<Longrightarrow> IsNGCURL u" for u
    using team_repos_classified [of bundled] ngc_kind_gated by (simp add: Let_def)
  show ?thesis using assms g
    by (auto simp: chartProbeSources_def Let_def repo_key_def connected_sources_def split: if_splits)
qed

lemma connected_pairs:
  "(\<lambda>src. (cps_url src, cps_authenticated src)) ` set (connected_sources bundled)
   = {(DefaultNvidiaChartsURL, False), (DefaultNvidiaBlueprintURL, False)}
      \<union> (\<lambda>u. (u, False)) ` set (ntr_Public (classifyNGCTeamRepos bundled)) \<union> (\<lambda>u. (u, True)) ` set (ntr_Gated (classifyNGCTeamRepos bundled))"
  by (simp add: connected_sources_def Let_def image_Un image_image DefaultNvidiaChartsURL_def DefaultNvidiaBlueprintURL_def insert_commute)

section \<open>The properties\<close>

text \<open>
  C38. Saving the settings page never drops the remote catalog. Whatever fails, the spec that is stored afterwards is the old one or the spec of
  the request, in which an omitted remote catalog is the one stored before; after a success it is the latter, and the reply shows it.
\<close>

theorem settings_saved:
  assumes "settings_store sw conf" "putSettings sw rq w = ((status, r), w')"
  shows "(\<forall>saved. r = Inr saved \<longrightarrow> (\<exists>spec. rq_Body rq = Inr spec \<and> saved = merged_spec spec (conf w) \<and> conf w' = Some saved))
    \<and> (isl r \<longrightarrow> conf w' = conf w \<or> (\<exists>spec. rq_Body rq = Inr spec \<and> conf w' = Some (merged_spec spec (conf w))))"
  by (rule settings_store.put_pass [OF assms])

definition office_with :: "(string \<times> string \<Rightarrow> Secret option) \<Rightarrow> SettingsSpec \<Rightarrow> (bool \<times> string) option list \<Rightarrow> office" where
  "office_with secrets spec faults =
     \<lparr>of_cluster = \<lparr>cl_secrets = secrets, cl_namespaces = [''op''], cl_settings = Some spec, cl_faults = faults\<rparr>, of_probes = [], of_holder = None\<rparr>"

definition saved_page :: "SettingsSpec reply \<times> office" where
  "saved_page = putSettings office_web \<lparr>rq_ContentType = ''application/json'', rq_Body = Inr zero_spec\<rparr>
     (office_with Map.empty (zero_spec\<lparr>set_AppCatalogURL := ''https://apps.lan''\<rparr>) [None, Some (True, ''timeout'')])"

lemma replied_error: "fst (fst x) = k \<and> isl (snd (fst x)) \<Longrightarrow> \<exists>e. x = ((k, Inl e), snd x)"
  by (cases "fst x"; cases "snd (fst x)"; cases x) simp_all

lemma saved_page_fails: "fst (fst saved_page) = 500 \<and> isl (snd (fst saved_page))"
  by code_simp

theorem settings_saved_witness:
  "isl (snd (fst saved_page)) \<and> map_option set_AppCatalogURL (office_conf (snd saved_page)) = Some ''https://apps.lan''"
proof -
  obtain e where "saved_page = ((500, Inl e), snd saved_page)" using replied_error [OF saved_page_fails] by blast
  note p = this [unfolded saved_page_def]
  have c: "office_conf (office_with Map.empty (zero_spec\<lparr>set_AppCatalogURL := ''https://apps.lan''\<rparr>) [None, Some (True, ''timeout'')])
      = Some (zero_spec\<lparr>set_AppCatalogURL := ''https://apps.lan''\<rparr>)" by (simp add: office_conf_def office_with_def)
  have z: "merged_spec zero_spec (Some (zero_spec\<lparr>set_AppCatalogURL := ''https://apps.lan''\<rparr>)) = zero_spec\<lparr>set_AppCatalogURL := ''https://apps.lan''\<rparr>"
    by (simp add: merged_spec_def zero_spec_def)
  have "office_conf (snd saved_page) = Some (zero_spec\<lparr>set_AppCatalogURL := ''https://apps.lan''\<rparr>)"
    using conjunct2 [OF settings_saved [OF office.settings_store_axioms p]] unfolding saved_page_def [symmetric] c by (auto simp: z)
  then show ?thesis using saved_page_fails by simp
qed

text \<open>
  C39. The preflight agrees with the controller. As long as the calls succeed, the endpoint reports credentials of a registry exactly if
  the controller finds some for it, and the same ones; but an empty user or password, which the controller takes for none, it reports.
\<close>

theorem preflight_lockstep:
  assumes "secret_client (sw_Client sw) look up" "up s"
  shows "fst (readRegistryCredentials (sw_Client sw) (sw_Namespace sw) registry (UserSecretRef sec) (TokenSecretRef sec) s)
    = Inr (case fst (read_cred sw registry sec host s) of
             None \<Rightarrow> None
           | Some cr \<Rightarrow> if rcr_Username cr = '''' \<or> rcr_Password cr = '''' then None else Some (rcr_Username cr, rcr_Password cr))"
  by (rule secret_client.preflight_pair [OF assms(1) refl assms(2) refl])

definition own_registry :: RegistrySettings where
  "own_registry = \<lparr>UserSecretRef = Some \<lparr>ref_Name = ''mine'', ref_Key = ''user''\<rparr>, TokenSecretRef = Some \<lparr>ref_Name = ''mine'', ref_Key = ''token''\<rparr>,
     CABundleSecretRef = None\<rparr>"

definition office_secret :: "string \<Rightarrow> office" where
  "office_secret user = office_with [(''op'', ''mine'') \<mapsto> \<lparr>sec_Type = ''Opaque'', sec_Data = [''user'' \<mapsto> user, ''token'' \<mapsto> ''p'']\<rparr>]
     (zero_spec\<lparr>set_SUSERegistry := own_registry\<rparr>) []"

definition preflight_of :: "string \<Rightarrow> RegistryCred option" where
  "preflight_of user = fst (read_cred office_web RegistrySUSERegistry own_registry api_defaultSUSERegistryHost (office_secret user))"

lemma preflight_of_eval:
  "preflight_of ''u'' = Some \<lparr>rcr_Username = ''u'', rcr_Password = ''p'', rcr_RegistryHost = api_defaultSUSERegistryHost\<rparr>"
  "preflight_of '''' = Some \<lparr>rcr_Username = '''', rcr_Password = ''p'', rcr_RegistryHost = api_defaultSUSERegistryHost\<rparr>"
  by code_simp+

theorem preflight_lockstep_witness:
  "fst (readRegistryCredentials office_client ''op'' RegistrySUSERegistry (UserSecretRef own_registry) (TokenSecretRef own_registry) (office_secret ''u''))
     = Inr (Some (''u'', ''p''))
   \<and> fst (readRegistryCredentials office_client ''op'' RegistrySUSERegistry (UserSecretRef own_registry) (TokenSecretRef own_registry) (office_secret ''''))
     = Inr None"
proof -
  have c: "sw_Client office_web = office_client" "sw_Namespace office_web = ''op''" by (simp_all add: office_web_def)
  have q: "of_quiet (office_secret user)" for user by (simp add: of_quiet_def office_secret_def office_with_def no_faults_def)
  note p = preflight_lockstep [of office_web, unfolded c, OF office_secrets.secret_client_axioms q,
    of RegistrySUSERegistry own_registry _ api_defaultSUSERegistryHost, folded preflight_of_def]
  show ?thesis using p [of "''u''"] p [of "''''"] by (simp add: preflight_of_eval)
qed

text \<open>
  C17. What validates is what runs. If the Rancher token of the saved settings validates, or is rejected, the client that was tried is the one
  that the controller installs from the same state: same URL, token, trust and certificate authority.
\<close>

theorem validated_client_installed:
  assumes "validateRancherCatalog sw (se_Spec s) no_override w = (res, w')" "vr_Status res \<in> {statusOK, statusFailed}"
    and "sx_Client x = sw_Client sw" "sx_PEM x = sw_PEM sw" "sx_SetHolder x = Some put" "se_Namespace s = sw_Namespace sw"
  shows "\<exists>client w1 r. reconcileRancherCatalogClient x s w = put (Some client) w1 \<and> sw_CheckCatalog sw client w1 = (r, w')
    \<and> (vr_Status res = statusOK \<longleftrightarrow> \<not> isl r)"
proof -
  have o: "catalog_override (se_Spec s) no_override = set_RancherCatalog (se_Spec s)"
    by (simp add: catalog_override_def no_override_def secretRefComplete_def)
  obtain c w1 where c: "catalog_candidate sw (set_RancherCatalog (se_Spec s)) w = (c, w1)"
    by (cases "catalog_candidate sw (set_RancherCatalog (se_Spec s)) w")
  have "\<exists>client. c = Inr client"
  proof (cases c)
    case (Inl r0)
    then have "vr_Status r0 \<in> {statusSkipped, statusError}"
      using c by (auto simp: catalog_candidate_def Let_def result_of_def split: option.splits if_splits sum.splits prod.splits)
    then show ?thesis using assms(1,2) o c Inl
      by (auto simp: validateRancherCatalog_def Let_def statusOK_def statusFailed_def statusSkipped_def statusError_def)
  qed simp
  then obtain client where i: "c = Inr client" by blast
  obtain r w2 where r: "sw_CheckCatalog sw client w1 = (r, w2)" by (cases "sw_CheckCatalog sw client w1")
  have "w' = w2 \<and> (vr_Status res = statusOK \<longleftrightarrow> \<not> isl r)"
    using assms(1) o c i r by (cases r) (auto simp: validateRancherCatalog_def Let_def result_of_def statusOK_def statusFailed_def statusError_def split: if_splits)
  then show ?thesis using candidate_controller [OF c [unfolded i] assms(3-6)] r by blast
qed

definition idle_controller :: "office SettingsAPI" where
  "idle_controller = \<lparr>
     sx_Client = office_client, sx_GetSettings = (\<lambda>ns n. offline), sx_ListSettings = offline, sx_PatchSettings = (\<lambda>old new. offline),
     sx_UpdateStatus = (\<lambda>s. offline), sx_RetryOnConflict = id, sx_GetGitRepo = (\<lambda>n. offline), sx_ApplyGitRepo = (\<lambda>n g. offline),
     sx_DeleteGitRepo = (\<lambda>n. offline), sx_ListCatalogRepos = offline, sx_DeleteSecret = (\<lambda>ns n. offline), sx_RemoveCACerts = (\<lambda>ns n. offline),
     sx_ApplyRepo = (\<lambda>n r. offline), sx_ForceUpdate = (\<lambda>n t. offline), sx_DeleteRepo = (\<lambda>n. offline), sx_ListTeamRepos = offline,
     sx_PEM = (\<lambda>pem. pem \<noteq> ''''), sx_SetHolder = Some (\<lambda>client w. w\<lparr>of_holder := client\<rparr>)\<rparr>"

definition token_settings :: Settings where
  "token_settings = \<lparr>se_Namespace = ''op'', se_Name = SettingsName, se_Generation = 1,
     se_Spec = zero_spec\<lparr>set_RancherCatalog := \<lparr>rc_URL = ''https://rancher.lan/'', rc_TokenSecretRef = Some \<lparr>ref_Name = ''rancher'', ref_Key = ''token''\<rparr>,
       rc_CABundleSecretRef = None, rc_InsecureSkipVerify = False\<rparr>\<rparr>,
     se_LastApplied = None, se_ObservedGeneration = 0\<rparr>"

definition token_office :: office where
  "token_office = office_with [(''op'', ''rancher'') \<mapsto> \<lparr>sec_Type = ''Opaque'', sec_Data = [''token'' \<mapsto> ''good'']\<rparr>] (se_Spec token_settings) []"

lemma token_validates: "vr_Status (fst (validateRancherCatalog office_web (se_Spec token_settings) no_override token_office)) = statusOK"
  by code_simp

theorem validated_client_installed_witness:
  "\<exists>client. of_holder (reconcileRancherCatalogClient idle_controller token_settings token_office) = Some client
     \<and> fst (sw_CheckCatalog office_web client token_office) = Inr ()"
proof -
  obtain res w' where v: "validateRancherCatalog office_web (se_Spec token_settings) no_override token_office = (res, w')"
    by (cases "validateRancherCatalog office_web (se_Spec token_settings) no_override token_office")
  then have ok: "vr_Status res = statusOK" using token_validates by simp
  obtain client w1 r where c: "reconcileRancherCatalogClient idle_controller token_settings token_office = w1\<lparr>of_holder := Some client\<rparr>"
      "sw_CheckCatalog office_web client w1 = (r, w')" "\<not> isl r"
    using validated_client_installed [OF v, of idle_controller "\<lambda>client w. w\<lparr>of_holder := client\<rparr>"] ok
    by (auto simp: idle_controller_def office_web_def token_settings_def)
  have "r = Inr ()" using c(3) by (cases r) auto
  then show ?thesis using c(1,2) by (auto simp: office_web_def split: if_splits)
qed


definition form_check :: "ChartResult list reply \<times> office" where
  "form_check = validateChartAccess office_web [] (Inr \<lparr>car_Target = ''suseRegistry'',
     car_Configuration = Some \<lparr>cac_URL = '' '', cac_UserSecretRef = UserSecretRef own_registry, cac_TokenSecretRef = TokenSecretRef own_registry,
       cac_CABundleSecretRef = None\<rparr>, car_ChartName = ''ollama''\<rparr>) (office_secret ''u'')"

lemma form_check_log: "of_probes (snd form_check) = [OciClient ''registry.suse.com'' ''u'' ''p'']"
  by code_simp


text \<open>
  C23. A check without an endpoint tries the controller's repositories of NVIDIA. When the ClusterRepos are as a successful pass without an NVIDIA
  endpoint leaves them, each public or team repository of NVIDIA is among the probed sources, with the credentials exactly if it carries them.
\<close>

theorem chart_probes_match:
  assumes "settled spec bundled m" "nvidia_endpoint spec = ''''" "repo_key (cac_URL conf) = ''''"
    and "m n = Some r" "n \<in> set fixedNvidiaRepos \<or> is_team m n"
  shows "\<exists>srcs. chartProbeSources bundled ''nvidia'' conf chart = Inr srcs
    \<and> (\<exists>src \<in> set srcs. cps_url src = mr_URL r \<and> (cps_authenticated src \<longleftrightarrow> mr_ClientSecret r \<noteq> None))"
proof -
  have s: "chartProbeSources bundled ''nvidia'' conf chart = Inr (connected_sources bundled)"
    using assms(3) by (simp add: chartProbeSources_def Let_def repo_key_def)
  have "(mr_URL r, mr_ClientSecret r \<noteq> None) \<in> {(DefaultNvidiaChartsURL, False), (DefaultNvidiaBlueprintURL, False)}
      \<union> (\<lambda>u. (u, False)) ` set (ntr_Public (classifyNGCTeamRepos bundled)) \<union> (\<lambda>u. (u, True)) ` set (ntr_Gated (classifyNGCTeamRepos bundled))"
  proof (cases "is_team m n")
    case True
    then have "team_repo spec bundled m n" using assms(1) by (simp add: settled_def)
    then show ?thesis using assms(2,4) by (auto simp: team_repo_def managedRepoSpec_def AuthSecretNvidia_def)
  next
    case False
    then show ?thesis using assms
      by (auto simp: settled_def nvidia_repos_def as_asked_def fixedNvidiaRepos_def managedRepoSpec_def)
  qed
  then have "(mr_URL r, mr_ClientSecret r \<noteq> None) \<in> (\<lambda>src. (cps_url src, cps_authenticated src)) ` set (connected_sources bundled)"
    by (simp only: connected_pairs)
  then have "\<exists>src \<in> set (connected_sources bundled). cps_url src = mr_URL r \<and> (cps_authenticated src \<longleftrightarrow> mr_ClientSecret r \<noteq> None)" by force
  then show ?thesis using s by blast
qed

definition open_map :: repo_map where
  "open_map = [ClusterRepoOpenshell \<mapsto> managedRepoSpec DefaultOpenshellURL '''' managed_labels,
     ClusterRepoOpenshellWorkspace \<mapsto> managedRepoSpec DefaultOpenshellWorkspaceURL '''' managed_labels,
     ClusterRepoNvidia \<mapsto> managedRepoSpec DefaultNvidiaChartsURL '''' managed_labels]"

lemma open_map_settled: "settled zero_spec [] open_map"
proof -
  have "\<not> is_team open_map n" for n
    by (auto simp: is_team_def open_map_def managedRepoSpec_def managed_labels_def mget_def TeamRepoLabel_def ManagedRepoLabel_def split: if_splits)
  then show ?thesis
    by (auto simp: settled_def registry_repos_def as_asked_def open_repos_def nvidia_repos_def open_map_def repo_names zero_spec_def
        endpoint_or_def nvidia_endpoint_def)
qed

theorem chart_probes_match_witness:
  "\<exists>srcs. chartProbeSources [] ''nvidia'' \<lparr>cac_URL = '''', cac_UserSecretRef = None, cac_TokenSecretRef = None, cac_CABundleSecretRef = None\<rparr> '''' = Inr srcs
     \<and> (\<exists>src \<in> set srcs. cps_url src = DefaultNvidiaChartsURL \<and> \<not> cps_authenticated src)"
proof -
  have e: "nvidia_endpoint zero_spec = ''''" by (simp add: nvidia_endpoint_def zero_spec_def)
  have u: "repo_key (cac_URL \<lparr>cac_URL = '''', cac_UserSecretRef = None, cac_TokenSecretRef = None, cac_CABundleSecretRef = None\<rparr>) = ''''" by code_simp
  have m: "open_map ClusterRepoNvidia = Some (managedRepoSpec DefaultNvidiaChartsURL '''' managed_labels)" by (simp add: open_map_def repo_names)
  show ?thesis
    using chart_probes_match [OF open_map_settled e u m, of "''''"] by (simp add: fixedNvidiaRepos_def managedRepoSpec_def)
qed

end
