(* ===== verification/SafeHttp.thy ===== *)
theory SafeHttp
  imports Prelude "HOL-Library.Word"
begin

unbundle bit_operations_syntax

text \<open>
  The client that fetches a remote catalog (\<open>internal/infra/safehttp\<close>) refuses internal addresses when it dials. An address is a 32-bit
  or a 128-bit word, the latter with the zone it may carry. The predicates of \<open>net/netip\<close> are written out on the words: a prefix never contains
  an address with a zone, and the unspecified address is compared with its zone.
\<close>

section \<open>Addresses (net/netip)\<close>

datatype Addr = V4 "32 word" | V6 "128 word" string

text \<open>The leading \<open>n\<close> bits.\<close>

definition lead4 :: "nat \<Rightarrow> 32 word \<Rightarrow> 32 word" where "lead4 n w = drop_bit (32 - n) w"
definition lead6 :: "nat \<Rightarrow> 128 word \<Rightarrow> 128 word" where "lead6 n w = drop_bit (128 - n) w"

definition Unmap :: "Addr \<Rightarrow> Addr" where
  "Unmap ip = (case ip of V4 w \<Rightarrow> V4 w | V6 w zone \<Rightarrow> if lead6 96 w = 0xFFFF then V4 (ucast w) else V6 w zone)"

fun IsLoopback :: "Addr \<Rightarrow> bool" where
  "IsLoopback (V4 w) = (lead4 8 w = 127)"
| "IsLoopback (V6 w zone) = (w = 1)"

fun IsPrivate :: "Addr \<Rightarrow> bool" where
  "IsPrivate (V4 w) = (lead4 8 w = 10 \<or> lead4 12 w = 0xAC1 \<or> lead4 16 w = 0xC0A8)"
| "IsPrivate (V6 w zone) = (lead6 7 w = 0x7E)"

fun IsLinkLocalUnicast :: "Addr \<Rightarrow> bool" where
  "IsLinkLocalUnicast (V4 w) = (lead4 16 w = 0xA9FE)"
| "IsLinkLocalUnicast (V6 w zone) = (lead6 10 w = 0x3FA)"

fun IsLinkLocalMulticast :: "Addr \<Rightarrow> bool" where
  "IsLinkLocalMulticast (V4 w) = (lead4 24 w = 0xE00000)"
| "IsLinkLocalMulticast (V6 w zone) = (lead6 16 w AND 0xFF0F = 0xFF02)"

fun IsMulticast :: "Addr \<Rightarrow> bool" where
  "IsMulticast (V4 w) = (lead4 4 w = 0xE)"
| "IsMulticast (V6 w zone) = (lead6 8 w = 0xFF)"

fun IsUnspecified :: "Addr \<Rightarrow> bool" where
  "IsUnspecified (V4 w) = (w = 0)"
| "IsUnspecified (V6 w zone) = (w = 0 \<and> zone = '''')"

datatype Prefix = P4 nat "32 word" | P6 nat "128 word"

fun Contains :: "Prefix \<Rightarrow> Addr \<Rightarrow> bool" where
  "Contains (P4 n p) (V4 w) = (lead4 n w = lead4 n p)"
| "Contains (P6 n p) (V6 w zone) = (zone = '''' \<and> lead6 n w = lead6 n p)"
| "Contains (P4 n p) (V6 w zone) = False"
| "Contains (P6 n p) (V4 w) = False"

section \<open>Blocked destinations (safehttp.go)\<close>

definition cgnat :: Prefix where "cgnat = P4 10 0x64400000"
definition nat64WellKnown :: Prefix where "nat64WellKnown = P6 96 0x0064FF9B000000000000000000000000"

definition specialUse :: "Prefix list" where
  "specialUse = [P4 8 0, P4 24 0xC0000000, P4 24 0xC0000200, P4 24 0xC0586300, P4 15 0xC6120000, P4 24 0xC6336400, P4 24 0xCB007100,
     P4 4 0xF0000000, P6 32 0x20010000000000000000000000000000, P6 32 0x20010DB8000000000000000000000000, P6 16 0x20020000000000000000000000000000]"

text \<open>The checks after the NAT64 case; the recursion of \<open>IsBlockedIP\<close> is on an IPv4 address and so stops there.\<close>

definition in_range :: "Addr \<Rightarrow> bool" where
  "in_range ip \<longleftrightarrow> IsLoopback ip \<or> IsPrivate ip \<or> IsLinkLocalUnicast ip \<or> IsLinkLocalMulticast ip \<or> IsMulticast ip \<or> IsUnspecified ip
     \<or> Contains cgnat ip \<or> list_ex (\<lambda>p. Contains p ip) specialUse"

definition IsBlockedIP :: "Addr \<Rightarrow> bool" where
  "IsBlockedIP addr \<longleftrightarrow>
     (let ip = Unmap addr
      in (case ip of V4 w \<Rightarrow> False | V6 w zone \<Rightarrow> Contains nat64WellKnown ip \<and> in_range (Unmap (V4 (ucast w)))) \<or> in_range ip)"

section \<open>The ranges of IPv4\<close>

lemma lead4_iff: "lead4 n w = c \<longleftrightarrow> unat w div 2 ^ (32 - n) = unat c"
proof -
  have "unat (drop_bit (32 - n) w) = drop_bit (32 - n) (unat w)" by (rule unat_drop_bit_eq)
  then show ?thesis by (simp only: lead4_def word_unat_eq_iff drop_bit_eq_div)
qed

text \<open>First and last address of every blocked range.\<close>

definition blocked4 :: "(nat \<times> nat) list" where
  "blocked4 = [(0x00000000, 0x00FFFFFF), (0x0A000000, 0x0AFFFFFF), (0x64400000, 0x647FFFFF), (0x7F000000, 0x7FFFFFFF), (0xA9FE0000, 0xA9FEFFFF),
     (0xAC100000, 0xAC1FFFFF), (0xC0000000, 0xC00000FF), (0xC0000200, 0xC00002FF), (0xC0586300, 0xC05863FF), (0xC0A80000, 0xC0A8FFFF),
     (0xC6120000, 0xC613FFFF), (0xC6336400, 0xC63364FF), (0xCB007100, 0xCB0071FF), (0xE0000000, 0xFFFFFFFF)]"

lemma div_range:
  fixes x k q :: nat
  assumes "0 < k"
  shows "x div k = q \<longleftrightarrow> q * k \<le> x \<and> x < (q + 1) * k"
proof
  assume "x div k = q"
  then show "q * k \<le> x \<and> x < (q + 1) * k"
    using div_times_less_eq_dividend [of x k] dividend_less_div_times [OF assms, of x] by simp
next
  assume "q * k \<le> x \<and> x < (q + 1) * k"
  then show "x div k = q" by (intro div_nat_eqI) (simp_all add: mult.commute)
qed

lemma in_range4: "in_range (V4 w) \<longleftrightarrow> (\<exists>(a, b) \<in> set blocked4. a \<le> unat w \<and> unat w \<le> b)"
proof -
  have w: "unat w < 2 ^ 32" using unsigned_less [of w] by simp
  have z: "w = 0 \<longleftrightarrow> unat w = 0" by (simp add: word_unat_eq_iff)
  show ?thesis using w
    by (simp add: in_range_def blocked4_def specialUse_def cgnat_def lead4_iff div_range z, simp only: lead4_def, simp, presburger)
qed

section \<open>Embedded addresses\<close>

lemma lead6_coarser: "n \<le> 96 \<Longrightarrow> lead6 n w = drop_bit (96 - n) (lead6 96 w)"
  by (simp add: lead6_def)

lemma nat64_elsewhere_open:
  assumes "lead6 96 w = lead6 96 0x0064FF9B000000000000000000000000"
  shows "\<not> in_range (V6 w zone)"
proof -
  have l: "lead6 96 w = 0x64FF9B0000000000000000" using assms by (simp add: lead6_def)
  have "w \<noteq> 0" "w \<noteq> 1" using l by (auto simp: lead6_def)
  then show ?thesis using l
    by (simp add: in_range_def specialUse_def cgnat_def lead6_coarser [of 7] lead6_coarser [of 10] lead6_coarser [of 16] lead6_coarser [of 8]
        lead6_coarser [of 32]) (simp add: lead6_def)
qed

text \<open>
  C26. Internal destinations are refused. An IPv4 address is blocked exactly if it is in one of the fourteen ranges of the table, and one that is mapped
  into IPv6 or embedded by NAT64 exactly if the address it stands for is. With a zone this is not so: the loopback address behind NAT64, and the
  unspecified address, which a host takes for itself, pass.
\<close>

theorem internal_destinations_blocked:
  "(\<forall>w. IsBlockedIP (V4 w) \<longleftrightarrow> (\<exists>(a, b) \<in> set blocked4. a \<le> unat w \<and> unat w \<le> b))
   \<and> (\<forall>w zone. lead6 96 w = 0xFFFF \<longrightarrow> IsBlockedIP (V6 w zone) = IsBlockedIP (V4 (ucast w)))
   \<and> (\<forall>w. lead6 96 w = lead6 96 0x0064FF9B000000000000000000000000 \<longrightarrow> IsBlockedIP (V6 w '''') = IsBlockedIP (V4 (ucast w)))
   \<and> \<not> IsBlockedIP (V6 0x0064FF9B00000000000000007F000001 ''eth0'') \<and> \<not> IsBlockedIP (V6 0 ''lo'')"
proof (intro conjI allI impI)
  have v4: "IsBlockedIP (V4 w) = in_range (V4 w)" for w by (simp add: IsBlockedIP_def Unmap_def)
  fix w :: "32 word"
  show "IsBlockedIP (V4 w) \<longleftrightarrow> (\<exists>(a, b) \<in> set blocked4. a \<le> unat w \<and> unat w \<le> b)" by (simp only: v4 in_range4)
  fix w6 :: "128 word" and zone
  show "lead6 96 w6 = 0xFFFF \<Longrightarrow> IsBlockedIP (V6 w6 zone) = IsBlockedIP (V4 (ucast w6))" by (simp add: IsBlockedIP_def Unmap_def)
  assume n: "lead6 96 w6 = lead6 96 0x0064FF9B000000000000000000000000"
  then have "lead6 96 w6 \<noteq> 0xFFFF" by (simp add: lead6_def)
  then show "IsBlockedIP (V6 w6 '''') = IsBlockedIP (V4 (ucast w6))"
    using n nat64_elsewhere_open [OF n, of "''''"] by (simp add: v4 IsBlockedIP_def Unmap_def nat64WellKnown_def)
next
  show "\<not> IsBlockedIP (V6 0x0064FF9B00000000000000007F000001 ''eth0'')" by code_simp
  show "\<not> IsBlockedIP (V6 0 ''lo'')" by code_simp
qed

theorem internal_destinations_blocked_witness:
  "IsBlockedIP (V4 0x7F000001) \<and> \<not> IsBlockedIP (V4 0x08080808) \<and> IsBlockedIP (V6 0x0064FF9B00000000000000007F000001 '''')"
proof -
  note b = internal_destinations_blocked
  have n: "lead6 96 0x0064FF9B00000000000000007F000001 = lead6 96 0x0064FF9B000000000000000000000000" by (simp add: lead6_def)
  have u: "ucast (0x0064FF9B00000000000000007F000001 :: 128 word) = (0x7F000001 :: 32 word)" by simp
  show ?thesis using b n by (simp add: u blocked4_def)
qed

end
