(* ===== verification/RancherHttp.thy ===== *)
theory RancherHttp
  imports Settings DeletionPass
begin

text \<open>
  The requests of the client of Rancher's catalog (\<open>internal/infra/rancher/catalog.go\<close>): checking the token, downloading a chart, delegating an
  uninstallation. What sends a request is a parameter; the client's deadline, the reuse of connections, a base URL that does not parse and the texts
  of JSON errors are not modelled. The client is then put under the deletion of a workload.
\<close>

section \<open>Requests\<close>

record http_request =
  hq_Method :: string
  hq_URL :: string
  hq_ContentType :: string
  hq_Authorization :: string
  hq_Body :: string

text \<open>\<open>hr_Text\<close> is \<open>resp.Status\<close>, the code with its phrase. A body whose reading fails is what was read and the error.\<close>

record http_response =
  hr_Status :: nat
  hr_Text :: string
  hr_Body :: string
  hr_ReadError :: "err option"

type_synonym 's http = "CatalogClient \<Rightarrow> http_request \<Rightarrow> ('s, http_response) act"

definition bearer :: "CatalogClient \<Rightarrow> string" where
  "bearer c = (if cc_Token c \<noteq> '''' then ''Bearer '' @ cc_Token c else '''')"

definition get_request :: "CatalogClient \<Rightarrow> string \<Rightarrow> http_request" where
  "get_request c url = \<lparr>hq_Method = ''GET'', hq_URL = url, hq_ContentType = '''', hq_Authorization = bearer c, hq_Body = ''''\<rparr>"

text \<open>\<open>url.PathEscape\<close> and \<open>url.QueryEscape\<close>: the bytes that stay, and two upper-case digits for the others.\<close>

definition unreserved :: "char \<Rightarrow> bool" where "unreserved c \<longleftrightarrow> letter c \<or> is_digit c \<or> c \<in> set ''-_.~''"

definition percent :: "char \<Rightarrow> string" where
  "percent c = [CHR ''%'', ''0123456789ABCDEF'' ! (of_char c div 16), ''0123456789ABCDEF'' ! (of_char c mod 16)]"

definition PathEscape :: "string \<Rightarrow> string" where
  "PathEscape s = concat (map (\<lambda>c. if unreserved c \<or> c \<in> set ''$&+:=@'' then [c] else percent c) s)"

definition QueryEscape :: "string \<Rightarrow> string" where
  "QueryEscape s = concat (map (\<lambda>c. if c = CHR '' '' then ''+'' else if unreserved c then [c] else percent c) s)"

section \<open>The calls (catalog.go)\<close>

definition maxErrorBodyBytes :: nat where "maxErrorBodyBytes = 1024"
definition maxChartDownloadBytes :: nat where "maxChartDownloadBytes = 64 * 1024 * 1024"
definition maxAppStatusBytes :: nat where "maxAppStatusBytes = 1024 * 1024"

text \<open>The mark of an excerpt begins with an ellipsis in UTF-8.\<close>

definition errorBodyExcerpt :: "string \<Rightarrow> string" where
  "errorBodyExcerpt body =
     (let s = trim_space body
      in if length s \<le> maxErrorBodyBytes then s
         else take maxErrorBodyBytes s @ [CHR 0xE2, CHR 0x80, CHR 0xA6] @ '' (truncated)'')"

definition token_rejected :: "http_response \<Rightarrow> bool" where "token_rejected resp \<longleftrightarrow> hr_Status resp \<in> {401, 403}"

definition errUnauthorized :: string where "errUnauthorized = ''rancher catalog API rejected the token''"

text \<open>The error of a status: \<open>ErrUnauthorized\<close> with its text in front where the token was rejected.\<close>

definition status_error :: "http_response \<Rightarrow> string \<Rightarrow> err" where
  "status_error resp msg = (if token_rejected resp then Err SUnauthorized (errUnauthorized @ '': '' @ msg) else Err SOther msg)"

definition catalog_CheckAuth :: "'s http \<Rightarrow> CatalogClient \<Rightarrow> ('s, unit) act" where
  "catalog_CheckAuth http c s =
     (case http c (get_request c (cc_BaseURL c @ ''/v1/catalog.cattle.io.clusterrepos?limit=1'')) s of
        (Inl e, s1) \<Rightarrow> (Inl (wrap_err ''request Rancher catalog'' e), s1)
      | (Inr resp, s1) \<Rightarrow>
          (if hr_Status resp = 200 then Inr ()
           else if token_rejected resp then Inl (Err SUnauthorized (errUnauthorized @ '' ('' @ hr_Text resp @ '')''))
           else Inl (Err SOther (''rancher catalog returned '' @ hr_Text resp)), s1))"

definition chart_request :: "CatalogClient \<Rightarrow> string \<Rightarrow> string \<Rightarrow> string \<Rightarrow> http_request" where
  "chart_request c repoName chartName version = get_request c (cc_BaseURL c @ ''/v1/catalog.cattle.io.clusterrepos/'' @ PathEscape repoName
     @ ''?link=chart&chartName='' @ QueryEscape chartName @ ''&version='' @ QueryEscape version)"

definition FetchChart :: "'s http \<Rightarrow> CatalogClient \<Rightarrow> string \<Rightarrow> string \<Rightarrow> string \<Rightarrow> ('s, string) act" where
  "FetchChart http c repoName chartName version s =
     (case http c (chart_request c repoName chartName version) s of
        (Inl e, s1) \<Rightarrow> (Inl (wrap_err ''request Rancher catalog'' e), s1)
      | (Inr resp, s1) \<Rightarrow>
          (case hr_ReadError resp of
             Some e \<Rightarrow> (Inl (wrap_err ''read chart body'' e), s1)
           | None \<Rightarrow>
               let body = take maxChartDownloadBytes (hr_Body resp)
               in if hr_Status resp = 200 then (Inr body, s1)
                  else (Inl (status_error resp (''rancher catalog returned '' @ hr_Text resp @ '' for chart '' @ chartName @ ''@'' @ version
                          @ '' in repo '' @ go_quoted repoName @ '': '' @ errorBodyExcerpt body)), s1)))"

definition uninstall_request :: "CatalogClient \<Rightarrow> string \<Rightarrow> string \<Rightarrow> http_request" where
  "uninstall_request c ns release =
     \<lparr>hq_Method = ''POST'', hq_URL = cc_BaseURL c @ ''/v1/catalog.cattle.io.apps/'' @ PathEscape ns @ ''/'' @ PathEscape release @ ''?action=uninstall'',
      hq_ContentType = ''application/json'', hq_Authorization = bearer c, hq_Body = ''{'' @ [CHR 0x22] @ ''timeout'' @ [CHR 0x22] @ '':'' @ [CHR 0x22] @ ''600s'' @ [CHR 0x22] @ ''}''\<rparr>"

definition catalog_UninstallApp :: "'s http \<Rightarrow> CatalogClient \<Rightarrow> string \<Rightarrow> string \<Rightarrow> ('s, unit) act" where
  "catalog_UninstallApp http c ns release s =
     (case http c (uninstall_request c ns release) s of
        (Inl e, s1) \<Rightarrow> (Inl (wrap_err (''request Rancher uninstall '' @ ns @ ''/'' @ release) e), s1)
      | (Inr resp, s1) \<Rightarrow>
          (if 200 \<le> hr_Status resp \<and> hr_Status resp < 300 \<or> hr_Status resp = 404 then Inr ()
           else Inl (status_error resp (''rancher uninstall '' @ ns @ ''/'' @ release @ '' returned '' @ hr_Text resp @ '': ''
                  @ errorBodyExcerpt (take (maxErrorBodyBytes * 2) (hr_Body resp)))), s1))"

definition app_request :: "CatalogClient \<Rightarrow> string \<Rightarrow> string \<Rightarrow> http_request" where
  "app_request c ns release = get_request c (cc_BaseURL c @ ''/v1/catalog.cattle.io.apps/'' @ PathEscape ns @ ''/'' @ PathEscape release)"

text \<open>\<open>status.summary.state\<close> of the App; a member that is missing or null is empty.\<close>

definition app_state :: "string \<Rightarrow> string option" where
  "app_state body = Option.bind (unmarshal body) (decode_struct (\<lambda>app.
     decode_struct (\<lambda>status. decode_struct (\<lambda>summary. str_value (summary ''state'')) (case status ''summary'' of None \<Rightarrow> JNull | Some j \<Rightarrow> j))
       (case app ''status'' of None \<Rightarrow> JNull | Some j \<Rightarrow> j)))"

definition catalog_AppUninstallInProgress :: "'s http \<Rightarrow> CatalogClient \<Rightarrow> string \<Rightarrow> string \<Rightarrow> ('s, bool) act" where
  "catalog_AppUninstallInProgress http c ns release s =
     (case http c (app_request c ns release) s of
        (Inl e, s1) \<Rightarrow> (Inl (wrap_err (''request Rancher app '' @ ns @ ''/'' @ release) e), s1)
      | (Inr resp, s1) \<Rightarrow>
          (let body = take maxAppStatusBytes (hr_Body resp)
           in if hr_Status resp = 404 then Inr False
              else if token_rejected resp \<or> hr_Status resp < 200 \<or> hr_Status resp \<ge> 300
                then Inl (status_error resp (''rancher app '' @ ns @ ''/'' @ release @ '' returned '' @ hr_Text resp @ '': '' @ errorBodyExcerpt body))
              else (case app_state body of
                      None \<Rightarrow> Inl (Err SOther (''decode rancher app '' @ ns @ ''/'' @ release))
                    | Some state \<Rightarrow> Inr (EqualFold state ''uninstalling'')), s1))"

section \<open>The deletion of a workload over the client\<close>

definition rancher_uninstaller :: "'s http \<Rightarrow> CatalogClient \<Rightarrow> 's Uninstaller" where
  "rancher_uninstaller http c = \<lparr>UninstallApp = catalog_UninstallApp http c, AppUninstallInProgress = catalog_AppUninstallInProgress http c\<rparr>"

text \<open>What an answer about the App means for the deletion.\<close>

datatype app_answer = TokenRejected | Uninstalling | Removable | Unusable

definition app_answer_of :: "http_response \<Rightarrow> app_answer" where
  "app_answer_of resp =
     (if token_rejected resp then TokenRejected
      else if hr_Status resp = 404 then Removable
      else if 200 \<le> hr_Status resp \<and> hr_Status resp < 300
        then (case app_state (take maxAppStatusBytes (hr_Body resp)) of
                None \<Rightarrow> Unusable | Some state \<Rightarrow> if EqualFold state ''uninstalling'' then Uninstalling else Removable)
      else Unusable)"

lemma AppUninstallInProgress_answers:
  assumes "http c (app_request c ns release) s = (Inr resp, s1)"
  shows "\<exists>e. catalog_AppUninstallInProgress http c ns release s =
    (case app_answer_of resp of
       TokenRejected \<Rightarrow> Inl (Err SUnauthorized e) | Uninstalling \<Rightarrow> Inr True | Removable \<Rightarrow> Inr False | Unusable \<Rightarrow> Inl (Err SOther e), s1)"
  using assms by (auto simp: catalog_AppUninstallInProgress_def app_answer_of_def status_error_def token_rejected_def Let_def split: option.splits)

lemma UninstallApp_answers:
  assumes "http c (uninstall_request c ns release) s = (Inr resp, s1)"
  shows "\<exists>e. catalog_UninstallApp http c ns release s =
    (if 200 \<le> hr_Status resp \<and> hr_Status resp < 300 \<or> hr_Status resp = 404 then Inr ()
     else Inl (Err (if token_rejected resp then SUnauthorized else SOther) e), s1)"
  using assms by (auto simp: catalog_UninstallApp_def status_error_def)

section \<open>Escaping\<close>

lemma concat_map_inj:
  assumes first: "\<And>c d u v. f c @ u = f d @ v \<Longrightarrow> c = d" and nonempty: "\<And>c. f c \<noteq> []" and eq: "concat (map f xs) = concat (map f ys)"
  shows "xs = ys"
  using eq
proof (induction xs arbitrary: ys)
  case Nil
  then show ?case using nonempty by (cases ys) auto
next
  case (Cons x xs)
  then obtain y zs where ys: "ys = y # zs" using nonempty by (cases ys) auto
  with Cons.prems have "f x @ concat (map f xs) = f y @ concat (map f zs)" by simp
  moreover from this have "x = y" by (rule first)
  ultimately show ?case using Cons.IH [of zs] ys by simp
qed

lemma percent_inj: "percent c @ u = percent d @ v \<Longrightarrow> c = d"
proof -
  assume a: "percent c @ u = percent d @ v"
  have hex: "distinct ''0123456789ABCDEF''" "length ''0123456789ABCDEF'' = 16" by simp_all
  have b: "(of_char x :: nat) div 16 < 16" "(of_char x :: nat) mod 16 < 16" for x
    using byte_of_char [of x] by (simp_all add: less_mult_imp_div_less)
  have "''0123456789ABCDEF'' ! (of_char c div 16) = ''0123456789ABCDEF'' ! (of_char d div 16)"
    "''0123456789ABCDEF'' ! (of_char c mod 16) = ''0123456789ABCDEF'' ! (of_char d mod 16)"
    using a by (simp_all only: percent_def append_Cons list.inject)
  then have "(of_char c :: nat) div 16 = of_char d div 16" "(of_char c :: nat) mod 16 = of_char d mod 16"
    by (simp_all only: nth_eq_iff_index_eq [OF hex(1)] b hex(2))
  then have "(of_char c :: nat) = of_char d" by (metis div_mult_mod_eq)
  then show "c = d" by (rule char_by_code)
qed

text \<open>An escaping that leaves a byte, puts another in its place or writes its two digits can be undone.\<close>

lemma escaping_inj:
  assumes kind: "\<And>c. f c = percent c \<or> (\<exists>r. f c = [r] \<and> r \<noteq> CHR ''%'')" and single: "\<And>c d r. f c = [r] \<Longrightarrow> f d = [r] \<Longrightarrow> c = d"
    and eq: "concat (map f xs) = concat (map f ys)"
  shows "xs = ys"
proof (rule concat_map_inj [OF _ _ eq])
  have p: "percent c = CHR ''%'' # tl (percent c)" for c by (simp add: percent_def)
  show "f c \<noteq> []" for c using kind [of c] p [of c] by auto
  fix c d u v
  assume a: "f c @ u = f d @ v"
  consider "f c = percent c" "f d = percent d" | r where "f c = [r]" "r \<noteq> CHR ''%''" "f d = percent d"
    | r where "f c = percent c" "f d = [r]" "r \<noteq> CHR ''%''" | r t where "f c = [r]" "f d = [t]"
    using kind [of c] kind [of d] by blast
  then show "c = d"
  proof cases
    case 1
    then show ?thesis using a percent_inj by simp
  next
    case 2
    then show ?thesis using a p [of d] by (metis append_Cons list.inject)
  next
    case 3
    then show ?thesis using a p [of c] by (metis append_Cons list.inject)
  next
    case 4
    then show ?thesis using a single by simp
  qed
qed

lemma unreserved_plain [simp]: "\<not> unreserved CHR ''%''" "\<not> unreserved CHR ''+''" "\<not> unreserved CHR '' ''"
  "\<not> unreserved CHR ''/''" "\<not> unreserved CHR ''?''" "\<not> unreserved CHR ''&''"
  by (simp_all add: unreserved_def letter_def is_digit_def)

lemma percent_long [simp]: "percent c \<noteq> [r]"
  by (simp add: percent_def)

lemma PathEscape_inj: "PathEscape s = PathEscape t \<longleftrightarrow> s = t"
proof
  assume "PathEscape s = PathEscape t"
  then show "s = t" unfolding PathEscape_def by (rule escaping_inj [rotated 2]) (auto split: if_splits)
qed simp

lemma QueryEscape_inj: "QueryEscape s = QueryEscape t \<longleftrightarrow> s = t"
proof
  assume "QueryEscape s = QueryEscape t"
  then show "s = t" unfolding QueryEscape_def by (rule escaping_inj [rotated 2]) (auto split: if_splits)
qed simp

text \<open>The digits of an escape, and so what separates the parts of a request does not occur within them.\<close>

lemma percent_digits: "set (percent c) \<subseteq> set ''%0123456789ABCDEF''"
proof -
  have "''0123456789ABCDEF'' ! i \<in> set ''0123456789ABCDEF''" if "i < 16" for i
    using that nth_mem [of i "''0123456789ABCDEF''"] by simp
  moreover have "(of_char c :: nat) div 16 < 16" "(of_char c :: nat) mod 16 < 16"
    using byte_of_char [of c] by (simp_all add: less_mult_imp_div_less)
  ultimately have "set (percent c) \<subseteq> insert CHR ''%'' (set ''0123456789ABCDEF'')"
    unfolding percent_def by (simp only: list.set insert_subset empty_subsetI insertI1 insertI2 simp_thms)
  then show ?thesis by (simp only: list.set)
qed

lemma escaped_clean: "CHR ''/'' \<notin> set (PathEscape s)" "CHR ''?'' \<notin> set (PathEscape s)" "CHR ''&'' \<notin> set (QueryEscape s)"
proof -
  have "CHR ''/'' \<notin> set (percent c)" "CHR ''?'' \<notin> set (percent c)" "CHR ''&'' \<notin> set (percent c)" for c
    using percent_digits [of c] by auto
  then show "CHR ''/'' \<notin> set (PathEscape s)" "CHR ''?'' \<notin> set (PathEscape s)" "CHR ''&'' \<notin> set (QueryEscape s)"
    by (auto simp: PathEscape_def QueryEscape_def split: if_splits)
qed

lemma split_once:
  assumes "x \<notin> set a" "x \<notin> set b" "a @ x # u = b @ x # v"
  shows "a = b \<and> u = v"
  using assms
proof (induction a arbitrary: b)
  case Nil
  then show ?case by (cases b) auto
next
  case (Cons y a)
  then show ?case by (cases b) auto
qed

section \<open>What the client guarantees\<close>

text \<open>
  C28. A request names its release. The requests about two apps, or for two charts, are the same only if namespace and release, or repository, chart and
  version are: no name can be spelled by others that contain separators or escapes.
\<close>

theorem requests_name_releases:
  "(app_request c ns release = app_request c ns' release' \<longleftrightarrow> ns = ns' \<and> release = release')
   \<and> (uninstall_request c ns release = uninstall_request c ns' release' \<longleftrightarrow> ns = ns' \<and> release = release')
   \<and> (chart_request c repo chart version = chart_request c repo' chart' version' \<longleftrightarrow> repo = repo' \<and> chart = chart' \<and> version = version')"
proof (intro conjI iffI)
  note simps = app_request_def uninstall_request_def chart_request_def get_request_def
  {
    assume "app_request c ns release = app_request c ns' release'"
    then have "PathEscape ns @ CHR ''/'' # PathEscape release = PathEscape ns' @ CHR ''/'' # PathEscape release'" by (simp add: simps)
    then show "ns = ns'" "release = release'" using split_once escaped_clean(1) PathEscape_inj by metis+
  }
  {
    assume "uninstall_request c ns release = uninstall_request c ns' release'"
    then have "PathEscape ns @ CHR ''/'' # PathEscape release = PathEscape ns' @ CHR ''/'' # PathEscape release'" by (simp add: simps)
    then show "ns = ns'" "release = release'" using split_once escaped_clean(1) PathEscape_inj by metis+
  }
  {
    assume a: "chart_request c repo chart version = chart_request c repo' chart' version'"
    let ?rest = "\<lambda>n v. ''link=chart&chartName='' @ QueryEscape n @ CHR ''&'' # ''version='' @ QueryEscape v"
    from a have "PathEscape repo @ CHR ''?'' # ?rest chart version = PathEscape repo' @ CHR ''?'' # ?rest chart' version'" by (simp add: simps)
    then have r: "PathEscape repo = PathEscape repo'" "?rest chart version = ?rest chart' version'"
      using split_once escaped_clean(2) by metis+
    then have "QueryEscape chart @ CHR ''&'' # ''version='' @ QueryEscape version = QueryEscape chart' @ CHR ''&'' # ''version='' @ QueryEscape version'"
      by simp
    then have q: "QueryEscape chart = QueryEscape chart'" "''version='' @ QueryEscape version = ''version='' @ QueryEscape version'"
      using split_once escaped_clean(3) by metis+
    show "repo = repo'" "chart = chart'" "version = version'" using r(1) q by (simp_all add: PathEscape_inj QueryEscape_inj)
  }
qed (simp_all)

text \<open>
  C25. What an answer of Rancher makes of the deletion of a release. An answer 401 or 403, to the question about the App or to the order to uninstall it, always ends in the
  condition that asks for a new token, and no other answer does. An App that is being uninstalled is waited for and not ordered again; the order goes out exactly
  if the App can be removed or is gone, and a failed call is repeated after 15 seconds. In no case is the release taken for gone.
\<close>

theorem rancher_answers_settle:
  assumes asked: "http c (app_request c ns release) s = (Inr app, s1)"
  shows "delegate_uninstall stat (rancher_uninstaller http c) ns release (w, s) =
    (let again = (\<lambda>ws. (Inr (False, requeue_after (15 * int second)), ws));
         waits = keep_waiting stat reasonUninstalling ''Uninstalling the Helm release via Rancher; waiting for it to clear.'' 10
     in case app_answer_of app of
          TokenRejected \<Rightarrow> rejectToken stat (w, s1)
        | Uninstalling \<Rightarrow> waits (w, s1)
        | Unusable \<Rightarrow> again (w, s1)
        | Removable \<Rightarrow>
            (case http c (uninstall_request c ns release) s1 of
               (Inl e, s2) \<Rightarrow> if err_is e = SUnauthorized then rejectToken stat (w, s2) else again (w, s2)
             | (Inr resp, s2) \<Rightarrow>
                 if hr_Status resp \<in> {401, 403} then rejectToken stat (w, s2)
                 else if 200 \<le> hr_Status resp \<and> hr_Status resp < 300 \<or> hr_Status resp = 404 then waits (w, s2)
                 else again (w, s2)))"
proof -
  obtain r2 s2 where o: "http c (uninstall_request c ns release) s1 = (r2, s2)" by fastforce
  show ?thesis
  proof (cases r2)
    case (Inl e)
    then have "catalog_UninstallApp http c ns release s1 = (Inl (wrap_err (''request Rancher uninstall '' @ ns @ ''/'' @ release) e), s2)"
      using o by (simp add: catalog_UninstallApp_def)
    then show ?thesis using AppUninstallInProgress_answers [of http, OF asked] o Inl
      by (auto simp: delegate_uninstall_def rancher_uninstaller_def Let_def split: app_answer.splits)
  next
    case (Inr resp)
    then show ?thesis using AppUninstallInProgress_answers [of http, OF asked] UninstallApp_answers [of http c ns release s1] o
      by (fastforce simp: delegate_uninstall_def rancher_uninstaller_def Let_def token_rejected_def split: app_answer.splits)
  qed
qed

text \<open>An App that is gone, and a token that may not uninstall.\<close>

definition read_only_rancher :: "http_request list http" where
  "read_only_rancher c q log =
     (Inr (if hq_Method q = ''GET'' then \<lparr>hr_Status = 404, hr_Text = ''404 Not Found'', hr_Body = '''', hr_ReadError = None\<rparr>
           else \<lparr>hr_Status = 403, hr_Text = ''403 Forbidden'', hr_Body = ''no'', hr_ReadError = None\<rparr>), log @ [q])"

theorem rancher_answers_settle_witness:
  "(let c = \<lparr>cc_BaseURL = ''https://rancher'', cc_Token = ''t'', cc_InsecureSkipVerify = False, cc_RootCAs = None\<rparr>;
        stat = (\<lambda>w log. (Inr w, log))
    in \<forall>w. delegate_uninstall stat (rancher_uninstaller read_only_rancher c) ''ns'' ''rel'' (w, [])
         = rejectToken stat (w, [app_request c ''ns'' ''rel'', uninstall_request c ''ns'' ''rel'']))"
  unfolding Let_def
proof
  fix w :: AIWorkload
  let ?c = "\<lparr>cc_BaseURL = ''https://rancher'', cc_Token = ''t'', cc_InsecureSkipVerify = False, cc_RootCAs = None\<rparr>"
  let ?app = "\<lparr>hr_Status = 404, hr_Text = ''404 Not Found'', hr_Body = '''', hr_ReadError = None\<rparr>"
  have asked: "read_only_rancher ?c (app_request ?c ''ns'' ''rel'') [] = (Inr ?app, [app_request ?c ''ns'' ''rel''])"
    by (simp add: read_only_rancher_def app_request_def get_request_def)
  have "app_answer_of ?app = Removable" by (simp add: app_answer_of_def token_rejected_def)
  then show "delegate_uninstall (\<lambda>w log. (Inr w, log)) (rancher_uninstaller read_only_rancher ?c) ''ns'' ''rel'' (w, [])
      = rejectToken (\<lambda>w log. (Inr w, log)) (w, [app_request ?c ''ns'' ''rel'', uninstall_request ?c ''ns'' ''rel''])"
    by (simp add: rancher_answers_settle [of read_only_rancher, OF asked] read_only_rancher_def uninstall_request_def)
qed

end
