(* ===== verification/Spec2Isabelle.thy ===== *)
theory Spec2Isabelle
  imports ControllerPass RancherPass CatalogPass SettingsRepos SettingsGit ApiWorld ApiSettingsPass SafeHttp RancherHttp
begin

text \<open>
  \<^bold>\<open>The SUSE AI Factory operator.\<close> A Kubernetes operator, written in Go under \<open>src/operator\<close>. It deploys
  AI workloads (\<open>AIWorkload\<close>: one chart, or a blueprint of charts) to the local and to downstream clusters with
  Helm, Rancher Fleet or a Git repository that Fleet watches, delivers the pull secrets of their images, and
  installs Rancher user-interface extensions (\<open>InstallAIExtension\<close>). A third controller keeps what the one \<open>Settings\<close>
  resource asks for: registries, their credentials, Git repositories, blueprint catalogs. The development models these
  controllers, the REST API in front of them, the catalog of charts and what they rest on, and proves what they guarantee. A property is numbered
  \<open>C\<close>\<open>n\<close> in the text before it.

  \<^bold>\<open>How the parts interact.\<close> The API writes requests (upgrade, rollback, retry) as annotations of a workload.
  A pass of \<open>Reconcile\<close> reads the workload, stores a finalizer, takes over a request into the journal annotation,
  renders every component of the blueprint with the pull secrets injected, writes the result as HelmOps, Bundles
  or git files, delivers the secrets, reads from Fleet how far the clusters are, decides whether the operation in
  flight is over, and stores the status. The extension controller resolves credentials, brings a Helm release to
  what the spec asks for, waits for its deployments, and creates the ClusterRepo and the UIPlugin through which
  Rancher serves it. The settings controller finds the registry secrets, mirrors them to where Rancher and Fleet read
  them, and creates the ClusterRepos from which the workloads' charts come, among them one for each NGC repository of
  the bundled catalog; the generator under \<open>hack/generate-catalog\<close> keeps that catalog up to date.

  \<^bold>\<open>How the model corresponds to the code.\<close> A struct is a record with the fields that are used, an enumeration
  or tagged union a datatype, a Go pointer an \<open>option\<close>, a Go string a list of 8-bit characters, a fixed-width
  integer a \<open>word\<close> where it can wrap. A function that returns an error returns a sum, its left side an \<open>err\<close> with
  the sentinel and the text. Code that calls a server threads a state of any type (\<open>'s\<close>), and the calls are
  fields of a record that the function takes; a pass also returns the object it holds in memory. The clock of a pass is an
  argument. The interfaces (what a server, a library or a remote promises) are locales; each is interpreted on an
  in-memory world that keeps a schedule of faults, so that every property about failures holds of a
  world that can fail before or after each call.

  \<^bold>\<open>Foundations.\<close>
  \<^item> \<open>Prelude\<close>: errors, results, maps, the named collections. \<open>GoStrings\<close>, \<open>GoNumbers\<close>, \<open>GoTime\<close>, \<open>GoUrl\<close>: what the
    code uses of Go's library, with \<open>internal/naming\<close>. \<open>GoJson\<close>, \<open>GoIndent\<close>: writing and reading JSON, with a
    round trip. \<open>GoSha256\<close>, \<open>GoDigests\<close>: SHA-256 on 32-bit words and the digests that are needed as constants.
  \<^item> \<open>WorkloadTypes\<close>: the resources of \<open>api/v1alpha1\<close>. \<open>Names\<close>: names derived from names.

  \<^bold>\<open>The workload controller\<close> (\<open>internal/controller/aiworkload\<close>, \<open>internal/credentials\<close>, \<open>internal/cluster\<close>, \<open>internal/git\<close>).
  \<^item> \<open>Journal\<close> (\<open>journal.go\<close>), \<open>Digest\<close> (\<open>keys.go\<close>, \<open>digest.go\<close>), \<open>Operations\<close> (\<open>operations.go\<close>): the operation in flight. It is never
    lost (C1), decided as the code means to (C13), and its request is handled once (C30); C36 and C37 are the
    round trip of the journal and what the digest of an intent identifies; \<open>same_version_upgrade_repeats\<close> and \<open>rollback_succeeds_at_once\<close> are two flaws.
  \<^item> \<open>Rollout\<close> (\<open>certify.go\<close>, the matrix and phases of \<open>blueprint.go\<close>), \<open>Readiness\<close> (\<open>helm\_readiness.go\<close>, \<open>infra/kubernetes\<close>):
    what Fleet and Helm show (C5, C10, and \<open>newest_revision_decides\<close> of a Helm release).
  \<^item> \<open>Values\<close>, \<open>Credentials\<close>, \<open>DockerConfig\<close>, \<open>Injectors\<close>: the values of a component, where the credentials of a registry
    are found, and the secrets wired into the values (C8, C31, C32).
  \<^item> \<open>PullSecrets\<close>, \<open>Frames\<close>, \<open>SaMerge\<close>, \<open>Delivery\<close>: delivery of the secrets to the clusters, their merge into service accounts, the bounded
    restart of pods that cannot pull, the cleanup (C33, C34, C35, \<open>cleanup_takes_shared_bundle\<close>, \<open>deletion_prunes_accounts\<close>).
  \<^item> \<open>Chart\<close>, \<open>Git\<close>, \<open>Fleet\<close>, \<open>FleetStore\<close>: what is rendered for Fleet and how it is kept in the cluster and on the branch; \<open>Hub\<close> is
    the in-memory management cluster that the locales are interpreted on; \<open>FleetPass\<close> and \<open>GitPass\<close> hold whole passes
    (C15, C18, \<open>shared_file_lost\<close>; \<open>fingerprint_identifies\<close> and \<open>git_file_roundtrip\<close> are about the files).
  \<^item> \<open>AppStatus\<close>, \<open>AppPass\<close>, \<open>Deletion\<close>, \<open>DeletionPass\<close>: single applications and the deletion of a workload (C7, \<open>added_component_orphaned\<close>, and \<open>removed_file_orphans_secrets\<close>).
  \<^item> \<open>Controller\<close>, \<open>ControllerPass\<close>: \<open>Reconcile\<close> and the pass over a blueprint. A pass that ends Ready refines the abstract
    deployment, which is the set of desired HelmOps with the content the spec asks for (C4); C16 and \<open>component_failure_reported\<close> are the order of its steps and its errors.

  \<^bold>\<open>The extension controller\<close> (\<open>internal/controller/installaiextension\<close>, \<open>internal/infra\<close>).
  \<^item> \<open>HelmEngine\<close>, \<open>HelmPass\<close> (\<open>internal/infra/helm\<close>): a pass that leaves a release alone has a reason (C3) and a settled release
    costs no pulls (\<open>quiet_after_verdict\<close>).
  \<^item> \<open>HelmAuth\<close> (\<open>helmauth.go\<close>, \<open>helmtls.go\<close>), \<open>Rancher\<close>, \<open>RancherPass\<close> (\<open>internal/infra/rancher\<close>, \<open>index.go\<close>): credentials of a chart pull, and the
    objects that Rancher reads (\<open>refresh_once_per_version\<close>, \<open>metadata_current\<close>).
  \<^item> \<open>RancherHttp\<close> (\<open>infra/rancher/catalog.go\<close>): the requests of the catalog client and what it makes of the answers; a request names its
    release (C28), and every answer has its place in the deletion of a Helm release (C25).
  \<^item> \<open>Extension\<close>, \<open>ExtensionControl\<close>, \<open>ExtensionPass\<close>: the reconciler, honest about what is installed (C2), with bounded waits (C19),
    a deletion that leaves nothing recorded behind (C22), retries that back off (C29), and the order of cleanup, host check and credentials
    (\<open>failed_uninstall_forgotten\<close>, \<open>rejected_before_credentials\<close>).

  \<^bold>\<open>The settings controller\<close> (\<open>internal/controller/settings\<close>, \<open>internal/infra/rancher/ca.go\<close>).
  \<^item> \<open>Settings\<close>: the reconciler, one definition for each function of \<open>settings\_controller.go\<close>, over the record \<open>SettingsAPI\<close> of its
    calls; the steps of a long function have names of their own (\<open>mirror\_nvidia\<close>, \<open>apply\_team\<close>, \<open>reconcile\_catalog\<close>).
  \<^item> \<open>SettingsPass\<close>: the locale \<open>repo\_store\<close>, what a call may do to a ClusterRepo, and a calculus for what no pass does even
    when it fails. \<open>SettingsWorld\<close>: the in-memory server, on which it is interpreted; credentials reach only their registry (C6), and a
    rotation is lost when a pass fails after the mirror is written (C40).
  \<^item> \<open>SettingsRepos\<close>: Hoare triples over the ClusterRepos; a pass that succeeds leaves them as they are asked for (C11).
  \<^item> \<open>SettingsGit\<close>: the locale \<open>git\_store\<close>; catalogs do not disturb each other (C21).

  \<^bold>\<open>The catalog\<close> (\<open>internal/catalog\<close>, \<open>hack/generate-catalog\<close>).
  \<^item> \<open>Catalog\<close>: documents, their normal form, and which NGC repositories are public or gated. \<open>CatalogSync\<close>: the generator. The list of
    labels that all its entries share is a cell of the model, as an override writes into it.
  \<^item> \<open>CatalogPass\<close>: the normal form and the classification (\<open>catalog_normalized\<close>, \<open>team_repos_classified\<close>), fetching ends (C24), merging is
    settled and independent of the order of the results (C27), and one label in an override takes the label of all entries (\<open>label_override_strips_all\<close>).

  \<^bold>\<open>The REST API\<close> (\<open>internal/api\<close>). A handler takes the path values, the content type and the decoded body, and gives a status with
  an error or what is written; the calls of the API server and the random bytes are the records \<open>Web\<close> and \<open>SettingsWeb\<close>.
  \<^item> \<open>Api\<close> (\<open>errors.go\<close>, \<open>aiworkload.go\<close>, \<open>aiworkload\_actions.go\<close>, \<open>blueprint.go\<close>): workloads, recovery requests, blueprints. \<open>ApiPass\<close>: the
    locale \<open>web\_store\<close>; \<open>ApiWorld\<close>: the server in memory. What the API accepts the controller can deploy (C9), an accepted upgrade starts
    the operation (C12), and a blueprint is found by the name the controller derives (C20).
  \<^item> \<open>ApiSettings\<close> (\<open>settings.go\<close>, \<open>chart\_access.go\<close>, \<open>catalog.go\<close>), \<open>ApiSettingsPass\<close>: saving (C38), the preflight and the validated client agree with
    the controllers (C39, C17), and the checks of charts use the credentials as the settings controller does (C14,
    C23).
  \<^item> \<open>SafeHttp\<close> (\<open>internal/infra/safehttp\<close>): the destinations that the client for a remote catalog refuses (C26).

  \<^bold>\<open>Termination and bounds.\<close> All definitions but one are total: recursion is structural or has a measure (scanners by the
    rest of the text, the printer of numbers by the number). The parser of JSON takes fuel, the length of its
    text, and the round trips show that it is enough. The loop that pages through a search is a \<open>partial_function\<close>,
    as a server can keep it going; C24 shows that finitely many resources end it. The other loops of the code are over
    lists that do not change. What is bounded at run time is proved: handled requests (C30), pod restarts (C33), waits
    (C19), retries (C29), sizes of an archive (C18).

  \<^bold>\<open>Not modelled\<close>, or modelled as a parameter.
  \<^item> Libraries: Helm, go-git, the API server's client (\<open>CreateOrUpdate\<close> included), gzip and tar, PEM and X.509, the merge of values by
    mergo, and the order in which Go visits a map. Each is an argument of the definitions that use it.
  \<^item> Panics are errors, as the reconcilers' caller recovers them. Events, logs and metrics are left out, and so are locks: a pass is not
    interleaved with other writers, but each of its calls may fail or act and then fail. The clock stands still during a
    pass; times are read back in UTC and in whole seconds.
  \<^item> JSON decoding matches member names exactly, where Go also accepts another case; folding of case is ASCII; \<open>%q\<close> is that of
    names without special characters; of an IPv6 host only the brackets are checked.
  \<^item> Fleet's own finalizers: an object that is deleted is gone at once. Bundles that carry pull secrets are kept in a
    store of their own, apart from the Bundles with charts.
  \<^item> A server-side apply of a ClusterRepo or GitRepo is the object itself; fields that another manager owns are not kept apart, and the
    fields the operator forces to be empty are part of the object.
  \<^item> Of the REST API the routing table, middleware, \<open>managedFields\<close> and the latency of a probe; a spec has a deploy strategy, where the API server
    fills in an omitted one. The probes of a chart check run one after the other, as they share nothing.
  \<^item> What sends an HTTP request, the dialer and redirects of the safe client, the probes of credentials, program start, logging, generated deep copies and
    the user interface, which is in another language.
\<close>

end
